(* ===== verification/Prelude.thy ===== *)
theory Prelude
  imports Main "HOL-Library.List_Lexorder" "HOL-Library.Char_ord"
begin

text \<open>
  What every component shares: the errors the code throws as one datatype, the sum type that
  carries them, sequencing of fallible steps, and the few list operations that stand for SQL
  statements on a table (a table is the list of its rows in insertion order).
\<close>

named_theorems code_defs \<open>definitions that a concrete evaluation unfolds\<close>
named_theorems result_iff \<open>when a fallible operation succeeds\<close>

section \<open>Errors\<close>

text \<open>
  \<open>AppError code status field\<close> is the class of \<open>src/shared/errors.ts\<close> (the display message is
  left out), \<open>AuthorizationError\<close>, \<open>CallbackError\<close> and \<open>AuthFailure\<close> are the classes of the
  authorization, payment and auth modules, \<open>PlainError\<close> is \<open>new Error(message)\<close> (a Chinese
  message is given an ASCII tag), \<open>JsError\<close> an exception of the runtime itself
  (\<open>SyntaxError\<close>, \<open>RangeError\<close>), and \<open>SqlError sqlstate constraint\<close> what PostgreSQL raises.
\<close>

datatype err =
    AppError string nat "string option"
  | AuthorizationError
  | ReasonRequiredError
  | CallbackError string nat
  | AuthFailure string nat
  | PlainError string
  | JsError string
  | SqlError string string

type_synonym 'a result = "err + 'a"

section \<open>Sequencing fallible steps\<close>

definition bindE :: "'e + 'a \<Rightarrow> ('a \<Rightarrow> 'e + 'b) \<Rightarrow> 'e + 'b" where
  "bindE m k = (case m of Inl e \<Rightarrow> Inl e | Inr x \<Rightarrow> k x)"

lemma bindE_simps [simp]:
  "bindE (Inl e) k = Inl e"
  "bindE (Inr x) k = k x"
  by (simp_all add: bindE_def)

lemma bindE_if: "bindE (if c then m else m') k = (if c then bindE m k else bindE m' k)"
  by simp

lemma bindE_Inr_iff [result_iff]: "bindE m k = Inr y \<longleftrightarrow> (\<exists>x. m = Inr x \<and> k x = Inr y)"
  by (cases m) simp_all

lemma bindE_Inl_iff: "bindE m k = Inl e \<longleftrightarrow> m = Inl e \<or> (\<exists>x. m = Inr x \<and> k x = Inl e)"
  by (cases m) simp_all

lemma bindE_cong [fundef_cong]:
  "m = m' \<Longrightarrow> (\<And>x. m' = Inr x \<Longrightarrow> k x = k' x) \<Longrightarrow> bindE m k = bindE m' k'"
  by (cases m') simp_all

definition require :: "bool \<Rightarrow> 'e \<Rightarrow> 'e + unit" where
  "require c e = (if c then Inr () else Inl e)"

lemma require_simps [simp]:
  "require True e = Inr ()"
  "require False e = Inl e"
  by (simp_all add: require_def)

lemma require_Inr_iff [result_iff]: "require c e = Inr u \<longleftrightarrow> c"
  by (simp add: require_def)

fun map_result :: "('a \<Rightarrow> 'e + 'b) \<Rightarrow> 'a list \<Rightarrow> 'e + 'b list" where
  "map_result f [] = Inr []"
| "map_result f (x # xs) = bindE (f x) (\<lambda>y. bindE (map_result f xs) (\<lambda>ys. Inr (y # ys)))"

lemma map_result_Inr_length: "map_result f xs = Inr ys \<Longrightarrow> length ys = length xs"
  by (induction xs arbitrary: ys) (auto simp: bindE_Inr_iff)

section \<open>Tables\<close>

text \<open>
  \<open>first_row p t\<close> is \<open>rows[0]\<close> of a query that selects the rows with \<open>p\<close>;
  \<open>update_rows p f t\<close> is \<open>UPDATE t SET f WHERE p\<close>; \<open>count_rows\<close> is \<open>SELECT count(*)\<close>.
\<close>

definition first_row :: "('r \<Rightarrow> bool) \<Rightarrow> 'r list \<Rightarrow> 'r option" where
  "first_row p t = find p t"

definition update_rows :: "('r \<Rightarrow> bool) \<Rightarrow> ('r \<Rightarrow> 'r) \<Rightarrow> 'r list \<Rightarrow> 'r list" where
  "update_rows p f t = map (\<lambda>r. if p r then f r else r) t"

definition count_rows :: "('r \<Rightarrow> bool) \<Rightarrow> 'r list \<Rightarrow> nat" where
  "count_rows p t = length (filter p t)"

lemma first_row_Nil [simp]: "first_row p [] = None"
  by (simp add: first_row_def)

lemma first_row_Cons [simp]: "first_row p (r # t) = (if p r then Some r else first_row p t)"
  by (simp add: first_row_def)

lemma first_row_narrow: "first_row p t = Some r \<Longrightarrow> q r \<Longrightarrow> (\<And>x. q x \<Longrightarrow> p x) \<Longrightarrow> first_row q t = Some r"
  by (induction t) (auto split: if_splits)

lemma first_row_append:
  "first_row p (s @ t) = (case first_row p s of None \<Rightarrow> first_row p t | Some r \<Rightarrow> Some r)"
  by (induction s) auto

lemma first_row_SomeD: "first_row p t = Some r \<Longrightarrow> p r \<and> r \<in> set t"
  by (induction t) (auto split: if_splits)

lemma find_SomeD: "find p xs = Some x \<Longrightarrow> p x \<and> x \<in> set xs"
  by (auto simp: find_Some_iff)

lemma first_row_None_iff: "first_row p t = None \<longleftrightarrow> (\<forall>r \<in> set t. \<not> p r)"
  by (induction t) auto

lemma first_row_NoneD: "first_row p t = None \<Longrightarrow> r \<in> set t \<Longrightarrow> \<not> p r"
  by (simp add: first_row_None_iff)

lemma update_rows_simps [simp]:
  "update_rows p f [] = []"
  "update_rows p f (r # t) = (if p r then f r else r) # update_rows p f t"
  by (simp_all add: update_rows_def)

lemma length_update_rows [simp]: "length (update_rows p f t) = length t"
  by (simp add: update_rows_def)

lemma update_rows_append [simp]: "update_rows p f (s @ t) = update_rows p f s @ update_rows p f t"
  by (simp add: update_rows_def)

lemma in_update_rows:
  "r \<in> set (update_rows p f t) \<longleftrightarrow> (\<exists>r' \<in> set t. r = (if p r' then f r' else r'))"
  by (auto simp: update_rows_def)

lemma map_update_rows:
  "(\<And>r. p r \<Longrightarrow> g (f r) = g r) \<Longrightarrow> map g (update_rows p f t) = map g t"
  by (induction t) auto

lemma first_row_update_rows:
  "(\<And>r. q (if p r then f r else r) = q r) \<Longrightarrow>
   first_row q (update_rows p f t) = map_option (\<lambda>r. if p r then f r else r) (first_row q t)"
  by (induction t) auto

lemma first_row_unique:
  assumes "distinct (map key t)" and "r \<in> set t"
  shows "first_row (\<lambda>x. key x = key r) t = Some r"
  using assms by (induction t) (auto simp: image_iff)

lemma first_row_cong_set:
  "(\<And>r. r \<in> set t \<Longrightarrow> p r = q r) \<Longrightarrow> first_row p t = first_row q t"
  by (induction t) auto

lemma update_rows_id:
  "(\<And>r. r \<in> set t \<Longrightarrow> \<not> p r) \<Longrightarrow> update_rows p f t = t"
  by (induction t) auto

lemma list_all_update_rows:
  "list_all P t \<Longrightarrow> (\<And>r. P r \<Longrightarrow> P (f r)) \<Longrightarrow> list_all P (update_rows q f t)"
  by (induction t) auto

lemma sum_list_filter_one:
  fixes f g :: "'k \<Rightarrow> int"
  assumes "distinct ks" and "k0 \<in> set ks" and "\<And>k. k \<in> set ks \<Longrightarrow> f k = g k + (if k = k0 then m else 0)"
  shows "sum_list (map f (filter P ks)) = sum_list (map g (filter P ks)) + (if P k0 then m else 0)"
proof -
  have "k0 \<notin> set ks \<Longrightarrow> (\<And>k. k \<in> set ks \<Longrightarrow> f k = g k + (if k = k0 then m else 0)) \<Longrightarrow>
      sum_list (map f (filter P ks)) = sum_list (map g (filter P ks))" for ks
    by (induction ks) auto
  with assms show ?thesis
  proof (induction ks)
    case (Cons k ks)
    show ?case
    proof (cases "k = k0")
      case True
      then have "sum_list (map f (filter P ks)) = sum_list (map g (filter P ks))"
        using Cons.prems(1,3) Cons.prems(4) [of ks] by auto
      then show ?thesis using True Cons.prems(3) [of k0] by auto
    next
      case False
      then show ?thesis using Cons by auto
    qed
  qed simp
qed

lemma sum_list_update_rows:
  fixes g :: "'r \<Rightarrow> int"
  assumes "distinct (map key t)" and "r \<in> set t"
  shows "sum_list (map g (update_rows (\<lambda>x. key x = key r) f t))
       = sum_list (map g t) - g r + g (f r)"
  using assms
proof (induction t)
  case Nil
  then show ?case by simp
next
  case (Cons a t)
  show ?case
  proof (cases "a = r")
    case True
    then have "update_rows (\<lambda>x. key x = key r) f t = t"
      using Cons.prems(1) by (intro update_rows_id) (auto simp: image_iff)
    with True show ?thesis by simp
  next
    case False
    then have "r \<in> set t" and "key a \<noteq> key r"
      using Cons.prems by (auto simp: image_iff)
    with Cons show ?thesis by simp
  qed
qed

section \<open>PostgreSQL bigint\<close>

definition int64 :: "int \<Rightarrow> bool" where
  "int64 x \<longleftrightarrow> - (2 ^ 63) \<le> x \<and> x < 2 ^ 63"

definition bigint_overflow :: err where
  "bigint_overflow = SqlError ''22003'' ''bigint''"

lemma int64_0 [simp]: "int64 0"
  by (simp add: int64_def)

lemma int64_between: "int64 b \<Longrightarrow> 0 \<le> a \<Longrightarrow> a \<le> b \<Longrightarrow> int64 a"
  by (simp add: int64_def)

section \<open>Batches of messages\<close>

text \<open>\<open>run_all step xs s\<close> handles the messages \<open>xs\<close> one after the other, \<open>None\<close> when one is refused.\<close>

fun run_all :: "('i \<Rightarrow> 's \<Rightarrow> 's option) \<Rightarrow> 'i list \<Rightarrow> 's \<Rightarrow> 's option" where
  "run_all step [] s = Some s"
| "run_all step (x # xs) s = (case step x s of None \<Rightarrow> None | Some s' \<Rightarrow> run_all step xs s')"

lemma run_all_append:
  "run_all step (xs @ ys) s = (case run_all step xs s of None \<Rightarrow> None | Some s' \<Rightarrow> run_all step ys s')"
  by (induction xs arbitrary: s) (auto split: option.splits)

lemma run_all_inv:
  assumes "\<And>x s s'. P s \<Longrightarrow> step x s = Some s' \<Longrightarrow> P s'" and "P s" and "run_all step xs s = Some s'"
  shows "P s'"
  using assms(2,3) by (induction xs arbitrary: s) (auto split: option.splits dest: assms(1))

text \<open>The messages of a batch whose key is met for the first time.\<close>

fun fresh :: "('i \<Rightarrow> 'k) \<Rightarrow> 'k set \<Rightarrow> 'i list \<Rightarrow> 'i list" where
  "fresh key seen [] = []"
| "fresh key seen (x # xs) =
     (if key x \<in> seen then fresh key seen xs else x # fresh key (insert (key x) seen) xs)"

lemma fresh_seen: "key ` set xs \<subseteq> seen \<Longrightarrow> fresh key seen xs = []"
  by (induction xs) auto

definition result_option :: "'e + 'a \<Rightarrow> 'a option" where
  "result_option r = (case r of Inl e \<Rightarrow> None | Inr x \<Rightarrow> Some x)"

lemma result_option_simps [simp]:
  "result_option (Inl e) = None" "result_option (Inr x) = Some x"
  by (simp_all add: result_option_def)

lemma result_option_Some_iff [simp]: "result_option r = Some x \<longleftrightarrow> r = Inr x"
  by (cases r) simp_all

text \<open>
  The contract of a booking that carries a key: the key is booked at most once and its first
  booking moves the balance of its account by the amount. The client's view of it, for any
  stream of messages with repetitions.
\<close>

locale keyed_booking =
  fixes post :: "'i \<Rightarrow> 's \<Rightarrow> 's option"
    and key :: "'i \<Rightarrow> 'k" and amount :: "'i \<Rightarrow> int" and account :: "'i \<Rightarrow> 'a"
    and balance :: "'a \<Rightarrow> 's \<Rightarrow> int" and booked_keys :: "'s \<Rightarrow> 'k set" and good :: "'s \<Rightarrow> bool"
  assumes post_good: "good s \<Longrightarrow> post i s = Some s' \<Longrightarrow> good s'"
    and post_nonzero: "post i s = Some s' \<Longrightarrow> amount i \<noteq> 0"
    and post_again: "good s \<Longrightarrow> key i \<in> booked_keys s \<Longrightarrow> amount i \<noteq> 0 \<Longrightarrow> post i s = Some s"
    and post_first_keys: "good s \<Longrightarrow> post i s = Some s' \<Longrightarrow> booked_keys s' = insert (key i) (booked_keys s)"
    and post_first_balance: "good s \<Longrightarrow> post i s = Some s' \<Longrightarrow> key i \<notin> booked_keys s \<Longrightarrow>
          balance a s' = balance a s + (if a = account i then amount i else 0)"
begin

lemma batch_good: "good s \<Longrightarrow> run_all post is s = Some s' \<Longrightarrow> good s'"
  using run_all_inv [of good post] post_good by blast

lemma batch_keys: "good s \<Longrightarrow> run_all post is s = Some s' \<Longrightarrow> booked_keys s' = key ` set is \<union> booked_keys s"
proof (induction "is" arbitrary: s)
  case (Cons i "is")
  then obtain t where t: "post i s = Some t" "run_all post is t = Some s'" by (auto split: option.splits)
  have "booked_keys s' = key ` set is \<union> booked_keys t"
    using Cons.IH [of t] Cons.prems(1) t post_good by blast
  then show ?case using post_first_keys [OF Cons.prems(1) t(1)] by auto
qed simp

lemma batch_balance:
  "good s \<Longrightarrow> run_all post is s = Some s' \<Longrightarrow>
   balance a s' = balance a s
     + sum_list (map amount (filter (\<lambda>i. account i = a) (fresh key (booked_keys s) is)))"
proof (induction "is" arbitrary: s)
  case (Cons i "is")
  then obtain t where t: "post i s = Some t" "run_all post is t = Some s'" by (auto split: option.splits)
  have ih: "balance a s' = balance a t
      + sum_list (map amount (filter (\<lambda>i. account i = a) (fresh key (booked_keys t) is)))"
    using Cons t post_good by blast
  show ?case
  proof (cases "key i \<in> booked_keys s")
    case True
    then have "t = s" using t(1) post_again [of s i] post_nonzero Cons.prems by auto
    with ih True show ?thesis by simp
  next
    case False
    then show ?thesis
      using ih post_first_balance [OF Cons.prems(1) t(1) False] post_first_keys [OF Cons.prems(1) t(1)]
      by auto
  qed
qed simp

lemma batch_nonzero: "run_all post is s = Some s' \<Longrightarrow> i \<in> set is \<Longrightarrow> amount i \<noteq> 0"
  by (induction "is" arbitrary: s) (auto split: option.splits dest: post_nonzero)

lemma redelivery:
  assumes "good s" and "run_all post is s = Some s'" and "set js \<subseteq> set is"
  shows "run_all post js s' = Some s'"
proof -
  have good: "good s'" using assms batch_good by blast
  have keys: "key ` set is \<subseteq> booked_keys s'" using batch_keys assms by blast
  have "set js \<subseteq> set is \<Longrightarrow> run_all post js s' = Some s'" for js
    using good keys batch_nonzero [OF assms(2)] by (induction js) (auto simp: post_again image_subset_iff)
  then show ?thesis using assms(3) .
qed

end

end
