(* ===== verification/JsText.thy ===== *)
theory JsText
  imports Prelude
begin

text \<open>
  The string operations of the language that the code uses, on strings as lists of code units
  below 256: \<open>trim\<close>, \<open>padStart\<close>, \<open>padEnd\<close>, \<open>includes\<close>, the conversions between numbers and
  decimal strings (\<open>BigInt.prototype.toString\<close>, \<open>BigInt(string)\<close>) and the character classes the
  regular expressions name.
\<close>

section \<open>Character classes\<close>

definition is_digit :: "char \<Rightarrow> bool" where
  "is_digit c \<longleftrightarrow> 48 \<le> (of_char c :: nat) \<and> (of_char c :: nat) \<le> 57"

definition is_upper :: "char \<Rightarrow> bool" where
  "is_upper c \<longleftrightarrow> 65 \<le> (of_char c :: nat) \<and> (of_char c :: nat) \<le> 90"

definition is_lower :: "char \<Rightarrow> bool" where
  "is_lower c \<longleftrightarrow> 97 \<le> (of_char c :: nat) \<and> (of_char c :: nat) \<le> 122"

definition is_space :: "char \<Rightarrow> bool" where
  "is_space c \<longleftrightarrow> (of_char c :: nat) \<in> {9, 10, 11, 12, 13, 32, 160}"

definition to_upper :: "char \<Rightarrow> char" where
  "to_upper c = (if is_lower c then char_of ((of_char c :: nat) - 32) else c)"

definition to_lower :: "char \<Rightarrow> char" where
  "to_lower c = (if is_upper c then char_of ((of_char c :: nat) + 32) else c)"

lemma of_char_lt_256: "(of_char c :: nat) < 256"
  using of_char_mod_256 [of c, where ?'a = nat] by (metis mod_less_divisor zero_less_numeral)

section \<open>Trimming and padding\<close>

definition trim_left :: "string \<Rightarrow> string" where
  "trim_left s = dropWhile is_space s"

definition trim :: "string \<Rightarrow> string" where
  "trim s = rev (trim_left (rev (trim_left s)))"

definition pad_start :: "nat \<Rightarrow> char \<Rightarrow> string \<Rightarrow> string" where
  "pad_start n c s = replicate (n - length s) c @ s"

definition pad_end :: "nat \<Rightarrow> char \<Rightarrow> string \<Rightarrow> string" where
  "pad_end n c s = s @ replicate (n - length s) c"

lemma length_pad_start [simp]: "length (pad_start n c s) = max n (length s)"
  by (simp add: pad_start_def)

lemma set_pad_start: "set (pad_start n c s) \<subseteq> insert c (set s)"
  by (auto simp: pad_start_def set_replicate_conv_if split: if_splits)

lemma trim_no_space: "(\<forall>c \<in> set s. \<not> is_space c) \<Longrightarrow> trim s = s"
proof -
  assume a: "\<forall>c \<in> set s. \<not> is_space c"
  have d: "dropWhile is_space xs = xs" if "\<forall>c \<in> set xs. \<not> is_space c" for xs
    using that by (cases xs) auto
  show ?thesis using a d [of s] d [of "rev s"] by (simp add: trim_def trim_left_def)
qed

text \<open>
  \<open>toUpperCase\<close> on Latin-1: the sharp s becomes two letters, the micro sign and the y with
  diaeresis leave Latin-1 and are kept, which the pattern refuses either way.
\<close>

definition js_upper :: "string \<Rightarrow> string" where
  "js_upper s = concat (map (\<lambda>c. let n = (of_char c :: nat) in
     if n = 223 then ''SS''
     else if 97 \<le> n \<and> n \<le> 122 \<or> 224 \<le> n \<and> n \<le> 254 \<and> n \<noteq> 247 then [char_of (n - 32)]
     else [c]) s)"

section \<open>Searching\<close>

fun starts_with :: "string \<Rightarrow> string \<Rightarrow> bool" where
  "starts_with [] s = True"
| "starts_with (p # ps) [] = False"
| "starts_with (p # ps) (c # s) = (p = c \<and> starts_with ps s)"

fun str_includes :: "string \<Rightarrow> string \<Rightarrow> bool" where
  "str_includes p [] = (p = [])"
| "str_includes p (c # s) = (starts_with p (c # s) \<or> str_includes p s)"

lemma starts_with_iff: "starts_with p s \<longleftrightarrow> (\<exists>t. s = p @ t)"
  by (induction p s rule: starts_with.induct) auto

lemma str_includes_iff: "str_includes p s \<longleftrightarrow> (\<exists>u v. s = u @ p @ v)"
proof (induction p s rule: str_includes.induct)
  case (1 p)
  show ?case by auto
next
  case (2 p c s)
  show ?case
  proof
    assume "str_includes p (c # s)"
    then consider "starts_with p (c # s)" | "str_includes p s" by auto
    then show "\<exists>u v. c # s = u @ p @ v"
    proof cases
      case 1
      then obtain t where "c # s = [] @ p @ t" by (auto simp: starts_with_iff)
      then show ?thesis by blast
    next
      case 2
      with "2.IH" obtain u v where "c # s = (c # u) @ p @ v" by auto
      then show ?thesis by blast
    qed
  next
    assume "\<exists>u v. c # s = u @ p @ v"
    then obtain u v where eq: "c # s = u @ p @ v" by blast
    show "str_includes p (c # s)"
    proof (cases u)
      case Nil
      with eq have "starts_with p (c # s)" by (auto simp: starts_with_iff)
      then show ?thesis by simp
    next
      case (Cons a u')
      with eq have "s = u' @ p @ v" by simp
      with "2.IH" have "str_includes p s" by blast
      then show ?thesis by simp
    qed
  qed
qed

section \<open>Numbers and decimal strings\<close>

definition digit_char :: "nat \<Rightarrow> char" where
  "digit_char d = char_of (48 + d)"

definition digit_value :: "char \<Rightarrow> nat" where
  "digit_value c = of_char c - 48"

fun nat_str :: "nat \<Rightarrow> string" where
  "nat_str n = (if n < 10 then [digit_char n] else nat_str (n div 10) @ [digit_char (n mod 10)])"

declare nat_str.simps [simp del]
lemmas [code_defs] = nat_str.simps digit_char_def digit_value_def

definition int_str :: "int \<Rightarrow> string" where
  "int_str x = (if x < 0 then CHR ''-'' # nat_str (nat (- x)) else nat_str (nat x))"

definition digits_value :: "string \<Rightarrow> nat" where
  "digits_value s = foldl (\<lambda>v c. v * 10 + digit_value c) 0 s"

lemma digits_value_Nil [simp]: "digits_value [] = 0"
  by (simp add: digits_value_def)

lemma digits_value_snoc [simp]: "digits_value (s @ [c]) = digits_value s * 10 + digit_value c"
  by (simp add: digits_value_def)

lemma digits_value_append:
  "digits_value (s @ t) = digits_value s * 10 ^ length t + digits_value t"
proof (induction t rule: rev_induct)
  case Nil
  then show ?case by simp
next
  case (snoc c t)
  have "digits_value (s @ t @ [c]) = digits_value ((s @ t) @ [c])" by simp
  also have "\<dots> = digits_value (s @ t) * 10 + digit_value c" by (rule digits_value_snoc)
  finally show ?case by (simp add: snoc algebra_simps)
qed

lemma digit_char_value [simp]: "d < 10 \<Longrightarrow> digit_value (digit_char d) = d"
  by (simp add: digit_char_def digit_value_def)

lemma is_digit_digit_char [simp]: "d < 10 \<Longrightarrow> is_digit (digit_char d)"
  by (simp add: digit_char_def is_digit_def)

lemma digit_char_of_value: "is_digit c \<Longrightarrow> digit_char (digit_value c) = c"
  by (simp add: digit_char_def digit_value_def is_digit_def)

lemma digit_value_lt [simp]: "is_digit c \<Longrightarrow> digit_value c < 10"
  unfolding digit_value_def is_digit_def by linarith

lemma char_of_48: "char_of (48 :: nat) = CHR ''0''"
proof -
  have "(of_char CHR ''0'' :: nat) = 48" by simp
  then show ?thesis by (metis char_of_char)
qed

lemma digit_char_eq_0 [simp]: "d < 10 \<Longrightarrow> digit_char d = CHR ''0'' \<longleftrightarrow> d = 0"
proof -
  assume d: "d < 10"
  have "digit_value CHR ''0'' = 0" by (simp add: digit_value_def)
  then have "digit_char d = CHR ''0'' \<Longrightarrow> d = 0" using digit_char_value [OF d] by simp
  then show ?thesis by (auto simp: digit_char_def char_of_48)
qed

lemma is_digit_not_space: "is_digit c \<Longrightarrow> \<not> is_space c"
  by (auto simp: is_digit_def is_space_def)

lemma nat_str_digits: "\<forall>c \<in> set (nat_str n). is_digit c"
proof (induction n rule: nat_str.induct)
  case (1 n)
  then show ?case by (cases "n < 10") (auto simp: nat_str.simps [of n])
qed

lemma nat_str_nonempty [simp]: "nat_str n \<noteq> []"
  by (subst nat_str.simps) simp

lemma nat_str_value [simp]: "digits_value (nat_str n) = n"
proof (induction n rule: nat_str.induct)
  case (1 n)
  then show ?case
    by (cases "n < 10") (simp_all add: nat_str.simps [of n] digits_value_def)
qed

lemma nat_str_hd: "n \<noteq> 0 \<Longrightarrow> hd (nat_str n) \<noteq> CHR ''0''"
proof (induction n rule: nat_str.induct)
  case (1 n)
  then show ?case by (cases "n < 10") (auto simp: nat_str.simps [of n])
qed

lemma nat_str_inj [simp]: "nat_str m = nat_str n \<longleftrightarrow> m = n"
  by (metis nat_str_value)

text \<open>A decimal string without sign and without leading zeros: \<open>/^(0|[1-9][0-9]*)$/\<close>.\<close>

definition canonical_nat :: "string \<Rightarrow> bool" where
  "canonical_nat s \<longleftrightarrow> list_all is_digit s \<and> s \<noteq> [] \<and> (hd s = CHR ''0'' \<longrightarrow> s = ''0'')"

lemma canonical_nat_str [simp]: "canonical_nat (nat_str n)"
proof (cases "n = 0")
  case True
  then show ?thesis by (simp add: nat_str.simps [of 0] canonical_nat_def digit_char_def char_of_48 is_digit_def)
next
  case False
  then show ?thesis
    using nat_str_digits [of n] nat_str_hd [of n] by (simp add: canonical_nat_def list_all_iff)
qed

lemma nat_str_digits_value: "canonical_nat s \<Longrightarrow> nat_str (digits_value s) = s"
proof (induction s rule: rev_induct)
  case Nil
  then show ?case by (simp add: canonical_nat_def)
next
  case (snoc c s)
  have c: "is_digit c" using snoc.prems by (simp add: canonical_nat_def)
  show ?case
  proof (cases "s = []")
    case True
    have "nat_str (digit_value c) = [digit_char (digit_value c)]"
      using c by (subst nat_str.simps) simp
    with True c show ?thesis
      using digits_value_snoc [of "[]" c] by (simp add: digit_char_of_value)
  next
    case False
    then have hd: "hd s \<noteq> CHR ''0''" and can: "canonical_nat s"
      using snoc.prems by (auto simp: canonical_nat_def list_all_iff)
    then have ih: "nat_str (digits_value s) = s" by (intro snoc.IH)
    have "digits_value s \<noteq> 0"
    proof
      assume "digits_value s = 0"
      with ih have "s = ''0''" by (simp add: nat_str.simps [of 0] digit_char_def char_of_48)
      with hd show False by simp
    qed
    then show ?thesis
      using c ih by (subst nat_str.simps) (simp add: digit_char_of_value)
  qed
qed

lemma digits_value_all_zero: "(\<forall>c \<in> set s. c = CHR ''0'') \<Longrightarrow> digits_value s = 0"
  by (induction s rule: rev_induct) (auto simp: digit_value_def)

lemma digits_value_pad_start [simp]: "digits_value (pad_start n CHR ''0'' s) = digits_value s"
  by (simp add: pad_start_def digits_value_append digits_value_all_zero)

text \<open>
  \<open>BigInt(string)\<close>: white space around is dropped, the empty string is zero, an optional sign and
  decimal digits, or an unsigned hexadecimal, octal or binary literal; anything else is a
  \<open>SyntaxError\<close>.
\<close>

definition hex_value :: "char \<Rightarrow> nat option" where
  "hex_value c = (if is_digit c then Some (digit_value c)
     else if 97 \<le> (of_char c :: nat) \<and> (of_char c :: nat) \<le> 102 then Some (of_char c - 87)
     else if 65 \<le> (of_char c :: nat) \<and> (of_char c :: nat) \<le> 70 then Some (of_char c - 55)
     else None)"

fun based_value :: "nat \<Rightarrow> nat \<Rightarrow> string \<Rightarrow> nat option" where
  "based_value b v [] = Some v"
| "based_value b v (c # s) =
     (case hex_value c of None \<Rightarrow> None
      | Some d \<Rightarrow> if d < b then based_value b (v * b + d) s else None)"

fun js_bigint_body :: "string \<Rightarrow> int option" where
  "js_bigint_body [] = Some 0"
| "js_bigint_body (c # s) =
     (if c = CHR ''-'' then (if s \<noteq> [] \<and> list_all is_digit s then Some (- int (digits_value s)) else None)
      else if c = CHR ''+'' then (if s \<noteq> [] \<and> list_all is_digit s then Some (int (digits_value s)) else None)
      else if c = CHR ''0'' \<and> length s > 1 \<and> hd s \<in> {CHR ''x'', CHR ''X''}
        then map_option int (based_value 16 0 (tl s))
      else if c = CHR ''0'' \<and> length s > 1 \<and> hd s \<in> {CHR ''o'', CHR ''O''}
        then map_option int (based_value 8 0 (tl s))
      else if c = CHR ''0'' \<and> length s > 1 \<and> hd s \<in> {CHR ''b'', CHR ''B''}
        then map_option int (based_value 2 0 (tl s))
      else if list_all is_digit (c # s) then Some (int (digits_value (c # s)))
      else None)"

definition js_bigint :: "string \<Rightarrow> int result" where
  "js_bigint s = (case js_bigint_body (trim s) of None \<Rightarrow> Inl (JsError ''SyntaxError'') | Some x \<Rightarrow> Inr x)"

lemma digit_neq:
  assumes "is_digit c"
  shows "c \<noteq> CHR ''-''" "c \<noteq> CHR ''+''" "c \<notin> {CHR ''x'', CHR ''X''}"
    "c \<notin> {CHR ''o'', CHR ''O''}" "c \<notin> {CHR ''b'', CHR ''B''}" "c \<noteq> CHR ''.''"
  using assms by (auto simp: is_digit_def)

lemma js_bigint_body_digits:
  assumes "is_digit c" and "list_all is_digit s"
  shows "js_bigint_body (c # s) = Some (int (digits_value (c # s)))"
proof (cases s)
  case Nil
  with assms digit_neq [OF assms(1)] show ?thesis by simp
next
  case (Cons d u)
  then have "is_digit d" using assms(2) by simp
  note d = digit_neq [OF this]
  show ?thesis
    using assms digit_neq(1,2) [OF assms(1)] d(3-5) Cons by simp
qed

lemma js_bigint_digits:
  assumes "s \<noteq> []" and "list_all is_digit s"
  shows "js_bigint s = Inr (int (digits_value s))"
proof -
  obtain c t where s: "s = c # t" using assms(1) by (cases s) auto
  have t: "trim s = s"
    using assms(2) by (intro trim_no_space) (auto simp: list_all_iff dest: is_digit_not_space)
  have "js_bigint_body s = Some (int (digits_value s))"
    using assms(2) unfolding s by (intro js_bigint_body_digits) simp_all
  then show ?thesis using t by (simp add: js_bigint_def)
qed

lemma is_space_minus: "\<not> is_space CHR ''-''"
  by (simp add: is_space_def)

lemma js_bigint_int_str [simp]: "js_bigint (int_str x) = Inr x"
proof (cases "x < 0")
  case True
  have d: "list_all is_digit (nat_str (nat (- x)))" using nat_str_digits by (simp add: list_all_iff)
  then have "trim (int_str x) = int_str x"
    using True by (intro trim_no_space) (auto simp: int_str_def list_all_iff is_space_minus dest: is_digit_not_space)
  with True d show ?thesis by (simp add: js_bigint_def int_str_def)
next
  case False
  then show ?thesis
    using nat_str_digits [of "nat x"] by (simp add: int_str_def js_bigint_digits list_all_iff)
qed

lemma int_str_inj [simp]: "int_str a = int_str b \<longleftrightarrow> a = b"
  by (metis js_bigint_int_str sum.inject(2))

section \<open>Digit strings of a fixed width\<close>

definition digits :: "nat \<Rightarrow> string \<Rightarrow> bool" where
  "digits w s \<longleftrightarrow> length s = w \<and> list_all is_digit s"

definition zero_padded :: "nat \<Rightarrow> int \<Rightarrow> string" where
  "zero_padded w x = pad_start w CHR ''0'' (int_str x)"

lemma digits_value_Cons: "digits_value (c # s) = digit_value c * 10 ^ length s + digits_value s"
  using digits_value_append [of "[c]" s] digits_value_snoc [of "[]" c] by simp

lemma digits_value_less: "list_all is_digit s \<Longrightarrow> digits_value s < 10 ^ length s"
proof (induction s)
  case (Cons c s)
  have "Suc (digit_value c) * 10 ^ length s \<le> 10 * 10 ^ length s"
    using digit_value_lt [of c] Cons.prems by (intro mult_le_mono1) (simp add: Suc_le_eq)
  moreover have "digits_value s < 10 ^ length s" using Cons by simp
  ultimately show ?case unfolding digits_value_Cons mult_Suc length_Cons power_Suc by linarith
qed simp

lemma digit_less_iff: "is_digit c \<Longrightarrow> is_digit d \<Longrightarrow> c < d \<longleftrightarrow> digit_value c < digit_value d"
  by (auto simp: less_char_def digit_value_def is_digit_def)

lemma digit_eq_iff: "is_digit c \<Longrightarrow> is_digit d \<Longrightarrow> c = d \<longleftrightarrow> digit_value c = digit_value d"
  by (metis digit_char_of_value)

lemma less_digits_iff:
  "digits w s \<Longrightarrow> digits w t \<Longrightarrow> s < t \<longleftrightarrow> digits_value s < digits_value t"
proof (induction w arbitrary: s t)
  case 0
  then show ?case by (simp add: digits_def)
next
  case (Suc w)
  from Suc.prems obtain c s' d t' where s: "s = c # s'" and t: "t = d # t'"
    and ds: "digits w s'" "digits w t'" "is_digit c" "is_digit d"
    by (cases s; cases t) (auto simp: digits_def)
  define k :: nat where "k = 10 ^ w"
  have b: "digits_value s' < k" "digits_value t' < k"
    using digits_value_less [of s'] digits_value_less [of t'] ds by (auto simp: digits_def k_def)
  have v: "digits_value s = digit_value c * k + digits_value s'"
    "digits_value t = digit_value d * k + digits_value t'"
    using ds by (simp_all add: s t digits_value_Cons digits_def k_def)
  have gap: "a * k + k \<le> b * k" if "a < b" for a b :: nat
    using that mult_le_mono1 [of "Suc a" b k] by simp
  show ?case
  proof (cases "digit_value c" "digit_value d" rule: linorder_cases)
    case less
    then show ?thesis using gap [OF less] b v ds by (simp add: s t digit_less_iff)
  next
    case equal
    then have "c = d" using ds by (simp add: digit_eq_iff)
    with equal show ?thesis using Suc.IH [of s' t'] ds v by (simp add: s t)
  next
    case greater
    then have "\<not> c < d" "c \<noteq> d" using ds by (auto simp: digit_less_iff)
    then show ?thesis using gap [OF greater] b v by (simp add: s t)
  qed
qed

lemma digits_inj: "digits w s \<Longrightarrow> digits w t \<Longrightarrow> digits_value s = digits_value t \<Longrightarrow> s = t"
  using less_digits_iff [of w s t] less_digits_iff [of w t s] by (metis less_irrefl linorder_neqE)

lemma length_nat_str_le: "n < 10 ^ w \<Longrightarrow> 0 < w \<Longrightarrow> length (nat_str n) \<le> w"
proof (induction w arbitrary: n)
  case (Suc w)
  show ?case
  proof (cases "n < 10")
    case True
    then show ?thesis by (simp add: nat_str.simps [of n])
  next
    case False
    then have "w \<noteq> 0" using Suc.prems by (cases w) auto
    moreover have "n div 10 < 10 ^ w" using Suc.prems by (simp add: less_mult_imp_div_less)
    ultimately show ?thesis using Suc.IH [of "n div 10"] False by (simp add: nat_str.simps [of n])
  qed
qed simp

lemma zero_padded_digits:
  assumes "0 \<le> x" and "x < 10 ^ w" and "0 < w"
  shows "digits w (zero_padded w x)" and "digits_value (zero_padded w x) = nat x"
proof -
  have n: "int_str x = nat_str (nat x)" using assms(1) by (simp add: int_str_def)
  have "nat x < 10 ^ w" using assms by (simp add: nat_less_iff)
  then have "length (nat_str (nat x)) \<le> w" using assms(3) by (rule length_nat_str_le)
  then show "digits w (zero_padded w x)"
    using nat_str_digits [of "nat x"]
    by (auto simp: digits_def zero_padded_def n pad_start_def list_all_iff set_replicate_conv_if
        is_digit_def)
  show "digits_value (zero_padded w x) = nat x" by (simp add: zero_padded_def n)
qed

lemma zero_padded_value: "digits w s \<Longrightarrow> 0 < w \<Longrightarrow> zero_padded w (int (digits_value s)) = s"
  using zero_padded_digits [of "int (digits_value s)" w] digits_value_less [of s]
  by (intro digits_inj [of w]) (auto simp: digits_def)

lemma append_less_iff:
  fixes s t u v :: string
  shows "length s = length t \<Longrightarrow> s @ u < t @ v \<longleftrightarrow> s < t \<or> s = t \<and> u < v"
  by (induction s t rule: list_induct2) auto

end
