(* ===== verification/Period.thy ===== *)
theory Period
  imports JsText
begin

text \<open>
  The months one calculation covers, \<open>src/shared/accounting-period.ts\<close>: the optional pair of
  \<open>YYYY-MM\<close> texts a request carries and the test whether a month lies in it.
\<close>

section \<open>The code\<close>

record AccountingPeriodScope =
  periodStart :: string
  periodEnd :: string

text \<open>\<open>/^(?:19|20|21)[0-9]{2}-(?:0[1-9]|1[0-2])$/u\<close>.\<close>

definition month_pattern :: "string \<Rightarrow> bool" where
  "month_pattern s \<longleftrightarrow>
     length s = 7 \<and> take 2 s \<in> {''19'', ''20'', ''21''} \<and> is_digit (s ! 2) \<and> is_digit (s ! 3)
     \<and> s ! 4 = CHR ''-''
     \<and> (s ! 5 = CHR ''0'' \<and> is_digit (s ! 6) \<and> s ! 6 \<noteq> CHR ''0''
        \<or> s ! 5 = CHR ''1'' \<and> s ! 6 \<in> {CHR ''0'', CHR ''1'', CHR ''2''})"

text \<open>\<open>x?.trim() || undefined\<close>.\<close>

definition trimmed :: "string option \<Rightarrow> string option" where
  "trimmed x = (case x of None \<Rightarrow> None | Some s \<Rightarrow> if trim s = [] then None else Some (trim s))"

definition parseAccountingPeriodScope ::
    "string option \<Rightarrow> string option \<Rightarrow> AccountingPeriodScope option result" where
  "parseAccountingPeriodScope start_in end_in =
     (case (trimmed start_in, trimmed end_in) of
        (None, None) \<Rightarrow> Inr None
      | (Some s, Some e) \<Rightarrow>
          (if \<not> month_pattern s \<or> \<not> month_pattern e
           then Inl (AppError ''ACCOUNTING_PERIOD_SCOPE_INVALID'' 400 None)
           else if e < s then Inl (AppError ''ACCOUNTING_PERIOD_SCOPE_REVERSED'' 400 None)
           else if take 4 s \<noteq> take 4 e
           then Inl (AppError ''ACCOUNTING_PERIOD_SCOPE_CROSS_YEAR'' 400 None)
           else Inr (Some \<lparr> periodStart = s, periodEnd = e \<rparr>))
      | _ \<Rightarrow> Inl (AppError ''ACCOUNTING_PERIOD_SCOPE_INCOMPLETE'' 400 None))"

definition accountingPeriodContains :: "AccountingPeriodScope option \<Rightarrow> string \<Rightarrow> bool" where
  "accountingPeriodContains scope m =
     (case scope of None \<Rightarrow> True | Some p \<Rightarrow> periodStart p \<le> m \<and> m \<le> periodEnd p)"

definition accountingPeriodStartDate :: "string \<Rightarrow> string" where
  "accountingPeriodStartDate m = m @ ''-01''"

lemmas [code_defs] = month_pattern_def trimmed_def parseAccountingPeriodScope_def
  accountingPeriodContains_def accountingPeriodStartDate_def

section \<open>Months as text sort like months\<close>

definition month_number :: "string \<Rightarrow> nat" where
  "month_number m = digits_value (take 4 m) * 12 + digits_value (drop 5 m)"

lemma month_pattern_split:
  assumes "month_pattern s"
  obtains y m where "s = y @ ''-'' @ m" and "digits 4 y" and "digits 2 m"
    and "1 \<le> digits_value m" and "digits_value m \<le> 12"
proof -
  have l: "length s = 7" using assms by (simp add: month_pattern_def)
  then have s: "s = [s!0, s!1, s!2, s!3, s!4, s!5, s!6]"
    by (auto simp: length_Suc_conv eval_nat_numeral)
  have two: "take 2 s = [s!0, s!1]" by (subst s) simp
  have d: "is_digit (s!0)" "is_digit (s!1)"
    using assms unfolding month_pattern_def two by (auto simp: is_digit_def)
  have m: "is_digit (s!5)" "is_digit (s!6)" "s ! 4 = CHR ''-''" "is_digit (s!2)" "is_digit (s!3)"
    using assms by (auto simp: month_pattern_def is_digit_def)
  have v: "digits_value [s!5, s!6] = digit_value (s!5) * 10 + digit_value (s!6)"
    using digits_value_snoc [of "[s!5]" "s!6"] digits_value_snoc [of "[]" "s!5"] by simp
  have nz: "digit_value (s!6) \<noteq> 0" if "s!6 \<noteq> CHR ''0''"
    using that digit_char_of_value [OF m(2)] by (metis add_0_right char_of_48 digit_char_def)
  have b: "1 \<le> digits_value [s!5, s!6]" "digits_value [s!5, s!6] \<le> 12"
    unfolding v using assms nz digit_value_lt [OF m(2)]
    by (auto simp: month_pattern_def digit_value_def)
  show ?thesis
    using that [of "[s!0, s!1, s!2, s!3]" "[s!5, s!6]"] s d m b by (simp add: digits_def)
qed

lemma months_12_order:
  fixes y z m n :: nat
  assumes "1 \<le> m" and "m \<le> 12" and "1 \<le> n" and "n \<le> 12"
  shows "y * 12 + m < z * 12 + n \<longleftrightarrow> y < z \<or> y = z \<and> m < n"
  using assms by linarith

lemma month_less_iff:
  assumes "month_pattern a" and "month_pattern b"
  shows "a < b \<longleftrightarrow> month_number a < month_number b"
proof -
  from assms(1) obtain y m where a: "a = y @ ''-'' @ m" "digits 4 y" "digits 2 m"
    "1 \<le> digits_value m" "digits_value m \<le> 12" by (rule month_pattern_split)
  from assms(2) obtain z n where b: "b = z @ ''-'' @ n" "digits 4 z" "digits 2 n"
    "1 \<le> digits_value n" "digits_value n \<le> 12" by (rule month_pattern_split)
  have len: "length y = length z" using a b by (simp add: digits_def)
  have yz: "y = z \<longleftrightarrow> digits_value y = digits_value z" using digits_inj [OF a(2) b(2)] by blast
  have n: "month_number a = digits_value y * 12 + digits_value m"
    "month_number b = digits_value z * 12 + digits_value n"
    using a b by (simp_all add: month_number_def digits_def)
  show ?thesis
    unfolding n months_12_order [OF a(4,5) b(4,5)] unfolding a(1) b(1) append_less_iff [OF len]
    by (simp add: less_digits_iff [OF a(2) b(2)] less_digits_iff [OF a(3) b(3)] yz)
qed

lemma month_number_inj:
  assumes "month_pattern a" and "month_pattern b"
  shows "month_number a = month_number b \<longleftrightarrow> a = b"
  using month_less_iff [OF assms] month_less_iff [OF assms(2,1)]
  by (metis less_irrefl linorder_neqE)

lemma month_le_iff:
  assumes "month_pattern a" and "month_pattern b"
  shows "a \<le> b \<longleftrightarrow> month_number a \<le> month_number b"
  using month_less_iff [OF assms(2,1)] by (simp add: not_less [symmetric])

lemma same_year_month_numbers:
  assumes "month_pattern a" and "month_pattern b" and "take 4 a = take 4 b"
  shows "month_number b < month_number a + 12"
proof -
  from assms(1) obtain y m where a: "a = y @ ''-'' @ m" "digits 4 y" "digits 2 m"
    "1 \<le> digits_value m" by (rule month_pattern_split)
  from assms(2) obtain z n where b: "b = z @ ''-'' @ n" "digits 4 z" "digits 2 n"
    "digits_value n \<le> 12" by (rule month_pattern_split)
  show ?thesis using a b assms(3) by (simp add: month_number_def digits_def)
qed

lemma parse_period_Some:
  assumes "parseAccountingPeriodScope a b = Inr (Some p)"
  shows "month_pattern (periodStart p)" "month_pattern (periodEnd p)" "periodStart p \<le> periodEnd p"
    "take 4 (periodStart p) = take 4 (periodEnd p)"
  using assms by (auto simp: parseAccountingPeriodScope_def split: option.splits if_splits)

text \<open>
  a scope that is accepted is a run of one to twelve months of one calendar year, and a month
  is in the scope exactly when its number lies between the ends: comparing the texts is comparing
  the months.
\<close>

theorem period_scope_months:
  assumes "parseAccountingPeriodScope a b = Inr (Some p)"
  shows "month_number (periodStart p) \<le> month_number (periodEnd p) \<and>
    month_number (periodEnd p) < month_number (periodStart p) + 12 \<and>
    {m. month_pattern m \<and> accountingPeriodContains (Some p) m} =
    {m. month_pattern m \<and> month_number (periodStart p) \<le> month_number m
        \<and> month_number m \<le> month_number (periodEnd p)}"
  using parse_period_Some [OF assms] same_year_month_numbers [of "periodStart p" "periodEnd p"]
  by (auto simp: month_le_iff accountingPeriodContains_def)

theorem period_scope_months_witness:
  "month_number (periodStart \<lparr> periodStart = ''2024-02'', periodEnd = ''2024-05'' \<rparr>)
      \<le> month_number (periodEnd \<lparr> periodStart = ''2024-02'', periodEnd = ''2024-05'' \<rparr>) \<and>
    month_number (periodEnd \<lparr> periodStart = ''2024-02'', periodEnd = ''2024-05'' \<rparr>)
      < month_number (periodStart \<lparr> periodStart = ''2024-02'', periodEnd = ''2024-05'' \<rparr>) + 12 \<and>
    {m. month_pattern m \<and>
        accountingPeriodContains (Some \<lparr> periodStart = ''2024-02'', periodEnd = ''2024-05'' \<rparr>) m} =
    {m. month_pattern m
      \<and> month_number (periodStart \<lparr> periodStart = ''2024-02'', periodEnd = ''2024-05'' \<rparr>) \<le> month_number m
      \<and> month_number m \<le> month_number (periodEnd \<lparr> periodStart = ''2024-02'', periodEnd = ''2024-05'' \<rparr>)}"
  by (rule period_scope_months [of "Some '' 2024-02''" "Some ''2024-05''"])
    (simp add: parseAccountingPeriodScope_def trimmed_def trim_def trim_left_def is_space_def
      month_pattern_def is_digit_def)

end
