(* ===== verification/DiagRef.thy ===== *)
theory DiagRef
  imports JsText
begin

text \<open>
  Support references, \<open>src/shared/diagnostic-reference.ts\<close>: a UUID printed with 22 characters of a
  62-letter alphabet and read back. The first section is positional notation over any alphabet,
  used for the base 62 of the code and for \<open>toString(16)\<close> and \<open>BigInt("0x...")\<close>.
\<close>

section \<open>Positional notation\<close>

fun index_of :: "char \<Rightarrow> string \<Rightarrow> nat option" where
  "index_of c [] = None"
| "index_of c (a # as) = (if a = c then Some 0 else map_option Suc (index_of c as))"

lemma index_of_nth: "distinct A \<Longrightarrow> i < length A \<Longrightarrow> index_of (A ! i) A = Some i"
proof (induction A arbitrary: i)
  case (Cons a A)
  then show ?case by (cases i) (auto simp: nth_mem)
qed simp

lemma index_of_SomeD: "index_of c A = Some i \<Longrightarrow> i < length A \<and> A ! i = c"
  by (induction A arbitrary: i) (auto split: if_splits)

text \<open>Digits over alphabet \<open>A\<close>, the most significant first; \<open>n\<close> bounds the number of rounds.\<close>

function radix_str :: "string \<Rightarrow> nat \<Rightarrow> string \<Rightarrow> string" where
  "radix_str A v acc =
     (if length A < 2 then acc
      else let acc' = A ! (v mod length A) # acc; v' = v div length A
           in if 0 < v' then radix_str A v' acc' else acc')"
  by pat_completeness auto
termination
  by (relation "measure (\<lambda>(A, v, acc). v)") (auto simp: dvd_div_eq_0_iff div_greater_zero_iff)

declare radix_str.simps [simp del]

fun radix_value :: "string \<Rightarrow> string \<Rightarrow> nat \<Rightarrow> nat option" where
  "radix_value A [] v = Some v"
| "radix_value A (c # s) v =
     (case index_of c A of None \<Rightarrow> None | Some d \<Rightarrow> radix_value A s (v * length A + d))"

lemma radix_value_append:
  "radix_value A (s @ t) v = (case radix_value A s v of None \<Rightarrow> None | Some w \<Rightarrow> radix_value A t w)"
  by (induction s arbitrary: v) (auto split: option.split)

text \<open>What the accumulated digits contribute.\<close>

lemma radix_value_shift:
  "radix_value A s v = Some w \<Longrightarrow> radix_value A s (u + v) = Some (u * length A ^ length s + w)"
proof (induction s arbitrary: u v w)
  case (Cons c s)
  then obtain d where d: "index_of c A = Some d" "radix_value A s (v * length A + d) = Some w"
    by (auto split: option.splits)
  have "(u + v) * length A + d = u * length A + (v * length A + d)" by (simp add: algebra_simps)
  then show ?case using Cons.IH [OF d(2), of "u * length A"] d(1) by (simp add: algebra_simps)
qed simp

lemma radix_str_value:
  assumes "distinct A" and "2 \<le> length A" and "radix_value A acc 0 = Some w"
  shows "radix_value A (radix_str A v acc) 0 = Some (v * length A ^ length acc + w)"
  using assms
proof (induction A v acc arbitrary: w rule: radix_str.induct)
  case (1 A v acc)
  define b where "b = length A"
  have b: "2 \<le> b" using 1 by (simp add: b_def)
  have ix: "index_of (A ! (v mod b)) A = Some (v mod b)"
    using 1 b by (intro index_of_nth) (simp_all add: b_def [symmetric])
  have acc': "radix_value A (A ! (v mod b) # acc) 0 = Some ((v mod b) * b ^ length acc + w)"
    using ix radix_value_shift [OF 1(4), of "v mod b"] by (simp add: b_def)
  have split: "v div b * b ^ Suc (length acc) + (v mod b) * b ^ length acc = v * b ^ length acc"
    by (simp add: mult.assoc [symmetric] flip: distrib_right)
  show ?case
  proof (cases "0 < v div b")
    case True
    then have "radix_value A (radix_str A (v div b) (A ! (v mod b) # acc)) 0 =
        Some (v div b * b ^ length (A ! (v mod b) # acc) + ((v mod b) * b ^ length acc + w))"
      using "1.IH" [OF _ refl refl _ 1(2) 1(3)] acc' True b by (simp add: b_def)
    moreover have "radix_str A v acc = radix_str A (v div b) (A ! (v mod b) # acc)"
      using True b by (subst radix_str.simps) (simp add: b_def)
    ultimately show ?thesis using split by (simp add: b_def)
  next
    case False
    then have "radix_str A v acc = A ! (v mod b) # acc"
      using b by (subst radix_str.simps) (simp add: b_def)
    moreover have "v mod b = v" using False b by (simp add: div_greater_zero_iff)
    ultimately show ?thesis using acc' by (simp add: b_def)
  qed
qed

lemma radix_str_length:
  "2 \<le> length A \<Longrightarrow> v < length A ^ Suc n \<Longrightarrow> length (radix_str A v acc) \<le> length acc + Suc n"
proof (induction n arbitrary: v acc)
  case 0
  then show ?case by (subst radix_str.simps) (simp add: div_greater_zero_iff)
next
  case (Suc n)
  have "v div length A < length A ^ Suc n"
    using Suc.prems by (simp add: less_mult_imp_div_less mult.commute)
  then show ?case
    using Suc.IH [of "v div length A" "A ! (v mod length A) # acc"] Suc.prems
    by (subst radix_str.simps) (simp add: Let_def)
qed

lemma radix_value_zeros:
  "2 \<le> length A \<Longrightarrow> radix_value A (replicate n (A ! 0) @ s) 0 = radix_value A s 0"
proof (induction n)
  case (Suc n)
  have "index_of (A ! 0) A = Some 0" using Suc.prems by (cases A) auto
  then show ?case using Suc by simp
qed simp

lemma radix_value_bound:
  "radix_value A s v = Some w \<Longrightarrow> w < (v + 1) * length A ^ length s"
proof (induction s arbitrary: v)
  case (Cons c s)
  then obtain d where d: "index_of c A = Some d" "radix_value A s (v * length A + d) = Some w"
    by (auto split: option.splits)
  have "v * length A + d + 1 \<le> (v + 1) * length A" using index_of_SomeD [OF d(1)] by simp
  then have "(v * length A + d + 1) * length A ^ length s \<le> (v + 1) * length A * length A ^ length s"
    by (rule mult_le_mono1)
  then show ?case using Cons.IH [OF d(2)] by (simp add: algebra_simps)
qed simp

text \<open>Digit strings of one length are told apart by their values.\<close>

lemma radix_value_inj:
  "length s = length t \<Longrightarrow> radix_value A s u = Some w \<Longrightarrow> radix_value A t v = Some w \<Longrightarrow> s = t \<and> u = v"
proof (induction s t arbitrary: u v rule: list_induct2)
  case (Cons c s e t)
  then obtain d f where d: "index_of c A = Some d" "radix_value A s (u * length A + d) = Some w"
    and f: "index_of e A = Some f" "radix_value A t (v * length A + f) = Some w"
    by (auto split: option.splits)
  have eq: "s = t" "u * length A + d = v * length A + f" using Cons.IH [OF d(2) f(2)] by auto
  have lt: "d < length A" "f < length A" using index_of_SomeD d(1) f(1) by auto
  have "d = f" using arg_cong [OF eq(2), of "\<lambda>x. x mod length A"] lt by simp
  moreover from this have "u = v" using eq(2) lt by auto
  ultimately show ?case using eq d(1) f(1) index_of_SomeD by blast
qed simp

section \<open>The code\<close>

definition ALPHABET :: string where
  "ALPHABET = ''0123456789ABCDEFGHIJKLMNOPQRSTUVWXYZabcdefghijklmnopqrstuvwxyz''"

definition hex_digits :: string where
  "hex_digits = ''0123456789abcdef''"

datatype DiagnosticReferenceKind = Kind_C | Kind_I | Kind_P | Kind_E

fun kind_char :: "DiagnosticReferenceKind \<Rightarrow> char" where
  "kind_char Kind_C = CHR ''C''"
| "kind_char Kind_I = CHR ''I''"
| "kind_char Kind_P = CHR ''P''"
| "kind_char Kind_E = CHR ''E''"

definition kind_of_char :: "char \<Rightarrow> DiagnosticReferenceKind option" where
  "kind_of_char c = (if c = CHR ''C'' then Some Kind_C else if c = CHR ''I'' then Some Kind_I
     else if c = CHR ''P'' then Some Kind_P else if c = CHR ''E'' then Some Kind_E else None)"

text \<open>\<open>uuid.replaceAll("-", "").toLowerCase()\<close> against \<open>/^[0-9a-f]{32}$/u\<close>.\<close>

definition uuid_hex :: "string \<Rightarrow> string" where
  "uuid_hex uuid = map to_lower (filter (\<lambda>c. c \<noteq> CHR ''-'') uuid)"

definition diagnosticReferenceId :: "DiagnosticReferenceKind \<Rightarrow> string \<Rightarrow> string result" where
  "diagnosticReferenceId kind uuid =
     (let hex = uuid_hex uuid in
      if length hex = 32 \<and> list_all (\<lambda>c. c \<in> set hex_digits) hex
      then Inr (kind_char kind # pad_start 22 CHR ''0''
             (radix_str ALPHABET (the (radix_value hex_digits hex 0)) []))
      else Inl (PlainError ''INVALID_DIAGNOSTIC_REFERENCE_UUID''))"

definition hyphenate :: "string \<Rightarrow> string" where
  "hyphenate hex = take 8 hex @ ''-'' @ take 4 (drop 8 hex) @ ''-'' @ take 4 (drop 12 hex) @ ''-''
     @ take 4 (drop 16 hex) @ ''-'' @ drop 20 hex"

definition diagnosticReferenceUuid :: "string \<Rightarrow> (DiagnosticReferenceKind \<times> string) result" where
  "diagnosticReferenceUuid reference =
     (case (if reference = [] then None else kind_of_char (hd reference)) of
        None \<Rightarrow> Inl (PlainError ''INVALID_DIAGNOSTIC_REFERENCE'')
      | Some kind \<Rightarrow>
          if length reference \<noteq> 23 then Inl (PlainError ''INVALID_DIAGNOSTIC_REFERENCE'')
          else case radix_value ALPHABET (tl reference) 0 of
              None \<Rightarrow> Inl (PlainError ''INVALID_DIAGNOSTIC_REFERENCE'')
            | Some value \<Rightarrow>
                (let hex = pad_start 32 CHR ''0'' (radix_str hex_digits value []) in
                 if length hex \<noteq> 32 then Inl (PlainError ''INVALID_DIAGNOSTIC_REFERENCE'')
                 else Inr (kind, hyphenate hex)))"

lemmas [code_defs] = ALPHABET_def hex_digits_def kind_of_char_def uuid_hex_def
  diagnosticReferenceId_def hyphenate_def diagnosticReferenceUuid_def

section \<open>A reference can be read back\<close>

lemma alphabet_facts: "distinct ALPHABET" "length ALPHABET = 62" "ALPHABET ! 0 = CHR ''0''"
  by (simp_all add: ALPHABET_def)

lemma hex_facts: "distinct hex_digits" "length hex_digits = 16" "hex_digits ! 0 = CHR ''0''"
  by (simp_all add: hex_digits_def)

lemma kind_of_kind_char [simp]: "kind_of_char (kind_char k) = Some k"
  by (cases k) (simp_all add: kind_of_char_def)

text \<open>A canonical text of a UUID: 32 lower-case hexadecimal digits in the usual five groups.\<close>

definition canonical_uuid :: "string \<Rightarrow> bool" where
  "canonical_uuid u \<longleftrightarrow> (\<exists>hex. length hex = 32 \<and> list_all (\<lambda>c. c \<in> set hex_digits) hex \<and> u = hyphenate hex)"

lemma hex_digit_facts:
  assumes "c \<in> set hex_digits"
  shows "c \<noteq> CHR ''-''" "to_lower c = c" "\<exists>d. index_of c hex_digits = Some d"
  using assms by (auto simp: hex_digits_def to_lower_def is_upper_def)

lemma uuid_hex_hyphenate:
  assumes "list_all (\<lambda>c. c \<in> set hex_digits) hex" and "length hex = 32"
  shows "uuid_hex (hyphenate hex) = hex"
proof -
  have split: "take 8 hex @ take 4 (drop 8 hex) @ take 4 (drop 12 hex) @ take 4 (drop 16 hex)
      @ drop 20 hex = hex"
    using append_take_drop_id [of 4 "drop 16 hex"] append_take_drop_id [of 4 "drop 12 hex"]
      append_take_drop_id [of 4 "drop 8 hex"] append_take_drop_id [of 8 hex] by simp
  have "filter (\<lambda>c. c \<noteq> CHR ''-'') (hyphenate hex) =
      filter (\<lambda>c. c \<noteq> CHR ''-'') (take 8 hex @ take 4 (drop 8 hex) @ take 4 (drop 12 hex)
        @ take 4 (drop 16 hex) @ drop 20 hex)"
    by (simp add: hyphenate_def)
  also have "\<dots> = hex"
    unfolding split using assms(1) hex_digit_facts(1) by (intro filter_True) (auto simp: list_all_iff)
  finally show ?thesis
    using assms(1) hex_digit_facts(2) by (auto simp: uuid_hex_def list_all_iff intro!: map_idI)
qed

lemma radix_value_total:
  "list_all (\<lambda>c. c \<in> set hex_digits) s \<Longrightarrow> \<exists>w. radix_value hex_digits s v = Some w"
proof (induction s arbitrary: v)
  case (Cons c s)
  then obtain d where "index_of c hex_digits = Some d" using hex_digit_facts(3) [of c] by auto
  with Cons show ?case by simp
qed simp

lemma diagnosticReferenceId_eval:
  assumes "length hex = 32" and "list_all (\<lambda>c. c \<in> set hex_digits) hex"
  obtains w code where "diagnosticReferenceId kind (hyphenate hex) = Inr (kind_char kind # code)"
    and "length code = 22" and "radix_value ALPHABET code 0 = Some w"
    and "radix_value hex_digits hex 0 = Some w" and "w < 16 ^ 32"
proof -
  obtain w where w: "radix_value hex_digits hex 0 = Some w" using radix_value_total assms(2) by blast
  have lt: "w < 16 ^ 32" using radix_value_bound [OF w] by (simp add: hex_facts assms(1))
  define code where "code = pad_start 22 CHR ''0'' (radix_str ALPHABET w [])"
  have "(16 :: nat) ^ 32 \<le> 62 ^ Suc 21" by simp
  then have "length (radix_str ALPHABET w []) \<le> 22"
    using radix_str_length [of ALPHABET w 21 "[]"] lt by (simp add: alphabet_facts)
  then have len: "length code = 22" by (simp add: code_def pad_start_def)
  have "radix_value ALPHABET (radix_str ALPHABET w []) 0 = Some w"
    using radix_str_value [of ALPHABET "[]" 0 w] by (simp add: alphabet_facts)
  then have "radix_value ALPHABET code 0 = Some w"
    unfolding code_def pad_start_def using radix_value_zeros [of ALPHABET]
    by (simp add: alphabet_facts)
  moreover have "diagnosticReferenceId kind (hyphenate hex) = Inr (kind_char kind # code)"
    using assms w by (simp add: diagnosticReferenceId_def uuid_hex_hyphenate code_def)
  ultimately show ?thesis using that w lt len by blast
qed

lemma hex_of_value:
  assumes "length hex = 32" and "radix_value hex_digits hex 0 = Some w" and "w < 16 ^ 32"
  shows "pad_start 32 CHR ''0'' (radix_str hex_digits w []) = hex"
proof -
  define out where "out = pad_start 32 CHR ''0'' (radix_str hex_digits w [])"
  have "length (radix_str hex_digits w []) \<le> 32"
    using radix_str_length [of hex_digits w 31 "[]"] assms(3) by (simp add: hex_facts)
  then have "length out = 32" by (simp add: out_def pad_start_def)
  moreover have "radix_value hex_digits (radix_str hex_digits w []) 0 = Some w"
    using radix_str_value [of hex_digits "[]" 0 w] by (simp add: hex_facts)
  then have "radix_value hex_digits out 0 = Some w"
    unfolding out_def pad_start_def using radix_value_zeros [of hex_digits] by (simp add: hex_facts)
  ultimately show ?thesis
    using radix_value_inj [of out hex hex_digits 0 w 0] assms(1,2) by (simp add: out_def)
qed

text \<open>
  C25: a support reference is always 23 characters and reading it back gives the kind and the UUID
  it was made from.
\<close>

theorem diagnostic_reference_roundtrip:
  assumes "canonical_uuid u"
  shows "\<exists>r. diagnosticReferenceId kind u = Inr r \<and> length r = 23 \<and>
    diagnosticReferenceUuid r = Inr (kind, u)"
proof -
  from assms obtain hex where hex: "length hex = 32" "list_all (\<lambda>c. c \<in> set hex_digits) hex"
    and u: "u = hyphenate hex" by (auto simp: canonical_uuid_def)
  from hex obtain w code where e: "diagnosticReferenceId kind u = Inr (kind_char kind # code)"
    and c: "length code = 22" "radix_value ALPHABET code 0 = Some w"
    and v: "radix_value hex_digits hex 0 = Some w" "w < 16 ^ 32"
    unfolding u by (rule diagnosticReferenceId_eval)
  have "diagnosticReferenceUuid (kind_char kind # code) = Inr (kind, u)"
    using c hex(1) hex_of_value [OF hex(1) v] by (simp add: diagnosticReferenceUuid_def u Let_def)
  with e c(1) show ?thesis by simp
qed

theorem diagnostic_reference_roundtrip_witness:
  "\<exists>r. diagnosticReferenceId Kind_P (hyphenate ''00112233445566778899aabbccddeeff'') = Inr r \<and> length r = 23 \<and>
    diagnosticReferenceUuid r = Inr (Kind_P, hyphenate ''00112233445566778899aabbccddeeff'')"
  by (rule diagnostic_reference_roundtrip, unfold canonical_uuid_def,
      rule exI [of _ "''00112233445566778899aabbccddeeff''"]) (simp add: hex_digits_def)

end
