(* ===== verification/Authorization.thy ===== *)
theory Authorization
  imports JsText
begin

text \<open>
  Who may do what: \<open>src/modules/authorization/index.ts\<close>. The string unions of the code are
  datatypes, an actor's roles and enterprises are sets, and a refusal is an error value.
\<close>

section \<open>The code\<close>

datatype PlatformRole = ACCOUNTANT | ADMIN

datatype ShopState = ACTIVE | EXPIRED_READONLY | TRASHED | PURGED

datatype ActorStatus = Actor_ACTIVE | Actor_DISABLED

record Actor =
  actor_accountId :: string
  actor_status :: ActorStatus
  roles :: "PlatformRole set"
  enterpriseIds :: "string set option"

record ShopAccessResource =
  res_id :: string
  res_enterpriseId :: string
  res_state :: ShopState

datatype MembershipStatus = Member_ACTIVE | Member_REVOKED | Member_EXPIRED

record CustomerMembership =
  cm_id :: string
  cm_shopId :: string
  cm_accountId :: string
  cm_status :: MembershipStatus
  cm_exportAllowed :: bool
  cm_authorizationEpoch :: string

datatype PlatformCapability =
    FX_READ | ACCOUNT_SETTINGS | ENTERPRISE_CREATE | SHOP_CREATE
  | ADMIN_ACCOUNTANTS | ADMIN_APPLICATIONS | ADMIN_DATA_GOVERNANCE

datatype ShopCapability =
    SHOP_READ | PUBLISHED_RESULT_READ | DRAFT_RESULT_READ | SHOP_RENAME | SHOP_RENEW
  | SHOP_TRASH | SHOP_RESTORE | SHOP_PURGE | MEMBERSHIP_MANAGE | UPLOAD | IMPORT_COMMIT
  | QUALITY_ACKNOWLEDGE | DATASET_ROLLBACK | RESULT_PUBLISH | RESULT_EXPORT | ORIGINAL_DOWNLOAD

datatype AuthorizationScope =
    Scope_PLATFORM | Scope_ENTERPRISE | Scope_CUSTOMER | Scope_ADMIN | Scope_NONE

record AuthorizationDecision =
  allowed :: bool
  reasonRequired :: bool
  scope :: AuthorizationScope

definition allow :: "AuthorizationScope \<Rightarrow> bool \<Rightarrow> AuthorizationDecision" where
  "allow s reason = \<lparr> allowed = True, reasonRequired = reason, scope = s \<rparr>"

definition deny :: AuthorizationDecision where
  "deny = \<lparr> allowed = False, reasonRequired = False, scope = Scope_NONE \<rparr>"

definition authorizePlatform :: "Actor \<Rightarrow> PlatformCapability \<Rightarrow> AuthorizationDecision" where
  "authorizePlatform actor capability =
     (if actor_status actor \<noteq> Actor_ACTIVE then deny
      else
        let isAdmin = ADMIN \<in> roles actor; isUser = ACCOUNTANT \<in> roles actor in
        case capability of
          FX_READ \<Rightarrow> if isUser \<or> isAdmin then allow Scope_PLATFORM False else deny
        | ACCOUNT_SETTINGS \<Rightarrow> allow Scope_PLATFORM False
        | ENTERPRISE_CREATE \<Rightarrow> if isUser then allow Scope_PLATFORM False else deny
        | SHOP_CREATE \<Rightarrow>
            if isAdmin then allow Scope_ADMIN False
            else if isUser then allow Scope_PLATFORM False else deny
        | ADMIN_ACCOUNTANTS \<Rightarrow> if isAdmin then allow Scope_ADMIN False else deny
        | ADMIN_APPLICATIONS \<Rightarrow> if isAdmin then allow Scope_ADMIN False else deny
        | ADMIN_DATA_GOVERNANCE \<Rightarrow> if isAdmin then allow Scope_ADMIN False else deny)"

definition expiredBlockedCapabilities :: "ShopCapability list" where
  "expiredBlockedCapabilities =
     [DRAFT_RESULT_READ, UPLOAD, IMPORT_COMMIT, QUALITY_ACKNOWLEDGE, DATASET_ROLLBACK, RESULT_PUBLISH]"

definition authorizeShop ::
    "Actor \<Rightarrow> ShopAccessResource \<Rightarrow> CustomerMembership option \<Rightarrow> ShopCapability \<Rightarrow> AuthorizationDecision" where
  "authorizeShop actor shop membership capability =
     (if actor_status actor \<noteq> Actor_ACTIVE \<or> res_state shop = PURGED then deny
      else
        let isAdmin = ADMIN \<in> roles actor;
            isEnterpriseMember =
              (case enterpriseIds actor of None \<Rightarrow> False | Some ids \<Rightarrow> res_enterpriseId shop \<in> ids);
            isCustomer =
              (case membership of None \<Rightarrow> False
               | Some m \<Rightarrow> cm_status m = Member_ACTIVE \<and> cm_shopId m = res_id shop
                   \<and> cm_accountId m = actor_accountId actor)
        in
          if isAdmin then
            (if res_state shop = TRASHED then
               (if capability = SHOP_READ \<or> capability = SHOP_RESTORE \<or> capability = SHOP_PURGE
                then allow Scope_ADMIN False else deny)
             else if res_state shop = EXPIRED_READONLY \<and> capability \<in> set expiredBlockedCapabilities
             then deny
             else allow Scope_ADMIN (capability = ORIGINAL_DOWNLOAD))
          else if isEnterpriseMember then
            (if res_state shop = TRASHED then
               (if capability = SHOP_READ \<or> capability = SHOP_RESTORE \<or> capability = SHOP_PURGE
                then allow Scope_ENTERPRISE False else deny)
             else if res_state shop = EXPIRED_READONLY \<and> capability \<in> set expiredBlockedCapabilities
             then deny
             else allow Scope_ENTERPRISE False)
          else if isCustomer \<and> res_state shop \<noteq> TRASHED \<and>
                  (capability = SHOP_READ \<or> capability = PUBLISHED_RESULT_READ)
          then allow Scope_CUSTOMER False
          else if isCustomer \<and> res_state shop \<noteq> TRASHED \<and>
                  capability = RESULT_EXPORT \<and> (case membership of None \<Rightarrow> False | Some m \<Rightarrow> cm_exportAllowed m)
          then allow Scope_CUSTOMER False
          else deny)"

definition requireAllowed :: "AuthorizationDecision \<Rightarrow> string option \<Rightarrow> unit result" where
  "requireAllowed decision reason =
     (if \<not> allowed decision then Inl AuthorizationError
      else if reasonRequired decision \<and> (case reason of None \<Rightarrow> True | Some r \<Rightarrow> trim r = [])
      then Inl ReasonRequiredError
      else Inr ())"

lemmas [code_defs] = allow_def deny_def authorizePlatform_def expiredBlockedCapabilities_def
  authorizeShop_def requireAllowed_def

section \<open>What an allowed decision means\<close>

lemma allow_simps [simp]:
  "allowed (allow s r)" "reasonRequired (allow s r) = r" "scope (allow s r) = s"
  "\<not> allowed deny" "\<not> reasonRequired deny" "scope deny = Scope_NONE"
  by (simp_all add: allow_def deny_def)

lemma allow_deny_distinct [simp]: "allow s r \<noteq> deny" "deny \<noteq> allow s r"
  by (simp_all add: allow_def deny_def)

lemma requireAllowed_Inr_iff [result_iff]:
  "requireAllowed d r = Inr u \<longleftrightarrow>
     allowed d \<and> (reasonRequired d \<longrightarrow> (\<exists>t. r = Some t \<and> trim t \<noteq> []))"
  by (auto simp: requireAllowed_def split: option.splits)

definition member_of :: "Actor \<Rightarrow> ShopAccessResource \<Rightarrow> bool" where
  "member_of actor shop \<longleftrightarrow> (\<exists>ids. enterpriseIds actor = Some ids \<and> res_enterpriseId shop \<in> ids)"

definition customer_of :: "Actor \<Rightarrow> ShopAccessResource \<Rightarrow> CustomerMembership \<Rightarrow> bool" where
  "customer_of actor shop m \<longleftrightarrow> cm_status m = Member_ACTIVE \<and> cm_shopId m = res_id shop
     \<and> cm_accountId m = actor_accountId actor"

text \<open>The capabilities a shop's lifecycle state leaves open to its owners and to administrators.\<close>

definition open_in_state :: "ShopState \<Rightarrow> ShopCapability \<Rightarrow> bool" where
  "open_in_state st c = (case st of
       ACTIVE \<Rightarrow> True
     | EXPIRED_READONLY \<Rightarrow> c \<notin> set expiredBlockedCapabilities
     | TRASHED \<Rightarrow> c \<in> {SHOP_READ, SHOP_RESTORE, SHOP_PURGE}
     | PURGED \<Rightarrow> False)"

lemma member_of_case:
  "(case enterpriseIds actor of None \<Rightarrow> False | Some ids \<Rightarrow> res_enterpriseId shop \<in> ids) = member_of actor shop"
  by (simp add: member_of_def split: option.split)

text \<open>The rights of an actor on a shop, told from the roles instead of the order of the checks.\<close>

definition may_act :: "Actor \<Rightarrow> ShopAccessResource \<Rightarrow> CustomerMembership option \<Rightarrow> ShopCapability \<Rightarrow> bool" where
  "may_act actor shop membership c \<longleftrightarrow>
     actor_status actor = Actor_ACTIVE \<and>
     (if ADMIN \<in> roles actor \<or> member_of actor shop then open_in_state (res_state shop) c
      else case membership of None \<Rightarrow> False
        | Some m \<Rightarrow> customer_of actor shop m \<and> res_state shop \<in> {ACTIVE, EXPIRED_READONLY}
            \<and> (c \<in> {SHOP_READ, PUBLISHED_RESULT_READ} \<or> c = RESULT_EXPORT \<and> cm_exportAllowed m))"

definition acting_scope :: "Actor \<Rightarrow> ShopAccessResource \<Rightarrow> AuthorizationScope" where
  "acting_scope actor shop =
     (if ADMIN \<in> roles actor then Scope_ADMIN else if member_of actor shop then Scope_ENTERPRISE
      else Scope_CUSTOMER)"

lemma authorizeShop_owner:
  assumes "actor_status actor = Actor_ACTIVE" and "ADMIN \<in> roles actor \<or> member_of actor shop"
  shows "authorizeShop actor shop membership c =
    (if open_in_state (res_state shop) c
     then allow (acting_scope actor shop) (ADMIN \<in> roles actor \<and> c = ORIGINAL_DOWNLOAD) else deny)"
  using assms
  by (cases "res_state shop"; cases "ADMIN \<in> roles actor")
    (simp_all add: authorizeShop_def Let_def member_of_case open_in_state_def acting_scope_def)

lemma authorizeShop_customer:
  assumes "actor_status actor = Actor_ACTIVE" and "\<not> (ADMIN \<in> roles actor \<or> member_of actor shop)"
  shows "authorizeShop actor shop membership c =
    (if may_act actor shop membership c then allow Scope_CUSTOMER False else deny)"
  using assms
  by (cases "res_state shop"; cases membership)
    (simp_all add: authorizeShop_def Let_def member_of_case may_act_def customer_of_def)

lemma authorizeShop_eq:
  "authorizeShop actor shop membership c =
     (if may_act actor shop membership c
      then allow (acting_scope actor shop) (ADMIN \<in> roles actor \<and> c = ORIGINAL_DOWNLOAD)
      else deny)"
proof -
  consider "actor_status actor \<noteq> Actor_ACTIVE"
    | "actor_status actor = Actor_ACTIVE" "ADMIN \<in> roles actor \<or> member_of actor shop"
    | "actor_status actor = Actor_ACTIVE" "\<not> (ADMIN \<in> roles actor \<or> member_of actor shop)"
    by blast
  then show ?thesis
  proof cases
    case 1
    then show ?thesis by (simp add: authorizeShop_def may_act_def)
  next
    case 2
    then show ?thesis by (simp only: authorizeShop_owner [OF 2] may_act_def if_True) simp
  next
    case 3
    then have "acting_scope actor shop = Scope_CUSTOMER" "ADMIN \<notin> roles actor"
      by (simp_all add: acting_scope_def)
    then show ?thesis by (simp add: authorizeShop_customer [OF 3])
  qed
qed

lemma authorizeShop_allowed_iff: "allowed (authorizeShop actor shop membership c) = may_act actor shop membership c"
  by (simp add: authorizeShop_eq)

section \<open>The access matrix\<close>

text \<open>
  What somebody is to a shop, and what that allows in each state of the shop: the capabilities are written out, once for
  each state, and not taken from the code's list of what an expired shop blocks.
\<close>

datatype standing = Administrator | Member | Customer bool | Stranger

definition standing_of :: "Actor \<Rightarrow> ShopAccessResource \<Rightarrow> CustomerMembership option \<Rightarrow> standing" where
  "standing_of actor shop membership =
     (if actor_status actor = Actor_DISABLED then Stranger
      else if ADMIN \<in> roles actor then Administrator
      else if member_of actor shop then Member
      else case membership of None \<Rightarrow> Stranger | Some m \<Rightarrow> if customer_of actor shop m then Customer (cm_exportAllowed m) else Stranger)"

fun owner_rights :: "ShopState \<Rightarrow> ShopCapability set" where
  "owner_rights ACTIVE = {SHOP_READ, PUBLISHED_RESULT_READ, DRAFT_RESULT_READ, SHOP_RENAME, SHOP_RENEW, SHOP_TRASH, SHOP_RESTORE,
     SHOP_PURGE, MEMBERSHIP_MANAGE, UPLOAD, IMPORT_COMMIT, QUALITY_ACKNOWLEDGE, DATASET_ROLLBACK, RESULT_PUBLISH, RESULT_EXPORT,
     ORIGINAL_DOWNLOAD}"
| "owner_rights EXPIRED_READONLY = {SHOP_READ, PUBLISHED_RESULT_READ, SHOP_RENAME, SHOP_RENEW, SHOP_TRASH, SHOP_RESTORE,
     SHOP_PURGE, MEMBERSHIP_MANAGE, RESULT_EXPORT, ORIGINAL_DOWNLOAD}"
| "owner_rights TRASHED = {SHOP_READ, SHOP_RESTORE, SHOP_PURGE}"
| "owner_rights PURGED = {}"

fun rights :: "standing \<Rightarrow> ShopState \<Rightarrow> ShopCapability set" where
  "rights Administrator st = owner_rights st"
| "rights Member st = owner_rights st"
| "rights (Customer True) ACTIVE = {SHOP_READ, PUBLISHED_RESULT_READ, RESULT_EXPORT}"
| "rights (Customer True) EXPIRED_READONLY = {SHOP_READ, PUBLISHED_RESULT_READ, RESULT_EXPORT}"
| "rights (Customer False) ACTIVE = {SHOP_READ, PUBLISHED_RESULT_READ}"
| "rights (Customer False) EXPIRED_READONLY = {SHOP_READ, PUBLISHED_RESULT_READ}"
| "rights (Customer e) TRASHED = {}"
| "rights (Customer e) PURGED = {}"
| "rights Stranger st = {}"

fun scope_of :: "standing \<Rightarrow> AuthorizationScope" where
  "scope_of Administrator = Scope_ADMIN"
| "scope_of Member = Scope_ENTERPRISE"
| "scope_of (Customer e) = Scope_CUSTOMER"
| "scope_of Stranger = Scope_NONE"

lemma open_in_state_rights: "open_in_state st c \<longleftrightarrow> c \<in> owner_rights st"
  by (cases st; cases c) (simp_all add: open_in_state_def expiredBlockedCapabilities_def)

lemma may_act_rights: "may_act actor shop membership c \<longleftrightarrow> c \<in> rights (standing_of actor shop membership) (res_state shop)"
proof (cases "actor_status actor")
  case Actor_ACTIVE
  show ?thesis
  proof (cases "ADMIN \<in> roles actor \<or> member_of actor shop")
    case True
    then show ?thesis using Actor_ACTIVE by (auto simp: may_act_def standing_of_def open_in_state_rights)
  next
    case False
    then show ?thesis using Actor_ACTIVE
      by (cases membership; cases "res_state shop"; cases "cm_exportAllowed (the membership)")
        (auto simp: may_act_def standing_of_def)
  qed
qed (simp add: may_act_def standing_of_def)

lemma acting_scope_standing:
  "may_act actor shop membership c \<Longrightarrow> acting_scope actor shop = scope_of (standing_of actor shop membership)"
  by (auto simp: may_act_def acting_scope_def standing_of_def split: option.splits if_splits)

lemma administrator_standing:
  "may_act actor shop membership c \<Longrightarrow> ADMIN \<in> roles actor \<longleftrightarrow> standing_of actor shop membership = Administrator"
  by (auto simp: may_act_def standing_of_def split: option.splits if_splits)

text \<open>
  C18: the decision is exactly the access matrix: a capability is allowed just when the matrix has it for what the actor is to
  the shop and the state of the shop, in the scope of that standing, and a reason, which must not be blank, is asked of an
  administrator who downloads an original and of nobody else. A refusal is the same for a shop that is not there.
\<close>

theorem authorized_exactly:
  "authorizeShop actor shop membership c =
     (if c \<in> rights (standing_of actor shop membership) (res_state shop)
      then \<lparr> allowed = True, reasonRequired = (standing_of actor shop membership = Administrator \<and> c = ORIGINAL_DOWNLOAD),
             scope = scope_of (standing_of actor shop membership) \<rparr>
      else \<lparr> allowed = False, reasonRequired = False, scope = Scope_NONE \<rparr>)
   \<and> requireAllowed (authorizeShop actor shop membership c) reason =
     (if c \<notin> rights (standing_of actor shop membership) (res_state shop) then Inl AuthorizationError
      else if standing_of actor shop membership = Administrator \<and> c = ORIGINAL_DOWNLOAD
          \<and> trim (case reason of None \<Rightarrow> [] | Some r \<Rightarrow> r) = []
      then Inl ReasonRequiredError
      else Inr ())"
proof (cases "may_act actor shop membership c")
  case True
  note eq = authorizeShop_eq [of actor shop membership c]
  show ?thesis
    using True acting_scope_standing [OF True] administrator_standing [OF True]
    by (auto simp: eq may_act_rights allow_def requireAllowed_def trim_def trim_left_def split: option.splits)
next
  case False
  then show ?thesis by (simp add: authorizeShop_eq may_act_rights deny_def requireAllowed_def)
qed

end
