(* ===== verification/Store.thy ===== *)
theory Store
  imports Authorization
begin

text \<open>
  The part of the PostgreSQL schema every component writes: accounts, enterprises and their
  members, the audit trail and the outbox (\<open>migrations/0001\<close>, \<open>0002\<close>, \<open>0034\<close>), with the two
  side effects of \<open>src/modules/authorization/events.ts\<close>. A table is the list of its rows in
  insertion order; every component extends the record by its own tables. A transaction is a
  function from the database to an error (everything rolled back) or a result and the new
  database. Identifiers the database or the process draws at random are arguments, \<open>now\<close> is the
  clock; columns that no modelled code reads (\<open>updated_at\<close> and the like) are left out. An account
  has at most one row in \<open>account_role\<close> (\<open>migrations/0026\<close>), kept in the row of the account.
\<close>

section \<open>Rows\<close>

record account_row =
  ac_id :: string
  ac_phone :: string
  ac_display_name :: "string option"
  ac_registered :: bool
  ac_status :: ActorStatus
  ac_role :: "PlatformRole option"

record enterprise_row =
  en_id :: string
  en_name :: string
  en_normalized_name :: string
  en_credit_code :: "string option"
  en_created_by :: string

datatype member_status = MS_PENDING | MS_ACTIVE | MS_REVOKED

record enterprise_member_row =
  em_id :: string
  em_enterprise_id :: string
  em_account_id :: "string option"
  em_phone :: string
  em_display_name :: "string option"
  em_status :: member_status
  em_epoch :: nat
  em_invited_by :: string
  em_revoke_reason :: "string option"

type_synonym json_object = "(string \<times> string option) list"

text \<open>An audit record: JSON objects as lists of keys and texts, \<open>None\<close> for \<open>null\<close>.\<close>

record AuditRecord =
  au_actorAccountId :: "string option"
  au_actorRoles :: "string list"
  au_objectType :: string
  au_objectId :: string
  au_action :: string
  au_succeeded :: bool
  au_reason :: "string option"
  au_requestId :: string
  au_before :: "json_object option"
  au_after :: "json_object option"

record outbox_row =
  ob_id :: string
  ob_topic :: string
  ob_business_key :: string
  ob_payload :: json_object

record core_db =
  accounts :: "account_row list"
  enterprises :: "enterprise_row list"
  enterprise_members :: "enterprise_member_row list"
  audits :: "AuditRecord list"
  outbox :: "outbox_row list"

section \<open>Side effects\<close>

definition audit :: "AuditRecord \<Rightarrow> 'z core_db_scheme \<Rightarrow> 'z core_db_scheme" where
  "audit r db = db\<lparr>audits := audits db @ [r]\<rparr>"

text \<open>\<open>INSERT ... ON CONFLICT (topic, business_key) DO NOTHING\<close>.\<close>

definition outbox_insert :: "outbox_row \<Rightarrow> 'z core_db_scheme \<Rightarrow> 'z core_db_scheme" where
  "outbox_insert e db =
     (if \<exists>r \<in> set (outbox db). ob_topic r = ob_topic e \<and> ob_business_key r = ob_business_key e
      then db else db\<lparr>outbox := outbox db @ [e]\<rparr>)"

text \<open>PostgreSQL's \<open>btrim\<close> drops blanks, not every white space.\<close>

definition btrim :: "string \<Rightarrow> string" where
  "btrim s = rev (dropWhile (\<lambda>c. c = CHR '' '') (rev (dropWhile (\<lambda>c. c = CHR '' '') s)))"

lemmas [code_defs] = audit_def outbox_insert_def btrim_def

lemma audit_simps [simp]:
  "accounts (audit r db) = accounts db" "enterprises (audit r db) = enterprises db"
  "enterprise_members (audit r db) = enterprise_members db" "outbox (audit r db) = outbox db"
  "audits (audit r db) = audits db @ [r]" "core_db.more (audit r db) = core_db.more db"
  by (simp_all add: audit_def)

lemma outbox_insert_simps [simp]:
  "accounts (outbox_insert e db) = accounts db" "enterprises (outbox_insert e db) = enterprises db"
  "enterprise_members (outbox_insert e db) = enterprise_members db"
  "audits (outbox_insert e db) = audits db" "core_db.more (outbox_insert e db) = core_db.more db"
  by (simp_all add: outbox_insert_def)

text \<open>At most one event per topic and business key, whatever is sent twice.\<close>

lemma outbox_insert_distinct:
  "distinct (map (\<lambda>r. (ob_topic r, ob_business_key r)) (outbox db)) \<Longrightarrow>
   distinct (map (\<lambda>r. (ob_topic r, ob_business_key r)) (outbox (outbox_insert e db)))"
  by (auto simp: outbox_insert_def)

lemma outbox_insert_twice: "outbox_insert e (outbox_insert e db) = outbox_insert e db"
  by (auto simp: outbox_insert_def)

lemma all_dropWhile_iff: "(\<forall>c \<in> set (dropWhile P s). P c) \<longleftrightarrow> (\<forall>c \<in> set s. P c)"
  by (induction s) auto

lemma btrim_eq_Nil_iff: "btrim s = [] \<longleftrightarrow> (\<forall>c \<in> set s. c = CHR '' '')"
  using all_dropWhile_iff [of "\<lambda>c. c = CHR '' ''" s] by (simp add: btrim_def)

text \<open>What \<open>trim\<close> leaves passes the schema's checks \<open>length(btrim(x)) > 0\<close>.\<close>

lemma trim_nonblank_btrim: "trim s \<noteq> [] \<Longrightarrow> btrim (trim s) \<noteq> []"
proof -
  assume ne: "trim s \<noteq> []"
  define xs where "xs = rev (trim_left s)"
  have t: "trim s = rev (dropWhile is_space xs)" by (simp add: trim_def trim_left_def xs_def)
  have "dropWhile is_space xs \<noteq> []" using ne t by simp
  then have "\<not> is_space (hd (dropWhile is_space xs))" by (rule hd_dropWhile)
  moreover have "hd (dropWhile is_space xs) \<in> set (trim s)"
    using \<open>dropWhile is_space xs \<noteq> []\<close> by (simp add: t)
  moreover have "is_space CHR '' ''" by (simp add: is_space_def)
  ultimately show ?thesis unfolding btrim_eq_Nil_iff by metis
qed

end
