(* ===== verification/Money.thy ===== *)
theory Money
  imports JsText
begin

text \<open>
  Amounts of money, \<open>src/modules/wallet/money.ts\<close>: reading and printing yuan, rounding half
  away from zero, the quote of a top-up and the proportional reversal of a credit. A BigInt is
  an \<open>int\<close>; the code's \<open>/\<close> and \<open>%\<close> are only applied to non-negative values here, where they
  agree with \<open>div\<close> and \<open>mod\<close>.
\<close>

section \<open>The code\<close>

text \<open>The two groups of \<open>/^(0|[1-9][0-9]*)(?:\.([0-9]{1,2}))?$/\<close>.\<close>

definition cny_match :: "string \<Rightarrow> (string \<times> string) option" where
  "cny_match s =
     (let yuan = takeWhile is_digit s; rest = dropWhile is_digit s in
      if \<not> canonical_nat yuan then None
      else case rest of
          [] \<Rightarrow> Some (yuan, [])
        | c # fraction \<Rightarrow>
            (if c = CHR ''.'' \<and> length fraction \<in> {1, 2} \<and> list_all is_digit fraction
             then Some (yuan, fraction) else None))"

definition parseCnyToCents :: "string \<Rightarrow> int result" where
  "parseCnyToCents value =
     (case cny_match (trim value) of
        None \<Rightarrow> Inl (AppError ''MONEY_INVALID'' 400 None)
      | Some (yuan, fraction) \<Rightarrow>
          Inr (int (digits_value yuan) * 100 + int (digits_value (pad_end 2 CHR ''0'' fraction))))"

definition formatCents :: "int \<Rightarrow> string" where
  "formatCents cents =
     (let absolute = (if cents < 0 then - cents else cents) in
      (if cents < 0 then ''-'' else []) @ int_str (absolute div 100) @ ''.''
        @ pad_start 2 CHR ''0'' (int_str (absolute mod 100)))"

definition roundHalfUp :: "int \<Rightarrow> int \<Rightarrow> int result" where
  "roundHalfUp numerator denominator =
     (if denominator \<le> 0 then Inl (PlainError ''DIVISOR_NOT_POSITIVE'')
      else
        let sign = (if numerator < 0 then - 1 else 1);
            absolute = (if numerator < 0 then - numerator else numerator);
            quotient = absolute div denominator;
            remainder = absolute mod denominator
        in Inr (sign * (quotient + (if remainder * 2 \<ge> denominator then 1 else 0))))"

record top_up_quote =
  quote_credit :: string
  quote_payable :: string
  quote_discount :: string

definition quoteTopUp :: "string \<Rightarrow> top_up_quote result" where
  "quoteTopUp creditAmountCents =
     bindE (js_bigint creditAmountCents) (\<lambda>credit.
       if credit < 10000 then Inl (AppError ''TOP_UP_MINIMUM'' 400 None)
       else Inr \<lparr> quote_credit = int_str credit, quote_payable = int_str credit,
                  quote_discount = ''10000'' \<rparr>)"

definition cumulativeCreditReversal :: "string \<Rightarrow> string \<Rightarrow> string \<Rightarrow> int result" where
  "cumulativeCreditReversal originalCreditCents originalPayableCents cumulativePayableReversedCents =
     bindE (js_bigint originalCreditCents) (\<lambda>originalCredit.
     bindE (js_bigint originalPayableCents) (\<lambda>originalPayable.
     bindE (js_bigint cumulativePayableReversedCents) (\<lambda>cumulativePayable.
       if originalPayable \<le> 0 \<or> cumulativePayable \<le> 0 \<or> cumulativePayable > originalPayable
       then Inl (AppError ''REVERSAL_AMOUNT_INVALID'' 409 None)
       else if cumulativePayable = originalPayable then Inr originalCredit
       else roundHalfUp (originalCredit * cumulativePayable) originalPayable)))"

lemmas [code_defs] = cny_match_def parseCnyToCents_def formatCents_def roundHalfUp_def
  quoteTopUp_def cumulativeCreditReversal_def

section \<open>Printing and reading agree\<close>

lemma int_str_nonneg: "0 \<le> x \<Longrightarrow> int_str x = nat_str (nat x)"
  by (simp add: int_str_def)

lemma cny_match_print:
  assumes "canonical_nat y" and "length f \<in> {1, 2}" and "list_all is_digit f"
  shows "cny_match (y @ ''.'' @ f) = Some (y, f)"
proof -
  have y: "\<And>c. c \<in> set y \<Longrightarrow> is_digit c" using assms(1) by (simp add: canonical_nat_def list_all_iff)
  have dot: "\<not> is_digit CHR ''.''" by (simp add: is_digit_def)
  have "takeWhile is_digit (y @ ''.'' @ f) = y" "dropWhile is_digit (y @ ''.'' @ f) = ''.'' @ f"
    using y dot by (simp_all add: takeWhile_append dropWhile_append)
  then show ?thesis using assms by (simp add: cny_match_def Let_def)
qed

lemma length_nat_str_lt_100: "n < 100 \<Longrightarrow> length (nat_str n) \<le> 2"
proof -
  assume "n < 100"
  then have "n div 10 < 10" by linarith
  then show ?thesis by (simp add: nat_str.simps [of n] nat_str.simps [of "n div 10"])
qed

lemma is_space_dot: "\<not> is_space CHR ''.''"
  by (simp add: is_space_def)

lemma formatCents_nonneg:
  assumes "0 \<le> c"
  shows "formatCents c = nat_str (nat (c div 100)) @ ''.'' @ pad_start 2 CHR ''0'' (nat_str (nat (c mod 100)))"
  using assms by (simp add: formatCents_def Let_def int_str_nonneg)

text \<open>printing a non-negative number of cents and reading the text back gives the number.\<close>

theorem parse_formatCents:
  assumes "0 \<le> c"
  shows "parseCnyToCents (formatCents c) = Inr c"
proof -
  define y f where "y = nat_str (nat (c div 100))"
    and "f = pad_start 2 CHR ''0'' (nat_str (nat (c mod 100)))"
  have f: "list_all is_digit f" "length f = 2"
    using length_nat_str_lt_100 [of "nat (c mod 100)"] nat_str_digits set_pad_start
    by (auto simp: f_def list_all_iff pad_start_def is_digit_def set_replicate_conv_if
        max_def split: if_splits)
  have y: "canonical_nat y" by (simp add: y_def)
  have s: "formatCents c = y @ ''.'' @ f"
    using assms by (simp add: formatCents_nonneg y_def f_def)
  have t: "trim (formatCents c) = formatCents c"
    using f(1) y unfolding s
    by (intro trim_no_space)
      (auto simp: canonical_nat_def list_all_iff is_space_dot dest: is_digit_not_space)
  have v: "int (digits_value y) * 100 + int (digits_value f) = c"
    using assms by (simp add: y_def f_def pos_imp_zdiv_nonneg_iff)
  show ?thesis
    using cny_match_print [OF y _ f(1)] f(2) v t s by (simp add: parseCnyToCents_def pad_end_def)
qed

theorem parse_formatCents_witness: "parseCnyToCents (formatCents 123405) = Inr 123405"
  by (rule parse_formatCents) simp

section \<open>Rounding\<close>

lemma roundHalfUp_pos:
  assumes "0 < d" and "0 \<le> n"
  shows "roundHalfUp n d = Inr ((2 * n + d) div (2 * d))"
proof -
  define q r where "q = n div d" and "r = n mod d"
  have n: "n = q * d + r" and r: "0 \<le> r" "r < d"
    using assms(1) by (simp_all add: q_def r_def)
  have shift: "(x + k * (2 * d)) div (2 * d) = k + x div (2 * d)" for x k :: int
    using assms(1) by simp
  have "(2 * n + d) div (2 * d) = q + (if r * 2 \<ge> d then 1 else 0)"
  proof (cases "r * 2 \<ge> d")
    case True
    have "2 * n + d = (2 * r - d) + (q + 1) * (2 * d)" by (simp add: n algebra_simps)
    moreover have "(2 * r - d) div (2 * d) = 0" using True r by (intro div_pos_pos_trivial) auto
    ultimately show ?thesis using True by (simp only: shift) simp
  next
    case False
    have "2 * n + d = (2 * r + d) + q * (2 * d)" by (simp add: n algebra_simps)
    moreover have "(2 * r + d) div (2 * d) = 0" using False r by (intro div_pos_pos_trivial) auto
    ultimately show ?thesis using False by (simp only: shift) simp
  qed
  then show ?thesis using assms by (simp add: roundHalfUp_def Let_def q_def r_def)
qed

lemma roundHalfUp_neg:
  assumes "0 < d" and "n < 0"
  shows "roundHalfUp n d = Inr (- ((2 * (- n) + d) div (2 * d)))"
proof -
  have "roundHalfUp n d = map_sum id uminus (roundHalfUp (- n) d)"
    using assms by (simp add: roundHalfUp_def Let_def)
  then show ?thesis using assms roundHalfUp_pos [of d "- n"] by simp
qed

lemma half_up_bounds:
  fixes n d :: int
  assumes "0 < d"
  defines "q \<equiv> (2 * n + d) div (2 * d)"
  shows "2 * (q * d) \<le> 2 * n + d" and "2 * n - d < 2 * (q * d)"
proof -
  have "q * (2 * d) \<le> 2 * n + d" and "2 * n + d < q * (2 * d) + 2 * d"
    using div_mult_mod_eq [of "2 * n + d" "2 * d"] pos_mod_bound [of "2 * d" "2 * n + d"]
      pos_mod_sign [of "2 * d" "2 * n + d"] assms(1) unfolding q_def by linarith+
  then show "2 * (q * d) \<le> 2 * n + d" and "2 * n - d < 2 * (q * d)"
    by (simp_all add: algebra_simps)
qed

text \<open>
  for a positive denominator the rounded quotient is a nearest integer, and an exact half is
  rounded away from zero.
\<close>

theorem roundHalfUp_nearest:
  assumes "0 < d"
  shows "\<exists>q. roundHalfUp n d = Inr q \<and> 2 * \<bar>q * d - n\<bar> \<le> d \<and>
             (2 * \<bar>q * d - n\<bar> = d \<longrightarrow> \<bar>n\<bar> < \<bar>q * d\<bar>)"
proof (cases "0 \<le> n")
  case True
  define q where "q = (2 * n + d) div (2 * d)"
  note b = half_up_bounds [OF assms, of n, folded q_def]
  have "roundHalfUp n d = Inr q" using assms True by (simp add: roundHalfUp_pos q_def)
  moreover have "2 * \<bar>q * d - n\<bar> \<le> d" using b by (simp add: abs_if)
  moreover have "2 * \<bar>q * d - n\<bar> = d \<longrightarrow> \<bar>n\<bar> < \<bar>q * d\<bar>"
    using b assms True by (auto simp: abs_if)
  ultimately show ?thesis by blast
next
  case False
  define q where "q = (2 * (- n) + d) div (2 * d)"
  note b = half_up_bounds [OF assms, of "- n", folded q_def]
  have "roundHalfUp n d = Inr (- q)" using assms False by (simp add: roundHalfUp_neg q_def)
  moreover have "2 * \<bar>(- q) * d - n\<bar> \<le> d" using b by (simp add: abs_if)
  moreover have "2 * \<bar>(- q) * d - n\<bar> = d \<longrightarrow> \<bar>n\<bar> < \<bar>(- q) * d\<bar>"
    using b assms False by (auto simp: abs_if split: if_splits)
  ultimately show ?thesis by blast
qed

theorem roundHalfUp_nearest_witness:
  "\<exists>q. roundHalfUp (- 5) 2 = Inr q \<and> 2 * \<bar>q * 2 - (- 5)\<bar> \<le> 2 \<and>
       (2 * \<bar>q * 2 - (- 5)\<bar> = 2 \<longrightarrow> \<bar>- 5\<bar> < \<bar>q * 2\<bar>)"
  by (rule roundHalfUp_nearest) simp

lemma roundHalfUp_mono:
  assumes "0 < d" and "0 \<le> m" and "m \<le> n" and "roundHalfUp m d = Inr a" and "roundHalfUp n d = Inr b"
  shows "a \<le> b"
  using assms by (auto simp: roundHalfUp_pos intro!: zdiv_mono1)

section \<open>Proportional reversal\<close>

text \<open>The reversal over numbers: the strings that carry BigInts are read back exactly.\<close>

definition credit_reversed :: "int \<Rightarrow> int \<Rightarrow> int \<Rightarrow> int" where
  "credit_reversed credit payable reversed =
     (if reversed = payable then credit else (2 * (credit * reversed) + payable) div (2 * payable))"

lemma cumulativeCreditReversal_Inr_iff:
  assumes "0 \<le> credit"
  shows "cumulativeCreditReversal (int_str credit) (int_str payable) (int_str reversed) = Inr x \<longleftrightarrow>
    0 < reversed \<and> reversed \<le> payable \<and> x = credit_reversed credit payable reversed"
  using assms by (auto simp: cumulativeCreditReversal_def credit_reversed_def roundHalfUp_pos)

lemma credit_reversed_bounds:
  assumes "0 \<le> credit" and "0 < reversed" and "reversed \<le> payable"
  shows "0 \<le> credit_reversed credit payable reversed"
    and "credit_reversed credit payable reversed \<le> credit"
proof -
  have p: "0 < payable" using assms by simp
  have "credit * reversed \<le> credit * payable" using assms by (intro mult_left_mono) auto
  then have "(2 * (credit * reversed) + payable) div (2 * payable)
      \<le> (2 * (credit * payable) + payable) div (2 * payable)"
    using p by (intro zdiv_mono1) auto
  also have "2 * (credit * payable) + payable = payable + credit * (2 * payable)"
    by (simp add: algebra_simps)
  also have "(payable + credit * (2 * payable)) div (2 * payable) = credit"
    using p by simp
  finally show "credit_reversed credit payable reversed \<le> credit"
    by (simp add: credit_reversed_def)
  show "0 \<le> credit_reversed credit payable reversed"
    using assms p by (simp add: credit_reversed_def pos_imp_zdiv_nonneg_iff)
qed

text \<open>
  the credit taken back never exceeds the credit granted, never decreases when the channel
  reports a larger cumulative amount, and is the whole credit when everything is paid back.
\<close>

theorem reversal_bounded_monotone:
  assumes "0 \<le> credit" and "0 < r" and "r \<le> r'" and "r' \<le> payable"
  shows "\<exists>x y. cumulativeCreditReversal (int_str credit) (int_str payable) (int_str r) = Inr x
    \<and> cumulativeCreditReversal (int_str credit) (int_str payable) (int_str r') = Inr y
    \<and> 0 \<le> x \<and> x \<le> y \<and> y \<le> credit \<and> (r' = payable \<longrightarrow> y = credit)"
proof -
  define x y where "x = credit_reversed credit payable r" and "y = credit_reversed credit payable r'"
  have "x \<le> y"
  proof (cases "r' = payable")
    case True
    then show ?thesis using credit_reversed_bounds(2) [of credit r payable] assms
      by (simp add: x_def y_def credit_reversed_def)
  next
    case False
    have "credit * r \<le> credit * r'" using assms by (intro mult_left_mono) auto
    then show ?thesis using False assms
      by (auto simp: x_def y_def credit_reversed_def intro!: zdiv_mono1)
  qed
  moreover have "0 \<le> x" "y \<le> credit"
    using assms credit_reversed_bounds unfolding x_def y_def by auto
  moreover have "r' = payable \<longrightarrow> y = credit" by (simp add: y_def credit_reversed_def)
  ultimately show ?thesis using assms
    by (intro exI [of _ x] exI [of _ y]) (auto simp: cumulativeCreditReversal_Inr_iff x_def y_def)
qed

theorem reversal_bounded_monotone_witness:
  "\<exists>x y. cumulativeCreditReversal (int_str 10000) (int_str 9000) (int_str 1) = Inr x
    \<and> cumulativeCreditReversal (int_str 10000) (int_str 9000) (int_str 4500) = Inr y
    \<and> 0 \<le> x \<and> x \<le> y \<and> y \<le> 10000 \<and> ((4500 :: int) = 9000 \<longrightarrow> y = 10000)"
  by (rule reversal_bounded_monotone) simp_all

end
