(* ===== verification/Wallet.thy ===== *)
theory Wallet
  imports Store Money Authorization
begin

text \<open>
  Wallets and their append-only ledger, \<open>src/modules/wallet/service.ts\<close> over the tables of
  \<open>migrations/0003\<close> and \<open>0034\<close>. \<open>bigint\<close> columns are integers that a write checks for their
  range; the code reads them back as decimal texts.
\<close>

section \<open>The code\<close>

datatype WalletStatus = Wallet_ACTIVE | RESTRICTED_DEBT | RESTRICTED_RECONCILIATION

datatype EntryType = TOP_UP | TOP_UP_REVERSAL | SHOP_CHARGE | ADMIN_ADJUSTMENT | DEBT_SETTLEMENT

record wallet_row =
  wa_id :: string
  wa_enterprise_id :: "string option"
  wa_owner_account_id :: "string option"
  wa_balance_cents :: int
  wa_status :: WalletStatus
  wa_version :: int

record ledger_row =
  wl_id :: nat
  wl_wallet_id :: string
  wl_entry_type :: EntryType
  wl_delta_cents :: int
  wl_balance_after_cents :: int
  wl_business_key :: string
  wl_reference_type :: string
  wl_reference_id :: "string option"
  wl_actor_account_id :: "string option"
  wl_reason :: "string option"

text \<open>\<open>next_ledger\<close> is the identity sequence of the ledger.\<close>

record wallet_db = core_db +
  wallets :: "wallet_row list"
  ledger :: "ledger_row list"
  next_ledger :: nat

record WalletSnapshot =
  walletId :: string
  ws_enterpriseId :: "string option"
  ws_ownerAccountId :: "string option"
  balanceCents :: string
  ws_status :: WalletStatus
  ws_version :: string

text \<open>An optional text that is only there when it is not empty.\<close>

definition present :: "string option \<Rightarrow> string option" where
  "present x = (if x = Some [] then None else x)"

definition snapshot :: "wallet_row \<Rightarrow> WalletSnapshot" where
  "snapshot row =
     \<lparr> walletId = wa_id row, ws_enterpriseId = present (wa_enterprise_id row),
       ws_ownerAccountId = present (wa_owner_account_id row),
       balanceCents = int_str (wa_balance_cents row), ws_status = wa_status row,
       ws_version = int_str (wa_version row) \<rparr>"

definition lockWallet :: "string \<Rightarrow> 'z wallet_db_scheme \<Rightarrow> WalletSnapshot result" where
  "lockWallet wid db =
     (case first_row (\<lambda>w. wa_id w = wid) (wallets db) of
        None \<Rightarrow> Inl (AppError ''WALLET_NOT_FOUND'' 404 None)
      | Some row \<Rightarrow> Inr (snapshot row))"

record WalletEntry =
  e_walletId :: string
  e_entryType :: EntryType
  e_deltaCents :: int
  e_businessKey :: string
  e_referenceType :: string
  e_referenceId :: "string option"
  e_actorAccountId :: "string option"
  e_reason :: "string option"
  e_resolveReconciliation :: bool
  e_allowRestrictedDebit :: bool

record WalletAppended =
  ledgerId :: string
  ap_wallet :: WalletSnapshot
  ap_duplicate :: bool

text \<open>
  The constraints of \<open>wallet_account\<close> that \<open>UPDATE wallet_account SET balance_cents, status\<close> can
  violate, and those of an \<open>INSERT INTO wallet_ledger\<close>.
\<close>

definition status_check :: "int \<Rightarrow> WalletStatus \<Rightarrow> bool" where
  "status_check balance st \<longleftrightarrow> (if balance < 0 then st = RESTRICTED_DEBT else st \<noteq> RESTRICTED_DEBT)"

definition set_balance ::
    "string \<Rightarrow> int \<Rightarrow> WalletStatus \<Rightarrow> 'z wallet_db_scheme \<Rightarrow> 'z wallet_db_scheme result" where
  "set_balance wid balance st db =
     (if \<not> int64 balance then Inl bigint_overflow
      else if \<not> status_check balance st then Inl (SqlError ''23514'' ''wallet_account_check'')
      else Inr (db\<lparr>wallets := update_rows (\<lambda>w. wa_id w = wid)
             (\<lambda>w. w\<lparr>wa_balance_cents := balance, wa_status := st, wa_version := wa_version w + 1\<rparr>)
             (wallets db)\<rparr>))"

definition insert_ledger :: "ledger_row \<Rightarrow> 'z wallet_db_scheme \<Rightarrow> 'z wallet_db_scheme result" where
  "insert_ledger r db =
     (if \<not> int64 (wl_delta_cents r) then Inl bigint_overflow
      else if wl_delta_cents r = 0 then Inl (SqlError ''23514'' ''wallet_ledger_delta_cents_check'')
      else if wl_entry_type r = ADMIN_ADJUSTMENT \<and>
              (case wl_reason r of None \<Rightarrow> True | Some reason \<Rightarrow> btrim reason = [])
      then Inl (SqlError ''23514'' ''wallet_ledger_check'')
      else if \<exists>l \<in> set (ledger db). wl_wallet_id l = wl_wallet_id r \<and> wl_business_key l = wl_business_key r
      then Inl (SqlError ''23505'' ''wallet_ledger_account_id_business_key_key'')
      else Inr (db\<lparr>ledger := ledger db @ [r\<lparr>wl_id := next_ledger db\<rparr>], next_ledger := next_ledger db + 1\<rparr>))"

definition next_status :: "WalletEntry \<Rightarrow> WalletStatus \<Rightarrow> int \<Rightarrow> WalletStatus" where
  "next_status input current nextBalance =
     (if nextBalance < 0 then RESTRICTED_DEBT
      else if current = RESTRICTED_RECONCILIATION \<and> \<not> e_resolveReconciliation input
      then RESTRICTED_RECONCILIATION
      else Wallet_ACTIVE)"

definition appendWalletEntry ::
    "WalletEntry \<Rightarrow> 'z wallet_db_scheme \<Rightarrow> (WalletAppended \<times> 'z wallet_db_scheme) result" where
  "appendWalletEntry input db =
     (if e_deltaCents input = 0 then Inl (AppError ''WALLET_AMOUNT_INVALID'' 400 None)
      else
      bindE (lockWallet (e_walletId input) db) (\<lambda>current.
      case first_row (\<lambda>l. wl_wallet_id l = e_walletId input \<and> wl_business_key l = e_businessKey input)
             (ledger db) of
        Some l \<Rightarrow> Inr (\<lparr> ledgerId = nat_str (wl_id l), ap_wallet = current, ap_duplicate = True \<rparr>, db)
      | None \<Rightarrow>
          if e_deltaCents input < 0 \<and> ws_status current \<noteq> Wallet_ACTIVE \<and> \<not> e_allowRestrictedDebit input
          then Inl (AppError ''WALLET_RESTRICTED'' 409 None)
          else
          bindE (js_bigint (balanceCents current)) (\<lambda>balance.
          let nextBalance = balance + e_deltaCents input;
              nextStatus = next_status input (ws_status current) nextBalance in
          bindE (set_balance (e_walletId input) nextBalance nextStatus db) (\<lambda>db1.
          bindE (insert_ledger
             \<lparr> wl_id = 0, wl_wallet_id = e_walletId input, wl_entry_type = e_entryType input,
               wl_delta_cents = e_deltaCents input, wl_balance_after_cents = nextBalance,
               wl_business_key = e_businessKey input, wl_reference_type = e_referenceType input,
               wl_reference_id = e_referenceId input, wl_actor_account_id = e_actorAccountId input,
               wl_reason = e_reason input \<rparr> db1) (\<lambda>db2.
          case first_row (\<lambda>w. wa_id w = e_walletId input) (wallets db2) of
            None \<Rightarrow> Inl (PlainError ''LEDGER_WRITE_FAILED'')
          | Some row \<Rightarrow>
              Inr (\<lparr> ledgerId = nat_str (next_ledger db1), ap_wallet = snapshot row,
                     ap_duplicate = False \<rparr>, db2))))))"

definition getEnterprise :: "string \<Rightarrow> 'z wallet_db_scheme \<Rightarrow> WalletSnapshot result" where
  "getEnterprise eid db =
     (case first_row (\<lambda>w. wa_enterprise_id w = Some eid) (wallets db) of
        None \<Rightarrow> Inl (AppError ''RESOURCE_NOT_FOUND'' 404 None)
      | Some row \<Rightarrow> Inr (snapshot row))"

definition getEnterpriseForActor ::
    "Actor \<Rightarrow> string \<Rightarrow> bool \<Rightarrow> 'z wallet_db_scheme \<Rightarrow> WalletSnapshot result" where
  "getEnterpriseForActor actor eid requireComplete db =
     (if ADMIN \<notin> roles actor \<and> \<not> (case enterpriseIds actor of None \<Rightarrow> False | Some ids \<Rightarrow> eid \<in> ids)
      then Inl (AppError ''RESOURCE_NOT_FOUND'' 404 None)
      else case first_row (\<lambda>e. en_id e = eid) (enterprises db) of
          None \<Rightarrow> Inl (AppError ''RESOURCE_NOT_FOUND'' 404 None)
        | Some row \<Rightarrow>
            if requireComplete \<and> present (en_credit_code row) = None
            then Inl (AppError ''ENTERPRISE_PROFILE_INCOMPLETE'' 409 None)
            else getEnterprise eid db)"

definition getLegacyAccount :: "string \<Rightarrow> 'z wallet_db_scheme \<Rightarrow> WalletSnapshot option" where
  "getLegacyAccount aid db =
     map_option snapshot (first_row (\<lambda>w. wa_owner_account_id w = Some aid) (wallets db))"

record WalletAdjustment =
  ad_enterpriseId :: string
  ad_actorAccountId :: string
  ad_deltaCents :: string
  ad_reason :: string
  ad_idempotencyKey :: string
  ad_requestId :: string

definition adjustEnterprise ::
    "WalletAdjustment \<Rightarrow> 'z wallet_db_scheme \<Rightarrow> (WalletSnapshot \<times> 'z wallet_db_scheme) result" where
  "adjustEnterprise input db =
     (if trim (ad_reason input) = [] then Inl (AppError ''REASON_REQUIRED'' 400 (Some ''reason''))
      else
      bindE (js_bigint (ad_deltaCents input)) (\<lambda>delta.
      case first_row (\<lambda>w. wa_enterprise_id w = Some (ad_enterpriseId input)) (wallets db) of
        None \<Rightarrow> Inl (AppError ''RESOURCE_NOT_FOUND'' 404 None)
      | Some row \<Rightarrow>
          bindE (appendWalletEntry
             \<lparr> e_walletId = wa_id row, e_entryType = ADMIN_ADJUSTMENT, e_deltaCents = delta,
               e_businessKey = ''admin-adjustment:'' @ ad_idempotencyKey input,
               e_referenceType = ''ADMIN_ADJUSTMENT'', e_referenceId = None,
               e_actorAccountId = Some (ad_actorAccountId input), e_reason = Some (trim (ad_reason input)),
               e_resolveReconciliation = True, e_allowRestrictedDebit = False \<rparr> db) (\<lambda>(result, db1).
          Inr (ap_wallet result,
            if ap_duplicate result then db1
            else audit \<lparr> au_actorAccountId = Some (ad_actorAccountId input), au_actorRoles = [''ADMIN''],
                au_objectType = ''wallet_account'', au_objectId = wa_id row, au_action = ''WALLET_ADJUSTED'',
                au_succeeded = True, au_reason = Some (trim (ad_reason input)),
                au_requestId = ad_requestId input, au_before = None,
                au_after = Some [(''enterpriseId'', Some (ad_enterpriseId input)),
                  (''balanceCents'', Some (balanceCents (ap_wallet result))),
                  (''ledgerId'', Some (ledgerId result))] \<rparr> db1))))"

lemmas [code_defs] = present_def snapshot_def lockWallet_def status_check_def set_balance_def
  insert_ledger_def next_status_def appendWalletEntry_def getEnterprise_def getEnterpriseForActor_def
  getLegacyAccount_def adjustEnterprise_def

section \<open>What a posting does\<close>

definition key_posted :: "string \<Rightarrow> string \<Rightarrow> 'z wallet_db_scheme \<Rightarrow> bool" where
  "key_posted wid key db \<longleftrightarrow> (\<exists>l \<in> set (ledger db). wl_wallet_id l = wid \<and> wl_business_key l = key)"

definition entry_row :: "WalletEntry \<Rightarrow> wallet_row \<Rightarrow> nat \<Rightarrow> ledger_row" where
  "entry_row input w n =
     \<lparr> wl_id = n, wl_wallet_id = e_walletId input, wl_entry_type = e_entryType input,
       wl_delta_cents = e_deltaCents input, wl_balance_after_cents = wa_balance_cents w + e_deltaCents input,
       wl_business_key = e_businessKey input, wl_reference_type = e_referenceType input,
       wl_reference_id = e_referenceId input, wl_actor_account_id = e_actorAccountId input,
       wl_reason = e_reason input \<rparr>"

definition booked :: "WalletEntry \<Rightarrow> wallet_row \<Rightarrow> wallet_row" where
  "booked input w = w\<lparr>wa_balance_cents := wa_balance_cents w + e_deltaCents input,
     wa_status := next_status input (wa_status w) (wa_balance_cents w + e_deltaCents input),
     wa_version := wa_version w + 1\<rparr>"

definition post_db :: "WalletEntry \<Rightarrow> wallet_row \<Rightarrow> 'z wallet_db_scheme \<Rightarrow> 'z wallet_db_scheme" where
  "post_db input w db = db\<lparr>
     wallets := update_rows (\<lambda>x. wa_id x = e_walletId input)
       (\<lambda>x. x\<lparr>wa_balance_cents := wa_balance_cents w + e_deltaCents input,
              wa_status := next_status input (wa_status w) (wa_balance_cents w + e_deltaCents input),
              wa_version := wa_version x + 1\<rparr>) (wallets db),
     ledger := ledger db @ [entry_row input w (next_ledger db)],
     next_ledger := next_ledger db + 1\<rparr>"

definition reason_ok :: "WalletEntry \<Rightarrow> bool" where
  "reason_ok input \<longleftrightarrow>
     e_entryType input \<noteq> ADMIN_ADJUSTMENT \<or> (\<exists>r. e_reason input = Some r \<and> btrim r \<noteq> [])"

lemma status_check_next: "status_check balance (next_status input current balance)"
  by (simp add: status_check_def next_status_def)

lemma snapshot_simps [simp]:
  "walletId (snapshot w) = wa_id w" "balanceCents (snapshot w) = int_str (wa_balance_cents w)"
  "ws_status (snapshot w) = wa_status w"
  by (simp_all add: snapshot_def)

lemma append_missing:
  "first_row (\<lambda>w. wa_id w = e_walletId input) (wallets db) = None \<Longrightarrow> e_deltaCents input \<noteq> 0 \<Longrightarrow>
   appendWalletEntry input db = Inl (AppError ''WALLET_NOT_FOUND'' 404 None)"
  by (simp add: appendWalletEntry_def lockWallet_def)

lemma append_again:
  assumes "first_row (\<lambda>w. wa_id w = e_walletId input) (wallets db) = Some w" and "e_deltaCents input \<noteq> 0"
    and "first_row (\<lambda>l. wl_wallet_id l = e_walletId input \<and> wl_business_key l = e_businessKey input)
           (ledger db) = Some l"
  shows "appendWalletEntry input db =
    Inr (\<lparr> ledgerId = nat_str (wl_id l), ap_wallet = snapshot w, ap_duplicate = True \<rparr>, db)"
  using assms by (simp add: appendWalletEntry_def lockWallet_def)

text \<open>The one place that books: every condition on a first posting, and its effect.\<close>

lemma append_first:
  fixes db :: "'z wallet_db_scheme"
  assumes w: "first_row (\<lambda>w. wa_id w = e_walletId input) (wallets db) = Some w" and nz: "e_deltaCents input \<noteq> 0"
    and new: "\<not> key_posted (e_walletId input) (e_businessKey input) db"
  shows "appendWalletEntry input db =
    (if e_deltaCents input < 0 \<and> wa_status w \<noteq> Wallet_ACTIVE \<and> \<not> e_allowRestrictedDebit input
     then Inl (AppError ''WALLET_RESTRICTED'' 409 None)
     else if \<not> int64 (wa_balance_cents w + e_deltaCents input) \<or> \<not> int64 (e_deltaCents input)
     then Inl bigint_overflow
     else if \<not> reason_ok input then Inl (SqlError ''23514'' ''wallet_ledger_check'')
     else Inr (\<lparr> ledgerId = nat_str (next_ledger db), ap_wallet = snapshot (booked input w),
                 ap_duplicate = False \<rparr>, post_db input w db))"
proof -
  have nl: "first_row (\<lambda>l. wl_wallet_id l = e_walletId input \<and> wl_business_key l = e_businessKey input) (ledger db) = None"
    using new by (auto simp: key_posted_def first_row_None_iff)
  have nd: "\<not> (\<exists>l \<in> set (ledger db). wl_wallet_id l = e_walletId input \<and> wl_business_key l = e_businessKey input)"
    using new by (auto simp: key_posted_def)
  have id: "wa_id w = e_walletId input" using first_row_SomeD [OF w] by simp
  have up: "first_row (\<lambda>x. wa_id x = e_walletId input)
      (update_rows (\<lambda>x. wa_id x = e_walletId input)
        (\<lambda>x. x\<lparr>wa_balance_cents := b, wa_status := s, wa_version := wa_version x + 1\<rparr>) (wallets db)) =
      Some (w\<lparr>wa_balance_cents := b, wa_status := s, wa_version := wa_version w + 1\<rparr>)" for b s
    by (subst first_row_update_rows) (auto simp: w id)
  have reason: "reason_ok input \<longleftrightarrow> \<not> (e_entryType input = ADMIN_ADJUSTMENT \<and>
      (case e_reason input of None \<Rightarrow> True | Some reason \<Rightarrow> btrim reason = []))"
    by (auto simp: reason_ok_def split: option.splits)
  have ins: "insert_ledger (entry_row input w 0) db1 =
      (if \<not> int64 (e_deltaCents input) then Inl bigint_overflow
       else if \<not> reason_ok input then Inl (SqlError ''23514'' ''wallet_ledger_check'')
       else Inr (db1\<lparr>ledger := ledger db1 @ [entry_row input w (next_ledger db1)], next_ledger := next_ledger db1 + 1\<rparr>))"
    if "ledger db1 = ledger db" for db1 :: "'z wallet_db_scheme"
    using nz nd that by (auto simp: insert_ledger_def entry_row_def reason)
  show ?thesis
    using nz ins
    by (simp add: appendWalletEntry_def lockWallet_def w nl set_balance_def status_check_next
        up post_db_def booked_def bindE_if Let_def flip: entry_row_def)
qed

lemma append_Inr_cases:
  assumes "appendWalletEntry input db = Inr (r, db')"
  obtains (again) w l where "first_row (\<lambda>w. wa_id w = e_walletId input) (wallets db) = Some w"
      and "l \<in> set (ledger db)" and "wl_wallet_id l = e_walletId input" and "wl_business_key l = e_businessKey input"
      and "r = \<lparr> ledgerId = nat_str (wl_id l), ap_wallet = snapshot w, ap_duplicate = True \<rparr>"
      and "key_posted (e_walletId input) (e_businessKey input) db" and "db' = db"
  | (first) w where "first_row (\<lambda>w. wa_id w = e_walletId input) (wallets db) = Some w"
      and "e_deltaCents input \<noteq> 0"
      and "\<not> key_posted (e_walletId input) (e_businessKey input) db"
      and "e_deltaCents input < 0 \<Longrightarrow> wa_status w = Wallet_ACTIVE \<or> e_allowRestrictedDebit input"
      and "int64 (wa_balance_cents w + e_deltaCents input)" and "int64 (e_deltaCents input)" and "reason_ok input"
      and "r = \<lparr> ledgerId = nat_str (next_ledger db), ap_wallet = snapshot (booked input w), ap_duplicate = False \<rparr>"
      and "db' = post_db input w db"
proof -
  have nz: "e_deltaCents input \<noteq> 0" using assms by (auto simp: appendWalletEntry_def)
  then obtain w where w: "first_row (\<lambda>w. wa_id w = e_walletId input) (wallets db) = Some w"
    using assms append_missing [of input db] by (cases "first_row (\<lambda>w. wa_id w = e_walletId input) (wallets db)") auto
  show ?thesis
  proof (cases "key_posted (e_walletId input) (e_businessKey input) db")
    case True
    then have "first_row (\<lambda>l. wl_wallet_id l = e_walletId input \<and> wl_business_key l = e_businessKey input)
        (ledger db) \<noteq> None"
      by (auto simp: key_posted_def first_row_None_iff)
    then obtain l where l: "first_row (\<lambda>l. wl_wallet_id l = e_walletId input \<and> wl_business_key l = e_businessKey input)
        (ledger db) = Some l" by blast
    from again [OF w] first_row_SomeD [OF l] append_again [OF w nz l] assms True show ?thesis by auto
  next
    case False
    from first [OF w nz False] append_first [OF w nz False] assms show ?thesis by (auto split: if_splits)
  qed
qed

section \<open>The ledger invariant\<close>

definition posted :: "string \<Rightarrow> ledger_row list \<Rightarrow> int" where
  "posted wid ls = sum_list (map wl_delta_cents (filter (\<lambda>l. wl_wallet_id l = wid) ls))"

definition running :: "ledger_row list \<Rightarrow> bool" where
  "running ls \<longleftrightarrow> (\<forall>i < length ls. wl_balance_after_cents (ls ! i) = posted (wl_wallet_id (ls ! i)) (take (Suc i) ls))"

definition wallet_row_ok :: "ledger_row list \<Rightarrow> wallet_row \<Rightarrow> bool" where
  "wallet_row_ok ls w \<longleftrightarrow> int64 (wa_balance_cents w) \<and> status_check (wa_balance_cents w) (wa_status w) \<and>
     wa_balance_cents w = posted (wa_id w) ls"

definition wallet_inv :: "'z wallet_db_scheme \<Rightarrow> bool" where
  "wallet_inv db \<longleftrightarrow>
     distinct (map wa_id (wallets db)) \<and> list_all (wallet_row_ok (ledger db)) (wallets db) \<and>
     (\<forall>l \<in> set (ledger db). wl_delta_cents l \<noteq> 0 \<and> wl_wallet_id l \<in> wa_id ` set (wallets db)) \<and>
     distinct (map (\<lambda>l. (wl_wallet_id l, wl_business_key l)) (ledger db)) \<and>
     running (ledger db) \<and>
     distinct (map wl_id (ledger db)) \<and> (\<forall>l \<in> set (ledger db). wl_id l < next_ledger db)"

lemma posted_append: "posted wid (ls @ [l]) = posted wid ls + (if wl_wallet_id l = wid then wl_delta_cents l else 0)"
  by (simp add: posted_def)

lemma posted_Nil [simp]: "posted wid [] = 0"
  by (simp add: posted_def)

lemma running_append:
  assumes "running ls"
  shows "running (ls @ [l]) \<longleftrightarrow> wl_balance_after_cents l = posted (wl_wallet_id l) (ls @ [l])"
  using assms by (auto simp: running_def nth_append less_Suc_eq)

lemma wallet_inv_row:
  assumes "wallet_inv db" and "first_row (\<lambda>w. wa_id w = wid) (wallets db) = Some w"
  shows "wa_id w = wid" "w \<in> set (wallets db)" "wallet_row_ok (ledger db) w"
  using assms first_row_SomeD [OF assms(2)] by (auto simp: wallet_inv_def list_all_iff)

lemma wallets_distinctD:
  "wallet_inv db \<Longrightarrow> w \<in> set (wallets db) \<Longrightarrow> x \<in> set (wallets db) \<Longrightarrow> wa_id w = wa_id x \<Longrightarrow> w = x"
  by (auto simp: wallet_inv_def distinct_map inj_on_def)

lemma post_db_inv:
  assumes inv: "wallet_inv db" and w: "first_row (\<lambda>w. wa_id w = e_walletId input) (wallets db) = Some w"
    and nz: "e_deltaCents input \<noteq> 0" and new: "\<not> key_posted (e_walletId input) (e_businessKey input) db"
    and b: "int64 (wa_balance_cents w + e_deltaCents input)"
  shows "wallet_inv (post_db input w db)"
proof -
  note row = wallet_inv_row [OF inv w]
  have upd: "update_rows (\<lambda>x. wa_id x = e_walletId input)
       (\<lambda>x. x\<lparr>wa_balance_cents := wa_balance_cents w + e_deltaCents input,
              wa_status := next_status input (wa_status w) (wa_balance_cents w + e_deltaCents input),
              wa_version := wa_version x + 1\<rparr>) (wallets db)
     = update_rows (\<lambda>x. wa_id x = e_walletId input) (booked input) (wallets db)"
    unfolding update_rows_def
  proof (rule map_cong [OF refl])
    fix x assume "x \<in> set (wallets db)"
    then show "(if wa_id x = e_walletId input then x\<lparr>wa_balance_cents := wa_balance_cents w + e_deltaCents input,
              wa_status := next_status input (wa_status w) (wa_balance_cents w + e_deltaCents input),
              wa_version := wa_version x + 1\<rparr> else x) = (if wa_id x = e_walletId input then booked input x else x)"
      using wallets_distinctD [OF inv row(2), of x] row(1) by (auto simp: booked_def)
  qed
  have ids: "map wa_id (wallets (post_db input w db)) = map wa_id (wallets db)"
    by (simp add: post_db_def map_update_rows)
  have ok: "wallet_row_ok (ledger (post_db input w db)) x" if "x \<in> set (wallets (post_db input w db))" for x
  proof -
    from that obtain y where y: "y \<in> set (wallets db)"
      and x: "x = (if wa_id y = e_walletId input then booked input y else y)"
      by (auto simp: post_db_def upd in_update_rows)
    have "wallet_row_ok (ledger db) y" using inv y by (simp add: wallet_inv_def list_all_iff)
    moreover have "wa_id y = e_walletId input \<Longrightarrow> y = w"
      using wallets_distinctD [OF inv y row(2)] row(1) by simp
    ultimately show ?thesis
      using b status_check_next
      by (auto simp: x wallet_row_ok_def booked_def post_db_def posted_append entry_row_def)
  qed
  have "wl_balance_after_cents (entry_row input w (next_ledger db)) =
      posted (e_walletId input) (ledger db @ [entry_row input w (next_ledger db)])"
    using row by (simp add: entry_row_def posted_append wallet_row_ok_def)
  then have run: "running (ledger (post_db input w db))"
    using inv running_append [of "ledger db"] by (simp add: wallet_inv_def post_db_def entry_row_def)
  have same: "wa_id ` set (wallets (post_db input w db)) = wa_id ` set (wallets db)"
    using ids by (metis set_map)
  have l: "ledger (post_db input w db) = ledger db @ [entry_row input w (next_ledger db)]"
    and n: "next_ledger (post_db input w db) = next_ledger db + 1"
    by (simp_all add: post_db_def)
  have wid: "e_walletId input \<in> wa_id ` set (wallets db)" using row by (metis image_eqI)
  have e: "wl_delta_cents (entry_row input w k) = e_deltaCents input"
    "wl_wallet_id (entry_row input w k) = e_walletId input"
    "wl_business_key (entry_row input w k) = e_businessKey input" "wl_id (entry_row input w k) = k" for k
    by (simp_all add: entry_row_def)
  note inv' = inv [unfolded wallet_inv_def]
  have "\<forall>x \<in> set (ledger (post_db input w db)). wl_delta_cents x \<noteq> 0 \<and>
      wl_wallet_id x \<in> wa_id ` set (wallets (post_db input w db))"
    unfolding same l using inv' nz wid by (simp add: e)
  moreover have "distinct (map (\<lambda>l. (wl_wallet_id l, wl_business_key l)) (ledger (post_db input w db)))"
    unfolding l using inv' new by (auto simp: e key_posted_def)
  moreover have "distinct (map wl_id (ledger (post_db input w db)))"
    unfolding l using inv' by (auto simp: e)
  moreover have "\<forall>x \<in> set (ledger (post_db input w db)). wl_id x < next_ledger (post_db input w db)"
    unfolding l n using inv' by (auto simp: e less_Suc_eq)
  moreover have "distinct (map wa_id (wallets (post_db input w db)))" unfolding ids using inv' by simp
  moreover have "list_all (wallet_row_ok (ledger (post_db input w db))) (wallets (post_db input w db))"
    using ok by (simp add: list_all_iff)
  ultimately show ?thesis using run unfolding wallet_inv_def by blast
qed

lemma append_inv:
  "wallet_inv db \<Longrightarrow> appendWalletEntry input db = Inr (r, db') \<Longrightarrow> wallet_inv db'"
  by (erule append_Inr_cases) (auto intro: post_db_inv)

definition balance_of :: "string \<Rightarrow> 'z wallet_db_scheme \<Rightarrow> int" where
  "balance_of wid db = (case first_row (\<lambda>w. wa_id w = wid) (wallets db) of None \<Rightarrow> 0 | Some w \<Rightarrow> wa_balance_cents w)"

definition booked_keys_of :: "'z wallet_db_scheme \<Rightarrow> (string \<times> string) set" where
  "booked_keys_of db = (\<lambda>l. (wl_wallet_id l, wl_business_key l)) ` set (ledger db)"

definition book :: "WalletEntry \<Rightarrow> 'z wallet_db_scheme \<Rightarrow> 'z wallet_db_scheme option" where
  "book input db = map_option snd (result_option (appendWalletEntry input db))"

lemma book_Some_iff: "book input db = Some db' \<longleftrightarrow> (\<exists>r. appendWalletEntry input db = Inr (r, db'))"
  by (auto simp: book_def)

lemma key_posted_iff: "key_posted wid key db \<longleftrightarrow> (wid, key) \<in> booked_keys_of db"
  by (auto simp: key_posted_def booked_keys_of_def)

lemma posted_wallet_exists:
  "wallet_inv db \<Longrightarrow> key_posted wid key db \<Longrightarrow> \<exists>w. first_row (\<lambda>w. wa_id w = wid) (wallets db) = Some w"
proof -
  assume inv: "wallet_inv db" and "key_posted wid key db"
  then obtain l where "l \<in> set (ledger db)" "wl_wallet_id l = wid" by (auto simp: key_posted_def)
  then have "wid \<in> wa_id ` set (wallets db)" using inv by (auto simp: wallet_inv_def)
  then have "first_row (\<lambda>w. wa_id w = wid) (wallets db) \<noteq> None" by (auto simp: first_row_None_iff)
  then show ?thesis by blast
qed

lemma post_db_balance:
  assumes "first_row (\<lambda>w. wa_id w = e_walletId input) (wallets db) = Some w"
  shows "balance_of a (post_db input w db) =
    balance_of a db + (if a = e_walletId input then e_deltaCents input else 0)"
proof (cases "a = e_walletId input")
  case True
  then show ?thesis using assms first_row_SomeD [OF assms]
    by (simp add: balance_of_def post_db_def first_row_update_rows)
next
  case False
  then show ?thesis
    by (auto simp: balance_of_def post_db_def first_row_update_rows split: option.splits
        dest!: first_row_SomeD)
qed

interpretation wallet_book: keyed_booking
  "book :: WalletEntry \<Rightarrow> 'z wallet_db_scheme \<Rightarrow> 'z wallet_db_scheme option"
  "\<lambda>i. (e_walletId i, e_businessKey i)" e_deltaCents e_walletId balance_of booked_keys_of wallet_inv
proof unfold_locales
  fix s s' :: "'z wallet_db_scheme" and i a
  assume good: "wallet_inv s"
  { assume "book i s = Some s'"
    then obtain r where r: "appendWalletEntry i s = Inr (r, s')" by (auto simp: book_Some_iff)
    show "wallet_inv s'" using good r by (rule append_inv)
    show "booked_keys_of s' = insert (e_walletId i, e_businessKey i) (booked_keys_of s)"
      using r by (rule append_Inr_cases)
        (auto simp: booked_keys_of_def post_db_def entry_row_def key_posted_iff)
    show "balance_of a s' = balance_of a s + (if a = e_walletId i then e_deltaCents i else 0)"
      if "(e_walletId i, e_businessKey i) \<notin> booked_keys_of s"
      using r
    proof (rule append_Inr_cases)
    qed (use that in \<open>simp_all add: post_db_balance key_posted_iff\<close>) }
  show "book i s = Some s" if "(e_walletId i, e_businessKey i) \<in> booked_keys_of s" "e_deltaCents i \<noteq> 0"
  proof -
    have k: "key_posted (e_walletId i) (e_businessKey i) s" using that by (simp add: key_posted_iff)
    then obtain w where w: "first_row (\<lambda>w. wa_id w = e_walletId i) (wallets s) = Some w"
      using posted_wallet_exists [OF good] by blast
    have "first_row (\<lambda>l. wl_wallet_id l = e_walletId i \<and> wl_business_key l = e_businessKey i) (ledger s) \<noteq> None"
      using k by (auto simp: key_posted_def first_row_None_iff)
    then show ?thesis using append_again [OF w that(2)] by (auto simp: book_Some_iff)
  qed
next
  fix s s' :: "'z wallet_db_scheme" and i
  assume "book i s = Some s'"
  then show "e_deltaCents i \<noteq> 0" by (auto simp: book_Some_iff appendWalletEntry_def)
qed

text \<open>Writes to the wallets alone.\<close>

lemma wallet_inv_rows:
  assumes "wallet_inv db" and "map wa_id ws = map wa_id (wallets db)" and "list_all (wallet_row_ok (ledger db)) ws"
  shows "wallet_inv (db\<lparr>wallets := ws\<rparr>)"
proof -
  have "wa_id ` set ws = wa_id ` set (wallets db)" using assms(2) by (metis set_map)
  with assms show ?thesis by (simp add: wallet_inv_def)
qed

section \<open>Properties\<close>

definition empty_wallet :: "string \<Rightarrow> wallet_row" where
  "empty_wallet wid = \<lparr> wa_id = wid, wa_enterprise_id = Some (''e'' @ wid), wa_owner_account_id = None,
     wa_balance_cents = 0, wa_status = Wallet_ACTIVE, wa_version = 0 \<rparr>"

definition wallet_db_of :: "wallet_row list \<Rightarrow> wallet_db" where
  "wallet_db_of ws = \<lparr> accounts = [], enterprises = [], enterprise_members = [], audits = [], outbox = [],
     wallets = ws, ledger = [], next_ledger = 1 \<rparr>"

definition top_up_entry :: "string \<Rightarrow> int \<Rightarrow> string \<Rightarrow> WalletEntry" where
  "top_up_entry wid delta key = \<lparr> e_walletId = wid, e_entryType = TOP_UP, e_deltaCents = delta,
     e_businessKey = key, e_referenceType = ''PAYMENT_ORDER'', e_referenceId = None,
     e_actorAccountId = None, e_reason = None, e_resolveReconciliation = False,
     e_allowRestrictedDebit = False \<rparr>"

lemma wallet_db_of_inv: "distinct (map wa_id ws) \<Longrightarrow> (\<forall>w \<in> set ws. wa_balance_cents w = 0 \<and> wa_status w \<noteq> RESTRICTED_DEBT)
   \<Longrightarrow> wallet_inv (wallet_db_of ws)"
  by (auto simp: wallet_inv_def wallet_db_of_def list_all_iff wallet_row_ok_def status_check_def running_def)

text \<open>
  C7: posting keeps the ledger sound. In every state where each balance is the sum of its ledger
  rows, the status agrees with the sign of the balance, every ledger row shows the running balance,
  and no wallet has two rows for one business key, a successful posting leads to such a state again,
  and the balance it reports is the sum of the wallet's rows.
\<close>

theorem append_keeps_ledger_sound:
  assumes "wallet_inv db" and "appendWalletEntry input db = Inr (r, db')"
  shows "wallet_inv db' \<and>
    balanceCents (ap_wallet r) = int_str (posted (e_walletId input) (ledger db')) \<and>
    key_posted (e_walletId input) (e_businessKey input) db'"
proof -
  have inv: "wallet_inv db'" using append_inv assms by blast
  from assms(2) have "\<exists>w. first_row (\<lambda>w. wa_id w = e_walletId input) (wallets db') = Some w \<and> ap_wallet r = snapshot w"
  proof (cases rule: append_Inr_cases)
    case (again w l)
    then show ?thesis by auto
  next
    case (first w)
    then show ?thesis using first_row_SomeD [OF first(1)]
      by (auto simp: post_db_def first_row_update_rows booked_def)
  qed
  then obtain w where w: "first_row (\<lambda>w. wa_id w = e_walletId input) (wallets db') = Some w"
    and r: "ap_wallet r = snapshot w" by blast
  from assms(2) have "key_posted (e_walletId input) (e_businessKey input) db'"
    by (cases rule: append_Inr_cases) (auto simp: post_db_def entry_row_def key_posted_def)
  then show ?thesis using inv wallet_inv_row [OF inv w] r by (simp add: wallet_row_ok_def)
qed

theorem append_keeps_ledger_sound_witness:
  "\<exists>(r :: WalletAppended) (db' :: wallet_db). wallet_inv db' \<and>
    balanceCents (ap_wallet r) = int_str (posted (e_walletId (top_up_entry ''w'' 500 ''k'')) (ledger db')) \<and>
    key_posted (e_walletId (top_up_entry ''w'' 500 ''k'')) (e_businessKey (top_up_entry ''w'' 500 ''k'')) db'"
proof -
  define db where "db = wallet_db_of [empty_wallet ''w'']"
  have inv: "wallet_inv db" unfolding db_def by (rule wallet_db_of_inv) (simp_all add: empty_wallet_def)
  have "appendWalletEntry (top_up_entry ''w'' 500 ''k'') db \<in> range Inr"
    by (simp add: db_def append_first key_posted_def top_up_entry_def empty_wallet_def wallet_db_of_def
        int64_def reason_ok_def)
  then obtain r db' where "appendWalletEntry (top_up_entry ''w'' 500 ''k'') db = Inr (r, db')" by auto
  from append_keeps_ledger_sound [OF inv this] show ?thesis by blast
qed

text \<open>
  what a first posting does, in every case. It is refused when it is a debit on a restricted
  wallet (unless the caller may overdraw), when the new balance or the amount does not fit the
  column, or when an adjustment has no reason; otherwise the balance moves by the amount, the
  wallet falls into debt exactly when the balance is negative, a wallet under reconciliation stays
  so unless the posting resolves it, and one ledger row is added.
\<close>

theorem first_posting_exact:
  assumes "first_row (\<lambda>w. wa_id w = e_walletId input) (wallets db) = Some w" and "e_deltaCents input \<noteq> 0"
    and "\<not> key_posted (e_walletId input) (e_businessKey input) db"
  shows "appendWalletEntry input db =
    (if e_deltaCents input < 0 \<and> wa_status w \<noteq> Wallet_ACTIVE \<and> \<not> e_allowRestrictedDebit input
     then Inl (AppError ''WALLET_RESTRICTED'' 409 None)
     else if \<not> int64 (wa_balance_cents w + e_deltaCents input) \<or> \<not> int64 (e_deltaCents input)
     then Inl bigint_overflow
     else if \<not> reason_ok input then Inl (SqlError ''23514'' ''wallet_ledger_check'')
     else Inr (\<lparr> ledgerId = nat_str (next_ledger db), ap_wallet = snapshot (booked input w),
                 ap_duplicate = False \<rparr>, post_db input w db))"
  using append_first assms by blast

theorem first_posting_exact_witness:
  "appendWalletEntry (top_up_entry ''w'' (- 1) ''k'') (wallet_db_of [(empty_wallet ''w'')\<lparr>wa_status := RESTRICTED_RECONCILIATION\<rparr>])
   = Inl (AppError ''WALLET_RESTRICTED'' 409 None)"
  by (subst first_posting_exact [of _ _ "(empty_wallet ''w'')\<lparr>wa_status := RESTRICTED_RECONCILIATION\<rparr>"])
    (simp_all add: top_up_entry_def empty_wallet_def wallet_db_of_def key_posted_def)

text \<open>
  bookings take effect exactly once. A stream of postings with any repetitions moves a
  wallet by the sum of the amounts of the first posting of each new business key, and delivering
  any part of the stream again changes nothing at all.
\<close>

theorem postings_exactly_once:
  assumes "wallet_inv db" and "run_all book msgs db = Some db'" and "set again \<subseteq> set msgs"
  shows "balance_of a db' = balance_of a db +
      sum_list (map e_deltaCents (filter (\<lambda>i. e_walletId i = a)
        (fresh (\<lambda>i. (e_walletId i, e_businessKey i)) (booked_keys_of db) msgs))) \<and>
    run_all book again db' = Some db' \<and> wallet_inv db'"
  using wallet_book.batch_balance [OF assms(1,2)] wallet_book.redelivery [OF assms]
    wallet_book.batch_good [OF assms(1,2)] by blast

theorem postings_exactly_once_witness:
  "\<exists>db' :: wallet_db. balance_of ''w'' db' = 700 \<and>
     run_all book [top_up_entry ''w'' 200 ''b''] db' = Some db' \<and> wallet_inv db'"
proof -
  let ?a = "top_up_entry ''w'' 500 ''a''" and ?b = "top_up_entry ''w'' 200 ''b''"
  let ?db = "wallet_db_of [empty_wallet ''w'']"
  have inv: "wallet_inv ?db" by (rule wallet_db_of_inv) (simp_all add: empty_wallet_def)
  have "run_all book [?a, ?b, ?a] ?db \<noteq> None"
    by (simp add: book_def appendWalletEntry_def lockWallet_def set_balance_def insert_ledger_def
        top_up_entry_def empty_wallet_def wallet_db_of_def int64_def status_check_def next_status_def)
  then obtain db' where run: "run_all book [?a, ?b, ?a] ?db = Some db'" by blast
  have "set [?b] \<subseteq> set [?a, ?b, ?a]" by simp
  note moved = postings_exactly_once [OF inv run this, of "''w''"]
  have "balance_of ''w'' ?db = 0" "booked_keys_of ?db = {}"
    by (simp_all add: balance_of_def wallet_db_of_def empty_wallet_def booked_keys_of_def)
  then have "balance_of ''w'' db' = 700" using moved by (simp add: top_up_entry_def)
  with moved show ?thesis by blast
qed

lemma adjust_inv:
  assumes "wallet_inv db" and "adjustEnterprise input db = Inr (s, db')"
  shows "wallet_inv db'"
proof -
  from assms(2) obtain entry r db1 where "appendWalletEntry entry db = Inr (r, db1)"
    and "wallets db' = wallets db1" "ledger db' = ledger db1" "next_ledger db' = next_ledger db1"
    by (auto simp: adjustEnterprise_def bindE_Inr_iff audit_def split: if_splits option.splits)
  with append_inv [OF assms(1)] show ?thesis by (simp add: wallet_inv_def)
qed

end
