(* ===== verification/Runs.thy ===== *)
theory Runs
  imports Main
begin

text \<open>
  Runs of a step relation, for every component that has one.
\<close>

text \<open>
  What one step of a component keeps, every run of it keeps: \<open>keeps\<close> relates a state to the states that may follow
  it, as far as the component's promises go.
\<close>

locale kept_along =
  fixes step :: "'s \<Rightarrow> 's \<Rightarrow> bool" and keeps :: "'s \<Rightarrow> 's \<Rightarrow> bool"
  assumes keeps_refl: "keeps s s"
    and keeps_trans: "keeps s t \<Longrightarrow> keeps t u \<Longrightarrow> keeps s u"
    and step_keeps: "step s t \<Longrightarrow> keeps s t"
begin

lemma along_run: "step\<^sup>*\<^sup>* s t \<Longrightarrow> keeps s t"
  by (induction rule: rtranclp_induct) (auto intro: keeps_refl keeps_trans step_keeps)

end

end
