(* ===== verification/Payments.thy ===== *)
theory Payments
  imports Wallet Runs
begin

text \<open>
  Payment orders and the callbacks that settle and reverse them,
  \<open>src/modules/payments/model.ts\<close> and \<open>postgres.ts\<close> over the tables of \<open>migrations/0003\<close> and
  \<open>0034\<close>, whose constraints are part of every write. A repository method is one transaction:
  the advisory and row locks make it atomic, and an error undoes it.
\<close>

section \<open>Data\<close>

datatype PaymentProviderName = WECHAT | ALIPAY | SANDBOX

datatype PaymentEventType = Event_PAID | Event_REFUND | Event_REVERSAL | Event_CHARGEBACK

datatype OrderStatus =
    Order_CREATED | Order_PENDING | Order_PAID | Order_FAILED | Order_CLOSED
  | Order_PARTIALLY_REVERSED | Order_REVERSED | Order_CHARGEBACK | Order_RECONCILIATION_REQUIRED

datatype InboxStatus = Inbox_RECEIVED | Inbox_PROCESSED | Inbox_DUPLICATE | Inbox_RECONCILIATION_REQUIRED

record VerifiedPaymentEvent =
  ev_provider :: PaymentProviderName
  ev_providerEventId :: string
  ev_eventType :: PaymentEventType
  ev_merchantId :: string
  ev_internalOrderId :: string
  ev_providerTransactionId :: string
  ev_currency :: string
  ev_amountCents :: string

datatype PaymentResultStatus = Result_PROCESSED | Result_DUPLICATE | Result_RECONCILIATION_REQUIRED

record PaymentEventResult =
  pr_eventId :: string
  pr_orderId :: "string option"
  pr_status :: PaymentResultStatus
  pr_walletBalanceCents :: "string option"

record payment_order_row =
  po_id :: string
  po_wallet_id :: string
  po_account_id :: string
  po_provider :: PaymentProviderName
  po_merchant_id :: string
  po_credit :: int
  po_payable :: int
  po_discount :: int
  po_currency :: string
  po_status :: OrderStatus
  po_transaction :: "string option"
  po_idempotency_key :: string

record inbox_row =
  ib_id :: string
  ib_provider :: PaymentProviderName
  ib_provider_event_id :: string
  ib_event_type :: PaymentEventType
  ib_transaction :: string
  ib_order_id :: "string option"
  ib_sha256 :: "nat list"
  ib_status :: InboxStatus
  ib_failure :: "string option"

record reversal_row =
  rv_order_id :: string
  rv_event_id :: string
  rv_type :: PaymentEventType
  rv_cumulative_payable :: int
  rv_cumulative_credit :: int
  rv_ledger_delta :: int
  rv_ledger_id :: "string option"

record pay_db = wallet_db +
  orders :: "payment_order_row list"
  inbox :: "inbox_row list"
  reversals :: "reversal_row list"

fun event_type_str :: "PaymentEventType \<Rightarrow> string" where
  "event_type_str Event_PAID = ''PAID''"
| "event_type_str Event_REFUND = ''REFUND''"
| "event_type_str Event_REVERSAL = ''REVERSAL''"
| "event_type_str Event_CHARGEBACK = ''CHARGEBACK''"

fun order_status_str :: "OrderStatus \<Rightarrow> string" where
  "order_status_str Order_CREATED = ''CREATED''"
| "order_status_str Order_PENDING = ''PENDING''"
| "order_status_str Order_PAID = ''PAID''"
| "order_status_str Order_FAILED = ''FAILED''"
| "order_status_str Order_CLOSED = ''CLOSED''"
| "order_status_str Order_PARTIALLY_REVERSED = ''PARTIALLY_REVERSED''"
| "order_status_str Order_REVERSED = ''REVERSED''"
| "order_status_str Order_CHARGEBACK = ''CHARGEBACK''"
| "order_status_str Order_RECONCILIATION_REQUIRED = ''RECONCILIATION_REQUIRED''"

section \<open>Writes and their constraints\<close>

text \<open>A text bound to a \<open>bigint\<close> parameter: blanks around, an optional sign and digits.\<close>

definition pg_bigint :: "string \<Rightarrow> int result" where
  "pg_bigint s =
     (let t = trim s; neg = (t \<noteq> [] \<and> hd t = CHR ''-'');
          ds = (if t \<noteq> [] \<and> hd t \<in> {CHR ''-'', CHR ''+''} then tl t else t) in
      if ds = [] \<or> \<not> list_all is_digit ds then Inl (SqlError ''22P02'' ''bigint'')
      else let x = (if neg then - int (digits_value ds) else int (digits_value ds))
           in if int64 x then Inr x else Inl bigint_overflow)"

text \<open>\<open>CHECK (provider_transaction_id IS NOT NULL OR status IN ('CREATED','PENDING','FAILED','CLOSED'))\<close>.\<close>

definition order_check :: "payment_order_row \<Rightarrow> bool" where
  "order_check o1 \<longleftrightarrow> po_transaction o1 \<noteq> None \<or>
     po_status o1 \<in> {Order_CREATED, Order_PENDING, Order_FAILED, Order_CLOSED}"

definition update_order ::
    "string \<Rightarrow> (payment_order_row \<Rightarrow> payment_order_row) \<Rightarrow> 'z pay_db_scheme \<Rightarrow> 'z pay_db_scheme result" where
  "update_order oid f db =
     (let rows = update_rows (\<lambda>o1. po_id o1 = oid) f (orders db) in
      if list_all order_check rows then Inr (db\<lparr>orders := rows\<rparr>)
      else Inl (SqlError ''23514'' ''payment_order_check''))"

definition update_inbox ::
    "string \<Rightarrow> string option \<Rightarrow> InboxStatus \<Rightarrow> string option \<Rightarrow> 'z pay_db_scheme \<Rightarrow> 'z pay_db_scheme" where
  "update_inbox eventId orderId st failure db =
     db\<lparr>inbox := update_rows (\<lambda>r. ib_id r = eventId)
        (\<lambda>r. r\<lparr>ib_order_id := orderId, ib_status := st,
               ib_failure := (case failure of None \<Rightarrow> ib_failure r | Some c \<Rightarrow> Some c)\<rparr>) (inbox db)\<rparr>"

text \<open>The insert of a reversal with the checks and unique keys of its table.\<close>

definition insert_reversal :: "reversal_row \<Rightarrow> 'z pay_db_scheme \<Rightarrow> 'z pay_db_scheme result" where
  "insert_reversal r db =
     (if rv_cumulative_payable r \<le> 0 \<or> rv_cumulative_credit r \<le> 0 \<or> 0 < rv_ledger_delta r
      then Inl (SqlError ''23514'' ''payment_reversal_check'')
      else if \<exists>x \<in> set (reversals db). rv_event_id x = rv_event_id r
          \<or> rv_order_id x = rv_order_id r \<and> rv_cumulative_payable x = rv_cumulative_payable r
          \<or> rv_ledger_id r \<noteq> None \<and> rv_ledger_id x = rv_ledger_id r
      then Inl (SqlError ''23505'' ''payment_reversal_key'')
      else Inr (db\<lparr>reversals := reversals db @ [r]\<rparr>))"

section \<open>Orders\<close>

record CreateOrder =
  co_walletId :: string
  co_accountId :: string
  co_provider :: PaymentProviderName
  co_merchantId :: string
  co_creditAmountCents :: string
  co_payableAmountCents :: string
  co_discountBasisPoints :: string
  co_idempotencyKey :: string

record OrderCreated =
  oc_id :: string
  oc_status :: OrderStatus
  oc_duplicate :: bool

definition insert_order :: "payment_order_row \<Rightarrow> 'z pay_db_scheme \<Rightarrow> 'z pay_db_scheme result" where
  "insert_order r db =
     (if po_credit r < 10000 \<or> po_payable r \<le> 0 \<or> po_discount r \<notin> {10000, 9000, 8000} \<or> \<not> order_check r
      then Inl (SqlError ''23514'' ''payment_order_check'')
      else if \<exists>x \<in> set (orders db). po_id x = po_id r
          \<or> po_wallet_id x = po_wallet_id r \<and> po_account_id x = po_account_id r
             \<and> po_idempotency_key x = po_idempotency_key r
      then Inl (SqlError ''23505'' ''payment_order_key'')
      else if first_row (\<lambda>w. wa_id w = po_wallet_id r) (wallets db) = None
      then Inl (SqlError ''23503'' ''payment_order_wallet_id_fkey'')
      else Inr (db\<lparr>orders := orders db @ [r]\<rparr>))"

definition createOrder ::
    "string \<Rightarrow> CreateOrder \<Rightarrow> 'z pay_db_scheme \<Rightarrow> (OrderCreated \<times> 'z pay_db_scheme) result" where
  "createOrder newId input db =
     (case first_row (\<lambda>o1. po_wallet_id o1 = co_walletId input \<and> po_account_id o1 = co_accountId input
             \<and> po_idempotency_key o1 = co_idempotencyKey input) (orders db) of
        Some prior \<Rightarrow>
          (if po_provider prior \<noteq> co_provider input \<or> po_merchant_id prior \<noteq> co_merchantId input
              \<or> int_str (po_credit prior) \<noteq> co_creditAmountCents input
              \<or> int_str (po_payable prior) \<noteq> co_payableAmountCents input
              \<or> int_str (po_discount prior) \<noteq> co_discountBasisPoints input
           then Inl (AppError ''IDEMPOTENCY_KEY_REUSED'' 409 None)
           else Inr (\<lparr> oc_id = po_id prior, oc_status = po_status prior, oc_duplicate = True \<rparr>, db))
      | None \<Rightarrow>
          bindE (pg_bigint (co_creditAmountCents input)) (\<lambda>credit.
          bindE (pg_bigint (co_payableAmountCents input)) (\<lambda>payable.
          bindE (pg_bigint (co_discountBasisPoints input)) (\<lambda>discount.
          bindE (insert_order
             \<lparr> po_id = newId, po_wallet_id = co_walletId input, po_account_id = co_accountId input,
               po_provider = co_provider input, po_merchant_id = co_merchantId input, po_credit = credit,
               po_payable = payable, po_discount = discount, po_currency = ''CNY'',
               po_status = Order_CREATED, po_transaction = None,
               po_idempotency_key = co_idempotencyKey input \<rparr> db) (\<lambda>db1.
          Inr (\<lparr> oc_id = newId, oc_status = Order_CREATED, oc_duplicate = False \<rparr>, db1))))))"

definition markOrderPending :: "string \<Rightarrow> 'z pay_db_scheme \<Rightarrow> 'z pay_db_scheme" where
  "markOrderPending oid db =
     db\<lparr>orders := update_rows (\<lambda>o1. po_id o1 = oid \<and> po_status o1 = Order_CREATED)
        (\<lambda>o1. o1\<lparr>po_status := Order_PENDING\<rparr>) (orders db)\<rparr>"

section \<open>Callbacks\<close>

definition payment_audit ::
    "string option \<Rightarrow> string \<Rightarrow> string \<Rightarrow> string \<Rightarrow> bool \<Rightarrow> string option \<Rightarrow> string
     \<Rightarrow> json_object option \<Rightarrow> json_object option \<Rightarrow> AuditRecord" where
  "payment_audit actor objType objId action ok reason requestId before after =
     \<lparr> au_actorAccountId = actor, au_actorRoles = [], au_objectType = objType, au_objectId = objId,
       au_action = action, au_succeeded = ok, au_reason = reason, au_requestId = requestId,
       au_before = before, au_after = after \<rparr>"

definition markEventDuplicate ::
    "string \<Rightarrow> payment_order_row \<Rightarrow> 'z pay_db_scheme \<Rightarrow> (PaymentEventResult \<times> 'z pay_db_scheme) result" where
  "markEventDuplicate eventId o1 db =
     (let db1 = update_inbox eventId (Some (po_id o1)) Inbox_DUPLICATE None db in
      bindE (lockWallet (po_wallet_id o1) db1) (\<lambda>wallet.
        Inr (\<lparr> pr_eventId = eventId, pr_orderId = Some (po_id o1), pr_status = Result_DUPLICATE,
               pr_walletBalanceCents = Some (balanceCents wallet) \<rparr>, db1)))"

text \<open>\<open>UPDATE wallet_account SET status = CASE WHEN balance_cents < 0 ...\<close>.\<close>

definition restrict_wallet :: "string \<Rightarrow> 'z pay_db_scheme \<Rightarrow> 'z pay_db_scheme" where
  "restrict_wallet wid db =
     db\<lparr>wallets := update_rows (\<lambda>w. wa_id w = wid)
        (\<lambda>w. w\<lparr>wa_status := (if wa_balance_cents w < 0 then RESTRICTED_DEBT else RESTRICTED_RECONCILIATION),
               wa_version := wa_version w + 1\<rparr>) (wallets db)\<rparr>"

definition requireReconciliation ::
    "string \<Rightarrow> payment_order_row option \<Rightarrow> string \<Rightarrow> string \<Rightarrow> 'z pay_db_scheme
     \<Rightarrow> (PaymentEventResult \<times> 'z pay_db_scheme) result" where
  "requireReconciliation eventId order code requestId db =
     (let db1 = update_inbox eventId (map_option po_id order) Inbox_RECONCILIATION_REQUIRED (Some code) db in
      bindE (case order of
          None \<Rightarrow> Inr db1
        | Some o1 \<Rightarrow>
            bindE (lockWallet (po_wallet_id o1) db1) (\<lambda>_.
              update_order (po_id o1) (\<lambda>r. r\<lparr>po_status := Order_RECONCILIATION_REQUIRED\<rparr>)
                (restrict_wallet (po_wallet_id o1) db1))) (\<lambda>db2.
      Inr (\<lparr> pr_eventId = eventId, pr_orderId = map_option po_id order,
             pr_status = Result_RECONCILIATION_REQUIRED, pr_walletBalanceCents = None \<rparr>,
        audit (payment_audit (map_option po_account_id order)
           (if order = None then ''payment_event'' else ''payment_order'')
           (case order of None \<Rightarrow> eventId | Some o1 \<Rightarrow> po_id o1)
           ''PAYMENT_RECONCILIATION_REQUIRED'' False (Some code) requestId
           (map_option (\<lambda>o1. [(''status'', Some (order_status_str (po_status o1)))]) order)
           (Some [(''status'', Some ''RECONCILIATION_REQUIRED''), (''eventId'', Some eventId)])) db2)))"

definition settled_statuses :: "OrderStatus list" where
  "settled_statuses = [Order_PAID, Order_PARTIALLY_REVERSED, Order_REVERSED, Order_CHARGEBACK]"

definition paid_entry :: "payment_order_row \<Rightarrow> WalletEntry" where
  "paid_entry o1 =
     \<lparr> e_walletId = po_wallet_id o1, e_entryType = TOP_UP, e_deltaCents = po_credit o1,
       e_businessKey = ''payment-paid:'' @ po_id o1, e_referenceType = ''PAYMENT_ORDER'',
       e_referenceId = Some (po_id o1), e_actorAccountId = Some (po_account_id o1), e_reason = None,
       e_resolveReconciliation = False, e_allowRestrictedDebit = False \<rparr>"

definition applyPayment ::
    "string \<Rightarrow> payment_order_row \<Rightarrow> VerifiedPaymentEvent \<Rightarrow> string \<Rightarrow> 'z pay_db_scheme
     \<Rightarrow> (PaymentEventResult \<times> 'z pay_db_scheme) result" where
  "applyPayment eventId o1 event requestId db =
     (if ev_amountCents event \<noteq> int_str (po_payable o1)
      then requireReconciliation eventId (Some o1) ''AMOUNT_MISMATCH'' requestId db
      else if po_status o1 \<in> set settled_statuses then markEventDuplicate eventId o1 db
      else
      bindE (appendWalletEntry (paid_entry o1) db) (\<lambda>(l, db1).
      bindE (update_order (po_id o1)
          (\<lambda>r. r\<lparr>po_status := Order_PAID, po_transaction := Some (ev_providerTransactionId event)\<rparr>) db1) (\<lambda>db2.
      let db3 = update_inbox eventId (Some (po_id o1)) Inbox_PROCESSED None db2 in
      Inr (\<lparr> pr_eventId = eventId, pr_orderId = Some (po_id o1), pr_status = Result_PROCESSED,
             pr_walletBalanceCents = Some (balanceCents (ap_wallet l)) \<rparr>,
        audit (payment_audit (Some (po_account_id o1)) ''payment_order'' (po_id o1) ''PAYMENT_PAID'' True None
          requestId (Some [(''status'', Some (order_status_str (po_status o1)))])
          (Some [(''status'', Some ''PAID''), (''ledgerId'', Some (ledgerId l))])) db3))))"

text \<open>\<open>... WHERE payment_order_id = $1 ORDER BY cumulative_payable_reversed_cents DESC LIMIT 1\<close>.\<close>

fun largest_reversal :: "string \<Rightarrow> reversal_row list \<Rightarrow> reversal_row option" where
  "largest_reversal oid [] = None"
| "largest_reversal oid (r # rs) =
     (if rv_order_id r \<noteq> oid then largest_reversal oid rs
      else case largest_reversal oid rs of
          None \<Rightarrow> Some r
        | Some x \<Rightarrow> if rv_cumulative_payable x \<le> rv_cumulative_payable r then Some r else Some x)"

definition reversal_entry :: "string \<Rightarrow> payment_order_row \<Rightarrow> VerifiedPaymentEvent \<Rightarrow> int \<Rightarrow> WalletEntry" where
  "reversal_entry eventId o1 event delta =
     \<lparr> e_walletId = po_wallet_id o1, e_entryType = TOP_UP_REVERSAL, e_deltaCents = - delta,
       e_businessKey = ''payment-reversal:'' @ eventId, e_referenceType = ''PAYMENT_EVENT'',
       e_referenceId = Some eventId, e_actorAccountId = None,
       e_reason = Some (event_type_str (ev_eventType event)),
       e_resolveReconciliation = False, e_allowRestrictedDebit = True \<rparr>"

text \<open>The posting of a reversal, or none when rounding leaves nothing to take back.\<close>

definition post_reversal ::
    "string \<Rightarrow> payment_order_row \<Rightarrow> VerifiedPaymentEvent \<Rightarrow> int \<Rightarrow> WalletSnapshot \<Rightarrow> 'z pay_db_scheme
     \<Rightarrow> (string option \<times> WalletSnapshot \<times> 'z pay_db_scheme) result" where
  "post_reversal eventId o1 event delta wallet0 db =
     (if delta > 0
      then bindE (appendWalletEntry (reversal_entry eventId o1 event delta) db)
        (\<lambda>(entry, db1). Inr (Some (ledgerId entry), ap_wallet entry, db1))
      else Inr (None, wallet0, db))"

definition applyReversal ::
    "string \<Rightarrow> payment_order_row \<Rightarrow> VerifiedPaymentEvent \<Rightarrow> string \<Rightarrow> 'z pay_db_scheme
     \<Rightarrow> (PaymentEventResult \<times> 'z pay_db_scheme) result" where
  "applyReversal eventId o1 event requestId db =
     (if po_status o1 \<notin> set settled_statuses
      then requireReconciliation eventId (Some o1) ''REVERSAL_BEFORE_PAYMENT'' requestId db
      else case cumulativeCreditReversal (int_str (po_credit o1)) (int_str (po_payable o1)) (ev_amountCents event) of
        Inl _ \<Rightarrow> requireReconciliation eventId (Some o1) ''REVERSAL_AMOUNT_INVALID'' requestId db
      | Inr cumulativeCredit \<Rightarrow>
      (let previous = largest_reversal (po_id o1) (reversals db);
           previousPayable = (case previous of None \<Rightarrow> 0 | Some r \<Rightarrow> rv_cumulative_payable r);
           previousCredit = (case previous of None \<Rightarrow> 0 | Some r \<Rightarrow> rv_cumulative_credit r) in
      bindE (js_bigint (ev_amountCents event)) (\<lambda>currentPayable.
      if currentPayable < previousPayable
      then requireReconciliation eventId (Some o1) ''REVERSAL_OUT_OF_ORDER'' requestId db
      else if currentPayable = previousPayable then markEventDuplicate eventId o1 db
      else
        let delta = cumulativeCredit - previousCredit in
        if delta < 0
        then requireReconciliation eventId (Some o1) ''REVERSAL_ROUNDING_CONFLICT'' requestId db
        else
        bindE (lockWallet (po_wallet_id o1) db) (\<lambda>wallet0.
        bindE (post_reversal eventId o1 event delta wallet0 db) (\<lambda>(lid, wallet, db1).
        bindE (pg_bigint (ev_amountCents event)) (\<lambda>amount.
        bindE (insert_reversal
            \<lparr> rv_order_id = po_id o1, rv_event_id = eventId, rv_type = ev_eventType event,
              rv_cumulative_payable = amount, rv_cumulative_credit = cumulativeCredit,
              rv_ledger_delta = - delta, rv_ledger_id = lid \<rparr> db1) (\<lambda>db2.
        let nextStatus = (if ev_eventType event = Event_CHARGEBACK then Order_CHARGEBACK
              else if currentPayable = po_payable o1 then Order_REVERSED else Order_PARTIALLY_REVERSED) in
        bindE (update_order (po_id o1) (\<lambda>r. r\<lparr>po_status := nextStatus\<rparr>) db2) (\<lambda>db3.
        let db4 = update_inbox eventId (Some (po_id o1)) Inbox_PROCESSED None db3 in
        Inr (\<lparr> pr_eventId = eventId, pr_orderId = Some (po_id o1), pr_status = Result_PROCESSED,
               pr_walletBalanceCents = Some (balanceCents wallet) \<rparr>,
          audit (payment_audit None ''payment_order'' (po_id o1)
            (''PAYMENT_'' @ event_type_str (ev_eventType event)) True None requestId
            (Some [(''status'', Some (order_status_str (po_status o1)))])
            (Some [(''status'', Some (order_status_str nextStatus)),
              (''cumulativeCreditReversedCents'', Some (int_str cumulativeCredit))])) db4)))))))))"

text \<open>What follows the insert of a new event: the checks of the order, then its payment or reversal.\<close>

definition settleEvent ::
    "string \<Rightarrow> VerifiedPaymentEvent \<Rightarrow> string \<Rightarrow> 'z pay_db_scheme
     \<Rightarrow> (PaymentEventResult \<times> 'z pay_db_scheme) result" where
  "settleEvent eventId event requestId db =
     (case first_row (\<lambda>o1. po_id o1 = ev_internalOrderId event) (orders db) of
        None \<Rightarrow> requireReconciliation eventId None ''ORDER_OR_MERCHANT_MISMATCH'' requestId db
      | Some o1 \<Rightarrow>
          if po_provider o1 \<noteq> ev_provider event \<or> po_merchant_id o1 \<noteq> ev_merchantId event
          then requireReconciliation eventId (Some o1) ''ORDER_OR_MERCHANT_MISMATCH'' requestId db
          else if po_currency o1 \<noteq> ev_currency event \<or>
              (present (po_transaction o1) \<noteq> None \<and> po_transaction o1 \<noteq> Some (ev_providerTransactionId event))
          then requireReconciliation eventId (Some o1) ''TRANSACTION_OR_CURRENCY_MISMATCH'' requestId db
          else if \<exists>x \<in> set (orders db). po_provider x = ev_provider event \<and>
              po_transaction x = Some (ev_providerTransactionId event) \<and> po_id x \<noteq> po_id o1
          then requireReconciliation eventId (Some o1) ''PROVIDER_TRANSACTION_REUSED'' requestId db
          else if ev_eventType event = Event_PAID then applyPayment eventId o1 event requestId db
          else applyReversal eventId o1 event requestId db)"

text \<open>
  The first step of a callback: \<open>INSERT ... ON CONFLICT (provider, provider_event_id) DO NOTHING\<close>.
  \<open>eventId\<close> is the random identifier drawn for the row; \<open>hex\<close> prints a digest for the audit.
\<close>

definition hex :: "nat list \<Rightarrow> string" where
  "hex bs = concat (map (\<lambda>b. [''0123456789abcdef'' ! (b div 16 mod 16), ''0123456789abcdef'' ! (b mod 16)]) bs)"

definition event_json :: "PaymentEventType \<Rightarrow> string \<Rightarrow> nat list \<Rightarrow> json_object" where
  "event_json t txn sha = [(''eventType'', Some (event_type_str t)), (''providerTransactionId'', Some txn),
     (''payloadSha256'', Some (hex sha))]"

definition applyVerifiedEvent ::
    "string \<Rightarrow> VerifiedPaymentEvent \<Rightarrow> nat list \<Rightarrow> string \<Rightarrow> 'z pay_db_scheme
     \<Rightarrow> (PaymentEventResult \<times> 'z pay_db_scheme) result" where
  "applyVerifiedEvent eventId event sha requestId db =
     (case first_row (\<lambda>r. ib_provider r = ev_provider event \<and> ib_provider_event_id r = ev_providerEventId event)
             (inbox db) of
        Some row \<Rightarrow>
          (if ib_event_type row = ev_eventType event \<and> ib_transaction row = ev_providerTransactionId event
              \<and> ib_sha256 row = sha
           then Inr (\<lparr> pr_eventId = ib_id row, pr_orderId = ib_order_id row, pr_status = Result_DUPLICATE,
                       pr_walletBalanceCents = None \<rparr>, db)
           else
             let order = (case present (ib_order_id row) of None \<Rightarrow> None
                 | Some oid \<Rightarrow> first_row (\<lambda>o1. po_id o1 = oid) (orders db)) in
             bindE (requireReconciliation (ib_id row) order ''DUPLICATE_EVENT_CONTENT_MISMATCH'' requestId db)
               (\<lambda>(result, db1).
             Inr (result, audit (payment_audit None ''payment_event'' (ib_id row)
                 ''PAYMENT_EVENT_ID_REUSED_WITH_DIFFERENT_CONTENT'' False
                 (Some ''DUPLICATE_EVENT_CONTENT_MISMATCH'') requestId
                 (Some (event_json (ib_event_type row) (ib_transaction row) (ib_sha256 row)))
                 (Some (event_json (ev_eventType event) (ev_providerTransactionId event) sha))) db1)))
      | None \<Rightarrow>
          if \<exists>r \<in> set (inbox db). ib_id r = eventId then Inl (SqlError ''23505'' ''payment_event_inbox_pkey'')
          else
          settleEvent eventId event requestId (db\<lparr>inbox := inbox db @
              [\<lparr> ib_id = eventId, ib_provider = ev_provider event,
                 ib_provider_event_id = ev_providerEventId event, ib_event_type = ev_eventType event,
                 ib_transaction = ev_providerTransactionId event, ib_order_id = None, ib_sha256 = sha,
                 ib_status = Inbox_RECEIVED, ib_failure = None \<rparr>]\<rparr>))"

lemmas [code_defs] = pg_bigint_def order_check_def update_order_def update_inbox_def insert_reversal_def
  insert_order_def createOrder_def markOrderPending_def payment_audit_def markEventDuplicate_def
  restrict_wallet_def requireReconciliation_def settled_statuses_def paid_entry_def applyPayment_def
  reversal_entry_def post_reversal_def applyReversal_def settleEvent_def hex_def event_json_def applyVerifiedEvent_def

section \<open>Reversals of one order\<close>

definition reversals_of :: "string \<Rightarrow> reversal_row list \<Rightarrow> reversal_row list" where
  "reversals_of oid rs = filter (\<lambda>r. rv_order_id r = oid) rs"

definition reversed_total :: "string \<Rightarrow> reversal_row list \<Rightarrow> int" where
  "reversed_total oid rs = - sum_list (map rv_ledger_delta (reversals_of oid rs))"

text \<open>
  The reversals of an order with credit \<open>c\<close> and payable amount \<open>p\<close>: cumulative amounts that grow
  up to \<open>p\<close>, each with its proportional credit, and ledger movements that add up to the last one.
\<close>

definition rev_chain :: "int \<Rightarrow> int \<Rightarrow> reversal_row list \<Rightarrow> bool" where
  "rev_chain c p rs \<longleftrightarrow> sorted_wrt (<) (map rv_cumulative_payable rs) \<and>
     (\<forall>r \<in> set rs. 0 < rv_cumulative_payable r \<and> rv_cumulative_payable r \<le> p \<and>
        rv_cumulative_credit r = credit_reversed c p (rv_cumulative_payable r)) \<and>
     - sum_list (map rv_ledger_delta rs) = (if rs = [] then 0 else rv_cumulative_credit (last rs))"

lemma rev_chain_Nil [simp]: "rev_chain c p []"
  by (simp add: rev_chain_def)

lemma rev_chain_snoc:
  assumes "rev_chain c p rs" and "0 < rv_cumulative_payable r" and "rv_cumulative_payable r \<le> p"
    and "rs \<noteq> [] \<Longrightarrow> rv_cumulative_payable (last rs) < rv_cumulative_payable r"
    and "rv_cumulative_credit r = credit_reversed c p (rv_cumulative_payable r)"
    and "- rv_ledger_delta r = rv_cumulative_credit r - (if rs = [] then 0 else rv_cumulative_credit (last rs))"
  shows "rev_chain c p (rs @ [r])"
proof -
  have "rv_cumulative_payable x < rv_cumulative_payable r" if x: "x \<in> set rs" for x
  proof -
    from x have ne: "rs \<noteq> []" by auto
    then obtain ys l where rs: "rs = ys @ [l]" by (metis rev_exhaust)
    have "x = l \<or> rv_cumulative_payable x < rv_cumulative_payable l"
      using x assms(1) by (auto simp: rev_chain_def rs sorted_wrt_append)
    then show ?thesis using assms(4) [OF ne] by (auto simp: rs)
  qed
  then show ?thesis using assms by (auto simp: rev_chain_def sorted_wrt_append)
qed

lemma reversed_total_bounds:
  assumes "rev_chain c p (reversals_of oid rs)" and "0 \<le> c"
  shows "0 \<le> reversed_total oid rs" and "reversed_total oid rs \<le> c"
proof -
  have "reversed_total oid rs = 0 \<or>
      (\<exists>r \<in> set (reversals_of oid rs). reversed_total oid rs = credit_reversed c p (rv_cumulative_payable r)
        \<and> 0 < rv_cumulative_payable r \<and> rv_cumulative_payable r \<le> p)"
    using assms(1) last_in_set [of "reversals_of oid rs"]
    by (cases "reversals_of oid rs = []") (auto simp: rev_chain_def reversed_total_def)
  then show "0 \<le> reversed_total oid rs" and "reversed_total oid rs \<le> c"
    using credit_reversed_bounds [OF assms(2)] assms(2) by auto
qed

lemma largest_reversal_in: "largest_reversal oid rs = Some r \<Longrightarrow> r \<in> set (reversals_of oid rs)"
  by (induction rs arbitrary: r) (auto simp: reversals_of_def split: if_splits option.splits)

lemma largest_reversal_None: "largest_reversal oid rs = None \<longleftrightarrow> reversals_of oid rs = []"
  by (induction rs) (auto simp: reversals_of_def split: option.splits if_splits)

lemma largest_reversal_last:
  "sorted_wrt (<) (map rv_cumulative_payable (reversals_of oid rs)) \<Longrightarrow>
   largest_reversal oid rs = (if reversals_of oid rs = [] then None else Some (last (reversals_of oid rs)))"
proof (induction rs)
  case Nil
  then show ?case by (simp add: reversals_of_def)
next
  case (Cons r rs)
  show ?case
  proof (cases "rv_order_id r = oid \<and> reversals_of oid rs \<noteq> []")
    case True
    then have "largest_reversal oid rs = Some (last (reversals_of oid rs))"
      using Cons by (simp add: reversals_of_def)
    moreover have "rv_cumulative_payable r < rv_cumulative_payable (last (reversals_of oid rs))"
      using Cons.prems True last_in_set [of "reversals_of oid rs"] by (simp add: reversals_of_def)
    ultimately show ?thesis using True by (simp add: reversals_of_def)
  next
    case False
    then show ?thesis using Cons by (auto simp: reversals_of_def)
  qed
qed

section \<open>The invariant of payments\<close>

type_synonym order_core = "string \<times> string \<times> int \<times> int"

definition order_core :: "payment_order_row \<Rightarrow> order_core" where
  "order_core o1 = (po_id o1, po_wallet_id o1, po_credit o1, po_payable o1)"

definition inbox_core :: "inbox_row \<Rightarrow> string \<times> PaymentProviderName \<times> string" where
  "inbox_core r = (ib_id r, ib_provider r, ib_provider_event_id r)"

text \<open>The part of an inbox row that no step changes.\<close>

definition inbox_content :: "inbox_row \<Rightarrow> string \<times> PaymentProviderName \<times> string \<times> PaymentEventType \<times> string \<times> nat list" where
  "inbox_content r = (ib_id r, ib_provider r, ib_provider_event_id r, ib_event_type r, ib_transaction r, ib_sha256 r)"

definition paid_key :: "string \<Rightarrow> string" where
  "paid_key oid = ''payment-paid:'' @ oid"

definition reversal_key :: "string \<Rightarrow> string" where
  "reversal_key eid = ''payment-reversal:'' @ eid"

lemma payment_keys_distinct [simp]: "paid_key x \<noteq> reversal_key y" "reversal_key y \<noteq> paid_key x"
  by (simp_all add: paid_key_def reversal_key_def)

lemma payment_keys_inj [simp]: "paid_key x = paid_key y \<longleftrightarrow> x = y" "reversal_key x = reversal_key y \<longleftrightarrow> x = y"
  by (simp_all add: paid_key_def reversal_key_def)

definition core_inv :: "ledger_row list \<Rightarrow> reversal_row list \<Rightarrow> order_core list
    \<Rightarrow> (string \<times> PaymentProviderName \<times> string) list \<Rightarrow> bool" where
  "core_inv ls rs os is \<longleftrightarrow>
     distinct (map fst os) \<and> distinct (map fst is) \<and> distinct (map snd is) \<and>
     (\<forall>(oid, wid, c, p) \<in> set os. 10000 \<le> c \<and> 0 < p \<and> rev_chain c p (reversals_of oid rs) \<and>
        (reversals_of oid rs \<noteq> [] \<longrightarrow> (\<exists>l \<in> set ls. wl_wallet_id l = wid \<and> wl_business_key l = paid_key oid))) \<and>
     (\<forall>r \<in> set rs. rv_order_id r \<in> fst ` set os \<and> rv_event_id r \<in> fst ` set is) \<and>
     (\<forall>l \<in> set ls. \<forall>x. wl_business_key l = paid_key x \<longrightarrow> x \<in> fst ` set os) \<and>
     (\<forall>l \<in> set ls. \<forall>x. wl_business_key l = reversal_key x \<longrightarrow> x \<in> fst ` set is)"

definition settled_posted :: "'z pay_db_scheme \<Rightarrow> bool" where
  "settled_posted db \<longleftrightarrow> (\<forall>o1 \<in> set (orders db). po_status o1 \<in> set settled_statuses \<longrightarrow>
     key_posted (po_wallet_id o1) (paid_key (po_id o1)) db)"

definition pay_inv :: "'z pay_db_scheme \<Rightarrow> bool" where
  "pay_inv db \<longleftrightarrow> wallet_inv db \<and> list_all order_check (orders db) \<and> settled_posted db \<and>
     core_inv (ledger db) (reversals db) (map order_core (orders db)) (map inbox_core (inbox db))"

text \<open>What an order has brought to its wallet so far, and what a wallet holds apart from its orders.\<close>

definition net :: "'z pay_db_scheme \<Rightarrow> order_core \<Rightarrow> int" where
  "net db k = (case k of (oid, wid, c, p) \<Rightarrow>
     (if key_posted wid (paid_key oid) db then c else 0) - reversed_total oid (reversals db))"

definition other_money :: "string \<Rightarrow> 'z pay_db_scheme \<Rightarrow> int" where
  "other_money a db = balance_of a db -
     sum_list (map (net db) (filter (\<lambda>k. fst (snd k) = a) (map order_core (orders db))))"

text \<open>Steps that book nothing.\<close>

definition quiet :: "'z pay_db_scheme \<Rightarrow> 'z pay_db_scheme \<Rightarrow> bool" where
  "quiet db db' \<longleftrightarrow> ledger db' = ledger db \<and> reversals db' = reversals db \<and>
     map (\<lambda>w. (wa_id w, wa_balance_cents w)) (wallets db') = map (\<lambda>w. (wa_id w, wa_balance_cents w)) (wallets db) \<and>
     map order_core (orders db') = map order_core (orders db) \<and>
     map inbox_core (inbox db') = map inbox_core (inbox db) \<and>
     map inbox_content (inbox db') = map inbox_content (inbox db) \<and>
     (pay_inv db \<longrightarrow> wallet_inv db' \<and> list_all order_check (orders db') \<and> settled_posted db')"

lemma quiet_inv: "pay_inv db \<Longrightarrow> quiet db db' \<Longrightarrow> pay_inv db'"
  by (auto simp: pay_inv_def quiet_def)

lemma quiet_refl [simp]: "quiet db db"
  by (simp add: quiet_def pay_inv_def)

lemma quiet_trans: "quiet a b \<Longrightarrow> quiet b c \<Longrightarrow> quiet a c"
  using quiet_inv [of a b] by (auto simp: quiet_def)

lemma balance_of_cong:
  "map (\<lambda>w. (wa_id w, wa_balance_cents w)) (wallets db') = map (\<lambda>w. (wa_id w, wa_balance_cents w)) (wallets db) \<Longrightarrow>
   balance_of a db' = balance_of a db"
proof -
  have "map (\<lambda>w. (wa_id w, wa_balance_cents w)) ws' = map (\<lambda>w. (wa_id w, wa_balance_cents w)) ws \<Longrightarrow>
    (case first_row (\<lambda>w. wa_id w = a) ws' of None \<Rightarrow> 0 | Some w \<Rightarrow> wa_balance_cents w) =
    (case first_row (\<lambda>w. wa_id w = a) ws of None \<Rightarrow> 0 | Some w \<Rightarrow> wa_balance_cents w)" for ws ws'
    by (induction ws arbitrary: ws') (auto simp: map_eq_Cons_conv)
  then show "map (\<lambda>w. (wa_id w, wa_balance_cents w)) (wallets db') = map (\<lambda>w. (wa_id w, wa_balance_cents w)) (wallets db) \<Longrightarrow>
   balance_of a db' = balance_of a db" by (simp add: balance_of_def)
qed

lemma quiet_other_money:
  assumes "quiet db db'"
  shows "other_money a db' = other_money a db"
proof -
  have "net db' = net db" using assms by (auto simp: fun_eq_iff net_def key_posted_def quiet_def)
  then show ?thesis using assms balance_of_cong [of db' db] by (simp add: other_money_def quiet_def)
qed

lemma update_rows_same_core:
  "(\<And>o1. order_core (f o1) = order_core o1) \<Longrightarrow> map order_core (update_rows p f os) = map order_core os"
  by (rule map_update_rows)

lemma quiet_inbox: "quiet db (update_inbox eid oid st failure db)"
  by (auto simp: quiet_def update_inbox_def inbox_core_def inbox_content_def pay_inv_def settled_posted_def key_posted_def
      wallet_inv_def map_update_rows)

lemma quiet_audit: "quiet db (audit r db)"
  by (auto simp: quiet_def audit_def pay_inv_def settled_posted_def key_posted_def wallet_inv_def)

lemma restricted_row_ok:
  assumes "wallet_row_ok ls w"
  shows "wallet_row_ok ls (w\<lparr>wa_status := (if wa_balance_cents w < 0 then RESTRICTED_DEBT else RESTRICTED_RECONCILIATION),
           wa_version := v\<rparr>)"
  using assms by (auto simp: wallet_row_ok_def status_check_def)

lemma quiet_restrict: "quiet db (restrict_wallet wid db)"
proof -
  have "wallet_inv (restrict_wallet wid db)" if "wallet_inv db"
    unfolding restrict_wallet_def using that
  proof (rule wallet_inv_rows)
    have "list_all (wallet_row_ok (ledger db)) (wallets db)" using that by (simp add: wallet_inv_def)
    then show "list_all (wallet_row_ok (ledger db)) (update_rows (\<lambda>w. wa_id w = wid)
        (\<lambda>w. w\<lparr>wa_status := (if wa_balance_cents w < 0 then RESTRICTED_DEBT else RESTRICTED_RECONCILIATION),
               wa_version := wa_version w + 1\<rparr>) (wallets db))"
      by (rule list_all_update_rows) (rule restricted_row_ok)
  qed (simp add: map_update_rows)
  then show ?thesis
    by (auto simp: quiet_def restrict_wallet_def pay_inv_def settled_posted_def key_posted_def map_update_rows)
qed

lemma quiet_update_order:
  assumes "update_order oid f db = Inr db'" and "\<And>o1. order_core (f o1) = order_core o1"
    and "\<And>o1. po_id o1 = oid \<Longrightarrow> o1 \<in> set (orders db) \<Longrightarrow> po_status (f o1) \<in> set settled_statuses \<Longrightarrow>
      key_posted (po_wallet_id o1) (paid_key oid) db"
  shows "quiet db db'"
proof -
  have f: "po_id (f o1) = po_id o1" "po_wallet_id (f o1) = po_wallet_id o1" for o1
    using assms(2) [of o1] by (simp_all add: order_core_def)
  from assms(1) have db': "db' = db\<lparr>orders := update_rows (\<lambda>o1. po_id o1 = oid) f (orders db)\<rparr>"
    and ok: "list_all order_check (update_rows (\<lambda>o1. po_id o1 = oid) f (orders db))"
    by (auto simp: update_order_def Let_def split: if_splits)
  have posted: "settled_posted db'" if "settled_posted db"
    using that assms(3) f
    by (auto simp: settled_posted_def db' in_update_rows key_posted_def split: if_splits)
  show ?thesis
    using ok posted assms(2)
    by (auto simp: quiet_def db' map_update_rows pay_inv_def wallet_inv_def)
qed

lemma requireReconciliation_quiet:
  assumes "requireReconciliation eventId order code requestId db = Inr (res, db')"
  shows "quiet db db'"
proof -
  define db1 where "db1 = update_inbox eventId (map_option po_id order) Inbox_RECONCILIATION_REQUIRED (Some code) db"
  from assms obtain db2 r where db2: "(case order of None \<Rightarrow> Inr db1 | Some o1 \<Rightarrow>
      bindE (lockWallet (po_wallet_id o1) db1) (\<lambda>_. update_order (po_id o1)
        (\<lambda>r. r\<lparr>po_status := Order_RECONCILIATION_REQUIRED\<rparr>) (restrict_wallet (po_wallet_id o1) db1))) = Inr db2"
    and db': "db' = audit r db2"
    unfolding requireReconciliation_def Let_def db1_def [symmetric] by (auto simp: bindE_Inr_iff)
  have "quiet db1 db2"
  proof (cases order)
    case None
    then show ?thesis using db2 by simp
  next
    case (Some o1)
    with db2 have "update_order (po_id o1) (\<lambda>r. r\<lparr>po_status := Order_RECONCILIATION_REQUIRED\<rparr>)
        (restrict_wallet (po_wallet_id o1) db1) = Inr db2" by (auto simp: bindE_Inr_iff)
    then have "quiet (restrict_wallet (po_wallet_id o1) db1) db2"
      by (rule quiet_update_order) (simp_all add: order_core_def settled_statuses_def)
    then show ?thesis using quiet_restrict quiet_trans by blast
  qed
  moreover have "quiet db db1" unfolding db1_def by (rule quiet_inbox)
  ultimately show ?thesis unfolding db' using quiet_audit quiet_trans by blast
qed

lemma markEventDuplicate_quiet: "markEventDuplicate eventId o1 db = Inr (res, db') \<Longrightarrow> quiet db db'"
  using quiet_inbox by (auto simp: markEventDuplicate_def bindE_Inr_iff Let_def)

section \<open>Settling a payment\<close>

lemma core_inv_cores:
  assumes "core_inv ls rs os is" and "k \<in> set os" and "k' \<in> set os" and "fst k = fst k'"
  shows "k = k'"
  using assms by (auto simp: core_inv_def distinct_map inj_on_def)

lemma pay_inv_core:
  "pay_inv db \<Longrightarrow> core_inv (ledger db) (reversals db) (map order_core (orders db)) (map inbox_core (inbox db))"
  by (simp add: pay_inv_def)

lemma order_core_unique:
  assumes "pay_inv db" and "o2 \<in> set (orders db)" and "o1 \<in> set (orders db)" and "po_id o2 = po_id o1"
  shows "order_core o2 = order_core o1"
proof (rule core_inv_cores [OF pay_inv_core [OF assms(1)]])
  show "order_core o2 \<in> set (map order_core (orders db))" "order_core o1 \<in> set (map order_core (orders db))"
    using assms by simp_all
qed (simp add: order_core_def assms(4))

lemma post_db_simps [simp]:
  "orders (post_db i w db) = orders db" "inbox (post_db i w db) = inbox db"
  "reversals (post_db i w db) = reversals db"
  by (simp_all add: post_db_def)

lemma ledger_post_db [simp]: "ledger (post_db i w db) = ledger db @ [entry_row i w (next_ledger db)]"
  by (simp add: post_db_def)

lemma entry_row_simps [simp]:
  "wl_wallet_id (entry_row i w n) = e_walletId i" "wl_business_key (entry_row i w n) = e_businessKey i"
  "wl_delta_cents (entry_row i w n) = e_deltaCents i"
  by (simp_all add: entry_row_def)

lemma key_posted_post_db:
  "key_posted wid k (post_db i w db) \<longleftrightarrow> key_posted wid k db \<or> wid = e_walletId i \<and> k = e_businessKey i"
  by (auto simp: key_posted_def)

lemma core_inv_ledger:
  assumes "core_inv ls rs os is"
    and "\<And>x. wl_business_key l = paid_key x \<Longrightarrow> x \<in> fst ` set os"
    and "\<And>x. wl_business_key l = reversal_key x \<Longrightarrow> x \<in> fst ` set is"
  shows "core_inv (ls @ [l]) rs os is"
  using assms unfolding core_inv_def by fastforce

lemma settled_posted_mono:
  "settled_posted db \<Longrightarrow> orders db' = orders db \<Longrightarrow> (\<And>w k. key_posted w k db \<Longrightarrow> key_posted w k db') \<Longrightarrow>
   settled_posted db'"
  by (simp add: settled_posted_def)

lemma paid_entry_simps [simp]:
  "e_walletId (paid_entry o1) = po_wallet_id o1" "e_deltaCents (paid_entry o1) = po_credit o1"
  "e_businessKey (paid_entry o1) = paid_key (po_id o1)"
  by (simp_all add: paid_entry_def paid_key_def)

text \<open>One order's net changes by what its wallet changes by.\<close>

lemma other_money_step:
  assumes inv: "pay_inv db" and o1: "o1 \<in> set (orders db)" and same: "map order_core (orders db') = map order_core (orders db)"
    and net: "\<And>k. k \<in> set (map order_core (orders db)) \<Longrightarrow> net db' k = net db k + (if k = order_core o1 then m else 0)"
    and bal: "balance_of a db' = balance_of a db + (if a = po_wallet_id o1 then m else 0)"
  shows "other_money a db' = other_money a db"
proof -
  let ?ks = "map order_core (orders db)"
  have "distinct (map fst ?ks)" using pay_inv_core [OF inv] unfolding core_inv_def by blast
  then have d: "distinct ?ks" by (rule distinct_map [THEN iffD1, THEN conjunct1])
  have k0: "order_core o1 \<in> set ?ks" using o1 by simp
  have "sum_list (map (net db') (filter (\<lambda>k. fst (snd k) = a) ?ks)) =
      sum_list (map (net db) (filter (\<lambda>k. fst (snd k) = a) ?ks)) + (if fst (snd (order_core o1)) = a then m else 0)"
    by (rule sum_list_filter_one [OF d k0]) (rule net)
  then show ?thesis using bal unfolding other_money_def same by (auto simp: order_core_def)
qed

lemma append_paid_keeps:
  assumes inv: "pay_inv db" and o1: "o1 \<in> set (orders db)"
    and ap: "appendWalletEntry (paid_entry o1) db = Inr (l, db1)"
  shows "pay_inv db1 \<and> other_money a db1 = other_money a db
    \<and> key_posted (po_wallet_id o1) (paid_key (po_id o1)) db1 \<and> orders db1 = orders db"
  using ap
proof (cases rule: append_Inr_cases)
  case (again w l)
  then show ?thesis using inv by simp
next
  case (first w)
  let ?ks = "map order_core (orders db)"
  have in_ks: "po_id o1 \<in> fst ` set ?ks" using o1 by (force simp: order_core_def)
  have winv: "wallet_inv db1" using inv append_inv [OF _ ap] by (simp add: pay_inv_def)
  have core: "core_inv (ledger db @ [entry_row (paid_entry o1) w (next_ledger db)]) (reversals db) ?ks
      (map inbox_core (inbox db))"
    using pay_inv_core [OF inv] in_ks by (rule_tac core_inv_ledger) auto
  have "settled_posted db" using inv by (simp add: pay_inv_def)
  then have "settled_posted db1"
    by (rule settled_posted_mono) (auto simp: first(9) key_posted_post_db)
  then have "pay_inv db1" using inv winv core first(9) by (simp add: pay_inv_def)
  moreover have "other_money a db1 = other_money a db"
  proof (rule other_money_step [OF inv o1, where m = "po_credit o1"])
    fix k assume k: "k \<in> set ?ks"
    obtain oid wid c p where k_eq: "k = (oid, wid, c, p)" by (cases k)
    have "oid = po_id o1 \<Longrightarrow> k = order_core o1"
      using core_inv_cores [OF pay_inv_core [OF inv] k, of "order_core o1"] o1 k_eq by (simp add: order_core_def)
    then show "net db1 k = net db k + (if k = order_core o1 then po_credit o1 else 0)"
      using first(3) by (auto simp: net_def k_eq first(9) key_posted_post_db order_core_def)
  next
    show "balance_of a db1 = balance_of a db + (if a = po_wallet_id o1 then po_credit o1 else 0)"
      using post_db_balance [OF first(1)] by (simp add: first(9))
  qed (simp add: first(9))
  ultimately show ?thesis by (simp add: first(9) key_posted_post_db)
qed

lemma applyPayment_keeps:
  assumes inv: "pay_inv db" and o1: "o1 \<in> set (orders db)"
    and ap: "applyPayment eventId o1 event requestId db = Inr (res, db')"
  shows "pay_inv db' \<and> other_money a db' = other_money a db"
proof -
  consider (quiet) "quiet db db'"
    | (booked) l db1 db2 r where "appendWalletEntry (paid_entry o1) db = Inr (l, db1)"
      "update_order (po_id o1) (\<lambda>r. r\<lparr>po_status := Order_PAID,
          po_transaction := Some (ev_providerTransactionId event)\<rparr>) db1 = Inr db2"
      "db' = audit r (update_inbox eventId (Some (po_id o1)) Inbox_PROCESSED None db2)"
    using ap by (auto simp: applyPayment_def bindE_Inr_iff Let_def split: if_splits
        dest: requireReconciliation_quiet markEventDuplicate_quiet)
  then show ?thesis
  proof cases
    case quiet
    then show ?thesis using quiet_inv [OF inv] quiet_other_money by blast
  next
    case booked
    note b = append_paid_keeps [OF inv o1 booked(1), of a]
    then have ob: "orders db1 = orders db" and posted: "key_posted (po_wallet_id o1) (paid_key (po_id o1)) db1"
      by simp_all
    have "quiet db1 db2"
    proof (rule quiet_update_order [OF booked(2)])
      fix o2 assume "po_id o2 = po_id o1" "o2 \<in> set (orders db1)"
      then have "order_core o2 = order_core o1"
        using order_core_unique [OF inv _ o1] ob by simp
      then show "key_posted (po_wallet_id o2) (paid_key (po_id o1)) db1" using posted by (simp add: order_core_def)
    qed (simp add: order_core_def)
    then have "quiet db1 db'"
      unfolding booked(3) by (rule quiet_trans [OF quiet_trans [OF _ quiet_inbox] quiet_audit])
    then show ?thesis using b quiet_inv [of db1 db'] quiet_other_money [of db1 db'] by simp
  qed
qed

section \<open>Reversing a payment\<close>

lemma pg_bigint_js:
  assumes "pg_bigint s = Inr x"
  shows "js_bigint s = Inr x"
proof -
  define t where "t = trim s"
  from assms obtain c u where t: "t = c # u"
    by (cases t) (auto simp: pg_bigint_def Let_def t_def split: if_splits)
  show ?thesis
  proof (cases "c = CHR ''-'' \<or> c = CHR ''+''")
    case True
    then show ?thesis using assms t
      by (auto simp: pg_bigint_def js_bigint_def Let_def simp flip: t_def split: if_splits)
  next
    case False
    then have "list_all is_digit (c # u)" and x: "x = int (digits_value (c # u))"
      using assms t by (auto simp: pg_bigint_def Let_def simp flip: t_def split: if_splits)
    then have "js_bigint_body (c # u) = Some x" using js_bigint_body_digits [of c u] by simp
    then show ?thesis using t by (simp add: js_bigint_def flip: t_def)
  qed
qed

lemma cumulativeCreditReversal_text:
  assumes "0 \<le> c" and "cumulativeCreditReversal (int_str c) (int_str p) s = Inr x" and "js_bigint s = Inr r"
  shows "0 < r \<and> r \<le> p \<and> x = credit_reversed c p r"
proof -
  have "cumulativeCreditReversal (int_str c) (int_str p) s = cumulativeCreditReversal (int_str c) (int_str p) (int_str r)"
    using assms(3) by (simp add: cumulativeCreditReversal_def)
  then show ?thesis using assms(1,2) cumulativeCreditReversal_Inr_iff [OF assms(1)] by metis
qed

lemma reversals_of_snoc:
  "reversals_of oid (rs @ [r]) = reversals_of oid rs @ (if rv_order_id r = oid then [r] else [])"
  by (simp add: reversals_of_def)

lemma core_inv_reversal:
  assumes inv: "core_inv ls rs os is" and o1: "(oid, wid, c, p) \<in> set os" and r: "rv_order_id r = oid"
    and e: "rv_event_id r \<in> fst ` set is" and chain: "rev_chain c p (reversals_of oid rs @ [r])"
    and l: "\<exists>l \<in> set ls. wl_wallet_id l = wid \<and> wl_business_key l = paid_key oid"
  shows "core_inv ls (rs @ [r]) os is"
proof -
  have each: "10000 \<le> c' \<and> 0 < p' \<and> rev_chain c' p' (reversals_of oid' (rs @ [r])) \<and>
      (reversals_of oid' (rs @ [r]) \<noteq> [] \<longrightarrow> (\<exists>l \<in> set ls. wl_wallet_id l = wid' \<and> wl_business_key l = paid_key oid'))"
    if k: "(oid', wid', c', p') \<in> set os" for oid' wid' c' p'
  proof (cases "oid' = oid")
    case True
    then have "(oid', wid', c', p') = (oid, wid, c, p)" using core_inv_cores [OF inv k o1] by simp
    then show ?thesis using inv o1 chain l r by (auto simp: core_inv_def reversals_of_snoc)
  next
    case False
    then show ?thesis using inv k r by (auto simp: core_inv_def reversals_of_snoc)
  qed
  have "oid \<in> fst ` set os" using o1 by force
  then have refs: "\<forall>x \<in> set (rs @ [r]). rv_order_id x \<in> fst ` set os \<and> rv_event_id x \<in> fst ` set is"
    using inv r e by (auto simp: core_inv_def)
  show ?thesis unfolding core_inv_def
  proof (intro conjI)
    show "\<forall>(oid', wid', c', p') \<in> set os. 10000 \<le> c' \<and> 0 < p' \<and> rev_chain c' p' (reversals_of oid' (rs @ [r])) \<and>
      (reversals_of oid' (rs @ [r]) \<noteq> [] \<longrightarrow> (\<exists>l \<in> set ls. wl_wallet_id l = wid' \<and> wl_business_key l = paid_key oid'))"
      using each by auto
  qed (use inv refs in \<open>simp_all add: core_inv_def\<close>)
qed

lemma reversal_entry_simps [simp]:
  "e_walletId (reversal_entry eid o1 ev d) = po_wallet_id o1" "e_deltaCents (reversal_entry eid o1 ev d) = - d"
  "e_businessKey (reversal_entry eid o1 ev d) = reversal_key eid"
  by (simp_all add: reversal_entry_def reversal_key_def)

lemma post_reversal_keeps:
  assumes inv: "pay_inv db" and fresh: "\<forall>l \<in> set (ledger db). wl_business_key l \<noteq> reversal_key eventId"
    and eid: "eventId \<in> fst ` set (map inbox_core (inbox db))" and d: "0 \<le> delta"
    and p: "post_reversal eventId o1 event delta wallet0 db = Inr (lid, wal, db1)"
  shows "pay_inv db1" and "reversals db1 = reversals db" and "orders db1 = orders db" and "inbox db1 = inbox db"
    and "balance_of a db1 = balance_of a db - (if a = po_wallet_id o1 then delta else 0)"
    and "\<And>w k. key_posted w (paid_key k) db1 = key_posted w (paid_key k) db"
proof -
  have "pay_inv db1 \<and> reversals db1 = reversals db \<and> orders db1 = orders db \<and> inbox db1 = inbox db \<and>
    balance_of a db1 = balance_of a db - (if a = po_wallet_id o1 then delta else 0) \<and>
    (\<forall>w k. key_posted w (paid_key k) db1 = key_posted w (paid_key k) db)"
  proof (cases "delta > 0")
    case False
    then show ?thesis using p d inv by (simp add: post_reversal_def)
  next
    case True
    then obtain e where ap: "appendWalletEntry (reversal_entry eventId o1 event delta) db = Inr (e, db1)"
      using p by (auto simp: post_reversal_def bindE_Inr_iff)
    from ap show ?thesis
    proof (cases rule: append_Inr_cases)
      case (again w l)
      then show ?thesis using fresh by (auto simp: key_posted_def)
    next
      case (first w)
      have winv: "wallet_inv db1" using inv append_inv [OF _ ap] by (simp add: pay_inv_def)
      have "core_inv (ledger db1) (reversals db1) (map order_core (orders db1)) (map inbox_core (inbox db1))"
        unfolding first(9) post_db_simps ledger_post_db
      proof (rule core_inv_ledger [OF pay_inv_core [OF inv]])
        fix x assume "wl_business_key (entry_row (reversal_entry eventId o1 event delta) w (next_ledger db)) = reversal_key x"
        then show "x \<in> fst ` set (map inbox_core (inbox db))" using eid by simp
      qed simp
      moreover have "settled_posted db" using inv by (simp add: pay_inv_def)
      then have "settled_posted db1"
        by (rule settled_posted_mono) (auto simp: first(9) key_posted_post_db)
      ultimately have "pay_inv db1" using winv inv by (simp add: pay_inv_def first(9))
      then show ?thesis using post_db_balance [OF first(1), of a] by (simp add: first(9) key_posted_post_db)
    qed
  qed
  then show "pay_inv db1" "reversals db1 = reversals db" "orders db1 = orders db" "inbox db1 = inbox db"
    "balance_of a db1 = balance_of a db - (if a = po_wallet_id o1 then delta else 0)"
    "\<And>w k. key_posted w (paid_key k) db1 = key_posted w (paid_key k) db" by simp_all
qed

lemma applyReversal_cases:
  assumes "applyReversal eventId o1 event requestId db = Inr (res, db')"
  obtains (quiet) "quiet db db'"
  | (booked) cc cur prev wallet0 lid wal st r db1 db2 db3 where
      "po_status o1 \<in> set settled_statuses"
      "cumulativeCreditReversal (int_str (po_credit o1)) (int_str (po_payable o1)) (ev_amountCents event) = Inr cc"
      "js_bigint (ev_amountCents event) = Inr cur" "prev = largest_reversal (po_id o1) (reversals db)"
      "(case prev of None \<Rightarrow> 0 | Some r \<Rightarrow> rv_cumulative_payable r) < cur"
      "0 \<le> cc - (case prev of None \<Rightarrow> 0 | Some r \<Rightarrow> rv_cumulative_credit r)"
      "post_reversal eventId o1 event (cc - (case prev of None \<Rightarrow> 0 | Some r \<Rightarrow> rv_cumulative_credit r)) wallet0 db
        = Inr (lid, wal, db1)"
      "insert_reversal \<lparr> rv_order_id = po_id o1, rv_event_id = eventId, rv_type = ev_eventType event,
          rv_cumulative_payable = cur, rv_cumulative_credit = cc,
          rv_ledger_delta = - (cc - (case prev of None \<Rightarrow> 0 | Some r \<Rightarrow> rv_cumulative_credit r)),
          rv_ledger_id = lid \<rparr> db1 = Inr db2"
      "update_order (po_id o1) (\<lambda>r. r\<lparr>po_status := st\<rparr>) db2 = Inr db3"
      "db' = audit r (update_inbox eventId (Some (po_id o1)) Inbox_PROCESSED None db3)"
proof -
  let ?c = "cumulativeCreditReversal (int_str (po_credit o1)) (int_str (po_payable o1)) (ev_amountCents event)"
  show thesis
  proof (cases "po_status o1 \<in> set settled_statuses")
    case False
    then have "requireReconciliation eventId (Some o1) ''REVERSAL_BEFORE_PAYMENT'' requestId db = Inr (res, db')"
      using assms by (simp add: applyReversal_def)
    then show thesis by (rule quiet [OF requireReconciliation_quiet])
  next
    case st: True
    show thesis
    proof (cases ?c)
      case (Inl e)
      then have "requireReconciliation eventId (Some o1) ''REVERSAL_AMOUNT_INVALID'' requestId db = Inr (res, db')"
        using assms st by (simp add: applyReversal_def)
      then show thesis by (rule quiet [OF requireReconciliation_quiet])
    next
      case (Inr cc)
      define prev where "prev = largest_reversal (po_id o1) (reversals db)"
      define pp where "pp = (case prev of None \<Rightarrow> 0 | Some r \<Rightarrow> rv_cumulative_payable r)"
      define pc where "pc = (case prev of None \<Rightarrow> 0 | Some r \<Rightarrow> rv_cumulative_credit r)"
      obtain cur where cur: "js_bigint (ev_amountCents event) = Inr cur"
        using assms st Inr by (auto simp: applyReversal_def bindE_Inr_iff Let_def)
      have a: "(if cur < pp then requireReconciliation eventId (Some o1) ''REVERSAL_OUT_OF_ORDER'' requestId db
          else if cur = pp then markEventDuplicate eventId o1 db
          else if cc - pc < 0 then requireReconciliation eventId (Some o1) ''REVERSAL_ROUNDING_CONFLICT'' requestId db
          else bindE (lockWallet (po_wallet_id o1) db) (\<lambda>wallet0.
            bindE (post_reversal eventId o1 event (cc - pc) wallet0 db) (\<lambda>(lid, wallet, db1).
            bindE (pg_bigint (ev_amountCents event)) (\<lambda>amount.
            bindE (insert_reversal
              \<lparr> rv_order_id = po_id o1, rv_event_id = eventId, rv_type = ev_eventType event,
                rv_cumulative_payable = amount, rv_cumulative_credit = cc,
                rv_ledger_delta = - (cc - pc), rv_ledger_id = lid \<rparr> db1) (\<lambda>db2.
            let nextStatus = (if ev_eventType event = Event_CHARGEBACK then Order_CHARGEBACK
                  else if cur = po_payable o1 then Order_REVERSED else Order_PARTIALLY_REVERSED) in
            bindE (update_order (po_id o1) (\<lambda>r. r\<lparr>po_status := nextStatus\<rparr>) db2) (\<lambda>db3.
            let db4 = update_inbox eventId (Some (po_id o1)) Inbox_PROCESSED None db3 in
            Inr (\<lparr> pr_eventId = eventId, pr_orderId = Some (po_id o1), pr_status = Result_PROCESSED,
                   pr_walletBalanceCents = Some (balanceCents wallet) \<rparr>,
              audit (payment_audit None ''payment_order'' (po_id o1)
                (''PAYMENT_'' @ event_type_str (ev_eventType event)) True None requestId
                (Some [(''status'', Some (order_status_str (po_status o1)))])
                (Some [(''status'', Some (order_status_str nextStatus)),
                  (''cumulativeCreditReversedCents'', Some (int_str cc))])) db4)))))))
        = Inr (res, db')"
        using assms st unfolding applyReversal_def Inr cur pp_def pc_def prev_def Let_def by simp
      consider "cur < pp" | "cur = pp" | "pp < cur" "cc - pc < 0" | "pp < cur" "0 \<le> cc - pc" by linarith
      then show thesis
      proof cases
        case 1
        with a show thesis by (intro quiet [OF requireReconciliation_quiet]) simp
      next
        case 2
        with a show thesis by (intro quiet [OF markEventDuplicate_quiet]) simp
      next
        case 3
        with a show thesis by (intro quiet [OF requireReconciliation_quiet]) simp
      next
        case 4
        with a obtain wallet0 lid wal db1 amount db2 db3 st' r where
          b: "post_reversal eventId o1 event (cc - pc) wallet0 db = Inr (lid, wal, db1)"
            "pg_bigint (ev_amountCents event) = Inr amount"
            "insert_reversal \<lparr> rv_order_id = po_id o1, rv_event_id = eventId, rv_type = ev_eventType event,
                rv_cumulative_payable = amount, rv_cumulative_credit = cc,
                rv_ledger_delta = - (cc - pc), rv_ledger_id = lid \<rparr> db1 = Inr db2"
            "update_order (po_id o1) (\<lambda>r. r\<lparr>po_status := st'\<rparr>) db2 = Inr db3"
            "db' = audit r (update_inbox eventId (Some (po_id o1)) Inbox_PROCESSED None db3)"
          by (fastforce simp: bindE_Inr_iff Let_def)
        have "amount = cur" using pg_bigint_js [OF b(2)] cur by simp
        with b 4 show thesis
          by (intro booked [OF st Inr cur prev_def, folded pp_def pc_def]) simp_all
      qed
    qed
  qed
qed

lemma insert_reversal_Inr:
  "insert_reversal r db = Inr db' \<Longrightarrow> db' = db\<lparr>reversals := reversals db @ [r]\<rparr>"
  by (auto simp: insert_reversal_def split: if_splits)

lemma applyReversal_keeps:
  assumes inv: "pay_inv db" and o1: "o1 \<in> set (orders db)"
    and fresh: "\<forall>l \<in> set (ledger db). wl_business_key l \<noteq> reversal_key eventId"
    and eid: "eventId \<in> fst ` set (map inbox_core (inbox db))"
    and ap: "applyReversal eventId o1 event requestId db = Inr (res, db')"
  shows "pay_inv db' \<and> other_money a db' = other_money a db"
  using ap
proof (cases rule: applyReversal_cases)
  case quiet
  then show ?thesis using quiet_inv [OF inv] quiet_other_money by blast
next
  case (booked cc cur prev wallet0 lid wal st r db1 db2 db3)
  let ?rs = "reversals_of (po_id o1) (reversals db)"
  let ?k = "order_core o1"
  have kin: "(po_id o1, po_wallet_id o1, po_credit o1, po_payable o1) \<in> set (map order_core (orders db))"
    using o1 by (force simp: order_core_def)
  have c: "10000 \<le> po_credit o1" and chain: "rev_chain (po_credit o1) (po_payable o1) ?rs"
    using pay_inv_core [OF inv] kin unfolding core_inv_def by blast+
  define pc where "pc = (case prev of None \<Rightarrow> 0 | Some r \<Rightarrow> rv_cumulative_credit r)"
  define delta where "delta = cc - pc"
  define R where "R = \<lparr> rv_order_id = po_id o1, rv_event_id = eventId, rv_type = ev_eventType event,
      rv_cumulative_payable = cur, rv_cumulative_credit = cc, rv_ledger_delta = - delta, rv_ledger_id = lid \<rparr>"
  have post: "post_reversal eventId o1 event delta wallet0 db = Inr (lid, wal, db1)" and d: "0 \<le> delta"
    using booked(6,7) by (simp_all add: delta_def pc_def)
  note k = post_reversal_keeps [OF inv fresh eid d post]
  have db2: "db2 = db1\<lparr>reversals := reversals db1 @ [R]\<rparr>"
    using insert_reversal_Inr [OF booked(8)] by (simp add: R_def delta_def pc_def)
  have cc: "0 < cur" "cur \<le> po_payable o1" "cc = credit_reversed (po_credit o1) (po_payable o1) cur"
    using cumulativeCreditReversal_text [OF _ booked(2,3)] c by auto
  have prev: "prev = (if ?rs = [] then None else Some (last ?rs))"
    using largest_reversal_last chain by (simp add: booked(4) rev_chain_def)
  have chain': "rev_chain (po_credit o1) (po_payable o1) (?rs @ [R])"
  proof (rule rev_chain_snoc [OF chain])
    show "?rs \<noteq> [] \<Longrightarrow> rv_cumulative_payable (last ?rs) < rv_cumulative_payable R"
      using booked(5) by (simp add: R_def prev)
    show "- rv_ledger_delta R = rv_cumulative_credit R - (if ?rs = [] then 0 else rv_cumulative_credit (last ?rs))"
      by (simp add: R_def delta_def pc_def prev)
  qed (use cc in \<open>simp_all add: R_def\<close>)
  have "settled_posted db" using inv by (simp add: pay_inv_def)
  then have "key_posted (po_wallet_id o1) (paid_key (po_id o1)) db"
    using o1 booked(1) by (simp add: settled_posted_def)
  then have posted: "key_posted (po_wallet_id o1) (paid_key (po_id o1)) db1" using k(6) by simp
  have "core_inv (ledger db1) (reversals db1 @ [R]) (map order_core (orders db1)) (map inbox_core (inbox db1))"
  proof (rule core_inv_reversal [OF pay_inv_core [OF k(1)]])
    show "(po_id o1, po_wallet_id o1, po_credit o1, po_payable o1) \<in> set (map order_core (orders db1))"
      using kin by (simp only: k(3))
    show "rv_event_id R \<in> fst ` set (map inbox_core (inbox db1))" using eid by (simp only: k(4) R_def reversal_row.simps)
    show "rev_chain (po_credit o1) (po_payable o1) (reversals_of (po_id o1) (reversals db1) @ [R])"
      using chain' by (simp only: k(2))
    show "\<exists>l \<in> set (ledger db1). wl_wallet_id l = po_wallet_id o1 \<and> wl_business_key l = paid_key (po_id o1)"
      using posted by (simp add: key_posted_def)
  qed (simp add: R_def)
  then have inv2: "pay_inv db2"
    using k(1) by (simp add: pay_inv_def db2 settled_posted_def key_posted_def wallet_inv_def)
  have om2: "other_money a db2 = other_money a db"
  proof (rule other_money_step [OF inv o1, where m = "- delta"])
    fix x assume x: "x \<in> set (map order_core (orders db))"
    obtain oid wid c p where x_eq: "x = (oid, wid, c, p)" by (cases x)
    have "oid = po_id o1 \<Longrightarrow> x = ?k"
      using core_inv_cores [OF pay_inv_core [OF inv] x, of ?k] o1 x_eq by (simp add: order_core_def)
    moreover have "key_posted wid (paid_key oid) db2 = key_posted wid (paid_key oid) db"
      using k(6) by (simp add: key_posted_def db2)
    ultimately show "net db2 x = net db x + (if x = ?k then - delta else 0)"
      by (auto simp: net_def x_eq db2 k(2) reversed_total_def reversals_of_snoc R_def order_core_def)
  next
    show "balance_of a db2 = balance_of a db + (if a = po_wallet_id o1 then - delta else 0)"
      using k(5) by (simp add: balance_of_def db2)
  qed (simp add: db2 k(3))
  have "quiet db2 db3"
  proof (rule quiet_update_order [OF booked(9)])
    fix o2 assume "po_id o2 = po_id o1" "o2 \<in> set (orders db2)"
    then have "order_core o2 = order_core o1" using order_core_unique [OF inv _ o1] by (simp add: db2 k(3))
    then show "key_posted (po_wallet_id o2) (paid_key (po_id o1)) db2"
      using posted by (simp add: order_core_def key_posted_def db2)
  qed (simp add: order_core_def)
  then have "quiet db2 db'"
    unfolding booked(10) by (rule quiet_trans [OF quiet_trans [OF _ quiet_inbox] quiet_audit])
  then show ?thesis using quiet_inv [OF inv2] quiet_other_money [of db2 db'] om2 by simp
qed

section \<open>A callback\<close>

lemma core_inv_inbox:
  assumes "core_inv ls rs os is" and "fst i \<notin> fst ` set is" and "snd i \<notin> snd ` set is"
  shows "core_inv ls rs os (is @ [i])"
  using assms unfolding core_inv_def by (simp add: image_Un)

lemma receive_keeps:
  assumes inv: "pay_inv db" and new: "\<forall>x \<in> set (inbox db). ib_id x \<noteq> ib_id r"
    and key: "first_row (\<lambda>x. ib_provider x = ib_provider r \<and> ib_provider_event_id x = ib_provider_event_id r) (inbox db) = None"
  shows "pay_inv (db\<lparr>inbox := inbox db @ [r]\<rparr>)" and "other_money a (db\<lparr>inbox := inbox db @ [r]\<rparr>) = other_money a db"
    and "\<forall>l \<in> set (ledger db). wl_business_key l \<noteq> reversal_key (ib_id r)"
proof -
  let ?is = "map inbox_core (inbox db)"
  have c: "core_inv (ledger db) (reversals db) (map order_core (orders db)) ?is"
    using pay_inv_core [OF inv] .
  have new1: "fst (inbox_core r) \<notin> fst ` set ?is" using new by (force simp: inbox_core_def)
  have new2: "snd (inbox_core r) \<notin> snd ` set ?is" using key by (force simp: inbox_core_def first_row_None_iff)
  have "core_inv (ledger db) (reversals db) (map order_core (orders db)) (?is @ [inbox_core r])"
    using c new1 new2 by (rule core_inv_inbox)
  then show "pay_inv (db\<lparr>inbox := inbox db @ [r]\<rparr>)"
    using inv by (simp add: pay_inv_def settled_posted_def key_posted_def wallet_inv_def)
  have "net (db\<lparr>inbox := inbox db @ [r]\<rparr>) = net db" by (simp add: fun_eq_iff net_def key_posted_def)
  then show "other_money a (db\<lparr>inbox := inbox db @ [r]\<rparr>) = other_money a db"
    by (simp add: other_money_def balance_of_def)
  show "\<forall>l \<in> set (ledger db). wl_business_key l \<noteq> reversal_key (ib_id r)"
    using c new1 unfolding core_inv_def by (auto simp: inbox_core_def simp del: set_map)
qed

lemma settleEvent_cases:
  assumes "settleEvent eventId event requestId db = Inr (res, db')"
  obtains "quiet db db'"
    | o1 where "first_row (\<lambda>o1. po_id o1 = ev_internalOrderId event) (orders db) = Some o1"
        "applyPayment eventId o1 event requestId db = Inr (res, db')"
    | o1 where "first_row (\<lambda>o1. po_id o1 = ev_internalOrderId event) (orders db) = Some o1"
        "applyReversal eventId o1 event requestId db = Inr (res, db')"
proof (cases "first_row (\<lambda>o1. po_id o1 = ev_internalOrderId event) (orders db)")
  case None
  then have "requireReconciliation eventId None ''ORDER_OR_MERCHANT_MISMATCH'' requestId db = Inr (res, db')"
    using assms by (simp add: settleEvent_def)
  then show thesis by (rule that(1) [OF requireReconciliation_quiet])
next
  case (Some o1)
  then consider c where "requireReconciliation eventId (Some o1) c requestId db = Inr (res, db')"
    | "applyPayment eventId o1 event requestId db = Inr (res, db')"
    | "applyReversal eventId o1 event requestId db = Inr (res, db')"
    using assms by (simp add: settleEvent_def split: if_split_asm)
  then show thesis
    by cases (rule that(1) [OF requireReconciliation_quiet], assumption, (rule that(2,3) [OF Some], assumption)+)
qed

lemma applyVerifiedEvent_keeps:
  assumes inv: "pay_inv db" and ap: "applyVerifiedEvent eventId event sha requestId db = Inr (res, db')"
  shows "pay_inv db' \<and> other_money a db' = other_money a db"
proof (cases "first_row (\<lambda>r. ib_provider r = ev_provider event \<and> ib_provider_event_id r = ev_providerEventId event) (inbox db)")
  case (Some row)
  have "quiet db db'"
    using ap Some quiet_trans [OF requireReconciliation_quiet quiet_audit]
    by (auto simp: applyVerifiedEvent_def bindE_Inr_iff Let_def split: if_splits)
  then show ?thesis using quiet_inv [OF inv] quiet_other_money by blast
next
  case None
  define r where "r = \<lparr> ib_id = eventId, ib_provider = ev_provider event,
      ib_provider_event_id = ev_providerEventId event, ib_event_type = ev_eventType event,
      ib_transaction = ev_providerTransactionId event, ib_order_id = None, ib_sha256 = sha,
      ib_status = Inbox_RECEIVED, ib_failure = None \<rparr>"
  define db0 where "db0 = db\<lparr>inbox := inbox db @ [r]\<rparr>"
  have pk: "\<forall>x \<in> set (inbox db). ib_id x \<noteq> ib_id r"
    using ap None by (auto simp: applyVerifiedEvent_def r_def split: if_splits)
  note keep = receive_keeps [OF inv pk, folded db0_def]
  have key: "first_row (\<lambda>x. ib_provider x = ib_provider r \<and> ib_provider_event_id x = ib_provider_event_id r) (inbox db) = None"
    using None by (simp add: r_def)
  have inv0: "pay_inv db0" and om0: "other_money a db0 = other_money a db" using keep [OF key] by auto
  have fresh: "\<forall>l \<in> set (ledger db0). wl_business_key l \<noteq> reversal_key eventId"
    using keep(3) [OF key] by (simp add: db0_def r_def)
  have eid: "eventId \<in> fst ` set (map inbox_core (inbox db0))" by (simp add: db0_def r_def inbox_core_def)
  have "settleEvent eventId event requestId db0 = Inr (res, db')"
    using ap None pk by (auto simp: applyVerifiedEvent_def r_def db0_def split: if_splits)
  then consider (quiet) "quiet db0 db'"
    | (pay) o1 where "first_row (\<lambda>o1. po_id o1 = ev_internalOrderId event) (orders db0) = Some o1"
        "applyPayment eventId o1 event requestId db0 = Inr (res, db')"
    | (rev) o1 where "first_row (\<lambda>o1. po_id o1 = ev_internalOrderId event) (orders db0) = Some o1"
        "applyReversal eventId o1 event requestId db0 = Inr (res, db')"
    by (cases rule: settleEvent_cases) blast+
  then show ?thesis
  proof cases
    case quiet
    then show ?thesis using quiet_inv [OF inv0 quiet] quiet_other_money [OF quiet] om0 by simp
  next
    case pay
    have "o1 \<in> set (orders db0)" using first_row_SomeD [OF pay(1)] by simp
    then show ?thesis using applyPayment_keeps [OF inv0 _ pay(2)] om0 by simp
  next
    case rev
    have "o1 \<in> set (orders db0)" using first_row_SomeD [OF rev(1)] by simp
    then show ?thesis using applyReversal_keeps [OF inv0 _ fresh eid rev(2)] om0 by simp
  qed
qed

section \<open>Orders are created without money\<close>

lemma core_inv_unknown:
  assumes "core_inv ls rs os is" and "oid \<notin> fst ` set os"
  shows "reversals_of oid rs = [] \<and> (\<forall>l \<in> set ls. wl_business_key l \<noteq> paid_key oid)"
  using assms unfolding core_inv_def reversals_of_def by (auto simp: filter_empty_conv)

lemma core_inv_order:
  assumes inv: "core_inv ls rs os is" and new: "oid \<notin> fst ` set os" and c: "10000 \<le> c" "0 < p"
  shows "core_inv ls rs (os @ [(oid, wid, c, p)]) is"
proof -
  have none: "reversals_of oid rs = []"
    using inv new unfolding core_inv_def reversals_of_def by (auto simp: filter_empty_conv)
  have "\<forall>r \<in> set rs. rv_order_id r \<in> fst ` set (os @ [(oid, wid, c, p)]) \<and> rv_event_id r \<in> fst ` set is"
    "\<forall>l \<in> set ls. \<forall>x. wl_business_key l = paid_key x \<longrightarrow> x \<in> fst ` set (os @ [(oid, wid, c, p)])"
    using inv unfolding core_inv_def by auto
  then show ?thesis using inv new c none unfolding core_inv_def by (simp add: image_Un)
qed

lemma createOrder_keeps:
  assumes inv: "pay_inv db" and ap: "createOrder newId input db = Inr (r, db')"
  shows "pay_inv db' \<and> other_money a db' = other_money a db"
proof (cases "first_row (\<lambda>o1. po_wallet_id o1 = co_walletId input \<and> po_account_id o1 = co_accountId input
             \<and> po_idempotency_key o1 = co_idempotencyKey input) (orders db)")
  case (Some prior)
  then show ?thesis using inv ap by (auto simp: createOrder_def split: if_splits)
next
  case None
  then obtain o1 where ins: "insert_order o1 db = Inr db'" and o1: "po_id o1 = newId" "po_status o1 = Order_CREATED"
    using ap by (auto simp: createOrder_def bindE_Inr_iff)
  have ok: "10000 \<le> po_credit o1" "0 < po_payable o1" "order_check o1"
    and new: "\<forall>x \<in> set (orders db). po_id x \<noteq> po_id o1" and db': "db' = db\<lparr>orders := orders db @ [o1]\<rparr>"
    using ins by (auto simp: insert_order_def split: if_splits)
  let ?os = "map order_core (orders db)"
  have nin: "po_id o1 \<notin> fst ` set ?os" using new by (force simp: order_core_def)
  have c: "core_inv (ledger db) (reversals db) ?os (map inbox_core (inbox db))" using pay_inv_core [OF inv] .
  have c': "core_inv (ledger db) (reversals db) (?os @ [order_core o1]) (map inbox_core (inbox db))"
    using core_inv_order [OF c nin ok(1,2), of "po_wallet_id o1"] by (simp only: order_core_def [of o1])
  have "settled_posted db'"
    using inv o1(2) by (auto simp: pay_inv_def settled_posted_def db' settled_statuses_def key_posted_def)
  then have inv': "pay_inv db'" using inv c' ok(3) by (simp add: pay_inv_def db' wallet_inv_def)
  have "\<not> key_posted (po_wallet_id o1) (paid_key (po_id o1)) db" "reversals_of (po_id o1) (reversals db) = []"
    using core_inv_unknown [OF c nin] by (auto simp: key_posted_def)
  then have "net db (order_core o1) = 0" by (simp add: net_def order_core_def reversed_total_def)
  moreover have "net db' = net db" by (simp add: fun_eq_iff net_def key_posted_def db')
  moreover have "balance_of a db' = balance_of a db" by (simp add: balance_of_def db')
  ultimately have "other_money a db' = other_money a db" by (simp add: other_money_def db')
  with inv' show ?thesis by blast
qed

lemma markOrderPending_quiet: "quiet db (markOrderPending oid db)"
proof -
  let ?db = "markOrderPending oid db"
  have "settled_posted db \<Longrightarrow> settled_posted ?db"
    by (auto simp: settled_posted_def markOrderPending_def in_update_rows key_posted_def settled_statuses_def)
  moreover have "list_all order_check (orders db) \<Longrightarrow> list_all order_check (orders ?db)"
    by (simp add: markOrderPending_def list_all_update_rows order_check_def)
  ultimately show ?thesis
    by (auto simp: quiet_def markOrderPending_def map_update_rows order_core_def pay_inv_def wallet_inv_def)
qed

section \<open>The payment system as a transition relation\<close>

text \<open>
  One committed transaction of the repository. Locks serialise them, so every interleaving of
  requests and callbacks is a sequence of such steps.
\<close>

inductive pay_step :: "'z pay_db_scheme \<Rightarrow> 'z pay_db_scheme \<Rightarrow> bool" where
  create: "createOrder newId input db = Inr (r, db') \<Longrightarrow> pay_step db db'"
| pending: "pay_step db (markOrderPending oid db)"
| event: "applyVerifiedEvent eventId ev sha requestId db = Inr (r, db') \<Longrightarrow> pay_step db db'"

lemma pay_step_keeps: "pay_step db db' \<Longrightarrow> pay_inv db \<Longrightarrow> pay_inv db' \<and> other_money a db' = other_money a db"
proof (induction rule: pay_step.induct)
  case (create newId input db r db')
  then show ?case using createOrder_keeps by blast
next
  case (pending db oid)
  then show ?case using quiet_inv [OF _ markOrderPending_quiet] quiet_other_money [OF markOrderPending_quiet] by blast
next
  case (event eventId ev sha requestId db r db')
  then show ?case using applyVerifiedEvent_keeps by blast
qed

interpretation pay_runs: kept_along pay_step "\<lambda>db db'. pay_inv db \<longrightarrow> pay_inv db' \<and> other_money a db' = other_money a db" for a
  by unfold_locales (use pay_step_keeps in auto)

lemma pay_steps_keep: "pay_step\<^sup>*\<^sup>* db db' \<Longrightarrow> pay_inv db \<Longrightarrow> pay_inv db' \<and> other_money a db' = other_money a db"
  using pay_runs.along_run by blast

lemma net_bounds:
  assumes inv: "pay_inv db" and o1: "o1 \<in> set (orders db)"
  shows "0 \<le> net db (order_core o1)" and "net db (order_core o1) \<le> po_credit o1"
proof -
  have "(po_id o1, po_wallet_id o1, po_credit o1, po_payable o1) \<in> set (map order_core (orders db))"
    using o1 by (force simp: order_core_def)
  then have c: "10000 \<le> po_credit o1" and chain: "rev_chain (po_credit o1) (po_payable o1) (reversals_of (po_id o1) (reversals db))"
    and posted: "reversals_of (po_id o1) (reversals db) \<noteq> [] \<Longrightarrow>
      key_posted (po_wallet_id o1) (paid_key (po_id o1)) db"
    using pay_inv_core [OF inv] unfolding core_inv_def key_posted_def by blast+
  have c0: "0 \<le> po_credit o1" using c by simp
  note b = reversed_total_bounds [OF chain c0]
  have z: "reversals_of (po_id o1) (reversals db) = [] \<Longrightarrow> reversed_total (po_id o1) (reversals db) = 0"
    by (simp add: reversed_total_def)
  show "0 \<le> net db (order_core o1)" "net db (order_core o1) \<le> po_credit o1"
    using b z posted c by (auto simp: net_def order_core_def)
qed

text \<open>
  C1: no sequence of orders, callbacks, replays and reversals creates or loses money. Starting
  from any sound state, each wallet always holds what it held apart from its orders plus, for every
  order, between nothing and the credit of that order: what the order brought minus what its
  reversals took back.
\<close>

theorem payments_conserve_money:
  assumes "pay_inv db" and "pay_step\<^sup>*\<^sup>* db db'"
  shows "pay_inv db' \<and>
    balance_of a db' = other_money a db +
      sum_list (map (net db') (filter (\<lambda>k. fst (snd k) = a) (map order_core (orders db')))) \<and>
    (\<forall>o1 \<in> set (orders db'). 0 \<le> net db' (order_core o1) \<and> net db' (order_core o1) \<le> po_credit o1)"
proof -
  have k: "pay_inv db'" "other_money a db' = other_money a db" using pay_steps_keep [OF assms(2,1)] by simp_all
  then have "balance_of a db' = other_money a db +
      sum_list (map (net db') (filter (\<lambda>k. fst (snd k) = a) (map order_core (orders db'))))"
    by (simp add: other_money_def)
  then show ?thesis using k(1) net_bounds by blast
qed

text \<open>The inbox keeps what was received.\<close>

lemma quiet_content: "quiet db db' \<Longrightarrow> map inbox_content (inbox db') = map inbox_content (inbox db)"
  by (simp add: quiet_def)

lemma append_inbox: "appendWalletEntry i db = Inr (r, db') \<Longrightarrow> inbox db' = inbox db"
  by (erule append_Inr_cases) simp_all

lemma finish_content:
  assumes "update_order oid f db = Inr db'"
  shows "map inbox_content (inbox (audit r (update_inbox eid o1 st c db'))) = map inbox_content (inbox db)"
proof -
  have "inbox db' = inbox db" using assms by (auto simp: update_order_def Let_def split: if_splits)
  then show ?thesis by (simp add: audit_def update_inbox_def map_update_rows inbox_content_def)
qed

lemma settleEvent_content:
  assumes "settleEvent eventId event requestId db = Inr (res, db')"
  shows "map inbox_content (inbox db') = map inbox_content (inbox db)"
  using assms
proof (cases rule: settleEvent_cases)
  case 1
  then show ?thesis by (rule quiet_content)
next
  case (2 o1)
  consider (quiet) "quiet db db'"
    | (booked) l db1 db2 r f where "appendWalletEntry (paid_entry o1) db = Inr (l, db1)"
      "update_order (po_id o1) f db1 = Inr db2"
      "db' = audit r (update_inbox eventId (Some (po_id o1)) Inbox_PROCESSED None db2)"
    using 2(2) by (auto simp: applyPayment_def bindE_Inr_iff Let_def split: if_splits
        dest: requireReconciliation_quiet markEventDuplicate_quiet)
  then show ?thesis
  proof cases
    case quiet
    then show ?thesis by (rule quiet_content)
  next
    case booked
    then show ?thesis using finish_content [OF booked(2)] append_inbox [OF booked(1)] by simp
  qed
next
  case (3 o1)
  from 3(2) show ?thesis
  proof (cases rule: applyReversal_cases)
    case quiet
    then show ?thesis by (rule quiet_content)
  next
    case (booked cc cur prev wallet0 lid wal st r db1 db2 db3)
    have "inbox db1 = inbox db"
      using booked(7) append_inbox by (auto simp: post_reversal_def bindE_Inr_iff split: if_splits)
    then show ?thesis
      unfolding booked(10) using finish_content [OF booked(9)] insert_reversal_Inr [OF booked(8)] by simp
  qed
qed

lemma first_row_content:
  assumes "map inbox_content rows' = map inbox_content rows"
    and "first_row (\<lambda>r. ib_provider r = p \<and> ib_provider_event_id r = e) rows = Some r"
  shows "\<exists>r'. first_row (\<lambda>r. ib_provider r = p \<and> ib_provider_event_id r = e) rows' = Some r' \<and>
    inbox_content r' = inbox_content r"
  using assms
proof (induction rows arbitrary: rows')
  case (Cons a rows)
  then obtain b rest where "rows' = b # rest" "inbox_content b = inbox_content a"
    "map inbox_content rest = map inbox_content rows" by (auto simp: map_eq_Cons_conv)
  with Cons show ?case by (auto simp: inbox_content_def split: if_splits)
qed simp

text \<open>What was received stays in the inbox, in its place, along any run.\<close>

definition inbox_grows :: "'z pay_db_scheme \<Rightarrow> 'z pay_db_scheme \<Rightarrow> bool" where
  "inbox_grows db db' \<longleftrightarrow> (\<exists>ys. map inbox_content (inbox db') = map inbox_content (inbox db) @ ys)"

lemma inbox_same_grows: "map inbox_content (inbox db') = map inbox_content (inbox db) \<Longrightarrow> inbox_grows db db'"
  by (simp add: inbox_grows_def)

lemma applyVerifiedEvent_grows:
  assumes "applyVerifiedEvent eventId event sha requestId db = Inr (res, db')"
  shows "inbox_grows db db'"
proof (cases "first_row (\<lambda>r. ib_provider r = ev_provider event \<and> ib_provider_event_id r = ev_providerEventId event) (inbox db)")
  case None
  then obtain r where "settleEvent eventId event requestId (db\<lparr>inbox := inbox db @ [r]\<rparr>) = Inr (res, db')"
    using assms by (auto simp: applyVerifiedEvent_def split: if_splits)
  from settleEvent_content [OF this] show ?thesis by (simp add: inbox_grows_def)
next
  case (Some row)
  show ?thesis
  proof (cases "ib_event_type row = ev_eventType event \<and> ib_transaction row = ev_providerTransactionId event \<and> ib_sha256 row = sha")
    case True
    then show ?thesis using assms Some by (simp add: applyVerifiedEvent_def inbox_grows_def)
  next
    case False
    then obtain o1 code result db1 a where "requireReconciliation (ib_id row) o1 code requestId db = Inr (result, db1)" "db' = audit a db1"
      using assms Some unfolding applyVerifiedEvent_def by (auto simp: bindE_Inr_iff Let_def)
    then show ?thesis using quiet_content [OF requireReconciliation_quiet] by (auto simp: audit_def intro!: inbox_same_grows)
  qed
qed

lemma pay_step_grows: "pay_step db db' \<Longrightarrow> inbox_grows db db'"
proof (induction rule: pay_step.induct)
  case (create newId input db r db')
  then have "inbox db' = inbox db"
    by (auto simp: createOrder_def insert_order_def bindE_Inr_iff split: option.splits if_splits)
  then show ?case by (simp add: inbox_same_grows)
next
  case (event eventId ev sha requestId db r db')
  then show ?case by (rule applyVerifiedEvent_grows)
qed (simp add: markOrderPending_def inbox_same_grows)

interpretation pay_inbox: kept_along pay_step inbox_grows
  by unfold_locales (auto simp: inbox_grows_def dest: pay_step_grows [unfolded inbox_grows_def])

lemma first_row_grown:
  assumes "map inbox_content rows' = map inbox_content rows @ ys"
    and "first_row (\<lambda>r. ib_provider r = p \<and> ib_provider_event_id r = e) rows = Some r"
  shows "\<exists>r'. first_row (\<lambda>r. ib_provider r = p \<and> ib_provider_event_id r = e) rows' = Some r' \<and> inbox_content r' = inbox_content r"
proof -
  obtain as bs where "rows' = as @ bs" "map inbox_content as = map inbox_content rows"
    using assms(1) by (metis map_eq_append_conv)
  then show ?thesis using first_row_content [OF _ assms(2), of as] by (auto simp: first_row_append)
qed

text \<open>
  C19: a callback that the channel sends again, after whatever orders and callbacks came in between, with any new identifier
  and any request, is answered as a duplicate of the first delivery and changes nothing.
\<close>

theorem redelivered_event_is_inert:
  assumes "first_row (\<lambda>r. ib_provider r = ev_provider event \<and> ib_provider_event_id r = ev_providerEventId event) (inbox db) = None"
    and "applyVerifiedEvent eventId event sha requestId db = Inr (res, db1)" and "pay_step\<^sup>*\<^sup>* db1 db'"
  shows "\<exists>oid. applyVerifiedEvent eventId' event sha requestId' db' =
    Inr (\<lparr> pr_eventId = eventId, pr_orderId = oid, pr_status = Result_DUPLICATE,
           pr_walletBalanceCents = None \<rparr>, db')"
proof -
  define r where "r = \<lparr> ib_id = eventId, ib_provider = ev_provider event,
      ib_provider_event_id = ev_providerEventId event, ib_event_type = ev_eventType event,
      ib_transaction = ev_providerTransactionId event, ib_order_id = None, ib_sha256 = sha,
      ib_status = Inbox_RECEIVED, ib_failure = None \<rparr>"
  have "settleEvent eventId event requestId (db\<lparr>inbox := inbox db @ [r]\<rparr>) = Inr (res, db1)"
    using assms(1,2) by (simp add: applyVerifiedEvent_def r_def split: if_splits)
  then have "map inbox_content (inbox db1) = map inbox_content (inbox db @ [r])"
    using settleEvent_content by fastforce
  moreover obtain ys where "map inbox_content (inbox db') = map inbox_content (inbox db1) @ ys"
    using pay_inbox.along_run [OF assms(3)] by (auto simp: inbox_grows_def)
  ultimately have c: "map inbox_content (inbox db') = map inbox_content (inbox db @ [r]) @ ys" by simp
  have "first_row (\<lambda>r. ib_provider r = ev_provider event \<and> ib_provider_event_id r = ev_providerEventId event)
      (inbox db @ [r]) = Some r"
    using assms(1) by (simp add: first_row_append r_def)
  from first_row_grown [OF c this] obtain r' where "first_row (\<lambda>r. ib_provider r = ev_provider event \<and>
      ib_provider_event_id r = ev_providerEventId event) (inbox db') = Some r'" "inbox_content r' = inbox_content r" by blast
  then show ?thesis by (simp add: applyVerifiedEvent_def inbox_content_def r_def)
qed

section \<open>One order, concretely\<close>

definition sample_order :: "OrderStatus \<Rightarrow> payment_order_row" where
  "sample_order st = \<lparr> po_id = ''o'', po_wallet_id = ''w'', po_account_id = ''a'', po_provider = SANDBOX,
     po_merchant_id = ''m'', po_credit = 10000, po_payable = 10000, po_discount = 10000,
     po_currency = ''CNY'', po_status = st, po_transaction = None, po_idempotency_key = ''i'' \<rparr>"

definition sample_db :: "OrderStatus \<Rightarrow> pay_db" where
  "sample_db st = \<lparr> accounts = [], enterprises = [], enterprise_members = [], audits = [], outbox = [],
     wallets = [empty_wallet ''w''], ledger = [], next_ledger = 1,
     orders = [sample_order st], inbox = [], reversals = [] \<rparr>"

definition sample_event :: "int \<Rightarrow> VerifiedPaymentEvent" where
  "sample_event amount = \<lparr> ev_provider = SANDBOX, ev_providerEventId = ''e'', ev_eventType = Event_PAID,
     ev_merchantId = ''m'', ev_internalOrderId = ''o'', ev_providerTransactionId = ''t'',
     ev_currency = ''CNY'', ev_amountCents = int_str amount \<rparr>"

lemma sample_inv: "st \<in> {Order_CREATED, Order_PENDING} \<Longrightarrow> pay_inv (sample_db st)"
  by (auto simp: pay_inv_def wallet_inv_def sample_db_def empty_wallet_def wallet_row_ok_def int64_def
      status_check_def running_def settled_posted_def settled_statuses_def core_inv_def order_core_def
      sample_order_def order_check_def reversals_of_def)

text \<open>
  A verified \<open>PAID\<close> event for the full amount of an open order is processed: the wallet gains
  exactly the order's credit, the order is paid with the channel's transaction number, and the
  answer reports the new balance.
\<close>

lemma paid_event_credits:
  assumes o1: "first_row (\<lambda>x. po_id x = ev_internalOrderId event) (orders db) = Some o1"
    and w: "first_row (\<lambda>x. wa_id x = po_wallet_id o1) (wallets db) = Some w"
    and new: "\<forall>r \<in> set (inbox db). ib_id r \<noteq> eventId \<and>
      (ib_provider r, ib_provider_event_id r) \<noteq> (ev_provider event, ev_providerEventId event)"
    and match: "po_provider o1 = ev_provider event" "po_merchant_id o1 = ev_merchantId event"
      "po_currency o1 = ev_currency event" "present (po_transaction o1) = None"
    and unused: "\<forall>x \<in> set (orders db). po_transaction x \<noteq> Some (ev_providerTransactionId event)"
    and paid: "ev_eventType event = Event_PAID" "ev_amountCents event = int_str (po_payable o1)"
    and open1: "po_status o1 \<in> {Order_CREATED, Order_PENDING}" "\<not> key_posted (po_wallet_id o1) (''payment-paid:'' @ po_id o1) db"
    and amount: "0 < po_credit o1" "int64 (po_credit o1)" "int64 (wa_balance_cents w + po_credit o1)"
    and ok: "list_all order_check (orders db)"
  shows "\<exists>db'. applyVerifiedEvent eventId event sha requestId db =
      Inr (\<lparr> pr_eventId = eventId, pr_orderId = Some (po_id o1), pr_status = Result_PROCESSED,
             pr_walletBalanceCents = Some (int_str (wa_balance_cents w + po_credit o1)) \<rparr>, db') \<and>
    balance_of (po_wallet_id o1) db' = balance_of (po_wallet_id o1) db + po_credit o1 \<and>
    orders db' = update_rows (\<lambda>x. po_id x = po_id o1)
      (\<lambda>r. r\<lparr>po_status := Order_PAID, po_transaction := Some (ev_providerTransactionId event)\<rparr>) (orders db)"
proof -
  define db0 where "db0 = db\<lparr>inbox := inbox db @ [\<lparr> ib_id = eventId, ib_provider = ev_provider event,
      ib_provider_event_id = ev_providerEventId event, ib_event_type = ev_eventType event,
      ib_transaction = ev_providerTransactionId event, ib_order_id = None, ib_sha256 = sha,
      ib_status = Inbox_RECEIVED, ib_failure = None \<rparr>]\<rparr>"
  let ?f = "\<lambda>r. r\<lparr>po_status := Order_PAID, po_transaction := Some (ev_providerTransactionId event)\<rparr>"
  define db1 where "db1 = post_db (paid_entry o1) w db0"
  define db2 where "db2 = db1\<lparr>orders := update_rows (\<lambda>x. po_id x = po_id o1) ?f (orders db1)\<rparr>"
  have id: "po_id o1 = ev_internalOrderId event" using first_row_SomeD [OF o1] by simp
  have "first_row (\<lambda>r. ib_provider r = ev_provider event \<and> ib_provider_event_id r = ev_providerEventId event) (inbox db) = None"
    using new by (auto simp: first_row_None_iff)
  then have "applyVerifiedEvent eventId event sha requestId db = settleEvent eventId event requestId db0"
    using new by (auto simp: applyVerifiedEvent_def db0_def)
  moreover have "settleEvent eventId event requestId db0 = applyPayment eventId o1 event requestId db0"
    using o1 match unused paid by (auto simp: settleEvent_def db0_def)
  moreover have ap: "appendWalletEntry (paid_entry o1) db0 = Inr (\<lparr> ledgerId = nat_str (next_ledger db0),
      ap_wallet = snapshot (booked (paid_entry o1) w), ap_duplicate = False \<rparr>, db1)"
    unfolding db1_def using w open1(2) amount
    by (subst append_first [where w = w]) (auto simp: db0_def key_posted_def paid_key_def reason_ok_def paid_entry_def)
  have "list_all order_check (update_rows (\<lambda>x. po_id x = po_id o1) ?f (orders db1))"
    using ok by (simp add: db1_def db0_def list_all_update_rows order_check_def)
  then have up: "update_order (po_id o1) ?f db1 = Inr db2" by (simp add: update_order_def db2_def)
  obtain r where "applyPayment eventId o1 event requestId db0 =
      Inr (\<lparr> pr_eventId = eventId, pr_orderId = Some (po_id o1), pr_status = Result_PROCESSED,
             pr_walletBalanceCents = Some (int_str (wa_balance_cents w + po_credit o1)) \<rparr>,
        audit r (update_inbox eventId (Some (po_id o1)) Inbox_PROCESSED None db2))"
    using paid(2) open1(1) by (auto simp: applyPayment_def ap up Let_def settled_statuses_def booked_def)
  moreover have "balance_of (po_wallet_id o1) (audit r (update_inbox eventId (Some (po_id o1)) Inbox_PROCESSED None db2))
      = balance_of (po_wallet_id o1) db + po_credit o1" for r
  proof -
    have "balance_of (po_wallet_id o1) db1 = balance_of (po_wallet_id o1) db + po_credit o1"
      using post_db_balance [of "paid_entry o1" db0 w "po_wallet_id o1"] w
      by (simp add: db1_def db0_def balance_of_def)
    then show ?thesis by (simp add: balance_of_def audit_def update_inbox_def db2_def)
  qed
  moreover have "orders (audit r (update_inbox eventId (Some (po_id o1)) Inbox_PROCESSED None db2))
      = update_rows (\<lambda>x. po_id x = po_id o1) ?f (orders db)" for r
    by (simp add: audit_def update_inbox_def db2_def db1_def db0_def)
  ultimately show ?thesis by auto
qed

theorem payments_conserve_money_witness:
  "\<exists>db' :: pay_db. pay_inv db' \<and>
    balance_of ''w'' db' = other_money ''w'' (sample_db Order_CREATED) +
      sum_list (map (net db') (filter (\<lambda>k. fst (snd k) = ''w'') (map order_core (orders db')))) \<and>
    (\<forall>o1 \<in> set (orders db'). 0 \<le> net db' (order_core o1) \<and> net db' (order_core o1) \<le> po_credit o1)"
  using payments_conserve_money [OF sample_inv, of Order_CREATED "markOrderPending ''o'' (sample_db Order_CREATED)" "''w''"]
    pay_step.pending [of "sample_db Order_CREATED" "''o''"] by blast

theorem redelivered_event_is_inert_witness:
  "\<exists>res (db1 :: pay_db) oid. applyVerifiedEvent ''n'' (sample_event 10000) [] ''r'' (sample_db Order_PENDING) = Inr (res, db1) \<and>
    applyVerifiedEvent ''n2'' (sample_event 10000) [] ''r2'' (markOrderPending ''o'' db1) =
    Inr (\<lparr> pr_eventId = ''n'', pr_orderId = oid, pr_status = Result_DUPLICATE,
           pr_walletBalanceCents = None \<rparr>, markOrderPending ''o'' db1)"
proof -
  have "\<exists>res db'. applyVerifiedEvent ''n'' (sample_event 10000) [] ''r'' (sample_db Order_PENDING) = Inr (res, db')"
    by (simp add: applyVerifiedEvent_def settleEvent_def applyPayment_def settled_statuses_def sample_db_def
        sample_order_def sample_event_def empty_wallet_def present_def appendWalletEntry_def lockWallet_def
        set_balance_def insert_ledger_def paid_entry_def int64_def status_check_def next_status_def
        update_order_def order_check_def)
  then obtain res and db1 :: pay_db
    where e: "applyVerifiedEvent ''n'' (sample_event 10000) [] ''r'' (sample_db Order_PENDING) = Inr (res, db1)" by blast
  have "first_row (\<lambda>r. ib_provider r = ev_provider (sample_event 10000) \<and>
      ib_provider_event_id r = ev_providerEventId (sample_event 10000)) (inbox (sample_db Order_PENDING)) = None"
    by (simp add: sample_db_def)
  moreover have "pay_step\<^sup>*\<^sup>* db1 (markOrderPending ''o'' db1)" by (rule r_into_rtranclp) (rule pay_step.pending)
  ultimately show ?thesis using redelivered_event_is_inert [OF _ e, of "markOrderPending ''o'' db1" "''n2''" "''r2''"] e by blast
qed





end
