(* ===== verification/PaymentService.thy ===== *)
theory PaymentService
  imports Payments
begin

text \<open>
  The service in front of the payment repository, \<open>src/modules/payments/service.ts\<close>: the
  providers a deployment has, orders, the local settlement adapters and raw callbacks. The
  cryptography, the JSON text codec and foreign providers are parameters. A service call is several
  transactions, so it returns the database it leaves behind also when it fails.
\<close>

section \<open>Parameters\<close>

datatype json = JNull | JBool bool | JNum string | JStr string | JArr "json list" | JObj "(string \<times> json) list"

type_synonym bytes = "nat list"

record platform =
  hmac_sha256 :: "bytes \<Rightarrow> bytes \<Rightarrow> bytes"
  sha256 :: "bytes \<Rightarrow> bytes"
  json_stringify :: "json \<Rightarrow> bytes"
  json_parse :: "bytes \<Rightarrow> json option"

text \<open>What is relied on: 32-byte digests of bytes, and that printed JSON of flat texts reads back.\<close>

definition platform_ok :: "platform \<Rightarrow> bool" where
  "platform_ok pf \<longleftrightarrow>
     (\<forall>k m. length (hmac_sha256 pf k m) = 32 \<and> list_all (\<lambda>b. b < 256) (hmac_sha256 pf k m)) \<and>
     (\<forall>kvs. json_parse pf (json_stringify pf (JObj (map (\<lambda>(k, v). (k, JStr v)) kvs))) =
        Some (JObj (map (\<lambda>(k, v). (k, JStr v)) kvs)))"

section \<open>Providers\<close>

datatype ProviderKind = SandboxPaymentProvider | TemporaryManualPaymentProvider | ForeignProvider

record PaymentProvider =
  pv_name :: PaymentProviderName
  pv_merchantId :: string
  pv_kind :: ProviderKind
  pv_signingSecret :: bytes
  verifyRawSignature :: "bytes \<Rightarrow> (string \<Rightarrow> string option) \<Rightarrow> bool"
  parseVerifiedEvent :: "bytes \<Rightarrow> VerifiedPaymentEvent result"
  provider_createOrder :: "string \<Rightarrow> string \<Rightarrow> (string \<times> json) list result"

definition hex_char_value :: "char \<Rightarrow> nat" where
  "hex_char_value c = (if is_digit c then digit_value c else of_char c - 87)"

fun unhex :: "string \<Rightarrow> bytes" where
  "unhex (a # b # s) = (hex_char_value a * 16 + hex_char_value b) # unhex s"
| "unhex _ = []"

definition is_hex_char :: "char \<Rightarrow> bool" where
  "is_hex_char c \<longleftrightarrow> is_digit c \<or> 97 \<le> (of_char c :: nat) \<and> (of_char c :: nat) \<le> 102"

definition local_verify :: "platform \<Rightarrow> bytes \<Rightarrow> bytes \<Rightarrow> (string \<Rightarrow> string option) \<Rightarrow> bool" where
  "local_verify pf secret rawBody headers =
     (case headers ''x-sandbox-signature'' of
        None \<Rightarrow> False
      | Some signature \<Rightarrow>
          length signature = 64 \<and> list_all is_hex_char signature \<and>
          (let expected = hmac_sha256 pf secret rawBody; actual = unhex signature
           in length actual = length expected \<and> actual = expected))"

fun obj_get :: "string \<Rightarrow> (string \<times> json) list \<Rightarrow> json option" where
  "obj_get k [] = None"
| "obj_get k ((k', v) # kvs) = (case obj_get k kvs of Some w \<Rightarrow> Some w | None \<Rightarrow> if k = k' then Some v else None)"

definition event_type_of :: "string \<Rightarrow> PaymentEventType option" where
  "event_type_of s = (if s = ''PAID'' then Some Event_PAID else if s = ''REFUND'' then Some Event_REFUND
     else if s = ''REVERSAL'' then Some Event_REVERSAL else if s = ''CHARGEBACK'' then Some Event_CHARGEBACK
     else None)"

definition text_field :: "(string \<times> json) list \<Rightarrow> string \<Rightarrow> string result" where
  "text_field kvs k = (case obj_get k kvs of
       Some (JStr s) \<Rightarrow> if s = [] then Inl (PlainError (''invalid '' @ k)) else Inr s
     | _ \<Rightarrow> Inl (PlainError (''invalid '' @ k)))"

text \<open>
  \<open>/^[1-9][0-9]*$/\<close> on the amount. An \<open>eventType\<close> that is no text is refused here; the code would
  let an array of one such text through to the table, whose constraint refuses it.
\<close>

definition local_parse :: "platform \<Rightarrow> bytes \<Rightarrow> VerifiedPaymentEvent result" where
  "local_parse pf rawBody =
     (case json_parse pf rawBody of
        None \<Rightarrow> Inl (JsError ''SyntaxError'')
      | Some (JObj kvs) \<Rightarrow>
          (case (case obj_get ''eventType'' kvs of Some (JStr t) \<Rightarrow> event_type_of t | _ \<Rightarrow> None) of
             None \<Rightarrow> Inl (PlainError ''invalid event type'')
           | Some eventType \<Rightarrow>
             bindE (text_field kvs ''providerEventId'') (\<lambda>providerEventId.
             bindE (text_field kvs ''merchantId'') (\<lambda>merchantId.
             bindE (text_field kvs ''internalOrderId'') (\<lambda>internalOrderId.
             bindE (text_field kvs ''providerTransactionId'') (\<lambda>providerTransactionId.
             bindE (text_field kvs ''amountCents'') (\<lambda>amountCents.
             if obj_get ''currency'' kvs \<noteq> Some (JStr ''CNY'')
                \<or> \<not> (amountCents \<noteq> [] \<and> list_all is_digit amountCents \<and> hd amountCents \<noteq> CHR ''0'')
             then Inl (PlainError ''invalid amount'')
             else Inr \<lparr> ev_provider = SANDBOX, ev_providerEventId = providerEventId, ev_eventType = eventType,
                  ev_merchantId = merchantId, ev_internalOrderId = internalOrderId,
                  ev_providerTransactionId = providerTransactionId, ev_currency = ''CNY'',
                  ev_amountCents = amountCents \<rparr>))))))
      | Some (JArr _) \<Rightarrow> Inl (PlainError ''invalid event type'')
      | Some _ \<Rightarrow> Inl (PlainError ''invalid callback''))"

definition local_createOrder :: "ProviderKind \<Rightarrow> string \<Rightarrow> string \<Rightarrow> string \<Rightarrow> (string \<times> json) list result" where
  "local_createOrder kind merchantId orderId payable =
     Inr ((if kind = SandboxPaymentProvider then (''sandbox'', JBool True) else (''temporaryManual'', JBool True))
       # [(''internalOrderId'', JStr orderId), (''payableAmountCents'', JStr payable),
          (''currency'', JStr ''CNY''), (''merchantId'', JStr merchantId)])"

definition sign :: "platform \<Rightarrow> bytes \<Rightarrow> bytes \<Rightarrow> string" where
  "sign pf secret rawBody = hex (hmac_sha256 pf secret rawBody)"

definition paidCallback_json :: "ProviderKind \<Rightarrow> string \<Rightarrow> string \<Rightarrow> string \<Rightarrow> json" where
  "paidCallback_json kind merchantId orderId payable =
     (let prefix = (if kind = SandboxPaymentProvider then ''sandbox'' else ''temporary-manual'') in
      JObj (map (\<lambda>(k, v). (k, JStr v))
        [(''providerEventId'', prefix @ ''-paid:'' @ orderId), (''eventType'', ''PAID''),
         (''merchantId'', merchantId), (''internalOrderId'', orderId),
         (''providerTransactionId'', prefix @ ''-transaction:'' @ orderId),
         (''currency'', ''CNY''), (''amountCents'', payable)]))"

definition paidCallback ::
    "platform \<Rightarrow> PaymentProvider \<Rightarrow> string \<Rightarrow> string \<Rightarrow> bytes \<times> (string \<Rightarrow> string option)" where
  "paidCallback pf p orderId payable =
     (let rawBody = json_stringify pf (paidCallback_json (pv_kind p) (pv_merchantId p) orderId payable)
      in (rawBody, [''x-sandbox-signature'' \<mapsto> sign pf (pv_signingSecret p) rawBody]))"

text \<open>The constructors: production refuses the sandbox.\<close>

definition local_provider ::
    "platform \<Rightarrow> bool \<Rightarrow> ProviderKind \<Rightarrow> string \<Rightarrow> bytes \<Rightarrow> PaymentProvider result" where
  "local_provider pf production kind merchantId secret =
     (if production \<and> kind \<noteq> TemporaryManualPaymentProvider then Inl (PlainError ''SANDBOX_IN_PRODUCTION'')
      else Inr \<lparr> pv_name = SANDBOX, pv_merchantId = merchantId, pv_kind = kind, pv_signingSecret = secret,
           verifyRawSignature = local_verify pf secret, parseVerifiedEvent = local_parse pf,
           provider_createOrder = local_createOrder kind merchantId \<rparr>)"

section \<open>The service\<close>

text \<open>\<open>new Map(providers.map(p => [p.name, p]))\<close>: the last provider of a name is the one that counts.\<close>

definition find_provider :: "PaymentProvider list \<Rightarrow> PaymentProviderName \<Rightarrow> PaymentProvider option" where
  "find_provider ps n = first_row (\<lambda>p. pv_name p = n) (rev ps)"

record OrderPlaced =
  op_orderId :: string
  op_paid :: bool
  op_quote :: top_up_quote
  op_payload :: "(string \<times> json) list"
  op_duplicate :: bool

definition service_createOrder ::
    "PaymentProvider list \<Rightarrow> string \<Rightarrow> string \<Rightarrow> string \<Rightarrow> PaymentProviderName \<Rightarrow> string \<Rightarrow> string
     \<Rightarrow> 'z pay_db_scheme \<Rightarrow> OrderPlaced result \<times> 'z pay_db_scheme" where
  "service_createOrder ps newId wid accountId name creditAmountCents idempotencyKey db =
     (case find_provider ps name of
        None \<Rightarrow> (Inl (AppError ''PAYMENT_PROVIDER_DISABLED'' 503 None), db)
      | Some p \<Rightarrow>
      case quoteTopUp creditAmountCents of
        Inl e \<Rightarrow> (Inl e, db)
      | Inr quote \<Rightarrow>
      case createOrder newId
          \<lparr> co_walletId = wid, co_accountId = accountId, co_provider = name, co_merchantId = pv_merchantId p,
            co_creditAmountCents = quote_credit quote, co_payableAmountCents = quote_payable quote,
            co_discountBasisPoints = quote_discount quote, co_idempotencyKey = idempotencyKey \<rparr> db of
        Inl e \<Rightarrow> (Inl e, db)
      | Inr (order, db1) \<Rightarrow>
      if oc_status order = Order_PAID
      then (Inr \<lparr> op_orderId = oc_id order, op_paid = True, op_quote = quote, op_payload = [],
                  op_duplicate = oc_duplicate order \<rparr>, db1)
      else case provider_createOrder p (oc_id order) (quote_payable quote) of
          Inl e \<Rightarrow> (Inl e, db1)
        | Inr payload \<Rightarrow>
            (Inr \<lparr> op_orderId = oc_id order, op_paid = False, op_quote = quote, op_payload = payload,
                   op_duplicate = oc_duplicate order \<rparr>, markOrderPending (oc_id order) db1))"

definition handleRawCallback ::
    "platform \<Rightarrow> PaymentProvider list \<Rightarrow> string \<Rightarrow> PaymentProviderName \<Rightarrow> bytes \<Rightarrow> (string \<Rightarrow> string option) \<Rightarrow> string
     \<Rightarrow> 'z pay_db_scheme \<Rightarrow> (PaymentEventResult \<times> 'z pay_db_scheme) result" where
  "handleRawCallback pf ps eventId name rawBody headers requestId db =
     (case find_provider ps name of
        None \<Rightarrow> Inl (CallbackError ''PROVIDER_DISABLED'' 404)
      | Some p \<Rightarrow>
          if \<not> verifyRawSignature p rawBody headers then Inl (CallbackError ''SIGNATURE_INVALID'' 401)
          else case parseVerifiedEvent p rawBody of
              Inl _ \<Rightarrow> Inl (CallbackError ''PAYLOAD_INVALID'' 400)
            | Inr event \<Rightarrow>
                if ev_provider event \<noteq> name \<or> ev_merchantId event \<noteq> pv_merchantId p
                then Inl (CallbackError ''MERCHANT_MISMATCH'' 400)
                else applyVerifiedEvent eventId event (sha256 pf rawBody) requestId db)"

record RechargeResult =
  rr_orderId :: string
  rr_paid :: bool
  rr_quote :: top_up_quote
  rr_walletBalanceCents :: "string option"

definition createLocalRecharge ::
    "platform \<Rightarrow> PaymentProvider list \<Rightarrow> ProviderKind \<Rightarrow> string \<Rightarrow> string \<Rightarrow> string \<Rightarrow> string \<Rightarrow> string \<Rightarrow> string
     \<Rightarrow> string \<Rightarrow> 'z pay_db_scheme \<Rightarrow> RechargeResult result \<times> 'z pay_db_scheme" where
  "createLocalRecharge pf ps mode newId eventId wid accountId creditAmountCents idempotencyKey requestId db =
     (case find_provider ps SANDBOX of
        None \<Rightarrow> (Inl (AppError (if mode = SandboxPaymentProvider then ''PAYMENT_SANDBOX_DISABLED''
                                 else ''PAYMENT_MANUAL_DISABLED'') 503 None), db)
      | Some p \<Rightarrow>
      if pv_kind p \<noteq> mode
      then (Inl (AppError (if mode = SandboxPaymentProvider then ''PAYMENT_SANDBOX_DISABLED''
                           else ''PAYMENT_MANUAL_DISABLED'') 503 None), db)
      else case service_createOrder ps newId wid accountId SANDBOX creditAmountCents idempotencyKey db of
          (Inl e, db1) \<Rightarrow> (Inl e, db1)
        | (Inr created, db1) \<Rightarrow>
          if op_paid created
          then (Inr \<lparr> rr_orderId = op_orderId created, rr_paid = True, rr_quote = op_quote created,
                      rr_walletBalanceCents = None \<rparr>, db1)
          else let (rawBody, headers) = paidCallback pf p (op_orderId created) (quote_payable (op_quote created)) in
            case handleRawCallback pf ps eventId SANDBOX rawBody headers requestId db1 of
              Inl e \<Rightarrow> (Inl e, db1)
            | Inr (settled, db2) \<Rightarrow>
                (Inr \<lparr> rr_orderId = op_orderId created,
                       rr_paid = (pr_status settled = Result_PROCESSED \<or> pr_status settled = Result_DUPLICATE),
                       rr_quote = op_quote created, rr_walletBalanceCents = pr_walletBalanceCents settled \<rparr>, db2))"

definition createSandboxRecharge where
  "createSandboxRecharge pf ps = createLocalRecharge pf ps SandboxPaymentProvider"

definition createTemporaryManualRecharge where
  "createTemporaryManualRecharge pf ps = createLocalRecharge pf ps TemporaryManualPaymentProvider"

lemmas [code_defs] = hex_char_value_def is_hex_char_def local_verify_def event_type_of_def text_field_def
  local_parse_def local_createOrder_def sign_def paidCallback_json_def paidCallback_def local_provider_def
  find_provider_def service_createOrder_def handleRawCallback_def createLocalRecharge_def
  createSandboxRecharge_def createTemporaryManualRecharge_def

section \<open>A signed callback is accepted\<close>

lemma hex_digit_value:
  assumes "n < 16"
  shows "hex_char_value (''0123456789abcdef'' ! n) = n" and "is_hex_char (''0123456789abcdef'' ! n)"
proof -
  have "n \<in> set [0 ..< 16]" using assms by simp
  moreover have "list_all (\<lambda>m. hex_char_value (''0123456789abcdef'' ! m) = m \<and> is_hex_char (''0123456789abcdef'' ! m)) [0 ..< 16]"
    by (simp add: upt_rec hex_char_value_def is_hex_char_def is_digit_def digit_value_def)
  ultimately show "hex_char_value (''0123456789abcdef'' ! n) = n" "is_hex_char (''0123456789abcdef'' ! n)"
    by (simp_all only: list_all_iff)
qed

lemma unhex_hex: "list_all (\<lambda>b. b < 256) bs \<Longrightarrow> unhex (hex bs) = bs"
  by (induction bs) (auto simp: hex_def hex_digit_value less_mult_imp_div_less)

lemma hex_shape: "length (hex bs) = 2 * length bs" "list_all is_hex_char (hex bs)"
  by (induction bs) (auto simp: hex_def hex_digit_value)

lemma sign_verifies:
  assumes "platform_ok pf"
  shows "local_verify pf secret rawBody [''x-sandbox-signature'' \<mapsto> sign pf secret rawBody]"
  using assms hex_shape [of "hmac_sha256 pf secret rawBody"]
  by (simp add: local_verify_def sign_def platform_ok_def unhex_hex)

text \<open>An order settled through a local provider, as the service sees it.\<close>

definition paid_event :: "ProviderKind \<Rightarrow> string \<Rightarrow> string \<Rightarrow> string \<Rightarrow> VerifiedPaymentEvent" where
  "paid_event kind merchantId orderId payable =
     (let prefix = (if kind = SandboxPaymentProvider then ''sandbox'' else ''temporary-manual'') in
      \<lparr> ev_provider = SANDBOX, ev_providerEventId = prefix @ ''-paid:'' @ orderId, ev_eventType = Event_PAID,
        ev_merchantId = merchantId, ev_internalOrderId = orderId,
        ev_providerTransactionId = prefix @ ''-transaction:'' @ orderId, ev_currency = ''CNY'',
        ev_amountCents = payable \<rparr>)"

lemma nat_str_amount: "0 < n \<Longrightarrow> nat_str n \<noteq> [] \<and> list_all is_digit (nat_str n) \<and> hd (nat_str n) \<noteq> CHR ''0''"
  using nat_str_hd [of n] nat_str_digits [of n] by (simp add: list_all_iff)

lemma local_callback_parses:
  assumes "platform_ok pf" and "merchantId \<noteq> []" and "orderId \<noteq> []" and "0 < amount"
  shows "local_parse pf (json_stringify pf (paidCallback_json kind merchantId orderId (int_str amount))) =
    Inr (paid_event kind merchantId orderId (int_str amount))"
proof -
  have "int_str amount = nat_str (nat amount)" using assms(4) by (simp add: int_str_def)
  then have a: "int_str amount \<noteq> []" "list_all is_digit (int_str amount)" "hd (int_str amount) \<noteq> CHR ''0''"
    using nat_str_amount [of "nat amount"] assms(4) by simp_all
  have "json_parse pf (json_stringify pf (paidCallback_json kind merchantId orderId (int_str amount))) =
      Some (paidCallback_json kind merchantId orderId (int_str amount))"
    using assms(1) unfolding platform_ok_def paidCallback_json_def Let_def by blast
  then show ?thesis using assms(2,3) a
    by (simp add: local_parse_def paidCallback_json_def Let_def text_field_def event_type_of_def paid_event_def)
qed

section \<open>A recharge settles once\<close>

lemma pg_bigint_int_str: "int64 x \<Longrightarrow> pg_bigint (int_str x) = Inr x"
proof -
  assume x: "int64 x"
  have d: "list_all is_digit (nat_str n)" for n using nat_str_digits [of n] by (simp add: list_all_iff)
  show ?thesis
  proof (cases "x < 0")
    case True
    have "trim (int_str x) = int_str x"
      using d [of "nat (- x)"] True
      by (intro trim_no_space) (auto simp: int_str_def list_all_iff is_space_minus dest: is_digit_not_space)
    then show ?thesis using True x d by (simp add: pg_bigint_def int_str_def)
  next
    case False
    have t: "trim (int_str x) = int_str x"
      using d [of "nat x"] False
      by (intro trim_no_space) (auto simp: int_str_def list_all_iff dest: is_digit_not_space)
    obtain c u where c: "nat_str (nat x) = c # u" by (cases "nat_str (nat x)") auto
    then have dc: "is_digit c" "list_all is_digit u" using d [of "nat x"] by simp_all
    have v: "int (digits_value (c # u)) = x" using False nat_str_value [of "nat x"] by (simp add: c)
    have s: "int_str x = c # u" using False c by (simp add: int_str_def)
    show ?thesis
      unfolding pg_bigint_def t unfolding s Let_def using dc digit_neq(1,2) [OF dc(1)] v x by simp
  qed
qed

definition order_key_unused :: "string \<Rightarrow> string \<Rightarrow> string \<Rightarrow> 'z pay_db_scheme \<Rightarrow> bool" where
  "order_key_unused wid aid key db \<longleftrightarrow>
     (\<forall>x \<in> set (orders db). \<not> (po_wallet_id x = wid \<and> po_account_id x = aid \<and> po_idempotency_key x = key))"

definition new_order :: "string \<Rightarrow> string \<Rightarrow> string \<Rightarrow> string \<Rightarrow> int \<Rightarrow> string \<Rightarrow> payment_order_row" where
  "new_order oid wid aid merchant c key =
     \<lparr> po_id = oid, po_wallet_id = wid, po_account_id = aid, po_provider = SANDBOX, po_merchant_id = merchant,
       po_credit = c, po_payable = c, po_discount = 10000, po_currency = ''CNY'', po_status = Order_CREATED,
       po_transaction = None, po_idempotency_key = key \<rparr>"

lemma quoteTopUp_ok: "10000 \<le> c \<Longrightarrow> quoteTopUp (int_str c) =
    Inr \<lparr> quote_credit = int_str c, quote_payable = int_str c, quote_discount = ''10000'' \<rparr>"
  by (simp add: quoteTopUp_def)

lemma int_str_10000: "int_str 10000 = ''10000''"
proof -
  have "nat_str (digits_value ''10000'') = ''10000''"
    by (rule nat_str_digits_value) (simp add: canonical_nat_def is_digit_def)
  moreover have "digits_value ''10000'' = 10000" by (simp add: digits_value_def digit_value_def)
  ultimately show ?thesis by (simp add: int_str_def)
qed

lemma order_placed:
  assumes p: "find_provider ps SANDBOX = Some p" "provider_createOrder p = local_createOrder kind (pv_merchantId p)"
    and c: "10000 \<le> c" "int64 c" and w: "first_row (\<lambda>x. wa_id x = wid) (wallets db) = Some w"
    and key: "order_key_unused wid aid key db" and new: "\<forall>x \<in> set (orders db). po_id x \<noteq> newId"
  shows "\<exists>payload. service_createOrder ps newId wid aid SANDBOX (int_str c) key db =
    (Inr \<lparr> op_orderId = newId, op_paid = False,
           op_quote = \<lparr> quote_credit = int_str c, quote_payable = int_str c, quote_discount = ''10000'' \<rparr>,
           op_payload = payload, op_duplicate = False \<rparr>,
     db\<lparr>orders := orders db @ [(new_order newId wid aid (pv_merchantId p) c key)\<lparr>po_status := Order_PENDING\<rparr>]\<rparr>)"
proof -
  let ?o = "new_order newId wid aid (pv_merchantId p) c key"
  have none: "first_row (\<lambda>o1. po_wallet_id o1 = wid \<and> po_account_id o1 = aid \<and> po_idempotency_key o1 = key) (orders db) = None"
    using key by (auto simp: first_row_None_iff order_key_unused_def)
  have d: "pg_bigint ''10000'' = Inr 10000"
    using pg_bigint_int_str [of 10000] by (simp add: int64_def int_str_10000)
  have ins: "insert_order ?o db = Inr (db\<lparr>orders := orders db @ [?o]\<rparr>)"
    using c w new key
    by (auto simp: insert_order_def new_order_def order_check_def order_key_unused_def)
  have up: "update_rows (\<lambda>o1. po_id o1 = newId \<and> po_status o1 = Order_CREATED) f (orders db) = orders db" for f
    using new by (intro update_rows_id) auto
  have "createOrder newId
      \<lparr> co_walletId = wid, co_accountId = aid, co_provider = SANDBOX, co_merchantId = pv_merchantId p,
        co_creditAmountCents = int_str c, co_payableAmountCents = int_str c,
        co_discountBasisPoints = ''10000'', co_idempotencyKey = key \<rparr> db =
      Inr (\<lparr> oc_id = newId, oc_status = Order_CREATED, oc_duplicate = False \<rparr>, db\<lparr>orders := orders db @ [?o]\<rparr>)"
    using none ins by (simp add: createOrder_def pg_bigint_int_str c d new_order_def)
  then show ?thesis
    using p c up by (simp add: service_createOrder_def quoteTopUp_ok local_createOrder_def markOrderPending_def new_order_def)
qed

lemma order_replayed:
  assumes p: "find_provider ps SANDBOX = Some p" and c: "10000 \<le> c"
    and o1: "first_row (\<lambda>o1. po_wallet_id o1 = wid \<and> po_account_id o1 = aid \<and> po_idempotency_key o1 = key) (orders db) = Some o1"
    and same: "po_provider o1 = SANDBOX" "po_merchant_id o1 = pv_merchantId p" "po_credit o1 = c" "po_payable o1 = c"
      "po_discount o1 = 10000" "po_status o1 = Order_PAID"
  shows "createLocalRecharge pf ps (pv_kind p) newId eventId wid aid (int_str c) key requestId db =
    (Inr \<lparr> rr_orderId = po_id o1, rr_paid = True,
           rr_quote = \<lparr> quote_credit = int_str c, quote_payable = int_str c, quote_discount = ''10000'' \<rparr>,
           rr_walletBalanceCents = None \<rparr>, db)"
  using assms by (simp add: createLocalRecharge_def service_createOrder_def quoteTopUp_ok createOrder_def int_str_10000)

text \<open>
  C20: a recharge through the local provider settles, and settles once. On a sound state, with
  fresh identifiers and an unused key, the wallet gains exactly the amount and the answer reports
  the new balance; the same request again, with whatever identifiers are drawn for it, is answered
  as paid and changes nothing.
\<close>

theorem recharge_settles_once:
  assumes pf: "platform_ok pf" and p: "local_provider pf production kind merchant secret = Inr p"
    and m: "merchant \<noteq> []" and inv: "pay_inv db"
    and w: "first_row (\<lambda>x. wa_id x = wid) (wallets db) = Some w"
    and key: "order_key_unused wid aid key db" and new: "newId \<noteq> []" "\<forall>x \<in> set (orders db). po_id x \<noteq> newId"
    and ev: "\<forall>r \<in> set (inbox db). ib_id r \<noteq> eventId \<and>
      ib_provider_event_id r \<noteq> ev_providerEventId (paid_event kind merchant newId (int_str c))"
    and txn: "\<forall>x \<in> set (orders db). po_transaction x \<noteq>
      Some (ev_providerTransactionId (paid_event kind merchant newId (int_str c)))"
    and c: "10000 \<le> c" "int64 c" "int64 (wa_balance_cents w + c)"
  shows "\<exists>db'. createLocalRecharge pf [p] kind newId eventId wid aid (int_str c) key requestId db =
      (Inr \<lparr> rr_orderId = newId, rr_paid = True,
             rr_quote = \<lparr> quote_credit = int_str c, quote_payable = int_str c, quote_discount = ''10000'' \<rparr>,
             rr_walletBalanceCents = Some (int_str (wa_balance_cents w + c)) \<rparr>, db') \<and>
    balance_of wid db' = balance_of wid db + c \<and>
    createLocalRecharge pf [p] kind newId2 eventId2 wid aid (int_str c) key requestId2 db' =
      (Inr \<lparr> rr_orderId = newId, rr_paid = True,
             rr_quote = \<lparr> quote_credit = int_str c, quote_payable = int_str c, quote_discount = ''10000'' \<rparr>,
             rr_walletBalanceCents = None \<rparr>, db')"
proof -
  let ?o = "(new_order newId wid aid merchant c key)\<lparr>po_status := Order_PENDING\<rparr>"
  let ?ev = "paid_event kind merchant newId (int_str c)"
  let ?db1 = "db\<lparr>orders := orders db @ [?o]\<rparr>"
  have pv: "pv_name p = SANDBOX" "pv_merchantId p = merchant" "pv_kind p = kind" "pv_signingSecret p = secret"
    "verifyRawSignature p = local_verify pf secret" "parseVerifiedEvent p = local_parse pf"
    "provider_createOrder p = local_createOrder kind merchant"
    using p by (auto simp: local_provider_def split: if_splits)
  have find: "find_provider [p] SANDBOX = Some p" by (simp add: find_provider_def pv)
  obtain payload where placed: "service_createOrder [p] newId wid aid SANDBOX (int_str c) key db =
    (Inr \<lparr> op_orderId = newId, op_paid = False,
           op_quote = \<lparr> quote_credit = int_str c, quote_payable = int_str c, quote_discount = ''10000'' \<rparr>,
           op_payload = payload, op_duplicate = False \<rparr>, ?db1)"
    using order_placed [OF find _ c(1,2) w key new(2), of kind] by (auto simp: pv)
  define raw where "raw = json_stringify pf (paidCallback_json kind merchant newId (int_str c))"
  have parse: "local_parse pf raw = Inr ?ev"
    unfolding raw_def using local_callback_parses [OF pf m new(1)] c by simp
  have sig: "local_verify pf secret raw [''x-sandbox-signature'' \<mapsto> sign pf secret raw]"
    by (rule sign_verifies [OF pf])
  have handled: "handleRawCallback pf [p] eventId SANDBOX raw [''x-sandbox-signature'' \<mapsto> sign pf secret raw] requestId ?db1
      = applyVerifiedEvent eventId ?ev (sha256 pf raw) requestId ?db1"
    using sig parse by (simp add: handleRawCallback_def find pv paid_event_def Let_def)
  have core: "core_inv (ledger db) (reversals db) (map order_core (orders db)) (map inbox_core (inbox db))"
    by (rule pay_inv_core [OF inv])
  have "newId \<notin> fst ` set (map order_core (orders db))" using new(2) by (force simp: order_core_def)
  then have unposted: "\<not> key_posted wid (paid_key newId) db"
    using core_inv_unknown [OF core] by (auto simp: key_posted_def)
  have "\<exists>db'. applyVerifiedEvent eventId ?ev (sha256 pf raw) requestId ?db1 =
      Inr (\<lparr> pr_eventId = eventId, pr_orderId = Some (po_id ?o), pr_status = Result_PROCESSED,
             pr_walletBalanceCents = Some (int_str (wa_balance_cents w + po_credit ?o)) \<rparr>, db') \<and>
    balance_of (po_wallet_id ?o) db' = balance_of (po_wallet_id ?o) ?db1 + po_credit ?o \<and>
    orders db' = update_rows (\<lambda>x. po_id x = po_id ?o)
      (\<lambda>r. r\<lparr>po_status := Order_PAID, po_transaction := Some (ev_providerTransactionId ?ev)\<rparr>) (orders ?db1)"
  proof (rule paid_event_credits)
    have "first_row (\<lambda>x. po_id x = newId) (orders db) = None" using new(2) by (simp add: first_row_None_iff)
    then show "first_row (\<lambda>x. po_id x = ev_internalOrderId ?ev) (orders ?db1) = Some ?o"
      by (simp add: first_row_append paid_event_def Let_def new_order_def)
    show "\<not> key_posted (po_wallet_id ?o) (''payment-paid:'' @ po_id ?o) ?db1"
      using unposted by (simp add: key_posted_def paid_key_def new_order_def)
    show "list_all order_check (orders ?db1)"
      using inv by (simp add: pay_inv_def order_check_def new_order_def)
    show "first_row (\<lambda>x. wa_id x = po_wallet_id ?o) (wallets ?db1) = Some w"
      using w by (simp add: new_order_def)
  qed (use ev txn c in \<open>auto simp: paid_event_def Let_def new_order_def present_def\<close>)
  then obtain db' where ap: "applyVerifiedEvent eventId ?ev (sha256 pf raw) requestId ?db1 =
      Inr (\<lparr> pr_eventId = eventId, pr_orderId = Some newId, pr_status = Result_PROCESSED,
             pr_walletBalanceCents = Some (int_str (wa_balance_cents w + c)) \<rparr>, db')"
    and bal: "balance_of wid db' = balance_of wid db + c"
    and os: "orders db' = update_rows (\<lambda>x. po_id x = newId)
      (\<lambda>r. r\<lparr>po_status := Order_PAID, po_transaction := Some (ev_providerTransactionId ?ev)\<rparr>) (orders db @ [?o])"
    by (auto simp: new_order_def balance_of_def)
  have "createLocalRecharge pf [p] kind newId eventId wid aid (int_str c) key requestId db =
      (Inr \<lparr> rr_orderId = newId, rr_paid = True,
             rr_quote = \<lparr> quote_credit = int_str c, quote_payable = int_str c, quote_discount = ''10000'' \<rparr>,
             rr_walletBalanceCents = Some (int_str (wa_balance_cents w + c)) \<rparr>, db')"
    using placed handled ap
    by (simp add: createLocalRecharge_def find pv paidCallback_def Let_def flip: raw_def)
  moreover have "first_row (\<lambda>o1. po_wallet_id o1 = wid \<and> po_account_id o1 = aid \<and> po_idempotency_key o1 = key) (orders db')
      = Some (?o\<lparr>po_status := Order_PAID, po_transaction := Some (ev_providerTransactionId ?ev)\<rparr>)"
  proof -
    have "first_row (\<lambda>o1. po_wallet_id o1 = wid \<and> po_account_id o1 = aid \<and> po_idempotency_key o1 = key) (orders db) = None"
      using key by (auto simp: first_row_None_iff order_key_unused_def)
    then show ?thesis
      unfolding os by (subst first_row_update_rows) (auto simp: first_row_append new_order_def)
  qed
  from order_replayed [OF find c(1) this, of pf newId2 eventId2 requestId2]
  have "createLocalRecharge pf [p] kind newId2 eventId2 wid aid (int_str c) key requestId2 db' =
      (Inr \<lparr> rr_orderId = newId, rr_paid = True,
             rr_quote = \<lparr> quote_credit = int_str c, quote_payable = int_str c, quote_discount = ''10000'' \<rparr>,
             rr_walletBalanceCents = None \<rparr>, db')"
    by (simp add: new_order_def pv)
  ultimately show ?thesis using bal by blast
qed

section \<open>A platform that meets the assumptions\<close>

definition codes :: "string \<Rightarrow> bytes" where
  "codes s = length s # map of_char s"

fun print_flat :: "(string \<times> string) list \<Rightarrow> bytes" where
  "print_flat [] = []"
| "print_flat ((k, v) # kvs) = codes k @ codes v @ print_flat kvs"

fun read_text :: "bytes \<Rightarrow> string \<times> bytes" where
  "read_text [] = ([], [])"
| "read_text (n # bs) = (map char_of (take n bs), drop n bs)"

fun read_flat :: "nat \<Rightarrow> bytes \<Rightarrow> (string \<times> string) list" where
  "read_flat 0 bs = []"
| "read_flat (Suc f) [] = []"
| "read_flat (Suc f) bs = (let (k, r) = read_text bs; (v, r') = read_text r in (k, v) # read_flat f r')"

fun text_of :: "json \<Rightarrow> string" where
  "text_of (JStr s) = s"
| "text_of _ = []"

fun flat_of :: "json \<Rightarrow> (string \<times> string) list" where
  "flat_of (JObj kvs) = map (\<lambda>(k, v). (k, text_of v)) kvs"
| "flat_of _ = []"

definition demo_platform :: platform where
  "demo_platform = \<lparr> hmac_sha256 = (\<lambda>_ _. replicate 32 7), sha256 = (\<lambda>_. replicate 32 9),
     json_stringify = (\<lambda>v. print_flat (flat_of v)),
     json_parse = (\<lambda>bs. Some (JObj (map (\<lambda>(k, v). (k, JStr v)) (read_flat (length bs) bs)))) \<rparr>"

lemma read_text_codes: "read_text (codes s @ bs) = (s, bs)"
  by (simp add: codes_def comp_def)

lemma read_flat_print: "length (print_flat kvs) \<le> f \<Longrightarrow> read_flat f (print_flat kvs) = kvs"
proof (induction kvs arbitrary: f)
  case Nil
  then show ?case by (cases f) simp_all
next
  case (Cons kv kvs)
  obtain k v where kv: "kv = (k, v)" by (cases kv)
  obtain g where f: "f = Suc g" using Cons.prems by (cases f) (auto simp: kv codes_def)
  have "length (print_flat kvs) \<le> g" using Cons.prems by (simp add: kv f codes_def)
  then have "read_flat g (print_flat kvs) = kvs" by (rule Cons.IH)
  moreover obtain b bs where "codes k @ codes v @ print_flat kvs = b # bs" by (simp add: codes_def)
  ultimately show ?case
    using read_text_codes [of k "codes v @ print_flat kvs"] read_text_codes [of v "print_flat kvs"]
    by (simp add: kv f)
qed

lemma demo_platform_ok: "platform_ok demo_platform"
proof -
  have "map ((\<lambda>(k, v). (k, text_of v)) \<circ> (\<lambda>(k, v). (k, JStr v))) kvs = kvs" for kvs
    by (induction kvs) auto
  then show ?thesis
    by (auto simp: platform_ok_def demo_platform_def read_flat_print list_all_iff set_replicate_conv_if)
qed

theorem recharge_settles_once_witness:
  "\<exists>db' :: pay_db. createLocalRecharge demo_platform
      [\<lparr> pv_name = SANDBOX, pv_merchantId = ''m'', pv_kind = TemporaryManualPaymentProvider, pv_signingSecret = [],
         verifyRawSignature = local_verify demo_platform [], parseVerifiedEvent = local_parse demo_platform,
         provider_createOrder = local_createOrder TemporaryManualPaymentProvider ''m'' \<rparr>]
      TemporaryManualPaymentProvider ''n'' ''e'' ''w'' ''a'' (int_str 25000) ''k'' ''r''
      ((sample_db Order_CREATED)\<lparr>orders := []\<rparr>) =
      (Inr \<lparr> rr_orderId = ''n'', rr_paid = True,
             rr_quote = \<lparr> quote_credit = int_str 25000, quote_payable = int_str 25000, quote_discount = ''10000'' \<rparr>,
             rr_walletBalanceCents = Some (int_str (0 + 25000)) \<rparr>, db') \<and>
    balance_of ''w'' db' = balance_of ''w'' ((sample_db Order_CREATED)\<lparr>orders := []\<rparr>) + 25000"
proof -
  have inv: "pay_inv ((sample_db Order_CREATED)\<lparr>orders := []\<rparr>)"
    by (simp add: pay_inv_def wallet_inv_def sample_db_def empty_wallet_def wallet_row_ok_def int64_def
        status_check_def running_def settled_posted_def core_inv_def)
  show ?thesis
    using recharge_settles_once [OF demo_platform_ok _ _ inv, of True TemporaryManualPaymentProvider "''m''" "[]"
        _ "''w''" "empty_wallet ''w''" "''a''" "''k''" "''n''" "''e''" 25000 "''r''" "''n2''" "''e2''" "''r2''"]
    by (fastforce simp: local_provider_def sample_db_def empty_wallet_def order_key_unused_def int64_def)
qed

end
