(* ===== verification/ShopDates.thy ===== *)
theory ShopDates
  imports JsText
begin

text \<open>
  Calendar dates of a shop's term, \<open>src/modules/shops/dates.ts\<close>: parsing and printing of
  \<open>YYYY-MM-DD\<close>, anniversaries and the number of billed years. The code leans on the
  language's \<open>Date.UTC\<close> and its getters; the first section models those as ECMAScript defines
  them (day numbers of the proleptic Gregorian calendar), with the two traps the code meets:
  years 0 to 99 mean 1900 to 1999, and a day number beyond 10^8 is \<open>NaN\<close>.
\<close>

section \<open>The language's calendar\<close>

definition leap :: "int \<Rightarrow> bool" where
  "leap y \<longleftrightarrow> y mod 4 = 0 \<and> (y mod 100 \<noteq> 0 \<or> y mod 400 = 0)"

definition day_from_year :: "int \<Rightarrow> int" where
  "day_from_year y =
     365 * (y - 1970) + (y - 1969) div 4 - (y - 1901) div 100 + (y - 1601) div 400"

text \<open>Days of a year before its \<open>m\<close>-th month, months counted from 0.\<close>

definition days_before_month :: "bool \<Rightarrow> int \<Rightarrow> int" where
  "days_before_month l m =
     (if m \<le> 0 then 0 else if m = 1 then 31
      else (if l then 1 else 0) +
        (if m = 2 then 59 else if m = 3 then 90 else if m = 4 then 120 else if m = 5 then 151
         else if m = 6 then 181 else if m = 7 then 212 else if m = 8 then 243 else if m = 9 then 273
         else if m = 10 then 304 else if m = 11 then 334 else 365))"

definition make_day :: "int \<Rightarrow> int \<Rightarrow> int \<Rightarrow> int" where
  "make_day year month date =
     (let ym = year + month div 12; mn = month mod 12
      in day_from_year ym + days_before_month (leap ym) mn + date - 1)"

text \<open>\<open>Date.UTC\<close>, as a day number; \<open>None\<close> is \<open>NaN\<close>.\<close>

definition date_utc :: "int \<Rightarrow> int \<Rightarrow> int \<Rightarrow> int option" where
  "date_utc year month date =
     (let y = (if 0 \<le> year \<and> year \<le> 99 then 1900 + year else year); d = make_day y month date
      in if \<bar>d\<bar> \<le> 10 ^ 8 then Some d else None)"

definition utc_full_year :: "int \<Rightarrow> int" where
  "utc_full_year d =
     (let y = 1970 + (400 * d) div 146097
      in if day_from_year (y + 1) \<le> d then y + 1 else if d < day_from_year y then y - 1 else y)"

fun month_search :: "bool \<Rightarrow> int \<Rightarrow> nat \<Rightarrow> int" where
  "month_search l d 0 = 0"
| "month_search l d (Suc m) =
     (if days_before_month l (int (Suc m)) \<le> d then int (Suc m) else month_search l d m)"

definition utc_month :: "int \<Rightarrow> int" where
  "utc_month d = (let y = utc_full_year d in month_search (leap y) (d - day_from_year y) 11)"

definition utc_date :: "int \<Rightarrow> int" where
  "utc_date d = (let y = utc_full_year d
     in d - day_from_year y - days_before_month (leap y) (utc_month d) + 1)"

section \<open>The code\<close>

record plain_date =
  year :: int
  month :: int
  day :: int

text \<open>\<open>/^(\d{4})-(\d{2})-(\d{2})$/\<close>.\<close>

definition date_match :: "string \<Rightarrow> (string \<times> string \<times> string) option" where
  "date_match s =
     (let y = take 4 s; m = take 2 (drop 5 s); d = drop 8 s in
      if length s = 10 \<and> list_all is_digit y \<and> list_all is_digit m \<and> list_all is_digit d
        \<and> s ! 4 = CHR ''-'' \<and> s ! 7 = CHR ''-''
      then Some (y, m, d) else None)"

definition parsePlainDate :: "string \<Rightarrow> plain_date result" where
  "parsePlainDate value =
     (case date_match value of
        None \<Rightarrow> Inl (AppError ''DATE_INVALID'' 400 None)
      | Some (ys, ms, ds) \<Rightarrow>
          (let y = int (digits_value ys); m = int (digits_value ms); d = int (digits_value ds) in
           case date_utc y (m - 1) d of
             None \<Rightarrow> Inl (AppError ''DATE_INVALID'' 400 None)
           | Some n \<Rightarrow>
               if utc_full_year n \<noteq> y \<or> utc_month n \<noteq> m - 1 \<or> utc_date n \<noteq> d
               then Inl (AppError ''DATE_INVALID'' 400 None)
               else Inr \<lparr> year = y, month = m, day = d \<rparr>))"

definition formatPlainDate :: "plain_date \<Rightarrow> string" where
  "formatPlainDate d =
     zero_padded 4 (year d) @ ''-'' @ zero_padded 2 (month d)
       @ ''-'' @ zero_padded 2 (day d)"

definition daysInMonth :: "int \<Rightarrow> int \<Rightarrow> int option" where
  "daysInMonth y m = map_option utc_date (date_utc y m 0)"

text \<open>
  \<open>Math.min\<close> with \<open>NaN\<close> is \<open>NaN\<close>, which prints as \<open>NaN\<close>: that is what a term of some hundred
  thousand years would get.
\<close>

definition anniversary :: "string \<Rightarrow> int \<Rightarrow> string result" where
  "anniversary startDate years =
     (if \<bar>years\<bar> \<ge> 2 ^ 53 \<or> years < 1 then Inl (AppError ''BILLING_YEARS_INVALID'' 400 None)
      else bindE (parsePlainDate startDate) (\<lambda>start.
        let y = year start + years in
        case daysInMonth y (month start) of
          Some n \<Rightarrow> Inr (formatPlainDate \<lparr> year = y, month = month start, day = min (day start) n \<rparr>)
        | None \<Rightarrow> Inr (zero_padded 4 y @ ''-''
                     @ zero_padded 2 (month start) @ ''-NaN'')))"

definition comparePlainDate :: "string \<Rightarrow> string \<Rightarrow> int result" where
  "comparePlainDate left right =
     bindE (parsePlainDate left) (\<lambda>_. bindE (parsePlainDate right) (\<lambda>_.
       Inr (if left < right then - 1 else if right < left then 1 else 0)))"

text \<open>The loop over \<open>years\<close> from 1 to 100; \<open>n\<close> counts the rounds that are left.\<close>

fun billed_years_loop :: "string \<Rightarrow> string \<Rightarrow> int \<Rightarrow> nat \<Rightarrow> int result" where
  "billed_years_loop startDate requestedCloseDate years 0 = Inl (AppError ''SHOP_TERM_LIMIT'' 400 None)"
| "billed_years_loop startDate requestedCloseDate years (Suc n) =
     bindE (anniversary startDate years) (\<lambda>a.
     bindE (comparePlainDate requestedCloseDate a) (\<lambda>c.
       if c \<le> 0 then Inr years
       else billed_years_loop startDate requestedCloseDate (years + 1) n))"

definition billedYears :: "string \<Rightarrow> string \<Rightarrow> int result" where
  "billedYears startDate requestedCloseDate =
     bindE (comparePlainDate requestedCloseDate startDate) (\<lambda>c.
       if c \<le> 0 then Inl (AppError ''SHOP_TERM_INVALID'' 400 None)
       else billed_years_loop startDate requestedCloseDate 1 100)"

section \<open>The calendar is right\<close>

definition month_length :: "int \<Rightarrow> int \<Rightarrow> int" where
  "month_length y m =
     (if m = 2 then (if leap y then 29 else 28) else if m \<in> {4, 6, 9, 11} then 30 else 31)"

definition valid_ymd :: "int \<Rightarrow> int \<Rightarrow> int \<Rightarrow> bool" where
  "valid_ymd y m d \<longleftrightarrow> 1 \<le> m \<and> m \<le> 12 \<and> 1 \<le> d \<and> d \<le> month_length y m"

lemma div_bounds:
  fixes x k :: int
  assumes "0 < k"
  shows "k * (x div k) \<le> x" "x < k * (x div k) + k"
proof -
  have e: "k * (x div k) = x - x mod k" by (metis minus_mod_eq_mult_div)
  show "k * (x div k) \<le> x" using pos_mod_sign [OF assms, of x] e by linarith
  show "x < k * (x div k) + k" using pos_mod_bound [OF assms, of x] e by linarith
qed

lemma div_Suc_int:
  fixes x k :: int
  assumes "0 < k"
  shows "(x + 1) div k = x div k + (if (x + 1) mod k = 0 then 1 else 0)"
proof -
  define p q where "p = x div k" and "q = (x + 1) div k"
  note b = div_bounds [OF assms, of x, folded p_def] div_bounds [OF assms, of "x + 1", folded q_def]
  have e: "(x + 1) mod k = x + 1 - k * q" by (metis minus_mult_div_eq_mod q_def)
  have "k * q < k * (p + 2)" using b assms by (simp add: distrib_left)
  then have hi: "q < p + 2" using assms by (simp only: mult_less_cancel_left_pos)
  have "k * p < k * (q + 1)" using b by (simp add: distrib_left)
  then have lo: "p < q + 1" using assms by (simp only: mult_less_cancel_left_pos)
  from lo hi consider "q = p" | "q = p + 1" by linarith
  then show ?thesis
  proof cases
    case 1
    then have "(x + 1) mod k \<noteq> 0" using b(1) e by simp
    with 1 show ?thesis by (simp add: p_def q_def)
  next
    case 2
    then have "k * q = k * p + k" by (simp add: distrib_left)
    then have "(x + 1) mod k \<le> 0" using b(2) e by linarith
    moreover have "0 \<le> (x + 1) mod k" using assms by simp
    ultimately show ?thesis using 2 by (simp add: p_def q_def)
  qed
qed

lemma day_from_year_Suc: "day_from_year (y + 1) = day_from_year y + (if leap y then 366 else 365)"
proof -
  define A B C where "A = (y - 1969) div 4" and "B = (y - 1901) div 100" and "C = (y - 1601) div 400"
  define a b c where "a \<longleftrightarrow> y mod 4 = 0" and "b \<longleftrightarrow> y mod 100 = 0" and "c \<longleftrightarrow> y mod 400 = 0"
  have "(y - 1968) mod 4 = y mod 4" "(y - 1900) mod 100 = y mod 100" "(y - 1600) mod 400 = y mod 400"
    using mod_mult_self2 [of y 4 "- 492"] mod_mult_self2 [of y 100 "- 19"]
      mod_mult_self2 [of y 400 "- 4"] by simp_all
  note m = this
  have "y - 1969 + 1 = y - 1968" "y - 1901 + 1 = y - 1900" "y - 1601 + 1 = y - 1600" by simp_all
  note e = this
  have S: "(y - 1968) div 4 = A + (if a then 1 else 0)"
    "(y - 1900) div 100 = B + (if b then 1 else 0)" "(y - 1600) div 400 = C + (if c then 1 else 0)"
    using div_Suc_int [of 4 "y - 1969"] div_Suc_int [of 100 "y - 1901"] div_Suc_int [of 400 "y - 1601"]
    unfolding e m A_def B_def C_def a_def b_def c_def by (simp_all only: zero_less_numeral True_implies_equals)
  have "(100 :: int) dvd 400" "(4 :: int) dvd 100" by simp_all
  then have i: "c \<Longrightarrow> b" "b \<Longrightarrow> a"
    unfolding a_def b_def c_def mod_eq_0_iff_dvd by (blast intro: dvd_trans)+
  have l: "leap y \<longleftrightarrow> a \<and> (\<not> b \<or> c)" by (simp only: leap_def a_def b_def c_def)
  have "day_from_year (y + 1) =
      365 * (y - 1969) + (y - 1968) div 4 - (y - 1900) div 100 + (y - 1600) div 400"
    by (simp add: day_from_year_def)
  also have "\<dots> = 365 * (y - 1970) + 365 + A + (if a then 1 else 0) - B - (if b then 1 else 0)
      + C + (if c then 1 else 0)"
    unfolding S by simp
  also have "\<dots> = day_from_year y + 365 + (if a then 1 else 0) - (if b then 1 else 0)
      + (if c then 1 else 0)"
    unfolding day_from_year_def A_def [symmetric] B_def [symmetric] C_def [symmetric] by simp
  finally have "day_from_year (y + 1) =
      day_from_year y + 365 + (if a then 1 else 0) - (if b then 1 else 0) + (if c then 1 else 0)" .
  then show ?thesis using i unfolding l by (cases a; cases b; cases c) simp_all
qed

lemma day_from_year_estimate:
  "146097 * (y - 1970) - 700 < 400 * day_from_year y \<and> 400 * day_from_year y < 146097 * (y - 1970) + 700"
proof -
  define A B C where "A = (y - 1969) div 4" and "B = (y - 1901) div 100" and "C = (y - 1601) div 400"
  have d: "day_from_year y = 365 * (y - 1970) + A - B + C"
    by (simp add: day_from_year_def A_def B_def C_def)
  have "4 * A \<le> y - 1969" "y - 1969 < 4 * A + 4" "100 * B \<le> y - 1901" "y - 1901 < 100 * B + 100"
    "400 * C \<le> y - 1601" "y - 1601 < 400 * C + 400"
    unfolding A_def B_def C_def by (rule div_bounds, simp)+
  then show ?thesis unfolding d by (simp add: algebra_simps)
qed

lemmas day_from_year_ge = day_from_year_estimate [THEN conjunct1]
lemmas day_from_year_le = day_from_year_estimate [THEN conjunct2]

lemma utc_full_year_bounds:
  "day_from_year (utc_full_year d) \<le> d" "d < day_from_year (utc_full_year d + 1)"
proof -
  define y where "y = 1970 + (400 * d) div 146097"
  have "146097 * ((400 * d) div 146097) \<le> 400 * d" "400 * d < 146097 * ((400 * d) div 146097) + 146097"
    by (rule div_bounds, simp)+
  then have y: "146097 * (y - 1970) \<le> 400 * d" "400 * d < 146097 * (y - 1970) + 146097"
    by (simp_all add: y_def)
  have "d < day_from_year (y + 2)" using y day_from_year_ge [of "y + 2"] by (simp add: algebra_simps)
  moreover have "day_from_year (y - 1) \<le> d" using y day_from_year_le [of "y - 1"] by (simp add: algebra_simps)
  ultimately show "day_from_year (utc_full_year d) \<le> d" "d < day_from_year (utc_full_year d + 1)"
    by (auto simp: utc_full_year_def y_def [symmetric] Let_def add.commute)
qed

lemma day_from_year_mono: "y < z \<Longrightarrow> day_from_year (y + 1) \<le> day_from_year z"
proof -
  have "y + 1 \<le> z \<Longrightarrow> day_from_year (y + 1) \<le> day_from_year z" for z
  proof (induction rule: int_ge_induct)
    case base
    show ?case by simp
  next
    case (step i)
    then show ?case using day_from_year_Suc [of i] by auto
  qed
  then show "y < z \<Longrightarrow> day_from_year (y + 1) \<le> day_from_year z" by simp
qed

lemma utc_full_year_unique:
  assumes "day_from_year y \<le> d" and "d < day_from_year (y + 1)"
  shows "utc_full_year d = y"
  using utc_full_year_bounds [of d] day_from_year_mono [of y "utc_full_year d"]
    day_from_year_mono [of "utc_full_year d" y] assms by (cases "utc_full_year d" y rule: linorder_cases) auto

lemma month_cases:
  assumes "1 \<le> m" and "m \<le> (12 :: int)"
  obtains "m = 1" | "m = 2" | "m = 3" | "m = 4" | "m = 5" | "m = 6"
  | "m = 7" | "m = 8" | "m = 9" | "m = 10" | "m = 11" | "m = 12"
proof -
  from assms have "m = 1 \<or> m = 2 \<or> m = 3 \<or> m = 4 \<or> m = 5 \<or> m = 6 \<or> m = 7 \<or> m = 8 \<or> m = 9
    \<or> m = 10 \<or> m = 11 \<or> m = 12" by presburger
  then show ?thesis using that by blast
qed

lemma days_before_month_Suc:
  assumes "1 \<le> m" and "m \<le> 12"
  shows "days_before_month (leap y) m = days_before_month (leap y) (m - 1) + month_length y m"
  using assms by (rule month_cases) (simp_all add: days_before_month_def month_length_def)

lemma month_length_bounds: "28 \<le> month_length y m" "month_length y m \<le> 31"
  by (simp_all add: month_length_def)

lemma days_before_month_12: "days_before_month l 12 = (if l then 366 else 365)"
  by (simp add: days_before_month_def)

lemma days_before_month_0: "days_before_month l 0 = 0"
  by (simp add: days_before_month_def)

text \<open>A valid date is the only one its day number can be.\<close>

lemma getters_make_day:
  assumes "valid_ymd y m d"
  shows "utc_full_year (make_day y (m - 1) d) = y"
    and "utc_month (make_day y (m - 1) d) = m - 1"
    and "utc_date (make_day y (m - 1) d) = d"
proof -
  have m: "1 \<le> m" "m \<le> 12" and d: "1 \<le> d" "d \<le> month_length y m"
    using assms by (simp_all add: valid_ymd_def)
  define n where "n = make_day y (m - 1) d"
  have dm: "(m - 1) div 12 = 0" "(m - 1) mod 12 = m - 1" using m by simp_all
  have n: "n = day_from_year y + days_before_month (leap y) (m - 1) + d - 1"
    by (simp add: n_def make_day_def dm)
  have lo: "0 \<le> days_before_month (leap y) (m - 1)" by (simp add: days_before_month_def)
  have hi: "days_before_month (leap y) m \<le> (if leap y then 366 else 365)"
    using m by (rule month_cases) (simp_all add: days_before_month_def)
  note suc = days_before_month_Suc [OF m, of y]
  have y: "utc_full_year n = y"
  proof (rule utc_full_year_unique)
    show "day_from_year y \<le> n" using n lo d by linarith
    show "n < day_from_year (y + 1)" using n hi d suc by (simp add: day_from_year_Suc split: if_splits)
  qed
  have r: "n - day_from_year y = days_before_month (leap y) (m - 1) + (d - 1)" using n by simp
  have "month_search (leap y) (days_before_month (leap y) (m - 1) + (d - 1)) 11 = m - 1"
    using m d by (cases rule: month_cases)
      (simp_all add: days_before_month_def month_length_def eval_nat_numeral split: if_splits)
  then have mo: "utc_month n = m - 1" by (simp add: utc_month_def y r)
  show "utc_full_year (make_day y (m - 1) d) = y" "utc_month (make_day y (m - 1) d) = m - 1"
    using y mo by (simp_all add: n_def)
  show "utc_date (make_day y (m - 1) d) = d"
    using y mo r by (simp add: utc_date_def n_def)
qed

lemma month_search_bounds:
  "0 \<le> month_search l d n" "month_search l d n \<le> int n"
  "0 \<le> d \<Longrightarrow> days_before_month l (month_search l d n) \<le> d"
  "month_search l d n < int n \<Longrightarrow> d < days_before_month l (month_search l d n + 1)"
proof -
  show "0 \<le> month_search l d n" "month_search l d n \<le> int n"
    by (induction n) auto
  show "0 \<le> d \<Longrightarrow> days_before_month l (month_search l d n) \<le> d"
    by (induction n) (auto simp: days_before_month_0)
  show "month_search l d n < int n \<Longrightarrow> d < days_before_month l (month_search l d n + 1)"
  proof (induction n)
    case (Suc n)
    then show ?case by (cases "month_search l d n = int n") (auto simp: not_le add.commute split: if_splits)
  qed simp
qed

text \<open>The getters of any day number are a valid date.\<close>

lemma getters_valid: "valid_ymd (utc_full_year n) (utc_month n + 1) (utc_date n)"
proof -
  define y where "y = utc_full_year n"
  define r where "r = n - day_from_year y"
  define k where "k = month_search (leap y) r 11"
  note b = utc_full_year_bounds [of n, folded y_def]
  have r: "0 \<le> r" "r < (if leap y then 366 else 365)"
    using b by (auto simp: r_def day_from_year_Suc)
  have k: "0 \<le> k" "k \<le> 11" "days_before_month (leap y) k \<le> r"
    using month_search_bounds(1,2) [of "leap y" r 11] month_search_bounds(3) [of r "leap y" 11] r by (simp_all add: k_def)
  have "r < days_before_month (leap y) (k + 1)"
  proof (cases "k = 11")
    case True
    then show ?thesis using r by (simp add: days_before_month_12)
  next
    case False
    then show ?thesis using month_search_bounds(4) [of "leap y" r 11] k by (simp add: k_def)
  qed
  then have "r < days_before_month (leap y) k + month_length y (k + 1)"
    using days_before_month_Suc [of "k + 1" y] k by simp
  moreover have "utc_month n = k" by (simp add: utc_month_def y_def [symmetric] r_def [symmetric] k_def)
  ultimately show ?thesis using k
    by (simp add: valid_ymd_def utc_date_def y_def [symmetric] r_def [symmetric])
qed

section \<open>Reading and printing dates\<close>

lemma date_utc_range:
  assumes "100 \<le> y" and "y \<le> 99999" and "0 \<le> m" and "m \<le> 99" and "0 \<le> d" and "d \<le> 99"
  shows "date_utc y m d = Some (make_day y m d)"
proof -
  define z where "z = y + m div 12"
  have "0 \<le> m div 12" "m div 12 \<le> 8" using assms by (simp_all add: pos_imp_zdiv_nonneg_iff)
  then have "100 \<le> z" "z \<le> 100007" using assms by (simp_all add: z_def)
  then have "- 100000000 + 1000 \<le> day_from_year z" "day_from_year z \<le> 100000000 - 1000"
    using day_from_year_estimate [of z] by (auto simp: algebra_simps)
  moreover have "0 \<le> days_before_month (leap z) (m mod 12)" "days_before_month (leap z) (m mod 12) \<le> 366"
    by (simp_all add: days_before_month_def)
  ultimately have "- (10 ^ 8) \<le> make_day y m d" "make_day y m d \<le> 10 ^ 8"
    using assms by (simp_all add: make_day_def Let_def flip: z_def)
  then have "\<bar>make_day y m d\<bar> \<le> 10 ^ 8" by linarith
  then show ?thesis using assms by (simp add: date_utc_def Let_def)
qed

lemma day_from_year_less: "day_from_year y < day_from_year z \<Longrightarrow> y < z"
  using day_from_year_mono [of z y] day_from_year_Suc [of z]
  by (cases y z rule: linorder_cases) (auto split: if_splits)

text \<open>A year below 100 is read as 19xx, so its own number never comes back.\<close>

lemma short_year_rejected:
  assumes "0 \<le> y" and "y \<le> 99" and "- 1 \<le> m" and "0 \<le> d" and "date_utc y m d = Some n"
  shows "utc_full_year n \<noteq> y"
proof
  assume eq: "utc_full_year n = y"
  define z where "z = 1900 + y + m div 12"
  have "- 1 \<le> m div 12" using zdiv_mono1 [OF assms(3), of 12] by simp
  then have "y + 1 < z" using assms by (simp add: z_def)
  then have "day_from_year (y + 1 + 1) \<le> day_from_year z" by (rule day_from_year_mono)
  moreover have "day_from_year (y + 1) + 1 < day_from_year (y + 1 + 1)"
    unfolding day_from_year_Suc [of "y + 1"] by simp
  moreover have "n = make_day (1900 + y) m d"
    using assms by (simp add: date_utc_def Let_def split: if_splits)
  then have "day_from_year z - 1 \<le> n"
    using assms(4) by (simp add: make_day_def Let_def days_before_month_def flip: z_def)
  moreover have "n < day_from_year (y + 1)" using utc_full_year_bounds(2) [of n] eq by simp
  ultimately show False by linarith
qed

lemma date_match_iff:
  "date_match s = Some (ys, ms, ds) \<longleftrightarrow>
     s = ys @ ''-'' @ ms @ ''-'' @ ds \<and> digits 4 ys \<and> digits 2 ms \<and> digits 2 ds"
proof
  assume l: "date_match s = Some (ys, ms, ds)"
  then have s: "length s = 10" "s ! 4 = CHR ''-''" "s ! 7 = CHR ''-''" "ys = take 4 s"
    "ms = take 2 (drop 5 s)" "ds = drop 8 s" "list_all is_digit ys" "list_all is_digit ms"
    "list_all is_digit ds"
    by (auto simp: date_match_def Let_def split: if_splits)
  have "s = take 4 s @ s ! 4 # take 2 (drop 5 s) @ s ! 7 # drop 8 s"
    using s(1) by (auto simp: length_Suc_conv eval_nat_numeral)
  with s show "s = ys @ ''-'' @ ms @ ''-'' @ ds \<and> digits 4 ys \<and> digits 2 ms \<and> digits 2 ds"
    by (simp add: digits_def)
next
  assume "s = ys @ ''-'' @ ms @ ''-'' @ ds \<and> digits 4 ys \<and> digits 2 ms \<and> digits 2 ds"
  then show "date_match s = Some (ys, ms, ds)"
    by (auto simp: date_match_def Let_def digits_def nth_append)
qed

lemma digits_2_bound: "digits 2 s \<Longrightarrow> digits_value s \<le> 99"
  using digits_value_less [of s] by (simp add: digits_def)

lemma digits_4_bound: "digits 4 s \<Longrightarrow> digits_value s \<le> 9999"
  using digits_value_less [of s] by (simp add: digits_def)

definition valid_date :: "plain_date \<Rightarrow> bool" where
  "valid_date d \<longleftrightarrow> 100 \<le> year d \<and> year d \<le> 9999 \<and> valid_ymd (year d) (month d) (day d)"

lemma parse_matched:
  assumes "digits 4 ys" and "digits 2 ms" and "digits 2 ds"
  defines "p \<equiv> \<lparr> year = int (digits_value ys), month = int (digits_value ms), day = int (digits_value ds) \<rparr>"
  shows "parsePlainDate (ys @ ''-'' @ ms @ ''-'' @ ds) =
    (if valid_date p then Inr p else Inl (AppError ''DATE_INVALID'' 400 None))"
proof -
  define y m d where "y = int (digits_value ys)" and "m = int (digits_value ms)" and "d = int (digits_value ds)"
  have b: "0 \<le> y" "y \<le> 9999" "0 \<le> m" "m \<le> 99" "0 \<le> d" "d \<le> 99"
    using digits_2_bound digits_4_bound assms(1-3) by (simp_all add: y_def m_def d_def)
  have mt: "date_match (ys @ ''-'' @ ms @ ''-'' @ ds) = Some (ys, ms, ds)"
    unfolding date_match_iff using assms(1-3) by simp
  have p: "p = \<lparr> year = y, month = m, day = d \<rparr>" by (simp add: p_def y_def m_def d_def)
  let ?ok = "\<lambda>n. \<not> (utc_full_year n \<noteq> y \<or> utc_month n \<noteq> m - 1 \<or> utc_date n \<noteq> d)"
  have eval: "parsePlainDate (ys @ ''-'' @ ms @ ''-'' @ ds) =
      (case date_utc y (m - 1) d of None \<Rightarrow> Inl (AppError ''DATE_INVALID'' 400 None)
       | Some n \<Rightarrow> if ?ok n then Inr p else Inl (AppError ''DATE_INVALID'' 400 None))"
    unfolding parsePlainDate_def mt p by (simp add: Let_def flip: y_def m_def d_def split: option.split)
  show ?thesis
  proof (cases "100 \<le> y")
    case False
    then have "\<And>n. date_utc y (m - 1) d = Some n \<Longrightarrow> \<not> ?ok n"
      using short_year_rejected [of y "m - 1" d] b by auto
    then show ?thesis using False unfolding eval p
      by (auto simp: valid_date_def split: option.split)
  next
    case True
    show ?thesis
    proof (cases "m = 0")
      case True
      have "utc_month n \<noteq> m - 1" for n
        using True getters_valid [of n] by (auto simp: valid_ymd_def)
      then show ?thesis using True unfolding eval p
        by (auto simp: valid_date_def valid_ymd_def split: option.split)
    next
      case False
      then have n: "date_utc y (m - 1) d = Some (make_day y (m - 1) d)"
        using True b by (intro date_utc_range) simp_all
      have "?ok (make_day y (m - 1) d) \<longleftrightarrow> valid_ymd y m d"
        using getters_make_day [of y m d] getters_valid [of "make_day y (m - 1) d"] by auto
      then show ?thesis using True b unfolding eval p n by (simp add: valid_date_def)
    qed
  qed
qed

lemma parsePlainDate_Inr_iff:
  "parsePlainDate s = Inr p \<longleftrightarrow> valid_date p \<and> s = formatPlainDate p"
proof
  assume l: "parsePlainDate s = Inr p"
  then obtain ys ms ds where "date_match s = Some (ys, ms, ds)"
    by (auto simp: parsePlainDate_def split: option.splits)
  then have s: "s = ys @ ''-'' @ ms @ ''-'' @ ds" "digits 4 ys" "digits 2 ms" "digits 2 ds"
    by (simp_all add: date_match_iff)
  from l show "valid_date p \<and> s = formatPlainDate p"
    unfolding s(1) parse_matched [OF s(2-4)]
    using s(2-4) by (auto simp: formatPlainDate_def zero_padded_value split: if_splits)
next
  assume r: "valid_date p \<and> s = formatPlainDate p"
  then have b: "0 \<le> year p" "year p < 10 ^ 4" "0 \<le> month p" "month p < 10 ^ 2" "0 \<le> day p" "day p < 10 ^ 2"
    using month_length_bounds [of "year p" "month p"] by (auto simp: valid_date_def valid_ymd_def)
  note z = zero_padded_digits [OF b(1,2)] zero_padded_digits [OF b(3,4)] zero_padded_digits [OF b(5,6)]
  show "parsePlainDate s = Inr p"
    using r parse_matched [of "zero_padded 4 (year p)" "zero_padded 2 (month p)" "zero_padded 2 (day p)"]
      z b by (cases p) (simp add: formatPlainDate_def)
qed

lemma parsePlainDate_Inl: "parsePlainDate s = Inl e \<Longrightarrow> e = AppError ''DATE_INVALID'' 400 None"
  by (auto simp: parsePlainDate_def Let_def split: option.splits if_splits)

text \<open>
  a text is accepted as a date exactly when it is the printed form of a real calendar date of
  the years 100 to 9999, and then it is read as that date; any other text is refused with
  \<open>DATE_INVALID\<close>.
\<close>

theorem parse_plain_date_exact:
  "(parsePlainDate s = Inr p \<longleftrightarrow> valid_date p \<and> s = formatPlainDate p) \<and>
   (parsePlainDate s = Inl (AppError ''DATE_INVALID'' 400 None) \<longleftrightarrow>
     (\<forall>q. \<not> (valid_date q \<and> s = formatPlainDate q)))"
  using parsePlainDate_Inl [of s] by (cases "parsePlainDate s") (auto simp flip: parsePlainDate_Inr_iff)

section \<open>Dates as text sort like dates\<close>

definition date_less :: "plain_date \<Rightarrow> plain_date \<Rightarrow> bool" where
  "date_less p q \<longleftrightarrow> year p < year q \<or> year p = year q \<and>
     (month p < month q \<or> month p = month q \<and> day p < day q)"

lemma valid_date_ranges:
  assumes "valid_date p"
  shows "0 \<le> year p" "year p < 10 ^ 4" "0 \<le> month p" "month p < 10 ^ 2" "0 \<le> day p" "day p < 10 ^ 2"
  using assms month_length_bounds [of "year p" "month p"] by (auto simp: valid_date_def valid_ymd_def)

lemma zero_padded_less_iff:
  assumes "0 \<le> x" "x < 10 ^ w" "0 \<le> y" "y < 10 ^ w" "0 < w"
  shows "zero_padded w x < zero_padded w y \<longleftrightarrow> x < y" and "zero_padded w x = zero_padded w y \<longleftrightarrow> x = y"
proof -
  note z = zero_padded_digits [OF assms(1,2,5)] zero_padded_digits [OF assms(3,4,5)]
  show "zero_padded w x < zero_padded w y \<longleftrightarrow> x < y"
    using less_digits_iff [OF z(1,3)] z assms by auto
  show "zero_padded w x = zero_padded w y \<longleftrightarrow> x = y" using z(2,4) assms by (metis eq_nat_nat_iff)
qed

lemma formatPlainDate_less_iff:
  assumes "valid_date p" and "valid_date q"
  shows "formatPlainDate p < formatPlainDate q \<longleftrightarrow> date_less p q"
proof -
  note p = valid_date_ranges [OF assms(1)] and q = valid_date_ranges [OF assms(2)]
  note z = zero_padded_digits(1)
  have l: "length (zero_padded 4 (year p)) = length (zero_padded 4 (year q))"
    "length (zero_padded 2 (month p)) = length (zero_padded 2 (month q))"
    using z [OF p(1,2)] z [OF q(1,2)] z [OF p(3,4)] z [OF q(3,4)] by (simp_all add: digits_def)
  note less = zero_padded_less_iff [OF p(1,2) q(1,2)] zero_padded_less_iff [OF p(3,4) q(3,4)]
    zero_padded_less_iff [OF p(5,6) q(5,6)]
  show ?thesis
    unfolding formatPlainDate_def date_less_def append_less_iff [OF l(1)]
    by (simp add: append_less_iff [OF l(2)] less)
qed

lemma comparePlainDate_format:
  assumes "valid_date p" and "valid_date q"
  shows "comparePlainDate (formatPlainDate p) (formatPlainDate q) =
    Inr (if date_less p q then - 1 else if date_less q p then 1 else 0)"
  using assms parsePlainDate_Inr_iff [of "formatPlainDate p" p] parsePlainDate_Inr_iff [of "formatPlainDate q" q]
  by (simp add: comparePlainDate_def formatPlainDate_less_iff)

section \<open>Anniversaries and billed years\<close>

definition years_later :: "plain_date \<Rightarrow> int \<Rightarrow> plain_date" where
  "years_later p k = (let y = year p + k
     in \<lparr> year = y, month = month p, day = min (day p) (month_length y (month p)) \<rparr>)"

lemma daysInMonth_month_length:
  assumes "100 \<le> y" and "y \<le> 99999" and "1 \<le> m" and "m \<le> 12"
  shows "daysInMonth y m = Some (month_length y m)"
proof -
  have "make_day y m 0 = make_day y (m - 1) (month_length y m)"
    using assms(3,4)
    by (cases rule: month_cases)
      (simp_all add: make_day_def Let_def days_before_month_def month_length_def day_from_year_Suc)
  moreover have "valid_ymd y m (month_length y m)"
    using assms month_length_bounds [of y m] by (simp add: valid_ymd_def)
  ultimately show ?thesis
    using assms date_utc_range [of y m 0] by (simp add: daysInMonth_def getters_make_day)
qed

lemma anniversary_format:
  assumes "valid_date p" and "1 \<le> k" and "k \<le> 10000"
  shows "anniversary (formatPlainDate p) k = Inr (formatPlainDate (years_later p k))"
proof -
  have "parsePlainDate (formatPlainDate p) = Inr p" using assms by (simp add: parsePlainDate_Inr_iff)
  moreover have "daysInMonth (year p + k) (month p) = Some (month_length (year p + k) (month p))"
    using assms by (intro daysInMonth_month_length) (auto simp: valid_date_def valid_ymd_def)
  ultimately show ?thesis using assms by (simp add: anniversary_def years_later_def Let_def)
qed

lemma valid_years_later:
  assumes "valid_date p" and "0 \<le> k" and "year p + k \<le> 9999"
  shows "valid_date (years_later p k)"
  using assms month_length_bounds [of "year p + k" "month p"]
  by (auto simp: valid_date_def valid_ymd_def years_later_def Let_def)

lemma years_later_less: "j < k \<Longrightarrow> date_less (years_later p j) (years_later p k)"
  by (simp add: date_less_def years_later_def Let_def)

lemma date_less_years_later: "0 < k \<Longrightarrow> date_less p (years_later p k)"
  by (simp add: date_less_def years_later_def Let_def)

lemma date_less_trans: "date_less p q \<Longrightarrow> date_less q r \<Longrightarrow> date_less p r"
  by (auto simp: date_less_def)

lemma date_less_total: "date_less p q \<or> p = q \<or> date_less q p"
  by (cases p; cases q) (auto simp: date_less_def)

lemma date_less_irrefl: "\<not> date_less p p"
  by (simp add: date_less_def)

lemma billed_years_step:
  assumes "valid_date p" and "valid_date q" and "1 \<le> i" and "year p + i \<le> 9999"
  shows "billed_years_loop (formatPlainDate p) (formatPlainDate q) i (Suc n) =
    (if date_less (years_later p i) q
     then billed_years_loop (formatPlainDate p) (formatPlainDate q) (i + 1) n else Inr i)"
proof -
  have "valid_date (years_later p i)" using assms by (intro valid_years_later) simp_all
  moreover have "i \<le> 10000" using assms by (simp add: valid_date_def)
  moreover have "\<not> (date_less q r \<and> date_less r q)" for r
    using date_less_trans date_less_irrefl by blast
  ultimately show ?thesis
    using assms date_less_irrefl by (simp add: anniversary_format comparePlainDate_format)
qed

lemma billed_years_loop_Inr_iff:
  assumes "valid_date p" and "valid_date q" and "1 \<le> i" and "year p + i + int n \<le> 10000"
  shows "billed_years_loop (formatPlainDate p) (formatPlainDate q) i n = Inr k \<longleftrightarrow>
     i \<le> k \<and> k < i + int n \<and> \<not> date_less (years_later p k) q \<and>
     (i = k \<or> date_less (years_later p (k - 1)) q)"
  using assms(3,4)
proof (induction n arbitrary: i)
  case 0
  then show ?case by simp
next
  case (Suc n)
  have step: "billed_years_loop (formatPlainDate p) (formatPlainDate q) i (Suc n) =
    (if date_less (years_later p i) q
     then billed_years_loop (formatPlainDate p) (formatPlainDate q) (i + 1) n else Inr i)"
    using Suc.prems by (intro billed_years_step assms) simp_all
  have earlier: "date_less (years_later p (k - 1)) q \<Longrightarrow> i < k \<Longrightarrow> date_less (years_later p i) q"
    using years_later_less [of i "k - 1" p] date_less_trans by (cases "i = k - 1") auto
  show ?case
  proof (cases "date_less (years_later p i) q")
    case True
    then have "i \<le> k \<and> \<not> date_less (years_later p k) q \<Longrightarrow> i + 1 \<le> k" by (cases "i = k") auto
    then show ?thesis using True Suc.IH [of "i + 1"] Suc.prems unfolding step by auto
  next
    case False
    then have "\<not> (i < k \<and> date_less (years_later p (k - 1)) q)" using earlier by blast
    then show ?thesis using False unfolding step by (auto simp: order.order_iff_strict)
  qed
qed

lemma billed_years_loop_Inl:
  assumes "valid_date p" and "valid_date q" and "1 \<le> i" and "year p + i + int n \<le> 10000"
    and "billed_years_loop (formatPlainDate p) (formatPlainDate q) i n = Inl e"
  shows "e = AppError ''SHOP_TERM_LIMIT'' 400 None"
  using assms(3-5)
proof (induction n arbitrary: i)
  case 0
  then show ?case by simp
next
  case (Suc n)
  then show ?case using Suc.IH [of "i + 1"] billed_years_step [OF assms(1,2), of i n]
    by (auto split: if_splits)
qed

text \<open>
  for a term that starts before the year 9900, the billed years are the least number of years,
  one to a hundred, whose anniversary is not before the requested closing date; the code refuses
  exactly the closing dates that do not lie after the start or lie beyond the hundredth anniversary.
\<close>

theorem billed_years_least:
  assumes "valid_date p" and "valid_date q" and "year p \<le> 9899"
  shows "(billedYears (formatPlainDate p) (formatPlainDate q) = Inr k \<longleftrightarrow>
      date_less p q \<and> 1 \<le> k \<and> k \<le> 100 \<and> \<not> date_less (years_later p k) q \<and>
      (k = 1 \<or> date_less (years_later p (k - 1)) q)) \<and>
    billedYears (formatPlainDate p) (formatPlainDate q) \<in>
      {Inl (AppError ''SHOP_TERM_INVALID'' 400 None), Inl (AppError ''SHOP_TERM_LIMIT'' 400 None)} \<union> range Inr"
proof -
  let ?b = "billed_years_loop (formatPlainDate p) (formatPlainDate q) 1 100"
  have b: "billedYears (formatPlainDate p) (formatPlainDate q) =
      (if date_less p q then ?b else Inl (AppError ''SHOP_TERM_INVALID'' 400 None))"
    using assms date_less_trans date_less_irrefl
    by (auto simp: billedYears_def comparePlainDate_format simp del: billed_years_loop.simps)
  have iff: "?b = Inr k \<longleftrightarrow> 1 \<le> k \<and> k \<le> 100 \<and> \<not> date_less (years_later p k) q \<and>
      (k = 1 \<or> date_less (years_later p (k - 1)) q)"
    using billed_years_loop_Inr_iff [of p q 1 100 k] assms by auto
  have "?b = Inl (AppError ''SHOP_TERM_LIMIT'' 400 None) \<or> ?b \<in> range Inr"
    using billed_years_loop_Inl [of p q 1 100] assms by (cases ?b) auto
  then show ?thesis unfolding b iff [symmetric] by auto
qed

theorem billed_years_least_witness:
  "(billedYears (formatPlainDate \<lparr> year = 2024, month = 2, day = 29 \<rparr>)
      (formatPlainDate \<lparr> year = 2026, month = 3, day = 1 \<rparr>) = Inr 3 \<longleftrightarrow>
      date_less \<lparr> year = 2024, month = 2, day = 29 \<rparr> \<lparr> year = 2026, month = 3, day = 1 \<rparr>
      \<and> (1 :: int) \<le> 3 \<and> (3 :: int) \<le> 100
      \<and> \<not> date_less (years_later \<lparr> year = 2024, month = 2, day = 29 \<rparr> 3) \<lparr> year = 2026, month = 3, day = 1 \<rparr>
      \<and> ((3 :: int) = 1
        \<or> date_less (years_later \<lparr> year = 2024, month = 2, day = 29 \<rparr> (3 - 1)) \<lparr> year = 2026, month = 3, day = 1 \<rparr>))
    \<and> billedYears (formatPlainDate \<lparr> year = 2024, month = 2, day = 29 \<rparr>)
      (formatPlainDate \<lparr> year = 2026, month = 3, day = 1 \<rparr>) \<in>
      {Inl (AppError ''SHOP_TERM_INVALID'' 400 None), Inl (AppError ''SHOP_TERM_LIMIT'' 400 None)} \<union> range Inr"
  by (rule billed_years_least)
    (simp_all add: valid_date_def valid_ymd_def month_length_def leap_def)

end
