(* ===== verification/Shops.thy ===== *)
theory Shops
  imports Payments ShopDates
begin

text \<open>
  Shops: creating, renewing, renaming, trashing, restoring and purging them, and what they cost -
  \<open>src/modules/shops/service.ts\<close> and the effective access row of
  \<open>src/modules/authorization/shop-access.ts\<close>, over the tables of \<open>migrations/0003\<close>, \<open>0004\<close>,
  \<open>0034\<close> and \<open>0036\<close>. Dates are the texts the database prints; \<open>today\<close> is the date in Shanghai
  and \<open>now\<close> the instant in milliseconds. The Unicode functions, the published snapshot of a shop
  and the running jobs belong to other parts and are parameters.
\<close>

section \<open>Data\<close>

record shop_row =
  sh_id :: string
  sh_application_id :: string
  sh_owner_account_id :: string
  sh_enterprise_id :: string
  sh_created_by :: string
  sh_last_operated_by :: string
  sh_name :: string
  sh_normalized_name :: string
  sh_status :: ShopState
  sh_start_date :: string
  sh_close_date :: string
  sh_rename_count :: nat
  sh_trashed_at :: "nat option"
  sh_purge_after :: "nat option"
  sh_purged_at :: "nat option"

record term_row =
  st_id :: string
  st_shop_id :: string
  st_start_date :: string
  st_close_date :: string
  st_charged_years :: int
  st_price_version_id :: string
  st_supersedes :: "string option"

datatype WaiverType = ADMIN_FREE

record charge_row =
  sc_shop_id :: string
  sc_term_id :: string
  sc_price_version_id :: string
  sc_original :: int
  sc_charged :: int
  sc_waiver_type :: "WaiverType option"
  sc_waiver_reason :: "string option"
  sc_ledger_id :: "string option"
  sc_idempotency_key :: string
  sc_created_by :: string

record name_history_row =
  nh_shop_id :: string
  nh_old_name :: string
  nh_new_name :: string
  nh_changed_by :: string

record application_row =
  ap_id :: string
  ap_active :: bool

record price_row =
  pv_id :: string
  pv_application_id :: string
  pv_annual_price :: int
  pv_effective_from :: nat

record policy_row =
  rp_application_id :: string
  rp_role :: PlatformRole
  rp_can_create_shop :: bool
  rp_effective_from :: nat

record membership_row =
  sm_id :: string
  sm_shop_id :: string
  sm_account_id :: string
  sm_status :: MembershipStatus
  sm_export_allowed :: bool
  sm_epoch :: nat
  sm_invitation_id :: "string option"
  sm_granted_by :: string
  sm_revoke_reason :: "string option"

text \<open>The stored answers: the count of a bulk trash, or a membership as it was after a change.\<close>

datatype response_body = Trashed nat | Changed CustomerMembership

record idempotency_row =
  ir_actor :: string
  ir_scope :: string
  ir_key :: string
  ir_request_hash :: string
  ir_response :: "response_body option"

record shop_db = pay_db +
  applications :: "application_row list"
  price_versions :: "price_row list"
  role_policies :: "policy_row list"
  shops :: "shop_row list"
  shop_terms :: "term_row list"
  shop_charges :: "charge_row list"
  name_history :: "name_history_row list"
  shop_memberships :: "membership_row list"
  idempotency_records :: "idempotency_row list"

record clock =
  now :: nat
  today :: string

record unicode =
  nfkc :: "string \<Rightarrow> string"
  nfc :: "string \<Rightarrow> string"
  zh_lower :: "string \<Rightarrow> string"

section \<open>Names, dates and views\<close>

text \<open>\<open>.replace(/\s+/g, ' ')\<close>.\<close>

fun collapse_spaces :: "string \<Rightarrow> string" where
  "collapse_spaces [] = []"
| "collapse_spaces [c] = (if is_space c then '' '' else [c])"
| "collapse_spaces (c # d # s) =
     (if is_space c then (if is_space d then collapse_spaces (d # s) else CHR '' '' # collapse_spaces (d # s))
      else c # collapse_spaces (d # s))"

definition normalizeShopName :: "unicode \<Rightarrow> string \<Rightarrow> (string \<times> string) result" where
  "normalizeShopName u name =
     (let visible = collapse_spaces (trim (nfkc u name)) in
      if length visible < 1 \<or> length visible > 120
      then Inl (AppError ''SHOP_NAME_INVALID'' 400 (Some ''name''))
      else Inr (visible, zh_lower u visible))"

text \<open>The day before a date; an impossible date makes \<open>toISOString\<close> throw.\<close>

definition previousDate :: "string \<Rightarrow> string result" where
  "previousDate date =
     (case date_match date of
        None \<Rightarrow> Inl (JsError ''RangeError'')
      | Some (ys, ms, ds) \<Rightarrow>
          (case date_utc (int (digits_value ys)) (int (digits_value ms) - 1) (int (digits_value ds)) of
             None \<Rightarrow> Inl (JsError ''RangeError'')
           | Some n \<Rightarrow> Inr (formatPlainDate
               \<lparr> year = utc_full_year (n - 1), month = utc_month (n - 1) + 1, day = utc_date (n - 1) \<rparr>)))"

datatype ShopAccess = Access_ENTERPRISE | Access_CUSTOMER | Access_ADMIN

datatype ShopStatus = Status_ACTIVE | Status_EXPIRED | Status_TRASHED

record PublishedSnapshot =
  ps_id :: string
  ps_publishedAt :: string
  ps_stale :: bool

record ShopView =
  v_id :: string
  v_applicationId :: string
  v_enterpriseId :: string
  v_createdBy :: string
  v_lastOperatedBy :: string
  v_name :: string
  v_state :: ShopState
  v_startDate :: string
  v_closeDate :: string
  v_lastUsableDate :: string
  v_renameAvailable :: bool
  v_access :: ShopAccess
  v_submitted :: bool
  v_status :: ShopStatus
  v_published :: "PublishedSnapshot option"
  v_customerExportAllowed :: "bool option"

definition view :: "PublishedSnapshot option \<Rightarrow> bool option \<Rightarrow> shop_row \<Rightarrow> ShopAccess \<Rightarrow> ShopView result" where
  "view published exportAllowed row access =
     bindE (previousDate (sh_close_date row)) (\<lambda>lastUsable.
     Inr \<lparr> v_id = sh_id row, v_applicationId = sh_application_id row, v_enterpriseId = sh_enterprise_id row,
       v_createdBy = sh_created_by row, v_lastOperatedBy = sh_last_operated_by row, v_name = sh_name row,
       v_state = sh_status row, v_startDate = sh_start_date row, v_closeDate = sh_close_date row,
       v_lastUsableDate = lastUsable, v_renameAvailable = (sh_rename_count row = 0), v_access = access,
       v_submitted = (case published of None \<Rightarrow> False | Some p \<Rightarrow> \<not> ps_stale p),
       v_status = (case sh_status row of EXPIRED_READONLY \<Rightarrow> Status_EXPIRED | PURGED \<Rightarrow> Status_TRASHED
                   | TRASHED \<Rightarrow> Status_TRASHED | ACTIVE \<Rightarrow> Status_ACTIVE),
       v_published = published, v_customerExportAllowed = exportAllowed \<rparr>)"

definition accessOf :: "Actor \<Rightarrow> ShopAccess" where
  "accessOf actor = (if ADMIN \<in> roles actor then Access_ADMIN else Access_ENTERPRISE)"

definition role_text :: "PlatformRole \<Rightarrow> string" where
  "role_text r = (case r of ACCOUNTANT \<Rightarrow> ''ACCOUNTANT'' | ADMIN \<Rightarrow> ''ADMIN'')"

definition role_texts :: "Actor \<Rightarrow> string list" where
  "role_texts actor = filter (\<lambda>t. \<exists>r \<in> roles actor. role_text r = t) [''ACCOUNTANT'', ''ADMIN'']"

fun state_text :: "ShopState \<Rightarrow> string" where
  "state_text ACTIVE = ''ACTIVE''"
| "state_text EXPIRED_READONLY = ''EXPIRED_READONLY''"
| "state_text TRASHED = ''TRASHED''"
| "state_text PURGED = ''PURGED''"

definition shop_audit ::
    "Actor option \<Rightarrow> string \<Rightarrow> string \<Rightarrow> string option \<Rightarrow> string \<Rightarrow> json_object option \<Rightarrow> json_object option
     \<Rightarrow> AuditRecord" where
  "shop_audit actor shopId action reason requestId before after =
     \<lparr> au_actorAccountId = map_option actor_accountId actor,
       au_actorRoles = (case actor of None \<Rightarrow> [] | Some a \<Rightarrow> role_texts a),
       au_objectType = ''shop'', au_objectId = shopId, au_action = action, au_succeeded = True,
       au_reason = reason, au_requestId = requestId, au_before = before, au_after = after \<rparr>"

section \<open>Tables\<close>

definition live :: "ShopState \<Rightarrow> bool" where
  "live st \<longleftrightarrow> st \<in> {ACTIVE, EXPIRED_READONLY, TRASHED}"

text \<open>The CHECK that ties the state to its three instants.\<close>

definition shop_state_check :: "shop_row \<Rightarrow> bool" where
  "shop_state_check s \<longleftrightarrow>
     (case sh_status s of
        TRASHED \<Rightarrow> sh_trashed_at s \<noteq> None \<and> sh_purge_after s \<noteq> None \<and> sh_purged_at s = None
      | PURGED \<Rightarrow> sh_purged_at s \<noteq> None
      | _ \<Rightarrow> sh_trashed_at s = None \<and> sh_purge_after s = None \<and> sh_purged_at s = None)"

definition shop_checks :: "shop_row \<Rightarrow> bool" where
  "shop_checks s \<longleftrightarrow> 1 \<le> length (btrim (sh_name s)) \<and> length (btrim (sh_name s)) \<le> 120
     \<and> 1 \<le> length (sh_normalized_name s) \<and> length (sh_normalized_name s) \<le> 120
     \<and> sh_start_date s < sh_close_date s \<and> sh_rename_count s \<le> 1 \<and> shop_state_check s"

definition name_taken :: "shop_row \<Rightarrow> shop_row list \<Rightarrow> bool" where
  "name_taken s rows \<longleftrightarrow> live (sh_status s) \<and>
     (\<exists>x \<in> set rows. sh_id x \<noteq> sh_id s \<and> live (sh_status x) \<and> sh_enterprise_id x = sh_enterprise_id s
        \<and> sh_normalized_name x = sh_normalized_name s)"

definition live_name_violation :: err where
  "live_name_violation = SqlError ''23505'' ''shop_enterprise_live_name_uq''"

definition rethrowShopNameConflict :: "err \<Rightarrow> err" where
  "rethrowShopNameConflict e =
     (if e = live_name_violation then AppError ''SHOP_NAME_CONFLICT'' 409 (Some ''name'') else e)"

definition insert_shop :: "shop_row \<Rightarrow> 'z shop_db_scheme \<Rightarrow> 'z shop_db_scheme result" where
  "insert_shop s db =
     (if \<not> shop_checks s then Inl (SqlError ''23514'' ''shop_check'')
      else if \<exists>x \<in> set (shops db). sh_id x = sh_id s then Inl (SqlError ''23505'' ''shop_pkey'')
      else if name_taken s (shops db) then Inl live_name_violation
      else Inr (db\<lparr>shops := shops db @ [s]\<rparr>))"

text \<open>An update of one shop by its key: checks and the unique index are evaluated on the new row.\<close>

definition update_shop ::
    "string \<Rightarrow> (shop_row \<Rightarrow> bool) \<Rightarrow> (shop_row \<Rightarrow> shop_row) \<Rightarrow> 'z shop_db_scheme
     \<Rightarrow> (shop_row option \<times> 'z shop_db_scheme) result" where
  "update_shop sid guard f db =
     (case first_row (\<lambda>s. sh_id s = sid \<and> guard s) (shops db) of
        None \<Rightarrow> Inr (None, db)
      | Some s \<Rightarrow>
          if \<not> shop_checks (f s) then Inl (SqlError ''23514'' ''shop_check'')
          else if name_taken (f s) (shops db) then Inl live_name_violation
          else Inr (Some (f s), db\<lparr>shops := update_rows (\<lambda>x. sh_id x = sid) f (shops db)\<rparr>))"

definition insert_term :: "term_row \<Rightarrow> 'z shop_db_scheme \<Rightarrow> 'z shop_db_scheme result" where
  "insert_term t db =
     (if \<not> st_start_date t < st_close_date t \<or> st_charged_years t \<le> 0 then Inl (SqlError ''23514'' ''shop_term_check'')
      else if \<exists>x \<in> set (shop_terms db). st_id x = st_id t
          \<or> st_shop_id x = st_shop_id t \<and> st_close_date x = st_close_date t
      then Inl (SqlError ''23505'' ''shop_term_key'')
      else Inr (db\<lparr>shop_terms := shop_terms db @ [t]\<rparr>))"

text \<open>The CHECK of \<open>shop_charge\<close> in \<open>migrations/0036\<close>.\<close>

definition charge_check :: "charge_row \<Rightarrow> bool" where
  "charge_check c \<longleftrightarrow> 0 \<le> sc_original c \<and> 0 \<le> sc_charged c \<and>
     (sc_charged c = sc_original c \<and> sc_waiver_type c = None \<and> sc_waiver_reason c = None \<and> sc_ledger_id c \<noteq> None
      \<or> sc_charged c = 0 \<and> sc_original c = 0 \<and> sc_waiver_type c = None \<and> sc_waiver_reason c = None \<and> sc_ledger_id c = None
      \<or> sc_charged c = 0 \<and> sc_waiver_type c = Some ADMIN_FREE
        \<and> (case sc_waiver_reason c of None \<Rightarrow> True | Some r \<Rightarrow> btrim r \<noteq> []) \<and> sc_ledger_id c = None)"

definition insert_charge :: "charge_row \<Rightarrow> 'z shop_db_scheme \<Rightarrow> 'z shop_db_scheme result" where
  "insert_charge c db =
     (if \<not> int64 (sc_original c) then Inl bigint_overflow
      else if \<not> charge_check c then Inl (SqlError ''23514'' ''shop_charge_check'')
      else if \<exists>x \<in> set (shop_charges db). sc_term_id x = sc_term_id c
          \<or> sc_ledger_id c \<noteq> None \<and> sc_ledger_id x = sc_ledger_id c
          \<or> sc_created_by x = sc_created_by c \<and> sc_idempotency_key x = sc_idempotency_key c
      then Inl (SqlError ''23505'' ''shop_charge_key'')
      else Inr (db\<lparr>shop_charges := shop_charges db @ [c]\<rparr>))"

text \<open>The price in force: the latest version that is already effective.\<close>

fun latest_price :: "string \<Rightarrow> nat \<Rightarrow> price_row list \<Rightarrow> price_row option" where
  "latest_price app t [] = None"
| "latest_price app t (p # ps) =
     (if pv_application_id p \<noteq> app \<or> t < pv_effective_from p then latest_price app t ps
      else case latest_price app t ps of
          None \<Rightarrow> Some p
        | Some q \<Rightarrow> if pv_effective_from q \<le> pv_effective_from p then Some p else Some q)"

fun latest_policy :: "string \<Rightarrow> PlatformRole \<Rightarrow> nat \<Rightarrow> policy_row list \<Rightarrow> policy_row option" where
  "latest_policy app r t [] = None"
| "latest_policy app r t (p # ps) =
     (if rp_application_id p \<noteq> app \<or> rp_role p \<noteq> r \<or> t < rp_effective_from p then latest_policy app r t ps
      else case latest_policy app r t ps of
          None \<Rightarrow> Some p
        | Some q \<Rightarrow> if rp_effective_from q \<le> rp_effective_from p then Some p else Some q)"

definition application_active :: "string \<Rightarrow> 'z shop_db_scheme \<Rightarrow> bool" where
  "application_active app db \<longleftrightarrow> (\<exists>a \<in> set (applications db). ap_id a = app \<and> ap_active a)"

definition creation_price :: "Actor \<Rightarrow> clock \<Rightarrow> string \<Rightarrow> 'z shop_db_scheme \<Rightarrow> price_row option" where
  "creation_price actor clk app db =
     (if application_active app db \<and>
         (ADMIN \<in> roles actor \<or> ACCOUNTANT \<in> roles actor \<and>
            (case latest_policy app ACCOUNTANT (now clk) (role_policies db) of
               None \<Rightarrow> False | Some p \<Rightarrow> rp_can_create_shop p))
      then latest_price app (now clk) (price_versions db) else None)"

section \<open>Access\<close>

definition effective_state :: "clock \<Rightarrow> shop_row \<Rightarrow> ShopState" where
  "effective_state clk s =
     (if sh_status s = ACTIVE \<and> sh_close_date s \<le> today clk then EXPIRED_READONLY else sh_status s)"

record EffectiveShopAccessRow =
  ea_id :: string
  ea_enterprise_id :: string
  ea_status :: ShopState
  ea_membership :: "membership_row option"

definition readEffectiveShopAccess ::
    "clock \<Rightarrow> string \<Rightarrow> string \<Rightarrow> 'z shop_db_scheme \<Rightarrow> EffectiveShopAccessRow option" where
  "readEffectiveShopAccess clk shopId actorId db =
     map_option (\<lambda>s. \<lparr> ea_id = sh_id s, ea_enterprise_id = sh_enterprise_id s, ea_status = effective_state clk s,
         ea_membership = first_row (\<lambda>m. sm_shop_id m = sh_id s \<and> sm_account_id m = actorId)
           (shop_memberships db) \<rparr>)
       (first_row (\<lambda>s. sh_id s = shopId) (shops db))"

definition shop_resource :: "shop_row \<Rightarrow> ShopAccessResource" where
  "shop_resource s = \<lparr> res_id = sh_id s, res_enterpriseId = sh_enterprise_id s, res_state = sh_status s \<rparr>"

text \<open>\<open>refreshExpiredShops\<close>: shops whose close date has come become read-only.\<close>

definition expires :: "clock \<Rightarrow> shop_row \<Rightarrow> bool" where
  "expires clk s \<longleftrightarrow> sh_status s = ACTIVE \<and> sh_close_date s \<le> today clk"

definition refreshExpiredShops :: "clock \<Rightarrow> 'z shop_db_scheme \<Rightarrow> 'z shop_db_scheme" where
  "refreshExpiredShops clk db =
     fold (\<lambda>s. audit (shop_audit None (sh_id s) ''SHOP_EXPIRED_READONLY'' None ''system:shop-expiry-refresh''
            (Some [(''state'', Some ''ACTIVE''), (''closeDate'', Some (sh_close_date s))])
            (Some [(''state'', Some ''EXPIRED_READONLY'')])))
       (filter (expires clk) (shops db))
       (db\<lparr>shops := update_rows (expires clk) (\<lambda>s. s\<lparr>sh_status := EXPIRED_READONLY\<rparr>) (shops db)\<rparr>)"

definition active_member :: "string \<Rightarrow> string \<Rightarrow> 'z core_db_scheme \<Rightarrow> bool" where
  "active_member enterpriseId accountId db \<longleftrightarrow>
     (\<exists>m \<in> set (enterprise_members db). em_enterprise_id m = enterpriseId \<and> em_account_id m = Some accountId
        \<and> em_status m = MS_ACTIVE)"

definition list_access :: "Actor \<Rightarrow> 'z shop_db_scheme \<Rightarrow> shop_row \<Rightarrow> (ShopAccess \<times> bool option) option" where
  "list_access actor db s =
     (let em = active_member (sh_enterprise_id s) (actor_accountId actor) db;
          sm = first_row (\<lambda>m. sm_shop_id m = sh_id s \<and> sm_account_id m = actor_accountId actor
                 \<and> sm_status m = Member_ACTIVE) (shop_memberships db);
          admin = ADMIN \<in> roles actor in
      if sh_status s \<noteq> PURGED \<and> (em \<or> admin \<or> sm \<noteq> None \<and> sh_status s \<in> {ACTIVE, EXPIRED_READONLY})
      then Some (if admin then Access_ADMIN else if em then Access_ENTERPRISE else Access_CUSTOMER,
                 Some (case sm of None \<Rightarrow> False | Some m \<Rightarrow> sm_export_allowed m))
      else None)"

text \<open>
  The list of accessible shops (in table order; the code sorts by the time of the last change).
\<close>

definition listAccessible ::
    "clock \<Rightarrow> (string \<Rightarrow> PublishedSnapshot option) \<Rightarrow> Actor \<Rightarrow> string option \<Rightarrow> 'z shop_db_scheme
     \<Rightarrow> (ShopView list \<times> 'z shop_db_scheme) result" where
  "listAccessible clk published actor enterpriseId db =
     (if (case present enterpriseId of None \<Rightarrow> False
          | Some eid \<Rightarrow> ADMIN \<notin> roles actor \<and>
              \<not> (case enterpriseIds actor of None \<Rightarrow> False | Some ids \<Rightarrow> eid \<in> ids))
      then Inl (AppError ''RESOURCE_NOT_FOUND'' 404 None)
      else
        let db1 = refreshExpiredShops clk db in
        bindE (map_result (\<lambda>s. case the (list_access actor db1 s) of (access, exp) \<Rightarrow>
                  view (published (sh_id s)) exp s access)
               (filter (\<lambda>s. list_access actor db1 s \<noteq> None \<and>
                   (case enterpriseId of None \<Rightarrow> True | Some eid \<Rightarrow> sh_enterprise_id s = eid)) (shops db1)))
          (\<lambda>views. Inr (views, db1)))"

end
