(* ===== verification/Phone.thy ===== *)
theory Phone
  imports JsText
begin

text \<open>
  Telephone numbers: \<open>normalizePhone\<close> and \<open>maskPhone\<close> of \<open>src/modules/auth/crypto.ts\<close>. The other
  functions of that file wrap HMAC, SHA-256 and the random source of the platform.
\<close>

section \<open>The code\<close>

text \<open>\<open>/^\+[1-9][0-9]{7,14}$/\<close>, which is also the CHECK of the tables that hold a number.\<close>

fun e164 :: "string \<Rightarrow> bool" where
  "e164 (c # d # s) \<longleftrightarrow> c = CHR ''+'' \<and> is_digit d \<and> d \<noteq> CHR ''0'' \<and>
     7 \<le> length s \<and> length s \<le> 14 \<and> list_all is_digit s"
| "e164 _ \<longleftrightarrow> False"

definition phone_noise :: "char \<Rightarrow> bool" where
  "phone_noise c \<longleftrightarrow> is_space c \<or> c \<in> {CHR ''('', CHR '')'', CHR ''-''}"

definition normalizePhone :: "string \<Rightarrow> string result" where
  "normalizePhone phone =
     (let normalized = filter (\<lambda>c. \<not> phone_noise c) (trim phone) in
      if \<not> e164 normalized then Inl (PlainError ''PHONE_NOT_E164'') else Inr normalized)"

text \<open>\<open>/^\+86([0-9]{11})$/\<close>.\<close>

definition chinese_national :: "string \<Rightarrow> string option" where
  "chinese_national s =
     (if take 3 s = ''+86'' \<and> length s = 14 \<and> list_all is_digit (drop 3 s) then Some (drop 3 s) else None)"

definition last4 :: "string \<Rightarrow> string" where
  "last4 s = drop (length s - 4) s"

definition maskPhone :: "string \<Rightarrow> string" where
  "maskPhone phone =
     (let normalized = trim phone in
      case chinese_national normalized of
        Some n \<Rightarrow> ''+86 '' @ take 3 n @ ''****'' @ last4 n
      | None \<Rightarrow> if length normalized \<le> 7 then ''***'' else take 4 normalized @ ''****'' @ last4 normalized)"

lemmas [code_defs] = phone_noise_def normalizePhone_def chinese_national_def last4_def maskPhone_def

section \<open>What it shows\<close>

lemma e164_parts: "e164 p \<longleftrightarrow> (\<exists>d s. p = CHR ''+'' # d # s \<and> is_digit d \<and> d \<noteq> CHR ''0''
     \<and> 7 \<le> length s \<and> length s \<le> 14 \<and> list_all is_digit s)"
  by (cases p rule: e164.cases) auto

lemma phone_noise_digit: "is_digit c \<Longrightarrow> \<not> phone_noise c"
  using is_digit_not_space by (auto simp: phone_noise_def is_digit_def)

lemma e164_clean: "e164 p \<Longrightarrow> c \<in> set p \<Longrightarrow> \<not> phone_noise c"
  by (auto simp: e164_parts list_all_iff phone_noise_digit) (auto simp: phone_noise_def is_space_def)

lemma e164_trim: "e164 p \<Longrightarrow> trim p = p"
  using e164_clean by (intro trim_no_space) (auto simp: phone_noise_def)

lemma e164_length: "e164 p \<Longrightarrow> 9 \<le> length p \<and> length p \<le> 16"
  by (auto simp: e164_parts)

lemma normalizePhone_Inr_iff [result_iff]:
  "normalizePhone p = Inr q \<longleftrightarrow> q = filter (\<lambda>c. \<not> phone_noise c) (trim p) \<and> e164 q"
  by (auto simp: normalizePhone_def Let_def)

lemma normalizePhone_e164: "e164 p \<Longrightarrow> normalizePhone p = Inr p"
  by (auto simp: normalizePhone_Inr_iff e164_trim e164_clean filter_id_conv)

lemma last4_append: "length z = 4 \<Longrightarrow> last4 (x @ z) = z"
  by (simp add: last4_def)

definition mainland :: "string \<Rightarrow> bool" where
  "mainland p \<longleftrightarrow> chinese_national p \<noteq> None"

text \<open>How many characters in front of the last four a mask shows.\<close>

definition shown :: "string \<Rightarrow> nat" where
  "shown p = (if mainland p then 6 else 4)"

lemma maskPhone_append:
  assumes p: "e164 (a @ m @ z)" and a: "length a = shown (a @ m @ z)" and z: "length z = 4"
  shows "maskPhone (a @ m @ z) = (if mainland (a @ m @ z) then ''+86 '' @ drop 3 a else a) @ ''****'' @ z"
proof (cases "mainland (a @ m @ z)")
  case True
  then have la: "length a = 6" using a by (simp add: shown_def)
  have n: "chinese_national (a @ m @ z) = Some (drop 3 a @ m @ z)"
    using True la by (auto simp: mainland_def chinese_national_def split: if_splits)
  have "last4 (drop 3 a @ m @ z) = z" using last4_append [of z "drop 3 a @ m"] z by simp
  moreover have "take 3 (drop 3 a @ m @ z) = drop 3 a" using la by simp
  ultimately show ?thesis using True n p by (simp add: maskPhone_def Let_def e164_trim)
next
  case False
  then have la: "length a = 4" using a by (simp add: shown_def)
  have "last4 (a @ m @ z) = z" using last4_append [of z "a @ m"] z by simp
  moreover have "\<not> length (a @ m @ z) \<le> 7" using e164_length [OF p] by linarith
  moreover have "chinese_national (a @ m @ z) = None" using False by (simp add: mainland_def)
  ultimately show ?thesis using False p la by (simp add: maskPhone_def Let_def e164_trim)
qed

lemma mainland_same_frame:
  assumes "length m' = length m" and "list_all is_digit m" and "list_all is_digit m'" and "3 \<le> length a"
  shows "mainland (a @ m' @ z) = mainland (a @ m @ z)"
  using assms by (auto simp: mainland_def chinese_national_def list_all_iff split: if_splits)

lemma e164_same_frame:
  assumes "e164 (a @ m @ z)" and "length m' = length m" and "list_all is_digit m'" and "2 \<le> length a"
  shows "e164 (a @ m' @ z)"
proof -
  obtain c d a' where "a = c # d # a'" using assms(4) by (cases a rule: e164.cases) auto
  with assms show ?thesis by simp
qed

text \<open>
  a mask hides the middle of a number. Of an E.164 number it shows a prefix (six characters of
  a mainland number, four of any other) and the last four digits, and whatever digits stand between
  them give the same mask: four hidden digits of a mainland number, otherwise all but eight
  characters, so that the shortest number the code accepts hides a single digit.
\<close>

theorem mask_hides_middle:
  assumes "e164 p"
  shows "\<exists>a m z. p = a @ m @ z \<and> length a = shown p \<and> length z = 4 \<and> m \<noteq> []
     \<and> length m = (if mainland p then 4 else length p - 8)
     \<and> (\<forall>m'. length m' = length m \<and> list_all is_digit m' \<longrightarrow> maskPhone (a @ m' @ z) = maskPhone p)"
proof -
  have len: "9 \<le> length p" using assms e164_length by blast
  have sh: "shown p \<in> {4, 6}" "mainland p \<longrightarrow> length p = 14"
    by (auto simp: shown_def mainland_def chinese_national_def split: if_splits)
  define a m z where "a = take (shown p) p" and "m = take (length p - 4 - shown p) (drop (shown p) p)"
    and "z = last4 p"
  have p: "p = a @ m @ z"
    using len sh append_take_drop_id [of "length p - 4 - shown p" "drop (shown p) p"]
    by (auto simp: a_def m_def z_def last4_def shown_def split: if_splits)
  have lens: "length a = shown p" "length z = 4" "length m = (if mainland p then 4 else length p - 8)"
    using len sh by (auto simp: a_def m_def z_def last4_def shown_def split: if_splits)
  have la: "3 \<le> length a" "2 \<le> length a" using lens(1) sh(1) by auto
  have digits: "list_all is_digit m"
  proof -
    obtain d s where ds: "p = CHR ''+'' # d # s" "list_all is_digit s" "is_digit d" using assms by (auto simp: e164_parts)
    obtain c e a' where "a = c # e # a'" using la(2) by (cases a rule: e164.cases) auto
    with p ds show ?thesis by auto
  qed
  have "maskPhone (a @ m' @ z) = maskPhone p" if m': "length m' = length m" "list_all is_digit m'" for m'
  proof -
    have same: "mainland (a @ m' @ z) = mainland (a @ m @ z)"
      using mainland_same_frame [OF m'(1) digits m'(2) la(1)] .
    then have sh': "shown (a @ m' @ z) = shown p" by (simp add: shown_def p)
    have e: "e164 (a @ m' @ z)" using e164_same_frame [OF _ m'(1) m'(2) la(2)] assms p by metis
    have "maskPhone (a @ m' @ z) = (if mainland p then ''+86 '' @ drop 3 a else a) @ ''****'' @ z"
      using maskPhone_append [OF e] lens(1,2) sh' same p by simp
    moreover have "maskPhone (a @ m @ z) = (if mainland p then ''+86 '' @ drop 3 a else a) @ ''****'' @ z"
      using maskPhone_append [of a m z] assms lens(1,2) p by metis
    ultimately show ?thesis using p by simp
  qed
  moreover have "m \<noteq> []" using lens(3) len by (cases "mainland p") auto
  ultimately show ?thesis using p lens by blast
qed

theorem mask_hides_middle_witness:
  "\<exists>a m z. ''+8613800001234'' = a @ m @ z \<and> length a = shown ''+8613800001234'' \<and> length z = 4 \<and> m \<noteq> []
     \<and> length m = (if mainland ''+8613800001234'' then 4 else length ''+8613800001234'' - 8)
     \<and> (\<forall>m'. length m' = length m \<and> list_all is_digit m' \<longrightarrow>
           maskPhone (a @ m' @ z) = maskPhone ''+8613800001234'')"
proof -
  have "e164 ''+8613800001234''" by (simp add: is_digit_def)
  then show ?thesis by (rule mask_hides_middle)
qed

end
