(* ===== verification/Tables.thy ===== *)
theory Tables
  imports Prelude
begin

text \<open>
  Partial unique indexes: \<open>CREATE UNIQUE INDEX ... (key) WHERE p\<close>. A write checks that no other row
  of the index has the key of the row it leaves; the lemmas say that the table then keeps the index.
\<close>

definition index_taken :: "('r \<Rightarrow> bool) \<Rightarrow> ('r \<Rightarrow> 'k) \<Rightarrow> ('r \<Rightarrow> 'i) \<Rightarrow> 'r \<Rightarrow> 'r list \<Rightarrow> bool" where
  "index_taken p key ident r t \<longleftrightarrow> p r \<and> (\<exists>x \<in> set t. ident x \<noteq> ident r \<and> p x \<and> key x = key r)"

definition indexed :: "('r \<Rightarrow> bool) \<Rightarrow> ('r \<Rightarrow> 'k) \<Rightarrow> ('r \<Rightarrow> 'i) \<Rightarrow> 'r list \<Rightarrow> bool" where
  "indexed p key ident t \<longleftrightarrow>
     (\<forall>x \<in> set t. \<forall>y \<in> set t. p x \<and> p y \<and> key x = key y \<longrightarrow> ident x = ident y)"

lemma indexed_Nil [simp]: "indexed p key ident []"
  by (simp add: indexed_def)

lemma indexedD: "indexed p key ident t \<Longrightarrow> x \<in> set t \<Longrightarrow> y \<in> set t \<Longrightarrow> p x \<Longrightarrow> p y \<Longrightarrow> key x = key y \<Longrightarrow> ident x = ident y"
  unfolding indexed_def by blast

lemma indexed_append:
  assumes "indexed p key ident t" and "\<not> index_taken p key ident r t"
  shows "indexed p key ident (t @ [r])"
  unfolding indexed_def
proof (intro ballI impI)
  fix x y
  assume "x \<in> set (t @ [r])" "y \<in> set (t @ [r])" and k: "p x \<and> p y \<and> key x = key y"
  then have "x = r \<or> x \<in> set t" "y = r \<or> y \<in> set t" by auto
  then show "ident x = ident y" using k assms unfolding indexed_def index_taken_def by metis
qed

lemma distinct_row: "distinct (map ident t) \<Longrightarrow> x \<in> set t \<Longrightarrow> y \<in> set t \<Longrightarrow> ident x = ident y \<Longrightarrow> x = y"
  by (auto simp: distinct_map inj_on_def)

text \<open>One row rewritten under its key.\<close>

lemma update_one_rows:
  assumes "distinct (map ident t)" and "r \<in> set t" and "x \<in> set (update_rows (\<lambda>x. ident x = ident r) f t)"
  shows "x = f r \<or> x \<in> set t \<and> ident x \<noteq> ident r"
proof -
  obtain y where y: "y \<in> set t" "x = (if ident y = ident r then f y else y)"
    using assms(3) by (auto simp: in_update_rows)
  show ?thesis
  proof (cases "ident y = ident r")
    case True
    then have "y = r" using distinct_row [OF assms(1) y(1) assms(2)] by simp
    with y True show ?thesis by simp
  next
    case False
    with y show ?thesis by simp
  qed
qed

lemma update_one_in: "r \<in> set t \<Longrightarrow> f r \<in> set (update_rows (\<lambda>x. ident x = ident r) f t)"
  by (auto simp: in_update_rows intro: bexI [of _ r])

lemma indexed_update_one:
  assumes d: "distinct (map ident t)" and r: "r \<in> set t" and i: "ident (f r) = ident r"
    and ix: "indexed p key ident t" and free: "\<not> index_taken p key ident (f r) t"
  shows "indexed p key ident (update_rows (\<lambda>x. ident x = ident r) f t)"
  unfolding indexed_def
proof (intro ballI impI)
  fix x y
  assume "x \<in> set (update_rows (\<lambda>x. ident x = ident r) f t)" "y \<in> set (update_rows (\<lambda>x. ident x = ident r) f t)"
    and k: "p x \<and> p y \<and> key x = key y"
  then have "x = f r \<or> x \<in> set t \<and> ident x \<noteq> ident r" "y = f r \<or> y \<in> set t \<and> ident y \<noteq> ident r"
    using update_one_rows [OF d r] by blast+
  then show "ident x = ident y" using k ix free i unfolding indexed_def index_taken_def by metis
qed

text \<open>Any number of rows rewritten so that none enters the index or changes its key there.\<close>

lemma indexed_update_leaving:
  assumes "indexed p key ident t" and "\<And>x. x \<in> set t \<Longrightarrow> q x \<Longrightarrow> ident (f x) = ident x"
    and "\<And>x. x \<in> set t \<Longrightarrow> q x \<Longrightarrow> p (f x) \<Longrightarrow> p x \<and> key (f x) = key x"
  shows "indexed p key ident (update_rows q f t)"
  unfolding indexed_def
proof (intro ballI impI)
  fix x y
  assume "x \<in> set (update_rows q f t)" "y \<in> set (update_rows q f t)" and k: "p x \<and> p y \<and> key x = key y"
  then obtain x' y' where x: "x' \<in> set t" "x = (if q x' then f x' else x')"
    and y: "y' \<in> set t" "y = (if q y' then f y' else y')" by (auto simp: in_update_rows)
  have "p x' \<and> key x = key x' \<and> ident x = ident x'" using x k assms(2,3) [of x'] by (cases "q x'") auto
  moreover have "p y' \<and> key y = key y' \<and> ident y = ident y'" using y k assms(2,3) [of y'] by (cases "q y'") auto
  ultimately show "ident x = ident y" using indexedD [OF assms(1) x(1) y(1)] k by simp
qed

lemma map_ident_update: "(\<And>x. x \<in> set t \<Longrightarrow> q x \<Longrightarrow> g (f x) = g x) \<Longrightarrow> map g (update_rows q f t) = map g t"
  by (induction t) auto

lemma list_all_update_one:
  "distinct (map ident t) \<Longrightarrow> r \<in> set t \<Longrightarrow> list_all P t \<Longrightarrow> P (f r) \<Longrightarrow>
   list_all P (update_rows (\<lambda>x. ident x = ident r) f t)"
  unfolding list_all_iff using update_one_rows by metis

lemma count_update_one:
  assumes "distinct (map ident t)" and "r \<in> set t"
  shows "int (count_rows q (update_rows (\<lambda>x. ident x = ident r) f t))
       = int (count_rows q t) - (if q r then 1 else 0) + (if q (f r) then 1 else 0)"
  using assms
proof (induction t)
  case (Cons a t)
  show ?case
  proof (cases "a = r")
    case True
    then have "update_rows (\<lambda>x. ident x = ident r) f t = t"
      using Cons.prems(1) by (intro update_rows_id) (auto simp: image_iff)
    with True show ?thesis by (simp add: count_rows_def)
  next
    case False
    then have "r \<in> set t" and "ident a \<noteq> ident r" using Cons.prems by (auto simp: image_iff)
    with Cons show ?thesis by (cases "q r"; cases "q (f r)") (simp_all add: count_rows_def)
  qed
qed simp

lemma count_rows_append [simp]: "count_rows p (s @ t) = count_rows p s + count_rows p t"
  by (simp add: count_rows_def)

lemma count_rows_pos: "0 < count_rows p t \<longleftrightarrow> (\<exists>r \<in> set t. p r)"
  by (induction t) (auto simp: count_rows_def)

end
