(* ===== verification/Enterprises.thy ===== *)
theory Enterprises
  imports Shops Phone Tables
begin

text \<open>
  Enterprises and the accountants that work for them: \<open>src/modules/enterprises/service.ts\<close> over the
  tables of \<open>migrations/0034\<close>. A new enterprise gets its creator as first member and a wallet of its
  own; members are invited by their number, become active when the number has an account, and are
  removed for a reason, but never the last one. Whether a shop has submitted its results and the
  picture of an account belong to other parts and are parameters; time stamps are left out, a table
  is in the order of insertion.
\<close>

section \<open>Views and inputs\<close>

record EnterpriseWallet =
  ew_id :: string
  ew_balanceCents :: string
  ew_status :: WalletStatus

record EnterpriseView =
  ev_id :: string
  ev_createdByAccountId :: string
  ev_name :: string
  ev_unifiedSocialCreditCode :: "string option"
  ev_profileComplete :: bool
  ev_memberCount :: nat
  ev_companyCount :: nat
  ev_notStartedCount :: int
  ev_submittedCount :: nat
  ev_wallet :: EnterpriseWallet
  ev_canEditName :: bool
  ev_canEditCreditCode :: bool

record EnterpriseMemberView =
  mv_id :: string
  mv_accountId :: "string option"
  mv_displayName :: "string option"
  mv_phoneMasked :: string
  mv_avatarId :: "nat option"
  mv_status :: member_status

record CreateEnterprise =
  ce_name :: string
  ce_creditCode :: string
  ce_requestId :: string

record UpdateProfile =
  up_enterpriseId :: string
  up_name :: "string option"
  up_creditCode :: "string option"
  up_requestId :: string

record AddMember =
  am_enterpriseId :: string
  am_phone :: string
  am_displayName :: "string option"
  am_requestId :: string

record RemoveMember =
  rm_enterpriseId :: string
  rm_memberId :: string
  rm_reason :: string
  rm_requestId :: string

section \<open>Names and credit codes\<close>

definition normalizeName :: "unicode \<Rightarrow> string \<Rightarrow> (string \<times> string) result" where
  "normalizeName u v =
     (let nm = collapse_spaces (trim (nfkc u v)) in
      if length nm < 1 \<or> length nm > 120 then Inl (AppError ''ENTERPRISE_NAME_INVALID'' 400 (Some ''name''))
      else Inr (nm, zh_lower u nm))"

text \<open>\<open>/^[0-9A-Z]{18}$/\<close>, also the CHECK of the column.\<close>

definition credit_code :: "string \<Rightarrow> bool" where
  "credit_code s \<longleftrightarrow> length s = 18 \<and> list_all (\<lambda>c. is_digit c \<or> is_upper c) s"

definition normalizeCreditCode :: "string \<Rightarrow> string result" where
  "normalizeCreditCode v =
     (let code = js_upper (trim v) in
      if \<not> credit_code code
      then Inl (AppError ''ENTERPRISE_CREDIT_CODE_INVALID'' 400 (Some ''unifiedSocialCreditCode''))
      else Inr code)"

section \<open>Tables\<close>

definition enterprise_checks :: "enterprise_row \<Rightarrow> bool" where
  "enterprise_checks e \<longleftrightarrow> 1 \<le> length (btrim (en_name e)) \<and> length (btrim (en_name e)) \<le> 120
     \<and> 1 \<le> length (en_normalized_name e) \<and> length (en_normalized_name e) \<le> 120
     \<and> (case en_credit_code e of None \<Rightarrow> True | Some c \<Rightarrow> credit_code c)"

definition code_taken :: "enterprise_row \<Rightarrow> enterprise_row list \<Rightarrow> bool" where
  "code_taken = index_taken (\<lambda>e. en_credit_code e \<noteq> None) en_credit_code en_id"

definition account_fk :: "string \<Rightarrow> 'z core_db_scheme \<Rightarrow> bool" where
  "account_fk aid db \<longleftrightarrow> aid \<in> ac_id ` set (accounts db)"

definition insert_enterprise :: "enterprise_row \<Rightarrow> 'z core_db_scheme \<Rightarrow> 'z core_db_scheme result" where
  "insert_enterprise e db =
     (if \<not> enterprise_checks e then Inl (SqlError ''23514'' ''enterprise_check'')
      else if \<exists>x \<in> set (enterprises db). en_id x = en_id e then Inl (SqlError ''23505'' ''enterprise_pkey'')
      else if code_taken e (enterprises db) then Inl (SqlError ''23505'' ''enterprise_credit_code_uq'')
      else if \<not> account_fk (en_created_by e) db
      then Inl (SqlError ''23503'' ''enterprise_created_by_account_id_fkey'')
      else Inr (db\<lparr>enterprises := enterprises db @ [e]\<rparr>))"

definition update_enterprise ::
    "string \<Rightarrow> (enterprise_row \<Rightarrow> enterprise_row) \<Rightarrow> 'z core_db_scheme \<Rightarrow> 'z core_db_scheme result" where
  "update_enterprise eid f db =
     (case first_row (\<lambda>e. en_id e = eid) (enterprises db) of
        None \<Rightarrow> Inr db
      | Some e \<Rightarrow>
          if \<not> enterprise_checks (f e) then Inl (SqlError ''23514'' ''enterprise_check'')
          else if code_taken (f e) (enterprises db) then Inl (SqlError ''23505'' ''enterprise_credit_code_uq'')
          else Inr (db\<lparr>enterprises := update_rows (\<lambda>x. en_id x = eid) f (enterprises db)\<rparr>))"

definition member_checks :: "enterprise_member_row \<Rightarrow> bool" where
  "member_checks m \<longleftrightarrow> e164 (em_phone m) \<and> 0 < em_epoch m
     \<and> (case em_display_name m of None \<Rightarrow> True
        | Some d \<Rightarrow> d = btrim d \<and> 1 \<le> length d \<and> length d \<le> 80)
     \<and> (case em_status m of
          MS_PENDING \<Rightarrow> em_account_id m = None \<and> em_revoke_reason m = None
        | MS_ACTIVE \<Rightarrow> em_account_id m \<noteq> None \<and> em_revoke_reason m = None
        | MS_REVOKED \<Rightarrow> (case em_revoke_reason m of None \<Rightarrow> True | Some r \<Rightarrow> btrim r \<noteq> []))"

definition live_phone_taken :: "enterprise_member_row \<Rightarrow> enterprise_member_row list \<Rightarrow> bool" where
  "live_phone_taken = index_taken (\<lambda>m. em_status m \<noteq> MS_REVOKED) (\<lambda>m. (em_enterprise_id m, em_phone m)) em_id"

definition active_account_taken :: "enterprise_member_row \<Rightarrow> enterprise_member_row list \<Rightarrow> bool" where
  "active_account_taken = index_taken (\<lambda>m. em_status m = MS_ACTIVE) (\<lambda>m. (em_enterprise_id m, em_account_id m)) em_id"

definition member_violation :: "enterprise_member_row \<Rightarrow> 'z core_db_scheme \<Rightarrow> err option" where
  "member_violation m db =
     (if \<not> member_checks m then Some (SqlError ''23514'' ''enterprise_member_check'')
      else if live_phone_taken m (enterprise_members db)
      then Some (SqlError ''23505'' ''enterprise_member_live_phone_uq'')
      else if active_account_taken m (enterprise_members db)
      then Some (SqlError ''23505'' ''enterprise_member_active_account_uq'')
      else if \<not> account_fk (em_invited_by m) db
      then Some (SqlError ''23503'' ''enterprise_member_invited_by_account_id_fkey'')
      else None)"

definition insert_member :: "enterprise_member_row \<Rightarrow> 'z core_db_scheme \<Rightarrow> 'z core_db_scheme result" where
  "insert_member m db =
     (if \<exists>x \<in> set (enterprise_members db). em_id x = em_id m then Inl (SqlError ''23505'' ''enterprise_member_pkey'')
      else case member_violation m db of
        Some e \<Rightarrow> Inl e
      | None \<Rightarrow> Inr (db\<lparr>enterprise_members := enterprise_members db @ [m]\<rparr>))"

definition update_member ::
    "(enterprise_member_row \<Rightarrow> bool) \<Rightarrow> (enterprise_member_row \<Rightarrow> enterprise_member_row)
     \<Rightarrow> 'z core_db_scheme \<Rightarrow> (enterprise_member_row option \<times> 'z core_db_scheme) result" where
  "update_member p f db =
     (case first_row p (enterprise_members db) of
        None \<Rightarrow> Inr (None, db)
      | Some m \<Rightarrow>
          (case member_violation (f m) db of
             Some e \<Rightarrow> Inl e
           | None \<Rightarrow> Inr (Some (f m),
               db\<lparr>enterprise_members := update_rows (\<lambda>x. em_id x = em_id m) f (enterprise_members db)\<rparr>)))"

text \<open>\<open>INSERT INTO wallet_account(enterprise_id)\<close> with the defaults of the other columns.\<close>

definition insert_wallet :: "string \<Rightarrow> string \<Rightarrow> 'z wallet_db_scheme \<Rightarrow> 'z wallet_db_scheme result" where
  "insert_wallet wid eid db =
     (if \<exists>w \<in> set (wallets db). wa_id w = wid \<or> wa_enterprise_id w = Some eid
      then Inl (SqlError ''23505'' ''wallet_account_key'')
      else Inr (db\<lparr>wallets := wallets db @ [\<lparr> wa_id = wid, wa_enterprise_id = Some eid, wa_owner_account_id = None,
             wa_balance_cents = 0, wa_status = Wallet_ACTIVE, wa_version = 0 \<rparr>]\<rparr>))"

section \<open>Operations\<close>

definition requireAccess :: "Actor \<Rightarrow> string \<Rightarrow> unit result" where
  "requireAccess actor enterpriseId =
     (if ADMIN \<notin> roles actor \<and> \<not> (case enterpriseIds actor of None \<Rightarrow> False | Some ids \<Rightarrow> enterpriseId \<in> ids)
      then Inl (AppError ''RESOURCE_NOT_FOUND'' 404 None) else Inr ())"

definition enterprise_audit ::
    "Actor \<Rightarrow> string \<Rightarrow> string \<Rightarrow> string \<Rightarrow> string option \<Rightarrow> string \<Rightarrow> json_object option \<Rightarrow> json_object option
     \<Rightarrow> AuditRecord" where
  "enterprise_audit actor kind oid action reason requestId before after =
     \<lparr> au_actorAccountId = Some (actor_accountId actor), au_actorRoles = role_texts actor,
       au_objectType = kind, au_objectId = oid, au_action = action, au_succeeded = True,
       au_reason = reason, au_requestId = requestId, au_before = before, au_after = after \<rparr>"

definition enterprise_visible :: "Actor \<Rightarrow> 'z core_db_scheme \<Rightarrow> enterprise_row \<Rightarrow> bool" where
  "enterprise_visible actor db e \<longleftrightarrow> ADMIN \<in> roles actor \<or>
     (\<exists>m \<in> set (enterprise_members db). em_enterprise_id m = en_id e
        \<and> em_account_id m = Some (actor_accountId actor) \<and> em_status m = MS_ACTIVE)"

definition enterprise_view ::
    "(string \<Rightarrow> bool) \<Rightarrow> Actor \<Rightarrow> 'z shop_db_scheme \<Rightarrow> enterprise_row \<Rightarrow> wallet_row \<Rightarrow> EnterpriseView" where
  "enterprise_view submitted actor db e w =
     (let companyCount = count_rows (\<lambda>s. sh_enterprise_id s = en_id e \<and> sh_status s \<noteq> PURGED) (shops db);
          submittedCount = count_rows (\<lambda>s. sh_enterprise_id s = en_id e \<and> sh_status s \<noteq> PURGED
              \<and> submitted (sh_id s)) (shops db) in
      \<lparr> ev_id = en_id e, ev_createdByAccountId = en_created_by e, ev_name = en_name e,
        ev_unifiedSocialCreditCode = present (en_credit_code e),
        ev_profileComplete = (present (en_credit_code e) \<noteq> None),
        ev_memberCount = count_rows (\<lambda>m. em_enterprise_id m = en_id e \<and> em_status m = MS_ACTIVE) (enterprise_members db),
        ev_companyCount = companyCount, ev_notStartedCount = int companyCount - int submittedCount,
        ev_submittedCount = submittedCount,
        ev_wallet = \<lparr> ew_id = wa_id w, ew_balanceCents = int_str (wa_balance_cents w), ew_status = wa_status w \<rparr>,
        ev_canEditName = (ADMIN \<in> roles actor \<or> en_created_by e = actor_accountId actor),
        ev_canEditCreditCode = (ADMIN \<in> roles actor) \<rparr>)"

definition enterprise_list :: "(string \<Rightarrow> bool) \<Rightarrow> Actor \<Rightarrow> 'z shop_db_scheme \<Rightarrow> EnterpriseView list" where
  "enterprise_list submitted actor db =
     concat (map (\<lambda>e. map (enterprise_view submitted actor db e)
          (filter (\<lambda>w. wa_enterprise_id w = Some (en_id e)) (wallets db)))
        (filter (enterprise_visible actor db) (enterprises db)))"

definition credit_conflict :: "err \<Rightarrow> err" where
  "credit_conflict e = (case e of
       SqlError st _ \<Rightarrow> if st = ''23505''
         then AppError ''ENTERPRISE_CREDIT_CODE_CONFLICT'' 409 (Some ''unifiedSocialCreditCode'') else e
     | _ \<Rightarrow> e)"

text \<open>The transaction of \<open>create\<close>; the three identifiers are drawn at random.\<close>

definition create_enterprise_tx ::
    "Actor \<Rightarrow> string \<times> string \<times> string \<Rightarrow> string \<times> string \<Rightarrow> string \<Rightarrow> string \<Rightarrow> 'z wallet_db_scheme
     \<Rightarrow> 'z wallet_db_scheme result" where
  "create_enterprise_tx actor fresh_ids names code requestId db =
     (case fresh_ids of (eid, mid, wid) \<Rightarrow>
      bindE (map_sum credit_conflict id (insert_enterprise
          \<lparr> en_id = eid, en_name = fst names, en_normalized_name = snd names, en_credit_code = Some code,
            en_created_by = actor_accountId actor \<rparr> db)) (\<lambda>db1.
      case first_row (\<lambda>a. ac_id a = actor_accountId actor) (accounts db1) of
        None \<Rightarrow> Inl (AppError ''ACCOUNT_NOT_FOUND'' 404 None)
      | Some a \<Rightarrow>
      bindE (insert_member \<lparr> em_id = mid, em_enterprise_id = eid, em_account_id = Some (actor_accountId actor),
          em_phone = ac_phone a, em_display_name = ac_display_name a, em_status = MS_ACTIVE, em_epoch = 1,
          em_invited_by = actor_accountId actor, em_revoke_reason = None \<rparr> db1) (\<lambda>db2.
      bindE (insert_wallet wid eid db2) (\<lambda>db3.
      Inr (audit (enterprise_audit actor ''enterprise'' eid ''ENTERPRISE_CREATED'' None requestId None
        (Some [(''name'', Some (fst names)), (''unifiedSocialCreditCode'', Some code)])) db3)))))"

text \<open>What is committed stays committed when the enterprise cannot be read back.\<close>

definition create_enterprise ::
    "(string \<Rightarrow> bool) \<Rightarrow> unicode \<Rightarrow> Actor \<Rightarrow> string \<times> string \<times> string \<Rightarrow> CreateEnterprise
     \<Rightarrow> 'z shop_db_scheme \<Rightarrow> EnterpriseView result \<times> 'z shop_db_scheme" where
  "create_enterprise submitted u actor fresh_ids input db =
     (if ACCOUNTANT \<notin> roles actor then (Inl (AppError ''RESOURCE_NOT_FOUND'' 404 None), db)
      else case bindE (normalizeName u (ce_name input)) (\<lambda>names.
          bindE (normalizeCreditCode (ce_creditCode input)) (\<lambda>code.
          create_enterprise_tx actor fresh_ids names code (ce_requestId input) db)) of
        Inl e \<Rightarrow> (Inl e, db)
      | Inr db' \<Rightarrow>
          let nextActor = actor\<lparr>enterpriseIds := Some (insert (fst fresh_ids)
                (case enterpriseIds actor of None \<Rightarrow> {} | Some ids \<Rightarrow> ids))\<rparr> in
          (case find (\<lambda>v. ev_id v = fst fresh_ids) (enterprise_list submitted nextActor db') of
             None \<Rightarrow> (Inl (PlainError ''ENTERPRISE_NOT_READABLE''), db')
           | Some v \<Rightarrow> (Inr v, db')))"

definition updateProfile :: "unicode \<Rightarrow> Actor \<Rightarrow> UpdateProfile \<Rightarrow> 'z core_db_scheme \<Rightarrow> 'z core_db_scheme result" where
  "updateProfile u actor input db =
     bindE (requireAccess actor (up_enterpriseId input)) (\<lambda>_.
     if up_name input = None \<and> up_creditCode input = None
     then Inl (AppError ''ENTERPRISE_PROFILE_EMPTY'' 400 None)
     else
     bindE (case up_name input of None \<Rightarrow> Inr None | Some n \<Rightarrow> bindE (normalizeName u n) (Inr \<circ> Some)) (\<lambda>names.
     bindE (case up_creditCode input of None \<Rightarrow> Inr None | Some c \<Rightarrow> bindE (normalizeCreditCode c) (Inr \<circ> Some)) (\<lambda>code.
     case first_row (\<lambda>e. en_id e = up_enterpriseId input) (enterprises db) of
       None \<Rightarrow> Inl (AppError ''RESOURCE_NOT_FOUND'' 404 None)
     | Some before \<Rightarrow>
     if names \<noteq> None \<and> ADMIN \<notin> roles actor \<and> en_created_by before \<noteq> actor_accountId actor
     then Inl (AppError ''ENTERPRISE_NAME_FORBIDDEN'' 403 (Some ''name''))
     else if code \<noteq> None \<and> ADMIN \<notin> roles actor
     then Inl (AppError ''ENTERPRISE_CREDIT_CODE_FORBIDDEN'' 403 (Some ''unifiedSocialCreditCode''))
     else
     bindE (map_sum credit_conflict id (update_enterprise (up_enterpriseId input)
         (\<lambda>e. e\<lparr>en_name := (case names of None \<Rightarrow> en_name e | Some n \<Rightarrow> fst n),
                en_normalized_name := (case names of None \<Rightarrow> en_normalized_name e | Some n \<Rightarrow> snd n),
                en_credit_code := (case code of None \<Rightarrow> en_credit_code e | Some c \<Rightarrow> Some c)\<rparr>) db)) (\<lambda>db1.
     Inr (audit (enterprise_audit actor ''enterprise'' (up_enterpriseId input) ''ENTERPRISE_PROFILE_UPDATED'' None
       (up_requestId input)
       (Some [(''name'', Some (en_name before)), (''unifiedSocialCreditCode'', en_credit_code before)])
       (Some [(''name'', Some (case names of None \<Rightarrow> en_name before | Some n \<Rightarrow> fst n)),
         (''unifiedSocialCreditCode'', case code of None \<Rightarrow> en_credit_code before | Some c \<Rightarrow> Some c)])) db1)))))"

text \<open>Active members first; \<open>avatar\<close> is the picture of an account.\<close>

definition member_view ::
    "(string \<Rightarrow> nat option) \<Rightarrow> 'z core_db_scheme \<Rightarrow> enterprise_member_row \<Rightarrow> EnterpriseMemberView" where
  "member_view avatar db m =
     (let acc = (case em_account_id m of None \<Rightarrow> None | Some i \<Rightarrow> first_row (\<lambda>a. ac_id a = i) (accounts db)) in
      \<lparr> mv_id = em_id m, mv_accountId = present (em_account_id m),
        mv_displayName = present (case em_display_name m of Some d \<Rightarrow> Some d
           | None \<Rightarrow> (case acc of None \<Rightarrow> None | Some a \<Rightarrow> ac_display_name a)),
        mv_phoneMasked = maskPhone (em_phone m),
        mv_avatarId = (case acc of None \<Rightarrow> None | Some a \<Rightarrow> avatar (ac_id a)),
        mv_status = em_status m \<rparr>)"

definition listMembers ::
    "(string \<Rightarrow> nat option) \<Rightarrow> Actor \<Rightarrow> string \<Rightarrow> 'z core_db_scheme \<Rightarrow> EnterpriseMemberView list result" where
  "listMembers avatar actor enterpriseId db =
     bindE (requireAccess actor enterpriseId) (\<lambda>_.
     let mine = (\<lambda>st. filter (\<lambda>m. em_enterprise_id m = enterpriseId \<and> em_status m = st) (enterprise_members db)) in
     Inr (map (member_view avatar db) (mine MS_ACTIVE @ mine MS_PENDING)))"

fun member_status_text :: "member_status \<Rightarrow> string" where
  "member_status_text MS_PENDING = ''PENDING''"
| "member_status_text MS_ACTIVE = ''ACTIVE''"
| "member_status_text MS_REVOKED = ''REVOKED''"

text \<open>The transaction of \<open>addMember\<close>; \<open>newId\<close> is the identifier a new row would get.\<close>

definition add_member_tx ::
    "Actor \<Rightarrow> string \<Rightarrow> AddMember \<Rightarrow> string \<Rightarrow> string option \<Rightarrow> 'z core_db_scheme \<Rightarrow> (string \<times> 'z core_db_scheme) result" where
  "add_member_tx actor newId input phone displayName db =
     (case first_row (\<lambda>e. en_id e = am_enterpriseId input) (enterprises db) of
        None \<Rightarrow> Inl (AppError ''ENTERPRISE_PROFILE_INCOMPLETE'' 409 None)
      | Some e \<Rightarrow>
      if present (en_credit_code e) = None then Inl (AppError ''ENTERPRISE_PROFILE_INCOMPLETE'' 409 None)
      else
      let existing = first_row (\<lambda>m. em_enterprise_id m = am_enterpriseId input \<and> em_phone m = phone)
            (rev (enterprise_members db));
          accountId = map_option ac_id (first_row (\<lambda>a. ac_phone a = phone \<and> ac_registered a) (accounts db));
          status = (if accountId \<noteq> None then MS_ACTIVE else MS_PENDING);
          added = (\<lambda>i. audit (enterprise_audit actor ''enterprise_member'' i ''ENTERPRISE_MEMBER_ADDED'' None
            (am_requestId input) None
            (Some [(''enterpriseId'', Some (am_enterpriseId input)), (''status'', Some (member_status_text status))]))) in
      (case existing of
        Some m \<Rightarrow>
          if em_status m \<noteq> MS_REVOKED then Inr (em_id m, db)
          else
          bindE (update_member (\<lambda>x. em_id x = em_id m)
            (\<lambda>x. x\<lparr>em_account_id := accountId, em_display_name := displayName, em_status := status,
               em_epoch := em_epoch x + 1, em_revoke_reason := None, em_invited_by := actor_accountId actor\<rparr>) db)
            (\<lambda>(row, db1). case row of None \<Rightarrow> Inl (PlainError ''MEMBER_NOT_ADDED'')
               | Some r \<Rightarrow> Inr (em_id r, added (em_id r) db1))
      | None \<Rightarrow>
          bindE (insert_member \<lparr> em_id = newId, em_enterprise_id = am_enterpriseId input, em_account_id = accountId,
              em_phone = phone, em_display_name = displayName, em_status = status, em_epoch = 1,
              em_invited_by = actor_accountId actor, em_revoke_reason = None \<rparr> db)
            (\<lambda>db1. Inr (newId, added newId db1))))"

definition addMember ::
    "(string \<Rightarrow> nat option) \<Rightarrow> unicode \<Rightarrow> Actor \<Rightarrow> string \<Rightarrow> AddMember \<Rightarrow> 'z core_db_scheme
     \<Rightarrow> EnterpriseMemberView result \<times> 'z core_db_scheme" where
  "addMember avatar u actor newId input db =
     (case bindE (requireAccess actor (am_enterpriseId input)) (\<lambda>_.
          bindE (normalizePhone (am_phone input)) (\<lambda>phone.
          let displayName = present (map_option (\<lambda>d. nfc u (trim d)) (am_displayName input)) in
          if (case displayName of None \<Rightarrow> False | Some d \<Rightarrow> length d > 80)
          then Inl (AppError ''MEMBER_NAME_INVALID'' 400 (Some ''displayName''))
          else add_member_tx actor newId input phone displayName db)) of
        Inl e \<Rightarrow> (Inl e, db)
      | Inr (mid, db') \<Rightarrow>
          (case listMembers avatar actor (am_enterpriseId input) db' of
             Inl e \<Rightarrow> (Inl e, db')
           | Inr views \<Rightarrow>
               (case find (\<lambda>v. mv_id v = mid) views of
                  None \<Rightarrow> (Inl (PlainError ''MEMBER_NOT_READABLE''), db')
                | Some v \<Rightarrow> (Inr v, db'))))"

definition removeMember :: "Actor \<Rightarrow> RemoveMember \<Rightarrow> 'z core_db_scheme \<Rightarrow> 'z core_db_scheme result" where
  "removeMember actor input db =
     bindE (requireAccess actor (rm_enterpriseId input)) (\<lambda>_.
     let reason = trim (rm_reason input);
         selected = (\<lambda>m. em_id m = rm_memberId input \<and> em_enterprise_id m = rm_enterpriseId input) in
     if reason = [] then Inl (AppError ''REASON_REQUIRED'' 400 (Some ''reason''))
     else case first_row selected (enterprise_members db) of
       None \<Rightarrow> Inl (AppError ''RESOURCE_NOT_FOUND'' 404 None)
     | Some row \<Rightarrow>
     if em_status row = MS_REVOKED then Inl (AppError ''RESOURCE_NOT_FOUND'' 404 None)
     else if em_status row = MS_ACTIVE \<and>
        count_rows (\<lambda>m. em_enterprise_id m = rm_enterpriseId input \<and> em_status m = MS_ACTIVE) (enterprise_members db) \<le> 1
     then Inl (AppError ''ENTERPRISE_LAST_MEMBER'' 409 None)
     else
     bindE (update_member selected
       (\<lambda>m. m\<lparr>em_status := MS_REVOKED, em_epoch := em_epoch m + 1, em_revoke_reason := Some reason\<rparr>) db) (\<lambda>(_, db1).
     Inr (audit (enterprise_audit actor ''enterprise_member'' (rm_memberId input) ''ENTERPRISE_MEMBER_REVOKED''
       (Some reason) (rm_requestId input)
       (Some [(''status'', Some (member_status_text (em_status row)))])
       (Some [(''status'', Some ''REVOKED''), (''enterpriseId'', Some (rm_enterpriseId input))])) db1)))"

lemmas [code_defs] = normalizeName_def js_upper_def credit_code_def normalizeCreditCode_def enterprise_checks_def
  code_taken_def index_taken_def account_fk_def insert_enterprise_def update_enterprise_def member_checks_def live_phone_taken_def
  active_account_taken_def member_violation_def insert_member_def update_member_def insert_wallet_def
  requireAccess_def create_enterprise_tx_def updateProfile_def add_member_tx_def removeMember_def

end
