(* ===== verification/ShopOps.thy ===== *)
theory ShopOps
  imports Shops
begin

text \<open>
  The operations on shops, \<open>src/modules/shops/service.ts\<close>: \<open>create\<close>, \<open>renew\<close>, \<open>rename\<close>,
  \<open>changeLifecycle\<close> and \<open>bulkTrash\<close>, each one transaction. The identifiers the database draws
  for a new shop and its term are arguments.
\<close>

section \<open>Idempotent charges\<close>

text \<open>The joined row of an earlier charge under the same key of the same account.\<close>

record IdempotentShopCharge =
  ic_shop :: shop_row
  ic_term :: term_row
  ic_charge :: charge_row
  ic_original_name :: string

definition original_name :: "shop_row \<Rightarrow> 'z shop_db_scheme \<Rightarrow> string" where
  "original_name s db =
     (case first_row (\<lambda>h. nh_shop_id h = sh_id s) (name_history db) of
        None \<Rightarrow> sh_name s | Some h \<Rightarrow> nh_old_name h)"

definition prior_charge :: "string \<Rightarrow> string \<Rightarrow> 'z shop_db_scheme \<Rightarrow> IdempotentShopCharge option" where
  "prior_charge actorId key db =
     (case first_row (\<lambda>c. sc_created_by c = actorId \<and> sc_idempotency_key c = key) (shop_charges db) of
        None \<Rightarrow> None
      | Some c \<Rightarrow>
          (case (first_row (\<lambda>s. sh_id s = sc_shop_id c) (shops db),
                 first_row (\<lambda>t. st_id t = sc_term_id c) (shop_terms db)) of
             (Some s, Some t) \<Rightarrow> Some \<lparr> ic_shop = s, ic_term = t, ic_charge = c, ic_original_name = original_name s db \<rparr>
           | _ \<Rightarrow> None))"

definition sameChargeWaiver :: "IdempotentShopCharge \<Rightarrow> bool \<Rightarrow> string option \<Rightarrow> bool" where
  "sameChargeWaiver row isAdmin waiverReason =
     (if isAdmin then sc_waiver_type (ic_charge row) = Some ADMIN_FREE
        \<and> sc_waiver_reason (ic_charge row) = map_option trim waiverReason
      else sc_waiver_type (ic_charge row) = None \<and> sc_waiver_reason (ic_charge row) = None)"

definition idempotencyConflict :: err where
  "idempotencyConflict = AppError ''IDEMPOTENCY_KEY_REUSED'' 409 None"

definition not_found :: err where
  "not_found = AppError ''RESOURCE_NOT_FOUND'' 404 None"

text \<open>
  Taking the price of a term from the enterprise's wallet: nothing for an administrator or a free
  application, otherwise an active wallet with enough money.
\<close>

definition funds_available :: "string \<Rightarrow> int \<Rightarrow> 'z wallet_db_scheme \<Rightarrow> unit result" where
  "funds_available wid original db =
     bindE (lockWallet wid db) (\<lambda>wallet.
     bindE (js_bigint (balanceCents wallet)) (\<lambda>balance.
       require (ws_status wallet = Wallet_ACTIVE \<and> \<not> balance < original)
         (AppError ''WALLET_INSUFFICIENT_OR_RESTRICTED'' 409 None)))"

definition charge_entry :: "string \<Rightarrow> string \<Rightarrow> int \<Rightarrow> string \<Rightarrow> string \<Rightarrow> WalletEntry" where
  "charge_entry wid businessKey original shopId actorId =
     \<lparr> e_walletId = wid, e_entryType = SHOP_CHARGE, e_deltaCents = - original, e_businessKey = businessKey,
       e_referenceType = ''SHOP'', e_referenceId = Some shopId, e_actorAccountId = Some actorId,
       e_reason = None, e_resolveReconciliation = False, e_allowRestrictedDebit = False \<rparr>"

definition new_charge ::
    "bool \<Rightarrow> string option \<Rightarrow> string \<Rightarrow> string \<Rightarrow> string \<Rightarrow> int \<Rightarrow> string option \<Rightarrow> string \<Rightarrow> string \<Rightarrow> charge_row" where
  "new_charge isAdmin waiverReason shopId termId priceId original ledgerId' key actorId =
     \<lparr> sc_shop_id = shopId, sc_term_id = termId, sc_price_version_id = priceId, sc_original = original,
       sc_charged = (if isAdmin then 0 else original),
       sc_waiver_type = (if isAdmin then Some ADMIN_FREE else None),
       sc_waiver_reason = waiverReason, sc_ledger_id = ledgerId', sc_idempotency_key = key,
       sc_created_by = actorId \<rparr>"

section \<open>Creating\<close>

record CreateShop =
  cs_enterpriseId :: string
  cs_applicationId :: string
  cs_name :: string
  cs_startDate :: string
  cs_requestedCloseDate :: "string option"
  cs_idempotencyKey :: string
  cs_requestId :: string

definition wallet_of_enterprise :: "string \<Rightarrow> 'z wallet_db_scheme \<Rightarrow> (wallet_row \<times> string option) option" where
  "wallet_of_enterprise eid db =
     (case (first_row (\<lambda>e. en_id e = eid) (enterprises db),
            first_row (\<lambda>w. wa_enterprise_id w = Some eid) (wallets db)) of
        (Some e, Some w) \<Rightarrow> Some (w, en_credit_code e)
      | _ \<Rightarrow> None)"

text \<open>The transaction of \<open>create\<close> after the replay check, with everything it inserts.\<close>

definition create_new ::
    "clock \<Rightarrow> Actor \<Rightarrow> string \<Rightarrow> string \<Rightarrow> CreateShop \<Rightarrow> string \<times> string \<Rightarrow> string \<Rightarrow> int
     \<Rightarrow> 'z shop_db_scheme \<Rightarrow> (ShopView \<times> 'z shop_db_scheme) result" where
  "create_new clk actor shopId termId input names closeDate years db =
     (let isAdmin = (ADMIN \<in> roles actor); aid = actor_accountId actor in
      case wallet_of_enterprise (cs_enterpriseId input) db of
        None \<Rightarrow> Inl not_found
      | Some (w, code) \<Rightarrow>
      if present code = None then Inl (AppError ''ENTERPRISE_PROFILE_INCOMPLETE'' 409 None)
      else case creation_price actor clk (cs_applicationId input) db of
        None \<Rightarrow> Inl (AppError ''APPLICATION_UNAVAILABLE'' 409 None)
      | Some price \<Rightarrow>
      (let original = pv_annual_price price * years; pays = (\<not> isAdmin \<and> original > 0) in
       bindE (if pays then funds_available (wa_id w) original db else Inr ()) (\<lambda>_.
       let shop = \<lparr> sh_id = shopId, sh_application_id = cs_applicationId input, sh_owner_account_id = aid,
             sh_enterprise_id = cs_enterpriseId input, sh_created_by = aid, sh_last_operated_by = aid,
             sh_name = fst names, sh_normalized_name = snd names,
             sh_status = (if closeDate \<le> today clk then EXPIRED_READONLY else ACTIVE),
             sh_start_date = cs_startDate input, sh_close_date = closeDate, sh_rename_count = 0,
             sh_trashed_at = None, sh_purge_after = None, sh_purged_at = None \<rparr> in
       bindE (map_sum rethrowShopNameConflict id (insert_shop shop db)) (\<lambda>db1.
       bindE (if pays
              then bindE (appendWalletEntry (charge_entry (wa_id w) (''shop-create:'' @ cs_idempotencyKey input)
                            original shopId aid) db1) (\<lambda>(l, db'). Inr (Some (ledgerId l), db'))
              else Inr (None, db1)) (\<lambda>(lid, db2).
       bindE (insert_term \<lparr> st_id = termId, st_shop_id = shopId, st_start_date = cs_startDate input,
             st_close_date = closeDate, st_charged_years = years, st_price_version_id = pv_id price,
             st_supersedes = None \<rparr> db2) (\<lambda>db3.
       bindE (insert_charge (new_charge isAdmin None shopId termId (pv_id price) original lid
             (cs_idempotencyKey input) aid) db3) (\<lambda>db4.
       bindE (view None None shop (accessOf actor)) (\<lambda>v.
         Inr (v, audit (shop_audit (Some actor) shopId ''SHOP_CREATED'' None (cs_requestId input) None
           (Some [(''originalAmountCents'', Some (int_str original)),
             (''chargedAmountCents'', Some (if isAdmin then ''0'' else int_str original)),
             (''waiverType'', if isAdmin then Some ''ADMIN_FREE'' else None),
             (''priceVersionId'', Some (pv_id price)), (''closeDate'', Some closeDate)])) db4)))))))))"

definition create ::
    "unicode \<Rightarrow> clock \<Rightarrow> Actor \<Rightarrow> string \<Rightarrow> string \<Rightarrow> CreateShop
     \<Rightarrow> 'z shop_db_scheme \<Rightarrow> (ShopView \<times> 'z shop_db_scheme) result" where
  "create u clk actor shopId termId input db =
     bindE (requireAllowed (authorizePlatform actor SHOP_CREATE) None) (\<lambda>_.
     let isAdmin = (ADMIN \<in> roles actor) in
     if \<not> isAdmin \<and> \<not> (case enterpriseIds actor of None \<Rightarrow> False | Some ids \<Rightarrow> cs_enterpriseId input \<in> ids)
     then Inl not_found
     else
     bindE (normalizeShopName u (cs_name input)) (\<lambda>names.
     bindE (case cs_requestedCloseDate input of Some d \<Rightarrow> Inr d | None \<Rightarrow> anniversary (cs_startDate input) 1) (\<lambda>closeDate.
     bindE (billedYears (cs_startDate input) closeDate) (\<lambda>years.
     case prior_charge (actor_accountId actor) (cs_idempotencyKey input) db of
       Some prior \<Rightarrow>
         if st_supersedes (ic_term prior) \<noteq> None
            \<or> sh_application_id (ic_shop prior) \<noteq> cs_applicationId input
            \<or> sh_enterprise_id (ic_shop prior) \<noteq> cs_enterpriseId input
            \<or> ic_original_name prior \<noteq> fst names
            \<or> st_start_date (ic_term prior) \<noteq> cs_startDate input
            \<or> st_close_date (ic_term prior) \<noteq> closeDate
            \<or> \<not> (if isAdmin then sc_waiver_type (ic_charge prior) = Some ADMIN_FREE
                 else sameChargeWaiver prior False None)
         then Inl idempotencyConflict
         else bindE (view None None (ic_shop prior) (accessOf actor)) (\<lambda>v. Inr (v, db))
     | None \<Rightarrow> create_new clk actor shopId termId input names closeDate years db))))"

section \<open>Renewing\<close>

record RenewShop =
  rn_shopId :: string
  rn_requestedCloseDate :: string
  rn_idempotencyKey :: string
  rn_waiverReason :: "string option"
  rn_requestId :: string

definition last_term :: "string \<Rightarrow> 'z shop_db_scheme \<Rightarrow> term_row option" where
  "last_term shopId db = first_row (\<lambda>t. st_shop_id t = shopId) (rev (shop_terms db))"

text \<open>Where the code asserts that an administrator's reason is there, the model trims an absent one to none.\<close>

definition renew_new ::
    "clock \<Rightarrow> Actor \<Rightarrow> string \<Rightarrow> RenewShop \<Rightarrow> 'z shop_db_scheme \<Rightarrow> (ShopView \<times> 'z shop_db_scheme) result" where
  "renew_new clk actor termId input db =
     (let isAdmin = (ADMIN \<in> roles actor); aid = actor_accountId actor;
          waiver = (if isAdmin then map_option trim (rn_waiverReason input) else None) in
      case first_row (\<lambda>s. sh_id s = rn_shopId input) (shops db) of
        None \<Rightarrow> Inl not_found
      | Some shop \<Rightarrow>
      bindE (requireAllowed (authorizeShop actor (shop_resource shop) None SHOP_RENEW) None) (\<lambda>_.
      bindE (comparePlainDate (rn_requestedCloseDate input) (sh_close_date shop)) (\<lambda>c.
      if c \<le> 0 then Inl (AppError ''SHOP_TERM_INVALID'' 400 (Some ''requestedCloseDate''))
      else
      bindE (billedYears (sh_start_date shop) (rn_requestedCloseDate input)) (\<lambda>totalYears.
      bindE (billedYears (sh_start_date shop) (sh_close_date shop)) (\<lambda>currentYears.
      let addedYears = totalYears - currentYears in
      if addedYears < 1 then Inl (AppError ''SHOP_TERM_INVALID'' 400 None)
      else case (if application_active (sh_application_id shop) db
                 then latest_price (sh_application_id shop) (now clk) (price_versions db) else None) of
        None \<Rightarrow> Inl (AppError ''APPLICATION_UNAVAILABLE'' 409 None)
      | Some price \<Rightarrow>
      (let original = pv_annual_price price * addedYears in
       bindE (if \<not> isAdmin \<and> original > 0
              then case first_row (\<lambda>w. wa_enterprise_id w = Some (sh_enterprise_id shop)) (wallets db) of
                  None \<Rightarrow> Inl (AppError ''WALLET_NOT_FOUND'' 404 None)
                | Some w \<Rightarrow>
                  bindE (funds_available (wa_id w) original db) (\<lambda>_.
                  bindE (appendWalletEntry (charge_entry (wa_id w) (''shop-renew:'' @ rn_idempotencyKey input)
                            original (sh_id shop) aid) db) (\<lambda>(l, db'). Inr (Some (ledgerId l), db')))
              else Inr (None, db)) (\<lambda>(lid, db1).
       bindE (insert_term \<lparr> st_id = termId, st_shop_id = sh_id shop, st_start_date = sh_start_date shop,
             st_close_date = rn_requestedCloseDate input, st_charged_years = totalYears,
             st_price_version_id = pv_id price,
             st_supersedes = map_option st_id (last_term (sh_id shop) db1) \<rparr> db1) (\<lambda>db2.
       bindE (insert_charge (new_charge isAdmin waiver (sh_id shop) termId (pv_id price) original lid
             (rn_idempotencyKey input) aid) db2) (\<lambda>db3.
       bindE (update_shop (sh_id shop) (\<lambda>_. True)
             (\<lambda>s. s\<lparr>sh_close_date := rn_requestedCloseDate input, sh_status := ACTIVE, sh_last_operated_by := aid\<rparr>) db3)
         (\<lambda>(row, db4).
       case row of
         None \<Rightarrow> Inl (PlainError ''RENEW_FAILED'')
       | Some r \<Rightarrow>
           bindE (view None None r (accessOf actor)) (\<lambda>v.
           Inr (v, audit (shop_audit (Some actor) (sh_id shop) ''SHOP_RENEWED'' waiver (rn_requestId input)
             (Some [(''closeDate'', Some (sh_close_date shop))])
             (Some [(''closeDate'', Some (rn_requestedCloseDate input)),
               (''originalAmountCents'', Some (int_str original)),
               (''chargedAmountCents'', Some (if isAdmin then ''0'' else int_str original))])) db4))))))))))))"

definition renew ::
    "clock \<Rightarrow> Actor \<Rightarrow> string \<Rightarrow> RenewShop \<Rightarrow> 'z shop_db_scheme \<Rightarrow> (ShopView \<times> 'z shop_db_scheme) result" where
  "renew clk actor termId input db =
     (let isAdmin = (ADMIN \<in> roles actor) in
      if isAdmin \<and> (case rn_waiverReason input of None \<Rightarrow> True | Some r \<Rightarrow> trim r = [])
      then Inl (AppError ''REASON_REQUIRED'' 400 (Some ''waiverReason''))
      else case prior_charge (actor_accountId actor) (rn_idempotencyKey input) db of
        Some prior \<Rightarrow>
          if st_supersedes (ic_term prior) = None \<or> sh_id (ic_shop prior) \<noteq> rn_shopId input
             \<or> st_close_date (ic_term prior) \<noteq> rn_requestedCloseDate input
             \<or> \<not> sameChargeWaiver prior isAdmin (rn_waiverReason input)
          then Inl idempotencyConflict
          else bindE (view None None (ic_shop prior) (accessOf actor)) (\<lambda>v. Inr (v, db))
      | None \<Rightarrow> renew_new clk actor termId input db)"

section \<open>Renaming and the lifecycle\<close>

definition insert_name_history :: "name_history_row \<Rightarrow> 'z shop_db_scheme \<Rightarrow> 'z shop_db_scheme result" where
  "insert_name_history h db =
     (if \<exists>x \<in> set (name_history db). nh_shop_id x = nh_shop_id h
      then Inl (SqlError ''23505'' ''shop_name_history_shop_id_key'')
      else Inr (db\<lparr>name_history := name_history db @ [h]\<rparr>))"

definition rename ::
    "unicode \<Rightarrow> Actor \<Rightarrow> string \<Rightarrow> string \<Rightarrow> string \<Rightarrow> 'z shop_db_scheme \<Rightarrow> (ShopView \<times> 'z shop_db_scheme) result" where
  "rename u actor shopId name requestId db =
     bindE (normalizeShopName u name) (\<lambda>names.
     case first_row (\<lambda>s. sh_id s = shopId) (shops db) of
       None \<Rightarrow> Inl not_found
     | Some shop \<Rightarrow>
     bindE (requireAllowed (authorizeShop actor (shop_resource shop) None SHOP_RENAME) None) (\<lambda>_.
     if sh_rename_count shop \<noteq> 0 then Inl (AppError ''SHOP_RENAME_LIMIT'' 409 None)
     else
     bindE (update_shop (sh_id shop) (\<lambda>s. sh_rename_count s = 0)
         (\<lambda>s. s\<lparr>sh_name := fst names, sh_normalized_name := snd names, sh_rename_count := 1,
                sh_last_operated_by := actor_accountId actor\<rparr>) db) (\<lambda>(row, db1).
     case row of
       None \<Rightarrow> Inl (AppError ''SHOP_RENAME_CONFLICT'' 409 None)
     | Some r \<Rightarrow>
     bindE (insert_name_history \<lparr> nh_shop_id = sh_id shop, nh_old_name = sh_name shop, nh_new_name = fst names,
         nh_changed_by = actor_accountId actor \<rparr> db1) (\<lambda>db2.
     bindE (view None None r (accessOf actor)) (\<lambda>v.
     Inr (v, audit (shop_audit (Some actor) (sh_id shop) ''SHOP_RENAMED'' None requestId
       (Some [(''name'', Some (sh_name shop))]) (Some [(''name'', Some (fst names))])) db2))))))"

datatype LifecycleAction = TRASH | RESTORE | PURGE

definition thirty_days :: nat where
  "thirty_days = 30 * 24 * 60 * 60 * 1000"

definition lifecycle_capability :: "LifecycleAction \<Rightarrow> ShopCapability" where
  "lifecycle_capability a = (case a of TRASH \<Rightarrow> SHOP_TRASH | RESTORE \<Rightarrow> SHOP_RESTORE | PURGE \<Rightarrow> SHOP_PURGE)"

text \<open>\<open>WHERE\<close> and \<open>SET\<close> of the three updates.\<close>

definition lifecycle_guard :: "clock \<Rightarrow> LifecycleAction \<Rightarrow> shop_row \<Rightarrow> bool" where
  "lifecycle_guard clk a s = (case a of
       TRASH \<Rightarrow> sh_status s \<in> {ACTIVE, EXPIRED_READONLY}
     | RESTORE \<Rightarrow> sh_status s = TRASHED \<and> (case sh_purge_after s of None \<Rightarrow> False | Some t \<Rightarrow> now clk < t)
     | PURGE \<Rightarrow> sh_status s = TRASHED \<and> (case sh_purge_after s of None \<Rightarrow> False | Some t \<Rightarrow> t \<le> now clk))"

definition lifecycle_set :: "clock \<Rightarrow> string \<Rightarrow> LifecycleAction \<Rightarrow> shop_row \<Rightarrow> shop_row" where
  "lifecycle_set clk aid a s = (case a of
       TRASH \<Rightarrow> s\<lparr>sh_status := TRASHED, sh_trashed_at := Some (now clk),
                 sh_purge_after := Some (now clk + thirty_days), sh_last_operated_by := aid\<rparr>
     | RESTORE \<Rightarrow> s\<lparr>sh_status := (if sh_close_date s \<le> today clk then EXPIRED_READONLY else ACTIVE),
                 sh_trashed_at := None, sh_purge_after := None, sh_last_operated_by := aid\<rparr>
     | PURGE \<Rightarrow> s\<lparr>sh_status := PURGED, sh_purged_at := Some (now clk), sh_last_operated_by := aid\<rparr>)"

text \<open>The audited action is \<open>`SHOP_${action}ED`\<close>, literally.\<close>

definition lifecycle_action_text :: "LifecycleAction \<Rightarrow> string" where
  "lifecycle_action_text a =
     ''SHOP_'' @ (case a of TRASH \<Rightarrow> ''TRASH'' | RESTORE \<Rightarrow> ''RESTORE'' | PURGE \<Rightarrow> ''PURGE'') @ ''ED''"

definition changeLifecycle ::
    "clock \<Rightarrow> Actor \<Rightarrow> string \<Rightarrow> LifecycleAction \<Rightarrow> string option \<Rightarrow> string
     \<Rightarrow> 'z shop_db_scheme \<Rightarrow> (ShopView \<times> 'z shop_db_scheme) result" where
  "changeLifecycle clk actor shopId action reason requestId db =
     (case first_row (\<lambda>s. sh_id s = shopId) (shops db) of
        None \<Rightarrow> Inl not_found
      | Some shop \<Rightarrow>
      bindE (requireAllowed (authorizeShop actor (shop_resource shop) None (lifecycle_capability action)) None) (\<lambda>_.
      bindE (update_shop (sh_id shop) (lifecycle_guard clk action) (lifecycle_set clk (actor_accountId actor) action) db)
        (\<lambda>(row, db1).
      case row of
        None \<Rightarrow> Inl (AppError ''SHOP_STATE_CONFLICT'' 409 None)
      | Some r \<Rightarrow>
      bindE (view None None r (accessOf actor)) (\<lambda>v.
      Inr (v, audit (shop_audit (Some actor) (sh_id shop) (lifecycle_action_text action)
        (present (map_option trim reason)) requestId (Some [(''state'', Some (state_text (sh_status shop)))])
        (Some [(''state'', Some (state_text (sh_status r)))])) db1)))))"

section \<open>Trashing many at once\<close>

fun insert_sorted :: "string \<Rightarrow> string list \<Rightarrow> string list" where
  "insert_sorted x [] = [x]"
| "insert_sorted x (y # ys) = (if x = y then y # ys else if x < y then x # y # ys else y # insert_sorted x ys)"

text \<open>\<open>[...new Set(ids)].sort()\<close>.\<close>

definition unique_sorted :: "string list \<Rightarrow> string list" where
  "unique_sorted ids = foldr insert_sorted ids []"

text \<open>The checks of the loop over the locked rows, in order.\<close>

fun check_trashable :: "Actor \<Rightarrow> shop_row list \<Rightarrow> unit result" where
  "check_trashable actor [] = Inr ()"
| "check_trashable actor (s # ss) =
     bindE (requireAllowed (authorizeShop actor (shop_resource s) None SHOP_TRASH) None) (\<lambda>_.
     if sh_status s \<notin> {ACTIVE, EXPIRED_READONLY} then Inl (AppError ''SHOP_STATE_CONFLICT'' 409 None)
     else check_trashable actor ss)"

text \<open>
  \<open>request_hash\<close> is the SHA-256 of the printed request and \<open>busy\<close> tells of unfinished imports,
  calculations and exports of a shop; both belong to other parts.
\<close>

definition bulkTrash ::
    "(string list \<Rightarrow> string \<Rightarrow> string) \<Rightarrow> (string \<Rightarrow> bool) \<Rightarrow> clock \<Rightarrow> Actor \<Rightarrow> string list \<Rightarrow> string \<Rightarrow> string \<Rightarrow> string
     \<Rightarrow> 'z shop_db_scheme \<Rightarrow> (nat \<times> 'z shop_db_scheme) result" where
  "bulkTrash request_hash busy clk actor ids reason0 key requestId db =
     (let shopIds = unique_sorted ids; reason = trim reason0; aid = actor_accountId actor in
      if reason = [] then Inl (AppError ''REASON_REQUIRED'' 400 (Some ''reason''))
      else case first_row (\<lambda>r. ir_actor r = aid \<and> ir_scope r = ''shop.bulk-trash'' \<and> ir_key r = key)
             (idempotency_records db) of
        Some prior \<Rightarrow>
          if ir_request_hash prior \<noteq> request_hash shopIds reason
          then Inl (AppError ''IDEMPOTENCY_KEY_REUSED'' 409 None)
          else (case ir_response prior of
                  Some (Trashed n) \<Rightarrow> Inr (n, db)
                | _ \<Rightarrow> Inl (PlainError ''IDEMPOTENT_BULK_TRASH_RESPONSE_MISSING''))
      | None \<Rightarrow>
      (let selected = concat (map (\<lambda>i. filter (\<lambda>s. sh_id s = i) (shops db)) shopIds) in
       if length selected \<noteq> length shopIds then Inl not_found
       else
       bindE (check_trashable actor selected) (\<lambda>_.
       if \<exists>i \<in> set shopIds. busy i then Inl (AppError ''SHOP_HAS_ACTIVE_WORKFLOW'' 409 None)
       else
         let trash = lifecycle_set clk aid TRASH;
             db1 = db\<lparr>shops := update_rows (\<lambda>s. sh_id s \<in> set shopIds) trash (shops db)\<rparr>;
             db2 = fold (\<lambda>s. audit (shop_audit (Some actor) (sh_id s) ''SHOP_TRASHED'' (Some reason) requestId
                     (Some [(''state'', Some (state_text (sh_status s)))]) (Some [(''state'', Some ''TRASHED'')])))
                   selected db1
         in Inr (length selected, db2\<lparr>idempotency_records := idempotency_records db2 @
              [\<lparr> ir_actor = aid, ir_scope = ''shop.bulk-trash'', ir_key = key,
                 ir_request_hash = request_hash shopIds reason, ir_response = Some (Trashed (length selected)) \<rparr>]\<rparr>))))"

lemmas [code_defs] = original_name_def prior_charge_def sameChargeWaiver_def idempotencyConflict_def
  not_found_def funds_available_def charge_entry_def new_charge_def wallet_of_enterprise_def create_new_def
  create_def last_term_def renew_new_def renew_def insert_name_history_def rename_def thirty_days_def
  lifecycle_capability_def lifecycle_guard_def lifecycle_set_def lifecycle_action_text_def
  changeLifecycle_def unique_sorted_def bulkTrash_def

end
