(* ===== verification/Memberships.thy ===== *)
theory Memberships
  imports ShopOps Phone Tables
begin

text \<open>
  Customers of a shop: invitations, memberships and what a membership had produced -
  \<open>src/modules/memberships/service.ts\<close>, \<open>src/modules/memberships/activation.ts\<close> and the invalidator
  of \<open>src/modules/exports/postgres-membership-invalidator.ts\<close>, over the tables of
  \<open>migrations/0004\<close>, \<open>0010\<close>, \<open>0014\<close> and \<open>0024\<close>. Instants are milliseconds of one clock. References
  to shops and accounts are there because the callers read those rows in the same transaction; HMAC
  and SHA-256 are parameters.
\<close>

section \<open>Tables\<close>

datatype InvitationStatus = Inv_PENDING | Inv_ACTIVE | Inv_REVOKED | Inv_EXPIRED

record invitation_row =
  iv_id :: string
  iv_shop_id :: string
  iv_phone :: string
  iv_token_digest :: string
  iv_status :: InvitationStatus
  iv_export_allowed :: bool
  iv_invited_by :: string
  iv_expires_at :: nat
  iv_accepted_by :: "string option"
  iv_idempotency_key :: string

datatype ExportStatus = X_QUEUED | X_RUNNING | X_SUCCEEDED | X_FAILED | X_CANCELLED | X_REVOKED

text \<open>An export request: only what access control and the life of the request read.\<close>

record export_row =
  xr_id :: string
  xr_shop_id :: string
  xr_requested_by :: string
  xr_snapshot_id :: string
  xr_epoch :: "nat option"
  xr_status :: ExportStatus
  xr_business_key :: string
  xr_format :: string
  xr_profit_rate :: "string option"
  xr_minimum_rate :: "string option"
  xr_prefixes :: "string list"
  xr_period :: "(string \<times> string) option"
  xr_error_code :: "string option"
  xr_output :: "string option"

record grant_row =
  gr_id :: string
  gr_export_id :: string
  gr_shop_id :: string
  gr_account_id :: string
  gr_membership_id :: "string option"
  gr_epoch :: "nat option"
  gr_token_hash :: string
  gr_expires_at :: nat
  gr_consumed :: bool
  gr_revoked :: bool

record member_db = shop_db +
  invitations :: "invitation_row list"
  export_requests :: "export_row list"
  download_grants :: "grant_row list"

record member_crypto =
  invitation_mac :: "string \<Rightarrow> string"
  token_digest :: "string \<Rightarrow> string"
  sha256_hex :: "string \<Rightarrow> string"

text \<open>\<open>toISOString\<close> of an instant before the year 10000.\<close>

definition iso_instant :: "nat \<Rightarrow> string" where
  "iso_instant t =
     (let d = int (t div 86400000); ms = int (t mod 86400000) in
      zero_padded 4 (utc_full_year d) @ ''-'' @ zero_padded 2 (utc_month d + 1) @ ''-'' @ zero_padded 2 (utc_date d) @ ''T''
      @ zero_padded 2 (ms div 3600000) @ '':'' @ zero_padded 2 (ms div 60000 mod 60) @ '':''
      @ zero_padded 2 (ms div 1000 mod 60) @ ''.'' @ zero_padded 3 (ms mod 1000) @ ''Z'')"

definition invitation_checks :: "clock \<Rightarrow> invitation_row \<Rightarrow> bool" where
  "invitation_checks clk i \<longleftrightarrow> e164 (iv_phone i) \<and> now clk < iv_expires_at i"

definition insert_invitation :: "clock \<Rightarrow> invitation_row \<Rightarrow> 'z member_db_scheme \<Rightarrow> 'z member_db_scheme result" where
  "insert_invitation clk i db =
     (if \<not> invitation_checks clk i then Inl (SqlError ''23514'' ''shop_invitation_check'')
      else if \<exists>x \<in> set (invitations db). iv_id x = iv_id i \<or> iv_token_digest x = iv_token_digest i
      then Inl (SqlError ''23505'' ''shop_invitation_key'')
      else if index_taken (\<lambda>x. iv_status x = Inv_PENDING) (\<lambda>x. (iv_shop_id x, iv_phone x)) iv_id i (invitations db)
      then Inl (SqlError ''23505'' ''shop_invitation_pending_phone_uq'')
      else if \<exists>x \<in> set (invitations db). iv_invited_by x = iv_invited_by i \<and> iv_idempotency_key x = iv_idempotency_key i
      then Inl (SqlError ''23505'' ''shop_invitation_actor_idempotency_uq'')
      else Inr (db\<lparr>invitations := invitations db @ [i]\<rparr>))"

section \<open>Views\<close>

definition mapMembership :: "membership_row \<Rightarrow> CustomerMembership" where
  "mapMembership row =
     \<lparr> cm_id = sm_id row, cm_shopId = sm_shop_id row, cm_accountId = sm_account_id row, cm_status = sm_status row,
       cm_exportAllowed = sm_export_allowed row, cm_authorizationEpoch = nat_str (sm_epoch row) \<rparr>"

record ShopInvitationResult =
  si_invitationId :: string
  si_status :: InvitationStatus
  si_expiresAt :: string

definition member_audit ::
    "string option \<Rightarrow> string list \<Rightarrow> string \<Rightarrow> string \<Rightarrow> string \<Rightarrow> string option \<Rightarrow> string \<Rightarrow> json_object option
     \<Rightarrow> json_object option \<Rightarrow> AuditRecord" where
  "member_audit actor actorRoles kind oid action reason requestId before after =
     \<lparr> au_actorAccountId = actor, au_actorRoles = actorRoles, au_objectType = kind, au_objectId = oid,
       au_action = action, au_succeeded = True, au_reason = reason, au_requestId = requestId,
       au_before = before, au_after = after \<rparr>"

definition bool_text :: "bool \<Rightarrow> string" where
  "bool_text b = (if b then ''true'' else ''false'')"

fun membership_status_text :: "MembershipStatus \<Rightarrow> string" where
  "membership_status_text Member_ACTIVE = ''ACTIVE''"
| "membership_status_text Member_REVOKED = ''REVOKED''"
| "membership_status_text Member_EXPIRED = ''EXPIRED''"

section \<open>Invalidating what a membership produced\<close>

definition stale_export :: "membership_row \<Rightarrow> string \<Rightarrow> export_row \<Rightarrow> bool" where
  "stale_export m newEpoch x \<longleftrightarrow> xr_shop_id x = sm_shop_id m \<and> xr_requested_by x = sm_account_id m
     \<and> xr_status x \<in> {X_QUEUED, X_RUNNING, X_SUCCEEDED}
     \<and> (case xr_epoch x of None \<Rightarrow> False | Some e \<Rightarrow> nat_str e \<noteq> newEpoch)"

definition stale_grant :: "string \<Rightarrow> string \<Rightarrow> grant_row \<Rightarrow> bool" where
  "stale_grant mid newEpoch g \<longleftrightarrow> gr_membership_id g = Some mid \<and> \<not> gr_consumed g \<and> \<not> gr_revoked g
     \<and> (case gr_epoch g of None \<Rightarrow> False | Some e \<Rightarrow> nat_str e \<noteq> newEpoch)"

definition invalidateForMembership :: "string \<Rightarrow> string \<Rightarrow> 'z member_db_scheme \<Rightarrow> 'z member_db_scheme" where
  "invalidateForMembership mid newEpoch db =
     db\<lparr>export_requests := update_rows
           (\<lambda>x. \<exists>m \<in> set (shop_memberships db). sm_id m = mid \<and> stale_export m newEpoch x)
           (\<lambda>x. x\<lparr>xr_status := X_REVOKED, xr_error_code := Some ''MEMBERSHIP_REVOKED''\<rparr>) (export_requests db),
        download_grants := update_rows (stale_grant mid newEpoch) (\<lambda>g. g\<lparr>gr_revoked := True\<rparr>) (download_grants db)\<rparr>"

section \<open>Activating\<close>

record Activation =
  av_shopId :: string
  av_accountId :: string
  av_exportAllowed :: bool
  av_invitationId :: string
  av_grantedBy :: string

text \<open>
  \<open>INSERT ... ON CONFLICT (shop_id, account_id) DO UPDATE ... RETURNING\<close>; \<open>newId\<close> is the identifier
  of an inserted row.
\<close>

definition upsert_membership ::
    "string \<Rightarrow> Activation \<Rightarrow> 'z member_db_scheme \<Rightarrow> (membership_row \<times> 'z member_db_scheme) result" where
  "upsert_membership newId a db =
     (case first_row (\<lambda>m. sm_shop_id m = av_shopId a \<and> sm_account_id m = av_accountId a) (shop_memberships db) of
        Some m \<Rightarrow>
          let m' = m\<lparr>sm_status := Member_ACTIVE, sm_export_allowed := av_exportAllowed a, sm_epoch := sm_epoch m + 1,
                sm_invitation_id := Some (av_invitationId a), sm_granted_by := av_grantedBy a, sm_revoke_reason := None\<rparr> in
          if \<exists>x \<in> set (shop_memberships db). sm_id x \<noteq> sm_id m \<and> sm_invitation_id x = Some (av_invitationId a)
          then Inl (SqlError ''23505'' ''shop_membership_invitation_id_key'')
          else Inr (m', db\<lparr>shop_memberships := update_rows (\<lambda>x. sm_id x = sm_id m) (\<lambda>_. m') (shop_memberships db)\<rparr>)
      | None \<Rightarrow>
          let m' = \<lparr> sm_id = newId, sm_shop_id = av_shopId a, sm_account_id = av_accountId a, sm_status = Member_ACTIVE,
                sm_export_allowed = av_exportAllowed a, sm_epoch = 1, sm_invitation_id = Some (av_invitationId a),
                sm_granted_by = av_grantedBy a, sm_revoke_reason = None \<rparr> in
          if \<exists>x \<in> set (shop_memberships db). sm_id x = newId \<or> sm_invitation_id x = Some (av_invitationId a)
          then Inl (SqlError ''23505'' ''shop_membership_key'')
          else Inr (m', db\<lparr>shop_memberships := shop_memberships db @ [m']\<rparr>))"

definition activateShopMembership ::
    "string \<Rightarrow> Activation \<Rightarrow> 'z member_db_scheme \<Rightarrow> (CustomerMembership \<times> 'z member_db_scheme) result" where
  "activateShopMembership newId a db =
     bindE (upsert_membership newId a db) (\<lambda>(row, db1).
     let db2 = (if nat_str (sm_epoch row) \<noteq> ''1'' then invalidateForMembership (sm_id row) (nat_str (sm_epoch row)) db1
                else db1) in
     Inr (mapMembership row, db2))"

section \<open>Reading shops and memberships\<close>

definition loadShop :: "string \<Rightarrow> 'z shop_db_scheme \<Rightarrow> shop_row result" where
  "loadShop shopId db =
     (case first_row (\<lambda>s. sh_id s = shopId) (shops db) of None \<Rightarrow> Inl AuthorizationError | Some s \<Rightarrow> Inr s)"

definition loadMembershipForChange :: "string \<Rightarrow> 'z shop_db_scheme \<Rightarrow> (membership_row \<times> shop_row) result" where
  "loadMembershipForChange mid db =
     (case first_row (\<lambda>m. sm_id m = mid) (shop_memberships db) of
        None \<Rightarrow> Inl AuthorizationError
      | Some located \<Rightarrow>
          bindE (loadShop (sm_shop_id located) db) (\<lambda>shop.
          case first_row (\<lambda>m. sm_id m = mid \<and> sm_shop_id m = sm_shop_id located) (shop_memberships db) of
            None \<Rightarrow> Inl AuthorizationError
          | Some row \<Rightarrow> Inr (row, shop)))"

definition requireManage :: "Actor \<Rightarrow> shop_row \<Rightarrow> unit result" where
  "requireManage actor shop = requireAllowed (authorizeShop actor (shop_resource shop) None MEMBERSHIP_MANAGE) None"

definition membership_list :: "Actor \<Rightarrow> string \<Rightarrow> 'z shop_db_scheme \<Rightarrow> CustomerMembership list result" where
  "membership_list actor shopId db =
     bindE (loadShop shopId db) (\<lambda>shop.
     bindE (requireManage actor shop) (\<lambda>_.
     Inr (map mapMembership (filter (\<lambda>m. sm_shop_id m = shopId) (shop_memberships db)))))"

section \<open>Inviting\<close>

record Invite =
  in_shopId :: string
  in_phone :: string
  in_exportAllowed :: "bool option"
  in_expiresInMs :: "nat option"
  in_requestId :: string
  in_idempotencyKey :: string

definition expired_audit :: "string \<Rightarrow> invitation_row \<Rightarrow> AuditRecord" where
  "expired_audit requestId i = member_audit None [] ''shop_invitation'' (iv_id i) ''CUSTOMER_INVITATION_EXPIRED'' None requestId
     (Some [(''status'', Some ''PENDING''), (''expiresAt'', Some (iso_instant (iv_expires_at i)))])
     (Some [(''status'', Some ''EXPIRED'')])"

definition expire_invitations ::
    "(invitation_row \<Rightarrow> bool) \<Rightarrow> string \<Rightarrow> 'z member_db_scheme \<Rightarrow> 'z member_db_scheme" where
  "expire_invitations p requestId db =
     fold (\<lambda>i. audit (expired_audit requestId i)) (filter p (invitations db))
       (db\<lparr>invitations := update_rows p (\<lambda>i. i\<lparr>iv_status := Inv_EXPIRED\<rparr>) (invitations db)\<rparr>)"

definition accept_invitation ::
    "(invitation_row \<Rightarrow> bool) \<Rightarrow> string \<Rightarrow> 'z member_db_scheme \<Rightarrow> 'z member_db_scheme" where
  "accept_invitation p accountId db =
     db\<lparr>invitations := update_rows p (\<lambda>i. i\<lparr>iv_status := Inv_ACTIVE, iv_accepted_by := Some accountId\<rparr>) (invitations db)\<rparr>"

definition accepted_audit :: "string \<Rightarrow> string list \<Rightarrow> CustomerMembership \<Rightarrow> string \<Rightarrow> (string \<times> string option) list \<Rightarrow> AuditRecord" where
  "accepted_audit actor actorRoles m requestId extra =
     member_audit (Some actor) actorRoles ''shop_membership'' (cm_id m) ''CUSTOMER_INVITATION_ACCEPTED'' None requestId None
       (Some ([(''shopId'', Some (cm_shopId m)), (''exportAllowed'', Some (bool_text (cm_exportAllowed m)))] @ extra))"

definition activation_of :: "invitation_row \<Rightarrow> string \<Rightarrow> Activation" where
  "activation_of i accountId =
     \<lparr> av_shopId = iv_shop_id i, av_accountId = accountId, av_exportAllowed = iv_export_allowed i,
       av_invitationId = iv_id i, av_grantedBy = iv_invited_by i \<rparr>"

definition activateForRegisteredCustomer ::
    "string \<Rightarrow> invitation_row \<Rightarrow> string \<Rightarrow> string \<Rightarrow> 'z member_db_scheme \<Rightarrow> (InvitationStatus \<times> 'z member_db_scheme) result" where
  "activateForRegisteredCustomer newId i phone requestId db =
     (case first_row (\<lambda>a. ac_phone a = phone \<and> ac_registered a) (accounts db) of
        None \<Rightarrow> Inr (Inv_PENDING, db)
      | Some invitee \<Rightarrow>
      if ac_status invitee \<noteq> Actor_ACTIVE then Inl (AppError ''ACCOUNT_DISABLED'' 409 None)
      else case ac_role invitee of
        None \<Rightarrow> Inl (AppError ''ACCOUNT_ROLE_CONFLICT'' 409 None)
      | Some role \<Rightarrow>
      bindE (activateShopMembership newId (activation_of i (ac_id invitee)) db) (\<lambda>(accepted, db1).
      Inr (Inv_ACTIVE, audit (accepted_audit (ac_id invitee) [role_text role] accepted requestId [(''automatic'', Some ''true'')])
        (accept_invitation (\<lambda>x. iv_id x = iv_id i \<and> iv_status x = Inv_PENDING) (ac_id invitee) db1))))"

definition seventy_two_hours :: nat where
  "seventy_two_hours = 72 * 60 * 60000"

definition new_invitation :: "member_crypto \<Rightarrow> clock \<Rightarrow> Actor \<Rightarrow> string \<Rightarrow> Invite \<Rightarrow> string \<Rightarrow> invitation_row" where
  "new_invitation k clk actor invitationId input phone =
     \<lparr> iv_id = invitationId, iv_shop_id = in_shopId input, iv_phone = phone,
       iv_token_digest = token_digest k (invitation_mac k invitationId), iv_status = Inv_PENDING,
       iv_export_allowed = (case in_exportAllowed input of None \<Rightarrow> False | Some b \<Rightarrow> b),
       iv_invited_by = actor_accountId actor,
       iv_expires_at = now clk + (case in_expiresInMs input of None \<Rightarrow> seventy_two_hours | Some ms \<Rightarrow> ms),
       iv_accepted_by = None, iv_idempotency_key = in_idempotencyKey input \<rparr>"

definition invite ::
    "member_crypto \<Rightarrow> clock \<Rightarrow> Actor \<Rightarrow> string \<Rightarrow> string \<Rightarrow> Invite \<Rightarrow> 'z member_db_scheme
     \<Rightarrow> (ShopInvitationResult \<times> 'z member_db_scheme) result" where
  "invite k clk actor invitationId newId input db =
     bindE (normalizePhone (in_phone input)) (\<lambda>phone.
     bindE (loadShop (in_shopId input) db) (\<lambda>shop.
     bindE (requireManage actor shop) (\<lambda>_.
     let db1 = expire_invitations (\<lambda>i. iv_shop_id i = in_shopId input \<and> iv_phone i = phone
             \<and> iv_status i = Inv_PENDING \<and> iv_expires_at i \<le> now clk) (in_requestId input) db in
     case first_row (\<lambda>i. iv_invited_by i = actor_accountId actor \<and> iv_idempotency_key i = in_idempotencyKey input)
            (invitations db1) of
       Some prior \<Rightarrow>
         if iv_shop_id prior \<noteq> in_shopId input \<or> iv_phone prior \<noteq> phone
            \<or> iv_export_allowed prior \<noteq> (case in_exportAllowed input of None \<Rightarrow> False | Some b \<Rightarrow> b)
         then Inl (AppError ''IDEMPOTENCY_KEY_REUSED'' 409 None)
         else
         bindE (if iv_status prior = Inv_PENDING then activateForRegisteredCustomer newId prior phone (in_requestId input) db1
                else Inr (iv_status prior, db1)) (\<lambda>(st, db2).
         if st \<noteq> Inv_PENDING \<and> st \<noteq> Inv_ACTIVE then Inl (AppError ''INVITATION_STATE_CONFLICT'' 409 None)
         else Inr (\<lparr> si_invitationId = iv_id prior, si_status = st, si_expiresAt = iso_instant (iv_expires_at prior) \<rparr>, db2))
     | None \<Rightarrow>
         let i = new_invitation k clk actor invitationId input phone in
         bindE (insert_invitation clk i db1) (\<lambda>db2.
         let db3 = audit (member_audit (Some (actor_accountId actor)) (role_texts actor) ''shop_invitation'' (iv_id i)
               ''CUSTOMER_INVITED'' None (in_requestId input) None
               (Some [(''shopId'', Some (in_shopId input)), (''exportAllowed'', Some (bool_text (iv_export_allowed i))),
                 (''expiresAt'', Some (iso_instant (iv_expires_at i)))])) db2 in
         bindE (activateForRegisteredCustomer newId i phone (in_requestId input) db3) (\<lambda>(st, db4).
         Inr (\<lparr> si_invitationId = iv_id i, si_status = st, si_expiresAt = iso_instant (iv_expires_at i) \<rparr>, db4))))))"

section \<open>Accepting\<close>

text \<open>
  The transaction answers with no membership when the invitation is not valid; an invitation that is
  found expired is marked so and stays marked, although the request fails.
\<close>

definition accept_tx ::
    "member_crypto \<Rightarrow> clock \<Rightarrow> Actor \<Rightarrow> string \<Rightarrow> string \<Rightarrow> string \<Rightarrow> 'z member_db_scheme
     \<Rightarrow> (CustomerMembership option \<times> 'z member_db_scheme) result" where
  "accept_tx k clk actor newId token requestId db =
     (case (first_row (\<lambda>i. iv_token_digest i = token_digest k token) (invitations db),
            first_row (\<lambda>a. ac_id a = actor_accountId actor) (accounts db)) of
        (Some row, Some account) \<Rightarrow>
          if iv_status row \<noteq> Inv_PENDING then Inr (None, db)
          else if iv_expires_at row \<le> now clk
          then Inr (None, expire_invitations (\<lambda>i. iv_id i = iv_id row \<and> iv_status i = Inv_PENDING) requestId db)
          else if iv_phone row \<noteq> ac_phone account then Inr (None, db)
          else
          bindE (activateShopMembership newId (activation_of row (actor_accountId actor)) db) (\<lambda>(accepted, db1).
          Inr (Some accepted, audit (accepted_audit (actor_accountId actor) (role_texts actor) accepted requestId [])
            (accept_invitation (\<lambda>i. iv_id i = iv_id row) (actor_accountId actor) db1)))
      | _ \<Rightarrow> Inr (None, db))"

definition accept_membership ::
    "member_crypto \<Rightarrow> clock \<Rightarrow> Actor \<Rightarrow> string \<Rightarrow> string \<Rightarrow> string \<Rightarrow> 'z member_db_scheme
     \<Rightarrow> CustomerMembership result \<times> 'z member_db_scheme" where
  "accept_membership k clk actor newId token requestId db =
     (if actor_status actor \<noteq> Actor_ACTIVE then (Inl (AppError ''ACCOUNT_ROLE_CONFLICT'' 409 None), db)
      else case accept_tx k clk actor newId token requestId db of
        Inl e \<Rightarrow> (Inl e, db)
      | Inr (None, db') \<Rightarrow> (Inl (AppError ''INVITATION_INVALID'' 400 None), db')
      | Inr (Some m, db') \<Rightarrow> (Inr m, db'))"

section \<open>Changing and revoking\<close>

definition changeRequestHash :: "member_crypto \<Rightarrow> string \<Rightarrow> string \<Rightarrow> string \<Rightarrow> string \<Rightarrow> string" where
  "changeRequestHash k action mid v reason =
     sha256_hex k (action @ [CHR 0x00] @ mid @ [CHR 0x00] @ v @ [CHR 0x00] @ reason)"

text \<open>A stored answer of another kind cannot stand under the scopes of this service.\<close>

definition readIdempotentChange ::
    "string \<Rightarrow> string \<Rightarrow> string \<Rightarrow> string \<Rightarrow> 'z shop_db_scheme \<Rightarrow> CustomerMembership option result" where
  "readIdempotentChange aid scp key hash db =
     (case first_row (\<lambda>r. ir_actor r = aid \<and> ir_scope r = scp \<and> ir_key r = key) (idempotency_records db) of
        None \<Rightarrow> Inr None
      | Some prior \<Rightarrow>
          if ir_request_hash prior \<noteq> hash then Inl (AppError ''IDEMPOTENCY_KEY_REUSED'' 409 None)
          else (case ir_response prior of
                  Some (Changed m) \<Rightarrow> Inr (Some m)
                | _ \<Rightarrow> Inl (PlainError ''IDEMPOTENT_RESPONSE_MISSING'')))"

definition storeIdempotentChange ::
    "string \<Rightarrow> string \<Rightarrow> string \<Rightarrow> string \<Rightarrow> CustomerMembership \<Rightarrow> 'z shop_db_scheme \<Rightarrow> 'z shop_db_scheme result" where
  "storeIdempotentChange aid scp key hash m db =
     (if \<exists>r \<in> set (idempotency_records db). ir_actor r = aid \<and> ir_scope r = scp \<and> ir_key r = key
      then Inl (SqlError ''23505'' ''idempotency_record_key'')
      else Inr (db\<lparr>idempotency_records := idempotency_records db @
             [\<lparr> ir_actor = aid, ir_scope = scp, ir_key = key, ir_request_hash = hash, ir_response = Some (Changed m) \<rparr>]\<rparr>))"

text \<open>\<open>UPDATE shop_membership ... WHERE id = $1 AND status = 'ACTIVE' RETURNING\<close>.\<close>

definition update_membership ::
    "string \<Rightarrow> (membership_row \<Rightarrow> membership_row) \<Rightarrow> 'z shop_db_scheme \<Rightarrow> membership_row option \<times> 'z shop_db_scheme" where
  "update_membership mid f db =
     (let p = (\<lambda>m. sm_id m = mid \<and> sm_status m = Member_ACTIVE) in
      (map_option f (first_row p (shop_memberships db)),
       db\<lparr>shop_memberships := update_rows p f (shop_memberships db)\<rparr>))"

record MembershipChange =
  mc_membershipId :: string
  mc_reason :: string
  mc_requestId :: string
  mc_idempotencyKey :: string

definition setExportAllowed ::
    "member_crypto \<Rightarrow> Actor \<Rightarrow> bool \<Rightarrow> MembershipChange \<Rightarrow> 'z member_db_scheme
     \<Rightarrow> (CustomerMembership \<times> 'z member_db_scheme) result" where
  "setExportAllowed k actor allow_export input db =
     (let reason = trim (mc_reason input); aid = actor_accountId actor;
          hash = changeRequestHash k ''EXPORT'' (mc_membershipId input) (bool_text allow_export) reason in
      if reason = [] then Inl (AppError ''REASON_REQUIRED'' 400 (Some ''reason''))
      else
      bindE (loadMembershipForChange (mc_membershipId input) db) (\<lambda>(row, shop).
      bindE (requireManage actor shop) (\<lambda>_.
      bindE (readIdempotentChange aid ''membership-export'' (mc_idempotencyKey input) hash db) (\<lambda>duplicate.
      case duplicate of
        Some m \<Rightarrow> Inr (m, db)
      | None \<Rightarrow>
      if sm_status row \<noteq> Member_ACTIVE then Inl (AppError ''MEMBERSHIP_STATE_CONFLICT'' 409 None)
      else if sm_export_allowed row = allow_export
      then bindE (storeIdempotentChange aid ''membership-export'' (mc_idempotencyKey input) hash (mapMembership row) db)
             (\<lambda>db1. Inr (mapMembership row, db1))
      else case update_membership (sm_id row)
             (\<lambda>m. m\<lparr>sm_export_allowed := allow_export, sm_epoch := sm_epoch m + 1\<rparr>) db of
        (None, _) \<Rightarrow> Inl (AppError ''MEMBERSHIP_STATE_CONFLICT'' 409 None)
      | (Some next_row, db1) \<Rightarrow>
      let db2 = (if \<not> allow_export then invalidateForMembership (sm_id next_row) (nat_str (sm_epoch next_row)) db1 else db1);
          db3 = audit (member_audit (Some aid) (role_texts actor) ''shop_membership'' (sm_id row)
            ''CUSTOMER_EXPORT_PERMISSION_CHANGED'' (Some reason) (mc_requestId input)
            (Some [(''exportAllowed'', Some (bool_text (sm_export_allowed row))), (''authorizationEpoch'', Some (nat_str (sm_epoch row)))])
            (Some [(''exportAllowed'', Some (bool_text (sm_export_allowed next_row))),
              (''authorizationEpoch'', Some (nat_str (sm_epoch next_row)))])) db2 in
      bindE (storeIdempotentChange aid ''membership-export'' (mc_idempotencyKey input) hash (mapMembership next_row) db3)
        (\<lambda>db4. Inr (mapMembership next_row, db4))))))"

definition revoke_membership ::
    "member_crypto \<Rightarrow> Actor \<Rightarrow> MembershipChange \<Rightarrow> 'z member_db_scheme
     \<Rightarrow> (CustomerMembership \<times> 'z member_db_scheme) result" where
  "revoke_membership k actor input db =
     (let reason = trim (mc_reason input); aid = actor_accountId actor;
          hash = changeRequestHash k ''REVOKE'' (mc_membershipId input) [] reason in
      if reason = [] then Inl (AppError ''REASON_REQUIRED'' 400 (Some ''reason''))
      else
      bindE (loadMembershipForChange (mc_membershipId input) db) (\<lambda>(row, shop).
      bindE (requireManage actor shop) (\<lambda>_.
      bindE (readIdempotentChange aid ''membership-revoke'' (mc_idempotencyKey input) hash db) (\<lambda>duplicate.
      case duplicate of
        Some m \<Rightarrow> Inr (m, db)
      | None \<Rightarrow>
      if sm_status row \<noteq> Member_ACTIVE
      then bindE (storeIdempotentChange aid ''membership-revoke'' (mc_idempotencyKey input) hash (mapMembership row) db)
             (\<lambda>db1. Inr (mapMembership row, db1))
      else case update_membership (sm_id row)
             (\<lambda>m. m\<lparr>sm_status := Member_REVOKED, sm_export_allowed := False, sm_epoch := sm_epoch m + 1,
                    sm_revoke_reason := Some reason\<rparr>) db of
        (None, _) \<Rightarrow> Inl (AppError ''MEMBERSHIP_REVOKE_CONFLICT'' 409 None)
      | (Some next_row, db1) \<Rightarrow>
      let db2 = invalidateForMembership (sm_id next_row) (nat_str (sm_epoch next_row)) db1;
          db3 = audit (member_audit (Some aid) (role_texts actor) ''shop_membership'' (sm_id row) ''CUSTOMER_REVOKED''
            (Some reason) (mc_requestId input)
            (Some [(''status'', Some (membership_status_text (sm_status row))), (''authorizationEpoch'', Some (nat_str (sm_epoch row)))])
            (Some [(''status'', Some (membership_status_text (sm_status next_row))),
              (''authorizationEpoch'', Some (nat_str (sm_epoch next_row)))])) db2 in
      bindE (storeIdempotentChange aid ''membership-revoke'' (mc_idempotencyKey input) hash (mapMembership next_row) db3)
        (\<lambda>db4. Inr (mapMembership next_row, db4))))))"

end
