(* ===== verification/Auth.thy ===== *)
theory Auth
  imports Enterprises Memberships
begin

text \<open>
  Accounts and sessions: \<open>src/modules/auth/service.ts\<close>, \<open>postgres.ts\<close>, \<open>model.ts\<close> over the tables of
  \<open>migrations/0002\<close>, \<open>0022\<close>, \<open>0023\<close> and \<open>0040\<close>. The columns of \<open>account\<close> that only this component
  reads are kept beside its rows, by the account's id. HMAC, SHA-256, random tokens and ids and the sending of a message
  are parameters.
\<close>

section \<open>Rows\<close>

datatype OtpPurpose = REGISTER | LOGIN | PHONE_CHANGE_OLD | PHONE_CHANGE_NEW

record challenge_row =
  oc_id :: string
  oc_phone :: string
  oc_purpose :: OtpPurpose
  oc_hmac :: string
  oc_ip :: string
  oc_device :: string
  oc_failed :: nat
  oc_max :: nat
  oc_expires_at :: nat
  oc_consumed :: bool
  oc_created_at :: nat

record session_row =
  ss_id :: string
  ss_account :: string
  ss_digest :: string
  ss_csrf :: string
  ss_generation :: nat
  ss_expires_at :: nat
  ss_revoked :: bool
  ss_sequence :: nat

record phone_change_row =
  pc_account :: string
  pc_old_phone :: string
  pc_new_phone :: string
  pc_old_challenge :: string
  pc_new_challenge :: string

record login_columns =
  lo_generation :: nat
  lo_count :: nat
  lo_avatar :: nat
  lo_theme :: string

record auth_db = member_db +
  challenges :: "challenge_row list"
  sessions :: "session_row list"
  phone_changes :: "phone_change_row list"
  logins :: "string \<Rightarrow> login_columns"
  bootstrap_completed :: bool

record AccountRecord =
  ar_id :: string
  ar_phone :: string
  ar_displayName :: "string option"
  ar_avatarId :: nat
  ar_status :: ActorStatus
  ar_theme :: string
  ar_generation :: nat
  ar_roles :: "PlatformRole set"
  ar_enterprises :: "string set"

section \<open>The service\<close>

datatype SmsKind = SANDBOX | TEMPORARY_ADMIN | PRODUCTION

text \<open>\<open>sms_validate\<close> and \<open>sms_send\<close> answer with the error they throw.\<close>

record AuthOptions =
  sms_kind :: SmsKind
  sms_validate :: "string \<Rightarrow> OtpPurpose \<Rightarrow> err option"
  sms_send :: "string \<Rightarrow> OtpPurpose \<Rightarrow> string \<Rightarrow> err option"
  otp_hmac :: "string \<Rightarrow> string \<Rightarrow> OtpPurpose \<Rightarrow> string \<Rightarrow> string"
  privacy_digest :: "string \<Rightarrow> string"
  auth_digest :: "string \<Rightarrow> string"
  auth_nfc :: "string \<Rightarrow> string"
  otpTtlMs :: nat
  sessionTtlMs :: nat
  allowSandboxCodeDisclosure :: bool
  sandboxOtpCode :: "string option"
  temporaryAdminOtpCode :: "string option"
  registrationAdminPhone :: "string option"

definition six_digits :: "string \<Rightarrow> bool" where
  "six_digits s \<longleftrightarrow> length s = 6 \<and> list_all is_digit s"

text \<open>The checks of the constructor.\<close>

definition construct_service :: "bool \<Rightarrow> AuthOptions \<Rightarrow> unit result" where
  "construct_service production opts =
     (if sms_kind opts = SANDBOX \<and> production then Inl (PlainError ''SANDBOX_SMS_IN_PRODUCTION'')
      else if (case present (sandboxOtpCode opts) of None \<Rightarrow> False | Some c \<Rightarrow> sms_kind opts \<noteq> SANDBOX \<or> \<not> six_digits c)
      then Inl (PlainError ''SANDBOX_CODE_INVALID'')
      else if (case present (temporaryAdminOtpCode opts) of None \<Rightarrow> False | Some c \<Rightarrow> sms_kind opts \<noteq> TEMPORARY_ADMIN \<or> \<not> six_digits c)
      then Inl (PlainError ''TEMPORARY_ADMIN_CODE_INVALID'')
      else if sms_kind opts = TEMPORARY_ADMIN \<and> (present (temporaryAdminOtpCode opts) = None \<or> allowSandboxCodeDisclosure opts)
      then Inl (PlainError ''TEMPORARY_ADMIN_ADAPTER_INVALID'')
      else Inr ())"

text \<open>\<open>TemporaryAdminSmsProvider.validateOtpRequest\<close>.\<close>

definition temporary_admin_validate :: "string \<Rightarrow> bool \<Rightarrow> string \<Rightarrow> OtpPurpose \<Rightarrow> err option" where
  "temporary_admin_validate allowedPhone allowPublicRegistration phone purpose =
     (if (phone = allowedPhone \<and> purpose = LOGIN) \<or> (allowPublicRegistration \<and> purpose \<in> {REGISTER, LOGIN}) then None
      else Some (AuthFailure ''OTP_DELIVERY_UNAVAILABLE'' 503))"

text \<open>\<open>createOtpCode\<close>: the random number below a million, in six digits.\<close>

definition createOtpCode :: "nat \<Rightarrow> string" where
  "createOtpCode n = zero_padded 6 (int n)"

definition chosen_code :: "AuthOptions \<Rightarrow> nat \<Rightarrow> string" where
  "chosen_code opts random =
     (case (sms_kind opts, present (sandboxOtpCode opts)) of
        (SANDBOX, Some c) \<Rightarrow> c
      | (TEMPORARY_ADMIN, _) \<Rightarrow> (case temporaryAdminOtpCode opts of Some c \<Rightarrow> c | None \<Rightarrow> ''undefined'')
      | _ \<Rightarrow> createOtpCode random)"

section \<open>Challenges\<close>

definition HOUR_MS :: nat where "HOUR_MS = 60 * 60000"

text \<open>The challenges of the last hour that match.\<close>

definition recent_challenges :: "nat \<Rightarrow> (challenge_row \<Rightarrow> bool) \<Rightarrow> 'z auth_db_scheme \<Rightarrow> nat" where
  "recent_challenges tm p db = count_rows (\<lambda>c. tm \<le> oc_created_at c + HOUR_MS \<and> p c) (challenges db)"

definition challenge_checks :: "challenge_row \<Rightarrow> bool" where
  "challenge_checks c \<longleftrightarrow> e164 (oc_phone c) \<and> 1 \<le> oc_max c \<and> oc_max c \<le> 20 \<and> oc_created_at c < oc_expires_at c"

definition createOtpChallengeAfterRateCheck :: "nat \<Rightarrow> challenge_row \<Rightarrow> 'z auth_db_scheme \<Rightarrow> 'z auth_db_scheme result" where
  "createOtpChallengeAfterRateCheck tm c db =
     (if 5 \<le> recent_challenges tm (\<lambda>x. oc_phone x = oc_phone c \<and> oc_purpose x = oc_purpose c) db
        \<or> 20 \<le> recent_challenges tm (\<lambda>x. oc_ip x = oc_ip c) db
        \<or> 10 \<le> recent_challenges tm (\<lambda>x. oc_device x = oc_device c) db
      then Inl (PlainError ''OtpRateLimitError'')
      else if \<not> challenge_checks c then Inl (SqlError ''23514'' ''otp_challenge_check'')
      else if \<exists>x \<in> set (challenges db). oc_id x = oc_id c then Inl (SqlError ''23505'' ''otp_challenge_pkey'')
      else Inr (db\<lparr>challenges := challenges db @ [c]\<rparr>))"

record OtpAnswer =
  oa_challengeId :: string
  oa_expiresAt :: nat
  oa_sandboxCode :: "string option"

text \<open>A message that fails to go out leaves the challenge.\<close>

definition requestOtp ::
    "AuthOptions \<Rightarrow> nat \<Rightarrow> string \<Rightarrow> nat \<Rightarrow> string \<Rightarrow> OtpPurpose \<Rightarrow> string \<Rightarrow> string \<Rightarrow> 'z auth_db_scheme
     \<Rightarrow> OtpAnswer result \<times> 'z auth_db_scheme" where
  "requestOtp opts tm newId random rawPhone purpose ip device db =
     (case normalizePhone rawPhone of
        Inl e \<Rightarrow> (Inl e, db)
      | Inr phone \<Rightarrow>
      (case sms_validate opts phone purpose of
        Some e \<Rightarrow> (Inl e, db)
      | None \<Rightarrow>
      let code = chosen_code opts random in
      (case createOtpChallengeAfterRateCheck tm \<lparr> oc_id = newId, oc_phone = phone, oc_purpose = purpose,
            oc_hmac = otp_hmac opts newId phone purpose code, oc_ip = privacy_digest opts ip, oc_device = privacy_digest opts device,
            oc_failed = 0, oc_max = 5, oc_expires_at = tm + otpTtlMs opts, oc_consumed = False, oc_created_at = tm \<rparr> db of
        Inl e \<Rightarrow> (Inl e, db)
      | Inr db' \<Rightarrow> (case sms_send opts phone purpose code of
            Some e \<Rightarrow> (Inl e, db')
          | None \<Rightarrow> (Inr \<lparr> oa_challengeId = newId, oa_expiresAt = tm + otpTtlMs opts,
              oa_sandboxCode = (if sms_kind opts = SANDBOX \<and> allowSandboxCodeDisclosure opts then Some code else None) \<rparr>, db')))))"

definition set_challenge :: "string \<Rightarrow> (challenge_row \<Rightarrow> challenge_row) \<Rightarrow> 'z auth_db_scheme \<Rightarrow> 'z auth_db_scheme" where
  "set_challenge i f db = db\<lparr>challenges := update_rows (\<lambda>c. oc_id c = i) f (challenges db)\<rparr>"

definition markOtpFailed :: "string \<Rightarrow> 'z auth_db_scheme \<Rightarrow> 'z auth_db_scheme" where
  "markOtpFailed i = set_challenge i (\<lambda>c. if oc_failed c < oc_max c then c\<lparr>oc_failed := min (oc_failed c + 1) (oc_max c)\<rparr> else c)"

definition consumeOtp :: "string \<Rightarrow> 'z auth_db_scheme \<Rightarrow> 'z auth_db_scheme result" where
  "consumeOtp i db =
     (if \<not> list_ex (\<lambda>c. oc_id c = i \<and> \<not> oc_consumed c) (challenges db) then Inl (AppError ''OTP_INVALID'' 400 None)
      else Inr (set_challenge i (\<lambda>c. if oc_consumed c then c else c\<lparr>oc_consumed := True\<rparr>) db))"

definition challenge_refused :: "nat \<Rightarrow> string \<Rightarrow> OtpPurpose \<Rightarrow> challenge_row \<Rightarrow> bool" where
  "challenge_refused tm phone purpose c \<longleftrightarrow> oc_phone c \<noteq> phone \<or> oc_purpose c \<noteq> purpose \<or> oc_consumed c
     \<or> oc_expires_at c \<le> tm \<or> oc_max c \<le> oc_failed c"

text \<open>The work under the lock of a challenge that the three verifications share: whether the code was right.\<close>

definition check_code ::
    "AuthOptions \<Rightarrow> nat \<Rightarrow> string \<Rightarrow> string \<Rightarrow> OtpPurpose \<Rightarrow> string \<Rightarrow> 'z auth_db_scheme \<Rightarrow> (bool \<times> 'z auth_db_scheme) result" where
  "check_code opts tm i phone purpose code db =
     (case first_row (\<lambda>c. oc_id c = i) (challenges db) of
        None \<Rightarrow> Inl (AppError ''OTP_INVALID'' 400 None)
      | Some c \<Rightarrow>
          if challenge_refused tm phone purpose c then Inr (False, db)
          else if otp_hmac opts (oc_id c) phone (oc_purpose c) code \<noteq> oc_hmac c then Inr (False, markOtpFailed i db)
          else bindE (consumeOtp i db) (\<lambda>db'. Inr (True, db')))"

definition verifyChallenge ::
    "AuthOptions \<Rightarrow> nat \<Rightarrow> string \<Rightarrow> string \<Rightarrow> OtpPurpose \<Rightarrow> string \<Rightarrow> 'z auth_db_scheme \<Rightarrow> string result \<times> 'z auth_db_scheme" where
  "verifyChallenge opts tm i rawPhone purpose code db =
     (case normalizePhone rawPhone of
        Inl e \<Rightarrow> (Inl e, db)
      | Inr phone \<Rightarrow> (case check_code opts tm i phone purpose code db of
          Inl e \<Rightarrow> (Inl e, db)
        | Inr (ok, db') \<Rightarrow> (if ok then Inr i else Inl (AuthFailure ''OTP_INVALID'' 400), db')))"

section \<open>Accounts\<close>

definition hydrateAccount :: "account_row \<Rightarrow> 'z auth_db_scheme \<Rightarrow> AccountRecord" where
  "hydrateAccount a db =
     \<lparr> ar_id = ac_id a, ar_phone = ac_phone a, ar_displayName = ac_display_name a, ar_avatarId = lo_avatar (logins db (ac_id a)),
       ar_status = ac_status a, ar_theme = lo_theme (logins db (ac_id a)), ar_generation = lo_generation (logins db (ac_id a)),
       ar_roles = (case ac_role a of None \<Rightarrow> {} | Some r \<Rightarrow> {r}),
       ar_enterprises = em_enterprise_id ` {m \<in> set (enterprise_members db). em_account_id m = Some (ac_id a) \<and> em_status m = MS_ACTIVE} \<rparr>"

definition account_of :: "string \<Rightarrow> 'z core_db_scheme \<Rightarrow> account_row option" where
  "account_of i db = first_row (\<lambda>a. ac_id a = i) (accounts db)"

definition findAccountById :: "string \<Rightarrow> 'z auth_db_scheme \<Rightarrow> AccountRecord option" where
  "findAccountById i db = map_option (\<lambda>a. hydrateAccount a db) (account_of i db)"

definition findLoginAccount :: "string \<Rightarrow> 'z auth_db_scheme \<Rightarrow> AccountRecord option" where
  "findLoginAccount phone db =
     map_option (\<lambda>a. hydrateAccount a db) (first_row (\<lambda>a. ac_phone a = phone \<and> ac_registered a) (accounts db))"

definition set_accounts :: "string \<Rightarrow> (account_row \<Rightarrow> account_row) \<Rightarrow> 'z core_db_scheme \<Rightarrow> 'z core_db_scheme" where
  "set_accounts i f db = db\<lparr>accounts := update_rows (\<lambda>a. ac_id a = i) f (accounts db)\<rparr>"

definition set_login :: "string \<Rightarrow> (login_columns \<Rightarrow> login_columns) \<Rightarrow> 'z auth_db_scheme \<Rightarrow> 'z auth_db_scheme" where
  "set_login i f db = db\<lparr>logins := (logins db)(i := f (logins db i))\<rparr>"

text \<open>\<open>account_display_name_ck\<close>.\<close>

definition display_name_ok :: "string option \<Rightarrow> bool" where
  "display_name_ok d \<longleftrightarrow> (case d of None \<Rightarrow> True | Some n \<Rightarrow> n = btrim n \<and> 1 \<le> length n \<and> length n \<le> 80)"

text \<open>\<open>INSERT INTO account\<close> with the defaults of the other columns; the number was not there.\<close>

definition insert_account :: "account_row \<Rightarrow> nat \<Rightarrow> 'z auth_db_scheme \<Rightarrow> 'z auth_db_scheme result" where
  "insert_account a avatar db =
     (if \<not> e164 (ac_phone a) \<or> \<not> display_name_ok (ac_display_name a) \<or> avatar < 1 \<or> 59 < avatar
      then Inl (SqlError ''23514'' ''account_check'')
      else if \<exists>x \<in> set (accounts db). ac_id x = ac_id a then Inl (SqlError ''23505'' ''account_pkey'')
      else Inr (db\<lparr>accounts := accounts db @ [a],
             logins := (logins db)(ac_id a := \<lparr> lo_generation = 1, lo_count = 0, lo_avatar = avatar, lo_theme = ''comfort'' \<rparr>)\<rparr>))"

definition insert_role :: "string \<Rightarrow> PlatformRole \<Rightarrow> 'z core_db_scheme \<Rightarrow> 'z core_db_scheme result" where
  "insert_role i r db =
     (if list_ex (\<lambda>a. ac_id a = i \<and> ac_role a \<noteq> None) (accounts db) then Inl (SqlError ''23505'' ''account_role_one_per_account'')
      else Inr (set_accounts i (\<lambda>a. a\<lparr>ac_role := Some r\<rparr>) db))"

section \<open>What waited for a number\<close>

text \<open>A statement that updates several members checks them one by one.\<close>

fun update_each :: "(enterprise_member_row \<Rightarrow> enterprise_member_row) \<Rightarrow> string list \<Rightarrow> 'z core_db_scheme \<Rightarrow> 'z core_db_scheme result" where
  "update_each f [] db = Inr db"
| "update_each f (i # rest) db = bindE (update_member (\<lambda>m. em_id m = i) f db) (\<lambda>(_, db'). update_each f rest db')"

definition member_ids :: "(enterprise_member_row \<Rightarrow> bool) \<Rightarrow> 'z core_db_scheme \<Rightarrow> string list" where
  "member_ids p db = map em_id (filter p (enterprise_members db))"

text \<open>Pending memberships of a number where the account is already active are revoked.\<close>

definition merge_pending :: "string \<Rightarrow> string \<Rightarrow> 'z core_db_scheme \<Rightarrow> 'z core_db_scheme result" where
  "merge_pending phone accountId db =
     update_each (\<lambda>m. m\<lparr>em_status := MS_REVOKED, em_revoke_reason := Some ''MERGED_AFTER_PHONE_CHANGE'', em_epoch := em_epoch m + 1\<rparr>)
       (member_ids (\<lambda>m. em_phone m = phone \<and> em_status m = MS_PENDING
          \<and> (\<exists>x \<in> set (enterprise_members db). em_enterprise_id x = em_enterprise_id m \<and> em_account_id x = Some accountId
                \<and> em_status x = MS_ACTIVE)) db) db"

definition plain_audit :: "string option \<Rightarrow> string list \<Rightarrow> string \<Rightarrow> string \<Rightarrow> string \<Rightarrow> bool \<Rightarrow> string option \<Rightarrow> json_object \<Rightarrow> AuditRecord" where
  "plain_audit actor actorRoles kind oid action ok reason after =
     \<lparr> au_actorAccountId = actor, au_actorRoles = actorRoles, au_objectType = kind, au_objectId = oid, au_action = action,
       au_succeeded = ok, au_reason = reason, au_requestId = [], au_before = None, au_after = Some after \<rparr>"

definition activate_members :: "string \<Rightarrow> string \<Rightarrow> 'z core_db_scheme \<Rightarrow> 'z core_db_scheme result" where
  "activate_members phone accountId db =
     (let pending = filter (\<lambda>m. em_phone m = phone \<and> em_status m = MS_PENDING) (enterprise_members db) in
      bindE (update_each (\<lambda>m. m\<lparr>em_account_id := Some accountId, em_status := MS_ACTIVE\<rparr>) (map em_id pending) db) (\<lambda>db1.
      Inr (fold (\<lambda>m. audit (plain_audit (Some accountId) [] ''enterprise_member'' (em_id m) ''ENTERPRISE_MEMBER_ACTIVATED'' True None
        [(''enterpriseId'', Some (em_enterprise_id m)), (''automatic'', Some ''true'')])) pending db1)))"

text \<open>\<open>newIds\<close> names the membership an invitation would create.\<close>

definition accept_pending_invitation :: "(string \<Rightarrow> string) \<Rightarrow> string \<Rightarrow> invitation_row \<Rightarrow> 'z member_db_scheme \<Rightarrow> 'z member_db_scheme result" where
  "accept_pending_invitation newIds accountId i db =
     bindE (activateShopMembership (newIds (iv_id i)) (activation_of i accountId) db) (\<lambda>(m, db1).
     Inr (audit (plain_audit (Some accountId) [] ''shop_membership'' (cm_id m) ''CUSTOMER_INVITATION_ACCEPTED'' True None
         [(''shopId'', Some (iv_shop_id i)), (''automatic'', Some ''registration'')])
       (accept_invitation (\<lambda>x. iv_id x = iv_id i \<and> iv_status x = Inv_PENDING) accountId db1)))"

fun accept_all :: "(string \<Rightarrow> string) \<Rightarrow> string \<Rightarrow> invitation_row list \<Rightarrow> 'z member_db_scheme \<Rightarrow> 'z member_db_scheme result" where
  "accept_all newIds accountId [] db = Inr db"
| "accept_all newIds accountId (i # rest) db = bindE (accept_pending_invitation newIds accountId i db) (accept_all newIds accountId rest)"

definition activatePendingRelationships ::
    "nat \<Rightarrow> (string \<Rightarrow> string) \<Rightarrow> string \<Rightarrow> string \<Rightarrow> 'z member_db_scheme \<Rightarrow> 'z member_db_scheme result" where
  "activatePendingRelationships tm newIds phone accountId db =
     bindE (merge_pending phone accountId db) (\<lambda>db1.
     bindE (activate_members phone accountId db1) (\<lambda>db2.
     accept_all newIds accountId (filter (\<lambda>i. iv_phone i = phone \<and> iv_status i = Inv_PENDING \<and> tm < iv_expires_at i) (invitations db2)) db2))"

definition registered_audit :: "string \<Rightarrow> json_object \<Rightarrow> AuditRecord" where
  "registered_audit i after = plain_audit (Some i) [] ''account'' i ''ACCOUNT_REGISTERED'' True None after"

text \<open>What a verification or a registration draws: the id and the picture of a new account, and new memberships.\<close>

record newcomer =
  nc_account :: string
  nc_avatar :: nat
  nc_membership :: "string \<Rightarrow> string"

definition new_account_row :: "string \<Rightarrow> string \<Rightarrow> string option \<Rightarrow> account_row" where
  "new_account_row i phone name = \<lparr> ac_id = i, ac_phone = phone, ac_display_name = name, ac_registered = True,
     ac_status = Actor_ACTIVE, ac_role = None \<rparr>"

definition enroll ::
    "nat \<Rightarrow> newcomer \<Rightarrow> string \<Rightarrow> string \<Rightarrow> PlatformRole \<Rightarrow> json_object \<Rightarrow> 'z auth_db_scheme \<Rightarrow> (AccountRecord option \<times> 'z auth_db_scheme) result" where
  "enroll tm n i phone r extra db =
     bindE (insert_role i r db) (\<lambda>db1.
     bindE (activatePendingRelationships tm (nc_membership n) phone i db1) (\<lambda>db2.
     let db3 = audit (registered_audit i ((''role'', Some (role_text r)) # extra)) db2 in
     Inr (findAccountById i db3, db3)))"

definition activateInvitedAccount ::
    "nat \<Rightarrow> newcomer \<Rightarrow> string \<Rightarrow> 'z auth_db_scheme \<Rightarrow> (AccountRecord option \<times> 'z auth_db_scheme) result" where
  "activateInvitedAccount tm n phone db =
     (case first_row (\<lambda>m. em_phone m = phone \<and> em_status m = MS_PENDING) (enterprise_members db) of
        None \<Rightarrow> Inr (None, db)
      | Some invitation \<Rightarrow>
          if list_ex (\<lambda>a. ac_phone a = phone) (accounts db) then Inr (findLoginAccount phone db, db)
          else bindE (insert_account (new_account_row (nc_account n) phone (em_display_name invitation)) (nc_avatar n) db) (\<lambda>db1.
               enroll tm n (nc_account n) phone ACCOUNTANT [(''automatic'', Some ''enterprise-invitation'')] db1))"

text \<open>The account and whether it is new.\<close>

definition registerLoginAccount ::
    "nat \<Rightarrow> newcomer \<Rightarrow> string \<Rightarrow> string option \<Rightarrow> bool \<Rightarrow> 'z auth_db_scheme \<Rightarrow> ((AccountRecord option \<times> bool) \<times> 'z auth_db_scheme) result" where
  "registerLoginAccount tm n phone displayName grantAdministrator db =
     (let r = (if grantAdministrator then ADMIN else ACCOUNTANT);
          finish = (\<lambda>i db1. bindE (enroll tm n i phone r [] db1) (\<lambda>(a, db2). Inr ((a, True), db2))) in
      case first_row (\<lambda>a. ac_phone a = phone) (accounts db) of
        Some a \<Rightarrow>
          if ac_registered a then Inr ((Some (hydrateAccount a db), False), db)
          else if \<not> display_name_ok displayName \<or> nc_avatar n < 1 \<or> 59 < nc_avatar n then Inl (SqlError ''23514'' ''account_check'')
          else finish (ac_id a) (set_login (ac_id a) (\<lambda>l. l\<lparr>lo_avatar := nc_avatar n\<rparr>)
                 (set_accounts (ac_id a) (\<lambda>x. x\<lparr>ac_display_name := displayName, ac_registered := True\<rparr>) db))
      | None \<Rightarrow> bindE (insert_account (new_account_row (nc_account n) phone displayName) (nc_avatar n) db) (finish (nc_account n)))"

end
