(* ===== verification/AuthOps.thy ===== *)
theory AuthOps
  imports Auth
begin

text \<open>
  Signing in, registering, authenticating a request, signing out and the settings of an account: the rest of the
  operations of \<open>src/modules/auth/service.ts\<close> with their statements in \<open>postgres.ts\<close>. An operation of several
  transactions returns its outcome and the state.
\<close>

section \<open>Sessions\<close>

definition roles_texts :: "PlatformRole set \<Rightarrow> string list" where
  "roles_texts rs = map role_text (filter (\<lambda>r. r \<in> rs) [ACCOUNTANT, ADMIN])"

text \<open>The count of logins and the session with its audit record, in one transaction.\<close>

definition createSessionWithLoginAudit ::
    "string \<Rightarrow> nat \<Rightarrow> AccountRecord \<Rightarrow> string \<Rightarrow> string \<Rightarrow> nat \<Rightarrow> 'z auth_db_scheme \<Rightarrow> (nat \<times> 'z auth_db_scheme) result" where
  "createSessionWithLoginAudit newId tm account digest csrf expiresAt db =
     (if account_of (ar_id account) db = None then Inl (PlainError ''LOGIN_LIFECYCLE_UPDATE_FAILED'')
      else
        let loginSequence = lo_count (logins db (ar_id account)) + 1;
            db1 = set_login (ar_id account) (\<lambda>l. l\<lparr>lo_count := loginSequence\<rparr>) db in
        if expiresAt \<le> tm \<or> ar_generation account = 0 then Inl (SqlError ''23514'' ''auth_session_check'')
        else if \<exists>x \<in> set (sessions db). ss_id x = newId \<or> ss_digest x = digest
               \<or> (ss_account x = ar_id account \<and> ss_sequence x = loginSequence)
        then Inl (SqlError ''23505'' ''auth_session_key'')
        else Inr (loginSequence,
          audit (plain_audit (Some (ar_id account)) (roles_texts (ar_roles account)) ''account'' (ar_id account) ''ACCOUNT_LOGIN'' True None
              [(''sessionCreated'', Some ''true''), (''loginSequence'', Some (nat_str loginSequence))])
            (db1\<lparr>sessions := sessions db1 @ [\<lparr> ss_id = newId, ss_account = ar_id account, ss_digest = digest, ss_csrf = csrf,
               ss_generation = ar_generation account, ss_expires_at = expiresAt, ss_revoked = False, ss_sequence = loginSequence \<rparr>]\<rparr>)))"

record SessionCredentials =
  sc_sessionId :: string
  sc_sessionToken :: string
  sc_csrfToken :: string
  sc_expiresAt :: nat
  sc_account :: AccountRecord
  sc_isFirstLogin :: bool

text \<open>The random id and the two random tokens of a session.\<close>

record session_draw =
  sd_id :: string
  sd_token :: string
  sd_csrf :: string

definition audit_unavailable :: err where
  "audit_unavailable = AuthFailure ''AUTH_AUDIT_UNAVAILABLE'' 503"

definition issueSession ::
    "AuthOptions \<Rightarrow> session_draw \<Rightarrow> nat \<Rightarrow> AccountRecord \<Rightarrow> 'z auth_db_scheme \<Rightarrow> (SessionCredentials \<times> 'z auth_db_scheme) result" where
  "issueSession opts d tm account db =
     (case createSessionWithLoginAudit (sd_id d) tm account (auth_digest opts (sd_token d)) (auth_digest opts (sd_csrf d)) (tm + sessionTtlMs opts) db of
        Inl _ \<Rightarrow> Inl audit_unavailable
      | Inr (loginSequence, db') \<Rightarrow> Inr (\<lparr> sc_sessionId = sd_id d, sc_sessionToken = sd_token d, sc_csrfToken = sd_csrf d,
          sc_expiresAt = tm + sessionTtlMs opts, sc_account = account, sc_isFirstLogin = (loginSequence = 1) \<rparr>, db'))"

text \<open>\<open>recordLoginFailure\<close>, after the transaction of the challenge.\<close>

definition recordLoginFailure ::
    "string option \<Rightarrow> string list \<Rightarrow> string \<Rightarrow> string \<Rightarrow> string \<Rightarrow> 'z core_db_scheme \<Rightarrow> 'z core_db_scheme" where
  "recordLoginFailure actor actorRoles kind oid failureCode =
     audit (plain_audit actor actorRoles kind oid ''ACCOUNT_LOGIN'' False (Some failureCode) [(''failureCode'', Some failureCode)])"

text \<open>\<open>audit_down\<close> tells that the record of a failure cannot be written.\<close>

definition rejectLogin ::
    "bool \<Rightarrow> string option \<Rightarrow> string list \<Rightarrow> string \<Rightarrow> string \<Rightarrow> string \<Rightarrow> err \<Rightarrow> 'z core_db_scheme \<Rightarrow> 'a result \<times> 'z core_db_scheme" where
  "rejectLogin audit_down actor actorRoles kind oid failureCode e db =
     (if audit_down then (Inl audit_unavailable, db) else (Inl e, recordLoginFailure actor actorRoles kind oid failureCode db))"

text \<open>The transaction of a login: \<open>None\<close> when the code was not right, otherwise the account of the number, if any.\<close>

definition login_tx ::
    "AuthOptions \<Rightarrow> nat \<Rightarrow> newcomer \<Rightarrow> string \<Rightarrow> string \<Rightarrow> string \<Rightarrow> 'z auth_db_scheme \<Rightarrow> (AccountRecord option option \<times> 'z auth_db_scheme) result" where
  "login_tx opts tm n i phone code db =
     bindE (check_code opts tm i phone LOGIN code db) (\<lambda>(ok, db1).
     if \<not> ok then Inr (None, db1)
     else case findLoginAccount phone db1 of
       Some a \<Rightarrow> Inr (Some (Some a), db1)
     | None \<Rightarrow> bindE (activateInvitedAccount tm n phone db1) (\<lambda>(a, db2). Inr (Some a, db2)))"

definition otp_invalid_code :: "err \<Rightarrow> bool" where
  "otp_invalid_code e \<longleftrightarrow> (case e of AppError c _ _ \<Rightarrow> c = ''OTP_INVALID'' | AuthFailure c _ \<Rightarrow> c = ''OTP_INVALID'' | _ \<Rightarrow> False)"

definition verifyLogin ::
    "AuthOptions \<Rightarrow> bool \<Rightarrow> nat \<Rightarrow> newcomer \<Rightarrow> session_draw \<Rightarrow> string \<Rightarrow> string \<Rightarrow> string \<Rightarrow> 'z auth_db_scheme
     \<Rightarrow> SessionCredentials result \<times> 'z auth_db_scheme" where
  "verifyLogin opts audit_down tm n d i rawPhone code db =
     (case normalizePhone rawPhone of
        Inl e \<Rightarrow> (Inl e, db)
      | Inr phone \<Rightarrow> (case login_tx opts tm n i phone code db of
          Inl e \<Rightarrow> rejectLogin audit_down None [] ''otp_challenge'' i (if otp_invalid_code e then ''OTP_INVALID'' else ''LOGIN_PROCESSING_FAILED'') e db
        | Inr (None, db1) \<Rightarrow> rejectLogin audit_down None [] ''otp_challenge'' i ''OTP_INVALID'' (AuthFailure ''OTP_INVALID'' 400) db1
        | Inr (Some None, db1) \<Rightarrow>
            rejectLogin audit_down None [] ''otp_challenge'' i ''ACCOUNT_NOT_REGISTERED'' (AuthFailure ''ACCOUNT_NOT_REGISTERED'' 409) db1
        | Inr (Some (Some a), db1) \<Rightarrow>
            if ar_status a \<noteq> Actor_ACTIVE
            then rejectLogin audit_down (Some (ar_id a)) (roles_texts (ar_roles a)) ''account'' (ar_id a) ''ACCOUNT_DISABLED''
                   (AuthFailure ''ACCOUNT_DISABLED'' 403) db1
            else (case issueSession opts d tm a db1 of Inl e \<Rightarrow> (Inl e, db1) | Inr (c, db2) \<Rightarrow> (Inr c, db2))))"

text \<open>A registration signs in within its transaction; \<open>None\<close> when the code was not right, \<open>Some None\<close> for a known number.\<close>

definition registration_tx ::
    "AuthOptions \<Rightarrow> nat \<Rightarrow> newcomer \<Rightarrow> session_draw \<Rightarrow> string \<Rightarrow> string \<Rightarrow> string \<Rightarrow> string option \<Rightarrow> 'z auth_db_scheme
     \<Rightarrow> (SessionCredentials option option \<times> 'z auth_db_scheme) result" where
  "registration_tx opts tm n d i phone code displayName db =
     bindE (check_code opts tm i phone REGISTER code db) (\<lambda>(ok, db1).
     if \<not> ok then Inr (None, db1)
     else bindE (registerLoginAccount tm n phone displayName (registrationAdminPhone opts = Some phone) db1) (\<lambda>((a, registered), db2).
       case a of
         None \<Rightarrow> Inl (PlainError ''ACCOUNT_CREATE_FAILED'')
       | Some account \<Rightarrow>
           if \<not> registered then Inr (Some None, db2)
           else bindE (issueSession opts d tm account db2) (\<lambda>(c, db3). Inr (Some (Some c), db3))))"

definition verifyRegistration ::
    "AuthOptions \<Rightarrow> nat \<Rightarrow> newcomer \<Rightarrow> session_draw \<Rightarrow> string \<Rightarrow> string \<Rightarrow> string \<Rightarrow> string option \<Rightarrow> 'z auth_db_scheme
     \<Rightarrow> SessionCredentials result \<times> 'z auth_db_scheme" where
  "verifyRegistration opts tm n d i rawPhone code rawName db =
     (case normalizePhone rawPhone of
        Inl e \<Rightarrow> (Inl e, db)
      | Inr phone \<Rightarrow>
          let displayName = present (map_option (\<lambda>v. auth_nfc opts (trim v)) rawName) in
          if (case displayName of None \<Rightarrow> False | Some v \<Rightarrow> 80 < length v) then (Inl (AuthFailure ''REGISTRATION_NAME_INVALID'' 400), db)
          else (case registration_tx opts tm n d i phone code displayName db of
            Inl e \<Rightarrow> (Inl e, db)
          | Inr (None, db1) \<Rightarrow> (Inl (AuthFailure ''OTP_INVALID'' 400), db1)
          | Inr (Some None, db1) \<Rightarrow> (Inl (AuthFailure ''ACCOUNT_ALREADY_REGISTERED'' 409), db1)
          | Inr (Some (Some c), db1) \<Rightarrow> (Inr c, db1)))"

section \<open>Requests\<close>

definition session_of :: "string \<Rightarrow> 'z auth_db_scheme \<Rightarrow> session_row option" where
  "session_of digest db = first_row (\<lambda>x. ss_digest x = digest) (sessions db)"

definition session_invalid :: err where
  "session_invalid = AuthFailure ''SESSION_INVALID'' 401"

text \<open>The actor, the session and whether it is the first; an absent or empty CSRF token is not compared.\<close>

definition authenticate ::
    "AuthOptions \<Rightarrow> nat \<Rightarrow> string \<Rightarrow> string option \<Rightarrow> 'z auth_db_scheme \<Rightarrow> (Actor \<times> string \<times> bool) result" where
  "authenticate opts tm token csrf db =
     (case session_of (auth_digest opts token) db of
        None \<Rightarrow> Inl session_invalid
      | Some x \<Rightarrow>
          if ss_revoked x \<or> ss_expires_at x \<le> tm then Inl session_invalid
          else (case findAccountById (ss_account x) db of
            None \<Rightarrow> Inl session_invalid
          | Some a \<Rightarrow>
              if ar_status a \<noteq> Actor_ACTIVE \<or> ar_generation a \<noteq> ss_generation x then Inl session_invalid
              else if (case present csrf of None \<Rightarrow> False | Some t \<Rightarrow> auth_digest opts t \<noteq> ss_csrf x) then Inl (AuthFailure ''CSRF_INVALID'' 403)
              else Inr (\<lparr> actor_accountId = ar_id a, actor_status = ar_status a, roles = ar_roles a, enterpriseIds = Some (ar_enterprises a) \<rparr>,
                ss_id x, ss_sequence x = 1)))"

definition revokeSession :: "string \<Rightarrow> 'z auth_db_scheme \<Rightarrow> 'z auth_db_scheme" where
  "revokeSession i db = db\<lparr>sessions := update_rows (\<lambda>x. ss_id x = i) (\<lambda>x. x\<lparr>ss_revoked := True\<rparr>) (sessions db)\<rparr>"

definition logout :: "AuthOptions \<Rightarrow> string \<Rightarrow> 'z auth_db_scheme \<Rightarrow> 'z auth_db_scheme" where
  "logout opts token db = (case session_of (auth_digest opts token) db of None \<Rightarrow> db | Some x \<Rightarrow> revokeSession (ss_id x) db)"

definition setTheme :: "string \<Rightarrow> string \<Rightarrow> 'z auth_db_scheme \<Rightarrow> 'z auth_db_scheme result" where
  "setTheme i theme db =
     (if account_of i db = None then Inr db
      else if theme \<notin> {''comfort'', ''tech'', ''light'', ''dark''} then Inl (SqlError ''23514'' ''account_theme_id_check'')
      else Inr (set_login i (\<lambda>l. l\<lparr>lo_theme := theme\<rparr>) db))"

definition setAvatar :: "string \<Rightarrow> int \<Rightarrow> 'z auth_db_scheme \<Rightarrow> 'z auth_db_scheme result" where
  "setAvatar i avatar db =
     (if avatar < 1 \<or> 59 < avatar then Inl (AuthFailure ''AVATAR_INVALID'' 400)
      else Inr (set_login i (\<lambda>l. l\<lparr>lo_avatar := nat avatar\<rparr>) db))"

definition unsupported_character :: "char \<Rightarrow> bool" where
  "unsupported_character c \<longleftrightarrow> (of_char c :: nat) \<le> 31 \<or> (127 \<le> (of_char c :: nat) \<and> (of_char c :: nat) \<le> 159)"

definition setDisplayName :: "AuthOptions \<Rightarrow> string \<Rightarrow> string \<Rightarrow> 'z auth_db_scheme \<Rightarrow> 'z auth_db_scheme result" where
  "setDisplayName opts i v db =
     (let displayName = present (Some (auth_nfc opts (trim v))) in
      if (case displayName of None \<Rightarrow> False | Some w \<Rightarrow> 80 < length w \<or> list_ex unsupported_character w)
      then Inl (AuthFailure ''DISPLAY_NAME_INVALID'' 400)
      else if account_of i db \<noteq> None \<and> \<not> display_name_ok displayName then Inl (SqlError ''23514'' ''account_display_name_ck'')
      else Inr (set_accounts i (\<lambda>a. a\<lparr>ac_display_name := displayName\<rparr>) db))"

end
