(* ===== verification/AuthAdmin.thy ===== *)
theory AuthAdmin
  imports AuthOps
begin

text \<open>
  Changing the number of an account and the first administrator (\<open>changePhone\<close>, \<open>bootstrapAdministrator\<close> of
  \<open>src/modules/auth/service.ts\<close> with their transactions in \<open>postgres.ts\<close>), and the administration of accounts in
  \<open>src/modules/auth/admin.ts\<close>, without its search. The trigger \<open>protect_last_active_admin\<close> of \<open>migrations/0002\<close> is
  deferred: it looks at the state a transaction is about to commit.
\<close>

section \<open>Changing the number\<close>

definition revoke_all :: "string \<Rightarrow> 'z auth_db_scheme \<Rightarrow> 'z auth_db_scheme" where
  "revoke_all i db = db\<lparr>sessions := update_rows (\<lambda>x. ss_account x = i) (\<lambda>x. x\<lparr>ss_revoked := True\<rparr>) (sessions db)\<rparr>"

definition next_generation :: "string \<Rightarrow> 'z auth_db_scheme \<Rightarrow> 'z auth_db_scheme" where
  "next_generation i = set_login i (\<lambda>l. l\<lparr>lo_generation := lo_generation l + 1\<rparr>)"

text \<open>A challenge that proves a number: the right purpose and number, consumed and not yet expired.\<close>

definition proves_number :: "nat \<Rightarrow> OtpPurpose \<Rightarrow> string \<Rightarrow> challenge_row option \<Rightarrow> bool" where
  "proves_number tm purpose phone c \<longleftrightarrow>
     (case c of None \<Rightarrow> False
      | Some x \<Rightarrow> oc_purpose x = purpose \<and> oc_phone x = phone \<and> oc_consumed x \<and> tm < oc_expires_at x)"

definition challenge_of :: "string \<Rightarrow> 'z auth_db_scheme \<Rightarrow> challenge_row option" where
  "challenge_of i db = first_row (\<lambda>c. oc_id c = i) (challenges db)"

definition update_phone :: "string \<Rightarrow> string \<Rightarrow> 'z core_db_scheme \<Rightarrow> 'z core_db_scheme result" where
  "update_phone i phone db =
     (if \<exists>x \<in> set (accounts db). ac_id x \<noteq> i \<and> ac_phone x = phone then Inl (SqlError ''23505'' ''account_phone_e164_key'')
      else Inr (set_accounts i (\<lambda>a. a\<lparr>ac_phone := phone\<rparr>) db))"

definition insert_phone_change :: "phone_change_row \<Rightarrow> 'z auth_db_scheme \<Rightarrow> 'z auth_db_scheme result" where
  "insert_phone_change r db =
     (if pc_old_phone r = pc_new_phone r then Inl (SqlError ''23514'' ''phone_change_request_check'')
      else if \<exists>x \<in> set (phone_changes db). pc_old_challenge x = pc_old_challenge r \<or> pc_new_challenge x = pc_new_challenge r
      then Inl (SqlError ''23505'' ''phone_change_request_challenge_id_key'')
      else Inr (db\<lparr>phone_changes := phone_changes db @ [r]\<rparr>))"

definition completePhoneChange ::
    "nat \<Rightarrow> (string \<Rightarrow> string) \<Rightarrow> string \<Rightarrow> PlatformRole set \<Rightarrow> string \<Rightarrow> string \<Rightarrow> string \<Rightarrow> 'z auth_db_scheme \<Rightarrow> 'z auth_db_scheme result" where
  "completePhoneChange tm newIds i actorRoles oldChallenge newChallenge newPhone db =
     (case account_of i db of
        None \<Rightarrow> Inl (AppError ''ACCOUNT_NOT_FOUND'' 404 None)
      | Some a \<Rightarrow>
      if \<not> proves_number tm PHONE_CHANGE_OLD (ac_phone a) (challenge_of oldChallenge db)
         \<or> \<not> proves_number tm PHONE_CHANGE_NEW newPhone (challenge_of newChallenge db)
      then Inl (AppError ''PHONE_CHANGE_VERIFICATION_REQUIRED'' 400 None)
      else
      bindE (merge_pending newPhone i db) (\<lambda>db1.
      bindE (update_each (\<lambda>m. m\<lparr>em_phone := newPhone\<rparr>)
          (member_ids (\<lambda>m. em_account_id m = Some i \<and> em_status m = MS_ACTIVE) db1) db1) (\<lambda>db2.
      bindE (update_phone i newPhone db2) (\<lambda>db3.
      bindE (activatePendingRelationships tm newIds newPhone i (next_generation i db3)) (\<lambda>db4.
      bindE (insert_phone_change \<lparr> pc_account = i, pc_old_phone = ac_phone a, pc_new_phone = newPhone,
          pc_old_challenge = oldChallenge, pc_new_challenge = newChallenge \<rparr> (revoke_all i db4)) (\<lambda>db5.
      Inr (audit \<lparr> au_actorAccountId = Some i, au_actorRoles = roles_texts actorRoles, au_objectType = ''account'', au_objectId = i,
          au_action = ''ACCOUNT_PHONE_CHANGED'', au_succeeded = True, au_reason = None, au_requestId = [],
          au_before = Some [(''sessionGeneration'', Some (nat_str (lo_generation (logins db i))))],
          au_after = Some [(''sessionGeneration'', Some (nat_str (lo_generation (logins db i) + 1))), (''sessionsRevoked'', Some ''true'')] \<rparr> db5)))))))"

definition changePhone ::
    "nat \<Rightarrow> (string \<Rightarrow> string) \<Rightarrow> string \<Rightarrow> PlatformRole set \<Rightarrow> string \<Rightarrow> string \<Rightarrow> string \<Rightarrow> 'z auth_db_scheme \<Rightarrow> 'z auth_db_scheme result" where
  "changePhone tm newIds i actorRoles oldChallenge newChallenge rawPhone db =
     bindE (normalizePhone rawPhone) (\<lambda>phone. completePhoneChange tm newIds i actorRoles oldChallenge newChallenge phone db)"

section \<open>Administrators\<close>

definition active_admin :: "account_row \<Rightarrow> bool" where
  "active_admin a \<longleftrightarrow> ac_role a = Some ADMIN \<and> ac_status a = Actor_ACTIVE"

text \<open>\<open>protect_last_active_admin\<close>.\<close>

definition last_admin_guard :: "'z auth_db_scheme \<Rightarrow> bool" where
  "last_admin_guard db \<longleftrightarrow> list_ex active_admin (accounts db) \<or> \<not> bootstrap_completed db"

definition last_admin_error :: err where
  "last_admin_error = SqlError ''23514'' ''last active administrator''"

definition commit_guarded :: "bool \<Rightarrow> 'z auth_db_scheme \<Rightarrow> 'z auth_db_scheme result" where
  "commit_guarded fires db = (if fires \<and> \<not> last_admin_guard db then Inl last_admin_error else Inr db)"

definition bootstrap_account :: "string \<Rightarrow> string \<Rightarrow> 'z auth_db_scheme \<Rightarrow> (account_row \<times> 'z auth_db_scheme) result" where
  "bootstrap_account newId phone db =
     (case first_row (\<lambda>a. ac_phone a = phone) (accounts db) of
        Some a \<Rightarrow> Inr (a, set_accounts (ac_id a) (\<lambda>x. x\<lparr>ac_registered := True\<rparr>) db)
      | None \<Rightarrow> bindE (insert_account (new_account_row newId phone None) 1 db) (\<lambda>db1. Inr (new_account_row newId phone None, db1)))"

definition bootstrapAdministrator ::
    "string \<Rightarrow> string \<Rightarrow> 'z auth_db_scheme \<Rightarrow> (AccountRecord option \<times> 'z auth_db_scheme) result" where
  "bootstrapAdministrator newId rawPhone db =
     bindE (normalizePhone rawPhone) (\<lambda>phone.
     if bootstrap_completed db then Inl (AppError ''ADMIN_BOOTSTRAP_CLOSED'' 409 None)
     else
       bindE (bootstrap_account newId phone db) (\<lambda>(a, db1).
       bindE (commit_guarded (ac_role a \<noteq> None)
           ((set_accounts (ac_id a) (\<lambda>x. x\<lparr>ac_role := Some ADMIN\<rparr>) db1)\<lparr>bootstrap_completed := True\<rparr>)) (\<lambda>db2.
       Inr (findAccountById (ac_id a) db2, db2))))"

definition rethrowIdentityConstraint :: "err \<Rightarrow> err" where
  "rethrowIdentityConstraint e = (if e = last_admin_error then AppError ''LAST_ACTIVE_ADMIN'' 409 None else e)"

fun status_text :: "ActorStatus \<Rightarrow> string" where
  "status_text Actor_ACTIVE = ''ACTIVE''"
| "status_text Actor_DISABLED = ''DISABLED''"

definition admin_audit ::
    "Actor \<Rightarrow> string \<Rightarrow> string \<Rightarrow> string \<Rightarrow> string \<Rightarrow> string \<Rightarrow> json_object \<Rightarrow> json_object \<Rightarrow> AuditRecord" where
  "admin_audit actor kind i action reason requestId before after =
     \<lparr> au_actorAccountId = Some (actor_accountId actor), au_actorRoles = role_texts actor, au_objectType = kind, au_objectId = i,
       au_action = action, au_succeeded = True, au_reason = Some (trim reason), au_requestId = requestId,
       au_before = Some before, au_after = Some after \<rparr>"

text \<open>What both operations do to an account they found: \<open>fires\<close> tells whether the trigger is due.\<close>

definition reset_account ::
    "string \<Rightarrow> (account_row \<Rightarrow> account_row) \<Rightarrow> bool \<Rightarrow> AuditRecord \<Rightarrow> 'z auth_db_scheme \<Rightarrow> 'z auth_db_scheme result" where
  "reset_account i f fires r db = commit_guarded fires (audit r (revoke_all i (next_generation i (set_accounts i f db))))"

definition setStatus :: "Actor \<Rightarrow> string \<Rightarrow> ActorStatus \<Rightarrow> string \<Rightarrow> string \<Rightarrow> 'z auth_db_scheme \<Rightarrow> 'z auth_db_scheme result" where
  "setStatus actor i st reason requestId db =
     bindE (requireAllowed (authorizePlatform actor ADMIN_ACCOUNTANTS) None) (\<lambda>_.
     if trim reason = [] then Inl (AppError ''REASON_REQUIRED'' 400 (Some ''reason''))
     else map_sum rethrowIdentityConstraint id
       (case account_of i db of
          None \<Rightarrow> Inl (AppError ''ACCOUNT_NOT_FOUND'' 404 None)
        | Some a \<Rightarrow> reset_account i (\<lambda>x. x\<lparr>ac_status := st\<rparr>) True
            (admin_audit actor ''account'' i ''ACCOUNT_STATUS_CHANGED'' reason requestId
               [(''status'', Some (status_text (ac_status a)))] [(''status'', Some (status_text st))]) db))"

definition setAdministrator :: "Actor \<Rightarrow> string \<Rightarrow> bool \<Rightarrow> string \<Rightarrow> string \<Rightarrow> 'z auth_db_scheme \<Rightarrow> 'z auth_db_scheme result" where
  "setAdministrator actor i enabled reason requestId db =
     bindE (requireAllowed (authorizePlatform actor ADMIN_ACCOUNTANTS) None) (\<lambda>_.
     if trim reason = [] then Inl (AppError ''REASON_REQUIRED'' 400 (Some ''reason''))
     else map_sum rethrowIdentityConstraint id
       (case account_of i db of
          None \<Rightarrow> Inl (AppError ''ACCOUNT_NOT_FOUND'' 404 None)
        | Some a \<Rightarrow>
            let r = (if enabled then ADMIN else ACCOUNTANT) in
            reset_account i (\<lambda>x. x\<lparr>ac_role := Some r\<rparr>) (ac_role a \<noteq> None)
              (admin_audit actor ''account_role'' i (if enabled then ''ADMIN_GRANTED'' else ''ADMIN_REVOKED'') reason requestId
                 [(''role'', map_option role_text (ac_role a))] [(''role'', Some (role_text r))]) db))"

end
