(* ===== verification/AuthBook.thy ===== *)
theory AuthBook
  imports AuthAdmin
begin

text \<open>
  The book behind the sessions: what well-formed tables are (\<open>auth_inv\<close>), how they may evolve (\<open>auth_evolves\<close>), and
  that what the operations are made of keeps both (\<open>auth_keeps\<close>). What happens to memberships and invitations when
  a number gets its account leaves these tables alone (\<open>login_part\<close>).
\<close>

section \<open>The tables of the component\<close>

definition login_part where
  "login_part db = (accounts db, challenges db, sessions db, phone_changes db, logins db, bootstrap_completed db)"

lemma login_part_eq: "login_part db' = login_part db \<longleftrightarrow>
    accounts db' = accounts db \<and> challenges db' = challenges db \<and> sessions db' = sessions db
    \<and> phone_changes db' = phone_changes db \<and> logins db' = logins db \<and> bootstrap_completed db' = bootstrap_completed db"
  by (auto simp: login_part_def)

lemma audit_login_part [simp]: "login_part (audit r db) = login_part db"
  by (simp add: login_part_def audit_def)

lemma audits_login_part [simp]: "login_part (fold (\<lambda>m. audit (f m)) ms db) = login_part db"
  by (induction ms arbitrary: db) simp_all

lemma accept_login_part [simp]: "login_part (accept_invitation p i db) = login_part db"
  by (simp add: login_part_def accept_invitation_def)

lemma update_member_login_part: "update_member p f db = Inr (m, db') \<Longrightarrow> login_part db' = login_part db"
  by (auto simp: update_member_def login_part_def split: option.splits)

lemma update_each_login_part: "update_each f is db = Inr db' \<Longrightarrow> login_part db' = login_part db"
  by (induction "is" arbitrary: db) (auto simp: bindE_Inr_iff dest: update_member_login_part)

lemma merge_login_part: "merge_pending phone i db = Inr db' \<Longrightarrow> login_part db' = login_part db"
  unfolding merge_pending_def by (rule update_each_login_part)

lemma activate_members_login_part: "activate_members phone i db = Inr db' \<Longrightarrow> login_part db' = login_part db"
  by (auto simp: activate_members_def Let_def bindE_Inr_iff dest: update_each_login_part)

lemma upsert_login_part: "upsert_membership newId a db = Inr (m, db') \<Longrightarrow> login_part db' = login_part db"
  by (auto simp: upsert_membership_def Let_def login_part_def split: option.splits if_splits)

lemma activateShop_login_part: "activateShopMembership newId a db = Inr (m, db') \<Longrightarrow> login_part db' = login_part db"
proof -
  assume "activateShopMembership newId a db = Inr (m, db')"
  then obtain row db1 where "upsert_membership newId a db = Inr (row, db1)"
      and "db' = (if nat_str (sm_epoch row) \<noteq> ''1'' then invalidateForMembership (sm_id row) (nat_str (sm_epoch row)) db1 else db1)"
    by (auto simp: activateShopMembership_def Let_def bindE_Inr_iff)
  with upsert_login_part [OF this(1)] show ?thesis by (simp add: login_part_def invalidateForMembership_def)
qed

lemma accept_all_login_part: "accept_all newIds i ivs db = Inr db' \<Longrightarrow> login_part db' = login_part db"
  by (induction ivs arbitrary: db) (auto simp: accept_pending_invitation_def bindE_Inr_iff dest: activateShop_login_part)

lemma activatePending_login_part:
  "activatePendingRelationships tm newIds phone i db = Inr db' \<Longrightarrow> login_part db' = login_part db"
  by (auto simp: activatePendingRelationships_def bindE_Inr_iff
      dest!: merge_login_part activate_members_login_part accept_all_login_part)

section \<open>Well-formed tables\<close>

definition login_ok :: "login_columns \<Rightarrow> bool" where
  "login_ok l \<longleftrightarrow> 1 \<le> lo_generation l \<and> 1 \<le> lo_avatar l \<and> lo_avatar l \<le> 59 \<and> lo_theme l \<in> {''comfort'', ''tech'', ''light'', ''dark''}"

text \<open>Every account is registered and has its role: the operations complete both in one transaction.\<close>

definition account_ok :: "(string \<Rightarrow> login_columns) \<Rightarrow> account_row \<Rightarrow> bool" where
  "account_ok l a \<longleftrightarrow> e164 (ac_phone a) \<and> display_name_ok (ac_display_name a) \<and> ac_registered a \<and> ac_role a \<noteq> None
     \<and> login_ok (l (ac_id a))"

definition session_ok :: "account_row list \<Rightarrow> (string \<Rightarrow> login_columns) \<Rightarrow> session_row \<Rightarrow> bool" where
  "session_ok as l x \<longleftrightarrow> ss_account x \<in> ac_id ` set as \<and> 1 \<le> ss_generation x \<and> ss_generation x \<le> lo_generation (l (ss_account x))
     \<and> 1 \<le> ss_sequence x \<and> ss_sequence x \<le> lo_count (l (ss_account x))"

definition challenge_ok :: "challenge_row \<Rightarrow> bool" where
  "challenge_ok c \<longleftrightarrow> challenge_checks c \<and> oc_failed c \<le> oc_max c"

definition accounts_inv :: "account_row list \<Rightarrow> (string \<Rightarrow> login_columns) \<Rightarrow> bool" where
  "accounts_inv as l \<longleftrightarrow> distinct (map ac_id as) \<and> distinct (map ac_phone as) \<and> list_all (account_ok l) as"

definition sessions_inv :: "session_row list \<Rightarrow> account_row list \<Rightarrow> (string \<Rightarrow> login_columns) \<Rightarrow> bool" where
  "sessions_inv ss as l \<longleftrightarrow> distinct (map ss_id ss) \<and> distinct (map ss_digest ss)
     \<and> distinct (map (\<lambda>x. (ss_account x, ss_sequence x)) ss) \<and> list_all (session_ok as l) ss"

definition challenges_inv :: "challenge_row list \<Rightarrow> bool" where
  "challenges_inv cs \<longleftrightarrow> distinct (map oc_id cs) \<and> list_all challenge_ok cs"

definition auth_inv :: "'z auth_db_scheme \<Rightarrow> bool" where
  "auth_inv db \<longleftrightarrow> accounts_inv (accounts db) (logins db) \<and> sessions_inv (sessions db) (accounts db) (logins db)
     \<and> challenges_inv (challenges db)"

section \<open>How the tables evolve\<close>

text \<open>Accounts stay, their generations and logins do not fall.\<close>

definition accounts_evolve :: "'z auth_db_scheme \<Rightarrow> 'z auth_db_scheme \<Rightarrow> bool" where
  "accounts_evolve db db' \<longleftrightarrow> (\<forall>i \<in> ac_id ` set (accounts db). i \<in> ac_id ` set (accounts db')
     \<and> lo_generation (logins db i) \<le> lo_generation (logins db' i) \<and> lo_count (logins db i) \<le> lo_count (logins db' i))"

text \<open>A session keeps its token, its account and its generation, and is never revived.\<close>

definition same_session :: "session_row \<Rightarrow> session_row \<Rightarrow> bool" where
  "same_session x y \<longleftrightarrow> y = x \<or> y = x\<lparr>ss_revoked := True\<rparr>"

definition sessions_evolve :: "'z auth_db_scheme \<Rightarrow> 'z auth_db_scheme \<Rightarrow> bool" where
  "sessions_evolve db db' \<longleftrightarrow> (\<forall>d x. session_of d db = Some x \<longrightarrow> (\<exists>y. session_of d db' = Some y \<and> same_session x y))"

text \<open>A challenge keeps its terms; its failures do not fall and what is consumed stays so.\<close>

definition challenge_terms where
  "challenge_terms c = (oc_id c, oc_phone c, oc_purpose c, oc_hmac c, oc_max c, oc_expires_at c, oc_created_at c)"

definition same_challenge :: "challenge_row \<Rightarrow> challenge_row \<Rightarrow> bool" where
  "same_challenge c d \<longleftrightarrow> challenge_terms d = challenge_terms c \<and> oc_failed c \<le> oc_failed d \<and> (oc_consumed c \<longrightarrow> oc_consumed d)"

definition challenges_evolve :: "'z auth_db_scheme \<Rightarrow> 'z auth_db_scheme \<Rightarrow> bool" where
  "challenges_evolve db db' \<longleftrightarrow> (\<forall>i c. challenge_of i db = Some c \<longrightarrow> (\<exists>d. challenge_of i db' = Some d \<and> same_challenge c d))"

definition auth_evolves :: "'z auth_db_scheme \<Rightarrow> 'z auth_db_scheme \<Rightarrow> bool" where
  "auth_evolves db db' \<longleftrightarrow> accounts_evolve db db' \<and> sessions_evolve db db' \<and> challenges_evolve db db'
     \<and> (bootstrap_completed db \<longrightarrow> bootstrap_completed db')"

definition auth_keeps :: "'z auth_db_scheme \<Rightarrow> 'z auth_db_scheme \<Rightarrow> bool" where
  "auth_keeps db db' \<longleftrightarrow> (auth_inv db \<longrightarrow> auth_inv db' \<and> auth_evolves db db')"

lemma same_session_trans: "same_session x y \<Longrightarrow> same_session y z \<Longrightarrow> same_session x z"
  by (auto simp: same_session_def)

lemma same_challenge_refl [simp]: "same_challenge c c"
  by (simp add: same_challenge_def)

lemma same_challenge_trans: "same_challenge a b \<Longrightarrow> same_challenge b c \<Longrightarrow> same_challenge a c"
  by (auto simp: same_challenge_def)

lemma auth_evolves_same: "login_part db' = login_part db \<Longrightarrow> auth_evolves db db'"
  by (simp add: login_part_eq auth_evolves_def accounts_evolve_def sessions_evolve_def challenges_evolve_def session_of_def
      challenge_of_def same_session_def)

lemma auth_evolves_trans: "auth_evolves a b \<Longrightarrow> auth_evolves b c \<Longrightarrow> auth_evolves a c"
  unfolding auth_evolves_def accounts_evolve_def sessions_evolve_def challenges_evolve_def
  by (meson same_session_trans same_challenge_trans order_trans)

lemma auth_inv_same: "login_part db' = login_part db \<Longrightarrow> auth_inv db' = auth_inv db"
  by (simp add: login_part_eq auth_inv_def)

lemma auth_keeps_refl [simp]: "auth_keeps db db"
  by (simp add: auth_keeps_def auth_evolves_same)

lemma auth_keeps_trans: "auth_keeps a b \<Longrightarrow> auth_keeps b c \<Longrightarrow> auth_keeps a c"
  unfolding auth_keeps_def using auth_evolves_trans by blast

lemma auth_keeps_same: "login_part db' = login_part db \<Longrightarrow> auth_keeps db db'"
  unfolding auth_keeps_def using auth_inv_same auth_evolves_same by blast

lemma auth_keeps_then_same: "auth_keeps a b \<Longrightarrow> login_part c = login_part b \<Longrightarrow> auth_keeps a c"
  using auth_keeps_trans auth_keeps_same by blast


section \<open>Challenges\<close>

text \<open>What leaves accounts, sessions and logins alone.\<close>

definition challenge_part :: "'z auth_db_scheme \<Rightarrow> _" where
  "challenge_part db = (accounts db, sessions db, phone_changes db, logins db, bootstrap_completed db)"

lemma challenges_keep:
  assumes part: "challenge_part db' = challenge_part db"
    and inv: "challenges_inv (challenges db) \<Longrightarrow> challenges_inv (challenges db')"
    and ev: "challenges_inv (challenges db) \<Longrightarrow> challenges_evolve db db'"
  shows "auth_keeps db db'"
  using assms
  by (simp add: auth_keeps_def challenge_part_def auth_inv_def auth_evolves_def accounts_evolve_def sessions_evolve_def session_of_def
      same_session_def)

lemma challenge_of_set:
  assumes "\<And>c. oc_id (f c) = oc_id c"
  shows "challenge_of j (set_challenge i f db) = map_option (\<lambda>c. if j = i then f c else c) (challenge_of j db)"
proof -
  have "challenge_of j (set_challenge i f db) = map_option (\<lambda>c. if oc_id c = i then f c else c) (challenge_of j db)"
    unfolding challenge_of_def set_challenge_def by (simp add: assms first_row_update_rows)
  then show ?thesis by (cases "challenge_of j db") (auto simp: challenge_of_def dest: first_row_SomeD)
qed

lemma set_challenge_keeps:
  assumes same: "\<And>c. same_challenge c (f c)" and le: "\<And>c. oc_failed c \<le> oc_max c \<Longrightarrow> oc_failed (f c) \<le> oc_max c"
  shows "auth_keeps db (set_challenge i f db)"
proof (rule challenges_keep)
  have terms: "challenge_terms (f c) = challenge_terms c" for c using same by (simp add: same_challenge_def)
  then have ids: "oc_id (f c) = oc_id c" for c by (simp add: challenge_terms_def)
  show "challenge_part (set_challenge i f db) = challenge_part db" by (simp add: challenge_part_def set_challenge_def)
  show "challenges_evolve db (set_challenge i f db)"
    unfolding challenges_evolve_def by (simp add: challenge_of_set [OF ids] same)
  have ok: "challenge_ok c \<Longrightarrow> challenge_ok (f c)" for c
    using terms [of c] le [of c] by (simp add: challenge_ok_def challenge_checks_def challenge_terms_def)
  assume "challenges_inv (challenges db)"
  with ok show "challenges_inv (challenges (set_challenge i f db))"
    unfolding challenges_inv_def set_challenge_def by (auto simp: map_update_rows ids list_all_iff in_update_rows)
qed

lemma markOtpFailed_keeps: "auth_keeps db (markOtpFailed i db)"
  unfolding markOtpFailed_def by (rule set_challenge_keeps) (auto simp: same_challenge_def challenge_terms_def)

lemma consumeOtp_eq: "consumeOtp i db = Inr db' \<Longrightarrow> db' = set_challenge i (\<lambda>c. if oc_consumed c then c else c\<lparr>oc_consumed := True\<rparr>) db"
  by (simp add: consumeOtp_def split: if_splits)

lemma consumeOtp_keeps: "consumeOtp i db = Inr db' \<Longrightarrow> auth_keeps db db'"
  by (drule consumeOtp_eq, erule ssubst, rule set_challenge_keeps) (auto simp: same_challenge_def challenge_terms_def)

lemma check_code_cases:
  assumes "check_code opts tm i phone purpose code db = Inr (ok, db')"
  obtains c where "challenge_of i db = Some c" and "\<not> ok" and "db' = db" and "challenge_refused tm phone purpose c"
  | c where "challenge_of i db = Some c" and "\<not> ok" and "db' = markOtpFailed i db" and "\<not> challenge_refused tm phone purpose c"
      and "otp_hmac opts i phone purpose code \<noteq> oc_hmac c"
  | c where "challenge_of i db = Some c" and "ok" and "consumeOtp i db = Inr db'" and "\<not> challenge_refused tm phone purpose c"
      and "otp_hmac opts i phone purpose code = oc_hmac c"
proof -
  obtain c where c: "challenge_of i db = Some c"
    using assms by (auto simp: check_code_def challenge_of_def split: option.splits)
  then have i: "oc_id c = i" by (auto simp: challenge_of_def dest: first_row_SomeD)
  have eq: "check_code opts tm i phone purpose code db =
      (if challenge_refused tm phone purpose c then Inr (False, db)
       else if otp_hmac opts i phone (oc_purpose c) code \<noteq> oc_hmac c then Inr (False, markOtpFailed i db)
       else bindE (consumeOtp i db) (\<lambda>db'. Inr (True, db')))"
    using c i by (simp add: check_code_def challenge_of_def)
  show thesis
  proof (cases "challenge_refused tm phone purpose c")
    case True
    then show ?thesis using that(1) [OF c] assms eq by simp
  next
    case False
    then have "oc_purpose c = purpose" by (simp add: challenge_refused_def)
    then show ?thesis
      using that(2) [OF c _ _ False] that(3) [OF c _ _ False] assms eq False
      by (auto simp: bindE_Inr_iff split: if_splits)
  qed
qed

lemma check_code_keeps:
  assumes "check_code opts tm i phone purpose code db = Inr (ok, db')"
  shows "auth_keeps db db'"
  using assms by (cases rule: check_code_cases) (simp_all add: markOtpFailed_keeps consumeOtp_keeps)

lemma create_challenge_keeps:
  assumes "createOtpChallengeAfterRateCheck tm c db = Inr db'" and "oc_failed c \<le> oc_max c"
  shows "auth_keeps db db'"
proof (rule challenges_keep)
  have new: "challenge_checks c" "\<forall>x \<in> set (challenges db). oc_id x \<noteq> oc_id c" "db' = db\<lparr>challenges := challenges db @ [c]\<rparr>"
    using assms(1) by (auto simp: createOtpChallengeAfterRateCheck_def split: if_splits)
  show "challenge_part db' = challenge_part db" by (simp add: challenge_part_def new(3))
  show "challenges_evolve db db'"
    by (auto simp: challenges_evolve_def challenge_of_def new(3) first_row_append)
  assume "challenges_inv (challenges db)"
  then show "challenges_inv (challenges db')"
    using new assms(2) by (auto simp: challenges_inv_def challenge_ok_def)
qed

lemma requestOtp_keeps: "requestOtp opts tm newId random phone purpose ip device db = (r, db') \<Longrightarrow> auth_keeps db db'"
  by (auto simp: requestOtp_def Let_def split: sum.splits option.splits elim!: create_challenge_keeps)

lemma verifyChallenge_keeps: "verifyChallenge opts tm i phone purpose code db = (r, db') \<Longrightarrow> auth_keeps db db'"
  by (auto simp: verifyChallenge_def split: sum.splits prod.splits dest: check_code_keeps)

section \<open>What is kept beside the tables\<close>

text \<open>What the limits look at.\<close>

definition rate_key :: "challenge_row \<Rightarrow> string \<times> OtpPurpose \<times> string \<times> string \<times> nat" where
  "rate_key c = (oc_phone c, oc_purpose c, oc_ip c, oc_device c, oc_created_at c)"

definition aside :: "'z auth_db_scheme \<Rightarrow> 'z auth_db_scheme \<Rightarrow> bool" where
  "aside db db' \<longleftrightarrow> map rate_key (challenges db') = map rate_key (challenges db) \<and> (last_admin_guard db \<longrightarrow> last_admin_guard db')"

lemma aside_refl [simp]: "aside db db"
  by (simp add: aside_def)

lemma aside_trans: "aside a b \<Longrightarrow> aside b c \<Longrightarrow> aside a c"
  by (simp add: aside_def)

lemma aside_same: "login_part db' = login_part db \<Longrightarrow> aside db db'"
  by (simp add: login_part_eq aside_def last_admin_guard_def)

lemma aside_then_same: "aside a b \<Longrightarrow> login_part c = login_part b \<Longrightarrow> aside a c"
  using aside_trans aside_same by blast

lemma aside_set_accounts:
  assumes "\<And>a. ac_role (f a) = ac_role a" and "\<And>a. ac_status (f a) = ac_status a"
  shows "aside db (set_accounts i f db)"
proof -
  have "list_ex active_admin (update_rows p f t) = list_ex active_admin t" for p t
    using assms by (induction t) (simp_all add: active_admin_def)
  then show ?thesis by (simp add: aside_def set_accounts_def last_admin_guard_def)
qed

lemma aside_set_challenge:
  assumes "\<And>c. rate_key (f c) = rate_key c"
  shows "aside db (set_challenge i f db)"
  using assms by (simp add: aside_def set_challenge_def last_admin_guard_def map_update_rows)

lemma aside_rest:
  assumes "accounts db' = accounts db" "challenges db' = challenges db" "bootstrap_completed db' = bootstrap_completed db"
  shows "aside db db'"
  using assms by (simp add: aside_def last_admin_guard_def)

lemma check_code_aside:
  assumes "check_code opts tm i phone purpose code db = Inr (ok, db')"
  shows "aside db db'"
  using assms
  by (cases rule: check_code_cases) (auto simp: markOtpFailed_def rate_key_def intro!: aside_set_challenge dest!: consumeOtp_eq)

end
