(* ===== verification/AuthAccounts.thy ===== *)
theory AuthAccounts
  imports AuthBook
begin

text \<open>
  That signing in and out, registering, the settings, changing a number and the administration of accounts keep the
  tables well-formed and let them evolve as \<open>AuthBook\<close> says, and never leave the platform without an administrator.
\<close>

section \<open>Accounts\<close>

lemma known_id: "x \<in> set t \<Longrightarrow> ac_id x = i \<Longrightarrow> i \<in> ac_id ` set t"
  by (metis imageI)

lemma session_ok_mono:
  assumes "accounts_evolve db db'" and "session_ok (accounts db) (logins db) x"
  shows "session_ok (accounts db') (logins db') x"
  using assms unfolding session_ok_def accounts_evolve_def by (meson order_trans)

lemma accounts_keep:
  assumes part: "challenges db' = challenges db" "sessions db' = sessions db" "bootstrap_completed db \<Longrightarrow> bootstrap_completed db'"
    and inv: "accounts_inv (accounts db) (logins db) \<Longrightarrow> accounts_inv (accounts db') (logins db')"
    and ev: "accounts_inv (accounts db) (logins db) \<Longrightarrow> accounts_evolve db db'"
  shows "auth_keeps db db'"
  unfolding auth_keeps_def
proof (intro impI conjI)
  assume i: "auth_inv db"
  then have ev': "accounts_evolve db db'" using ev by (simp add: auth_inv_def)
  show "auth_inv db'"
    using i inv part session_ok_mono [OF ev'] by (auto simp: auth_inv_def sessions_inv_def list_all_iff)
  show "auth_evolves db db'"
    using ev' part by (simp add: auth_evolves_def sessions_evolve_def challenges_evolve_def session_of_def challenge_of_def
      same_session_def)
qed

lemma set_accounts_keeps:
  assumes "\<And>a. ac_id (f a) = ac_id a" and "\<And>a. ac_phone (f a) = ac_phone a"
    and "\<And>l a. account_ok l a \<Longrightarrow> account_ok l (f a)"
  shows "auth_keeps db (set_accounts i f db)"
proof (rule accounts_keep)
  assume inv: "accounts_inv (accounts db) (logins db)"
  show "accounts_inv (accounts (set_accounts i f db)) (logins (set_accounts i f db))"
    using inv assms(3) by (auto simp: accounts_inv_def set_accounts_def map_update_rows assms(1,2) list_all_iff in_update_rows)
  have "ac_id ` set (accounts (set_accounts i f db)) = ac_id ` set (accounts db)"
    using map_update_rows [of "\<lambda>a. ac_id a = i" ac_id f "accounts db"] assms(1)
    by (simp add: set_accounts_def flip: set_map)
  then show "accounts_evolve db (set_accounts i f db)" by (simp add: accounts_evolve_def set_accounts_def)
qed (simp_all add: set_accounts_def)

lemma set_login_keeps:
  assumes "\<And>l. lo_generation l \<le> lo_generation (f l)" and "\<And>l. lo_count l \<le> lo_count (f l)" and "\<And>l. login_ok l \<Longrightarrow> login_ok (f l)"
  shows "auth_keeps db (set_login i f db)"
proof (rule accounts_keep)
  assume inv: "accounts_inv (accounts db) (logins db)"
  then show "accounts_inv (accounts (set_login i f db)) (logins (set_login i f db))"
    using assms(3) by (auto simp: accounts_inv_def set_login_def list_all_iff account_ok_def)
  show "accounts_evolve db (set_login i f db)" using assms(1,2) by (simp add: accounts_evolve_def set_login_def)
qed (simp_all add: set_login_def)

lemma next_generation_keeps: "auth_keeps db (next_generation i db)"
  unfolding next_generation_def by (rule set_login_keeps) (auto simp: login_ok_def)

lemma distinct_new_phone:
  assumes "distinct (map ac_id t)" "distinct (map ac_phone t)" "\<forall>x \<in> set t. ac_id x \<noteq> i \<longrightarrow> ac_phone x \<noteq> phone"
  shows "distinct (map ac_phone (update_rows (\<lambda>a. ac_id a = i) (\<lambda>a. a\<lparr>ac_phone := phone\<rparr>) t))"
  using assms
proof (induction t)
  case (Cons a t)
  then have ih: "distinct (map ac_phone (update_rows (\<lambda>a. ac_id a = i) (\<lambda>a. a\<lparr>ac_phone := phone\<rparr>) t))" by simp
  show ?case
  proof (cases "ac_id a = i")
    case True
    then have "update_rows (\<lambda>a. ac_id a = i) (\<lambda>a. a\<lparr>ac_phone := phone\<rparr>) t = t"
      using Cons.prems(1) by (intro update_rows_id) (metis distinct.simps(2) imageI list.simps(9) set_map)
    moreover have "\<forall>x \<in> set t. ac_phone x \<noteq> phone"
      using Cons.prems(1,3) True known_id [of _ t i] by auto
    ultimately show ?thesis using True Cons.prems by auto
  next
    case False
    have "ac_phone a \<notin> ac_phone ` set (update_rows (\<lambda>a. ac_id a = i) (\<lambda>a. a\<lparr>ac_phone := phone\<rparr>) t)"
      using Cons.prems False by (auto simp: in_update_rows split: if_splits)
    with ih False show ?thesis by simp
  qed
qed simp

lemma update_phone_keeps:
  assumes "update_phone i phone db = Inr db'" and "e164 phone"
  shows "auth_keeps db db'"
proof (rule accounts_keep)
  have free: "\<forall>x \<in> set (accounts db). ac_id x \<noteq> i \<longrightarrow> ac_phone x \<noteq> phone" and db': "db' = set_accounts i (\<lambda>a. a\<lparr>ac_phone := phone\<rparr>) db"
    using assms(1) by (auto simp: update_phone_def split: if_splits)
  have ids: "map ac_id (accounts db') = map ac_id (accounts db)" by (simp add: db' set_accounts_def map_update_rows)
  show "accounts_evolve db db'"
    using arg_cong [OF ids, of set] by (simp add: accounts_evolve_def db' set_accounts_def)
  assume inv: "accounts_inv (accounts db) (logins db)"
  have "list_all (account_ok (logins db)) (accounts db')"
    using inv assms(2) by (auto simp: accounts_inv_def db' set_accounts_def list_all_iff in_update_rows account_ok_def)
  then show "accounts_inv (accounts db') (logins db')"
    using inv free ids distinct_new_phone [of "accounts db" i phone] by (simp add: accounts_inv_def db' set_accounts_def)
qed (use assms in \<open>auto simp: update_phone_def set_accounts_def split: if_splits\<close>)

text \<open>A whole new account with its role, as a transaction leaves it.\<close>

definition fresh_login :: "nat \<Rightarrow> login_columns" where
  "fresh_login avatar = \<lparr> lo_generation = 1, lo_count = 0, lo_avatar = avatar, lo_theme = ''comfort'' \<rparr>"

definition add_account :: "account_row \<Rightarrow> nat \<Rightarrow> 'z auth_db_scheme \<Rightarrow> 'z auth_db_scheme" where
  "add_account a avatar db = db\<lparr>accounts := accounts db @ [a], logins := (logins db)(ac_id a := fresh_login avatar)\<rparr>"

lemma insert_account_Inr_iff [result_iff]:
  "insert_account a avatar db = Inr db' \<longleftrightarrow> e164 (ac_phone a) \<and> display_name_ok (ac_display_name a) \<and> 1 \<le> avatar \<and> avatar \<le> 59
     \<and> ac_id a \<notin> ac_id ` set (accounts db) \<and> db' = add_account a avatar db"
proof -
  have "(\<exists>x \<in> set (accounts db). ac_id x = ac_id a) \<longleftrightarrow> ac_id a \<in> ac_id ` set (accounts db)"
    by (auto intro: known_id)
  then show ?thesis by (auto simp: insert_account_def add_account_def fresh_login_def)
qed

lemma add_account_keeps:
  assumes "e164 (ac_phone a)" "display_name_ok (ac_display_name a)" "1 \<le> avatar" "avatar \<le> 59" "ac_registered a" "ac_role a \<noteq> None"
    and fresh: "ac_id a \<notin> ac_id ` set (accounts db)" "ac_phone a \<notin> ac_phone ` set (accounts db)"
  shows "auth_keeps db (add_account a avatar db)"
proof (rule accounts_keep)
  assume inv: "accounts_inv (accounts db) (logins db)"
  have "account_ok ((logins db)(ac_id a := l)) x" if "x \<in> set (accounts db)" for x l
  proof -
    have "ac_id x \<noteq> ac_id a" using that fresh(1) by (metis imageI)
    then show ?thesis using inv that by (simp add: accounts_inv_def list_all_iff account_ok_def)
  qed
  then show "accounts_inv (accounts (add_account a avatar db)) (logins (add_account a avatar db))"
    using inv assms by (auto simp: accounts_inv_def add_account_def list_all_iff account_ok_def login_ok_def fresh_login_def)
  show "accounts_evolve db (add_account a avatar db)"
    using fresh(1) known_id [of _ "accounts db" "ac_id a"] by (auto simp: accounts_evolve_def add_account_def)
qed (simp_all add: add_account_def)

section \<open>Registering\<close>

lemma insert_role_Inr: "insert_role i r db = Inr db' \<Longrightarrow> db' = set_accounts i (\<lambda>a. a\<lparr>ac_role := Some r\<rparr>) db"
  by (simp add: insert_role_def split: if_splits)

lemma hydrate_generation [simp]: "ar_generation (hydrateAccount a db) = lo_generation (logins db (ac_id a))"
  "ar_id (hydrateAccount a db) = ac_id a" "ar_status (hydrateAccount a db) = ac_status a"
  by (simp_all add: hydrateAccount_def)

text \<open>The record that a lookup gives is of the present state.\<close>

definition current_record :: "AccountRecord \<Rightarrow> 'z auth_db_scheme \<Rightarrow> bool" where
  "current_record a db \<longleftrightarrow> ar_generation a = lo_generation (logins db (ar_id a))"

lemma findAccountById_current: "findAccountById i db = Some a \<Longrightarrow> current_record a db \<and> ar_id a = i"
  by (auto simp: findAccountById_def current_record_def account_of_def dest: first_row_SomeD)

lemma findLogin_current: "findLoginAccount phone db = Some a \<Longrightarrow> current_record a db"
  by (auto simp: findLoginAccount_def current_record_def)

lemma enroll_Inr:
  assumes "enroll tm n i phone r extra db = Inr (a, db')"
  shows "login_part db' = login_part (set_accounts i (\<lambda>a. a\<lparr>ac_role := Some r\<rparr>) db)" and "a = Some b \<Longrightarrow> current_record b db'"
proof -
  obtain db1 db2 where db1: "insert_role i r db = Inr db1"
    and db2: "activatePendingRelationships tm (nc_membership n) phone i db1 = Inr db2"
    and fin: "a = findAccountById i db'" "login_part db' = login_part db2"
    using assms by (auto simp: enroll_def bindE_Inr_iff Let_def)
  show "login_part db' = login_part (set_accounts i (\<lambda>a. a\<lparr>ac_role := Some r\<rparr>) db)"
    using fin(2) activatePending_login_part [OF db2] insert_role_Inr [OF db1] by simp
  show "a = Some b \<Longrightarrow> current_record b db'" using fin(1) findAccountById_current by metis
qed

lemma role_of_added:
  assumes "ac_id a \<notin> ac_id ` set (accounts db)"
  shows "set_accounts (ac_id a) f (add_account a avatar db) = add_account (f a) avatar db \<or> ac_id (f a) \<noteq> ac_id a"
proof -
  have "update_rows (\<lambda>x. ac_id x = ac_id a) f (accounts db) = accounts db"
    using assms by (intro update_rows_id) (auto simp: image_iff)
  then show ?thesis by (auto simp: set_accounts_def add_account_def)
qed

lemma grown_aside:
  assumes part: "login_part db' = login_part (add_account a avatar db)"
  shows "aside db db'"
  using part by (auto simp: login_part_eq add_account_def aside_def last_admin_guard_def)

lemma enrolled_part:
  assumes new: "insert_account (new_account_row i phone name) avatar db = Inr db1" and en: "enroll tm n i phone r extra db1 = Inr (a, db')"
  shows "login_part db' = login_part (add_account (new_account_row i phone name\<lparr>ac_role := Some r\<rparr>) avatar db)"
proof -
  have db1: "db1 = add_account (new_account_row i phone name) avatar db" and i: "i \<notin> ac_id ` set (accounts db)"
    using new by (auto simp: insert_account_Inr_iff new_account_row_def)
  have "ac_id (new_account_row i phone name) = i" by (simp add: new_account_row_def)
  then have "set_accounts i (\<lambda>a. a\<lparr>ac_role := Some r\<rparr>) db1 = add_account (new_account_row i phone name\<lparr>ac_role := Some r\<rparr>) avatar db"
    using role_of_added [of "new_account_row i phone name" db "\<lambda>a. a\<lparr>ac_role := Some r\<rparr>" avatar] i db1 by simp
  then show ?thesis using enroll_Inr(1) [OF en] by simp
qed

lemma new_account_keeps:
  assumes new: "insert_account (new_account_row i phone name) avatar db = Inr db1" and phone: "phone \<notin> ac_phone ` set (accounts db)"
    and en: "enroll tm n i phone r extra db1 = Inr (a, db')"
  shows "auth_keeps db db'" and "aside db db'"
proof -
  note part = enrolled_part [OF new en]
  have "auth_keeps db (add_account (new_account_row i phone name\<lparr>ac_role := Some r\<rparr>) avatar db)"
    using new phone by (intro add_account_keeps) (auto simp: insert_account_Inr_iff new_account_row_def)
  then show "auth_keeps db db'" using part by (rule auth_keeps_then_same)
  show "aside db db'" using part by (rule grown_aside)
qed

lemma activateInvited_keeps:
  assumes "activateInvitedAccount tm n phone db = Inr (a, db')"
  shows "auth_keeps db db'" and "aside db db'" and "a = Some b \<Longrightarrow> current_record b db'"
proof -
  consider "db' = db" "a = None \<or> a = findLoginAccount phone db"
    | name db1 where "phone \<notin> ac_phone ` set (accounts db)"
      "insert_account (new_account_row (nc_account n) phone name) (nc_avatar n) db = Inr db1"
      "enroll tm n (nc_account n) phone ACCOUNTANT [(''automatic'', Some ''enterprise-invitation'')] db1 = Inr (a, db')"
  proof (cases "first_row (\<lambda>m. em_phone m = phone \<and> em_status m = MS_PENDING) (enterprise_members db)")
    case None
    then show ?thesis using that(1) assms by (simp add: activateInvitedAccount_def)
  next
    case (Some m)
    show ?thesis
    proof (cases "phone \<in> ac_phone ` set (accounts db)")
      case True
      then have "list_ex (\<lambda>a. ac_phone a = phone) (accounts db)" by (auto simp: list_ex_iff)
      then show ?thesis using that(1) assms Some by (auto simp: activateInvitedAccount_def)
    next
      case False
      then have "\<not> list_ex (\<lambda>a. ac_phone a = phone) (accounts db)" by (auto simp: list_ex_iff)
      then obtain db1 where "insert_account (new_account_row (nc_account n) phone (em_display_name m)) (nc_avatar n) db = Inr db1"
          "enroll tm n (nc_account n) phone ACCOUNTANT [(''automatic'', Some ''enterprise-invitation'')] db1 = Inr (a, db')"
        using assms Some by (auto simp: activateInvitedAccount_def bindE_Inr_iff)
      then show ?thesis by (rule that(2) [OF False])
    qed
  qed
  then have "auth_keeps db db' \<and> aside db db' \<and> (a = Some b \<longrightarrow> current_record b db')"
  proof cases
    case 1
    then show ?thesis using findLogin_current [of phone db b] by auto
  next
    case 2
    show ?thesis using new_account_keeps [OF 2(2,1,3)] enroll_Inr(2) [OF 2(3)] by blast
  qed
  then show "auth_keeps db db'" and "aside db db'" and "a = Some b \<Longrightarrow> current_record b db'"
    by blast+
qed

lemma registered_with_role:
  assumes "auth_inv db" and "first_row p (accounts db) = Some a"
  shows "account_ok (logins db) a"
  using assms by (auto simp: auth_inv_def accounts_inv_def list_all_iff dest: first_row_SomeD)

lemma registerLogin_keeps:
  assumes "registerLoginAccount tm n phone name adm db = Inr ((a, new), db')" and inv: "auth_inv db"
  shows "auth_keeps db db'" and "aside db db'" and "a = Some b \<Longrightarrow> current_record b db'"
proof -
  have "auth_keeps db db' \<and> aside db db' \<and> (a = Some b \<longrightarrow> current_record b db')"
  proof (cases "first_row (\<lambda>a. ac_phone a = phone) (accounts db)")
    case (Some row)
    then have "ac_registered row" using registered_with_role [OF inv] by (simp add: account_ok_def)
    then show ?thesis using assms(1) Some by (auto simp: registerLoginAccount_def current_record_def)
  next
    case None
    then have fresh: "phone \<notin> ac_phone ` set (accounts db)" by (auto simp: first_row_None_iff)
    obtain db1 where "insert_account (new_account_row (nc_account n) phone name) (nc_avatar n) db = Inr db1"
        "enroll tm n (nc_account n) phone (if adm then ADMIN else ACCOUNTANT) [] db1 = Inr (a, db')"
      using assms(1) None by (auto simp: registerLoginAccount_def bindE_Inr_iff Let_def)
    note new = this
    show ?thesis using new_account_keeps [OF new(1) fresh new(2)] enroll_Inr(2) [OF new(2)] by blast
  qed
  then show "auth_keeps db db'" and "aside db db'" and "a = Some b \<Longrightarrow> current_record b db'"
    by blast+
qed

section \<open>Sessions\<close>

text \<open>A record read at some earlier moment: the generation may have moved on since.\<close>

definition read_before :: "AccountRecord \<Rightarrow> 'z auth_db_scheme \<Rightarrow> bool" where
  "read_before a db \<longleftrightarrow> ar_generation a \<le> lo_generation (logins db (ar_id a))"

lemma current_read_before: "current_record a db \<Longrightarrow> read_before a db"
  by (simp add: current_record_def read_before_def)

definition new_session :: "string \<Rightarrow> AccountRecord \<Rightarrow> string \<Rightarrow> string \<Rightarrow> nat \<Rightarrow> nat \<Rightarrow> session_row" where
  "new_session newId a digest csrf expiresAt n = \<lparr> ss_id = newId, ss_account = ar_id a, ss_digest = digest, ss_csrf = csrf,
     ss_generation = ar_generation a, ss_expires_at = expiresAt, ss_revoked = False, ss_sequence = n \<rparr>"

definition opened :: "session_row \<Rightarrow> 'z auth_db_scheme \<Rightarrow> 'z auth_db_scheme" where
  "opened x db = (set_login (ss_account x) (\<lambda>l. l\<lparr>lo_count := ss_sequence x\<rparr>) db)\<lparr>sessions := sessions db @ [x]\<rparr>"

lemma createSession_Inr:
  assumes "createSessionWithLoginAudit newId tm a digest csrf expiresAt db = Inr (n, db')"
  shows "n = lo_count (logins db (ar_id a)) + 1" and "ar_generation a \<noteq> 0" and "ar_id a \<in> ac_id ` set (accounts db)"
    and "login_part db' = login_part (opened (new_session newId a digest csrf expiresAt n) db)"
    and "newId \<notin> ss_id ` set (sessions db)" "digest \<notin> ss_digest ` set (sessions db)"
proof -
  obtain row where "account_of (ar_id a) db = Some row"
    using assms by (auto simp: createSessionWithLoginAudit_def split: if_splits)
  then show "ar_id a \<in> ac_id ` set (accounts db)" by (auto simp: account_of_def dest!: first_row_SomeD intro: known_id)
  have n: "n = lo_count (logins db (ar_id a)) + 1" "ar_generation a \<noteq> 0"
    and free: "\<not> (\<exists>x \<in> set (sessions db). ss_id x = newId \<or> ss_digest x = digest \<or> (ss_account x = ar_id a \<and> ss_sequence x = n))"
    and db': "db' = audit (plain_audit (Some (ar_id a)) (roles_texts (ar_roles a)) ''account'' (ar_id a) ''ACCOUNT_LOGIN'' True None
              [(''sessionCreated'', Some ''true''), (''loginSequence'', Some (nat_str n))])
         (opened (new_session newId a digest csrf expiresAt n) db)"
    using assms unfolding createSessionWithLoginAudit_def Let_def opened_def new_session_def set_login_def
    by (auto split: if_splits)
  show "n = lo_count (logins db (ar_id a)) + 1" "ar_generation a \<noteq> 0"
    "login_part db' = login_part (opened (new_session newId a digest csrf expiresAt n) db)"
    using n db' by simp_all
  show "newId \<notin> ss_id ` set (sessions db)" "digest \<notin> ss_digest ` set (sessions db)" using free by auto
qed

lemma opened_keeps:
  assumes acc: "ss_account x \<in> ac_id ` set (accounts db)" and gen: "1 \<le> ss_generation x" "ss_generation x \<le> lo_generation (logins db (ss_account x))"
    and seq: "ss_sequence x = lo_count (logins db (ss_account x)) + 1"
    and new: "ss_id x \<notin> ss_id ` set (sessions db)" "ss_digest x \<notin> ss_digest ` set (sessions db)"
  shows "auth_keeps db (opened x db)"
  unfolding auth_keeps_def
proof (intro impI conjI)
  define db1 where "db1 = set_login (ss_account x) (\<lambda>l. l\<lparr>lo_count := max (lo_count l) (ss_sequence x)\<rparr>) db"
  have k: "auth_keeps db db1" unfolding db1_def by (rule set_login_keeps) (auto simp: login_ok_def)
  have eq: "opened x db = db1\<lparr>sessions := sessions db @ [x]\<rparr>"
    using seq by (simp add: opened_def db1_def set_login_def max_def)
  assume inv: "auth_inv db"
  with k have inv1: "auth_inv db1" and ev1: "auth_evolves db db1" by (simp_all add: auth_keeps_def)
  have old: "sessions db1 = sessions db" "accounts db1 = accounts db" by (simp_all add: db1_def set_login_def)
  have "(ss_account x, ss_sequence x) \<notin> (\<lambda>y. (ss_account y, ss_sequence y)) ` set (sessions db)"
    using inv seq by (force simp: auth_inv_def sessions_inv_def list_all_iff session_ok_def)
  moreover have "session_ok (accounts db1) (logins db1) x"
    using acc gen seq by (simp add: session_ok_def db1_def set_login_def)
  ultimately have "sessions_inv (sessions db1 @ [x]) (accounts db1) (logins db1)"
    using inv1 new by (auto simp: auth_inv_def sessions_inv_def old)
  then show "auth_inv (opened x db)" using inv1 by (simp add: auth_inv_def eq old)
  show "auth_evolves db (opened x db)"
    using ev1 by (auto simp: auth_evolves_def eq accounts_evolve_def sessions_evolve_def challenges_evolve_def session_of_def
        challenge_of_def first_row_append same_session_def)
qed

lemma createSession_keeps:
  assumes c: "createSessionWithLoginAudit newId tm a digest csrf expiresAt db = Inr (n, db')" and "read_before a db"
  shows "auth_keeps db db'" and "aside db db'"
proof -
  note s = createSession_Inr [OF c]
  have "auth_keeps db (opened (new_session newId a digest csrf expiresAt n) db)"
    by (rule opened_keeps) (use s assms(2) in \<open>simp_all add: new_session_def read_before_def\<close>)
  then show "auth_keeps db db'" using s(4) by (rule auth_keeps_then_same)
  show "aside db db'"
    using s(4) by (intro aside_rest) (simp_all add: login_part_eq opened_def set_login_def)
qed

lemma issueSession_Inr:
  assumes "issueSession opts d tm a db = Inr (c, db')"
  obtains n where "createSessionWithLoginAudit (sd_id d) tm a (auth_digest opts (sd_token d)) (auth_digest opts (sd_csrf d))
     (tm + sessionTtlMs opts) db = Inr (n, db')" and "c = \<lparr> sc_sessionId = sd_id d, sc_sessionToken = sd_token d, sc_csrfToken = sd_csrf d,
          sc_expiresAt = tm + sessionTtlMs opts, sc_account = a, sc_isFirstLogin = (n = 1) \<rparr>"
  using assms by (auto simp: issueSession_def split: sum.splits prod.splits)

lemma revoked_sessions_keep: "auth_keeps db (db\<lparr>sessions := update_rows p (\<lambda>x. x\<lparr>ss_revoked := True\<rparr>) (sessions db)\<rparr>)"
  unfolding auth_keeps_def
proof (intro impI conjI)
  let ?t = "update_rows p (\<lambda>x. x\<lparr>ss_revoked := True\<rparr>) (sessions db)"
  assume inv: "auth_inv db"
  then show "auth_inv (db\<lparr>sessions := ?t\<rparr>)"
    by (auto simp: auth_inv_def sessions_inv_def map_update_rows list_all_iff in_update_rows session_ok_def)
  have "first_row (\<lambda>x. ss_digest x = d) ?t = map_option (\<lambda>x. if p x then x\<lparr>ss_revoked := True\<rparr> else x) (first_row (\<lambda>x. ss_digest x = d) (sessions db))" for d
    by (rule first_row_update_rows) simp
  then show "auth_evolves db (db\<lparr>sessions := ?t\<rparr>)"
    by (simp add: auth_evolves_def accounts_evolve_def sessions_evolve_def challenges_evolve_def session_of_def challenge_of_def
      same_session_def)
qed

lemma revoke_all_keeps: "auth_keeps db (revoke_all i db)"
  unfolding revoke_all_def by (rule revoked_sessions_keep)

lemma logout_keeps: "auth_keeps db (logout opts token db)"
  by (auto simp: logout_def revokeSession_def intro: revoked_sessions_keep split: option.split)

end
