(* ===== verification/AuthRuns.thy ===== *)
theory AuthRuns
  imports AuthAccounts Runs
begin

text \<open>
  The transactions of accounts and sessions as a transition relation over the clock and the tables, and what every
  run of them keeps: well-formed tables, the limits on codes, and an administrator.
\<close>

section \<open>The operations\<close>

lemma login_tx_keeps:
  assumes "login_tx opts tm n i phone code db = Inr (r, db')"
  shows "auth_keeps db db'" and "aside db db'" and "r = Some (Some a) \<Longrightarrow> current_record a db'"
proof -
  obtain ok db1 where c: "check_code opts tm i phone LOGIN code db = Inr (ok, db1)"
    using assms by (auto simp: login_tx_def bindE_Inr_iff)
  note ck = check_code_keeps [OF c] check_code_aside [OF c]
  consider "db' = db1" "\<And>a. r = Some (Some a) \<Longrightarrow> findLoginAccount phone db1 = Some a"
    | b where "activateInvitedAccount tm n phone db1 = Inr (b, db')" "r = Some b"
    using assms c by (auto simp: login_tx_def bindE_Inr_iff split: if_splits option.splits)
  then have "auth_keeps db1 db' \<and> aside db1 db' \<and> (r = Some (Some a) \<longrightarrow> current_record a db')"
  proof cases
    case 1
    then show ?thesis using findLogin_current by auto
  next
    case 2
    then show ?thesis using activateInvited_keeps [OF 2(1)] by auto
  qed
  then show "auth_keeps db db'" "aside db db'" "r = Some (Some a) \<Longrightarrow> current_record a db'"
    using auth_keeps_trans [OF ck(1)] aside_trans [OF ck(2)] by blast+
qed

lemma issueSession_keeps:
  assumes "issueSession opts d tm a db = Inr (c, db')" and "read_before a db"
  shows "auth_keeps db db'" and "aside db db'"
  using assms(2) by (auto intro: createSession_keeps issueSession_Inr [OF assms(1)])

lemma registration_tx_keeps:
  assumes r: "registration_tx opts tm n d i phone code name db = Inr (r, db')" and inv: "auth_inv db"
  shows "auth_keeps db db'" and "aside db db'"
proof -
  obtain ok db1 where c: "check_code opts tm i phone REGISTER code db = Inr (ok, db1)"
    using r by (auto simp: registration_tx_def bindE_Inr_iff)
  note ck = check_code_keeps [OF c] check_code_aside [OF c]
  have inv1: "auth_inv db1" using ck(1) inv by (simp add: auth_keeps_def)
  have "auth_keeps db1 db' \<and> aside db1 db'"
  proof (cases ok)
    case False
    then have "db' = db1" using r c by (simp add: registration_tx_def)
    then show ?thesis by simp
  next
    case True
    then obtain a new db2 where g: "registerLoginAccount tm n phone name (registrationAdminPhone opts = Some phone) db1 = Inr ((a, new), db2)"
        and rest: "(case a of None \<Rightarrow> Inl (PlainError ''ACCOUNT_CREATE_FAILED'')
       | Some account \<Rightarrow>
           if \<not> new then Inr (Some None, db2)
           else bindE (issueSession opts d tm account db2) (\<lambda>(c, db3). Inr (Some (Some c), db3))) = Inr (r, db')"
      using r c by (auto simp: registration_tx_def bindE_Inr_iff)
    note rg = registerLogin_keeps [OF g inv1]
    obtain b where b: "a = Some b" using rest by (cases a) auto
    have "auth_keeps db2 db' \<and> aside db2 db'"
    proof (cases new)
      case True
      then obtain cr where "issueSession opts d tm b db2 = Inr (cr, db')" using rest b by (auto simp: bindE_Inr_iff)
      then show ?thesis using issueSession_keeps current_read_before [OF rg(3) [OF b]] by blast
    next
      case False
      then have "db' = db2" using rest b by simp
      then show ?thesis by simp
    qed
    then show ?thesis using auth_keeps_trans [OF rg(1)] aside_trans [OF rg(2)] by blast
  qed
  then show "auth_keeps db db'" "aside db db'"
    using auth_keeps_trans [OF ck(1)] aside_trans [OF ck(2)] by blast+
qed

lemma aside_login [simp]: "aside db (set_login i f db)"
  by (rule aside_rest) (simp_all add: set_login_def)

lemma settings_keep:
  "setTheme i theme db = Inr db' \<Longrightarrow> auth_keeps db db' \<and> aside db db'"
  "setAvatar i avatar db = Inr db' \<Longrightarrow> auth_keeps db db' \<and> aside db db'"
  by (auto simp: setTheme_def setAvatar_def login_ok_def intro!: set_login_keeps split: if_splits)

lemma setDisplayName_keeps:
  assumes "setDisplayName opts i v db = Inr db'"
  shows "auth_keeps db db'" and "aside db db'"
proof -
  define nm where "nm = present (Some (auth_nfc opts (trim v)))"
  have db': "db' = set_accounts i (\<lambda>a. a\<lparr>ac_display_name := nm\<rparr>) db" and ok: "account_of i db \<noteq> None \<Longrightarrow> display_name_ok nm"
    using assms by (auto simp: setDisplayName_def Let_def nm_def split: if_splits)
  show "aside db db'" unfolding db' by (rule aside_set_accounts) simp_all
  show "auth_keeps db db'"
  proof (cases "account_of i db")
    case None
    then have "db' = db" unfolding db' set_accounts_def account_of_def
      by (subst update_rows_id) (auto dest: first_row_NoneD)
    then show ?thesis by simp
  next
    case (Some a)
    then show ?thesis unfolding db' using ok by (intro set_accounts_keeps) (auto simp: account_ok_def)
  qed
qed

section \<open>Numbers and administrators\<close>

lemma update_phone_aside: "update_phone i phone db = Inr db' \<Longrightarrow> aside db db'"
  by (auto simp: update_phone_def intro!: aside_set_accounts split: if_splits)

lemma revoke_all_aside [simp]: "aside db (revoke_all i db)"
  by (rule aside_rest) (simp_all add: revoke_all_def)

lemma completePhoneChange_stages:
  fixes db db' :: "'z auth_db_scheme"
  assumes "completePhoneChange tm newIds i rs old new phone db = Inr db'"
  obtains db2 db3 db4 :: "'z auth_db_scheme" where "login_part db2 = login_part db" and "update_phone i phone db2 = Inr db3"
    and "login_part db4 = login_part (next_generation i db3)" and "account_of i db \<noteq> None"
    and "login_part (db'\<lparr>phone_changes := phone_changes db\<rparr>) = login_part ((revoke_all i db4)\<lparr>phone_changes := phone_changes db\<rparr>)"
proof -
  obtain a and db1 db2 db3 db4 db5 :: "'z auth_db_scheme" where "account_of i db = Some a" and m: "merge_pending phone i db = Inr db1"
    and u: "update_each (\<lambda>m. m\<lparr>em_phone := phone\<rparr>) (member_ids (\<lambda>m. em_account_id m = Some i \<and> em_status m = MS_ACTIVE) db1) db1 = Inr db2"
    and p: "update_phone i phone db2 = Inr db3"
    and r: "activatePendingRelationships tm newIds phone i (next_generation i db3) = Inr db4"
    and c: "insert_phone_change \<lparr> pc_account = i, pc_old_phone = ac_phone a, pc_new_phone = phone,
          pc_old_challenge = old, pc_new_challenge = new \<rparr> (revoke_all i db4) = Inr db5" and d: "login_part db' = login_part db5"
    using assms by (auto simp: completePhoneChange_def bindE_Inr_iff split: option.splits if_splits)
  have "login_part (db'\<lparr>phone_changes := phone_changes db\<rparr>) = login_part ((revoke_all i db4)\<lparr>phone_changes := phone_changes db\<rparr>)"
    using c d by (auto simp: insert_phone_change_def login_part_eq split: if_splits)
  then show thesis
    using that [of db2 db3 db4] merge_login_part [OF m] update_each_login_part [OF u] p activatePending_login_part [OF r]
      \<open>account_of i db = Some a\<close> by simp
qed

text \<open>The requests of changed numbers are only written.\<close>

lemma requests_apart: "auth_keeps (db\<lparr>phone_changes := t\<rparr>) (db'\<lparr>phone_changes := t'\<rparr>) = auth_keeps db db'"
  "aside (db\<lparr>phone_changes := t\<rparr>) (db'\<lparr>phone_changes := t'\<rparr>) = aside db db'"
  by (simp_all add: auth_keeps_def auth_inv_def auth_evolves_def accounts_evolve_def sessions_evolve_def challenges_evolve_def
      session_of_def challenge_of_def aside_def last_admin_guard_def)

lemma changePhone_keeps:
  fixes db db' :: "'z auth_db_scheme"
  assumes "changePhone tm newIds i rs old new raw db = Inr db'"
  shows "auth_keeps db db'" and "aside db db'"
proof -
  obtain phone where phone: "e164 phone" and c: "completePhoneChange tm newIds i rs old new phone db = Inr db'"
    using assms by (auto simp: changePhone_def bindE_Inr_iff normalizePhone_Inr_iff)
  obtain db2 db3 db4 :: "'z auth_db_scheme" where s: "login_part db2 = login_part db" "update_phone i phone db2 = Inr db3"
      "login_part db4 = login_part (next_generation i db3)"
      "login_part (db'\<lparr>phone_changes := phone_changes db\<rparr>) = login_part ((revoke_all i db4)\<lparr>phone_changes := phone_changes db\<rparr>)"
    by (rule completePhoneChange_stages [OF c])
  have "auth_keeps db db4"
    using auth_keeps_same [OF s(1)] update_phone_keeps [OF s(2) phone] next_generation_keeps auth_keeps_same [OF s(3)]
    by (blast intro: auth_keeps_trans)
  then have "auth_keeps db (revoke_all i db4)" using revoke_all_keeps auth_keeps_trans by blast
  then show "auth_keeps db db'"
    using auth_keeps_then_same [OF _ s(4), of "db\<lparr>phone_changes := phone_changes db\<rparr>"] by (simp only: requests_apart)
  have "aside db db4"
    using aside_same [OF s(1)] update_phone_aside [OF s(2)] aside_login aside_same [OF s(3)]
    unfolding next_generation_def by (blast intro: aside_trans)
  then have "aside db (revoke_all i db4)" using revoke_all_aside aside_trans by blast
  then show "aside db db'"
    using aside_then_same [OF _ s(4), of "db\<lparr>phone_changes := phone_changes db\<rparr>"] by (simp only: requests_apart)
qed

lemma commit_guarded_Inr [result_iff]: "commit_guarded fires db = Inr db' \<longleftrightarrow> db' = db \<and> (fires \<longrightarrow> last_admin_guard db)"
  by (auto simp: commit_guarded_def)

lemma reset_account_keeps:
  assumes r: "reset_account i f fires rec db = Inr db'" and "\<And>a. ac_id (f a) = ac_id a" "\<And>a. ac_phone (f a) = ac_phone a"
    and "\<And>l a. account_ok l a \<Longrightarrow> account_ok l (f a)"
  shows "auth_keeps db db'" and "map rate_key (challenges db') = map rate_key (challenges db)" and "fires \<Longrightarrow> last_admin_guard db'"
proof -
  have db': "login_part db' = login_part (revoke_all i (next_generation i (set_accounts i f db)))"
    using r by (simp add: reset_account_def commit_guarded_Inr)
  have "auth_keeps db (revoke_all i (next_generation i (set_accounts i f db)))"
    using set_accounts_keeps [OF assms(2-4)] next_generation_keeps revoke_all_keeps by (blast intro: auth_keeps_trans)
  then show "auth_keeps db db'" using db' by (rule auth_keeps_then_same)
  show "map rate_key (challenges db') = map rate_key (challenges db)"
    using db' by (simp add: login_part_eq revoke_all_def next_generation_def set_login_def set_accounts_def)
  show "fires \<Longrightarrow> last_admin_guard db'" using r by (auto simp: reset_account_def commit_guarded_Inr)
qed

lemma setStatus_Inr:
  assumes "setStatus actor i st reason requestId db = Inr db'"
  obtains a rec where "account_of i db = Some a" and "reset_account i (\<lambda>x. x\<lparr>ac_status := st\<rparr>) True rec db = Inr db'"
    and "authorizePlatform actor ADMIN_ACCOUNTANTS = allow Scope_ADMIN False"
  using assms
  by (auto simp: setStatus_def bindE_Inr_iff map_sum_def requireAllowed_Inr_iff authorizePlatform_def split: if_splits sum.splits option.splits)

lemma setAdministrator_Inr:
  assumes "setAdministrator actor i enabled reason requestId db = Inr db'"
  obtains a rec where "account_of i db = Some a"
    and "reset_account i (\<lambda>x. x\<lparr>ac_role := Some (if enabled then ADMIN else ACCOUNTANT)\<rparr>) (ac_role a \<noteq> None) rec db = Inr db'"
    and "authorizePlatform actor ADMIN_ACCOUNTANTS = allow Scope_ADMIN False"
  using assms
  by (auto simp: setAdministrator_def bindE_Inr_iff map_sum_def Let_def requireAllowed_Inr_iff authorizePlatform_def
      split: if_splits sum.splits option.splits)

lemma setStatus_keeps:
  assumes "setStatus actor i st reason requestId db = Inr db'"
  shows "auth_keeps db db'" and "aside db db'"
proof -
  obtain rec where r: "reset_account i (\<lambda>x. x\<lparr>ac_status := st\<rparr>) True rec db = Inr db'" by (rule setStatus_Inr [OF assms])
  have "account_ok l a \<Longrightarrow> account_ok l (a\<lparr>ac_status := st\<rparr>)" for l a by (simp add: account_ok_def)
  note k = reset_account_keeps [OF r _ _ this]
  show "auth_keeps db db'" by (rule k(1)) simp_all
  show "aside db db'" unfolding aside_def using k(2,3) by simp
qed

lemma setAdministrator_keeps:
  assumes "setAdministrator actor i enabled reason requestId db = Inr db'" and inv: "auth_inv db"
  shows "auth_keeps db db'" and "aside db db'"
proof -
  obtain a rec where a: "account_of i db = Some a"
    and r: "reset_account i (\<lambda>x. x\<lparr>ac_role := Some (if enabled then ADMIN else ACCOUNTANT)\<rparr>) (ac_role a \<noteq> None) rec db = Inr db'"
    by (rule setAdministrator_Inr [OF assms(1)])
  have "account_ok l a \<Longrightarrow> account_ok l (a\<lparr>ac_role := Some r\<rparr>)" for l a r by (simp add: account_ok_def)
  note k = reset_account_keeps [OF r _ _ this]
  show "auth_keeps db db'" by (rule k(1)) simp_all
  have "ac_role a \<noteq> None" using registered_with_role [OF inv a [unfolded account_of_def]] by (simp add: account_ok_def)
  then show "aside db db'" unfolding aside_def using k(2,3) by simp
qed

lemma bootstrap_flag_keeps: "auth_keeps db (db\<lparr>bootstrap_completed := True\<rparr>)"
  by (simp add: auth_keeps_def auth_inv_def auth_evolves_def accounts_evolve_def sessions_evolve_def challenges_evolve_def
      session_of_def challenge_of_def same_session_def)

lemma bootstrap_keeps:
  assumes b: "bootstrapAdministrator newId raw db = Inr (r, db')" and inv: "auth_inv db"
  shows "auth_keeps db db'" and "aside db db'"
proof -
  define promote where "promote = (\<lambda>x::account_row. x\<lparr>ac_role := Some ADMIN\<rparr>)"
  obtain phone a db1 where pre: "bootstrap_account newId phone db = Inr (a, db1)"
    and db': "db' = (set_accounts (ac_id a) promote db1)\<lparr>bootstrap_completed := True\<rparr>"
    and guard: "ac_role a = None \<or> last_admin_guard db'"
    using b by (auto simp: bootstrapAdministrator_def bindE_Inr_iff commit_guarded_Inr promote_def split: if_splits)
  have "auth_keeps db (set_accounts (ac_id a) promote db1) \<and> last_admin_guard db'"
  proof (cases "first_row (\<lambda>a. ac_phone a = phone) (accounts db)")
    case (Some row)
    then have eq: "a = row" "db1 = set_accounts (ac_id row) (\<lambda>x. x\<lparr>ac_registered := True\<rparr>) db"
      using pre by (auto simp: bootstrap_account_def)
    have "ac_role row \<noteq> None" using registered_with_role [OF inv Some] by (simp add: account_ok_def)
    then have "last_admin_guard db'" using guard eq(1) by auto
    moreover have "auth_keeps db db1" unfolding eq(2) by (rule set_accounts_keeps) (simp_all add: account_ok_def)
    moreover have "auth_keeps db1 (set_accounts (ac_id a) promote db1)"
      unfolding promote_def by (rule set_accounts_keeps) (simp_all add: account_ok_def)
    ultimately show ?thesis using auth_keeps_trans [of db db1] by simp
  next
    case None
    then have fresh: "phone \<notin> ac_phone ` set (accounts db)" by (auto simp: first_row_None_iff)
    have eq: "a = new_account_row newId phone None" "db1 = add_account a 1 db" "e164 phone" "newId \<notin> ac_id ` set (accounts db)"
      using pre None by (auto simp: bootstrap_account_def bindE_Inr_iff insert_account_Inr_iff new_account_row_def)
    then have "set_accounts (ac_id a) promote db1 = add_account (promote a) 1 db"
      using role_of_added [of a db promote 1] by (simp add: new_account_row_def promote_def)
    moreover have "auth_keeps db (add_account (promote a) 1 db)"
      using eq fresh by (intro add_account_keeps) (auto simp: new_account_row_def promote_def display_name_ok_def)
    moreover have "list_ex active_admin (accounts (add_account (promote a) 1 db))"
      using eq(1) by (simp add: add_account_def active_admin_def promote_def new_account_row_def)
    ultimately show ?thesis by (simp add: db' last_admin_guard_def)
  qed
  then show "auth_keeps db db'" unfolding db' using bootstrap_flag_keeps auth_keeps_trans by blast
  have "map rate_key (challenges db') = map rate_key (challenges db)"
    using pre by (auto simp: db' bootstrap_account_def bindE_Inr_iff insert_account_Inr_iff set_accounts_def add_account_def
        split: option.splits)
  then show "aside db db'"
    using \<open>auth_keeps db (set_accounts (ac_id a) promote db1) \<and> last_admin_guard db'\<close> by (simp add: aside_def)
qed

section \<open>Runs\<close>

text \<open>
  One committed transaction at one moment. A login reads the account in one transaction and opens the session in the
  next, so the record it opens with may be of an earlier moment. \<open>others\<close> is whatever the rest of the platform commits.
\<close>

inductive auth_step :: "AuthOptions \<Rightarrow> nat \<times> 'z auth_db_scheme \<Rightarrow> nat \<times> 'z auth_db_scheme \<Rightarrow> bool" for opts where
  waits: "tm \<le> tm' \<Longrightarrow> auth_step opts (tm, db) (tm', db)"
| asks: "requestOtp opts tm newId random phone purpose ip device db = (r, db') \<Longrightarrow> auth_step opts (tm, db) (tm, db')"
| verifies: "verifyChallenge opts tm i phone purpose code db = (r, db') \<Longrightarrow> auth_step opts (tm, db) (tm, db')"
| logs_in: "login_tx opts tm n i phone code db = Inr (r, db') \<Longrightarrow> auth_step opts (tm, db) (tm, db')"
| opens: "issueSession opts d tm a db = Inr (c, db') \<Longrightarrow> read_before a db \<Longrightarrow> auth_step opts (tm, db) (tm, db')"
| registers: "registration_tx opts tm n d i phone code name db = Inr (r, db') \<Longrightarrow> auth_step opts (tm, db) (tm, db')"
| moves: "changePhone tm newIds i rs old new raw db = Inr db' \<Longrightarrow> auth_step opts (tm, db) (tm, db')"
| leaves: "auth_step opts (tm, db) (tm, logout opts token db)"
| themes: "setTheme i theme db = Inr db' \<Longrightarrow> auth_step opts (tm, db) (tm, db')"
| pictures: "setAvatar i avatar db = Inr db' \<Longrightarrow> auth_step opts (tm, db) (tm, db')"
| names: "setDisplayName opts i v db = Inr db' \<Longrightarrow> auth_step opts (tm, db) (tm, db')"
| bootstraps: "bootstrapAdministrator newId raw db = Inr (a, db') \<Longrightarrow> auth_step opts (tm, db) (tm, db')"
| enables: "setStatus actor i st reason requestId db = Inr db' \<Longrightarrow> auth_step opts (tm, db) (tm, db')"
| appoints: "setAdministrator actor i enabled reason requestId db = Inr db' \<Longrightarrow> auth_step opts (tm, db) (tm, db')"
| others: "login_part db' = login_part db \<Longrightarrow> auth_step opts (tm, db) (tm, db')"

text \<open>The limits on codes, at one moment.\<close>

definition within_limits :: "nat \<Rightarrow> 'z auth_db_scheme \<Rightarrow> bool" where
  "within_limits tm db \<longleftrightarrow>
     (\<forall>phone purpose. recent_challenges tm (\<lambda>x. oc_phone x = phone \<and> oc_purpose x = purpose) db \<le> 5)
     \<and> (\<forall>ip. recent_challenges tm (\<lambda>x. oc_ip x = ip) db \<le> 20) \<and> (\<forall>device. recent_challenges tm (\<lambda>x. oc_device x = device) db \<le> 10)"

lemma count_rows_mono: "(\<And>r. r \<in> set t \<Longrightarrow> p r \<Longrightarrow> q r) \<Longrightarrow> count_rows p t \<le> count_rows q t"
  by (induction t) (auto simp: count_rows_def)

lemma recent_later: "tm \<le> tm' \<Longrightarrow> recent_challenges tm' p db \<le> recent_challenges tm p db"
  unfolding recent_challenges_def by (rule count_rows_mono) auto

lemma within_later: "tm \<le> tm' \<Longrightarrow> within_limits tm db \<Longrightarrow> within_limits tm' db"
  unfolding within_limits_def using recent_later le_trans by blast

lemma count_by_key:
  assumes "map rate_key t = map rate_key s" and "\<And>x y. rate_key x = rate_key y \<Longrightarrow> p x = p y"
  shows "count_rows p t = count_rows p s"
  using assms(1)
proof (induction t arbitrary: s)
  case (Cons x t)
  then obtain y u where "s = y # u" "rate_key x = rate_key y" "map rate_key t = map rate_key u" by (cases s) auto
  then show ?case using Cons.IH [of u] assms(2) [of x y] by (simp add: count_rows_def)
qed (simp add: count_rows_def)

lemma within_same:
  assumes "map rate_key (challenges db') = map rate_key (challenges db)"
  shows "within_limits tm db' = within_limits tm db"
proof -
  have "count_rows p (challenges db') = count_rows p (challenges db)" if "\<And>x y. rate_key x = rate_key y \<Longrightarrow> p x = p y" for p
    by (rule count_by_key [OF assms]) (rule that)
  then show ?thesis unfolding within_limits_def recent_challenges_def by (simp add: rate_key_def)
qed

lemma created_within:
  assumes c: "createOtpChallengeAfterRateCheck tm c db = Inr db'" and w: "within_limits tm db"
  shows "within_limits tm db'"
proof -
  have few: "recent_challenges tm (\<lambda>x. oc_phone x = oc_phone c \<and> oc_purpose x = oc_purpose c) db < 5"
      "recent_challenges tm (\<lambda>x. oc_ip x = oc_ip c) db < 20" "recent_challenges tm (\<lambda>x. oc_device x = oc_device c) db < 10"
    and db': "db' = db\<lparr>challenges := challenges db @ [c]\<rparr>"
    using c by (auto simp: createOtpChallengeAfterRateCheck_def not_le split: if_splits)
  have one: "recent_challenges tm p db' \<le> recent_challenges tm p db + (if p c then 1 else 0)" for p
    by (simp add: recent_challenges_def db' count_rows_def)
  show ?thesis
    unfolding within_limits_def
  proof (intro conjI allI)
    fix phone purpose
    show "recent_challenges tm (\<lambda>x. oc_phone x = phone \<and> oc_purpose x = purpose) db' \<le> 5"
      using one [of "\<lambda>x. oc_phone x = phone \<and> oc_purpose x = purpose"] few(1) w
      by (cases "oc_phone c = phone \<and> oc_purpose c = purpose") (auto simp: within_limits_def intro: order_trans)
  next
    fix ip
    show "recent_challenges tm (\<lambda>x. oc_ip x = ip) db' \<le> 20"
      using one [of "\<lambda>x. oc_ip x = ip"] few(2) w by (cases "oc_ip c = ip") (auto simp: within_limits_def intro: order_trans)
  next
    fix device
    show "recent_challenges tm (\<lambda>x. oc_device x = device) db' \<le> 10"
      using one [of "\<lambda>x. oc_device x = device"] few(3) w by (cases "oc_device c = device") (auto simp: within_limits_def intro: order_trans)
  qed
qed

lemma created_guard: "createOtpChallengeAfterRateCheck tm c db = Inr db' \<Longrightarrow> last_admin_guard db \<Longrightarrow> last_admin_guard db'"
  by (auto simp: createOtpChallengeAfterRateCheck_def last_admin_guard_def split: if_splits)

text \<open>What a step from well-formed tables keeps.\<close>

fun auth_kept :: "nat \<times> 'z auth_db_scheme \<Rightarrow> nat \<times> 'z auth_db_scheme \<Rightarrow> bool" where
  "auth_kept (tm, db) (tm', db') \<longleftrightarrow> (auth_inv db \<longrightarrow> tm \<le> tm' \<and> auth_inv db' \<and> auth_evolves db db'
     \<and> (last_admin_guard db \<longrightarrow> last_admin_guard db') \<and> (within_limits tm db \<longrightarrow> within_limits tm' db'))"

lemma auth_keptI:
  assumes "auth_inv db \<Longrightarrow> auth_keeps db db' \<and> aside db db'"
  shows "auth_kept (tm, db) (tm, db')"
  using assms within_same [of db' db] by (auto simp: auth_keeps_def aside_def)

lemma requestOtp_kept:
  assumes r: "requestOtp opts tm newId random phone purpose ip device db = (r, db')"
  shows "auth_kept (tm, db) (tm, db')"
proof -
  have "(db' = db) \<or> (\<exists>c. createOtpChallengeAfterRateCheck tm c db = Inr db')"
    using r by (auto simp: requestOtp_def Let_def split: sum.splits option.splits)
  then have "(within_limits tm db \<longrightarrow> within_limits tm db') \<and> (last_admin_guard db \<longrightarrow> last_admin_guard db')"
    using created_within created_guard by blast
  then show ?thesis using requestOtp_keeps [OF r] by (simp add: auth_keeps_def)
qed

lemma auth_step_kept: "auth_step opts s t \<Longrightarrow> auth_kept s t"
proof (induction rule: auth_step.induct)
  case (waits tm tm' db)
  then show ?case by (simp add: within_later auth_evolves_same)
next
  case (verifies tm i phone purpose code db r db')
  then have "db' = db \<or> (\<exists>ok p. check_code opts tm i p purpose code db = Inr (ok, db'))"
    by (auto simp: verifyChallenge_def split: sum.splits prod.splits)
  then have "aside db db'" using check_code_aside by auto
  then show ?case using verifyChallenge_keeps [OF verifies] by (intro auth_keptI) simp
next
  case (leaves tm db token)
  have "aside db (logout opts token db)"
    by (rule aside_rest) (simp_all add: logout_def revokeSession_def split: option.split)
  then show ?case using logout_keeps by (intro auth_keptI) blast
next
  case (others db' db tm)
  then show ?case by (intro auth_keptI) (simp add: auth_keeps_same aside_same)
next
  case (asks tm newId random phone purpose ip device db r db')
  then show ?case by (rule requestOtp_kept)
next
  case (logs_in tm n i phone code db r db')
  show ?case by (intro auth_keptI conjI; rule login_tx_keeps [OF logs_in])
next
  case (opens d tm a db c db')
  show ?case by (intro auth_keptI conjI; rule issueSession_keeps [OF opens])
next
  case (registers tm n d i phone code name db r db')
  show ?case by (intro auth_keptI conjI; rule registration_tx_keeps [OF registers])
next
  case (moves tm newIds i rs old new raw db db')
  show ?case by (intro auth_keptI conjI; rule changePhone_keeps [OF moves])
next
  case (names i v db db' tm)
  show ?case by (intro auth_keptI conjI; rule setDisplayName_keeps [OF names])
next
  case (bootstraps newId raw db a db' tm)
  show ?case by (intro auth_keptI conjI; rule bootstrap_keeps [OF bootstraps])
next
  case (enables actor i st reason requestId db db' tm)
  show ?case by (intro auth_keptI conjI; rule setStatus_keeps [OF enables])
next
  case (appoints actor i enabled reason requestId db db' tm)
  show ?case by (intro auth_keptI conjI; rule setAdministrator_keeps [OF appoints])
next
  case (themes i theme db db' tm)
  show ?case by (rule auth_keptI) (rule settings_keep(1) [OF themes])
next
  case (pictures i avatar db db' tm)
  show ?case by (rule auth_keptI) (rule settings_keep(2) [OF pictures])
qed

interpretation auth_run: kept_along "auth_step opts" auth_kept for opts
proof
  show "auth_kept s s" for s :: "nat \<times> 'a auth_db_scheme" by (cases s) (simp add: auth_evolves_same)
  show "auth_kept s u" if "auth_kept s t" "auth_kept t u" for s t u :: "nat \<times> 'a auth_db_scheme"
    using that by (cases s; cases t; cases u) (auto intro: auth_evolves_trans)
qed (rule auth_step_kept)

end
