(* ===== verification/AuthProps.thy ===== *)
theory AuthProps
  imports AuthRuns
begin

text \<open>
  The properties of accounts, codes and sessions along every run, with a platform of one administrator and one
  accountant as the instance.
\<close>

section \<open>An instance\<close>

definition demo_options :: AuthOptions where
  "demo_options = \<lparr> sms_kind = SANDBOX, sms_validate = (\<lambda>_ _. None), sms_send = (\<lambda>_ _ _. None),
     otp_hmac = (\<lambda>i p _ c. i @ p @ c), privacy_digest = (\<lambda>s. s), auth_digest = (\<lambda>s. s), auth_nfc = (\<lambda>s. s),
     otpTtlMs = 300000, sessionTtlMs = 604800000, allowSandboxCodeDisclosure = True, sandboxOtpCode = Some ''123456'',
     temporaryAdminOtpCode = None, registrationAdminPhone = None \<rparr>"

definition demo_admin :: account_row where
  "demo_admin = \<lparr> ac_id = ''a'', ac_phone = ''+12025550100'', ac_display_name = None, ac_registered = True,
     ac_status = Actor_ACTIVE, ac_role = Some ADMIN \<rparr>"

definition demo_user :: account_row where
  "demo_user = \<lparr> ac_id = ''u'', ac_phone = ''+12025550101'', ac_display_name = None, ac_registered = True,
     ac_status = Actor_ACTIVE, ac_role = Some ACCOUNTANT \<rparr>"

definition demo_platform :: auth_db where
  "demo_platform = \<lparr> accounts = [demo_admin, demo_user], enterprises = [], enterprise_members = [], audits = [], outbox = [], wallets = [],
     ledger = [], next_ledger = 1, orders = [], inbox = [], reversals = [], applications = [], price_versions = [], role_policies = [],
     shops = [], shop_terms = [], shop_charges = [], name_history = [], shop_memberships = [], idempotency_records = [],
     invitations = [], export_requests = [], download_grants = [],
     challenges = [], sessions = [], phone_changes = [], logins = (\<lambda>_. fresh_login 1), bootstrap_completed = True \<rparr>"

definition administrator :: Actor where
  "administrator = \<lparr> actor_accountId = ''a'', actor_status = Actor_ACTIVE, roles = {ADMIN}, enterpriseIds = Some {} \<rparr>"

lemma demo_phones: "e164 ''+12025550100''" "e164 ''+12025550101''" "normalizePhone ''+12025550101'' = Inr ''+12025550101''"
  by code_simp+

lemma demo_inv: "auth_inv demo_platform" and demo_guard: "last_admin_guard demo_platform"
  and demo_within: "within_limits tm demo_platform"
  by (simp_all add: auth_inv_def demo_platform_def accounts_inv_def account_ok_def demo_admin_def demo_user_def is_digit_def
      display_name_ok_def login_ok_def fresh_login_def sessions_inv_def challenges_inv_def last_admin_guard_def active_admin_def
      within_limits_def recent_challenges_def count_rows_def)

text \<open>The accountant is disabled.\<close>

definition demo_disabled :: auth_db where
  "demo_disabled = (case setStatus administrator ''u'' Actor_DISABLED ''left'' ''r'' demo_platform of Inr db \<Rightarrow> db | Inl _ \<Rightarrow> demo_platform)"

lemma demo_disables: "setStatus administrator ''u'' Actor_DISABLED ''left'' ''r'' demo_platform = Inr demo_disabled"
  by (simp add: demo_disabled_def setStatus_def authorizePlatform_def administrator_def requireAllowed_def trim_def trim_left_def is_space_def
      account_of_def demo_platform_def demo_admin_def demo_user_def reset_account_def commit_guarded_def last_admin_guard_def
      revoke_all_def next_generation_def set_login_def set_accounts_def active_admin_def audit_def)

lemma demo_disabled_tables: "bootstrap_completed demo_disabled"
  by (simp add: demo_disabled_def setStatus_def authorizePlatform_def administrator_def requireAllowed_def trim_def trim_left_def is_space_def
      account_of_def demo_platform_def demo_admin_def demo_user_def reset_account_def commit_guarded_def last_admin_guard_def
      revoke_all_def next_generation_def set_login_def set_accounts_def active_admin_def audit_def)

lemma demo_run: "(auth_step demo_options)\<^sup>*\<^sup>* (0, demo_platform) (0, demo_disabled)"
  by (rule r_into_rtranclp, rule auth_step.enables [OF demo_disables])

lemma run_facts:
  assumes "auth_inv db" and "(auth_step opts)\<^sup>*\<^sup>* (tm, db) (tm', db')"
  shows "tm \<le> tm'" "auth_inv db'" "auth_evolves db db'" "last_admin_guard db \<Longrightarrow> last_admin_guard db'"
    "within_limits tm db \<Longrightarrow> within_limits tm' db'"
  using auth_run.along_run [OF assms(2)] assms(1) by simp_all

section \<open>Well-formed tables\<close>

text \<open>C17: from well-formed tables every run of the transactions leads to well-formed tables: accounts have numbers of
  their own in E.164, are registered with a role and have a positive generation and a picture that exists; a session belongs to an
  account that is there, of a generation that account has had, under a token and a login number no other session has; a challenge
  never has more failures than its limit of at most twenty.\<close>

theorem auth_tables_typed:
  assumes "auth_inv db" and "(auth_step opts)\<^sup>*\<^sup>* (tm, db) (tm', db')"
  shows "(\<forall>a \<in> set (accounts db'). e164 (ac_phone a) \<and> ac_registered a \<and> ac_role a \<noteq> None
        \<and> 1 \<le> lo_generation (logins db' (ac_id a)) \<and> lo_avatar (logins db' (ac_id a)) \<in> {1..59})
    \<and> distinct (map ac_id (accounts db')) \<and> distinct (map ac_phone (accounts db'))
    \<and> (\<forall>x \<in> set (sessions db'). ss_account x \<in> ac_id ` set (accounts db') \<and> ss_generation x \<le> lo_generation (logins db' (ss_account x)))
    \<and> distinct (map ss_digest (sessions db')) \<and> distinct (map (\<lambda>x. (ss_account x, ss_sequence x)) (sessions db'))
    \<and> (\<forall>c \<in> set (challenges db'). e164 (oc_phone c) \<and> oc_failed c \<le> oc_max c \<and> oc_max c \<le> 20 \<and> oc_created_at c < oc_expires_at c)"
  using run_facts(2) [OF assms]
  by (auto simp: auth_inv_def accounts_inv_def sessions_inv_def challenges_inv_def list_all_iff account_ok_def login_ok_def session_ok_def
      challenge_ok_def challenge_checks_def)

lemma auth_tables_typed_witness:
  "distinct (map ac_phone (accounts demo_disabled)) \<and> list_all (\<lambda>a. e164 (ac_phone a) \<and> ac_registered a \<and> ac_role a \<noteq> None) (accounts demo_disabled)"
  using auth_tables_typed [OF demo_inv demo_run] by (simp add: list_all_iff)

section \<open>Administrators\<close>

text \<open>C14: whatever is registered, disabled, appointed or revoked: once the first administrator is set up, there is always
  an active one.\<close>

theorem administrator_never_lost:
  assumes "auth_inv db" and "last_admin_guard db" and "(auth_step opts)\<^sup>*\<^sup>* (tm, db) (tm', db')"
  shows "bootstrap_completed db' \<longrightarrow> (\<exists>a \<in> set (accounts db'). ac_role a = Some ADMIN \<and> ac_status a = Actor_ACTIVE)"
  using run_facts(4) [OF assms(1,3) assms(2)] by (auto simp: last_admin_guard_def list_ex_iff active_admin_def)

lemma administrator_never_lost_witness:
  "\<exists>a \<in> set (accounts demo_disabled). ac_role a = Some ADMIN \<and> ac_status a = Actor_ACTIVE"
  using administrator_never_lost [OF demo_inv demo_guard demo_run] by (simp add: demo_disabled_tables)

section \<open>Sessions\<close>

text \<open>The operations that end the sessions of an account.\<close>

inductive account_reset :: "string \<Rightarrow> 'z auth_db_scheme \<Rightarrow> 'z auth_db_scheme \<Rightarrow> bool" for i where
  by_status: "setStatus actor i st reason requestId db = Inr db' \<Longrightarrow> account_reset i db db'"
| by_role: "setAdministrator actor i enabled reason requestId db = Inr db' \<Longrightarrow> account_reset i db db'"
| by_number: "changePhone tm newIds i rs old new raw db = Inr db' \<Longrightarrow> account_reset i db db'"

lemma reset_account_generation:
  assumes "reset_account i f fires r db = Inr db'"
  shows "logins db' i = (logins db i)\<lparr>lo_generation := lo_generation (logins db i) + 1\<rparr>"
  using assms by (auto simp: reset_account_def commit_guarded_Inr audit_def revoke_all_def next_generation_def set_login_def set_accounts_def)

lemma account_of_ids: "account_of i db \<noteq> None \<longleftrightarrow> i \<in> ac_id ` set (accounts db)"
  by (auto simp: account_of_def first_row_None_iff image_iff)

lemma account_reset_generation:
  assumes "account_reset i db db'"
  shows "lo_generation (logins db' i) = lo_generation (logins db i) + 1" and "i \<in> ac_id ` set (accounts db)"
proof -
  have "lo_generation (logins db' i) = lo_generation (logins db i) + 1 \<and> account_of i db \<noteq> None"
    using assms
  proof cases
    case (by_status actor st reason requestId)
    then show ?thesis by (rule setStatus_Inr) (auto dest: reset_account_generation)
  next
    case (by_role actor enabled reason requestId)
    then show ?thesis by (rule setAdministrator_Inr) (auto dest: reset_account_generation)
  next
    case (by_number tm newIds rs old new raw)
    then obtain phone where "completePhoneChange tm newIds i rs old new phone db = Inr db'"
      by (auto simp: changePhone_def bindE_Inr_iff)
    then show ?thesis
      by (rule completePhoneChange_stages)
        (auto simp: login_part_eq revoke_all_def next_generation_def set_login_def update_phone_def set_accounts_def split: if_splits)
  qed
  then show "lo_generation (logins db' i) = lo_generation (logins db i) + 1" "i \<in> ac_id ` set (accounts db)"
    using account_of_ids by blast+
qed

lemma account_reset_keeps: "account_reset i db db' \<Longrightarrow> auth_inv db \<Longrightarrow> auth_keeps db db'"
  by (induction rule: account_reset.induct) (blast intro: setStatus_keeps setAdministrator_keeps changePhone_keeps)+

lemma authenticate_Inr:
  assumes "authenticate opts tm token csrf db = Inr (actor, sid, new)"
  obtains x a where "session_of (auth_digest opts token) db = Some x" and "account_of (ss_account x) db = Some a" and "\<not> ss_revoked x"
    and "tm < ss_expires_at x" and "ac_status a = Actor_ACTIVE" and "lo_generation (logins db (ss_account x)) = ss_generation x"
    and "actor_accountId actor = ss_account x" and "roles actor = (case ac_role a of None \<Rightarrow> {} | Some r \<Rightarrow> {r})"
proof -
  obtain x b where x: "session_of (auth_digest opts token) db = Some x" "\<not> ss_revoked x" "tm < ss_expires_at x"
    and b: "findAccountById (ss_account x) db = Some b" "ar_status b = Actor_ACTIVE" "ar_generation b = ss_generation x"
    and actor: "actor = \<lparr> actor_accountId = ar_id b, actor_status = ar_status b, roles = ar_roles b, enterpriseIds = Some (ar_enterprises b) \<rparr>"
    using assms by (auto simp: authenticate_def session_invalid_def split: option.splits if_splits)
  obtain a where a: "account_of (ss_account x) db = Some a" "b = hydrateAccount a db" using b(1) by (auto simp: findAccountById_def)
  then have "ac_id a = ss_account x" by (auto simp: account_of_def dest: first_row_SomeD)
  with x b a actor show thesis by (intro that [of x a]) (simp_all add: hydrateAccount_def)
qed

lemma authenticate_stale:
  assumes "session_of (auth_digest opts token) db = Some x" and "lo_generation (logins db (ss_account x)) \<noteq> ss_generation x"
  shows "authenticate opts tm token csrf db = Inl session_invalid"
proof (cases "account_of (ss_account x) db")
  case None
  then show ?thesis using assms(1) by (simp add: authenticate_def findAccountById_def)
next
  case (Some a)
  then have "ac_id a = ss_account x" by (auto simp: account_of_def dest: first_row_SomeD)
  then show ?thesis using assms Some by (simp add: authenticate_def findAccountById_def)
qed

text \<open>C12: once an account is disabled or enabled, its role is set or its number changed, no token it was signed in with is
  ever accepted again, along any run; nor is one of a session that is opened later with a record of the account that was
  read before.\<close>

theorem resets_end_sessions:
  assumes inv: "auth_inv db0" and reset: "account_reset i db0 db1" and run: "(auth_step opts)\<^sup>*\<^sup>* (tm1, db1) (tm2, db2)"
    and old: "authenticate opts tm0 token csrf0 db0 = Inr (actor, sid, new) \<and> actor_accountId actor = i
      \<or> session_of (auth_digest opts token) db2 = Some x \<and> ss_account x = i \<and> ss_generation x \<le> lo_generation (logins db0 i)"
  shows "authenticate opts tm token csrf db2 = Inl session_invalid"
proof -
  have ev01: "auth_evolves db0 db1" and inv1: "auth_inv db1" using account_reset_keeps [OF reset inv] inv by (simp_all add: auth_keeps_def)
  have ev12: "auth_evolves db1 db2" by (rule run_facts(3) [OF inv1 run])
  have ev02: "auth_evolves db0 db2" by (rule auth_evolves_trans [OF ev01 ev12])
  have "i \<in> ac_id ` set (accounts db1)"
    using account_reset_generation(2) [OF reset] ev01 unfolding auth_evolves_def accounts_evolve_def by blast
  then have "lo_generation (logins db1 i) \<le> lo_generation (logins db2 i)"
    using ev12 unfolding auth_evolves_def accounts_evolve_def by blast
  then have past: "lo_generation (logins db0 i) < lo_generation (logins db2 i)" using account_reset_generation(1) [OF reset] by simp
  have "\<exists>y. session_of (auth_digest opts token) db2 = Some y \<and> ss_account y = i \<and> ss_generation y \<le> lo_generation (logins db0 i)"
    using old
  proof
    assume a: "authenticate opts tm0 token csrf0 db0 = Inr (actor, sid, new) \<and> actor_accountId actor = i"
    then obtain z where z: "session_of (auth_digest opts token) db0 = Some z" "lo_generation (logins db0 (ss_account z)) = ss_generation z"
        "ss_account z = i"
      by (metis authenticate_Inr)
    then obtain y where "session_of (auth_digest opts token) db2 = Some y" "same_session z y"
      using ev02 unfolding auth_evolves_def sessions_evolve_def by blast
    with z show ?thesis by (auto simp: same_session_def)
  qed blast
  then show ?thesis using past authenticate_stale [of opts token db2] by fastforce
qed

text \<open>The accountant, signed in once.\<close>

definition demo_signed :: auth_db where
  "demo_signed = demo_platform\<lparr>sessions := [\<lparr> ss_id = ''s'', ss_account = ''u'', ss_digest = ''token'', ss_csrf = ''csrf'',
     ss_generation = 1, ss_expires_at = 10, ss_revoked = False, ss_sequence = 1 \<rparr>], logins := (\<lambda>_. (fresh_login 1)\<lparr>lo_count := 1\<rparr>)\<rparr>"

definition demo_ended :: auth_db where
  "demo_ended = (case setStatus administrator ''u'' Actor_DISABLED ''left'' ''r'' demo_signed of Inr db \<Rightarrow> db | Inl _ \<Rightarrow> demo_signed)"

lemma demo_ends: "setStatus administrator ''u'' Actor_DISABLED ''left'' ''r'' demo_signed = Inr demo_ended"
  by (simp add: demo_ended_def setStatus_def authorizePlatform_def administrator_def requireAllowed_def trim_def trim_left_def is_space_def
      account_of_def demo_signed_def demo_platform_def demo_admin_def demo_user_def reset_account_def commit_guarded_def
      last_admin_guard_def revoke_all_def next_generation_def set_login_def set_accounts_def active_admin_def audit_def)

lemma demo_signed_inv: "auth_inv demo_signed"
  using demo_inv
  by (simp add: demo_signed_def auth_inv_def accounts_inv_def account_ok_def login_ok_def fresh_login_def sessions_inv_def session_ok_def
      demo_platform_def demo_user_def demo_admin_def)

lemma demo_signed_in: "\<exists>actor. authenticate demo_options 5 ''token'' None demo_signed = Inr (actor, ''s'', True) \<and> actor_accountId actor = ''u''"
  by (simp add: authenticate_def demo_signed_def demo_platform_def demo_options_def session_of_def findAccountById_def account_of_def
      demo_admin_def demo_user_def hydrateAccount_def fresh_login_def present_def)

lemma resets_end_sessions_witness: "authenticate demo_options 6 ''token'' (Some ''csrf'') demo_ended = Inl session_invalid"
proof -
  obtain actor where "authenticate demo_options 5 ''token'' None demo_signed = Inr (actor, ''s'', True) \<and> actor_accountId actor = ''u''"
    using demo_signed_in by blast
  then show ?thesis
    by (intro resets_end_sessions [OF demo_signed_inv account_reset.by_status [OF demo_ends] rtranclp.rtrancl_refl]) blast
qed

section \<open>Codes\<close>

text \<open>C16: at every moment of a run, of the codes asked for within the last hour at most five are for one number and
  purpose, twenty from one address and ten from one device.\<close>

theorem code_limits_hold:
  assumes "auth_inv db" and "within_limits tm db" and "(auth_step opts)\<^sup>*\<^sup>* (tm, db) (tm', db')"
  shows "count_rows (\<lambda>c. tm' \<le> oc_created_at c + HOUR_MS \<and> oc_phone c = phone \<and> oc_purpose c = purpose) (challenges db') \<le> 5
    \<and> count_rows (\<lambda>c. tm' \<le> oc_created_at c + HOUR_MS \<and> oc_ip c = ip) (challenges db') \<le> 20
    \<and> count_rows (\<lambda>c. tm' \<le> oc_created_at c + HOUR_MS \<and> oc_device c = device) (challenges db') \<le> 10"
  using run_facts(5) [OF assms(1,3) assms(2)] by (simp_all add: within_limits_def recent_challenges_def)

text \<open>Five requests of one code are let through, the sixth is not.\<close>

definition ask :: "string \<Rightarrow> auth_db \<Rightarrow> OtpAnswer result \<times> auth_db" where
  "ask i = requestOtp demo_options 7 i 0 ''+12025550101'' LOGIN ''ip'' ''device''"

definition demo_challenge :: "string \<Rightarrow> challenge_row" where
  "demo_challenge i = \<lparr> oc_id = i, oc_phone = ''+12025550101'', oc_purpose = LOGIN, oc_hmac = i @ ''+12025550101'' @ ''123456'',
     oc_ip = ''ip'', oc_device = ''device'', oc_failed = 0, oc_max = 5, oc_expires_at = 300007, oc_consumed = False, oc_created_at = 7 \<rparr>"

definition demo_asked :: auth_db where
  "demo_asked = demo_platform\<lparr>challenges := [demo_challenge ''c'']\<rparr>"

lemma demo_asks: "ask ''c'' demo_platform = (Inr \<lparr> oa_challengeId = ''c'', oa_expiresAt = 300007, oa_sandboxCode = Some ''123456'' \<rparr>, demo_asked)"
  by (simp add: ask_def requestOtp_def demo_phones demo_options_def chosen_code_def present_def createOtpChallengeAfterRateCheck_def
      recent_challenges_def count_rows_def challenge_checks_def demo_asked_def demo_platform_def demo_challenge_def is_digit_def Let_def)

lemma demo_asks_run: "(auth_step demo_options)\<^sup>*\<^sup>* (7, demo_platform) (7, demo_asked)"
  by (rule r_into_rtranclp, rule auth_step.asks [OF demo_asks [unfolded ask_def]])

lemma code_limits_hold_witness:
  "count_rows (\<lambda>c. 7 \<le> oc_created_at c + HOUR_MS \<and> oc_phone c = ''+12025550101'' \<and> oc_purpose c = LOGIN) (challenges demo_asked) \<le> 5"
  using code_limits_hold [OF demo_inv demo_within demo_asks_run] by blast

text \<open>A wrong code is compared with an open challenge; between two of them anything may happen.\<close>

inductive wrong_guesses :: "AuthOptions \<Rightarrow> string \<Rightarrow> nat \<Rightarrow> nat \<times> 'z auth_db_scheme \<Rightarrow> nat \<times> 'z auth_db_scheme \<Rightarrow> bool" for opts i where
  none_yet: "(auth_step opts)\<^sup>*\<^sup>* s t \<Longrightarrow> wrong_guesses opts i 0 s t"
| one_more: "wrong_guesses opts i n s (tm, db) \<Longrightarrow> check_code opts tm i phone purpose code db = Inr (False, db')
     \<Longrightarrow> (\<And>c. challenge_of i db = Some c \<Longrightarrow> \<not> challenge_refused tm phone purpose c)
     \<Longrightarrow> (auth_step opts)\<^sup>*\<^sup>* (tm, db') t \<Longrightarrow> wrong_guesses opts i (Suc n) s t"

lemma challenge_run:
  assumes "auth_inv db" and "(auth_step opts)\<^sup>*\<^sup>* (tm, db) (tm', db')" and "challenge_of i db = Some c"
  obtains d where "challenge_of i db' = Some d" and "same_challenge c d"
  using run_facts(3) [OF assms(1,2)] assms(3) unfolding auth_evolves_def challenges_evolve_def by blast

lemma wrong_guess_counts:
  assumes "check_code opts tm i phone purpose code db = Inr (False, db')" and "challenge_of i db = Some c"
    and "\<not> challenge_refused tm phone purpose c"
  obtains d where "challenge_of i db' = Some d" and "same_challenge c d" and "oc_failed d = oc_failed c + 1"
  using assms(1)
proof (cases rule: check_code_cases)
  case (2 e)
  then have e: "e = c" using assms(2) by simp
  let ?f = "\<lambda>c. if oc_failed c < oc_max c then c\<lparr>oc_failed := min (oc_failed c + 1) (oc_max c)\<rparr> else c"
  have "challenge_of i db' = Some (?f c)" unfolding 2(3) markOtpFailed_def by (subst challenge_of_set) (simp_all add: assms(2))
  moreover have "oc_failed c < oc_max c" using assms(3) by (simp add: challenge_refused_def)
  ultimately show ?thesis using that [of "?f c"] by (simp add: same_challenge_def challenge_terms_def)
qed (use assms(2,3) in simp_all)

lemma wrong_guesses_count:
  assumes "wrong_guesses opts i n s t" and "auth_inv (snd s)" and "challenge_of i (snd s) = Some c"
  shows "auth_inv (snd t) \<and> (\<exists>d. challenge_of i (snd t) = Some d \<and> same_challenge c d \<and> oc_failed c + n \<le> oc_failed d)"
  using assms
proof (induction rule: wrong_guesses.induct)
  case (none_yet s t)
  obtain tm db tm' db' where st: "s = (tm, db)" "t = (tm', db')" by (cases s, cases t) blast
  obtain d where "challenge_of i db' = Some d" "same_challenge c d"
    using challenge_run [of db opts tm tm' db' i c] none_yet by (auto simp: st)
  then show ?case using none_yet run_facts(2) [of db opts tm tm' db'] by (auto simp: st same_challenge_def)
next
  case (one_more n s tm db phone purpose code db' t)
  obtain tm' db2 where t: "t = (tm', db2)" by (cases t)
  obtain d where inv: "auth_inv db" and d: "challenge_of i db = Some d" "same_challenge c d" "oc_failed c + n \<le> oc_failed d"
    using one_more.IH [OF one_more.prems] by auto
  obtain e where e: "challenge_of i db' = Some e" "same_challenge d e" "oc_failed e = oc_failed d + 1"
    by (rule wrong_guess_counts [OF one_more.hyps(2) d(1) one_more.hyps(3) [OF d(1)]])
  have inv': "auth_inv db'" using check_code_keeps [OF one_more.hyps(2)] inv by (simp add: auth_keeps_def)
  obtain f where f: "challenge_of i db2 = Some f" "same_challenge e f"
    by (rule challenge_run [OF inv' one_more.hyps(4) [unfolded t] e(1)])
  have "same_challenge c f" using d(2) e(2) f(2) same_challenge_trans by blast
  moreover have "oc_failed c + Suc n \<le> oc_failed f" using d(3) e(3) f(2) by (simp add: same_challenge_def)
  ultimately show ?case using run_facts(2) [OF inv' one_more.hyps(4) [unfolded t]] f(1) by (simp add: t)
qed

text \<open>C15: a challenge is compared with at most as many wrong codes as its limit leaves, whatever happens in between; when they
  are used up, even the right code is refused and nothing changes.\<close>

theorem guesses_bounded:
  assumes "auth_inv db" and "challenge_of i db = Some c" and "wrong_guesses opts i n (tm, db) (tm', db')"
  shows "oc_failed c + n \<le> oc_max c \<and>
    (oc_failed c + n = oc_max c \<longrightarrow> check_code opts tm'' i phone purpose code db' = Inr (False, db'))"
proof -
  obtain d where inv: "auth_inv db'" and d: "challenge_of i db' = Some d" "same_challenge c d" "oc_failed c + n \<le> oc_failed d"
    using wrong_guesses_count [OF assms(3)] assms(1,2) by auto
  have "oc_failed d \<le> oc_max d"
    using inv d(1) by (auto simp: auth_inv_def challenges_inv_def list_all_iff challenge_ok_def challenge_of_def dest: first_row_SomeD)
  moreover have m: "oc_max d = oc_max c" using d(2) by (simp add: same_challenge_def challenge_terms_def)
  moreover have "check_code opts tm'' i phone purpose code db' = Inr (False, db')" if "oc_max d \<le> oc_failed d"
    using d(1) that by (simp add: check_code_def challenge_of_def challenge_refused_def)
  ultimately show ?thesis using d(3) by auto
qed

text \<open>One wrong guess at the challenge of the instance, and the right one.\<close>

definition demo_wrong :: auth_db where
  "demo_wrong = demo_platform\<lparr>challenges := [demo_challenge ''c''\<lparr>oc_failed := 1\<rparr>]\<rparr>"

definition demo_right :: auth_db where
  "demo_right = demo_platform\<lparr>challenges := [demo_challenge ''c''\<lparr>oc_consumed := True\<rparr>]\<rparr>"

lemma demo_guesses:
  "check_code demo_options 8 ''c'' ''+12025550101'' LOGIN ''000000'' demo_asked = Inr (False, demo_wrong)"
  "check_code demo_options 8 ''c'' ''+12025550101'' LOGIN ''123456'' demo_asked = Inr (True, demo_right)"
  "challenge_of ''c'' demo_asked = Some (demo_challenge ''c'')"
  by (simp_all add: check_code_def demo_asked_def demo_wrong_def demo_right_def demo_challenge_def demo_options_def challenge_refused_def
      markOtpFailed_def consumeOtp_def set_challenge_def challenge_of_def)

lemma demo_asked_inv: "auth_inv demo_asked"
  using run_facts(2) [OF demo_inv demo_asks_run] .

lemma demo_guess_run: "wrong_guesses demo_options ''c'' 1 (8, demo_asked) (8, demo_wrong)"
  unfolding One_nat_def
  by (rule wrong_guesses.one_more [OF wrong_guesses.none_yet [OF rtranclp.rtrancl_refl] demo_guesses(1)])
    (simp_all add: demo_guesses(3) demo_challenge_def challenge_refused_def)

lemma guesses_bounded_witness: "oc_failed (demo_challenge ''c'') + 1 \<le> oc_max (demo_challenge ''c'')"
  using guesses_bounded [OF demo_asked_inv demo_guesses(3) demo_guess_run] by blast

text \<open>once a code was accepted, its challenge is never accepted again, along any run and for whatever purpose.\<close>

theorem code_accepted_once:
  assumes inv: "auth_inv db" and ok: "check_code opts tm i phone purpose code db = Inr (True, db1)"
    and run: "(auth_step opts)\<^sup>*\<^sup>* (tm, db1) (tm2, db2)"
  shows "otp_hmac opts i phone purpose code \<in> oc_hmac ` set (challenges db)
    \<and> check_code opts tm' i phone' purpose' code' db2 = Inr (False, db2)"
  using ok
proof (cases rule: check_code_cases)
  case (3 c)
  have inv1: "auth_inv db1" using check_code_keeps [OF ok] inv by (simp add: auth_keeps_def)
  let ?e = "if oc_consumed c then c else c\<lparr>oc_consumed := True\<rparr>"
  have "challenge_of i db1 = Some ?e" unfolding consumeOtp_eq [OF 3(3)] by (subst challenge_of_set) (simp_all add: 3(1))
  then obtain d where d: "challenge_of i db2 = Some d" "same_challenge ?e d" by (rule challenge_run [OF inv1 run])
  then have "oc_consumed d" by (simp add: same_challenge_def split: if_splits)
  with d(1) have d: "challenge_of i db2 = Some d" "oc_consumed d" by simp_all
  then have "check_code opts tm' i phone' purpose' code' db2 = Inr (False, db2)"
    by (simp add: check_code_def challenge_of_def challenge_refused_def)
  moreover have "c \<in> set (challenges db)" using 3(1) by (auto simp: challenge_of_def dest: first_row_SomeD)
  ultimately show ?thesis using 3(5) by auto
qed simp_all

lemma code_accepted_once_witness:
  "check_code demo_options 9 ''c'' ''+12025550101'' LOGIN ''123456'' demo_right = Inr (False, demo_right)"
  using code_accepted_once [OF demo_asked_inv demo_guesses(2) rtranclp.rtrancl_refl] by blast

section \<open>Signing in\<close>

lemma first_row_new:
  assumes "key r \<notin> key ` set t"
  shows "first_row (\<lambda>x. key x = key r) (t @ [r]) = Some r"
proof -
  have "first_row (\<lambda>x. key x = key r) t = None" unfolding first_row_None_iff using assms by (metis imageI)
  then show ?thesis by (simp add: first_row_append)
qed

lemma requestOtp_Inr:
  assumes "requestOtp opts tm newId random raw purpose ip device db = (Inr ans, db')" and "normalizePhone raw = Inr phone"
  obtains c where "db' = db\<lparr>challenges := challenges db @ [c]\<rparr>" and "oc_id c = newId" "oc_phone c = phone" "oc_purpose c = purpose"
    "oc_hmac c = otp_hmac opts newId phone purpose (chosen_code opts random)" "oc_failed c = 0" "oc_max c = 5"
    "oc_expires_at c = tm + otpTtlMs opts" "\<not> oc_consumed c" "newId \<notin> oc_id ` set (challenges db)" "oa_challengeId ans = newId"
proof -
  let ?c = "\<lparr> oc_id = newId, oc_phone = phone, oc_purpose = purpose,
            oc_hmac = otp_hmac opts newId phone purpose (chosen_code opts random), oc_ip = privacy_digest opts ip, oc_device = privacy_digest opts device,
            oc_failed = 0, oc_max = 5, oc_expires_at = tm + otpTtlMs opts, oc_consumed = False, oc_created_at = tm \<rparr>"
  have c: "createOtpChallengeAfterRateCheck tm ?c db = Inr db'" and i: "oa_challengeId ans = newId"
    using assms by (auto simp: requestOtp_def Let_def split: sum.splits option.splits)
  then show thesis by (intro that [of ?c]) (auto simp: createOtpChallengeAfterRateCheck_def split: if_splits)
qed

lemma right_code_accepted:
  fixes db :: "'z auth_db_scheme"
  assumes "challenge_of i db = Some c" and "\<not> challenge_refused tm phone purpose c"
    and "otp_hmac opts i phone purpose code = oc_hmac c"
  obtains db' :: "'z auth_db_scheme" where "check_code opts tm i phone purpose code db = Inr (True, db')" "accounts db' = accounts db" "sessions db' = sessions db"
    "logins db' = logins db"
proof -
  have i: "oc_id c = i" "c \<in> set (challenges db)" using assms(1) by (auto simp: challenge_of_def dest: first_row_SomeD)
  have p: "oc_purpose c = purpose" "\<not> oc_consumed c" using assms(2) by (simp_all add: challenge_refused_def)
  then have "list_ex (\<lambda>c. oc_id c = i \<and> \<not> oc_consumed c) (challenges db)" using i by (auto simp: list_ex_iff)
  then obtain db' where "consumeOtp i db = Inr db'" by (auto simp: consumeOtp_def)
  moreover then have "accounts db' = accounts db" "sessions db' = sessions db" "logins db' = logins db"
    by (auto simp: set_challenge_def dest: consumeOtp_eq)
  moreover have "check_code opts tm i phone purpose code db = bindE (consumeOtp i db) (\<lambda>db'. Inr (True, db'))"
    using assms i p by (simp add: check_code_def challenge_of_def)
  ultimately show thesis by (intro that [of db']) simp_all
qed

lemma issueSession_opens:
  fixes db :: "'z auth_db_scheme"
  assumes inv: "auth_inv db" and a: "a \<in> set (accounts db)" and ttl: "0 < sessionTtlMs opts"
    and new: "sd_id d \<notin> ss_id ` set (sessions db)" "auth_digest opts (sd_token d) \<notin> ss_digest ` set (sessions db)"
  obtains c n and db' :: "'z auth_db_scheme" where "issueSession opts d tm (hydrateAccount a db) db = Inr (c, db')" "sc_sessionToken c = sd_token d"
    "sc_isFirstLogin c = (n = 1)" "accounts db' = accounts db" "challenges db' = challenges db"
    "session_of (auth_digest opts (sd_token d)) db' = Some (new_session (sd_id d) (hydrateAccount a db) (auth_digest opts (sd_token d))
        (auth_digest opts (sd_csrf d)) (tm + sessionTtlMs opts) n)"
    "lo_generation (logins db' (ac_id a)) = lo_generation (logins db (ac_id a))"
proof -
  let ?h = "hydrateAccount a db" and ?n = "lo_count (logins db (ac_id a)) + 1"
  let ?x = "new_session (sd_id d) ?h (auth_digest opts (sd_token d)) (auth_digest opts (sd_csrf d)) (tm + sessionTtlMs opts) ?n"
  have known: "account_of (ac_id a) db \<noteq> None" using a by (auto simp: account_of_def first_row_None_iff)
  have gen: "lo_generation (logins db (ac_id a)) \<noteq> 0"
    using inv a by (auto simp: auth_inv_def accounts_inv_def list_all_iff account_ok_def login_ok_def)
  have "\<not> (\<exists>x \<in> set (sessions db). ss_id x = sd_id d \<or> ss_digest x = auth_digest opts (sd_token d) \<or> ss_account x = ac_id a \<and> ss_sequence x = ?n)"
  proof -
    have "\<forall>x \<in> set (sessions db). ss_account x = ac_id a \<longrightarrow> ss_sequence x \<noteq> ?n"
      using inv by (auto simp: auth_inv_def sessions_inv_def list_all_iff session_ok_def)
    then show ?thesis using new by (metis imageI)
  qed
  then have "\<exists>r. createSessionWithLoginAudit (sd_id d) tm ?h (auth_digest opts (sd_token d)) (auth_digest opts (sd_csrf d)) (tm + sessionTtlMs opts) db
      = Inr (?n, audit r (opened ?x db))"
    using known gen ttl unfolding createSessionWithLoginAudit_def Let_def opened_def new_session_def set_login_def by auto
  then obtain r c where "issueSession opts d tm ?h db = Inr (c, audit r (opened ?x db))" "sc_sessionToken c = sd_token d" "sc_isFirstLogin c = (?n = 1)"
    by (auto simp: issueSession_def)
  moreover have "session_of (auth_digest opts (sd_token d)) (opened ?x db) = Some ?x"
    using first_row_new [of ss_digest ?x "sessions db"] new(2) by (simp add: session_of_def opened_def new_session_def)
  ultimately show thesis
    by (intro that [of c "audit r (opened ?x db)" ?n])
      (simp_all add: opened_def set_login_def new_session_def audit_def session_of_def)
qed

text \<open>C13: whoever asks for a login code with a registered, active number and sends it back in time is signed in: the token
  authenticates as that account until the session expires, and the code signs in nobody else.\<close>

theorem code_signs_in:
  assumes inv: "auth_inv db" and user: "a \<in> set (accounts db)" "ac_status a = Actor_ACTIVE" and raw: "normalizePhone raw = Inr (ac_phone a)"
    and asked: "requestOtp opts tm newId random raw LOGIN ip device db = (Inr ans, db1)"
    and time: "tm1 < tm + otpTtlMs opts" "tm1 \<le> tm2" "tm2 < tm1 + sessionTtlMs opts"
    and new: "sd_id d \<notin> ss_id ` set (sessions db)" "auth_digest opts (sd_token d) \<notin> ss_digest ` set (sessions db)"
  shows "\<exists>cred db2 actor. verifyLogin opts audit_down tm1 n d (oa_challengeId ans) raw (chosen_code opts random) db1 = (Inr cred, db2)
    \<and> sc_sessionToken cred = sd_token d
    \<and> authenticate opts tm2 (sd_token d) (Some (sd_csrf d)) db2 = Inr (actor, sd_id d, sc_isFirstLogin cred)
    \<and> actor_accountId actor = ac_id a \<and> actor_status actor = Actor_ACTIVE
    \<and> (\<exists>e db3. verifyLogin opts audit_down tm3 n' d' (oa_challengeId ans) raw code db2 = (Inl e, db3))"
proof -
  obtain c where c: "db1 = db\<lparr>challenges := challenges db @ [c]\<rparr>" "oc_id c = newId" "oc_phone c = ac_phone a" "oc_purpose c = LOGIN"
    "oc_hmac c = otp_hmac opts newId (ac_phone a) LOGIN (chosen_code opts random)" "oc_failed c = 0" "oc_max c = 5"
    "oc_expires_at c = tm + otpTtlMs opts" "\<not> oc_consumed c" "newId \<notin> oc_id ` set (challenges db)" "oa_challengeId ans = newId"
    by (rule requestOtp_Inr [OF asked raw])
  have inv1: "auth_inv db1" using requestOtp_keeps [OF asked] inv by (simp add: auth_keeps_def)
  have usable: "\<not> challenge_refused tm1 (ac_phone a) LOGIN c" using c time(1) by (simp add: challenge_refused_def)
  have "challenge_of newId db1 = Some c"
    using first_row_new [of oc_id c "challenges db"] c(2,10) by (simp add: challenge_of_def c(1))
  then obtain db' where ck: "check_code opts tm1 newId (ac_phone a) LOGIN (chosen_code opts random) db1 = Inr (True, db')"
      and same: "accounts db' = accounts db1" "sessions db' = sessions db1" "logins db' = logins db1"
    by (rule right_code_accepted [OF _ usable c(5) [symmetric]])
  have inv': "auth_inv db'" using check_code_keeps [OF ck] inv1 by (simp add: auth_keeps_def)
  have user': "a \<in> set (accounts db')" using user same c(1) by simp
  have "first_row (\<lambda>x. ac_phone x = ac_phone a \<and> ac_registered x) (accounts db') = Some a"
  proof -
    have reg: "ac_registered x" if "x \<in> set (accounts db')" for x
      using inv' that by (auto simp: auth_inv_def accounts_inv_def list_all_iff account_ok_def)
    have "first_row (\<lambda>x. ac_phone x = ac_phone a) (accounts db') = Some a"
      using inv' user' by (intro first_row_unique) (auto simp: auth_inv_def accounts_inv_def)
    then show ?thesis using first_row_cong_set [of "accounts db'" "\<lambda>x. ac_phone x = ac_phone a \<and> ac_registered x"] reg by simp
  qed
  then have find: "findLoginAccount (ac_phone a) db' = Some (hydrateAccount a db')" by (simp add: findLoginAccount_def)
  obtain cred k and db2 where o: "issueSession opts d tm1 (hydrateAccount a db') db' = Inr (cred, db2)" "sc_sessionToken cred = sd_token d"
    "sc_isFirstLogin cred = (k = 1)" "accounts db2 = accounts db'" "challenges db2 = challenges db'"
    "session_of (auth_digest opts (sd_token d)) db2 = Some (new_session (sd_id d) (hydrateAccount a db') (auth_digest opts (sd_token d))
        (auth_digest opts (sd_csrf d)) (tm1 + sessionTtlMs opts) k)"
    "lo_generation (logins db2 (ac_id a)) = lo_generation (logins db' (ac_id a))"
    by (rule issueSession_opens [OF inv' user', of opts d tm1]) (use time new same c(1) in auto)
  have "account_of (ac_id a) db2 = Some a"
    using inv' user' unfolding account_of_def o(4) by (intro first_row_unique) (auto simp: auth_inv_def accounts_inv_def)
  then have auth: "\<exists>actor. authenticate opts tm2 (sd_token d) (Some (sd_csrf d)) db2 = Inr (actor, sd_id d, sc_isFirstLogin cred)
      \<and> actor_accountId actor = ac_id a \<and> actor_status actor = Actor_ACTIVE"
    using o time(3) user(2) by (auto simp: authenticate_def new_session_def findAccountById_def hydrateAccount_def present_def)
  have verify: "verifyLogin opts audit_down tm1 n d newId raw (chosen_code opts random) db1 = (Inr cred, db2)"
    using raw ck find user(2) o(1) by (simp add: verifyLogin_def login_tx_def)
  have "\<exists>e. challenge_of newId db2 = Some e \<and> oc_consumed e"
    using ck by (cases rule: check_code_cases) (auto simp: challenge_of_def o(5) challenge_of_set [unfolded challenge_of_def] dest!: consumeOtp_eq)
  then have "check_code opts tm3 newId (ac_phone a) LOGIN code db2 = Inr (False, db2)"
    by (auto simp: check_code_def challenge_of_def challenge_refused_def)
  then have "\<exists>e db3. verifyLogin opts audit_down tm3 n' d' newId raw code db2 = (Inl e, db3)"
    using raw by (simp add: verifyLogin_def login_tx_def rejectLogin_def)
  with verify auth o(2) c(11) show ?thesis by auto
qed

lemma code_signs_in_witness:
  "\<exists>cred db2 actor. verifyLogin demo_options False 8 \<lparr> nc_account = ''v'', nc_avatar = 1, nc_membership = (\<lambda>_. []) \<rparr> \<lparr> sd_id = ''s'', sd_token = ''token'', sd_csrf = ''csrf'' \<rparr> ''c'' ''+12025550101'' ''123456'' demo_asked
      = (Inr cred, db2)
    \<and> authenticate demo_options 9 ''token'' (Some ''csrf'') db2 = Inr (actor, ''s'', sc_isFirstLogin cred) \<and> actor_accountId actor = ''u''"
proof -
  have u: "demo_user \<in> set (accounts demo_platform)" "ac_status demo_user = Actor_ACTIVE" "normalizePhone ''+12025550101'' = Inr (ac_phone demo_user)"
    by (simp_all add: demo_platform_def demo_user_def demo_phones)
  from code_signs_in [OF demo_inv u demo_asks [unfolded ask_def], of 8 9 "\<lparr> sd_id = ''s'', sd_token = ''token'', sd_csrf = ''csrf'' \<rparr>" False "\<lparr> nc_account = ''v'', nc_avatar = 1, nc_membership = (\<lambda>_. []) \<rparr>"]
  show ?thesis by (simp add: demo_options_def demo_platform_def demo_user_def chosen_code_def present_def) blast
qed

end
