(* ===== verification/ShopBook.thy ===== *)
theory ShopBook
  imports ShopOps Runs
begin

text \<open>
  What the operations on shops guarantee: the invariant of the shop tables, the history of a shop
  along any run of the system, and the agreement between the charges of shops and the ledgers of
  the wallets.
\<close>

section \<open>What one transaction writes\<close>

lemma audit_shop_tables [simp]:
  "shops (audit r db) = shops db" "shop_terms (audit r db) = shop_terms db"
  "shop_charges (audit r db) = shop_charges db" "name_history (audit r db) = name_history db"
  "ledger (audit r db) = ledger db" "wallets (audit r db) = wallets db"
  by (simp_all add: audit_def)

definition took :: "bool \<Rightarrow> WalletEntry \<Rightarrow> string option \<Rightarrow> 'z shop_db_scheme \<Rightarrow> 'z shop_db_scheme \<Rightarrow> bool" where
  "took pays e lid db db' \<longleftrightarrow>
     (if pays then \<exists>r. appendWalletEntry e db = Inr (r, db') \<and> lid = Some (ledgerId r)
      else db' = db \<and> lid = None)"

lemma took_Inr:
  "bindE (if pays then bindE (appendWalletEntry e db) (\<lambda>(l, db'). Inr (Some (ledgerId l), db')) else Inr (None, db)) k
     = Inr y \<longleftrightarrow> (\<exists>lid db'. took pays e lid db db' \<and> k (lid, db') = Inr y)"
  by (cases pays) (auto simp: took_def bindE_Inr_iff)

definition new_shop :: "clock \<Rightarrow> string \<Rightarrow> string \<Rightarrow> CreateShop \<Rightarrow> string \<times> string \<Rightarrow> string \<Rightarrow> shop_row" where
  "new_shop clk aid shopId input names closeDate = \<lparr> sh_id = shopId, sh_application_id = cs_applicationId input,
     sh_owner_account_id = aid, sh_enterprise_id = cs_enterpriseId input, sh_created_by = aid,
     sh_last_operated_by = aid, sh_name = fst names, sh_normalized_name = snd names,
     sh_status = (if closeDate \<le> today clk then EXPIRED_READONLY else ACTIVE),
     sh_start_date = cs_startDate input, sh_close_date = closeDate, sh_rename_count = 0,
     sh_trashed_at = None, sh_purge_after = None, sh_purged_at = None \<rparr>"

lemma insert_shop_Inr_iff [result_iff]:
  "insert_shop s db = Inr db' \<longleftrightarrow> shop_checks s \<and> (\<forall>x \<in> set (shops db). sh_id x \<noteq> sh_id s) \<and> \<not> name_taken s (shops db)
     \<and> db' = db\<lparr>shops := shops db @ [s]\<rparr>"
  by (auto simp: insert_shop_def)

lemma insert_term_Inr_iff [result_iff]:
  "insert_term t db = Inr db' \<longleftrightarrow> st_start_date t < st_close_date t \<and> 0 < st_charged_years t
     \<and> (\<forall>x \<in> set (shop_terms db). st_id x \<noteq> st_id t \<and> \<not> (st_shop_id x = st_shop_id t \<and> st_close_date x = st_close_date t))
     \<and> db' = db\<lparr>shop_terms := shop_terms db @ [t]\<rparr>"
  by (auto simp: insert_term_def)

lemma insert_charge_Inr_iff [result_iff]:
  "insert_charge c db = Inr db' \<longleftrightarrow> int64 (sc_original c) \<and> charge_check c
     \<and> (\<forall>x \<in> set (shop_charges db). sc_term_id x \<noteq> sc_term_id c
          \<and> (sc_ledger_id c \<noteq> None \<longrightarrow> sc_ledger_id x \<noteq> sc_ledger_id c)
          \<and> \<not> (sc_created_by x = sc_created_by c \<and> sc_idempotency_key x = sc_idempotency_key c))
     \<and> db' = db\<lparr>shop_charges := shop_charges db @ [c]\<rparr>"
  by (auto simp: insert_charge_def)

lemma update_shop_Inr_iff [result_iff]:
  "update_shop sid guard f db = Inr (row, db') \<longleftrightarrow>
     (case first_row (\<lambda>s. sh_id s = sid \<and> guard s) (shops db) of
        None \<Rightarrow> row = None \<and> db' = db
      | Some s \<Rightarrow> shop_checks (f s) \<and> \<not> name_taken (f s) (shops db) \<and> row = Some (f s) \<and>
          db' = db\<lparr>shops := update_rows (\<lambda>x. sh_id x = sid) f (shops db)\<rparr>)"
  by (auto simp: update_shop_def split: option.splits)

lemma map_sum_Inr_iff [result_iff]: "map_sum f id m = Inr x \<longleftrightarrow> m = Inr x"
  by (cases m) auto

lemma funds_available_Inr_iff [result_iff]:
  "funds_available wid original db = Inr u \<longleftrightarrow>
     (\<exists>w. first_row (\<lambda>w. wa_id w = wid) (wallets db) = Some w \<and> wa_status w = Wallet_ACTIVE
        \<and> original \<le> wa_balance_cents w)"
  by (auto simp: funds_available_def lockWallet_def bindE_Inr_iff require_Inr_iff split: option.splits)

definition new_term :: "string \<Rightarrow> string \<Rightarrow> string \<Rightarrow> string \<Rightarrow> int \<Rightarrow> string \<Rightarrow> string option \<Rightarrow> term_row" where
  "new_term termId shopId startDate closeDate years priceId supersedes = \<lparr> st_id = termId, st_shop_id = shopId,
     st_start_date = startDate, st_close_date = closeDate, st_charged_years = years,
     st_price_version_id = priceId, st_supersedes = supersedes \<rparr>"

text \<open>A term with its charge, added to the tables.\<close>

definition billed :: "term_row \<Rightarrow> charge_row \<Rightarrow> 'z shop_db_scheme \<Rightarrow> 'z shop_db_scheme" where
  "billed t c db = db\<lparr>shop_terms := shop_terms db @ [t], shop_charges := shop_charges db @ [c]\<rparr>"

definition billable :: "term_row \<Rightarrow> charge_row \<Rightarrow> 'z shop_db_scheme \<Rightarrow> bool" where
  "billable t c db \<longleftrightarrow> st_start_date t < st_close_date t \<and> 0 < st_charged_years t
     \<and> (\<forall>x \<in> set (shop_terms db). st_id x \<noteq> st_id t)
     \<and> int64 (sc_original c) \<and> charge_check c
     \<and> (\<forall>x \<in> set (shop_charges db). sc_term_id x \<noteq> sc_term_id c
          \<and> (sc_ledger_id c \<noteq> None \<longrightarrow> sc_ledger_id x \<noteq> sc_ledger_id c)
          \<and> \<not> (sc_created_by x = sc_created_by c \<and> sc_idempotency_key x = sc_idempotency_key c))"

lemma bill_Inr:
  "bindE (insert_term t db) (\<lambda>db3. bindE (insert_charge c db3) k) = Inr y \<Longrightarrow>
   billable t c db \<and> k (billed t c db) = Inr y"
  by (auto simp: bindE_Inr_iff insert_term_Inr_iff insert_charge_Inr_iff billable_def billed_def)

lemma create_new_writes:
  assumes "create_new clk actor shopId termId input names closeDate years db = Inr (v, db')"
  obtains w code price lid db2 r where
      "wallet_of_enterprise (cs_enterpriseId input) db = Some (w, code)" and "present code \<noteq> None"
    and "creation_price actor clk (cs_applicationId input) db = Some price"
    and "ADMIN \<notin> roles actor \<and> 0 < pv_annual_price price * years \<longrightarrow>
       funds_available (wa_id w) (pv_annual_price price * years) db = Inr ()"
    and "insert_shop (new_shop clk (actor_accountId actor) shopId input names closeDate) db
       = Inr (db\<lparr>shops := shops db @ [new_shop clk (actor_accountId actor) shopId input names closeDate]\<rparr>)"
    and "took (ADMIN \<notin> roles actor \<and> 0 < pv_annual_price price * years)
       (charge_entry (wa_id w) (''shop-create:'' @ cs_idempotencyKey input) (pv_annual_price price * years) shopId
          (actor_accountId actor)) lid
       (db\<lparr>shops := shops db @ [new_shop clk (actor_accountId actor) shopId input names closeDate]\<rparr>) db2"
    and "billable (new_term termId shopId (cs_startDate input) closeDate years (pv_id price) None)
         (new_charge (ADMIN \<in> roles actor) None shopId termId (pv_id price)
             (pv_annual_price price * years) lid (cs_idempotencyKey input) (actor_accountId actor)) db2"
    and "view None None (new_shop clk (actor_accountId actor) shopId input names closeDate) (accessOf actor) = Inr v"
    and "db' = audit r (billed (new_term termId shopId (cs_startDate input) closeDate years (pv_id price) None)
         (new_charge (ADMIN \<in> roles actor) None shopId termId (pv_id price)
             (pv_annual_price price * years) lid (cs_idempotencyKey input) (actor_accountId actor)) db2)"
proof -
  obtain w code where w: "wallet_of_enterprise (cs_enterpriseId input) db = Some (w, code)"
    using assms by (auto simp: create_new_def Let_def split: option.splits prod.splits)
  have code: "present code \<noteq> None" using assms w by (cases "present code") (simp_all add: create_new_def Let_def)
  obtain price where price: "creation_price actor clk (cs_applicationId input) db = Some price"
    using assms w code by (cases "creation_price actor clk (cs_applicationId input) db")
      (simp_all add: create_new_def Let_def)
  define original where "original = pv_annual_price price * years"
  define shop where "shop = new_shop clk (actor_accountId actor) shopId input names closeDate"
  define pays where "pays = (ADMIN \<notin> roles actor \<and> 0 < original)"
  have step: "bindE (if pays then funds_available (wa_id w) original db else Inr ()) (\<lambda>_.
     bindE (map_sum rethrowShopNameConflict id (insert_shop shop db)) (\<lambda>db1.
     bindE (if pays then bindE (appendWalletEntry (charge_entry (wa_id w) (''shop-create:'' @ cs_idempotencyKey input)
           original shopId (actor_accountId actor)) db1) (\<lambda>(l, db'). Inr (Some (ledgerId l), db')) else Inr (None, db1))
       (\<lambda>(lid, db2).
     bindE (insert_term (new_term termId shopId (cs_startDate input) closeDate years (pv_id price) None) db2) (\<lambda>db3.
     bindE (insert_charge (new_charge (ADMIN \<in> roles actor) None shopId termId (pv_id price) original lid
           (cs_idempotencyKey input) (actor_accountId actor)) db3) (\<lambda>db4.
     bindE (view None None shop (accessOf actor)) (\<lambda>v.
       Inr (v, audit (shop_audit (Some actor) shopId ''SHOP_CREATED'' None (cs_requestId input) None
           (Some [(''originalAmountCents'', Some (int_str original)),
             (''chargedAmountCents'', Some (if ADMIN \<in> roles actor then ''0'' else int_str original)),
             (''waiverType'', if ADMIN \<in> roles actor then Some ''ADMIN_FREE'' else None),
             (''priceVersionId'', Some (pv_id price)), (''closeDate'', Some closeDate)])) db4))))))) = Inr (v, db')"
    using assms w code price unfolding original_def shop_def pays_def
    by (simp add: create_new_def Let_def new_shop_def new_term_def)
  from step have funds: "pays \<longrightarrow> funds_available (wa_id w) original db = Inr ()"
    and "\<exists>db1. insert_shop shop db = Inr db1" by (auto simp: bindE_Inr_iff map_sum_Inr_iff split: if_splits)
  then have ins: "insert_shop shop db = Inr (db\<lparr>shops := shops db @ [shop]\<rparr>)"
    by (auto simp: insert_shop_Inr_iff)
  from step funds ins obtain lid db2 r where took: "took pays (charge_entry (wa_id w) (''shop-create:'' @ cs_idempotencyKey input)
           original shopId (actor_accountId actor)) lid (db\<lparr>shops := shops db @ [shop]\<rparr>) db2"
    and bill: "bindE (insert_term (new_term termId shopId (cs_startDate input) closeDate years (pv_id price) None) db2) (\<lambda>db3.
     bindE (insert_charge (new_charge (ADMIN \<in> roles actor) None shopId termId (pv_id price) original lid
           (cs_idempotencyKey input) (actor_accountId actor)) db3) (\<lambda>db4.
     bindE (view None None shop (accessOf actor)) (\<lambda>v. Inr (v, audit r db4)))) = Inr (v, db')"
    by (auto simp: took_Inr cong: if_cong split: if_split_asm)
  note bill_Inr [OF bill]
  then show thesis
    using that [OF w code price, of lid db2 r] funds ins took
    unfolding original_def [symmetric] shop_def [symmetric] pays_def [symmetric]
    by (auto simp: bindE_Inr_iff)
qed

definition renewed :: "string \<Rightarrow> string \<Rightarrow> shop_row \<Rightarrow> shop_row" where
  "renewed closeDate aid s = s\<lparr>sh_close_date := closeDate, sh_status := ACTIVE, sh_last_operated_by := aid\<rparr>"

definition renew_waiver :: "Actor \<Rightarrow> RenewShop \<Rightarrow> string option" where
  "renew_waiver actor input = (if ADMIN \<in> roles actor then map_option trim (rn_waiverReason input) else None)"

text \<open>What stands before the first write of a renewal.\<close>

definition renewable :: "clock \<Rightarrow> Actor \<Rightarrow> RenewShop \<Rightarrow> shop_row \<Rightarrow> int \<Rightarrow> int \<Rightarrow> price_row \<Rightarrow> 'z shop_db_scheme \<Rightarrow> bool" where
  "renewable clk actor input shop totalYears addedYears price db \<longleftrightarrow>
     first_row (\<lambda>s. sh_id s = rn_shopId input) (shops db) = Some shop \<and>
     may_act actor (shop_resource shop) None SHOP_RENEW \<and>
     (\<exists>c. comparePlainDate (rn_requestedCloseDate input) (sh_close_date shop) = Inr c \<and> 0 < c) \<and>
     billedYears (sh_start_date shop) (rn_requestedCloseDate input) = Inr totalYears \<and>
     (\<exists>currentYears. billedYears (sh_start_date shop) (sh_close_date shop) = Inr currentYears
        \<and> addedYears = totalYears - currentYears) \<and> 1 \<le> addedYears \<and>
     application_active (sh_application_id shop) db \<and>
     latest_price (sh_application_id shop) (now clk) (price_versions db) = Some price"

lemma append_shop_tables:
  "appendWalletEntry e db = Inr (r, db') \<Longrightarrow>
     shops db' = shops db \<and> shop_terms db' = shop_terms db \<and> shop_charges db' = shop_charges db \<and>
     name_history db' = name_history db \<and> applications db' = applications db \<and>
     price_versions db' = price_versions db \<and> role_policies db' = role_policies db \<and>
     shop_memberships db' = shop_memberships db \<and> idempotency_records db' = idempotency_records db"
  by (erule append_Inr_cases) (simp_all add: post_db_def)

lemma took_shop_tables:
  "took pays e lid db db' \<Longrightarrow>
     shops db' = shops db \<and> shop_terms db' = shop_terms db \<and> shop_charges db' = shop_charges db \<and>
     name_history db' = name_history db \<and> applications db' = applications db \<and>
     price_versions db' = price_versions db \<and> role_policies db' = role_policies db \<and>
     shop_memberships db' = shop_memberships db \<and> idempotency_records db' = idempotency_records db"
  by (auto simp: took_def dest!: append_shop_tables split: if_split_asm)

lemma renew_new_writes:
  fixes db :: "'z shop_db_scheme"
  assumes "renew_new clk actor termId input db = Inr (v, db')"
  obtains shop totalYears addedYears price original w lid db1 r t c where
      "renewable clk actor input shop totalYears addedYears price db"
    and "original = pv_annual_price price * addedYears"
    and "ADMIN \<notin> roles actor \<and> 0 < original \<longrightarrow>
       first_row (\<lambda>w. wa_enterprise_id w = Some (sh_enterprise_id shop)) (wallets db) = Some w \<and>
       funds_available (wa_id w) original db = Inr ()"
    and "took (ADMIN \<notin> roles actor \<and> 0 < original)
       (charge_entry (wa_id w) (''shop-renew:'' @ rn_idempotencyKey input) original (sh_id shop)
          (actor_accountId actor)) lid db db1"
    and "t = new_term termId (sh_id shop) (sh_start_date shop) (rn_requestedCloseDate input) totalYears (pv_id price)
           (map_option st_id (last_term (sh_id shop) db1))"
    and "c = new_charge (ADMIN \<in> roles actor) (renew_waiver actor input) (sh_id shop) termId (pv_id price)
           original lid (rn_idempotencyKey input) (actor_accountId actor)"
    and "billable t c db1"
    and "update_shop (sh_id shop) (\<lambda>_. True) (renewed (rn_requestedCloseDate input) (actor_accountId actor)) (billed t c db1)
       = Inr (Some (renewed (rn_requestedCloseDate input) (actor_accountId actor) shop),
           (billed t c db1)\<lparr>shops := update_rows (\<lambda>x. sh_id x = sh_id shop)
              (renewed (rn_requestedCloseDate input) (actor_accountId actor)) (shops db)\<rparr>)"
    and "view None None (renewed (rn_requestedCloseDate input) (actor_accountId actor) shop) (accessOf actor) = Inr v"
    and "db' = audit r ((billed t c db1)\<lparr>shops := update_rows (\<lambda>x. sh_id x = sh_id shop)
              (renewed (rn_requestedCloseDate input) (actor_accountId actor)) (shops db)\<rparr>)"
proof -
  obtain shop where shop: "first_row (\<lambda>s. sh_id s = rn_shopId input) (shops db) = Some shop"
    using assms by (auto simp: renew_new_def Let_def split: option.splits)
  have auth: "may_act actor (shop_resource shop) None SHOP_RENEW"
    using assms shop by (auto simp: renew_new_def Let_def bindE_Inr_iff requireAllowed_Inr_iff authorizeShop_allowed_iff)
  obtain c where c: "comparePlainDate (rn_requestedCloseDate input) (sh_close_date shop) = Inr c" "0 < c"
    using assms shop by (auto simp: renew_new_def Let_def bindE_Inr_iff split: if_split_asm)
  obtain total where total: "billedYears (sh_start_date shop) (rn_requestedCloseDate input) = Inr total"
    using assms shop c by (auto simp: renew_new_def Let_def bindE_Inr_iff split: if_split_asm)
  obtain current where current: "billedYears (sh_start_date shop) (sh_close_date shop) = Inr current"
    and added: "1 \<le> total - current"
    using assms shop c total by (auto simp: renew_new_def Let_def bindE_Inr_iff split: if_split_asm)
  obtain price where app: "application_active (sh_application_id shop) db"
    and price: "latest_price (sh_application_id shop) (now clk) (price_versions db) = Some price"
    using assms shop c total current added
    by (auto simp: renew_new_def Let_def bindE_Inr_iff split: if_split_asm option.splits)
  have guards: "\<not> c \<le> 0" "\<not> total - current < 1" using c added by simp_all
  define original where "original = pv_annual_price price * (total - current)"
  define pays where "pays = (ADMIN \<notin> roles actor \<and> 0 < original)"
  define aid where "aid = actor_accountId actor"
  define close where "close = rn_requestedCloseDate input"
  have ok: "renewable clk actor input shop total (total - current) price db"
    using shop auth c total current added app price by (auto simp: renewable_def)
  have allowed: "requireAllowed (authorizeShop actor (shop_resource shop) None SHOP_RENEW) None = Inr ()"
    using auth by (simp add: requireAllowed_Inr_iff authorizeShop_allowed_iff authorizeShop_eq)
  have step: "bindE (if pays
              then case first_row (\<lambda>w. wa_enterprise_id w = Some (sh_enterprise_id shop)) (wallets db) of
                  None \<Rightarrow> Inl (AppError ''WALLET_NOT_FOUND'' 404 None)
                | Some w \<Rightarrow>
                  bindE (funds_available (wa_id w) original db) (\<lambda>_.
                  bindE (appendWalletEntry (charge_entry (wa_id w) (''shop-renew:'' @ rn_idempotencyKey input)
                            original (sh_id shop) aid) db) (\<lambda>(l, db'). Inr (Some (ledgerId l), db')))
              else Inr (None, db)) (\<lambda>(lid, db1).
       bindE (insert_term (new_term termId (sh_id shop) (sh_start_date shop) close total (pv_id price)
             (map_option st_id (last_term (sh_id shop) db1))) db1) (\<lambda>db2.
       bindE (insert_charge (new_charge (ADMIN \<in> roles actor) (renew_waiver actor input) (sh_id shop) termId (pv_id price)
             original lid (rn_idempotencyKey input) aid) db2) (\<lambda>db3.
       bindE (update_shop (sh_id shop) (\<lambda>_. True) (renewed close aid) db3)
         (\<lambda>(row, db4).
       case row of
         None \<Rightarrow> Inl (PlainError ''RENEW_FAILED'')
       | Some r \<Rightarrow>
           bindE (view None None r (accessOf actor)) (\<lambda>v.
           Inr (v, audit (shop_audit (Some actor) (sh_id shop) ''SHOP_RENEWED'' (renew_waiver actor input) (rn_requestId input)
             (Some [(''closeDate'', Some (sh_close_date shop))])
             (Some [(''closeDate'', Some close),
               (''originalAmountCents'', Some (int_str original)),
               (''chargedAmountCents'', Some (if ADMIN \<in> roles actor then ''0'' else int_str original))])) db4)))))) = Inr (v, db')"
    using assms unfolding renew_new_def Let_def original_def pays_def aid_def close_def new_term_def
      renewed_def [abs_def] renew_waiver_def
    by (simp add: shop allowed c(1) guards total current app price)
  define t where "t = (\<lambda>db1 :: 'z shop_db_scheme. new_term termId (sh_id shop) (sh_start_date shop) close total (pv_id price)
             (map_option st_id (last_term (sh_id shop) db1)))"
  define ch where "ch = (\<lambda>lid. new_charge (ADMIN \<in> roles actor) (renew_waiver actor input) (sh_id shop) termId (pv_id price)
             original lid (rn_idempotencyKey input) aid)"
  obtain w where w: "pays \<longrightarrow>
       first_row (\<lambda>w. wa_enterprise_id w = Some (sh_enterprise_id shop)) (wallets db) = Some w \<and>
       funds_available (wa_id w) original db = Inr ()"
    using step by (cases pays) (auto simp: bindE_Inr_iff split: option.splits)
  from step w obtain lid db1 r where took: "took pays (charge_entry (wa_id w) (''shop-renew:'' @ rn_idempotencyKey input)
           original (sh_id shop) aid) lid db db1"
    and bill: "bindE (insert_term (t db1) db1) (\<lambda>db2. bindE (insert_charge (ch lid) db2) (\<lambda>db3.
       bindE (update_shop (sh_id shop) (\<lambda>_. True) (renewed close aid) db3)
         (\<lambda>(row, db4).
       case row of
         None \<Rightarrow> Inl (PlainError ''RENEW_FAILED'')
       | Some r' \<Rightarrow> bindE (view None None r' (accessOf actor)) (\<lambda>v. Inr (v, audit r db4))))) = Inr (v, db')"
    unfolding t_def ch_def by (cases pays) (auto simp: took_def bindE_Inr_iff)
  have b: "billable (t db1) (ch lid) db1" using bill_Inr [OF bill] by blast
  have sh1: "shops db1 = shops db" using took_shop_tables [OF took] by simp
  have row: "first_row (\<lambda>s. sh_id s = sh_id shop \<and> True) (shops db) = Some shop"
    using shop first_row_SomeD [OF shop] by simp
  have "bindE (update_shop (sh_id shop) (\<lambda>_. True) (renewed close aid) (billed (t db1) (ch lid) db1))
         (\<lambda>(row, db4).
       case row of
         None \<Rightarrow> Inl (PlainError ''RENEW_FAILED'')
       | Some r' \<Rightarrow> bindE (view None None r' (accessOf actor)) (\<lambda>v. Inr (v, audit r db4))) = Inr (v, db')"
    using bill_Inr [OF bill] by blast
  then have up: "update_shop (sh_id shop) (\<lambda>_. True) (renewed close aid) (billed (t db1) (ch lid) db1) =
        Inr (Some (renewed close aid shop), (billed (t db1) (ch lid) db1)\<lparr>shops :=
          update_rows (\<lambda>x. sh_id x = sh_id shop) (renewed close aid) (shops db)\<rparr>)"
    and v: "view None None (renewed close aid shop) (accessOf actor) = Inr v"
    and db': "db' = audit r ((billed (t db1) (ch lid) db1)\<lparr>shops :=
          update_rows (\<lambda>x. sh_id x = sh_id shop) (renewed close aid) (shops db)\<rparr>)"
    using row sh1 by (auto simp: bindE_Inr_iff update_shop_Inr_iff billed_def)
  have tt: "t db1 = new_term termId (sh_id shop) (sh_start_date shop) (rn_requestedCloseDate input) total (pv_id price)
             (map_option st_id (last_term (sh_id shop) db1))"
    and cc: "ch lid = new_charge (ADMIN \<in> roles actor) (renew_waiver actor input) (sh_id shop) termId (pv_id price)
             original lid (rn_idempotencyKey input) (actor_accountId actor)"
    by (simp_all add: t_def ch_def close_def aid_def)
  show thesis
    by (rule that [OF ok original_def _ _ tt cc b])
      (use w took up v db' in \<open>unfold pays_def aid_def close_def, blast+\<close>)
qed

section \<open>Payments leave the shops alone\<close>

definition shop_key :: "string \<Rightarrow> bool" where
  "shop_key k \<longleftrightarrow> (\<exists>x. k = ''shop-create:'' @ x \<or> k = ''shop-renew:'' @ x)"

definition shop_tables where
  "shop_tables db = (applications db, price_versions db, role_policies db, shops db, shop_terms db,
     shop_charges db, name_history db, shop_memberships db, idempotency_records db)"

definition wallet_owners :: "'z wallet_db_scheme \<Rightarrow> (string \<times> string option) list" where
  "wallet_owners db = map (\<lambda>w. (wa_id w, wa_enterprise_id w)) (wallets db)"

definition apart :: "EntryType set \<Rightarrow> 'z shop_db_scheme \<Rightarrow> 'z shop_db_scheme \<Rightarrow> bool" where
  "apart T db db' \<longleftrightarrow> shop_tables db' = shop_tables db \<and> shop_db.more db' = shop_db.more db \<and>
     accounts db' = accounts db \<and> enterprises db' = enterprises db \<and>
     enterprise_members db' = enterprise_members db \<and> outbox db' = outbox db \<and>
     wallet_owners db' = wallet_owners db \<and>
     (\<exists>ls. ledger db' = ledger db @ ls \<and> (\<forall>l \<in> set ls. wl_entry_type l \<in> T \<and> \<not> shop_key (wl_business_key l)))"

lemma apart_refl [simp]: "apart T db db"
  by (simp add: apart_def)

lemma apart_trans:
  assumes "apart T a b" and "apart T b c"
  shows "apart T a c"
proof -
  obtain ls where ls: "ledger b = ledger a @ ls"
    "\<forall>l \<in> set ls. wl_entry_type l \<in> T \<and> \<not> shop_key (wl_business_key l)"
    using assms(1) unfolding apart_def by blast
  obtain ms where ms: "ledger c = ledger b @ ms"
    "\<forall>l \<in> set ms. wl_entry_type l \<in> T \<and> \<not> shop_key (wl_business_key l)"
    using assms(2) unfolding apart_def by blast
  have "ledger c = ledger a @ (ls @ ms)" by (simp add: ls ms)
  moreover have "\<forall>l \<in> set (ls @ ms). wl_entry_type l \<in> T \<and> \<not> shop_key (wl_business_key l)"
    using ls ms by auto
  ultimately show ?thesis using assms unfolding apart_def by metis
qed

lemma apart_audit: "apart T db (audit r db)"
  by (simp add: apart_def shop_tables_def wallet_owners_def audit_def)

lemma apart_inbox: "apart T db (update_inbox eid oid st f db)"
  by (simp add: apart_def shop_tables_def wallet_owners_def update_inbox_def)

lemma apart_order: "update_order oid f db = Inr db' \<Longrightarrow> apart T db db'"
  by (auto simp: apart_def shop_tables_def wallet_owners_def update_order_def Let_def split: if_split_asm)

lemma apart_reversal: "insert_reversal r db = Inr db' \<Longrightarrow> apart T db db'"
  by (auto simp: apart_def shop_tables_def wallet_owners_def insert_reversal_def split: if_split_asm)

lemma apart_restrict: "apart T db (restrict_wallet wid db)"
  by (simp add: apart_def shop_tables_def wallet_owners_def restrict_wallet_def map_update_rows)

lemma apart_append:
  "appendWalletEntry e db = Inr (r, db') \<Longrightarrow> e_entryType e \<in> T \<Longrightarrow> \<not> shop_key (e_businessKey e) \<Longrightarrow>
   apart T db db'"
  by (erule append_Inr_cases)
    (simp_all add: apart_def shop_tables_def wallet_owners_def post_db_def entry_row_def map_update_rows)

lemma apart_reconciliation:
  assumes "requireReconciliation eventId order code requestId db = Inr (res, db')"
  shows "apart T db db'"
proof -
  obtain db2 r where db2: "apart T db db2" and db': "db' = audit r db2"
  proof (cases order)
    case None
    with assms show thesis
      by (auto simp: requireReconciliation_def Let_def intro!: that [OF apart_inbox])
  next
    case (Some o1)
    with assms obtain db2 r where "update_order (po_id o1) (\<lambda>r. r\<lparr>po_status := Order_RECONCILIATION_REQUIRED\<rparr>)
        (restrict_wallet (po_wallet_id o1)
          (update_inbox eventId (map_option po_id order) Inbox_RECONCILIATION_REQUIRED (Some code) db)) = Inr db2"
      "db' = audit r db2"
      by (auto simp: requireReconciliation_def Let_def bindE_Inr_iff)
    then show thesis
      by (intro that) (auto intro: apart_trans [OF apart_trans [OF apart_inbox apart_restrict] apart_order])
  qed
  then show ?thesis using apart_trans [OF db2 apart_audit] by simp
qed

lemma apart_duplicate: "markEventDuplicate eventId o1 db = Inr (res, db') \<Longrightarrow> apart T db db'"
  by (auto simp: markEventDuplicate_def Let_def bindE_Inr_iff apart_inbox)

lemma not_shop_keys [simp]:
  "\<not> shop_key (e_businessKey (paid_entry o1))" "\<not> shop_key (e_businessKey (reversal_entry eid o1 ev delta))"
  "\<not> shop_key (paid_key x)" "\<not> shop_key (reversal_key x)"
  by (simp_all add: shop_key_def paid_entry_def reversal_entry_def paid_key_def reversal_key_def)

lemma not_shop_entries [simp]:
  "e_entryType (paid_entry o1) = TOP_UP" "e_entryType (reversal_entry eid o1 ev delta) = TOP_UP_REVERSAL"
  by (simp_all add: paid_entry_def reversal_entry_def)

abbreviation pay_types :: "EntryType set" where
  "pay_types \<equiv> {TOP_UP, TOP_UP_REVERSAL}"

lemma apart_payment:
  assumes "applyPayment eventId o1 event requestId db = Inr (res, db')"
  shows "apart pay_types db db'"
proof -
  consider c where "requireReconciliation eventId (Some o1) c requestId db = Inr (res, db')"
    | "markEventDuplicate eventId o1 db = Inr (res, db')"
    | l db1 f db2 r where "appendWalletEntry (paid_entry o1) db = Inr (l, db1)"
        "update_order (po_id o1) f db1 = Inr db2"
        "db' = audit r (update_inbox eventId (Some (po_id o1)) Inbox_PROCESSED None db2)"
    using assms by (auto simp: applyPayment_def Let_def bindE_Inr_iff split: if_split_asm)
  then show ?thesis
  proof cases
    case 3
    have "apart pay_types db db1" using apart_append [OF 3(1)] by simp
    then show ?thesis
      unfolding 3(3) using apart_order [OF 3(2)] by (blast intro: apart_trans apart_inbox apart_audit)
  qed (auto dest: apart_reconciliation apart_duplicate)
qed

lemma apart_applyReversal:
  assumes "applyReversal eventId o1 event requestId db = Inr (res, db')"
  shows "apart pay_types db db'"
proof -
  consider c where "requireReconciliation eventId (Some o1) c requestId db = Inr (res, db')"
    | "markEventDuplicate eventId o1 db = Inr (res, db')"
    | delta w0 lid w1 db1 row db2 f db3 r where "post_reversal eventId o1 event delta w0 db = Inr (lid, w1, db1)"
        "insert_reversal row db1 = Inr db2" "update_order (po_id o1) f db2 = Inr db3"
        "db' = audit r (update_inbox eventId (Some (po_id o1)) Inbox_PROCESSED None db3)"
    using assms by (fastforce simp: applyReversal_def Let_def bindE_Inr_iff split: if_split_asm sum.splits)
  then show ?thesis
  proof cases
    case 3
    have "apart pay_types db db1"
      using 3(1) by (auto simp: post_reversal_def bindE_Inr_iff dest: apart_append split: if_split_asm)
    then show ?thesis
      unfolding 3(4) using apart_reversal [OF 3(2)] apart_order [OF 3(3)]
      by (blast intro: apart_trans apart_inbox apart_audit)
  qed (auto dest: apart_reconciliation apart_duplicate)
qed

lemma apart_settle: "settleEvent eventId event requestId db = Inr (res, db') \<Longrightarrow> apart pay_types db db'"
  by (auto simp: settleEvent_def split: option.splits if_split_asm
      dest: apart_reconciliation apart_payment apart_applyReversal)

lemma apart_pay_step: "pay_step db db' \<Longrightarrow> apart pay_types db db'"
proof (induction rule: pay_step.induct)
  case (create newId input db r db')
  then show ?case
    by (auto simp: createOrder_def bindE_Inr_iff insert_order_def apart_def shop_tables_def wallet_owners_def
        split: option.splits if_split_asm)
next
  case (pending db oid)
  show ?case by (simp add: markOrderPending_def apart_def shop_tables_def wallet_owners_def)
next
  case (event eventId ev sha requestId db r db')
  show ?case
  proof (cases "first_row (\<lambda>r. ib_provider r = ev_provider ev \<and> ib_provider_event_id r = ev_providerEventId ev) (inbox db)")
    case None
    then obtain rows where s: "settleEvent eventId ev requestId (db\<lparr>inbox := rows\<rparr>) = Inr (r, db')"
      using event by (auto simp: applyVerifiedEvent_def split: if_split_asm)
    have "apart pay_types db (db\<lparr>inbox := rows\<rparr>)" by (simp add: apart_def shop_tables_def wallet_owners_def)
    then show ?thesis using apart_settle [OF s] by (rule apart_trans)
  next
    case (Some row)
    with event show ?thesis
      by (auto simp: applyVerifiedEvent_def Let_def bindE_Inr_iff split: if_split_asm
          dest!: apart_reconciliation intro: apart_trans apart_audit)
  qed
qed

lemma apart_adjust:
  assumes "adjustEnterprise input db = Inr (s, db')"
  shows "apart {ADMIN_ADJUSTMENT} db db'"
proof -
  from assms obtain wid delta res db1 r where "appendWalletEntry
             \<lparr> e_walletId = wid, e_entryType = ADMIN_ADJUSTMENT, e_deltaCents = delta,
               e_businessKey = ''admin-adjustment:'' @ ad_idempotencyKey input,
               e_referenceType = ''ADMIN_ADJUSTMENT'', e_referenceId = None,
               e_actorAccountId = Some (ad_actorAccountId input), e_reason = Some (trim (ad_reason input)),
               e_resolveReconciliation = True, e_allowRestrictedDebit = False \<rparr> db = Inr (res, db1)"
    and db': "db' = db1 \<or> db' = audit r db1"
    by (fastforce simp: adjustEnterprise_def bindE_Inr_iff split: if_splits option.splits)
  then have "apart {ADMIN_ADJUSTMENT} db db1" by (auto dest!: apart_append simp: shop_key_def)
  with db' show ?thesis using apart_trans [OF _ apart_audit] by blast
qed

section \<open>The invariant of the shop tables\<close>

definition same_name :: "shop_row \<Rightarrow> shop_row \<Rightarrow> bool" where
  "same_name s t \<longleftrightarrow> live (sh_status s) \<and> live (sh_status t) \<and> sh_enterprise_id s = sh_enterprise_id t \<and>
     sh_normalized_name s = sh_normalized_name t"

definition rows_ok :: "shop_row list \<Rightarrow> bool" where
  "rows_ok ss \<longleftrightarrow> distinct (map sh_id ss) \<and> (\<forall>s \<in> set ss. shop_checks s) \<and>
     (\<forall>s \<in> set ss. \<forall>t \<in> set ss. same_name s t \<longrightarrow> sh_id s = sh_id t)"

definition bills_ok :: "string list \<Rightarrow> term_row list \<Rightarrow> charge_row list \<Rightarrow> bool" where
  "bills_ok ids ts cs \<longleftrightarrow> distinct (map st_id ts) \<and> distinct (map sc_term_id cs) \<and>
     distinct (map (\<lambda>c. (sc_created_by c, sc_idempotency_key c)) cs) \<and>
     (\<forall>t \<in> set ts. st_shop_id t \<in> set ids) \<and> (\<forall>i \<in> set ids. \<exists>t \<in> set ts. st_shop_id t = i) \<and>
     (\<forall>c \<in> set cs. charge_check c \<and> (\<exists>t \<in> set ts. st_id t = sc_term_id c \<and> st_shop_id t = sc_shop_id c))"

definition names_ok :: "(string \<times> nat \<times> string) list \<Rightarrow> name_history_row list \<Rightarrow> bool" where
  "names_ok ns hs \<longleftrightarrow> distinct (map nh_shop_id hs) \<and> (\<forall>h \<in> set hs. nh_shop_id h \<in> fst ` set ns) \<and>
     (\<forall>(i, n, name) \<in> set ns. (n = 0 \<longleftrightarrow> (\<forall>h \<in> set hs. nh_shop_id h \<noteq> i)) \<and>
        (\<forall>h \<in> set hs. nh_shop_id h = i \<longrightarrow> nh_new_name h = name))"

definition name_facts :: "shop_row \<Rightarrow> string \<times> nat \<times> string" where
  "name_facts s = (sh_id s, sh_rename_count s, sh_name s)"

text \<open>What the wallets' ledgers say a shop has cost, and what its charges say.\<close>

definition spent :: "string \<Rightarrow> ledger_row list \<Rightarrow> int" where
  "spent sid ls = - sum_list (map wl_delta_cents
     (filter (\<lambda>l. wl_entry_type l = SHOP_CHARGE \<and> wl_reference_id l = Some sid) ls))"

definition charged_to :: "string \<Rightarrow> charge_row list \<Rightarrow> int" where
  "charged_to sid cs = sum_list (map sc_charged (filter (\<lambda>c. sc_shop_id c = sid) cs))"

definition books_ok :: "ledger_row list \<Rightarrow> charge_row list \<Rightarrow> bool" where
  "books_ok ls cs \<longleftrightarrow> (\<forall>sid. spent sid ls = charged_to sid cs) \<and>
     (\<forall>l \<in> set ls. shop_key (wl_business_key l) \<longrightarrow> (\<exists>c \<in> set cs. sc_ledger_id c = Some (nat_str (wl_id l))))"

text \<open>A shop in the trash waits thirty days for its end.\<close>

definition trash_ok :: "shop_row \<Rightarrow> bool" where
  "trash_ok s \<longleftrightarrow> (sh_status s \<in> {TRASHED, PURGED} \<longrightarrow>
     (\<exists>t. sh_trashed_at s = Some t \<and> sh_purge_after s = Some (t + thirty_days))) \<and>
     (sh_status s = PURGED \<longrightarrow> (\<exists>q p. sh_purge_after s = Some q \<and> sh_purged_at s = Some p \<and> q \<le> p))"

definition shop_inv :: "'z shop_db_scheme \<Rightarrow> bool" where
  "shop_inv db \<longleftrightarrow> rows_ok (shops db) \<and> list_all trash_ok (shops db) \<and>
     bills_ok (map sh_id (shops db)) (shop_terms db) (shop_charges db) \<and>
     names_ok (map name_facts (shops db)) (name_history db) \<and> books_ok (ledger db) (shop_charges db)"

lemma spent_append: "spent sid (ls @ ms) = spent sid ls + spent sid ms"
  by (simp add: spent_def)

lemma spent_none: "\<forall>l \<in> set ls. wl_entry_type l \<noteq> SHOP_CHARGE \<Longrightarrow> spent sid ls = 0"
  by (auto simp: spent_def filter_empty_conv)

lemma charged_to_append: "charged_to sid (cs @ [c]) = charged_to sid cs + (if sc_shop_id c = sid then sc_charged c else 0)"
  by (simp add: charged_to_def)

lemma apart_shop_inv:
  assumes "apart T db db'" and "SHOP_CHARGE \<notin> T" and "shop_inv db"
  shows "shop_inv db'"
proof -
  obtain ls where ls: "ledger db' = ledger db @ ls"
    "\<forall>l \<in> set ls. wl_entry_type l \<noteq> SHOP_CHARGE \<and> \<not> shop_key (wl_business_key l)"
    using assms(1,2) unfolding apart_def by metis
  have "spent sid (ledger db') = spent sid (ledger db)" for sid
    using ls by (simp add: spent_append spent_none)
  then have "books_ok (ledger db') (shop_charges db)" using assms(3) ls by (auto simp: shop_inv_def books_ok_def)
  then show ?thesis using assms by (simp add: shop_inv_def apart_def shop_tables_def)
qed

lemma same_name_sym: "same_name s t \<Longrightarrow> same_name t s"
  by (simp add: same_name_def)

lemma name_taken_iff: "name_taken s ss \<longleftrightarrow> live (sh_status s) \<and> (\<exists>x \<in> set ss. sh_id x \<noteq> sh_id s \<and> same_name s x)"
  by (auto simp: name_taken_def same_name_def)

lemma not_taken: "\<not> name_taken s ss \<Longrightarrow> x \<in> set ss \<Longrightarrow> same_name s x \<Longrightarrow> sh_id s = sh_id x"
  unfolding name_taken_iff by (metis same_name_def)

lemma rows_ok_insert:
  assumes ok: "rows_ok ss" and c: "shop_checks s" and new: "\<forall>x \<in> set ss. sh_id x \<noteq> sh_id s" and nt: "\<not> name_taken s ss"
  shows "rows_ok (ss @ [s])"
proof -
  have "sh_id x = sh_id y" if "x \<in> set (ss @ [s])" "y \<in> set (ss @ [s])" "same_name x y" for x y
  proof -
    have "x = s \<or> x \<in> set ss" "y = s \<or> y \<in> set ss" using that by auto
    then show ?thesis
      using that(3) not_taken [OF nt, of x] not_taken [OF nt, of y] same_name_sym [OF that(3)] ok
      unfolding rows_ok_def by metis
  qed
  moreover have "distinct (map sh_id (ss @ [s]))" using ok new by (auto simp: rows_ok_def)
  moreover have "\<forall>x \<in> set (ss @ [s]). shop_checks x" using ok c by (simp add: rows_ok_def)
  ultimately show ?thesis unfolding rows_ok_def by blast
qed

lemma shop_unique: "rows_ok ss \<Longrightarrow> s \<in> set ss \<Longrightarrow> t \<in> set ss \<Longrightarrow> sh_id s = sh_id t \<Longrightarrow> s = t"
  by (auto simp: rows_ok_def distinct_map inj_on_def)

text \<open>One shop rewritten, its key kept.\<close>

lemma rows_ok_update:
  assumes ok: "rows_ok ss" and s: "s \<in> set ss" and id: "sh_id (f s) = sh_id s" and "shop_checks (f s)" and "\<not> name_taken (f s) ss"
  shows "rows_ok (update_rows (\<lambda>x. sh_id x = sh_id s) f ss)"
proof -
  have up: "update_rows (\<lambda>x. sh_id x = sh_id s) f ss = map (\<lambda>x. if x = s then f s else x) ss"
    unfolding update_rows_def using shop_unique [OF ok _ s] by (intro map_cong) auto
  have "map sh_id (map (\<lambda>x. if x = s then f s else x) ss) = map sh_id ss" using id by auto
  moreover have "distinct (map sh_id ss)" using ok by (simp add: rows_ok_def)
  ultimately have "distinct (map sh_id (map (\<lambda>x. if x = s then f s else x) ss))" by (simp only:)
  moreover have "\<forall>x \<in> set (map (\<lambda>x. if x = s then f s else x) ss). shop_checks x"
    using ok assms(4) by (auto simp: rows_ok_def)
  moreover have "sh_id x = sh_id y"
    if "x \<in> set (map (\<lambda>x. if x = s then f s else x) ss)" "y \<in> set (map (\<lambda>x. if x = s then f s else x) ss)"
      and same: "same_name x y" for x y
  proof -
    have "x = f s \<or> x \<in> set ss" "y = f s \<or> y \<in> set ss" using that by auto
    then show ?thesis
      using same not_taken [OF assms(5), of x] not_taken [OF assms(5), of y] same_name_sym [OF same] ok
      unfolding rows_ok_def by metis
  qed
  ultimately show ?thesis unfolding up rows_ok_def by blast
qed

text \<open>Any number of shops moved to another live state, names and owners kept.\<close>

lemma rows_ok_states:
  assumes ok: "rows_ok ss"
    and f: "\<And>s. s \<in> set ss \<Longrightarrow> P s \<Longrightarrow> shop_checks (f s) \<and> sh_id (f s) = sh_id s \<and> live (sh_status s) \<and>
       sh_enterprise_id (f s) = sh_enterprise_id s \<and> sh_normalized_name (f s) = sh_normalized_name s"
  shows "rows_ok (update_rows P f ss)"
proof -
  let ?g = "\<lambda>s. if P s then f s else s"
  have g: "shop_checks (?g s) \<and> sh_id (?g s) = sh_id s \<and> (live (sh_status (?g s)) \<longrightarrow> live (sh_status s)) \<and>
       sh_enterprise_id (?g s) = sh_enterprise_id s \<and> sh_normalized_name (?g s) = sh_normalized_name s"
    if "s \<in> set ss" for s using f [OF that] ok that by (auto simp: rows_ok_def)
  have "map sh_id (map ?g ss) = map sh_id ss" using g by auto
  moreover have "distinct (map sh_id ss)" using ok by (simp add: rows_ok_def)
  ultimately have d: "distinct (map sh_id (map ?g ss))" by (simp only:)
  have c: "shop_checks x" if x: "x \<in> set (map ?g ss)" for x
  proof -
    from x obtain s where s: "s \<in> set ss" and xs: "x = ?g s" unfolding set_map by (rule imageE)
    show ?thesis unfolding xs using g [OF s] by (rule conjunct1)
  qed
  have "sh_id x = sh_id y" if xy: "x \<in> set (map ?g ss)" "y \<in> set (map ?g ss)" and same: "same_name x y" for x y
  proof -
    from xy(1) obtain s where s: "s \<in> set ss" and xs: "x = ?g s" unfolding set_map by (rule imageE)
    from xy(2) obtain t where t: "t \<in> set ss" and yt: "y = ?g t" unfolding set_map by (rule imageE)
    note gs = g [OF s, folded xs] and gt = g [OF t, folded yt]
    have "same_name s t" using gs gt same unfolding same_name_def by metis
    then have "sh_id s = sh_id t" using ok s t unfolding rows_ok_def by blast
    then show ?thesis using gs gt by simp
  qed
  with d c show ?thesis unfolding rows_ok_def update_rows_def by blast
qed

lemma bills_ok_add:
  assumes ok: "bills_ok ids ts cs" and bill: "billable t c db" and db: "shop_terms db = ts" "shop_charges db = cs"
    and ct: "sc_term_id c = st_id t" "sc_shop_id c = st_shop_id t"
    and ids: "set ids' = insert (st_shop_id t) (set ids)"
  shows "bills_ok ids' (ts @ [t]) (cs @ [c])"
proof -
  note ok' = ok [unfolded bills_ok_def] and bill' = bill [unfolded billable_def db]
  have "distinct (map st_id (ts @ [t]))" using ok' bill' by auto
  moreover have "distinct (map sc_term_id (cs @ [c]))" using ok' bill' by auto
  moreover have "distinct (map (\<lambda>c. (sc_created_by c, sc_idempotency_key c)) (cs @ [c]))" using ok' bill' by auto
  moreover have "\<forall>x \<in> set (ts @ [t]). st_shop_id x \<in> set ids'" unfolding ids using ok' by simp
  moreover have "\<forall>i \<in> set ids'. \<exists>x \<in> set (ts @ [t]). st_shop_id x = i" unfolding ids using ok' by auto
  moreover have "\<exists>y \<in> set (ts @ [t]). st_id y = sc_term_id x \<and> st_shop_id y = sc_shop_id x" if "x \<in> set (cs @ [c])" for x
    using that ok' ct by auto
  moreover have "\<forall>x \<in> set (cs @ [c]). charge_check x" using ok' bill' by simp
  ultimately show ?thesis unfolding bills_ok_def by blast
qed

lemma names_ok_insert:
  assumes "names_ok ns hs" and "i \<notin> fst ` set ns"
  shows "names_ok (ns @ [(i, 0, name)]) hs"
  using assms by (force simp: names_ok_def)

lemma names_ok_add:
  assumes ok: "names_ok ns hs" and i: "(i, 0, old) \<in> set ns" and d: "distinct (map fst ns)"
    and ns': "ns' = map (\<lambda>x. if fst x = i then (i, 1, new) else x) ns"
    and h: "nh_shop_id h = i" "nh_new_name h = new"
  shows "names_ok ns' (hs @ [h])"
proof -
  note ok' = ok [unfolded names_ok_def]
  have fresh: "\<forall>x \<in> set hs. nh_shop_id x \<noteq> i" using ok' i by blast
  have "fst ` set ns' = fst ` set ns" unfolding ns' set_map image_image by (rule image_cong) auto
  then have "\<forall>x \<in> set (hs @ [h]). nh_shop_id x \<in> fst ` set ns'" using ok' i h by force
  moreover have "distinct (map nh_shop_id (hs @ [h]))" using ok' fresh h by auto
  moreover have "(n = 0 \<longleftrightarrow> (\<forall>x \<in> set (hs @ [h]). nh_shop_id x \<noteq> j)) \<and>
      (\<forall>x \<in> set (hs @ [h]). nh_shop_id x = j \<longrightarrow> nh_new_name x = name)" if "(j, n, name) \<in> set ns'" for j n name
  proof (cases "j = i")
    case True
    with that have "n = 1" "name = new" unfolding ns' by (auto split: if_split_asm)
    then show ?thesis using True h fresh by auto
  next
    case False
    with that have "(j, n, name) \<in> set ns" unfolding ns' by (auto split: if_split_asm)
    then show ?thesis using ok' False h by auto
  qed
  ultimately show ?thesis unfolding names_ok_def by blast
qed

lemma shop_inv_update:
  assumes inv: "shop_inv db" and up: "update_shop sid guard f db = Inr (Some r, db')"
    and f: "\<And>s. name_facts (f s) = name_facts s"
    and t: "\<And>s. trash_ok s \<Longrightarrow> shop_checks s \<Longrightarrow> guard s \<Longrightarrow> trash_ok (f s)"
  shows "shop_inv db'"
proof -
  from up obtain s where s: "first_row (\<lambda>s. sh_id s = sid \<and> guard s) (shops db) = Some s"
    and c: "shop_checks (f s)" "\<not> name_taken (f s) (shops db)"
    and db': "db' = db\<lparr>shops := update_rows (\<lambda>x. sh_id x = sid) f (shops db)\<rparr>"
    by (auto simp: update_shop_Inr_iff split: option.splits)
  note row = first_row_SomeD [OF s]
  have id: "sh_id (f x) = sh_id x" for x using f [of x] by (simp add: name_facts_def)
  have rows: "rows_ok (shops db)" using inv by (simp add: shop_inv_def)
  have "rows_ok (update_rows (\<lambda>x. sh_id x = sh_id s) f (shops db))"
    using rows_ok_update [of "shops db" s f] rows id c row by blast
  then have "rows_ok (shops db')" using row by (simp add: db')
  moreover have "list_all trash_ok (shops db')"
    unfolding db' list_all_iff
  proof (intro ballI)
    fix x assume "x \<in> set (shops (db\<lparr>shops := update_rows (\<lambda>x. sh_id x = sid) f (shops db)\<rparr>))"
    then obtain y where y: "y \<in> set (shops db)" and x: "x = (if sh_id y = sid then f y else y)"
      by (auto simp: in_update_rows)
    have ok: "trash_ok y" "shop_checks y" using inv y by (auto simp: shop_inv_def list_all_iff rows_ok_def)
    show "trash_ok x"
    proof (cases "sh_id y = sid")
      case True
      then have "y = s" using shop_unique [OF rows y, of s] row by simp
      then show ?thesis using t [OF ok] row x True by simp
    qed (use ok x in simp)
  qed
  moreover have "map name_facts (shops db') = map name_facts (shops db)" using f by (simp add: db' map_update_rows)
  moreover have "map sh_id (shops db') = map sh_id (shops db)" using id by (simp add: db' map_update_rows)
  moreover have "shop_terms db' = shop_terms db" "shop_charges db' = shop_charges db"
    "name_history db' = name_history db" "ledger db' = ledger db" by (simp_all add: db')
  ultimately show ?thesis using inv unfolding shop_inv_def by metis
qed

lemma shop_inv_audit [simp]: "shop_inv (audit r db) \<longleftrightarrow> shop_inv db"
  by (simp add: shop_inv_def audit_def)

section \<open>The books of a charge\<close>

lemma charge_entry_simps [simp]:
  "e_walletId (charge_entry w k m sid aid) = w" "e_businessKey (charge_entry w k m sid aid) = k"
  "e_deltaCents (charge_entry w k m sid aid) = - m" "e_entryType (charge_entry w k m sid aid) = SHOP_CHARGE"
  "e_referenceId (charge_entry w k m sid aid) = Some sid"
  by (simp_all add: charge_entry_def)

lemma new_charge_simps [simp]:
  "sc_shop_id (new_charge a wr sid tid pid m lid k aid) = sid" "sc_term_id (new_charge a wr sid tid pid m lid k aid) = tid"
  "sc_ledger_id (new_charge a wr sid tid pid m lid k aid) = lid" "sc_original (new_charge a wr sid tid pid m lid k aid) = m"
  "sc_charged (new_charge a wr sid tid pid m lid k aid) = (if a then 0 else m)"
  "sc_created_by (new_charge a wr sid tid pid m lid k aid) = aid"
  "sc_idempotency_key (new_charge a wr sid tid pid m lid k aid) = k"
  "sc_waiver_type (new_charge a wr sid tid pid m lid k aid) = (if a then Some ADMIN_FREE else None)"
  "sc_waiver_reason (new_charge a wr sid tid pid m lid k aid) = wr"
  by (simp_all add: new_charge_def)

lemma new_term_simps [simp]:
  "st_id (new_term tid sid sd cd y pid prv) = tid" "st_shop_id (new_term tid sid sd cd y pid prv) = sid"
  "st_start_date (new_term tid sid sd cd y pid prv) = sd" "st_close_date (new_term tid sid sd cd y pid prv) = cd"
  "st_supersedes (new_term tid sid sd cd y pid prv) = prv"
  by (simp_all add: new_term_def)

text \<open>
  A price is paid by a new posting, never by pointing at an old one: an old posting under a shop's
  key already belongs to a charge.
\<close>

lemma took_books:
  assumes books: "books_ok (ledger db) (shop_charges db)" and k: "shop_key k"
    and took: "took (\<not> isAdmin \<and> 0 < m) (charge_entry w k m sid aid) lid db db1"
    and bill: "billable t (new_charge isAdmin wr sid tid pid m lid key aid) db1"
  shows "books_ok (ledger db1) (shop_charges db @ [new_charge isAdmin wr sid tid pid m lid key aid])"
    and "\<not> isAdmin \<and> 0 < m \<longrightarrow> \<not> key_posted w k db \<and>
       (\<exists>r. first_row (\<lambda>x. wa_id x = w) (wallets db) = Some r \<and> db1 = post_db (charge_entry w k m sid aid) r db)"
    and "(\<not> isAdmin \<longrightarrow> 0 \<le> m) \<and> (isAdmin \<or> m = 0 \<longrightarrow> db1 = db)"
proof -
  let ?c = "new_charge isAdmin wr sid tid pid m lid key aid"
  have tables: "shop_charges db1 = shop_charges db" using took_shop_tables [OF took] by simp
  have check: "charge_check ?c" using bill by (simp add: billable_def)
  show m: "(\<not> isAdmin \<longrightarrow> 0 \<le> m) \<and> (isAdmin \<or> m = 0 \<longrightarrow> db1 = db)"
    using check took by (auto simp: charge_check_def took_def split: if_split_asm)
  have first: "\<exists>r. \<not> key_posted w k db \<and> first_row (\<lambda>x. wa_id x = w) (wallets db) = Some r \<and>
      db1 = post_db (charge_entry w k m sid aid) r db \<and> lid = Some (nat_str (next_ledger db))"
    if pays: "\<not> isAdmin \<and> 0 < m"
  proof -
    from took pays obtain a where ap: "appendWalletEntry (charge_entry w k m sid aid) db = Inr (a, db1)"
      and lid: "lid = Some (ledgerId a)" by (auto simp: took_def)
    from ap show ?thesis
    proof (cases rule: append_Inr_cases)
      case (again wr l)
      then obtain c where "c \<in> set (shop_charges db)" "sc_ledger_id c = Some (nat_str (wl_id l))"
        using books k by (auto simp: books_ok_def)
      then have False using bill lid again(5) by (auto simp: billable_def tables)
      then show ?thesis ..
    next
      case (first x)
      then show ?thesis using lid by auto
    qed
  qed
  then show "\<not> isAdmin \<and> 0 < m \<longrightarrow> \<not> key_posted w k db \<and>
       (\<exists>r. first_row (\<lambda>x. wa_id x = w) (wallets db) = Some r \<and> db1 = post_db (charge_entry w k m sid aid) r db)"
    by blast
  show "books_ok (ledger db1) (shop_charges db @ [?c])"
  proof (cases "\<not> isAdmin \<and> 0 < m")
    case True
    then obtain r where db1: "db1 = post_db (charge_entry w k m sid aid) r db" and lid: "lid = Some (nat_str (next_ledger db))"
      using first by blast
    have "wl_entry_type (entry_row (charge_entry w k m sid aid) r n) = SHOP_CHARGE"
      "wl_reference_id (entry_row (charge_entry w k m sid aid) r n) = Some sid"
      "wl_id (entry_row (charge_entry w k m sid aid) r n) = n" for n by (simp_all add: entry_row_def)
    then show ?thesis using books True lid
      by (auto simp: books_ok_def db1 spent_append charged_to_append) (auto simp: spent_def)
  next
    case False
    then have "db1 = db" using m by auto
    then show ?thesis using books False m by (auto simp: books_ok_def charged_to_append)
  qed
qed

section \<open>The money of a wallet\<close>

definition pay_tables where
  "pay_tables db = (wallets db, ledger db, next_ledger db, orders db, inbox db, reversals db)"

lemma pay_tables_inv: "pay_tables db' = pay_tables db \<Longrightarrow> pay_inv db' = pay_inv db"
  by (simp add: pay_tables_def pay_inv_def wallet_inv_def settled_posted_def key_posted_def)

text \<open>The sum of a wallet's ledger rows of some types.\<close>

definition typed :: "EntryType set \<Rightarrow> string \<Rightarrow> ledger_row list \<Rightarrow> int" where
  "typed T a ls = sum_list (map wl_delta_cents (filter (\<lambda>l. wl_wallet_id l = a \<and> wl_entry_type l \<in> T) ls))"

lemma typed_append: "typed T a (ls @ ms) = typed T a ls + typed T a ms"
  by (simp add: typed_def)

lemma typed_one: "typed T a [l] = (if wl_wallet_id l = a \<and> wl_entry_type l \<in> T then wl_delta_cents l else 0)"
  by (simp add: typed_def)

lemma typed_none: "\<forall>l \<in> set ls. wl_entry_type l \<notin> T \<Longrightarrow> typed T a ls = 0"
  by (auto simp: typed_def filter_empty_conv)

text \<open>What is left of a wallet when its orders, shop charges and adjustments are taken out.\<close>

definition remainder :: "string \<Rightarrow> 'z pay_db_scheme \<Rightarrow> int" where
  "remainder a db = other_money a db - typed {SHOP_CHARGE, ADMIN_ADJUSTMENT} a (ledger db)"

lemma pay_tables_remainder: "pay_tables db' = pay_tables db \<Longrightarrow> remainder a db' = remainder a db"
proof -
  assume same: "pay_tables db' = pay_tables db"
  then have "net db' = net db" by (auto simp: pay_tables_def fun_eq_iff net_def key_posted_def)
  with same show ?thesis by (simp add: remainder_def other_money_def pay_tables_def balance_of_def)
qed

lemma append_other_keeps:
  assumes inv: "pay_inv db" and ap: "appendWalletEntry e db = Inr (r, db')"
    and k: "\<And>x. e_businessKey e \<noteq> paid_key x \<and> e_businessKey e \<noteq> reversal_key x"
    and t: "e_entryType e \<in> {SHOP_CHARGE, ADMIN_ADJUSTMENT}"
  shows "pay_inv db' \<and> remainder a db' = remainder a db"
  using ap
proof (cases rule: append_Inr_cases)
  case (again w l)
  then show ?thesis using inv by simp
next
  case (first w)
  have core: "core_inv (ledger db @ [entry_row e w (next_ledger db)]) (reversals db) (map order_core (orders db))
      (map inbox_core (inbox db))"
    using pay_inv_core [OF inv] k by (rule_tac core_inv_ledger) auto
  have "wallet_inv db'" using inv append_inv [OF _ ap] by (simp add: pay_inv_def)
  moreover have "settled_posted db" using inv by (simp add: pay_inv_def)
  then have "settled_posted db'" by (rule settled_posted_mono) (auto simp: first(9) key_posted_post_db)
  ultimately have pinv: "pay_inv db'" using inv core first(9) by (simp add: pay_inv_def)
  have "net db' x = net db x" for x
    using k by (auto simp: net_def first(9) key_posted_post_db split: prod.splits) metis+
  then have "net db' = net db" by (simp add: fun_eq_iff)
  then have "other_money a db' = other_money a db + (if a = e_walletId e then e_deltaCents e else 0)"
    using post_db_balance [OF first(1), of a] by (simp add: other_money_def first(9))
  moreover have "wl_entry_type (entry_row e w n) = e_entryType e" for n by (simp add: entry_row_def)
  ultimately show ?thesis using pinv t by (auto simp: remainder_def first(9) typed_append typed_one)
qed

lemma shop_key_not_payment: "shop_key k \<Longrightarrow> k \<noteq> paid_key x \<and> k \<noteq> reversal_key x"
  by (auto simp: shop_key_def paid_key_def reversal_key_def)

lemma shop_keys [simp]: "shop_key (''shop-create:'' @ x)" "shop_key (''shop-renew:'' @ x)"
  by (auto simp only: shop_key_def)

lemma took_keeps:
  assumes "pay_inv db" and "took pays (charge_entry w k m sid aid) lid db db1" and "shop_key k"
  shows "pay_inv db1 \<and> remainder a db1 = remainder a db"
  using assms append_other_keeps [OF assms(1), of "charge_entry w k m sid aid"] shop_key_not_payment [OF assms(3)]
  by (auto simp: took_def split: if_split_asm)

lemma adjust_keeps:
  assumes "pay_inv db" and "adjustEnterprise input db = Inr (s, db')"
  shows "pay_inv db' \<and> remainder a db' = remainder a db"
proof -
  from assms(2) obtain wid delta res db1 r where ap: "appendWalletEntry
             \<lparr> e_walletId = wid, e_entryType = ADMIN_ADJUSTMENT, e_deltaCents = delta,
               e_businessKey = ''admin-adjustment:'' @ ad_idempotencyKey input,
               e_referenceType = ''ADMIN_ADJUSTMENT'', e_referenceId = None,
               e_actorAccountId = Some (ad_actorAccountId input), e_reason = Some (trim (ad_reason input)),
               e_resolveReconciliation = True, e_allowRestrictedDebit = False \<rparr> db = Inr (res, db1)"
    and db': "db' = db1 \<or> db' = audit r db1"
    by (fastforce simp: adjustEnterprise_def bindE_Inr_iff split: if_splits option.splits)
  have "pay_inv db1 \<and> remainder a db1 = remainder a db"
    by (rule append_other_keeps [OF assms(1) ap]) (simp_all add: paid_key_def reversal_key_def)
  moreover have "pay_tables (audit r db1) = pay_tables db1" by (simp add: pay_tables_def audit_def)
  ultimately show ?thesis using db' pay_tables_inv pay_tables_remainder by metis
qed

lemma pay_step_remainder:
  fixes db :: "'z shop_db_scheme"
  assumes "pay_inv db" and "pay_step db db'" shows "remainder a db' = remainder a db"
proof -
  obtain ls where "ledger db' = ledger db @ ls" "\<forall>l \<in> set ls. wl_entry_type l \<in> pay_types"
    using apart_pay_step [OF assms(2)] unfolding apart_def by blast
  then have "typed {SHOP_CHARGE, ADMIN_ADJUSTMENT} a (ledger db') = typed {SHOP_CHARGE, ADMIN_ADJUSTMENT} a (ledger db)"
    by (fastforce simp: typed_append intro!: typed_none)
  then show ?thesis using pay_step_keeps [OF assms(2,1), of a] by (simp add: remainder_def)
qed

section \<open>The system of shops, wallets and payments\<close>

text \<open>
  One committed transaction. Each handler locks what it reads before it decides, so that every
  interleaving of requests is a sequence of such steps; the clock of a step is its own.
\<close>

inductive shop_step :: "'z shop_db_scheme \<Rightarrow> 'z shop_db_scheme \<Rightarrow> bool" where
  creates: "create u clk actor shopId termId input db = Inr (v, db') \<Longrightarrow> shop_step db db'"
| renews: "renew clk actor termId rinput db = Inr (v, db') \<Longrightarrow> shop_step db db'"
| renames: "rename u actor shopId name requestId db = Inr (v, db') \<Longrightarrow> shop_step db db'"
| lifecycle: "changeLifecycle clk actor shopId action reason requestId db = Inr (v, db') \<Longrightarrow> shop_step db db'"
| trashes: "bulkTrash request_hash busy clk actor ids reason0 key requestId db = Inr (n, db') \<Longrightarrow> shop_step db db'"
| refreshes: "shop_step db (refreshExpiredShops clk db)"
| pays: "pay_step db db' \<Longrightarrow> shop_step db db'"
| adjusts: "adjustEnterprise adj db = Inr (w, db') \<Longrightarrow> shop_step db db'"

text \<open>How a row of a shop may change.\<close>

definition shop_next :: "shop_row \<Rightarrow> shop_row \<Rightarrow> bool" where
  "shop_next s s' \<longleftrightarrow> sh_id s' = sh_id s \<and> sh_application_id s' = sh_application_id s \<and>
     sh_owner_account_id s' = sh_owner_account_id s \<and> sh_enterprise_id s' = sh_enterprise_id s \<and>
     sh_created_by s' = sh_created_by s \<and> sh_start_date s' = sh_start_date s \<and>
     sh_close_date s \<le> sh_close_date s' \<and> (sh_status s = PURGED \<longrightarrow> s' = s) \<and>
     sh_rename_count s \<le> sh_rename_count s' \<and>
     (sh_rename_count s' = sh_rename_count s \<longrightarrow> sh_name s' = sh_name s \<and> sh_normalized_name s' = sh_normalized_name s)"

lemma shop_next_refl [simp]: "shop_next s s"
  by (simp add: shop_next_def)

lemma shop_next_trans: "shop_next s t \<Longrightarrow> shop_next t u \<Longrightarrow> shop_next s u"
  unfolding shop_next_def by (elim conjE) (intro conjI impI; (simp | force))

text \<open>How the tables may change: shops evolve and stay, histories only grow.\<close>

definition evolves :: "'z shop_db_scheme \<Rightarrow> 'z shop_db_scheme \<Rightarrow> bool" where
  "evolves db db' \<longleftrightarrow>
     (\<forall>s \<in> set (shops db). \<exists>s' \<in> set (shops db'). shop_next s s' \<and> original_name s' db' = original_name s db) \<and>
     (\<exists>ts. shop_terms db' = shop_terms db @ ts) \<and> (\<exists>cs. shop_charges db' = shop_charges db @ cs) \<and>
     (\<exists>hs. name_history db' = name_history db @ hs)"

lemma evolves_refl [simp]: "evolves db db"
  by (force simp: evolves_def)

lemma evolves_trans:
  assumes "evolves a b" and "evolves b c"
  shows "evolves a c"
proof -
  have "\<exists>u \<in> set (shops c). shop_next s u \<and> original_name u c = original_name s a" if s: "s \<in> set (shops a)" for s
  proof -
    obtain t where t: "t \<in> set (shops b)" "shop_next s t" "original_name t b = original_name s a"
      using assms(1) s unfolding evolves_def by blast
    obtain u where "u \<in> set (shops c)" "shop_next t u" "original_name u c = original_name t b"
      using assms(2) t(1) unfolding evolves_def by blast
    then show ?thesis using t shop_next_trans by metis
  qed
  moreover have "\<exists>ts. shop_terms c = shop_terms a @ ts" "\<exists>cs. shop_charges c = shop_charges a @ cs"
    "\<exists>hs. name_history c = name_history a @ hs"
    using assms unfolding evolves_def by (metis append_assoc)+
  ultimately show ?thesis unfolding evolves_def by blast
qed

lemma evolves_apart: "apart T db db' \<Longrightarrow> evolves db db'"
  by (force simp: evolves_def apart_def shop_tables_def original_name_def)

lemma evolves_audit: "evolves db (audit r db)"
  by (force simp: evolves_def audit_def original_name_def)

lemma evolves_rows:
  assumes "shops db' = update_rows P f (shops db)" and "\<And>s. s \<in> set (shops db) \<Longrightarrow> P s \<Longrightarrow> shop_next s (f s)"
    and "\<And>s. s \<in> set (shops db) \<Longrightarrow> original_name (if P s then f s else s) db' = original_name s db"
    and "\<exists>ts. shop_terms db' = shop_terms db @ ts" and "\<exists>cs. shop_charges db' = shop_charges db @ cs"
    and "\<exists>hs. name_history db' = name_history db @ hs"
  shows "evolves db db'"
proof -
  have "\<exists>s' \<in> set (shops db'). shop_next s s' \<and> original_name s' db' = original_name s db" if s: "s \<in> set (shops db)" for s
  proof (rule bexI)
    show "(if P s then f s else s) \<in> set (shops db')" unfolding assms(1) in_update_rows using s by blast
    show "shop_next s (if P s then f s else s) \<and> original_name (if P s then f s else s) db' = original_name s db"
      using assms(2,3) [OF s] by simp
  qed
  then show ?thesis using assms(4-6) unfolding evolves_def by blast
qed

lemma original_name_cong:
  "sh_id s = sh_id t \<Longrightarrow> sh_name s = sh_name t \<Longrightarrow> name_history db' = name_history db \<Longrightarrow>
   original_name s db' = original_name t db"
  by (simp add: original_name_def split: option.split)

text \<open>What each step keeps.\<close>

definition keeps :: "'z shop_db_scheme \<Rightarrow> 'z shop_db_scheme \<Rightarrow> bool" where
  "keeps db db' \<longleftrightarrow> (pay_inv db \<longrightarrow> pay_inv db' \<and> (\<forall>a. remainder a db' = remainder a db)) \<and>
     (shop_inv db \<longrightarrow> shop_inv db' \<and> evolves db db')"

lemma keeps_pay_tables:
  assumes "pay_tables db' = pay_tables db" and "shop_inv db \<Longrightarrow> shop_inv db' \<and> evolves db db'"
  shows "keeps db db'"
  using assms pay_tables_inv [OF assms(1)] pay_tables_remainder [OF assms(1)] by (simp add: keeps_def)

lemma shop_inv_trash: "shop_inv db \<Longrightarrow> s \<in> set (shops db) \<Longrightarrow> trash_ok s \<and> shop_checks s"
  by (simp add: shop_inv_def list_all_iff rows_ok_def)

lemma fold_audit: "fold (\<lambda>s. audit (g s)) xs db = db\<lparr>audits := audits db @ map g xs\<rparr>"
  by (induction xs arbitrary: db) (simp_all add: audit_def)

lemma pay_tables_simps [simp]:
  "pay_tables (db\<lparr>shops := ss\<rparr>) = pay_tables db" "pay_tables (db\<lparr>audits := as\<rparr>) = pay_tables db"
  "pay_tables (db\<lparr>idempotency_records := rs\<rparr>) = pay_tables db" "pay_tables (audit r db) = pay_tables db"
  "pay_tables (db\<lparr>name_history := hs\<rparr>) = pay_tables db" "pay_tables (billed t c db) = pay_tables db"
  by (simp_all add: pay_tables_def audit_def billed_def)

text \<open>Many rows moved to another state.\<close>

lemma keeps_states:
  assumes db': "shops db' = update_rows P f (shops db)" "shop_terms db' = shop_terms db" "shop_charges db' = shop_charges db"
      "name_history db' = name_history db" "pay_tables db' = pay_tables db"
    and f: "\<And>s. shop_inv db \<Longrightarrow> s \<in> set (shops db) \<Longrightarrow> P s \<Longrightarrow> shop_checks (f s) \<and> trash_ok (f s) \<and> live (sh_status s)"
    and same: "\<And>s. sh_normalized_name (f s) = sh_normalized_name s \<and> name_facts (f s) = name_facts s"
    and nxt: "\<And>s. P s \<Longrightarrow> sh_status s \<noteq> PURGED \<Longrightarrow> shop_next s (f s)"
  shows "keeps db db'"
proof (rule keeps_pay_tables [OF db'(5)])
  assume inv: "shop_inv db"
  have same': "sh_id (f s) = sh_id s" "sh_name (f s) = sh_name s" for s
    using same [of s] by (simp_all add: name_facts_def)
  have nxt': "shop_next s (f s)" if "s \<in> set (shops db)" "P s" for s
    using nxt [OF that(2)] f [OF inv that] by (auto simp: live_def)
  have "rows_ok (shops db')" unfolding db'
  proof (rule rows_ok_states)
    show "rows_ok (shops db)" using inv by (simp add: shop_inv_def)
    fix s assume s: "s \<in> set (shops db)" "P s"
    then show "shop_checks (f s) \<and> sh_id (f s) = sh_id s \<and> live (sh_status s) \<and>
       sh_enterprise_id (f s) = sh_enterprise_id s \<and> sh_normalized_name (f s) = sh_normalized_name s"
      using f [OF inv s] same [of s] nxt' [OF s] by (simp add: shop_next_def)
  qed
  moreover have "list_all trash_ok (shops db')"
    using f [OF inv] shop_inv_trash [OF inv] by (auto simp: db' list_all_iff in_update_rows)
  moreover have "map name_facts (shops db') = map name_facts (shops db)" using same by (simp add: db' map_update_rows)
  moreover have "map sh_id (shops db') = map sh_id (shops db)" using same' by (simp add: db' map_update_rows)
  moreover have "ledger db' = ledger db" using db'(5) by (simp add: pay_tables_def)
  ultimately have "shop_inv db'" using inv unfolding shop_inv_def db'(2-4) by metis
  moreover have "evolves db db'"
    by (rule evolves_rows [OF db'(1) nxt'], assumption, assumption)
      (auto simp: db' same' intro: original_name_cong)
  ultimately show "shop_inv db' \<and> evolves db db'" ..
qed

lemma expires_keeps: "keeps db (refreshExpiredShops clk db)"
proof (rule keeps_states)
  show "shops (refreshExpiredShops clk db) = update_rows (expires clk) (\<lambda>s. s\<lparr>sh_status := EXPIRED_READONLY\<rparr>) (shops db)"
    "shop_terms (refreshExpiredShops clk db) = shop_terms db" "shop_charges (refreshExpiredShops clk db) = shop_charges db"
    "name_history (refreshExpiredShops clk db) = name_history db" "pay_tables (refreshExpiredShops clk db) = pay_tables db"
    by (simp_all add: refreshExpiredShops_def fold_audit)
next
  fix s assume inv: "shop_inv db" and s: "s \<in> set (shops db)" "expires clk s"
  then show "shop_checks (s\<lparr>sh_status := EXPIRED_READONLY\<rparr>) \<and> trash_ok (s\<lparr>sh_status := EXPIRED_READONLY\<rparr>) \<and> live (sh_status s)"
    using shop_inv_trash [OF inv s(1)]
    by (simp add: expires_def shop_checks_def shop_state_check_def trash_ok_def live_def)
qed (simp_all add: name_facts_def shop_next_def)

lemma trash_keeps:
  assumes "bulkTrash request_hash busy clk actor ids reason0 key requestId db = Inr (n, db')"
  shows "keeps db db'"
proof -
  let ?ids = "unique_sorted ids" and ?f = "lifecycle_set clk (actor_accountId actor) TRASH"
  have ck: "check_trashable actor ss = Inr u \<Longrightarrow> s \<in> set ss \<Longrightarrow> sh_status s \<in> {ACTIVE, EXPIRED_READONLY}" for ss s u
    by (induction ss) (auto simp: bindE_Inr_iff split: if_split_asm)
  consider "db' = db" | "check_trashable actor (concat (map (\<lambda>i. filter (\<lambda>s. sh_id s = i) (shops db)) ?ids)) = Inr ()"
      "shops db' = update_rows (\<lambda>s. sh_id s \<in> set ?ids) ?f (shops db)" "shop_terms db' = shop_terms db"
      "shop_charges db' = shop_charges db" "name_history db' = name_history db" "pay_tables db' = pay_tables db"
  proof (cases "first_row (\<lambda>r. ir_actor r = actor_accountId actor \<and> ir_scope r = ''shop.bulk-trash'' \<and> ir_key r = key)
             (idempotency_records db)")
    case None
    have ckd: "check_trashable actor (concat (map (\<lambda>i. filter (\<lambda>s. sh_id s = i) (shops db)) ?ids)) = Inr ()"
      using assms None by (auto simp: bulkTrash_def Let_def bindE_Inr_iff split: if_split_asm)
    show thesis
      by (rule that(2) [OF ckd]) (use assms None ckd in \<open>auto simp: bulkTrash_def Let_def fold_audit split: if_split_asm\<close>)
  next
    case (Some prior)
    then show thesis
      using assms that(1) by (auto simp: bulkTrash_def Let_def split: if_split_asm option.splits response_body.splits)
  qed
  then show ?thesis
  proof cases
    case 1
    then show ?thesis by (simp add: keeps_def)
  next
    case 2
    have st: "sh_status s \<in> {ACTIVE, EXPIRED_READONLY}" if "s \<in> set (shops db)" "sh_id s \<in> set ?ids" for s
      using ck [OF 2(1), of s] that by simp
    show ?thesis
    proof (rule keeps_states [OF 2(2-6)])
      fix s assume inv: "shop_inv db" and s: "s \<in> set (shops db)" "sh_id s \<in> set ?ids"
      then show "shop_checks (?f s) \<and> trash_ok (?f s) \<and> live (sh_status s)"
        using shop_inv_trash [OF inv s(1)] st [OF s]
        by (auto simp: lifecycle_set_def shop_checks_def shop_state_check_def trash_ok_def live_def)
    qed (simp_all add: lifecycle_set_def name_facts_def shop_next_def)
  qed
qed

text \<open>One row updated under its guard.\<close>

lemma evolves_update:
  assumes inv: "shop_inv db" and up: "update_shop sid guard f db = Inr (Some r, db')"
    and nxt: "\<And>s. guard s \<Longrightarrow> shop_next s (f s)" and nm: "\<And>s. sh_name (f s) = sh_name s \<and> sh_id (f s) = sh_id s"
  shows "evolves db db'"
proof -
  from up obtain s where s: "first_row (\<lambda>s. sh_id s = sid \<and> guard s) (shops db) = Some s"
    and db': "db' = db\<lparr>shops := update_rows (\<lambda>x. sh_id x = sid) f (shops db)\<rparr>"
    by (auto simp: update_shop_Inr_iff split: option.splits)
  note row = first_row_SomeD [OF s]
  have g: "guard x" if "x \<in> set (shops db)" "sh_id x = sid" for x
    using shop_unique [of "shops db" x s] inv that row by (auto simp: shop_inv_def)
  show ?thesis
    by (rule evolves_rows [of _ "\<lambda>x. sh_id x = sid" f]) (auto simp: db' nm intro!: nxt g original_name_cong)
qed

lemma lifecycle_keeps:
  assumes "changeLifecycle clk actor shopId action reason requestId db = Inr (v, db')"
  shows "keeps db db'"
proof -
  let ?f = "lifecycle_set clk (actor_accountId actor) action"
  obtain sid r db1 a where up: "update_shop sid (lifecycle_guard clk action) ?f db = Inr (Some r, db1)"
    and db': "db' = audit a db1"
    using assms by (auto simp: changeLifecycle_def bindE_Inr_iff split: option.splits)
  have same: "name_facts (?f s) = name_facts s" for s
    by (cases action) (simp_all add: lifecycle_set_def name_facts_def)
  have t: "trash_ok (?f s)" if "trash_ok s" "lifecycle_guard clk action s" for s
    using that by (cases action) (auto simp: lifecycle_set_def lifecycle_guard_def trash_ok_def split: option.splits)
  have nxt: "shop_next s (?f s)" if "lifecycle_guard clk action s" for s
    using that by (cases action) (auto simp: lifecycle_set_def lifecycle_guard_def shop_next_def)
  have p: "pay_tables db' = pay_tables db"
    using up by (auto simp: db' update_shop_Inr_iff split: option.splits)
  show ?thesis
  proof (rule keeps_pay_tables [OF p])
    assume inv: "shop_inv db"
    have "shop_inv db1" by (rule shop_inv_update [OF inv up same t])
    moreover have "evolves db db1"
      by (rule evolves_update [OF inv up nxt]) (use same in \<open>auto simp: name_facts_def\<close>)
    ultimately show "shop_inv db' \<and> evolves db db'"
      using evolves_trans [OF _ evolves_audit] by (auto simp: db')
  qed
qed

definition renamed :: "string \<times> string \<Rightarrow> string \<Rightarrow> shop_row \<Rightarrow> shop_row" where
  "renamed names aid s = s\<lparr>sh_name := fst names, sh_normalized_name := snd names, sh_rename_count := 1,
     sh_last_operated_by := aid\<rparr>"

lemma first_row_guarded: "first_row p t = Some r \<Longrightarrow> q r \<Longrightarrow> first_row (\<lambda>x. p x \<and> q x) t = Some r"
  by (induction t) (auto split: if_split_asm)

lemma rename_writes:
  assumes "rename u actor shopId name requestId db = Inr (v, db')"
  obtains names shop h a where "normalizeShopName u name = Inr names"
    and "first_row (\<lambda>s. sh_id s = shopId) (shops db) = Some shop"
    and "may_act actor (shop_resource shop) None SHOP_RENAME" and "sh_rename_count shop = 0"
    and "shop_checks (renamed names (actor_accountId actor) shop)"
    and "\<not> name_taken (renamed names (actor_accountId actor) shop) (shops db)"
    and "h = \<lparr> nh_shop_id = shopId, nh_old_name = sh_name shop, nh_new_name = fst names, nh_changed_by = actor_accountId actor \<rparr>"
    and "\<forall>x \<in> set (name_history db). nh_shop_id x \<noteq> shopId"
    and "view None None (renamed names (actor_accountId actor) shop) (accessOf actor) = Inr v"
    and "db' = audit a (db\<lparr>shops := update_rows (\<lambda>x. sh_id x = shopId) (renamed names (actor_accountId actor)) (shops db),
          name_history := name_history db @ [h]\<rparr>)"
proof -
  obtain names where names: "normalizeShopName u name = Inr names"
    using assms by (auto simp: rename_def bindE_Inr_iff)
  obtain shop where shop: "first_row (\<lambda>s. sh_id s = shopId) (shops db) = Some shop"
    using assms names by (auto simp: rename_def split: option.splits)
  have id: "sh_id shop = shopId" using first_row_SomeD [OF shop] by simp
  have auth: "may_act actor (shop_resource shop) None SHOP_RENAME" and count: "sh_rename_count shop = 0"
    using assms names shop
    by (auto simp: rename_def bindE_Inr_iff requireAllowed_Inr_iff authorizeShop_allowed_iff split: if_split_asm)
  let ?f = "renamed names (actor_accountId actor)"
  from assms names shop count obtain row db1 a where
    up: "update_shop shopId (\<lambda>s. sh_rename_count s = 0) ?f db = Inr (row, db1)"
    and rest: "(case row of
       None \<Rightarrow> Inl (AppError ''SHOP_RENAME_CONFLICT'' 409 None)
     | Some r \<Rightarrow>
     bindE (insert_name_history \<lparr> nh_shop_id = sh_id shop, nh_old_name = sh_name shop, nh_new_name = fst names,
         nh_changed_by = actor_accountId actor \<rparr> db1) (\<lambda>db2.
     bindE (view None None r (accessOf actor)) (\<lambda>v. Inr (v, audit a db2)))) = Inr (v, db')"
    by (auto simp: rename_def bindE_Inr_iff id renamed_def [abs_def])
  obtain r where row: "row = Some r" using rest by (cases row) auto
  have s: "first_row (\<lambda>s. sh_id s = shopId \<and> sh_rename_count s = 0) (shops db) = Some shop"
    by (rule first_row_guarded [OF shop]) (rule count)
  have u: "shop_checks (?f shop)" "\<not> name_taken (?f shop) (shops db)" "r = ?f shop"
    "db1 = db\<lparr>shops := update_rows (\<lambda>x. sh_id x = shopId) ?f (shops db)\<rparr>"
    using up row s by (auto simp: update_shop_Inr_iff)
  show thesis
    by (rule that [OF names shop auth count u(1,2) refl, of a])
      (use rest row u in \<open>auto simp: bindE_Inr_iff insert_name_history_def id split: if_split_asm\<close>)
qed

lemma may_act_not_purged: "may_act actor (shop_resource s) m c \<Longrightarrow> sh_status s \<noteq> PURGED"
  by (auto simp: may_act_def open_in_state_def shop_resource_def split: if_split_asm option.splits)

lemma rename_keeps:
  assumes "rename u actor shopId name requestId db = Inr (v, db')"
  shows "keeps db db'"
  using assms
proof (rule rename_writes)
  fix names shop h a
  let ?f = "renamed names (actor_accountId actor)"
  assume shop: "first_row (\<lambda>s. sh_id s = shopId) (shops db) = Some shop" and count: "sh_rename_count shop = 0"
    and auth: "may_act actor (shop_resource shop) None SHOP_RENAME"
    and c: "shop_checks (?f shop)" "\<not> name_taken (?f shop) (shops db)"
    and h: "h = \<lparr> nh_shop_id = shopId, nh_old_name = sh_name shop, nh_new_name = fst names, nh_changed_by = actor_accountId actor \<rparr>"
    and no: "\<forall>x \<in> set (name_history db). nh_shop_id x \<noteq> shopId"
    and db': "db' = audit a (db\<lparr>shops := update_rows (\<lambda>x. sh_id x = shopId) ?f (shops db), name_history := name_history db @ [h]\<rparr>)"
  note row = first_row_SomeD [OF shop]
  have p: "pay_tables db' = pay_tables db" by (simp add: db' pay_tables_def audit_def)
  show "keeps db db'"
  proof (rule keeps_pay_tables [OF p])
    assume inv: "shop_inv db"
    have rows: "rows_ok (shops db)" using inv by (simp add: shop_inv_def)
    have only: "x = shop" if "x \<in> set (shops db)" "sh_id x = shopId" for x
      using shop_unique [OF rows that(1), of shop] that(2) row by simp
    have up: "update_rows (\<lambda>x. sh_id x = shopId) ?f (shops db) = map (\<lambda>x. if sh_id x = shopId then ?f x else x) (shops db)"
      by (simp add: update_rows_def)
    have "rows_ok (shops db')" using rows_ok_update [of "shops db" shop ?f] rows c row by (simp add: db' renamed_def)
    moreover have "list_all trash_ok (shops db')"
      using list_all_update_rows [of trash_ok "shops db" ?f] inv
      by (simp add: db' shop_inv_def) (simp add: renamed_def trash_ok_def)
    moreover have "map sh_id (shops db') = map sh_id (shops db)" by (simp add: db' map_update_rows renamed_def)
    moreover have "names_ok (map name_facts (shops db')) (name_history db')"
    proof -
      have "names_ok (map name_facts (shops db')) (name_history db @ [h])"
      proof (rule names_ok_add [where new = "fst names" and old = "sh_name shop" and i = shopId])
        show "names_ok (map name_facts (shops db)) (name_history db)" using inv by (simp add: shop_inv_def)
        show "(shopId, 0, sh_name shop) \<in> set (map name_facts (shops db))"
          using row count by (force simp: name_facts_def)
        have "map fst (map name_facts (shops db)) = map sh_id (shops db)"
          unfolding map_map by (rule map_cong) (simp_all add: name_facts_def)
        then show "distinct (map fst (map name_facts (shops db)))" using rows by (simp only: rows_ok_def)
        show "map name_facts (shops db') = map (\<lambda>x. if fst x = shopId then (shopId, 1, fst names) else x) (map name_facts (shops db))"
          by (auto simp: db' up name_facts_def renamed_def)
      qed (simp_all add: h)
      then show ?thesis by (simp add: db')
    qed
    moreover have "ledger db' = ledger db" "shop_terms db' = shop_terms db" "shop_charges db' = shop_charges db"
      by (simp_all add: db')
    ultimately have inv': "shop_inv db'" using inv unfolding shop_inv_def by metis
    have none: "first_row (\<lambda>x. nh_shop_id x = shopId) (name_history db) = None" using no by (simp add: first_row_None_iff)
    have "evolves db db'"
    proof (rule evolves_rows [of _ "\<lambda>x. sh_id x = shopId" ?f])
      show "shops db' = update_rows (\<lambda>x. sh_id x = shopId) ?f (shops db)" by (simp add: db')
    next
      fix x assume "x \<in> set (shops db)" "sh_id x = shopId"
      then show "shop_next x (?f x)" using only [of x] count row c may_act_not_purged [OF auth]
        by (auto simp: shop_next_def renamed_def)
    next
      fix x assume x: "x \<in> set (shops db)"
      show "original_name (if sh_id x = shopId then ?f x else x) db' = original_name x db"
      proof (cases "sh_id x = shopId")
        case True
        then show ?thesis using only [OF x True] none by (simp add: original_name_def db' first_row_append h renamed_def)
      next
        case False
        then show ?thesis by (simp add: original_name_def db' first_row_append h split: option.split)
      qed
    qed (simp_all add: db')
    with inv' show "shop_inv db' \<and> evolves db db'" ..
  qed
qed

lemma create_new_keeps:
  assumes new: "create_new clk actor shopId termId input names closeDate years db = Inr (v, db')"
  shows "keeps db db'"
  using new
proof (rule create_new_writes)
  let ?s = "new_shop clk (actor_accountId actor) shopId input names closeDate" and ?admin = "ADMIN \<in> roles actor"
  fix w price lid db2 r
  define t where "t = new_term termId shopId (cs_startDate input) closeDate years (pv_id price) None"
  define m where "m = pv_annual_price price * years"
  define c where "c = new_charge ?admin None shopId termId (pv_id price) m lid (cs_idempotencyKey input) (actor_accountId actor)"
  let ?db1 = "db\<lparr>shops := shops db @ [?s]\<rparr>"
  assume ins: "insert_shop ?s db = Inr ?db1"
    and "took (ADMIN \<notin> roles actor \<and> 0 < pv_annual_price price * years)
       (charge_entry (wa_id w) (''shop-create:'' @ cs_idempotencyKey input) (pv_annual_price price * years) shopId
          (actor_accountId actor)) lid ?db1 db2"
    and "billable (new_term termId shopId (cs_startDate input) closeDate years (pv_id price) None)
         (new_charge (ADMIN \<in> roles actor) None shopId termId (pv_id price)
             (pv_annual_price price * years) lid (cs_idempotencyKey input) (actor_accountId actor)) db2"
    and "db' = audit r (billed (new_term termId shopId (cs_startDate input) closeDate years (pv_id price) None)
         (new_charge (ADMIN \<in> roles actor) None shopId termId (pv_id price)
             (pv_annual_price price * years) lid (cs_idempotencyKey input) (actor_accountId actor)) db2)"
  then have took: "took (\<not> ?admin \<and> 0 < m) (charge_entry (wa_id w) (''shop-create:'' @ cs_idempotencyKey input) m shopId
          (actor_accountId actor)) lid ?db1 db2"
    and bill: "billable t c db2" and db': "db' = audit r (billed t c db2)"
    by (simp_all add: t_def m_def c_def)
  note tables = took_shop_tables [OF took]
  have p1: "pay_tables ?db1 = pay_tables db" by simp
  have pay: "pay_inv db' \<and> (\<forall>a. remainder a db' = remainder a db)" if inv: "pay_inv db"
  proof -
    have k: "pay_inv db2 \<and> remainder a db2 = remainder a ?db1" for a
      by (rule took_keeps [OF _ took shop_keys(1)]) (use inv pay_tables_inv [OF p1] in simp)
    have "pay_tables db' = pay_tables db2" by (simp add: db')
    then show ?thesis using k pay_tables_inv pay_tables_remainder [OF p1] pay_tables_remainder by metis
  qed
  have shop: "shop_inv db' \<and> evolves db db'" if inv: "shop_inv db"
  proof -
    have s': "shops db' = shops db @ [?s]" "shop_terms db' = shop_terms db @ [t]" "shop_charges db' = shop_charges db @ [c]"
      "name_history db' = name_history db" "ledger db' = ledger db2"
      using tables by (simp_all add: db' billed_def)
    have new: "shop_checks ?s" "\<forall>x \<in> set (shops db). sh_id x \<noteq> sh_id ?s" "\<not> name_taken ?s (shops db)"
      using ins by (auto simp: insert_shop_Inr_iff)
    have id: "sh_id ?s = shopId" by (simp add: new_shop_def)
    have "rows_ok (shops db')" unfolding s' using inv new by (intro rows_ok_insert) (auto simp: shop_inv_def)
    moreover have "list_all trash_ok (shops db')"
      using inv by (simp add: s' shop_inv_def) (simp add: trash_ok_def new_shop_def)
    moreover have "bills_ok (map sh_id (shops db')) (shop_terms db') (shop_charges db')"
      unfolding s'
    proof (rule bills_ok_add [OF _ bill])
      show "bills_ok (map sh_id (shops db)) (shop_terms db) (shop_charges db)" using inv by (simp add: shop_inv_def)
    qed (use tables in \<open>simp_all add: t_def c_def id\<close>)
    moreover have "names_ok (map name_facts (shops db')) (name_history db')"
    proof -
      have "shopId \<notin> fst ` set (map name_facts (shops db))" using new id by (auto simp: name_facts_def)
      then have "names_ok (map name_facts (shops db) @ [(shopId, 0, fst names)]) (name_history db)"
        using inv by (intro names_ok_insert) (simp_all add: shop_inv_def)
      moreover have "name_facts ?s = (shopId, 0, fst names)" by (simp add: name_facts_def new_shop_def)
      ultimately show ?thesis by (simp add: s')
    qed
    moreover have "books_ok (ledger db') (shop_charges db')"
    proof -
      have "books_ok (ledger ?db1) (shop_charges ?db1)" using inv by (simp add: shop_inv_def)
      from took_books(1) [OF this shop_keys(1) took] bill show ?thesis by (simp add: s' c_def)
    qed
    ultimately have "shop_inv db'" by (simp add: shop_inv_def)
    moreover have "original_name s db' = original_name s db" for s by (simp add: original_name_def s')
    then have "evolves db db'" unfolding evolves_def by (auto simp: s' intro: shop_next_refl)
    ultimately show ?thesis ..
  qed
  show "keeps db db'" using pay shop by (simp add: keeps_def)
qed

lemma create_cases:
  assumes "create u clk actor shopId termId input db = Inr (v, db')"
  obtains (again) prior where "prior_charge (actor_accountId actor) (cs_idempotencyKey input) db = Some prior" and "db' = db"
  | (new) names closeDate years where
      "prior_charge (actor_accountId actor) (cs_idempotencyKey input) db = None"
      "allowed (authorizePlatform actor SHOP_CREATE)"
      "ADMIN \<in> roles actor \<or> (\<exists>ids. enterpriseIds actor = Some ids \<and> cs_enterpriseId input \<in> ids)"
      "normalizeShopName u (cs_name input) = Inr names"
      "(case cs_requestedCloseDate input of Some d \<Rightarrow> Inr d | None \<Rightarrow> anniversary (cs_startDate input) 1) = Inr closeDate"
      "billedYears (cs_startDate input) closeDate = Inr years"
      "create_new clk actor shopId termId input names closeDate years db = Inr (v, db')"
proof (cases "prior_charge (actor_accountId actor) (cs_idempotencyKey input) db")
  case None
  from assms obtain names closeDate years where
      "normalizeShopName u (cs_name input) = Inr names"
      "(case cs_requestedCloseDate input of Some d \<Rightarrow> Inr d | None \<Rightarrow> anniversary (cs_startDate input) 1) = Inr closeDate"
      "billedYears (cs_startDate input) closeDate = Inr years"
      "allowed (authorizePlatform actor SHOP_CREATE)"
      "ADMIN \<in> roles actor \<or> (\<exists>ids. enterpriseIds actor = Some ids \<and> cs_enterpriseId input \<in> ids)"
    and "create_new clk actor shopId termId input names closeDate years db = Inr (v, db')"
    by (auto simp: create_def Let_def bindE_Inr_iff requireAllowed_Inr_iff None split: if_split_asm option.splits)
  then show thesis by (intro new [OF None])
next
  case (Some prior)
  with assms have "db' = db"
    by (auto simp: create_def Let_def bindE_Inr_iff split: if_split_asm option.splits)
  with Some show thesis by (rule again)
qed

lemma create_keeps: "create u clk actor shopId termId input db = Inr (v, db') \<Longrightarrow> keeps db db'"
  by (erule create_cases) (simp add: keeps_def, rule create_new_keeps)

lemma compare_text: "comparePlainDate a b = Inr c \<Longrightarrow> 0 < c \<Longrightarrow> b < a"
  by (auto simp: comparePlainDate_def bindE_Inr_iff split: if_split_asm)

lemma renew_new_keeps:
  assumes new: "renew_new clk actor termId input db = Inr (v, db')"
  shows "keeps db db'"
  using new
proof (rule renew_new_writes)
  let ?admin = "ADMIN \<in> roles actor" and ?f = "renewed (rn_requestedCloseDate input) (actor_accountId actor)"
  fix shop totalYears addedYears price m w lid db1 r t c
  assume ok: "renewable clk actor input shop totalYears addedYears price db"
    and took0: "took (ADMIN \<notin> roles actor \<and> 0 < m)
       (charge_entry (wa_id w) (''shop-renew:'' @ rn_idempotencyKey input) m (sh_id shop) (actor_accountId actor)) lid db db1"
    and t: "t = new_term termId (sh_id shop) (sh_start_date shop) (rn_requestedCloseDate input) totalYears (pv_id price)
           (map_option st_id (last_term (sh_id shop) db1))"
    and c: "c = new_charge ?admin (renew_waiver actor input) (sh_id shop) termId (pv_id price)
           m lid (rn_idempotencyKey input) (actor_accountId actor)"
    and bill: "billable t c db1"
    and up: "update_shop (sh_id shop) (\<lambda>_. True) ?f (billed t c db1)
       = Inr (Some (?f shop), (billed t c db1)\<lparr>shops := update_rows (\<lambda>x. sh_id x = sh_id shop) ?f (shops db)\<rparr>)"
    and db': "db' = audit r ((billed t c db1)\<lparr>shops := update_rows (\<lambda>x. sh_id x = sh_id shop) ?f (shops db)\<rparr>)"
  have took: "took (\<not> ?admin \<and> 0 < m)
       (charge_entry (wa_id w) (''shop-renew:'' @ rn_idempotencyKey input) m (sh_id shop) (actor_accountId actor)) lid db db1"
    using took0 by simp
  note tables = took_shop_tables [OF took]
  have row: "shop \<in> set (shops db)" using ok by (auto simp: renewable_def dest: first_row_SomeD)
  have pay: "pay_inv db' \<and> (\<forall>a. remainder a db' = remainder a db)" if inv: "pay_inv db"
  proof -
    have k: "pay_inv db1 \<and> remainder a db1 = remainder a db" for a by (rule took_keeps [OF inv took shop_keys(2)])
    have "pay_tables db' = pay_tables db1" by (simp add: db')
    then show ?thesis using k pay_tables_inv pay_tables_remainder by metis
  qed
  have shop: "shop_inv db' \<and> evolves db db'" if inv: "shop_inv db"
  proof -
    have s': "shops db' = update_rows (\<lambda>x. sh_id x = sh_id shop) ?f (shops db)" "shop_terms db' = shop_terms db @ [t]"
      "shop_charges db' = shop_charges db @ [c]" "name_history db' = name_history db" "ledger db' = ledger db1"
      using tables by (simp_all add: db' billed_def)
    have rows: "rows_ok (shops db)" using inv by (simp add: shop_inv_def)
    have id: "sh_id (?f x) = sh_id x" "name_facts (?f x) = name_facts x" "sh_name (?f x) = sh_name x" for x
      by (simp_all add: renewed_def name_facts_def)
    have only: "x = shop" if "x \<in> set (shops db)" "sh_id x = sh_id shop" for x
      using shop_unique [OF rows that(1) row that(2)] .
    have chk: "shop_checks (?f shop)" "\<not> name_taken (?f shop) (shops db)"
    proof -
      have "first_row (\<lambda>s. sh_id s = sh_id shop \<and> True) (shops db) = Some shop"
        using ok first_row_SomeD [of "\<lambda>s. sh_id s = rn_shopId input" "shops db" shop] by (simp add: renewable_def)
      then show "shop_checks (?f shop)" "\<not> name_taken (?f shop) (shops db)"
        using up tables by (auto simp: update_shop_Inr_iff billed_def)
    qed
    have "rows_ok (shops db')" unfolding s' by (rule rows_ok_update [where f = ?f, OF rows row id(1) chk])
    moreover have "list_all trash_ok (shops db')"
      using list_all_update_rows [of trash_ok "shops db" ?f] inv
      by (simp add: s' shop_inv_def) (simp add: renewed_def trash_ok_def)
    moreover have ids: "map sh_id (shops db') = map sh_id (shops db)" by (simp add: s' map_update_rows id)
    moreover have "bills_ok (map sh_id (shops db)) (shop_terms db') (shop_charges db')"
      unfolding s'
    proof (rule bills_ok_add [OF _ bill])
      show "bills_ok (map sh_id (shops db)) (shop_terms db) (shop_charges db)" using inv by (simp add: shop_inv_def)
    qed (use tables row in \<open>auto simp: t c\<close>)
    moreover have "map name_facts (shops db') = map name_facts (shops db)" by (simp add: s' map_update_rows id)
    moreover have "books_ok (ledger db') (shop_charges db')"
    proof -
      have "books_ok (ledger db) (shop_charges db)" using inv by (simp add: shop_inv_def)
      from took_books(1) [OF this shop_keys(2) took] bill show ?thesis by (simp add: s' c)
    qed
    ultimately have "shop_inv db'" using inv s'(4) unfolding shop_inv_def by metis
    moreover have "evolves db db'"
    proof (rule evolves_rows [OF s'(1)])
      fix x assume "x \<in> set (shops db)" "sh_id x = sh_id shop"
      moreover have "sh_close_date shop < rn_requestedCloseDate input" using ok compare_text by (auto simp: renewable_def)
      moreover have "sh_status shop \<noteq> PURGED" using ok may_act_not_purged by (auto simp: renewable_def)
      ultimately show "shop_next x (?f x)" using only [of x] by (auto simp: shop_next_def renewed_def)
    qed (auto simp: s' id intro: original_name_cong)
    ultimately show ?thesis ..
  qed
  show "keeps db db'" using pay shop by (simp add: keeps_def)
qed

lemma renew_cases:
  assumes "renew clk actor termId input db = Inr (v, db')"
  obtains (again) prior where "prior_charge (actor_accountId actor) (rn_idempotencyKey input) db = Some prior" and "db' = db"
  | (new) "prior_charge (actor_accountId actor) (rn_idempotencyKey input) db = None"
      "renew_new clk actor termId input db = Inr (v, db')"
      "ADMIN \<in> roles actor \<Longrightarrow> \<exists>r. renew_waiver actor input = Some r \<and> r \<noteq> []"
proof (cases "prior_charge (actor_accountId actor) (rn_idempotencyKey input) db")
  case None
  then show thesis
    using assms by (intro new) (auto simp: renew_def Let_def renew_waiver_def split: if_split_asm option.splits)
next
  case (Some prior)
  with assms have "db' = db"
    by (auto simp: renew_def Let_def bindE_Inr_iff split: if_split_asm option.splits)
  with Some show thesis by (rule again)
qed

lemma renew_keeps: "renew clk actor termId input db = Inr (v, db') \<Longrightarrow> keeps db db'"
  by (erule renew_cases) (simp add: keeps_def, rule renew_new_keeps)

lemma shop_step_keeps: "shop_step db db' \<Longrightarrow> keeps db db'"
proof (induction rule: shop_step.induct)
  case (pays db db')
  have "apart pay_types db db'" by (rule apart_pay_step [OF pays])
  then show ?case
    using pay_step_keeps [OF pays] pay_step_remainder [OF _ pays] apart_shop_inv [of pay_types db db'] evolves_apart
    by (auto simp: keeps_def)
next
  case (adjusts adj db w db')
  have "apart {ADMIN_ADJUSTMENT} db db'" by (rule apart_adjust [OF adjusts])
  then show ?case
    using adjust_keeps [OF _ adjusts] apart_shop_inv [of "{ADMIN_ADJUSTMENT}" db db'] evolves_apart
    by (auto simp: keeps_def)
qed (rule create_keeps renew_keeps rename_keeps lifecycle_keeps trash_keeps expires_keeps, assumption?)+

interpretation shop_runs: kept_along shop_step keeps
  by unfold_locales (auto simp: keeps_def intro: evolves_trans dest: shop_step_keeps)

lemma shop_steps_keep: "shop_step\<^sup>*\<^sup>* db db' \<Longrightarrow> keeps db db'"
  by (rule shop_runs.along_run)

end
