(* ===== verification/ShopProps.thy ===== *)
theory ShopProps
  imports ShopBook
begin

text \<open>
  The properties of shops: what creating and renewing cost, that replays do nothing, how a shop may
  change over its life, and that shops, wallets and payments agree after any run.
\<close>

section \<open>The day before\<close>

definition day_before :: "plain_date \<Rightarrow> plain_date" where
  "day_before q =
     (if 1 < day q then q\<lparr>day := day q - 1\<rparr>
      else if 1 < month q then q\<lparr>month := month q - 1, day := month_length (year q) (month q - 1)\<rparr>
      else \<lparr> year = year q - 1, month = 12, day = 31 \<rparr>)"

lemma valid_day_before: "valid_date q \<Longrightarrow> 100 < year q \<Longrightarrow> valid_date (day_before q)"
  using month_length_bounds [of "year q" "month q - 1"]
  by (auto simp: day_before_def valid_date_def valid_ymd_def month_length_def)

lemma make_day_before:
  assumes "valid_date q"
  shows "make_day (year q) (month q - 1) (day q) - 1 = make_day (year (day_before q)) (month (day_before q) - 1) (day (day_before q))"
proof -
  have m: "1 \<le> month q" "month q \<le> 12" and d: "1 \<le> day q" using assms by (simp_all add: valid_date_def valid_ymd_def)
  consider "1 < day q" | "day q = 1" "1 < month q" | "day q = 1" "month q = 1" using m d by linarith
  then show ?thesis
  proof cases
    case 2
    have "days_before_month (leap (year q)) (month q - 1) =
        days_before_month (leap (year q)) (month q - 1 - 1) + month_length (year q) (month q - 1)"
      using 2 m by (intro days_before_month_Suc) simp_all
    moreover have "(month q - 1) div 12 = 0" "(month q - 1) mod 12 = month q - 1"
      "(month q - 1 - 1) div 12 = 0" "(month q - 1 - 1) mod 12 = month q - 1 - 1" using 2 m by simp_all
    ultimately show ?thesis using 2 by (simp add: make_day_def Let_def day_before_def)
  next
    case 3
    have "day_from_year (year q) = day_from_year (year q - 1) + (if leap (year q - 1) then 366 else 365)"
      using day_from_year_Suc [of "year q - 1"] by simp
    then show ?thesis using 3 by (simp add: make_day_def Let_def day_before_def days_before_month_def)
  qed (simp add: make_day_def Let_def day_before_def)
qed

lemma previousDate_format:
  assumes "valid_date q" and "100 < year q"
  shows "previousDate (formatPlainDate q) = Inr (formatPlainDate (day_before q))"
proof -
  let ?p = "day_before q"
  note b = valid_date_ranges [OF assms(1)]
  note z = zero_padded_digits [OF b(1,2)] zero_padded_digits [OF b(3,4)] zero_padded_digits [OF b(5,6)]
  have mt: "date_match (formatPlainDate q) =
      Some (zero_padded 4 (year q), zero_padded 2 (month q), zero_padded 2 (day q))"
    unfolding date_match_iff formatPlainDate_def using z by simp
  have y: "100 \<le> year q" "1 \<le> month q" "month q \<le> 12" using assms by (simp_all add: valid_date_def valid_ymd_def)
  have n: "date_utc (year q) (month q - 1) (day q) = Some (make_day (year q) (month q - 1) (day q))"
    using y b by (intro date_utc_range) simp_all
  have "valid_ymd (year ?p) (month ?p) (day ?p)" using valid_day_before [OF assms] by (simp add: valid_date_def)
  note g = getters_make_day [OF this, folded make_day_before [OF assms(1)]]
  have "formatPlainDate \<lparr> year = year (day_before q), month = month (day_before q), day = day (day_before q) \<rparr> =
      formatPlainDate (day_before q)" by (cases "day_before q") simp
  then show ?thesis using z b n g by (simp add: previousDate_def mt)
qed

text \<open>
  the last usable date is the day before the close date. For every calendar date \<open>q\<close> from the
  year 101 on, also at the start of a month, of a year and after a leap day, the code prints the
  latest valid date that lies before \<open>q\<close>.
\<close>

theorem last_usable_date_is_the_day_before:
  assumes "valid_date q" and "100 < year q"
  shows "\<exists>p. valid_date p \<and> previousDate (formatPlainDate q) = Inr (formatPlainDate p) \<and>
    (\<forall>r. valid_date r \<longrightarrow> (date_less r q \<longleftrightarrow> \<not> date_less p r))"
proof (intro exI conjI allI impI)
  show "valid_date (day_before q)" by (rule valid_day_before [OF assms])
  show "previousDate (formatPlainDate q) = Inr (formatPlainDate (day_before q))" by (rule previousDate_format [OF assms])
  fix r assume r: "valid_date r"
  then have rb: "1 \<le> month r" "month r \<le> 12" "1 \<le> day r" "day r \<le> month_length (year r) (month r)"
    by (simp_all add: valid_date_def valid_ymd_def)
  have qb: "1 \<le> month q" "1 \<le> day q" using assms by (simp_all add: valid_date_def valid_ymd_def)
  have d: "month r = 12 \<Longrightarrow> day r \<le> 31" using month_length_bounds(2) [of "year r" "month r"] rb by simp
  consider "1 < day q" | "day q = 1" "1 < month q" | "day q = 1" "month q = 1" using qb by linarith
  then show "date_less r q \<longleftrightarrow> \<not> date_less (day_before q) r"
  proof cases
    case 1
    then show ?thesis by (auto simp: date_less_def day_before_def)
  next
    case 2
    have "day r \<le> month_length (year q) (month q - 1)" if "year r = year q" "month r = month q - 1"
      using rb(4) that by simp
    then show ?thesis using 2 rb(3)
      by (cases "year r = year q"; cases "month r = month q - 1") (auto simp: date_less_def day_before_def)
  next
    case 3
    then show ?thesis using rb d by (auto simp: date_less_def day_before_def)
  qed
qed

theorem last_usable_date_is_the_day_before_witness:
  "\<exists>p. valid_date p \<and> previousDate (formatPlainDate \<lparr> year = 2024, month = 3, day = 1 \<rparr>) = Inr (formatPlainDate p) \<and>
    (\<forall>r. valid_date r \<longrightarrow> (date_less r \<lparr> year = 2024, month = 3, day = 1 \<rparr> \<longleftrightarrow> \<not> date_less p r))"
  by (rule last_usable_date_is_the_day_before) (simp_all add: valid_date_def valid_ymd_def month_length_def)

section \<open>A small system\<close>

definition sample_actor :: Actor where
  "sample_actor = \<lparr> actor_accountId = ''a'', actor_status = Actor_ACTIVE, roles = {ACCOUNTANT}, enterpriseIds = Some {''ew''} \<rparr>"

definition sample_unicode :: unicode where
  "sample_unicode = \<lparr> nfkc = id, nfc = id, zh_lower = id \<rparr>"

definition sample_clock :: clock where
  "sample_clock = \<lparr> now = 10, today = ''2026-01-01'' \<rparr>"

definition sample_shops :: shop_db where
  "sample_shops = \<lparr> accounts = [], enterprises = [\<lparr> en_id = ''ew'', en_name = ''E'', en_normalized_name = ''e'', en_credit_code = Some ''C'',
        en_created_by = ''a'' \<rparr>], enterprise_members = [], audits = [], outbox = [],
     wallets = [(empty_wallet ''w'')\<lparr>wa_balance_cents := 500\<rparr>],
     ledger = [\<lparr> wl_id = 1, wl_wallet_id = ''w'', wl_entry_type = ADMIN_ADJUSTMENT, wl_delta_cents = 500,
        wl_balance_after_cents = 500, wl_business_key = ''admin-adjustment:k'', wl_reference_type = ''ADMIN_ADJUSTMENT'',
        wl_reference_id = None, wl_actor_account_id = None, wl_reason = Some ''r'' \<rparr>], next_ledger = 2,
     orders = [], inbox = [], reversals = [],
     applications = [\<lparr> ap_id = ''app'', ap_active = True \<rparr>],
     price_versions = [\<lparr> pv_id = ''p'', pv_application_id = ''app'', pv_annual_price = 100, pv_effective_from = 0 \<rparr>],
     role_policies = [\<lparr> rp_application_id = ''app'', rp_role = ACCOUNTANT, rp_can_create_shop = True, rp_effective_from = 0 \<rparr>],
     shops = [], shop_terms = [], shop_charges = [], name_history = [], shop_memberships = [], idempotency_records = [] \<rparr>"

definition sample_create :: CreateShop where
  "sample_create = \<lparr> cs_enterpriseId = ''ew'', cs_applicationId = ''app'', cs_name = ''Shop'', cs_startDate = ''2025-06-01'',
     cs_requestedCloseDate = Some ''2027-01-01'', cs_idempotencyKey = ''k'', cs_requestId = ''r'' \<rparr>"

lemma sample_shops_inv: "pay_inv sample_shops" "shop_inv sample_shops"
  subgoal
  by (simp add: pay_inv_def wallet_inv_def sample_shops_def empty_wallet_def wallet_row_ok_def int64_def posted_def
      status_check_def running_def settled_posted_def settled_statuses_def core_inv_def paid_key_def reversal_key_def)
  subgoal
  by (simp add: shop_inv_def sample_shops_def rows_ok_def bills_ok_def names_ok_def books_ok_def spent_def charged_to_def shop_key_def)
  done

lemma billed_years_Inr:
  assumes "valid_date p" and "valid_date q" and "year p \<le> 9899" and "date_less p q" and "1 \<le> k" and "k \<le> 100"
    and "\<not> date_less (years_later p k) q" and "k = 1 \<or> date_less (years_later p (k - 1)) q"
  shows "billedYears (formatPlainDate p) (formatPlainDate q) = Inr k"
proof -
  have "billed_years_loop (formatPlainDate p) (formatPlainDate q) 1 100 = Inr k"
    using billed_years_loop_Inr_iff [of p q 1 100 k] assms by auto
  then show ?thesis using assms(1,2,4) date_less_irrefl date_less_trans
    by (auto simp: billedYears_def comparePlainDate_format simp del: billed_years_loop.simps)
qed

lemmas print_date = formatPlainDate_def zero_padded_def int_str_def pad_start_def nat_str.simps digit_char_def
  char_of_def bit_0

lemma sample_dates:
  "''2025-06-01'' = formatPlainDate \<lparr> year = 2025, month = 6, day = 1 \<rparr>"
  "''2027-01-01'' = formatPlainDate \<lparr> year = 2027, month = 1, day = 1 \<rparr>"
  "''2028-05-31'' = formatPlainDate \<lparr> year = 2028, month = 5, day = 31 \<rparr>"
  by (simp_all add: print_date)

lemma sample_valid:
  "valid_date \<lparr> year = 2025, month = 6, day = 1 \<rparr>" "valid_date \<lparr> year = 2027, month = 1, day = 1 \<rparr>"
  "valid_date \<lparr> year = 2028, month = 5, day = 31 \<rparr>"
  by (simp_all add: valid_date_def valid_ymd_def month_length_def)

lemma sample_billed:
  "billedYears ''2025-06-01'' ''2027-01-01'' = Inr 2" "billedYears ''2025-06-01'' ''2028-05-31'' = Inr 3"
  "comparePlainDate ''2028-05-31'' ''2027-01-01'' = Inr 1"
  unfolding sample_dates
  by (rule billed_years_Inr [OF sample_valid(1,2)], simp_all add: date_less_def years_later_def Let_def month_length_def)
    (rule billed_years_Inr [OF sample_valid(1,3)],
     simp_all add: comparePlainDate_format sample_valid date_less_def years_later_def Let_def month_length_def)

lemma sample_previous: "\<exists>d. previousDate ''2027-01-01'' = Inr d" "\<exists>d. previousDate ''2028-05-31'' = Inr d"
  unfolding sample_dates using previousDate_format [OF sample_valid(2)] previousDate_format [OF sample_valid(3)] by simp_all

lemma sample_created:
  "\<exists>v db'. create sample_unicode sample_clock sample_actor ''s'' ''t'' sample_create sample_shops = Inr (v, db')
     \<and> balance_of ''w'' db' = 300"
proof -
  obtain d where d: "previousDate ''2027-01-01'' = Inr d" using sample_previous by blast
  show ?thesis
    by (simp add: create_def create_new_def Let_def sample_create_def requireAllowed_def authorizePlatform_def sample_actor_def
      normalizeShopName_def sample_unicode_def trim_def trim_left_def is_space_def sample_billed prior_charge_def
      wallet_of_enterprise_def present_def creation_price_def application_active_def sample_shops_def empty_wallet_def
      sample_clock_def funds_available_def lockWallet_def snapshot_def insert_shop_def shop_checks_def shop_state_check_def btrim_def
      name_taken_def charge_entry_def append_first key_posted_def int64_def reason_ok_def post_db_def entry_row_def booked_def
      insert_term_def insert_charge_def charge_check_def new_charge_def view_def d accessOf_def balance_of_def)
qed

section \<open>Creating and renewing\<close>

lemma shop_inv_after: "keeps db db' \<Longrightarrow> pay_inv db \<Longrightarrow> shop_inv db \<Longrightarrow> pay_inv db' \<and> shop_inv db'"
  by (simp add: keeps_def)

lemma charged_to_new: "\<forall>c \<in> set cs. sc_shop_id c \<noteq> sid \<Longrightarrow> charged_to sid cs = 0"
  by (auto simp: charged_to_def filter_empty_conv)

lemma took_balance:
  assumes "books_ok (ledger db) (shop_charges db)" and "shop_key k"
    and "took (\<not> isAdmin \<and> 0 < m) (charge_entry w k m sid aid) lid db db1"
    and "billable t (new_charge isAdmin wr sid tid pid m lid key aid) db1"
  shows "balance_of a db1 = balance_of a db - (if a = w \<and> \<not> isAdmin then m else 0)"
  using took_books(2,3) [OF assms] post_db_balance [of "charge_entry w k m sid aid" db _ a]
  by (cases "\<not> isAdmin \<and> 0 < m") auto

lemma create_first:
  assumes "create u clk actor shopId termId input db = Inr (v, db')"
    and "prior_charge (actor_accountId actor) (cs_idempotencyKey input) db = None"
  obtains names closeDate years where
      "allowed (authorizePlatform actor SHOP_CREATE)"
      "ADMIN \<in> roles actor \<or> (\<exists>ids. enterpriseIds actor = Some ids \<and> cs_enterpriseId input \<in> ids)"
      "normalizeShopName u (cs_name input) = Inr names"
      "(case cs_requestedCloseDate input of Some d \<Rightarrow> Inr d | None \<Rightarrow> anniversary (cs_startDate input) 1) = Inr closeDate"
      "billedYears (cs_startDate input) closeDate = Inr years"
      "create_new clk actor shopId termId input names closeDate years db = Inr (v, db')"
  using assms(1)
proof (cases rule: create_cases)
  case (again prior)
  then show thesis using assms(2) by simp
qed (rule that)

text \<open>
  The years a term is billed for: the least number of years, from one to a hundred, whose anniversary of the
  start is not before the closing date.
\<close>

definition least_years :: "plain_date \<Rightarrow> plain_date \<Rightarrow> int \<Rightarrow> bool" where
  "least_years p q k \<longleftrightarrow> date_less p q \<and> 1 \<le> k \<and> k \<le> 100 \<and> \<not> date_less (years_later p k) q
     \<and> (\<forall>i. 1 \<le> i \<and> i < k \<longrightarrow> date_less (years_later p i) q)"

text \<open>A year of five digits is printed, but never read back.\<close>

lemma late_date_unread:
  assumes "10000 \<le> year r"
  shows "isl (parsePlainDate (formatPlainDate r))"
proof -
  have big: "nat (year r) < 10 ^ length (nat_str (nat (year r)))"
    using digits_value_less [of "nat_str (nat (year r))"] nat_str_digits by (simp add: list_all_iff)
  have "4 < length (nat_str (nat (year r)))"
  proof (rule ccontr)
    assume "\<not> 4 < length (nat_str (nat (year r)))"
    then have "(10 :: nat) ^ length (nat_str (nat (year r))) \<le> 10 ^ 4" by (intro power_increasing) simp_all
    then have "nat (year r) < 10 ^ 4" using big by (rule order.strict_trans2 [rotated])
    then show False using assms by simp
  qed
  then have "10 < length (formatPlainDate r)" using assms
    by (simp add: formatPlainDate_def zero_padded_def int_str_def)
  then show ?thesis by (simp add: parsePlainDate_def date_match_def Let_def)
qed

lemma billed_years_loop_least:
  assumes "valid_date p" and "valid_date q"
  shows "1 \<le> i \<Longrightarrow> i + int n \<le> 10000 \<Longrightarrow> billed_years_loop (formatPlainDate p) (formatPlainDate q) i n = Inr k \<Longrightarrow>
    i \<le> k \<and> k < i + int n \<and> \<not> date_less (years_later p k) q \<and> (\<forall>j. i \<le> j \<and> j < k \<longrightarrow> date_less (years_later p j) q)"
proof (induction n arbitrary: i)
  case (Suc n)
  show ?case
  proof (cases "year p + i \<le> 9999")
    case True
    note step = billed_years_step [OF assms Suc.prems(1) True, of n]
    show ?thesis
    proof (cases "date_less (years_later p i) q")
      case True
      then have "billed_years_loop (formatPlainDate p) (formatPlainDate q) (i + 1) n = Inr k" using Suc.prems(3) step by simp
      with Suc.IH [of "i + 1"] Suc.prems(1,2) have rest: "i + 1 \<le> k" "k < i + 1 + int n" "\<not> date_less (years_later p k) q"
        "\<forall>j. i + 1 \<le> j \<and> j < k \<longrightarrow> date_less (years_later p j) q" by auto
      then have "i \<le> j \<and> j < k \<longrightarrow> date_less (years_later p j) q" for j using True by (cases "j = i") auto
      with rest show ?thesis by auto
    qed (use Suc.prems(3) step in auto)
  next
    case False
    have "anniversary (formatPlainDate p) i = Inr (formatPlainDate (years_later p i))"
      using assms(1) Suc.prems(1,2) by (intro anniversary_format) auto
    moreover have "isl (parsePlainDate (formatPlainDate (years_later p i)))"
      using False by (intro late_date_unread) (simp add: years_later_def Let_def)
    then have "isl (comparePlainDate (formatPlainDate q) (formatPlainDate (years_later p i)))"
      by (auto simp: comparePlainDate_def bindE_def isl_def split: sum.splits)
    ultimately have False using Suc.prems(3) by (auto simp: bindE_Inr_iff isl_def)
    then show ?thesis ..
  qed
qed simp

lemma billedYears_least:
  assumes "billedYears start close = Inr k"
  obtains p q where "valid_date p" "valid_date q" "start = formatPlainDate p" "close = formatPlainDate q" "least_years p q k"
proof -
  obtain c where c: "comparePlainDate close start = Inr c" "0 < c" and loop: "billed_years_loop start close 1 100 = Inr k"
    using assms by (auto simp: billedYears_def bindE_Inr_iff simp del: billed_years_loop.simps split: if_split_asm)
  obtain p q where p: "valid_date p" "start = formatPlainDate p" and q: "valid_date q" "close = formatPlainDate q"
    using c(1) by (auto simp: comparePlainDate_def bindE_Inr_iff parsePlainDate_Inr_iff)
  have "date_less p q" using c comparePlainDate_format [OF q(1) p(1)] p(2) q(2) by (auto split: if_split_asm)
  moreover note billed_years_loop_least [OF p(1) q(1), of 1 100 k]
  ultimately show thesis using loop p q by (intro that [of p q]) (simp_all add: least_years_def del: billed_years_loop.simps)
qed

lemma first_anniversary:
  assumes "valid_date p" and "valid_date q" and "anniversary (formatPlainDate p) 1 = Inr (formatPlainDate q)"
  shows "q = years_later p 1"
proof -
  have f: "formatPlainDate q = formatPlainDate (years_later p 1)" using assms(1,3) by (simp add: anniversary_format)
  have "year p + 1 \<le> 9999"
  proof (rule ccontr)
    assume "\<not> year p + 1 \<le> 9999"
    then have "isl (parsePlainDate (formatPlainDate q))" unfolding f
      by (intro late_date_unread) (simp add: years_later_def Let_def)
    then show False using assms(2) parsePlainDate_Inr_iff [of "formatPlainDate q" q] by simp
  qed
  then have "valid_date (years_later p 1)" using valid_years_later [OF assms(1)] by simp
  then show ?thesis using assms(2) f parsePlainDate_Inr_iff by (metis sum.inject(2))
qed

lemma unused_shop_uncharged:
  assumes "shop_inv db" and "insert_shop (new_shop clk aid shopId input names closeDate) db = Inr db1"
  shows "\<forall>c \<in> set (shop_charges db). sc_shop_id c \<noteq> shopId"
proof
  fix c assume "c \<in> set (shop_charges db)"
  then obtain t where "t \<in> set (shop_terms db)" "st_shop_id t = sc_shop_id c" "st_shop_id t \<in> set (map sh_id (shops db))"
    using assms(1) unfolding shop_inv_def bills_ok_def by blast
  then show "sc_shop_id c \<noteq> shopId" using assms(2) by (auto simp: insert_shop_Inr_iff new_shop_def)
qed

text \<open>The first charge under a business key: one entry of the ledger, which the charge names, or none when nothing is taken.\<close>

lemma took_one_entry:
  assumes books: "books_ok (ledger db) (shop_charges db)" and k: "shop_key k"
    and took: "took (\<not> isAdmin \<and> 0 < m) (charge_entry w k m sid aid) lid db db1"
    and bill: "billable t (new_charge isAdmin wr sid tid pid m lid key aid) db1"
  shows "if \<not> isAdmin \<and> 0 < m
    then \<exists>l. ledger db1 = ledger db @ [l] \<and> wl_wallet_id l = w \<and> wl_entry_type l = SHOP_CHARGE \<and> wl_delta_cents l = - m
      \<and> wl_business_key l = k \<and> wl_reference_id l = Some sid \<and> lid = Some (nat_str (wl_id l))
    else ledger db1 = ledger db \<and> lid = None"
proof (cases "\<not> isAdmin \<and> 0 < m")
  case True
  then obtain a where ap: "appendWalletEntry (charge_entry w k m sid aid) db = Inr (a, db1)" "lid = Some (ledgerId a)"
    using took by (auto simp: took_def)
  obtain r where new: "\<not> key_posted w k db" "first_row (\<lambda>x. wa_id x = w) (wallets db) = Some r"
    and db1: "db1 = post_db (charge_entry w k m sid aid) r db" using took_books(2) [OF assms] True by blast
  have "ledgerId a = nat_str (next_ledger db)"
    using append_first [of "charge_entry w k m sid aid" db r] new True ap(1) by (auto simp: charge_entry_def split: if_split_asm)
  then show ?thesis using True ap(2) by (simp add: db1 post_db_def entry_row_def charge_entry_def)
qed (use took in \<open>auto simp: took_def\<close>)

text \<open>
  C8: creating a shop costs the price in force times the least number of years that covers its term, from its start to
  the closing date asked for, or to the first anniversary when none is, exactly once, from the wallet of the shop's
  enterprise; an administrator pays nothing. No other wallet moves and the price is there before it is taken. One shop,
  one term of those years and one charge appear, and one entry of the ledger, which the charge names, when there is
  something to pay. (The request is the first under its key: a repetition is inert, \<open>create_replay_inert\<close>.)
\<close>

theorem create_costs_price_times_years:
  fixes db :: "'z shop_db_scheme"
  assumes inv: "shop_inv db" and create: "create u clk actor shopId termId input db = Inr (v, db')"
    and first: "prior_charge (actor_accountId actor) (cs_idempotencyKey input) db = None"
  shows "\<exists>w code price p q years cost t c.
      wallet_of_enterprise (cs_enterpriseId input) db = Some (w, code) \<and>
      creation_price actor clk (cs_applicationId input) db = Some price \<and>
      valid_date p \<and> valid_date q \<and> cs_startDate input = formatPlainDate p \<and>
      (cs_requestedCloseDate input = Some (formatPlainDate q) \<or> cs_requestedCloseDate input = None \<and> q = years_later p 1) \<and>
      least_years p q years \<and>
      cost = (if ADMIN \<in> roles actor then 0 else pv_annual_price price * years) \<and> 0 \<le> cost \<and>
      (0 < cost \<longrightarrow> funds_available (wa_id w) cost db = Inr ()) \<and>
      (\<forall>a. balance_of a db' = balance_of a db - (if a = wa_id w then cost else 0)) \<and>
      shop_terms db' = shop_terms db @ [t] \<and> st_id t = termId \<and> st_shop_id t = shopId \<and> st_charged_years t = years \<and>
      st_start_date t = formatPlainDate p \<and> st_close_date t = formatPlainDate q \<and>
      shop_charges db' = shop_charges db @ [c] \<and> sc_shop_id c = shopId \<and> sc_term_id c = termId \<and>
      sc_original c = pv_annual_price price * years \<and> sc_charged c = cost \<and>
      (if 0 < cost then \<exists>l. ledger db' = ledger db @ [l] \<and> wl_wallet_id l = wa_id w \<and> wl_delta_cents l = - cost
           \<and> sc_ledger_id c = Some (nat_str (wl_id l))
       else ledger db' = ledger db \<and> sc_ledger_id c = None) \<and>
      charged_to shopId (shop_charges db') = cost \<and>
      map sh_id (shops db') = map sh_id (shops db) @ [shopId]"
proof -
  let ?admin = "ADMIN \<in> roles actor"
  obtain names closeDate years where
      close: "(case cs_requestedCloseDate input of Some d \<Rightarrow> Inr d | None \<Rightarrow> anniversary (cs_startDate input) 1) = Inr closeDate"
    and years: "billedYears (cs_startDate input) closeDate = Inr years"
    and new: "create_new clk actor shopId termId input names closeDate years db = Inr (v, db')"
    by (rule create_first [OF create first]) (rule that; assumption)
  obtain p q where p: "valid_date p" "cs_startDate input = formatPlainDate p" and q: "valid_date q" "closeDate = formatPlainDate q"
    and least: "least_years p q years" using billedYears_least [OF years] by metis
  let ?s = "new_shop clk (actor_accountId actor) shopId input names closeDate"
  let ?db1 = "db\<lparr>shops := shops db @ [?s]\<rparr>"
  obtain w code price lid db2 r where
      w: "wallet_of_enterprise (cs_enterpriseId input) db = Some (w, code)"
    and price: "creation_price actor clk (cs_applicationId input) db = Some price"
    and funds: "\<not> ?admin \<and> 0 < pv_annual_price price * years \<longrightarrow>
       funds_available (wa_id w) (pv_annual_price price * years) db = Inr ()"
    and ins: "insert_shop ?s db = Inr ?db1"
    and took: "took (\<not> ?admin \<and> 0 < pv_annual_price price * years)
       (charge_entry (wa_id w) (''shop-create:'' @ cs_idempotencyKey input) (pv_annual_price price * years) shopId
          (actor_accountId actor)) lid ?db1 db2"
    and bill: "billable (new_term termId shopId (cs_startDate input) closeDate years (pv_id price) None)
         (new_charge ?admin None shopId termId (pv_id price) (pv_annual_price price * years) lid
            (cs_idempotencyKey input) (actor_accountId actor)) db2"
    and db': "db' = audit r (billed (new_term termId shopId (cs_startDate input) closeDate years (pv_id price) None)
         (new_charge ?admin None shopId termId (pv_id price) (pv_annual_price price * years) lid
            (cs_idempotencyKey input) (actor_accountId actor)) db2)"
    by (rule create_new_writes [OF new]) (rule that; assumption)
  define cost where "cost = (if ?admin then 0 else pv_annual_price price * years)"
  let ?t = "new_term termId shopId (cs_startDate input) closeDate years (pv_id price) None"
  let ?c = "new_charge ?admin None shopId termId (pv_id price) (pv_annual_price price * years) lid (cs_idempotencyKey input) (actor_accountId actor)"
  have books: "books_ok (ledger ?db1) (shop_charges ?db1)" using inv by (simp add: shop_inv_def)
  note bal = took_balance [OF books shop_keys(1) took bill] and nn = took_books(3) [OF books shop_keys(1) took bill]
    and entry = took_one_entry [OF books shop_keys(1) took bill] and tables = took_shop_tables [OF took]
  have "balance_of a db' = balance_of a db - (if a = wa_id w then cost else 0)" for a
    using bal [of a] by (simp add: db' billed_def balance_of_def cost_def)
  moreover have "shop_terms db' = shop_terms db @ [?t]" "shop_charges db' = shop_charges db @ [?c]"
    using tables by (simp_all add: db' billed_def)
  moreover have "st_id ?t = termId" "st_shop_id ?t = shopId" "st_charged_years ?t = years" "st_start_date ?t = formatPlainDate p"
      "st_close_date ?t = formatPlainDate q" "sc_shop_id ?c = shopId" "sc_term_id ?c = termId"
      "sc_original ?c = pv_annual_price price * years" "sc_charged ?c = cost"
    using p q by (simp_all add: new_term_def new_charge_def cost_def)
  moreover have "if 0 < cost then \<exists>l. ledger db' = ledger db @ [l] \<and> wl_wallet_id l = wa_id w \<and> wl_delta_cents l = - cost
           \<and> sc_ledger_id ?c = Some (nat_str (wl_id l))
       else ledger db' = ledger db \<and> sc_ledger_id ?c = None"
    using entry by (auto simp: db' billed_def cost_def new_charge_def split: if_splits)
  moreover have "charged_to shopId (shop_charges db') = cost"
    using charged_to_new [OF unused_shop_uncharged [OF inv ins]] tables by (simp add: db' billed_def charged_to_append cost_def)
  moreover have "map sh_id (shops db') = map sh_id (shops db) @ [shopId]"
    using tables by (simp add: db' billed_def new_shop_def)
  moreover have "0 \<le> cost" "0 < cost \<longrightarrow> funds_available (wa_id w) cost db = Inr ()"
    using nn funds by (simp_all add: cost_def)
  moreover have "cs_requestedCloseDate input = Some (formatPlainDate q) \<or> cs_requestedCloseDate input = None \<and> q = years_later p 1"
    using close q first_anniversary [OF p(1) q(1)] by (simp add: p(2) split: option.splits)
  ultimately show ?thesis using w price p q least cost_def by blast
qed

theorem create_costs_price_times_years_witness:
  "\<exists>(v :: ShopView) (db' :: shop_db) (w :: wallet_row) cost c.
     create sample_unicode sample_clock sample_actor ''s'' ''t'' sample_create sample_shops = Inr (v, db') \<and> balance_of ''w'' db' = 300 \<and>
     (\<forall>a. balance_of a db' = balance_of a sample_shops - (if a = wa_id w then cost else 0)) \<and>
     shop_charges db' = [c] \<and> sc_charged c = cost \<and> charged_to ''s'' (shop_charges db') = cost"
proof -
  obtain v db' where c: "create sample_unicode sample_clock sample_actor ''s'' ''t'' sample_create sample_shops = Inr (v, db')"
    and b: "balance_of ''w'' db' = 300" using sample_created by blast
  have "prior_charge (actor_accountId sample_actor) (cs_idempotencyKey sample_create) sample_shops = None"
    by (simp add: prior_charge_def sample_shops_def)
  from create_costs_price_times_years [OF sample_shops_inv(2) c this]
  obtain w :: wallet_row and cost :: int and charge where
      "\<forall>a. balance_of a db' = balance_of a sample_shops - (if a = wa_id w then cost else 0)"
      "shop_charges db' = shop_charges sample_shops @ [charge]" "sc_charged charge = cost"
      "charged_to ''s'' (shop_charges db') = cost"
    by (elim exE conjE) (rule that)
  moreover have "shop_charges sample_shops = []" by (simp add: sample_shops_def)
  ultimately show ?thesis using b c by (metis append_Nil)
qed

text \<open>
  a repeated creation does nothing, whatever happened in between. After a shop was created,
  and then any number of other transactions (also renaming, renewing or trashing that very shop),
  the same request under the same key changes nothing and answers with the shop as it is now.
\<close>

theorem create_replay_inert:
  fixes db :: "'z shop_db_scheme"
  assumes inv: "shop_inv db" and create: "create u clk actor shopId termId input db = Inr (v, db1)"
    and first: "prior_charge (actor_accountId actor) (cs_idempotencyKey input) db = None"
    and later: "shop_step\<^sup>*\<^sup>* db1 db2"
  shows "\<exists>s \<in> set (shops db2). sh_id s = shopId \<and>
    create u clk' actor shopId' termId' input db2 =
      bindE (view None None s (accessOf actor)) (\<lambda>v'. Inr (v', db2))"
proof -
  let ?admin = "ADMIN \<in> roles actor" and ?aid = "actor_accountId actor"
  obtain names closeDate years where
      platform: "allowed (authorizePlatform actor SHOP_CREATE)"
    and member: "?admin \<or> (\<exists>ids. enterpriseIds actor = Some ids \<and> cs_enterpriseId input \<in> ids)"
    and names: "normalizeShopName u (cs_name input) = Inr names"
    and close: "(case cs_requestedCloseDate input of Some d \<Rightarrow> Inr d | None \<Rightarrow> anniversary (cs_startDate input) 1) = Inr closeDate"
    and years: "billedYears (cs_startDate input) closeDate = Inr years"
    and new: "create_new clk actor shopId termId input names closeDate years db = Inr (v, db1)"
    by (rule create_first [OF create first]) (rule that; assumption)
  let ?s = "new_shop clk ?aid shopId input names closeDate"
  let ?dbs = "db\<lparr>shops := shops db @ [?s]\<rparr>"
  obtain w :: wallet_row and price :: price_row and lid dbw r where
      ins: "insert_shop ?s db = Inr ?dbs"
    and took: "took (\<not> ?admin \<and> 0 < pv_annual_price price * years)
       (charge_entry (wa_id w) (''shop-create:'' @ cs_idempotencyKey input) (pv_annual_price price * years) shopId ?aid)
       lid ?dbs dbw"
    and db1: "db1 = audit r (billed (new_term termId shopId (cs_startDate input) closeDate years (pv_id price) None)
         (new_charge ?admin None shopId termId (pv_id price) (pv_annual_price price * years) lid
            (cs_idempotencyKey input) ?aid) dbw)"
    by (rule create_new_writes [OF new]) (rule that; assumption)
  define t where "t = new_term termId shopId (cs_startDate input) closeDate years (pv_id price) None"
  define c where "c = new_charge ?admin None shopId termId (pv_id price) (pv_annual_price price * years) lid
            (cs_idempotencyKey input) ?aid"
  note tables = took_shop_tables [OF took]
  have in1: "?s \<in> set (shops db1)" "t \<in> set (shop_terms db1)" "c \<in> set (shop_charges db1)"
    using tables by (simp_all add: db1 billed_def t_def c_def)
  have inv1: "shop_inv db1" using create_keeps [OF create] inv by (simp add: keeps_def)
  have inv2: "shop_inv db2" and evo: "evolves db1 db2"
    using shop_steps_keep [OF later] inv1 by (simp_all add: keeps_def)
  have "sh_id x \<in> sh_id ` set (shops db) \<Longrightarrow> sh_id x \<noteq> shopId" for x :: shop_row
    using ins by (auto simp: insert_shop_Inr_iff new_shop_def)
  then have "\<forall>h \<in> set (name_history db). nh_shop_id h \<noteq> shopId"
    using inv unfolding shop_inv_def names_ok_def name_facts_def by fastforce
  then have "first_row (\<lambda>h. nh_shop_id h = sh_id ?s) (name_history db1) = None"
    using tables by (simp add: db1 billed_def first_row_None_iff new_shop_def)
  then have orig1: "original_name ?s db1 = fst names" by (simp add: original_name_def new_shop_def)
  obtain s2 where s2: "s2 \<in> set (shops db2)" "shop_next ?s s2" "original_name s2 db2 = fst names"
    using evo in1(1) orig1 unfolding evolves_def by metis
  have c2: "c \<in> set (shop_charges db2)" and t2: "t \<in> set (shop_terms db2)"
    using evo in1 unfolding evolves_def by auto
  have "first_row (\<lambda>x. (sc_created_by x, sc_idempotency_key x) = (sc_created_by c, sc_idempotency_key c)) (shop_charges db2) = Some c"
    using first_row_unique [OF _ c2, of "\<lambda>x. (sc_created_by x, sc_idempotency_key x)"] inv2
    by (simp add: shop_inv_def bills_ok_def)
  then have rc: "first_row (\<lambda>x. sc_created_by x = ?aid \<and> sc_idempotency_key x = cs_idempotencyKey input) (shop_charges db2) = Some c"
    by (simp add: c_def)
  have rt: "first_row (\<lambda>x. st_id x = sc_term_id c) (shop_terms db2) = Some t"
    using first_row_unique [OF _ t2, of st_id] inv2 by (simp add: shop_inv_def bills_ok_def t_def c_def)
  have rs: "first_row (\<lambda>x. sh_id x = sc_shop_id c) (shops db2) = Some s2"
    using first_row_unique [OF _ s2(1), of sh_id] inv2 s2(2)
    by (simp add: shop_inv_def rows_ok_def c_def shop_next_def new_shop_def)
  have prior: "prior_charge ?aid (cs_idempotencyKey input) db2 =
      Some \<lparr> ic_shop = s2, ic_term = t, ic_charge = c, ic_original_name = fst names \<rparr>"
    by (simp add: prior_charge_def rc rt rs s2(3))
  have "create u clk' actor shopId' termId' input db2 = bindE (view None None s2 (accessOf actor)) (\<lambda>v'. Inr (v', db2))"
    using platform member s2(2) prior
    by (simp add: create_def Let_def requireAllowed_def names close years shop_next_def new_shop_def t_def c_def
        sameChargeWaiver_def authorizePlatform_def split: if_split_asm option.splits)
  then show ?thesis using s2 by (intro bexI [of _ s2]) (simp_all add: shop_next_def new_shop_def)
qed

theorem create_replay_inert_witness:
  "\<exists>db1 :: shop_db. \<exists>s \<in> set (shops (refreshExpiredShops sample_clock db1)). sh_id s = ''s'' \<and>
    create sample_unicode sample_clock sample_actor ''x'' ''y'' sample_create (refreshExpiredShops sample_clock db1) =
      bindE (view None None s (accessOf sample_actor)) (\<lambda>v'. Inr (v', refreshExpiredShops sample_clock db1))"
proof -
  obtain v db1 where c: "create sample_unicode sample_clock sample_actor ''s'' ''t'' sample_create sample_shops = Inr (v, db1)"
    using sample_created by blast
  have p: "prior_charge (actor_accountId sample_actor) (cs_idempotencyKey sample_create) sample_shops = None"
    by (simp add: prior_charge_def sample_shops_def)
  have "shop_step\<^sup>*\<^sup>* db1 (refreshExpiredShops sample_clock db1)" by (rule r_into_rtranclp) (rule refreshes)
  from create_replay_inert [OF sample_shops_inv(2) c p this] show ?thesis by blast
qed

text \<open>
  renewing costs the price in force times the years that are added, from the wallet of the
  shop's enterprise, with the same guards; an administrator pays nothing and must give a reason.
  The shop becomes active with the later close date and its charges grow by exactly the cost.
\<close>

theorem renew_costs_added_years:
  fixes db :: "'z shop_db_scheme"
  assumes inv: "shop_inv db" and renew: "renew clk actor termId input db = Inr (v, db')"
    and first: "prior_charge (actor_accountId actor) (rn_idempotencyKey input) db = None"
  shows "\<exists>shop totalYears addedYears price cost (w :: wallet_row).
      renewable clk actor input shop totalYears addedYears price db \<and>
      cost = (if ADMIN \<in> roles actor then 0 else pv_annual_price price * addedYears) \<and> 0 \<le> cost \<and>
      (0 < cost \<longrightarrow> first_row (\<lambda>x. wa_enterprise_id x = Some (sh_enterprise_id shop)) (wallets db) = Some w \<and>
         funds_available (wa_id w) cost db = Inr ()) \<and>
      (\<forall>a. balance_of a db' = balance_of a db - (if a = wa_id w then cost else 0)) \<and>
      charged_to (rn_shopId input) (shop_charges db') = charged_to (rn_shopId input) (shop_charges db) + cost \<and>
      first_row (\<lambda>s. sh_id s = rn_shopId input) (shops db') =
        Some (renewed (rn_requestedCloseDate input) (actor_accountId actor) shop) \<and>
      (ADMIN \<in> roles actor \<longrightarrow> renew_waiver actor input \<notin> {None, Some []})"
proof -
  let ?admin = "ADMIN \<in> roles actor" and ?f = "renewed (rn_requestedCloseDate input) (actor_accountId actor)"
  have new: "renew_new clk actor termId input db = Inr (v, db')"
    and reason: "?admin \<longrightarrow> (\<exists>r. renew_waiver actor input = Some r \<and> r \<noteq> [])"
  proof -
    have "renew_new clk actor termId input db = Inr (v, db') \<and>
        (?admin \<longrightarrow> (\<exists>r. renew_waiver actor input = Some r \<and> r \<noteq> []))"
      using renew
    proof (cases rule: renew_cases)
      case (again prior)
      then show ?thesis using first by simp
    next
      case new
      then show ?thesis by blast
    qed
    then show "renew_new clk actor termId input db = Inr (v, db')"
      "?admin \<longrightarrow> (\<exists>r. renew_waiver actor input = Some r \<and> r \<noteq> [])" by simp_all
  qed
  obtain shop totalYears addedYears price m and w :: wallet_row and lid db1 r t c where
      ok: "renewable clk actor input shop totalYears addedYears price db"
    and m: "m = pv_annual_price price * addedYears"
    and funds: "\<not> ?admin \<and> 0 < m \<longrightarrow>
       first_row (\<lambda>w. wa_enterprise_id w = Some (sh_enterprise_id shop)) (wallets db) = Some w \<and>
       funds_available (wa_id w) m db = Inr ()"
    and took: "took (\<not> ?admin \<and> 0 < m)
       (charge_entry (wa_id w) (''shop-renew:'' @ rn_idempotencyKey input) m (sh_id shop) (actor_accountId actor)) lid db db1"
    and c: "c = new_charge ?admin (renew_waiver actor input) (sh_id shop) termId (pv_id price)
           m lid (rn_idempotencyKey input) (actor_accountId actor)"
    and bill: "billable t c db1"
    and db': "db' = audit r ((billed t c db1)\<lparr>shops := update_rows (\<lambda>x. sh_id x = sh_id shop) ?f (shops db)\<rparr>)"
    by (rule renew_new_writes [OF new]) (rule that; assumption)
  define cost where "cost = (if ?admin then 0 else m)"
  have books: "books_ok (ledger db) (shop_charges db)" using inv by (simp add: shop_inv_def)
  note bal = took_balance [OF books shop_keys(2) took bill [unfolded c]]
    and nn = took_books(3) [OF books shop_keys(2) took bill [unfolded c]]
  note tables = took_shop_tables [OF took]
  have row: "first_row (\<lambda>s. sh_id s = rn_shopId input) (shops db) = Some shop" using ok by (simp add: renewable_def)
  have id: "sh_id shop = rn_shopId input" using first_row_SomeD [OF row] by simp
  have "balance_of a db' = balance_of a db - (if a = wa_id w then cost else 0)" for a
    using bal [of a] by (simp add: db' billed_def balance_of_def cost_def)
  moreover have "charged_to (rn_shopId input) (shop_charges db') = charged_to (rn_shopId input) (shop_charges db) + cost"
    using tables by (simp add: db' billed_def charged_to_append cost_def c id)
  moreover have "first_row (\<lambda>s. sh_id s = rn_shopId input) (shops db') = Some (?f shop)"
    using row by (simp add: db' id first_row_update_rows renewed_def)
  moreover have "0 \<le> cost" using nn by (simp add: cost_def)
  moreover have "0 < cost \<longrightarrow> first_row (\<lambda>x. wa_enterprise_id x = Some (sh_enterprise_id shop)) (wallets db) = Some w \<and>
       funds_available (wa_id w) cost db = Inr ()"
    using funds by (simp add: cost_def)
  moreover have "?admin \<longrightarrow> renew_waiver actor input \<notin> {None, Some []}" using reason by auto
  moreover have "cost = (if ?admin then 0 else pv_annual_price price * addedYears)" by (simp add: cost_def m)
  ultimately show ?thesis using ok by blast
qed

definition sample_renew :: RenewShop where
  "sample_renew = \<lparr> rn_shopId = ''s'', rn_requestedCloseDate = ''2028-05-31'', rn_idempotencyKey = ''n'',
     rn_waiverReason = None, rn_requestId = ''r'' \<rparr>"

definition sample_shop :: shop_row where
  "sample_shop = \<lparr> sh_id = ''s'', sh_application_id = ''app'', sh_owner_account_id = ''b'', sh_enterprise_id = ''ew'',
     sh_created_by = ''b'', sh_last_operated_by = ''b'', sh_name = ''Shop'', sh_normalized_name = ''shop'',
     sh_status = ACTIVE, sh_start_date = ''2025-06-01'', sh_close_date = ''2027-01-01'', sh_rename_count = 0,
     sh_trashed_at = None, sh_purge_after = None, sh_purged_at = None \<rparr>"

text \<open>A system with one shop, which an administrator had created.\<close>

definition sample_owned :: shop_db where
  "sample_owned = sample_shops\<lparr>shops := [sample_shop],
     shop_terms := [\<lparr> st_id = ''t'', st_shop_id = ''s'', st_start_date = ''2025-06-01'', st_close_date = ''2027-01-01'',
        st_charged_years = 2, st_price_version_id = ''p'', st_supersedes = None \<rparr>],
     shop_charges := [\<lparr> sc_shop_id = ''s'', sc_term_id = ''t'', sc_price_version_id = ''p'', sc_original = 200, sc_charged = 0,
        sc_waiver_type = Some ADMIN_FREE, sc_waiver_reason = None, sc_ledger_id = None,
        sc_idempotency_key = ''k'', sc_created_by = ''b'' \<rparr>]\<rparr>"

lemma sample_owned_inv: "pay_inv sample_owned" "shop_inv sample_owned"
proof -
  have "pay_tables sample_owned = pay_tables sample_shops" by (simp add: sample_owned_def pay_tables_def)
  then show "pay_inv sample_owned" using sample_shops_inv(1) pay_tables_inv by blast
  have "shops sample_owned = [sample_shop]" "name_history sample_owned = []" "ledger sample_owned = ledger sample_shops"
    by (simp_all add: sample_owned_def sample_shops_def)
  moreover have "spent sid (ledger sample_shops) = 0" for sid by (simp add: spent_def sample_shops_def)
  moreover have "\<forall>l \<in> set (ledger sample_shops). \<not> shop_key (wl_business_key l)"
    by (simp add: sample_shops_def shop_key_def)
  moreover have "rows_ok [sample_shop]" "trash_ok sample_shop"
    by (simp_all add: rows_ok_def sample_shop_def shop_checks_def shop_state_check_def btrim_def trash_ok_def)
  moreover have "names_ok (map name_facts [sample_shop]) []" by (simp add: names_ok_def name_facts_def sample_shop_def)
  moreover have "bills_ok (map sh_id [sample_shop]) (shop_terms sample_owned) (shop_charges sample_owned)"
    by (simp add: bills_ok_def sample_owned_def sample_shop_def charge_check_def)
  moreover have "charged_to sid (shop_charges sample_owned) = 0" for sid
    by (simp add: charged_to_def sample_owned_def)
  ultimately show "shop_inv sample_owned" by (simp add: shop_inv_def books_ok_def)
qed

lemma sample_renewed:
  "\<exists>v db'. renew sample_clock sample_actor ''t2'' sample_renew sample_owned = Inr (v, db') \<and> balance_of ''w'' db' = 400"
proof -
  obtain d where d: "previousDate ''2028-05-31'' = Inr d" using sample_previous by blast
  show ?thesis
    by (simp add: renew_def renew_new_def Let_def sample_renew_def sample_owned_def sample_shop_def authorizeShop_allowed_iff
      authorizeShop_eq may_act_def member_of_def shop_resource_def open_in_state_def expiredBlockedCapabilities_def last_term_def
      update_shop_def acting_scope_def requireAllowed_def authorizePlatform_def sample_actor_def
      normalizeShopName_def sample_unicode_def trim_def trim_left_def is_space_def sample_billed prior_charge_def
      wallet_of_enterprise_def present_def creation_price_def application_active_def sample_shops_def empty_wallet_def
      sample_clock_def funds_available_def lockWallet_def snapshot_def insert_shop_def shop_checks_def shop_state_check_def btrim_def
      name_taken_def charge_entry_def append_first key_posted_def int64_def reason_ok_def post_db_def entry_row_def booked_def
      insert_term_def insert_charge_def charge_check_def new_charge_def view_def d accessOf_def balance_of_def)
qed

theorem renew_costs_added_years_witness:
  "\<exists>db' :: shop_db. balance_of ''w'' db' = 400 \<and> charged_to ''s'' (shop_charges db') = 100"
proof -
  obtain v db' where r: "renew sample_clock sample_actor ''t2'' sample_renew sample_owned = Inr (v, db')"
    and b: "balance_of ''w'' db' = 400"
    using sample_renewed by blast
  have p: "prior_charge (actor_accountId sample_actor) (rn_idempotencyKey sample_renew) sample_owned = None"
    by (simp add: prior_charge_def sample_owned_def sample_actor_def)
  from renew_costs_added_years [OF sample_owned_inv(2) r p]
  obtain cost :: int and w :: wallet_row where
      bal: "\<forall>a. balance_of a db' = balance_of a sample_owned - (if a = wa_id w then cost else 0)"
    and c: "charged_to (rn_shopId sample_renew) (shop_charges db') = charged_to (rn_shopId sample_renew) (shop_charges sample_owned) + cost"
    by (elim exE conjE) (rule that)
  have "balance_of ''w'' sample_owned = 500" "charged_to ''s'' (shop_charges sample_owned) = 0"
    by (simp_all add: balance_of_def sample_owned_def sample_shops_def empty_wallet_def charged_to_def)
  then show ?thesis using bal [rule_format, of "''w''"] b c by (auto simp: sample_renew_def split: if_split_asm)
qed

section \<open>Any run of the system\<close>

text \<open>
  C9: shops, wallets and payments stay in agreement. After any run of creations, renewals,
  renames, trashings, restorations, purges, expiries, orders, callbacks and adjustments, what the
  ledgers say a shop has cost is what its charges say, live names are unique within an
  enterprise, every term and charge belongs to a shop, and each wallet's balance changes only by
  its orders, its shop charges and its adjustments.
\<close>

theorem shops_and_wallets_agree:
  assumes "pay_inv db" and "shop_inv db" and "shop_step\<^sup>*\<^sup>* db db'"
  shows "pay_inv db' \<and> shop_inv db' \<and>
    (\<forall>sid. spent sid (ledger db') = charged_to sid (shop_charges db')) \<and>
    (\<forall>a. other_money a db' - typed {SHOP_CHARGE, ADMIN_ADJUSTMENT} a (ledger db') =
         other_money a db - typed {SHOP_CHARGE, ADMIN_ADJUSTMENT} a (ledger db))"
proof -
  have "pay_inv db' \<and> shop_inv db'" "\<forall>a. remainder a db' = remainder a db"
    using shop_steps_keep [OF assms(3)] assms(1,2) by (simp_all add: keeps_def)
  then show ?thesis by (simp add: shop_inv_def books_ok_def remainder_def)
qed

theorem shops_and_wallets_agree_witness:
  "\<exists>(db' :: shop_db). balance_of ''w'' db' = 400 \<and> pay_inv db' \<and> shop_inv db' \<and>
     (\<forall>sid. spent sid (ledger db') = charged_to sid (shop_charges db'))"
proof -
  obtain v db' where r: "renew sample_clock sample_actor ''t2'' sample_renew sample_owned = Inr (v, db')"
    and b: "balance_of ''w'' db' = 400"
    using sample_renewed by blast
  from shops_and_wallets_agree [OF sample_owned_inv r_into_rtranclp [of shop_step, OF shop_step.renews [OF r]]] b
  show ?thesis by blast
qed

text \<open>
  C21: the life of a shop. Along any run a shop is never lost and keeps its key, application,
  owner, enterprise and start date; its close date never moves back; once purged it never changes
  again; and a shop that is in the trash or purged got there with thirty days to restore it, a
  purge coming only when they were over.
\<close>

theorem shop_life:
  assumes "shop_inv db" and "s \<in> set (shops db)" and "shop_step\<^sup>*\<^sup>* db db'"
  shows "\<exists>s'. first_row (\<lambda>x. sh_id x = sh_id s) (shops db') = Some s' \<and> shop_next s s' \<and> trash_ok s'"
proof -
  have inv: "shop_inv db'" and evo: "evolves db db'"
    using shop_steps_keep [OF assms(3)] assms(1) by (simp_all add: keeps_def)
  obtain s' where s': "s' \<in> set (shops db')" "shop_next s s'" using evo assms(2) unfolding evolves_def by blast
  have "first_row (\<lambda>x. sh_id x = sh_id s') (shops db') = Some s'"
    using first_row_unique [OF _ s'(1), of sh_id] inv by (simp add: shop_inv_def rows_ok_def)
  then show ?thesis using s' shop_inv_trash [OF inv s'(1)] by (auto simp: shop_next_def)
qed

theorem shop_life_witness:
  "\<exists>(db' :: shop_db) s'. balance_of ''w'' db' = 400 \<and>
     first_row (\<lambda>x. sh_id x = sh_id sample_shop) (shops db') = Some s' \<and> shop_next sample_shop s' \<and> trash_ok s'"
proof -
  obtain v db' where r: "renew sample_clock sample_actor ''t2'' sample_renew sample_owned = Inr (v, db')"
    and b: "balance_of ''w'' db' = 400"
    using sample_renewed by blast
  have "sample_shop \<in> set (shops sample_owned)" by (simp add: sample_owned_def)
  from shop_life [OF sample_owned_inv(2) this r_into_rtranclp [of shop_step, OF shop_step.renews [OF r]]] b
  show ?thesis by blast
qed

end
