(* ===== verification/Staff.thy ===== *)
theory Staff
  imports Enterprises ShopBook
begin

text \<open>
  What the operations on enterprises guarantee: credit codes and live numbers are unique, every
  enterprise has its wallet and at least one active member, a membership that was revoked comes back
  under a higher epoch, and only the allowed fields of an enterprise change.
\<close>

section \<open>The invariant\<close>

definition members_ok :: "enterprise_member_row list \<Rightarrow> bool" where
  "members_ok ms \<longleftrightarrow> distinct (map em_id ms) \<and> list_all member_checks ms \<and>
     indexed (\<lambda>m. em_status m \<noteq> MS_REVOKED) (\<lambda>m. (em_enterprise_id m, em_phone m)) em_id ms \<and>
     indexed (\<lambda>m. em_status m = MS_ACTIVE) (\<lambda>m. (em_enterprise_id m, em_account_id m)) em_id ms"

definition enterprises_ok :: "enterprise_row list \<Rightarrow> bool" where
  "enterprises_ok es \<longleftrightarrow> distinct (map en_id es) \<and> list_all enterprise_checks es \<and>
     indexed (\<lambda>e. en_credit_code e \<noteq> None) en_credit_code en_id es"

definition active_in :: "string \<Rightarrow> enterprise_member_row list \<Rightarrow> nat" where
  "active_in eid ms = count_rows (\<lambda>m. em_enterprise_id m = eid \<and> em_status m = MS_ACTIVE) ms"

definition staff_inv :: "'z wallet_db_scheme \<Rightarrow> bool" where
  "staff_inv db \<longleftrightarrow> members_ok (enterprise_members db) \<and> enterprises_ok (enterprises db) \<and>
     (\<forall>e \<in> set (enterprises db). 0 < active_in (en_id e) (enterprise_members db) \<and>
        (\<exists>w \<in> set (wallets db). wa_enterprise_id w = Some (en_id e)))"

lemma audit_wallets [simp]: "wallets (audit r db) = wallets db"
  by (simp add: audit_def)

lemma staff_inv_audit [simp]: "staff_inv (audit r db) \<longleftrightarrow> staff_inv db"
  by (simp add: staff_inv_def audit_def)

section \<open>Writes to the tables\<close>

lemma insert_enterprise_Inr_iff [result_iff]:
  "insert_enterprise e db = Inr db' \<longleftrightarrow> enterprise_checks e \<and> (\<forall>x \<in> set (enterprises db). en_id x \<noteq> en_id e)
     \<and> \<not> code_taken e (enterprises db) \<and> account_fk (en_created_by e) db
     \<and> db' = db\<lparr>enterprises := enterprises db @ [e]\<rparr>"
  by (auto simp: insert_enterprise_def)

lemma insert_member_Inr_iff [result_iff]:
  "insert_member m db = Inr db' \<longleftrightarrow> (\<forall>x \<in> set (enterprise_members db). em_id x \<noteq> em_id m)
     \<and> member_violation m db = None \<and> db' = db\<lparr>enterprise_members := enterprise_members db @ [m]\<rparr>"
  by (auto simp: insert_member_def split: option.splits)

lemma insert_wallet_Inr_iff [result_iff]:
  "insert_wallet wid eid db = Inr db' \<longleftrightarrow>
     (\<forall>w \<in> set (wallets db). wa_id w \<noteq> wid \<and> wa_enterprise_id w \<noteq> Some eid)
     \<and> db' = db\<lparr>wallets := wallets db @ [\<lparr> wa_id = wid, wa_enterprise_id = Some eid, wa_owner_account_id = None,
             wa_balance_cents = 0, wa_status = Wallet_ACTIVE, wa_version = 0 \<rparr>]\<rparr>"
  by (auto simp: insert_wallet_def)

lemma member_violation_None:
  "member_violation m db = None \<longleftrightarrow> member_checks m \<and> \<not> live_phone_taken m (enterprise_members db)
     \<and> \<not> active_account_taken m (enterprise_members db) \<and> account_fk (em_invited_by m) db"
  by (simp add: member_violation_def)

lemma members_ok_insert:
  assumes "members_ok ms" and "\<forall>x \<in> set ms. em_id x \<noteq> em_id m" and "member_checks m"
    and "\<not> live_phone_taken m ms" and "\<not> active_account_taken m ms"
  shows "members_ok (ms @ [m])"
  using assms indexed_append unfolding members_ok_def live_phone_taken_def active_account_taken_def
  by (auto intro!: indexed_append)

lemma members_ok_update:
  assumes "members_ok ms" and "m \<in> set ms" and "em_id (f m) = em_id m" and "member_checks (f m)"
    and "\<not> live_phone_taken (f m) ms" and "\<not> active_account_taken (f m) ms"
    and "\<And>x. em_id (f x) = em_id x"
  shows "members_ok (update_rows (\<lambda>x. em_id x = em_id m) f ms)"
proof -
  note d = assms(1) [unfolded members_ok_def]
  have "map em_id (update_rows (\<lambda>x. em_id x = em_id m) f ms) = map em_id ms"
    by (rule map_update_rows) (simp add: assms(7))
  moreover have "list_all member_checks (update_rows (\<lambda>x. em_id x = em_id m) f ms)"
    using d assms(2,4) list_all_update_one [of em_id ms m member_checks f] by simp
  moreover note indexed_update_one [where ident = em_id and r = m and t = ms and f = f and
      p = "\<lambda>m. em_status m \<noteq> MS_REVOKED" and key = "\<lambda>m. (em_enterprise_id m, em_phone m)"]
    indexed_update_one [where ident = em_id and r = m and t = ms and f = f and
      p = "\<lambda>m. em_status m = MS_ACTIVE" and key = "\<lambda>m. (em_enterprise_id m, em_account_id m)"]
  ultimately show ?thesis
    using d assms unfolding members_ok_def live_phone_taken_def active_account_taken_def by simp
qed

text \<open>A statement that updates one member under its key.\<close>

lemma update_member_Inr:
  assumes "update_member p f db = Inr (row, db')"
  shows "(row = None \<and> db' = db \<and> first_row p (enterprise_members db) = None) \<or>
     (\<exists>m. first_row p (enterprise_members db) = Some m \<and> m \<in> set (enterprise_members db) \<and> p m \<and>
        row = Some (f m) \<and> member_violation (f m) db = None \<and>
        db' = db\<lparr>enterprise_members := update_rows (\<lambda>x. em_id x = em_id m) f (enterprise_members db)\<rparr>)"
  using assms first_row_SomeD [of p "enterprise_members db"]
  by (auto simp: update_member_def split: option.splits)

lemma active_in_update:
  assumes "members_ok ms" and "m \<in> set ms"
  shows "int (active_in eid (update_rows (\<lambda>x. em_id x = em_id m) f ms)) = int (active_in eid ms)
     - (if em_enterprise_id m = eid \<and> em_status m = MS_ACTIVE then 1 else 0)
     + (if em_enterprise_id (f m) = eid \<and> em_status (f m) = MS_ACTIVE then 1 else 0)"
  unfolding active_in_def using assms by (intro count_update_one) (simp_all add: members_ok_def)

lemma staff_inv_members:
  assumes "staff_inv db" and "members_ok ms"
    and "\<And>e. e \<in> set (enterprises db) \<Longrightarrow> 0 < active_in (en_id e) ms"
  shows "staff_inv (db\<lparr>enterprise_members := ms\<rparr>)"
  using assms by (simp add: staff_inv_def)

section \<open>Creating\<close>

lemma create_tx_writes:
  assumes "create_enterprise_tx actor (eid, mid, wid) names code requestId db = Inr db'"
  obtains e a m w r where
      "e = \<lparr> en_id = eid, en_name = fst names, en_normalized_name = snd names, en_credit_code = Some code,
             en_created_by = actor_accountId actor \<rparr>"
    and "enterprise_checks e" and "\<forall>x \<in> set (enterprises db). en_id x \<noteq> eid" and "\<not> code_taken e (enterprises db)"
    and "first_row (\<lambda>a. ac_id a = actor_accountId actor) (accounts db) = Some a"
    and "m = \<lparr> em_id = mid, em_enterprise_id = eid, em_account_id = Some (actor_accountId actor),
          em_phone = ac_phone a, em_display_name = ac_display_name a, em_status = MS_ACTIVE, em_epoch = 1,
          em_invited_by = actor_accountId actor, em_revoke_reason = None \<rparr>"
    and "\<forall>x \<in> set (enterprise_members db). em_id x \<noteq> mid" and "member_violation m db = None"
    and "w = \<lparr> wa_id = wid, wa_enterprise_id = Some eid, wa_owner_account_id = None,
             wa_balance_cents = 0, wa_status = Wallet_ACTIVE, wa_version = 0 \<rparr>"
    and "\<forall>x \<in> set (wallets db). wa_id x \<noteq> wid \<and> wa_enterprise_id x \<noteq> Some eid"
    and "db' = audit r (db\<lparr>enterprises := enterprises db @ [e], enterprise_members := enterprise_members db @ [m],
          wallets := wallets db @ [w]\<rparr>)"
proof -
  define e where "e = \<lparr> en_id = eid, en_name = fst names, en_normalized_name = snd names, en_credit_code = Some code,
             en_created_by = actor_accountId actor \<rparr>"
  have ins: "enterprise_checks e" "\<forall>x \<in> set (enterprises db). en_id x \<noteq> eid" "\<not> code_taken e (enterprises db)"
    using assms
    by (auto simp: create_enterprise_tx_def bindE_Inr_iff map_sum_Inr_iff insert_enterprise_Inr_iff e_def)
  let ?db1 = "db\<lparr>enterprises := enterprises db @ [e]\<rparr>"
  obtain a where a: "first_row (\<lambda>a. ac_id a = actor_accountId actor) (accounts db) = Some a"
    using assms by (auto simp: create_enterprise_tx_def bindE_Inr_iff map_sum_Inr_iff insert_enterprise_Inr_iff
      split: option.splits)
  show thesis
    by (rule that [OF e_def ins a refl _ _ refl])
      (use assms a in \<open>auto simp: create_enterprise_tx_def bindE_Inr_iff map_sum_Inr_iff insert_enterprise_Inr_iff
         insert_member_Inr_iff insert_wallet_Inr_iff e_def member_violation_def account_fk_def split: if_split_asm\<close>)
qed

section \<open>What every operation keeps\<close>

definition member_next :: "enterprise_member_row \<Rightarrow> enterprise_member_row \<Rightarrow> bool" where
  "member_next m m' \<longleftrightarrow> em_id m' = em_id m \<and> em_enterprise_id m' = em_enterprise_id m \<and> em_epoch m \<le> em_epoch m' \<and>
     ((em_status m = MS_REVOKED) \<noteq> (em_status m' = MS_REVOKED) \<longrightarrow> em_epoch m < em_epoch m')"

definition enterprise_next :: "enterprise_row \<Rightarrow> enterprise_row \<Rightarrow> bool" where
  "enterprise_next e e' \<longleftrightarrow> en_id e' = en_id e \<and> en_created_by e' = en_created_by e \<and>
     (en_credit_code e \<noteq> None \<longrightarrow> en_credit_code e' \<noteq> None)"

definition staff_evolves :: "'z core_db_scheme \<Rightarrow> 'z core_db_scheme \<Rightarrow> bool" where
  "staff_evolves db db' \<longleftrightarrow>
     (\<forall>m \<in> set (enterprise_members db). \<exists>m' \<in> set (enterprise_members db'). member_next m m') \<and>
     (\<forall>e \<in> set (enterprises db). \<exists>e' \<in> set (enterprises db'). enterprise_next e e')"

definition staff_keeps :: "'z wallet_db_scheme \<Rightarrow> 'z wallet_db_scheme \<Rightarrow> bool" where
  "staff_keeps db db' \<longleftrightarrow> (staff_inv db \<longrightarrow> staff_inv db' \<and> staff_evolves db db')"

lemma member_next_refl [simp]: "member_next m m" by (simp add: member_next_def)

lemma enterprise_next_refl [simp]: "enterprise_next e e" by (simp add: enterprise_next_def)

lemma self_next: "m \<in> A \<Longrightarrow> \<exists>m' \<in> A. member_next m m'"
  using member_next_refl by blast

lemma self_next_enterprise: "e \<in> A \<Longrightarrow> \<exists>e' \<in> A. enterprise_next e e'"
  using enterprise_next_refl by blast

lemma member_next_trans: "member_next a b \<Longrightarrow> member_next b c \<Longrightarrow> member_next a c"
  unfolding member_next_def by (metis le_less_trans less_le_trans le_trans)

lemma enterprise_next_trans: "enterprise_next a b \<Longrightarrow> enterprise_next b c \<Longrightarrow> enterprise_next a c"
  unfolding enterprise_next_def by metis

lemma staff_evolves_trans: "staff_evolves a b \<Longrightarrow> staff_evolves b c \<Longrightarrow> staff_evolves a c"
  unfolding staff_evolves_def by (meson member_next_trans enterprise_next_trans)

lemma staff_keeps_trans: "staff_keeps a b \<Longrightarrow> staff_keeps b c \<Longrightarrow> staff_keeps a c"
  unfolding staff_keeps_def by (meson staff_evolves_trans)

text \<open>Transactions that leave enterprises, members and the owners of wallets alone.\<close>

lemma staff_keeps_apart:
  assumes "enterprises db' = enterprises db" and "enterprise_members db' = enterprise_members db"
    and "wallet_owners db' = wallet_owners db"
  shows "staff_keeps db db'"
proof -
  have "set (wallet_owners db') = set (wallet_owners db)" using assms(3) by simp
  then have "wa_enterprise_id ` set (wallets db') = wa_enterprise_id ` set (wallets db)"
    by (simp add: wallet_owners_def) (metis (no_types, lifting) image_cong image_image snd_conv)
  then have "(\<exists>w \<in> set (wallets db'). wa_enterprise_id w = Some i) \<longleftrightarrow> (\<exists>w \<in> set (wallets db). wa_enterprise_id w = Some i)" for i
    by (metis (no_types, lifting) image_iff)
  then show ?thesis
    using assms by (auto simp: staff_keeps_def staff_inv_def staff_evolves_def intro: self_next self_next_enterprise)
qed

text \<open>One member rewritten.\<close>

lemma staff_evolves_member:
  assumes "members_ok (enterprise_members db)" and "m \<in> set (enterprise_members db)" and "member_next m (f m)"
    and "db' = db\<lparr>enterprise_members := update_rows (\<lambda>x. em_id x = em_id m) f (enterprise_members db)\<rparr>"
  shows "staff_evolves db db'"
proof -
  have "\<exists>x' \<in> set (update_rows (\<lambda>x. em_id x = em_id m) f (enterprise_members db)). member_next x x'"
    if x: "x \<in> set (enterprise_members db)" for x
  proof (cases "x = m")
    case True
    then show ?thesis using assms(2,3) update_one_in [of m _ f em_id] by blast
  next
    case False
    then have "em_id x \<noteq> em_id m" using distinct_row [of em_id] assms(1,2) x by (auto simp: members_ok_def)
    then have "x \<in> set (update_rows (\<lambda>x. em_id x = em_id m) f (enterprise_members db))"
      using x by (auto simp: in_update_rows)
    then show ?thesis using member_next_refl by blast
  qed
  then show ?thesis unfolding assms(4) staff_evolves_def by (auto intro: self_next_enterprise)
qed

lemma update_member_staff:
  fixes db :: "'z wallet_db_scheme"
  assumes inv: "staff_inv db" and m: "m \<in> set (enterprise_members db)" and next': "member_next m (f m)"
    and v: "member_violation (f m) db = None" and id: "\<And>x. em_id (f x) = em_id x"
    and staffed: "em_status m = MS_ACTIVE \<Longrightarrow> em_status (f m) = MS_ACTIVE \<or> 1 < active_in (em_enterprise_id m) (enterprise_members db)"
    and db': "db' = db\<lparr>enterprise_members := update_rows (\<lambda>x. em_id x = em_id m) f (enterprise_members db)\<rparr>"
  shows "staff_inv db' \<and> staff_evolves db db'"
proof
  have ok: "members_ok (enterprise_members db)" using inv by (simp add: staff_inv_def)
  show "staff_evolves db db'" by (rule staff_evolves_member [OF ok m next' db'])
  have "0 < active_in (en_id e) (update_rows (\<lambda>x. em_id x = em_id m) f (enterprise_members db))"
    if "e \<in> set (enterprises db)" for e
  proof -
    have "0 < active_in (en_id e) (enterprise_members db)" using inv that by (simp add: staff_inv_def)
    moreover have "em_enterprise_id (f m) = em_enterprise_id m" using next' by (simp add: member_next_def)
    ultimately show ?thesis
      using active_in_update [OF ok m, of "en_id e" f] staffed
      by (cases "em_enterprise_id m = en_id e"; cases "em_status m = MS_ACTIVE"; cases "em_status (f m) = MS_ACTIVE") auto
  qed
  then show "staff_inv db'"
    unfolding db' using inv ok m v id
    by (intro staff_inv_members) (auto simp: member_violation_None intro: members_ok_update)
qed

section \<open>The operations\<close>

lemma create_tx_keeps:
  fixes db :: "'z wallet_db_scheme"
  assumes "create_enterprise_tx actor fresh_ids names code requestId db = Inr db'"
  shows "staff_keeps db db'"
proof -
  obtain eid mid wid where ids: "fresh_ids = (eid, mid, wid)" by (cases fresh_ids)
  show ?thesis
    using assms unfolding ids
  proof (rule create_tx_writes)
    fix e a m w r
    assume e: "e = \<lparr> en_id = eid, en_name = fst names, en_normalized_name = snd names, en_credit_code = Some code,
             en_created_by = actor_accountId actor \<rparr>"
      and new: "enterprise_checks e" "\<forall>x \<in> set (enterprises db). en_id x \<noteq> eid" "\<not> code_taken e (enterprises db)"
      and m: "m = \<lparr> em_id = mid, em_enterprise_id = eid, em_account_id = Some (actor_accountId actor),
          em_phone = ac_phone a, em_display_name = ac_display_name a, em_status = MS_ACTIVE, em_epoch = 1,
          em_invited_by = actor_accountId actor, em_revoke_reason = None \<rparr>"
      and mid: "\<forall>x \<in> set (enterprise_members db). em_id x \<noteq> mid" and v: "member_violation m db = None"
      and w: "w = \<lparr> wa_id = wid, wa_enterprise_id = Some eid, wa_owner_account_id = None,
             wa_balance_cents = 0, wa_status = Wallet_ACTIVE, wa_version = 0 \<rparr>"
      and db': "db' = audit r (db\<lparr>enterprises := enterprises db @ [e], enterprise_members := enterprise_members db @ [m],
          wallets := wallets db @ [w]\<rparr>)"
    have inv': "staff_inv db'" if inv: "staff_inv db"
    proof -
      have "members_ok (enterprise_members db @ [m])"
        using inv mid v m by (intro members_ok_insert) (auto simp: staff_inv_def member_violation_None)
      moreover have "enterprises_ok (enterprises db @ [e])"
        using inv new e indexed_append [of "\<lambda>e. en_credit_code e \<noteq> None" en_credit_code en_id "enterprises db" e]
        by (auto simp: staff_inv_def enterprises_ok_def code_taken_def)
      moreover have "0 < active_in (en_id x) (enterprise_members db @ [m])" if "x \<in> set (enterprises db @ [e])" for x
        using inv that by (auto simp: staff_inv_def active_in_def count_rows_pos e m)
      moreover have "\<exists>y \<in> set (wallets db @ [w]). wa_enterprise_id y = Some (en_id x)" if "x \<in> set (enterprises db @ [e])" for x
        using inv that by (auto simp: staff_inv_def e w)
      ultimately show ?thesis by (simp add: db' staff_inv_def)
    qed
    have "staff_evolves db db'"
      by (auto simp: staff_evolves_def db' intro: self_next self_next_enterprise)
    with inv' show ?thesis by (simp add: staff_keeps_def)
  qed
qed

lemma create_enterprise_cases:
  assumes "create_enterprise submitted u actor fresh_ids input db = (r, db')"
  obtains "db' = db" and "\<exists>e. r = Inl e"
  | names code where "ACCOUNTANT \<in> roles actor" and "normalizeName u (ce_name input) = Inr names"
      and "normalizeCreditCode (ce_creditCode input) = Inr code"
      and "create_enterprise_tx actor fresh_ids names code (ce_requestId input) db = Inr db'"
  using assms
  by (auto simp: create_enterprise_def Let_def bindE_Inr_iff split: if_split_asm sum.splits option.splits)

lemma staff_keeps_refl [simp]: "staff_keeps db db"
  by (rule staff_keeps_apart) simp_all

lemma create_enterprise_keeps: "create_enterprise submitted u actor fresh_ids input db = (r, db') \<Longrightarrow> staff_keeps db db'"
  by (erule create_enterprise_cases) (simp, rule create_tx_keeps)

lemma updateProfile_writes:
  assumes "updateProfile u actor input db = Inr db'"
  obtains names code before f r where "requireAccess actor (up_enterpriseId input) = Inr ()"
    and "first_row (\<lambda>e. en_id e = up_enterpriseId input) (enterprises db) = Some before"
    and "names \<noteq> None \<Longrightarrow> ADMIN \<in> roles actor \<or> en_created_by before = actor_accountId actor"
    and "code \<noteq> None \<Longrightarrow> ADMIN \<in> roles actor"
    and "names = None \<longleftrightarrow> up_name input = None" and "code = None \<longleftrightarrow> up_creditCode input = None"
    and "\<And>n. up_name input = Some n \<Longrightarrow> normalizeName u n = Inr (the names)"
    and "\<And>c. up_creditCode input = Some c \<Longrightarrow> normalizeCreditCode c = Inr (the code)"
    and "f = (\<lambda>e :: enterprise_row. e\<lparr>en_name := (case names of None \<Rightarrow> en_name e | Some n \<Rightarrow> fst n),
                en_normalized_name := (case names of None \<Rightarrow> en_normalized_name e | Some n \<Rightarrow> snd n),
                en_credit_code := (case code of None \<Rightarrow> en_credit_code e | Some c \<Rightarrow> Some c)\<rparr>)"
    and "enterprise_checks (f before)" and "\<not> code_taken (f before) (enterprises db)"
    and "db' = audit r (db\<lparr>enterprises := update_rows (\<lambda>x. en_id x = up_enterpriseId input) f (enterprises db)\<rparr>)"
proof -
  from assms obtain names code where acc: "requireAccess actor (up_enterpriseId input) = Inr ()"
    and names: "(case up_name input of None \<Rightarrow> Inr None | Some n \<Rightarrow> bindE (normalizeName u n) (Inr \<circ> Some)) = Inr names"
    and code: "(case up_creditCode input of None \<Rightarrow> Inr None | Some c \<Rightarrow> bindE (normalizeCreditCode c) (Inr \<circ> Some)) = Inr code"
    by (auto simp: updateProfile_def bindE_Inr_iff split: if_split_asm)
  obtain before where b: "first_row (\<lambda>e. en_id e = up_enterpriseId input) (enterprises db) = Some before"
    using assms acc names code by (cases "first_row (\<lambda>e. en_id e = up_enterpriseId input) (enterprises db)")
      (auto simp: updateProfile_def split: if_split_asm)
  define f where "f = (\<lambda>e :: enterprise_row. e\<lparr>en_name := (case names of None \<Rightarrow> en_name e | Some n \<Rightarrow> fst n),
                en_normalized_name := (case names of None \<Rightarrow> en_normalized_name e | Some n \<Rightarrow> snd n),
                en_credit_code := (case code of None \<Rightarrow> en_credit_code e | Some c \<Rightarrow> Some c)\<rparr>)"
  have guards: "names \<noteq> None \<Longrightarrow> ADMIN \<in> roles actor \<or> en_created_by before = actor_accountId actor"
    "code \<noteq> None \<Longrightarrow> ADMIN \<in> roles actor"
    and step: "\<exists>r db1. update_enterprise (up_enterpriseId input) f db = Inr db1 \<and> db' = audit r db1"
    using assms acc names code b
    by (auto simp: updateProfile_def bindE_Inr_iff map_sum_Inr_iff f_def split: if_split_asm)
  have inputs: "names = None \<longleftrightarrow> up_name input = None" "code = None \<longleftrightarrow> up_creditCode input = None"
    "\<And>n. up_name input = Some n \<Longrightarrow> normalizeName u n = Inr (the names)"
    "\<And>c. up_creditCode input = Some c \<Longrightarrow> normalizeCreditCode c = Inr (the code)"
    using names code by (auto simp: bindE_Inr_iff split: option.splits)
  show thesis
    by (rule exE [OF step]) (rule that [OF acc b guards inputs f_def];
      use b in \<open>auto simp: update_enterprise_def split: if_split_asm option.splits\<close>)
qed

lemma updateProfile_keeps:
  fixes db :: "'z wallet_db_scheme"
  assumes "updateProfile u actor input db = Inr db'"
  shows "staff_keeps db db'"
  using assms
proof (rule updateProfile_writes)
  fix names code before f r
  assume b: "first_row (\<lambda>e. en_id e = up_enterpriseId input) (enterprises db) = Some before"
    and f: "f = (\<lambda>e :: enterprise_row. e\<lparr>en_name := (case names of None \<Rightarrow> en_name e | Some n \<Rightarrow> fst n),
                en_normalized_name := (case names of None \<Rightarrow> en_normalized_name e | Some n \<Rightarrow> snd n),
                en_credit_code := (case code of None \<Rightarrow> en_credit_code e | Some c \<Rightarrow> Some c)\<rparr>)"
    and chk: "enterprise_checks (f before)" "\<not> code_taken (f before) (enterprises db)"
    and db': "db' = audit r (db\<lparr>enterprises := update_rows (\<lambda>x. en_id x = up_enterpriseId input) f (enterprises db)\<rparr>)"
  note row = first_row_SomeD [OF b]
  have id: "en_id (f x) = en_id x" for x by (simp add: f)
  have up: "enterprises db' = update_rows (\<lambda>x. en_id x = en_id before) f (enterprises db)" using row by (simp add: db')
  have next': "enterprise_next x (f x)" for x by (auto simp: enterprise_next_def f split: option.split)
  have "\<exists>x' \<in> set (enterprises db'). enterprise_next x x'" if "x \<in> set (enterprises db)" for x
    by (rule bexI [of _ "if en_id x = up_enterpriseId input then f x else x"])
      (use that next' in \<open>auto simp: db' in_update_rows\<close>)
  then have ev: "staff_evolves db db'" by (auto simp: staff_evolves_def db' intro: self_next)
  have "staff_inv db'" if inv: "staff_inv db"
  proof -
    have ok: "enterprises_ok (enterprises db)" using inv by (simp add: staff_inv_def)
    have ids: "map en_id (enterprises db') = map en_id (enterprises db)"
      by (simp add: db' map_update_rows id)
    have "list_all enterprise_checks (enterprises db')"
      using ok row chk(1) list_all_update_one [of en_id "enterprises db" before enterprise_checks f]
      by (simp add: enterprises_ok_def up)
    moreover have "indexed (\<lambda>e. en_credit_code e \<noteq> None) en_credit_code en_id (enterprises db')"
      unfolding up by (rule indexed_update_one) (use ok row chk(2) id in \<open>simp_all add: enterprises_ok_def code_taken_def\<close>)
    ultimately have "enterprises_ok (enterprises db')" using ok ids by (simp add: enterprises_ok_def)
    moreover have "en_id ` set (enterprises db') = en_id ` set (enterprises db)" using ids by (metis set_map)
    ultimately show ?thesis using inv by (simp add: staff_inv_def db') (metis (no_types, lifting) image_iff)
  qed
  with ev show ?thesis by (simp add: staff_keeps_def)
qed

definition joined :: "Actor \<Rightarrow> string option \<Rightarrow> string option \<Rightarrow> enterprise_member_row \<Rightarrow> enterprise_member_row" where
  "joined actor accountId displayName x = x\<lparr>em_account_id := accountId, em_display_name := displayName,
     em_status := (if accountId \<noteq> None then MS_ACTIVE else MS_PENDING), em_epoch := em_epoch x + 1,
     em_revoke_reason := None, em_invited_by := actor_accountId actor\<rparr>"

definition new_member :: "Actor \<Rightarrow> string \<Rightarrow> AddMember \<Rightarrow> string \<Rightarrow> string option \<Rightarrow> string option \<Rightarrow> enterprise_member_row" where
  "new_member actor newId input phone displayName accountId =
     \<lparr> em_id = newId, em_enterprise_id = am_enterpriseId input, em_account_id = accountId,
       em_phone = phone, em_display_name = displayName,
       em_status = (if accountId \<noteq> None then MS_ACTIVE else MS_PENDING), em_epoch = 1,
       em_invited_by = actor_accountId actor, em_revoke_reason = None \<rparr>"

definition registered_account :: "string \<Rightarrow> 'z core_db_scheme \<Rightarrow> string option" where
  "registered_account phone db = map_option ac_id (first_row (\<lambda>a. ac_phone a = phone \<and> ac_registered a) (accounts db))"

lemma add_member_cases:
  assumes "add_member_tx actor newId input phone displayName db = Inr (mid, db')"
  obtains (known) m where "m \<in> set (enterprise_members db)" and "em_enterprise_id m = am_enterpriseId input"
      and "em_phone m = phone" and "em_status m \<noteq> MS_REVOKED" and "mid = em_id m" and "db' = db"
  | (returns) m r where "m \<in> set (enterprise_members db)" and "em_enterprise_id m = am_enterpriseId input"
      and "em_phone m = phone" and "em_status m = MS_REVOKED" and "mid = em_id m"
      and "\<exists>y. first_row (\<lambda>x. em_id x = em_id m) (enterprise_members db) = Some y \<and> em_id y = em_id m \<and> y \<in> set (enterprise_members db)
         \<and> member_violation (joined actor (registered_account phone db) displayName y) db = None
         \<and> db' = audit r (db\<lparr>enterprise_members :=
              update_rows (\<lambda>x. em_id x = em_id y) (joined actor (registered_account phone db) displayName) (enterprise_members db)\<rparr>)"
  | (joins) r where "\<forall>m \<in> set (enterprise_members db). \<not> (em_enterprise_id m = am_enterpriseId input \<and> em_phone m = phone)"
      and "mid = newId" and "\<forall>x \<in> set (enterprise_members db). em_id x \<noteq> newId"
      and "member_violation (new_member actor newId input phone displayName (registered_account phone db)) db = None"
      and "db' = audit r (db\<lparr>enterprise_members := enterprise_members db @
           [new_member actor newId input phone displayName (registered_account phone db)]\<rparr>)"
proof -
  let ?p = "\<lambda>m. em_enterprise_id m = am_enterpriseId input \<and> em_phone m = phone"
  obtain e where e: "first_row (\<lambda>e. en_id e = am_enterpriseId input) (enterprises db) = Some e"
    and code: "present (en_credit_code e) \<noteq> None"
    using assms by (auto simp: add_member_tx_def split: option.splits if_split_asm)
  show thesis
  proof (cases "first_row ?p (rev (enterprise_members db))")
    case None
    then have no: "\<forall>m \<in> set (enterprise_members db). \<not> ?p m" by (simp add: first_row_None_iff)
    let ?n = "new_member actor newId input phone displayName (registered_account phone db)"
    from assms e code None obtain db1 where ins: "insert_member ?n db = Inr db1" "mid = newId"
      and rest: "\<exists>r. db' = audit r db1"
      by (auto simp: add_member_tx_def bindE_Inr_iff Let_def new_member_def registered_account_def)
    obtain r where r: "db' = audit r db1" using rest by blast
    have "em_id ?n = newId" by (simp add: new_member_def)
    with ins(1) r show thesis by (intro joins [OF no ins(2)]) (auto simp: insert_member_Inr_iff)
  next
    case (Some m)
    note m = first_row_SomeD [OF Some]
    show thesis
    proof (cases "em_status m = MS_REVOKED")
      case False
      then show thesis
        using assms e code Some m by (intro known [of m]) (auto simp: add_member_tx_def Let_def)
    next
      case True
      let ?f = "joined actor (registered_account phone db) displayName"
      have tx: "\<exists>added. bindE (update_member (\<lambda>x. em_id x = em_id m) ?f db) (\<lambda>(row, db1).
          case row of None \<Rightarrow> Inl (PlainError ''MEMBER_NOT_ADDED'')
          | Some w \<Rightarrow> Inr (em_id w, audit (added (em_id w)) db1)) = Inr (mid, db')"
        using assms e code Some True
        by (auto simp: add_member_tx_def Let_def joined_def [abs_def] registered_account_def)
      then obtain added row db1 where up: "update_member (\<lambda>x. em_id x = em_id m) ?f db = Inr (row, db1)"
        and rest: "(case row of None \<Rightarrow> Inl (PlainError ''MEMBER_NOT_ADDED'')
          | Some w \<Rightarrow> Inr (em_id w, audit (added (em_id w)) db1)) = Inr (mid, db')"
        by (auto simp: bindE_Inr_iff)
      then obtain w where w: "row = Some w" "mid = em_id w" "db' = audit (added (em_id w)) db1" by (cases row) auto
      from update_member_Inr [OF up] w(1) obtain y where
        y: "first_row (\<lambda>x. em_id x = em_id m) (enterprise_members db) = Some y" "y \<in> set (enterprise_members db)" "em_id y = em_id m"
        "w = joined actor (registered_account phone db) displayName y"
        "member_violation (joined actor (registered_account phone db) displayName y) db = None"
        "db1 = db\<lparr>enterprise_members :=
              update_rows (\<lambda>x. em_id x = em_id y) (joined actor (registered_account phone db) displayName) (enterprise_members db)\<rparr>"
        by blast
      show thesis
        by (rule returns [of m "added (em_id w)"]) (use m True w y in \<open>simp_all add: joined_def\<close>)
    qed
  qed
qed

lemma add_member_tx_keeps:
  fixes db :: "'z wallet_db_scheme"
  assumes "add_member_tx actor newId input phone displayName db = Inr (mid, db')"
  shows "staff_keeps db db'"
  using assms
proof (cases rule: add_member_cases)
  case (known m)
  then show ?thesis by simp
next
  case (returns m r)
  let ?f = "joined actor (registered_account phone db) displayName"
  show ?thesis
    unfolding staff_keeps_def
  proof
    assume inv: "staff_inv db"
    then have ok: "members_ok (enterprise_members db)" by (simp add: staff_inv_def)
    obtain y where y: "y \<in> set (enterprise_members db)" "em_id y = em_id m" "member_violation (?f y) db = None"
      "db' = audit r (db\<lparr>enterprise_members := update_rows (\<lambda>x. em_id x = em_id y) ?f (enterprise_members db)\<rparr>)"
      using returns by blast
    have "y = m" using ok returns y distinct_row [of em_id "enterprise_members db" y m] by (simp add: members_ok_def)
    then have "staff_inv (db\<lparr>enterprise_members := update_rows (\<lambda>x. em_id x = em_id y) ?f (enterprise_members db)\<rparr>) \<and>
        staff_evolves db (db\<lparr>enterprise_members := update_rows (\<lambda>x. em_id x = em_id y) ?f (enterprise_members db)\<rparr>)"
      using inv y returns by (intro update_member_staff [where m = y and f = ?f]) (simp_all add: joined_def member_next_def)
    then show "staff_inv db' \<and> staff_evolves db db'" by (simp add: y(4) staff_evolves_def)
  qed
next
  case (joins r)
  let ?n = "new_member actor newId input phone displayName (registered_account phone db)"
  have ev: "staff_evolves db db'" by (auto simp: staff_evolves_def joins intro: self_next self_next_enterprise)
  have "staff_inv db'" if inv: "staff_inv db"
  proof -
    have "members_ok (enterprise_members db @ [?n])"
      using inv joins by (intro members_ok_insert) (auto simp: staff_inv_def member_violation_None new_member_def)
    then have "staff_inv (db\<lparr>enterprise_members := enterprise_members db @ [?n]\<rparr>)"
      using inv by (intro staff_inv_members) (auto simp: staff_inv_def active_in_def)
    then show ?thesis by (simp add: joins)
  qed
  with ev show ?thesis by (simp add: staff_keeps_def)
qed

lemma addMember_cases:
  assumes "addMember avatar u actor newId input db = (r, db')"
  obtains "db' = db" and "\<exists>e. r = Inl e"
  | phone displayName mid where "requireAccess actor (am_enterpriseId input) = Inr ()"
      and "normalizePhone (am_phone input) = Inr phone"
      and "add_member_tx actor newId input phone displayName db = Inr (mid, db')"
  using assms by (auto simp: addMember_def Let_def bindE_Inr_iff split: if_split_asm sum.splits option.splits)

lemma addMember_keeps: "addMember avatar u actor newId input db = (r, db') \<Longrightarrow> staff_keeps db db'"
  by (erule addMember_cases) (simp, rule add_member_tx_keeps)

definition left_member :: "string \<Rightarrow> enterprise_member_row \<Rightarrow> enterprise_member_row" where
  "left_member reason m = m\<lparr>em_status := MS_REVOKED, em_epoch := em_epoch m + 1, em_revoke_reason := Some reason\<rparr>"

lemma removeMember_writes:
  assumes "removeMember actor input db = Inr db'"
  obtains m r where "requireAccess actor (rm_enterpriseId input) = Inr ()" and "trim (rm_reason input) \<noteq> []"
    and "first_row (\<lambda>m. em_id m = rm_memberId input \<and> em_enterprise_id m = rm_enterpriseId input)
       (enterprise_members db) = Some m"
    and "em_status m \<noteq> MS_REVOKED"
    and "em_status m = MS_ACTIVE \<Longrightarrow> 1 < active_in (rm_enterpriseId input) (enterprise_members db)"
    and "member_violation (left_member (trim (rm_reason input)) m) db = None"
    and "db' = audit r (db\<lparr>enterprise_members :=
       update_rows (\<lambda>x. em_id x = em_id m) (left_member (trim (rm_reason input))) (enterprise_members db)\<rparr>)"
proof -
  let ?p = "\<lambda>m. em_id m = rm_memberId input \<and> em_enterprise_id m = rm_enterpriseId input"
  have acc: "requireAccess actor (rm_enterpriseId input) = Inr ()" and reason: "trim (rm_reason input) \<noteq> []"
    using assms by (auto simp: removeMember_def bindE_Inr_iff Let_def)
  obtain m where m: "first_row ?p (enterprise_members db) = Some m"
    using assms acc reason by (cases "first_row ?p (enterprise_members db)") (auto simp: removeMember_def Let_def)
  have st: "em_status m \<noteq> MS_REVOKED"
    and last': "em_status m = MS_ACTIVE \<Longrightarrow> 1 < active_in (rm_enterpriseId input) (enterprise_members db)"
    and up: "\<exists>r row db1. update_member ?p (left_member (trim (rm_reason input))) db = Inr (row, db1) \<and> db' = audit r db1"
    using assms acc reason m
    by (auto simp: removeMember_def Let_def bindE_Inr_iff left_member_def [abs_def] active_in_def split: if_split_asm)
  from up obtain r row db1 where u: "update_member ?p (left_member (trim (rm_reason input))) db = Inr (row, db1)"
    and db': "db' = audit r db1" by blast
  show thesis
    by (rule that [OF acc reason m st last']) (use update_member_Inr [OF u] m db' in auto)
qed

lemma removeMember_keeps:
  fixes db :: "'z wallet_db_scheme"
  assumes "removeMember actor input db = Inr db'"
  shows "staff_keeps db db'"
  using assms
proof (rule removeMember_writes)
  let ?f = "left_member (trim (rm_reason input))"
  fix m r
  assume m: "first_row (\<lambda>m. em_id m = rm_memberId input \<and> em_enterprise_id m = rm_enterpriseId input)
       (enterprise_members db) = Some m"
    and st: "em_status m \<noteq> MS_REVOKED" and others: "em_status m = MS_ACTIVE \<Longrightarrow> 1 < active_in (rm_enterpriseId input) (enterprise_members db)"
    and v: "member_violation (?f m) db = None"
    and db': "db' = audit r (db\<lparr>enterprise_members := update_rows (\<lambda>x. em_id x = em_id m) ?f (enterprise_members db)\<rparr>)"
  note row = first_row_SomeD [OF m]
  have "staff_inv (db\<lparr>enterprise_members := update_rows (\<lambda>x. em_id x = em_id m) ?f (enterprise_members db)\<rparr>) \<and>
      staff_evolves db (db\<lparr>enterprise_members := update_rows (\<lambda>x. em_id x = em_id m) ?f (enterprise_members db)\<rparr>)"
    if "staff_inv db"
    using that row st others v by (intro update_member_staff [where m = m and f = ?f]) (simp_all add: left_member_def member_next_def)
  then show ?thesis by (simp add: staff_keeps_def db' staff_evolves_def)
qed

end
