(* ===== verification/Exports.thy ===== *)
theory Exports
  imports Memberships Period
begin

text \<open>
  Who may have an export, and the life of an export request: the transactions of
  \<open>src/modules/exports/postgres.ts\<close> that create, cancel, claim, finish and fail a request, mint a
  download token and spend it. The workbook itself, its files and the encrypted store belong to
  other parts; the accounting assumptions an account resolves to, the published snapshots and the
  hash of a token are parameters.
\<close>

section \<open>Access\<close>

definition locked_membership :: "string \<Rightarrow> string \<Rightarrow> 'z shop_db_scheme \<Rightarrow> membership_row option" where
  "locked_membership shopId aid db =
     first_row (\<lambda>m. sm_shop_id m = shopId \<and> sm_account_id m = aid) (shop_memberships db)"

definition requireExportAccess :: "Actor \<Rightarrow> shop_row \<Rightarrow> membership_row option \<Rightarrow> unit result" where
  "requireExportAccess actor shop membership =
     requireAllowed (authorizeShop actor (shop_resource shop)
       (map_option (\<lambda>m. \<lparr> cm_id = sm_id m, cm_shopId = sh_id shop, cm_accountId = actor_accountId actor,
            cm_status = sm_status m, cm_exportAllowed = sm_export_allowed m,
            cm_authorizationEpoch = nat_str (sm_epoch m) \<rparr>) membership)
       RESULT_EXPORT) None"

definition authorizeCreate ::
    "Actor \<Rightarrow> string \<Rightarrow> 'z shop_db_scheme \<Rightarrow> (shop_row \<times> membership_row option) result" where
  "authorizeCreate actor shopId db =
     (case first_row (\<lambda>s. sh_id s = shopId) (shops db) of
        None \<Rightarrow> Inl AuthorizationError
      | Some shop \<Rightarrow>
          let m = locked_membership shopId (actor_accountId actor) db in
          bindE (requireExportAccess actor shop m) (\<lambda>_. Inr (shop, m)))"

definition in_enterprise :: "Actor \<Rightarrow> string \<Rightarrow> bool" where
  "in_enterprise actor eid = (case enterpriseIds actor of None \<Rightarrow> False | Some ids \<Rightarrow> eid \<in> ids)"

definition usesCustomerMembership :: "Actor \<Rightarrow> shop_row \<Rightarrow> bool" where
  "usesCustomerMembership actor shop \<longleftrightarrow> \<not> in_enterprise actor (sh_enterprise_id shop) \<and> ADMIN \<notin> roles actor"

definition requireExportJobActor :: "Actor \<Rightarrow> shop_row \<Rightarrow> membership_row option \<Rightarrow> export_row \<Rightarrow> unit result" where
  "requireExportJobActor actor shop m job =
     (if xr_status job = X_REVOKED then Inl AuthorizationError
      else if xr_requested_by job \<noteq> actor_accountId actor \<and> ADMIN \<notin> roles actor
         \<and> \<not> in_enterprise actor (sh_enterprise_id shop)
      then Inl AuthorizationError
      else if usesCustomerMembership actor shop \<and> (case m of None \<Rightarrow> False | Some r \<Rightarrow> xr_epoch job \<noteq> Some (sm_epoch r))
      then Inl AuthorizationError
      else Inr ())"

definition export_audit ::
    "Actor \<Rightarrow> bool \<Rightarrow> string \<Rightarrow> string \<Rightarrow> string \<Rightarrow> string \<Rightarrow> json_object option \<Rightarrow> json_object option \<Rightarrow> AuditRecord" where
  "export_audit actor succeeded kind oid action requestId before after =
     \<lparr> au_actorAccountId = Some (actor_accountId actor), au_actorRoles = role_texts actor, au_objectType = kind,
       au_objectId = oid, au_action = action, au_succeeded = succeeded, au_reason = None, au_requestId = requestId,
       au_before = before, au_after = after \<rparr>"

text \<open>
  A failed operation leaves an audit record of its own behind the transaction that was rolled back.
\<close>

definition audited ::
    "AuditRecord \<Rightarrow> ('a \<times> 'z core_db_scheme) result \<Rightarrow> 'z core_db_scheme \<Rightarrow> 'a result \<times> 'z core_db_scheme" where
  "audited failure outcome db = (case outcome of Inl e \<Rightarrow> (Inl e, audit failure db) | Inr (x, db') \<Rightarrow> (Inr x, db'))"

fun export_status_text :: "ExportStatus \<Rightarrow> string" where
  "export_status_text X_QUEUED = ''QUEUED''"
| "export_status_text X_RUNNING = ''RUNNING''"
| "export_status_text X_SUCCEEDED = ''SUCCEEDED''"
| "export_status_text X_FAILED = ''FAILED''"
| "export_status_text X_CANCELLED = ''CANCELLED''"
| "export_status_text X_REVOKED = ''REVOKED''"

section \<open>Creating\<close>

definition REPORT_EXPORT_FORMAT :: string where
  "REPORT_EXPORT_FORMAT = ''revenue-and-costs-export-v10''"

record ExportAssumptions =
  as_profitRate :: "string option"
  as_minimumSalesCostRate :: "string option"
  as_continentPrefixes :: "string list"

record ExportIdentity =
  ei_shopId :: string
  ei_snapshotId :: string
  ei_assumptions :: ExportAssumptions
  ei_period :: "(string \<times> string) option"

fun join_commas :: "string list \<Rightarrow> string" where
  "join_commas [] = []"
| "join_commas [s] = s"
| "join_commas (s # t # ss) = s @ '','' @ join_commas (t # ss)"

definition assertExportIdempotencyMatch :: "ExportIdentity \<Rightarrow> ExportIdentity \<Rightarrow> unit result" where
  "assertExportIdempotencyMatch prior requested =
     (if ei_shopId prior \<noteq> ei_shopId requested \<or> ei_snapshotId prior \<noteq> ei_snapshotId requested
         \<or> as_profitRate (ei_assumptions prior) \<noteq> as_profitRate (ei_assumptions requested)
         \<or> as_minimumSalesCostRate (ei_assumptions prior) \<noteq> as_minimumSalesCostRate (ei_assumptions requested)
         \<or> join_commas (as_continentPrefixes (ei_assumptions prior))
             \<noteq> join_commas (as_continentPrefixes (ei_assumptions requested))
         \<or> map_option fst (ei_period prior) \<noteq> map_option fst (ei_period requested)
         \<or> map_option snd (ei_period prior) \<noteq> map_option snd (ei_period requested)
      then Inl (PlainError ''IDEMPOTENCY_KEY_REUSED_WITH_DIFFERENT_EXPORT'') else Inr ())"

definition identity_of_row :: "export_row \<Rightarrow> ExportIdentity" where
  "identity_of_row x = \<lparr> ei_shopId = xr_shop_id x, ei_snapshotId = xr_snapshot_id x,
     ei_assumptions = \<lparr> as_profitRate = xr_profit_rate x, as_minimumSalesCostRate = xr_minimum_rate x,
       as_continentPrefixes = xr_prefixes x \<rparr>, ei_period = xr_period x \<rparr>"

record CreateExport =
  cx_shopId :: string
  cx_snapshotId :: string
  cx_idempotencyKey :: string
  cx_requestId :: string
  cx_periodStart :: "string option"
  cx_periodEnd :: "string option"

definition export_business_key :: "Actor \<Rightarrow> string \<Rightarrow> string" where
  "export_business_key actor key = actor_accountId actor @ '':'' @ REPORT_EXPORT_FORMAT @ '':'' @ key"

text \<open>The request of an earlier call under the same key, or a new one, bound to the customer's epoch.\<close>

definition place_export ::
    "Actor \<Rightarrow> shop_row \<Rightarrow> membership_row option \<Rightarrow> ExportIdentity \<Rightarrow> string \<Rightarrow> string \<Rightarrow> 'z member_db_scheme
     \<Rightarrow> (export_row \<times> 'z member_db_scheme) result" where
  "place_export actor shop m requested key newId db =
     (case first_row (\<lambda>x. xr_business_key x = key) (export_requests db) of
        Some row \<Rightarrow>
          if xr_format row \<noteq> REPORT_EXPORT_FORMAT then Inl (AppError ''EXPORT_FORMAT_IDEMPOTENCY_CONFLICT'' 409 None)
          else bindE (assertExportIdempotencyMatch (identity_of_row row) requested) (\<lambda>_. Inr (row, db))
      | None \<Rightarrow>
          let row = \<lparr> xr_id = newId, xr_shop_id = ei_shopId requested, xr_requested_by = actor_accountId actor,
                xr_snapshot_id = ei_snapshotId requested,
                xr_epoch = (if usesCustomerMembership actor shop then map_option sm_epoch m else None),
                xr_status = X_QUEUED, xr_business_key = key, xr_format = REPORT_EXPORT_FORMAT,
                xr_profit_rate = as_profitRate (ei_assumptions requested),
                xr_minimum_rate = as_minimumSalesCostRate (ei_assumptions requested),
                xr_prefixes = as_continentPrefixes (ei_assumptions requested), xr_period = ei_period requested,
                xr_error_code = None, xr_output = None \<rparr> in
          if \<exists>x \<in> set (export_requests db). xr_id x = newId then Inl (SqlError ''23505'' ''export_request_pkey'')
          else Inr (row, db\<lparr>export_requests := export_requests db @ [row]\<rparr>))"

definition create_export_tx ::
    "ExportAssumptions result \<Rightarrow> (string \<Rightarrow> string option) \<Rightarrow> Actor \<Rightarrow> string \<times> string \<Rightarrow> CreateExport
     \<Rightarrow> 'z member_db_scheme \<Rightarrow> (export_row \<times> 'z member_db_scheme) result" where
  "create_export_tx assumptions snapshot_shop actor fresh_ids input db =
     bindE (authorizeCreate actor (cx_shopId input) db) (\<lambda>(shop, m).
     bindE assumptions (\<lambda>a.
     bindE (parseAccountingPeriodScope (cx_periodStart input) (cx_periodEnd input)) (\<lambda>scp.
     if snapshot_shop (cx_snapshotId input) \<noteq> Some (cx_shopId input) then Inl (PlainError ''SNAPSHOT_NOT_FOUND'')
     else
     let key = export_business_key actor (cx_idempotencyKey input);
         period = map_option (\<lambda>p. (periodStart p, periodEnd p)) scp;
         replayed = (first_row (\<lambda>x. xr_business_key x = key) (export_requests db) \<noteq> None) in
     bindE (place_export actor shop m \<lparr> ei_shopId = cx_shopId input, ei_snapshotId = cx_snapshotId input,
          ei_assumptions = a, ei_period = period \<rparr> key (fst fresh_ids) db) (\<lambda>(row, db1).
     Inr (row, audit (export_audit actor True ''export_request'' (xr_id row)
         (if replayed then ''EXPORT_CREATE_REPLAYED'' else ''EXPORT_CREATED'') (cx_requestId input) None
         (Some ([(''shopId'', Some (cx_shopId input)), (''snapshotId'', Some (cx_snapshotId input)),
            (''status'', Some (export_status_text (xr_status row))), (''formatVersion'', Some REPORT_EXPORT_FORMAT),
            (''profitRate'', as_profitRate a), (''minimumSalesCostRate'', as_minimumSalesCostRate a),
            (''continentPrefixes'', Some (join_commas (as_continentPrefixes a)))]
          @ (case period of None \<Rightarrow> [] | Some (p, q) \<Rightarrow> [(''periodStart'', Some p), (''periodEnd'', Some q)]))))
       (outbox_insert \<lparr> ob_id = snd fresh_ids, ob_topic = ''export.generate'', ob_business_key = xr_id row,
          ob_payload = [(''exportId'', Some (xr_id row))] \<rparr> db1))))))"

definition create_export ::
    "ExportAssumptions result \<Rightarrow> (string \<Rightarrow> string option) \<Rightarrow> Actor \<Rightarrow> string \<times> string \<Rightarrow> CreateExport
     \<Rightarrow> 'z member_db_scheme \<Rightarrow> export_row result \<times> 'z member_db_scheme" where
  "create_export assumptions snapshot_shop actor fresh_ids input db =
     audited (export_audit actor False ''published_snapshot'' (cx_snapshotId input) ''EXPORT_CREATE_FAILED''
         (cx_requestId input) None (Some [(''shopId'', Some (cx_shopId input))]))
       (create_export_tx assumptions snapshot_shop actor fresh_ids input db) db"

section \<open>Cancelling, claiming, finishing, failing\<close>

definition in_progress :: "ExportStatus \<Rightarrow> bool" where
  "in_progress st \<longleftrightarrow> st \<in> {X_QUEUED, X_RUNNING}"

definition located_job :: "Actor \<Rightarrow> string \<Rightarrow> 'z member_db_scheme \<Rightarrow> (shop_row \<times> membership_row option \<times> export_row) result" where
  "located_job actor exportId db =
     (case first_row (\<lambda>x. xr_id x = exportId) (export_requests db) of
        None \<Rightarrow> Inl AuthorizationError
      | Some located \<Rightarrow>
          bindE (authorizeCreate actor (xr_shop_id located) db) (\<lambda>(shop, m).
          case first_row (\<lambda>x. xr_id x = exportId \<and> xr_shop_id x = xr_shop_id located) (export_requests db) of
            None \<Rightarrow> Inl AuthorizationError
          | Some job \<Rightarrow> bindE (requireExportJobActor actor shop m job) (\<lambda>_. Inr (shop, m, job))))"

definition set_export :: "(export_row \<Rightarrow> bool) \<Rightarrow> (export_row \<Rightarrow> export_row) \<Rightarrow> 'z member_db_scheme \<Rightarrow> 'z member_db_scheme" where
  "set_export p f db = db\<lparr>export_requests := update_rows p f (export_requests db)\<rparr>"

definition cancel_export_tx :: "Actor \<Rightarrow> string \<Rightarrow> string \<Rightarrow> 'z member_db_scheme \<Rightarrow> (unit \<times> 'z member_db_scheme) result" where
  "cancel_export_tx actor exportId requestId db =
     bindE (located_job actor exportId db) (\<lambda>(shop, m, job).
     let changed = (first_row (\<lambda>x. xr_id x = exportId \<and> in_progress (xr_status x)) (export_requests db) \<noteq> None) in
     Inr ((), audit (export_audit actor True ''export_request'' exportId
         (if changed then ''EXPORT_CANCELLED'' else ''EXPORT_CANCEL_NOOP'') requestId
         (Some [(''status'', Some (export_status_text (xr_status job)))])
         (Some [(''status'', Some (if changed then ''CANCELLED'' else export_status_text (xr_status job)))]))
       (set_export (\<lambda>x. xr_id x = exportId \<and> in_progress (xr_status x)) (\<lambda>x. x\<lparr>xr_status := X_CANCELLED\<rparr>) db)))"

definition cancel_export :: "Actor \<Rightarrow> string \<Rightarrow> string \<Rightarrow> 'z member_db_scheme \<Rightarrow> unit result \<times> 'z member_db_scheme" where
  "cancel_export actor exportId requestId db =
     audited (export_audit actor False ''export_request'' exportId ''EXPORT_CANCEL_FAILED'' requestId None (Some []))
       (cancel_export_tx actor exportId requestId db) db"

text \<open>The worker takes a request; its format was fixed when it was created.\<close>

definition claim_export :: "string \<Rightarrow> 'z member_db_scheme \<Rightarrow> export_row option \<times> 'z member_db_scheme" where
  "claim_export exportId db =
     (let p = (\<lambda>x. xr_id x = exportId \<and> in_progress (xr_status x));
          f = (\<lambda>x. x\<lparr>xr_status := X_RUNNING, xr_error_code := None\<rparr>) in
      (map_option f (first_row p (export_requests db)), set_export p f db))"

definition system_audit :: "bool \<Rightarrow> string \<Rightarrow> string \<Rightarrow> json_object option \<Rightarrow> json_object option \<Rightarrow> AuditRecord" where
  "system_audit succeeded exportId action before after =
     \<lparr> au_actorAccountId = None, au_actorRoles = [''SYSTEM''], au_objectType = ''export_request'', au_objectId = exportId,
       au_action = action, au_succeeded = succeeded, au_reason = None,
       au_requestId = ''system:export.generate:'' @ exportId, au_before = before, au_after = after \<rparr>"

text \<open>The last transaction of \<open>generate\<close>: the object is stored only while the request still runs.\<close>

definition finish_export :: "string \<Rightarrow> string \<Rightarrow> string \<Rightarrow> 'z member_db_scheme \<Rightarrow> bool \<times> 'z member_db_scheme" where
  "finish_export exportId file kind db =
     (case first_row (\<lambda>x. xr_id x = exportId) (export_requests db) of
        None \<Rightarrow> (False, db)
      | Some row \<Rightarrow>
          if xr_status row \<noteq> X_RUNNING then (False, db)
          else (True, audit (system_audit True exportId ''EXPORT_GENERATED'' (Some [(''status'', Some ''RUNNING'')])
                 (Some [(''status'', Some ''SUCCEEDED''), (''initiatedBy'', Some (xr_requested_by row)), (''outputKind'', Some kind)]))
               (set_export (\<lambda>x. xr_id x = exportId) (\<lambda>x. x\<lparr>xr_status := X_SUCCEEDED, xr_output := Some file\<rparr>) db)))"

definition fail_export :: "string \<Rightarrow> string \<Rightarrow> 'z member_db_scheme \<Rightarrow> 'z member_db_scheme" where
  "fail_export exportId errorCode db =
     (case first_row (\<lambda>x. xr_id x = exportId) (export_requests db) of
        None \<Rightarrow> db
      | Some row \<Rightarrow>
          if \<not> in_progress (xr_status row) then db
          else audit (system_audit False exportId ''EXPORT_GENERATION_FAILED''
                 (Some [(''status'', Some (export_status_text (xr_status row)))])
                 (Some [(''status'', Some ''FAILED''), (''initiatedBy'', Some (xr_requested_by row)), (''errorCode'', Some errorCode)]))
               (set_export (\<lambda>x. xr_id x = exportId) (\<lambda>x. x\<lparr>xr_status := X_FAILED, xr_error_code := Some errorCode\<rparr>) db))"

section \<open>Downloading\<close>

definition five_minutes :: nat where
  "five_minutes = 5 * 60000"

definition create_token_tx ::
    "clock \<Rightarrow> Actor \<Rightarrow> string \<Rightarrow> string \<Rightarrow> string \<Rightarrow> string \<Rightarrow> 'z member_db_scheme \<Rightarrow> (unit \<times> 'z member_db_scheme) result" where
  "create_token_tx clk actor newId tokenHash exportId requestId db =
     bindE (located_job actor exportId db) (\<lambda>(shop, m, job).
     if xr_status job \<noteq> X_SUCCEEDED then Inl (AppError ''EXPORT_NOT_READY'' 409 None)
     else
     let bound = (if usesCustomerMembership actor shop then m else None);
         g = \<lparr> gr_id = newId, gr_export_id = exportId, gr_shop_id = sh_id shop, gr_account_id = actor_accountId actor,
           gr_membership_id = map_option sm_id bound, gr_epoch = map_option sm_epoch bound, gr_token_hash = tokenHash,
           gr_expires_at = now clk + five_minutes, gr_consumed = False, gr_revoked = False \<rparr> in
     if \<exists>x \<in> set (download_grants db). gr_id x = newId \<or> gr_token_hash x = tokenHash
     then Inl (SqlError ''23505'' ''export_download_grant_key'')
     else Inr ((), audit (export_audit actor True ''export_request'' exportId ''EXPORT_DOWNLOAD_TOKEN_CREATED'' requestId None
         (Some [(''expiresInSeconds'', Some ''300'')])) (db\<lparr>download_grants := download_grants db @ [g]\<rparr>)))"

text \<open>\<open>token\<close> is drawn at random and only its hash is kept.\<close>

definition createDownloadToken ::
    "(string \<Rightarrow> string) \<Rightarrow> clock \<Rightarrow> Actor \<Rightarrow> string \<Rightarrow> string \<Rightarrow> string \<Rightarrow> string \<Rightarrow> 'z member_db_scheme
     \<Rightarrow> string result \<times> 'z member_db_scheme" where
  "createDownloadToken hash clk actor newId token exportId requestId db =
     audited (export_audit actor False ''export_request'' exportId ''EXPORT_DOWNLOAD_TOKEN_CREATE_FAILED'' requestId None (Some []))
       (map_sum id (map_prod (\<lambda>_. token) id) (create_token_tx clk actor newId (hash token) exportId requestId db)) db"

definition spendable ::
    "clock \<Rightarrow> Actor \<Rightarrow> shop_row \<Rightarrow> membership_row option \<Rightarrow> string \<Rightarrow> string \<Rightarrow> grant_row \<Rightarrow> bool" where
  "spendable clk actor shop m tokenHash exportId g \<longleftrightarrow>
     gr_export_id g = exportId \<and> gr_token_hash g = tokenHash \<and> gr_account_id g = actor_accountId actor
     \<and> \<not> gr_consumed g \<and> \<not> gr_revoked g \<and> now clk < gr_expires_at g
     \<and> (case (if usesCustomerMembership actor shop then m else None) of
          None \<Rightarrow> gr_membership_id g = None
        | Some r \<Rightarrow> gr_membership_id g = Some (sm_id r) \<and> gr_epoch g = Some (sm_epoch r))"

definition download_tx ::
    "clock \<Rightarrow> Actor \<Rightarrow> string \<Rightarrow> string \<Rightarrow> string \<Rightarrow> 'z member_db_scheme \<Rightarrow> (string \<times> 'z member_db_scheme) result" where
  "download_tx clk actor tokenHash exportId requestId db =
     (case first_row (\<lambda>g. gr_export_id g = exportId \<and> gr_token_hash g = tokenHash \<and> gr_account_id g = actor_accountId actor)
         (download_grants db) of
        None \<Rightarrow> Inl AuthorizationError
      | Some located \<Rightarrow>
      bindE (authorizeCreate actor (gr_shop_id located) db) (\<lambda>(shop, m).
      case first_row (\<lambda>x. xr_id x = exportId \<and> xr_shop_id x = gr_shop_id located) (export_requests db) of
        None \<Rightarrow> Inl AuthorizationError
      | Some job \<Rightarrow>
      bindE (requireExportJobActor actor shop m job) (\<lambda>_.
      case (xr_status job, xr_output job) of
        (X_SUCCEEDED, Some file) \<Rightarrow>
          if first_row (spendable clk actor shop m tokenHash exportId) (download_grants db) = None then Inl AuthorizationError
          else Inr (file, audit (export_audit actor True ''export_request'' exportId ''EXPORT_DOWNLOAD_AUTHORIZED'' requestId
              (Some [(''tokenState'', Some ''ACTIVE'')]) (Some [(''tokenState'', Some ''CONSUMED'')]))
            (db\<lparr>download_grants := update_rows (spendable clk actor shop m tokenHash exportId)
                 (\<lambda>g. g\<lparr>gr_consumed := True\<rparr>) (download_grants db)\<rparr>))
      | _ \<Rightarrow> Inl AuthorizationError)))"

definition download ::
    "(string \<Rightarrow> string) \<Rightarrow> clock \<Rightarrow> Actor \<Rightarrow> string \<Rightarrow> string \<Rightarrow> string \<Rightarrow> 'z member_db_scheme
     \<Rightarrow> string result \<times> 'z member_db_scheme" where
  "download hash clk actor exportId token requestId db =
     audited (export_audit actor False ''export_request'' exportId ''EXPORT_DOWNLOAD_FAILED'' requestId None (Some []))
       (download_tx clk actor (hash token) exportId requestId db) db"

end
