(* ===== verification/MemberBook.thy ===== *)
theory MemberBook
  imports Exports ShopBook
begin

text \<open>
  What holds of memberships and of what they produced along every run of the system: one membership
  per shop and account, an epoch that grows with every change of its rights, and no export or
  download grant of a customer that outlives the epoch it was made under.
\<close>

section \<open>Shop transactions leave memberships and exports alone\<close>

lemma audit_more_tables [simp]:
  "shop_db.more (audit r db) = shop_db.more db" "shop_memberships (audit r db) = shop_memberships db"
  "idempotency_records (audit r db) = idempotency_records db"
  by (simp_all add: audit_def)

lemma audit_member_tables [simp]:
  "invitations (audit r db) = invitations db" "export_requests (audit r db) = export_requests db"
  "download_grants (audit r db) = download_grants db"
  by (simp_all add: audit_def)

definition shop_side :: "'z shop_db_scheme \<Rightarrow> 'z shop_db_scheme \<Rightarrow> bool" where
  "shop_side db db' \<longleftrightarrow> shop_db.more db' = shop_db.more db \<and> accounts db' = accounts db \<and>
     enterprises db' = enterprises db \<and> enterprise_members db' = enterprise_members db \<and>
     wallet_owners db' = wallet_owners db \<and> shop_memberships db' = shop_memberships db \<and>
     (\<exists>rs. idempotency_records db' = idempotency_records db @ rs)"

lemma shop_side_refl [simp]: "shop_side db db"
  by (simp add: shop_side_def)

lemma shop_side_trans: "shop_side a b \<Longrightarrow> shop_side b c \<Longrightarrow> shop_side a c"
  by (auto simp: shop_side_def)

lemma shop_side_apart: "apart T db db' \<Longrightarrow> shop_side db db'"
  by (simp add: apart_def shop_side_def shop_tables_def)

lemma shop_side_audit: "shop_side db (audit r db)"
  by (rule shop_side_apart) (rule apart_audit)

lemma shop_side_append: "appendWalletEntry e db = Inr (r, db') \<Longrightarrow> shop_side db db'"
  by (erule append_Inr_cases) (simp_all add: shop_side_def wallet_owners_def post_db_def map_update_rows)

lemma shop_side_took: "took pays e lid db db' \<Longrightarrow> shop_side db db'"
  by (auto simp: took_def dest: shop_side_append split: if_split_asm)

lemma shop_side_shops:
  "shop_side db (db\<lparr>shops := ss\<rparr>)" "shop_side db (billed t c db)" "shop_side db (db\<lparr>name_history := hs\<rparr>)"
  "shop_side db (db\<lparr>idempotency_records := idempotency_records db @ rs\<rparr>)"
  by (simp_all add: shop_side_def wallet_owners_def billed_def)

lemma shop_side_billed: "shop_side db db1 \<Longrightarrow> shop_side db (audit r (billed t c db1))"
  by (rule shop_side_trans [OF shop_side_trans [OF _ shop_side_shops(2)] shop_side_audit])

lemma shop_side_create:
  assumes "create_new clk actor shopId termId input names closeDate years db = Inr (v, db')"
  shows "shop_side db db'"
  using assms
proof (rule create_new_writes)
  fix w and code :: "string option" and price lid db2 r
  assume took: "took (ADMIN \<notin> roles actor \<and> 0 < pv_annual_price price * years)
       (charge_entry (wa_id w) (''shop-create:'' @ cs_idempotencyKey input) (pv_annual_price price * years) shopId
          (actor_accountId actor)) lid
       (db\<lparr>shops := shops db @ [new_shop clk (actor_accountId actor) shopId input names closeDate]\<rparr>) db2"
    and db': "db' = audit r (billed (new_term termId shopId (cs_startDate input) closeDate years (pv_id price) None)
         (new_charge (ADMIN \<in> roles actor) None shopId termId (pv_id price)
             (pv_annual_price price * years) lid (cs_idempotencyKey input) (actor_accountId actor)) db2)"
  show ?thesis
    unfolding db' by (rule shop_side_billed [OF shop_side_trans [OF shop_side_shops(1) shop_side_took [OF took]]])
qed

lemma shop_side_renew:
  assumes "renew_new clk actor termId input db = Inr (v, db')"
  shows "shop_side db db'"
  using assms
proof (rule renew_new_writes)
  let ?ss = "\<lambda>shop. update_rows (\<lambda>x. sh_id x = sh_id shop) (renewed (rn_requestedCloseDate input) (actor_accountId actor)) (shops db)"
  fix shop original w lid db1 r t c
  assume took: "took (ADMIN \<notin> roles actor \<and> 0 < original)
       (charge_entry (wa_id w) (''shop-renew:'' @ rn_idempotencyKey input) original (sh_id shop)
          (actor_accountId actor)) lid db db1"
    and db': "db' = audit r ((billed t c db1)\<lparr>shops := ?ss shop\<rparr>)"
  have "shop_side db (billed t c db1)" by (rule shop_side_trans [OF shop_side_took [OF took] shop_side_shops(2)])
  then show ?thesis
    unfolding db' by (rule shop_side_trans [OF shop_side_trans [OF _ shop_side_shops(1)] shop_side_audit])
qed

lemma shop_side_update: "update_shop sid guard f db = Inr (row, db') \<Longrightarrow> shop_side db db'"
  by (auto simp: update_shop_Inr_iff shop_side_shops split: option.splits)

lemma shop_side_audits: "shop_side db (fold (\<lambda>s. audit (g s)) xs db)"
  unfolding fold_audit by (simp add: shop_side_def wallet_owners_def)

lemma shop_side_trash:
  assumes "bulkTrash request_hash busy clk actor ids reason0 key requestId db = Inr (n, db')"
  shows "shop_side db db'"
proof (cases "first_row (\<lambda>r. ir_actor r = actor_accountId actor \<and> ir_scope r = ''shop.bulk-trash'' \<and> ir_key r = key)
             (idempotency_records db)")
  case None
  with assms show ?thesis
    by (auto simp: bulkTrash_def Let_def bindE_Inr_iff fold_audit shop_side_def wallet_owners_def split: if_split_asm)
next
  case (Some prior)
  with assms have "db' = db"
    by (auto simp: bulkTrash_def Let_def split: if_split_asm option.splits response_body.splits)
  then show ?thesis by simp
qed

lemma shop_step_side: "shop_step db db' \<Longrightarrow> shop_side db db'"
proof (induction rule: shop_step.induct)
  case (creates u clk actor shopId termId input db v db')
  then show ?case by (cases rule: create_cases) (auto intro: shop_side_create)
next
  case (renews clk actor termId rinput db v db')
  then show ?case by (cases rule: renew_cases) (auto intro: shop_side_renew)
next
  case (renames u actor shopId name requestId db v db')
  then show ?case
  proof (rule rename_writes)
    fix names shop h a
    assume "db' = audit a (db\<lparr>shops := update_rows (\<lambda>x. sh_id x = shopId) (renamed names (actor_accountId actor)) (shops db),
          name_history := name_history db @ [h]\<rparr>)"
    then show ?thesis by (simp add: shop_side_def wallet_owners_def)
  qed
next
  case (lifecycle clk actor shopId action reason requestId db v db')
  then show ?case
    by (auto simp: changeLifecycle_def bindE_Inr_iff split: option.splits
        intro: shop_side_trans [OF shop_side_update shop_side_audit])
next
  case (trashes request_hash busy clk actor ids reason0 key requestId db n db')
  then show ?case by (rule shop_side_trash)
next
  case (refreshes db clk)
  show ?case unfolding refreshExpiredShops_def by (rule shop_side_trans [OF shop_side_shops(1) shop_side_audits])
next
  case (pays db db')
  then show ?case by (rule shop_side_apart [OF apart_pay_step])
next
  case (adjusts adj db w db')
  then show ?case by (rule shop_side_apart [OF apart_adjust])
qed

section \<open>The invariant\<close>

definition members_inv :: "membership_row list \<Rightarrow> bool" where
  "members_inv ms \<longleftrightarrow> distinct (map sm_id ms) \<and> distinct (map (\<lambda>m. (sm_shop_id m, sm_account_id m)) ms) \<and>
     list_all (\<lambda>m. 0 < sm_epoch m) ms"

definition invitations_inv :: "invitation_row list \<Rightarrow> bool" where
  "invitations_inv is \<longleftrightarrow> distinct (map iv_id is) \<and> distinct (map iv_token_digest is) \<and>
     distinct (map (\<lambda>i. (iv_invited_by i, iv_idempotency_key i)) is) \<and>
     indexed (\<lambda>i. iv_status i = Inv_PENDING) (\<lambda>i. (iv_shop_id i, iv_phone i)) iv_id is"

definition live_export :: "export_row \<Rightarrow> bool" where
  "live_export x \<longleftrightarrow> xr_status x \<in> {X_QUEUED, X_RUNNING, X_SUCCEEDED}"

definition open_grant :: "grant_row \<Rightarrow> bool" where
  "open_grant g \<longleftrightarrow> \<not> gr_consumed g \<and> \<not> gr_revoked g"

definition entitled :: "membership_row \<Rightarrow> bool" where
  "entitled m \<longleftrightarrow> sm_status m = Member_ACTIVE \<and> sm_export_allowed m"

text \<open>A live export of a customer was asked for under the present epoch of a membership that may export.\<close>

definition exports_current :: "membership_row list \<Rightarrow> export_row list \<Rightarrow> bool" where
  "exports_current ms xs \<longleftrightarrow> (\<forall>x \<in> set xs. \<forall>e. live_export x \<and> xr_epoch x = Some e \<longrightarrow>
     (\<exists>m \<in> set ms. sm_shop_id m = xr_shop_id x \<and> sm_account_id m = xr_requested_by x \<and> entitled m \<and> sm_epoch m = e))"

definition grants_current :: "membership_row list \<Rightarrow> grant_row list \<Rightarrow> bool" where
  "grants_current ms gs \<longleftrightarrow> (\<forall>g \<in> set gs. \<forall>mid. open_grant g \<and> gr_membership_id g = Some mid \<longrightarrow>
     (\<exists>m \<in> set ms. sm_id m = mid \<and> sm_shop_id m = gr_shop_id g \<and> sm_account_id m = gr_account_id g \<and> entitled m
        \<and> gr_epoch g = Some (sm_epoch m)))"

definition member_inv :: "'z member_db_scheme \<Rightarrow> bool" where
  "member_inv db \<longleftrightarrow> members_inv (shop_memberships db) \<and> invitations_inv (invitations db) \<and>
     distinct (map xr_id (export_requests db)) \<and> distinct (map gr_token_hash (download_grants db)) \<and>
     exports_current (shop_memberships db) (export_requests db) \<and>
     grants_current (shop_memberships db) (download_grants db)"

section \<open>How rows change\<close>

definition membership_next :: "membership_row \<Rightarrow> membership_row \<Rightarrow> bool" where
  "membership_next m m' \<longleftrightarrow> sm_id m' = sm_id m \<and> sm_shop_id m' = sm_shop_id m \<and> sm_account_id m' = sm_account_id m \<and>
     sm_epoch m \<le> sm_epoch m' \<and>
     ((sm_status m', sm_export_allowed m') \<noteq> (sm_status m, sm_export_allowed m) \<longrightarrow> sm_epoch m < sm_epoch m')"

definition export_next :: "export_row \<Rightarrow> export_row \<Rightarrow> bool" where
  "export_next x x' \<longleftrightarrow> xr_id x' = xr_id x \<and> xr_shop_id x' = xr_shop_id x \<and> xr_requested_by x' = xr_requested_by x \<and>
     xr_epoch x' = xr_epoch x \<and> (live_export x \<or> xr_status x' = xr_status x)"

definition grant_next :: "grant_row \<Rightarrow> grant_row \<Rightarrow> bool" where
  "grant_next g g' \<longleftrightarrow> gr_id g' = gr_id g \<and> gr_export_id g' = gr_export_id g \<and> gr_account_id g' = gr_account_id g \<and>
     gr_membership_id g' = gr_membership_id g \<and> gr_epoch g' = gr_epoch g \<and> gr_token_hash g' = gr_token_hash g \<and>
     (gr_consumed g \<longrightarrow> gr_consumed g') \<and> (gr_revoked g \<longrightarrow> gr_revoked g')"

definition invitation_next :: "invitation_row \<Rightarrow> invitation_row \<Rightarrow> bool" where
  "invitation_next i i' \<longleftrightarrow> iv_id i' = iv_id i \<and> iv_shop_id i' = iv_shop_id i \<and> iv_phone i' = iv_phone i \<and>
     iv_token_digest i' = iv_token_digest i \<and> iv_export_allowed i' = iv_export_allowed i \<and>
     iv_invited_by i' = iv_invited_by i \<and> iv_expires_at i' = iv_expires_at i \<and>
     (iv_status i \<noteq> Inv_PENDING \<longrightarrow> iv_status i' = iv_status i)"

definition all_next :: "('r \<Rightarrow> 'r \<Rightarrow> bool) \<Rightarrow> 'r list \<Rightarrow> 'r list \<Rightarrow> bool" where
  "all_next nxt t t' \<longleftrightarrow> (\<forall>r \<in> set t. \<exists>r' \<in> set t'. nxt r r')"

definition member_evolves :: "'z member_db_scheme \<Rightarrow> 'z member_db_scheme \<Rightarrow> bool" where
  "member_evolves db db' \<longleftrightarrow> all_next membership_next (shop_memberships db) (shop_memberships db') \<and>
     all_next export_next (export_requests db) (export_requests db') \<and>
     all_next grant_next (download_grants db) (download_grants db') \<and>
     all_next invitation_next (invitations db) (invitations db') \<and>
     (\<exists>rs. idempotency_records db' = idempotency_records db @ rs)"

definition member_keeps :: "'z member_db_scheme \<Rightarrow> 'z member_db_scheme \<Rightarrow> bool" where
  "member_keeps db db' \<longleftrightarrow> (member_inv db \<longrightarrow> member_inv db' \<and> member_evolves db db')"

lemma next_refl [simp]: "membership_next m m" "export_next x x" "grant_next g g" "invitation_next i i"
  by (simp_all add: membership_next_def export_next_def grant_next_def invitation_next_def)

lemma membership_next_trans: "membership_next a b \<Longrightarrow> membership_next b c \<Longrightarrow> membership_next a c"
  unfolding membership_next_def by (metis le_less_trans less_le_trans le_trans)

lemma export_next_trans: "export_next a b \<Longrightarrow> export_next b c \<Longrightarrow> export_next a c"
  unfolding export_next_def live_export_def by metis

lemma grant_next_trans: "grant_next a b \<Longrightarrow> grant_next b c \<Longrightarrow> grant_next a c"
  unfolding grant_next_def by metis

lemma invitation_next_trans: "invitation_next a b \<Longrightarrow> invitation_next b c \<Longrightarrow> invitation_next a c"
  unfolding invitation_next_def by metis

lemma all_next_refl: "(\<And>r. nxt r r) \<Longrightarrow> all_next nxt t t"
  by (auto simp: all_next_def)

lemma all_next_append: "(\<And>r. nxt r r) \<Longrightarrow> all_next nxt t (t @ s)"
  by (auto simp: all_next_def)

lemma all_next_trans:
  "(\<And>a b c. nxt a b \<Longrightarrow> nxt b c \<Longrightarrow> nxt a c) \<Longrightarrow> all_next nxt s t \<Longrightarrow> all_next nxt t v \<Longrightarrow> all_next nxt s v"
  unfolding all_next_def by meson

lemma all_next_update:
  assumes "\<And>r. nxt r r" and "\<And>r. r \<in> set t \<Longrightarrow> p r \<Longrightarrow> nxt r (f r)"
  shows "all_next nxt t (update_rows p f t)"
  unfolding all_next_def
proof
  fix r assume "r \<in> set t"
  then show "\<exists>r' \<in> set (update_rows p f t). nxt r r'"
    using assms by (intro bexI [of _ "if p r then f r else r"]) (auto simp: in_update_rows)
qed

lemma member_evolves_refl [simp]: "member_evolves db db"
  by (simp add: member_evolves_def all_next_refl)

lemma member_evolves_trans:
  assumes "member_evolves a b" and "member_evolves b c"
  shows "member_evolves a c"
proof -
  have "all_next membership_next (shop_memberships a) (shop_memberships c)"
    by (rule all_next_trans [OF membership_next_trans, where t = "shop_memberships b"])
      (use assms in \<open>simp_all add: member_evolves_def\<close>)
  moreover have "all_next export_next (export_requests a) (export_requests c)"
    by (rule all_next_trans [OF export_next_trans, where t = "export_requests b"])
      (use assms in \<open>simp_all add: member_evolves_def\<close>)
  moreover have "all_next grant_next (download_grants a) (download_grants c)"
    by (rule all_next_trans [OF grant_next_trans, where t = "download_grants b"])
      (use assms in \<open>simp_all add: member_evolves_def\<close>)
  moreover have "all_next invitation_next (invitations a) (invitations c)"
    by (rule all_next_trans [OF invitation_next_trans, where t = "invitations b"])
      (use assms in \<open>simp_all add: member_evolves_def\<close>)
  moreover have "\<exists>rs. idempotency_records c = idempotency_records a @ rs"
    using assms by (auto simp: member_evolves_def)
  ultimately show ?thesis by (simp add: member_evolves_def)
qed

lemma member_keeps_trans: "member_keeps a b \<Longrightarrow> member_keeps b c \<Longrightarrow> member_keeps a c"
  unfolding member_keeps_def using member_evolves_trans by blast

lemma member_keeps_refl [simp]: "member_keeps db db"
  by (simp add: member_keeps_def)

lemma member_keeps_audit: "member_keeps db (audit r db)"
  by (simp add: member_keeps_def member_inv_def member_evolves_def all_next_refl)

section \<open>Changes of a membership\<close>

text \<open>What the artifacts become when a membership is invalidated under a new epoch.\<close>

definition expire_exports :: "membership_row \<Rightarrow> export_row list \<Rightarrow> export_row list" where
  "expire_exports m xs = update_rows (stale_export m (nat_str (sm_epoch m)))
     (\<lambda>x. x\<lparr>xr_status := X_REVOKED, xr_error_code := Some ''MEMBERSHIP_REVOKED''\<rparr>) xs"

definition expire_grants :: "membership_row \<Rightarrow> grant_row list \<Rightarrow> grant_row list" where
  "expire_grants m gs = update_rows (stale_grant (sm_id m) (nat_str (sm_epoch m))) (\<lambda>g. g\<lparr>gr_revoked := True\<rparr>) gs"

lemma invalidate_eq:
  assumes "distinct (map sm_id (shop_memberships db))" and "m \<in> set (shop_memberships db)"
  shows "invalidateForMembership (sm_id m) (nat_str (sm_epoch m)) db =
     db\<lparr>export_requests := expire_exports m (export_requests db), download_grants := expire_grants m (download_grants db)\<rparr>"
proof -
  have "(\<exists>y \<in> set (shop_memberships db). sm_id y = sm_id m \<and> stale_export y e x) \<longleftrightarrow> stale_export m e x" for e x
    using distinct_row [OF assms(1) _ assms(2)] assms(2) by metis
  then show ?thesis by (simp add: invalidateForMembership_def expire_exports_def expire_grants_def)
qed

lemma expire_next: "all_next export_next xs (expire_exports m xs)" "all_next grant_next gs (expire_grants m gs)"
  unfolding expire_exports_def expire_grants_def
  by (intro all_next_update; auto simp: export_next_def grant_next_def live_export_def stale_export_def)+

lemma expire_keys: "map xr_id (expire_exports m xs) = map xr_id xs" "map gr_token_hash (expire_grants m gs) = map gr_token_hash gs"
  unfolding expire_exports_def expire_grants_def by (simp_all add: map_update_rows)

lemma expire_exports_live:
  assumes "x \<in> set (expire_exports m xs)" and "live_export x"
  shows "x \<in> set xs \<and> \<not> stale_export m (nat_str (sm_epoch m)) x"
proof -
  obtain y where y: "y \<in> set xs" "x = (if stale_export m (nat_str (sm_epoch m)) y
      then y\<lparr>xr_status := X_REVOKED, xr_error_code := Some ''MEMBERSHIP_REVOKED''\<rparr> else y)"
    using assms(1) unfolding expire_exports_def in_update_rows by blast
  then show ?thesis using assms(2) by (cases "stale_export m (nat_str (sm_epoch m)) y") (simp_all add: live_export_def)
qed

lemma expire_grants_open:
  assumes "g \<in> set (expire_grants m gs)" and "open_grant g"
  shows "g \<in> set gs \<and> \<not> stale_grant (sm_id m) (nat_str (sm_epoch m)) g"
proof -
  obtain y where y: "y \<in> set gs" "g = (if stale_grant (sm_id m) (nat_str (sm_epoch m)) y then y\<lparr>gr_revoked := True\<rparr> else y)"
    using assms(1) unfolding expire_grants_def in_update_rows by blast
  then show ?thesis
    using assms(2) by (cases "stale_grant (sm_id m) (nat_str (sm_epoch m)) y") (simp_all add: open_grant_def)
qed

text \<open>One membership moved to a higher epoch; its artifacts are invalidated, or it had no right to any.\<close>

lemma current_update:
  assumes inv: "members_inv ms" and m: "m \<in> set ms" and m': "sm_id m' = sm_id m" "sm_shop_id m' = sm_shop_id m"
      "sm_account_id m' = sm_account_id m" "sm_epoch m' = sm_epoch m + 1"
    and cur: "exports_current ms xs" "grants_current ms gs"
    and art: "xs' = expire_exports m' xs \<and> gs' = expire_grants m' gs \<or> xs' = xs \<and> gs' = gs \<and> \<not> entitled m"
  shows "exports_current (update_rows (\<lambda>x. sm_id x = sm_id m) (\<lambda>_. m') ms) xs' \<and>
     grants_current (update_rows (\<lambda>x. sm_id x = sm_id m) (\<lambda>_. m') ms) gs'"
proof
  have stays: "y \<in> set (update_rows (\<lambda>x. sm_id x = sm_id m) (\<lambda>_. m') ms)" if "y \<in> set ms" "y \<noteq> m" for y
  proof -
    have "sm_id y \<noteq> sm_id m" using distinct_row [of sm_id ms y m] inv m that by (auto simp: members_inv_def)
    then show ?thesis using that(1) by (auto simp: in_update_rows)
  qed
  show "exports_current (update_rows (\<lambda>x. sm_id x = sm_id m) (\<lambda>_. m') ms) xs'"
    unfolding exports_current_def
  proof (intro ballI allI impI)
    fix x e assume x: "x \<in> set xs'" and l: "live_export x \<and> xr_epoch x = Some e"
    have xs: "x \<in> set xs" using x l art expire_exports_live by blast
    then obtain y where y: "y \<in> set ms" "sm_shop_id y = xr_shop_id x" "sm_account_id y = xr_requested_by x" "entitled y" "sm_epoch y = e"
      using cur(1) l unfolding exports_current_def by blast
    have "y \<noteq> m"
    proof
      assume "y = m"
      then have "stale_export m' (nat_str (sm_epoch m')) x"
        using y l m' by (auto simp: stale_export_def live_export_def)
      then show False using art x l y \<open>y = m\<close> expire_exports_live by blast
    qed
    with y stays show "\<exists>y \<in> set (update_rows (\<lambda>x. sm_id x = sm_id m) (\<lambda>_. m') ms).
        sm_shop_id y = xr_shop_id x \<and> sm_account_id y = xr_requested_by x \<and> entitled y \<and> sm_epoch y = e" by blast
  qed
  show "grants_current (update_rows (\<lambda>x. sm_id x = sm_id m) (\<lambda>_. m') ms) gs'"
    unfolding grants_current_def
  proof (intro ballI allI impI)
    fix g mid assume g: "g \<in> set gs'" and l: "open_grant g \<and> gr_membership_id g = Some mid"
    have gs: "g \<in> set gs" using g l art expire_grants_open by blast
    then obtain y where y: "y \<in> set ms" "sm_id y = mid" "sm_shop_id y = gr_shop_id g" "sm_account_id y = gr_account_id g"
        "entitled y" "gr_epoch g = Some (sm_epoch y)"
      using cur(2) l unfolding grants_current_def by blast
    have "y \<noteq> m"
    proof
      assume "y = m"
      then have "stale_grant (sm_id m') (nat_str (sm_epoch m')) g"
        using y l m' by (auto simp: stale_grant_def open_grant_def)
      then show False using art g l y \<open>y = m\<close> expire_grants_open by blast
    qed
    with y stays show "\<exists>y \<in> set (update_rows (\<lambda>x. sm_id x = sm_id m) (\<lambda>_. m') ms).
        sm_id y = mid \<and> sm_shop_id y = gr_shop_id g \<and> sm_account_id y = gr_account_id g \<and> entitled y
        \<and> gr_epoch g = Some (sm_epoch y)" by blast
  qed
qed

lemma members_inv_update:
  assumes "members_inv ms" and "m \<in> set ms" and "sm_id m' = sm_id m" and "sm_shop_id m' = sm_shop_id m"
      and "sm_account_id m' = sm_account_id m" and "0 < sm_epoch m'"
  shows "members_inv (update_rows (\<lambda>x. sm_id x = sm_id m) (\<lambda>_. m') ms)"
proof -
  have only: "x = m" if "x \<in> set ms" "sm_id x = sm_id m" for x
    using distinct_row [of sm_id ms x m] assms(1,2) that by (simp add: members_inv_def)
  have "map sm_id (update_rows (\<lambda>x. sm_id x = sm_id m) (\<lambda>_. m') ms) = map sm_id ms"
    by (rule map_ident_update) (use only assms(3) in auto)
  moreover have "map (\<lambda>m. (sm_shop_id m, sm_account_id m)) (update_rows (\<lambda>x. sm_id x = sm_id m) (\<lambda>_. m') ms)
      = map (\<lambda>m. (sm_shop_id m, sm_account_id m)) ms"
    by (rule map_ident_update) (use only assms(4,5) in auto)
  moreover have "list_all (\<lambda>m. 0 < sm_epoch m) (update_rows (\<lambda>x. sm_id x = sm_id m) (\<lambda>_. m') ms)"
    using assms(1,6) by (auto simp: members_inv_def list_all_iff in_update_rows)
  ultimately show ?thesis using assms(1) unfolding members_inv_def by (simp only:)
qed

lemma moved_keeps:
  fixes db :: "'z member_db_scheme"
  assumes inv: "member_inv db" and m: "m \<in> set (shop_memberships db)" and m': "sm_id m' = sm_id m"
      "sm_shop_id m' = sm_shop_id m" "sm_account_id m' = sm_account_id m" "sm_epoch m' = sm_epoch m + 1"
    and ms: "shop_memberships db' = update_rows (\<lambda>x. sm_id x = sm_id m) (\<lambda>_. m') (shop_memberships db)"
    and art: "export_requests db' = expire_exports m' (export_requests db) \<and> download_grants db' = expire_grants m' (download_grants db)
       \<or> export_requests db' = export_requests db \<and> download_grants db' = download_grants db \<and> \<not> entitled m"
    and rest: "invitations db' = invitations db" "idempotency_records db' = idempotency_records db @ rs"
  shows "member_inv db' \<and> member_evolves db db'"
proof
  have i: "members_inv (shop_memberships db)" "exports_current (shop_memberships db) (export_requests db)"
    "grants_current (shop_memberships db) (download_grants db)"
    using inv by (simp_all add: member_inv_def)
  have "members_inv (shop_memberships db')" unfolding ms by (rule members_inv_update [OF i(1) m m'(1-3)]) (simp add: m'(4))
  moreover have "exports_current (shop_memberships db') (export_requests db') \<and> grants_current (shop_memberships db') (download_grants db')"
    unfolding ms by (rule current_update [OF i(1) m m' i(2,3) art])
  moreover have "map xr_id (export_requests db') = map xr_id (export_requests db)"
    "map gr_token_hash (download_grants db') = map gr_token_hash (download_grants db)"
    using art by (auto simp: expire_keys)
  ultimately show "member_inv db'" using inv rest(1) unfolding member_inv_def by simp
  have "all_next membership_next (shop_memberships db) (shop_memberships db')"
    unfolding ms
  proof (rule all_next_update)
    fix x assume "x \<in> set (shop_memberships db)" "sm_id x = sm_id m"
    then have "x = m" using distinct_row [of sm_id _ x m] i(1) m by (auto simp: members_inv_def)
    then show "membership_next x m'" using m' by (simp add: membership_next_def)
  qed simp
  moreover have "all_next export_next (export_requests db) (export_requests db')"
    "all_next grant_next (download_grants db) (download_grants db')"
    using art expire_next all_next_refl [of export_next] all_next_refl [of grant_next] by auto
  ultimately show "member_evolves db db'" by (simp add: member_evolves_def rest all_next_refl)
qed

section \<open>Activation\<close>

definition renewed_membership :: "Activation \<Rightarrow> membership_row \<Rightarrow> membership_row" where
  "renewed_membership a m = m\<lparr>sm_status := Member_ACTIVE, sm_export_allowed := av_exportAllowed a, sm_epoch := sm_epoch m + 1,
     sm_invitation_id := Some (av_invitationId a), sm_granted_by := av_grantedBy a, sm_revoke_reason := None\<rparr>"

lemma renewed_membership_simps [simp]:
  "sm_id (renewed_membership a m) = sm_id m" "sm_shop_id (renewed_membership a m) = sm_shop_id m"
  "sm_account_id (renewed_membership a m) = sm_account_id m" "sm_epoch (renewed_membership a m) = sm_epoch m + 1"
  "sm_status (renewed_membership a m) = Member_ACTIVE"
  "sm_export_allowed (renewed_membership a m) = av_exportAllowed a"
  by (simp_all add: renewed_membership_def)

definition first_membership :: "string \<Rightarrow> Activation \<Rightarrow> membership_row" where
  "first_membership newId a = \<lparr> sm_id = newId, sm_shop_id = av_shopId a, sm_account_id = av_accountId a,
     sm_status = Member_ACTIVE, sm_export_allowed = av_exportAllowed a, sm_epoch = 1,
     sm_invitation_id = Some (av_invitationId a), sm_granted_by = av_grantedBy a, sm_revoke_reason = None \<rparr>"

lemma nat_str_1: "nat_str n = ''1'' \<longleftrightarrow> n = 1"
proof -
  have "(of_char CHR ''1'' :: nat) = 49" by simp
  then have "char_of (49 :: nat) = CHR ''1''" by (metis char_of_char)
  then have "nat_str 1 = ''1''" by (simp add: code_defs)
  then show ?thesis by (metis nat_str_inj)
qed

lemma activate_cases:
  fixes db :: "'z member_db_scheme"
  assumes "activateShopMembership newId a db = Inr (cm, db')" and inv: "members_inv (shop_memberships db)"
  obtains (anew) m where "m \<in> set (shop_memberships db)" and "sm_shop_id m = av_shopId a" and "sm_account_id m = av_accountId a"
      and "cm = mapMembership (renewed_membership a m)"
      and "db' = db\<lparr>shop_memberships := update_rows (\<lambda>x. sm_id x = sm_id m) (\<lambda>_. renewed_membership a m) (shop_memberships db),
          export_requests := expire_exports (renewed_membership a m) (export_requests db),
          download_grants := expire_grants (renewed_membership a m) (download_grants db)\<rparr>"
  | (starts) "\<forall>m \<in> set (shop_memberships db). \<not> (sm_shop_id m = av_shopId a \<and> sm_account_id m = av_accountId a)"
      and "\<forall>m \<in> set (shop_memberships db). sm_id m \<noteq> newId" and "cm = mapMembership (first_membership newId a)"
      and "db' = db\<lparr>shop_memberships := shop_memberships db @ [first_membership newId a]\<rparr>"
proof (cases "first_row (\<lambda>m. sm_shop_id m = av_shopId a \<and> sm_account_id m = av_accountId a) (shop_memberships db)")
  case None
  have "nat_str (Suc 0) = ''1''" using nat_str_1 by simp
  then show thesis
    using assms(1) None
    by (intro starts) (auto simp: activateShopMembership_def upsert_membership_def bindE_Inr_iff Let_def first_membership_def
      first_row_None_iff split: if_split_asm)
next
  case (Some m)
  note row = first_row_SomeD [OF Some]
  let ?m = "renewed_membership a m"
  let ?db1 = "db\<lparr>shop_memberships := update_rows (\<lambda>x. sm_id x = sm_id m) (\<lambda>_. ?m) (shop_memberships db)\<rparr>"
  have pos: "0 < sm_epoch m" using inv row by (auto simp: members_inv_def list_all_iff)
  have id: "sm_id ?m = sm_id m" "sm_epoch ?m = sm_epoch m + 1" by (simp_all add: renewed_membership_def)
  have u: "upsert_membership newId a db = Inr (?m, ?db1)"
    using assms(1) Some by (auto simp: activateShopMembership_def upsert_membership_def bindE_Inr_iff Let_def
      renewed_membership_def split: if_split_asm)
  have "members_inv (shop_memberships ?db1)"
    using members_inv_update [OF inv, of m ?m] row by (simp add: renewed_membership_def)
  then have d: "distinct (map sm_id (shop_memberships ?db1))" unfolding members_inv_def by blast
  have "?m \<in> set (shop_memberships ?db1)" using row by (auto simp: in_update_rows intro: bexI [of _ m])
  from invalidate_eq [OF d this] have inval: "invalidateForMembership (sm_id ?m) (nat_str (sm_epoch ?m)) ?db1 =
      ?db1\<lparr>export_requests := expire_exports ?m (export_requests ?db1), download_grants := expire_grants ?m (download_grants ?db1)\<rparr>" .
  have "nat_str (sm_epoch ?m) \<noteq> ''1''" using pos id nat_str_1 by simp
  then have "cm = mapMembership ?m" and "db' = invalidateForMembership (sm_id ?m) (nat_str (sm_epoch ?m)) ?db1"
    using assms(1) u by (simp_all add: activateShopMembership_def Let_def)
  with inval row show thesis by (intro anew) simp_all
qed

lemma activate_keeps:
  fixes db :: "'z member_db_scheme"
  assumes act: "activateShopMembership newId a db = Inr (cm, db')"
  shows "member_keeps db db'"
  unfolding member_keeps_def
proof
  assume inv: "member_inv db"
  then have "members_inv (shop_memberships db)" by (simp add: member_inv_def)
  from act this show "member_inv db' \<and> member_evolves db db'"
  proof (cases rule: activate_cases)
    case (anew m)
    then show ?thesis by (intro moved_keeps [OF inv anew(1), where m' = "renewed_membership a m" and rs = "[]"]) simp_all
  next
    case starts
    then have "member_inv db'" using inv
      by (auto simp: member_inv_def members_inv_def first_membership_def exports_current_def grants_current_def)
    then show ?thesis by (simp add: starts(4) member_evolves_def all_next_refl all_next_append)
  qed
qed

lemma activate_invitations:
  fixes db :: "'z member_db_scheme"
  shows "activateShopMembership newId a db = Inr (cm, db') \<Longrightarrow> invitations db' = invitations db"
  by (auto simp: activateShopMembership_def upsert_membership_def invalidateForMembership_def bindE_Inr_iff Let_def
      split: option.splits if_split_asm)

section \<open>Invitations\<close>

lemma invitations_inv_leave:
  assumes "invitations_inv is" and "\<And>i. f i = i\<lparr>iv_status := st, iv_accepted_by := acc i\<rparr>" and "st \<noteq> Inv_PENDING"
  shows "invitations_inv (update_rows p f is)"
proof -
  have "indexed (\<lambda>i. iv_status i = Inv_PENDING) (\<lambda>i. (iv_shop_id i, iv_phone i)) iv_id (update_rows p f is)"
    by (rule indexed_update_leaving) (use assms in \<open>simp_all add: invitations_inv_def\<close>)
  moreover have "map iv_id (update_rows p f is) = map iv_id is" by (simp add: map_update_rows assms(2))
  moreover have "map iv_token_digest (update_rows p f is) = map iv_token_digest is" by (simp add: map_update_rows assms(2))
  moreover have "map (\<lambda>i. (iv_invited_by i, iv_idempotency_key i)) (update_rows p f is)
      = map (\<lambda>i. (iv_invited_by i, iv_idempotency_key i)) is" by (rule map_update_rows) (simp add: assms(2))
  ultimately show ?thesis using assms(1) unfolding invitations_inv_def by (simp only:)
qed

lemma member_keeps_invitations:
  assumes "member_inv db \<Longrightarrow> invitations_inv is \<and> all_next invitation_next (invitations db) is"
  shows "member_keeps db (db\<lparr>invitations := is\<rparr>)"
  using assms by (simp add: member_keeps_def member_evolves_def all_next_refl) (simp add: member_inv_def)

lemma left_invitations:
  assumes inv: "member_inv db" and f: "\<And>i. f i = i\<lparr>iv_status := st, iv_accepted_by := acc i\<rparr>" and st: "st \<noteq> Inv_PENDING"
    and p: "\<And>i. i \<in> set (invitations db) \<Longrightarrow> p i \<Longrightarrow> iv_status i = Inv_PENDING"
  shows "invitations_inv (update_rows p f (invitations db)) \<and>
     all_next invitation_next (invitations db) (update_rows p f (invitations db))"
proof
  show "invitations_inv (update_rows p f (invitations db))"
    by (rule invitations_inv_leave [OF _ f st]) (use inv in \<open>simp add: member_inv_def\<close>)
  show "all_next invitation_next (invitations db) (update_rows p f (invitations db))"
    by (rule all_next_update) (use f p in \<open>auto simp: invitation_next_def\<close>)
qed

lemma accept_invitation_keeps:
  assumes "\<And>i. member_inv db \<Longrightarrow> i \<in> set (invitations db) \<Longrightarrow> p i \<Longrightarrow> iv_status i = Inv_PENDING"
  shows "member_keeps db (accept_invitation p aid db)"
  unfolding accept_invitation_def
proof (rule member_keeps_invitations)
  assume inv: "member_inv db"
  then show "invitations_inv (update_rows p (\<lambda>i. i\<lparr>iv_status := Inv_ACTIVE, iv_accepted_by := Some aid\<rparr>) (invitations db)) \<and>
      all_next invitation_next (invitations db)
        (update_rows p (\<lambda>i. i\<lparr>iv_status := Inv_ACTIVE, iv_accepted_by := Some aid\<rparr>) (invitations db))"
    by (rule left_invitations [where st = Inv_ACTIVE and acc = "\<lambda>_. Some aid"]) (use assms inv in simp_all)
qed

lemma member_keeps_audits: "member_keeps db (fold (\<lambda>s. audit (g s)) xs db)"
  by (induction xs arbitrary: db) (auto intro: member_keeps_trans [OF member_keeps_audit])

lemma expire_invitations_keeps:
  assumes "\<And>i. p i \<Longrightarrow> iv_status i = Inv_PENDING"
  shows "member_keeps db (expire_invitations p requestId db)"
  unfolding expire_invitations_def
proof (rule member_keeps_trans [OF member_keeps_invitations member_keeps_audits])
  assume "member_inv db"
  then show "invitations_inv (update_rows p (\<lambda>i. i\<lparr>iv_status := Inv_EXPIRED\<rparr>) (invitations db)) \<and>
      all_next invitation_next (invitations db) (update_rows p (\<lambda>i. i\<lparr>iv_status := Inv_EXPIRED\<rparr>) (invitations db))"
    by (rule left_invitations [where st = Inv_EXPIRED and acc = iv_accepted_by]) (use assms in simp_all)
qed

lemma insert_invitation_keeps:
  assumes "insert_invitation clk i db = Inr db'"
  shows "member_keeps db db'"
proof -
  have db': "db' = db\<lparr>invitations := invitations db @ [i]\<rparr>"
    and free: "\<forall>x \<in> set (invitations db). iv_id x \<noteq> iv_id i \<and> iv_token_digest x \<noteq> iv_token_digest i"
      "\<not> index_taken (\<lambda>x. iv_status x = Inv_PENDING) (\<lambda>x. (iv_shop_id x, iv_phone x)) iv_id i (invitations db)"
      "\<forall>x \<in> set (invitations db). \<not> (iv_invited_by x = iv_invited_by i \<and> iv_idempotency_key x = iv_idempotency_key i)"
    using assms by (auto simp: insert_invitation_def split: if_split_asm)
  have "invitations_inv (invitations db @ [i])" if inv: "invitations_inv (invitations db)"
  proof -
    have "indexed (\<lambda>i. iv_status i = Inv_PENDING) (\<lambda>i. (iv_shop_id i, iv_phone i)) iv_id (invitations db @ [i])"
      by (rule indexed_append [OF _ free(2)]) (use inv in \<open>simp add: invitations_inv_def\<close>)
    with inv free(1,3) show ?thesis by (auto simp: invitations_inv_def)
  qed
  then have "member_keeps db (db\<lparr>invitations := invitations db @ [i]\<rparr>)"
    by (intro member_keeps_invitations) (simp add: member_inv_def all_next_append)
  then show ?thesis by (simp add: db')
qed

lemma register_keeps:
  assumes "activateForRegisteredCustomer newId i phone requestId db = Inr (st, db')"
  shows "member_keeps db db'"
proof -
  let ?p = "\<lambda>x. iv_id x = iv_id i \<and> iv_status x = Inv_PENDING"
  consider "db' = db"
    | a cm db1 aid r where "activateShopMembership newId a db = Inr (cm, db1)" "db' = audit r (accept_invitation ?p aid db1)"
    using assms by (auto simp: activateForRegisteredCustomer_def bindE_Inr_iff split: option.splits if_split_asm)
  then show ?thesis
  proof cases
    case 2
    have "member_keeps db1 (accept_invitation ?p aid db1)" by (rule accept_invitation_keeps) simp
    then show ?thesis
      unfolding 2(2) by (rule member_keeps_trans [OF activate_keeps [OF 2(1)] member_keeps_trans [OF _ member_keeps_audit]])
  qed simp
qed

lemma invite_keeps:
  assumes "invite k clk actor invitationId newId input db = Inr (v, db')"
  shows "member_keeps db db'"
proof -
  obtain phone where phone: "normalizePhone (in_phone input) = Inr phone" using assms by (auto simp: invite_def bindE_Inr_iff)
  define db1 where "db1 = expire_invitations (\<lambda>i. iv_shop_id i = in_shopId input \<and> iv_phone i = phone
             \<and> iv_status i = Inv_PENDING \<and> iv_expires_at i \<le> now clk) (in_requestId input) db"
  have k1: "member_keeps db db1" unfolding db1_def by (rule expire_invitations_keeps) simp
  show ?thesis
  proof (cases "first_row (\<lambda>i. iv_invited_by i = actor_accountId actor \<and> iv_idempotency_key i = in_idempotencyKey input) (invitations db1)")
    case (Some prior)
    with assms phone have "db' = db1 \<or> (\<exists>st. activateForRegisteredCustomer newId prior phone (in_requestId input) db1 = Inr (st, db'))"
      by (auto simp: invite_def bindE_Inr_iff Let_def db1_def [symmetric] split: if_split_asm)
    then show ?thesis using k1 member_keeps_trans [OF k1 register_keeps] by blast
  next
    case None
    with assms phone obtain i db2 r st where "insert_invitation clk i db1 = Inr db2"
      "activateForRegisteredCustomer newId i phone (in_requestId input) (audit r db2) = Inr (st, db')"
      by (auto simp: invite_def bindE_Inr_iff Let_def db1_def [symmetric])
    then show ?thesis
      using member_keeps_trans [OF k1 member_keeps_trans [OF insert_invitation_keeps member_keeps_trans [OF member_keeps_audit register_keeps]]]
      by blast
  qed
qed

lemma accept_tx_cases:
  assumes "accept_tx k clk actor newId token requestId db = Inr (r, db')"
  obtains (invalid) "r = None"
      and "db' = db \<or> (\<exists>i. db' = expire_invitations (\<lambda>x. iv_id x = i \<and> iv_status x = Inv_PENDING) requestId db)"
  | (valid) i account cm db1 a where "first_row (\<lambda>i. iv_token_digest i = token_digest k token) (invitations db) = Some i"
      and "first_row (\<lambda>a. ac_id a = actor_accountId actor) (accounts db) = Some account"
      and "iv_status i = Inv_PENDING" and "now clk < iv_expires_at i" and "iv_phone i = ac_phone account"
      and "activateShopMembership newId (activation_of i (actor_accountId actor)) db = Inr (cm, db1)" and "r = Some cm"
      and "db' = audit a (accept_invitation (\<lambda>x. iv_id x = iv_id i) (actor_accountId actor) db1)"
  using assms by (auto simp: accept_tx_def bindE_Inr_iff not_le split: option.splits if_split_asm)

lemma accept_keeps:
  assumes "accept_membership k clk actor newId token requestId db = (r, db')"
  shows "member_keeps db db'"
proof -
  have "db' = db \<or> (\<exists>m. accept_tx k clk actor newId token requestId db = Inr (m, db'))"
    using assms by (auto simp: accept_membership_def split: if_split_asm sum.splits option.splits)
  then show ?thesis
  proof
    assume "\<exists>m. accept_tx k clk actor newId token requestId db = Inr (m, db')"
    then obtain m where "accept_tx k clk actor newId token requestId db = Inr (m, db')" ..
    then show ?thesis
    proof (cases rule: accept_tx_cases)
      case invalid
      have "member_keeps db (expire_invitations (\<lambda>x. iv_id x = i \<and> iv_status x = Inv_PENDING) requestId db)" for i
        by (rule expire_invitations_keeps) simp
      with invalid(2) show ?thesis by auto
    next
      case (valid i account cm db1 a)
      have "member_keeps db1 (accept_invitation (\<lambda>x. iv_id x = iv_id i) (actor_accountId actor) db1)"
      proof (rule accept_invitation_keeps)
        fix x assume inv: "member_inv db1" and x: "x \<in> set (invitations db1)" "iv_id x = iv_id i"
        have "distinct (map iv_id (invitations db1))" using inv unfolding member_inv_def invitations_inv_def by blast
        moreover have "i \<in> set (invitations db1)"
          using first_row_SomeD [OF valid(1)] activate_invitations [OF valid(6)] by simp
        ultimately have "x = i" using distinct_row x by metis
        then show "iv_status x = Inv_PENDING" using valid(3) by simp
      qed
      then show ?thesis
        unfolding valid(8) by (rule member_keeps_trans [OF activate_keeps [OF valid(6)] member_keeps_trans [OF _ member_keeps_audit]])
    qed
  qed simp
qed

section \<open>Changing and revoking\<close>

lemma load_membership:
  assumes "loadMembershipForChange mid db = Inr (row, shop)"
  shows "row \<in> set (shop_memberships db)" "sm_id row = mid" "shop \<in> set (shops db)" "sh_id shop = sm_shop_id row"
  using assms
  by (auto simp: loadMembershipForChange_def loadShop_def bindE_Inr_iff split: option.splits dest!: first_row_SomeD)

lemma update_membership_active:
  assumes inv: "members_inv (shop_memberships db)" and row: "row \<in> set (shop_memberships db)" and act: "sm_status row = Member_ACTIVE"
  shows "update_membership (sm_id row) f db = (Some (f row),
     db\<lparr>shop_memberships := update_rows (\<lambda>x. sm_id x = sm_id row) (\<lambda>_. f row) (shop_memberships db)\<rparr>)"
proof -
  have d: "distinct (map sm_id (shop_memberships db))" using inv by (simp add: members_inv_def)
  have only: "x = row" if "x \<in> set (shop_memberships db)" "sm_id x = sm_id row" for x using distinct_row [OF d that(1) row that(2)] .
  have "first_row (\<lambda>m. sm_id m = sm_id row) (shop_memberships db) = Some row" by (rule first_row_unique [OF d row])
  then have "first_row (\<lambda>m. sm_id m = sm_id row \<and> sm_status m = Member_ACTIVE) (shop_memberships db) = Some row"
    by (rule first_row_guarded) (rule act)
  moreover have "update_rows (\<lambda>m. sm_id m = sm_id row \<and> sm_status m = Member_ACTIVE) f (shop_memberships db)
      = update_rows (\<lambda>x. sm_id x = sm_id row) (\<lambda>_. f row) (shop_memberships db)"
    unfolding update_rows_def using only act by (intro map_cong) auto
  ultimately show ?thesis by (simp add: update_membership_def)
qed

definition stored :: "string \<Rightarrow> string \<Rightarrow> string \<Rightarrow> string \<Rightarrow> CustomerMembership \<Rightarrow> idempotency_row" where
  "stored aid scp key hash m =
     \<lparr> ir_actor = aid, ir_scope = scp, ir_key = key, ir_request_hash = hash, ir_response = Some (Changed m) \<rparr>"

lemma store_Inr_iff:
  "storeIdempotentChange aid scp key hash m db = Inr db' \<longleftrightarrow>
     (\<forall>r \<in> set (idempotency_records db). \<not> (ir_actor r = aid \<and> ir_scope r = scp \<and> ir_key r = key)) \<and>
     db' = db\<lparr>idempotency_records := idempotency_records db @ [stored aid scp key hash m]\<rparr>"
  by (auto simp: storeIdempotentChange_def stored_def)

text \<open>The tables after a membership became \<open>m'\<close> and its artifacts were invalidated when \<open>inval\<close>.\<close>

definition moved_to :: "membership_row \<Rightarrow> bool \<Rightarrow> idempotency_row \<Rightarrow> 'z member_db_scheme \<Rightarrow> 'z member_db_scheme \<Rightarrow> bool" where
  "moved_to m' inval r db db' \<longleftrightarrow>
     shop_memberships db' = update_rows (\<lambda>x. sm_id x = sm_id m') (\<lambda>_. m') (shop_memberships db) \<and>
     (if inval then export_requests db' = expire_exports m' (export_requests db) \<and> download_grants db' = expire_grants m' (download_grants db)
      else export_requests db' = export_requests db \<and> download_grants db' = download_grants db) \<and>
     invitations db' = invitations db \<and> idempotency_records db' = idempotency_records db @ [r] \<and> shops db' = shops db \<and>
     accounts db' = accounts db \<and> enterprises db' = enterprises db \<and> enterprise_members db' = enterprise_members db \<and>
     wallets db' = wallets db"

lemma store_moved:
  assumes inv: "members_inv (shop_memberships db)" and row: "row \<in> set (shop_memberships db)" and id: "sm_id m' = sm_id row"
      "sm_shop_id m' = sm_shop_id row" "sm_account_id m' = sm_account_id row" "0 < sm_epoch m'"
    and db1: "db1 = db\<lparr>shop_memberships := update_rows (\<lambda>x. sm_id x = sm_id row) (\<lambda>_. m') (shop_memberships db)\<rparr>"
    and st: "storeIdempotentChange aid scp key hash cm
        (audit a (if inval then invalidateForMembership (sm_id m') (nat_str (sm_epoch m')) db1 else db1)) = Inr db'"
  shows "moved_to m' inval (stored aid scp key hash cm) db db'"
proof -
  have "members_inv (shop_memberships db1)" unfolding db1 using members_inv_update [OF inv row id] by simp
  then have d: "distinct (map sm_id (shop_memberships db1))" unfolding members_inv_def by blast
  have "m' \<in> set (shop_memberships db1)" unfolding db1 using row by (auto simp: in_update_rows intro: bexI [of _ row])
  note inval = invalidate_eq [OF d this]
  show ?thesis
    using st unfolding store_Inr_iff
    by (cases inval) (simp_all add: inval [unfolded id(1)] moved_to_def id(1), simp_all add: db1)
qed

lemma setExportAllowed_cases:
  fixes db :: "'z member_db_scheme"
  assumes "setExportAllowed k actor allow_export input db = Inr (cm, db')" and inv: "members_inv (shop_memberships db)"
  obtains (again) "db' = db"
      and "readIdempotentChange (actor_accountId actor) ''membership-export'' (mc_idempotencyKey input)
        (changeRequestHash k ''EXPORT'' (mc_membershipId input) (bool_text allow_export) (trim (mc_reason input))) db = Inr (Some cm)"
  | (same) row where "row \<in> set (shop_memberships db)" and "sm_id row = mc_membershipId input" and "sm_status row = Member_ACTIVE"
      and "sm_export_allowed row = allow_export" and "cm = mapMembership row"
      and "db' = db\<lparr>idempotency_records := idempotency_records db @ [stored (actor_accountId actor) ''membership-export''
         (mc_idempotencyKey input) (changeRequestHash k ''EXPORT'' (mc_membershipId input) (bool_text allow_export)
         (trim (mc_reason input))) cm]\<rparr>"
  | (moves) row m' where "row \<in> set (shop_memberships db)" and "sm_id row = mc_membershipId input" and "sm_status row = Member_ACTIVE"
      and "sm_export_allowed row = (\<not> allow_export)"
      and "m' = row\<lparr>sm_export_allowed := allow_export, sm_epoch := sm_epoch row + 1\<rparr>" and "cm = mapMembership m'"
      and "moved_to m' (\<not> allow_export) (stored (actor_accountId actor) ''membership-export''
         (mc_idempotencyKey input) (changeRequestHash k ''EXPORT'' (mc_membershipId input) (bool_text allow_export)
         (trim (mc_reason input))) cm) db db'"
proof -
  define hash where "hash = changeRequestHash k ''EXPORT'' (mc_membershipId input) (bool_text allow_export) (trim (mc_reason input))"
  from assms(1) obtain row shop dup where load: "loadMembershipForChange (mc_membershipId input) db = Inr (row, shop)"
    and man: "requireManage actor shop = Inr ()"
    and dup: "readIdempotentChange (actor_accountId actor) ''membership-export'' (mc_idempotencyKey input) hash db = Inr dup"
    by (auto simp: setExportAllowed_def Let_def bindE_Inr_iff hash_def split: if_split_asm)
  note row = load_membership(1,2) [OF load]
  show thesis
  proof (cases dup)
    case (Some m)
    with assms(1) load man dup show thesis
      by (intro again) (auto simp: setExportAllowed_def Let_def hash_def split: if_split_asm)
  next
    case None
    have act: "sm_status row = Member_ACTIVE"
      using assms(1) load man dup None by (auto simp: setExportAllowed_def Let_def hash_def split: if_split_asm)
    let ?f = "\<lambda>m. m\<lparr>sm_export_allowed := allow_export, sm_epoch := sm_epoch m + 1\<rparr>"
    note upd = update_membership_active [OF inv row(1) act, of ?f]
    show thesis
    proof (cases "sm_export_allowed row = allow_export")
      case True
      with assms(1) load man dup None act row show thesis
        by (intro same [of row]) (auto simp: setExportAllowed_def Let_def hash_def bindE_Inr_iff store_Inr_iff split: if_split_asm)
    next
      case False
      let ?db1 = "db\<lparr>shop_memberships := update_rows (\<lambda>x. sm_id x = sm_id row) (\<lambda>_. ?f row) (shop_memberships db)\<rparr>"
      have "\<exists>a. cm = mapMembership (?f row) \<and>
          storeIdempotentChange (actor_accountId actor) ''membership-export'' (mc_idempotencyKey input) hash (mapMembership (?f row))
            (audit a (if \<not> allow_export then invalidateForMembership (sm_id (?f row)) (nat_str (sm_epoch (?f row))) ?db1
              else ?db1)) = Inr db'"
        using assms(1) load man dup [unfolded None] act False upd
        by (cases allow_export) (auto simp: setExportAllowed_def Let_def hash_def bindE_Inr_iff split: if_split_asm)
      then obtain a where cm: "cm = mapMembership (?f row)"
        and st: "storeIdempotentChange (actor_accountId actor) ''membership-export'' (mc_idempotencyKey input) hash (mapMembership (?f row))
            (audit a (if \<not> allow_export then invalidateForMembership (sm_id (?f row)) (nat_str (sm_epoch (?f row))) ?db1
              else ?db1)) = Inr db'" by blast
      have "moved_to (?f row) (\<not> allow_export) (stored (actor_accountId actor) ''membership-export'' (mc_idempotencyKey input) hash cm) db db'"
        unfolding cm by (rule store_moved [OF inv row(1) _ _ _ _ refl st]) simp_all
      with row act False cm show thesis by (intro moves [of row "?f row"]) (auto simp: hash_def)
    qed
  qed
qed

lemma revoke_cases:
  fixes db :: "'z member_db_scheme"
  assumes "revoke_membership k actor input db = Inr (cm, db')" and inv: "members_inv (shop_memberships db)"
  obtains (again) "db' = db"
      and "readIdempotentChange (actor_accountId actor) ''membership-revoke'' (mc_idempotencyKey input)
        (changeRequestHash k ''REVOKE'' (mc_membershipId input) [] (trim (mc_reason input))) db = Inr (Some cm)"
  | (same) row where "row \<in> set (shop_memberships db)" and "sm_id row = mc_membershipId input" and "sm_status row \<noteq> Member_ACTIVE"
      and "cm = mapMembership row"
      and "db' = db\<lparr>idempotency_records := idempotency_records db @ [stored (actor_accountId actor) ''membership-revoke''
         (mc_idempotencyKey input) (changeRequestHash k ''REVOKE'' (mc_membershipId input) [] (trim (mc_reason input))) cm]\<rparr>"
  | (moves) row m' where "row \<in> set (shop_memberships db)" and "sm_id row = mc_membershipId input" and "sm_status row = Member_ACTIVE"
      and "m' = row\<lparr>sm_status := Member_REVOKED, sm_export_allowed := False, sm_epoch := sm_epoch row + 1,
             sm_revoke_reason := Some (trim (mc_reason input))\<rparr>" and "cm = mapMembership m'"
      and "moved_to m' True (stored (actor_accountId actor) ''membership-revoke''
         (mc_idempotencyKey input) (changeRequestHash k ''REVOKE'' (mc_membershipId input) [] (trim (mc_reason input))) cm) db db'"
proof -
  define hash where "hash = changeRequestHash k ''REVOKE'' (mc_membershipId input) [] (trim (mc_reason input))"
  from assms(1) obtain row shop dup where load: "loadMembershipForChange (mc_membershipId input) db = Inr (row, shop)"
    and man: "requireManage actor shop = Inr ()"
    and dup: "readIdempotentChange (actor_accountId actor) ''membership-revoke'' (mc_idempotencyKey input) hash db = Inr dup"
    by (auto simp: revoke_membership_def Let_def bindE_Inr_iff hash_def split: if_split_asm)
  note row = load_membership(1,2) [OF load]
  show thesis
  proof (cases dup)
    case (Some m)
    with assms(1) load man dup show thesis
      by (intro again) (auto simp: revoke_membership_def Let_def hash_def split: if_split_asm)
  next
    case None
    let ?f = "\<lambda>m. m\<lparr>sm_status := Member_REVOKED, sm_export_allowed := False, sm_epoch := sm_epoch m + 1,
             sm_revoke_reason := Some (trim (mc_reason input))\<rparr>"
    show thesis
    proof (cases "sm_status row = Member_ACTIVE")
      case False
      with assms(1) load man dup None row show thesis
        by (intro same [of row]) (auto simp: revoke_membership_def Let_def hash_def bindE_Inr_iff store_Inr_iff split: if_split_asm)
    next
      case True
      note upd = update_membership_active [OF inv row(1) True, of ?f]
      let ?db1 = "db\<lparr>shop_memberships := update_rows (\<lambda>x. sm_id x = sm_id row) (\<lambda>_. ?f row) (shop_memberships db)\<rparr>"
      have "\<exists>a. cm = mapMembership (?f row) \<and>
          storeIdempotentChange (actor_accountId actor) ''membership-revoke'' (mc_idempotencyKey input) hash (mapMembership (?f row))
            (audit a (if True then invalidateForMembership (sm_id (?f row)) (nat_str (sm_epoch (?f row))) ?db1
              else ?db1)) = Inr db'"
        using assms(1) load man dup [unfolded None] True upd
        by (auto simp: revoke_membership_def Let_def hash_def [symmetric] bindE_Inr_iff split: if_split_asm)
      then obtain a where cm: "cm = mapMembership (?f row)"
        and st: "storeIdempotentChange (actor_accountId actor) ''membership-revoke'' (mc_idempotencyKey input) hash (mapMembership (?f row))
            (audit a (if True then invalidateForMembership (sm_id (?f row)) (nat_str (sm_epoch (?f row))) ?db1
              else ?db1)) = Inr db'" by blast
      have "moved_to (?f row) True (stored (actor_accountId actor) ''membership-revoke'' (mc_idempotencyKey input) hash cm) db db'"
        unfolding cm by (rule store_moved [OF inv row(1) _ _ _ _ refl st]) simp_all
      with row True cm show thesis by (intro moves [of row "?f row"]) (auto simp: hash_def)
    qed
  qed
qed

lemma moved_to_keeps:
  fixes db :: "'z member_db_scheme"
  assumes inv: "member_inv db" and row: "row \<in> set (shop_memberships db)" and id: "sm_id m' = sm_id row"
      "sm_shop_id m' = sm_shop_id row" "sm_account_id m' = sm_account_id row" "sm_epoch m' = sm_epoch row + 1"
    and right: "inval \<or> \<not> entitled row" and mv: "moved_to m' inval r db db'"
  shows "member_inv db' \<and> member_evolves db db'"
  by (rule moved_keeps [OF inv row id, where rs = "[r]"])
    (use mv right id(1) in \<open>auto simp: moved_to_def split: if_split_asm\<close>)

lemma member_keeps_record: "member_keeps db (db\<lparr>idempotency_records := idempotency_records db @ rs\<rparr>)"
  by (simp add: member_keeps_def member_inv_def member_evolves_def all_next_refl)

lemma setExportAllowed_keeps:
  fixes db :: "'z member_db_scheme"
  assumes "setExportAllowed k actor allow_export input db = Inr (cm, db')"
  shows "member_keeps db db'"
  unfolding member_keeps_def
proof
  assume inv: "member_inv db"
  then have "members_inv (shop_memberships db)" by (simp add: member_inv_def)
  from assms this show "member_inv db' \<and> member_evolves db db'"
  proof (cases rule: setExportAllowed_cases)
    case again
    then show ?thesis using inv by simp
  next
    case (same row)
    then show ?thesis using inv member_keeps_record by (auto simp: member_keeps_def)
  next
    case (moves row m')
    show ?thesis
      by (rule moved_to_keeps [OF inv moves(1) _ _ _ _ _ moves(7)]) (use moves in \<open>simp_all add: entitled_def\<close>)
  qed
qed

lemma revoke_keeps:
  fixes db :: "'z member_db_scheme"
  assumes "revoke_membership k actor input db = Inr (cm, db')"
  shows "member_keeps db db'"
  unfolding member_keeps_def
proof
  assume inv: "member_inv db"
  then have "members_inv (shop_memberships db)" by (simp add: member_inv_def)
  from assms this show "member_inv db' \<and> member_evolves db db'"
  proof (cases rule: revoke_cases)
    case again
    then show ?thesis using inv by simp
  next
    case (same row)
    then show ?thesis using inv member_keeps_record by (auto simp: member_keeps_def)
  next
    case (moves row m')
    show ?thesis
      by (rule moved_to_keeps [OF inv moves(1) _ _ _ _ _ moves(6)]) (use moves in simp_all)
  qed
qed

section \<open>Exports and downloads\<close>

lemma authorizeCreate_Inr:
  assumes "authorizeCreate actor shopId db = Inr (shop, m)"
  shows "sh_id shop = shopId" "shop \<in> set (shops db)" "m = locked_membership shopId (actor_accountId actor) db"
    "requireExportAccess actor shop m = Inr ()"
  using assms by (auto simp: authorizeCreate_def bindE_Inr_iff Let_def split: option.splits dest!: first_row_SomeD)

text \<open>A customer who may export has an active membership with the right to it.\<close>

lemma customer_export:
  assumes a: "authorizeCreate actor shopId db = Inr (shop, m)" and c: "usesCustomerMembership actor shop"
  shows "\<exists>r. m = Some r \<and> entitled r \<and> r \<in> set (shop_memberships db) \<and> sm_shop_id r = shopId
     \<and> sm_account_id r = actor_accountId actor"
proof -
  note f = authorizeCreate_Inr [OF a]
  have "m \<noteq> None \<and> (\<forall>r. m = Some r \<longrightarrow> entitled r)"
    using f(4) c
    by (cases m) (auto simp: requireExportAccess_def requireAllowed_Inr_iff authorizeShop_allowed_iff may_act_def
      usesCustomerMembership_def in_enterprise_def member_of_def shop_resource_def customer_of_def entitled_def
      split: if_split_asm option.splits)
  then obtain r where r: "m = Some r" "entitled r" by blast
  then have "first_row (\<lambda>m. sm_shop_id m = shopId \<and> sm_account_id m = actor_accountId actor) (shop_memberships db) = Some r"
    using f(3) by (simp add: locked_membership_def)
  from first_row_SomeD [OF this] r show ?thesis by blast
qed

lemma set_export_keeps:
  assumes f: "\<And>x. xr_id (f x) = xr_id x \<and> xr_shop_id (f x) = xr_shop_id x \<and> xr_requested_by (f x) = xr_requested_by x \<and> xr_epoch (f x) = xr_epoch x"
    and p: "\<And>x. member_inv db \<Longrightarrow> x \<in> set (export_requests db) \<Longrightarrow> p x \<Longrightarrow> live_export x"
  shows "member_keeps db (set_export p f db)"
  unfolding member_keeps_def
proof
  assume inv: "member_inv db"
  have "map xr_id (update_rows p f (export_requests db)) = map xr_id (export_requests db)" by (simp add: map_update_rows f)
  moreover have "exports_current (shop_memberships db) (update_rows p f (export_requests db))"
    unfolding exports_current_def
  proof (intro ballI allI impI)
    fix x e assume "x \<in> set (update_rows p f (export_requests db))" and l: "live_export x \<and> xr_epoch x = Some e"
    then obtain y where y: "y \<in> set (export_requests db)" "x = (if p y then f y else y)" by (auto simp: in_update_rows)
    then have "live_export y \<and> xr_epoch y = Some e" using l p [OF inv y(1)] f [of y] by (cases "p y") auto
    then show "\<exists>m \<in> set (shop_memberships db). sm_shop_id m = xr_shop_id x \<and> sm_account_id m = xr_requested_by x \<and> entitled m \<and> sm_epoch m = e"
      using inv y f [of y] unfolding member_inv_def exports_current_def by (cases "p y") auto
  qed
  ultimately have "member_inv (set_export p f db)" using inv by (simp add: member_inv_def set_export_def)
  moreover have "all_next export_next (export_requests db) (update_rows p f (export_requests db))"
    by (rule all_next_update) (use f p [OF inv] in \<open>auto simp: export_next_def\<close>)
  ultimately show "member_inv (set_export p f db) \<and> member_evolves db (set_export p f db)"
    by (simp add: member_evolves_def set_export_def all_next_refl)
qed

lemma outbox_insert_member_tables [simp]:
  "shop_memberships (outbox_insert e db) = shop_memberships db" "invitations (outbox_insert e db) = invitations db"
  "export_requests (outbox_insert e db) = export_requests db" "download_grants (outbox_insert e db) = download_grants db"
  "idempotency_records (outbox_insert e db) = idempotency_records db"
  by (simp_all add: outbox_insert_def)

lemma member_keeps_outbox: "member_keeps db (outbox_insert e db)"
  by (simp add: member_keeps_def member_inv_def member_evolves_def all_next_refl)

lemma place_export_cases:
  assumes "place_export actor shop m requested key newId db = Inr (row, db')"
  obtains (again) "db' = db" and "row \<in> set (export_requests db)"
  | (placed) "\<forall>x \<in> set (export_requests db). xr_id x \<noteq> newId" and "xr_id row = newId" and "xr_shop_id row = ei_shopId requested"
      and "xr_requested_by row = actor_accountId actor" and "xr_status row = X_QUEUED"
      and "xr_epoch row = (if usesCustomerMembership actor shop then map_option sm_epoch m else None)"
      and "db' = db\<lparr>export_requests := export_requests db @ [row]\<rparr>"
proof (cases "first_row (\<lambda>x. xr_business_key x = key) (export_requests db)")
  case None
  then have "\<forall>x \<in> set (export_requests db). xr_id x \<noteq> newId"
    using assms by (auto simp: place_export_def Let_def split: if_split_asm)
  then show thesis
    by (rule placed) (use assms None in \<open>auto simp: place_export_def Let_def split: if_split_asm\<close>)
next
  case (Some prior)
  then have "row = prior" "db' = db" using assms by (auto simp: place_export_def bindE_Inr_iff split: if_split_asm)
  with first_row_SomeD [OF Some] show thesis by (intro again) simp_all
qed

lemma place_export_keeps:
  assumes a: "authorizeCreate actor (ei_shopId requested) db = Inr (shop, m)"
    and "place_export actor shop m requested key newId db = Inr (row, db')"
  shows "member_keeps db db'"
  using assms(2)
proof (cases rule: place_export_cases)
  case placed
  have cur: "\<exists>y \<in> set (shop_memberships db). sm_shop_id y = xr_shop_id row \<and> sm_account_id y = xr_requested_by row \<and> entitled y \<and> sm_epoch y = e"
    if "xr_epoch row = Some e" for e
    using customer_export [OF a] placed that by (auto split: if_split_asm)
  have "exports_current (shop_memberships db) (export_requests db @ [row])"
    if "exports_current (shop_memberships db) (export_requests db)"
    using that cur unfolding exports_current_def by (simp add: ball_Un)
  then show ?thesis
    using placed by (auto simp: member_keeps_def member_inv_def member_evolves_def all_next_refl all_next_append)
qed simp

lemma create_export_tx_keeps:
  assumes "create_export_tx assumptions snapshot_shop actor fresh_ids input db = Inr (row, db')"
  shows "member_keeps db db'"
proof -
  from assms obtain shop m a scp where a: "authorizeCreate actor (cx_shopId input) db = Inr (shop, m)"
    and ap: "assumptions = Inr a" "parseAccountingPeriodScope (cx_periodStart input) (cx_periodEnd input) = Inr scp"
    by (auto simp: create_export_tx_def bindE_Inr_iff)
  define requested where "requested = \<lparr> ei_shopId = cx_shopId input, ei_snapshotId = cx_snapshotId input,
          ei_assumptions = a, ei_period = map_option (\<lambda>p. (periodStart p, periodEnd p)) scp \<rparr>"
  from assms a ap obtain r e db1 where
    p: "place_export actor shop m requested (export_business_key actor (cx_idempotencyKey input)) (fst fresh_ids) db = Inr (row, db1)"
    and db': "db' = audit r (outbox_insert e db1)"
    by (auto simp: create_export_tx_def bindE_Inr_iff Let_def requested_def split: if_split_asm)
  have "member_keeps db db1" by (rule place_export_keeps [OF _ p]) (use a in \<open>simp add: requested_def\<close>)
  then show ?thesis unfolding db' using member_keeps_trans [OF _ member_keeps_trans [OF member_keeps_outbox member_keeps_audit]] by blast
qed

lemma audited_cases:
  assumes "audited failure outcome db = (r, db')"
  obtains e where "outcome = Inl e" and "r = Inl e" and "db' = audit failure db" | x where "outcome = Inr (x, db')" and "r = Inr x"
  using assms by (auto simp: audited_def split: sum.splits)

lemma audited_keeps:
  assumes "audited failure outcome db = (r, db')" and "\<And>x. outcome = Inr (x, db') \<Longrightarrow> member_keeps db db'"
  shows "member_keeps db db'"
  using assms by (cases rule: audited_cases) (auto intro: member_keeps_audit)

lemma cancel_tx_keeps:
  assumes "cancel_export_tx actor exportId requestId db = Inr (x, db')"
  shows "member_keeps db db'"
proof -
  let ?p = "\<lambda>x. xr_id x = exportId \<and> in_progress (xr_status x)" and ?f = "\<lambda>x. x\<lparr>xr_status := X_CANCELLED\<rparr>"
  obtain r where "db' = audit r (set_export ?p ?f db)"
    using assms by (auto simp: cancel_export_tx_def bindE_Inr_iff Let_def)
  moreover have "member_keeps db (set_export ?p ?f db)"
    by (rule set_export_keeps) (auto simp: live_export_def in_progress_def)
  ultimately show ?thesis using member_keeps_trans [OF _ member_keeps_audit] by blast
qed

lemma claim_keeps: "claim_export exportId db = (r, db') \<Longrightarrow> member_keeps db db'"
proof -
  let ?p = "\<lambda>x. xr_id x = exportId \<and> in_progress (xr_status x)" and ?f = "\<lambda>x. x\<lparr>xr_status := X_RUNNING, xr_error_code := None\<rparr>"
  assume "claim_export exportId db = (r, db')"
  then have "db' = set_export ?p ?f db" by (simp add: claim_export_def Let_def)
  moreover have "member_keeps db (set_export ?p ?f db)"
    by (rule set_export_keeps) (auto simp: live_export_def in_progress_def)
  ultimately show ?thesis by simp
qed

lemma row_of_id:
  assumes inv: "member_inv db" and row: "first_row (\<lambda>x. xr_id x = i) (export_requests db) = Some row"
    and x: "x \<in> set (export_requests db)" "xr_id x = i"
  shows "x = row"
proof -
  have d: "distinct (map xr_id (export_requests db))" using inv unfolding member_inv_def by blast
  show ?thesis using distinct_row [OF d x(1)] first_row_SomeD [OF row] x(2) by simp
qed

lemma set_row_keeps:
  assumes row: "first_row (\<lambda>x. xr_id x = i) (export_requests db) = Some row" and live: "live_export row"
    and f: "\<And>x. xr_id (f x) = xr_id x \<and> xr_shop_id (f x) = xr_shop_id x \<and> xr_requested_by (f x) = xr_requested_by x \<and> xr_epoch (f x) = xr_epoch x"
  shows "member_keeps db (audit r (set_export (\<lambda>x. xr_id x = i) f db))"
proof -
  have "member_keeps db (set_export (\<lambda>x. xr_id x = i) f db)"
    by (rule set_export_keeps [OF f]) (use row_of_id [OF _ row] live in blast)
  then show ?thesis using member_keeps_trans [OF _ member_keeps_audit] by blast
qed

lemma finish_keeps:
  assumes "finish_export exportId file kind db = (b, db')"
  shows "member_keeps db db'"
proof (cases "first_row (\<lambda>x. xr_id x = exportId) (export_requests db)")
  case (Some row)
  let ?f = "\<lambda>x. x\<lparr>xr_status := X_SUCCEEDED, xr_output := Some file\<rparr>"
  have "db' = db \<or> xr_status row = X_RUNNING \<and> (\<exists>r. db' = audit r (set_export (\<lambda>x. xr_id x = exportId) ?f db))"
    using assms Some by (auto simp: finish_export_def split: if_split_asm)
  moreover have "member_keeps db (audit r (set_export (\<lambda>x. xr_id x = exportId) ?f db))" if "xr_status row = X_RUNNING" for r
    by (rule set_row_keeps [OF Some]) (use that in \<open>simp_all add: live_export_def\<close>)
  ultimately show ?thesis by auto
qed (use assms in \<open>simp add: finish_export_def\<close>)

lemma fail_keeps: "member_keeps db (fail_export exportId errorCode db)"
proof (cases "first_row (\<lambda>x. xr_id x = exportId) (export_requests db)")
  case (Some row)
  let ?f = "\<lambda>x. x\<lparr>xr_status := X_FAILED, xr_error_code := Some errorCode\<rparr>"
  have "member_keeps db (audit r (set_export (\<lambda>x. xr_id x = exportId) ?f db))" if "in_progress (xr_status row)" for r
    by (rule set_row_keeps [OF Some]) (use that in \<open>auto simp: live_export_def in_progress_def\<close>)
  then show ?thesis by (simp add: fail_export_def Some)
qed (simp add: fail_export_def)

lemma located_job_Inr:
  assumes "located_job actor exportId db = Inr (shop, m, job)"
  shows "\<exists>sid. authorizeCreate actor sid db = Inr (shop, m)" "job \<in> set (export_requests db)" "xr_id job = exportId"
    "requireExportJobActor actor shop m job = Inr ()"
proof -
  obtain located where l: "first_row (\<lambda>x. xr_id x = exportId) (export_requests db) = Some located"
    using assms by (auto simp: located_job_def split: option.splits)
  have a: "authorizeCreate actor (xr_shop_id located) db = Inr (shop, m)"
    and j: "first_row (\<lambda>x. xr_id x = exportId \<and> xr_shop_id x = xr_shop_id located) (export_requests db) = Some job"
    and r: "requireExportJobActor actor shop m job = Inr ()"
    using assms l by (auto simp: located_job_def bindE_Inr_iff split: option.splits)
  show "\<exists>sid. authorizeCreate actor sid db = Inr (shop, m)" "job \<in> set (export_requests db)" "xr_id job = exportId"
    "requireExportJobActor actor shop m job = Inr ()"
    using a r first_row_SomeD [OF j] by blast+
qed

definition new_grant :: "clock \<Rightarrow> Actor \<Rightarrow> shop_row \<Rightarrow> membership_row option \<Rightarrow> string \<Rightarrow> string \<Rightarrow> string \<Rightarrow> grant_row" where
  "new_grant clk actor shop m newId tokenHash exportId =
     (let bound = (if usesCustomerMembership actor shop then m else None) in
      \<lparr> gr_id = newId, gr_export_id = exportId, gr_shop_id = sh_id shop, gr_account_id = actor_accountId actor,
        gr_membership_id = map_option sm_id bound, gr_epoch = map_option sm_epoch bound, gr_token_hash = tokenHash,
        gr_expires_at = now clk + five_minutes, gr_consumed = False, gr_revoked = False \<rparr>)"

lemma create_token_cases:
  assumes "create_token_tx clk actor newId tokenHash exportId requestId db = Inr (u, db')"
  obtains shop m sid r where "authorizeCreate actor sid db = Inr (shop, m)"
    and "\<forall>g \<in> set (download_grants db). gr_token_hash g \<noteq> tokenHash"
    and "db' = audit r (db\<lparr>download_grants := download_grants db @ [new_grant clk actor shop m newId tokenHash exportId]\<rparr>)"
proof -
  from assms obtain shop m job where loc: "located_job actor exportId db = Inr (shop, m, job)"
    by (auto simp: create_token_tx_def bindE_Inr_iff)
  obtain sid where "authorizeCreate actor sid db = Inr (shop, m)" using located_job_Inr(1) [OF loc] by blast
  then show thesis
    by (rule that) (use assms loc in \<open>auto simp: create_token_tx_def Let_def new_grant_def split: if_split_asm\<close>)
qed

lemma create_token_keeps:
  assumes "create_token_tx clk actor newId tokenHash exportId requestId db = Inr (u, db')"
  shows "member_keeps db db'"
  using assms
proof (rule create_token_cases)
  fix shop m sid r
  let ?g = "new_grant clk actor shop m newId tokenHash exportId"
  assume a: "authorizeCreate actor sid db = Inr (shop, m)" and new: "\<forall>g \<in> set (download_grants db). gr_token_hash g \<noteq> tokenHash"
    and db': "db' = audit r (db\<lparr>download_grants := download_grants db @ [?g]\<rparr>)"
  have cur: "\<exists>y \<in> set (shop_memberships db). sm_id y = mid \<and> sm_shop_id y = gr_shop_id ?g \<and> sm_account_id y = gr_account_id ?g
      \<and> entitled y \<and> gr_epoch ?g = Some (sm_epoch y)" if "gr_membership_id ?g = Some mid" for mid
    using customer_export [OF a] authorizeCreate_Inr(1) [OF a] that by (auto simp: new_grant_def Let_def split: if_split_asm)
  have "grants_current (shop_memberships db) (download_grants db @ [?g])" if "grants_current (shop_memberships db) (download_grants db)"
    using that cur unfolding grants_current_def by (simp add: ball_Un)
  moreover have "gr_token_hash ?g = tokenHash" by (simp add: new_grant_def Let_def)
  ultimately show ?thesis
    using new by (auto simp: db' member_keeps_def member_inv_def member_evolves_def all_next_refl all_next_append)
qed

lemma download_cases:
  assumes "download_tx clk actor tokenHash exportId requestId db = Inr (out, db')"
  obtains shop m sid r g where "authorizeCreate actor sid db = Inr (shop, m)"
    and "first_row (spendable clk actor shop m tokenHash exportId) (download_grants db) = Some g"
    and "db' = audit r (db\<lparr>download_grants := update_rows (spendable clk actor shop m tokenHash exportId)
                 (\<lambda>g. g\<lparr>gr_consumed := True\<rparr>) (download_grants db)\<rparr>)"
proof -
  obtain located where g: "first_row (\<lambda>g. gr_export_id g = exportId \<and> gr_token_hash g = tokenHash \<and> gr_account_id g = actor_accountId actor)
         (download_grants db) = Some located"
    using assms by (auto simp: download_tx_def split: option.splits)
  from assms g obtain shop m where a: "authorizeCreate actor (gr_shop_id located) db = Inr (shop, m)"
    by (auto simp: download_tx_def bindE_Inr_iff)
  from assms g a obtain job where
    job: "first_row (\<lambda>x. xr_id x = exportId \<and> xr_shop_id x = gr_shop_id located) (export_requests db) = Some job"
    by (auto simp: download_tx_def split: option.splits)
  from assms g a job obtain obj where "xr_status job = X_SUCCEEDED" "xr_output job = Some obj"
    by (auto simp: download_tx_def bindE_Inr_iff split: ExportStatus.splits option.splits)
  with assms g a job obtain w where w: "first_row (spendable clk actor shop m tokenHash exportId) (download_grants db) = Some w"
    by (auto simp: download_tx_def bindE_Inr_iff split: if_split_asm)
  show thesis
    by (rule that [OF a w]) (use assms g a job w \<open>xr_status job = X_SUCCEEDED\<close> \<open>xr_output job = Some obj\<close>
      in \<open>auto simp: download_tx_def bindE_Inr_iff split: if_split_asm\<close>)
qed

lemma download_keeps:
  assumes "download_tx clk actor tokenHash exportId requestId db = Inr (out, db')"
  shows "member_keeps db db'"
  using assms
proof (rule download_cases)
  fix shop m sid r
  let ?p = "spendable clk actor shop m tokenHash exportId" and ?f = "\<lambda>g. g\<lparr>gr_consumed := True\<rparr>"
  assume db': "db' = audit r (db\<lparr>download_grants := update_rows ?p ?f (download_grants db)\<rparr>)"
  have "grants_current (shop_memberships db) (update_rows ?p ?f (download_grants db))"
    if cur: "grants_current (shop_memberships db) (download_grants db)"
    unfolding grants_current_def
  proof (intro ballI allI impI)
    fix g mid assume "g \<in> set (update_rows ?p ?f (download_grants db))" and l: "open_grant g \<and> gr_membership_id g = Some mid"
    then obtain y where y: "y \<in> set (download_grants db)" "g = (if ?p y then ?f y else y)" by (auto simp: in_update_rows)
    then have "g \<in> set (download_grants db)" using l by (cases "?p y") (auto simp: open_grant_def)
    with l cur show "\<exists>m \<in> set (shop_memberships db). sm_id m = mid \<and> sm_shop_id m = gr_shop_id g \<and> sm_account_id m = gr_account_id g
        \<and> entitled m \<and> gr_epoch g = Some (sm_epoch m)" unfolding grants_current_def by blast
  qed
  moreover have "all_next grant_next (download_grants db) (update_rows ?p ?f (download_grants db))"
    by (rule all_next_update) (simp_all add: grant_next_def)
  ultimately show ?thesis
    by (auto simp: db' member_keeps_def member_inv_def member_evolves_def all_next_refl map_update_rows)
qed

section \<open>Runs\<close>

text \<open>
  One committed transaction of shops, payments, memberships or exports, with the parameters of its
  own request. A request that fails may still have committed an audit record, or the expiry of an
  invitation.
\<close>

inductive member_step :: "'z member_db_scheme \<Rightarrow> 'z member_db_scheme \<Rightarrow> bool" where
  invites: "invite k clk actor invitationId newId inp db = Inr (v, db') \<Longrightarrow> member_step db db'"
| accepts: "accept_membership k clk actor newId token requestId db = (r, db') \<Longrightarrow> member_step db db'"
| sets_export: "setExportAllowed k actor allow_export ch db = Inr (cm, db') \<Longrightarrow> member_step db db'"
| revokes: "revoke_membership k actor ch db = Inr (cm, db') \<Longrightarrow> member_step db db'"
| exports: "create_export assumptions snapshot_shop actor fresh_ids cx db = (x, db') \<Longrightarrow> member_step db db'"
| cancels: "cancel_export actor exportId requestId db = (u, db') \<Longrightarrow> member_step db db'"
| claims: "claim_export exportId db = (job, db') \<Longrightarrow> member_step db db'"
| finishes: "finish_export exportId file kind db = (finished, db') \<Longrightarrow> member_step db db'"
| fails: "member_step db (fail_export exportId errorCode db)"
| mints: "createDownloadToken hash clk actor newId token exportId requestId db = (t, db') \<Longrightarrow> member_step db db'"
| downloads: "download hash clk actor exportId token requestId db = (f, db') \<Longrightarrow> member_step db db'"
| trades: "shop_step db db' \<Longrightarrow> member_step db db'"

lemma more_tables:
  assumes "shop_db.more db' = shop_db.more db"
  shows "invitations db' = invitations db" "export_requests db' = export_requests db" "download_grants db' = download_grants db"
  using assms by (cases db; cases db'; simp)+

lemma shop_side_keeps: "shop_side db db' \<Longrightarrow> member_keeps db db'"
  using more_tables [of db' db]
  by (simp add: shop_side_def member_keeps_def member_inv_def member_evolves_def all_next_refl)

lemma mint_keeps: "createDownloadToken hash clk actor newId token exportId requestId db = (t, db') \<Longrightarrow> member_keeps db db'"
  unfolding createDownloadToken_def
  by (erule audited_keeps) (auto simp: map_sum_def split: sum.splits intro: create_token_keeps)

lemma member_step_keeps: "member_step db db' \<Longrightarrow> member_keeps db db'"
proof (induction rule: member_step.induct)
  case (exports assumptions snapshot_shop actor fresh_ids cx db x db')
  then show ?case unfolding create_export_def by (rule audited_keeps) (rule create_export_tx_keeps)
next
  case (cancels actor exportId requestId db u db')
  then show ?case unfolding cancel_export_def by (rule audited_keeps) (rule cancel_tx_keeps)
next
  case (downloads hash clk actor exportId token requestId db f db')
  then show ?case unfolding download_def by (rule audited_keeps) (rule download_keeps)
qed (rule invite_keeps accept_keeps setExportAllowed_keeps revoke_keeps claim_keeps finish_keeps fail_keeps mint_keeps
  shop_side_keeps [OF shop_step_side], assumption?)+

interpretation member_runs: kept_along member_step member_keeps
  by unfold_locales (auto intro: member_keeps_trans member_step_keeps)

lemma member_steps_keep: "member_step\<^sup>*\<^sup>* db db' \<Longrightarrow> member_keeps db db'"
  by (rule member_runs.along_run)

end
