(* ===== verification/StaffProps.thy ===== *)
theory StaffProps
  imports Staff MemberBook
begin

text \<open>
  The properties of enterprises and their members along every run of the operations on enterprises,
  shops, wallets and payments, with concrete instances.
\<close>

section \<open>Runs\<close>

inductive staff_step :: "'z shop_db_scheme \<Rightarrow> 'z shop_db_scheme \<Rightarrow> bool" where
  founds: "create_enterprise submitted u actor fresh_ids ce db = (ev, db') \<Longrightarrow> staff_step db db'"
| edits: "updateProfile u actor up db = Inr db' \<Longrightarrow> staff_step db db'"
| joins: "addMember avatar u actor newId am db = (mv, db') \<Longrightarrow> staff_step db db'"
| leaves: "removeMember actor rm db = Inr db' \<Longrightarrow> staff_step db db'"
| trades: "shop_step db db' \<Longrightarrow> staff_step db db'"

lemma shop_step_staff:
  assumes "shop_step db db'"
  shows "staff_keeps db db'"
  using shop_step_side [OF assms] by (intro staff_keeps_apart) (simp_all add: shop_side_def)

lemma staff_step_keeps: "staff_step db db' \<Longrightarrow> staff_keeps db db'"
  by (induction rule: staff_step.induct)
    (erule create_enterprise_keeps updateProfile_keeps addMember_keeps removeMember_keeps shop_step_staff)+

interpretation staff_runs: kept_along staff_step staff_keeps
  by unfold_locales (auto intro: staff_keeps_trans staff_step_keeps)

lemma staff_steps_keep: "staff_step\<^sup>*\<^sup>* db db' \<Longrightarrow> staff_keeps db db'"
  by (rule staff_runs.along_run)

lemma staff_run: "staff_inv db \<Longrightarrow> staff_step\<^sup>*\<^sup>* db db' \<Longrightarrow> staff_inv db' \<and> staff_evolves db db'"
  using staff_steps_keep [of db db'] by (simp add: staff_keeps_def)

section \<open>Instances\<close>

definition founder :: Actor where
  "founder = \<lparr> actor_accountId = ''f'', actor_status = Actor_ACTIVE, roles = {ACCOUNTANT}, enterpriseIds = Some {} \<rparr>"

definition founder_in :: Actor where
  "founder_in = founder\<lparr>enterpriseIds := Some {''e''}\<rparr>"

definition plain_unicode :: unicode where
  "plain_unicode = \<lparr> nfkc = (\<lambda>s. s), nfc = (\<lambda>s. s), zh_lower = (\<lambda>s. s) \<rparr>"

definition new_office :: CreateEnterprise where
  "new_office = \<lparr> ce_name = ''Office'', ce_creditCode = ''91310000ABCDEFGH12'', ce_requestId = ''r'' \<rparr>"

definition empty_office :: shop_db where
  "empty_office = \<lparr> accounts = [\<lparr> ac_id = ''f'', ac_phone = ''+12025550100'', ac_display_name = None, ac_registered = True,
       ac_status = Actor_ACTIVE, ac_role = Some ACCOUNTANT \<rparr>],
     enterprises = [], enterprise_members = [], audits = [], outbox = [], wallets = [], ledger = [], next_ledger = 1,
     orders = [], inbox = [], reversals = [], applications = [], price_versions = [], role_policies = [], shops = [],
     shop_terms = [], shop_charges = [], name_history = [], shop_memberships = [], idempotency_records = [] \<rparr>"

definition founded :: "EnterpriseView result \<times> shop_db" where
  "founded = create_enterprise (\<lambda>s. False) plain_unicode founder (''e'', ''m'', ''w'') new_office empty_office"

lemma office_text: "normalizeName plain_unicode ''Office'' = Inr (''Office'', ''Office'')"
  "normalizeCreditCode ''91310000ABCDEFGH12'' = Inr ''91310000ABCDEFGH12''"
  "e164 ''+12025550100''" "credit_code ''91310000ABCDEFGH12''"
  by code_simp+


lemma founded_eq: "\<exists>v. founded = (Inr v, snd founded)"
  by (simp add: founded_def create_enterprise_def new_office_def office_text founder_def create_enterprise_tx_def
      insert_enterprise_def insert_member_def insert_wallet_def enterprise_checks_def member_violation_def member_checks_def
      code_taken_def live_phone_taken_def active_account_taken_def index_taken_def account_fk_def empty_office_def is_digit_def
      btrim_def enterprise_list_def enterprise_view_def enterprise_visible_def audit_def Let_def)

lemma founded_tables:
  "enterprise_members (snd founded) = [\<lparr> em_id = ''m'', em_enterprise_id = ''e'', em_account_id = Some ''f'',
     em_phone = ''+12025550100'', em_display_name = None, em_status = MS_ACTIVE, em_epoch = 1, em_invited_by = ''f'',
     em_revoke_reason = None \<rparr>]"
  "enterprises (snd founded) = [\<lparr> en_id = ''e'', en_name = ''Office'', en_normalized_name = ''Office'',
     en_credit_code = Some ''91310000ABCDEFGH12'', en_created_by = ''f'' \<rparr>]"
  by (simp_all add: founded_def create_enterprise_def new_office_def office_text founder_def create_enterprise_tx_def
      insert_enterprise_def insert_member_def insert_wallet_def enterprise_checks_def member_violation_def member_checks_def
      code_taken_def live_phone_taken_def active_account_taken_def index_taken_def account_fk_def empty_office_def is_digit_def
      btrim_def enterprise_list_def enterprise_view_def enterprise_visible_def audit_def Let_def)

lemma empty_office_inv: "staff_inv empty_office"
  by (simp add: staff_inv_def members_ok_def enterprises_ok_def empty_office_def)

lemma founded_step: "staff_step\<^sup>*\<^sup>* empty_office (snd founded)"
proof (rule r_into_rtranclp)
  have "create_enterprise (\<lambda>s. False) plain_unicode founder (''e'', ''m'', ''w'') new_office empty_office = (fst founded, snd founded)"
    by (simp add: founded_def)
  then show "staff_step empty_office (snd founded)" by (rule staff_step.founds)
qed

section \<open>Enterprises and their members\<close>

text \<open>C24: whatever sequence of founding, editing, adding, removing and shop transactions follows: every
  enterprise has a wallet and at least one active member, no two have one credit code, and in one enterprise
  a number is invited or active once and an account active once.\<close>

theorem enterprises_stay_staffed:
  assumes "staff_inv db0" and "staff_step\<^sup>*\<^sup>* db0 db"
  shows "(\<forall>e \<in> set (enterprises db).
       (\<exists>m \<in> set (enterprise_members db). em_enterprise_id m = en_id e \<and> em_status m = MS_ACTIVE) \<and>
       (\<exists>w \<in> set (wallets db). wa_enterprise_id w = Some (en_id e)) \<and>
       (\<forall>e' \<in> set (enterprises db). en_credit_code e \<noteq> None \<and> en_credit_code e' = en_credit_code e \<longrightarrow> en_id e' = en_id e)) \<and>
    (\<forall>m \<in> set (enterprise_members db). \<forall>m' \<in> set (enterprise_members db).
       em_enterprise_id m' = em_enterprise_id m \<and> em_id m' \<noteq> em_id m \<longrightarrow>
       (em_status m \<noteq> MS_REVOKED \<and> em_status m' \<noteq> MS_REVOKED \<longrightarrow> em_phone m' \<noteq> em_phone m) \<and>
       (em_status m = MS_ACTIVE \<and> em_status m' = MS_ACTIVE \<longrightarrow> em_account_id m' \<noteq> em_account_id m))"
proof -
  have inv: "staff_inv db" using staff_run [OF assms] by blast
  have staffed: "\<exists>m \<in> set (enterprise_members db). em_enterprise_id m = en_id e \<and> em_status m = MS_ACTIVE"
    if "e \<in> set (enterprises db)" for e
    using inv that by (auto simp: staff_inv_def active_in_def count_rows_pos)
  have "members_ok (enterprise_members db)" "enterprises_ok (enterprises db)" using inv by (simp_all add: staff_inv_def)
  then show ?thesis
    using inv staffed unfolding staff_inv_def members_ok_def enterprises_ok_def indexed_def by (intro conjI ballI impI) metis+
qed

lemma enterprises_stay_staffed_witness: "\<exists>w \<in> set (wallets (snd founded)). wa_enterprise_id w = Some ''e''"
  using enterprises_stay_staffed [OF empty_office_inv founded_step] by (simp add: founded_tables)

text \<open>along any run a member's epoch never falls, and when the member left or came back in between it has
  grown, so nothing granted to an earlier stay is taken for the present one; a credit code once set stays set.\<close>

theorem member_epoch_counts_stays:
  assumes "staff_inv db" and "staff_step\<^sup>*\<^sup>* db db'" and "m \<in> set (enterprise_members db)"
  shows "\<exists>m' \<in> set (enterprise_members db'). em_id m' = em_id m \<and> em_enterprise_id m' = em_enterprise_id m \<and>
     em_epoch m \<le> em_epoch m' \<and> ((em_status m = MS_REVOKED) \<noteq> (em_status m' = MS_REVOKED) \<longrightarrow> em_epoch m < em_epoch m')"
  using staff_run [OF assms(1,2)] assms(3) unfolding staff_evolves_def member_next_def by blast

lemma member_epoch_counts_stays_witness:
  "\<exists>m' \<in> set (enterprise_members (snd founded)). em_id m' = ''m'' \<and> 1 \<le> em_epoch m'"
proof -
  have inv: "staff_inv (snd founded)" using staff_run [OF empty_office_inv founded_step] by blast
  show ?thesis
    using member_epoch_counts_stays [OF inv rtranclp.rtrancl_refl, of "hd (enterprise_members (snd founded))"]
    by (simp add: founded_tables)
qed

text \<open>a successful founding makes exactly one enterprise with its creator as the one active member and an
  empty wallet; the name and the code are the normalised ones, and nothing else of the register changes.\<close>

theorem founding_exact:
  assumes "create_enterprise submitted u actor (eid, mid, wid) input db = (Inr v, db')" and "staff_inv db"
  shows "ACCOUNTANT \<in> roles actor \<and>
    (\<exists>nm nn code e m w. normalizeName u (ce_name input) = Inr (nm, nn) \<and> normalizeCreditCode (ce_creditCode input) = Inr code \<and>
       enterprises db' = enterprises db @ [e] \<and> enterprise_members db' = enterprise_members db @ [m] \<and>
       wallets db' = wallets db @ [w] \<and> accounts db' = accounts db \<and> ledger db' = ledger db \<and>
       en_id e = eid \<and> en_name e = nm \<and> en_credit_code e = Some code \<and> en_created_by e = actor_accountId actor \<and>
       em_enterprise_id m = eid \<and> em_account_id m = Some (actor_accountId actor) \<and> em_status m = MS_ACTIVE \<and>
       wa_enterprise_id w = Some eid \<and> wa_balance_cents w = 0 \<and> wa_status w = Wallet_ACTIVE \<and>
       (\<forall>x \<in> set (enterprises db). en_credit_code x \<noteq> Some code))"
  using assms(1)
proof (rule create_enterprise_cases)
  fix names code
  assume acc: "ACCOUNTANT \<in> roles actor" and nm: "normalizeName u (ce_name input) = Inr names"
    and code: "normalizeCreditCode (ce_creditCode input) = Inr code"
    and "create_enterprise_tx actor (eid, mid, wid) names code (ce_requestId input) db = Inr db'"
  from this(4) show ?thesis
  proof (rule create_tx_writes)
    fix e a m w r
    assume e: "e = \<lparr> en_id = eid, en_name = fst names, en_normalized_name = snd names, en_credit_code = Some code,
             en_created_by = actor_accountId actor \<rparr>"
      and new: "\<forall>x \<in> set (enterprises db). en_id x \<noteq> eid" "\<not> code_taken e (enterprises db)"
      and m: "m = \<lparr> em_id = mid, em_enterprise_id = eid, em_account_id = Some (actor_accountId actor),
          em_phone = ac_phone a, em_display_name = ac_display_name a, em_status = MS_ACTIVE, em_epoch = 1,
          em_invited_by = actor_accountId actor, em_revoke_reason = None \<rparr>"
      and w: "w = \<lparr> wa_id = wid, wa_enterprise_id = Some eid, wa_owner_account_id = None,
             wa_balance_cents = 0, wa_status = Wallet_ACTIVE, wa_version = 0 \<rparr>"
      and db': "db' = audit r (db\<lparr>enterprises := enterprises db @ [e], enterprise_members := enterprise_members db @ [m],
          wallets := wallets db @ [w]\<rparr>)"
    have "\<forall>x \<in> set (enterprises db). en_credit_code x \<noteq> Some code"
      using new by (auto simp: code_taken_def index_taken_def e)
    moreover have "ledger db' = ledger db" by (simp add: db' audit_def)
    ultimately show ?thesis
      using acc nm code by (intro conjI exI [of _ "fst names"] exI [of _ "snd names"] exI [of _ code] exI [of _ e]
          exI [of _ m] exI [of _ w]) (simp_all add: db' e m w)
  qed
qed simp

lemma founding_exact_witness: "\<exists>w. wallets (snd founded) = wallets empty_office @ [w]"
proof -
  obtain v where v: "founded = (Inr v, snd founded)" using founded_eq by blast
  show ?thesis using founding_exact [OF v [unfolded founded_def] empty_office_inv] unfolding founded_def by blast
qed

text \<open>a successful change of the profile was made by an administrator or, for the name alone, by the
  creator among the members; the row carries the normalised values given and keeps the others, and no other
  enterprise changes.\<close>

theorem profile_change_authorized:
  assumes "updateProfile u actor input db = Inr db'"
  shows "(ADMIN \<in> roles actor \<or> in_enterprise actor (up_enterpriseId input)) \<and>
    (up_creditCode input \<noteq> None \<longrightarrow> ADMIN \<in> roles actor) \<and>
    (\<exists>e \<in> set (enterprises db). en_id e = up_enterpriseId input \<and>
       (ADMIN \<in> roles actor \<or> en_created_by e = actor_accountId actor) \<and>
       (\<exists>f. enterprises db' = update_rows (\<lambda>x. en_id x = up_enterpriseId input) f (enterprises db) \<and>
          (\<forall>x. en_id (f x) = en_id x \<and> en_created_by (f x) = en_created_by x \<and>
            (case up_name input of None \<Rightarrow> en_name (f x) = en_name x \<and> en_normalized_name (f x) = en_normalized_name x
             | Some n \<Rightarrow> normalizeName u n = Inr (en_name (f x), en_normalized_name (f x))) \<and>
            (case up_creditCode input of None \<Rightarrow> en_credit_code (f x) = en_credit_code x
             | Some c \<Rightarrow> \<exists>d. normalizeCreditCode c = Inr d \<and> en_credit_code (f x) = Some d)))) \<and>
    enterprise_members db' = enterprise_members db \<and> accounts db' = accounts db"
  using assms
proof (rule updateProfile_writes)
  fix names code before f r
  assume acc: "requireAccess actor (up_enterpriseId input) = Inr ()"
    and b: "first_row (\<lambda>e. en_id e = up_enterpriseId input) (enterprises db) = Some before"
    and g: "names \<noteq> None \<Longrightarrow> ADMIN \<in> roles actor \<or> en_created_by before = actor_accountId actor"
      "code \<noteq> None \<Longrightarrow> ADMIN \<in> roles actor"
    and given: "names = None \<longleftrightarrow> up_name input = None" "code = None \<longleftrightarrow> up_creditCode input = None"
      "\<And>n. up_name input = Some n \<Longrightarrow> normalizeName u n = Inr (the names)"
      "\<And>c. up_creditCode input = Some c \<Longrightarrow> normalizeCreditCode c = Inr (the code)"
    and f: "f = (\<lambda>e :: enterprise_row. e\<lparr>en_name := (case names of None \<Rightarrow> en_name e | Some n \<Rightarrow> fst n),
                en_normalized_name := (case names of None \<Rightarrow> en_normalized_name e | Some n \<Rightarrow> snd n),
                en_credit_code := (case code of None \<Rightarrow> en_credit_code e | Some c \<Rightarrow> Some c)\<rparr>)"
    and db': "db' = audit r (db\<lparr>enterprises := update_rows (\<lambda>x. en_id x = up_enterpriseId input) f (enterprises db)\<rparr>)"
  have some': "up_name input \<noteq> None \<or> up_creditCode input \<noteq> None"
    using assms acc by (cases "up_name input"; cases "up_creditCode input") (simp_all add: updateProfile_def)
  have "ADMIN \<in> roles actor \<or> in_enterprise actor (up_enterpriseId input)"
    using acc by (auto simp: requireAccess_def in_enterprise_def split: if_split_asm)
  moreover have "ADMIN \<in> roles actor \<or> en_created_by before = actor_accountId actor" using g given some' by blast
  moreover have "en_id (f x) = en_id x \<and> en_created_by (f x) = en_created_by x \<and>
            (case up_name input of None \<Rightarrow> en_name (f x) = en_name x \<and> en_normalized_name (f x) = en_normalized_name x
             | Some n \<Rightarrow> normalizeName u n = Inr (en_name (f x), en_normalized_name (f x))) \<and>
            (case up_creditCode input of None \<Rightarrow> en_credit_code (f x) = en_credit_code x
             | Some c \<Rightarrow> \<exists>d. normalizeCreditCode c = Inr d \<and> en_credit_code (f x) = Some d)" for x
    using given by (cases "up_name input"; cases "up_creditCode input"; cases names; cases code) (auto simp: f)
  ultimately show ?thesis
    using g(2) given(2) first_row_SomeD [OF b] by (intro conjI bexI [of _ before] exI [of _ f]) (auto simp: db')
qed

lemma profile_change_authorized_witness:
  "\<exists>db'. updateProfile plain_unicode founder_in \<lparr> up_enterpriseId = ''e'', up_name = Some ''Office'', up_creditCode = None,
      up_requestId = ''r'' \<rparr> (snd founded) = Inr db' \<and> enterprise_members db' = enterprise_members (snd founded)"
proof -
  let ?up = "\<lparr> up_enterpriseId = ''e'', up_name = Some ''Office'', up_creditCode = None, up_requestId = ''r'' \<rparr>"
  obtain db' where "updateProfile plain_unicode founder_in ?up (snd founded) = Inr db'"
    by (simp add: updateProfile_def requireAccess_def founder_in_def founder_def office_text founded_tables update_enterprise_def
        enterprise_checks_def btrim_def code_taken_def index_taken_def)
  with profile_change_authorized [OF this] show ?thesis by blast
qed

end
