(* ===== verification/MemberProps.thy ===== *)
theory MemberProps
  imports MemberBook
begin

text \<open>The properties of memberships, exports and downloads, with concrete instances.\<close>

section \<open>Lemmas on runs\<close>

lemma run_keeps: "member_inv db \<Longrightarrow> member_step\<^sup>*\<^sup>* db db' \<Longrightarrow> member_inv db' \<and> member_evolves db db'"
  using member_steps_keep [of db db'] by (simp add: member_keeps_def)

lemma same_membership:
  assumes "members_inv ms" and "m \<in> set ms" and "m' \<in> set ms" and "sm_shop_id m = sm_shop_id m'" and "sm_account_id m = sm_account_id m'"
  shows "m = m'"
  using assms distinct_row [of "\<lambda>m. (sm_shop_id m, sm_account_id m)" ms m m'] by (simp add: members_inv_def)

lemma grant_followed:
  assumes inv: "member_inv db'" and ev: "member_evolves db db'" and g: "g \<in> set (download_grants db)"
    and w: "w \<in> set (download_grants db')" and same: "gr_token_hash w = gr_token_hash g"
  shows "grant_next g w"
proof -
  obtain g' where g': "g' \<in> set (download_grants db')" "grant_next g g'"
    using ev g unfolding member_evolves_def all_next_def by blast
  have d: "distinct (map gr_token_hash (download_grants db'))" using inv unfolding member_inv_def by blast
  have "g' = w" using distinct_row [OF d g'(1) w] g'(2) same by (simp add: grant_next_def)
  with g' show ?thesis by simp
qed

lemma download_Inr:
  assumes "download hash clk actor exportId token requestId db = (Inr obj, db')"
  shows "download_tx clk actor (hash token) exportId requestId db = Inr (obj, db')"
  using assms unfolding download_def by (cases rule: audited_cases) auto

lemma unentitled_grant_unspendable:
  assumes inv: "member_inv db1" and run: "member_step\<^sup>*\<^sup>* db1 db2"
    and m: "m \<in> set (shop_memberships db1)" "\<not> entitled m"
    and d: "download_tx clk actor tokenHash exportId requestId db2 = Inr (obj, db3)"
    and who: "actor_accountId actor = sm_account_id m" "ADMIN \<notin> roles actor" "\<And>e. \<not> in_enterprise actor e"
    and g: "g \<in> set (download_grants db1)" "gr_token_hash g = tokenHash"
  shows "gr_shop_id g \<noteq> sm_shop_id m"
  using d
proof (rule download_cases)
  fix shop r sid a w
  assume auth: "authorizeCreate actor sid db2 = Inr (shop, r)"
    and w: "first_row (spendable clk actor shop r tokenHash exportId) (download_grants db2) = Some w"
  have customer: "usesCustomerMembership actor shop" using who by (simp add: usesCustomerMembership_def)
  obtain x where x: "r = Some x" using customer_export [OF auth customer] by blast
  from first_row_SomeD [OF w] x customer have sp: "w \<in> set (download_grants db2)" "gr_token_hash w = tokenHash" "open_grant w"
      "gr_account_id w = sm_account_id m" "gr_membership_id w = Some (sm_id x)"
    by (auto simp: spendable_def open_grant_def who(1))
  have "grant_next g w"
    using grant_followed [OF _ _ g(1) sp(1)] run_keeps [OF inv run] g(2) sp(2) by simp
  with sp have open_g: "open_grant g" "gr_account_id g = sm_account_id m" "gr_membership_id g = Some (sm_id x)"
    by (auto simp: grant_next_def open_grant_def)
  obtain y where y: "y \<in> set (shop_memberships db1)" "sm_shop_id y = gr_shop_id g" "sm_account_id y = gr_account_id g" "entitled y"
    using inv open_g(1,3) g(1) unfolding member_inv_def grants_current_def by blast
  have "members_inv (shop_memberships db1)" using inv by (simp add: member_inv_def)
  from same_membership [OF this y(1) m(1)] y open_g(2) m(2) show ?thesis by auto
qed

lemma unentitled_export_dead:
  assumes inv: "member_inv db1" and run: "member_step\<^sup>*\<^sup>* db1 db2"
    and m: "m \<in> set (shop_memberships db1)" "\<not> entitled m"
    and x: "x \<in> set (export_requests db1)" "xr_shop_id x = sm_shop_id m" "xr_requested_by x = sm_account_id m" "xr_epoch x \<noteq> None"
    and y: "y \<in> set (export_requests db2)" "xr_id y = xr_id x"
  shows "\<not> live_export y"
proof -
  have mi: "members_inv (shop_memberships db1)" using inv by (simp add: member_inv_def)
  obtain e where e: "xr_epoch x = Some e" using x(4) by blast
  have dead: "\<not> live_export x"
  proof
    assume "live_export x"
    then obtain z where "z \<in> set (shop_memberships db1)" "sm_shop_id z = xr_shop_id x" "sm_account_id z = xr_requested_by x" "entitled z"
      using inv x(1) e unfolding member_inv_def exports_current_def by blast
    with same_membership [OF mi this(1) m(1)] x m(2) show False by auto
  qed
  note later = run_keeps [OF inv run]
  obtain x' where x': "x' \<in> set (export_requests db2)" "export_next x x'"
    using later x(1) unfolding member_evolves_def all_next_def by blast
  have "distinct (map xr_id (export_requests db2))" using later unfolding member_inv_def by blast
  from distinct_row [OF this x'(1) y(1)] x' y(2) dead show ?thesis by (auto simp: export_next_def live_export_def)
qed

text \<open>What a revocation, or the withdrawal of the export right, leaves under a new key.\<close>

lemma withdrawn:
  assumes inv: "member_inv db"
    and changed: "revoke_membership k actor ch db = Inr (cm, db') \<or> setExportAllowed k actor False ch db = Inr (cm, db')"
    and new: "\<forall>r \<in> set (idempotency_records db). ir_actor r = actor_accountId actor \<longrightarrow> ir_key r \<noteq> mc_idempotencyKey ch"
  shows "\<exists>m \<in> set (shop_memberships db'). \<not> entitled m \<and> sm_shop_id m = cm_shopId cm \<and> sm_account_id m = cm_accountId cm"
proof -
  have ms: "members_inv (shop_memberships db)" using inv by (simp add: member_inv_def)
  have none: "readIdempotentChange (actor_accountId actor) scp (mc_idempotencyKey ch) hash db \<noteq> Inr (Some c)" for scp hash c
  proof -
    have "first_row (\<lambda>r. ir_actor r = actor_accountId actor \<and> ir_scope r = scp \<and> ir_key r = mc_idempotencyKey ch)
        (idempotency_records db) = None"
      using new by (simp add: first_row_None_iff)
    then show ?thesis by (simp add: readIdempotentChange_def)
  qed
  have left: "\<exists>m \<in> set (shop_memberships db'). \<not> entitled m \<and> sm_shop_id m = cm_shopId cm \<and> sm_account_id m = cm_accountId cm"
    if "row \<in> set (shop_memberships db)" "moved_to m' inval r db db'" "sm_id m' = sm_id row" "\<not> entitled m'" "cm = mapMembership m'"
    for row m' inval r
    using that update_one_in [of row _ "\<lambda>_. m'" sm_id] by (auto simp: moved_to_def mapMembership_def intro!: bexI [of _ m'])
  from changed show ?thesis
  proof
    assume "revoke_membership k actor ch db = Inr (cm, db')"
    from this ms show ?thesis
    proof (cases rule: revoke_cases)
      case (moves row m')
      show ?thesis by (rule left [OF moves(1,6)]) (use moves in \<open>simp_all add: entitled_def\<close>)
    qed (use none in \<open>auto simp: entitled_def mapMembership_def\<close>)
  next
    assume "setExportAllowed k actor False ch db = Inr (cm, db')"
    from this ms show ?thesis
    proof (cases rule: setExportAllowed_cases)
      case (moves row m')
      show ?thesis by (rule left [OF moves(1,7)]) (use moves in \<open>simp_all add: entitled_def\<close>)
    qed (use none in \<open>auto simp: entitled_def mapMembership_def\<close>)
  qed
qed

lemma spent_grant:
  assumes inv: "member_inv db" and d: "download hash clk actor exportId token requestId db = (Inr obj, db1)"
  shows "\<exists>g \<in> set (download_grants db1). gr_token_hash g = hash token \<and> gr_consumed g"
  using download_Inr [OF d]
proof (rule download_cases)
  fix shop m r g
  let ?p = "spendable clk actor shop m (hash token) exportId"
  assume "first_row ?p (download_grants db) = Some g"
    and db1: "db1 = audit r (db\<lparr>download_grants := update_rows ?p (\<lambda>g. g\<lparr>gr_consumed := True\<rparr>) (download_grants db)\<rparr>)"
  from first_row_SomeD [OF this(1)] have g: "?p g" "g \<in> set (download_grants db)" by auto
  have "g\<lparr>gr_consumed := True\<rparr> \<in> set (download_grants db1)"
    using g by (auto simp: db1 in_update_rows intro!: bexI [of _ g])
  moreover have "gr_token_hash g = hash token" using g(1) by (simp add: spendable_def)
  ultimately show ?thesis by (intro bexI [of _ "g\<lparr>gr_consumed := True\<rparr>"]) simp_all
qed

lemma consumed_unspendable:
  assumes inv: "member_inv db1" and run: "member_step\<^sup>*\<^sup>* db1 db2"
    and g: "g \<in> set (download_grants db1)" "gr_token_hash g = hash token" "gr_consumed g"
  shows "\<exists>e. fst (download hash clk actor exportId token requestId db2) = Inl e"
proof (cases "fst (download hash clk actor exportId token requestId db2)")
  case (Inr obj)
  then obtain db3 where "download hash clk actor exportId token requestId db2 = (Inr obj, db3)" by (metis prod.collapse)
  from download_Inr [OF this] show ?thesis
  proof (rule download_cases)
    fix shop m w
    assume "first_row (spendable clk actor shop m (hash token) exportId) (download_grants db2) = Some w"
    from first_row_SomeD [OF this] have w: "w \<in> set (download_grants db2)" "gr_token_hash w = hash token" "\<not> gr_consumed w"
      by (auto simp: spendable_def)
    have "grant_next g w" using grant_followed [OF _ _ g(1) w(1)] run_keeps [OF inv run] g(2) w(2) by simp
    with g(3) w(3) show ?thesis by (simp add: grant_next_def)
  qed
qed simp

lemma taken_invitation:
  assumes inv: "member_inv db1" and run: "member_step\<^sup>*\<^sup>* db1 db2"
    and i: "i \<in> set (invitations db1)" "iv_token_digest i = token_digest k token" "iv_status i \<noteq> Inv_PENDING"
  shows "\<exists>e. fst (accept_membership k clk actor newId token requestId db2) = Inl e"
proof -
  note later = run_keeps [OF inv run]
  obtain i' where i': "i' \<in> set (invitations db2)" "invitation_next i i'"
    using later i(1) unfolding member_evolves_def all_next_def by blast
  have "distinct (map iv_token_digest (invitations db2))"
    using later unfolding member_inv_def invitations_inv_def by blast
  from first_row_unique [OF this i'(1)] i' i(2)
  have "first_row (\<lambda>x. iv_token_digest x = token_digest k token) (invitations db2) = Some i'" by (simp add: invitation_next_def)
  moreover have "iv_status i' \<noteq> Inv_PENDING" using i' i(3) by (simp add: invitation_next_def)
  ultimately show ?thesis by (simp add: accept_membership_def accept_tx_def split: option.splits)
qed

lemma stored_again:
  assumes "storeIdempotentChange aid scp key hash cm db = Inr db1"
  shows "readIdempotentChange aid scp key hash db1 = Inr (Some cm)"
proof -
  have "first_row (\<lambda>r. ir_actor r = aid \<and> ir_scope r = scp \<and> ir_key r = key) (idempotency_records db) = None"
    using assms by (simp add: store_Inr_iff first_row_None_iff)
  with assms show ?thesis by (auto simp: store_Inr_iff readIdempotentChange_def first_row_append stored_def)
qed

lemma record_kept:
  assumes "readIdempotentChange aid scp key hash db1 = Inr (Some cm)" and "member_evolves db1 db2"
  shows "readIdempotentChange aid scp key hash db2 = Inr (Some cm)"
proof -
  obtain rs where rs: "idempotency_records db2 = idempotency_records db1 @ rs" using assms(2) unfolding member_evolves_def by blast
  show ?thesis
    using assms(1) unfolding readIdempotentChange_def rs first_row_append by (auto split: option.splits)
qed

lemma revoke_recorded:
  assumes "revoke_membership k actor ch db = Inr (cm, db1)"
  shows "trim (mc_reason ch) \<noteq> [] \<and> readIdempotentChange (actor_accountId actor) ''membership-revoke'' (mc_idempotencyKey ch)
    (changeRequestHash k ''REVOKE'' (mc_membershipId ch) [] (trim (mc_reason ch))) db1 = Inr (Some cm)"
  using assms
  by (auto simp: revoke_membership_def Let_def bindE_Inr_iff split: if_split_asm option.splits prod.splits intro: stored_again)

lemma export_right_recorded:
  assumes "setExportAllowed k actor b ch db = Inr (cm, db1)"
  shows "trim (mc_reason ch) \<noteq> [] \<and> readIdempotentChange (actor_accountId actor) ''membership-export'' (mc_idempotencyKey ch)
    (changeRequestHash k ''EXPORT'' (mc_membershipId ch) (bool_text b) (trim (mc_reason ch))) db1 = Inr (Some cm)"
  using assms
  by (auto simp: setExportAllowed_def Let_def bindE_Inr_iff split: if_split_asm option.splits prod.splits intro: stored_again)

section \<open>Instances\<close>

definition sample_owner :: Actor where
  "sample_owner = \<lparr> actor_accountId = ''o'', actor_status = Actor_ACTIVE, roles = {ACCOUNTANT}, enterpriseIds = Some {''e''} \<rparr>"

definition sample_customer :: Actor where
  "sample_customer = \<lparr> actor_accountId = ''c'', actor_status = Actor_ACTIVE, roles = {ACCOUNTANT}, enterpriseIds = Some {} \<rparr>"

definition sample_crypto :: member_crypto where
  "sample_crypto = \<lparr> invitation_mac = (\<lambda>i. i), token_digest = (\<lambda>t. t), sha256_hex = (\<lambda>t. t) \<rparr>"

definition sample_today :: clock where
  "sample_today = \<lparr> now = 1000, today = ''2024-05-01'' \<rparr>"

definition sample_member :: membership_row where
  "sample_member = \<lparr> sm_id = ''m'', sm_shop_id = ''s'', sm_account_id = ''c'', sm_status = Member_ACTIVE,
     sm_export_allowed = True, sm_epoch = 1, sm_invitation_id = Some ''i'', sm_granted_by = ''o'', sm_revoke_reason = None \<rparr>"

definition sample_invitation :: invitation_row where
  "sample_invitation = \<lparr> iv_id = ''j'', iv_shop_id = ''s'', iv_phone = ''+12025550101'', iv_token_digest = ''tok'',
     iv_status = Inv_PENDING, iv_export_allowed = True, iv_invited_by = ''o'', iv_expires_at = 5000,
     iv_accepted_by = None, iv_idempotency_key = ''k0'' \<rparr>"

definition sample_members :: "membership_row list \<Rightarrow> member_db" where
  "sample_members ms = \<lparr> accounts = [\<lparr> ac_id = ''d'', ac_phone = ''+12025550101'', ac_display_name = None, ac_registered = True,
       ac_status = Actor_ACTIVE, ac_role = Some ACCOUNTANT \<rparr>],
     enterprises = [], enterprise_members = [], audits = [], outbox = [], wallets = [], ledger = [], next_ledger = 1,
     orders = [], inbox = [], reversals = [], applications = [], price_versions = [], role_policies = [],
     shops = [\<lparr> sh_id = ''s'', sh_application_id = ''app'', sh_owner_account_id = ''o'', sh_enterprise_id = ''e'',
       sh_created_by = ''o'', sh_last_operated_by = ''o'', sh_name = ''S'', sh_normalized_name = ''s'', sh_status = ACTIVE,
       sh_start_date = ''2024-01-01'', sh_close_date = ''2025-01-01'', sh_rename_count = 0, sh_trashed_at = None,
       sh_purge_after = None, sh_purged_at = None \<rparr>],
     shop_terms = [], shop_charges = [], name_history = [], shop_memberships = ms, idempotency_records = [],
     invitations = [sample_invitation],
     export_requests = [\<lparr> xr_id = ''x'', xr_shop_id = ''s'', xr_requested_by = ''c'', xr_snapshot_id = ''p'', xr_epoch = Some 1,
       xr_status = X_SUCCEEDED, xr_business_key = ''b'', xr_format = REPORT_EXPORT_FORMAT, xr_profit_rate = None,
       xr_minimum_rate = None, xr_prefixes = [], xr_period = None, xr_error_code = None, xr_output = Some ''f'' \<rparr>],
     download_grants = [\<lparr> gr_id = ''g'', gr_export_id = ''x'', gr_shop_id = ''s'', gr_account_id = ''c'',
       gr_membership_id = Some ''m'', gr_epoch = Some 1, gr_token_hash = ''h'', gr_expires_at = 2000, gr_consumed = False,
       gr_revoked = False \<rparr>] \<rparr>"

definition sample_revocation :: MembershipChange where
  "sample_revocation = \<lparr> mc_membershipId = ''m'', mc_reason = ''left'', mc_requestId = ''r'', mc_idempotencyKey = ''k'' \<rparr>"

lemma sample_members_inv: "member_inv (sample_members [sample_member])"
  by (simp add: member_inv_def sample_members_def sample_member_def members_inv_def invitations_inv_def sample_invitation_def
      indexed_def exports_current_def grants_current_def entitled_def)


definition sample_crowd :: member_db where
  "sample_crowd = sample_members [sample_member]"

lemma sample_crowd_inv: "member_inv sample_crowd"
  unfolding sample_crowd_def by (rule sample_members_inv)

lemmas sample_defs = sample_crowd_def sample_members_def sample_member_def sample_owner_def sample_customer_def
  sample_crypto_def sample_today_def sample_invitation_def sample_revocation_def

definition sample_revoked :: member_db where
  "sample_revoked = snd (projr (revoke_membership sample_crypto sample_owner sample_revocation sample_crowd))"

definition revoked_view :: CustomerMembership where
  "revoked_view = mapMembership (sample_member\<lparr>sm_status := Member_REVOKED, sm_export_allowed := False, sm_epoch := 2\<rparr>)"

lemma trim_reason: "trim ''left'' = ''left''"
  by (simp add: trim_no_space is_space_def)

lemmas revoke_defs = revoke_membership_def Let_def loadMembershipForChange_def loadShop_def requireManage_def requireAllowed_def
  authorizeShop_def shop_resource_def readIdempotentChange_def storeIdempotentChange_def update_membership_def
  invalidateForMembership_def changeRequestHash_def allow_def

lemma sample_revoke: "revoke_membership sample_crypto sample_owner sample_revocation sample_crowd = Inr (revoked_view, sample_revoked)"
  by (simp add: sample_revoked_def revoked_view_def revoke_defs sample_defs trim_reason mapMembership_def audit_def)

lemma sample_revokes: "member_step\<^sup>*\<^sup>* sample_crowd sample_revoked"
  by (rule r_into_rtranclp, rule member_step.revokes [OF sample_revoke])

definition sample_download :: "string result \<times> member_db" where
  "sample_download = download (\<lambda>t. t) sample_today sample_customer ''x'' ''h'' ''r'' sample_crowd"

lemma sample_download_eq: "sample_download = (Inr ''f'', snd sample_download)"
  by (simp add: sample_download_def download_def audited_def download_tx_def authorizeCreate_def requireExportAccess_def
      requireAllowed_def authorizeShop_def shop_resource_def allow_def locked_membership_def sample_defs
      requireExportJobActor_def usesCustomerMembership_def in_enterprise_def spendable_def)

definition sample_newcomer :: Actor where
  "sample_newcomer = sample_customer\<lparr>actor_accountId := ''d''\<rparr>"

definition sample_accept :: "CustomerMembership result \<times> member_db" where
  "sample_accept = accept_membership sample_crypto sample_today sample_newcomer ''n'' ''tok'' ''r'' sample_crowd"

definition accepted_view :: CustomerMembership where
  "accepted_view = \<lparr> cm_id = ''n'', cm_shopId = ''s'', cm_accountId = ''d'', cm_status = Member_ACTIVE, cm_exportAllowed = True,
     cm_authorizationEpoch = nat_str 1 \<rparr>"

lemma sample_accept_eq: "sample_accept = (Inr accepted_view, snd sample_accept)"
  by (simp add: sample_accept_def accept_membership_def accept_tx_def activateShopMembership_def upsert_membership_def
      activation_of_def mapMembership_def sample_newcomer_def sample_defs accepted_view_def nat_str_1 Let_def audit_def accept_invitation_def)

section \<open>The rights of customers\<close>

text \<open>C10: from a consistent database, whatever sequence of invitations, acceptances, permission changes,
  revocations, exports, downloads and shop transactions follows: an account has one membership per shop,
  every live export of a customer was asked for under the present epoch of an active membership that may
  export, and so was every download token that can still be spent.\<close>

theorem customer_rights_current:
  assumes "member_inv db0" and "member_step\<^sup>*\<^sup>* db0 db"
  shows "distinct (map (\<lambda>m. (sm_shop_id m, sm_account_id m)) (shop_memberships db)) \<and>
    (\<forall>x \<in> set (export_requests db). \<forall>e. live_export x \<and> xr_epoch x = Some e \<longrightarrow>
       (\<exists>m \<in> set (shop_memberships db). sm_shop_id m = xr_shop_id x \<and> sm_account_id m = xr_requested_by x \<and>
          sm_status m = Member_ACTIVE \<and> sm_export_allowed m \<and> sm_epoch m = e)) \<and>
    (\<forall>g \<in> set (download_grants db). \<forall>mid. open_grant g \<and> gr_membership_id g = Some mid \<longrightarrow>
       (\<exists>m \<in> set (shop_memberships db). sm_id m = mid \<and> sm_shop_id m = gr_shop_id g \<and> sm_account_id m = gr_account_id g \<and>
          sm_status m = Member_ACTIVE \<and> sm_export_allowed m \<and> gr_epoch g = Some (sm_epoch m)))"
  using run_keeps [OF assms]
  unfolding member_inv_def members_inv_def exports_current_def grants_current_def entitled_def by blast

lemma customer_rights_current_witness:
  "distinct (map (\<lambda>m. (sm_shop_id m, sm_account_id m)) (shop_memberships sample_revoked))"
  using customer_rights_current [OF sample_crowd_inv sample_revokes] by blast

text \<open>the epoch versions the rights: between any two states of a run it never falls, and while it is the
  same, so are the status of the membership and its export right.\<close>

theorem epoch_versions_rights:
  assumes "member_inv db" and "member_step\<^sup>*\<^sup>* db db'"
    and "m \<in> set (shop_memberships db)" and "m' \<in> set (shop_memberships db')"
    and "sm_shop_id m' = sm_shop_id m" and "sm_account_id m' = sm_account_id m"
  shows "sm_epoch m \<le> sm_epoch m' \<and>
    (sm_epoch m' = sm_epoch m \<longrightarrow> sm_status m' = sm_status m \<and> sm_export_allowed m' = sm_export_allowed m)"
proof -
  note later = run_keeps [OF assms(1,2)]
  obtain n where n: "n \<in> set (shop_memberships db')" "membership_next m n"
    using later assms(3) unfolding member_evolves_def all_next_def by blast
  have "members_inv (shop_memberships db')" using later by (simp add: member_inv_def)
  from same_membership [OF this n(1) assms(4)] n(2) assms(5,6) show ?thesis by (auto simp: membership_next_def)
qed

lemma epoch_versions_rights_witness:
  "sm_epoch sample_member \<le> sm_epoch (sample_member\<lparr>sm_status := Member_REVOKED, sm_export_allowed := False, sm_epoch := 2,
     sm_revoke_reason := Some ''left''\<rparr>)"
  by (rule epoch_versions_rights [OF sample_crowd_inv sample_revokes, THEN conjunct1])
    (simp_all add: sample_revoked_def revoke_defs sample_defs trim_reason audit_def)

text \<open>C11: once a customer is revoked, or loses the right to export, whatever follows - also a new invitation
  and a new right - the exports the customer had asked for in that shop stay dead and no token minted there
  before can be spent by that customer.\<close>

theorem revoked_access_is_final:
  assumes inv: "member_inv db"
    and changed: "revoke_membership k actor ch db = Inr (cm, db1) \<or> setExportAllowed k actor False ch db = Inr (cm, db1)"
    and new: "\<forall>r \<in> set (idempotency_records db). ir_actor r = actor_accountId actor \<longrightarrow> ir_key r \<noteq> mc_idempotencyKey ch"
    and run: "member_step\<^sup>*\<^sup>* db1 db2"
  shows "(\<forall>x \<in> set (export_requests db1). \<forall>y \<in> set (export_requests db2).
       xr_shop_id x = cm_shopId cm \<and> xr_requested_by x = cm_accountId cm \<and> xr_epoch x \<noteq> None \<and> xr_id y = xr_id x \<longrightarrow> \<not> live_export y) \<and>
    (\<forall>g \<in> set (download_grants db1). \<forall>hash clk customer exportId token requestId obj db3.
       gr_shop_id g = cm_shopId cm \<and> gr_token_hash g = hash token \<and> actor_accountId customer = cm_accountId cm \<and>
       ADMIN \<notin> roles customer \<and> (\<forall>e. \<not> in_enterprise customer e) \<longrightarrow>
       download hash clk customer exportId token requestId db2 \<noteq> (Inr obj, db3))"
proof -
  obtain m where m: "m \<in> set (shop_memberships db1)" "\<not> entitled m" "sm_shop_id m = cm_shopId cm" "sm_account_id m = cm_accountId cm"
    using withdrawn [OF inv changed new] by blast
  have inv1: "member_inv db1"
    using changed inv revoke_keeps setExportAllowed_keeps unfolding member_keeps_def by blast
  show ?thesis
    using unentitled_export_dead [OF inv1 run m(1,2)] unentitled_grant_unspendable [OF inv1 run m(1,2) download_Inr] m(3,4)
    by (intro conjI ballI allI impI notI) (metis (no_types))+
qed

lemma revoked_access_is_final_witness:
  "download (\<lambda>t. t) sample_today sample_customer ''x'' ''h'' ''r'' sample_revoked \<noteq> (Inr ''f'', sample_revoked)"
proof -
  have g: "\<exists>g \<in> set (download_grants sample_revoked). gr_shop_id g = ''s'' \<and> gr_token_hash g = ''h''"
    by (simp add: sample_revoked_def revoke_defs sample_defs trim_reason audit_def)
  have new: "\<forall>r \<in> set (idempotency_records sample_crowd). ir_actor r = actor_accountId sample_owner \<longrightarrow>
      ir_key r \<noteq> mc_idempotencyKey sample_revocation" by (simp add: sample_defs)
  have "cm_shopId revoked_view = ''s''" "cm_accountId revoked_view = ''c''" "actor_accountId sample_customer = ''c''"
    "ADMIN \<notin> roles sample_customer" "\<forall>e. \<not> in_enterprise sample_customer e"
    by (simp_all add: revoked_view_def mapMembership_def sample_defs in_enterprise_def)
  then show ?thesis
    using revoked_access_is_final [OF sample_crowd_inv disjI1 [OF sample_revoke] new rtranclp.rtrancl_refl, THEN conjunct2] g
    by (metis (no_types, lifting))
qed

text \<open>a download token is spent at most once, whatever happens in between.\<close>

theorem token_spent_once:
  assumes "member_inv db" and "download hash clk actor exportId token requestId db = (Inr obj, db1)" and "member_step\<^sup>*\<^sup>* db1 db2"
  shows "\<exists>e. fst (download hash clk' actor' exportId' token requestId' db2) = Inl e"
proof -
  obtain g where "g \<in> set (download_grants db1)" "gr_token_hash g = hash token" "gr_consumed g"
    using spent_grant [OF assms(1,2)] by blast
  moreover have "member_inv db1"
    using member_step_keeps [OF member_step.downloads [OF assms(2)]] assms(1) by (simp add: member_keeps_def)
  ultimately show ?thesis using consumed_unspendable [OF _ assms(3)] by blast
qed

lemma token_spent_once_witness:
  "\<exists>e. fst (download (\<lambda>t. t) sample_today sample_customer ''x'' ''h'' ''again'' (snd sample_download)) = Inl e"
  by (rule token_spent_once [OF sample_crowd_inv sample_download_eq [unfolded sample_download_def [abs_def]] rtranclp.rtrancl_refl,
        folded sample_download_def])

text \<open>C22: an accepted invitation was pending, in time and for the account's phone; the membership is active
  with the right the invitation named; and its token is never accepted again, whatever follows.\<close>

theorem invitation_accepted_once:
  assumes "member_inv db" and "accept_membership k clk actor newId token requestId db = (Inr cm, db1)"
  shows "(\<exists>i \<in> set (invitations db). \<exists>a \<in> set (accounts db). iv_token_digest i = token_digest k token \<and> iv_status i = Inv_PENDING \<and>
      now clk < iv_expires_at i \<and> ac_id a = actor_accountId actor \<and> ac_phone a = iv_phone i \<and> actor_status actor = Actor_ACTIVE \<and>
      cm_shopId cm = iv_shop_id i \<and> cm_accountId cm = actor_accountId actor \<and> cm_status cm = Member_ACTIVE \<and>
      cm_exportAllowed cm = iv_export_allowed i) \<and>
    (\<forall>db2 clk' actor' newId' requestId'. member_step\<^sup>*\<^sup>* db1 db2 \<longrightarrow>
      (\<exists>e. fst (accept_membership k clk' actor' newId' token requestId' db2) = Inl e))"
proof -
  have act: "actor_status actor = Actor_ACTIVE" and tx: "accept_tx k clk actor newId token requestId db = Inr (Some cm, db1)"
    using assms(2) by (auto simp: accept_membership_def split: if_split_asm sum.splits option.splits)
  have inv1: "member_inv db1" using accept_keeps [OF assms(2)] assms(1) by (simp add: member_keeps_def)
  from tx show ?thesis
  proof (cases rule: accept_tx_cases)
    case (valid i account c dbm a)
    note i = first_row_SomeD [OF valid(1)] and ac = first_row_SomeD [OF valid(2)]
    have cm: "cm_shopId cm = iv_shop_id i \<and> cm_accountId cm = actor_accountId actor \<and> cm_status cm = Member_ACTIVE \<and>
        cm_exportAllowed cm = iv_export_allowed i"
      using valid(6,7) by (auto simp: activateShopMembership_def bindE_Inr_iff upsert_membership_def mapMembership_def
          activation_of_def Let_def split: option.splits if_split_asm dest!: first_row_SomeD)
    let ?i = "i\<lparr>iv_status := Inv_ACTIVE, iv_accepted_by := Some (actor_accountId actor)\<rparr>"
    have mem: "?i \<in> set (invitations db1)"
      using i activate_invitations [OF valid(6)] unfolding valid(8) accept_invitation_def
      by (auto simp: in_update_rows intro!: bexI [of _ i])
    have "\<forall>db2 clk' actor' newId' requestId'. member_step\<^sup>*\<^sup>* db1 db2 \<longrightarrow>
      (\<exists>e. fst (accept_membership k clk' actor' newId' token requestId' db2) = Inl e)"
      using taken_invitation [OF inv1 _ mem] i by simp
    with i ac cm act valid(3,4,5) show ?thesis by (intro conjI bexI [of _ i] bexI [of _ account]) auto
  qed simp
qed

lemma invitation_accepted_once_witness:
  "\<exists>e. fst (accept_membership sample_crypto sample_today sample_newcomer ''n2'' ''tok'' ''r2'' (snd sample_accept)) = Inl e"
  using invitation_accepted_once [OF sample_crowd_inv sample_accept_eq [unfolded sample_accept_def]]
  unfolding sample_accept_def by blast

text \<open>repeating a revocation or a change of the export right under its key, after any other transactions,
  by the same account while it still manages the shop, changes nothing and gives the first answer.\<close>

theorem membership_change_replay:
  assumes "member_inv db" and "member_step\<^sup>*\<^sup>* db1 db2" and "actor_accountId actor' = actor_accountId actor"
    and "loadMembershipForChange (mc_membershipId ch) db2 = Inr (row, shop)" and "requireManage actor' shop = Inr ()"
  shows "(revoke_membership k actor ch db = Inr (cm, db1) \<longrightarrow> revoke_membership k actor' ch db2 = Inr (cm, db2)) \<and>
    (setExportAllowed k actor b ch db = Inr (cm, db1) \<longrightarrow> setExportAllowed k actor' b ch db2 = Inr (cm, db2))"
proof (intro conjI impI)
  assume ok: "revoke_membership k actor ch db = Inr (cm, db1)"
  have "member_inv db1" using revoke_keeps [OF ok] assms(1) by (simp add: member_keeps_def)
  from record_kept [OF revoke_recorded [OF ok, THEN conjunct2] run_keeps [OF this assms(2), THEN conjunct2]]
  show "revoke_membership k actor' ch db2 = Inr (cm, db2)"
    using revoke_recorded [OF ok] assms(3-5) by (simp add: revoke_membership_def)
next
  assume ok: "setExportAllowed k actor b ch db = Inr (cm, db1)"
  have "member_inv db1" using setExportAllowed_keeps [OF ok] assms(1) by (simp add: member_keeps_def)
  from record_kept [OF export_right_recorded [OF ok, THEN conjunct2] run_keeps [OF this assms(2), THEN conjunct2]]
  show "setExportAllowed k actor' b ch db2 = Inr (cm, db2)"
    using export_right_recorded [OF ok] assms(3-5) by (simp add: setExportAllowed_def)
qed

lemma membership_change_replay_witness:
  "revoke_membership sample_crypto sample_owner sample_revocation sample_revoked = Inr (revoked_view, sample_revoked)"
proof -
  have "\<exists>row shop. loadMembershipForChange (mc_membershipId sample_revocation) sample_revoked = Inr (row, shop) \<and>
      requireManage sample_owner shop = Inr ()"
    by (simp add: sample_revoked_def revoke_defs sample_defs trim_reason audit_def)
  then obtain row shop where "loadMembershipForChange (mc_membershipId sample_revocation) sample_revoked = Inr (row, shop)"
      "requireManage sample_owner shop = Inr ()" by blast
  from membership_change_replay [OF sample_crowd_inv rtranclp.rtrancl_refl refl this, THEN conjunct1]
  show ?thesis using sample_revoke by blast
qed

end
