(* ===== verification/Workflow.thy ===== *)
theory Workflow
  imports JsText
begin

text \<open>
  The progress bar of a shop: \<open>src/modules/shops/workflow.ts\<close>. From the state of the present batch,
  calculation and export it derives six steps, their state, severity and progress, and the step the
  page opens. The Chinese labels are left out; statuses stay the strings the code compares.
\<close>

section \<open>The code\<close>

datatype WorkflowStepCode = RECEIVE | PREFLIGHT | COMMIT | CALCULATE | PUBLISH | EXPORT

datatype WorkflowStepState = NOT_STARTED | IN_PROGRESS | COMPLETED

datatype WorkflowSeverity = SEV_NONE | SEV_WARNING | SEV_BLOCKING

record WorkflowBatchState =
  wb_status :: string
  wb_stage :: string
  wb_failureCode :: "string option"
  wb_declaredBytes :: string
  wb_receivedBytes :: string
  wb_fileCount :: int
  wb_processedFileCount :: int
  wb_warningCount :: int
  wb_blockingCount :: int
  wb_publishedSnapshotMatchesBatch :: bool

record WorkflowCalculationState =
  wc_status :: string

record WorkflowExportState =
  we_status :: string
  we_progress :: "string option"

datatype WorkflowAccess = W_ENTERPRISE | W_CUSTOMER | W_ADMIN

datatype WorkflowShopStatus = W_ACTIVE | W_EXPIRED | W_TRASHED

record WorkflowInput =
  wi_access :: WorkflowAccess
  wi_shopStatus :: WorkflowShopStatus
  wi_hasPublishedSnapshot :: bool
  wi_canExport :: bool
  wi_batch :: "WorkflowBatchState option"
  wi_calculation :: "WorkflowCalculationState option"
  wi_latestExport :: "WorkflowExportState option"
  wi_workerAvailable :: "bool option"
  wi_terminalRecoveryBlocked :: "bool option"

record WorkflowStepSummary =
  ws_code :: WorkflowStepCode
  ws_state :: WorkflowStepState
  ws_severity :: WorkflowSeverity
  ws_progress :: "string option"
  ws_warningCount :: int
  ws_blockingCount :: int
  ws_clickable :: bool

definition batch_is :: "(WorkflowBatchState \<Rightarrow> bool) \<Rightarrow> WorkflowInput \<Rightarrow> bool" where
  "batch_is p input = (case wi_batch input of None \<Rightarrow> False | Some b \<Rightarrow> p b)"

definition workflowDownloadAvailable :: "WorkflowInput \<Rightarrow> bool" where
  "workflowDownloadAvailable input =
     (if \<not> wi_hasPublishedSnapshot input \<or> \<not> wi_canExport input then False
      else (case wi_batch input of None \<Rightarrow> True | Some b \<Rightarrow> wb_publishedSnapshotMatchesBatch b))"

definition COMMIT_STARTED :: "string list" where
  "COMMIT_STARTED = [''COMMITTING'', ''COMMITTED'', ''COMMITTED_WITH_EXCLUSIONS'', ''CALCULATING'', ''READY_FOR_REVIEW'',
     ''RESULT_PUBLISHING'', ''RESULT_PUBLISHED'']"

definition COMMIT_COMPLETED :: "string list" where
  "COMMIT_COMPLETED = [''COMMITTED'', ''COMMITTED_WITH_EXCLUSIONS'', ''CALCULATING'', ''READY_FOR_REVIEW'',
     ''RESULT_PUBLISHING'', ''RESULT_PUBLISHED'']"

definition PREFLIGHT_COMPLETED :: "string list" where
  "PREFLIGHT_COMPLETED = ''AWAITING_COMMIT_CONFIRMATION'' # COMMIT_STARTED"

text \<open>\<open>BigInt\<close> division rounds towards zero.\<close>

definition percent :: "int \<Rightarrow> int \<Rightarrow> string option" where
  "percent n d =
     (if d \<le> 0 then None
      else let r = (if n < 0 then - ((- n * 100) div d) else n * 100 div d) in
        Some (int_str (if r > 100 then 100 else r)))"

text \<open>The byte counts are texts: \<open>BigInt\<close> reads the denominator first.\<close>

definition percent_text :: "string \<Rightarrow> string \<Rightarrow> string option result" where
  "percent_text n d =
     bindE (js_bigint d) (\<lambda>whole.
     if whole \<le> 0 then Inr None else bindE (js_bigint n) (\<lambda>x. Inr (percent x whole)))"

definition workflow_step ::
    "WorkflowStepCode \<Rightarrow> WorkflowStepState \<Rightarrow> WorkflowSeverity \<Rightarrow> string option \<Rightarrow> bool \<Rightarrow> int \<Rightarrow> int \<Rightarrow> WorkflowStepSummary" where
  "workflow_step c st sev progress clickable warnings blocking =
     \<lparr> ws_code = c, ws_state = st, ws_severity = sev, ws_progress = progress, ws_warningCount = warnings,
       ws_blockingCount = blocking, ws_clickable = clickable \<rparr>"

text \<open>\<open>/A|B|C/.test(`${stage}:${failureCode ?? ""}`)\<close>.\<close>

definition trouble :: "WorkflowBatchState \<Rightarrow> string" where
  "trouble b = wb_stage b @ '':'' @ (case wb_failureCode b of None \<Rightarrow> [] | Some c \<Rightarrow> c)"

definition failed_at :: "string list \<Rightarrow> WorkflowBatchState \<Rightarrow> bool" where
  "failed_at ws b \<longleftrightarrow> wb_status b = ''FAILED'' \<and> list_ex (\<lambda>w. str_includes w (trouble b)) ws"

definition no_failure :: "WorkflowBatchState \<Rightarrow> bool" where
  "no_failure b \<longleftrightarrow> (case wb_failureCode b of None \<Rightarrow> True | Some c \<Rightarrow> c = [])"

definition can_manage :: "WorkflowInput \<Rightarrow> bool" where
  "can_manage input \<longleftrightarrow> wi_shopStatus input = W_ACTIVE \<and> wi_access input \<noteq> W_CUSTOMER"

definition historical :: "WorkflowInput \<Rightarrow> bool" where
  "historical input \<longleftrightarrow> wi_batch input = None \<and> wi_hasPublishedSnapshot input"

definition worker_unavailable :: "WorkflowInput \<Rightarrow> bool" where
  "worker_unavailable input \<longleftrightarrow> wi_workerAvailable input = Some False"

definition recovery_blocked :: "WorkflowInput \<Rightarrow> bool" where
  "recovery_blocked input \<longleftrightarrow> wi_terminalRecoveryBlocked input = Some True"

definition step_state :: "bool \<Rightarrow> bool \<Rightarrow> WorkflowStepState" where
  "step_state running complete = (if running then IN_PROGRESS else if complete then COMPLETED else NOT_STARTED)"

definition blocking_severity :: "bool \<Rightarrow> WorkflowSeverity" where
  "blocking_severity b = (if b then SEV_BLOCKING else SEV_NONE)"

definition done_progress :: "bool \<Rightarrow> string option" where
  "done_progress complete = (if complete then Some ''100'' else None)"

definition one_if :: "bool \<Rightarrow> int" where
  "one_if b = (if b then 1 else 0)"

definition status_in :: "string list \<Rightarrow> WorkflowInput \<Rightarrow> bool" where
  "status_in ss = batch_is (\<lambda>b. wb_status b \<in> set ss)"

definition receive_step :: "WorkflowInput \<Rightarrow> WorkflowStepSummary result" where
  "receive_step input =
     (let complete = (wi_batch input \<noteq> None \<or> historical input);
          running = status_in [''DRAFT'', ''UPLOADING''] input;
          blocking = (recovery_blocked input \<and> running) in
      bindE (case wi_batch input of
          Some b \<Rightarrow> if running then percent_text (wb_receivedBytes b) (wb_declaredBytes b) else Inr (Some ''100'')
        | None \<Rightarrow> Inr (done_progress complete)) (\<lambda>progress.
      Inr (workflow_step RECEIVE (step_state running complete) (blocking_severity blocking) progress (can_manage input) 0
        (one_if blocking))))"

definition preflight_complete :: "WorkflowInput \<Rightarrow> bool" where
  "preflight_complete input \<longleftrightarrow> historical input \<or>
     batch_is (\<lambda>b. wb_status b \<in> set PREFLIGHT_COMPLETED \<or> failed_at [''COMMIT'', ''COPY'', ''CALCULAT'', ''PUBLISH''] b) input"

definition preflight_blocking :: "WorkflowInput \<Rightarrow> bool" where
  "preflight_blocking input \<longleftrightarrow> batch_is (\<lambda>b.
     wb_status b \<in> {''AWAITING_FILES'', ''AWAITING_MAPPING''}
     \<or> worker_unavailable input \<and> wb_status b \<in> {''ANALYZING'', ''RETRYING''}
     \<or> recovery_blocked input \<and> wb_status b \<in> {''ANALYZING'', ''AWAITING_FILES'', ''AWAITING_MAPPING'', ''RETRYING''}
     \<or> wb_blockingCount b > 0
     \<or> wb_status b = ''FAILED'' \<and> \<not> failed_at [''COMMIT'', ''CALCULAT'', ''PUBLISH''] b) input"

definition preflight_step :: "WorkflowInput \<Rightarrow> WorkflowStepSummary" where
  "preflight_step input =
     (let running = status_in [''ANALYZING'', ''AWAITING_FILES'', ''AWAITING_MAPPING'', ''RETRYING''] input;
          warnings = (case wi_batch input of None \<Rightarrow> 0 | Some b \<Rightarrow> wb_warningCount b);
          blockers = (case wi_batch input of None \<Rightarrow> 0 | Some b \<Rightarrow> wb_blockingCount b) in
      workflow_step PREFLIGHT (step_state running (preflight_complete input))
        (if preflight_blocking input then SEV_BLOCKING else if warnings > 0 then SEV_WARNING else SEV_NONE)
        (if preflight_complete input then Some ''100''
         else case wi_batch input of None \<Rightarrow> None | Some b \<Rightarrow> percent (wb_processedFileCount b) (wb_fileCount b))
        (can_manage input \<and> wi_batch input \<noteq> None) warnings
        (if preflight_blocking input then max 1 blockers else 0))"

definition exclusion_confirmation :: "WorkflowInput \<Rightarrow> bool" where
  "exclusion_confirmation = batch_is (\<lambda>b. wb_failureCode b = Some ''HARD_INCOMPLETE_CONFIRMATION_REQUIRED'')"

definition commit_complete :: "WorkflowInput \<Rightarrow> bool" where
  "commit_complete input \<longleftrightarrow> historical input \<or> batch_is (\<lambda>b. wb_status b \<in> set COMMIT_COMPLETED
     \<or> \<not> exclusion_confirmation input \<and> failed_at [''CALCULAT'', ''PUBLISH''] b) input"

definition commit_step :: "WorkflowInput \<Rightarrow> WorkflowStepSummary" where
  "commit_step input =
     (let running = status_in [''COMMITTING''] input;
          blocking = (exclusion_confirmation input \<or> worker_unavailable input \<and> running \<or> recovery_blocked input \<and> running
            \<or> batch_is (failed_at [''COMMIT'', ''COPY'', ''DATABASE_CAPACITY'']) input) in
      workflow_step COMMIT (step_state running (commit_complete input)) (blocking_severity blocking)
        (done_progress (commit_complete input)) (can_manage input \<and> (preflight_complete input \<or> running)) 0 (one_if blocking))"

definition calculation_complete :: "WorkflowInput \<Rightarrow> bool" where
  "calculation_complete input \<longleftrightarrow> historical input \<or>
     status_in [''READY_FOR_REVIEW'', ''RESULT_PUBLISHING'', ''RESULT_PUBLISHED''] input"

definition calculation_step :: "WorkflowInput \<Rightarrow> WorkflowStepSummary" where
  "calculation_step input =
     (let running = status_in [''COMMITTED'', ''COMMITTED_WITH_EXCLUSIONS'', ''CALCULATING''] input;
          stuck = (case wi_calculation input of None \<Rightarrow> False | Some c \<Rightarrow> wc_status c \<in> {''BLOCKED'', ''FAILED''});
          blocking = (\<not> exclusion_confirmation input \<and> (stuck \<or> worker_unavailable input \<and> running
            \<or> recovery_blocked input \<and> running \<or> batch_is (failed_at [''CALCULAT'']) input)) in
      workflow_step CALCULATE (step_state running (calculation_complete input)) (blocking_severity blocking)
        (done_progress (calculation_complete input)) (can_manage input \<and> (commit_complete input \<or> running)) 0 (one_if blocking))"

definition publish_step :: "WorkflowInput \<Rightarrow> WorkflowStepSummary" where
  "publish_step input =
     (let complete = (historical input \<or> status_in [''RESULT_PUBLISHED''] input);
          running = batch_is (\<lambda>b. wb_status b \<in> {''READY_FOR_REVIEW'', ''RESULT_PUBLISHING''} \<and> no_failure b) input;
          blocking = batch_is (\<lambda>b. wb_failureCode b = Some ''AUTO_PUBLISH_FAILED'' \<or> worker_unavailable input \<and> running
            \<or> recovery_blocked input \<and> running \<or> failed_at [''PUBLISH''] b) input in
      workflow_step PUBLISH (step_state running complete) (blocking_severity blocking) (done_progress complete)
        (wi_hasPublishedSnapshot input \<or> can_manage input \<and> (calculation_complete input \<or> running)) 0 (one_if blocking))"

definition export_step :: "WorkflowInput \<Rightarrow> WorkflowStepSummary" where
  "export_step input =
     (let ready = workflowDownloadAvailable input;
          running = (case wi_latestExport input of None \<Rightarrow> False | Some e \<Rightarrow> we_status e \<in> {''QUEUED'', ''RUNNING''});
          blocking = (running \<and> (worker_unavailable input \<or> recovery_blocked input)) in
      workflow_step EXPORT (step_state running ready) (blocking_severity blocking)
        (if running then (case wi_latestExport input of None \<Rightarrow> None | Some e \<Rightarrow> we_progress e) else done_progress ready)
        ready 0 (one_if blocking))"

definition active_step :: "WorkflowStepSummary list \<Rightarrow> WorkflowStepSummary" where
  "active_step steps =
     (case find (\<lambda>s. ws_state s \<noteq> COMPLETED \<and> ws_clickable s) steps of
        Some s \<Rightarrow> s
      | None \<Rightarrow> (case find ws_clickable (rev steps) of Some s \<Rightarrow> s | None \<Rightarrow> hd steps))"

definition deriveWorkflowSteps :: "WorkflowInput \<Rightarrow> (WorkflowStepCode \<times> WorkflowStepSummary list) result" where
  "deriveWorkflowSteps input =
     bindE (receive_step input) (\<lambda>receive.
     let steps = [receive, preflight_step input, commit_step input, calculation_step input, publish_step input, export_step input] in
     Inr (ws_code (active_step steps), steps))"


section \<open>What the derived steps promise\<close>

lemmas workflow_defs = receive_step_def preflight_step_def commit_step_def calculation_step_def publish_step_def export_step_def
  workflow_step_def Let_def

lemmas status_defs = status_in_def batch_is_def COMMIT_STARTED_def COMMIT_COMPLETED_def PREFLIGHT_COMPLETED_def failed_at_def
  preflight_complete_def commit_complete_def calculation_complete_def historical_def

lemma step_state_iff [simp]:
  "step_state r c = COMPLETED \<longleftrightarrow> \<not> r \<and> c" "step_state r c = IN_PROGRESS \<longleftrightarrow> r" "step_state r c = NOT_STARTED \<longleftrightarrow> \<not> r \<and> \<not> c"
  by (simp_all add: step_state_def)

lemma blocking_severity_iff [simp]: "blocking_severity b = SEV_BLOCKING \<longleftrightarrow> b"
  by (simp add: blocking_severity_def)

lemma one_if_pos [simp]: "0 < one_if b \<longleftrightarrow> b"
  by (simp add: one_if_def)

lemma derive_Inr_iff:
  "deriveWorkflowSteps input = Inr (code, steps) \<longleftrightarrow> (\<exists>receive. receive_step input = Inr receive \<and>
     steps = [receive, preflight_step input, commit_step input, calculation_step input, publish_step input, export_step input] \<and>
     code = ws_code (active_step steps))"
  by (auto simp: deriveWorkflowSteps_def bindE_Inr_iff Let_def)

lemma receive_step_fields:
  assumes "receive_step input = Inr r"
  shows "ws_code r = RECEIVE" "ws_state r = step_state (status_in [''DRAFT'', ''UPLOADING''] input) (wi_batch input \<noteq> None \<or> historical input)"
    "ws_clickable r = can_manage input" "ws_severity r = SEV_BLOCKING \<longleftrightarrow> 0 < ws_blockingCount r"
  using assms by (auto simp: receive_step_def workflow_step_def bindE_Inr_iff Let_def)

text \<open>The fields of the derived steps that do not depend on the progress.\<close>

lemma step_codes [simp]:
  "ws_code (preflight_step input) = PREFLIGHT" "ws_code (commit_step input) = COMMIT" "ws_code (calculation_step input) = CALCULATE"
  "ws_code (publish_step input) = PUBLISH" "ws_code (export_step input) = EXPORT"
  by (simp_all add: preflight_step_def commit_step_def calculation_step_def publish_step_def export_step_def workflow_step_def Let_def)

lemma step_clickable:
  "ws_clickable (preflight_step input) \<Longrightarrow> can_manage input" "ws_clickable (commit_step input) \<Longrightarrow> can_manage input"
  "ws_clickable (calculation_step input) \<Longrightarrow> can_manage input"
  "ws_clickable (publish_step input) \<Longrightarrow> wi_hasPublishedSnapshot input \<or> can_manage input"
  "ws_clickable (export_step input) \<Longrightarrow> wi_hasPublishedSnapshot input"
  by (auto simp: preflight_step_def commit_step_def calculation_step_def publish_step_def export_step_def workflow_step_def Let_def
      workflowDownloadAvailable_def split: if_split_asm)

lemma step_blocking:
  "ws_severity (preflight_step input) = SEV_BLOCKING \<longleftrightarrow> 0 < ws_blockingCount (preflight_step input)"
  "ws_severity (commit_step input) = SEV_BLOCKING \<longleftrightarrow> 0 < ws_blockingCount (commit_step input)"
  "ws_severity (calculation_step input) = SEV_BLOCKING \<longleftrightarrow> 0 < ws_blockingCount (calculation_step input)"
  "ws_severity (publish_step input) = SEV_BLOCKING \<longleftrightarrow> 0 < ws_blockingCount (publish_step input)"
  "ws_severity (export_step input) = SEV_BLOCKING \<longleftrightarrow> 0 < ws_blockingCount (export_step input)"
  by (simp_all add: max_def preflight_step_def commit_step_def calculation_step_def publish_step_def export_step_def workflow_step_def Let_def)

lemma find_clickable:
  assumes "s \<in> set steps" and "ws_clickable s"
  shows "ws_clickable (active_step steps) \<and> active_step steps \<in> set steps"
proof (cases "find (\<lambda>s. ws_state s \<noteq> COMPLETED \<and> ws_clickable s) steps")
  case (Some t)
  from find_SomeD [OF this] Some show ?thesis by (simp add: active_step_def)
next
  case None
  obtain t where t: "find ws_clickable (rev steps) = Some t"
    using assms by (cases "find ws_clickable (rev steps)") (auto simp: find_None_iff)
  from find_SomeD [OF t] None t show ?thesis by (simp add: active_step_def)
qed

text \<open>The running and the completed states of the first five steps, by the status of the batch.\<close>

definition running_at :: "WorkflowInput \<Rightarrow> bool list" where
  "running_at input = [status_in [''DRAFT'', ''UPLOADING''] input,
     status_in [''ANALYZING'', ''AWAITING_FILES'', ''AWAITING_MAPPING'', ''RETRYING''] input, status_in [''COMMITTING''] input,
     status_in [''COMMITTED'', ''COMMITTED_WITH_EXCLUSIONS'', ''CALCULATING''] input,
     batch_is (\<lambda>b. wb_status b \<in> {''READY_FOR_REVIEW'', ''RESULT_PUBLISHING''} \<and> no_failure b) input]"

definition complete_at :: "WorkflowInput \<Rightarrow> bool list" where
  "complete_at input = [wi_batch input \<noteq> None \<or> historical input, preflight_complete input, commit_complete input,
     calculation_complete input, historical input \<or> status_in [''RESULT_PUBLISHED''] input]"

lemma step_states:
  assumes "deriveWorkflowSteps input = Inr (code, steps)"
  shows "map ws_state (take 5 steps) = map2 step_state (running_at input) (complete_at input)"
  using assms receive_step_fields(2)
  by (auto simp: derive_Inr_iff running_at_def complete_at_def preflight_step_def commit_step_def calculation_step_def
      publish_step_def workflow_step_def Let_def numeral_eq_Suc)

text \<open>How far a status is along the workflow.\<close>

definition phase :: "string \<Rightarrow> nat" where
  "phase s =
     (if s \<in> {''DRAFT'', ''UPLOADING''} then 1
      else if s \<in> {''ANALYZING'', ''AWAITING_FILES'', ''AWAITING_MAPPING'', ''RETRYING''} then 2
      else if s = ''AWAITING_COMMIT_CONFIRMATION'' then 3
      else if s = ''COMMITTING'' then 4
      else if s \<in> {''COMMITTED'', ''COMMITTED_WITH_EXCLUSIONS'', ''CALCULATING''} then 5
      else if s \<in> {''READY_FOR_REVIEW'', ''RESULT_PUBLISHING''} then 6
      else if s = ''RESULT_PUBLISHED'' then 7 else 0)"

lemma phase_iff:
  "s \<in> {''DRAFT'', ''UPLOADING''} \<longleftrightarrow> phase s = 1"
  "s \<in> {''ANALYZING'', ''AWAITING_FILES'', ''AWAITING_MAPPING'', ''RETRYING''} \<longleftrightarrow> phase s = 2"
  "s = ''COMMITTING'' \<longleftrightarrow> phase s = 4"
  "s \<in> {''COMMITTED'', ''COMMITTED_WITH_EXCLUSIONS'', ''CALCULATING''} \<longleftrightarrow> phase s = 5"
  "s \<in> {''READY_FOR_REVIEW'', ''RESULT_PUBLISHING''} \<longleftrightarrow> phase s = 6"
  "s = ''RESULT_PUBLISHED'' \<longleftrightarrow> phase s = 7"
  by (auto simp: phase_def)

lemma phase_completed:
  "s \<in> set PREFLIGHT_COMPLETED \<longleftrightarrow> 3 \<le> phase s" "s \<in> set COMMIT_COMPLETED \<longleftrightarrow> 5 \<le> phase s"
  "s \<in> {''READY_FOR_REVIEW'', ''RESULT_PUBLISHING'', ''RESULT_PUBLISHED''} \<longleftrightarrow> 6 \<le> phase s"
  by (auto simp: phase_def PREFLIGHT_COMPLETED_def COMMIT_STARTED_def COMMIT_COMPLETED_def)

lemma failed_phase: "failed_at ws b \<Longrightarrow> phase (wb_status b) = 0"
  by (simp add: failed_at_def phase_def)

lemma failed_more: "failed_at ws b \<Longrightarrow> set ws \<subseteq> set ws' \<Longrightarrow> failed_at ws' b"
  by (auto simp: failed_at_def list_ex_iff)

lemma running_phase:
  assumes "wi_batch input = Some b"
  shows "running_at input = [phase (wb_status b) = 1, phase (wb_status b) = 2, phase (wb_status b) = 4, phase (wb_status b) = 5,
     phase (wb_status b) = 6 \<and> no_failure b]"
  unfolding running_at_def status_in_def batch_is_def assms option.case list.set phase_iff by (simp add: phase_iff(3))

lemma complete_phase:
  assumes "wi_batch input = Some b"
  shows "complete_at input = [True, 3 \<le> phase (wb_status b) \<or> failed_at [''COMMIT'', ''COPY'', ''CALCULAT'', ''PUBLISH''] b,
     5 \<le> phase (wb_status b) \<or> \<not> exclusion_confirmation input \<and> failed_at [''CALCULAT'', ''PUBLISH''] b,
     6 \<le> phase (wb_status b), phase (wb_status b) = 7]"
proof -
  have "wb_status b \<in> {''RESULT_PUBLISHED''} \<longleftrightarrow> phase (wb_status b) = 7" using phase_iff(6) by simp
  then show ?thesis
    unfolding complete_at_def preflight_complete_def commit_complete_def calculation_complete_def historical_def status_in_def
      batch_is_def assms option.case list.set phase_completed by simp
qed

lemma less_five: "i < j \<and> j < 5 \<longleftrightarrow> (i, j) \<in> {(0, 1), (0, 2), (1, 2), (0, 3), (1, 3), (2, 3), (0, 4), (1, 4), (2, 4), (3, 4 :: nat)}"
  unfolding insert_iff prod.inject empty_iff by presburger

lemma ordered_states:
  assumes "i < j \<and> j < 5"
  shows "\<not> (running_at input ! i \<and> running_at input ! j)"
    and "complete_at input ! j \<Longrightarrow> complete_at input ! i \<and> \<not> running_at input ! i"
proof -
  have "\<not> (running_at input ! i \<and> running_at input ! j) \<and>
    (complete_at input ! j \<longrightarrow> complete_at input ! i \<and> \<not> running_at input ! i)"
  proof (cases "wi_batch input")
    case None
    then have "running_at input = [False, False, False, False, False]"
      "complete_at input = replicate 5 (wi_hasPublishedSnapshot input)"
      by (simp_all add: running_at_def complete_at_def status_in_def batch_is_def preflight_complete_def commit_complete_def
          calculation_complete_def historical_def numeral_eq_Suc)
    then show ?thesis using assms unfolding less_five by auto
  next
    case (Some b)
    have "failed_at [''CALCULAT'', ''PUBLISH''] b \<Longrightarrow> failed_at [''COMMIT'', ''COPY'', ''CALCULAT'', ''PUBLISH''] b"
      by (erule failed_more) simp
    then show ?thesis
      using assms failed_phase [of _ b] unfolding less_five running_phase [OF Some] complete_phase [OF Some]
      by (elim insertE emptyE) (auto dest: failed_phase)
  qed
  then show "\<not> (running_at input ! i \<and> running_at input ! j)"
    and "complete_at input ! j \<Longrightarrow> complete_at input ! i \<and> \<not> running_at input ! i" by blast+
qed

lemma at_length: "length (running_at input) = 5" "length (complete_at input) = 5"
  by (simp_all add: running_at_def complete_at_def)

lemma state_at:
  assumes "deriveWorkflowSteps input = Inr (code, steps)" and "i < 5"
  shows "ws_state (steps ! i) = step_state (running_at input ! i) (complete_at input ! i)"
proof -
  have len: "length steps = 6" using assms(1) by (auto simp: derive_Inr_iff)
  have "ws_state (steps ! i) = map ws_state (take 5 steps) ! i" using assms(2) len by simp
  also have "\<dots> = step_state (running_at input ! i) (complete_at input ! i)"
    unfolding step_states [OF assms(1)] using assms(2) by (simp add: at_length)
  finally show ?thesis .
qed

text \<open>The download: available, and none being made.\<close>

definition export_running :: "WorkflowInput \<Rightarrow> bool" where
  "export_running input \<longleftrightarrow> (\<exists>e. wi_latestExport input = Some e \<and> we_status e \<in> {''QUEUED'', ''RUNNING''})"

lemma export_state:
  "ws_state (export_step input) = COMPLETED \<longleftrightarrow> wi_hasPublishedSnapshot input \<and> wi_canExport input \<and> \<not> export_running input \<and>
     (case wi_batch input of None \<Rightarrow> True | Some b \<Rightarrow> wb_publishedSnapshotMatchesBatch b)"
  by (auto simp: export_step_def workflow_step_def Let_def export_running_def workflowDownloadAvailable_def split: option.splits)

text \<open>Where nothing is under way, because there is no batch or the last one is published, a snapshot means that all is done.\<close>

lemma published_states:
  assumes "wi_hasPublishedSnapshot input" and "case wi_batch input of None \<Rightarrow> True | Some b \<Rightarrow> wb_status b = ''RESULT_PUBLISHED''" and "i < 5"
  shows "step_state (running_at input ! i) (complete_at input ! i) = COMPLETED"
proof (cases "wi_batch input")
  case None
  then have "running_at input = [False, False, False, False, False]" "complete_at input = [True, True, True, True, True]"
    using assms(1) by (simp_all add: running_at_def complete_at_def status_in_def batch_is_def preflight_complete_def commit_complete_def
        calculation_complete_def historical_def)
  then show ?thesis using assms(3) by (auto simp: less_Suc_eq numeral_eq_Suc)
next
  case (Some b)
  then have seven: "phase (wb_status b) = 7" using assms(2) by (simp add: phase_def)
  show ?thesis unfolding running_phase [OF Some] complete_phase [OF Some] seven using assms(3) by (auto simp: less_Suc_eq numeral_eq_Suc)
qed

text \<open>C27: the first five steps, up to the publication, complete in order, whatever the batch says: a completed one has
  every earlier one completed and at most one is in progress. The sixth, the download, is complete exactly when a
  published result may be exported, belongs to the batch if there is one, and no export is being made; it then has all
  five completed when there is no batch or the batch is published, but not in general: a committed batch whose snapshot
  is already published has its download complete while its calculation is in progress. A step blocks exactly when it
  counts a blocker.\<close>

theorem workflow_steps_in_order:
  assumes "deriveWorkflowSteps input = Inr (code, steps)"
  shows "map ws_code steps = [RECEIVE, PREFLIGHT, COMMIT, CALCULATE, PUBLISH, EXPORT] \<and>
    (\<forall>i j. i < j \<and> j < 5 \<longrightarrow>
       (ws_state (steps ! j) = COMPLETED \<longrightarrow> ws_state (steps ! i) = COMPLETED) \<and>
       \<not> (ws_state (steps ! i) = IN_PROGRESS \<and> ws_state (steps ! j) = IN_PROGRESS)) \<and>
    (ws_state (steps ! 5) = COMPLETED \<longleftrightarrow> wi_hasPublishedSnapshot input \<and> wi_canExport input \<and> \<not> export_running input \<and>
       (case wi_batch input of None \<Rightarrow> True | Some b \<Rightarrow> wb_publishedSnapshotMatchesBatch b)) \<and>
    (ws_state (steps ! 5) = COMPLETED \<and> (case wi_batch input of None \<Rightarrow> True | Some b \<Rightarrow> wb_status b = ''RESULT_PUBLISHED'') \<longrightarrow>
       (\<forall>i < 5. ws_state (steps ! i) = COMPLETED)) \<and>
    (\<forall>s \<in> set steps. ws_severity s = SEV_BLOCKING \<longleftrightarrow> 0 < ws_blockingCount s)"
proof -
  obtain r where r: "receive_step input = Inr r"
    and steps: "steps = [r, preflight_step input, commit_step input, calculation_step input, publish_step input, export_step input]"
    using assms by (auto simp: derive_Inr_iff)
  have "ws_severity s = SEV_BLOCKING \<longleftrightarrow> 0 < ws_blockingCount s" if "s \<in> set steps" for s
    using that receive_step_fields(4) [OF r] step_blocking [of input] unfolding steps list.set by blast
  moreover have "map ws_code steps = [RECEIVE, PREFLIGHT, COMMIT, CALCULATE, PUBLISH, EXPORT]"
    using receive_step_fields(1) [OF r] unfolding steps by simp
  moreover have "(ws_state (steps ! j) = COMPLETED \<longrightarrow> ws_state (steps ! i) = COMPLETED) \<and>
       \<not> (ws_state (steps ! i) = IN_PROGRESS \<and> ws_state (steps ! j) = IN_PROGRESS)" if "i < j \<and> j < 5" for i j
    using ordered_states [OF that] that state_at [OF assms, of i] state_at [OF assms, of j] by simp
  moreover have last: "steps ! 5 = export_step input" by (simp add: steps numeral_eq_Suc)
  moreover have "\<forall>i < 5. ws_state (steps ! i) = COMPLETED" if "ws_state (steps ! 5) = COMPLETED"
      "case wi_batch input of None \<Rightarrow> True | Some b \<Rightarrow> wb_status b = ''RESULT_PUBLISHED''"
    using published_states [OF _ that(2)] state_at [OF assms] that(1) unfolding last export_state by simp
  moreover have "ws_state (steps ! 5) = COMPLETED \<longleftrightarrow> wi_hasPublishedSnapshot input \<and> wi_canExport input \<and> \<not> export_running input \<and>
       (case wi_batch input of None \<Rightarrow> True | Some b \<Rightarrow> wb_publishedSnapshotMatchesBatch b)"
    unfolding last by (rule export_state)
  ultimately show ?thesis by blast
qed

definition committed_batch :: WorkflowInput where
  "committed_batch = \<lparr> wi_access = W_ENTERPRISE, wi_shopStatus = W_ACTIVE, wi_hasPublishedSnapshot = True, wi_canExport = True,
     wi_batch = Some \<lparr> wb_status = ''COMMITTED'', wb_stage = ''COPY'', wb_failureCode = None, wb_declaredBytes = ''10'',
       wb_receivedBytes = ''10'', wb_fileCount = 2, wb_processedFileCount = 2, wb_warningCount = 0, wb_blockingCount = 0,
       wb_publishedSnapshotMatchesBatch = False \<rparr>,
     wi_calculation = None, wi_latestExport = None, wi_workerAvailable = None, wi_terminalRecoveryBlocked = None \<rparr>"

text \<open>The exception: committed, not yet calculated, and the snapshot is said to belong to the batch.\<close>

lemma download_before_calculation:
  "\<exists>steps. deriveWorkflowSteps (committed_batch\<lparr>wi_batch := map_option (\<lambda>b. b\<lparr>wb_publishedSnapshotMatchesBatch := True\<rparr>) (wi_batch committed_batch)\<rparr>)
     = Inr (CALCULATE, steps) \<and> ws_state (steps ! 5) = COMPLETED \<and> ws_state (steps ! 3) = IN_PROGRESS"
  by (simp add: deriveWorkflowSteps_def workflow_defs committed_batch_def status_defs step_state_def active_step_def
      can_manage_def workflowDownloadAvailable_def)

lemma committed_steps: "\<exists>steps. deriveWorkflowSteps committed_batch = Inr (CALCULATE, steps) \<and> length steps = 6"
  by (simp add: deriveWorkflowSteps_def workflow_defs committed_batch_def status_defs step_state_def active_step_def
      can_manage_def workflowDownloadAvailable_def)

lemma workflow_steps_in_order_witness:
  "\<exists>steps. deriveWorkflowSteps committed_batch = Inr (CALCULATE, steps) \<and>
     map ws_code steps = [RECEIVE, PREFLIGHT, COMMIT, CALCULATE, PUBLISH, EXPORT]"
  using workflow_steps_in_order committed_steps by blast

text \<open>the step the page opens is one the account may open whenever there is one, and then the first of
  those that is not completed, if any; customers, and everybody while the shop is not active, can open
  nothing but the publication and the download, and those only with a published snapshot.\<close>

theorem workflow_opens_allowed_step:
  assumes "deriveWorkflowSteps input = Inr (code, steps)" and "ws_clickable s" and "s \<in> set steps"
  shows "(\<exists>t \<in> set steps. ws_code t = code \<and> ws_clickable t \<and>
       (\<exists>u \<in> set steps. ws_clickable u \<and> ws_state u \<noteq> COMPLETED) = (ws_state t \<noteq> COMPLETED)) \<and>
    (wi_access input = W_CUSTOMER \<or> wi_shopStatus input \<noteq> W_ACTIVE \<longrightarrow>
       ws_code s \<in> {PUBLISH, EXPORT} \<and> wi_hasPublishedSnapshot input)"
proof -
  obtain r where r: "receive_step input = Inr r" and code: "code = ws_code (active_step steps)"
    and steps: "steps = [r, preflight_step input, commit_step input, calculation_step input, publish_step input, export_step input]"
    using assms(1) by (auto simp: derive_Inr_iff)
  have "(\<exists>u \<in> set steps. ws_clickable u \<and> ws_state u \<noteq> COMPLETED) = (ws_state (active_step steps) \<noteq> COMPLETED)"
  proof (cases "find (\<lambda>s. ws_state s \<noteq> COMPLETED \<and> ws_clickable s) steps")
    case None
    then have no: "\<not> (\<exists>u \<in> set steps. ws_clickable u \<and> ws_state u \<noteq> COMPLETED)" by (auto simp: find_None_iff)
    with find_clickable [OF assms(3,2)] show ?thesis by blast
  next
    case (Some t)
    from find_SomeD [OF this] Some show ?thesis by (auto simp: active_step_def)
  qed
  moreover have "wi_access input = W_CUSTOMER \<or> wi_shopStatus input \<noteq> W_ACTIVE \<longrightarrow>
       ws_code s \<in> {PUBLISH, EXPORT} \<and> wi_hasPublishedSnapshot input"
    using assms(2,3) receive_step_fields(3) [OF r] step_clickable [of input] unfolding steps by (auto simp: can_manage_def)
  ultimately show ?thesis using find_clickable [OF assms(3,2)] code by blast
qed

lemma workflow_opens_allowed_step_witness: "\<exists>(s :: WorkflowStepSummary) (t :: WorkflowStepSummary). ws_code t = CALCULATE \<and> ws_clickable t \<and> ws_clickable s \<and> ws_code s = PUBLISH"
proof -
  obtain steps where d: "deriveWorkflowSteps committed_batch = Inr (CALCULATE, steps)" using committed_steps by blast
  have "publish_step committed_batch \<in> set steps" using d by (auto simp: derive_Inr_iff)
  moreover have p: "ws_clickable (publish_step committed_batch)" "ws_code (publish_step committed_batch) = PUBLISH"
    by (simp_all add: publish_step_def workflow_step_def committed_batch_def Let_def)
  ultimately have "\<exists>t :: WorkflowStepSummary. ws_code t = CALCULATE \<and> ws_clickable t" using workflow_opens_allowed_step [OF d p(1)] by blast
  with p show ?thesis by blast
qed

end
