(* ===== verification/Decimals.thy ===== *)
theory Decimals
  imports Complex_Main JsText
begin

text \<open>
  Decimal arithmetic: \<open>src/shared/decimal.ts\<close> over the library \<open>decimal.js\<close>, which is a parameter
  (\<open>decimal_lib\<close>). \<open>decimal_laws\<close> states what its manual says of finite numbers at the precision of
  50 significant digits the code sets: a constructor that keeps its text exactly, operations that
  return the exact result when it has at most 50 significant digits, a quotient correct to 50 digits,
  and rounding half away from zero to a number of places. \<open>rat_lib\<close> shows that the laws can hold.
\<close>

section \<open>Decimal texts\<close>

text \<open>Sign, integer digits and fraction digits of \<open>/^-?(?:0|[1-9]\d*)(?:\.\d+)?$/\<close>.\<close>

definition decimal_parts :: "string \<Rightarrow> (bool \<times> string \<times> string) option" where
  "decimal_parts v =
     (let neg = (case v of [] \<Rightarrow> False | c # _ \<Rightarrow> c = CHR ''-''); s = (if neg then tl v else v);
          i = takeWhile is_digit s; rest = dropWhile is_digit s in
      if i = [] \<or> (hd i = CHR ''0'' \<and> 1 < length i) then None
      else case rest of
        [] \<Rightarrow> Some (neg, i, [])
      | c # f \<Rightarrow> if c = CHR ''.'' \<and> f \<noteq> [] \<and> list_all is_digit f then Some (neg, i, f) else None)"

definition text_rat :: "string \<Rightarrow> rat" where
  "text_rat v =
     (case decimal_parts v of None \<Rightarrow> 0
      | Some (neg, i, f) \<Rightarrow> (if neg then -1 else 1) * of_nat (digits_value (i @ f)) / 10 ^ length f)"

text \<open>The same of \<open>/^[+-]?\d+(?:\.\d+)?$/\<close>: a plus sign and leading zeros are allowed.\<close>

definition split_number :: "bool \<Rightarrow> string \<Rightarrow> (bool \<times> string \<times> string) option" where
  "split_number neg s =
     (let i = takeWhile is_digit s; rest = dropWhile is_digit s in
      if i = [] then None
      else case rest of
        [] \<Rightarrow> Some (neg, i, [])
      | c # f \<Rightarrow> if c = CHR ''.'' \<and> f \<noteq> [] \<and> list_all is_digit f then Some (neg, i, f) else None)"

definition number_parts :: "string \<Rightarrow> (bool \<times> string \<times> string) option" where
  "number_parts v =
     (case v of [] \<Rightarrow> None
      | c # t \<Rightarrow> split_number (c = CHR ''-'') (if c = CHR ''-'' \<or> c = CHR ''+'' then t else v))"

definition parts_rat :: "bool \<times> string \<times> string \<Rightarrow> rat" where
  "parts_rat p = (case p of (neg, i, f) \<Rightarrow> (if neg then -1 else 1) * of_nat (digits_value (i @ f)) / 10 ^ length f)"

section \<open>The library\<close>

record 'd decimal_lib =
  dec_parse :: "string \<Rightarrow> 'd option"
  dec_int :: "int \<Rightarrow> 'd"
  dec_add :: "'d \<Rightarrow> 'd \<Rightarrow> 'd"
  dec_sub :: "'d \<Rightarrow> 'd \<Rightarrow> 'd"
  dec_mul :: "'d \<Rightarrow> 'd \<Rightarrow> 'd"
  dec_div :: "'d \<Rightarrow> 'd \<Rightarrow> 'd"
  dec_neg :: "'d \<Rightarrow> 'd"
  dec_less :: "'d \<Rightarrow> 'd \<Rightarrow> bool"
  dec_isZero :: "'d \<Rightarrow> bool"
  dec_isPositive :: "'d \<Rightarrow> bool"
  dec_isNegative :: "'d \<Rightarrow> bool"
  dec_fixed :: "nat \<Rightarrow> 'd \<Rightarrow> string"

text \<open>Rounding half away from zero to a number of places, and the text with that many places.\<close>

definition scaled :: "nat \<Rightarrow> rat \<Rightarrow> int" where
  "scaled k r = (if 0 \<le> r then \<lfloor>r * 10 ^ k + 1 / 2\<rfloor> else - \<lfloor>- r * 10 ^ k + 1 / 2\<rfloor>)"

definition fixed_text :: "nat \<Rightarrow> rat \<Rightarrow> string" where
  "fixed_text k r =
     (let n = scaled k r; m = nat \<bar>n\<bar> in
      (if n < 0 then ''-'' else []) @ nat_str (m div 10 ^ k)
        @ (if k = 0 then [] else CHR ''.'' # zero_padded k (int (m mod 10 ^ k))))"

definition fits :: "rat \<Rightarrow> bool" where
  "fits r \<longleftrightarrow> (\<exists>(n :: int) (k :: nat). \<bar>n\<bar> < 10 ^ 50 \<and> r = of_int n / 10 ^ k)"

definition decimal_laws :: "'d decimal_lib \<Rightarrow> ('d \<Rightarrow> rat) \<Rightarrow> bool" where
  "decimal_laws lib val \<longleftrightarrow>
     (\<forall>v. decimal_parts v \<noteq> None \<longrightarrow> (\<exists>d. dec_parse lib v = Some d \<and> val d = text_rat v \<and>
        (hd v \<noteq> CHR ''-'' \<longrightarrow> dec_isPositive lib d \<and> \<not> dec_isNegative lib d))) \<and>
     (\<forall>v p. number_parts v = Some p \<longrightarrow> (\<exists>d. dec_parse lib v = Some d \<and> val d = parts_rat p)) \<and>
     (\<forall>n. \<bar>n\<bar> < 2 ^ 53 \<longrightarrow> val (dec_int lib n) = of_int n) \<and>
     (\<forall>x y. fits (val x + val y) \<longrightarrow> val (dec_add lib x y) = val x + val y) \<and>
     (\<forall>x y. fits (val x - val y) \<longrightarrow> val (dec_sub lib x y) = val x - val y) \<and>
     (\<forall>x y. fits (val x * val y) \<longrightarrow> val (dec_mul lib x y) = val x * val y) \<and>
     (\<forall>x y. val y \<noteq> 0 \<longrightarrow> \<bar>val (dec_div lib x y) - val x / val y\<bar> \<le> \<bar>val x / val y\<bar> / (2 * 10 ^ 49)) \<and>
     (\<forall>x. val (dec_neg lib x) = - val x) \<and>
     (\<forall>x y. dec_less lib x y \<longleftrightarrow> val x < val y) \<and>
     (\<forall>x. dec_isZero lib x \<longleftrightarrow> val x = 0) \<and>
     (\<forall>x. (0 < val x \<longrightarrow> dec_isPositive lib x \<and> \<not> dec_isNegative lib x) \<and>
          (val x < 0 \<longrightarrow> dec_isNegative lib x \<and> \<not> dec_isPositive lib x)) \<and>
     (\<forall>k x. dec_fixed lib k x = fixed_text k (val x))"

section \<open>The code\<close>

definition decimal :: "'d decimal_lib \<Rightarrow> string \<Rightarrow> 'd result" where
  "decimal lib v =
     (if decimal_parts v = None then Inl (PlainError ''INVALID_DECIMAL'')
      else case dec_parse lib v of None \<Rightarrow> Inl (PlainError ''DecimalError'') | Some d \<Rightarrow> Inr d)"

definition decimal8 :: "'d decimal_lib \<Rightarrow> 'd \<Rightarrow> string" where
  "decimal8 lib d = dec_fixed lib 8 d"

definition display2 :: "'d decimal_lib \<Rightarrow> 'd \<Rightarrow> string" where
  "display2 lib d = dec_fixed lib 2 d"

text \<open>\<open>decimal8\<close> of a text: the constructor may throw.\<close>

definition decimal8_text :: "'d decimal_lib \<Rightarrow> string \<Rightarrow> string result" where
  "decimal8_text lib v =
     (case dec_parse lib v of None \<Rightarrow> Inl (PlainError ''DecimalError'') | Some d \<Rightarrow> Inr (decimal8 lib d))"

section \<open>Rounding and printing\<close>

lemma scaled_neg: "scaled k (- r) = - scaled k r"
proof (cases "r = 0")
  case True
  have "\<lfloor>1 / 2 :: rat\<rfloor> = 0" by (simp add: floor_eq_iff)
  with True show ?thesis by (simp add: scaled_def)
qed (auto simp: scaled_def)

lemma scaled_nearest: "\<bar>of_int (scaled k r) - r * 10 ^ k\<bar> \<le> 1 / 2"
proof -
  have pos: "\<bar>of_int (scaled k r) - r * 10 ^ k\<bar> \<le> 1 / 2" if "0 \<le> r" for r :: rat
  proof -
    have "of_int \<lfloor>r * 10 ^ k + 1 / 2\<rfloor> \<le> r * 10 ^ k + 1 / 2" "r * 10 ^ k + 1 / 2 < of_int \<lfloor>r * 10 ^ k + 1 / 2\<rfloor> + 1"
      using floor_correct [of "r * 10 ^ k + 1 / 2"] by simp_all
    then show ?thesis unfolding scaled_def if_P [OF that] by (intro abs_leI) linarith+
  qed
  show ?thesis
  proof (cases "0 \<le> r")
    case False
    then have "\<bar>of_int (scaled k (- r)) - (- r) * 10 ^ k\<bar> \<le> 1 / 2" by (intro pos) simp
    then show ?thesis by (simp add: scaled_neg abs_minus_commute [of "r * 10 ^ k"])
  qed (rule pos)
qed

lemma scaled_exact: "r * 10 ^ k = of_int n \<Longrightarrow> scaled k r = n"
proof -
  have half: "\<lfloor>of_int m + 1 / 2 :: rat\<rfloor> = m" for m by (simp add: floor_eq_iff)
  assume e: "r * 10 ^ k = of_int n"
  then have "- r * 10 ^ k = of_int (- n)" by simp
  with e half [of n] half [of "- n"] show ?thesis unfolding scaled_def by auto
qed

lemma scaled_mono: "r \<le> s \<Longrightarrow> scaled k r \<le> scaled k s"
proof -
  have f: "\<lfloor>x * 10 ^ k + 1 / 2\<rfloor> \<le> \<lfloor>y * 10 ^ k + 1 / 2\<rfloor>" if "x \<le> y" for x y :: rat
    using that by (intro floor_mono add_right_mono mult_right_mono) simp_all
  have p: "0 \<le> \<lfloor>x * 10 ^ k + 1 / 2\<rfloor>" if "0 \<le> x" for x :: rat using that by simp
  assume "r \<le> s"
  show ?thesis
  proof (cases "0 \<le> r")
    case True
    then have "0 \<le> s" using \<open>r \<le> s\<close> by simp
    with True show ?thesis unfolding scaled_def using f [OF \<open>r \<le> s\<close>] by simp
  next
    case False
    then have r: "scaled k r = - \<lfloor>- r * 10 ^ k + 1 / 2\<rfloor>" "0 \<le> \<lfloor>- r * 10 ^ k + 1 / 2\<rfloor>"
      using p [of "- r"] by (simp_all only: scaled_def) simp
    show ?thesis
    proof (cases "0 \<le> s")
      case True
      then have "scaled k s = \<lfloor>s * 10 ^ k + 1 / 2\<rfloor>" by (simp only: scaled_def if_True)
      with r p [OF True] show ?thesis by linarith
    next
      case neg: False
      then have "scaled k s = - \<lfloor>- s * 10 ^ k + 1 / 2\<rfloor>" by (simp only: scaled_def if_False)
      with r f [of "- s" "- r"] \<open>r \<le> s\<close> show ?thesis by linarith
    qed
  qed
qed

lemma text_rat_exact:
  assumes "decimal_parts v = Some (neg, i, f)"
  shows "text_rat v * 10 ^ length f = of_int ((if neg then -1 else 1) * int (digits_value (i @ f)))"
  using assms by (simp add: text_rat_def)

lemma takeWhile_digits: "list_all is_digit s \<Longrightarrow> \<not> is_digit c \<Longrightarrow> takeWhile is_digit (s @ c # t) = s \<and> dropWhile is_digit (s @ c # t) = c # t"
  by (induction s) auto

lemma decimal_parts_fixed:
  assumes "0 < k"
  shows "decimal_parts (fixed_text k r) =
     Some (scaled k r < 0, nat_str (nat \<bar>scaled k r\<bar> div 10 ^ k), zero_padded k (int (nat \<bar>scaled k r\<bar> mod 10 ^ k)))"
proof -
  define m where "m = nat \<bar>scaled k r\<bar>"
  define i where "i = nat_str (m div 10 ^ k)"
  define f where "f = zero_padded k (int (m mod 10 ^ k))"
  have can: "canonical_nat i" by (simp add: i_def)
  have "int (m mod 10 ^ k) < 10 ^ k" using zless_nat_eq_int_zless [of "m mod 10 ^ k" "10 ^ k"] by (simp add: zmod_int)
  then have f: "digits k f" using zero_padded_digits(1) [of "int (m mod 10 ^ k)" k] assms by (simp add: f_def)
  have i: "list_all is_digit i" "i \<noteq> []" "\<not> (hd i = CHR ''0'' \<and> 1 < length i)"
    using can by (auto simp: canonical_nat_def)
  have hd: "hd i \<noteq> CHR ''-''" using i(1,2) by (cases i) (auto simp: is_digit_def)
  have fne: "f \<noteq> []" "list_all is_digit f" using f assms by (auto simp: digits_def)
  have dot: "\<not> is_digit CHR ''.''" by (simp add: is_digit_def)
  note split = takeWhile_digits [OF i(1) dot, of f]
  have written: "fixed_text k r = (if scaled k r < 0 then ''-'' else []) @ i @ CHR ''.'' # f"
    using assms by (simp add: fixed_text_def Let_def m_def i_def f_def)
  have neg: "(case fixed_text k r of [] \<Rightarrow> False | c # _ \<Rightarrow> c = CHR ''-'') = (scaled k r < 0)"
    using i(2) hd by (cases i) (auto simp: written)
  have body: "(if scaled k r < 0 then tl (fixed_text k r) else fixed_text k r) = i @ CHR ''.'' # f" by (simp add: written)
  show ?thesis
    unfolding decimal_parts_def neg Let_def body using split i(2,3) fne
    by (simp add: m_def [symmetric] i_def [symmetric] f_def [symmetric])
qed

lemma text_rat_fixed:
  assumes "0 < k"
  shows "text_rat (fixed_text k r) = of_int (scaled k r) / 10 ^ k"
proof -
  define m where "m = nat \<bar>scaled k r\<bar>"
  have lt: "int (m mod 10 ^ k) < 10 ^ k" using zless_nat_eq_int_zless [of "m mod 10 ^ k" "10 ^ k"] by (simp add: zmod_int)
  note z = zero_padded_digits [of "int (m mod 10 ^ k)" k, OF _ lt assms]
  have "digits_value (nat_str (m div 10 ^ k) @ zero_padded k (int (m mod 10 ^ k))) = m"
    using z by (simp add: digits_value_append digits_def div_mult_mod_eq)
  moreover have "length (zero_padded k (int (m mod 10 ^ k))) = k" using z(1) by (simp add: digits_def)
  moreover have "(if scaled k r < 0 then - 1 else 1) * of_nat m = (of_int (scaled k r) :: rat)" by (simp add: m_def)
  ultimately show ?thesis by (simp add: text_rat_def decimal_parts_fixed [OF assms] m_def [symmetric])
qed

section \<open>Numbers with few digits\<close>

text \<open>\<open>places p q r\<close>: \<open>r\<close> has at most \<open>p\<close> decimal places and \<open>q\<close> digits in all.\<close>

definition places :: "nat \<Rightarrow> nat \<Rightarrow> rat \<Rightarrow> bool" where
  "places p q r \<longleftrightarrow> (\<exists>n :: int. \<bar>n\<bar> < 10 ^ q \<and> r = of_int n / 10 ^ p)"

lemma places_fits: "places p q r \<Longrightarrow> q \<le> 50 \<Longrightarrow> fits r"
proof -
  assume "places p q r" "q \<le> 50"
  then obtain n :: int where n: "\<bar>n\<bar> < 10 ^ q" "r = of_int n / 10 ^ p" by (auto simp: places_def)
  moreover have "(10 :: int) ^ q \<le> 10 ^ 50" using \<open>q \<le> 50\<close> by (intro power_increasing) simp_all
  ultimately show ?thesis unfolding fits_def by (intro exI [of _ n] exI [of _ p]) linarith
qed

lemma places_0 [simp]: "places p q 0"
  by (auto simp: places_def intro: exI [of _ 0])

lemma places_mono: "places p q r \<Longrightarrow> q \<le> q' \<Longrightarrow> places p q' r"
proof -
  assume "places p q r" "q \<le> q'"
  then obtain n :: int where n: "\<bar>n\<bar> < 10 ^ q" "r = of_int n / 10 ^ p" by (auto simp: places_def)
  moreover have "(10 :: int) ^ q \<le> 10 ^ q'" using \<open>q \<le> q'\<close> by (intro power_increasing) simp_all
  ultimately show ?thesis unfolding places_def by (intro exI [of _ n]) linarith
qed

lemma places_neg: "places p q r \<Longrightarrow> places p q (- r)"
  unfolding places_def by (metis abs_minus_cancel minus_divide_left of_int_minus)

lemma places_add: "places p q r \<Longrightarrow> places p q s \<Longrightarrow> places p (Suc q) (r + s)"
proof -
  assume "places p q r" "places p q s"
  then obtain m n :: int where "\<bar>m\<bar> < 10 ^ q" "r = of_int m / 10 ^ p" "\<bar>n\<bar> < 10 ^ q" "s = of_int n / 10 ^ p"
    unfolding places_def by blast
  then show ?thesis unfolding places_def by (intro exI [of _ "m + n"]) (simp add: add_divide_distrib)
qed

lemma places_sub: "places p q r \<Longrightarrow> places p q s \<Longrightarrow> places p (Suc q) (r - s)"
  using places_add [of p q r "- s"] places_neg by simp

lemma places_mult: "places p q r \<Longrightarrow> places p' q' s \<Longrightarrow> places (p + p') (q + q') (r * s)"
proof -
  assume "places p q r" "places p' q' s"
  then obtain m n :: int where m: "\<bar>m\<bar> < 10 ^ q" "r = of_int m / 10 ^ p" and n: "\<bar>n\<bar> < 10 ^ q'" "s = of_int n / 10 ^ p'"
    unfolding places_def by blast
  have "\<bar>m * n\<bar> < 10 ^ q * 10 ^ q'" unfolding abs_mult by (rule mult_strict_mono) (use m n in simp_all)
  with m n show ?thesis unfolding places_def by (intro exI [of _ "m * n"]) (simp add: power_add)
qed

lemma places_more: "places p q r \<Longrightarrow> places (p + j) (q + j) r"
proof -
  assume "places p q r"
  then obtain n :: int where n: "\<bar>n\<bar> < 10 ^ q" "r = of_int n / 10 ^ p" unfolding places_def by blast
  then show ?thesis
    unfolding places_def by (intro exI [of _ "n * 10 ^ j"]) (simp add: power_add abs_mult)
qed

lemma places_integer: "places p q r \<Longrightarrow> \<exists>n. r * 10 ^ p = of_int n"
  by (auto simp: places_def)

text \<open>The texts of amounts: at most 20 digits before and 8 behind the point.\<close>

definition amount_text :: "string \<Rightarrow> bool" where
  "amount_text v \<longleftrightarrow> (case decimal_parts v of None \<Rightarrow> False | Some (neg, i, f) \<Rightarrow> length i \<le> 20 \<and> length f \<le> 8)"

lemma decimal_parts_digits: "decimal_parts v = Some (neg, i, f) \<Longrightarrow> list_all is_digit i \<and> list_all is_digit f"
  unfolding decimal_parts_def Let_def
  by (auto simp: list_all_iff split: if_split_asm list.splits dest: set_takeWhileD)

lemma amount_places:
  assumes "amount_text v"
  shows "places 8 28 (text_rat v)"
proof -
  obtain neg i f where p: "decimal_parts v = Some (neg, i, f)" and l: "length i \<le> 20" "length f \<le> 8"
    using assms by (auto simp: amount_text_def split: option.splits)
  have d: "list_all is_digit (i @ f)" using decimal_parts_digits [OF p] by simp
  have "digits_value (i @ f) < 10 ^ length (i @ f)" by (rule digits_value_less [OF d])
  also have "\<dots> \<le> 10 ^ (20 + length f)" using l by (intro power_increasing) simp_all
  finally have "int (digits_value (i @ f)) < 10 ^ (20 + length f)" by (metis of_nat_less_iff of_nat_numeral of_nat_power)
  then have "places (length f) (20 + length f) (text_rat v)"
    unfolding places_def text_rat_def p
    by (intro exI [of _ "(if neg then -1 else 1) * int (digits_value (i @ f))"]) (simp add: abs_mult)
  then have "places (length f + (8 - length f)) (20 + length f + (8 - length f)) (text_rat v)" by (rule places_more)
  with l show ?thesis by simp
qed

section \<open>Using the laws\<close>

lemma decimal_Inr:
  assumes "decimal_laws lib val"
  shows "decimal_parts v \<noteq> None \<Longrightarrow> \<exists>d. decimal lib v = Inr d \<and> val d = text_rat v"
  using assms unfolding decimal_laws_def decimal_def by fastforce

lemma decimal_value:
  assumes "decimal_laws lib val" and "decimal lib v = Inr d"
  shows "val d = text_rat v" and "decimal_parts v \<noteq> None"
proof -
  show ne: "decimal_parts v \<noteq> None" using assms(2) unfolding decimal_def by (metis Inl_Inr_False)
  from ne obtain d' where "decimal lib v = Inr d'" "val d' = text_rat v" using decimal_Inr [OF assms(1)] by blast
  then show "val d = text_rat v" using assms(2) by simp
qed

lemma decimal_ops:
  assumes "decimal_laws lib val"
  shows "fits (val x + val y) \<Longrightarrow> val (dec_add lib x y) = val x + val y"
    and "fits (val x - val y) \<Longrightarrow> val (dec_sub lib x y) = val x - val y"
    and "fits (val x * val y) \<Longrightarrow> val (dec_mul lib x y) = val x * val y"
    and "val y \<noteq> 0 \<Longrightarrow> \<bar>val (dec_div lib x y) - val x / val y\<bar> \<le> \<bar>val x / val y\<bar> / (2 * 10 ^ 49)"
    and "val (dec_neg lib x) = - val x" and "dec_less lib x y \<longleftrightarrow> val x < val y" and "dec_isZero lib x \<longleftrightarrow> val x = 0"
    and "decimal8 lib x = fixed_text 8 (val x)" and "\<bar>n\<bar> < 2 ^ 53 \<Longrightarrow> val (dec_int lib n) = of_int n"
  using assms unfolding decimal_laws_def decimal8_def by blast+

lemma number_value:
  assumes "decimal_laws lib val" and "number_parts v = Some p"
  shows "\<exists>d. dec_parse lib v = Some d \<and> val d = parts_rat p"
proof -
  have "\<forall>v p. number_parts v = Some p \<longrightarrow> (\<exists>d. dec_parse lib v = Some d \<and> val d = parts_rat p)"
    using assms(1) unfolding decimal_laws_def by (elim conjE)
  with assms(2) show ?thesis by blast
qed

lemma fixed_value:
  assumes "decimal_laws lib val"
  shows "dec_fixed lib k x = fixed_text k (val x)"
proof -
  have "\<forall>k x. dec_fixed lib k x = fixed_text k (val x)" using assms unfolding decimal_laws_def by (elim conjE)
  then show ?thesis by blast
qed

text \<open>a number printed to eight places is read back as the nearest such number, which is itself when it
  has no more places.\<close>

theorem decimal8_reads_back:
  assumes "decimal_laws lib val"
  shows "\<exists>d. decimal lib (decimal8 lib x) = Inr d \<and> \<bar>val d - val x\<bar> \<le> 1 / (2 * 10 ^ 8) \<and>
    (places 8 q (val x) \<longrightarrow> val d = val x)"
proof -
  have ne: "decimal_parts (decimal8 lib x) \<noteq> None" by (simp add: decimal_ops(8) [OF assms] decimal_parts_fixed)
  obtain d where d: "decimal lib (decimal8 lib x) = Inr d" "val d = of_int (scaled 8 (val x)) / 10 ^ 8"
    using decimal_Inr [OF assms ne] by (auto simp: decimal_ops(8) [OF assms] text_rat_fixed)
  have "\<bar>of_int (scaled 8 (val x)) - val x * 10 ^ 8\<bar> / 10 ^ 8 \<le> 1 / 2 / 10 ^ 8"
    by (rule divide_right_mono [OF scaled_nearest]) simp
  moreover have "\<bar>of_int (scaled 8 (val x)) - val x * 10 ^ 8\<bar> / 10 ^ 8 = \<bar>val d - val x\<bar>"
    by (simp add: d(2) field_simps)
  moreover have "val d = val x" if "places 8 q (val x)"
    using places_integer [OF that] scaled_exact [of "val x" 8] d(2) by auto
  ultimately show ?thesis using d(1) by (intro exI [of _ d]) simp
qed

section \<open>An instance of the library\<close>

definition rat_lib :: "rat decimal_lib" where
  "rat_lib = \<lparr> dec_parse = (\<lambda>v. map_option parts_rat (number_parts v)),
     dec_int = of_int, dec_add = (+), dec_sub = (-), dec_mul = (*), dec_div = (/), dec_neg = uminus, dec_less = (<),
     dec_isZero = (\<lambda>x. x = 0), dec_isPositive = (\<lambda>x. 0 \<le> x), dec_isNegative = (\<lambda>x. x < 0), dec_fixed = fixed_text \<rparr>"

lemma text_rat_nonneg: "hd v \<noteq> CHR ''-'' \<Longrightarrow> 0 \<le> text_rat v"
  by (cases v) (auto simp: text_rat_def decimal_parts_def Let_def split: option.splits list.splits if_split_asm)

lemma decimal_parts_Cons:
  "decimal_parts (c # t) = Some p \<Longrightarrow> split_number (c = CHR ''-'') (if c = CHR ''-'' then t else c # t) = Some p"
  by (cases "c = CHR ''-''") (simp_all add: decimal_parts_def split_number_def Let_def cong: list.case_cong if_cong split: if_split_asm)

lemma number_parts_decimal:
  assumes "decimal_parts v = Some p"
  shows "number_parts v = Some p"
proof (cases v)
  case Nil
  with assms show ?thesis by (simp add: decimal_parts_def)
next
  case (Cons c t)
  have "decimal_parts (CHR ''+'' # t) = None" by (simp add: decimal_parts_def is_digit_def)
  then have "c \<noteq> CHR ''+''" using assms Cons by auto
  then show ?thesis using decimal_parts_Cons [of c t p] assms by (simp add: number_parts_def Cons)
qed

lemma text_rat_parts: "decimal_parts v = Some p \<Longrightarrow> text_rat v = parts_rat p"
  by (simp add: text_rat_def parts_rat_def)

lemma rat_lib_laws: "decimal_laws rat_lib (\<lambda>x. x)"
proof -
  have "\<exists>d. dec_parse rat_lib v = Some d \<and> d = text_rat v \<and> (hd v \<noteq> CHR ''-'' \<longrightarrow> 0 \<le> d)" if "decimal_parts v \<noteq> None" for v
    using that number_parts_decimal [of v] text_rat_parts [of v] text_rat_nonneg [of v] by (auto simp: rat_lib_def)
  then show ?thesis unfolding decimal_laws_def by (auto simp: rat_lib_def not_less)
qed

lemma rat_lib_decimal: "decimal_parts v = Some p \<Longrightarrow> decimal rat_lib v = Inr (parts_rat p)"
  by (simp add: decimal_def number_parts_decimal rat_lib_def)

lemma decimal8_reads_back_witness: "\<exists>d. decimal rat_lib (decimal8 rat_lib (1 / 3)) = Inr d \<and> \<bar>d - 1 / 3\<bar> \<le> 1 / (2 * 10 ^ 8)"
  using decimal8_reads_back [OF rat_lib_laws, of "1 / 3" 0] by blast

end
