(* ===== verification/CostAccounting.thy ===== *)
theory CostAccounting
  imports Decimals Exports
begin

text \<open>
  The accounting assumptions of an account and the cost estimate they give:
  \<open>src/modules/accounting-preferences/index.ts\<close>, with the resolution of the assumptions of an export
  in \<open>src/modules/exports/postgres.ts\<close>. The three columns of the table \<open>account\<close> that hold them are a
  table of their own here; a rate column is \<open>numeric(9,8)\<close>, so it reads back as the text with eight
  places that was written.
\<close>

section \<open>Rates and prefixes\<close>

record AccountingAssumptions =
  aa_profitRate :: "string option"
  aa_minimumSalesCostRate :: "string option"

record AccountingPreferences = AccountingAssumptions +
  ap_continentPrefixes :: "string list"

definition EMPTY_ACCOUNTING_ASSUMPTIONS :: AccountingAssumptions where
  "EMPTY_ACCOUNTING_ASSUMPTIONS = \<lparr> aa_profitRate = None, aa_minimumSalesCostRate = None \<rparr>"

definition CONTINENT_PREFIXES :: "string list" where
  "CONTINENT_PREFIXES = [''AS'', ''EU'', ''AF'', ''AM'', ''OC'']"

definition DEFAULT_CONTINENT_PREFIXES :: "string list" where
  "DEFAULT_CONTINENT_PREFIXES = [''EU'']"

definition normalizeContinentPrefixes :: "string list \<Rightarrow> string list result" where
  "normalizeContinentPrefixes values =
     (if \<exists>v \<in> set values. v \<notin> set CONTINENT_PREFIXES then Inl (PlainError ''INVALID_CONTINENT_PREFIX'')
      else Inr (filter (\<lambda>c. c \<in> set values) CONTINENT_PREFIXES))"

definition MARKETPLACE_CONTINENT :: "(string \<times> string) list" where
  "MARKETPLACE_CONTINENT =
     [(''AE'', ''AS''), (''IN'', ''AS''), (''JP'', ''AS''), (''SA'', ''AS''), (''SG'', ''AS''),
      (''BE'', ''EU''), (''DE'', ''EU''), (''ES'', ''EU''), (''FR'', ''EU''), (''IE'', ''EU''), (''IT'', ''EU''), (''NL'', ''EU''),
      (''PL'', ''EU''), (''SE'', ''EU''), (''TR'', ''EU''), (''UK'', ''EU''),
      (''EG'', ''AF''), (''ZA'', ''AF''),
      (''BR'', ''AM''), (''CA'', ''AM''), (''MX'', ''AM''), (''US'', ''AM''),
      (''AU'', ''OC''), (''NZ'', ''OC'')]"

definition formatMarketplaceForExport :: "string \<Rightarrow> string list \<Rightarrow> string" where
  "formatMarketplaceForExport v prefixes =
     (let normalized = js_upper (trim v) in
      case map_of MARKETPLACE_CONTINENT normalized of
        Some continent \<Rightarrow> if continent \<in> set prefixes then continent @ ''-'' @ normalized else normalized
      | None \<Rightarrow> normalized)"

text \<open>\<open>/^(?:0|1)(?:\.\d{1,8})?$/\<close>.\<close>

definition rate_pattern :: "string \<Rightarrow> bool" where
  "rate_pattern v \<longleftrightarrow> (case v of
       [] \<Rightarrow> False
     | c # r \<Rightarrow> c \<in> {CHR ''0'', CHR ''1''} \<and>
         (case r of [] \<Rightarrow> True
          | p # f \<Rightarrow> p = CHR ''.'' \<and> 1 \<le> length f \<and> length f \<le> 8 \<and> list_all is_digit f))"

definition normalizeAccountingRate :: "'d decimal_lib \<Rightarrow> string option \<Rightarrow> string \<Rightarrow> string option result" where
  "normalizeAccountingRate lib v field =
     (case v of None \<Rightarrow> Inr None
      | Some r \<Rightarrow>
          if \<not> rate_pattern r then Inl (PlainError (''INVALID_ACCOUNTING_RATE:'' @ field))
          else
          bindE (decimal lib r) (\<lambda>d.
          if dec_isNegative lib d \<or> dec_less lib (dec_int lib 1) d then Inl (PlainError (''INVALID_ACCOUNTING_RATE:'' @ field))
          else bindE (decimal8_text lib r) (\<lambda>t. Inr (Some t))))"

definition normalizeAccountingAssumptions ::
    "'d decimal_lib \<Rightarrow> 'z AccountingAssumptions_scheme \<Rightarrow> AccountingAssumptions result" where
  "normalizeAccountingAssumptions lib input =
     bindE (normalizeAccountingRate lib (aa_profitRate input) ''profitRate'') (\<lambda>p.
     bindE (normalizeAccountingRate lib (aa_minimumSalesCostRate input) ''minimumSalesCostRate'') (\<lambda>m.
     Inr \<lparr> aa_profitRate = p, aa_minimumSalesCostRate = m \<rparr>))"

definition normalizeAccountingPreferences :: "'d decimal_lib \<Rightarrow> AccountingPreferences \<Rightarrow> AccountingPreferences result" where
  "normalizeAccountingPreferences lib input =
     bindE (normalizeAccountingAssumptions lib input) (\<lambda>a.
     bindE (normalizeContinentPrefixes (ap_continentPrefixes input)) (\<lambda>c.
     Inr \<lparr> aa_profitRate = aa_profitRate a, aa_minimumSalesCostRate = aa_minimumSalesCostRate a, ap_continentPrefixes = c \<rparr>))"

section \<open>The estimate\<close>

record CostAccountingInput =
  ci_incomeTotalCny :: string
  ci_netIncomeCny :: string
  ci_platformExpensesCny :: string

record CostAccountingResult =
  cr_targetProfitCny :: "string option"
  cr_profitCny :: string
  cr_procurementCny :: string
  cr_salesCostRate :: string
  cr_minimumAdjusted :: bool

text \<open>The numbers behind the result, before they are printed.\<close>

record 'd cost_numbers =
  cn_target :: "'d option"
  cn_profit :: 'd
  cn_procurement :: 'd
  cn_rate :: 'd
  cn_adjusted :: bool

definition optional_decimal :: "'d decimal_lib \<Rightarrow> string option \<Rightarrow> 'd option result" where
  "optional_decimal lib v = (case v of None \<Rightarrow> Inr None | Some t \<Rightarrow> bindE (decimal lib t) (\<lambda>d. Inr (Some d)))"

definition base_procurement :: "'d decimal_lib \<Rightarrow> 'd \<Rightarrow> 'd \<Rightarrow> 'd \<Rightarrow> 'd option \<Rightarrow> 'd" where
  "base_procurement lib zero netIncome expenses targetProfit =
     (case targetProfit of None \<Rightarrow> zero | Some t \<Rightarrow> dec_sub lib (dec_sub lib netIncome expenses) t)"

definition minimum_procurement :: "'d decimal_lib \<Rightarrow> 'd \<Rightarrow> 'd option \<Rightarrow> 'd option" where
  "minimum_procurement lib income minimumRate =
     (if dec_less lib (dec_int lib 0) income then map_option (dec_mul lib income) minimumRate else None)"

definition minimum_adjusted :: "'d decimal_lib \<Rightarrow> 'd \<Rightarrow> 'd option \<Rightarrow> bool" where
  "minimum_adjusted lib base minimum = (case minimum of None \<Rightarrow> False | Some m \<Rightarrow> dec_less lib base m)"

definition cost_numbers_of :: "'d decimal_lib \<Rightarrow> 'd \<Rightarrow> 'd \<Rightarrow> 'd \<Rightarrow> 'd \<Rightarrow> 'd option \<Rightarrow> 'd option \<Rightarrow> 'd cost_numbers" where
  "cost_numbers_of lib zero income netIncome expenses profitRate minimumRate =
     (let targetProfit = map_option (dec_mul lib netIncome) profitRate;
          base = base_procurement lib zero netIncome expenses targetProfit;
          minimum = minimum_procurement lib income minimumRate;
          procurement = (if minimum_adjusted lib base minimum then the minimum else base) in
      \<lparr> cn_target = targetProfit, cn_profit = dec_sub lib (dec_sub lib netIncome expenses) procurement,
        cn_procurement = procurement,
        cn_rate = (if dec_less lib (dec_int lib 0) income then dec_div lib procurement income else zero),
        cn_adjusted = minimum_adjusted lib base minimum \<rparr>)"

definition printed_numbers :: "'d decimal_lib \<Rightarrow> 'd cost_numbers \<Rightarrow> CostAccountingResult" where
  "printed_numbers lib n =
     \<lparr> cr_targetProfitCny = map_option (decimal8 lib) (cn_target n), cr_profitCny = decimal8 lib (cn_profit n),
       cr_procurementCny = decimal8 lib (cn_procurement n), cr_salesCostRate = decimal8 lib (cn_rate n),
       cr_minimumAdjusted = cn_adjusted n \<rparr>"

definition calculateCostAccounting ::
    "'d decimal_lib \<Rightarrow> CostAccountingInput \<Rightarrow> 'z AccountingAssumptions_scheme \<Rightarrow> CostAccountingResult result" where
  "calculateCostAccounting lib input rawAssumptions =
     bindE (normalizeAccountingAssumptions lib rawAssumptions) (\<lambda>a.
     bindE (decimal lib (ci_incomeTotalCny input)) (\<lambda>income.
     bindE (decimal lib (ci_netIncomeCny input)) (\<lambda>netIncome.
     bindE (decimal lib (ci_platformExpensesCny input)) (\<lambda>expenses.
     bindE (optional_decimal lib (aa_profitRate a)) (\<lambda>profitRate.
     bindE (optional_decimal lib (aa_minimumSalesCostRate a)) (\<lambda>minimumRate.
     bindE (decimal lib ''0'') (\<lambda>zero.
     Inr (printed_numbers lib (cost_numbers_of lib zero income netIncome expenses profitRate minimumRate)))))))))"

section \<open>The stored preferences\<close>

record preference_row =
  pf_account_id :: string
  pf_profit_rate :: "string option"
  pf_minimum_sales_cost_rate :: "string option"
  pf_continent_prefixes :: "string list"

record preference_db = core_db +
  preferences :: "preference_row list"

definition preferences_of_row :: "preference_row \<Rightarrow> AccountingPreferences" where
  "preferences_of_row r = \<lparr> aa_profitRate = pf_profit_rate r, aa_minimumSalesCostRate = pf_minimum_sales_cost_rate r,
     ap_continentPrefixes = pf_continent_prefixes r \<rparr>"

definition findAccountingPreferences ::
    "'d decimal_lib \<Rightarrow> string \<Rightarrow> 'z preference_db_scheme \<Rightarrow> AccountingPreferences option result" where
  "findAccountingPreferences lib accountId db =
     (case first_row (\<lambda>r. pf_account_id r = accountId) (preferences db) of
        None \<Rightarrow> Inr None
      | Some r \<Rightarrow> bindE (normalizeAccountingPreferences lib (preferences_of_row r)) (\<lambda>p. Inr (Some p)))"

definition get_preferences :: "'d decimal_lib \<Rightarrow> string \<Rightarrow> 'z preference_db_scheme \<Rightarrow> AccountingPreferences result" where
  "get_preferences lib accountId db =
     bindE (findAccountingPreferences lib accountId db) (\<lambda>p.
     case p of None \<Rightarrow> Inl (AppError ''RESOURCE_NOT_FOUND'' 404 None) | Some x \<Rightarrow> Inr x)"

definition preference_json :: "AccountingPreferences \<Rightarrow> json_object" where
  "preference_json p = [(''profitRate'', aa_profitRate p), (''minimumSalesCostRate'', aa_minimumSalesCostRate p),
     (''continentPrefixes'', Some (join_commas (ap_continentPrefixes p)))]"

definition update_preferences ::
    "'d decimal_lib \<Rightarrow> Actor \<Rightarrow> AccountingPreferences \<Rightarrow> string \<Rightarrow> 'z preference_db_scheme
     \<Rightarrow> (AccountingPreferences \<times> 'z preference_db_scheme) result" where
  "update_preferences lib actor rawPreferences requestId db =
     bindE (normalizeAccountingPreferences lib rawPreferences) (\<lambda>p.
     case first_row (\<lambda>r. pf_account_id r = actor_accountId actor) (preferences db) of
       None \<Rightarrow> Inl (AppError ''RESOURCE_NOT_FOUND'' 404 None)
     | Some before \<Rightarrow>
         Inr (p, audit \<lparr> au_actorAccountId = Some (actor_accountId actor), au_actorRoles = role_texts actor,
             au_objectType = ''account'', au_objectId = actor_accountId actor, au_action = ''ACCOUNTING_PREFERENCES_UPDATED'',
             au_succeeded = True, au_reason = None, au_requestId = requestId,
             au_before = Some (preference_json (preferences_of_row before)), au_after = Some (preference_json p) \<rparr>
           (db\<lparr>preferences := update_rows (\<lambda>r. pf_account_id r = actor_accountId actor)
              (\<lambda>r. r\<lparr>pf_profit_rate := aa_profitRate p, pf_minimum_sales_cost_rate := aa_minimumSalesCostRate p,
                     pf_continent_prefixes := ap_continentPrefixes p\<rparr>) (preferences db)\<rparr>)))"

text \<open>
  \<open>resolveAccountingAssumptions\<close>: a field of the request that is undefined (\<open>None\<close>) is taken from the
  account; \<open>Some None\<close> is \<open>null\<close>. The request gives prefixes or leaves them undefined.
\<close>

record ExportAssumptionInput =
  xi_profitRate :: "string option option"
  xi_minimumSalesCostRate :: "string option option"
  xi_continentPrefixes :: "string list option"

definition defaults_of :: "'d decimal_lib \<Rightarrow> string \<Rightarrow> ExportAssumptionInput \<Rightarrow> 'z preference_db_scheme \<Rightarrow> AccountingPreferences result" where
  "defaults_of lib accountId input db =
     (if xi_profitRate input = None \<or> xi_minimumSalesCostRate input = None \<or> xi_continentPrefixes input = None
      then bindE (findAccountingPreferences lib accountId db) (\<lambda>stored.
        case stored of None \<Rightarrow> Inl AuthorizationError | Some p \<Rightarrow> Inr p)
      else Inr \<lparr> aa_profitRate = None, aa_minimumSalesCostRate = None, ap_continentPrefixes = DEFAULT_CONTINENT_PREFIXES \<rparr>)"

definition assumption_error :: "err \<Rightarrow> err" where
  "assumption_error e = (case e of
       PlainError m \<Rightarrow>
         if starts_with ''INVALID_ACCOUNTING_RATE:'' m then AppError ''INVALID_ACCOUNTING_RATE'' 400 None
         else if m = ''INVALID_CONTINENT_PREFIX'' then AppError ''INVALID_CONTINENT_PREFIX'' 400 (Some ''continentPrefixes'')
         else e
     | _ \<Rightarrow> e)"

definition resolveAccountingAssumptions ::
    "'d decimal_lib \<Rightarrow> string \<Rightarrow> ExportAssumptionInput \<Rightarrow> 'z preference_db_scheme \<Rightarrow> AccountingPreferences result" where
  "resolveAccountingAssumptions lib accountId input db =
     map_sum assumption_error id (bindE (defaults_of lib accountId input db) (\<lambda>defaults.
     bindE (normalizeContinentPrefixes (case xi_continentPrefixes input of None \<Rightarrow> ap_continentPrefixes defaults | Some c \<Rightarrow> c)) (\<lambda>c.
     normalizeAccountingPreferences lib
       \<lparr> aa_profitRate = (case xi_profitRate input of None \<Rightarrow> aa_profitRate defaults | Some r \<Rightarrow> r),
         aa_minimumSalesCostRate = (case xi_minimumSalesCostRate input of None \<Rightarrow> aa_minimumSalesCostRate defaults | Some r \<Rightarrow> r),
         ap_continentPrefixes = c \<rparr>)))"

end
