(* ===== verification/CostProps.thy ===== *)
theory CostProps
  imports CostAccounting
begin

text \<open>
  What the cost estimate computes, as rational numbers, and that stored preferences are read back.
\<close>

section \<open>Rates\<close>

lemma rate_pattern_parts:
  assumes "rate_pattern r"
  shows "\<exists>i f. decimal_parts r = Some (False, [i], f) \<and> i \<in> {CHR ''0'', CHR ''1''} \<and> length f \<le> 8 \<and> hd r \<noteq> CHR ''-''"
proof -
  obtain c t where r: "r = c # t" and c: "c \<in> {CHR ''0'', CHR ''1''}"
    and t: "case t of [] \<Rightarrow> True | p # f \<Rightarrow> p = CHR ''.'' \<and> 1 \<le> length f \<and> length f \<le> 8 \<and> list_all is_digit f"
    using assms by (auto simp: rate_pattern_def split: list.splits)
  have d: "is_digit c" "c \<noteq> CHR ''-''" using c by (auto simp: is_digit_def)
  have dot: "\<not> is_digit CHR ''.''" by (simp add: is_digit_def)
  show ?thesis
  proof (cases t)
    case Nil
    then show ?thesis using d c by (simp add: r decimal_parts_def)
  next
    case (Cons p f)
    then show ?thesis using d c dot t by (auto simp: r decimal_parts_def)
  qed
qed

lemma rate_amount: "rate_pattern r \<Longrightarrow> amount_text r"
  using rate_pattern_parts [of r] by (auto simp: amount_text_def)

lemma rate_nonneg: "rate_pattern r \<Longrightarrow> 0 \<le> text_rat r"
  using rate_pattern_parts [of r] text_rat_nonneg by blast

lemma fixed_amount: "places 8 q r \<Longrightarrow> text_rat (fixed_text 8 r) = r"
proof -
  assume "places 8 q r"
  then obtain n where n: "r * 10 ^ 8 = of_int n" using places_integer by blast
  then have "scaled 8 r = n" by (rule scaled_exact)
  then show ?thesis using n by (simp add: text_rat_fixed)
qed

lemma char_of_49: "char_of (49 :: nat) = CHR ''1''"
proof -
  have "(of_char CHR ''1'' :: nat) = 49" by simp
  then show ?thesis by (metis char_of_char)
qed

lemma rate_pattern_fixed:
  assumes "0 \<le> r" and "r \<le> 1"
  shows "rate_pattern (fixed_text 8 r)"
proof -
  define m where "m = nat \<bar>scaled 8 r\<bar>"
  have one: "scaled 8 1 = 10 ^ 8" by (rule scaled_exact) simp
  have zero: "scaled 8 0 = 0" by (rule scaled_exact) simp
  have s: "0 \<le> scaled 8 r" "scaled 8 r \<le> 10 ^ 8"
    using scaled_mono [OF assms(1), of 8] scaled_mono [OF assms(2), of 8] one zero by simp_all
  then have "m \<le> 10 ^ 8" by (simp add: m_def)
  then have "m div 10 ^ 8 \<in> {0, 1}" by auto
  moreover have "nat_str 0 = ''0''" "nat_str 1 = ''1''" using char_of_48 char_of_49 by (simp_all add: code_defs)
  moreover have "digits 8 (zero_padded 8 (int (m mod 10 ^ 8)))" by (rule zero_padded_digits(1)) simp_all
  moreover have "fixed_text 8 r = nat_str (m div 10 ^ 8) @ CHR ''.'' # zero_padded 8 (int (m mod 10 ^ 8))"
    using s(1) by (simp add: fixed_text_def Let_def m_def)
  ultimately show ?thesis by (auto simp: rate_pattern_def digits_def)
qed

lemma normalize_rate:
  assumes laws: "decimal_laws lib val"
  shows "normalizeAccountingRate lib (Some r) field =
     (if rate_pattern r \<and> text_rat r \<le> 1 then Inr (Some (fixed_text 8 (text_rat r)))
      else Inl (PlainError (''INVALID_ACCOUNTING_RATE:'' @ field)))"
proof (cases "rate_pattern r")
  case True
  from rate_pattern_parts [OF True] have ne: "decimal_parts r \<noteq> None" "hd r \<noteq> CHR ''-''" by auto
  then obtain d where d: "dec_parse lib r = Some d" "val d = text_rat r" "\<not> dec_isNegative lib d"
    using laws unfolding decimal_laws_def by blast
  have "decimal lib r = Inr d" using ne d by (simp add: decimal_def)
  moreover have "dec_less lib (dec_int lib 1) d \<longleftrightarrow> 1 < text_rat r"
    using decimal_ops(6,9) [OF laws] d(2) by simp
  moreover have "decimal8_text lib r = Inr (fixed_text 8 (text_rat r))"
    using d decimal_ops(8) [OF laws] by (simp add: decimal8_text_def)
  ultimately show ?thesis using True d(3) by (auto simp: normalizeAccountingRate_def)
qed (simp add: normalizeAccountingRate_def)

lemma normalize_rate_None [simp]: "normalizeAccountingRate lib None field = Inr None"
  by (simp add: normalizeAccountingRate_def)

lemma normalize_rate_again:
  assumes laws: "decimal_laws lib val" and ok: "normalizeAccountingRate lib v field = Inr w"
  shows "normalizeAccountingRate lib w field' = Inr w"
proof (cases v)
  case (Some r)
  with ok normalize_rate [OF laws, of r field] have r: "rate_pattern r" "text_rat r \<le> 1" "w = Some (fixed_text 8 (text_rat r))"
    by (auto split: if_split_asm)
  have "text_rat (fixed_text 8 (text_rat r)) = text_rat r" by (rule fixed_amount [OF amount_places [OF rate_amount [OF r(1)]]])
  then show ?thesis
    using normalize_rate [OF laws] rate_pattern_fixed [OF rate_nonneg [OF r(1)] r(2)] r(2,3) by simp
qed (use ok in simp)

lemma normalize_prefixes_again:
  assumes "normalizeContinentPrefixes v = Inr w"
  shows "normalizeContinentPrefixes w = Inr w"
proof -
  have w: "w = filter (\<lambda>c. c \<in> set v) CONTINENT_PREFIXES"
    using assms by (simp add: normalizeContinentPrefixes_def split: if_split_asm)
  then have "filter (\<lambda>c. c \<in> set w) CONTINENT_PREFIXES = w" by (simp cong: filter_cong)
  then show ?thesis using w by (auto simp: normalizeContinentPrefixes_def)
qed

lemma normalize_preferences_again:
  assumes "decimal_laws lib val" and "normalizeAccountingPreferences lib a = Inr p"
  shows "normalizeAccountingPreferences lib p = Inr p"
  using assms(2) normalize_rate_again [OF assms(1)] normalize_prefixes_again
  by (auto simp: normalizeAccountingPreferences_def normalizeAccountingAssumptions_def bindE_Inr_iff)


section \<open>The estimate on rationals\<close>

record cost_spec =
  sp_target :: "rat option"
  sp_profit :: rat
  sp_procurement :: rat
  sp_adjusted :: bool

text \<open>
  What is bought is what is left of the net income after the expenses and the profit aimed at, or nothing
  when no profit is aimed at; but, with income, at least the given part of the income.
\<close>

definition cost_spec_of :: "rat \<Rightarrow> rat \<Rightarrow> rat \<Rightarrow> rat option \<Rightarrow> rat option \<Rightarrow> cost_spec" where
  "cost_spec_of income netIncome expenses profitRate minimumRate =
     (let base = (case profitRate of None \<Rightarrow> 0 | Some p \<Rightarrow> netIncome - expenses - netIncome * p);
          procurement = (case minimumRate of None \<Rightarrow> base | Some m \<Rightarrow> if 0 < income then max base (income * m) else base) in
      \<lparr> sp_target = map_option (\<lambda>p. netIncome * p) profitRate, sp_profit = netIncome - expenses - procurement,
        sp_procurement = procurement, sp_adjusted = (procurement \<noteq> base) \<rparr>)"

definition spec_base :: "rat \<Rightarrow> rat \<Rightarrow> rat option \<Rightarrow> rat" where
  "spec_base netIncome expenses profitRate =
     (case profitRate of None \<Rightarrow> 0 | Some p \<Rightarrow> netIncome - expenses - netIncome * p)"

definition spec_procurement :: "rat \<Rightarrow> rat \<Rightarrow> rat option \<Rightarrow> rat" where
  "spec_procurement base income minimumRate =
     (case minimumRate of None \<Rightarrow> base | Some m \<Rightarrow> if 0 < income then max base (income * m) else base)"

lemma widen: "places 8 28 x \<Longrightarrow> places 16 37 x"
  using places_mono [OF places_more [of 8 28 x 8], of 37] by simp

lemma rest_exact:
  assumes laws: "decimal_laws lib val" and n: "places 8 28 (val netIncome)" and e: "places 8 28 (val expenses)"
  shows "val (dec_sub lib netIncome expenses) = val netIncome - val expenses \<and> places 16 37 (val netIncome - val expenses)"
  using decimal_ops(2) [OF laws places_fits [OF places_sub [OF n e]]] places_more [OF places_sub [OF n e], of 8] by simp

lemma product_exact:
  assumes laws: "decimal_laws lib val" and n: "places 8 28 (val x)" and r: "places 8 9 (val y)"
  shows "val (dec_mul lib x y) = val x * val y \<and> places 16 37 (val x * val y)"
  using decimal_ops(3) [OF laws places_fits [OF places_mult [OF n r]]] places_mult [OF n r] by simp

lemma base_exact:
  assumes laws: "decimal_laws lib val" and n: "places 8 28 (val netIncome)" and e: "places 8 28 (val expenses)"
    and p: "\<And>r. profitRate = Some r \<Longrightarrow> places 8 9 (val r)" and zero: "val zero = 0"
  shows "val (base_procurement lib zero netIncome expenses (map_option (dec_mul lib netIncome) profitRate)) =
      spec_base (val netIncome) (val expenses) (map_option val profitRate) \<and>
    places 16 38 (spec_base (val netIncome) (val expenses) (map_option val profitRate))"
proof (cases profitRate)
  case None
  then show ?thesis by (simp add: base_procurement_def spec_base_def zero)
next
  case (Some r)
  note rest = rest_exact [OF laws n e] and t = product_exact [OF laws n p [OF Some]]
  have f: "places 16 38 (val netIncome - val expenses - val netIncome * val r)"
    using places_sub [of 16 37 "val netIncome - val expenses" "val netIncome * val r"] rest t by simp
  then have "val (dec_sub lib (dec_sub lib netIncome expenses) (dec_mul lib netIncome r)) = val netIncome - val expenses - val netIncome * val r"
    using decimal_ops(2) [OF laws, of "dec_sub lib netIncome expenses" "dec_mul lib netIncome r"] places_fits [OF f] rest t by simp
  with f show ?thesis by (simp add: base_procurement_def spec_base_def Some)
qed

lemma procurement_exact:
  assumes laws: "decimal_laws lib val" and i: "places 8 28 (val income)"
    and m: "\<And>r. minimumRate = Some r \<Longrightarrow> places 8 9 (val r)" and b: "places 16 38 (val base)"
  defines "mp \<equiv> minimum_procurement lib income minimumRate"
    and "sp \<equiv> spec_procurement (val base) (val income) (map_option val minimumRate)"
  shows "val (if minimum_adjusted lib base mp then the mp else base) = sp \<and> places 16 38 sp \<and>
    (minimum_adjusted lib base mp \<longleftrightarrow> sp \<noteq> val base)"
proof -
  have z: "val (dec_int lib 0) = 0" using decimal_ops(9) [OF laws, of 0] by simp
  show ?thesis
  proof (cases minimumRate)
    case None
    then show ?thesis using b by (simp add: mp_def sp_def minimum_procurement_def minimum_adjusted_def spec_procurement_def)
  next
    case (Some r)
    note p = product_exact [OF laws i m [OF Some]]
    have "places 16 38 (val income * val r)" using places_mono [of 16 37 _ 38] p by simp
    then show ?thesis
      using b p z decimal_ops(6) [OF laws]
      by (auto simp: mp_def sp_def minimum_procurement_def minimum_adjusted_def spec_procurement_def Some max_def)
  qed
qed

lemma amount_parts: "amount_text v \<Longrightarrow> decimal_parts v \<noteq> None"
  by (cases "decimal_parts v") (auto simp: amount_text_def)

lemma amount_decimal:
  assumes "decimal_laws lib val" and "amount_text v"
  shows "\<exists>d. decimal lib v = Inr d \<and> val d = text_rat v \<and> places 8 28 (val d)"
proof -
  obtain d where "decimal lib v = Inr d" "val d = text_rat v" using decimal_Inr [OF assms(1) amount_parts [OF assms(2)]] by blast
  with amount_places [OF assms(2)] show ?thesis by simp
qed

lemma unit_places:
  assumes "places 8 q r" and "0 \<le> r" and "r \<le> 1"
  shows "places 8 9 r"
proof -
  obtain n :: int where n: "r = of_int n / 10 ^ 8" using assms(1) unfolding places_def by blast
  have "(0 :: rat) \<le> of_int n" "(of_int n :: rat) \<le> of_int (10 ^ 8)" using assms(2,3) unfolding n by (simp_all add: field_simps)
  then have "0 \<le> n" "n \<le> 10 ^ 8" unfolding of_int_0_le_iff of_int_le_iff by simp_all
  with n show ?thesis unfolding places_def by (intro exI [of _ n]) simp
qed

lemma rate_decimal:
  assumes laws: "decimal_laws lib val" and ok: "case v of None \<Rightarrow> True | Some r \<Rightarrow> rate_pattern r \<and> text_rat r \<le> 1"
  shows "\<exists>w d. normalizeAccountingRate lib v field = Inr w \<and> optional_decimal lib w = Inr d \<and>
     map_option val d = map_option text_rat v \<and> (\<forall>r. d = Some r \<longrightarrow> places 8 9 (val r))"
proof (cases v)
  case (Some r)
  with ok have r: "rate_pattern r" "text_rat r \<le> 1" by simp_all
  have same: "text_rat (fixed_text 8 (text_rat r)) = text_rat r" by (rule fixed_amount [OF amount_places [OF rate_amount [OF r(1)]]])
  have "places 8 9 (text_rat r)" by (rule unit_places [OF amount_places [OF rate_amount [OF r(1)]] rate_nonneg [OF r(1)] r(2)])
  moreover have "decimal_parts (fixed_text 8 (text_rat r)) \<noteq> None" by (simp add: decimal_parts_fixed)
  from decimal_Inr [OF laws this] obtain d where "decimal lib (fixed_text 8 (text_rat r)) = Inr d" "val d = text_rat r"
    unfolding same by blast
  ultimately show ?thesis
    using Some r by (intro exI [of _ "Some (fixed_text 8 (text_rat r))"] exI [of _ "Some d"])
      (simp add: normalize_rate [OF laws] optional_decimal_def)
qed (simp add: optional_decimal_def)

text \<open>C26: for amounts of at most 20 digits before and eight behind the point and rates between nothing and one
  with at most eight places, the estimate succeeds, and what it prints are the exact numbers rounded to eight
  places: the target profit; what is bought, which leaves exactly that profit, or nothing without a target, but
  with income at least the given part of it; the profit that is left; and the cost rate to 50 digits.\<close>

theorem cost_accounting_exact:
  assumes laws: "decimal_laws lib val"
    and amounts: "amount_text (ci_incomeTotalCny input)" "amount_text (ci_netIncomeCny input)" "amount_text (ci_platformExpensesCny input)"
    and p: "case aa_profitRate a of None \<Rightarrow> True | Some r \<Rightarrow> rate_pattern r \<and> text_rat r \<le> 1"
    and m: "case aa_minimumSalesCostRate a of None \<Rightarrow> True | Some r \<Rightarrow> rate_pattern r \<and> text_rat r \<le> 1"
  defines "income \<equiv> text_rat (ci_incomeTotalCny input)" and "netIncome \<equiv> text_rat (ci_netIncomeCny input)"
    and "expenses \<equiv> text_rat (ci_platformExpensesCny input)"
    and "base \<equiv> spec_base (text_rat (ci_netIncomeCny input)) (text_rat (ci_platformExpensesCny input)) (map_option text_rat (aa_profitRate a))"
  defines "procurement \<equiv> spec_procurement base income (map_option text_rat (aa_minimumSalesCostRate a))"
  shows "\<exists>q. calculateCostAccounting lib input a = Inr
      \<lparr> cr_targetProfitCny = map_option (\<lambda>r. fixed_text 8 (netIncome * text_rat r)) (aa_profitRate a),
        cr_profitCny = fixed_text 8 (netIncome - expenses - procurement), cr_procurementCny = fixed_text 8 procurement,
        cr_salesCostRate = fixed_text 8 q, cr_minimumAdjusted = (procurement \<noteq> base) \<rparr> \<and>
     (if 0 < income then \<bar>q - procurement / income\<bar> \<le> \<bar>procurement / income\<bar> / (2 * 10 ^ 49) else q = 0)"
proof -
  note dec8 = decimal_ops(8) [OF laws]
  obtain i where i: "decimal lib (ci_incomeTotalCny input) = Inr i" "val i = income" "places 8 28 (val i)"
    using amount_decimal [OF laws amounts(1)] unfolding income_def by blast
  obtain n where n: "decimal lib (ci_netIncomeCny input) = Inr n" "val n = netIncome" "places 8 28 (val n)"
    using amount_decimal [OF laws amounts(2)] unfolding netIncome_def by blast
  obtain e where e: "decimal lib (ci_platformExpensesCny input) = Inr e" "val e = expenses" "places 8 28 (val e)"
    using amount_decimal [OF laws amounts(3)] unfolding expenses_def by blast
  obtain wp pr where pr: "normalizeAccountingRate lib (aa_profitRate a) ''profitRate'' = Inr wp" "optional_decimal lib wp = Inr pr"
    "map_option val pr = map_option text_rat (aa_profitRate a)" "\<And>r. pr = Some r \<Longrightarrow> places 8 9 (val r)"
    using rate_decimal [OF laws p] by blast
  obtain wm mr where mr: "normalizeAccountingRate lib (aa_minimumSalesCostRate a) ''minimumSalesCostRate'' = Inr wm"
    "optional_decimal lib wm = Inr mr" "map_option val mr = map_option text_rat (aa_minimumSalesCostRate a)"
    "\<And>r. mr = Some r \<Longrightarrow> places 8 9 (val r)"
    using rate_decimal [OF laws m] by blast
  have "text_rat ''0'' = 0" "decimal_parts ''0'' \<noteq> None" by (simp_all add: text_rat_def decimal_parts_def is_digit_def digits_value_def digit_value_def)
  then obtain z where z: "decimal lib ''0'' = Inr z" "val z = 0" using decimal_Inr [OF laws] by metis
  define c where "c = cost_numbers_of lib z i n e pr mr"
  have calc: "calculateCostAccounting lib input a = Inr (printed_numbers lib c)"
    by (simp add: calculateCostAccounting_def normalizeAccountingAssumptions_def i n e pr(1,2) mr(1,2) z c_def)
  define b where "b = base_procurement lib z n e (map_option (dec_mul lib n) pr)"
  have b: "val b = base" "places 16 38 (val b)"
    using base_exact [where profitRate = pr, OF laws n(3) e(3) pr(4) z(2)] unfolding pr(3) n(2) e(2) b_def base_def netIncome_def expenses_def by simp_all
  define mp where "mp = minimum_procurement lib i mr"
  define d where "d = (if minimum_adjusted lib b mp then the mp else b)"
  have "val d = procurement \<and> places 16 38 procurement \<and> (minimum_adjusted lib b mp \<longleftrightarrow> procurement \<noteq> base)"
    using procurement_exact [where minimumRate = mr, OF laws i(3) mr(4) b(2)]
    unfolding mr(3) i(2) b(1) mp_def [symmetric] d_def [symmetric] procurement_def [symmetric] .
  then have d: "val d = procurement" "places 16 38 (val d)" "minimum_adjusted lib b mp \<longleftrightarrow> procurement \<noteq> base" by auto
  have rest: "val (dec_sub lib n e) = netIncome - expenses" "places 16 38 (netIncome - expenses)"
    using rest_exact [OF laws n(3) e(3)] places_mono [of 16 37 "val n - val e" 38] by (simp_all add: n(2) e(2))
  have profit: "val (dec_sub lib (dec_sub lib n e) d) = netIncome - expenses - procurement"
    using decimal_ops(2) [OF laws, of "dec_sub lib n e" d] places_fits [OF places_sub [OF rest(2) d(2)]] rest(1) d(1) by simp
  have target: "map_option (decimal8 lib) (map_option (dec_mul lib n) pr) = map_option (\<lambda>r. fixed_text 8 (netIncome * text_rat r)) (aa_profitRate a)"
    using pr(3) product_exact [OF laws n(3) pr(4)] by (cases pr; cases "aa_profitRate a") (auto simp: dec8 n(2))
  have positive: "dec_less lib (dec_int lib 0) i \<longleftrightarrow> 0 < income"
    using decimal_ops(6,9) [OF laws] i(2) by simp
  define q where "q = val (cn_rate c)"
  have c: "c = \<lparr> cn_target = map_option (dec_mul lib n) pr, cn_profit = dec_sub lib (dec_sub lib n e) d, cn_procurement = d,
      cn_rate = (if 0 < income then dec_div lib d i else z), cn_adjusted = (procurement \<noteq> base) \<rparr>"
    unfolding c_def cost_numbers_of_def Let_def b_def [symmetric] mp_def [symmetric] d_def [symmetric]
    unfolding positive d(3) ..
  have "if 0 < income then \<bar>q - procurement / income\<bar> \<le> \<bar>procurement / income\<bar> / (2 * 10 ^ 49) else q = 0"
    using decimal_ops(4) [OF laws, of i d] unfolding q_def i(2) d(1) by (auto simp: c z(2))
  moreover have "printed_numbers lib c = \<lparr> cr_targetProfitCny = map_option (\<lambda>r. fixed_text 8 (netIncome * text_rat r)) (aa_profitRate a),
        cr_profitCny = fixed_text 8 (netIncome - expenses - procurement), cr_procurementCny = fixed_text 8 procurement,
        cr_salesCostRate = fixed_text 8 q, cr_minimumAdjusted = (procurement \<noteq> base) \<rparr>"
    unfolding printed_numbers_def q_def by (simp add: c dec8 target profit d(1))
  ultimately show ?thesis unfolding calc by blast
qed


definition sample_costs :: CostAccountingInput where
  "sample_costs = \<lparr> ci_incomeTotalCny = ''1000.00'', ci_netIncomeCny = ''900.5'', ci_platformExpensesCny = ''300'' \<rparr>"

lemma cost_accounting_exact_witness:
  "\<exists>r. calculateCostAccounting rat_lib sample_costs \<lparr> aa_profitRate = Some ''0.2'', aa_minimumSalesCostRate = None \<rparr> = Inr r"
proof -
  let ?a = "\<lparr> aa_profitRate = Some ''0.2'', aa_minimumSalesCostRate = None \<rparr>"
  have "amount_text ''1000.00''" "amount_text ''900.5''" "amount_text ''300''"
    by (simp_all add: amount_text_def decimal_parts_def is_digit_def)
  moreover have "rate_pattern ''0.2'' \<and> text_rat ''0.2'' \<le> 1"
    by (simp add: rate_pattern_def is_digit_def text_rat_def decimal_parts_def digits_value_def digit_value_def)
  ultimately show ?thesis
    using cost_accounting_exact [OF rat_lib_laws, of sample_costs ?a] by (auto simp: sample_costs_def)
qed

text \<open>the preferences an account stores are read back as they were answered, and nobody else's change.\<close>

theorem preferences_read_back:
  assumes laws: "decimal_laws lib val" and up: "update_preferences lib actor raw requestId db = Inr (p, db')"
  shows "get_preferences lib (actor_accountId actor) db' = Inr p \<and>
    (\<forall>other. other \<noteq> actor_accountId actor \<longrightarrow> get_preferences lib other db' = get_preferences lib other db)"
proof -
  let ?own = "\<lambda>r. pf_account_id r = actor_accountId actor"
  let ?f = "\<lambda>r. r\<lparr>pf_profit_rate := aa_profitRate p, pf_minimum_sales_cost_rate := aa_minimumSalesCostRate p,
       pf_continent_prefixes := ap_continentPrefixes p\<rparr>"
  have norm: "normalizeAccountingPreferences lib raw = Inr p"
    and "\<exists>before a. first_row ?own (preferences db) = Some before \<and> db' = audit a (db\<lparr>preferences := update_rows ?own ?f (preferences db)\<rparr>)"
    using up by (auto simp: update_preferences_def bindE_Inr_iff split: option.splits)
  then obtain before a where before: "first_row ?own (preferences db) = Some before"
    and db': "db' = audit a (db\<lparr>preferences := update_rows ?own ?f (preferences db)\<rparr>)" by blast
  have table: "preferences db' = update_rows ?own ?f (preferences db)" by (simp add: db' audit_def)
  have rows: "first_row (\<lambda>r. pf_account_id r = i) (preferences db') =
      map_option (\<lambda>r. if ?own r then ?f r else r) (first_row (\<lambda>r. pf_account_id r = i) (preferences db))" for i
    unfolding table by (rule first_row_update_rows) simp
  have eta: "\<lparr> aa_profitRate = aa_profitRate p, aa_minimumSalesCostRate = aa_minimumSalesCostRate p,
      ap_continentPrefixes = ap_continentPrefixes p \<rparr> = p" by (cases p) simp
  have again: "normalizeAccountingPreferences lib \<lparr> aa_profitRate = aa_profitRate p,
      aa_minimumSalesCostRate = aa_minimumSalesCostRate p, ap_continentPrefixes = ap_continentPrefixes p \<rparr> = Inr p"
    unfolding eta by (rule normalize_preferences_again [OF laws norm])
  have "?own before" using first_row_SomeD [OF before] by simp
  then have "get_preferences lib (actor_accountId actor) db' = Inr p"
    using again
    by (simp add: get_preferences_def findAccountingPreferences_def rows before preferences_of_row_def)
  moreover have "get_preferences lib i db' = get_preferences lib i db" if "i \<noteq> actor_accountId actor" for i
  proof (cases "first_row (\<lambda>r. pf_account_id r = i) (preferences db)")
    case (Some r)
    from first_row_SomeD [OF this] that Some show ?thesis by (simp add: get_preferences_def findAccountingPreferences_def rows)
  qed (simp add: get_preferences_def findAccountingPreferences_def rows)
  ultimately show ?thesis by blast
qed

definition sample_preferences :: preference_db where
  "sample_preferences = \<lparr> accounts = [], enterprises = [], enterprise_members = [], audits = [], outbox = [],
     preferences = [\<lparr> pf_account_id = ''o'', pf_profit_rate = None, pf_minimum_sales_cost_rate = None, pf_continent_prefixes = [] \<rparr>] \<rparr>"

definition sample_person :: Actor where
  "sample_person = \<lparr> actor_accountId = ''o'', actor_status = Actor_ACTIVE, roles = {ACCOUNTANT}, enterpriseIds = None \<rparr>"

lemma preferences_read_back_witness:
  "\<exists>p db'. update_preferences rat_lib sample_person
     \<lparr> aa_profitRate = None, aa_minimumSalesCostRate = None, ap_continentPrefixes = [''EU''] \<rparr> ''r'' sample_preferences = Inr (p, db') \<and>
     get_preferences rat_lib ''o'' db' = Inr p"
proof -
  obtain p db' where up: "update_preferences rat_lib sample_person
     \<lparr> aa_profitRate = None, aa_minimumSalesCostRate = None, ap_continentPrefixes = [''EU''] \<rparr> ''r'' sample_preferences = Inr (p, db')"
    by (simp add: update_preferences_def normalizeAccountingPreferences_def normalizeAccountingAssumptions_def
        normalizeContinentPrefixes_def CONTINENT_PREFIXES_def sample_preferences_def sample_person_def)
  have "actor_accountId sample_person = ''o''" by (simp add: sample_person_def)
  then show ?thesis using preferences_read_back [OF rat_lib_laws up] up by auto
qed

end
