(* ===== verification/Fx.thy ===== *)
theory Fx
  imports Decimals
begin

text \<open>
  Exchange rates: \<open>src/modules/fx\<close> - currency codes, dates, the normalisation of official quotes and the
  conversion between two currencies through the yuan, falling forward over days proven not to be trading
  days. Dates of the request are lists of code points, since a date may be written with Chinese
  characters; the calendar of \<open>Temporal\<close> and the decimal library are parameters.
\<close>

section \<open>Dates\<close>

type_synonym code_points = "nat list"

definition points :: "string \<Rightarrow> code_points" where
  "points s = map of_char s"

text \<open>The white space of ECMAScript.\<close>

definition space_point :: "nat \<Rightarrow> bool" where
  "space_point c \<longleftrightarrow> c \<in> {9, 10, 11, 12, 13, 32, 160, 5760, 8232, 8233, 8239, 8287, 12288, 65279} \<or> 8192 \<le> c \<and> c \<le> 8202"

definition trim_points :: "code_points \<Rightarrow> code_points" where
  "trim_points s = rev (dropWhile space_point (rev (dropWhile space_point s)))"

definition digit_point :: "nat \<Rightarrow> bool" where
  "digit_point c \<longleftrightarrow> 48 \<le> c \<and> c \<le> 57"

definition digits_text :: "code_points \<Rightarrow> string" where
  "digits_text s = map char_of s"

text \<open>\<open>/^(\d{4})SEP(\d{2})SEP(\d{2})$/\<close>.\<close>

definition separated :: "nat \<Rightarrow> code_points \<Rightarrow> (string \<times> string \<times> string) option" where
  "separated sep s =
     (if length s = 10 \<and> s ! 4 = sep \<and> s ! 7 = sep \<and> list_all digit_point (take 4 s)
        \<and> list_all digit_point (take 2 (drop 5 s)) \<and> list_all digit_point (drop 8 s)
      then Some (digits_text (take 4 s), digits_text (take 2 (drop 5 s)), digits_text (drop 8 s)) else None)"

definition year_sign :: nat where "year_sign = 24180"
definition month_sign :: nat where "month_sign = 26376"
definition day_sign :: nat where "day_sign = 26085"

text \<open>Four digits and the sign of the year, one or two and that of the month, one or two and that of the day.\<close>

definition chinese_date :: "code_points \<Rightarrow> (string \<times> string \<times> string) option" where
  "chinese_date s =
     (let y = take 4 s; r = drop 5 s; m = takeWhile digit_point r; q = drop (Suc (length m)) r; d = takeWhile digit_point q in
      if 4 < length s \<and> list_all digit_point y \<and> s ! 4 = year_sign
         \<and> length m \<in> {1, 2} \<and> length m < length r \<and> r ! length m = month_sign
         \<and> length d \<in> {1, 2} \<and> drop (length d) q = [day_sign]
      then Some (digits_text y, digits_text m, digits_text d) else None)"

text \<open>\<open>Temporal.PlainDate\<close>: reading a date (\<open>None\<close> when it throws) and moving it by days, as texts.\<close>

record plain_dates =
  pd_from :: "string \<Rightarrow> string option"
  pd_add :: "string \<Rightarrow> nat \<Rightarrow> string"

definition parseUnambiguousDate :: "plain_dates \<Rightarrow> code_points \<Rightarrow> string option" where
  "parseUnambiguousDate td s =
     (let v = trim_points s in
      case (case separated 45 v of Some x \<Rightarrow> Some x
            | None \<Rightarrow> (case separated 47 v of Some x \<Rightarrow> Some x | None \<Rightarrow> chinese_date v)) of
        None \<Rightarrow> None
      | Some (y, m, d) \<Rightarrow> pd_from td (y @ ''-'' @ pad_start 2 CHR ''0'' m @ ''-'' @ pad_start 2 CHR ''0'' d))"

definition addDays :: "plain_dates \<Rightarrow> string \<Rightarrow> nat \<Rightarrow> string" where
  "addDays td date days = pd_add td date days"

section \<open>Quotes\<close>

definition currencyCode :: "string \<Rightarrow> string result" where
  "currencyCode v =
     (let normalized = js_upper (trim v) in
      if length normalized = 3 \<and> list_all is_upper normalized then Inr normalized
      else Inl (PlainError (''INVALID_CURRENCY:'' @ v)))"

record RawFxQuote =
  rq_id :: string
  rq_snapshotId :: string
  rq_validDate :: string
  rq_baseCurrency :: string
  rq_quoteCurrency :: string
  rq_baseUnit :: string
  rq_rate :: string

datatype RateSource = Source_OFFICIAL | Source_MANUAL | Source_IDENTITY

record NormalizedFxQuote =
  nq_id :: string
  nq_source :: RateSource
  nq_validDate :: string
  nq_currency :: string
  nq_cnyPerUnit :: string

definition normalizeOfficialQuote :: "'d decimal_lib \<Rightarrow> RawFxQuote \<Rightarrow> NormalizedFxQuote result" where
  "normalizeOfficialQuote lib quote =
     bindE (currencyCode (rq_baseCurrency quote)) (\<lambda>base.
     bindE (currencyCode (rq_quoteCurrency quote)) (\<lambda>counter.
     bindE (decimal lib (rq_baseUnit quote)) (\<lambda>base_unit.
     bindE (decimal lib (rq_rate quote)) (\<lambda>rate.
     if \<not> dec_isPositive lib base_unit \<or> \<not> dec_isPositive lib rate then Inl (PlainError ''FX_RATE_MUST_BE_POSITIVE'')
     else if counter = ''CNY'' \<and> base \<noteq> ''CNY''
     then Inr \<lparr> nq_id = rq_id quote, nq_source = Source_OFFICIAL, nq_validDate = rq_validDate quote, nq_currency = base,
            nq_cnyPerUnit = decimal8 lib (dec_div lib rate base_unit) \<rparr>
     else if base = ''CNY'' \<and> counter \<noteq> ''CNY''
     then Inr \<lparr> nq_id = rq_id quote, nq_source = Source_OFFICIAL, nq_validDate = rq_validDate quote, nq_currency = counter,
            nq_cnyPerUnit = decimal8 lib (dec_div lib base_unit rate) \<rparr>
     else Inl (PlainError (''UNSUPPORTED_OFFICIAL_PAIR:'' @ base @ ''/'' @ counter))))))"

record FxOverride =
  fo_id :: string
  fo_currency :: string
  fo_validFrom :: string
  fo_validTo :: string
  fo_cnyPerUnit :: string

datatype MarketDayStatus = Day_OPEN | Day_NON_TRADING | Day_UNKNOWN

record FxQuoteBook =
  qb_official :: "NormalizedFxQuote list"
  qb_overrides :: "FxOverride list"
  qb_marketDayStatus :: "string \<Rightarrow> MarketDayStatus"

record LocatedRate =
  lr_cnyPerUnit :: string
  lr_id :: string
  lr_source :: RateSource

definition officialAt :: "FxQuoteBook \<Rightarrow> string \<Rightarrow> NormalizedFxQuote list" where
  "officialAt book date = filter (\<lambda>q. nq_validDate q = date) (qb_official book)"

definition findOverride :: "FxOverride list \<Rightarrow> string \<Rightarrow> string \<Rightarrow> LocatedRate option result" where
  "findOverride overrides currency date =
     (case filter (\<lambda>x. fo_currency x = currency \<and> fo_validFrom x \<le> date \<and> date \<le> fo_validTo x) overrides of
        [] \<Rightarrow> Inr None
      | [m] \<Rightarrow> Inr (Some \<lparr> lr_cnyPerUnit = fo_cnyPerUnit m, lr_id = fo_id m, lr_source = Source_MANUAL \<rparr>)
      | _ \<Rightarrow> Inl (PlainError (''AMBIGUOUS_FX_OVERRIDE:'' @ currency @ '':'' @ date)))"

definition locateCurrency ::
    "FxQuoteBook \<Rightarrow> NormalizedFxQuote list \<Rightarrow> string \<Rightarrow> string \<Rightarrow> LocatedRate option result" where
  "locateCurrency book dayQuotes currency date =
     (if currency = ''CNY''
      then Inr (Some \<lparr> lr_cnyPerUnit = ''1.00000000'', lr_id = ''CNY'', lr_source = Source_IDENTITY \<rparr>)
      else case filter (\<lambda>q. nq_currency q = currency) dayQuotes of
        [] \<Rightarrow> findOverride (qb_overrides book) currency date
      | [q] \<Rightarrow> Inr (Some \<lparr> lr_cnyPerUnit = nq_cnyPerUnit q, lr_id = nq_id q, lr_source = Source_OFFICIAL \<rparr>)
      | _ \<Rightarrow> Inl (PlainError (''AMBIGUOUS_OFFICIAL_QUOTE:'' @ currency @ '':'' @ date)))"

section \<open>Conversion\<close>

datatype FxConversionStatus = FX_OK | FX_INVALID_DATE | FX_INVALID_CURRENCY | FX_DATA_GAP | FX_NO_AVAILABLE_QUOTE

text \<open>Without the Chinese reasons; the requested date is the text of the request until it has been read.\<close>

record FxConversion =
  fx_status :: FxConversionStatus
  fx_requestedDate :: code_points
  fx_hitDate :: "string option"
  fx_fromCurrency :: string
  fx_toCurrency :: string
  fx_rate :: "string option"
  fx_fallbackDays :: "string option"
  fx_quoteIds :: "string list"
  fx_overrideIds :: "string list"

definition ids_of :: "RateSource \<Rightarrow> LocatedRate option list \<Rightarrow> string list" where
  "ids_of src rates = concat (map (\<lambda>r. case r of None \<Rightarrow> [] | Some l \<Rightarrow> if lr_source l = src then [lr_id l] else []) rates)"

definition conversion_at ::
    "'d decimal_lib \<Rightarrow> FxQuoteBook \<Rightarrow> string \<Rightarrow> string \<Rightarrow> string \<Rightarrow> string \<Rightarrow> nat \<Rightarrow> FxConversion result" where
  "conversion_at lib book requested from_code to_code candidate fallback =
     (let dayQuotes = officialAt book candidate;
          answer = \<lparr> fx_status = FX_DATA_GAP, fx_requestedDate = points requested, fx_hitDate = Some candidate,
            fx_fromCurrency = from_code, fx_toCurrency = to_code, fx_rate = None, fx_fallbackDays = Some (nat_str fallback),
            fx_quoteIds = [], fx_overrideIds = [] \<rparr> in
      if qb_marketDayStatus book candidate = Day_UNKNOWN \<and> dayQuotes = []
      then Inr (answer\<lparr>fx_status := FX_NO_AVAILABLE_QUOTE\<rparr>)
      else
      bindE (locateCurrency book dayQuotes from_code candidate) (\<lambda>fromRate.
      bindE (locateCurrency book dayQuotes to_code candidate) (\<lambda>toRate.
      let found = answer\<lparr>fx_quoteIds := ids_of Source_OFFICIAL [fromRate, toRate],
            fx_overrideIds := ids_of Source_MANUAL [fromRate, toRate]\<rparr> in
      case (fromRate, toRate) of
        (Some a, Some b) \<Rightarrow>
          bindE (decimal lib (lr_cnyPerUnit a)) (\<lambda>x.
          bindE (decimal lib (lr_cnyPerUnit b)) (\<lambda>y.
          Inr (found\<lparr>fx_status := FX_OK, fx_rate := Some (decimal8 lib (dec_div lib x y))\<rparr>)))
      | _ \<Rightarrow> Inr found)))"

text \<open>The loop over the days, the requested one first.\<close>

fun fx_loop ::
    "'d decimal_lib \<Rightarrow> plain_dates \<Rightarrow> FxQuoteBook \<Rightarrow> string \<Rightarrow> string \<Rightarrow> string \<Rightarrow> nat list \<Rightarrow> FxConversion result" where
  "fx_loop lib td book requested from_code to_code [] =
     Inr \<lparr> fx_status = FX_NO_AVAILABLE_QUOTE, fx_requestedDate = points requested, fx_hitDate = None,
       fx_fromCurrency = from_code, fx_toCurrency = to_code, fx_rate = None, fx_fallbackDays = None,
       fx_quoteIds = [], fx_overrideIds = [] \<rparr>"
| "fx_loop lib td book requested from_code to_code (k # ks) =
     (let candidate = addDays td requested k in
      if qb_marketDayStatus book candidate = Day_NON_TRADING then fx_loop lib td book requested from_code to_code ks
      else conversion_at lib book requested from_code to_code candidate k)"

definition DEFAULT_FALLBACK_DAYS :: int where
  "DEFAULT_FALLBACK_DAYS = 10"

definition refused :: "FxConversionStatus \<Rightarrow> code_points \<Rightarrow> string \<Rightarrow> string \<Rightarrow> FxConversion" where
  "refused st date from_input to_input =
     \<lparr> fx_status = st, fx_requestedDate = date, fx_hitDate = None, fx_fromCurrency = from_input, fx_toCurrency = to_input,
       fx_rate = None, fx_fallbackDays = None, fx_quoteIds = [], fx_overrideIds = [] \<rparr>"

definition convertCurrency ::
    "'d decimal_lib \<Rightarrow> plain_dates \<Rightarrow> FxQuoteBook \<Rightarrow> code_points \<Rightarrow> string \<Rightarrow> string \<Rightarrow> int \<Rightarrow> FxConversion result" where
  "convertCurrency lib td book requestedDate from_input to_input maximumFallbackDays =
     (if maximumFallbackDays < 0 \<or> maximumFallbackDays > 10 then Inl (PlainError ''INVALID_MAXIMUM_FX_FALLBACK_DAYS'')
      else case parseUnambiguousDate td requestedDate of
        None \<Rightarrow> Inr (refused FX_INVALID_DATE requestedDate from_input to_input)
      | Some parsedDate \<Rightarrow>
          (case (currencyCode from_input, currencyCode to_input) of
             (Inr from_code, Inr to_code) \<Rightarrow>
               if from_code = to_code
               then Inr \<lparr> fx_status = FX_OK, fx_requestedDate = points parsedDate, fx_hitDate = Some parsedDate,
                 fx_fromCurrency = from_code, fx_toCurrency = to_code, fx_rate = Some ''1.00000000'',
                 fx_fallbackDays = Some ''0'', fx_quoteIds = [], fx_overrideIds = [] \<rparr>
               else fx_loop lib td book parsedDate from_code to_code [0..<nat maximumFallbackDays + 1]
           | _ \<Rightarrow> Inr (refused FX_INVALID_CURRENCY (points parsedDate) from_input to_input)))"

record BatchFxInput =
  bi_input :: code_points
  bi_fromCurrency :: string
  bi_toCurrency :: string

definition convertBatch ::
    "'d decimal_lib \<Rightarrow> plain_dates \<Rightarrow> FxQuoteBook \<Rightarrow> BatchFxInput list \<Rightarrow> (code_points \<times> FxConversion) list result" where
  "convertBatch lib td book rows =
     map_result (\<lambda>r. bindE (convertCurrency lib td book (bi_input r) (bi_fromCurrency r) (bi_toCurrency r) DEFAULT_FALLBACK_DAYS)
       (\<lambda>c. Inr (bi_input r, c))) rows"

end
