(* ===== verification/FxProps.thy ===== *)
theory FxProps
  imports Fx
begin

text \<open>
  What a conversion answers: the first day not proven to be without trading decides, the rates are the
  only ones quoted for that day, and the printed rate is their quotient rounded to eight places.
\<close>

section \<open>The loop\<close>

lemma fx_loop_first:
  "fx_loop lib td book d f t ks =
     (case dropWhile (\<lambda>k. qb_marketDayStatus book (addDays td d k) = Day_NON_TRADING) ks of
        [] \<Rightarrow> fx_loop lib td book d f t []
      | k # _ \<Rightarrow> conversion_at lib book d f t (addDays td d k) k)"
  by (induction ks) (simp_all add: Let_def)

lemma dropWhile_upt:
  "dropWhile P [i..<n] = k # ks \<Longrightarrow> i \<le> k \<and> k < n \<and> \<not> P k \<and> (\<forall>j. i \<le> j \<and> j < k \<longrightarrow> P j)"
proof (induction "n - i" arbitrary: i)
  case (Suc m)
  then have upt: "[i..<n] = i # [Suc i..<n]" by (simp add: upt_conv_Cons)
  show ?case
  proof (cases "P i")
    case True
    have "Suc i \<le> k \<and> k < n \<and> \<not> P k \<and> (\<forall>j. Suc i \<le> j \<and> j < k \<longrightarrow> P j)"
      by (rule Suc.hyps(1)) (use Suc True upt in auto)
    with True show ?thesis by (metis Suc_leD le_neq_implies_less less_eq_Suc_le)
  qed (use Suc upt in auto)
qed simp

section \<open>The rates of a day\<close>

text \<open>The one value quoted for a currency on a day: the official one, otherwise the one set by hand.\<close>

definition official_for :: "FxQuoteBook \<Rightarrow> string \<Rightarrow> string \<Rightarrow> NormalizedFxQuote list" where
  "official_for book dt cur = filter (\<lambda>q. nq_validDate q = dt \<and> nq_currency q = cur) (qb_official book)"

definition overrides_for :: "FxQuoteBook \<Rightarrow> string \<Rightarrow> string \<Rightarrow> FxOverride list" where
  "overrides_for book dt cur =
     filter (\<lambda>x. fo_currency x = cur \<and> fo_validFrom x \<le> dt \<and> dt \<le> fo_validTo x) (qb_overrides book)"

definition quoted :: "FxQuoteBook \<Rightarrow> string \<Rightarrow> string \<Rightarrow> string \<Rightarrow> bool" where
  "quoted book dt cur v \<longleftrightarrow>
     (if cur = ''CNY'' then v = ''1.00000000''
      else map nq_cnyPerUnit (official_for book dt cur) = [v] \<or>
        official_for book dt cur = [] \<and> map fo_cnyPerUnit (overrides_for book dt cur) = [v])"

lemma locate_quoted:
  assumes "locateCurrency book (officialAt book dt) cur dt = Inr (Some l)"
  shows "quoted book dt cur (lr_cnyPerUnit l)"
proof -
  have "filter (\<lambda>q. nq_currency q = cur) (officialAt book dt) = official_for book dt cur"
    unfolding officialAt_def official_for_def filter_filter by meson
  with assms show ?thesis
    by (auto simp: locateCurrency_def findOverride_def quoted_def overrides_for_def split: if_split_asm list.splits)
qed

lemma locate_missing:
  assumes "locateCurrency book (officialAt book dt) cur dt = Inr None"
  shows "\<nexists>v. quoted book dt cur v"
proof -
  have "filter (\<lambda>q. nq_currency q = cur) (officialAt book dt) = official_for book dt cur"
    unfolding officialAt_def official_for_def filter_filter by meson
  with assms show ?thesis
    by (auto simp: locateCurrency_def findOverride_def quoted_def overrides_for_def split: if_split_asm list.splits)
qed

section \<open>The quotient\<close>

lemma printed_quotient:
  assumes laws: "decimal_laws lib val" and x: "decimal lib u = Inr x" and y: "decimal lib w = Inr y" and nz: "text_rat w \<noteq> 0"
  defines "q \<equiv> text_rat u / text_rat w"
  shows "\<bar>text_rat (decimal8 lib (dec_div lib x y)) - q\<bar> \<le> 1 / (2 * 10 ^ 8) + \<bar>q\<bar> / (2 * 10 ^ 49)"
proof -
  let ?d = "dec_div lib x y"
  note vx = decimal_value(1) [OF laws x] and vy = decimal_value(1) [OF laws y]
  have "\<bar>val ?d - q\<bar> \<le> \<bar>q\<bar> / (2 * 10 ^ 49)"
    using decimal_ops(4) [OF laws, of y x] nz by (simp add: vx vy q_def)
  moreover have "\<bar>text_rat (decimal8 lib ?d) - val ?d\<bar> \<le> 1 / (2 * 10 ^ 8)"
    using scaled_nearest [of 8 "val ?d"]
    by (simp add: decimal_ops(8) [OF laws] text_rat_fixed abs_le_iff field_simps)
  ultimately show ?thesis by linarith
qed

section \<open>Answers\<close>

text \<open>What the conversion between two different currencies answers, from the first day it may stop at.\<close>

definition stops_at :: "plain_dates \<Rightarrow> FxQuoteBook \<Rightarrow> string \<Rightarrow> nat \<Rightarrow> bool" where
  "stops_at td book date k \<longleftrightarrow> qb_marketDayStatus book (addDays td date k) \<noteq> Day_NON_TRADING \<and>
     (\<forall>j < k. qb_marketDayStatus book (addDays td date j) = Day_NON_TRADING)"

lemma loop_stops:
  assumes "fx_loop lib td book date a b [0..<n] = Inr c"
  shows "(\<exists>k < n. stops_at td book date k \<and> conversion_at lib book date a b (addDays td date k) k = Inr c) \<or>
    (\<forall>k < n. qb_marketDayStatus book (addDays td date k) = Day_NON_TRADING) \<and> fx_loop lib td book date a b [] = Inr c"
proof -
  let ?P = "\<lambda>k. qb_marketDayStatus book (addDays td date k) = Day_NON_TRADING"
  show ?thesis
  proof (cases "dropWhile ?P [0..<n]")
    case Nil
    then have "\<forall>k < n. ?P k" by simp
    with assms Nil show ?thesis using fx_loop_first [of lib td book date a b "[0..<n]"] by simp
  next
    case (Cons k ks)
    from dropWhile_upt [OF Cons] have "k < n" "stops_at td book date k" by (auto simp: stops_at_def)
    moreover have "conversion_at lib book date a b (addDays td date k) k = Inr c"
      using assms fx_loop_first [of lib td book date a b "[0..<n]"] unfolding Cons by simp
    ultimately show ?thesis by blast
  qed
qed

lemma conversion_at_cases:
  assumes "conversion_at lib book date a b dt k = Inr c"
  shows "fx_requestedDate c = points date \<and> fx_hitDate c = Some dt \<and> fx_fromCurrency c = a \<and> fx_toCurrency c = b \<and>
    fx_fallbackDays c = Some (nat_str k) \<and>
    (fx_status c = FX_NO_AVAILABLE_QUOTE \<and> fx_rate c = None \<and> qb_marketDayStatus book dt = Day_UNKNOWN \<and> officialAt book dt = [] \<or>
     fx_status c = FX_DATA_GAP \<and> fx_rate c = None \<and> ((\<nexists>v. quoted book dt a v) \<or> (\<nexists>v. quoted book dt b v)) \<or>
     fx_status c = FX_OK \<and> (\<exists>u w x y. quoted book dt a u \<and> quoted book dt b w \<and> decimal lib u = Inr x \<and> decimal lib w = Inr y \<and>
       fx_rate c = Some (decimal8 lib (dec_div lib x y))))"
proof (cases "qb_marketDayStatus book dt = Day_UNKNOWN \<and> officialAt book dt = []")
  case True
  with assms show ?thesis by (auto simp: conversion_at_def Let_def)
next
  case False
  obtain ra rb where r: "locateCurrency book (officialAt book dt) a dt = Inr ra" "locateCurrency book (officialAt book dt) b dt = Inr rb"
    using assms False by (auto simp: conversion_at_def Let_def bindE_Inr_iff)
  note rest = assms [unfolded conversion_at_def Let_def if_not_P [OF False] r bindE_simps]
  show ?thesis
  proof (cases "ra = None \<or> rb = None")
    case True
    then have "(\<nexists>v. quoted book dt a v) \<or> (\<nexists>v. quoted book dt b v)" using r locate_missing by blast
    with True rest show ?thesis by (cases ra; cases rb) auto
  next
    case found: False
    then obtain la lb where l: "ra = Some la" "rb = Some lb" by auto
    obtain x y where xy: "decimal lib (lr_cnyPerUnit la) = Inr x" "decimal lib (lr_cnyPerUnit lb) = Inr y"
      and rate: "fx_rate c = Some (decimal8 lib (dec_div lib x y))"
      using rest by (auto simp: l bindE_Inr_iff)
    have "quoted book dt a (lr_cnyPerUnit la)" "quoted book dt b (lr_cnyPerUnit lb)"
      using r locate_quoted unfolding l by blast+
    with xy rate have "\<exists>u w x y. quoted book dt a u \<and> quoted book dt b w \<and> decimal lib u = Inr x \<and>
      decimal lib w = Inr y \<and> fx_rate c = Some (decimal8 lib (dec_div lib x y))" by blast
    moreover have "fx_status c = FX_OK \<and> fx_requestedDate c = points date \<and> fx_hitDate c = Some dt \<and>
        fx_fromCurrency c = a \<and> fx_toCurrency c = b \<and> fx_fallbackDays c = Some (nat_str k)"
      using rest by (auto simp: l bindE_Inr_iff)
    ultimately show ?thesis by blast
  qed
qed

lemma convert_cases:
  assumes "convertCurrency lib td book d f t m = Inr c" and "parseUnambiguousDate td d = Some date"
    and "currencyCode f = Inr a" and "currencyCode t = Inr b" and "a \<noteq> b"
  shows "0 \<le> m \<and> m \<le> 10 \<and> fx_loop lib td book date a b [0..<nat m + 1] = Inr c"
  using assms by (simp add: convertCurrency_def split: if_split_asm)

lemma convert_OK_parts:
  assumes "convertCurrency lib td book d f t m = Inr c" and "fx_status c = FX_OK"
  shows "\<exists>date a b. parseUnambiguousDate td d = Some date \<and> currencyCode f = Inr a \<and> currencyCode t = Inr b"
  using assms by (auto simp: convertCurrency_def refused_def split: if_split_asm option.splits sum.splits)

text \<open>The day a conversion stopped at, and its rate as the quotient of that day's quotes.\<close>

definition crossed :: "plain_dates \<Rightarrow> FxQuoteBook \<Rightarrow> string \<Rightarrow> string \<Rightarrow> string \<Rightarrow> int \<Rightarrow> FxConversion \<Rightarrow> string \<Rightarrow> bool" where
  "crossed td book date a b m c v \<longleftrightarrow> (\<exists>k dt u w. int k \<le> m \<and> k \<le> 10 \<and> stops_at td book date k \<and> dt = addDays td date k \<and>
       fx_hitDate c = Some dt \<and> fx_fallbackDays c = Some (nat_str k) \<and> quoted book dt a u \<and> quoted book dt b w \<and>
       (text_rat w \<noteq> 0 \<longrightarrow> \<bar>text_rat v - text_rat u / text_rat w\<bar>
          \<le> 1 / (2 * 10 ^ 8) + \<bar>text_rat u / text_rat w\<bar> / (2 * 10 ^ 49)))"

text \<open>C28: a conversion that succeeds does so on the first day not proven to be without trading, at most the allowed
  number of days after the requested one; both currencies have one single quote for that day, and the rate is the
  quotient of the two quotes up to the rounding of the eighth place. A currency converts to itself at one.\<close>

theorem conversion_rate_exact:
  assumes laws: "decimal_laws lib val" and c: "convertCurrency lib td book d f t m = Inr c" and ok: "fx_status c = FX_OK"
  shows "\<exists>date a b v. parseUnambiguousDate td d = Some date \<and> currencyCode f = Inr a \<and> currencyCode t = Inr b \<and>
    fx_requestedDate c = points date \<and> fx_fromCurrency c = a \<and> fx_toCurrency c = b \<and> fx_rate c = Some v \<and>
    (if a = b then fx_hitDate c = Some date \<and> v = ''1.00000000'' else crossed td book date a b m c v)"
proof -
  obtain date a b where p: "parseUnambiguousDate td d = Some date" "currencyCode f = Inr a" "currencyCode t = Inr b"
    using convert_OK_parts [OF c ok] by blast
  show ?thesis
  proof (cases "a = b")
    case True
    with p c show ?thesis by (auto simp: convertCurrency_def split: if_split_asm)
  next
    case False
    from convert_cases [OF c p False] have m: "0 \<le> m" "m \<le> 10" and l: "fx_loop lib td book date a b [0..<nat m + 1] = Inr c" by auto
    from loop_stops [OF l] ok obtain k where k: "k < nat m + 1" "stops_at td book date k"
      and at: "conversion_at lib book date a b (addDays td date k) k = Inr c" by auto
    from conversion_at_cases [OF at] ok obtain u w x y where q: "quoted book (addDays td date k) a u" "quoted book (addDays td date k) b w"
      and xy: "decimal lib u = Inr x" "decimal lib w = Inr y" and v: "fx_rate c = Some (decimal8 lib (dec_div lib x y))" by auto
    have "int k \<le> m" "k \<le> 10" using k(1) m by linarith+
    then have "crossed td book date a b m c (decimal8 lib (dec_div lib x y))"
      unfolding crossed_def using k(2) q conversion_at_cases [OF at] printed_quotient [OF laws xy] by blast
    then show ?thesis using False p v conversion_at_cases [OF at] by simp
  qed
qed

text \<open>the answer to a request in two different known currencies names the first day that is not proven to be
  without trading and says truly what was found there: the rate, that a quote of one of the currencies is missing,
  or that nothing is known of the day; and names no day only if all the allowed days are without trading.\<close>

theorem conversion_answer_true:
  assumes c: "convertCurrency lib td book d f t m = Inr c" and date: "parseUnambiguousDate td d = Some date"
    and codes: "currencyCode f = Inr a" "currencyCode t = Inr b" "a \<noteq> b"
  shows "case fx_hitDate c of
      None \<Rightarrow> fx_status c = FX_NO_AVAILABLE_QUOTE \<and> (\<forall>k. int k \<le> m \<longrightarrow> qb_marketDayStatus book (addDays td date k) = Day_NON_TRADING)
    | Some dt \<Rightarrow> \<exists>k. int k \<le> m \<and> stops_at td book date k \<and> dt = addDays td date k \<and>
        (case fx_status c of
           FX_OK \<Rightarrow> (\<exists>u w. quoted book dt a u \<and> quoted book dt b w)
         | FX_DATA_GAP \<Rightarrow> (\<nexists>v. quoted book dt a v) \<or> (\<nexists>v. quoted book dt b v)
         | FX_NO_AVAILABLE_QUOTE \<Rightarrow> qb_marketDayStatus book dt = Day_UNKNOWN \<and> officialAt book dt = []
         | _ \<Rightarrow> False)"
proof -
  from convert_cases [OF c date codes] have m: "0 \<le> m" and l: "fx_loop lib td book date a b [0..<nat m + 1] = Inr c" by auto
  have bound: "k < nat m + 1 \<longleftrightarrow> int k \<le> m" for k using m by linarith
  from loop_stops [OF l] consider
    k where "k < nat m + 1" "stops_at td book date k" "conversion_at lib book date a b (addDays td date k) k = Inr c"
    | "\<forall>k < nat m + 1. qb_marketDayStatus book (addDays td date k) = Day_NON_TRADING" "fx_loop lib td book date a b [] = Inr c"
    by blast
  then show ?thesis
  proof cases
    case 1
    from conversion_at_cases [OF 1(3)] 1(1,2) show ?thesis unfolding bound by (auto intro!: exI [of _ k])
  next
    case 2
    then show ?thesis unfolding bound by auto
  qed
qed

section \<open>A sample\<close>

text \<open>A calendar of one month, and a weekend before a Monday with two quotes.\<close>

definition month_dates :: plain_dates where
  "month_dates = \<lparr> pd_from = Some, pd_add = (\<lambda>s k. take 8 s @ zero_padded 2 (int (digits_value (drop 8 s) + k))) \<rparr>"

definition sample_book :: FxQuoteBook where
  "sample_book = \<lparr>
     qb_official = [\<lparr> nq_id = ''q1'', nq_source = Source_OFFICIAL, nq_validDate = ''2024-02-12'', nq_currency = ''USD'', nq_cnyPerUnit = ''7.20000000'' \<rparr>,
       \<lparr> nq_id = ''q2'', nq_source = Source_OFFICIAL, nq_validDate = ''2024-02-12'', nq_currency = ''JPY'', nq_cnyPerUnit = ''0.04800000'' \<rparr>],
     qb_overrides = [],
     qb_marketDayStatus = (\<lambda>d. if d \<in> {''2024-02-10'', ''2024-02-11''} then Day_NON_TRADING else Day_OPEN) \<rparr>"

lemma sample_chars: "char_of (48 :: nat) = CHR ''0''" "char_of (49 :: nat) = CHR ''1''" "char_of (50 :: nat) = CHR ''2''"
    "char_of (52 :: nat) = CHR ''4''"
  by code_simp+

lemma sample_date: "parseUnambiguousDate month_dates (points ''2024-02-10'') = Some ''2024-02-10''"
  by (simp add: parseUnambiguousDate_def points_def trim_points_def space_point_def separated_def digit_point_def digits_text_def
      month_dates_def pad_start_def sample_chars)

lemma sample_codes: "currencyCode '' usd'' = Inr ''USD''" "currencyCode ''JPY'' = Inr ''JPY''"
  by code_simp+

lemma sample_days: "addDays month_dates ''2024-02-10'' 0 = ''2024-02-10''" "addDays month_dates ''2024-02-10'' (Suc 0) = ''2024-02-11''"
  "addDays month_dates ''2024-02-10'' 2 = ''2024-02-12''"
  by (simp_all add: addDays_def month_dates_def digits_value_def digit_value_def zero_padded_def pad_start_def int_str_def code_defs sample_chars)

lemma sample_rates: "decimal rat_lib ''7.20000000'' = Inr (36 / 5)" "decimal rat_lib ''0.04800000'' = Inr (6 / 125)"
  by (simp_all add: decimal_def rat_lib_def text_rat_def parts_rat_def number_parts_def split_number_def decimal_parts_def is_digit_def
      digits_value_def digit_value_def Let_def)

lemma sample_conversion:
  "\<exists>c. convertCurrency rat_lib month_dates sample_book (points ''2024-02-10'') '' usd'' ''JPY'' 10 = Inr c \<and>
     fx_status c = FX_OK \<and> fx_hitDate c = Some ''2024-02-12''"
proof -
  have loop: "[0..<nat 10 + 1] = 0 # 1 # 2 # [3..<11]" by (simp add: upt_rec)
  show ?thesis
    unfolding convertCurrency_def sample_date loop
    by (simp add: sample_codes sample_days sample_book_def conversion_at_def officialAt_def locateCurrency_def sample_rates Let_def)
qed

lemma conversion_rate_exact_witness:
  "\<exists>c v. convertCurrency rat_lib month_dates sample_book (points ''2024-02-10'') '' usd'' ''JPY'' 10 = Inr c \<and>
     crossed month_dates sample_book ''2024-02-10'' ''USD'' ''JPY'' 10 c v"
proof -
  obtain c where c: "convertCurrency rat_lib month_dates sample_book (points ''2024-02-10'') '' usd'' ''JPY'' 10 = Inr c" "fx_status c = FX_OK"
    using sample_conversion by blast
  show ?thesis using conversion_rate_exact [OF rat_lib_laws c] c(1) by (auto simp: sample_date sample_codes)
qed

lemma conversion_answer_true_witness:
  "\<exists>c k. convertCurrency rat_lib month_dates sample_book (points ''2024-02-10'') '' usd'' ''JPY'' 10 = Inr c \<and>
     stops_at month_dates sample_book ''2024-02-10'' k \<and> addDays month_dates ''2024-02-10'' k = ''2024-02-12''"
proof -
  obtain c where c: "convertCurrency rat_lib month_dates sample_book (points ''2024-02-10'') '' usd'' ''JPY'' 10 = Inr c"
    "fx_hitDate c = Some ''2024-02-12''"
    using sample_conversion by blast
  have "''USD'' \<noteq> ''JPY''" by simp
  from conversion_answer_true [OF c(1) sample_date sample_codes this] c show ?thesis by auto
qed

section \<open>Official quotes\<close>

text \<open>of a quote between the yuan and another currency whose unit and rate have positive digits, what is kept
  is the price of one unit of that currency in yuan, up to the rounding of the eighth place, in whichever
  direction it was quoted.\<close>

theorem official_quote_exact:
  assumes laws: "decimal_laws lib val" and q: "normalizeOfficialQuote lib quote = Inr n"
    and pos: "text_rat (rq_baseUnit quote) \<noteq> 0" "text_rat (rq_rate quote) \<noteq> 0"
  shows "\<exists>base counter price. currencyCode (rq_baseCurrency quote) = Inr base \<and> currencyCode (rq_quoteCurrency quote) = Inr counter \<and>
    0 < text_rat (rq_baseUnit quote) \<and> 0 < text_rat (rq_rate quote) \<and> nq_validDate n = rq_validDate quote \<and> nq_id n = rq_id quote \<and>
    (counter = ''CNY'' \<and> nq_currency n = base \<and> price = text_rat (rq_rate quote) / text_rat (rq_baseUnit quote) \<or>
     base = ''CNY'' \<and> nq_currency n = counter \<and> price = text_rat (rq_baseUnit quote) / text_rat (rq_rate quote)) \<and>
    nq_currency n \<noteq> ''CNY'' \<and>
    \<bar>text_rat (nq_cnyPerUnit n) - price\<bar> \<le> 1 / (2 * 10 ^ 8) + \<bar>price\<bar> / (2 * 10 ^ 49)"
proof -
  obtain base counter u r where p: "currencyCode (rq_baseCurrency quote) = Inr base" "currencyCode (rq_quoteCurrency quote) = Inr counter"
    and u: "decimal lib (rq_baseUnit quote) = Inr u" and r: "decimal lib (rq_rate quote) = Inr r"
    and signs: "dec_isPositive lib u" "dec_isPositive lib r"
    and n: "if counter = ''CNY'' \<and> base \<noteq> ''CNY'' then nq_currency n = base \<and> nq_cnyPerUnit n = decimal8 lib (dec_div lib r u)
      else base = ''CNY'' \<and> counter \<noteq> ''CNY'' \<and> nq_currency n = counter \<and> nq_cnyPerUnit n = decimal8 lib (dec_div lib u r)"
    and same: "nq_validDate n = rq_validDate quote" "nq_id n = rq_id quote"
    using q by (auto simp: normalizeOfficialQuote_def bindE_Inr_iff split: if_split_asm)
  have "0 < val u" "0 < val r"
    using signs pos laws unfolding decimal_value(1) [OF laws u, symmetric] decimal_value(1) [OF laws r, symmetric] decimal_laws_def
    by (metis linorder_neqE)+
  then have "0 < text_rat (rq_baseUnit quote)" "0 < text_rat (rq_rate quote)"
    using decimal_value(1) [OF laws u] decimal_value(1) [OF laws r] by simp_all
  then show ?thesis
    using p n same printed_quotient [OF laws u r pos(2)] printed_quotient [OF laws r u pos(1)]
    by (cases "counter = ''CNY'' \<and> base \<noteq> ''CNY''") auto
qed

definition sample_raw :: RawFxQuote where
  "sample_raw = \<lparr> rq_id = ''q'', rq_snapshotId = ''s'', rq_validDate = ''2024-02-12'', rq_baseCurrency = ''CNY'',
     rq_quoteCurrency = ''RUB'', rq_baseUnit = ''1'', rq_rate = ''12.5'' \<rparr>"

lemma sample_texts: "decimal rat_lib ''1'' = Inr 1" "decimal rat_lib ''12.5'' = Inr (25 / 2)"
    "text_rat ''1'' = 1" "text_rat ''12.5'' = 25 / 2"
  by (simp_all add: decimal_def rat_lib_def text_rat_def parts_rat_def number_parts_def split_number_def decimal_parts_def is_digit_def
      digits_value_def digit_value_def Let_def)

lemma sample_pair: "currencyCode ''CNY'' = Inr ''CNY''" "currencyCode ''RUB'' = Inr ''RUB''"
  by code_simp+

lemma official_quote_exact_witness:
  "\<exists>n. normalizeOfficialQuote rat_lib sample_raw = Inr n \<and> nq_currency n = ''RUB'' \<and>
    \<bar>text_rat (nq_cnyPerUnit n) - 2 / 25\<bar> \<le> 1 / (2 * 10 ^ 8) + 2 / 25 / (2 * 10 ^ 49)"
proof -
  obtain n where n: "normalizeOfficialQuote rat_lib sample_raw = Inr n"
    by (simp add: normalizeOfficialQuote_def sample_raw_def sample_texts sample_pair rat_lib_def [abs_def] sample_texts [unfolded rat_lib_def])
  have "text_rat (rq_baseUnit sample_raw) \<noteq> 0" "text_rat (rq_rate sample_raw) \<noteq> 0" by (simp_all add: sample_raw_def sample_texts)
  from official_quote_exact [OF rat_lib_laws n this] obtain price where c: "nq_currency n = ''RUB''" and "price * 25 = 2"
    and near: "\<bar>text_rat (nq_cnyPerUnit n) - price\<bar> \<le> 1 / (2 * 10 ^ 8) + \<bar>price\<bar> / (2 * 10 ^ 49)"
    by (auto simp: sample_raw_def sample_texts sample_pair)
  then have "price = 2 / 25" by simp
  with n c near show ?thesis by simp
qed

text \<open>
  The check on the signs does not refuse zero: the library calls a zero that is written without a sign positive, so
  a quote at a rate of nothing is kept as a price of nothing.
\<close>

theorem zero_quote_is_kept:
  assumes laws: "decimal_laws lib val"
  shows "\<exists>n. normalizeOfficialQuote lib \<lparr> rq_id = i, rq_snapshotId = s, rq_validDate = d, rq_baseCurrency = ''USD'',
      rq_quoteCurrency = ''CNY'', rq_baseUnit = ''1'', rq_rate = ''0'' \<rparr> = Inr n \<and> nq_cnyPerUnit n = ''0.00000000''"
proof -
  have parts: "decimal_parts ''1'' = Some (False, ''1'', [])" "decimal_parts ''0'' = Some (False, ''0'', [])"
    by (simp_all add: decimal_parts_def is_digit_def)
  have vals: "text_rat ''1'' = 1" "text_rat ''0'' = 0" by (simp_all add: text_rat_def parts digits_value_def digit_value_def)
  have read: "\<exists>x. decimal lib v = Inr x \<and> val x = text_rat v \<and> dec_isPositive lib x"
    if "decimal_parts v \<noteq> None" "hd v \<noteq> CHR ''-''" for v
    using laws that unfolding decimal_laws_def decimal_def by fastforce
  obtain u r where u: "decimal lib ''1'' = Inr u" "val u = 1" "dec_isPositive lib u"
    and r: "decimal lib ''0'' = Inr r" "val r = 0" "dec_isPositive lib r"
    using read [of "''1''"] read [of "''0''"] by (auto simp: parts vals)
  have "val (dec_div lib r u) = 0" using decimal_ops(4) [OF laws, of u r] u r by simp
  then have printed: "decimal8 lib (dec_div lib r u) = fixed_text 8 0" by (simp add: decimal_ops(8) [OF laws])
  have "scaled 8 0 = 0" by (rule scaled_exact) simp
  moreover have "nat_str 0 = ''0''" by code_simp
  moreover have "zero_padded 8 0 = ''00000000''" by code_simp
  ultimately have zero: "fixed_text 8 0 = ''0.00000000''" by (simp add: fixed_text_def)
  have "currencyCode ''USD'' = Inr ''USD''" "currencyCode ''CNY'' = Inr ''CNY''" by code_simp+
  then show ?thesis using u r by (simp add: normalizeOfficialQuote_def printed zero)
qed

lemma zero_quote_is_kept_witness:
  "\<exists>n. normalizeOfficialQuote rat_lib \<lparr> rq_id = ''q'', rq_snapshotId = ''s'', rq_validDate = ''2024-02-12'', rq_baseCurrency = ''USD'',
      rq_quoteCurrency = ''CNY'', rq_baseUnit = ''1'', rq_rate = ''0'' \<rparr> = Inr n \<and> nq_cnyPerUnit n = ''0.00000000''"
  by (rule zero_quote_is_kept [OF rat_lib_laws])

end
