(* ===== verification/Fees.thy ===== *)
theory Fees
  imports Fx
begin

text \<open>
  The class of a fee: \<open>src/modules/calculation/fee-classification.ts\<close>. Types and descriptions of
  transactions come in many languages, so they are lists of code points; Unicode normalisation, the two
  case mappings and the test for letters and digits are parameters (\<open>unicode_text\<close>).
\<close>

record unicode_text =
  ut_nfkc :: "code_points \<Rightarrow> code_points"
  ut_lower :: "code_points \<Rightarrow> code_points"
  ut_upper :: "code_points \<Rightarrow> code_points"
  ut_alnum :: "nat \<Rightarrow> bool"

lemma points_eq_iff: "points s = points t \<longleftrightarrow> s = t"
  unfolding points_def by (rule inj_map_eq_map) (auto intro: injI)

section \<open>The policy\<close>

definition refundTypes :: "code_points list" where
  "refundTypes =
     [points ''refund'', points ''erstattung'', points ''remboursement'', points ''rimborso'',
      points ''reembolso'', points ''zwrot'', [229] @ points ''terbetalning'', points ''iade'',
      [36820, 37329]]"

definition orderTypes :: "code_points list" where
  "orderTypes =
     [points ''order'', points ''bestellung'', points ''bestelling'', points ''best'' @ [228] @ points ''llning'',
      points ''commande'', points ''ordine'', points ''pedido'', points ''zam'' @ [243] @ points ''wienie'',
      points ''sipari'' @ [351], [27880, 25991]]"

definition transferTypes :: "code_points list" where
  "transferTypes =
     [points ''transfer'', points ''transferir'', points ''trasferir'', [252] @ points ''bertrag'',
      [252] @ points ''bertragung'', points ''transfert'', points ''transf'' @ [233] @ points ''rer'', points ''trasferimento'',
      points ''przelew'', [246] @ points ''verf'' @ [246] @ points ''ring'', points ''overboeking'', points ''transferencia'',
      points ''aktar'' @ [305] @ points ''m'', [25391, 26367], [25391, 36796, 12415]]"

definition debtTypes :: "code_points list" where
  "debtTypes =
     [points ''debt'', points ''schuld'', points ''verbindlichkeit'', points ''dette'',
      points ''debito'', points ''d'' @ [322] @ points ''ug'', points ''skuld'', points ''deuda'',
      points ''saldo descubierto'', points ''saldo negativo'', points ''solde n'' @ [233] @ points ''gatif'', points ''bor'' @ [231],
      [20661, 21209], [12510, 12452, 12490, 12473, 27531, 39640]]"

definition inventoryFeeReversalTypes :: "code_points list" where
  "inventoryFeeReversalTypes =
     [points ''fba inventory fee reversal'']"

definition inventoryFeeCorrectionTypes :: "code_points list" where
  "inventoryFeeCorrectionTypes =
     [points ''fba inventory fee correction'']"

definition inventoryTokens :: "code_points list" where
  "inventoryTokens =
     [points ''inventory'', points ''lager'', points ''stock'', points ''stockage'',
      points ''almac'', points ''inventario'', points ''stoccagg'', [20445, 31649],
      [22312, 24235]]"

definition amazonFulfillmentTokens :: "code_points list" where
  "amazonFulfillmentTokens =
     [points ''fba'', points ''amazon'']"

definition advertisingChargeDescriptions :: "code_points list" where
  "advertisingChargeDescriptions =
     [points ''cost of advertising'', points ''gastos de publicidad'', points ''costo de la publicidad'', points ''prix de la publicit'' @ [233],
      points ''costo della pubblicit'' @ [224], points ''koszt reklamy'', [24195, 21578, 36027, 29992]]"

section \<open>The code\<close>

text \<open>Every maximal run of code points of a class becomes one code point.\<close>

function collapse :: "(nat \<Rightarrow> bool) \<Rightarrow> nat \<Rightarrow> code_points \<Rightarrow> code_points" where
  "collapse p c [] = []"
| "collapse p c (x # xs) = (if p x then c # collapse p c (dropWhile p xs) else x # collapse p c xs)"
  by pat_completeness auto
termination by (relation "measure (\<lambda>(p, c, s). length s)") (auto simp: le_imp_less_Suc length_dropWhile_le)

definition contains_word :: "code_points \<Rightarrow> code_points \<Rightarrow> bool" where
  "contains_word s w \<longleftrightarrow> list_ex (\<lambda>i. take (length w) (drop i s) = w) [0..<Suc (length s)]"

definition words :: "unicode_text \<Rightarrow> code_points \<Rightarrow> code_points" where
  "words u v = collapse (\<lambda>c. c = 95 \<or> c = 45 \<or> space_point c) 32 (ut_lower u (trim_points (ut_nfkc u v)))"

text \<open>\<open>valueWords.replace(/[^\p{L}\p{N}]+/gu, "_").toUpperCase()\<close>.\<close>

definition code_name :: "unicode_text \<Rightarrow> code_points \<Rightarrow> code_points" where
  "code_name u w = ut_upper u (collapse (\<lambda>c. \<not> ut_alnum u c) 95 w)"

definition canonicalTransactionType :: "unicode_text \<Rightarrow> code_points \<Rightarrow> code_points" where
  "canonicalTransactionType u v =
     (let w = words u v in
      if w \<in> set refundTypes then points ''REFUND''
      else if w \<in> set orderTypes then points ''ORDER''
      else if w \<in> set inventoryFeeReversalTypes then points ''FBA_INVENTORY_FEE_REVERSAL''
      else if w \<in> set inventoryFeeCorrectionTypes then points ''FBA_INVENTORY_FEE_CORRECTION''
      else if list_ex (contains_word w) inventoryTokens \<and> list_ex (contains_word w) amazonFulfillmentTokens
      then points ''FBA_INVENTORY_FEE''
      else if w \<in> set transferTypes then points ''TRANSFER''
      else if w \<in> set debtTypes then points ''DEBT''
      else code_name u w)"

definition canonicalTransactionDescription :: "unicode_text \<Rightarrow> code_points \<Rightarrow> code_points" where
  "canonicalTransactionDescription u v =
     (let w = words u v in
      if w \<in> set advertisingChargeDescriptions then points ''COST_OF_ADVERTISING'' else code_name u w)"

datatype FeeSourceColumn = sellingFees | fbaFees | otherTransactionFees | other_column

datatype FeeClassificationCategory =
    Fee_PLATFORM | Fee_FBA_FULFILLMENT | Fee_ADVERTISING | Fee_FBA_STORAGE | Fee_OTHER_DEDUCTION
  | Fee_EXCLUDED_TRANSFER_DEBT

record FeeClassification =
  fcl_category :: FeeClassificationCategory
  fcl_reason :: code_points

fun column_name :: "FeeSourceColumn \<Rightarrow> string" where
  "column_name sellingFees = ''sellingFees''"
| "column_name fbaFees = ''fbaFees''"
| "column_name otherTransactionFees = ''otherTransactionFees''"
| "column_name other_column = ''other''"

definition classifyFeeCell ::
    "unicode_text \<Rightarrow> FeeSourceColumn \<Rightarrow> code_points \<Rightarrow> code_points \<Rightarrow> FeeClassification" where
  "classifyFeeCell u sourceColumn type description =
     (if sourceColumn = sellingFees
      then \<lparr> fcl_category = Fee_PLATFORM, fcl_reason = points ''SOURCE_SELLING_FEES'' \<rparr>
      else if sourceColumn = fbaFees
      then \<lparr> fcl_category = Fee_FBA_FULFILLMENT, fcl_reason = points ''SOURCE_FBA_FEES'' \<rparr>
      else
        let canonicalType = canonicalTransactionType u type;
            canonicalDescription = canonicalTransactionDescription u description in
        if sourceColumn = otherTransactionFees \<and> canonicalDescription = points ''COST_OF_ADVERTISING''
        then \<lparr> fcl_category = Fee_ADVERTISING, fcl_reason = points ''DESCRIPTION_ADVERTISING_CHARGE'' \<rparr>
        else if sourceColumn = other_column \<and> canonicalType = points ''FBA_INVENTORY_FEE''
        then \<lparr> fcl_category = Fee_FBA_STORAGE, fcl_reason = points ''TYPE_FBA_INVENTORY_FEE'' \<rparr>
        else if sourceColumn = other_column \<and> (canonicalType = points ''TRANSFER'' \<or> canonicalType = points ''DEBT'')
        then \<lparr> fcl_category = Fee_EXCLUDED_TRANSFER_DEBT, fcl_reason = points ''TYPE_'' @ canonicalType \<rparr>
        else \<lparr> fcl_category = Fee_OTHER_DEDUCTION,
               fcl_reason = points (''UNCLASSIFIED_'' @ js_upper (column_name sourceColumn)) \<rparr>)"

end
