(* ===== verification/Financials.thy ===== *)
theory Financials
  imports Fees CostProps
begin

text \<open>
  The income statement: \<open>src/modules/calculation/financial.ts\<close> over the facts of \<open>types.ts\<close>. Every amount
  of a fact becomes one result line in yuan, and an accumulator keeps a total per component.
\<close>

section \<open>Facts\<close>

datatype ShipmentIncomeField =
    productPrice | productTax | shippingPrice | shippingTax | giftWrapPrice | giftWrapTax
  | productPromotionDiscount | shipmentPromotionDiscount

datatype RefundField =
    productSales | productSalesTax | shippingCredits | shippingCreditsTax | giftWrapCredits
  | giftWrapCreditsTax | regulatoryFee | taxOnRegulatoryFee | promotionalRebates

definition SHIPMENT_INCOME_FIELDS :: "(ShipmentIncomeField \<times> string) list" where
  "SHIPMENT_INCOME_FIELDS =
     [(productPrice, ''productPrice''), (productTax, ''productTax''), (shippingPrice, ''shippingPrice''),
      (shippingTax, ''shippingTax''), (giftWrapPrice, ''giftWrapPrice''), (giftWrapTax, ''giftWrapTax''),
      (productPromotionDiscount, ''productPromotionDiscount''), (shipmentPromotionDiscount, ''shipmentPromotionDiscount'')]"

definition REFUND_FIELDS :: "(RefundField \<times> string) list" where
  "REFUND_FIELDS =
     [(productSales, ''productSales''), (productSalesTax, ''productSalesTax''), (shippingCredits, ''shippingCredits''),
      (shippingCreditsTax, ''shippingCreditsTax''), (giftWrapCredits, ''giftWrapCredits''),
      (giftWrapCreditsTax, ''giftWrapCreditsTax''), (regulatoryFee, ''regulatoryFee''),
      (taxOnRegulatoryFee, ''taxOnRegulatoryFee''), (promotionalRebates, ''promotionalRebates'')]"

record FactIdentity =
  fact_id :: string
  fact_datasetVersionId :: string
  fact_sourceFileId :: string
  fact_rowNumber :: string
  fact_rowHash :: string
  fact_marketplace :: string
  fact_localMonth :: string
  fact_currency :: string
  fact_fxDate :: string

record ShipmentFact = FactIdentity +
  sf_shippedQuantity :: string
  sf_amounts :: "ShipmentIncomeField \<Rightarrow> string"

datatype FulfillmentMode = Mode_AMAZON | Mode_MERCHANT | Mode_BLANK

record TransactionFact = FactIdentity +
  tf_type :: code_points
  tf_description :: code_points
  tf_fulfillmentMode :: FulfillmentMode
  tf_amounts :: "RefundField \<Rightarrow> string"
  tf_promotionalRebatesTax :: string
  tf_marketplaceWithheldTax :: string
  tf_fees :: "FeeSourceColumn \<Rightarrow> string"

record FactFxConversion =
  fc_requestedDate :: string
  fc_hitDate :: string
  fc_fallbackDays :: string
  fc_rate :: string
  fc_quoteIds :: "string list"
  fc_overrideIds :: "string list option"

datatype FinancialComponent =
    INCOME | REFUND | WITHHELD_TAX | PLATFORM_FEE | FBA_FULFILLMENT_FEE | ADVERTISING_FEE
  | FBA_STORAGE_FEE | OTHER_DEDUCTION

datatype FactKind = SHIPMENT | TRANSACTION

record CalculationFactResult =
  cf_factKind :: FactKind
  cf_factId :: string
  cf_datasetVersionId :: string
  cf_sourceColumn :: string
  cf_component :: FinancialComponent
  cf_amountOriginal :: string
  cf_amountCny :: string
  cf_fx :: FactFxConversion

record FeeClassificationAudit =
  fa_factId :: string
  fa_sourceColumn :: FeeSourceColumn
  fa_category :: FeeClassificationCategory
  fa_reason :: code_points
  fa_amountOriginal :: string

record TransactionFeeFact =
  tfe_id :: string
  tfe_type :: code_points
  tfe_description :: code_points
  tfe_amounts :: "FeeSourceColumn \<Rightarrow> string"

record FinancialSummary =
  fs_income :: string
  fs_refund :: string
  fs_withheldTax :: string
  fs_platformFee :: string
  fs_fbaFulfillmentFee :: string
  fs_advertisingFee :: string
  fs_fbaStorageFee :: string
  fs_otherDeduction :: string
  fs_platformBalance :: string

section \<open>Lines\<close>

text \<open>\<open>BigInt\<close> of digits, and the check of the conversion of a fact.\<close>

definition assertConversion :: "'d decimal_lib \<Rightarrow> 'z FactIdentity_scheme \<Rightarrow> FactFxConversion \<Rightarrow> unit result" where
  "assertConversion lib ft fx =
     bindE (require (fc_requestedDate fx = fact_fxDate ft) (PlainError (''FX_DATE_MISMATCH:'' @ fact_id ft))) (\<lambda>_.
     bindE (require (\<not> fc_hitDate fx < fc_requestedDate fx) (PlainError (''INVALID_FX_HIT_DATE:'' @ fact_id ft))) (\<lambda>_.
     bindE (require (fc_fallbackDays fx \<noteq> [] \<and> list_all is_digit (fc_fallbackDays fx) \<and> digits_value (fc_fallbackDays fx) \<le> 10)
       (PlainError (''INVALID_FX_FALLBACK:'' @ fact_id ft))) (\<lambda>_.
     bindE (decimal lib (fc_rate fx)) (\<lambda>rate.
     require (dec_isPositive lib rate) (PlainError (''INVALID_FX_RATE:'' @ fact_id ft))))))"

definition makeResult ::
    "'d decimal_lib \<Rightarrow> FactKind \<Rightarrow> 'z FactIdentity_scheme \<Rightarrow> string \<Rightarrow> FinancialComponent \<Rightarrow> string \<Rightarrow> FactFxConversion
      \<Rightarrow> bool \<Rightarrow> CalculationFactResult option result" where
  "makeResult lib kind ft sourceColumn component amount fx costDirection =
     bindE (decimal lib amount) (\<lambda>original.
     if dec_isZero lib original then Inr None
     else bindE (decimal lib (fc_rate fx)) (\<lambda>rate.
       let cny = dec_mul lib original rate in
       Inr (Some \<lparr> cf_factKind = kind, cf_factId = fact_id ft, cf_datasetVersionId = fact_datasetVersionId ft,
         cf_sourceColumn = sourceColumn, cf_component = component, cf_amountOriginal = decimal8 lib original,
         cf_amountCny = decimal8 lib (if costDirection then dec_neg lib cny else cny), cf_fx = fx \<rparr>)))"

definition pushResult ::
    "'d decimal_lib \<Rightarrow> CalculationFactResult list \<Rightarrow> FactKind \<Rightarrow> 'z FactIdentity_scheme \<Rightarrow> string \<Rightarrow> FinancialComponent \<Rightarrow> string
      \<Rightarrow> FactFxConversion \<Rightarrow> bool \<Rightarrow> CalculationFactResult list result" where
  "pushResult lib results kind ft sourceColumn component amount fx costDirection =
     bindE (makeResult lib kind ft sourceColumn component amount fx costDirection) (\<lambda>r.
     Inr (case r of None \<Rightarrow> results | Some x \<Rightarrow> results @ [x]))"

text \<open>One amount of a fact: source column, component, text, and whether it is a cost.\<close>

type_synonym entry = "string \<times> FinancialComponent \<times> string \<times> bool"

fun push_all ::
    "'d decimal_lib \<Rightarrow> FactKind \<Rightarrow> 'z FactIdentity_scheme \<Rightarrow> FactFxConversion \<Rightarrow> entry list \<Rightarrow> CalculationFactResult list
      \<Rightarrow> CalculationFactResult list result" where
  "push_all lib kind ft fx [] results = Inr results"
| "push_all lib kind ft fx ((column, component, amount, costDirection) # es) results =
     bindE (pushResult lib results kind ft column component amount fx costDirection) (push_all lib kind ft fx es)"

text \<open>The component of a fee class; \<open>None\<close> is the excluded one.\<close>

fun fee_component :: "FeeClassificationCategory \<Rightarrow> FinancialComponent option" where
  "fee_component Fee_PLATFORM = Some PLATFORM_FEE"
| "fee_component Fee_FBA_FULFILLMENT = Some FBA_FULFILLMENT_FEE"
| "fee_component Fee_ADVERTISING = Some ADVERTISING_FEE"
| "fee_component Fee_FBA_STORAGE = Some FBA_STORAGE_FEE"
| "fee_component Fee_OTHER_DEDUCTION = Some OTHER_DEDUCTION"
| "fee_component Fee_EXCLUDED_TRANSFER_DEBT = None"

text \<open>The amounts of a transaction that are counted, in the order of the calls.\<close>

definition refund_entries :: "TransactionFact \<Rightarrow> FinancialComponent \<Rightarrow> bool \<Rightarrow> entry list" where
  "refund_entries ft component costDirection =
     map (\<lambda>(field, name). (name, component, tf_amounts ft field, costDirection)) REFUND_FIELDS"

definition transaction_entries :: "unicode_text \<Rightarrow> TransactionFact \<Rightarrow> entry list" where
  "transaction_entries u ft =
     (let type = canonicalTransactionType u (tf_type ft) in
      (if type = points ''ORDER'' \<and> tf_fulfillmentMode ft = Mode_MERCHANT then refund_entries ft INCOME False else []) @
      (if type = points ''REFUND'' then refund_entries ft REFUND True else []) @
      [(''marketplaceWithheldTax'', WITHHELD_TAX, tf_marketplaceWithheldTax ft, True),
       (''sellingFees'', PLATFORM_FEE, tf_fees ft sellingFees, True),
       (''fbaFees'', FBA_FULFILLMENT_FEE, tf_fees ft fbaFees, True)] @
      concat (map (\<lambda>sourceColumn.
        case fee_component (fcl_category (classifyFeeCell u sourceColumn type (tf_description ft))) of
          None \<Rightarrow> [] | Some component \<Rightarrow> [(column_name sourceColumn, component, tf_fees ft sourceColumn, True)])
        [otherTransactionFees, other_column]))"

definition transactionResults ::
    "'d decimal_lib \<Rightarrow> unicode_text \<Rightarrow> TransactionFact \<Rightarrow> FactFxConversion \<Rightarrow> CalculationFactResult list result" where
  "transactionResults lib u ft fx = push_all lib TRANSACTION ft fx (transaction_entries u ft) []"

section \<open>The accumulator\<close>

datatype SummaryKey =
    K_income | K_refund | K_withheldTax | K_platformFee | K_fbaFulfillmentFee | K_advertisingFee
  | K_fbaStorageFee | K_otherDeduction

fun SUMMARY_KEY :: "FinancialComponent \<Rightarrow> SummaryKey" where
  "SUMMARY_KEY INCOME = K_income"
| "SUMMARY_KEY REFUND = K_refund"
| "SUMMARY_KEY WITHHELD_TAX = K_withheldTax"
| "SUMMARY_KEY PLATFORM_FEE = K_platformFee"
| "SUMMARY_KEY FBA_FULFILLMENT_FEE = K_fbaFulfillmentFee"
| "SUMMARY_KEY ADVERTISING_FEE = K_advertisingFee"
| "SUMMARY_KEY FBA_STORAGE_FEE = K_fbaStorageFee"
| "SUMMARY_KEY OTHER_DEDUCTION = K_otherDeduction"

type_synonym 'd totals = "SummaryKey \<Rightarrow> 'd"

definition new_totals :: "'d decimal_lib \<Rightarrow> 'd totals" where
  "new_totals lib = (\<lambda>_. dec_int lib 0)"

definition append_result :: "'d decimal_lib \<Rightarrow> 'd totals \<Rightarrow> CalculationFactResult \<Rightarrow> 'd totals result" where
  "append_result lib totals result =
     (let key = SUMMARY_KEY (cf_component result) in
      bindE (decimal lib (cf_amountCny result)) (\<lambda>d. Inr (totals(key := dec_add lib (totals key) d))))"

fun append_all :: "'d decimal_lib \<Rightarrow> CalculationFactResult list \<Rightarrow> 'd totals \<Rightarrow> 'd totals result" where
  "append_all lib [] totals = Inr totals"
| "append_all lib (r # rs) totals = bindE (append_result lib totals r) (append_all lib rs)"

text \<open>
  A shipment is added field by field, each result at once; an exception in the middle ends the run of the
  accumulator, whose state is then thrown away with it.
\<close>

fun ship_fields ::
    "'d decimal_lib \<Rightarrow> ShipmentFact \<Rightarrow> FactFxConversion \<Rightarrow> (ShipmentIncomeField \<times> string) list
      \<Rightarrow> CalculationFactResult list \<Rightarrow> 'd totals \<Rightarrow> (CalculationFactResult list \<times> 'd totals) result" where
  "ship_fields lib ft fx [] results totals = Inr (results, totals)"
| "ship_fields lib ft fx ((field, name) # fs) results totals =
     bindE (makeResult lib SHIPMENT ft name INCOME (sf_amounts ft field) fx False) (\<lambda>r.
     case r of
       None \<Rightarrow> ship_fields lib ft fx fs results totals
     | Some x \<Rightarrow> bindE (append_result lib totals x) (ship_fields lib ft fx fs (results @ [x])))"

definition addShipment ::
    "'d decimal_lib \<Rightarrow> ShipmentFact \<Rightarrow> FactFxConversion \<Rightarrow> 'd totals \<Rightarrow> (CalculationFactResult list \<times> 'd totals) result" where
  "addShipment lib ft fx totals =
     bindE (assertConversion lib ft fx) (\<lambda>_. ship_fields lib ft fx SHIPMENT_INCOME_FIELDS [] totals)"

definition addTransaction ::
    "'d decimal_lib \<Rightarrow> unicode_text \<Rightarrow> TransactionFact \<Rightarrow> FactFxConversion \<Rightarrow> 'd totals
      \<Rightarrow> (CalculationFactResult list \<times> 'd totals) result" where
  "addTransaction lib u ft fx totals =
     bindE (assertConversion lib ft fx) (\<lambda>_.
     bindE (transactionResults lib u ft fx) (\<lambda>results.
     bindE (append_all lib results totals) (\<lambda>totals'. Inr (results, totals'))))"

definition classifyTransactionFees ::
    "'d decimal_lib \<Rightarrow> unicode_text \<Rightarrow> TransactionFeeFact \<Rightarrow> FeeClassificationAudit list result" where
  "classifyTransactionFees lib u ft =
     bindE (map_result (\<lambda>sourceColumn.
       bindE (decimal8_text lib (tfe_amounts ft sourceColumn)) (\<lambda>amountOriginal.
       bindE (decimal lib amountOriginal) (\<lambda>d.
       if dec_isZero lib d then Inr []
       else let c = classifyFeeCell u sourceColumn (tfe_type ft) (tfe_description ft) in
         Inr [\<lparr> fa_factId = tfe_id ft, fa_sourceColumn = sourceColumn, fa_category = fcl_category c,
           fa_reason = fcl_reason c, fa_amountOriginal = amountOriginal \<rparr>])))
       [sellingFees, fbaFees, otherTransactionFees, other_column]) (\<lambda>audits. Inr (concat audits))"

definition or_zero :: "string \<Rightarrow> string" where
  "or_zero s = (if s = [] then ''0.00000000'' else s)"

definition balance_of_totals :: "'d decimal_lib \<Rightarrow> 'd totals \<Rightarrow> 'd" where
  "balance_of_totals lib totals =
     foldl (\<lambda>b k. dec_sub lib b (totals k)) (totals K_income)
       [K_refund, K_withheldTax, K_platformFee, K_fbaFulfillmentFee, K_advertisingFee, K_fbaStorageFee, K_otherDeduction]"

definition summary :: "'d decimal_lib \<Rightarrow> 'd totals \<Rightarrow> FinancialSummary" where
  "summary lib totals =
     \<lparr> fs_income = or_zero (decimal8 lib (totals K_income)), fs_refund = or_zero (decimal8 lib (totals K_refund)),
       fs_withheldTax = or_zero (decimal8 lib (totals K_withheldTax)), fs_platformFee = or_zero (decimal8 lib (totals K_platformFee)),
       fs_fbaFulfillmentFee = or_zero (decimal8 lib (totals K_fbaFulfillmentFee)),
       fs_advertisingFee = or_zero (decimal8 lib (totals K_advertisingFee)),
       fs_fbaStorageFee = or_zero (decimal8 lib (totals K_fbaStorageFee)),
       fs_otherDeduction = or_zero (decimal8 lib (totals K_otherDeduction)),
       fs_platformBalance = decimal8 lib (balance_of_totals lib totals) \<rparr>"

text \<open>\<open>calculateFinancials\<close>: all shipments, then all transactions.\<close>

fun add_facts ::
    "('f \<Rightarrow> 'd totals \<Rightarrow> (CalculationFactResult list \<times> 'd totals) result) \<Rightarrow> 'f list
      \<Rightarrow> CalculationFactResult list \<Rightarrow> 'd totals \<Rightarrow> (CalculationFactResult list \<times> 'd totals) result" where
  "add_facts add [] results totals = Inr (results, totals)"
| "add_facts add (f # fs) results totals =
     bindE (add f totals) (\<lambda>(rs, totals'). add_facts add fs (results @ rs) totals')"

definition calculateFinancials ::
    "'d decimal_lib \<Rightarrow> unicode_text \<Rightarrow> (ShipmentFact \<times> FactFxConversion) list \<Rightarrow> (TransactionFact \<times> FactFxConversion) list
      \<Rightarrow> (CalculationFactResult list \<times> FinancialSummary) result" where
  "calculateFinancials lib u shipments transactions =
     bindE (add_facts (\<lambda>(ft, fx). addShipment lib ft fx) shipments [] (new_totals lib)) (\<lambda>(results, totals).
     bindE (add_facts (\<lambda>(ft, fx). addTransaction lib u ft fx) transactions results totals) (\<lambda>(results', totals').
     Inr (results', summary lib totals')))"

end
