(* ===== verification/FinancialProps.thy ===== *)
theory FinancialProps
  imports Financials
begin

text \<open>
  What the income statement says: every total is the exact sum of its lines, the balance is income less all
  costs, and it is the sum of all counted amounts at their rates up to the rounding of each line.
\<close>

section \<open>Lines and totals\<close>

definition amount_of :: "CalculationFactResult \<Rightarrow> rat" where
  "amount_of r = text_rat (cf_amountCny r)"

definition printed :: "'d decimal_lib \<Rightarrow> CalculationFactResult \<Rightarrow> bool" where
  "printed lib r \<longleftrightarrow> (\<exists>x. cf_amountCny r = decimal8 lib x)"

definition total_for :: "(FinancialComponent \<Rightarrow> bool) \<Rightarrow> CalculationFactResult list \<Rightarrow> rat" where
  "total_for p rs = (\<Sum>r\<leftarrow>filter (\<lambda>r. p (cf_component r)) rs. amount_of r)"

definition mass :: "CalculationFactResult list \<Rightarrow> rat" where
  "mass rs = (\<Sum>r\<leftarrow>rs. \<bar>amount_of r\<bar>)"

definition in_units :: "rat \<Rightarrow> bool" where
  "in_units x \<longleftrightarrow> (\<exists>n :: int. x = of_int n / 10 ^ 8)"

lemma in_units_0 [simp]: "in_units 0"
  unfolding in_units_def by (rule exI [of _ 0]) simp

lemma in_units_add: "in_units x \<Longrightarrow> in_units y \<Longrightarrow> in_units (x + y)"
  unfolding in_units_def by (metis add_divide_distrib of_int_add)

lemma in_units_diff: "in_units x \<Longrightarrow> in_units y \<Longrightarrow> in_units (x - y)"
  unfolding in_units_def by (metis diff_divide_distrib of_int_diff)

lemma in_units_places:
  assumes "in_units x" and "\<bar>x\<bar> < 10 ^ 42"
  shows "places 8 50 x"
proof -
  obtain n :: int where n: "x = of_int n / 10 ^ 8" using assms(1) unfolding in_units_def by blast
  have "\<bar>of_int n :: rat\<bar> < 10 ^ 42 * 10 ^ 8" using assms(2) unfolding n by (simp add: field_simps)
  then have "(of_int \<bar>n\<bar> :: rat) < of_int (10 ^ 50)" by simp
  then have "\<bar>n\<bar> < 10 ^ 50" unfolding of_int_less_iff .
  with n show ?thesis unfolding places_def by blast
qed

lemmas in_units_fits = places_fits [OF in_units_places, OF _ _ order_refl]

lemma total_for_simps [simp]:
  "total_for p [] = 0"
  "total_for p (r # rs) = (if p (cf_component r) then amount_of r else 0) + total_for p rs"
  "total_for p (rs @ rs') = total_for p rs + total_for p rs'"
  by (simp_all add: total_for_def)

lemma mass_simps [simp]: "mass [] = 0" "mass (r # rs) = \<bar>amount_of r\<bar> + mass rs" "mass (rs @ rs') = mass rs + mass rs'"
  by (simp_all add: mass_def)

lemma mass_nonneg [simp]: "0 \<le> mass rs"
  by (induction rs) simp_all

lemma total_for_bound: "\<bar>total_for p rs\<bar> \<le> mass rs"
  by (induction rs) auto

lemma printed_value:
  assumes "decimal_laws lib val" and "printed lib r"
  shows "in_units (amount_of r)" and "\<exists>d. decimal lib (cf_amountCny r) = Inr d \<and> val d = amount_of r"
proof -
  obtain x where x: "cf_amountCny r = fixed_text 8 (val x)"
    using assms decimal_ops(8) [OF assms(1)] unfolding printed_def by auto
  show "in_units (amount_of r)" unfolding in_units_def amount_of_def x by (simp add: text_rat_fixed)
  have "decimal_parts (cf_amountCny r) \<noteq> None" unfolding x by (simp add: decimal_parts_fixed)
  from decimal_Inr [OF assms(1) this] show "\<exists>d. decimal lib (cf_amountCny r) = Inr d \<and> val d = amount_of r"
    unfolding amount_of_def .
qed

lemma total_in_units:
  assumes "decimal_laws lib val" and "\<forall>r \<in> set rs. printed lib r"
  shows "in_units (total_for p rs)"
  using assms(2) printed_value(1) [OF assms(1)] by (induction rs) (auto intro: in_units_add)

definition totals_match :: "('d \<Rightarrow> rat) \<Rightarrow> 'd totals \<Rightarrow> CalculationFactResult list \<Rightarrow> bool" where
  "totals_match val totals rs \<longleftrightarrow> (\<forall>k. val (totals k) = total_for (\<lambda>c. SUMMARY_KEY c = k) rs)"

lemma append_result_match:
  assumes laws: "decimal_laws lib val" and m: "totals_match val totals rs" and p: "\<forall>x \<in> set (rs @ [r]). printed lib x"
    and small: "mass (rs @ [r]) < 10 ^ 42"
  shows "\<exists>totals'. append_result lib totals r = Inr totals' \<and> totals_match val totals' (rs @ [r])"
proof -
  let ?k = "SUMMARY_KEY (cf_component r)"
  let ?q = "\<lambda>c. SUMMARY_KEY c = ?k"
  obtain d where d: "decimal lib (cf_amountCny r) = Inr d" "val d = amount_of r"
    using printed_value(2) [OF laws] p by auto
  have sum: "total_for ?q (rs @ [r]) = val (totals ?k) + val d" using m d(2) by (simp add: totals_match_def)
  have "in_units (total_for ?q (rs @ [r]))" using total_in_units [OF laws p] .
  moreover have "\<bar>total_for ?q (rs @ [r])\<bar> < 10 ^ 42" by (rule le_less_trans [OF total_for_bound small])
  ultimately have "fits (val (totals ?k) + val d)" unfolding sum by (rule in_units_fits)
  then have "val (dec_add lib (totals ?k) d) = total_for ?q (rs @ [r])" unfolding sum by (rule decimal_ops(1) [OF laws])
  with m d(1) show ?thesis by (auto simp: append_result_def totals_match_def Let_def)
qed

lemma append_all_match:
  assumes laws: "decimal_laws lib val"
  shows "totals_match val totals rs \<Longrightarrow> \<forall>x \<in> set (rs @ rs'). printed lib x \<Longrightarrow> mass (rs @ rs') < 10 ^ 42 \<Longrightarrow>
    \<exists>totals'. append_all lib rs' totals = Inr totals' \<and> totals_match val totals' (rs @ rs')"
proof (induction rs' arbitrary: rs totals)
  case (Cons r rs')
  have "mass (rs @ [r]) < 10 ^ 42" using Cons.prems(3) mass_nonneg [of rs'] unfolding mass_simps by linarith
  moreover have "\<forall>x \<in> set (rs @ [r]). printed lib x" using Cons.prems(2) by simp
  ultimately obtain totals' where t: "append_result lib totals r = Inr totals'" "totals_match val totals' (rs @ [r])"
    using append_result_match [OF laws Cons.prems(1)] by blast
  from Cons.IH [OF t(2)] Cons.prems(2,3) show ?case using t(1) by simp
qed simp

lemma append_all_append: "append_all lib (a @ b) totals = bindE (append_all lib a totals) (append_all lib b)"
  by (induction a arbitrary: totals) (auto simp: bindE_def split: sum.splits)

section \<open>From facts to lines\<close>

definition rate_ok :: "FactFxConversion \<Rightarrow> bool" where
  "rate_ok fx \<longleftrightarrow> decimal_parts (fc_rate fx) \<noteq> None \<and> places 8 20 (text_rat (fc_rate fx)) \<and> 0 < text_rat (fc_rate fx)"

definition conversion_ok :: "'z FactIdentity_scheme \<Rightarrow> FactFxConversion \<Rightarrow> bool" where
  "conversion_ok ft fx \<longleftrightarrow> rate_ok fx \<and> fc_requestedDate fx = fact_fxDate ft \<and> fc_requestedDate fx \<le> fc_hitDate fx \<and>
     fc_fallbackDays fx \<noteq> [] \<and> list_all is_digit (fc_fallbackDays fx) \<and> digits_value (fc_fallbackDays fx) \<le> 10"

fun entry_ok :: "entry \<Rightarrow> bool" where
  "entry_ok (column, component, amount, costDirection) \<longleftrightarrow> amount_text amount \<and> costDirection = (component \<noteq> INCOME)"

fun entry_value :: "FactFxConversion \<Rightarrow> entry \<Rightarrow> rat" where
  "entry_value fx (column, component, amount, costDirection) = text_rat amount * text_rat (fc_rate fx)"

fun line_of :: "'d decimal_lib \<Rightarrow> FactKind \<Rightarrow> 'z FactIdentity_scheme \<Rightarrow> FactFxConversion \<Rightarrow> entry \<Rightarrow> CalculationFactResult list" where
  "line_of lib kind ft fx (column, component, amount, costDirection) =
     (case makeResult lib kind ft column component amount fx costDirection of Inr (Some r) \<Rightarrow> [r] | _ \<Rightarrow> [])"

definition shipment_entries :: "ShipmentFact \<Rightarrow> entry list" where
  "shipment_entries ft = map (\<lambda>(field, name). (name, INCOME, sf_amounts ft field, False)) SHIPMENT_INCOME_FIELDS"

lemma conversion_accepted:
  assumes "decimal_laws lib val" and "conversion_ok ft fx"
  shows "assertConversion lib ft fx = Inr ()"
proof -
  have r: "decimal_parts (fc_rate fx) \<noteq> None" "0 < text_rat (fc_rate fx)" using assms(2) by (auto simp: conversion_ok_def rate_ok_def)
  obtain d where d: "decimal lib (fc_rate fx) = Inr d" "val d = text_rat (fc_rate fx)" using decimal_Inr [OF assms(1) r(1)] by blast
  then have "dec_isPositive lib d" using r(2) assms(1) unfolding decimal_laws_def by metis
  with d(1) assms(2) show ?thesis by (auto simp: assertConversion_def conversion_ok_def require_def not_less)
qed

definition signed :: "CalculationFactResult \<Rightarrow> rat" where
  "signed r = (if cf_component r = INCOME then amount_of r else - amount_of r)"

lemma make_line:
  assumes laws: "decimal_laws lib val" and fx: "rate_ok fx" and a: "amount_text a"
  shows "\<exists>res. makeResult lib kind ft column component a fx costDirection = Inr res \<and>
    (case res of None \<Rightarrow> text_rat a = 0
     | Some r \<Rightarrow> printed lib r \<and> cf_component r = component \<and>
        amount_of r = (if costDirection then - 1 else 1) * (of_int (scaled 8 (text_rat a * text_rat (fc_rate fx))) / 10 ^ 8))"
proof -
  obtain x where x: "decimal lib a = Inr x" "val x = text_rat a" "places 8 28 (val x)" using amount_decimal [OF laws a] by blast
  obtain y where y: "decimal lib (fc_rate fx) = Inr y" "val y = text_rat (fc_rate fx)" using decimal_Inr [OF laws] fx unfolding rate_ok_def by blast
  have "places 8 20 (val y)" using fx y by (simp add: rate_ok_def)
  from places_fits [OF places_mult [OF x(3) this]] have prod: "val (dec_mul lib x y) = text_rat a * text_rat (fc_rate fx)"
    using decimal_ops(3) [OF laws, of x y] x y by simp
  show ?thesis
  proof (cases "text_rat a = 0")
    case True
    then show ?thesis using x decimal_ops(7) [OF laws, of x] by (simp add: makeResult_def)
  next
    case False
    define z where "z = (if costDirection then dec_neg lib (dec_mul lib x y) else dec_mul lib x y)"
    have "text_rat (decimal8 lib z) = (if costDirection then - 1 else 1) * (of_int (scaled 8 (text_rat a * text_rat (fc_rate fx))) / 10 ^ 8)"
      using prod by (simp add: z_def decimal_ops(5,8) [OF laws] text_rat_fixed scaled_neg)
    moreover have "printed lib r" if "cf_amountCny r = decimal8 lib z" for r using that unfolding printed_def by blast
    ultimately show ?thesis
      using False x y by (simp add: makeResult_def Let_def amount_of_def z_def [symmetric] decimal_ops(7) [OF laws])
  qed
qed

lemma line_near:
  fixes ft :: "'z FactIdentity_scheme" and kind :: FactKind
  assumes laws: "decimal_laws lib val" and fx: "rate_ok fx" and e: "entry_ok e"
  defines "l \<equiv> line_of lib kind ft fx e"
  shows "\<forall>r \<in> set l. printed lib r" and "\<bar>(\<Sum>r\<leftarrow>l. signed r) - entry_value fx e\<bar> \<le> 1 / (2 * 10 ^ 8)" and "mass l < 10 ^ 33"
proof -
  obtain column component a cost where es: "e = (column, component, a, cost)" by (cases e) auto
  have a: "amount_text a" "cost = (component \<noteq> INCOME)" using e es by auto
  let ?v = "text_rat a * text_rat (fc_rate fx)"
  obtain res where res: "makeResult lib kind ft column component a fx cost = Inr res"
    "case res of None \<Rightarrow> text_rat a = 0 | Some r \<Rightarrow> printed lib r \<and> cf_component r = component \<and>
        amount_of r = (if cost then - 1 else 1) * (of_int (scaled 8 ?v) / 10 ^ 8)"
    using make_line [OF laws fx a(1)] by blast
  show "\<forall>r \<in> set l. printed lib r" using res by (cases res) (auto simp: l_def es)
  have near: "\<bar>of_int (scaled 8 v) / 10 ^ 8 - v\<bar> \<le> 1 / (2 * 10 ^ 8)" for v :: rat
    using scaled_nearest [of 8 v] by (simp add: abs_le_iff field_simps)
  show "\<bar>(\<Sum>r\<leftarrow>l. signed r) - entry_value fx e\<bar> \<le> 1 / (2 * 10 ^ 8)"
  proof (cases res)
    case (Some r)
    then have "(\<Sum>r\<leftarrow>l. signed r) = of_int (scaled 8 ?v) / 10 ^ 8"
      using res a(2) by (cases "component = INCOME") (auto simp: l_def es signed_def)
    with near [of ?v] show ?thesis by (simp only: es entry_value.simps)
  qed (use res in \<open>simp add: l_def es\<close>)
  have "places 16 48 ?v" using places_mult [OF amount_places [OF a(1)], of 8 20 "text_rat (fc_rate fx)"] fx by (simp add: rate_ok_def)
  then obtain n :: int where n: "\<bar>n\<bar> < 10 ^ 48" "?v = of_int n / 10 ^ 16" unfolding places_def by blast
  have "(of_int \<bar>n\<bar> :: rat) < of_int (10 ^ 48)" using n(1) unfolding of_int_less_iff .
  then have "\<bar>?v\<bar> < 10 ^ 32" unfolding n(2) by (simp add: field_simps)
  then have "\<bar>of_int (scaled 8 ?v) / 10 ^ 8\<bar> < (10 ^ 33 :: rat)"
    using near [of ?v] abs_triangle_ineq [of ?v "of_int (scaled 8 ?v) / 10 ^ 8 - ?v"] by simp
  with res show "mass l < 10 ^ 33" by (cases res; cases cost) (auto simp: l_def es abs_minus_cancel simp del: abs_divide)
qed

section \<open>Runs of the accumulator\<close>

lemma push_all_lines:
  assumes "\<And>c k a cost. (c, k, a, cost) \<in> set es \<Longrightarrow> \<exists>res. makeResult lib kind ft c k a fx cost = Inr res"
  shows "push_all lib kind ft fx es results = Inr (results @ concat (map (line_of lib kind ft fx) es))"
  using assms
proof (induction es arbitrary: results)
  case (Cons e es)
  obtain c k a cost where e: "e = (c, k, a, cost)" by (cases e) auto
  then obtain res where "makeResult lib kind ft c k a fx cost = Inr res" using Cons.prems by force
  moreover have "push_all lib kind ft fx es r = Inr (r @ concat (map (line_of lib kind ft fx) es))" for r
    by (rule Cons.IH) (use Cons.prems in auto)
  ultimately show ?case by (cases res) (simp_all add: e pushResult_def)
qed simp

lemma ship_fields_lines:
  assumes "\<And>field name. (field, name) \<in> set fs \<Longrightarrow> \<exists>res. makeResult lib SHIPMENT ft name INCOME (sf_amounts ft field) fx False = Inr res"
  defines "ls \<equiv> \<lambda>fs. concat (map (line_of lib SHIPMENT ft fx) (map (\<lambda>(field, name). (name, INCOME, sf_amounts ft field, False)) fs))"
  shows "ship_fields lib ft fx fs results totals = bindE (append_all lib (ls fs) totals) (\<lambda>t. Inr (results @ ls fs, t))"
  using assms(1)
proof (induction fs arbitrary: results totals)
  case (Cons f fs)
  obtain field name where f: "f = (field, name)" by (cases f) auto
  then obtain res where res: "makeResult lib SHIPMENT ft name INCOME (sf_amounts ft field) fx False = Inr res" using Cons.prems by force
  have ih: "ship_fields lib ft fx fs r t = bindE (append_all lib (ls fs) t) (\<lambda>u. Inr (r @ ls fs, u))" for r t
    by (rule Cons.IH) (use Cons.prems in auto)
  show ?case
  proof (cases res)
    case None
    then show ?thesis using res ih by (simp add: f ls_def)
  next
    case (Some x)
    then show ?thesis using res by (auto simp: f ls_def ih [unfolded ls_def] bindE_def split: sum.splits)
  qed
qed (simp add: ls_def)

lemma add_facts_lines:
  assumes "\<And>f t. f \<in> set fs \<Longrightarrow> add f t = bindE (append_all lib (g f) t) (\<lambda>u. Inr (g f, u))"
  shows "add_facts add fs results totals =
    bindE (append_all lib (concat (map g fs)) totals) (\<lambda>t. Inr (results @ concat (map g fs), t))"
  using assms
proof (induction fs arbitrary: results totals)
  case (Cons f fs)
  have ih: "add_facts add fs r t = bindE (append_all lib (concat (map g fs)) t) (\<lambda>u. Inr (r @ concat (map g fs), u))" for r t
    by (rule Cons.IH) (use Cons.prems in auto)
  show ?case using Cons.prems [of f totals] by (auto simp: ih append_all_append bindE_def split: sum.splits)
qed simp

text \<open>The facts of a run with their counted amounts.\<close>

definition counted :: "unicode_text \<Rightarrow> (ShipmentFact \<times> FactFxConversion) list \<Rightarrow> (TransactionFact \<times> FactFxConversion) list
    \<Rightarrow> (FactFxConversion \<times> entry) list" where
  "counted u ships trs =
     concat (map (\<lambda>(ft, fx). map (Pair fx) (shipment_entries ft)) ships) @
     concat (map (\<lambda>(ft, fx). map (Pair fx) (transaction_entries u ft)) trs)"

definition facts_ok :: "unicode_text \<Rightarrow> (ShipmentFact \<times> FactFxConversion) list \<Rightarrow> (TransactionFact \<times> FactFxConversion) list \<Rightarrow> bool" where
  "facts_ok u ships trs \<longleftrightarrow>
     list_all (\<lambda>(ft, fx). conversion_ok ft fx \<and> list_all (\<lambda>(c, k, a, cost). amount_text a) (shipment_entries ft)) ships \<and>
     list_all (\<lambda>(ft, fx). conversion_ok ft fx \<and> list_all (\<lambda>(c, k, a, cost). amount_text a) (transaction_entries u ft)) trs \<and>
     length (counted u ships trs) \<le> 10 ^ 8"

definition all_lines :: "'d decimal_lib \<Rightarrow> unicode_text \<Rightarrow> (ShipmentFact \<times> FactFxConversion) list
    \<Rightarrow> (TransactionFact \<times> FactFxConversion) list \<Rightarrow> CalculationFactResult list" where
  "all_lines lib u ships trs =
     concat (map (\<lambda>(ft, fx). concat (map (line_of lib SHIPMENT ft fx) (shipment_entries ft))) ships) @
     concat (map (\<lambda>(ft, fx). concat (map (line_of lib TRANSACTION ft fx) (transaction_entries u ft))) trs)"

lemma counted_costs: "(c, k, a, cost) \<in> set (shipment_entries ft) \<Longrightarrow> cost = (k \<noteq> INCOME)"
  "(c, k, a, cost) \<in> set (transaction_entries u tf) \<Longrightarrow> cost = (k \<noteq> INCOME)"
proof -
  have comp: "Some k = fee_component x \<Longrightarrow> k \<noteq> INCOME" for x k by (cases x) auto
  show "(c, k, a, cost) \<in> set (shipment_entries ft) \<Longrightarrow> cost = (k \<noteq> INCOME)" by (auto simp: shipment_entries_def)
  show "(c, k, a, cost) \<in> set (transaction_entries u tf) \<Longrightarrow> cost = (k \<noteq> INCOME)"
    by (auto simp: transaction_entries_def refund_entries_def Let_def split: if_split_asm option.splits dest: comp)
qed

lemma calculate_lines:
  assumes laws: "decimal_laws lib val" and ok: "facts_ok u ships trs"
  shows "calculateFinancials lib u ships trs =
    bindE (append_all lib (all_lines lib u ships trs) (new_totals lib)) (\<lambda>t. Inr (all_lines lib u ships trs, summary lib t))"
proof -
  let ?s = "\<lambda>(ft, fx). concat (map (line_of lib SHIPMENT ft fx) (shipment_entries ft))"
  let ?t = "\<lambda>(ft, fx). concat (map (line_of lib TRANSACTION ft fx) (transaction_entries u ft))"
  have made: "\<exists>res. makeResult lib kind ft c k a fx cost = Inr res" if "conversion_ok ft' fx" "amount_text a"
    for kind c k a fx cost and ft :: "'y FactIdentity_scheme" and ft' :: "'z FactIdentity_scheme"
    using make_line [OF laws, of fx a] that unfolding conversion_ok_def by blast
  have ship: "(\<lambda>(ft, fx). addShipment lib ft fx) f t = bindE (append_all lib (?s f) t) (\<lambda>v. Inr (?s f, v))" if "f \<in> set ships" for f t
  proof -
    obtain ft fx where f: "f = (ft, fx)" by (cases f)
    have c: "conversion_ok ft fx" and a: "list_all (\<lambda>(c, k, a, cost). amount_text a) (shipment_entries ft)"
      using ok that unfolding facts_ok_def f list_all_iff by fastforce+
    have "ship_fields lib ft fx SHIPMENT_INCOME_FIELDS [] t = bindE (append_all lib (?s f) t) (\<lambda>v. Inr ([] @ ?s f, v))"
      unfolding f prod.case shipment_entries_def
      by (rule ship_fields_lines, rule made [OF c]) (use a in \<open>auto simp: list_all_iff shipment_entries_def\<close>)
    then show ?thesis by (simp add: f addShipment_def conversion_accepted [OF laws c])
  qed
  have trn: "(\<lambda>(ft, fx). addTransaction lib u ft fx) f t = bindE (append_all lib (?t f) t) (\<lambda>v. Inr (?t f, v))" if "f \<in> set trs" for f t
  proof -
    obtain ft fx where f: "f = (ft, fx)" by (cases f)
    have c: "conversion_ok ft fx" and a: "list_all (\<lambda>(c, k, a, cost). amount_text a) (transaction_entries u ft)"
      using ok that unfolding facts_ok_def f list_all_iff by fastforce+
    have "transactionResults lib u ft fx = Inr (?t f)"
      unfolding transactionResults_def f prod.case
      by (subst push_all_lines, rule made [OF c]) (use a in \<open>auto simp: list_all_iff\<close>)
    then show ?thesis by (simp add: f addTransaction_def conversion_accepted [OF laws c])
  qed
  show ?thesis
    unfolding calculateFinancials_def all_lines_def append_all_append
    by (subst add_facts_lines [OF ship], assumption, subst add_facts_lines [OF trn], assumption)
      (auto simp: bindE_def split: sum.splits)
qed

lemma near_add: "\<bar>a - b\<bar> \<le> c \<Longrightarrow> \<bar>a' - b'\<bar> \<le> c' \<Longrightarrow> \<bar>(a + a') - (b + b')\<bar> \<le> c + (c' :: rat)"
  by linarith

lemma lines_near:
  fixes ft' :: "'z FactIdentity_scheme" and kind :: FactKind
  assumes laws: "decimal_laws lib val" and ok: "conversion_ok ft fx" "list_all entry_ok es"
  defines "l \<equiv> concat (map (line_of lib kind ft' fx) es)"
  shows "\<forall>r \<in> set l. printed lib r"
    and "\<bar>(\<Sum>r\<leftarrow>l. signed r) - (\<Sum>e\<leftarrow>es. entry_value fx e)\<bar> \<le> of_nat (length es) / (2 * 10 ^ 8)"
    and "mass l \<le> of_nat (length es) * 10 ^ 33"
proof -
  have fx: "rate_ok fx" using ok(1) by (simp add: conversion_ok_def)
  note one = line_near [where kind = kind and ft = ft', OF laws fx]
  show "\<forall>r \<in> set l. printed lib r" using one(1) ok(2) unfolding l_def by (auto simp: list_all_iff)
  show "\<bar>(\<Sum>r\<leftarrow>l. signed r) - (\<Sum>e\<leftarrow>es. entry_value fx e)\<bar> \<le> of_nat (length es) / (2 * 10 ^ 8)"
    using ok(2) unfolding l_def
  proof (induction es)
    case (Cons e es)
    then have "entry_ok e" "list_all entry_ok es" by simp_all
    from near_add [OF one(2) [OF this(1)] Cons.IH [OF this(2)]] show ?case by (simp add: add_divide_distrib)
  qed simp
  show "mass l \<le> of_nat (length es) * 10 ^ 33"
    using ok(2) unfolding l_def
  proof (induction es)
    case (Cons e es)
    from one(3) [of e] Cons show ?case by (simp add: ring_distribs)
  qed simp
qed

lemma runs_near:
  fixes ents :: "'z FactIdentity_scheme \<Rightarrow> entry list" and kind :: FactKind
  assumes laws: "decimal_laws lib val" and fs: "list_all (\<lambda>(ft, fx). conversion_ok ft fx \<and> list_all entry_ok (ents ft)) fs"
  defines "l \<equiv> concat (map (\<lambda>(ft, fx). concat (map (line_of lib kind ft fx) (ents ft))) fs)"
    and "es \<equiv> concat (map (\<lambda>(ft, fx). map (Pair fx) (ents ft)) fs)"
  shows "\<forall>r \<in> set l. printed lib r"
    and "\<bar>(\<Sum>r\<leftarrow>l. signed r) - (\<Sum>(fx, e)\<leftarrow>es. entry_value fx e)\<bar> \<le> of_nat (length es) / (2 * 10 ^ 8)"
    and "mass l \<le> of_nat (length es) * 10 ^ 33"
proof -
  show "\<forall>r \<in> set l. printed lib r"
  proof
    fix r assume "r \<in> set l"
    then obtain ft fx where m: "(ft, fx) \<in> set fs" "r \<in> set (concat (map (line_of lib kind ft fx) (ents ft)))" unfolding l_def by auto
    then have "conversion_ok ft fx" "list_all entry_ok (ents ft)" using fs by (auto simp: list_all_iff)
    from lines_near(1) [OF laws this] m(2) show "printed lib r" by blast
  qed
  show "\<bar>(\<Sum>r\<leftarrow>l. signed r) - (\<Sum>(fx, e)\<leftarrow>es. entry_value fx e)\<bar> \<le> of_nat (length es) / (2 * 10 ^ 8)"
    using fs unfolding l_def es_def
  proof (induction fs)
    case (Cons f fs)
    obtain ft fx where f: "f = (ft, fx)" by (cases f)
    then have "conversion_ok ft fx" "list_all entry_ok (ents ft)" using Cons.prems by auto
    moreover have "list_all (\<lambda>(ft, fx). conversion_ok ft fx \<and> list_all entry_ok (ents ft)) fs" using Cons.prems by simp
    ultimately show ?case using near_add [OF lines_near(2) [OF laws, of ft fx "ents ft" kind ft] Cons.IH]
      by (simp add: f add_divide_distrib comp_def)
  qed simp
  show "mass l \<le> of_nat (length es) * 10 ^ 33"
    using fs unfolding l_def es_def
  proof (induction fs)
    case (Cons f fs)
    obtain ft fx where f: "f = (ft, fx)" by (cases f)
    then have "conversion_ok ft fx" "list_all entry_ok (ents ft)" using Cons.prems by auto
    from lines_near(3) [OF laws this, of kind ft] Cons show ?case by (simp add: f ring_distribs)
  qed simp
qed

lemma all_lines_near:
  assumes laws: "decimal_laws lib val" and ok: "facts_ok u ships trs"
  shows "\<forall>r \<in> set (all_lines lib u ships trs). printed lib r"
    and "\<bar>(\<Sum>r\<leftarrow>all_lines lib u ships trs. signed r) - (\<Sum>(fx, e)\<leftarrow>counted u ships trs. entry_value fx e)\<bar>
      \<le> of_nat (length (counted u ships trs)) / (2 * 10 ^ 8)"
    and "mass (all_lines lib u ships trs) < 10 ^ 42"
proof -
  have eo: "list_all entry_ok es" if "list_all (\<lambda>(c, k, a, cost). amount_text a) es" "\<And>c k a cost. (c, k, a, cost) \<in> set es \<Longrightarrow> cost = (k \<noteq> INCOME)" for es
    using that by (fastforce simp: list_all_iff)
  have "conversion_ok ft fx \<and> list_all entry_ok (shipment_entries ft)" if "(ft, fx) \<in> set ships" for ft fx
  proof -
    have "conversion_ok ft fx" "list_all (\<lambda>(c, k, a, cost). amount_text a) (shipment_entries ft)"
      using ok that unfolding facts_ok_def list_all_iff [of _ ships] by fastforce+
    then show ?thesis using eo [of "shipment_entries ft"] counted_costs(1) by blast
  qed
  then have s: "list_all (\<lambda>(ft, fx). conversion_ok ft fx \<and> list_all entry_ok (shipment_entries ft)) ships"
    by (auto simp: list_all_iff [of _ ships])
  have "conversion_ok ft fx \<and> list_all entry_ok (transaction_entries u ft)" if "(ft, fx) \<in> set trs" for ft fx
  proof -
    have "conversion_ok ft fx" "list_all (\<lambda>(c, k, a, cost). amount_text a) (transaction_entries u ft)"
      using ok that unfolding facts_ok_def list_all_iff [of _ trs] by fastforce+
    then show ?thesis using eo [of "transaction_entries u ft"] counted_costs(2) by blast
  qed
  then have t: "list_all (\<lambda>(ft, fx). conversion_ok ft fx \<and> list_all entry_ok (transaction_entries u ft)) trs"
    by (auto simp: list_all_iff [of _ trs])
  note rs = runs_near [where kind = SHIPMENT, OF laws s] and rt = runs_near [where kind = TRANSACTION, OF laws t]
  show "\<forall>r \<in> set (all_lines lib u ships trs). printed lib r" using rs(1) rt(1) by (simp only: all_lines_def set_append ball_Un)
  show "\<bar>(\<Sum>r\<leftarrow>all_lines lib u ships trs. signed r) - (\<Sum>(fx, e)\<leftarrow>counted u ships trs. entry_value fx e)\<bar>
      \<le> of_nat (length (counted u ships trs)) / (2 * 10 ^ 8)"
    using near_add [OF rs(2) rt(2)] unfolding all_lines_def counted_def by (simp add: add_divide_distrib)
  have "mass (all_lines lib u ships trs) \<le> of_nat (length (counted u ships trs)) * 10 ^ 33"
    using rs(3) rt(3) unfolding all_lines_def counted_def by (simp add: ring_distribs)
  moreover have "(of_nat (length (counted u ships trs)) :: rat) \<le> of_nat (10 ^ 8)"
    using ok unfolding facts_ok_def of_nat_le_iff by simp
  ultimately show "mass (all_lines lib u ships trs) < 10 ^ 42" by simp
qed

section \<open>The statement\<close>

fun summary_field :: "SummaryKey \<Rightarrow> FinancialSummary \<Rightarrow> string" where
  "summary_field K_income s = fs_income s"
| "summary_field K_refund s = fs_refund s"
| "summary_field K_withheldTax s = fs_withheldTax s"
| "summary_field K_platformFee s = fs_platformFee s"
| "summary_field K_fbaFulfillmentFee s = fs_fbaFulfillmentFee s"
| "summary_field K_advertisingFee s = fs_advertisingFee s"
| "summary_field K_fbaStorageFee s = fs_fbaStorageFee s"
| "summary_field K_otherDeduction s = fs_otherDeduction s"

lemma or_zero_fixed: "or_zero (fixed_text k r) = fixed_text k r"
  by (simp add: or_zero_def fixed_text_def Let_def)

lemma summary_fields:
  assumes laws: "decimal_laws lib val"
  shows "summary_field k (summary lib totals) = fixed_text 8 (val (totals k))"
  by (cases k) (simp_all add: summary_def decimal_ops(8) [OF laws] or_zero_fixed)

lemma sub_all:
  assumes laws: "decimal_laws lib val" and m: "totals_match val totals rs"
    and p: "\<forall>r \<in> set rs. printed lib r" and small: "mass rs < 10 ^ 42"
  shows "val b = total_for P rs - total_for Q rs \<Longrightarrow> (\<forall>c. \<not> (P c \<and> Q c)) \<Longrightarrow> distinct ks \<Longrightarrow> (\<forall>k \<in> set ks. \<forall>c. SUMMARY_KEY c = k \<longrightarrow> \<not> P c \<and> \<not> Q c) \<Longrightarrow>
    val (foldl (\<lambda>b k. dec_sub lib b (totals k)) b ks) = total_for P rs - total_for (\<lambda>c. Q c \<or> SUMMARY_KEY c \<in> set ks) rs"
proof (induction ks arbitrary: b Q)
  case (Cons k ks)
  let ?Q = "\<lambda>c. Q c \<or> SUMMARY_KEY c = k"
  have split: "total_for ?Q rs = total_for Q rs + total_for (\<lambda>c. SUMMARY_KEY c = k) rs" if "\<forall>c. SUMMARY_KEY c = k \<longrightarrow> \<not> Q c" for rs
    using that by (induction rs) auto
  have two: "\<bar>total_for P rs - total_for R rs\<bar> \<le> mass rs" if "\<forall>c. \<not> (P c \<and> R c)" for R rs
    using that by (induction rs) auto
  have next_: "val b - val (totals k) = total_for P rs - total_for ?Q rs"
    using Cons.prems(1,4) m split [of rs] by (simp add: totals_match_def)
  have "in_units (total_for P rs - total_for ?Q rs)"
    by (intro in_units_diff total_in_units [OF laws p])
  moreover have "\<bar>total_for P rs - total_for ?Q rs\<bar> < 10 ^ 42"
    by (rule le_less_trans [OF two small]) (use Cons.prems(2,4) in auto)
  ultimately have "fits (val b - val (totals k))" unfolding next_ by (rule in_units_fits)
  then have "val (dec_sub lib b (totals k)) = total_for P rs - total_for ?Q rs"
    unfolding next_ [symmetric] by (rule decimal_ops(2) [OF laws])
  moreover have "\<forall>c. \<not> (P c \<and> ?Q c)" "distinct ks" using Cons.prems(2,3,4) by auto
  moreover have "\<forall>k' \<in> set ks. \<forall>c. SUMMARY_KEY c = k' \<longrightarrow> \<not> P c \<and> \<not> ?Q c" using Cons.prems(3,4) by auto
  ultimately have "val (foldl (\<lambda>b k. dec_sub lib b (totals k)) (dec_sub lib b (totals k)) ks) =
      total_for P rs - total_for (\<lambda>c. ?Q c \<or> SUMMARY_KEY c \<in> set ks) rs" by (rule Cons.IH)
  moreover have "(\<lambda>c. ?Q c \<or> SUMMARY_KEY c \<in> set ks) = (\<lambda>c. Q c \<or> SUMMARY_KEY c \<in> set (k # ks))" by auto
  ultimately show ?case by simp
qed simp

lemma balance_total:
  assumes laws: "decimal_laws lib val" and m: "totals_match val totals rs"
    and p: "\<forall>r \<in> set rs. printed lib r" and small: "mass rs < 10 ^ 42"
  shows "val (balance_of_totals lib totals) = (\<Sum>r\<leftarrow>rs. signed r) \<and> in_units (\<Sum>r\<leftarrow>rs. signed r)"
proof -
  let ?ks = "[K_refund, K_withheldTax, K_platformFee, K_fbaFulfillmentFee, K_advertisingFee, K_fbaStorageFee, K_otherDeduction]"
  let ?P = "\<lambda>c. SUMMARY_KEY c = K_income"
  have keys: "SUMMARY_KEY c = K_income \<longleftrightarrow> c = INCOME" "SUMMARY_KEY c \<in> set ?ks \<longleftrightarrow> c \<noteq> INCOME" for c by (cases c; simp)+
  have "val (totals K_income) = total_for ?P rs - total_for (\<lambda>_. False) rs" using m by (simp add: totals_match_def total_for_def)
  then have v: "val (balance_of_totals lib totals) = total_for ?P rs - total_for (\<lambda>c. False \<or> SUMMARY_KEY c \<in> set ?ks) rs"
    unfolding balance_of_totals_def by (rule sub_all [OF laws m p small]) auto
  have s: "(\<Sum>r\<leftarrow>rs. signed r) = total_for (\<lambda>c. c = INCOME) rs - total_for (\<lambda>c. c \<noteq> INCOME) rs" for rs
    by (induction rs) (auto simp: signed_def)
  have "in_units (\<Sum>r\<leftarrow>rs. signed r)" unfolding s by (intro in_units_diff total_in_units [OF laws p])
  with v show ?thesis unfolding s keys simp_thms by simp
qed

lemma calculated:
  assumes laws: "decimal_laws lib val" and ok: "facts_ok u ships trs"
  shows "\<exists>totals. calculateFinancials lib u ships trs = Inr (all_lines lib u ships trs, summary lib totals) \<and>
    totals_match val totals (all_lines lib u ships trs)"
proof -
  note near = all_lines_near [OF laws ok]
  have "totals_match val (new_totals lib) []" using decimal_ops(9) [OF laws, of 0] by (simp add: totals_match_def new_totals_def)
  from append_all_match [OF laws this, of "all_lines lib u ships trs"] near(1,3)
  obtain totals where "append_all lib (all_lines lib u ships trs) (new_totals lib) = Inr totals"
    "totals_match val totals (all_lines lib u ships trs)" by auto
  then show ?thesis using calculate_lines [OF laws ok] by (intro exI [of _ totals]) simp
qed

lemma in_units_printed: "in_units x \<Longrightarrow> text_rat (fixed_text 8 x) = x"
proof -
  assume "in_units x"
  then obtain n :: int where "x * 10 ^ 8 = of_int n" unfolding in_units_def by auto
  from scaled_exact [OF this] this show ?thesis by (simp add: text_rat_fixed field_simps)
qed

text \<open>C29: for facts whose amounts have at most 20 digits before and eight behind the point, at rates of at most
  twelve digits before the point, the statement is drawn up, and it adds up: each of the eight totals is
  exactly the sum of its lines, no line is counted twice or left out, and the balance is exactly the income
  less the seven kinds of costs.\<close>

theorem income_statement_adds_up:
  assumes laws: "decimal_laws lib val" and ok: "facts_ok u ships trs"
  shows "\<exists>results s. calculateFinancials lib u ships trs = Inr (results, s) \<and>
    (\<forall>k. text_rat (summary_field k s) = total_for (\<lambda>c. SUMMARY_KEY c = k) results) \<and>
    text_rat (fs_platformBalance s) = total_for (\<lambda>c. c = INCOME) results - total_for (\<lambda>c. c \<noteq> INCOME) results"
proof -
  note near = all_lines_near [OF laws ok]
  obtain totals where c: "calculateFinancials lib u ships trs = Inr (all_lines lib u ships trs, summary lib totals)"
    and m: "totals_match val totals (all_lines lib u ships trs)" using calculated [OF laws ok] by blast
  have s: "(\<Sum>r\<leftarrow>rs. signed r) = total_for (\<lambda>c. c = INCOME) rs - total_for (\<lambda>c. c \<noteq> INCOME) rs" for rs
    by (induction rs) (auto simp: signed_def)
  have "text_rat (summary_field k (summary lib totals)) = total_for (\<lambda>c. SUMMARY_KEY c = k) (all_lines lib u ships trs)" for k
    using m in_units_printed [OF total_in_units [OF laws near(1)]] by (simp add: summary_fields [OF laws] totals_match_def)
  moreover have "text_rat (fs_platformBalance (summary lib totals)) = (\<Sum>r\<leftarrow>all_lines lib u ships trs. signed r)"
    using balance_total [OF laws m near(1,3)] in_units_printed by (simp add: summary_def decimal_ops(8) [OF laws])
  ultimately show ?thesis unfolding s using c by blast
qed

text \<open>C30: the balance is the sum of all counted amounts, each at the rate of its fact, up to half a unit of the
  eighth place for every amount: of shipments their eight amounts, of merchant-fulfilled orders and of refunds
  the nine sales amounts, and of every transaction the withheld tax and its fees, except other amounts of
  transfers and debts.\<close>

theorem balance_accurate:
  assumes laws: "decimal_laws lib val" and ok: "facts_ok u ships trs"
  shows "\<exists>results s. calculateFinancials lib u ships trs = Inr (results, s) \<and>
    \<bar>text_rat (fs_platformBalance s) - (\<Sum>(fx, e)\<leftarrow>counted u ships trs. entry_value fx e)\<bar>
      \<le> of_nat (length (counted u ships trs)) / (2 * 10 ^ 8)"
proof -
  note near = all_lines_near [OF laws ok]
  obtain totals where c: "calculateFinancials lib u ships trs = Inr (all_lines lib u ships trs, summary lib totals)"
    and m: "totals_match val totals (all_lines lib u ships trs)" using calculated [OF laws ok] by blast
  have "text_rat (fs_platformBalance (summary lib totals)) = (\<Sum>r\<leftarrow>all_lines lib u ships trs. signed r)"
    using balance_total [OF laws m near(1,3)] in_units_printed by (simp add: summary_def decimal_ops(8) [OF laws])
  with near(2) c show ?thesis by auto
qed

section \<open>A sample\<close>

definition ascii_unicode :: unicode_text where
  "ascii_unicode = \<lparr> ut_nfkc = id, ut_lower = map (\<lambda>c. if 65 \<le> c \<and> c \<le> 90 then c + 32 else c),
     ut_upper = map (\<lambda>c. if 97 \<le> c \<and> c \<le> 122 then c - 32 else c),
     ut_alnum = (\<lambda>c. 48 \<le> c \<and> c \<le> 57 \<or> 65 \<le> c \<and> c \<le> 90 \<or> 97 \<le> c \<and> c \<le> 122) \<rparr>"

definition sample_fx :: FactFxConversion where
  "sample_fx = \<lparr> fc_requestedDate = ''2024-02-10'', fc_hitDate = ''2024-02-12'', fc_fallbackDays = ''2'', fc_rate = ''7.2'',
     fc_quoteIds = [''q''], fc_overrideIds = None \<rparr>"

definition sample_shipment :: ShipmentFact where
  "sample_shipment = \<lparr> fact_id = ''1'', fact_datasetVersionId = ''v'', fact_sourceFileId = ''f'', fact_rowNumber = ''1'',
     fact_rowHash = ''h'', fact_marketplace = ''US'', fact_localMonth = ''2024-02'', fact_currency = ''USD'',
     fact_fxDate = ''2024-02-10'', sf_shippedQuantity = ''1'',
     sf_amounts = (\<lambda>f. if f = productPrice then ''19.99'' else ''0'') \<rparr>"

definition sample_transaction :: TransactionFact where
  "sample_transaction = \<lparr> fact_id = ''2'', fact_datasetVersionId = ''v'', fact_sourceFileId = ''f'', fact_rowNumber = ''2'',
     fact_rowHash = ''h'', fact_marketplace = ''US'', fact_localMonth = ''2024-02'', fact_currency = ''USD'',
     fact_fxDate = ''2024-02-10'', tf_type = points ''Transfer'', tf_description = [], tf_fulfillmentMode = Mode_BLANK,
     tf_amounts = (\<lambda>_. ''0''), tf_promotionalRebatesTax = ''0'', tf_marketplaceWithheldTax = ''0'',
     tf_fees = (\<lambda>c. if c = other_column then ''-500'' else ''-3'') \<rparr>"

lemma sample_type: "canonicalTransactionType ascii_unicode (points ''Transfer'') = points ''TRANSFER''"
  "canonicalTransactionType ascii_unicode (points ''TRANSFER'') = points ''TRANSFER''"
  by (simp_all add: canonicalTransactionType_def words_def ascii_unicode_def trim_points_def space_point_def points_def Let_def
      refundTypes_def orderTypes_def inventoryFeeReversalTypes_def inventoryFeeCorrectionTypes_def inventoryTokens_def
      contains_word_def transferTypes_def upt_rec)

lemma sample_description: "canonicalTransactionDescription ascii_unicode [] = []"
  by (simp add: canonicalTransactionDescription_def words_def code_name_def ascii_unicode_def trim_points_def
      advertisingChargeDescriptions_def points_def)

lemma sample_entries:
  "transaction_entries ascii_unicode sample_transaction =
     [(''marketplaceWithheldTax'', WITHHELD_TAX, ''0'', True), (''sellingFees'', PLATFORM_FEE, ''-3'', True),
      (''fbaFees'', FBA_FULFILLMENT_FEE, ''-3'', True), (''otherTransactionFees'', OTHER_DEDUCTION, ''-3'', True)]"
  by (simp add: transaction_entries_def refund_entries_def classifyFeeCell_def Let_def sample_transaction_def sample_type
      sample_description points_eq_iff points_eq_iff [of "[]", unfolded points_def [of "[]"], simplified])

lemma sample_facts: "facts_ok ascii_unicode [(sample_shipment, sample_fx)] [(sample_transaction, sample_fx)]"
proof -
  have r: "text_rat ''7.2'' = of_int 720000000 / 10 ^ 8" "decimal_parts ''7.2'' = Some (False, ''7'', ''2'')"
    by (simp_all add: text_rat_def decimal_parts_def is_digit_def digits_value_def digit_value_def)
  have "places 8 20 (text_rat ''7.2'')" unfolding places_def r by (intro exI [of _ 720000000]) simp
  then have "rate_ok sample_fx" by (simp add: rate_ok_def sample_fx_def r)
  then have "conversion_ok sample_shipment sample_fx" "conversion_ok sample_transaction sample_fx"
    by (simp_all add: conversion_ok_def sample_fx_def sample_shipment_def sample_transaction_def is_digit_def digits_value_def digit_value_def)
  moreover have "amount_text ''0''" "amount_text ''-3''" "amount_text ''19.99''"
    by (simp_all add: amount_text_def decimal_parts_def is_digit_def)
  ultimately show ?thesis
    by (simp add: facts_ok_def counted_def sample_entries shipment_entries_def SHIPMENT_INCOME_FIELDS_def sample_shipment_def)
qed

lemma income_statement_adds_up_witness:
  "\<exists>results s. calculateFinancials rat_lib ascii_unicode [(sample_shipment, sample_fx)] [(sample_transaction, sample_fx)] = Inr (results, s) \<and>
    text_rat (fs_refund s) = total_for (\<lambda>c. SUMMARY_KEY c = K_refund) results"
proof -
  obtain results s where "calculateFinancials rat_lib ascii_unicode [(sample_shipment, sample_fx)] [(sample_transaction, sample_fx)] = Inr (results, s)"
    and "\<forall>k. text_rat (summary_field k s) = total_for (\<lambda>c. SUMMARY_KEY c = k) results"
    using income_statement_adds_up [OF rat_lib_laws sample_facts] by blast
  from this(1) spec [OF this(2), of K_refund] show ?thesis by auto
qed

lemma balance_accurate_witness:
  "\<exists>results s. calculateFinancials rat_lib ascii_unicode [(sample_shipment, sample_fx)] [(sample_transaction, sample_fx)] = Inr (results, s) \<and>
    \<bar>text_rat (fs_platformBalance s) - (\<Sum>(fx, e)\<leftarrow>counted ascii_unicode [(sample_shipment, sample_fx)] [(sample_transaction, sample_fx)]. entry_value fx e)\<bar> \<le> 12 / (2 * 10 ^ 8)"
proof -
  have "length (counted ascii_unicode [(sample_shipment, sample_fx)] [(sample_transaction, sample_fx)]) = 12"
    by (simp add: counted_def sample_entries shipment_entries_def SHIPMENT_INCOME_FIELDS_def)
  then show ?thesis using balance_accurate [OF rat_lib_laws sample_facts] by simp
qed

end
