(* ===== verification/ImportRows.thy ===== *)
theory ImportRows
  imports Fees
begin

text \<open>
  The cells of an imported report: \<open>src/modules/imports/normalize-row.ts\<close> - the marketplace of a row, the one
  site of a report, amounts in any locale, the mode of fulfilment. Cells are lists of code points. Reading
  dates is left out.
\<close>

record cell_text = unicode_text +
  ut_currency :: "nat \<Rightarrow> bool"

section \<open>Marketplaces\<close>

text \<open>
  The table is a JavaScript object, so the lookup also finds what every object inherits: of those names
  \<open>constructor\<close> and \<open>__proto__\<close> survive the lower case, and give a profile without any of its fields.
\<close>

record MarketplaceProfile =
  mp_code :: "string option"
  mp_sourceTimezone :: "string option"
  mp_currency :: "string option"
  mp_nonAmazon :: bool

definition MARKETPLACES :: "(string \<times> string \<times> string \<times> string) list" where
  "MARKETPLACES =
     [(''amazon.com'', ''US'', ''America/Los_Angeles'', ''USD''),
      (''sim1.stores.amazon.com'', ''US'', ''America/Los_Angeles'', ''USD''),
      (''amazon.ca'', ''CA'', ''America/Toronto'', ''CAD''),
      (''amazon.com.mx'', ''MX'', ''America/Mexico_City'', ''MXN''),
      (''amazon.com.br'', ''BR'', ''America/Sao_Paulo'', ''BRL''),
      (''amazon.com.au'', ''AU'', ''Australia/Sydney'', ''AUD''),
      (''amazon.co.uk'', ''UK'', ''Europe/London'', ''GBP''),
      (''amazon.de'', ''DE'', ''Europe/Berlin'', ''EUR''),
      (''amazon.fr'', ''FR'', ''Europe/Paris'', ''EUR''),
      (''amazon.it'', ''IT'', ''Europe/Rome'', ''EUR''),
      (''amazon.es'', ''ES'', ''Europe/Madrid'', ''EUR''),
      (''amazon.nl'', ''NL'', ''Europe/Amsterdam'', ''EUR''),
      (''amazon.com.be'', ''BE'', ''Europe/Brussels'', ''EUR''),
      (''amazon.ie'', ''IE'', ''Europe/Dublin'', ''EUR''),
      (''amazon.se'', ''SE'', ''Europe/Stockholm'', ''SEK''),
      (''amazon.pl'', ''PL'', ''Europe/Warsaw'', ''PLN''),
      (''amazon.co.jp'', ''JP'', ''Asia/Tokyo'', ''JPY''),
      (''amazon.jp'', ''JP'', ''Asia/Tokyo'', ''JPY''),
      (''amazon.ae'', ''AE'', ''Asia/Dubai'', ''AED''),
      (''amazon.sa'', ''SA'', ''Asia/Riyadh'', ''SAR''),
      (''amazon.com.tr'', ''TR'', ''Europe/Istanbul'', ''TRY'')]"

definition inherited_names :: "string list" where
  "inherited_names = [''constructor'', ''__proto__'']"

fun lookup_marketplace :: "code_points \<Rightarrow> (string \<times> string \<times> string \<times> string) list \<Rightarrow> (string \<times> string \<times> string) option" where
  "lookup_marketplace key [] = None"
| "lookup_marketplace key ((k, p) # t) = (if points k = key then Some p else lookup_marketplace key t)"

definition strip_prefix :: "string \<Rightarrow> code_points \<Rightarrow> code_points" where
  "strip_prefix p v = (if take (length p) v = points p then drop (length p) v else v)"

text \<open>\<open>/^https?:\/\//\<close> and \<open>/\/$/\<close>.\<close>

definition strip_url :: "code_points \<Rightarrow> code_points" where
  "strip_url v =
     (let w = (if take 8 v = points ''https://'' then drop 8 v else strip_prefix ''http://'' v) in
      if w \<noteq> [] \<and> last w = 47 then butlast w else w)"

definition marketplaceProfile :: "'z cell_text_scheme \<Rightarrow> code_points \<Rightarrow> MarketplaceProfile result" where
  "marketplaceProfile u v =
     (let key = strip_url (ut_lower u (trim_points (ut_nfkc u v))) in
      if list_ex (contains_word key) [points ''nonamazon'', points ''non-amazon'', points ''non amazon'']
      then Inr \<lparr> mp_code = Some ''NON_AMAZON'', mp_sourceTimezone = Some ''UTC'', mp_currency = Some ''CNY'', mp_nonAmazon = True \<rparr>
      else if key \<in> points ` set inherited_names
      then Inr \<lparr> mp_code = None, mp_sourceTimezone = None, mp_currency = None, mp_nonAmazon = False \<rparr>
      else case lookup_marketplace key MARKETPLACES of
        None \<Rightarrow> Inl (PlainError ''IMPORT_UNKNOWN_MARKETPLACE'')
      | Some (code, zone, currency) \<Rightarrow>
          Inr \<lparr> mp_code = Some code, mp_sourceTimezone = Some zone, mp_currency = Some currency, mp_nonAmazon = False \<rparr>)"

section \<open>The site of a report\<close>

record site_inference =
  si_profile :: "MarketplaceProfile option"
  si_mixed :: bool

definition no_site :: site_inference where
  "no_site = \<lparr> si_profile = None, si_mixed = False \<rparr>"

definition observe :: "'z cell_text_scheme \<Rightarrow> code_points \<Rightarrow> site_inference \<Rightarrow> site_inference" where
  "observe u v s =
     (if trim_points (ut_nfkc u v) = [] then s
      else case marketplaceProfile u v of
        Inl _ \<Rightarrow> s
      | Inr candidate \<Rightarrow>
          if mp_nonAmazon candidate then s
          else case si_profile s of
            Some p \<Rightarrow> if mp_code p \<noteq> mp_code candidate then s\<lparr>si_mixed := True\<rparr> else s\<lparr>si_profile := Some candidate\<rparr>
          | None \<Rightarrow> s\<lparr>si_profile := Some candidate\<rparr>)"

definition resolve_site :: "site_inference \<Rightarrow> MarketplaceProfile option" where
  "resolve_site s = (if si_mixed s then None else si_profile s)"

section \<open>Amounts\<close>

definition value_required :: err where "value_required = PlainError ''IMPORT_FINANCIAL_VALUE_REQUIRED''"
definition value_invalid :: err where "value_invalid = PlainError ''IMPORT_FINANCIAL_VALUE_INVALID''"

definition line_end :: "nat \<Rightarrow> bool" where
  "line_end c \<longleftrightarrow> c \<in> {10, 13, 8232, 8233}"

text \<open>\<open>/^\(.*\)$/\<close>: the dot matches no line end.\<close>

definition parenthesized :: "code_points \<Rightarrow> bool" where
  "parenthesized v \<longleftrightarrow> 2 \<le> length v \<and> hd v = 40 \<and> last v = 41 \<and> list_all (\<lambda>c. \<not> line_end c) (butlast (tl v))"

definition letter_point :: "nat \<Rightarrow> bool" where
  "letter_point c \<longleftrightarrow> 65 \<le> c \<and> c \<le> 90 \<or> 97 \<le> c \<and> c \<le> 122"

definition drop_leading_sign :: "(nat \<Rightarrow> bool) \<Rightarrow> code_points \<Rightarrow> code_points" where
  "drop_leading_sign sc v = (case v of [] \<Rightarrow> [] | c # t \<Rightarrow> if sc c then dropWhile space_point t else v)"

definition drop_leading_code :: "code_points \<Rightarrow> code_points" where
  "drop_leading_code v =
     (if 3 < length v \<and> list_all letter_point (take 3 v) \<and> space_point (v ! 3) then dropWhile space_point (drop 3 v) else v)"

text \<open>The five replacements that take away the currency and all blanks.\<close>

definition strip_money :: "'z cell_text_scheme \<Rightarrow> code_points \<Rightarrow> code_points" where
  "strip_money u v =
     (let a = drop_leading_sign (ut_currency u) v;
          b = rev (drop_leading_sign (ut_currency u) (rev a));
          c = drop_leading_code b;
          d = rev (drop_leading_code (rev c)) in
      filter (\<lambda>x. \<not> space_point x) d)"

definition last_index :: "nat \<Rightarrow> code_points \<Rightarrow> int" where
  "last_index c v = int (length v) - 1 - int (length (takeWhile (\<lambda>x. x \<noteq> c) (rev v)))"

fun replace_first :: "nat \<Rightarrow> nat \<Rightarrow> code_points \<Rightarrow> code_points" where
  "replace_first a b [] = []"
| "replace_first a b (c # v) = (if c = a then b # v else c # replace_first a b v)"

text \<open>Which of comma (44) and point (46) separates the decimals.\<close>

definition decimal_point :: "code_points \<Rightarrow> code_points" where
  "decimal_point v =
     (let comma = last_index 44 v; dot = last_index 46 v in
      if comma \<ge> 0 \<and> dot \<ge> 0
      then (if comma > dot then replace_first 44 46 (filter (\<lambda>c. c \<noteq> 46) v) else filter (\<lambda>c. c \<noteq> 44) v)
      else if comma \<ge> 0
      then (if int (length v) - comma - 1 = 3 then filter (\<lambda>c. c \<noteq> 44) v else replace_first 44 46 v)
      else v)"

definition number_point :: "nat \<Rightarrow> bool" where
  "number_point c \<longleftrightarrow> digit_point c \<or> c \<in> {46, 44, 43, 45}"

definition read_number :: "'d decimal_lib \<Rightarrow> bool \<Rightarrow> code_points \<Rightarrow> string result" where
  "read_number lib negative v =
     (let w = digits_text (decimal_point v) in
      if number_parts w = None then Inl value_invalid
      else case dec_parse lib w of
        None \<Rightarrow> Inl value_invalid
      | Some parsed \<Rightarrow> Inr (dec_fixed lib 8 (if negative then dec_neg lib parsed else parsed)))"

definition normalizedDecimal :: "'d decimal_lib \<Rightarrow> 'z cell_text_scheme \<Rightarrow> code_points option \<Rightarrow> string result" where
  "normalizedDecimal lib u input =
     (let value = trim_points (map (\<lambda>c. if c = 8722 then 45 else c) (ut_nfkc u (case input of None \<Rightarrow> [] | Some v \<Rightarrow> v))) in
      if value = [] \<or> value = [45] then Inl value_required
      else
        let negative = parenthesized value in
        if \<not> negative \<and> (40 \<in> set value \<or> 41 \<in> set value) then Inl value_invalid
        else
          let number = strip_money u (if negative then trim_points (butlast (tl value)) else value) in
          if \<not> list_ex digit_point number \<or> \<not> list_all number_point number \<or> negative \<and> number \<noteq> [] \<and> hd number \<in> {43, 45}
          then Inl value_invalid
          else read_number lib negative number)"

definition normalizedSparseDecimal :: "'d decimal_lib \<Rightarrow> 'z cell_text_scheme \<Rightarrow> code_points option \<Rightarrow> string result" where
  "normalizedSparseDecimal lib u input =
     (let value = trim_points (ut_nfkc u (case input of None \<Rightarrow> [] | Some v \<Rightarrow> v)) in
      if value = [] \<or> value = [45] then Inr ''0.00000000'' else normalizedDecimal lib u (Some value))"

section \<open>Fulfilment\<close>

datatype ImportFulfillment = Fulfil_AMAZON | Fulfil_MERCHANT | Fulfil_BLANK

definition normalizeFulfillment :: "'z cell_text_scheme \<Rightarrow> code_points option \<Rightarrow> ImportFulfillment" where
  "normalizeFulfillment u input =
     (let value = ut_lower u (trim_points (ut_nfkc u (case input of None \<Rightarrow> [] | Some v \<Rightarrow> v))) in
      if value = [] then Fulfil_BLANK else if value = points ''amazon'' then Fulfil_AMAZON else Fulfil_MERCHANT)"

end
