(* ===== verification/ImportProps.thy ===== *)
theory ImportProps
  imports ImportRows FxProps
begin

text \<open>
  Amounts are read alike in the notations of the countries, and the site of a report is the only one its rows
  name.
\<close>

section \<open>The site of a report\<close>

definition candidates :: "'z cell_text_scheme \<Rightarrow> code_points list \<Rightarrow> MarketplaceProfile list" where
  "candidates u rows = concat (map (\<lambda>v. if trim_points (ut_nfkc u v) = [] then []
     else case marketplaceProfile u v of Inl _ \<Rightarrow> [] | Inr p \<Rightarrow> if mp_nonAmazon p then [] else [p]) rows)"

definition site_inv :: "MarketplaceProfile list \<Rightarrow> site_inference \<Rightarrow> bool" where
  "site_inv cs s \<longleftrightarrow> map_option mp_code (si_profile s) = (case cs of [] \<Rightarrow> None | p # _ \<Rightarrow> Some (mp_code p)) \<and>
     (si_mixed s \<longleftrightarrow> (\<exists>c \<in> set cs. mp_code c \<noteq> mp_code (hd cs)))"

lemma site_inv_observe:
  assumes "site_inv cs s"
  shows "site_inv (cs @ candidates u [v]) (observe u v s)"
proof (cases "candidates u [v]")
  case Nil
  then have "observe u v s = s" by (auto simp: candidates_def observe_def split: if_split_asm sum.splits)
  with Nil assms show ?thesis by simp
next
  case (Cons p ps)
  then have p: "trim_points (ut_nfkc u v) \<noteq> []" "marketplaceProfile u v = Inr p" "\<not> mp_nonAmazon p" "ps = []"
    by (auto simp: candidates_def split: if_split_asm sum.splits)
  then show ?thesis using assms Cons
    by (cases cs) (auto simp: observe_def site_inv_def split: option.splits)
qed

lemma site_inv_fold: "site_inv cs s \<Longrightarrow> site_inv (cs @ candidates u rows) (fold (observe u) rows s)"
proof (induction rows arbitrary: cs s)
  case (Cons v rows)
  have "candidates u (v # rows) = candidates u [v] @ candidates u rows" by (simp add: candidates_def)
  with Cons.IH [OF site_inv_observe [OF Cons.prems, of u v]] show ?case by simp
qed (simp add: candidates_def)

lemma distinct_one: "distinct xs \<Longrightarrow> set xs = {a} \<Longrightarrow> xs = [a]"
proof (cases xs)
  case (Cons b t)
  assume "distinct xs" "set xs = {a}"
  with Cons have "b = a" "set t \<subseteq> {a}" "a \<notin> set t" by auto
  then show ?thesis using Cons by (cases t) auto
qed simp

lemma no_single: "(\<And>x. ys \<noteq> [x]) \<Longrightarrow> (case ys of [x] \<Rightarrow> Some x | _ \<Rightarrow> None) = None"
  by (cases ys; cases "tl ys") auto

text \<open>the site inferred for a report is the code all its known Amazon rows name, and none as soon as two rows
  name different ones, in whatever order the rows come.\<close>

theorem site_is_the_only_one:
  "map_option mp_code (resolve_site (fold (observe u) rows no_site)) =
     (case remdups (map mp_code (candidates u rows)) of [c] \<Rightarrow> Some c | _ \<Rightarrow> None)"
proof -
  let ?cs = "candidates u rows" and ?s = "fold (observe u) rows no_site"
  have "site_inv [] no_site" by (simp add: site_inv_def no_site_def)
  from site_inv_fold [OF this, of u rows] have inv: "site_inv ?cs ?s" by simp
  show ?thesis
  proof (cases ?cs)
    case Nil
    then show ?thesis using inv by (auto simp: site_inv_def resolve_site_def)
  next
    case (Cons p ps)
    show ?thesis
    proof (cases "\<forall>c \<in> set ?cs. mp_code c = mp_code p")
      case True
      then have "set (remdups (map mp_code ?cs)) = {mp_code p}" using Cons by auto
      then have one: "remdups (map mp_code ?cs) = [mp_code p]"
        by (rule distinct_one [OF distinct_remdups])
      have "map_option mp_code (resolve_site ?s) = Some (mp_code p)"
        unfolding resolve_site_def
      proof (subst if_not_P)
        show "\<not> si_mixed ?s" using inv True unfolding site_inv_def Cons list.sel by blast
        show "map_option mp_code (si_profile ?s) = Some (mp_code p)" using inv by (simp add: site_inv_def Cons)
      qed
      then show ?thesis unfolding one by simp
    next
      case False
      then obtain c where c: "c \<in> set ?cs" "mp_code c \<noteq> mp_code p" by blast
      have both: "{mp_code c, mp_code p} \<subseteq> set (remdups (map mp_code ?cs))" using c Cons by auto
      have "remdups (map mp_code ?cs) \<noteq> [x]" for x
      proof
        assume one: "remdups (map mp_code ?cs) = [x]"
        from both [unfolded one] c(2) show False by simp
      qed
      then have "(case remdups (map mp_code ?cs) of [x] \<Rightarrow> Some x | _ \<Rightarrow> None) = None" by (rule no_single)
      moreover have "resolve_site ?s = None" using inv Cons c by (auto simp: site_inv_def resolve_site_def)
      ultimately show ?thesis by (simp only: option.map)
    qed
  qed
qed

section \<open>Amounts\<close>

lemma last_index_absent: "c \<notin> set v \<Longrightarrow> last_index c v = - 1"
  by (subst last_index_def, subst takeWhile_eq_all_conv [THEN iffD2]) auto

lemma last_index_at: "c \<notin> set q \<Longrightarrow> last_index c (p @ c # q) = int (length p)"
proof -
  assume "c \<notin> set q"
  then have "takeWhile (\<lambda>x. x \<noteq> c) (rev q @ c # rev p) = rev q" by (subst takeWhile_append2) auto
  then show ?thesis by (simp add: last_index_def)
qed

lemma last_index_split: "c \<in> set p \<Longrightarrow> \<exists>a b. p = a @ c # b \<and> c \<notin> set b \<and> last_index c (p @ q) = (if c \<in> set q then last_index c (p @ q) else int (length a))"
proof -
  assume "c \<in> set p"
  then obtain a b where p: "p = a @ c # b" "c \<notin> set b" by (meson split_list_last)
  then show ?thesis using last_index_at [of c "b @ q" a] by (intro exI [of _ a] exI [of _ b]) auto
qed

lemma last_index_before:
  assumes "c \<in> set p" and "c \<notin> set q"
  shows "0 \<le> last_index c (p @ q)" and "last_index c (p @ q) < int (length p)"
  using last_index_split [OF assms(1), of q] assms(2) by auto

lemma replace_first_at: "a \<notin> set p \<Longrightarrow> replace_first a b (p @ a # q) = p @ b # q"
  by (induction p) auto

text \<open>Digits, the first of them at the front, with a grouping character or blanks between, a separator and decimals.\<close>

definition grouped :: "nat \<Rightarrow> code_points \<Rightarrow> bool" where
  "grouped grp g \<longleftrightarrow> g \<noteq> [] \<and> digit_point (hd g) \<and> list_all (\<lambda>c. digit_point c \<or> c = grp \<or> c = 32) g"

definition written_amount :: "nat \<Rightarrow> code_points \<Rightarrow> code_points \<Rightarrow> bool" where
  "written_amount dec g f \<longleftrightarrow> dec \<in> {44, 46} \<and> grouped (90 - dec) g \<and> f \<noteq> [] \<and> list_all digit_point f"

text \<open>Three digits after a comma that is the only separator are a group and no decimals.\<close>

definition comma_group :: "nat \<Rightarrow> code_points \<Rightarrow> code_points \<Rightarrow> bool" where
  "comma_group dec g f \<longleftrightarrow> dec = 44 \<and> 46 \<notin> set g \<and> length f = 3"

definition only_digits :: "code_points \<Rightarrow> string" where
  "only_digits g = digits_text (filter digit_point g)"

text \<open>The amount that is meant, but for that exception.\<close>

definition amount_of :: "nat \<Rightarrow> code_points \<Rightarrow> code_points \<Rightarrow> rat" where
  "amount_of dec g f =
     (if comma_group dec g f then of_nat (digits_value (only_digits g @ digits_text f))
      else of_nat (digits_value (only_digits g)) + of_nat (digits_value (digits_text f)) / 10 ^ length f)"

lemma decimal_point_group:
  assumes "list_all (\<lambda>c. digit_point c \<or> c = 45) h" and "list_all digit_point f" and "length f = 3"
  shows "decimal_point (h @ 44 # f) = h @ f"
proof -
  have np: "\<not> digit_point 44" "\<not> digit_point 46" by (simp_all add: digit_point_def)
  then have no: "44 \<notin> set f" "46 \<notin> set (h @ 44 # f)" "44 \<notin> set h" using assms(1,2) by (auto simp: list_all_iff)
  then have "filter (\<lambda>c. c \<noteq> 44) h = h" "filter (\<lambda>c. c \<noteq> 44) f = f" by (auto intro!: filter_True)
  then show ?thesis using last_index_at [OF no(1), of h] last_index_absent [OF no(2)] assms(3) by (simp add: decimal_point_def Let_def)
qed

lemma decimal_point_amount:
  assumes dec: "dec \<in> {44, 46}" and h: "list_all (\<lambda>c. digit_point c \<or> c = 45 \<or> c = 90 - dec) h" and f: "list_all digit_point f"
    and three: "dec = 44 \<and> 46 \<notin> set h \<longrightarrow> length f \<noteq> 3"
  shows "decimal_point (h @ dec # f) = filter (\<lambda>c. c \<noteq> 90 - dec) h @ 46 # f"
proof -
  have np: "\<not> digit_point 44" "\<not> digit_point 46" by (simp_all add: digit_point_def)
  then have nf: "44 \<notin> set f" "46 \<notin> set f" using f by (auto simp: list_all_iff)
  have ff: "filter (\<lambda>c. c \<noteq> 44) f = f" "filter (\<lambda>c. c \<noteq> 46) f = f" using nf by (auto intro: filter_True)
  show ?thesis
  proof (cases "dec = 46")
    case True
    then have nh: "46 \<notin> set h" using h np by (auto simp: list_all_iff)
    have dot: "last_index 46 (h @ 46 # f) = int (length h)" by (rule last_index_at [OF nf(2)])
    show ?thesis
    proof (cases "44 \<in> set h")
      case comma: True
      have "44 \<notin> set (46 # f)" using nf by simp
      from last_index_before [OF comma this] dot show ?thesis using ff by (simp add: decimal_point_def True Let_def)
    next
      case False
      then have "last_index 44 (h @ 46 # f) = - 1" "filter (\<lambda>c. c \<noteq> 44) h = h" using nf by (auto intro: last_index_absent filter_True)
      then show ?thesis by (simp add: decimal_point_def True Let_def)
    qed
  next
    case False
    then have d: "dec = 44" using dec by simp
    then have nh: "44 \<notin> set h" using h np by (auto simp: list_all_iff)
    have comma: "last_index 44 (h @ 44 # f) = int (length h)" by (rule last_index_at [OF nf(1)])
    show ?thesis
    proof (cases "46 \<in> set h")
      case dot: True
      have "46 \<notin> set (44 # f)" using nf by simp
      from last_index_before [OF dot this] comma nh show ?thesis
        using ff by (simp add: decimal_point_def d Let_def replace_first_at)
    next
      case no: False
      then have "last_index 46 (h @ 44 # f) = - 1" "filter (\<lambda>c. c \<noteq> 46) h = h" using nf by (auto intro: last_index_absent filter_True)
      then show ?thesis using comma nh three no by (simp add: decimal_point_def d Let_def replace_first_at)
    qed
  qed
qed

text \<open>What the parameters do with plain digits and signs.\<close>

definition plain_text_laws :: "'z cell_text_scheme \<Rightarrow> bool" where
  "plain_text_laws u \<longleftrightarrow> (\<forall>v. list_all (\<lambda>c. c < 128) v \<longrightarrow> ut_nfkc u v = v) \<and>
     (\<forall>c. number_point c \<longrightarrow> \<not> ut_currency u c)"

lemma digit_space: "digit_point c \<Longrightarrow> \<not> space_point c" "\<not> space_point 44" "\<not> space_point 45" "\<not> space_point 46"
    "\<not> space_point 40" "\<not> space_point 41" "space_point 32"
  by (auto simp: digit_point_def space_point_def)

lemma trim_points_id: "v \<noteq> [] \<Longrightarrow> \<not> space_point (hd v) \<Longrightarrow> \<not> space_point (last v) \<Longrightarrow> trim_points v = v"
proof -
  assume v: "v \<noteq> []" "\<not> space_point (hd v)" "\<not> space_point (last v)"
  then have "dropWhile space_point v = v" by (cases v) simp_all
  moreover have "dropWhile space_point (rev v) = rev v" using v by (cases "rev v") (auto simp: hd_rev [symmetric])
  ultimately show ?thesis by (simp add: trim_points_def)
qed

text \<open>The digits of an amount with a minus sign or none in front.\<close>

definition bare :: "code_points \<Rightarrow> bool" where
  "bare v \<longleftrightarrow> v \<noteq> [] \<and> number_point (hd v) \<and> digit_point (last v) \<and> list_all (\<lambda>c. number_point c \<or> c = 32) v"

lemma number_point_plain: "number_point c \<Longrightarrow> \<not> space_point c \<and> \<not> letter_point c \<and> c \<noteq> 40 \<and> c \<noteq> 41 \<and> c < 128 \<and> c \<noteq> 8722"
  by (auto simp: number_point_def digit_point_def space_point_def letter_point_def)

lemma plain_point: "number_point c \<or> c = 32 \<Longrightarrow> c < 128 \<and> c \<noteq> 8722 \<and> c \<noteq> 40 \<and> c \<noteq> 41 \<and> \<not> line_end c"
  by (auto simp: line_end_def number_point_def digit_point_def)

lemma bare_plain:
  assumes "bare v"
  shows "list_all (\<lambda>c. c < 128) v" "map (\<lambda>c. if c = 8722 then 45 else c) v = v" "trim_points v = v" "40 \<notin> set v" "41 \<notin> set v"
    "list_all (\<lambda>c. \<not> line_end c) v"
proof -
  have all: "c < 128 \<and> c \<noteq> 8722 \<and> c \<noteq> 40 \<and> c \<noteq> 41 \<and> \<not> line_end c" if "c \<in> set v" for c
    using assms that plain_point [of c] unfolding bare_def list_all_iff by blast
  show "list_all (\<lambda>c. c < 128) v" "list_all (\<lambda>c. \<not> line_end c) v" using all by (auto simp: list_all_iff)
  show "map (\<lambda>c. if c = 8722 then 45 else c) v = v" using all by (auto intro: map_idI)
  show "40 \<notin> set v" "41 \<notin> set v" using all by auto
  show "trim_points v = v"
    by (rule trim_points_id) (use assms number_point_plain [of "hd v"] digit_space(1) [of "last v"] in \<open>auto simp: bare_def\<close>)
qed

lemma strip_money_bare:
  assumes u: "plain_text_laws u" and v: "bare v"
  shows "strip_money u v = filter (\<lambda>c. \<not> space_point c) v"
proof -
  obtain c t where ct: "v = c # t" using v by (cases v) (auto simp: bare_def)
  obtain d r where dr: "rev v = d # r" using v by (cases "rev v") (auto simp: bare_def)
  then have last: "last v = d" by (metis hd_rev list.sel(1))
  have c: "\<not> ut_currency u c" "\<not> letter_point c" using u v number_point_plain [of c] by (auto simp: bare_def plain_text_laws_def ct)
  have d: "\<not> ut_currency u d" "\<not> letter_point d"
    using u v number_point_plain [of d] unfolding bare_def plain_text_laws_def last by (auto simp: number_point_def)
  have "drop_leading_sign (ut_currency u) v = v" using c by (simp add: drop_leading_sign_def ct)
  moreover have "drop_leading_sign (ut_currency u) (rev v) = rev v" using d by (simp add: drop_leading_sign_def dr)
  moreover have "drop_leading_code v = v" using c by (simp add: drop_leading_code_def ct)
  moreover have "drop_leading_code (rev v) = rev v" using d by (simp add: drop_leading_code_def dr)
  ultimately show ?thesis by (simp add: strip_money_def Let_def)
qed

lemma bare_read:
  assumes u: "plain_text_laws u" and v: "bare v" and digit: "\<exists>c \<in> set v. digit_point c"
  defines "w \<equiv> filter (\<lambda>c. \<not> space_point c) v"
  shows "v \<noteq> [45] \<Longrightarrow> normalizedDecimal lib u (Some v) = read_number lib False w"
    and "digit_point (hd v) \<Longrightarrow> normalizedDecimal lib u (Some (40 # v @ [41])) = read_number lib True w"
proof -
  note plain = bare_plain [OF v]
  have id: "ut_nfkc u v = v" "ut_nfkc u (40 # v @ [41]) = 40 # v @ [41]"
    using u plain(1) unfolding plain_text_laws_def by auto
  have ok: "list_ex digit_point w" "list_all number_point w"
    using digit v digit_space(1) digit_space(7) unfolding w_def bare_def by (auto simp: list_all_iff list_ex_iff)
  have inner: "trim_points (40 # v @ [41]) = 40 # v @ [41]" by (rule trim_points_id) (simp_all add: digit_space)
  have np: "\<not> parenthesized v" using plain(4) v by (cases v) (auto simp: parenthesized_def bare_def)
  show "v \<noteq> [45] \<Longrightarrow> normalizedDecimal lib u (Some v) = read_number lib False w"
    using plain ok v np by (simp add: normalizedDecimal_def id Let_def strip_money_bare [OF u v] w_def [symmetric] bare_def)
  have par: "parenthesized (40 # v @ [41])" using plain(6) v by (simp add: parenthesized_def bare_def)
  assume h: "digit_point (hd v)"
  have "w \<noteq> []" and "hd w = hd v"
    using v h digit_space(1) [OF h] unfolding w_def bare_def by (cases v; simp)+
  moreover have "\<not> (hd v = 43 \<or> hd v = 45)" using h by (auto simp: digit_point_def)
  ultimately show "normalizedDecimal lib u (Some (40 # v @ [41])) = read_number lib True w"
    using plain ok par by (simp add: normalizedDecimal_def id Let_def inner strip_money_bare [OF u v] w_def [symmetric])
qed

lemma digits_text_digits: "list_all digit_point f \<Longrightarrow> list_all is_digit (digits_text f)"
proof -
  have "is_digit (char_of c)" if "digit_point c" for c :: nat
  proof -
    have "c < 256" using that by (simp add: digit_point_def)
    then have "(of_char (char_of c :: char) :: nat) = c" by (simp add: of_char_of)
    with that show ?thesis by (simp add: is_digit_def digit_point_def less_eq_char_def)
  qed
  then show "list_all digit_point f \<Longrightarrow> list_all is_digit (digits_text f)" by (simp add: digits_text_def list_all_iff)
qed

lemma number_parts_text:
  assumes "i \<noteq> []" and "list_all is_digit i" and "f \<noteq> []" and "list_all is_digit f"
  shows "number_parts (i @ CHR ''.'' # f) = Some (False, i, f)" and "number_parts (CHR ''-'' # i @ CHR ''.'' # f) = Some (True, i, f)"
proof -
  have dot: "\<not> is_digit CHR ''.''" by (simp add: is_digit_def)
  have s: "split_number neg (i @ CHR ''.'' # f) = Some (neg, i, f)" for neg
    using assms takeWhile_digits [OF assms(2) dot, of f] by (simp add: split_number_def)
  obtain c t where i: "i = c # t" using assms(1) by (cases i) auto
  have "c \<noteq> CHR ''-''" "c \<noteq> CHR ''+''" using assms(2) by (auto simp: i is_digit_def)
  with s [of False] s [of True] show "number_parts (i @ CHR ''.'' # f) = Some (False, i, f)"
    "number_parts (CHR ''-'' # i @ CHR ''.'' # f) = Some (True, i, f)" by (simp_all add: number_parts_def i)
qed

definition signed_point :: "bool \<Rightarrow> code_points" where
  "signed_point neg = (if neg then [45] else [])"

lemma number_parts_whole:
  assumes "i \<noteq> []" and "list_all is_digit i"
  shows "number_parts ((if neg then ''-'' else []) @ i) = Some (neg, i, [])"
proof -
  have tw: "takeWhile is_digit i = i" "dropWhile is_digit i = []" using assms(2) by (simp_all add: takeWhile_eq_all_conv list_all_iff)
  then have s: "split_number neg i = Some (neg, i, [])" for neg using assms(1) unfolding split_number_def tw by simp
  obtain c t where i: "i = c # t" using assms(1) by (cases i) auto
  have "c \<noteq> CHR ''-''" "c \<noteq> CHR ''+''" using assms(2) by (auto simp: i is_digit_def)
  with s [of False] s [of True] show ?thesis by (cases neg) (simp_all add: number_parts_def i)
qed

text \<open>What is left of a written amount once its blanks are taken away, and how that is read.\<close>

lemma written_text:
  assumes a: "written_amount dec g f"
  shows "digits_text (decimal_point (filter (\<lambda>c. \<not> space_point c) (signed_point neg @ g @ dec # f)))
    = (if neg then ''-'' else []) @ only_digits g @ (if comma_group dec g f then [] else ''.'') @ digits_text f"
proof -
  let ?h = "signed_point neg @ filter (\<lambda>c. \<not> space_point c) g"
  have dec: "dec \<in> {44, 46}" and g: "grouped (90 - dec) g" and f: "f \<noteq> []" "list_all digit_point f"
    using a by (auto simp: written_amount_def)
  have keep: "filter (\<lambda>c. \<not> space_point c) f = f" using f(2) digit_space(1) by (auto simp: list_all_iff intro: filter_True)
  have all: "digit_point c \<or> c = 90 - dec \<or> c = 32" if "c \<in> set g" for c using g that by (auto simp: grouped_def list_all_iff)
  have w: "filter (\<lambda>c. \<not> space_point c) (signed_point neg @ g @ dec # f) = ?h @ dec # f"
    using dec keep by (auto simp: signed_point_def digit_space)
  have h: "list_all (\<lambda>c. digit_point c \<or> c = 45 \<or> c = 90 - dec) ?h"
    using all digit_space(7) by (auto simp: list_all_iff signed_point_def)
  have ungrouped: "filter (\<lambda>c. c \<noteq> 90 - dec) (filter (\<lambda>c. \<not> space_point c) g) = filter digit_point g"
    unfolding filter_filter
  proof (rule filter_cong [OF refl])
    fix c assume "c \<in> set g"
    then show "(\<not> space_point c \<and> c \<noteq> 90 - dec) = digit_point c"
      using all [of c] digit_space(1) [of c] digit_space(7) dec by (auto simp: digit_point_def)
  qed
  have codes: "char_of (46 :: nat) = CHR ''.''" "char_of (45 :: nat) = CHR ''-''" by code_simp+
  show ?thesis
  proof (cases "comma_group dec g f")
    case True
    then have d: "dec = 44" "46 \<notin> set g" "length f = 3" by (simp_all add: comma_group_def)
    then have "list_all (\<lambda>c. digit_point c \<or> c = 45) ?h" using all digit_space(7) by (fastforce simp: list_all_iff signed_point_def)
    moreover have "filter (\<lambda>c. \<not> space_point c) g = filter digit_point g"
      using ungrouped d(1,2) filter_True [of "filter (\<lambda>c. \<not> space_point c) g" "\<lambda>c. c \<noteq> 46"] by fastforce
    ultimately have "decimal_point (?h @ dec # f) = signed_point neg @ filter digit_point g @ f"
      using decimal_point_group [of ?h f] f(2) d(1,3) by simp
    then show ?thesis unfolding w using True by (simp add: digits_text_def only_digits_def signed_point_def codes)
  next
    case False
    then have "dec = 44 \<and> 46 \<notin> set ?h \<longrightarrow> length f \<noteq> 3" by (auto simp: comma_group_def digit_space)
    from decimal_point_amount [OF dec h f(2) this]
    have "decimal_point (?h @ dec # f) = signed_point neg @ filter digit_point g @ 46 # f"
      using ungrouped dec by (auto simp: signed_point_def)
    then show ?thesis unfolding w using False by (simp add: digits_text_def only_digits_def signed_point_def codes)
  qed
qed

lemma read_amount:
  assumes laws: "decimal_laws lib val" and a: "written_amount dec g f"
  shows "read_number lib negative (filter (\<lambda>c. \<not> space_point c) (signed_point neg @ g @ dec # f)) =
    Inr (fixed_text 8 ((if negative then - 1 else 1) * ((if neg then - 1 else 1) * amount_of dec g f)))"
proof -
  let ?w = "digits_text (decimal_point (filter (\<lambda>c. \<not> space_point c) (signed_point neg @ g @ dec # f)))"
  have g: "grouped (90 - dec) g" and f: "f \<noteq> []" "list_all digit_point f" using a by (auto simp: written_amount_def)
  have i: "only_digits g \<noteq> []" "list_all is_digit (only_digits g)" using g digits_text_digits [of "filter digit_point g"]
    by (cases g; auto simp: grouped_def only_digits_def digits_text_def list_all_iff)+
  have f': "digits_text f \<noteq> []" "list_all is_digit (digits_text f)" "length (digits_text f) = length f"
    using f digits_text_digits by (auto simp: digits_text_def)
  have "\<exists>p. number_parts ?w = Some p \<and> parts_rat p = (if neg then - 1 else 1) * amount_of dec g f"
  proof (cases "comma_group dec g f")
    case True
    then have "number_parts ?w = Some (neg, only_digits g @ digits_text f, [])"
      unfolding written_text [OF a] using number_parts_whole [of "only_digits g @ digits_text f" neg] i f' by simp
    then show ?thesis using True by (simp add: amount_of_def parts_rat_def)
  next
    case False
    then have "number_parts ?w = Some (neg, only_digits g, digits_text f)"
      unfolding written_text [OF a] using number_parts_text [OF i f'(1,2)] by simp
    then show ?thesis using False f'(3) by (simp add: amount_of_def parts_rat_def digits_value_append field_simps)
  qed
  then obtain p where p: "number_parts ?w = Some p" "parts_rat p = (if neg then - 1 else 1) * amount_of dec g f" by blast
  then obtain d where d: "dec_parse lib ?w = Some d" "val d = parts_rat p" using number_value [OF laws] by blast
  show ?thesis unfolding read_number_def Let_def using p d by (simp add: fixed_value [OF laws] decimal_ops(5) [OF laws])
qed

text \<open>C31: an amount is read in every notation as what its digits say: with a comma or a point before the decimals,
  with the other of the two or blanks between groups of digits, with a minus sign or in parentheses when it is negative.
  Only a comma that is the sole separator and stands before exactly three digits is read as a separator of
  thousands: then the amount is the number of all digits together, also where the comma is one of decimals.\<close>

theorem amount_read_in_any_notation:
  assumes laws: "decimal_laws lib val" and u: "plain_text_laws u" and a: "written_amount dec g f"
  shows "normalizedDecimal lib u (Some (g @ dec # f)) = Inr (fixed_text 8 (amount_of dec g f)) \<and>
    normalizedDecimal lib u (Some (45 # g @ dec # f)) = Inr (fixed_text 8 (- amount_of dec g f)) \<and>
    normalizedDecimal lib u (Some (40 # g @ dec # f @ [41])) = Inr (fixed_text 8 (- amount_of dec g f))"
proof -
  have g: "g \<noteq> []" "digit_point (hd g)" "\<And>c. c \<in> set g \<Longrightarrow> digit_point c \<or> c = 90 - dec \<or> c = 32"
    and f: "f \<noteq> []" "list_all digit_point f" and dec: "dec \<in> {44, 46}"
    using a by (auto simp: written_amount_def grouped_def list_all_iff)
  have "digit_point (last f)" using f by (simp add: list_all_iff)
  then have b: "bare (signed_point neg @ g @ dec # f)" for neg
  proof -
    have "number_point c \<or> c = 32" if "c \<in> set g" for c using g(3) [OF that] dec by (auto simp: number_point_def)
    moreover have "number_point 45" "number_point dec" "number_point (hd g)" using g(2) dec by (auto simp: number_point_def)
    ultimately show ?thesis
      using g(1) f \<open>digit_point (last f)\<close> by (auto simp: bare_def signed_point_def list_all_iff number_point_def)
  qed
  have d: "\<exists>c \<in> set (signed_point neg @ g @ dec # f). digit_point c" for neg using g by (intro bexI [of _ "hd g"]) auto
  note read = read_amount [OF laws a]
  have "normalizedDecimal lib u (Some (g @ dec # f)) = Inr (fixed_text 8 (amount_of dec g f))"
    using bare_read(1) [OF u b [of False] d [of False], of lib] read [of False False] f(1)
    by (cases g) (simp_all add: signed_point_def)
  moreover have "normalizedDecimal lib u (Some (45 # g @ dec # f)) = Inr (fixed_text 8 (- amount_of dec g f))"
    using bare_read(1) [OF u b [of True] d [of True], of lib] read [of False True] g(1)
    by (simp add: signed_point_def)
  moreover have "normalizedDecimal lib u (Some (40 # g @ dec # f @ [41])) = Inr (fixed_text 8 (- amount_of dec g f))"
    using bare_read(2) [OF u b [of False] d [of False], of lib] read [of True False] g(1,2)
    by (simp add: signed_point_def)
  ultimately show ?thesis by blast
qed

section \<open>Samples\<close>

definition ascii_cells :: cell_text where
  "ascii_cells = \<lparr> ut_nfkc = id, ut_lower = map (\<lambda>c. if 65 \<le> c \<and> c \<le> 90 then c + 32 else c),
     ut_upper = map (\<lambda>c. if 97 \<le> c \<and> c \<le> 122 then c - 32 else c),
     ut_alnum = (\<lambda>c. 48 \<le> c \<and> c \<le> 57 \<or> 65 \<le> c \<and> c \<le> 90 \<or> 97 \<le> c \<and> c \<le> 122),
     ut_currency = (\<lambda>c. c \<in> {36, 163, 165, 8364}) \<rparr>"

lemma ascii_cells_laws: "plain_text_laws ascii_cells"
  by (auto simp: plain_text_laws_def ascii_cells_def number_point_def digit_point_def)

lemma sample_written: "written_amount 44 (points ''1.234'') (points ''56'')"
  by (simp add: written_amount_def grouped_def points_def digit_point_def)

lemma amount_read_in_any_notation_witness:
  "normalizedDecimal rat_lib ascii_cells (Some (points ''1.234,56'')) = Inr (fixed_text 8 (amount_of 44 (points ''1.234'') (points ''56''))) \<and>
   normalizedDecimal rat_lib ascii_cells (Some (points ''(1.234,56)'')) = Inr (fixed_text 8 (- amount_of 44 (points ''1.234'') (points ''56''))) \<and>
   amount_of 44 (points ''1.234'') (points ''56'') = 123456 / 100"
proof -
  have t: "points ''1.234,56'' = points ''1.234'' @ 44 # points ''56''" "points ''(1.234,56)'' = 40 # points ''1.234'' @ 44 # points ''56'' @ [41]"
    by (simp_all add: points_def)
  have "amount_of 44 (points ''1.234'') (points ''56'') = 123456 / 100"
    by (simp add: amount_of_def comma_group_def only_digits_def digits_text_def points_def digit_point_def digits_value_def digit_value_def)
  then show ?thesis unfolding t using amount_read_in_any_notation [OF rat_lib_laws ascii_cells_laws sample_written] by blast
qed

text \<open>
  A comma before exactly three digits is always a thousands separator, also after a single zero, where it can
  only be a decimal comma: \<open>0,125\<close> is read as 125.
\<close>

theorem zero_comma_is_a_group:
  assumes laws: "decimal_laws lib val" and u: "plain_text_laws u"
  shows "normalizedDecimal lib u (Some (points ''0,125'')) = Inr (fixed_text 8 125)"
proof -
  have v: "bare (points ''0,125'')" "\<exists>c \<in> set (points ''0,125''). digit_point c" "points ''0,125'' \<noteq> [45]"
    by (simp_all add: bare_def points_def number_point_def digit_point_def)
  have w: "filter (\<lambda>c. \<not> space_point c) (points ''0,125'') = [48, 44, 49, 50, 53]" by (simp add: points_def space_point_def)
  have d: "digits_text (decimal_point [48, 44, 49, 50, 53]) = ''0125''" by code_simp
  have p: "number_parts ''0125'' = Some (False, ''0125'', [])" by (simp add: number_parts_def split_number_def is_digit_def)
  then obtain x where x: "dec_parse lib ''0125'' = Some x" "val x = parts_rat (False, ''0125'', [])" using number_value [OF laws] by blast
  moreover have "parts_rat (False, ''0125'', []) = 125" by (simp add: parts_rat_def digits_value_def digit_value_def)
  ultimately show ?thesis
    unfolding bare_read(1) [OF u v] w read_number_def d Let_def using p by (simp add: fixed_value [OF laws])
qed

lemma zero_comma_is_a_group_witness: "normalizedDecimal rat_lib ascii_cells (Some (points ''0,125'')) = Inr (fixed_text 8 125)"
  by (rule zero_comma_is_a_group [OF rat_lib_laws ascii_cells_laws])

end
