(* ===== verification/UploadPaths.thy ===== *)
theory UploadPaths
  imports Fees
begin

text \<open>
  What a client may register for upload: \<open>safeRelativePath\<close> and \<open>normalizeUploadFiles\<close> of
  \<open>src/modules/uploads/service.ts\<close> under the limits of \<open>src/shared/upload-limits.ts\<close>. Paths and content types
  are lists of code points; the normal form NFC is a parameter.
\<close>

section \<open>Limits\<close>

definition MAX_UPLOAD_BATCH_FILES :: int where "MAX_UPLOAD_BATCH_FILES = 20000"
definition MAX_UPLOAD_BATCH_BYTES :: int where "MAX_UPLOAD_BATCH_BYTES = 2 * 1024 * 1024 * 1024"
definition MAX_CHUNK_BYTES :: int where "MAX_CHUNK_BYTES = 16 * 1024 * 1024"

section \<open>Paths\<close>

text \<open>\<open>Buffer.byteLength\<close>: a code point takes one to four bytes in UTF-8.\<close>

definition utf8_size :: "nat \<Rightarrow> nat" where
  "utf8_size c = (if c < 128 then 1 else if c < 2048 then 2 else if c < 65536 then 3 else 4)"

definition byte_length :: "code_points \<Rightarrow> nat" where
  "byte_length v = sum_list (map utf8_size v)"

fun split_points :: "nat \<Rightarrow> code_points \<Rightarrow> code_points list" where
  "split_points sep [] = [[]]"
| "split_points sep (c # v) =
     (if c = sep then [] # split_points sep v
      else case split_points sep v of [] \<Rightarrow> [[c]] | p # ps \<Rightarrow> (c # p) # ps)"

text \<open>\<open>/^[A-Za-z]:/\<close>.\<close>

definition drive_prefix :: "code_points \<Rightarrow> bool" where
  "drive_prefix v \<longleftrightarrow> (case v of c # d # _ \<Rightarrow> (65 \<le> c \<and> c \<le> 90 \<or> 97 \<le> c \<and> c \<le> 122) \<and> d = 58 | _ \<Rightarrow> False)"

definition control_point :: "nat \<Rightarrow> bool" where
  "control_point c \<longleftrightarrow> c \<le> 31 \<or> c = 127"

definition safeRelativePath :: "(code_points \<Rightarrow> code_points) \<Rightarrow> code_points \<Rightarrow> code_points result" where
  "safeRelativePath nfc v =
     (let normalized = nfc (map (\<lambda>c. if c = 92 then 47 else c) v); parts = split_points 47 normalized in
      if normalized = [] \<or> list_ex control_point normalized \<or> 1024 < byte_length normalized
        \<or> hd normalized = 47 \<or> drive_prefix normalized
        \<or> list_ex (\<lambda>part. part = [] \<or> part = [46] \<or> part = [46, 46] \<or> 255 < byte_length part) parts
      then Inl (PlainError ''UNSAFE_RELATIVE_PATH'') else Inr normalized)"

definition ascii_lower :: "code_points \<Rightarrow> code_points" where
  "ascii_lower v = map (\<lambda>c. if 65 \<le> c \<and> c \<le> 90 then c + 32 else c) v"

text \<open>\<open>/\.pdf$/iu\<close>, and \<open>LIKE '%.pdf'\<close> on the lower case.\<close>

definition pdf_path :: "code_points \<Rightarrow> bool" where
  "pdf_path v \<longleftrightarrow> 4 \<le> length v \<and> ascii_lower (drop (length v - 4) v) = points ''.pdf''"

section \<open>Registrations\<close>

record UploadFileRegistration =
  ur_path :: code_points
  ur_size :: int
  ur_type :: "code_points option"
  ur_metadata :: bool

definition pdf_type :: "code_points option \<Rightarrow> bool" where
  "pdf_type t \<longleftrightarrow> (case t of None \<Rightarrow> False | Some v \<Rightarrow> ascii_lower v = points ''application/pdf'')"

definition normalize_file ::
    "(code_points \<Rightarrow> code_points) \<Rightarrow> code_points set \<Rightarrow> int \<Rightarrow> UploadFileRegistration \<Rightarrow> UploadFileRegistration result" where
  "normalize_file nfc seen declared input =
     (if ur_size input < 0 \<or> ur_size input > MAX_UPLOAD_BATCH_BYTES then Inl (PlainError ''UPLOAD_SIZE_LIMIT'')
      else bindE (safeRelativePath nfc (ur_path input)) (\<lambda>path.
        if path \<in> seen then Inl (PlainError ''UPLOAD_DUPLICATE_RELATIVE_PATH'')
        else if (case ur_type input of None \<Rightarrow> False | Some t \<Rightarrow> t = [] \<or> 255 < byte_length t)
        then Inl (PlainError ''UPLOAD_CONTENT_TYPE_INVALID'')
        else if ur_metadata input \<and> (ur_size input \<noteq> 0 \<or> \<not> (pdf_path path \<or> pdf_type (ur_type input)))
        then Inl (PlainError ''UPLOAD_METADATA_ONLY_PDF_REQUIRED'')
        else if declared + ur_size input > MAX_UPLOAD_BATCH_BYTES then Inl (PlainError ''UPLOAD_BATCH_LIMIT'')
        else Inr (input\<lparr>ur_path := path\<rparr>)))"

fun normalize_all ::
    "(code_points \<Rightarrow> code_points) \<Rightarrow> code_points set \<Rightarrow> int \<Rightarrow> UploadFileRegistration list \<Rightarrow> UploadFileRegistration list result" where
  "normalize_all nfc seen declared [] = Inr []"
| "normalize_all nfc seen declared (input # inputs) =
     bindE (normalize_file nfc seen declared input) (\<lambda>file.
     bindE (normalize_all nfc (insert (ur_path file) seen) (declared + ur_size file) inputs) (\<lambda>files. Inr (file # files)))"

definition normalizeUploadFiles ::
    "(code_points \<Rightarrow> code_points) \<Rightarrow> UploadFileRegistration list \<Rightarrow> UploadFileRegistration list result" where
  "normalizeUploadFiles nfc inputs =
     (if int (length inputs) > MAX_UPLOAD_BATCH_FILES then Inl (PlainError ''UPLOAD_BATCH_LIMIT'')
      else normalize_all nfc {} 0 inputs)"

definition declared_sum :: "UploadFileRegistration list \<Rightarrow> int" where
  "declared_sum files = sum_list (map ur_size files)"

section \<open>What passes\<close>

definition safe_path :: "code_points \<Rightarrow> bool" where
  "safe_path v \<longleftrightarrow> v \<noteq> [] \<and> \<not> list_ex control_point v \<and> byte_length v \<le> 1024 \<and> hd v \<noteq> 47 \<and> \<not> drive_prefix v
     \<and> list_all (\<lambda>part. part \<noteq> [] \<and> part \<noteq> [46] \<and> part \<noteq> [46, 46] \<and> byte_length part \<le> 255) (split_points 47 v)"

lemma safeRelativePath_Inr: "safeRelativePath nfc v = Inr w \<Longrightarrow> safe_path w"
  by (auto simp: safeRelativePath_def safe_path_def Let_def list_ex_iff list_all_iff split: if_split_asm)

lemma normalize_file_Inr:
  assumes "normalize_file nfc seen declared input = Inr file"
  shows "safe_path (ur_path file)" and "ur_path file \<notin> seen" and "0 \<le> ur_size file"
    and "declared + ur_size file \<le> MAX_UPLOAD_BATCH_BYTES" and "ur_metadata file \<Longrightarrow> ur_size file = 0"
    and "ur_size file \<le> MAX_UPLOAD_BATCH_BYTES"
  using assms safeRelativePath_Inr unfolding normalize_file_def
  by (auto simp: bindE_Inr_iff split: if_split_asm)

lemma normalize_all_Inr:
  assumes "normalize_all nfc seen declared inputs = Inr files" and "declared \<le> MAX_UPLOAD_BATCH_BYTES"
  shows "length files = length inputs \<and> list_all (\<lambda>f. safe_path (ur_path f)) files \<and> distinct (map ur_path files)
    \<and> set (map ur_path files) \<inter> seen = {} \<and> list_all (\<lambda>f. 0 \<le> ur_size f \<and> ur_size f \<le> MAX_UPLOAD_BATCH_BYTES) files
    \<and> declared + declared_sum files \<le> MAX_UPLOAD_BATCH_BYTES
    \<and> list_all (\<lambda>f. ur_metadata f \<longrightarrow> ur_size f = 0) files"
  using assms
proof (induction inputs arbitrary: seen declared files)
  case (Cons input inputs)
  then obtain f fs where f: "normalize_file nfc seen declared input = Inr f"
    "normalize_all nfc (insert (ur_path f) seen) (declared + ur_size f) inputs = Inr fs" "files = f # fs"
    by (auto simp: bindE_Inr_iff)
  note g = normalize_file_Inr [OF f(1)]
  from Cons.IH [OF f(2) g(4)] g show ?case unfolding f(3) declared_sum_def
    by (simp add: algebra_simps)
qed (simp add: declared_sum_def)

lemma normalizeUploadFiles_Inr:
  assumes "normalizeUploadFiles nfc inputs = Inr files"
  shows "length files = length inputs" "int (length files) \<le> MAX_UPLOAD_BATCH_FILES"
    "list_all (\<lambda>f. safe_path (ur_path f)) files" "distinct (map ur_path files)"
    "list_all (\<lambda>f. 0 \<le> ur_size f \<and> ur_size f \<le> MAX_UPLOAD_BATCH_BYTES) files" "declared_sum files \<le> MAX_UPLOAD_BATCH_BYTES"
    "list_all (\<lambda>f. ur_metadata f \<longrightarrow> ur_size f = 0) files"
proof -
  from assms have n: "normalize_all nfc {} 0 inputs = Inr files" and l: "int (length inputs) \<le> MAX_UPLOAD_BATCH_FILES"
    by (auto simp: normalizeUploadFiles_def split: if_split_asm)
  note a = normalize_all_Inr [OF n]
  show "length files = length inputs" "int (length files) \<le> MAX_UPLOAD_BATCH_FILES"
    "list_all (\<lambda>f. safe_path (ur_path f)) files" "distinct (map ur_path files)"
    "list_all (\<lambda>f. 0 \<le> ur_size f \<and> ur_size f \<le> MAX_UPLOAD_BATCH_BYTES) files" "declared_sum files \<le> MAX_UPLOAD_BATCH_BYTES"
    "list_all (\<lambda>f. ur_metadata f \<longrightarrow> ur_size f = 0) files"
    using a l by (simp_all add: MAX_UPLOAD_BATCH_BYTES_def)
qed

end
