(* ===== verification/Uploads.thy ===== *)
theory Uploads
  imports Shops Period UploadPaths "HOL-Library.Word"
begin

text \<open>
  Uploads: \<open>src/modules/uploads/service.ts\<close>, \<open>partial-failure.ts\<close>, \<open>archive-budget.ts\<close> and
  \<open>staging-cleanup.ts\<close> over the tables of \<open>migrations/0006\<close>, \<open>0007\<close>, \<open>0012\<close>, \<open>0013\<close>, \<open>0033\<close>, \<open>0047\<close> and
  \<open>0054\<close>. The audit rows \<open>UPLOAD_FILES_REMOVED_BEFORE_IMPORT\<close>, which the code reads back, are a table of their
  own. The staging area of the disk is a partial map from absolute paths to bytes; a write survives a
  transaction that is rolled back. Directories, free space that runs out during a write and the locks are left
  out; free space at the start, random identifiers and the clock are arguments.
\<close>

section \<open>Data\<close>

type_synonym bytes = "8 word list"

datatype upload_status = UB_OPEN | UB_UPLOADING | UB_FINALIZING | UB_READY | UB_CANCELLED | UB_FAILED | UB_EXPIRED

record upload_batch_row =
  ub_id :: string
  ub_shop_id :: string
  ub_created_by :: string
  ub_status :: upload_status
  ub_declared :: int
  ub_received :: int
  ub_files :: int
  ub_expanded :: int
  ub_expires_at :: nat

datatype file_status = UF_PENDING | UF_UPLOADING | UF_COMPLETE | UF_ENCRYPTING | UF_STORED | UF_FAILED

datatype reservation = RS_NONE | RS_RESERVED | RS_COMMITTED

datatype UploadedFileKind = K_ZIP | K_PDF | K_TEXT | K_OTHER

record upload_file_row =
  uf_id :: string
  uf_batch_id :: string
  uf_path :: code_points
  uf_declared :: int
  uf_received :: int
  uf_type :: "code_points option"
  uf_status :: file_status
  uf_temp :: string
  uf_metadata :: bool
  uf_kind :: "UploadedFileKind option"
  uf_sha :: "string option"
  uf_object :: "string option"
  uf_reservation :: reservation
  uf_archive_bytes :: int
  uf_archive_files :: int
  uf_updated_at :: nat

record receipt_row =
  cr_file :: string
  cr_offset :: int
  cr_size :: int
  cr_sha :: string

datatype import_status =
    IB_DRAFT | IB_UPLOADING | IB_ANALYZING | IB_AWAITING_FILES | IB_AWAITING_MAPPING
  | IB_AWAITING_COMMIT_CONFIRMATION | IB_COMMITTING | IB_COMMITTED | IB_COMMITTED_WITH_EXCLUSIONS
  | IB_CALCULATING | IB_READY_FOR_REVIEW | IB_RESULT_PUBLISHING | IB_RESULT_PUBLISHED | IB_CANCELLED
  | IB_FAILED | IB_RETRYING

datatype import_stage =
    Stage_UPLOAD | Stage_PREFLIGHT | Stage_PREFLIGHT_COMPLETE | Stage_COPY | Stage_CANCELLED | Stage_COMMITTED
  | Stage_COMMIT_FAILED | Stage_CALCULATION_REQUEST_BLOCKED | Stage_CALCULATION | Stage_CALCULATION_BLOCKED
  | Stage_PUBLISH | Stage_PUBLISHED | Stage_AUTO_PUBLISH_FAILED

record import_batch_row =
  ib_id :: string
  ib_shop_id :: string
  ib_upload_id :: string
  ib_status :: import_status
  ib_stage :: import_stage
  ib_failure :: "string option"
  ib_key :: string
  ib_created_by :: string
  ib_start :: "string option"
  ib_end :: "string option"

datatype parse_status = Parse_PENDING | Parse_PARSED | Parse_AWAITING_MAPPING | Parse_EXCLUDED | Parse_FAILED

record import_file_row =
  if_batch :: string
  if_object :: "string option"
  if_path :: code_points
  if_status :: parse_status
  if_metadata :: bool

text \<open>The contexts of the issues this component records; the keys of the JSON object are the constructor.\<close>

datatype issue_context =
    Batch_preflight | File_failure string code_points | Duplicate_source code_points string
  | Commit_row "string option" "string option" "string option" | Job_failure string string | Other_context

record import_issue_row =
  ii_batch :: string
  ii_code :: string
  ii_context :: issue_context

record stored_object_row =
  so_id :: string
  so_shop_id :: string
  so_size :: int
  so_sha :: string
  so_path :: string

record removal_row =
  rm_actor :: string
  rm_batch :: string
  rm_files :: "string list"
  rm_remaining :: nat
  rm_cancelled :: bool

record original_grant_row =
  og_object :: string
  og_account :: string
  og_shop :: string
  og_reason :: "string option"
  og_hash :: string
  og_expires_at :: nat
  og_revoked :: bool

record upload_db = shop_db +
  upload_batches :: "upload_batch_row list"
  upload_files :: "upload_file_row list"
  chunk_receipts :: "receipt_row list"
  import_batches :: "import_batch_row list"
  import_files :: "import_file_row list"
  import_issues :: "import_issue_row list"
  stored_objects :: "stored_object_row list"
  removals :: "removal_row list"
  original_grants :: "original_grant_row list"
  staging_disk :: "string \<Rightarrow> bytes option"

text \<open>What a request finds around it.\<close>

record upload_env =
  un_root :: string
  un_nfc :: "code_points \<Rightarrow> code_points"
  un_free :: int
  un_now :: nat
  un_batch_id :: string
  un_import_id :: string
  un_file_ids :: "nat \<Rightarrow> string"
  un_event_id :: "string \<Rightarrow> string \<Rightarrow> string"

definition MAX_BATCH_EXPANDED_BYTES :: int where "MAX_BATCH_EXPANDED_BYTES = 8 * 1024 * 1024 * 1024"

section \<open>Access to the tables\<close>

definition batch_of :: "string \<Rightarrow> 'z upload_db_scheme \<Rightarrow> upload_batch_row option" where
  "batch_of i db = first_row (\<lambda>b. ub_id b = i) (upload_batches db)"

definition file_of :: "string \<Rightarrow> 'z upload_db_scheme \<Rightarrow> upload_file_row option" where
  "file_of i db = first_row (\<lambda>f. uf_id f = i) (upload_files db)"

definition import_of :: "string \<Rightarrow> 'z upload_db_scheme \<Rightarrow> import_batch_row option" where
  "import_of i db = first_row (\<lambda>b. ib_upload_id b = i) (import_batches db)"

definition set_batch :: "string \<Rightarrow> (upload_batch_row \<Rightarrow> upload_batch_row) \<Rightarrow> 'z upload_db_scheme \<Rightarrow> 'z upload_db_scheme" where
  "set_batch i g db = db\<lparr>upload_batches := update_rows (\<lambda>b. ub_id b = i) g (upload_batches db)\<rparr>"

definition set_files :: "(upload_file_row \<Rightarrow> bool) \<Rightarrow> (upload_file_row \<Rightarrow> upload_file_row) \<Rightarrow> 'z upload_db_scheme \<Rightarrow> 'z upload_db_scheme" where
  "set_files p g db = db\<lparr>upload_files := update_rows p g (upload_files db)\<rparr>"

definition set_import :: "string \<Rightarrow> (import_batch_row \<Rightarrow> import_batch_row) \<Rightarrow> 'z upload_db_scheme \<Rightarrow> 'z upload_db_scheme" where
  "set_import i g db = db\<lparr>import_batches := update_rows (\<lambda>b. ib_id b = i) g (import_batches db)\<rparr>"

definition writable_status :: "upload_status \<Rightarrow> bool" where
  "writable_status s \<longleftrightarrow> s \<in> {UB_OPEN, UB_UPLOADING}"

text \<open>\<open>INSERT INTO upload_file\<close>: the checks of the row, then the two keys.\<close>

definition upload_file_checks :: "upload_file_row \<Rightarrow> unit result" where
  "upload_file_checks r =
     (if uf_metadata r \<and> \<not> (uf_declared r = 0 \<and> uf_received r = 0 \<and> pdf_path (uf_path r))
      then Inl (SqlError ''23514'' ''upload_file_metadata_only_pdf_check'')
      else if 1024 < byte_length (uf_path r) then Inl (SqlError ''23514'' ''upload_file_relative_path_check'')
      else if \<not> (0 \<le> uf_declared r \<and> uf_declared r \<le> MAX_UPLOAD_BATCH_BYTES)
      then Inl (SqlError ''23514'' ''upload_file_declared_size_check'')
      else Inr ())"

definition path_taken :: "upload_file_row \<Rightarrow> 'z upload_db_scheme \<Rightarrow> bool" where
  "path_taken r db \<longleftrightarrow> (\<exists>f \<in> set (upload_files db). uf_batch_id f = uf_batch_id r \<and> uf_path f = uf_path r)"

definition insert_upload_file :: "upload_file_row \<Rightarrow> 'z upload_db_scheme \<Rightarrow> 'z upload_db_scheme result" where
  "insert_upload_file r db =
     bindE (upload_file_checks r) (\<lambda>_.
       if \<exists>f \<in> set (upload_files db). uf_id f = uf_id r then Inl (SqlError ''23505'' ''upload_file_pkey'')
       else if path_taken r db then Inl (SqlError ''23505'' ''upload_file_batch_id_relative_path_key'')
       else Inr (db\<lparr>upload_files := upload_files db @ [r]\<rparr>))"

fun insert_upload_files :: "upload_file_row list \<Rightarrow> 'z upload_db_scheme \<Rightarrow> 'z upload_db_scheme result" where
  "insert_upload_files [] db = Inr db"
| "insert_upload_files (r # rs) db = bindE (insert_upload_file r db) (insert_upload_files rs)"

definition insert_import_file :: "import_file_row \<Rightarrow> 'z upload_db_scheme \<Rightarrow> 'z upload_db_scheme result" where
  "insert_import_file r db =
     (if if_metadata r \<and> (\<exists>f \<in> set (import_files db). if_batch f = if_batch r \<and> if_path f = if_path r \<and> if_metadata f)
      then Inl (SqlError ''23505'' ''import_file_batch_metadata_path_uk'')
      else Inr (db\<lparr>import_files := import_files db @ [r]\<rparr>))"

fun insert_import_files :: "import_file_row list \<Rightarrow> 'z upload_db_scheme \<Rightarrow> 'z upload_db_scheme result" where
  "insert_import_files [] db = Inr db"
| "insert_import_files (r # rs) db = bindE (insert_import_file r db) (insert_import_files rs)"

section \<open>Registering files\<close>

record RegisteredUploadFile =
  rf_id :: string
  rf_path :: code_points
  rf_offset :: int

definition temp_path :: "string \<Rightarrow> string \<Rightarrow> string \<Rightarrow> string" where
  "temp_path base batchId fileId = base @ ''/incoming/'' @ batchId @ ''/'' @ fileId @ ''.part''"

definition new_upload_file :: "upload_env \<Rightarrow> string \<Rightarrow> string \<times> UploadFileRegistration \<Rightarrow> upload_file_row" where
  "new_upload_file env batchId = (\<lambda>(i, file).
     \<lparr> uf_id = i, uf_batch_id = batchId, uf_path = ur_path file, uf_declared = ur_size file, uf_received = 0,
       uf_type = ur_type file, uf_status = (if ur_size file = 0 then UF_COMPLETE else UF_PENDING),
       uf_temp = temp_path (un_root env) batchId i, uf_metadata = ur_metadata file,
       uf_kind = (if ur_metadata file then Some K_PDF else None), uf_sha = None, uf_object = None,
       uf_reservation = RS_NONE, uf_archive_bytes = 0, uf_archive_files = 0, uf_updated_at = un_now env \<rparr>)"

definition new_upload_files :: "upload_env \<Rightarrow> string \<Rightarrow> UploadFileRegistration list \<Rightarrow> upload_file_row list" where
  "new_upload_files env batchId files =
     map (new_upload_file env batchId) (zip (map (un_file_ids env) [0..<length files]) files)"

definition create_temps :: "upload_file_row list \<Rightarrow> (string \<Rightarrow> bytes option) \<Rightarrow> string \<Rightarrow> bytes option" where
  "create_temps rows disk = fold (\<lambda>r d. if uf_metadata r then d else d(uf_temp r \<mapsto> [])) rows disk"

definition metadata_import_file :: "import_batch_row \<Rightarrow> upload_file_row \<Rightarrow> import_file_row" where
  "metadata_import_file ib r =
     \<lparr> if_batch = ib_id ib, if_object = None, if_path = uf_path r, if_status = Parse_EXCLUDED, if_metadata = True \<rparr>"

definition register_metadata :: "string \<Rightarrow> upload_file_row list \<Rightarrow> 'z upload_db_scheme \<Rightarrow> 'z upload_db_scheme result" where
  "register_metadata batchId rows db =
     (let marked = filter uf_metadata rows in
      if marked = [] then Inr db
      else case import_of batchId db of
        None \<Rightarrow> Inl (PlainError ''UPLOAD_METADATA_IMPORT_FILE_CREATE_FAILED'')
      | Some ib \<Rightarrow> insert_import_files (map (metadata_import_file ib) marked) db)"

definition required_free :: "int \<Rightarrow> int" where
  "required_free declared = 3 * declared + 4 * 1024 * 1024 * 1024"

definition registered :: "upload_file_row \<Rightarrow> RegisteredUploadFile" where
  "registered r = \<lparr> rf_id = uf_id r, rf_path = uf_path r, rf_offset = 0 \<rparr>"

definition registerFilesInTransaction ::
    "upload_env \<Rightarrow> string \<Rightarrow> UploadFileRegistration list \<Rightarrow> 'z upload_db_scheme \<Rightarrow> (RegisteredUploadFile list \<times> 'z upload_db_scheme) result" where
  "registerFilesInTransaction env batchId files db =
     (if files = [] then Inr ([], db)
      else case first_row (\<lambda>b. ub_id b = batchId \<and> writable_status (ub_status b)) (upload_batches db) of
        None \<Rightarrow> Inl (PlainError ''UPLOAD_BATCH_NOT_OPEN'')
      | Some current \<Rightarrow>
          let declared = ub_declared current + declared_sum files; count = ub_files current + int (length files);
              rows = new_upload_files env batchId files in
          if declared > MAX_UPLOAD_BATCH_BYTES \<or> count > MAX_UPLOAD_BATCH_FILES then Inl (PlainError ''UPLOAD_BATCH_LIMIT'')
          else if un_free env < required_free declared then Inl (PlainError ''UPLOAD_STORAGE_CAPACITY_INSUFFICIENT'')
          else if list_ex (\<lambda>r. \<not> uf_metadata r \<and> staging_disk db (uf_temp r) \<noteq> None) rows then Inl (JsError ''EEXIST'')
          else
            bindE (insert_upload_files rows (db\<lparr>staging_disk := create_temps rows (staging_disk db)\<rparr>)) (\<lambda>db1.
            bindE (register_metadata batchId rows db1) (\<lambda>db2.
            Inr (map registered rows,
                 set_batch batchId (\<lambda>b. b\<lparr>ub_declared := ub_declared b + declared_sum files,
                   ub_files := ub_files b + int (length files), ub_status := UB_UPLOADING\<rparr>) db2))))"

definition createFiles ::
    "upload_env \<Rightarrow> string \<Rightarrow> UploadFileRegistration list \<Rightarrow> 'z upload_db_scheme \<Rightarrow> (RegisteredUploadFile list \<times> 'z upload_db_scheme) result" where
  "createFiles env batchId inputs db =
     bindE (normalizeUploadFiles (un_nfc env) inputs) (\<lambda>files. registerFilesInTransaction env batchId files db)"

definition createFile ::
    "upload_env \<Rightarrow> string \<Rightarrow> UploadFileRegistration \<Rightarrow> 'z upload_db_scheme \<Rightarrow> (string \<times> 'z upload_db_scheme) result" where
  "createFile env batchId input db =
     bindE (createFiles env batchId [input] db) (\<lambda>(files, db').
       case files of [] \<Rightarrow> Inl (PlainError ''UPLOAD_FILE_CREATE_FAILED'') | f # _ \<Rightarrow> Inr (rf_id f, db'))"

section \<open>Creating a batch\<close>

definition existing_file :: "upload_file_row list \<Rightarrow> UploadFileRegistration \<Rightarrow> RegisteredUploadFile result" where
  "existing_file rows file =
     (case first_row (\<lambda>r. uf_path r = ur_path file) (rev rows) of
        None \<Rightarrow> Inl (PlainError ''IDEMPOTENCY_KEY_REUSED'')
      | Some r \<Rightarrow>
          if uf_declared r \<noteq> ur_size file \<or> uf_type r \<noteq> ur_type file \<or> uf_metadata r \<noteq> ur_metadata file
          then Inl (PlainError ''IDEMPOTENCY_KEY_REUSED'')
          else Inr \<lparr> rf_id = uf_id r, rf_path = uf_path r, rf_offset = uf_received r \<rparr>)"

definition existingBatchRegistration ::
    "string \<Rightarrow> UploadFileRegistration list \<Rightarrow> 'z upload_db_scheme \<Rightarrow> RegisteredUploadFile list result" where
  "existingBatchRegistration batchId files db =
     (let rows = filter (\<lambda>r. uf_batch_id r = batchId) (upload_files db) in
      if length rows \<noteq> length files then Inl (PlainError ''IDEMPOTENCY_KEY_REUSED'')
      else map_result (existing_file rows) files)"

definition SEVEN_DAYS :: nat where "SEVEN_DAYS = 7 * 24 * 60 * 60 * 1000"

definition active_replay :: "string \<Rightarrow> import_batch_row \<Rightarrow> bool" where
  "active_replay shopId b \<longleftrightarrow> ib_shop_id b = shopId \<and> starts_with ''admin-source-replay:'' (ib_key b)
     \<and> ib_status b \<notin> {IB_RESULT_PUBLISHED, IB_CANCELLED, IB_FAILED}"

definition insert_batches ::
    "upload_env \<Rightarrow> string \<Rightarrow> string \<Rightarrow> string \<Rightarrow> AccountingPeriodScope option \<Rightarrow> 'z upload_db_scheme \<Rightarrow> 'z upload_db_scheme result" where
  "insert_batches env shopId accountId key period db =
     (if \<exists>b \<in> set (upload_batches db). ub_id b = un_batch_id env then Inl (SqlError ''23505'' ''upload_batch_pkey'')
      else if \<exists>b \<in> set (import_batches db). ib_id b = un_import_id env then Inl (SqlError ''23505'' ''import_batch_pkey'')
      else if \<not> (\<exists>s \<in> set (shops db). sh_id s = shopId) then Inl (SqlError ''23503'' ''import_batch_shop_id_fkey'')
      else if \<not> (\<exists>a \<in> set (accounts db). ac_id a = accountId) then Inl (SqlError ''23503'' ''import_batch_created_by_fkey'')
      else Inr (db\<lparr>
        upload_batches := upload_batches db @ [\<lparr> ub_id = un_batch_id env, ub_shop_id = shopId, ub_created_by = accountId,
          ub_status = UB_OPEN, ub_declared = 0, ub_received = 0, ub_files = 0, ub_expanded = 0,
          ub_expires_at = un_now env + SEVEN_DAYS \<rparr>],
        import_batches := import_batches db @ [\<lparr> ib_id = un_import_id env, ib_shop_id = shopId, ib_upload_id = un_batch_id env,
          ib_status = IB_UPLOADING, ib_stage = Stage_UPLOAD, ib_failure = None, ib_key = key, ib_created_by = accountId,
          ib_start = map_option periodStart period, ib_end = map_option periodEnd period \<rparr>],
        shops := update_rows (\<lambda>s. sh_id s = shopId) (\<lambda>s. s\<lparr>sh_last_operated_by := accountId\<rparr>) (shops db)\<rparr>))"

definition createBatchWithFiles ::
    "upload_env \<Rightarrow> string \<Rightarrow> string \<Rightarrow> string \<Rightarrow> UploadFileRegistration list \<Rightarrow> string option \<Rightarrow> string option
     \<Rightarrow> 'z upload_db_scheme \<Rightarrow> ((string \<times> RegisteredUploadFile list) \<times> 'z upload_db_scheme) result" where
  "createBatchWithFiles env shopId accountId key inputs start_in end_in db =
     bindE (normalizeUploadFiles (un_nfc env) inputs) (\<lambda>files.
     bindE (parseAccountingPeriodScope start_in end_in) (\<lambda>period.
     case first_row (\<lambda>b. ib_shop_id b = shopId \<and> ib_key b = key) (import_batches db) of
       Some row \<Rightarrow>
         if ib_start row \<noteq> map_option periodStart period \<or> ib_end row \<noteq> map_option periodEnd period
         then Inl (AppError ''UPLOAD_IDEMPOTENCY_SCOPE_MISMATCH'' 409 None)
         else bindE (existingBatchRegistration (ib_upload_id row) files db) (\<lambda>rs. Inr ((ib_upload_id row, rs), db))
     | None \<Rightarrow>
         if list_ex (active_replay shopId) (import_batches db)
         then Inl (AppError ''UPLOAD_SOURCE_REPLAY_IN_PROGRESS'' 409 None)
         else bindE (insert_batches env shopId accountId key period db) (\<lambda>db1.
              bindE (registerFilesInTransaction env (un_batch_id env) files db1) (\<lambda>(rs, db2).
              Inr ((un_batch_id env, rs), db2)))))"

definition createBatch ::
    "upload_env \<Rightarrow> string \<Rightarrow> string \<Rightarrow> string \<Rightarrow> string option \<Rightarrow> string option \<Rightarrow> 'z upload_db_scheme \<Rightarrow> (string \<times> 'z upload_db_scheme) result" where
  "createBatch env shopId accountId key start_in end_in db =
     bindE (createBatchWithFiles env shopId accountId key [] start_in end_in db) (\<lambda>((i, _), db'). Inr (i, db'))"

end
