(* ===== verification/UploadOps.thy ===== *)
theory UploadOps
  imports Uploads
begin

text \<open>
  Chunks and the budget of an archive: \<open>appendChunk\<close>, the lookups and \<open>releaseReservedArchiveBudgets\<close> of
  \<open>src/modules/uploads/service.ts\<close>, and \<open>archive-budget.ts\<close>. An operation whose effects outlive its failure returns the
  outcome and the state; the others return an error and leave the state.
\<close>

section \<open>Chunks\<close>

record AppendChunk =
  ch_file :: string
  ch_offset :: int
  ch_length :: int
  ch_sha :: string
  ch_gzip :: bool
  ch_body :: bytes

text \<open>\<open>gunzip\<close> tells the bytes it delivers and whether the stream ends well.\<close>

record chunk_lib =
  hex_digest :: "bytes \<Rightarrow> string"
  base64_digest :: "bytes \<Rightarrow> string"
  gunzip :: "bytes \<Rightarrow> bytes \<times> bool"

definition inside :: "string \<Rightarrow> string \<Rightarrow> bool" where
  "inside base path \<longleftrightarrow> starts_with (base @ ''/'') path"

definition hex_text :: "string \<Rightarrow> bool" where
  "hex_text s \<longleftrightarrow> length s = 64 \<and> list_all (\<lambda>c. is_digit c \<or> to_lower c \<in> set ''abcdef'') s"

definition digest_matches :: "chunk_lib \<Rightarrow> string \<Rightarrow> bytes \<Rightarrow> bool" where
  "digest_matches lib sha chunk =
     (let expected = trim sha in
      if hex_text expected then hex_digest lib chunk = map to_lower expected else base64_digest lib chunk = expected)"

definition decoded_chunk :: "chunk_lib \<Rightarrow> AppendChunk \<Rightarrow> bytes \<times> bool" where
  "decoded_chunk lib input = (if ch_gzip input then gunzip lib (ch_body input) else (ch_body input, True))"

definition writable_file :: "nat \<Rightarrow> string \<Rightarrow> 'z upload_db_scheme \<Rightarrow> upload_file_row option" where
  "writable_file tm i db =
     first_row (\<lambda>f. uf_id f = i \<and> uf_status f \<in> {UF_PENDING, UF_UPLOADING}
       \<and> (\<exists>b \<in> set (upload_batches db). ub_id b = uf_batch_id f \<and> writable_status (ub_status b) \<and> tm < ub_expires_at b))
       (upload_files db)"

definition offset_mismatch :: "int \<Rightarrow> err" where
  "offset_mismatch offset = PlainError (''UPLOAD_OFFSET_MISMATCH:'' @ int_str offset)"

text \<open>Before the transaction: the chunk is verified and laid beside the file; its place is private.\<close>

definition stageChunk ::
    "chunk_lib \<Rightarrow> string \<Rightarrow> nat \<Rightarrow> AppendChunk \<Rightarrow> 'z upload_db_scheme \<Rightarrow> (string \<times> bytes) result" where
  "stageChunk lib base tm input db =
     (if ch_length input < 0 \<or> ch_length input > MAX_CHUNK_BYTES then Inl (PlainError ''CHUNK_SIZE_LIMIT'')
      else case writable_file tm (ch_file input) db of
        None \<Rightarrow> Inl (PlainError ''UPLOAD_FILE_NOT_WRITABLE'')
      | Some candidate \<Rightarrow>
          if uf_received candidate \<noteq> ch_offset input then Inl (offset_mismatch (uf_received candidate))
          else if uf_received candidate + ch_length input > uf_declared candidate then Inl (PlainError ''UPLOAD_FILE_OVERFLOW'')
          else if \<not> inside base (uf_temp candidate) then Inl (PlainError ''UPLOAD_PATH_ESCAPE'')
          else
            let (chunk, ends) = decoded_chunk lib input in
            if int (length chunk) > MAX_CHUNK_BYTES then Inl (PlainError ''CHUNK_TOO_LARGE'')
            else if \<not> ends then Inl (JsError ''Z_DATA_ERROR'')
            else if int (length chunk) \<noteq> ch_length input \<or> \<not> digest_matches lib (ch_sha input) chunk
            then Inl (PlainError ''UPLOAD_CHUNK_CHECKSUM_MISMATCH'')
            else Inr (uf_temp candidate, chunk))"

text \<open>\<open>createWriteStream(path, { flags: "r+", start })\<close>: a gap is filled with zeros.\<close>

definition write_at :: "nat \<Rightarrow> bytes \<Rightarrow> bytes \<Rightarrow> bytes" where
  "write_at start chunk content =
     take start (content @ replicate (start - length content) 0) @ chunk @ drop (start + length chunk) content"

definition writable_batch :: "nat \<Rightarrow> upload_file_row \<Rightarrow> 'z upload_db_scheme \<Rightarrow> bool" where
  "writable_batch tm f db \<longleftrightarrow>
     (\<exists>b \<in> set (upload_batches db). ub_id b = uf_batch_id f \<and> writable_status (ub_status b) \<and> tm < ub_expires_at b)"

definition receive_chunk :: "nat \<Rightarrow> upload_file_row \<Rightarrow> int \<Rightarrow> 'z upload_db_scheme \<Rightarrow> 'z upload_db_scheme" where
  "receive_chunk tm f n db =
     (let following = uf_received f + n in
      set_batch (uf_batch_id f) (\<lambda>b. b\<lparr>ub_received := ub_received b + n\<rparr>)
        (set_files (\<lambda>r. uf_id r = uf_id f)
          (\<lambda>r. r\<lparr>uf_received := following,
             uf_status := (if following = uf_declared f then UF_COMPLETE else UF_UPLOADING), uf_updated_at := tm\<rparr>) db))"

definition commitChunk ::
    "chunk_lib \<Rightarrow> nat \<Rightarrow> AppendChunk \<Rightarrow> string \<Rightarrow> bytes \<Rightarrow> 'z upload_db_scheme \<Rightarrow> int result \<times> 'z upload_db_scheme" where
  "commitChunk lib tm input target chunk db =
     (case file_of (ch_file input) db of
        None \<Rightarrow> (Inl (PlainError ''UPLOAD_FILE_NOT_WRITABLE''), db)
      | Some f \<Rightarrow>
          if \<not> writable_batch tm f db \<or> uf_status f \<notin> {UF_PENDING, UF_UPLOADING}
          then (Inl (PlainError ''UPLOAD_FILE_NOT_WRITABLE''), db)
          else if uf_received f \<noteq> ch_offset input then (Inl (offset_mismatch (uf_received f)), db)
          else if uf_received f + ch_length input > uf_declared f then (Inl (PlainError ''UPLOAD_FILE_OVERFLOW''), db)
          else if uf_temp f \<noteq> target then (Inl (PlainError ''UPLOAD_FILE_PATH_CHANGED''), db)
          else case staging_disk db target of
            None \<Rightarrow> (Inl (JsError ''ENOENT''), db)
          | Some content \<Rightarrow>
              let written = db\<lparr>staging_disk := (staging_disk db)(target \<mapsto> write_at (nat (uf_received f)) chunk content)\<rparr> in
              if \<exists>r \<in> set (chunk_receipts db). cr_file r = ch_file input \<and> cr_offset r = uf_received f
              then (Inl (SqlError ''23505'' ''upload_chunk_receipt_pkey''), written)
              else if \<exists>b \<in> set (upload_batches db). ub_id b = uf_batch_id f
                   \<and> ub_received b + int (length chunk) > MAX_UPLOAD_BATCH_BYTES
              then (Inl (SqlError ''23514'' ''upload_batch_received_bytes_check''), written)
              else (Inr (uf_received f + int (length chunk)),
                receive_chunk tm f (int (length chunk)) (written\<lparr>chunk_receipts := chunk_receipts db
                  @ [\<lparr> cr_file = ch_file input, cr_offset = uf_received f, cr_size = int (length chunk), cr_sha = hex_digest lib chunk \<rparr>]\<rparr>)))"

definition appendChunk ::
    "chunk_lib \<Rightarrow> string \<Rightarrow> nat \<Rightarrow> AppendChunk \<Rightarrow> 'z upload_db_scheme \<Rightarrow> int result \<times> 'z upload_db_scheme" where
  "appendChunk lib base tm input db =
     (case stageChunk lib base tm input db of
        Inl e \<Rightarrow> (Inl e, db)
      | Inr (target, chunk) \<Rightarrow> commitChunk lib tm input target chunk db)"

definition fileOffset :: "string \<Rightarrow> 'z upload_db_scheme \<Rightarrow> (int \<times> int) result" where
  "fileOffset i db = (case file_of i db of None \<Rightarrow> Inl (PlainError ''UPLOAD_FILE_NOT_FOUND'') | Some f \<Rightarrow> Inr (uf_received f, uf_declared f))"

definition resolveBatchShop :: "string \<Rightarrow> 'z upload_db_scheme \<Rightarrow> string result" where
  "resolveBatchShop i db = (case batch_of i db of None \<Rightarrow> Inl (PlainError ''UPLOAD_BATCH_NOT_FOUND'') | Some b \<Rightarrow> Inr (ub_shop_id b))"

definition resolveFileShop :: "string \<Rightarrow> 'z upload_db_scheme \<Rightarrow> string result" where
  "resolveFileShop i db =
     (case file_of i db of None \<Rightarrow> Inl (PlainError ''UPLOAD_FILE_NOT_FOUND'')
      | Some f \<Rightarrow> (case batch_of (uf_batch_id f) db of None \<Rightarrow> Inl (PlainError ''UPLOAD_FILE_NOT_FOUND'') | Some b \<Rightarrow> Inr (ub_shop_id b)))"

section \<open>The budget of an archive\<close>

definition set_file :: "string \<Rightarrow> string \<Rightarrow> (upload_file_row \<Rightarrow> upload_file_row) \<Rightarrow> 'z upload_db_scheme \<Rightarrow> 'z upload_db_scheme" where
  "set_file fileId batchId = set_files (\<lambda>f. uf_id f = fileId \<and> uf_batch_id f = batchId)"

definition file_in_batch :: "string \<Rightarrow> string \<Rightarrow> 'z upload_db_scheme \<Rightarrow> upload_file_row option" where
  "file_in_batch fileId batchId db = first_row (\<lambda>f. uf_id f = fileId \<and> uf_batch_id f = batchId) (upload_files db)"

definition finalizable_batch :: "nat \<Rightarrow> upload_batch_row \<Rightarrow> bool" where
  "finalizable_batch tm b \<longleftrightarrow> ub_status b \<in> {UB_OPEN, UB_UPLOADING, UB_FINALIZING, UB_READY}
     \<and> (\<not> writable_status (ub_status b) \<or> tm < ub_expires_at b)"

definition reserveArchiveBudget ::
    "nat \<Rightarrow> string \<Rightarrow> string \<Rightarrow> int \<Rightarrow> int \<Rightarrow> 'z upload_db_scheme \<Rightarrow> 'z upload_db_scheme result" where
  "reserveArchiveBudget tm fileId batchId expanded count db =
     (if expanded < 0 \<or> expanded > MAX_BATCH_EXPANDED_BYTES then Inl (PlainError ''ZIP_BATCH_EXPANDED_LIMIT'')
      else if count < 0 \<or> count > MAX_UPLOAD_BATCH_FILES then Inl (PlainError ''ZIP_TOO_MANY_ENTRIES'')
      else case first_row (\<lambda>b. ub_id b = batchId \<and> finalizable_batch tm b) (upload_batches db) of
        None \<Rightarrow> Inl (PlainError ''UPLOAD_FINALIZE_STATE_CHANGED'')
      | Some b \<Rightarrow> (case file_in_batch fileId batchId db of
          None \<Rightarrow> Inl (PlainError ''UPLOAD_FINALIZE_STATE_CHANGED'')
        | Some f \<Rightarrow>
            if uf_status f \<noteq> UF_ENCRYPTING then Inl (PlainError ''UPLOAD_FINALIZE_STATE_CHANGED'')
            else if uf_reservation f = RS_RESERVED
            then (if uf_archive_bytes f \<noteq> expanded \<or> uf_archive_files f \<noteq> count then Inl (PlainError ''ZIP_RESERVATION_MISMATCH'')
                  else Inr db)
            else if uf_reservation f \<noteq> RS_NONE then Inl (PlainError ''ZIP_RESERVATION_STATE_INVALID'')
            else if ub_expanded b + expanded > MAX_BATCH_EXPANDED_BYTES then Inl (PlainError ''ZIP_BATCH_EXPANDED_LIMIT'')
            else if ub_files b + count > MAX_UPLOAD_BATCH_FILES then Inl (PlainError ''ZIP_TOO_MANY_ENTRIES'')
            else Inr (set_file fileId batchId (\<lambda>r. r\<lparr>uf_reservation := RS_RESERVED, uf_archive_bytes := expanded,
                        uf_archive_files := count, uf_updated_at := tm\<rparr>)
                   (set_batch batchId (\<lambda>r. r\<lparr>ub_expanded := ub_expanded b + expanded, ub_files := ub_files b + count\<rparr>) db))))"

definition no_reservation :: "nat \<Rightarrow> upload_file_row \<Rightarrow> upload_file_row" where
  "no_reservation tm r = r\<lparr>uf_reservation := RS_NONE, uf_archive_bytes := 0, uf_archive_files := 0, uf_updated_at := tm\<rparr>"

definition releaseArchiveBudget ::
    "nat \<Rightarrow> string \<Rightarrow> string \<Rightarrow> 'z upload_db_scheme \<Rightarrow> (bool \<times> 'z upload_db_scheme) result" where
  "releaseArchiveBudget tm fileId batchId db =
     (case batch_of batchId db of
        None \<Rightarrow> Inr (False, db)
      | Some b \<Rightarrow> (case file_in_batch fileId batchId db of
          None \<Rightarrow> Inr (False, db)
        | Some f \<Rightarrow>
            if uf_reservation f \<noteq> RS_RESERVED then Inr (False, db)
            else if ub_expanded b < uf_archive_bytes f \<or> ub_files b < uf_archive_files f
            then Inl (PlainError ''UPLOAD_ARCHIVE_BUDGET_CORRUPTED'')
            else Inr (True,
              set_files (\<lambda>r. uf_id r = fileId \<and> uf_batch_id r = batchId \<and> uf_reservation r = RS_RESERVED) (no_reservation tm)
                (set_batch batchId (\<lambda>r. r\<lparr>ub_expanded := ub_expanded r - uf_archive_bytes f,
                   ub_files := ub_files r - uf_archive_files f\<rparr>) db))))"

definition reserved_bytes :: "string \<Rightarrow> upload_file_row list \<Rightarrow> int" where
  "reserved_bytes batchId files =
     sum_list (map uf_archive_bytes (filter (\<lambda>f. uf_reservation f = RS_RESERVED \<and> uf_batch_id f = batchId) files))"

definition reserved_files :: "string \<Rightarrow> upload_file_row list \<Rightarrow> int" where
  "reserved_files batchId files =
     sum_list (map uf_archive_files (filter (\<lambda>f. uf_reservation f = RS_RESERVED \<and> uf_batch_id f = batchId) files))"

text \<open>The sums per batch, taken back in one statement when every batch has them.\<close>

definition releaseReservedArchiveBudgets :: "upload_file_row list \<Rightarrow> 'z upload_db_scheme \<Rightarrow> 'z upload_db_scheme result" where
  "releaseReservedArchiveBudgets files db =
     (let touched = remdups (map uf_batch_id (filter (\<lambda>f. uf_reservation f = RS_RESERVED) files));
          enough = (\<lambda>b. reserved_bytes (ub_id b) files \<le> ub_expanded b \<and> reserved_files (ub_id b) files \<le> ub_files b) in
      if list_all (\<lambda>i. list_ex (\<lambda>b. ub_id b = i \<and> enough b) (upload_batches db)) touched
      then Inr (db\<lparr>upload_batches := update_rows (\<lambda>b. ub_id b \<in> set touched \<and> enough b)
        (\<lambda>b. b\<lparr>ub_expanded := ub_expanded b - reserved_bytes (ub_id b) files,
               ub_files := ub_files b - reserved_files (ub_id b) files\<rparr>) (upload_batches db)\<rparr>)
      else Inl (PlainError ''UPLOAD_ARCHIVE_BUDGET_CORRUPTED''))"

end
