(* ===== verification/UploadLife.thy ===== *)
theory UploadLife
  imports UploadOps
begin

text \<open>
  The preflight of a batch, completing it, the failure of a file, removal, cancellation, expiry and the cleaning of
  the staging area: \<open>service.ts\<close>, \<open>partial-failure.ts\<close> and \<open>staging-cleanup.ts\<close> of \<open>src/modules/uploads\<close>.
\<close>

section \<open>Preflight\<close>

record PreflightCounts =
  pc_expected :: nat
  pc_analyzed :: nat
  pc_parsed :: nat
  pc_awaiting :: nat
  pc_failed :: nat

record UploadPreflightProjection =
  pp_status :: import_status
  pp_stage :: import_stage
  pp_failure :: "string option"

definition decideUploadPreflight :: "PreflightCounts \<Rightarrow> UploadPreflightProjection" where
  "decideUploadPreflight counts =
     (if pc_expected counts = 0
      then \<lparr> pp_status = IB_FAILED, pp_stage = Stage_PREFLIGHT_COMPLETE, pp_failure = Some ''NO_USABLE_UPLOAD_FILES'' \<rparr>
      else if pc_expected counts \<noteq> pc_analyzed counts
      then \<lparr> pp_status = IB_ANALYZING, pp_stage = Stage_PREFLIGHT, pp_failure = None \<rparr>
      else if pc_parsed counts = 0
      then \<lparr> pp_status = IB_FAILED, pp_stage = Stage_PREFLIGHT_COMPLETE, pp_failure = Some ''NO_USABLE_UPLOAD_FILES'' \<rparr>
      else \<lparr> pp_status = IB_COMMITTING, pp_stage = Stage_COPY, pp_failure = None \<rparr>)"

definition object_or_id :: "upload_file_row \<Rightarrow> string" where
  "object_or_id f = (case uf_object f of Some i \<Rightarrow> i | None \<Rightarrow> uf_id f)"

definition preflight_counts :: "string \<Rightarrow> string \<Rightarrow> 'z upload_db_scheme \<Rightarrow> PreflightCounts" where
  "preflight_counts batchId importId db =
     (let files = filter (\<lambda>f. uf_batch_id f = batchId) (upload_files db);
          rows = filter (\<lambda>r. if_batch r = importId) (import_files db) in
      \<lparr> pc_expected = length (remdups (map object_or_id (filter (\<lambda>f. uf_status f \<noteq> UF_FAILED) files))),
        pc_analyzed = length rows,
        pc_parsed = count_rows (\<lambda>r. if_status r = Parse_PARSED) rows,
        pc_awaiting = count_rows (\<lambda>r. if_status r = Parse_AWAITING_MAPPING) rows,
        pc_failed = count_rows (\<lambda>f. uf_status f = UF_FAILED) files \<rparr>)"

definition insert_issue_once :: "(import_issue_row \<Rightarrow> bool) \<Rightarrow> import_issue_row \<Rightarrow> 'z upload_db_scheme \<Rightarrow> 'z upload_db_scheme" where
  "insert_issue_once same r db = (if list_ex same (import_issues db) then db else db\<lparr>import_issues := import_issues db @ [r]\<rparr>)"

definition preflight_issue :: "string \<Rightarrow> string \<Rightarrow> 'z upload_db_scheme \<Rightarrow> 'z upload_db_scheme" where
  "preflight_issue importId code =
     insert_issue_once (\<lambda>i. ii_batch i = importId \<and> ii_code i = code \<and> ii_context i = Batch_preflight)
       \<lparr> ii_batch = importId, ii_code = code, ii_context = Batch_preflight \<rparr>"

definition mutable_preflight :: "import_status \<Rightarrow> bool" where
  "mutable_preflight s \<longleftrightarrow> s \<in> {IB_UPLOADING, IB_ANALYZING, IB_AWAITING_FILES, IB_AWAITING_MAPPING, IB_AWAITING_COMMIT_CONFIRMATION}"

definition upload_event :: "(string \<Rightarrow> string \<Rightarrow> string) \<Rightarrow> string \<Rightarrow> string \<Rightarrow> json_object \<Rightarrow> outbox_row" where
  "upload_event ev topic key payload = \<lparr> ob_id = ev topic key, ob_topic = topic, ob_business_key = key, ob_payload = payload \<rparr>"

definition send :: "outbox_row \<Rightarrow> 'z upload_db_scheme \<Rightarrow> 'z upload_db_scheme" where
  "send e db =
     (if \<exists>r \<in> set (outbox db). ob_topic r = ob_topic e \<and> ob_business_key r = ob_business_key e
      then db else db\<lparr>outbox := outbox db @ [e]\<rparr>)"

definition commit_event :: "(string \<Rightarrow> string \<Rightarrow> string) \<Rightarrow> import_batch_row \<Rightarrow> outbox_row" where
  "commit_event ev ib = upload_event ev ''import.commit'' (''auto:'' @ ib_id ib)
     [(''batchId'', Some (ib_id ib)), (''shopId'', Some (ib_shop_id ib)), (''actorAccountId'', Some (ib_created_by ib))]"

definition apply_projection ::
    "(string \<Rightarrow> string \<Rightarrow> string) \<Rightarrow> import_batch_row \<Rightarrow> UploadPreflightProjection \<Rightarrow> 'z upload_db_scheme \<Rightarrow> 'z upload_db_scheme" where
  "apply_projection ev current p db =
     (if mutable_preflight (ib_status current)
      then let db1 = set_import (ib_id current) (\<lambda>b. b\<lparr>ib_status := pp_status p, ib_stage := pp_stage p, ib_failure := pp_failure p\<rparr>) db in
        if pp_status p = IB_COMMITTING then send (commit_event ev current) db1 else db1
      else db)"

definition refreshUploadPreflight ::
    "(string \<Rightarrow> string \<Rightarrow> string) \<Rightarrow> string \<Rightarrow> string \<Rightarrow> 'z upload_db_scheme \<Rightarrow> (UploadPreflightProjection \<times> 'z upload_db_scheme) result" where
  "refreshUploadPreflight ev batchId importId db =
     (case first_row (\<lambda>b. ib_id b = importId) (import_batches db) of
        None \<Rightarrow> Inl (PlainError ''IMPORT_BATCH_NOT_FOUND'')
      | Some current \<Rightarrow>
          let p = decideUploadPreflight (preflight_counts batchId importId db);
              db1 = (case pp_failure p of None \<Rightarrow> db | Some code \<Rightarrow> preflight_issue importId code db) in
          Inr (p, apply_projection ev current p db1))"

section \<open>Completing a batch\<close>

definition completable :: "import_status \<Rightarrow> bool" where
  "completable s \<longleftrightarrow> s \<in> {IB_UPLOADING, IB_ANALYZING, IB_AWAITING_MAPPING, IB_AWAITING_COMMIT_CONFIRMATION}"

definition finalize_event :: "(string \<Rightarrow> string \<Rightarrow> string) \<Rightarrow> string \<Rightarrow> outbox_row" where
  "finalize_event ev i = upload_event ev ''upload.finalize'' i [(''fileId'', Some i)]"

definition send_finalizations :: "(string \<Rightarrow> string \<Rightarrow> string) \<Rightarrow> string \<Rightarrow> 'z upload_db_scheme \<Rightarrow> 'z upload_db_scheme" where
  "send_finalizations ev batchId db =
     fold (\<lambda>f. send (finalize_event ev (uf_id f)))
       (filter (\<lambda>f. uf_batch_id f = batchId \<and> uf_status f = UF_COMPLETE \<and> \<not> uf_metadata f) (upload_files db)) db"

definition batch_count :: "string \<Rightarrow> file_status set \<Rightarrow> 'z upload_db_scheme \<Rightarrow> nat" where
  "batch_count batchId states db = count_rows (\<lambda>f. uf_batch_id f = batchId \<and> uf_status f \<in> states) (upload_files db)"

definition submitted ::
    "(string \<Rightarrow> string \<Rightarrow> string) \<Rightarrow> upload_batch_row \<Rightarrow> 'z upload_db_scheme \<Rightarrow> 'z upload_db_scheme" where
  "submitted ev b db =
     (if ub_status b = UB_READY then db
      else send_finalizations ev (ub_id b) (set_batch (ub_id b) (\<lambda>r. r\<lparr>ub_status := UB_READY\<rparr>) db))"

definition completeBatch ::
    "(string \<Rightarrow> string \<Rightarrow> string) \<Rightarrow> string \<Rightarrow> 'z upload_db_scheme \<Rightarrow> ((string \<times> import_status) \<times> 'z upload_db_scheme) result" where
  "completeBatch ev batchId db =
     (case batch_of batchId db of
        None \<Rightarrow> Inl (PlainError ''UPLOAD_BATCH_NOT_FOUND'')
      | Some b \<Rightarrow>
          if ub_status b \<notin> {UB_OPEN, UB_UPLOADING, UB_READY} then Inl (AppError ''UPLOAD_BATCH_NOT_COMPLETABLE'' 409 None)
          else case import_of batchId db of
            None \<Rightarrow> Inl (PlainError ''IMPORT_BATCH_NOT_FOUND'')
          | Some ib \<Rightarrow>
              if \<not> completable (ib_status ib) then Inr ((ib_id ib, ib_status ib), db)
              else if batch_count batchId {UF_PENDING, UF_UPLOADING} db \<noteq> 0 then Inl (PlainError ''UPLOAD_FILES_NOT_COMPLETE'')
              else if batch_count batchId {UF_COMPLETE, UF_ENCRYPTING, UF_STORED} db = 0
              then Inl (AppError ''UPLOAD_BATCH_NO_STAGED_FILES'' 409 None)
              else bindE (refreshUploadPreflight ev batchId (ib_id ib) (submitted ev b db)) (\<lambda>(p, db1).
                Inr ((ib_id ib, pp_status p), db1)))"

section \<open>Cleaning the staging area\<close>

definition uuid_pattern :: "string \<Rightarrow> bool" where
  "uuid_pattern s \<longleftrightarrow> length s = 36 \<and>
     list_all (\<lambda>i. let c = to_lower (s ! i) in
       if i \<in> {8, 13, 18, 23} then c = CHR ''-''
       else if i = 14 then c \<in> set ''12345678''
       else if i = 19 then c \<in> set ''89ab''
       else is_digit c \<or> c \<in> set ''abcdef'') [0..<36]"

definition dirname :: "string \<Rightarrow> string" where
  "dirname path = rev (drop 1 (dropWhile (\<lambda>c. c \<noteq> CHR ''/'') (rev path)))"

definition remove_below :: "string \<Rightarrow> (string \<Rightarrow> bytes option) \<Rightarrow> string \<Rightarrow> bytes option" where
  "remove_below directory disk = (\<lambda>p. if starts_with (directory @ ''/'') p then None else disk p)"

definition removeUploadStagingArtifacts :: "string \<Rightarrow> string \<Rightarrow> (string \<Rightarrow> bytes option) \<Rightarrow> (string \<Rightarrow> bytes option) result" where
  "removeUploadStagingArtifacts fileId temp disk =
     (if temp = [] then Inr disk
      else if \<not> uuid_pattern fileId then Inl (PlainError ''UPLOAD_STAGING_CLEANUP_FILE_ID_INVALID'')
      else Inr (remove_below (dirname temp @ ''/chunks/'' @ fileId)
                 (remove_below (dirname temp @ ''/archive/'' @ fileId) (disk(temp := None)))))"

definition cleanupUploadStagingArtifacts ::
    "nat \<Rightarrow> string \<Rightarrow> string \<Rightarrow> 'z upload_db_scheme \<Rightarrow> unit result \<times> 'z upload_db_scheme" where
  "cleanupUploadStagingArtifacts tm fileId temp db =
     (if temp = [] then (Inr (), db)
      else case removeUploadStagingArtifacts fileId temp (staging_disk db) of
        Inl e \<Rightarrow> (Inl e, db)
      | Inr disk \<Rightarrow>
          let db1 = set_files (\<lambda>f. uf_id f = fileId \<and> uf_temp f = temp) (\<lambda>f. f\<lparr>uf_temp := [], uf_updated_at := tm\<rparr>)
                      (db\<lparr>staging_disk := disk\<rparr>) in
          if list_ex (\<lambda>f. uf_id f = fileId \<and> (uf_temp f = temp \<or> uf_temp f = [])) (upload_files db)
          then (Inr (), db1) else (Inl (PlainError ''UPLOAD_STAGING_CLEANUP_STATE_CHANGED''), db1))"

text \<open>All files, one after the other; the first failure is the answer, the others are cleaned all the same.\<close>

fun cleanup_all :: "nat \<Rightarrow> (string \<times> string) list \<Rightarrow> 'z upload_db_scheme \<Rightarrow> unit result \<times> 'z upload_db_scheme" where
  "cleanup_all tm [] db = (Inr (), db)"
| "cleanup_all tm ((i, temp) # rest) db =
     (case cleanupUploadStagingArtifacts tm i temp db of
        (Inr _, db1) \<Rightarrow> cleanup_all tm rest db1
      | (Inl e, db1) \<Rightarrow> (Inl e, snd (cleanup_all tm rest db1)))"

definition staged_files :: "upload_file_row list \<Rightarrow> (string \<times> string) list" where
  "staged_files files = map (\<lambda>f. (uf_id f, uf_temp f)) files"

section \<open>Failing a file\<close>

definition failure_issue :: "string \<Rightarrow> string \<Rightarrow> upload_file_row \<Rightarrow> 'z upload_db_scheme \<Rightarrow> 'z upload_db_scheme" where
  "failure_issue importId code f =
     insert_issue_once (\<lambda>i. ii_batch i = importId \<and> (case ii_context i of File_failure j _ \<Rightarrow> j = uf_id f | _ \<Rightarrow> False))
       \<lparr> ii_batch = importId, ii_code = code, ii_context = File_failure (uf_id f) (uf_path f) \<rparr>"

definition mark_failed :: "nat \<Rightarrow> upload_file_row \<Rightarrow> 'z upload_db_scheme \<Rightarrow> 'z upload_db_scheme" where
  "mark_failed tm f db =
     (if uf_status f = UF_FAILED then db
      else set_files (\<lambda>r. uf_id r = uf_id f) (\<lambda>r. r\<lparr>uf_status := UF_FAILED, uf_updated_at := tm\<rparr>) db)"

definition report_failure ::
    "(string \<Rightarrow> string \<Rightarrow> string) \<Rightarrow> string \<Rightarrow> upload_file_row \<Rightarrow> upload_batch_row \<Rightarrow> import_batch_row \<Rightarrow> 'z upload_db_scheme
     \<Rightarrow> (string \<times> 'z upload_db_scheme) result" where
  "report_failure ev code f b ib db =
     (let db1 = failure_issue (ib_id ib) code f db in
      if ub_status b = UB_READY \<and> completable (ib_status ib)
      then bindE (refreshUploadPreflight ev (uf_batch_id f) (ib_id ib) db1) (\<lambda>(_, db2). Inr (uf_temp f, db2))
      else Inr (uf_temp f, db1))"

definition recordUploadFileFailure ::
    "(string \<Rightarrow> string \<Rightarrow> string) \<Rightarrow> nat \<Rightarrow> string \<Rightarrow> string \<Rightarrow> file_status set \<Rightarrow> 'z upload_db_scheme \<Rightarrow> (string \<times> 'z upload_db_scheme) result" where
  "recordUploadFileFailure ev tm fileId code permitted db =
     (case file_of fileId db of
        None \<Rightarrow> Inl (PlainError ''UPLOAD_FILE_NOT_FOUND'')
      | Some f \<Rightarrow> (case (batch_of (uf_batch_id f) db, import_of (uf_batch_id f) db) of
          (Some b, Some ib) \<Rightarrow>
            if uf_status f \<noteq> UF_FAILED \<and> uf_status f \<notin> permitted then Inl (PlainError ''UPLOAD_FILE_NOT_FAILABLE'')
            else bindE (if uf_reservation f = RS_RESERVED then releaseArchiveBudget tm fileId (uf_batch_id f) db else Inr (False, db)) (\<lambda>(_, db1).
              report_failure ev code f b ib (mark_failed tm f db1))
        | _ \<Rightarrow> Inl (PlainError ''UPLOAD_FILE_NOT_FOUND'')))"

definition CLIENT_UPLOAD_FAILURE_CODES :: "string list" where
  "CLIENT_UPLOAD_FAILURE_CODES = [''CLIENT_NETWORK_RETRY_EXHAUSTED'', ''CLIENT_FILE_READ_FAILED'', ''CLIENT_UPLOAD_ABORTED'']"

definition isClientUploadFailureCode :: "string \<Rightarrow> bool" where
  "isClientUploadFailureCode code \<longleftrightarrow> code \<in> set CLIENT_UPLOAD_FAILURE_CODES"

definition failFile ::
    "(string \<Rightarrow> string \<Rightarrow> string) \<Rightarrow> nat \<Rightarrow> string \<Rightarrow> string \<Rightarrow> 'z upload_db_scheme \<Rightarrow> unit result \<times> 'z upload_db_scheme" where
  "failFile ev tm fileId code db =
     (case recordUploadFileFailure ev tm fileId code {UF_PENDING, UF_UPLOADING} db of
        Inl e \<Rightarrow> (Inl e, db)
      | Inr (temp, db') \<Rightarrow> cleanupUploadStagingArtifacts tm fileId temp db')"

section \<open>Removing files before the import\<close>

record RemovedUploadFilesResult =
  rr_removed :: nat
  rr_remaining :: nat
  rr_cancelled :: bool

text \<open>
  PostgreSQL reads the identifiers of the request as UUIDs, whatever their case; the record of the removal keeps
  them as they were written, and is searched for the lower case the database prints.
\<close>

definition uuid_of :: "string \<Rightarrow> string" where
  "uuid_of s = map to_lower s"

definition removed_before :: "string \<Rightarrow> 'z upload_db_scheme \<Rightarrow> upload_file_row \<Rightarrow> bool" where
  "removed_before batchId db f \<longleftrightarrow> (\<exists>r \<in> set (removals db). rm_batch r = batchId \<and> uf_id f \<in> set (rm_files r))"

definition release_usage :: "string \<Rightarrow> upload_file_row list \<Rightarrow> 'z upload_db_scheme \<Rightarrow> 'z upload_db_scheme result" where
  "release_usage batchId files db =
     (let declared = sum_list (map uf_declared files); received = sum_list (map uf_received files); count = int (length files) in
      if files = [] then Inr db
      else if list_ex (\<lambda>b. ub_id b = batchId \<and> declared \<le> ub_declared b \<and> received \<le> ub_received b \<and> count \<le> ub_files b) (upload_batches db)
      then Inr (set_batch batchId (\<lambda>b. b\<lparr>ub_declared := ub_declared b - declared, ub_received := ub_received b - received,
                  ub_files := ub_files b - count\<rparr>) db)
      else Inl (PlainError ''UPLOAD_BATCH_USAGE_CORRUPTED''))"

definition cancel_pair :: "string \<Rightarrow> string \<Rightarrow> 'z upload_db_scheme \<Rightarrow> 'z upload_db_scheme" where
  "cancel_pair batchId importId db =
     set_import importId (\<lambda>b. b\<lparr>ib_status := IB_CANCELLED, ib_stage := Stage_CANCELLED\<rparr>)
       (set_batch batchId (\<lambda>b. b\<lparr>ub_status := UB_CANCELLED\<rparr>) db)"

definition drop_metadata_imports :: "string \<Rightarrow> upload_file_row list \<Rightarrow> 'z upload_db_scheme \<Rightarrow> 'z upload_db_scheme" where
  "drop_metadata_imports importId files db =
     db\<lparr>import_files := filter (\<lambda>r. \<not> (if_batch r = importId \<and> if_metadata r
       \<and> (\<exists>f \<in> set files. uf_metadata f \<and> uf_path f = if_path r))) (import_files db)\<rparr>"

definition record_removal :: "removal_row \<Rightarrow> 'z upload_db_scheme \<Rightarrow> 'z upload_db_scheme" where
  "record_removal r db =
     (if \<exists>x \<in> set (removals db). rm_batch x = rm_batch r \<and> rm_files x = rm_files r then db
      else db\<lparr>removals := removals db @ [r]\<rparr>)"

definition remove_open ::
    "nat \<Rightarrow> string \<Rightarrow> string \<Rightarrow> string list \<Rightarrow> string \<Rightarrow> upload_file_row list \<Rightarrow> nat \<Rightarrow> 'z upload_db_scheme \<Rightarrow> 'z upload_db_scheme result" where
  "remove_open tm batchId importId ids actor files remaining db =
     bindE (release_usage batchId (filter (\<lambda>f. \<not> removed_before batchId db f) files) db) (\<lambda>db1.
       let db2 = drop_metadata_imports importId files db1;
           db3 = set_files (\<lambda>f. uf_batch_id f = batchId \<and> uf_id f \<in> uuid_of ` set ids
                   \<and> uf_status f \<in> {UF_PENDING, UF_UPLOADING, UF_COMPLETE, UF_FAILED})
                   (\<lambda>f. f\<lparr>uf_status := UF_FAILED, uf_updated_at := tm\<rparr>) db2;
           db4 = (if remaining = 0 then cancel_pair batchId importId db3 else db3) in
       Inr (record_removal \<lparr> rm_actor = actor, rm_batch = batchId, rm_files = ids, rm_remaining = remaining,
              rm_cancelled = (remaining = 0) \<rparr> db4))"

definition removal_allowed :: "upload_batch_row \<Rightarrow> import_batch_row \<Rightarrow> bool \<Rightarrow> string list \<Rightarrow> upload_file_row list \<Rightarrow> unit result" where
  "removal_allowed b ib alreadyCancelled ids files =
     (if length files \<noteq> length ids then Inl (AppError ''UPLOAD_FILE_REMOVAL_TARGET_MISMATCH'' 409 None)
      else if \<not> alreadyCancelled \<and> (ub_status b \<noteq> UB_UPLOADING \<or> ib_status ib \<noteq> IB_UPLOADING)
      then Inl (AppError ''UPLOAD_FILE_REMOVAL_CLOSED'' 409 None)
      else if list_ex (\<lambda>f. uf_object f \<noteq> None \<or> uf_status f \<in> {UF_ENCRYPTING, UF_STORED} \<or> uf_reservation f \<noteq> RS_NONE) files
      then Inl (AppError ''UPLOAD_FILE_REMOVAL_IMMUTABLE'' 409 None)
      else Inr ())"

definition removal_targets :: "string \<Rightarrow> string list \<Rightarrow> 'z upload_db_scheme \<Rightarrow> upload_file_row list" where
  "removal_targets batchId ids db = filter (\<lambda>f. uf_batch_id f = batchId \<and> uf_id f \<in> uuid_of ` set ids) (upload_files db)"

definition remaining_files :: "string \<Rightarrow> string list \<Rightarrow> 'z upload_db_scheme \<Rightarrow> nat" where
  "remaining_files batchId ids db =
     count_rows (\<lambda>f. uf_batch_id f = batchId \<and> uf_status f \<noteq> UF_FAILED \<and> uf_id f \<notin> uuid_of ` set ids) (upload_files db)"

definition already_cancelled :: "string \<Rightarrow> string list \<Rightarrow> upload_batch_row \<Rightarrow> import_batch_row \<Rightarrow> 'z upload_db_scheme \<Rightarrow> bool" where
  "already_cancelled batchId ids b ib db \<longleftrightarrow>
     ub_status b = UB_CANCELLED \<and> ib_status ib = IB_CANCELLED \<and> remaining_files batchId ids db = 0
     \<and> list_all (\<lambda>f. removed_before batchId db f \<and> uf_status f = UF_FAILED \<and> uf_object f = None) (removal_targets batchId ids db)"

definition remove_tx ::
    "nat \<Rightarrow> string \<Rightarrow> string list \<Rightarrow> string \<Rightarrow> 'z upload_db_scheme
     \<Rightarrow> ((upload_file_row list \<times> RemovedUploadFilesResult) \<times> 'z upload_db_scheme) result" where
  "remove_tx tm batchId ids actor db =
     (case (batch_of batchId db, import_of batchId db) of
        (Some b, Some ib) \<Rightarrow>
          let files = removal_targets batchId ids db; remaining = remaining_files batchId ids db in
          bindE (removal_allowed b ib (already_cancelled batchId ids b ib db) ids files) (\<lambda>_.
          bindE (if already_cancelled batchId ids b ib db then Inr db
                 else remove_open tm batchId (ib_id ib) ids actor files remaining db) (\<lambda>db'.
          Inr ((files, \<lparr> rr_removed = length ids, rr_remaining = remaining, rr_cancelled = (remaining = 0) \<rparr>), db')))
      | _ \<Rightarrow> Inl (PlainError ''UPLOAD_BATCH_NOT_FOUND''))"

definition removeFiles ::
    "nat \<Rightarrow> string \<Rightarrow> string list \<Rightarrow> string \<Rightarrow> 'z upload_db_scheme \<Rightarrow> RemovedUploadFilesResult result \<times> 'z upload_db_scheme" where
  "removeFiles tm batchId fileIds actor db =
     (let ids = sort (remdups fileIds) in
      if ids = [] \<or> int (length ids) > MAX_UPLOAD_BATCH_FILES then (Inl (AppError ''UPLOAD_FILE_REMOVAL_INVALID'' 400 None), db)
      else case remove_tx tm batchId ids actor db of
        Inl e \<Rightarrow> (Inl e, db)
      | Inr ((files, answer), db') \<Rightarrow>
          (case cleanup_all tm (staged_files files) db' of (Inr _, db'') \<Rightarrow> (Inr answer, db'') | (Inl e, db'') \<Rightarrow> (Inl e, db'')))"

section \<open>Cancelling and expiring\<close>

definition fail_unstored :: "nat \<Rightarrow> upload_file_row \<Rightarrow> upload_file_row" where
  "fail_unstored tm f = f\<lparr>uf_status := UF_FAILED, uf_reservation := RS_NONE, uf_archive_bytes := 0, uf_archive_files := 0, uf_updated_at := tm\<rparr>"

definition cancellable_import :: "import_status \<Rightarrow> bool" where
  "cancellable_import s \<longleftrightarrow> s \<in> {IB_DRAFT, IB_UPLOADING, IB_ANALYZING, IB_AWAITING_FILES, IB_AWAITING_MAPPING,
     IB_AWAITING_COMMIT_CONFIRMATION, IB_RETRYING, IB_FAILED}"

definition cancel_tx :: "nat \<Rightarrow> string \<Rightarrow> 'z upload_db_scheme \<Rightarrow> (upload_file_row list \<times> 'z upload_db_scheme) result" where
  "cancel_tx tm batchId db =
     (let files = filter (\<lambda>f. uf_batch_id f = batchId \<and> uf_temp f \<noteq> []) (upload_files db) in
      bindE (releaseReservedArchiveBudgets files db) (\<lambda>db1.
        let db2 = db1\<lparr>upload_batches := update_rows (\<lambda>b. ub_id b = batchId \<and> ub_status b \<in> {UB_OPEN, UB_UPLOADING, UB_FINALIZING, UB_FAILED})
                    (\<lambda>b. b\<lparr>ub_status := UB_CANCELLED\<rparr>) (upload_batches db1),
                  import_batches := update_rows (\<lambda>b. ib_upload_id b = batchId \<and> cancellable_import (ib_status b))
                    (\<lambda>b. b\<lparr>ib_status := IB_CANCELLED, ib_stage := Stage_CANCELLED\<rparr>) (import_batches db1)\<rparr> in
        Inr (files, set_files (\<lambda>f. uf_id f \<in> set (map uf_id files) \<and> uf_status f \<noteq> UF_STORED) (fail_unstored tm) db2)))"

definition cancelBatch :: "nat \<Rightarrow> string \<Rightarrow> 'z upload_db_scheme \<Rightarrow> unit result \<times> 'z upload_db_scheme" where
  "cancelBatch tm batchId db =
     (case cancel_tx tm batchId db of
        Inl e \<Rightarrow> (Inl e, db)
      | Inr (files, db') \<Rightarrow> cleanup_all tm (staged_files files) db')"

definition expired_batches :: "nat \<Rightarrow> 'z upload_db_scheme \<Rightarrow> string list" where
  "expired_batches tm db =
     map ub_id (take 100 (sort_key ub_expires_at (sort_key ub_id
       (filter (\<lambda>b. ub_status b \<in> {UB_OPEN, UB_UPLOADING, UB_FAILED} \<and> ub_expires_at b \<le> tm) (upload_batches db)))))"

definition abandoned_files :: "'z upload_db_scheme \<Rightarrow> upload_file_row list" where
  "abandoned_files db =
     take 100 (sort_key uf_updated_at (sort_key uf_id (filter (\<lambda>f. uf_temp f \<noteq> [] \<and>
       (\<exists>b \<in> set (upload_batches db). ub_id b = uf_batch_id f \<and> (uf_status f = UF_FAILED \<or> ub_status b \<in> {UB_EXPIRED, UB_CANCELLED})))
       (upload_files db))))"

definition expire_tx :: "nat \<Rightarrow> 'z upload_db_scheme \<Rightarrow> (upload_file_row list \<times> 'z upload_db_scheme) result" where
  "expire_tx tm db =
     (let expired = expired_batches tm db;
          db1 = db\<lparr>upload_batches := update_rows (\<lambda>b. ub_id b \<in> set expired) (\<lambda>b. b\<lparr>ub_status := UB_EXPIRED\<rparr>) (upload_batches db)\<rparr>;
          files = abandoned_files db1 in
      bindE (releaseReservedArchiveBudgets files db1) (\<lambda>db2.
        Inr (files, set_files (\<lambda>f. uf_id f \<in> set (map uf_id files))
          (\<lambda>f. if uf_status f = UF_STORED then f\<lparr>uf_updated_at := tm\<rparr> else fail_unstored tm f) db2)))"

text \<open>A file that cannot be cleaned is logged and left for the next round.\<close>

fun cleanup_counted :: "nat \<Rightarrow> (string \<times> string) list \<Rightarrow> 'z upload_db_scheme \<Rightarrow> nat \<times> 'z upload_db_scheme" where
  "cleanup_counted tm [] db = (0, db)"
| "cleanup_counted tm ((i, temp) # rest) db =
     (case cleanupUploadStagingArtifacts tm i temp db of
        (r, db1) \<Rightarrow> (case cleanup_counted tm rest db1 of (n, db2) \<Rightarrow> (if isl r then n else Suc n, db2)))"

definition expireUploadStaging :: "nat \<Rightarrow> 'z upload_db_scheme \<Rightarrow> nat result \<times> 'z upload_db_scheme" where
  "expireUploadStaging tm db =
     (case expire_tx tm db of
        Inl e \<Rightarrow> (Inl e, db)
      | Inr (files, db') \<Rightarrow> (case cleanup_counted tm (staged_files files) db' of (n, db'') \<Rightarrow> (Inr n, db'')))"

end
