(* ===== verification/Archive.thy ===== *)
theory Archive
  imports Uploads
begin

text \<open>
  What is in a file: \<open>src/shared/pdf-header.ts\<close>, \<open>src/modules/uploads/file-kind.ts\<close> and the archive checks of
  \<open>src/modules/archive/zip-validator.ts\<close>. The ZIP reader (yauzl) is a parameter: it turns bytes into a list of
  entries and tells whether the directory ends well; an entry delivers bytes and tells whether its stream ends
  well. The time limits are left out.
\<close>

unbundle bit_operations_syntax

section \<open>Headers\<close>

definition PDF_HEADER :: bytes where
  "PDF_HEADER = [0x25, 0x50, 0x44, 0x46, 0x2D]"

definition PDF_HEADER_MAX_LEADING_BYTES :: nat where "PDF_HEADER_MAX_LEADING_BYTES = 1024"
definition PDF_HEADER_PROBE_BYTES :: nat where "PDF_HEADER_PROBE_BYTES = PDF_HEADER_MAX_LEADING_BYTES + 5"

definition hasPdfHeaderInLeadingBytes :: "bytes \<Rightarrow> bool" where
  "hasPdfHeaderInLeadingBytes b \<longleftrightarrow>
     list_ex (\<lambda>start. take 5 (drop start b) = PDF_HEADER) [0..<Suc (min PDF_HEADER_MAX_LEADING_BYTES (length b - 5))]"

definition hasZipMagic :: "bytes \<Rightarrow> bool" where
  "hasZipMagic b \<longleftrightarrow> 4 \<le> length b \<and> take 2 b = [0x50, 0x4B] \<and> take 2 (drop 2 b) \<in> {[0x03, 0x04], [0x05, 0x06], [0x07, 0x08]}"

section \<open>Entries\<close>

record zip_entry =
  ze_name :: code_points
  ze_attributes :: "32 word"
  ze_compressed :: int
  ze_uncompressed :: int
  ze_content :: bytes
  ze_ends :: bool

type_synonym zip_reader = "bytes \<Rightarrow> (zip_entry list \<times> bool) option"

record ZipLimits =
  zl_maxEntries :: int
  zl_maxEntryBytes :: int
  zl_maxExpandedBytes :: int
  zl_maxRatio :: int
  zl_maxPathBytes :: nat
  zl_maxSegmentBytes :: nat

definition defaultZipLimits :: ZipLimits where
  "defaultZipLimits = \<lparr> zl_maxEntries = 20000, zl_maxEntryBytes = 2 * 1024 * 1024 * 1024,
     zl_maxExpandedBytes = 8 * 1024 * 1024 * 1024, zl_maxRatio = 100, zl_maxPathBytes = 1024, zl_maxSegmentBytes = 255 \<rparr>"

definition ooxmlZipLimits :: ZipLimits where
  "ooxmlZipLimits = \<lparr> zl_maxEntries = 20000, zl_maxEntryBytes = 64 * 1024 * 1024,
     zl_maxExpandedBytes = 256 * 1024 * 1024, zl_maxRatio = 100, zl_maxPathBytes = 1024, zl_maxSegmentBytes = 255 \<rparr>"

record ZipEntryReport =
  zr_path :: code_points
  zr_compressed :: int
  zr_expanded :: int
  zr_directory :: bool

record archive_text =
  at_nfc :: "code_points \<Rightarrow> code_points"
  at_lower :: "code_points \<Rightarrow> code_points"

section \<open>Paths\<close>

text \<open>\<open>posix.normalize\<close> on a relative path.\<close>

fun normalize_segments :: "code_points list \<Rightarrow> code_points list \<Rightarrow> code_points list" where
  "normalize_segments st [] = rev st"
| "normalize_segments st (p # ps) =
     (if p = [] \<or> p = [46] then normalize_segments st ps
      else if p = [46, 46]
      then (case st of [] \<Rightarrow> normalize_segments [p] ps
            | s # r \<Rightarrow> if s = [46, 46] then normalize_segments (p # st) ps else normalize_segments r ps)
      else normalize_segments (p # st) ps)"

fun join_points :: "nat \<Rightarrow> code_points list \<Rightarrow> code_points" where
  "join_points sep [] = []"
| "join_points sep [p] = p"
| "join_points sep (p # q # ps) = p @ sep # join_points sep (q # ps)"

definition posix_normalize :: "code_points \<Rightarrow> code_points" where
  "posix_normalize v =
     (let body = join_points 47 (normalize_segments [] (split_points 47 v)); trailing = (v \<noteq> [] \<and> last v = 47) in
      if body = [] then (if trailing then [46, 47] else [46]) else body @ (if trailing then [47] else []))"

definition validatePath :: "ZipLimits \<Rightarrow> code_points \<Rightarrow> code_points result" where
  "validatePath limits path =
     (let normalized = map (\<lambda>c. if c = 92 then 47 else c) path; segments = filter (\<lambda>p. p \<noteq> []) (split_points 47 normalized);
          clean = posix_normalize normalized in
      if zl_maxPathBytes limits < byte_length normalized \<or> 0 \<in> set normalized \<or> drive_prefix normalized \<or> take 1 normalized = [47]
        \<or> segments = [] \<or> list_ex (\<lambda>p. p = [46] \<or> p = [46, 46] \<or> zl_maxSegmentBytes limits < byte_length p) segments
        \<or> take 3 clean = [46, 46, 47] \<or> clean = [46, 46]
      then Inl (PlainError ''ZIP_UNSAFE_PATH'') else Inr clean)"

text \<open>Symbolic links, devices, pipes and sockets, by the file type in the upper half of the attributes.\<close>

definition special_file :: "zip_entry \<Rightarrow> bool" where
  "special_file e \<longleftrightarrow> ((drop_bit 16 (ze_attributes e) AND 0xFFFF) AND 0xF000) \<in> {0xA000, 0x6000, 0x2000, 0x1000, 0xC000}"

definition ends_with_any :: "code_points list \<Rightarrow> code_points \<Rightarrow> bool" where
  "ends_with_any suffixes v \<longleftrightarrow> list_ex (\<lambda>s. length s \<le> length v \<and> ascii_lower (drop (length v - length s) v) = s) suffixes"

definition archive_suffixes :: "code_points list" where
  "archive_suffixes = map points [''.zip'', ''.7z'', ''.rar'', ''.tar'', ''.gz'', ''.bz2'', ''.xz'', ''.jar'']"

section \<open>The first reading\<close>

definition zip_error :: "string \<Rightarrow> err" where
  "zip_error code = PlainError (''ZIP_'' @ code)"

definition readEntry :: "ZipLimits \<Rightarrow> zip_entry \<Rightarrow> int result" where
  "readEntry limits e =
     (let prefix = take PDF_HEADER_PROBE_BYTES (ze_content e) in
      if hasZipMagic prefix then Inl (zip_error ''NESTED_ARCHIVE_REJECTED'')
      else if hasPdfHeaderInLeadingBytes prefix then Inl (zip_error ''PDF_ENTRY_REQUIRES_FOLDER_UPLOAD'')
      else if int (length (ze_content e)) > zl_maxEntryBytes limits then Inl (zip_error ''ENTRY_TOO_LARGE'')
      else if \<not> ze_ends e then Inl (JsError ''entry stream'')
      else Inr (int (length (ze_content e))))"

definition directory_entry :: "zip_entry \<Rightarrow> bool" where
  "directory_entry e \<longleftrightarrow> ze_name e \<noteq> [] \<and> last (ze_name e) = 47"

definition size_refused :: "ZipLimits \<Rightarrow> zip_entry \<Rightarrow> bool" where
  "size_refused limits e \<longleftrightarrow> ze_uncompressed e > zl_maxEntryBytes limits
     \<or> (if ze_compressed e = 0 then ze_uncompressed e > 0 else ze_uncompressed e > ze_compressed e * zl_maxRatio limits)"

definition validate_entry ::
    "archive_text \<Rightarrow> ZipLimits \<Rightarrow> ZipEntryReport list \<Rightarrow> code_points set \<Rightarrow> int \<Rightarrow> zip_entry \<Rightarrow> (ZipEntryReport \<times> code_points) result" where
  "validate_entry u limits reports names expandedTotal e =
     (if int (length reports) \<ge> zl_maxEntries limits then Inl (zip_error ''TOO_MANY_ENTRIES'')
      else bindE (validatePath limits (ze_name e)) (\<lambda>name.
        let collisionKey = at_lower u (at_nfc u name); directory = directory_entry e in
        if collisionKey \<in> names then Inl (zip_error ''PATH_COLLISION'')
        else if special_file e then Inl (zip_error ''SPECIAL_FILE_REJECTED'')
        else if \<not> directory \<and> ends_with_any archive_suffixes name then Inl (zip_error ''NESTED_ARCHIVE_REJECTED'')
        else if \<not> directory \<and> ends_with_any [points ''.pdf''] name then Inl (zip_error ''PDF_ENTRY_REQUIRES_FOLDER_UPLOAD'')
        else if size_refused limits e then Inl (zip_error ''RATIO_OR_SIZE_LIMIT'')
        else bindE (if directory then Inr 0 else readEntry limits e) (\<lambda>actual.
          if expandedTotal + actual > zl_maxExpandedBytes limits then Inl (zip_error ''EXPANDED_LIMIT'')
          else Inr (\<lparr> zr_path = name, zr_compressed = ze_compressed e, zr_expanded = actual, zr_directory = directory \<rparr>, collisionKey))))"

fun validate_entries ::
    "archive_text \<Rightarrow> ZipLimits \<Rightarrow> bool \<Rightarrow> ZipEntryReport list \<Rightarrow> code_points set \<Rightarrow> int \<Rightarrow> zip_entry list \<Rightarrow> ZipEntryReport list result" where
  "validate_entries u limits ends reports names expandedTotal [] = (if ends then Inr reports else Inl (JsError ''zip stream''))"
| "validate_entries u limits ends reports names expandedTotal (e # es) =
     bindE (validate_entry u limits reports names expandedTotal e) (\<lambda>(report, key).
       validate_entries u limits ends (reports @ [report]) (insert key names) (expandedTotal + zr_expanded report) es)"

definition validateZip :: "zip_reader \<Rightarrow> archive_text \<Rightarrow> ZipLimits \<Rightarrow> bytes \<Rightarrow> ZipEntryReport list result" where
  "validateZip reader u limits archive =
     (case reader archive of
        None \<Rightarrow> Inl (JsError ''ZIP_OPEN_FAILED'')
      | Some (entries, ends) \<Rightarrow> validate_entries u limits ends [] {} 0 entries)"

section \<open>The second reading\<close>

record ExtractedZipEntry =
  xe_report :: ZipEntryReport
  xe_destination :: string
  xe_content :: bytes

text \<open>
  The reports of files by path; of two with one path the later counts. The reports are those of the first reading, which the
  code makes at the start of \<open>extractValidatedZip\<close>; \<open>base\<close> and \<open>destination\<close> give paths as they are after
  \<open>resolve\<close>, so that the comparison of prefixes is one of absolute paths. \<open>allowed_write\<close> is the check of the free
  space before each entry.
\<close>

definition expected_report :: "ZipEntryReport list \<Rightarrow> code_points \<Rightarrow> ZipEntryReport option" where
  "expected_report reports path = find (\<lambda>r. zr_path r = path) (rev (filter (\<lambda>r. \<not> zr_directory r) reports))"

definition copyEntry :: "ZipLimits \<Rightarrow> int \<Rightarrow> zip_entry \<Rightarrow> unit result" where
  "copyEntry limits written e =
     (let prefix = take PDF_HEADER_PROBE_BYTES (ze_content e); actual = int (length (ze_content e)) in
      if hasZipMagic prefix then Inl (zip_error ''NESTED_ARCHIVE_REJECTED'')
      else if hasPdfHeaderInLeadingBytes prefix then Inl (zip_error ''PDF_ENTRY_REQUIRES_FOLDER_UPLOAD'')
      else if actual > zl_maxEntryBytes limits \<or> written + actual > zl_maxExpandedBytes limits then Inl (zip_error ''EXPANDED_LIMIT'')
      else if \<not> ze_ends e then Inl (JsError ''entry stream'')
      else Inr ())"

definition extract_entry ::
    "ZipLimits \<Rightarrow> string \<Rightarrow> (code_points \<Rightarrow> string) \<Rightarrow> (int \<Rightarrow> unit result) \<Rightarrow> ZipEntryReport list \<Rightarrow> int \<Rightarrow> zip_entry \<Rightarrow> ExtractedZipEntry option result" where
  "extract_entry limits base destination allowed_write reports written e =
     bindE (validatePath limits (ze_name e)) (\<lambda>path.
       if directory_entry e then Inr None
       else case expected_report reports path of
         None \<Rightarrow> Inl (zip_error ''VALIDATION_CHANGED'')
       | Some report \<Rightarrow>
           if \<not> starts_with (base @ ''/'') (destination path) then Inl (zip_error ''DESTINATION_ESCAPE'')
           else bindE (allowed_write (zr_expanded report)) (\<lambda>_.
                bindE (copyEntry limits written e) (\<lambda>_.
                if int (length (ze_content e)) \<noteq> zr_expanded report then Inl (zip_error ''ENTRY_SIZE_CHANGED'')
                else Inr (Some \<lparr> xe_report = report, xe_destination = destination path, xe_content = ze_content e \<rparr>))))"

fun extract_entries ::
    "ZipLimits \<Rightarrow> string \<Rightarrow> (code_points \<Rightarrow> string) \<Rightarrow> (int \<Rightarrow> unit result) \<Rightarrow> ZipEntryReport list \<Rightarrow> bool \<Rightarrow> int \<Rightarrow> zip_entry list
     \<Rightarrow> ExtractedZipEntry list result" where
  "extract_entries limits base destination allowed_write reports ends written [] = (if ends then Inr [] else Inl (JsError ''zip stream''))"
| "extract_entries limits base destination allowed_write reports ends written (e # es) =
     bindE (extract_entry limits base destination allowed_write reports written e) (\<lambda>x.
       case x of
         None \<Rightarrow> extract_entries limits base destination allowed_write reports ends written es
       | Some y \<Rightarrow> bindE (extract_entries limits base destination allowed_write reports ends (written + int (length (xe_content y))) es)
                    (\<lambda>ys. Inr (y # ys)))"

definition extractValidatedZip ::
    "zip_reader \<Rightarrow> ZipLimits \<Rightarrow> string \<Rightarrow> (code_points \<Rightarrow> string) \<Rightarrow> (int \<Rightarrow> unit result) \<Rightarrow> ZipEntryReport list \<Rightarrow> bytes \<Rightarrow> ExtractedZipEntry list result" where
  "extractValidatedZip reader limits base destination allowed_write reports archive =
     (case reader archive of
        None \<Rightarrow> Inl (JsError ''ZIP_OPEN_FAILED'')
      | Some (entries, ends) \<Rightarrow> extract_entries limits base destination allowed_write reports ends 0 entries)"

section \<open>The kind of a file\<close>

definition ooxml_names :: "code_points list" where
  "ooxml_names = [points ''[content_types].xml'', points ''_rels/.rels'', points ''xl/workbook.xml'']"

fun ooxml_scan :: "archive_text \<Rightarrow> bool \<Rightarrow> code_points list \<Rightarrow> nat \<Rightarrow> zip_entry list \<Rightarrow> bool" where
  "ooxml_scan u ends required n [] = (ends \<and> required = [])"
| "ooxml_scan u ends required n (e # es) =
     (if 20000 < Suc n then False
      else let left = removeAll (at_lower u (map (\<lambda>c. if c = 92 then 47 else c) (ze_name e))) required in
        left = [] \<or> ooxml_scan u ends left (Suc n) es)"

definition isOoxmlSpreadsheetContainer :: "zip_reader \<Rightarrow> archive_text \<Rightarrow> bytes \<Rightarrow> bool" where
  "isOoxmlSpreadsheetContainer reader u content =
     (case reader content of None \<Rightarrow> False | Some (entries, ends) \<Rightarrow> ooxml_scan u ends ooxml_names 0 entries)"

definition detectFileKind :: "zip_reader \<Rightarrow> archive_text \<Rightarrow> bytes \<Rightarrow> UploadedFileKind" where
  "detectFileKind reader u content =
     (let prefix = take 8192 content in
      if 4 \<le> length prefix \<and> take 2 prefix = [0x50, 0x4B] \<and> prefix ! 2 \<in> {0x03, 0x05, 0x07}
      then (if isOoxmlSpreadsheetContainer reader u content then K_OTHER else K_ZIP)
      else if hasPdfHeaderInLeadingBytes prefix then K_PDF
      else if 0 \<notin> set prefix \<or> take 2 prefix = [0xFF, 0xFE] \<or> take 2 prefix = [0xFE, 0xFF] then K_TEXT
      else K_OTHER)"

end
