(* ===== verification/UploadFinal.thy ===== *)
theory UploadFinal
  imports UploadLife Archive
begin

text \<open>
  Archiving an uploaded file: \<open>src/modules/uploads/finalize.ts\<close>, the free space it asks for
  (\<open>archive-budget.ts\<close>) and the worker's handler of \<open>upload.finalize\<close> (\<open>src/worker/register-handlers.ts\<close>). The
  encrypted object store is a parameter that may refuse; of what it writes the model keeps the row of
  \<open>stored_object\<close>. Volumes tell their device and their free bytes once per run.
\<close>

section \<open>Free space\<close>

definition ARCHIVE_STORAGE_RESERVE_BYTES :: int where "ARCHIVE_STORAGE_RESERVE_BYTES = 4 * 1024 * 1024 * 1024"

text \<open>What the file system answers, \<open>None\<close> when it fails.\<close>

record volumes =
  vo_staging_device :: "int option"
  vo_object_device :: "int option"
  vo_staging_free :: "int option"
  vo_object_free :: "int option"

definition no_evidence :: err where "no_evidence = PlainError ''UPLOAD_STORAGE_CAPACITY_EVIDENCE_UNAVAILABLE''"
definition no_space :: err where "no_space = PlainError ''UPLOAD_STORAGE_CAPACITY_INSUFFICIENT''"

definition assertAvailableCapacity :: "int option \<Rightarrow> int \<Rightarrow> unit result" where
  "assertAvailableCapacity free required =
     (if required < 0 then Inl no_evidence
      else case free of
        None \<Rightarrow> Inl no_evidence
      | Some available \<Rightarrow> if available < 0 then Inl no_evidence else if available < required then Inl no_space else Inr ())"

definition assertArchiveExtractionCapacity :: "volumes \<Rightarrow> int \<Rightarrow> int \<Rightarrow> int \<Rightarrow> unit result" where
  "assertArchiveExtractionCapacity v expanded largest declared =
     (if expanded < 0 \<or> largest < 0 \<or> declared < 0 then Inl no_evidence
      else case (vo_staging_device v, vo_object_device v) of
        (Some s, Some t) \<Rightarrow>
          if s = t then assertAvailableCapacity (vo_staging_free v) (expanded + largest + declared + ARCHIVE_STORAGE_RESERVE_BYTES)
          else bindE (assertAvailableCapacity (vo_staging_free v) (expanded + ARCHIVE_STORAGE_RESERVE_BYTES)) (\<lambda>_.
               assertAvailableCapacity (vo_object_free v) (expanded + declared + ARCHIVE_STORAGE_RESERVE_BYTES))
      | _ \<Rightarrow> Inl no_evidence)"

definition assertArchiveEntryWriteCapacity :: "volumes \<Rightarrow> int \<Rightarrow> unit result" where
  "assertArchiveEntryWriteCapacity v n = assertAvailableCapacity (vo_staging_free v) (n + ARCHIVE_STORAGE_RESERVE_BYTES)"

definition assertEncryptedObjectWriteCapacity :: "volumes \<Rightarrow> int \<Rightarrow> unit result" where
  "assertEncryptedObjectWriteCapacity v n = assertAvailableCapacity (vo_object_free v) (n + ARCHIVE_STORAGE_RESERVE_BYTES)"

text \<open>The locks of a lease, one per volume, in ascending order.\<close>

definition resolveArchiveVolumeLockKeys :: "int option list \<Rightarrow> int list result" where
  "resolveArchiveVolumeLockKeys devices =
     (if devices = [] then Inl no_evidence
      else if list_ex (\<lambda>d. case d of None \<Rightarrow> True | Some i \<Rightarrow> i < 0) devices then Inl no_evidence
      else Inr (sort (remdups (map the devices))))"

section \<open>Names of the children\<close>

record final_lib =
  fl_reader :: zip_reader
  fl_text :: archive_text
  fl_child_hash :: "string \<Rightarrow> code_points \<Rightarrow> string"
  fl_sha :: "bytes \<Rightarrow> string"
  fl_store_refuses :: "string \<Rightarrow> bytes \<Rightarrow> err option"
  fl_object_path :: "string \<Rightarrow> string"
  fl_volumes :: volumes

definition variant_digit :: "char \<Rightarrow> char" where
  "variant_digit c = ''89ab'' ! (the (hex_value c) mod 4)"

text \<open>The hash of parent and path as a UUID of version 5: \<open>(n & 3) | 8\<close> at its sixteenth digit.\<close>

definition childId :: "final_lib \<Rightarrow> string \<Rightarrow> code_points \<Rightarrow> string" where
  "childId lib parent path =
     (let hex = take 32 (fl_child_hash lib parent path); h = (hex[12 := CHR ''5''])[16 := variant_digit (hex ! 16)] in
      take 8 h @ ''-'' @ take 4 (drop 8 h) @ ''-'' @ take 4 (drop 12 h) @ ''-'' @ take 4 (drop 16 h) @ ''-'' @ drop 20 h)"

definition archiveRelativePath :: "code_points \<Rightarrow> code_points \<Rightarrow> code_points" where
  "archiveRelativePath parent entry =
     (if ends_with_any [points ''.zip''] parent then take (length parent - 4) parent else parent) @ 47 # entry"

section \<open>The steps of a run\<close>

definition claim_file :: "nat \<Rightarrow> string \<Rightarrow> 'z upload_db_scheme \<Rightarrow> (upload_file_row \<times> upload_batch_row) option" where
  "claim_file tm fileId db =
     (case file_of fileId db of
        None \<Rightarrow> None
      | Some f \<Rightarrow> (case first_row (\<lambda>b. ub_id b = uf_batch_id f \<and> finalizable_batch tm b) (upload_batches db) of
          None \<Rightarrow> None
        | Some b \<Rightarrow> if uf_status f \<in> {UF_COMPLETE, UF_ENCRYPTING} then Some (f, b) else None))"

definition claimed :: "nat \<Rightarrow> string \<Rightarrow> 'z upload_db_scheme \<Rightarrow> 'z upload_db_scheme" where
  "claimed tm fileId = set_files (\<lambda>f. uf_id f = fileId) (\<lambda>f. f\<lparr>uf_status := UF_ENCRYPTING, uf_updated_at := tm\<rparr>)"

definition zip_code_kept :: "err \<Rightarrow> bool" where
  "zip_code_kept e \<longleftrightarrow> (case e of PlainError code \<Rightarrow>
       starts_with ''ZIP_'' code \<and> 4 < length code \<and> list_all (\<lambda>c. is_upper c \<or> is_digit c \<or> c = CHR ''_'') (drop 4 code)
     | _ \<Rightarrow> False)"

definition zip_failure :: "err \<Rightarrow> err" where
  "zip_failure e =
     (if zip_code_kept e \<or> e \<in> {PlainError ''UPLOAD_FINALIZE_STATE_CHANGED'', no_evidence, no_space} then e
      else PlainError ''ZIP_INVALID_ARCHIVE'')"

definition xlsx_failure :: "err \<Rightarrow> err" where
  "xlsx_failure e = (case e of PlainError code \<Rightarrow> if zip_code_kept e then PlainError (''XLSX_'' @ drop 4 code) else PlainError ''XLSX_INVALID_ARCHIVE''
     | _ \<Rightarrow> PlainError ''XLSX_INVALID_ARCHIVE'')"

definition archive_root :: "upload_file_row \<Rightarrow> string" where
  "archive_root f = dirname (uf_temp f) @ ''/archive/'' @ uf_id f"

definition child_destination :: "final_lib \<Rightarrow> upload_file_row \<Rightarrow> code_points \<Rightarrow> string" where
  "child_destination lib f path = archive_root f @ ''/'' @ childId lib (uf_id f) path @ ''.part''"

definition report_files :: "ZipEntryReport list \<Rightarrow> ZipEntryReport list" where
  "report_files reports = filter (\<lambda>r. \<not> zr_directory r) reports"

definition expanded_total :: "ZipEntryReport list \<Rightarrow> int" where
  "expanded_total reports = sum_list (map zr_expanded (report_files reports))"

definition largest_entry :: "ZipEntryReport list \<Rightarrow> int" where
  "largest_entry reports = foldr max (map zr_expanded (report_files reports)) 0"

text \<open>Before anything is written: no PDF inside, then the budget, then the free space.\<close>

definition reserve_archive ::
    "final_lib \<Rightarrow> nat \<Rightarrow> upload_file_row \<Rightarrow> ZipEntryReport list \<Rightarrow> 'z upload_db_scheme \<Rightarrow> unit result \<times> bool \<times> 'z upload_db_scheme" where
  "reserve_archive lib tm f reports db =
     (if list_ex (\<lambda>r. pdf_path (zr_path r)) (report_files reports)
      then (Inl (zip_error ''PDF_ENTRY_REQUIRES_FOLDER_UPLOAD''), False, db)
      else case reserveArchiveBudget tm (uf_id f) (uf_batch_id f) (expanded_total reports) (int (length (report_files reports))) db of
        Inl e \<Rightarrow> (Inl e, False, db)
      | Inr db' \<Rightarrow> (assertArchiveExtractionCapacity (fl_volumes lib) (expanded_total reports) (largest_entry reports) (uf_declared f), True, db'))"

text \<open>The outcome, whether the budget was reserved, and the state.\<close>

definition unpack ::
    "final_lib \<Rightarrow> nat \<Rightarrow> upload_file_row \<Rightarrow> bytes \<Rightarrow> 'z upload_db_scheme \<Rightarrow> ExtractedZipEntry list result \<times> bool \<times> 'z upload_db_scheme" where
  "unpack lib tm f content db =
     (case validateZip (fl_reader lib) (fl_text lib) defaultZipLimits content of
        Inl e \<Rightarrow> (Inl (zip_failure e), False, db)
      | Inr reports \<Rightarrow>
          (case reserve_archive lib tm f reports db of
             (Inl e, reserved, db') \<Rightarrow> (Inl (zip_failure e), reserved, db')
           | (Inr _, reserved, db') \<Rightarrow>
               (case extractValidatedZip (fl_reader lib) defaultZipLimits (archive_root f) (child_destination lib f)
                       (assertArchiveEntryWriteCapacity (fl_volumes lib)) reports content of
                  Inl e \<Rightarrow> (Inl (zip_failure e), reserved, db')
                | Inr xs \<Rightarrow> (Inr xs, reserved,
                    db'\<lparr>staging_disk := fold (\<lambda>x d. d(xe_destination x \<mapsto> xe_content x)) xs (staging_disk db')\<rparr>))))"

definition check_container :: "final_lib \<Rightarrow> UploadedFileKind \<Rightarrow> bytes \<Rightarrow> unit result" where
  "check_container lib kind content =
     (if kind = K_OTHER \<and> isOoxmlSpreadsheetContainer (fl_reader lib) (fl_text lib) content
      then (case validateZip (fl_reader lib) (fl_text lib) ooxmlZipLimits content of Inl e \<Rightarrow> Inl (xlsx_failure e) | Inr _ \<Rightarrow> Inr ())
      else Inr ())"

definition put_object :: "final_lib \<Rightarrow> upload_file_row \<Rightarrow> bytes \<Rightarrow> unit result" where
  "put_object lib f content =
     bindE (assertEncryptedObjectWriteCapacity (fl_volumes lib) (uf_declared f)) (\<lambda>_.
       case fl_store_refuses lib (uf_id f) content of Some e \<Rightarrow> Inl e | None \<Rightarrow> Inr ())"

definition lease :: "int option list \<Rightarrow> unit result" where
  "lease devices = bindE (resolveArchiveVolumeLockKeys devices) (\<lambda>_. Inr ())"

text \<open>Everything before the last transaction.\<close>

definition prepare_object ::
    "final_lib \<Rightarrow> nat \<Rightarrow> upload_file_row \<Rightarrow> UploadedFileKind \<Rightarrow> bytes \<Rightarrow> 'z upload_db_scheme \<Rightarrow> ExtractedZipEntry list result \<times> bool \<times> 'z upload_db_scheme" where
  "prepare_object lib tm f kind content db =
     (if kind = K_PDF then (Inl (PlainError ''PDF_BODY_UPLOAD_REJECTED''), False, db)
      else if kind = K_ZIP
      then (case lease [vo_staging_device (fl_volumes lib), vo_object_device (fl_volumes lib)] of
          Inl e \<Rightarrow> (Inl e, False, db)
        | Inr _ \<Rightarrow> (case unpack lib tm f content db of
            (Inl e, reserved, db') \<Rightarrow> (Inl e, reserved, db')
          | (Inr xs, reserved, db') \<Rightarrow> (case put_object lib f content of
              Inl e \<Rightarrow> (Inl e, reserved, db') | Inr _ \<Rightarrow> (Inr xs, reserved, db'))))
      else (bindE (check_container lib kind content) (\<lambda>_. bindE (lease [vo_object_device (fl_volumes lib)]) (\<lambda>_.
              bindE (put_object lib f content) (\<lambda>_. Inr []))), False, db))"

section \<open>The last transaction\<close>

definition same_source :: "string \<Rightarrow> string \<Rightarrow> int \<Rightarrow> stored_object_row \<Rightarrow> bool" where
  "same_source shop sha n o' \<longleftrightarrow> so_shop_id o' = shop \<and> so_sha o' = sha \<and> so_size o' = n"

text \<open>The trigger of \<open>migrations/0048\<close>: every new object is to be replicated.\<close>

definition replicate_event :: "(string \<Rightarrow> string \<Rightarrow> string) \<Rightarrow> string \<Rightarrow> outbox_row" where
  "replicate_event ev objectId = upload_event ev ''storage.replicate'' objectId [(''objectId'', Some objectId)]"

definition store_source ::
    "final_lib \<Rightarrow> (string \<Rightarrow> string \<Rightarrow> string) \<Rightarrow> string \<Rightarrow> string \<Rightarrow> bytes \<Rightarrow> 'z upload_db_scheme \<Rightarrow> (string \<times> 'z upload_db_scheme) result" where
  "store_source lib ev fileId shop content db =
     (let sha = fl_sha lib content; n = int (length content); path = fl_object_path lib fileId in
      case first_row (same_source shop sha n) (stored_objects db) of
        Some o' \<Rightarrow> Inr (so_id o', db)
      | None \<Rightarrow>
          if \<exists>o' \<in> set (stored_objects db). so_id o' = fileId \<or> so_path o' = path then Inl (PlainError ''SOURCE_DEDUPLICATION_RACE'')
          else Inr (fileId, send (replicate_event ev fileId) (db\<lparr>stored_objects := stored_objects db
                 @ [\<lparr> so_id = fileId, so_shop_id = shop, so_size = n, so_sha = sha, so_path = path \<rparr>]\<rparr>)))"

definition duplicate_issue :: "upload_file_row \<Rightarrow> string \<Rightarrow> 'z upload_db_scheme \<Rightarrow> 'z upload_db_scheme" where
  "duplicate_issue f selected db =
     db\<lparr>import_issues := import_issues db @ map (\<lambda>ib. \<lparr> ii_batch = ib_id ib, ii_code = ''DUPLICATE_SOURCE'',
       ii_context = Duplicate_source (uf_path f) selected \<rparr>) (filter (\<lambda>ib. ib_upload_id ib = uf_batch_id f) (import_batches db))\<rparr>"

definition child_row :: "final_lib \<Rightarrow> nat \<Rightarrow> upload_file_row \<Rightarrow> ExtractedZipEntry \<Rightarrow> upload_file_row" where
  "child_row lib tm f x =
     \<lparr> uf_id = childId lib (uf_id f) (zr_path (xe_report x)), uf_batch_id = uf_batch_id f,
       uf_path = archiveRelativePath (uf_path f) (zr_path (xe_report x)), uf_declared = zr_expanded (xe_report x),
       uf_received = zr_expanded (xe_report x), uf_type = None, uf_status = UF_COMPLETE, uf_temp = xe_destination x,
       uf_metadata = False, uf_kind = None, uf_sha = None, uf_object = None, uf_reservation = RS_NONE,
       uf_archive_bytes = 0, uf_archive_files = 0, uf_updated_at = tm \<rparr>"

text \<open>\<open>ON CONFLICT (batch_id,relative_path) DO NOTHING\<close>: the checks come first, then that key.\<close>

definition insert_child ::
    "(string \<Rightarrow> string \<Rightarrow> string) \<Rightarrow> upload_file_row \<Rightarrow> 'z upload_db_scheme \<Rightarrow> 'z upload_db_scheme result" where
  "insert_child ev r db =
     bindE (upload_file_checks r) (\<lambda>_.
       if path_taken r db then Inl (PlainError ''ZIP_CHILD_INSERT_CONFLICT'')
       else bindE (insert_upload_file r db) (\<lambda>db'. Inr (send (finalize_event ev (uf_id r)) db')))"

fun insert_children ::
    "(string \<Rightarrow> string \<Rightarrow> string) \<Rightarrow> upload_file_row list \<Rightarrow> 'z upload_db_scheme \<Rightarrow> 'z upload_db_scheme result" where
  "insert_children ev [] db = Inr db"
| "insert_children ev (r # rs) db = bindE (insert_child ev r db) (insert_children ev rs)"

definition kind_text :: "UploadedFileKind \<Rightarrow> string" where
  "kind_text k = (case k of K_ZIP \<Rightarrow> ''ZIP'' | K_PDF \<Rightarrow> ''PDF'' | K_TEXT \<Rightarrow> ''TEXT'' | K_OTHER \<Rightarrow> ''OTHER'')"

definition analyze_event :: "(string \<Rightarrow> string \<Rightarrow> string) \<Rightarrow> string \<Rightarrow> string \<Rightarrow> UploadedFileKind option \<Rightarrow> outbox_row" where
  "analyze_event ev fileId objectId kind = upload_event ev ''import.analyze'' fileId
     ([(''fileId'', Some fileId), (''objectId'', Some objectId)]
      @ (case kind of None \<Rightarrow> [] | Some k \<Rightarrow> [(''detectedKind'', Some (kind_text k))]))"

definition mark_stored :: "final_lib \<Rightarrow> nat \<Rightarrow> string \<Rightarrow> string \<Rightarrow> UploadedFileKind \<Rightarrow> bytes \<Rightarrow> 'z upload_db_scheme \<Rightarrow> 'z upload_db_scheme" where
  "mark_stored lib tm fileId selected kind content =
     set_files (\<lambda>f. uf_id f = fileId) (\<lambda>f. f\<lparr>uf_status := UF_STORED, uf_object := Some selected, uf_sha := Some (fl_sha lib content),
       uf_kind := Some kind, uf_reservation := (if kind = K_ZIP then RS_COMMITTED else uf_reservation f), uf_updated_at := tm\<rparr>)"

definition commit_object ::
    "final_lib \<Rightarrow> (string \<Rightarrow> string \<Rightarrow> string) \<Rightarrow> nat \<Rightarrow> upload_file_row \<Rightarrow> string \<Rightarrow> UploadedFileKind \<Rightarrow> bytes \<Rightarrow> ExtractedZipEntry list
     \<Rightarrow> 'z upload_db_scheme \<Rightarrow> (string \<times> 'z upload_db_scheme) result" where
  "commit_object lib ev tm f shop kind content xs db =
     (case file_in_batch (uf_id f) (uf_batch_id f) db of
        None \<Rightarrow> Inl (PlainError ''UPLOAD_FINALIZE_STATE_CHANGED'')
      | Some r \<Rightarrow>
          if uf_status r \<noteq> UF_ENCRYPTING \<or> \<not> list_ex (\<lambda>b. ub_id b = uf_batch_id f \<and> finalizable_batch tm b) (upload_batches db)
          then Inl (PlainError ''UPLOAD_FINALIZE_STATE_CHANGED'')
          else if kind = K_ZIP \<and> uf_reservation r \<noteq> RS_RESERVED then Inl (zip_error ''RESERVATION_STATE_INVALID'')
          else bindE (store_source lib ev (uf_id f) shop content db) (\<lambda>(selected, db1).
            let db2 = (if selected = uf_id f then db1 else duplicate_issue f selected db1);
                db3 = mark_stored lib tm (uf_id f) selected kind content db2 in
            bindE (insert_children ev (map (child_row lib tm f) xs) db3) (\<lambda>db4.
            Inr (selected, send (analyze_event ev (uf_id f) selected (Some kind)) db4))))"

section \<open>The whole run\<close>

definition replay_stored ::
    "(string \<Rightarrow> string \<Rightarrow> string) \<Rightarrow> nat \<Rightarrow> upload_file_row \<Rightarrow> string \<Rightarrow> 'z upload_db_scheme \<Rightarrow> string result \<times> 'z upload_db_scheme" where
  "replay_stored ev tm f objectId db =
     (let db1 = db\<lparr>staging_disk := (staging_disk db)(uf_temp f := None)\<rparr>;
          restored = (uf_status f = UF_STORED \<and> list_ex (\<lambda>b. ub_id b = uf_batch_id f \<and> finalizable_batch tm b) (upload_batches db)) in
      (Inr objectId,
       if restored then send (analyze_event ev (uf_id f) objectId None)
            (set_files (\<lambda>r. uf_id r = uf_id f) (\<lambda>r. r\<lparr>uf_updated_at := tm\<rparr>) db1)
       else db1))"

definition give_back :: "nat \<Rightarrow> upload_file_row \<Rightarrow> bool \<Rightarrow> err \<Rightarrow> 'z upload_db_scheme \<Rightarrow> string result \<times> 'z upload_db_scheme" where
  "give_back tm f reserved e db =
     (if reserved
      then (case releaseArchiveBudget tm (uf_id f) (uf_batch_id f) db of Inl e' \<Rightarrow> (Inl e', db) | Inr (_, db') \<Rightarrow> (Inl e, db'))
      else (Inl e, db))"

definition drop_extracted :: "upload_file_row \<Rightarrow> 'z upload_db_scheme \<Rightarrow> 'z upload_db_scheme" where
  "drop_extracted f db = db\<lparr>staging_disk := remove_below (archive_root f) (staging_disk db)\<rparr>"

definition finalize_claimed ::
    "final_lib \<Rightarrow> (string \<Rightarrow> string \<Rightarrow> string) \<Rightarrow> nat \<Rightarrow> upload_file_row \<Rightarrow> string \<Rightarrow> 'z upload_db_scheme \<Rightarrow> string result \<times> 'z upload_db_scheme" where
  "finalize_claimed lib ev tm f shop db =
     (case staging_disk db (uf_temp f) of
        None \<Rightarrow> (Inl (JsError ''ENOENT''), db)
      | Some content \<Rightarrow>
          let kind = detectFileKind (fl_reader lib) (fl_text lib) content in
          (case prepare_object lib tm f kind content db of
             (Inl e, reserved, db1) \<Rightarrow> give_back tm f reserved e (if kind = K_ZIP then drop_extracted f db1 else db1)
           | (Inr xs, reserved, db1) \<Rightarrow>
               (case commit_object lib ev tm f shop kind content xs db1 of
                  Inl e \<Rightarrow> give_back tm f reserved e db1
                | Inr (selected, db2) \<Rightarrow> (Inr selected, db2\<lparr>staging_disk := (staging_disk db2)(uf_temp f := None)\<rparr>))))"

definition finalizeUploadFile ::
    "final_lib \<Rightarrow> (string \<Rightarrow> string \<Rightarrow> string) \<Rightarrow> nat \<Rightarrow> string \<Rightarrow> 'z upload_db_scheme \<Rightarrow> string result \<times> 'z upload_db_scheme" where
  "finalizeUploadFile lib ev tm fileId db =
     (case (case file_of fileId db of None \<Rightarrow> None | Some f \<Rightarrow> (case uf_object f of None \<Rightarrow> None | Some i \<Rightarrow> Some (f, i))) of
        Some (f, i) \<Rightarrow> replay_stored ev tm f i db
      | None \<Rightarrow> (case claim_file tm fileId db of
          None \<Rightarrow> (Inl (PlainError ''UPLOAD_FILE_NOT_FINALIZABLE''), db)
        | Some (f, b) \<Rightarrow> finalize_claimed lib ev tm f (ub_shop_id b) (claimed tm fileId db)))"

section \<open>The job\<close>

definition permanentUploadFailure :: "err \<Rightarrow> string option" where
  "permanentUploadFailure e = (case e of PlainError code \<Rightarrow>
       if code = ''PDF_BODY_UPLOAD_REJECTED'' \<or> zip_code_kept e then Some code else None
     | _ \<Rightarrow> None)"

datatype job_status = Job_completed | Job_failed | Job_deadletter

definition finalize_job ::
    "final_lib \<Rightarrow> (string \<Rightarrow> string \<Rightarrow> string) \<Rightarrow> nat \<Rightarrow> bool \<Rightarrow> string \<Rightarrow> 'z upload_db_scheme \<Rightarrow> job_status result \<times> 'z upload_db_scheme" where
  "finalize_job lib ev tm exhausted fileId db =
     (case finalizeUploadFile lib ev tm fileId db of
        (Inr _, db1) \<Rightarrow> (Inr Job_completed, db1)
      | (Inl e, db1) \<Rightarrow>
          (case permanentUploadFailure e of
             None \<Rightarrow> if \<not> exhausted then (Inr Job_failed, db1)
               else (case recordUploadFileFailure ev tm fileId ''UPLOAD_FINALIZE_FAILED'' {UF_COMPLETE, UF_ENCRYPTING} db1 of
                   Inl e' \<Rightarrow> (Inl e', db1)
                 | Inr (temp, db2) \<Rightarrow> (case cleanupUploadStagingArtifacts tm fileId temp db2 of
                     (Inl e', db3) \<Rightarrow> (Inl e', db3) | (Inr _, db3) \<Rightarrow> (Inr Job_deadletter, db3)))
           | Some code \<Rightarrow> (case recordUploadFileFailure ev tm fileId code {UF_COMPLETE, UF_ENCRYPTING} db1 of
                   Inl e' \<Rightarrow> (Inl e', db1)
                 | Inr (temp, db2) \<Rightarrow> (case cleanupUploadStagingArtifacts tm fileId temp db2 of
                     (Inl e', db3) \<Rightarrow> (Inl e', db3) | (Inr _, db3) \<Rightarrow> (Inr Job_deadletter, db3)))))"

end
