(* ===== verification/Usage.thy ===== *)
theory Usage
  imports UploadFinal
begin

text \<open>
  What a batch has used, as a group: declared and received bytes, files, expanded bytes. The share of a file is
  what the counters of its batch hold for it; a child of an archive (a UUID of version 5) and a removed file
  count only for the archive they are.
\<close>

section \<open>The group\<close>

datatype usage = Usage (us_declared: int) (us_received: int) (us_files: int) (us_expanded: int)

instantiation usage :: ab_group_add
begin

definition zero_usage :: usage where "0 = Usage 0 0 0 0"

definition plus_usage :: "usage \<Rightarrow> usage \<Rightarrow> usage" where
  "x + y = Usage (us_declared x + us_declared y) (us_received x + us_received y) (us_files x + us_files y) (us_expanded x + us_expanded y)"

definition minus_usage :: "usage \<Rightarrow> usage \<Rightarrow> usage" where
  "x - y = Usage (us_declared x - us_declared y) (us_received x - us_received y) (us_files x - us_files y) (us_expanded x - us_expanded y)"

definition uminus_usage :: "usage \<Rightarrow> usage" where
  "- x = Usage (- us_declared x) (- us_received x) (- us_files x) (- us_expanded x)"

instance
  by standard (auto simp: zero_usage_def plus_usage_def minus_usage_def uminus_usage_def intro: usage.expand)

end

lemma usage_parts [simp]:
  "us_declared 0 = 0" "us_received 0 = 0" "us_files 0 = 0" "us_expanded 0 = 0"
  "us_declared (x + y) = us_declared x + us_declared y" "us_received (x + y) = us_received x + us_received y"
  "us_files (x + y) = us_files x + us_files y" "us_expanded (x + y) = us_expanded x + us_expanded y"
  "us_declared (x - y) = us_declared x - us_declared y" "us_received (x - y) = us_received x - us_received y"
  "us_files (x - y) = us_files x - us_files y" "us_expanded (x - y) = us_expanded x - us_expanded y"
  by (simp_all add: zero_usage_def plus_usage_def minus_usage_def)

text \<open>The order of the counters, part by part.\<close>

instantiation usage :: order
begin

definition less_eq_usage :: "usage \<Rightarrow> usage \<Rightarrow> bool" where
  "x \<le> y \<longleftrightarrow> us_declared x \<le> us_declared y \<and> us_received x \<le> us_received y \<and> us_files x \<le> us_files y \<and> us_expanded x \<le> us_expanded y"

definition less_usage :: "usage \<Rightarrow> usage \<Rightarrow> bool" where
  "x < y \<longleftrightarrow> x \<le> y \<and> \<not> y \<le> (x :: usage)"

instance
  by standard (auto simp: less_eq_usage_def less_usage_def intro: usage.expand)

end

instance usage :: ordered_ab_group_add
  by standard (simp add: less_eq_usage_def)

lemma Usage_add: "Usage a b c d + Usage a' b' c' d' = Usage (a + a') (b + b') (c + c') (d + d')"
  by (simp add: plus_usage_def)

lemma Usage_diff: "Usage a b c d - Usage a' b' c' d' = Usage (a - a') (b - b') (c - c') (d - d')"
  by (simp add: minus_usage_def)

section \<open>Shares\<close>

definition child_file :: "upload_file_row \<Rightarrow> bool" where
  "child_file f \<longleftrightarrow> uf_id f ! 14 = CHR ''5''"

definition removed_file :: "removal_row list \<Rightarrow> upload_file_row \<Rightarrow> bool" where
  "removed_file rs f \<longleftrightarrow> (\<exists>r \<in> set rs. rm_batch r = uf_batch_id f \<and> uf_id f \<in> set (rm_files r))"

definition counted :: "removal_row list \<Rightarrow> upload_file_row \<Rightarrow> bool" where
  "counted rs f \<longleftrightarrow> \<not> child_file f \<and> \<not> removed_file rs f"

definition archive_share :: "upload_file_row \<Rightarrow> usage" where
  "archive_share f = Usage 0 0 (uf_archive_files f) (uf_archive_bytes f)"

definition file_share :: "upload_file_row \<Rightarrow> usage" where
  "file_share f = Usage (uf_declared f) (uf_received f) 1 0"

definition share :: "removal_row list \<Rightarrow> upload_file_row \<Rightarrow> usage" where
  "share rs f = (if counted rs f then file_share f else 0) + archive_share f"

definition usage_of :: "upload_batch_row \<Rightarrow> usage" where
  "usage_of b = Usage (ub_declared b) (ub_received b) (ub_files b) (ub_expanded b)"

definition sum_for :: "(upload_file_row \<Rightarrow> usage) \<Rightarrow> string \<Rightarrow> upload_file_row list \<Rightarrow> usage" where
  "sum_for g i files = sum_list (map (\<lambda>f. if uf_batch_id f = i then g f else 0) files)"

lemma sum_for_simps [simp]:
  "sum_for g i [] = 0"
  "sum_for g i (f # fs) = (if uf_batch_id f = i then g f else 0) + sum_for g i fs"
  "sum_for g i (fs @ gs) = sum_for g i fs + sum_for g i gs"
  by (simp_all add: sum_for_def)

lemma sum_for_cong:
  "(\<And>f. f \<in> set files \<Longrightarrow> uf_batch_id f = i \<Longrightarrow> g f = h f) \<Longrightarrow> sum_for g i files = sum_for h i files"
  by (induction files) auto

text \<open>Rows rewritten within their batch: the sum changes by the differences.\<close>

lemma sum_for_update:
  assumes "\<And>f. f \<in> set files \<Longrightarrow> p f \<Longrightarrow> uf_batch_id (h f) = uf_batch_id f"
  shows "sum_for g i (update_rows p h files) = sum_for g i files + sum_for (\<lambda>f. if p f then g (h f) - g f else 0) i files"
  using assms by (induction files) (auto simp: algebra_simps)

lemma sum_for_zero: "(\<And>f. f \<in> set files \<Longrightarrow> uf_batch_id f = i \<Longrightarrow> g f = 0) \<Longrightarrow> sum_for g i files = 0"
  by (induction files) auto

lemma sum_for_one:
  assumes "distinct (map uf_id files)" and "f \<in> set files"
  shows "sum_for (\<lambda>r. if uf_id r = uf_id f then g r else 0) i files = (if uf_batch_id f = i then g f else 0)"
  using assms
proof (induction files)
  case (Cons r files)
  show ?case
  proof (cases "r = f")
    case True
    then have "sum_for (\<lambda>r. if uf_id r = uf_id f then g r else 0) i files = 0"
      using Cons.prems by (intro sum_for_zero) (auto simp: image_iff)
    with True show ?thesis by simp
  next
    case False
    then have "f \<in> set files" "uf_id r \<noteq> uf_id f" using Cons.prems by (auto simp: image_iff)
    with Cons show ?thesis by simp
  qed
qed simp

lemma sum_for_add: "sum_for (\<lambda>f. g f + h f) i files = sum_for g i files + sum_for h i files"
  by (induction files) auto

lemma sum_for_diff: "sum_for (\<lambda>f. g f - h f) i files = sum_for g i files - sum_for h i files"
  by (induction files) auto

lemma sum_for_mono:
  "(\<And>f. f \<in> set files \<Longrightarrow> uf_batch_id f = i \<Longrightarrow> g f \<le> h f) \<Longrightarrow> sum_for g i files \<le> sum_for h i files"
  by (induction files) (auto intro: add_mono)

lemma sum_for_nonneg: "(\<And>f. f \<in> set files \<Longrightarrow> uf_batch_id f = i \<Longrightarrow> 0 \<le> g f) \<Longrightarrow> 0 \<le> sum_for g i files"
  by (induction files) (auto intro: add_nonneg_nonneg)

lemma sum_for_filter: "sum_for g i (filter p files) = sum_for (\<lambda>f. if p f then g f else 0) i files"
  by (induction files) auto

lemma sum_for_parts:
  "us_declared (sum_for g i files) = sum_list (map (\<lambda>f. if uf_batch_id f = i then us_declared (g f) else 0) files)"
  "us_received (sum_for g i files) = sum_list (map (\<lambda>f. if uf_batch_id f = i then us_received (g f) else 0) files)"
  "us_files (sum_for g i files) = sum_list (map (\<lambda>f. if uf_batch_id f = i then us_files (g f) else 0) files)"
  "us_expanded (sum_for g i files) = sum_list (map (\<lambda>f. if uf_batch_id f = i then us_expanded (g f) else 0) files)"
  by (induction files) (auto simp: if_distrib)

end
