(* ===== verification/UploadBook.thy ===== *)
theory UploadBook
  imports Usage Tables
begin

text \<open>
  The books of the uploads: the counters of a batch are the sum of the shares of its files, under their limits,
  whatever the operations do in whatever order.
\<close>

section \<open>The invariant\<close>

definition file_ok :: "upload_file_row \<Rightarrow> bool" where
  "file_ok f \<longleftrightarrow> 0 \<le> uf_received f \<and> uf_received f \<le> uf_declared f \<and> 0 \<le> uf_archive_bytes f \<and> 0 \<le> uf_archive_files f
     \<and> (uf_reservation f = RS_NONE \<longrightarrow> uf_archive_bytes f = 0 \<and> uf_archive_files f = 0)
     \<and> (uf_reservation f = RS_RESERVED \<longrightarrow> uf_status f = UF_ENCRYPTING)
     \<and> (uf_reservation f = RS_COMMITTED \<longrightarrow> uf_status f = UF_STORED)"

definition limits_ok :: "upload_batch_row \<Rightarrow> bool" where
  "limits_ok b \<longleftrightarrow> ub_declared b \<le> MAX_UPLOAD_BATCH_BYTES \<and> ub_files b \<le> MAX_UPLOAD_BATCH_FILES \<and> ub_expanded b \<le> MAX_BATCH_EXPANDED_BYTES"

definition ready :: "upload_batch_row list \<Rightarrow> string \<Rightarrow> bool" where
  "ready bs i \<longleftrightarrow> (\<exists>b \<in> set bs. ub_id b = i \<and> ub_status b = UB_READY)"

definition finals :: "'z core_db_scheme \<Rightarrow> string set" where
  "finals db = set (map ob_business_key (filter (\<lambda>e. ob_topic e = ''upload.finalize'') (outbox db)))"

definition balanced :: "upload_batch_row list \<Rightarrow> upload_file_row list \<Rightarrow> removal_row list \<Rightarrow> bool" where
  "balanced bs fs rs \<longleftrightarrow> (\<forall>b \<in> set bs. usage_of b = sum_for (share rs) (ub_id b) fs)"

definition books_ok :: "upload_batch_row list \<Rightarrow> upload_file_row list \<Rightarrow> removal_row list \<Rightarrow> string set \<Rightarrow> bool" where
  "books_ok bs fs rs evs \<longleftrightarrow> distinct (map ub_id bs) \<and> distinct (map uf_id fs)
     \<and> (\<forall>f \<in> set fs. file_ok f \<and> uf_batch_id f \<in> ub_id ` set bs \<and> (child_file f \<longrightarrow> ready bs (uf_batch_id f)))
     \<and> balanced bs fs rs \<and> (\<forall>b \<in> set bs. limits_ok b)
     \<and> (\<forall>i \<in> evs. \<exists>f \<in> set fs. uf_id f = i \<and> ready bs (uf_batch_id f))
     \<and> (\<forall>r \<in> set rs. set (rm_files r) \<subseteq> uf_id ` set fs)
     \<and> (\<forall>f \<in> set fs. removed_file rs f \<longrightarrow> uf_status f = UF_FAILED)"

definition upload_inv :: "'z upload_db_scheme \<Rightarrow> bool" where
  "upload_inv db \<longleftrightarrow> books_ok (upload_batches db) (upload_files db) (removals db) (finals db)"

lemma upload_inv_cong:
  "upload_inv db \<Longrightarrow> upload_batches db' = upload_batches db \<Longrightarrow> upload_files db' = upload_files db \<Longrightarrow>
   removals db' = removals db \<Longrightarrow> finals db' = finals db \<Longrightarrow> upload_inv db'"
  by (simp add: upload_inv_def)

lemma finals_send [simp]: "finals (send e db) = (if ob_topic e = ''upload.finalize'' then insert (ob_business_key e) (finals db) else finals db)"
  by (auto simp: finals_def send_def intro: rev_image_eqI)

section \<open>Rewriting rows\<close>

text \<open>
  Batches and files rewritten in place: enough that identifiers stay, that a batch that is ready stays so, that the
  rows are in order and that every counter moves by what the shares of its files move.
\<close>

lemma ready_update:
  assumes "\<And>b. b \<in> set bs \<Longrightarrow> p b \<Longrightarrow> ub_id (g b) = ub_id b \<and> (ub_status b = UB_READY \<longrightarrow> ub_status (g b) = UB_READY)"
    and "ready bs i"
  shows "ready (update_rows p g bs) i"
proof -
  obtain b where b: "b \<in> set bs" "ub_id b = i" "ub_status b = UB_READY" using assms(2) by (auto simp: ready_def)
  then show ?thesis using assms(1) [of b] unfolding ready_def
    by (intro bexI [of _ "if p b then g b else b"]) (auto simp: in_update_rows)
qed

lemma books_update:
  assumes inv: "books_ok bs fs rs evs"
    and b: "\<And>b. b \<in> set bs \<Longrightarrow> p b \<Longrightarrow> ub_id (g b) = ub_id b \<and> (ub_status b = UB_READY \<longrightarrow> ub_status (g b) = UB_READY) \<and> limits_ok (g b)"
    and f: "\<And>f. f \<in> set fs \<Longrightarrow> q f \<Longrightarrow> uf_id (h f) = uf_id f \<and> uf_batch_id (h f) = uf_batch_id f \<and> file_ok (h f)"
    and moved: "\<And>b. b \<in> set bs \<Longrightarrow> usage_of (if p b then g b else b) = usage_of b
      + sum_for (\<lambda>f. share rs' (if q f then h f else f) - share rs f) (ub_id b) fs"
    and removals: "\<And>r. r \<in> set rs' \<Longrightarrow> set (rm_files r) \<subseteq> uf_id ` set fs"
    and failed: "\<And>f. f \<in> set fs \<Longrightarrow> removed_file rs' f \<Longrightarrow> uf_status (if q f then h f else f) = UF_FAILED"
  shows "books_ok (update_rows p g bs) (update_rows q h fs) rs' evs"
proof -
  let ?bs = "update_rows p g bs" and ?fs = "update_rows q h fs"
  have ids: "map ub_id ?bs = map ub_id bs" "map uf_id ?fs = map uf_id fs" using b f by (auto intro!: map_ident_update)
  then have set_ids: "ub_id ` set ?bs = ub_id ` set bs" and file_ids: "uf_id ` set ?fs = uf_id ` set fs" by (metis set_map)+
  have ready: "ready bs i \<Longrightarrow> ready ?bs i" for i using ready_update [of bs p g i] b by blast
  have total: "sum_for (share rs') i ?fs = sum_for (share rs) i fs + sum_for (\<lambda>f. share rs' (if q f then h f else f) - share rs f) i fs" for i
  proof -
    have "sum_for (share rs') i ?fs = sum_for (\<lambda>f. share rs' (if q f then h f else f)) i fs"
      using f by (induction fs) auto
    also have "\<dots> = sum_for (\<lambda>f. share rs f + (share rs' (if q f then h f else f) - share rs f)) i fs" by simp
    finally show ?thesis by (simp only: sum_for_add)
  qed
  have files: "file_ok f \<and> uf_batch_id f \<in> ub_id ` set ?bs \<and> (child_file f \<longrightarrow> ready ?bs (uf_batch_id f))" if mem: "f \<in> set ?fs" for f
  proof -
    obtain f0 where f0: "f0 \<in> set fs" "f = (if q f0 then h f0 else f0)" using mem unfolding in_update_rows by blast
    then have "file_ok f0" "uf_batch_id f0 \<in> ub_id ` set bs" "child_file f0 \<longrightarrow> ready bs (uf_batch_id f0)"
      using inv by (auto simp: books_ok_def)
    then show ?thesis using f0 f [of f0] ready unfolding set_ids by (cases "q f0") (auto simp: child_file_def)
  qed
  have "balanced ?bs ?fs rs'"
    unfolding balanced_def
  proof
    fix x assume "x \<in> set ?bs"
    then obtain b0 where b0: "b0 \<in> set bs" "x = (if p b0 then g b0 else b0)" by (auto simp: in_update_rows)
    then have "ub_id x = ub_id b0" using b by (cases "p b0") auto
    then show "usage_of x = sum_for (share rs') (ub_id x) ?fs"
      using moved [OF b0(1)] inv b0 unfolding total by (simp add: books_ok_def balanced_def)
  qed
  moreover have "\<forall>x \<in> set ?bs. limits_ok x" using inv b by (auto simp: in_update_rows books_ok_def)
  moreover have "\<exists>f \<in> set ?fs. uf_id f = i \<and> ready ?bs (uf_batch_id f)" if i: "i \<in> evs" for i
  proof -
    obtain f0 where f0: "f0 \<in> set fs" "uf_id f0 = i" "ready bs (uf_batch_id f0)" using inv i by (auto simp: books_ok_def)
    then show ?thesis using f [of f0] ready
      by (intro bexI [of _ "if q f0 then h f0 else f0"]) (auto simp: in_update_rows)
  qed
  moreover have "uf_status f = UF_FAILED" if mem: "f \<in> set ?fs" and gone: "removed_file rs' f" for f
  proof -
    obtain f0 where f0: "f0 \<in> set fs" "f = (if q f0 then h f0 else f0)" using mem unfolding in_update_rows by blast
    then have "removed_file rs' f0" using gone f [of f0] by (cases "q f0") (auto simp: removed_file_def)
    with failed [OF f0(1)] f0(2) show ?thesis by simp
  qed
  ultimately show ?thesis using inv files removals unfolding books_ok_def ids file_ids by blast
qed

text \<open>Only files, with unchanged shares.\<close>

lemma update_rows_False [simp]: "update_rows (\<lambda>_. False) g t = t"
  by (induction t) auto

lemma books_files:
  assumes "books_ok bs fs rs evs"
    and "\<And>f. f \<in> set fs \<Longrightarrow> q f \<Longrightarrow> uf_id (h f) = uf_id f \<and> uf_batch_id (h f) = uf_batch_id f \<and> file_ok (h f) \<and> share rs (h f) = share rs f
      \<and> (uf_status f = UF_FAILED \<longrightarrow> uf_status (h f) = UF_FAILED)"
  shows "books_ok bs (update_rows q h fs) rs evs"
proof -
  have "sum_for (\<lambda>f. share rs (if q f then h f else f) - share rs f) i fs = 0" for i
    using assms(2) by (intro sum_for_zero) auto
  moreover have "uf_status (if q f then h f else f) = UF_FAILED" if "f \<in> set fs" "removed_file rs f" for f
    using assms that by (auto simp: books_ok_def)
  ultimately show ?thesis using books_update [OF assms(1), of "\<lambda>_. False" id q h rs] assms by (simp add: books_ok_def)
qed

text \<open>Only batches, with unchanged counters.\<close>

lemma books_batches:
  assumes "books_ok bs fs rs evs"
    and "\<And>b. b \<in> set bs \<Longrightarrow> p b \<Longrightarrow> ub_id (g b) = ub_id b \<and> (ub_status b = UB_READY \<longrightarrow> ub_status (g b) = UB_READY)
      \<and> usage_of (g b) = usage_of b"
  shows "books_ok (update_rows p g bs) fs rs evs"
proof -
  have "sum_for (\<lambda>f. share rs (if False then f else f) - share rs f) i fs = 0" for i by (intro sum_for_zero) auto
  moreover have "limits_ok (g b)" if "b \<in> set bs" "p b" for b
    using assms that by (auto simp: books_ok_def limits_ok_def usage_of_def)
  moreover have "set (rm_files r) \<subseteq> uf_id ` set fs" if "r \<in> set rs" for r using assms(1) that by (simp add: books_ok_def)
  moreover have "uf_status f = UF_FAILED" if "f \<in> set fs" "removed_file rs f" for f using assms(1) that by (simp add: books_ok_def)
  ultimately show ?thesis using books_update [OF assms(1), of p g "\<lambda>_. False" id rs] assms(2) by simp
qed

text \<open>One file and its batch.\<close>

lemma share_cong:
  assumes "uf_id g = uf_id f" and "uf_batch_id g = uf_batch_id f" and "uf_declared g = uf_declared f"
    and "uf_received g = uf_received f" and "uf_archive_bytes g = uf_archive_bytes f" and "uf_archive_files g = uf_archive_files f"
  shows "share rs g = share rs f"
proof -
  have "counted rs g = counted rs f" unfolding counted_def child_file_def removed_file_def assms ..
  then show ?thesis by (simp add: share_def file_share_def archive_share_def assms)
qed

lemma share_status [simp]:
  "share rs (f\<lparr>uf_status := s\<rparr>) = share rs f" "share rs (f\<lparr>uf_temp := t\<rparr>) = share rs f"
  "share rs (f\<lparr>uf_updated_at := u\<rparr>) = share rs f" "share rs (f\<lparr>uf_object := v\<rparr>) = share rs f"
  "share rs (f\<lparr>uf_sha := w\<rparr>) = share rs f" "share rs (f\<lparr>uf_kind := x\<rparr>) = share rs f"
  "share rs (f\<lparr>uf_reservation := y\<rparr>) = share rs f"
  by (rule share_cong; simp)+

lemma books_one:
  assumes inv: "books_ok bs fs rs evs" and mem: "f \<in> set fs" and batch: "uf_batch_id f = i"
    and b: "\<And>b. b \<in> set bs \<Longrightarrow> ub_id b = i \<Longrightarrow> ub_id (g b) = i \<and> (ub_status b = UB_READY \<longrightarrow> ub_status (g b) = UB_READY)
      \<and> limits_ok (g b) \<and> usage_of (g b) = usage_of b + (share rs (h f) - share rs f)"
    and f: "uf_id (h f) = uf_id f" "uf_batch_id (h f) = i" "file_ok (h f)" "uf_status f = UF_FAILED \<Longrightarrow> uf_status (h f) = UF_FAILED"
  shows "books_ok (update_rows (\<lambda>b. ub_id b = i) g bs) (update_rows (\<lambda>r. uf_id r = uf_id f) h fs) rs evs"
proof -
  have d: "distinct (map uf_id fs)" using inv by (simp add: books_ok_def)
  have same: "r = f" if "r \<in> set fs" "uf_id r = uf_id f" for r using distinct_row [OF d that(1) mem that(2)] .
  have "sum_for (\<lambda>r. share rs (if uf_id r = uf_id f then h r else r) - share rs r) j fs
      = (if i = j then share rs (h f) - share rs f else 0)" for j
  proof -
    have "sum_for (\<lambda>r. share rs (if uf_id r = uf_id f then h r else r) - share rs r) j fs
        = sum_for (\<lambda>r. if uf_id r = uf_id f then share rs (h r) - share rs r else 0) j fs"
      by (intro sum_for_cong) auto
    then show ?thesis using sum_for_one [OF d mem, of _ j] batch by simp
  qed
  note delta = this
  show ?thesis
  proof (rule books_update [OF inv])
    show "ub_id (g b) = ub_id b \<and> (ub_status b = UB_READY \<longrightarrow> ub_status (g b) = UB_READY) \<and> limits_ok (g b)"
      if "b \<in> set bs" "ub_id b = i" for b using b [OF that] that by simp
    show "uf_id (h r) = uf_id r \<and> uf_batch_id (h r) = uf_batch_id r \<and> file_ok (h r)"
      if "r \<in> set fs" "uf_id r = uf_id f" for r using same [OF that] f batch by simp
    show "usage_of (if ub_id b = i then g b else b) = usage_of b
        + sum_for (\<lambda>r. share rs (if uf_id r = uf_id f then h r else r) - share rs r) (ub_id b) fs" if "b \<in> set bs" for b
      unfolding delta using b [OF that] by auto
    show "set (rm_files r) \<subseteq> uf_id ` set fs" if "r \<in> set rs" for r using inv that by (simp add: books_ok_def)
    fix r assume r: "r \<in> set fs" "removed_file rs r"
    then have "uf_status r = UF_FAILED" using inv by (simp add: books_ok_def)
    then show "uf_status (if uf_id r = uf_id f then h r else r) = UF_FAILED" using same [OF r(1)] f(4) by auto
  qed
qed

section \<open>New rows\<close>

lemma sum_for_absent: "i \<notin> uf_batch_id ` set fs \<Longrightarrow> sum_for g i fs = 0"
  by (rule sum_for_zero) auto

lemma books_add_batch:
  assumes inv: "books_ok bs fs rs evs" and fresh: "ub_id b \<notin> ub_id ` set bs" and zero: "usage_of b = 0"
  shows "books_ok (bs @ [b]) fs rs evs"
proof -
  have "ub_id b \<notin> uf_batch_id ` set fs" using inv fresh by (auto simp: books_ok_def)
  then have "balanced (bs @ [b]) fs rs" using inv zero sum_for_absent by (auto simp: books_ok_def balanced_def)
  moreover have "limits_ok b" using zero by (simp add: usage_of_def zero_usage_def limits_ok_def
      MAX_UPLOAD_BATCH_BYTES_def MAX_UPLOAD_BATCH_FILES_def MAX_BATCH_EXPANDED_BYTES_def)
  moreover have "ready bs i \<Longrightarrow> ready (bs @ [b]) i" for i by (auto simp: ready_def)
  ultimately show ?thesis using inv fresh unfolding books_ok_def by (simp add: image_iff) blast
qed

lemma books_add_files:
  assumes inv: "books_ok bs fs rs evs" and i: "i \<in> ub_id ` set bs"
    and rows: "\<And>r. r \<in> set rows \<Longrightarrow> uf_batch_id r = i \<and> file_ok r \<and> uf_id r \<notin> uf_id ` set fs \<and> (child_file r \<longrightarrow> ready bs i)"
    and d: "distinct (map uf_id rows)"
    and b: "\<And>b. b \<in> set bs \<Longrightarrow> ub_id b = i \<Longrightarrow> ub_id (g b) = i \<and> (ub_status b = UB_READY \<longrightarrow> ub_status (g b) = UB_READY)
      \<and> limits_ok (g b) \<and> usage_of (g b) = usage_of b + sum_for (share rs) i rows"
  shows "books_ok (update_rows (\<lambda>b. ub_id b = i) g bs) (fs @ rows) rs evs"
proof -
  let ?bs = "update_rows (\<lambda>b. ub_id b = i) g bs"
  have ids: "map ub_id ?bs = map ub_id bs" using b by (auto intro!: map_ident_update)
  then have set_ids: "ub_id ` set ?bs = ub_id ` set bs" by (metis set_map)
  have ready: "ready bs j \<Longrightarrow> ready ?bs j" for j using ready_update [of bs "\<lambda>b. ub_id b = i" g j] b by blast
  have other: "j \<noteq> i \<Longrightarrow> sum_for (share rs) j rows = 0" for j using rows by (intro sum_for_zero) auto
  have "balanced ?bs (fs @ rows) rs"
    unfolding balanced_def
  proof
    fix x assume "x \<in> set ?bs"
    then obtain b0 where b0: "b0 \<in> set bs" "x = (if ub_id b0 = i then g b0 else b0)" unfolding in_update_rows by blast
    have bal: "usage_of b0 = sum_for (share rs) (ub_id b0) fs" using inv b0(1) by (simp add: books_ok_def balanced_def)
    show "usage_of x = sum_for (share rs) (ub_id x) (fs @ rows)"
    proof (cases "ub_id b0 = i")
      case True
      then show ?thesis using bal b [OF b0(1)] b0(2) by simp
    next
      case False
      then show ?thesis using bal other b0(2) by simp
    qed
  qed
  moreover have "\<forall>x \<in> set ?bs. limits_ok x" using inv b by (auto simp: in_update_rows books_ok_def)
  moreover have "distinct (map uf_id (fs @ rows))"
  proof -
    have "\<forall>r \<in> set rows. uf_id r \<notin> uf_id ` set fs" using rows by simp
    then have "uf_id ` set fs \<inter> uf_id ` set rows = {}" unfolding disjoint_iff image_iff by metis
    then show ?thesis using inv d by (simp add: books_ok_def)
  qed
  moreover have "file_ok f \<and> uf_batch_id f \<in> ub_id ` set bs \<and> (child_file f \<longrightarrow> ready ?bs (uf_batch_id f))"
    if "f \<in> set (fs @ rows)" for f
    using that inv rows i ready unfolding books_ok_def by (cases "f \<in> set fs") auto
  moreover have "\<exists>f \<in> set (fs @ rows). uf_id f = j \<and> ready ?bs (uf_batch_id f)" if j: "j \<in> evs" for j
  proof -
    obtain f where "f \<in> set fs" "uf_id f = j" "ready bs (uf_batch_id f)" using inv j unfolding books_ok_def by blast
    then show ?thesis using ready by (intro bexI [of _ f]) auto
  qed
  moreover have "set (rm_files r) \<subseteq> uf_id ` set (fs @ rows)" if r: "r \<in> set rs" for r
  proof -
    have "set (rm_files r) \<subseteq> uf_id ` set fs" using inv r unfolding books_ok_def by blast
    then show ?thesis by auto
  qed
  moreover have "distinct (map ub_id ?bs)" using inv unfolding ids books_ok_def by blast
  moreover have "uf_status f = UF_FAILED" if f: "f \<in> set (fs @ rows)" and gone: "removed_file rs f" for f
  proof -
    obtain r where "r \<in> set rs" "uf_id f \<in> set (rm_files r)" using gone by (auto simp: removed_file_def)
    then have "uf_id f \<in> uf_id ` set fs" using inv unfolding books_ok_def by blast
    then have "f \<notin> set rows" using rows [of f] by blast
    with f gone inv show ?thesis by (auto simp: books_ok_def)
  qed
  ultimately show ?thesis unfolding books_ok_def set_ids by blast
qed

lemma books_event:
  "books_ok bs fs rs evs \<Longrightarrow> f \<in> set fs \<Longrightarrow> ready bs (uf_batch_id f) \<Longrightarrow> books_ok bs fs rs (insert (uf_id f) evs)"
  unfolding books_ok_def by blast

text \<open>A file nobody has registered is not removed.\<close>

lemma new_not_removed: "books_ok bs fs rs evs \<Longrightarrow> uf_id f \<notin> uf_id ` set fs \<Longrightarrow> \<not> removed_file rs f"
  unfolding books_ok_def removed_file_def by blast

lemma insert_upload_files_Inr:
  assumes "insert_upload_files rows db = Inr db'"
  shows "db' = db\<lparr>upload_files := upload_files db @ rows\<rparr> \<and> distinct (map uf_id rows) \<and> (\<forall>r \<in> set rows. uf_id r \<notin> uf_id ` set (upload_files db))"
  using assms
proof (induction rows arbitrary: db)
  case (Cons r rows)
  from Cons.prems have r: "uf_id r \<notin> uf_id ` set (upload_files db)"
    and rest: "insert_upload_files rows (db\<lparr>upload_files := upload_files db @ [r]\<rparr>) = Inr db'"
    by (auto simp: insert_upload_file_def bindE_Inr_iff image_iff split: if_split_asm)
  then show ?case using Cons.IH [OF rest] by (auto simp: image_iff)
qed simp

lemma insert_import_files_Inr:
  "insert_import_files rows db = Inr db' \<Longrightarrow> db' = db\<lparr>import_files := import_files db @ rows\<rparr>"
proof (induction rows arbitrary: db)
  case (Cons r rows)
  then have "insert_import_files rows (db\<lparr>import_files := import_files db @ [r]\<rparr>) = Inr db'"
    by (auto simp: insert_import_file_def bindE_Inr_iff split: if_split_asm)
  from Cons.IH [OF this] show ?case by simp
qed simp

lemma register_metadata_Inr:
  "register_metadata i rows db = Inr db' \<Longrightarrow> \<exists>more. db' = db\<lparr>import_files := import_files db @ more\<rparr>"
  unfolding register_metadata_def Let_def
proof (split if_split_asm)
  assume "Inr db = (Inr db' :: err + 'a upload_db_scheme)"
  then show ?thesis by (intro exI [of _ "[]"]) simp
qed (auto split: option.splits dest: insert_import_files_Inr)

end
