(* ===== verification/UploadSteps.thy ===== *)
theory UploadSteps
  imports UploadBook
begin

text \<open>Every operation on uploads keeps the books.\<close>

lemma upload_inv_books: "upload_inv db \<Longrightarrow> books_ok (upload_batches db) (upload_files db) (removals db) (finals db)"
  by (simp add: upload_inv_def)

lemma inv_ids:
  assumes "upload_inv db"
  shows "distinct (map ub_id (upload_batches db))" "distinct (map uf_id (upload_files db))"
  using assms by (simp_all add: upload_inv_def books_ok_def)

lemma file_ofD: "file_of i db = Some f \<Longrightarrow> f \<in> set (upload_files db) \<and> uf_id f = i"
  unfolding file_of_def by (drule first_row_SomeD) simp

lemma batch_ofD: "batch_of i db = Some b \<Longrightarrow> b \<in> set (upload_batches db) \<and> ub_id b = i"
  unfolding batch_of_def by (drule first_row_SomeD) simp

lemma same_batch:
  "upload_inv db \<Longrightarrow> b \<in> set (upload_batches db) \<Longrightarrow> b' \<in> set (upload_batches db) \<Longrightarrow> ub_id b = ub_id b' \<Longrightarrow> b = b'"
  using distinct_row [OF inv_ids(1)] .

lemma same_file:
  "upload_inv db \<Longrightarrow> f \<in> set (upload_files db) \<Longrightarrow> f' \<in> set (upload_files db) \<Longrightarrow> uf_id f = uf_id f' \<Longrightarrow> f = f'"
  using distinct_row [OF inv_ids(2)] .

lemma inv_file: "upload_inv db \<Longrightarrow> f \<in> set (upload_files db) \<Longrightarrow> file_ok f \<and> (\<exists>b \<in> set (upload_batches db). ub_id b = uf_batch_id f)"
  unfolding upload_inv_def books_ok_def image_iff by metis

lemma inv_child: "upload_inv db \<Longrightarrow> f \<in> set (upload_files db) \<Longrightarrow> child_file f \<Longrightarrow> ready (upload_batches db) (uf_batch_id f)"
  by (auto simp: upload_inv_def books_ok_def)

lemma inv_limits: "upload_inv db \<Longrightarrow> b \<in> set (upload_batches db) \<Longrightarrow> limits_ok b"
  by (auto simp: upload_inv_def books_ok_def)

lemma inv_usage: "upload_inv db \<Longrightarrow> b \<in> set (upload_batches db) \<Longrightarrow> usage_of b = sum_for (share (removals db)) (ub_id b) (upload_files db)"
  by (auto simp: upload_inv_def books_ok_def balanced_def)

lemma not_ready: "upload_inv db \<Longrightarrow> b \<in> set (upload_batches db) \<Longrightarrow> ub_status b \<noteq> UB_READY \<Longrightarrow> \<not> ready (upload_batches db) (ub_id b)"
  using same_batch unfolding ready_def by blast

section \<open>Registering\<close>

definition fresh_ids :: "upload_env \<Rightarrow> bool" where
  "fresh_ids env \<longleftrightarrow> (\<forall>n. un_file_ids env n ! 14 \<noteq> CHR ''5'')"

lemma new_upload_files_map:
  "map uf_declared (new_upload_files env i files) = map ur_size files" "length (new_upload_files env i files) = length files"
proof -
  have "map (\<lambda>x. uf_declared (new_upload_file env i x)) (zip ids files) = map ur_size files" if "length ids = length files" for ids
    using that by (induction ids files rule: list_induct2) (auto simp: new_upload_file_def)
  then show "map uf_declared (new_upload_files env i files) = map ur_size files"
    by (simp add: new_upload_files_def comp_def)
qed (simp add: new_upload_files_def)

lemma new_upload_filesD:
  assumes "r \<in> set (new_upload_files env i files)" and "fresh_ids env" and "\<forall>f \<in> set files. 0 \<le> ur_size f"
  shows "uf_batch_id r = i \<and> file_ok r \<and> \<not> child_file r \<and> uf_received r = 0 \<and> archive_share r = 0"
proof -
  obtain j f where "(j, f) \<in> set (zip (map (un_file_ids env) [0..<length files]) files)" "r = new_upload_file env i (j, f)"
    using assms(1) unfolding new_upload_files_def by auto
  moreover from this(1) have "j \<in> un_file_ids env ` set [0..<length files]" "f \<in> set files"
    by (auto dest: set_zip_leftD set_zip_rightD)
  ultimately show ?thesis using assms(2,3)
    by (auto simp: new_upload_file_def file_ok_def child_file_def fresh_ids_def archive_share_def zero_usage_def)
qed

lemma sum_for_new:
  "(\<And>r. r \<in> set rows \<Longrightarrow> uf_batch_id r = i \<and> share rs r = Usage (uf_declared r) 0 1 0) \<Longrightarrow>
   sum_for (share rs) i rows = Usage (sum_list (map uf_declared rows)) 0 (int (length rows)) 0"
  by (induction rows) (auto simp: zero_usage_def Usage_add)

lemma register_inv:
  assumes inv: "upload_inv db" and ok: "registerFilesInTransaction env i files db = Inr (rs, db')"
    and fresh: "fresh_ids env" and sizes: "\<forall>f \<in> set files. 0 \<le> ur_size f"
  shows "upload_inv db'"
proof (cases "files = []")
  case False
  let ?rows = "new_upload_files env i files"
  obtain b db1 db2 where b: "first_row (\<lambda>b. ub_id b = i \<and> writable_status (ub_status b)) (upload_batches db) = Some b"
    and lim: "ub_declared b + declared_sum files \<le> MAX_UPLOAD_BATCH_BYTES" "ub_files b + int (length files) \<le> MAX_UPLOAD_BATCH_FILES"
    and db1: "insert_upload_files ?rows (db\<lparr>staging_disk := create_temps ?rows (staging_disk db)\<rparr>) = Inr db1"
    and db2: "register_metadata i ?rows db1 = Inr db2"
    and db': "db' = set_batch i (\<lambda>b. b\<lparr>ub_declared := ub_declared b + declared_sum files,
                   ub_files := ub_files b + int (length files), ub_status := UB_UPLOADING\<rparr>) db2"
    using ok False by (auto simp: registerFilesInTransaction_def Let_def bindE_Inr_iff split: option.splits if_split_asm)
  note ins = insert_upload_files_Inr [OF db1]
  from first_row_SomeD [OF b] have bm: "b \<in> set (upload_batches db)" "ub_id b = i" "ub_status b \<noteq> UB_READY"
    by (auto simp: writable_status_def)
  obtain more where db2': "db2 = db1\<lparr>import_files := more\<rparr>" using register_metadata_Inr [OF db2] by blast
  have bd': "upload_batches db' = update_rows (\<lambda>b. ub_id b = i) (\<lambda>b. b\<lparr>ub_declared := ub_declared b + declared_sum files,
                   ub_files := ub_files b + int (length files), ub_status := UB_UPLOADING\<rparr>) (upload_batches db)"
    and fd': "upload_files db' = upload_files db @ ?rows" and rd': "removals db' = removals db" and ed': "finals db' = finals db"
    using ins unfolding db' db2' set_batch_def by (simp_all add: finals_def)
  have row: "uf_batch_id r = i \<and> file_ok r \<and> \<not> child_file r \<and> uf_received r = 0 \<and> archive_share r = 0 \<and> uf_id r \<notin> uf_id ` set (upload_files db)"
    if "r \<in> set ?rows" for r using new_upload_filesD [OF that fresh sizes] ins that by simp
  have "share (removals db) r = Usage (uf_declared r) 0 1 0" if "r \<in> set ?rows" for r
    using row [OF that] new_not_removed [OF upload_inv_books [OF inv], of r] by (simp add: share_def counted_def file_share_def)
  then have sum: "sum_for (share (removals db)) i ?rows = Usage (declared_sum files) 0 (int (length files)) 0"
    using sum_for_new [of ?rows i "removals db"] row by (simp add: new_upload_files_map declared_sum_def)
  show ?thesis unfolding upload_inv_def bd' fd' rd' ed'
  proof (rule books_add_files [OF upload_inv_books [OF inv]])
    show "i \<in> ub_id ` set (upload_batches db)" using bm by auto
    show "uf_batch_id r = i \<and> file_ok r \<and> uf_id r \<notin> uf_id ` set (upload_files db) \<and> (child_file r \<longrightarrow> ready (upload_batches db) i)"
      if "r \<in> set ?rows" for r using row [OF that] by simp
    show "distinct (map uf_id ?rows)" using ins by simp
    fix c assume "c \<in> set (upload_batches db)" "ub_id c = i"
    then have "c = b" using same_batch [OF inv _ bm(1)] bm(2) by simp
    then show "ub_id (c\<lparr>ub_declared := ub_declared c + declared_sum files, ub_files := ub_files c + int (length files), ub_status := UB_UPLOADING\<rparr>) = i \<and>
      (ub_status c = UB_READY \<longrightarrow> ub_status (c\<lparr>ub_declared := ub_declared c + declared_sum files, ub_files := ub_files c + int (length files), ub_status := UB_UPLOADING\<rparr>) = UB_READY) \<and>
      limits_ok (c\<lparr>ub_declared := ub_declared c + declared_sum files, ub_files := ub_files c + int (length files), ub_status := UB_UPLOADING\<rparr>) \<and>
      usage_of (c\<lparr>ub_declared := ub_declared c + declared_sum files, ub_files := ub_files c + int (length files), ub_status := UB_UPLOADING\<rparr>)
        = usage_of c + sum_for (share (removals db)) i ?rows"
      using bm lim inv_limits [OF inv bm(1)] unfolding sum by (simp add: usage_of_def Usage_add limits_ok_def)
  qed
qed (use assms in \<open>simp add: registerFilesInTransaction_def\<close>)

lemma normalized_sizes: "normalizeUploadFiles n inputs = Inr files \<Longrightarrow> \<forall>f \<in> set files. 0 \<le> ur_size f"
  using normalizeUploadFiles_Inr(5) [of n inputs files] by (auto simp: list_all_iff)

lemma createFiles_inv:
  assumes "upload_inv db" and "createFiles env i inputs db = Inr (rs, db')" and "fresh_ids env"
  shows "upload_inv db'"
proof -
  obtain files where "normalizeUploadFiles (un_nfc env) inputs = Inr files" "registerFilesInTransaction env i files db = Inr (rs, db')"
    using assms(2) by (auto simp: createFiles_def bindE_Inr_iff)
  then show ?thesis using register_inv [OF assms(1)] assms(3) normalized_sizes by blast
qed

lemma insert_batches_inv:
  assumes inv: "upload_inv db" and ok: "insert_batches env shopId accountId key period db = Inr db'"
  shows "upload_inv db'"
proof -
  let ?b = "\<lparr> ub_id = un_batch_id env, ub_shop_id = shopId, ub_created_by = accountId, ub_status = UB_OPEN, ub_declared = 0,
    ub_received = 0, ub_files = 0, ub_expanded = 0, ub_expires_at = un_now env + SEVEN_DAYS \<rparr>"
  have "upload_batches db' = upload_batches db @ [?b]" "ub_id ?b \<notin> ub_id ` set (upload_batches db)" "usage_of ?b = 0"
    "upload_files db' = upload_files db" "removals db' = removals db" "finals db' = finals db"
    using ok by (auto simp: insert_batches_def usage_of_def zero_usage_def finals_def image_iff split: if_split_asm)
  then obtain b where b: "upload_batches db' = upload_batches db @ [b]" "ub_id b = un_batch_id env" "usage_of b = 0"
    "ub_id b \<notin> ub_id ` set (upload_batches db)" "upload_files db' = upload_files db" "removals db' = removals db" "finals db' = finals db"
    by (metis upload_batch_row.select_convs(1))
  show ?thesis using books_add_batch [OF upload_inv_books [OF inv] b(4,3)] b by (simp add: upload_inv_def)
qed

lemma createBatchWithFiles_inv:
  assumes inv: "upload_inv db" and ok: "createBatchWithFiles env shopId accountId key inputs s e db = Inr (r, db')" and fresh: "fresh_ids env"
  shows "upload_inv db'"
proof -
  obtain files period where files: "normalizeUploadFiles (un_nfc env) inputs = Inr files"
    and rest: "(case first_row (\<lambda>b. ib_shop_id b = shopId \<and> ib_key b = key) (import_batches db) of
       Some row \<Rightarrow> if ib_start row \<noteq> map_option periodStart period \<or> ib_end row \<noteq> map_option periodEnd period
         then Inl (AppError ''UPLOAD_IDEMPOTENCY_SCOPE_MISMATCH'' 409 None)
         else bindE (existingBatchRegistration (ib_upload_id row) files db) (\<lambda>rs. Inr ((ib_upload_id row, rs), db))
     | None \<Rightarrow> if list_ex (active_replay shopId) (import_batches db)
         then Inl (AppError ''UPLOAD_SOURCE_REPLAY_IN_PROGRESS'' 409 None)
         else bindE (insert_batches env shopId accountId key period db) (\<lambda>db1.
              bindE (registerFilesInTransaction env (un_batch_id env) files db1) (\<lambda>(rs, db2).
              Inr ((un_batch_id env, rs), db2)))) = Inr (r, db')"
    using ok unfolding createBatchWithFiles_def by (auto simp: bindE_Inr_iff)
  show ?thesis
  proof (cases "first_row (\<lambda>b. ib_shop_id b = shopId \<and> ib_key b = key) (import_batches db)")
    case None
    with rest obtain db1 rs where "insert_batches env shopId accountId key period db = Inr db1"
      "registerFilesInTransaction env (un_batch_id env) files db1 = Inr (rs, db')"
      by (auto simp: bindE_Inr_iff split: if_split_asm)
    then show ?thesis using insert_batches_inv [OF inv] register_inv fresh normalized_sizes [OF files] by blast
  next
    case (Some row)
    with rest have "db' = db" by (auto simp: bindE_Inr_iff split: if_split_asm)
    with inv show ?thesis by simp
  qed
qed

section \<open>Rows of files and batches\<close>

lemma set_files_simps [simp]:
  "upload_batches (set_files p g db) = upload_batches db" "upload_files (set_files p g db) = update_rows p g (upload_files db)"
  "removals (set_files p g db) = removals db" "finals (set_files p g db) = finals db" "outbox (set_files p g db) = outbox db"
  "staging_disk (set_files p g db) = staging_disk db" "import_batches (set_files p g db) = import_batches db"
  by (simp_all add: set_files_def finals_def)

lemma set_batch_simps [simp]:
  "upload_batches (set_batch i g db) = update_rows (\<lambda>b. ub_id b = i) g (upload_batches db)"
  "upload_files (set_batch i g db) = upload_files db" "removals (set_batch i g db) = removals db"
  "finals (set_batch i g db) = finals db" "outbox (set_batch i g db) = outbox db"
  "staging_disk (set_batch i g db) = staging_disk db" "import_batches (set_batch i g db) = import_batches db"
  by (simp_all add: set_batch_def finals_def)

lemma set_import_simps [simp]:
  "upload_batches (set_import i g db) = upload_batches db" "upload_files (set_import i g db) = upload_files db"
  "removals (set_import i g db) = removals db" "finals (set_import i g db) = finals db"
  "outbox (set_import i g db) = outbox db" "staging_disk (set_import i g db) = staging_disk db"
  by (simp_all add: set_import_def finals_def)

lemma finals_more [simp]:
  "finals (db\<lparr>staging_disk := d\<rparr>) = finals db" "finals (db\<lparr>chunk_receipts := c\<rparr>) = finals db"
  "finals (db\<lparr>import_issues := m\<rparr>) = finals db" "finals (db\<lparr>import_files := n\<rparr>) = finals db"
  "finals (db\<lparr>stored_objects := st\<rparr>) = finals db" "finals (db\<lparr>upload_batches := u\<rparr>) = finals db"
  "finals (db\<lparr>import_batches := w\<rparr>) = finals db" "finals (db\<lparr>upload_files := v\<rparr>) = finals db"
  "finals (db\<lparr>removals := r\<rparr>) = finals db"
  by (simp_all add: finals_def)

lemma upload_inv_more:
  "upload_inv db \<Longrightarrow> upload_inv (db\<lparr>staging_disk := d\<rparr>)" "upload_inv db \<Longrightarrow> upload_inv (db\<lparr>import_issues := m\<rparr>)"
  "upload_inv db \<Longrightarrow> upload_inv (db\<lparr>stored_objects := st\<rparr>)" "upload_inv db \<Longrightarrow> upload_inv (set_import i g db)"
  "upload_inv db \<Longrightarrow> upload_inv (db\<lparr>import_files := n\<rparr>)"
  by (rule upload_inv_cong; simp)+

lemma set_files_inv:
  assumes "upload_inv db"
    and "\<And>f. f \<in> set (upload_files db) \<Longrightarrow> p f \<Longrightarrow> uf_id (g f) = uf_id f \<and> uf_batch_id (g f) = uf_batch_id f \<and> file_ok (g f)
      \<and> (\<forall>rs. share rs (g f) = share rs f) \<and> (uf_status f = UF_FAILED \<longrightarrow> uf_status (g f) = UF_FAILED)"
  shows "upload_inv (set_files p g db)"
  unfolding upload_inv_def set_files_simps
proof (rule books_files [OF upload_inv_books [OF assms(1)]])
  fix f assume "f \<in> set (upload_files db)" "p f"
  from assms(2) [OF this] show "uf_id (g f) = uf_id f \<and> uf_batch_id (g f) = uf_batch_id f \<and> file_ok (g f)
    \<and> share (removals db) (g f) = share (removals db) f \<and> (uf_status f = UF_FAILED \<longrightarrow> uf_status (g f) = UF_FAILED)" by simp
qed

lemma set_batches_inv:
  assumes "upload_inv db" and "upload_batches db' = update_rows p g (upload_batches db)" and "upload_files db' = upload_files db"
    and "removals db' = removals db" and "finals db' = finals db"
    and "\<And>b. b \<in> set (upload_batches db) \<Longrightarrow> p b \<Longrightarrow> ub_id (g b) = ub_id b \<and> (ub_status b = UB_READY \<longrightarrow> ub_status (g b) = UB_READY)
      \<and> usage_of (g b) = usage_of b"
  shows "upload_inv db'"
  unfolding upload_inv_def assms(2-5)
proof (rule books_batches [OF upload_inv_books [OF assms(1)]])
  fix b assume "b \<in> set (upload_batches db)" "p b"
  from assms(6) [OF this] show "ub_id (g b) = ub_id b \<and> (ub_status b = UB_READY \<longrightarrow> ub_status (g b) = UB_READY)
    \<and> usage_of (g b) = usage_of b" .
qed

text \<open>One file and the counters of its batch.\<close>

lemma one_file_inv:
  assumes inv: "upload_inv db" and f: "f \<in> set (upload_files db)" and b: "b \<in> set (upload_batches db)" "ub_id b = uf_batch_id f"
    and bd: "upload_batches db' = update_rows (\<lambda>c. ub_id c = uf_batch_id f) g (upload_batches db)"
    and fd: "upload_files db' = update_rows (\<lambda>r. uf_id r = uf_id f) h (upload_files db)"
    and same: "removals db' = removals db" "finals db' = finals db"
    and g: "ub_id (g b) = ub_id b" "ub_status b = UB_READY \<Longrightarrow> ub_status (g b) = UB_READY" "limits_ok (g b)"
      "usage_of (g b) = usage_of b + (share (removals db) (h f) - share (removals db) f)"
    and h: "uf_id (h f) = uf_id f" "uf_batch_id (h f) = uf_batch_id f" "file_ok (h f)"
      "uf_status f = UF_FAILED \<Longrightarrow> uf_status (h f) = UF_FAILED"
  shows "upload_inv db'"
  unfolding upload_inv_def bd fd same
proof (rule books_one [OF upload_inv_books [OF inv] f refl])
  fix c assume "c \<in> set (upload_batches db)" "ub_id c = uf_batch_id f"
  then have "c = b" using same_batch [OF inv _ b(1)] b(2) by simp
  then show "ub_id (g c) = uf_batch_id f \<and> (ub_status c = UB_READY \<longrightarrow> ub_status (g c) = UB_READY) \<and> limits_ok (g c)
      \<and> usage_of (g c) = usage_of c + (share (removals db) (h f) - share (removals db) f)"
    using g b by simp
qed (use h in simp_all)

lemma update_rows_cong: "(\<And>r. r \<in> set t \<Longrightarrow> p r = q r) \<Longrightarrow> update_rows p f t = update_rows q f t"
  by (induction t) auto

lemma file_in_batchD:
  assumes "upload_inv db" and "file_in_batch i j db = Some f"
  shows "f \<in> set (upload_files db)" "uf_id f = i" "uf_batch_id f = j"
    "update_rows (\<lambda>r. uf_id r = i \<and> uf_batch_id r = j \<and> P r) h (upload_files db)
       = update_rows (\<lambda>r. uf_id r = i \<and> P r) h (upload_files db)"
proof -
  show f: "f \<in> set (upload_files db)" "uf_id f = i" "uf_batch_id f = j"
    using first_row_SomeD [OF assms(2) [unfolded file_in_batch_def]] by auto
  show "update_rows (\<lambda>r. uf_id r = i \<and> uf_batch_id r = j \<and> P r) h (upload_files db)
       = update_rows (\<lambda>r. uf_id r = i \<and> P r) h (upload_files db)"
  proof (rule update_rows_cong)
    fix r assume r: "r \<in> set (upload_files db)"
    have "uf_id r = i \<Longrightarrow> r = f" using same_file [OF assms(1) r f(1)] f(2) by simp
    with f(3) show "(uf_id r = i \<and> uf_batch_id r = j \<and> P r) = (uf_id r = i \<and> P r)" by auto
  qed
qed

section \<open>Chunks\<close>

lemma counted_open:
  assumes inv: "upload_inv db" and f: "f \<in> set (upload_files db)" and b: "b \<in> set (upload_batches db)" "ub_id b = uf_batch_id f"
    and open': "writable_status (ub_status b)"
  shows "\<not> child_file f"
proof
  assume "child_file f"
  then have "ready (upload_batches db) (uf_batch_id f)" using inv_child [OF inv f] by simp
  moreover have "\<not> ready (upload_batches db) (ub_id b)" using open' by (intro not_ready [OF inv b(1)]) (auto simp: writable_status_def)
  ultimately show False using b by simp
qed

lemma batch_row:
  assumes "upload_inv db" and "f \<in> set (upload_files db)"
  obtains b where "b \<in> set (upload_batches db)" "ub_id b = uf_batch_id f" "limits_ok b"
  using inv_file [OF assms] inv_limits [OF assms(1)] by blast

lemma receive_chunk_inv:
  assumes inv: "upload_inv db" and f: "f \<in> set (upload_files db)" and st: "uf_status f \<in> {UF_PENDING, UF_UPLOADING}"
    and n: "0 \<le> n" "uf_received f + n \<le> uf_declared f" and w: "writable_batch tm f db"
    and counted: "counted (removals db) f"
  shows "upload_inv (receive_chunk tm f n db)"
proof -
  obtain b where b: "b \<in> set (upload_batches db)" "ub_id b = uf_batch_id f" "limits_ok b" using batch_row [OF inv f] .
  let ?h = "\<lambda>r. r\<lparr>uf_received := uf_received f + n,
    uf_status := (if uf_received f + n = uf_declared f then UF_COMPLETE else UF_UPLOADING), uf_updated_at := tm\<rparr>"
  have ok: "file_ok f" using inv_file [OF inv f] by simp
  have "counted (removals db) (?h f)" using counted by (simp add: counted_def child_file_def removed_file_def)
  then have "share (removals db) (?h f) - share (removals db) f = Usage 0 n 0 0"
    using counted by (simp add: share_def file_share_def archive_share_def Usage_diff)
  then show ?thesis
    using b ok st n inv_limits [OF inv b(1)]
    by (intro one_file_inv [OF inv f b(1,2), where h = ?h and g = "\<lambda>b. b\<lparr>ub_received := ub_received b + n\<rparr>"])
      (auto simp: receive_chunk_def Let_def usage_of_def Usage_add limits_ok_def file_ok_def)
qed

lemma inv_removed: "upload_inv db \<Longrightarrow> f \<in> set (upload_files db) \<Longrightarrow> removed_file (removals db) f \<Longrightarrow> uf_status f = UF_FAILED"
  by (auto simp: upload_inv_def books_ok_def)

lemma commitChunk_inv:
  assumes inv: "upload_inv db" and run: "commitChunk lib tm input target chunk db = (r, db')" and n: "int (length chunk) = ch_length input"
  shows "upload_inv db'"
proof (cases r)
  case (Inl e)
  then have "db' = db \<or> (\<exists>d. db' = db\<lparr>staging_disk := d\<rparr>)"
    using run by (auto simp: commitChunk_def Let_def split: option.splits if_split_asm)
  with inv upload_inv_more(1) show ?thesis by blast
next
  case (Inr x)
  with run obtain f d rc where f: "file_of (ch_file input) db = Some f" "uf_status f \<in> {UF_PENDING, UF_UPLOADING}"
    and w: "writable_batch tm f db" and le: "uf_received f + ch_length input \<le> uf_declared f"
    and db': "db' = receive_chunk tm f (ch_length input) (db\<lparr>staging_disk := d, chunk_receipts := rc\<rparr>)"
    unfolding commitChunk_def Let_def by (auto simp: n split: option.splits if_split_asm)
  note fm = file_ofD [OF f(1)]
  obtain b where b: "b \<in> set (upload_batches db)" "ub_id b = uf_batch_id f" "writable_status (ub_status b)"
    using w by (auto simp: writable_batch_def)
  have "\<not> child_file f" using counted_open [OF inv _ b] fm by simp
  moreover have "\<not> removed_file (removals db) f" using inv_removed [OF inv] fm f(2) by auto
  ultimately have c: "counted (removals db) f" by (simp add: counted_def)
  have inv2: "upload_inv (db\<lparr>staging_disk := d, chunk_receipts := rc\<rparr>)" by (rule upload_inv_cong [OF inv]) simp_all
  show ?thesis unfolding db'
    by (rule receive_chunk_inv [OF inv2 _ f(2)]) (use fm le n w c in \<open>simp_all add: writable_batch_def\<close>)
qed

lemma stageChunk_Inr: "stageChunk lib base tm input db = Inr (target, chunk) \<Longrightarrow> int (length chunk) = ch_length input"
  by (auto simp: stageChunk_def Let_def split: option.splits if_split_asm prod.splits)

lemma appendChunk_inv: "upload_inv db \<Longrightarrow> appendChunk lib base tm input db = (r, db') \<Longrightarrow> upload_inv db'"
  unfolding appendChunk_def using commitChunk_inv stageChunk_Inr by (fastforce split: sum.splits)

section \<open>The budget of archives\<close>

lemma reserve_inv:
  assumes inv: "upload_inv db" and ok: "reserveArchiveBudget tm i j expanded count db = Inr db'"
  shows "upload_inv db'"
proof (cases "db' = db")
  case False
  obtain b f where b: "first_row (\<lambda>b. ub_id b = j \<and> finalizable_batch tm b) (upload_batches db) = Some b"
    and f: "file_in_batch i j db = Some f" "uf_status f = UF_ENCRYPTING" "uf_reservation f = RS_NONE"
    and lim: "0 \<le> expanded" "0 \<le> count" "ub_expanded b + expanded \<le> MAX_BATCH_EXPANDED_BYTES" "ub_files b + count \<le> MAX_UPLOAD_BATCH_FILES"
    and db': "db' = set_file i j (\<lambda>r. r\<lparr>uf_reservation := RS_RESERVED, uf_archive_bytes := expanded, uf_archive_files := count, uf_updated_at := tm\<rparr>)
       (set_batch j (\<lambda>r. r\<lparr>ub_expanded := ub_expanded b + expanded, ub_files := ub_files b + count\<rparr>) db)"
    using ok False by (auto simp: reserveArchiveBudget_def split: if_split_asm option.splits)
  note fm = file_in_batchD [OF inv f(1)]
  let ?h = "\<lambda>r. r\<lparr>uf_reservation := RS_RESERVED, uf_archive_bytes := expanded, uf_archive_files := count, uf_updated_at := tm\<rparr>"
  have bm: "b \<in> set (upload_batches db)" "ub_id b = uf_batch_id f" using first_row_SomeD [OF b] fm by auto
  have ok: "file_ok f" using inv_file [OF inv fm(1)] by simp
  have c: "counted (removals db) (?h f) = counted (removals db) f" by (simp add: counted_def child_file_def removed_file_def)
  have "share (removals db) (?h f) - share (removals db) f = Usage 0 0 count expanded"
    using f(3) ok by (simp add: share_def c archive_share_def file_share_def file_ok_def Usage_diff Usage_add zero_usage_def)
  then show ?thesis
    using bm ok f lim fm inv_limits [OF inv bm(1)] fm(4) [of "\<lambda>_. True"]
    by (intro one_file_inv [OF inv fm(1) bm, where h = ?h and g = "\<lambda>r. r\<lparr>ub_expanded := ub_expanded b + expanded, ub_files := ub_files b + count\<rparr>"])
      (auto simp: db' set_file_def usage_of_def Usage_add limits_ok_def file_ok_def)
qed (use inv in simp)

lemma share_nonneg: "file_ok f \<Longrightarrow> 0 \<le> share rs f"
  by (auto simp: share_def file_share_def archive_share_def file_ok_def less_eq_usage_def)

text \<open>The counters of a batch cover any part of the shares of its files.\<close>

lemma usage_covers:
  assumes "upload_inv db" and "b \<in> set (upload_batches db)"
    and "\<And>f. f \<in> set (upload_files db) \<Longrightarrow> uf_batch_id f = ub_id b \<Longrightarrow> g f \<le> share (removals db) f"
  shows "sum_for g (ub_id b) (upload_files db) \<le> usage_of b"
  unfolding inv_usage [OF assms(1,2)] by (rule sum_for_mono [OF assms(3)])

lemma archive_le_share: "file_ok f \<Longrightarrow> archive_share f \<le> share rs f" "file_ok f \<Longrightarrow> counted rs f \<Longrightarrow> file_share f \<le> share rs f"
  by (auto simp: share_def file_share_def archive_share_def file_ok_def less_eq_usage_def)

lemma archive_covered:
  assumes inv: "upload_inv db" and f: "f \<in> set (upload_files db)" and b: "b \<in> set (upload_batches db)" "ub_id b = uf_batch_id f"
  shows "archive_share f \<le> usage_of b"
proof -
  have "sum_for (\<lambda>r. if uf_id r = uf_id f then archive_share r else 0) (ub_id b) (upload_files db) \<le> usage_of b"
    using inv_file [OF inv] archive_le_share(1) share_nonneg by (intro usage_covers [OF inv b(1)]) auto
  then show ?thesis using sum_for_one [OF inv_ids(2) [OF inv] f] b by simp
qed

lemma release_inv:
  assumes inv: "upload_inv db" and run: "releaseArchiveBudget tm i j db = r"
  shows "\<exists>x db'. r = Inr (x, db') \<and> upload_inv db'"
proof -
  consider "r = Inr (False, db)"
    | b f where "batch_of j db = Some b" "file_in_batch i j db = Some f" "uf_reservation f = RS_RESERVED"
    using run by (auto simp: releaseArchiveBudget_def split: option.splits if_split_asm)
  then show ?thesis
  proof cases
    case (2 b f)
    note fm = file_in_batchD [OF inv 2(2)] and bm = batch_ofD [OF 2(1)]
    have bm: "b \<in> set (upload_batches db)" "ub_id b = uf_batch_id f" using bm fm by auto
    have le: "uf_archive_bytes f \<le> ub_expanded b" "uf_archive_files f \<le> ub_files b"
      using archive_covered [OF inv fm(1) bm] by (simp_all add: archive_share_def usage_of_def less_eq_usage_def)
    let ?g = "\<lambda>r. r\<lparr>ub_expanded := ub_expanded r - uf_archive_bytes f, ub_files := ub_files r - uf_archive_files f\<rparr>"
    let ?db = "set_files (\<lambda>r. uf_id r = i \<and> uf_batch_id r = j \<and> uf_reservation r = RS_RESERVED) (no_reservation tm) (set_batch j ?g db)"
    have r: "r = Inr (True, ?db)" using run 2 le by (simp add: releaseArchiveBudget_def)
    have ok: "file_ok f" using inv_file [OF inv fm(1)] by simp
    have c: "counted (removals db) (no_reservation tm f) = counted (removals db) f"
      by (simp add: no_reservation_def counted_def child_file_def removed_file_def)
    have d: "share (removals db) (no_reservation tm f) - share (removals db) f = Usage 0 0 (- uf_archive_files f) (- uf_archive_bytes f)"
      unfolding share_def c by (simp add: no_reservation_def archive_share_def file_share_def Usage_diff Usage_add zero_usage_def)
    have rows: "update_rows (\<lambda>r. uf_id r = i \<and> uf_batch_id r = j \<and> uf_reservation r = RS_RESERVED) (no_reservation tm) (upload_files db)
        = update_rows (\<lambda>r. uf_id r = uf_id f) (no_reservation tm) (upload_files db)"
    proof (rule update_rows_cong)
      fix r assume r: "r \<in> set (upload_files db)"
      have "uf_id r = i \<Longrightarrow> r = f" using same_file [OF inv r fm(1)] fm(2) by simp
      with fm 2(3) show "(uf_id r = i \<and> uf_batch_id r = j \<and> uf_reservation r = RS_RESERVED) = (uf_id r = uf_id f)" by auto
    qed
    have "upload_inv ?db"
      by (rule one_file_inv [OF inv fm(1) bm, where h = "no_reservation tm" and g = ?g])
        (use bm fm ok le d rows inv_limits [OF inv bm(1)] in \<open>auto simp: usage_of_def Usage_add limits_ok_def file_ok_def no_reservation_def\<close>)
    with r show ?thesis by blast
  qed (use inv in blast)
qed

section \<open>Budgets of many files\<close>

definition reserved_share :: "upload_file_row \<Rightarrow> usage" where
  "reserved_share f = (if uf_reservation f = RS_RESERVED then archive_share f else 0)"

lemma reserved_sum: "sum_for reserved_share i files = Usage 0 0 (reserved_files i files) (reserved_bytes i files)"
  by (induction files) (auto simp: reserved_files_def reserved_bytes_def reserved_share_def archive_share_def Usage_add zero_usage_def)

lemma sum_for_selected:
  assumes "distinct files" and "distinct sel" and "set sel \<subseteq> set files"
  shows "sum_for g i sel = sum_for (\<lambda>f. if f \<in> set sel then g f else 0) i files"
proof -
  have "sum_for g i sel = (\<Sum>f \<in> set sel. if uf_batch_id f = i then g f else 0)"
    unfolding sum_for_def using assms(2) by (simp add: sum_list_distinct_conv_sum_set)
  also have "\<dots> = (\<Sum>f \<in> set files. if f \<in> set sel then (if uf_batch_id f = i then g f else 0) else 0)"
    using assms(3) by (intro sum.mono_neutral_cong_left) auto
  also have "\<dots> = sum_list (map (\<lambda>f. if uf_batch_id f = i then (if f \<in> set sel then g f else 0) else 0) files)"
    using assms(1) by (subst sum_list_distinct_conv_sum_set) (auto intro!: sum.cong)
  finally show ?thesis by (simp add: sum_for_def)
qed

lemma distinct_files: "upload_inv db \<Longrightarrow> distinct (upload_files db)"
  using inv_ids(2) by (auto simp: distinct_map)

lemma reserved_covered:
  assumes inv: "upload_inv db" and sel: "distinct sel" "set sel \<subseteq> set (upload_files db)" and b: "b \<in> set (upload_batches db)"
  shows "sum_for reserved_share (ub_id b) sel \<le> usage_of b"
proof -
  have "(if f \<in> set sel then reserved_share f else 0) \<le> share (removals db) f" if "f \<in> set (upload_files db)" for f
    using inv_file [OF inv that] archive_le_share(1) [of f "removals db"] share_nonneg [of f "removals db"]
    by (auto simp: reserved_share_def)
  then show ?thesis unfolding sum_for_selected [OF distinct_files [OF inv] sel] by (intro usage_covers [OF inv b])
qed

lemma releaseReserved_ok:
  assumes inv: "upload_inv db" and sel: "distinct sel" "set sel \<subseteq> set (upload_files db)"
  shows "releaseReservedArchiveBudgets sel db = Inr (db\<lparr>upload_batches := update_rows (\<lambda>b. True)
    (\<lambda>b. b\<lparr>ub_expanded := ub_expanded b - reserved_bytes (ub_id b) sel, ub_files := ub_files b - reserved_files (ub_id b) sel\<rparr>) (upload_batches db)\<rparr>)"
proof -
  define touched where "touched = remdups (map uf_batch_id (filter (\<lambda>f. uf_reservation f = RS_RESERVED) sel))"
  define enough where "enough = (\<lambda>b :: upload_batch_row. reserved_bytes (ub_id b) sel \<le> ub_expanded b \<and> reserved_files (ub_id b) sel \<le> ub_files b)"
  have enough: "enough b" if "b \<in> set (upload_batches db)" for b
    using reserved_covered [OF inv sel that] unfolding reserved_sum by (simp add: enough_def usage_of_def less_eq_usage_def)
  have "list_ex (\<lambda>b. ub_id b = i \<and> enough b) (upload_batches db)" if "i \<in> set touched" for i
  proof -
    obtain f where "f \<in> set (upload_files db)" "uf_batch_id f = i" using \<open>i \<in> set touched\<close> sel by (auto simp: touched_def)
    then show ?thesis using inv_file [OF inv] enough by (force simp: list_ex_iff)
  qed
  then have "list_all (\<lambda>i. list_ex (\<lambda>b. ub_id b = i \<and> enough b) (upload_batches db)) touched" by (simp add: list_all_iff)
  moreover have "reserved_bytes i sel = 0 \<and> reserved_files i sel = 0" if "i \<notin> set touched" for i
  proof -
    have "filter (\<lambda>f. uf_reservation f = RS_RESERVED \<and> uf_batch_id f = i) sel = []"
      using that by (auto simp: touched_def filter_empty_conv)
    then show ?thesis by (simp add: reserved_bytes_def reserved_files_def)
  qed
  then have "update_rows (\<lambda>b. ub_id b \<in> set touched \<and> enough b)
      (\<lambda>b. b\<lparr>ub_expanded := ub_expanded b - reserved_bytes (ub_id b) sel, ub_files := ub_files b - reserved_files (ub_id b) sel\<rparr>) (upload_batches db)
    = update_rows (\<lambda>b. True)
      (\<lambda>b. b\<lparr>ub_expanded := ub_expanded b - reserved_bytes (ub_id b) sel, ub_files := ub_files b - reserved_files (ub_id b) sel\<rparr>) (upload_batches db)"
    using enough unfolding update_rows_def by auto
  ultimately show ?thesis
    unfolding releaseReservedArchiveBudgets_def Let_def touched_def [symmetric] enough_def [symmetric] by simp
qed

lemma release_fail_inv:
  assumes inv: "upload_inv db" and sel: "distinct sel" "set sel \<subseteq> set (upload_files db)"
    and rel: "releaseReservedArchiveBudgets sel db = Inr db1"
    and p: "\<And>f. f \<in> set (upload_files db) \<Longrightarrow> p f \<longleftrightarrow> f \<in> set sel \<and> (uf_status f \<noteq> UF_STORED \<or> q f)"
    and h: "\<And>f. f \<in> set sel \<Longrightarrow> h f = (if uf_status f = UF_STORED then f\<lparr>uf_updated_at := tm\<rparr> else fail_unstored tm f)"
    and bd: "upload_batches db' = upload_batches db1" and fd: "upload_files db' = update_rows p h (upload_files db)"
    and same: "removals db' = removals db" "finals db' = finals db"
  shows "upload_inv db'"
proof -
  let ?g = "\<lambda>b. b\<lparr>ub_expanded := ub_expanded b - reserved_bytes (ub_id b) sel, ub_files := ub_files b - reserved_files (ub_id b) sel\<rparr>"
  let ?rs = "removals db"
  have bd': "upload_batches db' = update_rows (\<lambda>b. True) ?g (upload_batches db)"
    using rel releaseReserved_ok [OF inv sel] bd by auto
  have ok: "file_ok f" if "f \<in> set sel" for f using inv_file [OF inv] sel that by blast
  have h_ok: "uf_id (h f) = uf_id f \<and> uf_batch_id (h f) = uf_batch_id f \<and> file_ok (h f) \<and> (uf_status f = UF_FAILED \<longrightarrow> uf_status (h f) = UF_FAILED)"
    if "f \<in> set sel" for f using ok [OF that] h [OF that] by (auto simp: file_ok_def fail_unstored_def)
  have delta: "share ?rs (if p f then h f else f) - share ?rs f = - (if f \<in> set sel then reserved_share f else 0)"
    if f: "f \<in> set (upload_files db)" for f
  proof (cases "f \<in> set sel \<and> uf_status f \<noteq> UF_STORED")
    case True
    then have "h f = fail_unstored tm f" using h by simp
    moreover have "counted ?rs (fail_unstored tm f) = counted ?rs f" by (simp add: fail_unstored_def counted_def child_file_def removed_file_def)
    moreover have "reserved_share f = archive_share f" using ok [of f] True
      by (cases "uf_reservation f") (auto simp: reserved_share_def archive_share_def file_ok_def zero_usage_def)
    ultimately show ?thesis using True p [OF f]
      by (simp add: share_def) (simp add: fail_unstored_def archive_share_def file_share_def zero_usage_def [symmetric])
  next
    case False
    then have "share ?rs (if p f then h f else f) = share ?rs f" using p [OF f] h [of f] by (cases "p f") auto
    moreover have "f \<in> set sel \<Longrightarrow> reserved_share f = 0" using False ok [of f] by (auto simp: reserved_share_def file_ok_def)
    ultimately show ?thesis by simp
  qed
  show ?thesis unfolding upload_inv_def bd' fd same
  proof (rule books_update [OF upload_inv_books [OF inv]])
    fix b assume b: "b \<in> set (upload_batches db)"
    have cov: "sum_for reserved_share (ub_id b) sel \<le> usage_of b" by (rule reserved_covered [OF inv sel b])
    have pos: "0 \<le> sum_for reserved_share (ub_id b) sel"
      using ok by (intro sum_for_nonneg) (auto simp: reserved_share_def archive_share_def file_ok_def less_eq_usage_def)
    show "ub_id (?g b) = ub_id b \<and> (ub_status b = UB_READY \<longrightarrow> ub_status (?g b) = UB_READY) \<and> limits_ok (?g b)"
      using inv_limits [OF inv b] pos unfolding reserved_sum by (auto simp: limits_ok_def less_eq_usage_def)
    have "sum_for (\<lambda>f. share ?rs (if p f then h f else f) - share ?rs f) (ub_id b) (upload_files db)
        = sum_for (\<lambda>f. 0 - (if f \<in> set sel then reserved_share f else 0)) (ub_id b) (upload_files db)"
      by (rule sum_for_cong) (simp add: delta)
    also have "\<dots> = - sum_for reserved_share (ub_id b) sel"
      unfolding sum_for_diff sum_for_selected [OF distinct_files [OF inv] sel] by (simp add: sum_for_zero)
    finally show "usage_of (if True then ?g b else b) = usage_of b
        + sum_for (\<lambda>f. share ?rs (if p f then h f else f) - share ?rs f) (ub_id b) (upload_files db)"
      unfolding reserved_sum by (simp add: usage_of_def plus_usage_def uminus_usage_def)
  next
    fix f assume "f \<in> set (upload_files db)" "p f"
    then show "uf_id (h f) = uf_id f \<and> uf_batch_id (h f) = uf_batch_id f \<and> file_ok (h f)" using p h_ok by blast
  next
    show "set (rm_files r) \<subseteq> uf_id ` set (upload_files db)" if "r \<in> set ?rs" for r
      using inv that by (simp add: upload_inv_def books_ok_def)
    show "uf_status (if p f then h f else f) = UF_FAILED" if "f \<in> set (upload_files db)" "removed_file ?rs f" for f
      using inv_removed [OF inv that] p [OF that(1)] h_ok [of f] by auto
  qed
qed

end
