(* ===== verification/UploadRuns.thy ===== *)
theory UploadRuns
  imports UploadSteps
begin

text \<open>The operations on whole batches keep the books, whatever part of them fails.\<close>

section \<open>Cleaning\<close>

lemma cleanup_inv: "upload_inv db \<Longrightarrow> cleanupUploadStagingArtifacts tm i temp db = (r, db') \<Longrightarrow> upload_inv db'"
proof -
  assume inv: "upload_inv db" and run: "cleanupUploadStagingArtifacts tm i temp db = (r, db')"
  have "db' = db \<or> (\<exists>d. db' = set_files (\<lambda>f. uf_id f = i \<and> uf_temp f = temp) (\<lambda>f. f\<lparr>uf_temp := [], uf_updated_at := tm\<rparr>) (db\<lparr>staging_disk := d\<rparr>))"
    using run by (auto simp: cleanupUploadStagingArtifacts_def Let_def split: sum.splits if_split_asm)
  then show ?thesis
  proof
    assume "\<exists>d. db' = set_files (\<lambda>f. uf_id f = i \<and> uf_temp f = temp) (\<lambda>f. f\<lparr>uf_temp := [], uf_updated_at := tm\<rparr>) (db\<lparr>staging_disk := d\<rparr>)"
    then obtain d where db': "db' = set_files (\<lambda>f. uf_id f = i \<and> uf_temp f = temp) (\<lambda>f. f\<lparr>uf_temp := [], uf_updated_at := tm\<rparr>) (db\<lparr>staging_disk := d\<rparr>)" by blast
    show ?thesis unfolding db'
      by (rule set_files_inv [OF upload_inv_more(1) [OF inv]]) (use inv_file [OF inv] in \<open>simp add: file_ok_def\<close>)
  qed (use inv in simp)
qed

lemma cleanup_all_inv: "upload_inv db \<Longrightarrow> upload_inv (snd (cleanup_all tm files db))"
proof (induction tm files db rule: cleanup_all.induct)
  case (2 tm i temp rest db)
  obtain r db1 where c: "cleanupUploadStagingArtifacts tm i temp db = (r, db1)" by fastforce
  have "upload_inv db1" using cleanup_inv [OF 2(3) c] .
  then show ?case using 2(1,2) c by (cases r) simp_all
qed simp

lemma cleanup_counted_inv: "upload_inv db \<Longrightarrow> upload_inv (snd (cleanup_counted tm files db))"
proof (induction tm files db rule: cleanup_counted.induct)
  case (2 tm i temp rest db)
  obtain r db1 where c: "cleanupUploadStagingArtifacts tm i temp db = (r, db1)" by fastforce
  have "upload_inv db1" using cleanup_inv [OF 2(2) c] .
  then have "upload_inv (snd (cleanup_counted tm rest db1))" using 2(1) [OF c [symmetric]] by simp
  then show ?case using c by (cases "cleanup_counted tm rest db1") simp
qed simp

lemma cleanup_pair_inv:
  "upload_inv db \<Longrightarrow> cleanup_all tm files db = (r, db') \<Longrightarrow> upload_inv db'"
  "upload_inv db \<Longrightarrow> cleanup_counted tm files db = (n, db') \<Longrightarrow> upload_inv db'"
  using cleanup_all_inv [of db tm files] cleanup_counted_inv [of db tm files] by simp_all

section \<open>Cancelling and expiring\<close>

lemma fail_unstored_rows:
  "update_rows (\<lambda>f. p f \<and> uf_status f \<noteq> UF_STORED) (fail_unstored tm) fs
     = update_rows (\<lambda>f. p f \<and> uf_status f \<noteq> UF_STORED) (\<lambda>f. if uf_status f = UF_STORED then f\<lparr>uf_updated_at := tm\<rparr> else fail_unstored tm f) fs"
  by (induction fs) auto

lemma in_selected:
  assumes "upload_inv db" and "set sel \<subseteq> set (upload_files db)" and "f \<in> set (upload_files db)"
  shows "uf_id f \<in> uf_id ` set sel \<longleftrightarrow> f \<in> set sel"
  using same_file [OF assms(1,3)] assms(2) by blast

lemma cancel_tx_inv:
  assumes inv: "upload_inv db"
  shows "\<exists>files db'. cancel_tx tm i db = Inr (files, db') \<and> upload_inv db'"
proof -
  let ?sel = "filter (\<lambda>f. uf_batch_id f = i \<and> uf_temp f \<noteq> []) (upload_files db)"
  have sel: "distinct ?sel" "set ?sel \<subseteq> set (upload_files db)" using distinct_files [OF inv] by auto
  obtain db1 where rel: "releaseReservedArchiveBudgets ?sel db = Inr db1" and same: "upload_files db1 = upload_files db"
    "removals db1 = removals db" "finals db1 = finals db" using releaseReserved_ok [OF inv sel] by simp
  let ?p = "\<lambda>f. uf_id f \<in> set (map uf_id ?sel) \<and> uf_status f \<noteq> UF_STORED"
  have p: "?p f \<longleftrightarrow> f \<in> set ?sel \<and> (uf_status f \<noteq> UF_STORED \<or> False)" if "f \<in> set (upload_files db)" for f
    using in_selected [OF inv sel(2) that] by simp
  have "upload_inv (set_files ?p (fail_unstored tm) db1)"
    by (rule release_fail_inv [OF inv sel rel p, where h = "\<lambda>f. if uf_status f = UF_STORED then f\<lparr>uf_updated_at := tm\<rparr> else fail_unstored tm f"])
      (simp_all add: same fail_unstored_rows)
  note mid = this
  obtain db' where run: "cancel_tx tm i db = Inr (?sel, db')"
    and db': "db' = set_files ?p (fail_unstored tm) (db1\<lparr>
      upload_batches := update_rows (\<lambda>b. ub_id b = i \<and> ub_status b \<in> {UB_OPEN, UB_UPLOADING, UB_FINALIZING, UB_FAILED})
                    (\<lambda>b. b\<lparr>ub_status := UB_CANCELLED\<rparr>) (upload_batches db1),
      import_batches := update_rows (\<lambda>b. ib_upload_id b = i \<and> cancellable_import (ib_status b))
                    (\<lambda>b. b\<lparr>ib_status := IB_CANCELLED, ib_stage := Stage_CANCELLED\<rparr>) (import_batches db1)\<rparr>)"
    using rel by (simp add: cancel_tx_def)
  have "upload_inv db'"
    by (rule set_batches_inv [OF mid, where p = "\<lambda>b. ub_id b = i \<and> ub_status b \<in> {UB_OPEN, UB_UPLOADING, UB_FINALIZING, UB_FAILED}"
          and g = "\<lambda>b. b\<lparr>ub_status := UB_CANCELLED\<rparr>"]) (auto simp: db' usage_of_def)
  with run show ?thesis by blast
qed

lemma cancelBatch_inv: "upload_inv db \<Longrightarrow> cancelBatch tm i db = (r, db') \<Longrightarrow> upload_inv db'"
  using cancel_tx_inv [of db tm i] cleanup_pair_inv(1) unfolding cancelBatch_def by fastforce

lemma sort_key_distinct: "distinct xs \<Longrightarrow> distinct (sort_key k xs)"
  by simp

lemma expire_tx_inv:
  assumes inv: "upload_inv db"
  shows "\<exists>files db'. expire_tx tm db = Inr (files, db') \<and> upload_inv db'"
proof -
  define db1 where "db1 = db\<lparr>upload_batches := update_rows (\<lambda>b. ub_id b \<in> set (expired_batches tm db)) (\<lambda>b. b\<lparr>ub_status := UB_EXPIRED\<rparr>) (upload_batches db)\<rparr>"
  have open': "ub_status b \<noteq> UB_READY" if b: "b \<in> set (upload_batches db)" "ub_id b \<in> set (expired_batches tm db)" for b
  proof -
    obtain c where "c \<in> set (upload_batches db)" "ub_status c \<in> {UB_OPEN, UB_UPLOADING, UB_FAILED}" "ub_id c = ub_id b"
      using b(2) unfolding expired_batches_def by (auto dest!: in_set_takeD)
    moreover from this have "c = b" using same_batch [OF inv _ b(1)] by blast
    ultimately show ?thesis by auto
  qed
  have inv1: "upload_inv db1"
    by (rule set_batches_inv [OF inv, where p = "\<lambda>b. ub_id b \<in> set (expired_batches tm db)" and g = "\<lambda>b. b\<lparr>ub_status := UB_EXPIRED\<rparr>"])
      (use open' in \<open>auto simp: db1_def usage_of_def\<close>)
  define sel where "sel = abandoned_files db1"
  have sel: "distinct sel" "set sel \<subseteq> set (upload_files db1)"
    using distinct_files [OF inv1] unfolding sel_def abandoned_files_def by (auto dest!: in_set_takeD intro!: distinct_take)
  obtain db2 where rel: "releaseReservedArchiveBudgets sel db1 = Inr db2" and same: "upload_files db2 = upload_files db1"
    "removals db2 = removals db1" "finals db2 = finals db1" using releaseReserved_ok [OF inv1 sel] by simp
  let ?p = "\<lambda>f. uf_id f \<in> set (map uf_id sel)"
  let ?h = "\<lambda>f. if uf_status f = UF_STORED then f\<lparr>uf_updated_at := tm\<rparr> else fail_unstored tm f"
  have p: "?p f \<longleftrightarrow> f \<in> set sel \<and> (uf_status f \<noteq> UF_STORED \<or> True)" if "f \<in> set (upload_files db1)" for f
    using in_selected [OF inv1 sel(2) that] by simp
  have "upload_inv (set_files ?p ?h db2)"
    by (rule release_fail_inv [OF inv1 sel rel p, where h = ?h]) (simp_all add: same)
  moreover have "expire_tx tm db = Inr (sel, set_files ?p ?h db2)"
    using rel unfolding expire_tx_def Let_def db1_def [symmetric] sel_def by simp
  ultimately show ?thesis by blast
qed

lemma expireUploadStaging_inv: "upload_inv db \<Longrightarrow> expireUploadStaging tm db = (r, db') \<Longrightarrow> upload_inv db'"
  using expire_tx_inv [of db tm] cleanup_pair_inv(2) unfolding expireUploadStaging_def by (fastforce split: prod.splits)

section \<open>Completing and failing\<close>

definition same_books :: "'z upload_db_scheme \<Rightarrow> 'z upload_db_scheme \<Rightarrow> bool" where
  "same_books db db' \<longleftrightarrow> upload_batches db' = upload_batches db \<and> upload_files db' = upload_files db
     \<and> removals db' = removals db \<and> finals db' = finals db \<and> staging_disk db' = staging_disk db \<and> chunk_receipts db' = chunk_receipts db"

lemma same_books_inv: "same_books db db' \<Longrightarrow> upload_inv db \<Longrightarrow> upload_inv db'"
  unfolding same_books_def using upload_inv_cong by blast

lemma same_books_refl: "same_books db db"
  by (simp add: same_books_def)

lemma same_books_trans: "same_books db db1 \<Longrightarrow> same_books db1 db2 \<Longrightarrow> same_books db db2"
  by (simp add: same_books_def)

lemma send_simps [simp]:
  "upload_batches (send e db) = upload_batches db" "upload_files (send e db) = upload_files db" "removals (send e db) = removals db"
  "staging_disk (send e db) = staging_disk db" "import_batches (send e db) = import_batches db" "chunk_receipts (send e db) = chunk_receipts db"
  by (simp_all add: send_def)

lemma same_books_steps:
  "same_books db (insert_issue_once p i db)" "same_books db (set_import j g db)"
  "ob_topic e \<noteq> ''upload.finalize'' \<Longrightarrow> same_books db (send e db)"
  by (simp_all add: same_books_def insert_issue_once_def set_import_def finals_def [symmetric]) (simp add: finals_def)?

lemma refresh_books:
  assumes "refreshUploadPreflight ev i j db = Inr (p, db')"
  shows "same_books db db'"
proof -
  obtain current where db': "db' = apply_projection ev current p (case pp_failure p of None \<Rightarrow> db | Some code \<Rightarrow> preflight_issue j code db)"
    using assms by (auto simp: refreshUploadPreflight_def Let_def split: option.splits)
  have "same_books db (case pp_failure p of None \<Rightarrow> db | Some code \<Rightarrow> preflight_issue j code db)"
    by (auto simp: preflight_issue_def same_books_refl intro: same_books_steps split: option.splits)
  moreover have "same_books d (apply_projection ev current p d)" for d
  proof -
    have "same_books d (set_import (ib_id current) g d)" for g by (rule same_books_steps)
    moreover have "same_books (set_import (ib_id current) g d) (send (commit_event ev current) (set_import (ib_id current) g d))" for g
      by (rule same_books_steps) (simp add: commit_event_def upload_event_def)
    ultimately show ?thesis unfolding apply_projection_def Let_def
      by (auto intro: same_books_trans same_books_refl)
  qed
  ultimately show ?thesis unfolding db' using same_books_trans by blast
qed

lemma send_finalizations_inv:
  assumes "upload_inv db" and "\<And>f. f \<in> set fs \<Longrightarrow> f \<in> set (upload_files db) \<and> ready (upload_batches db) (uf_batch_id f)"
  shows "upload_inv (fold (\<lambda>f. send (finalize_event ev (uf_id f))) fs db)"
  using assms
proof (induction fs arbitrary: db)
  case (Cons f fs)
  have "upload_inv (send (finalize_event ev (uf_id f)) db)"
    using books_event [OF upload_inv_books [OF Cons.prems(1)]] Cons.prems(2) [of f]
    by (simp add: upload_inv_def finalize_event_def upload_event_def)
  then show ?case using Cons.IH Cons.prems(2) by simp
qed simp

lemma submitted_inv:
  assumes inv: "upload_inv db" and b: "b \<in> set (upload_batches db)"
  shows "upload_inv (submitted ev b db)"
proof -
  let ?db = "set_batch (ub_id b) (\<lambda>r. r\<lparr>ub_status := UB_READY\<rparr>) db"
  have inv1: "upload_inv ?db"
    by (rule set_batches_inv [OF inv, where p = "\<lambda>r. ub_id r = ub_id b" and g = "\<lambda>b. b\<lparr>ub_status := UB_READY\<rparr>"]) (auto simp: usage_of_def)
  have "ready (upload_batches ?db) (ub_id b)"
    using update_one_in [OF b, of "\<lambda>r. r\<lparr>ub_status := UB_READY\<rparr>" ub_id] unfolding ready_def by (intro bexI) auto
  then have "upload_inv (send_finalizations ev (ub_id b) ?db)"
    unfolding send_finalizations_def by (intro send_finalizations_inv [OF inv1]) auto
  with inv show ?thesis by (simp add: submitted_def)
qed

lemma completeBatch_inv:
  assumes inv: "upload_inv db" and ok: "completeBatch ev i db = Inr (r, db')"
  shows "upload_inv db'"
proof -
  obtain b where b: "batch_of i db = Some b" and cases: "db' = db \<or> (\<exists>j p. refreshUploadPreflight ev i j (submitted ev b db) = Inr (p, db'))"
    using ok by (fastforce simp: completeBatch_def bindE_Inr_iff split: option.splits if_split_asm)
  show ?thesis using cases inv same_books_inv [OF refresh_books] submitted_inv [OF inv conjunct1 [OF batch_ofD [OF b]]] by blast
qed

lemma report_failure_inv:
  assumes inv: "upload_inv db" and ok: "report_failure ev code f b ib db = Inr (t, db')"
  shows "upload_inv db'"
proof -
  let ?db = "failure_issue (ib_id ib) code f db"
  have "upload_inv ?db" unfolding failure_issue_def using same_books_inv [OF same_books_steps(1) inv] .
  moreover have "db' = ?db \<or> (\<exists>q. refreshUploadPreflight ev (uf_batch_id f) (ib_id ib) ?db = Inr (q, db'))"
    using ok by (auto simp: report_failure_def Let_def bindE_Inr_iff split: if_split_asm)
  ultimately show ?thesis using same_books_inv [OF refresh_books] by blast
qed

text \<open>After the budget is given back nothing of the file is reserved.\<close>

lemma release_none:
  assumes inv: "upload_inv db" and f: "f \<in> set (upload_files db)" and st: "uf_status f \<noteq> UF_STORED"
    and db1: "(if uf_reservation f = RS_RESERVED then releaseArchiveBudget tm (uf_id f) (uf_batch_id f) db else Inr (False, db)) = Inr (x, db1)"
    and r: "r \<in> set (upload_files db1)" "uf_id r = uf_id f"
  shows "uf_reservation r = RS_NONE"
proof (cases "uf_reservation f = RS_RESERVED")
  case True
  have fb: "file_in_batch (uf_id f) (uf_batch_id f) db \<noteq> None" using f by (auto simp: file_in_batch_def first_row_None_iff)
  have bo: "batch_of (uf_batch_id f) db \<noteq> None" using inv_file [OF inv f] by (auto simp: batch_of_def first_row_None_iff)
  obtain g where g: "file_in_batch (uf_id f) (uf_batch_id f) db = Some g" using fb by blast
  have "g = f" using same_file [OF inv _ f] file_in_batchD [OF inv g] by simp
  then have "upload_files db1 = update_rows (\<lambda>r. uf_id r = uf_id f \<and> uf_batch_id r = uf_batch_id f \<and> uf_reservation r = RS_RESERVED) (no_reservation tm) (upload_files db)"
    using db1 True g bo by (auto simp: releaseArchiveBudget_def split: if_split_asm)
  note rows = this
  obtain r0 where r0: "r0 \<in> set (upload_files db)"
    "r = (if uf_id r0 = uf_id f \<and> uf_batch_id r0 = uf_batch_id f \<and> uf_reservation r0 = RS_RESERVED then no_reservation tm r0 else r0)"
    using r(1) unfolding rows in_update_rows by blast
  then have "uf_id r0 = uf_id f" using r(2) by (auto simp: no_reservation_def split: if_split_asm)
  then have "r0 = f" using same_file [OF inv r0(1) f] by simp
  with r0 True show ?thesis by (simp add: no_reservation_def)
next
  case False
  then have "r = f" using db1 r same_file [OF inv _ f] by simp
  with False st show ?thesis using inv_file [OF inv f] by (cases "uf_reservation f") (auto simp: file_ok_def)
qed

lemma recordUploadFileFailure_inv:
  assumes inv: "upload_inv db" and ok: "recordUploadFileFailure ev tm i code permitted db = Inr (t, db')" and p: "UF_STORED \<notin> permitted"
  shows "upload_inv db'"
proof -
  obtain f b ib x db1 where f: "file_of i db = Some f" and st: "uf_status f = UF_FAILED \<or> uf_status f \<in> permitted"
    and db1: "(if uf_reservation f = RS_RESERVED then releaseArchiveBudget tm i (uf_batch_id f) db else Inr (False, db)) = Inr (x, db1)"
    and rest: "report_failure ev code f b ib (mark_failed tm f db1) = Inr (t, db')"
    using ok unfolding recordUploadFileFailure_def by (auto simp: bindE_Inr_iff split: option.splits if_split_asm)
  note fm = file_ofD [OF f]
  have inv1: "upload_inv db1" using db1 release_inv [OF inv, of tm i "uf_batch_id f"] inv by (auto split: if_split_asm)
  have "uf_status f \<noteq> UF_STORED" using st p by auto
  then have none: "uf_reservation r = RS_NONE" if "r \<in> set (upload_files db1)" "uf_id r = uf_id f" for r
    using release_none [OF inv conjunct1 [OF fm], of tm x db1 r] db1 that unfolding conjunct2 [OF fm] by blast
  have "upload_inv (mark_failed tm f db1)"
  proof (cases "uf_status f = UF_FAILED")
    case False
    have "upload_inv (set_files (\<lambda>r. uf_id r = uf_id f) (\<lambda>r. r\<lparr>uf_status := UF_FAILED, uf_updated_at := tm\<rparr>) db1)"
      by (rule set_files_inv [OF inv1]) (use none inv_file [OF inv1] in \<open>auto simp: file_ok_def\<close>)
    with False show ?thesis by (simp add: mark_failed_def)
  qed (use inv1 in \<open>simp add: mark_failed_def\<close>)
  then show ?thesis using report_failure_inv rest by blast
qed

lemma failFile_inv: "upload_inv db \<Longrightarrow> failFile ev tm i code db = (r, db') \<Longrightarrow> upload_inv db'"
  using recordUploadFileFailure_inv [of db ev tm i code "{UF_PENDING, UF_UPLOADING}"] cleanup_inv
  unfolding failFile_def by (fastforce split: sum.splits)

section \<open>Removing\<close>

lemma file_share_sum:
  "\<forall>f \<in> set files. uf_batch_id f = i \<Longrightarrow>
   sum_for file_share i files = Usage (sum_list (map uf_declared files)) (sum_list (map uf_received files)) (int (length files)) 0"
  by (induction files) (auto simp: zero_usage_def file_share_def Usage_add)

lemma release_usage_Inr:
  assumes "release_usage i files db = Inr db1" and "\<forall>f \<in> set files. uf_batch_id f = i"
  shows "db1 = db\<lparr>upload_batches := update_rows (\<lambda>b. ub_id b = i) (\<lambda>b. b\<lparr>ub_declared := ub_declared b - us_declared (sum_for file_share i files),
    ub_received := ub_received b - us_received (sum_for file_share i files), ub_files := ub_files b - us_files (sum_for file_share i files)\<rparr>) (upload_batches db)\<rparr>"
proof -
  note sums = file_share_sum [OF assms(2)]
  show ?thesis
  proof (cases "files = []")
    case True
    then have "db1 = db" using assms(1) by (simp add: release_usage_def)
    moreover have "update_rows (\<lambda>b. ub_id b = i) (\<lambda>b. b) (upload_batches db) = upload_batches db" by (simp add: update_rows_def)
    ultimately show ?thesis using True by simp
  next
    case False
    then show ?thesis using assms(1) unfolding sums by (auto simp: release_usage_def Let_def set_batch_def split: if_split_asm)
  qed
qed

lemma removed_after:
  "removed_file (removals (record_removal \<lparr> rm_actor = a, rm_batch = i, rm_files = ids, rm_remaining = n, rm_cancelled = c \<rparr> db)) f
     \<longleftrightarrow> removed_file (removals db) f \<or> uf_batch_id f = i \<and> uf_id f \<in> set ids"
  by (auto simp: record_removal_def removed_file_def)

definition lower_ids :: "string list \<Rightarrow> bool" where
  "lower_ids ids \<longleftrightarrow> map uuid_of ids = ids"

lemma lower_ids_image: "lower_ids ids \<Longrightarrow> uuid_of ` set ids = set ids"
  unfolding lower_ids_def by (metis set_map)

lemma remove_books:
  assumes inv: "upload_inv db" and b: "b \<in> set (upload_batches db)" "ub_id b = i" "ub_status b \<noteq> UB_READY"
    and low: "lower_ids ids" and ids: "set ids \<subseteq> uf_id ` set (upload_files db)"
    and sel: "\<And>f. f \<in> set (upload_files db) \<Longrightarrow> uf_batch_id f = i \<Longrightarrow> uf_id f \<in> set ids \<Longrightarrow>
      uf_status f \<in> {UF_PENDING, UF_UPLOADING, UF_COMPLETE, UF_FAILED} \<and> uf_reservation f = RS_NONE"
    and ok: "remove_open tm i j ids actor (filter (\<lambda>f. uf_batch_id f = i \<and> uf_id f \<in> uuid_of ` set ids) (upload_files db)) n db = Inr db'"
  shows "upload_inv db'"
proof -
  let ?fs = "upload_files db" and ?rs = "removals db"
  let ?new = "\<lambda>f. uf_batch_id f = i \<and> uf_id f \<in> set ids \<and> \<not> removed_file ?rs f"
  define freed where "freed = sum_for file_share i (filter ?new ?fs)"
  let ?g = "\<lambda>b. b\<lparr>ub_declared := ub_declared b - us_declared freed, ub_received := ub_received b - us_received freed,
    ub_files := ub_files b - us_files freed\<rparr>"
  let ?c = "\<lambda>b. if n = 0 then (?g b)\<lparr>ub_status := UB_CANCELLED\<rparr> else ?g b"
  let ?q = "\<lambda>f. uf_batch_id f = i \<and> uf_id f \<in> uuid_of ` set ids \<and> uf_status f \<in> {UF_PENDING, UF_UPLOADING, UF_COMPLETE, UF_FAILED}"
  let ?h = "\<lambda>f. f\<lparr>uf_status := UF_FAILED, uf_updated_at := tm\<rparr>"
  have new: "filter (\<lambda>f. \<not> removed_before i db f) (filter (\<lambda>f. uf_batch_id f = i \<and> uf_id f \<in> uuid_of ` set ids) ?fs) = filter ?new ?fs"
    unfolding filter_filter lower_ids_image [OF low] by (rule filter_cong) (auto simp: removed_before_def removed_file_def)
  obtain db1 where rel: "release_usage i (filter ?new ?fs) db = Inr db1"
    and db': "db' = record_removal \<lparr> rm_actor = actor, rm_batch = i, rm_files = ids, rm_remaining = n, rm_cancelled = (n = 0) \<rparr>
      (let db3 = set_files ?q ?h (drop_metadata_imports j (filter (\<lambda>f. uf_batch_id f = i \<and> uf_id f \<in> uuid_of ` set ids) ?fs) db1) in
        if n = 0 then cancel_pair i j db3 else db3)"
    using ok unfolding remove_open_def new by (auto simp: bindE_Inr_iff Let_def)
  have db1: "db1 = db\<lparr>upload_batches := update_rows (\<lambda>b. ub_id b = i) ?g (upload_batches db)\<rparr>"
    using release_usage_Inr [OF rel] by (simp add: freed_def)
  have two: "update_rows (\<lambda>b. ub_id b = i) (\<lambda>b. b\<lparr>ub_status := UB_CANCELLED\<rparr>) (update_rows (\<lambda>b. ub_id b = i) ?g (upload_batches db))
    = update_rows (\<lambda>b. ub_id b = i) (\<lambda>b. (?g b)\<lparr>ub_status := UB_CANCELLED\<rparr>) (upload_batches db)"
    by (simp add: update_rows_def)
  have bd: "upload_batches db' = update_rows (\<lambda>b. ub_id b = i) ?c (upload_batches db)" and fd: "upload_files db' = update_rows ?q ?h ?fs"
    and ed: "finals db' = finals db"
    unfolding db' db1 Let_def drop_metadata_imports_def cancel_pair_def record_removal_def by (auto simp: two)
  have rd: "removed_file (removals db') f \<longleftrightarrow> removed_file ?rs f \<or> uf_batch_id f = i \<and> uf_id f \<in> set ids" for f
    unfolding db' removed_after by (simp add: Let_def db1 drop_metadata_imports_def cancel_pair_def)
  have rows: "set (rm_files r) \<subseteq> uf_id ` set ?fs" if "r \<in> set (removals db')" for r
    using that ids inv unfolding db' Let_def db1 drop_metadata_imports_def cancel_pair_def
    by (auto simp: record_removal_def upload_inv_def books_ok_def split: if_split_asm)
  show ?thesis unfolding upload_inv_def bd fd ed
  proof (rule books_update [OF upload_inv_books [OF inv]])
    fix c assume c: "c \<in> set (upload_batches db)" "ub_id c = i"
    then have "c = b" using same_batch [OF inv _ b(1)] b(2) by simp
    moreover have "0 \<le> freed" unfolding freed_def
    proof (rule sum_for_nonneg)
      fix f assume "f \<in> set (filter ?new ?fs)"
      then have "file_ok f" using inv_file [OF inv] by simp
      then show "0 \<le> file_share f" by (auto simp: file_share_def file_ok_def less_eq_usage_def)
    qed
    ultimately show "ub_id (?c c) = ub_id c \<and> (ub_status c = UB_READY \<longrightarrow> ub_status (?c c) = UB_READY) \<and> limits_ok (?c c)"
      using b inv_limits [OF inv c(1)] by (auto simp: limits_ok_def less_eq_usage_def)
  next
    fix f assume f: "f \<in> set ?fs" "?q f"
    then have "uf_reservation f = RS_NONE" using sel [OF f(1)] lower_ids_image [OF low] by auto
    then show "uf_id (?h f) = uf_id f \<and> uf_batch_id (?h f) = uf_batch_id f \<and> file_ok (?h f)"
      using inv_file [OF inv f(1)] by (auto simp: file_ok_def)
  next
    fix c assume c: "c \<in> set (upload_batches db)"
    have delta: "share (removals db') (if ?q f then ?h f else f) - share ?rs f = - (if ?new f then file_share f else 0)" if f: "f \<in> set ?fs" for f
    proof -
      have s: "share (removals db') (if ?q f then ?h f else f) = share (removals db') f" by simp
      have "\<not> child_file f" if "uf_batch_id f = i" using inv_child [OF inv f] not_ready [OF inv b(1,3)] b(2) that by auto
      then show ?thesis unfolding s by (auto simp: share_def counted_def rd zero_usage_def [symmetric])
    qed
    have "sum_for (\<lambda>f. share (removals db') (if ?q f then ?h f else f) - share ?rs f) (ub_id c) ?fs
        = sum_for (\<lambda>f. 0 - (if ?new f then file_share f else 0)) (ub_id c) ?fs"
    proof (rule sum_for_cong)
      fix f assume "f \<in> set ?fs"
      from delta [OF this] show "share (removals db') (if ?q f then ?h f else f) - share ?rs f = 0 - (if ?new f then file_share f else 0)"
        by (simp only: diff_0)
    qed
    also have "\<dots> = - sum_for file_share (ub_id c) (filter ?new ?fs)" unfolding sum_for_diff sum_for_filter by (simp add: sum_for_zero)
    also have "\<dots> = (if ub_id c = i then - freed else 0)"
    proof (cases "ub_id c = i")
      case False
      then have "sum_for file_share (ub_id c) (filter ?new ?fs) = 0" by (intro sum_for_zero) auto
      with False show ?thesis by simp
    qed (simp add: freed_def)
    finally have sum: "sum_for (\<lambda>f. share (removals db') (if ?q f then ?h f else f) - share ?rs f) (ub_id c) ?fs = (if ub_id c = i then - freed else 0)" .
    have "us_expanded (sum_for file_share i files) = 0" for files by (induction files) (auto simp: file_share_def)
    then have "us_expanded freed = 0" by (simp add: freed_def)
    then show "usage_of (if ub_id c = i then ?c c else c) = usage_of c
        + sum_for (\<lambda>f. share (removals db') (if ?q f then ?h f else f) - share ?rs f) (ub_id c) ?fs"
      unfolding sum by (auto simp: usage_of_def plus_usage_def uminus_usage_def)
  next
    fix f assume f: "f \<in> set ?fs" "removed_file (removals db') f"
    then show "uf_status (if ?q f then ?h f else f) = UF_FAILED"
      using inv_removed [OF inv f(1)] sel [OF f(1)] lower_ids_image [OF low] unfolding rd by auto
  qed (use rows in blast)
qed

lemma remove_tx_inv:
  assumes inv: "upload_inv db" and low: "lower_ids ids" and d: "distinct ids" and ok: "remove_tx tm i ids actor db = Inr (r, db')"
  shows "upload_inv db'"
proof -
  let ?files = "removal_targets i ids db"
  obtain b ib where b: "batch_of i db = Some b" and ib: "import_of i db = Some ib"
    using ok by (auto simp: remove_tx_def split: option.splits)
  have allowed: "removal_allowed b ib (already_cancelled i ids b ib db) ids ?files = Inr ()"
    and cases: "db' = db \<or> \<not> already_cancelled i ids b ib db \<and> remove_open tm i (ib_id ib) ids actor ?files (remaining_files i ids db) db = Inr db'"
    using ok by (auto simp: remove_tx_def b ib Let_def bindE_Inr_iff split: if_split_asm)
  have len: "length ?files = length ids"
    and imm: "\<forall>f \<in> set ?files. uf_status f \<notin> {UF_ENCRYPTING, UF_STORED} \<and> uf_reservation f = RS_NONE"
    and uploading: "\<not> already_cancelled i ids b ib db \<Longrightarrow> ub_status b = UB_UPLOADING"
    using allowed by (auto simp: removal_allowed_def list_ex_iff split: if_split_asm)
  from cases show ?thesis
  proof
    assume o': "\<not> already_cancelled i ids b ib db \<and> remove_open tm i (ib_id ib) ids actor ?files (remaining_files i ids db) db = Inr db'"
    have bm: "b \<in> set (upload_batches db)" "ub_id b = i" using batch_ofD [OF b] by auto
    note t = removal_targets_def
    have "uf_id ` set ?files \<subseteq> set ids" unfolding t using lower_ids_image [OF low] by auto
    moreover have "card (uf_id ` set ?files) = card (set ids)"
    proof -
      have "distinct (map uf_id ?files)" unfolding t using inv_ids(2) [OF inv] by (simp add: distinct_map_filter)
      then show ?thesis using len d by (metis distinct_card length_map set_map)
    qed
    ultimately have eq: "uf_id ` set ?files = set ids" by (simp add: card_subset_eq)
    show ?thesis
    proof (rule remove_books [OF inv bm _ low _ _ conjunct2 [OF o', unfolded t]])
      show "ub_status b \<noteq> UB_READY" using o' uploading by simp
      have "set ?files \<subseteq> set (upload_files db)" by (auto simp: t)
      then show "set ids \<subseteq> uf_id ` set (upload_files db)" using eq by blast
      fix f assume "f \<in> set (upload_files db)" "uf_batch_id f = i" "uf_id f \<in> set ids"
      then have "f \<in> set ?files" using lower_ids_image [OF low] by (simp add: t)
      then have "uf_status f \<notin> {UF_ENCRYPTING, UF_STORED} \<and> uf_reservation f = RS_NONE" using imm by blast
      then show "uf_status f \<in> {UF_PENDING, UF_UPLOADING, UF_COMPLETE, UF_FAILED} \<and> uf_reservation f = RS_NONE"
        by (cases "uf_status f") auto
    qed
  qed (use inv in simp)
qed

lemma removeFiles_inv:
  assumes inv: "upload_inv db" and low: "lower_ids ids" and run: "removeFiles tm i ids actor db = (r, db')"
  shows "upload_inv db'"
proof -
  have "\<forall>x \<in> set ids. uuid_of x = x" using low unfolding lower_ids_def by (induction ids) auto
  then have low': "lower_ids (sort (remdups ids))" unfolding lower_ids_def by (intro map_idI) simp
  consider "db' = db" | files a db1 where "remove_tx tm i (sort (remdups ids)) actor db = Inr ((files, a), db1)" "db' = snd (cleanup_all tm (staged_files files) db1)"
    using run by (fastforce simp: removeFiles_def Let_def split: if_split_asm sum.splits prod.splits)
  then show ?thesis
  proof cases
    case 2
    then show ?thesis using remove_tx_inv [OF inv low' _ 2(1)] cleanup_all_inv by simp
  qed (use inv in simp)
qed

end
