(* ===== verification/UploadArchiving.thy ===== *)
theory UploadArchiving
  imports UploadRuns
begin

text \<open>Archiving keeps the books, at every point where a run can stop.\<close>

text \<open>What is relied on of SHA-256: a hexadecimal text of 64 digits.\<close>

definition hash_laws :: "final_lib \<Rightarrow> bool" where
  "hash_laws lib \<longleftrightarrow> (\<forall>p q. length (fl_child_hash lib p q) = 64)"

lemma child_row_child: "hash_laws lib \<Longrightarrow> child_file (child_row lib tm f x)"
  by (simp add: hash_laws_def child_file_def child_row_def childId_def Let_def nth_append min_def)

text \<open>The bytes of a file do not change between two runs over it: what was reserved as an archive is one.\<close>

definition kind_stable :: "final_lib \<Rightarrow> string \<Rightarrow> 'z upload_db_scheme \<Rightarrow> bool" where
  "kind_stable lib i db \<longleftrightarrow> (case file_of i db of None \<Rightarrow> True | Some f \<Rightarrow>
     uf_reservation f = RS_RESERVED \<longrightarrow> (case staging_disk db (uf_temp f) of None \<Rightarrow> True
       | Some c \<Rightarrow> detectFileKind (fl_reader lib) (fl_text lib) c = K_ZIP))"

section \<open>Claiming and reserving\<close>

lemma claim_fileD:
  assumes "claim_file tm i db = Some (f, b)"
  shows "file_of i db = Some f" "uf_status f \<in> {UF_COMPLETE, UF_ENCRYPTING}"
  using assms by (auto simp: claim_file_def split: option.splits if_split_asm)

lemma claimed_inv:
  assumes inv: "upload_inv db" and c: "claim_file tm i db = Some (f, b)"
  shows "upload_inv (claimed tm i db)"
  unfolding claimed_def
proof (rule set_files_inv [OF inv])
  fix r assume r: "r \<in> set (upload_files db)" "uf_id r = i"
  have "r = f" using same_file [OF inv r(1)] file_ofD [OF claim_fileD(1) [OF c]] r(2) by simp
  then show "uf_id (r\<lparr>uf_status := UF_ENCRYPTING, uf_updated_at := tm\<rparr>) = uf_id r \<and>
      uf_batch_id (r\<lparr>uf_status := UF_ENCRYPTING, uf_updated_at := tm\<rparr>) = uf_batch_id r \<and>
      file_ok (r\<lparr>uf_status := UF_ENCRYPTING, uf_updated_at := tm\<rparr>) \<and>
      (\<forall>rs. share rs (r\<lparr>uf_status := UF_ENCRYPTING, uf_updated_at := tm\<rparr>) = share rs r) \<and>
      (uf_status r = UF_FAILED \<longrightarrow> uf_status (r\<lparr>uf_status := UF_ENCRYPTING, uf_updated_at := tm\<rparr>) = UF_FAILED)"
    using inv_file [OF inv r(1)] claim_fileD(2) [OF c] by (auto simp: file_ok_def)
qed

text \<open>Nothing before the last transaction changes the status of a batch.\<close>

definition same_status :: "'z upload_db_scheme \<Rightarrow> 'z upload_db_scheme \<Rightarrow> bool" where
  "same_status db db' \<longleftrightarrow> (\<forall>i. ready (upload_batches db) i \<longrightarrow> ready (upload_batches db') i)"

lemma same_status_refl: "same_status db db"
  by (simp add: same_status_def)

lemma reserve_status:
  assumes "reserveArchiveBudget tm i j n c db = Inr db'"
  shows "same_status db db'"
proof -
  have "db' = db \<or> (\<exists>g h. db' = set_file i j h (set_batch j g db) \<and> (\<forall>b. ub_id (g b) = ub_id b \<and> ub_status (g b) = ub_status b))"
    using assms by (fastforce simp: reserveArchiveBudget_def split: if_split_asm option.splits)
  then show ?thesis
  proof
    assume "\<exists>g h. db' = set_file i j h (set_batch j g db) \<and> (\<forall>b. ub_id (g b) = ub_id b \<and> ub_status (g b) = ub_status b)"
    then obtain g h where "db' = set_file i j h (set_batch j g db)" "\<And>b. ub_id (g b) = ub_id b \<and> ub_status (g b) = ub_status b" by blast
    then show ?thesis using ready_update [of "upload_batches db" "\<lambda>b. ub_id b = j" g] by (simp add: same_status_def set_file_def)
  qed (simp add: same_status_def)
qed

lemma reserve_archive_inv:
  assumes inv: "upload_inv db" and run: "reserve_archive lib tm f reports db = (r, reserved, db')"
  shows "upload_inv db'" "same_status db db'"
proof -
  have "db' = db \<or> reserveArchiveBudget tm (uf_id f) (uf_batch_id f) (expanded_total reports) (int (length (report_files reports))) db = Inr db'"
    using run by (auto simp: reserve_archive_def split: if_split_asm sum.splits)
  then show "upload_inv db'" "same_status db db'" using inv reserve_inv reserve_status same_status_refl by blast+
qed

lemma unpack_inv:
  assumes inv: "upload_inv db" and run: "unpack lib tm f content db = (r, reserved, db')"
  shows "upload_inv db'" "same_status db db'"
proof -
  have "db' = db \<or> (\<exists>reports q res db1. reserve_archive lib tm f reports db = (q, res, db1) \<and> (db' = db1 \<or> (\<exists>d. db' = db1\<lparr>staging_disk := d\<rparr>)))"
  proof (cases "validateZip (fl_reader lib) (fl_text lib) defaultZipLimits content")
    case (Inr reports)
    obtain q res db1 where q: "reserve_archive lib tm f reports db = (q, res, db1)" by (cases "reserve_archive lib tm f reports db") auto
    have "db' = db1 \<or> (\<exists>d. db' = db1\<lparr>staging_disk := d\<rparr>)"
      using run Inr q by (cases q) (auto simp: unpack_def split: sum.splits)
    with q show ?thesis by blast
  qed (use run in \<open>simp add: unpack_def\<close>)
  moreover have "upload_inv db1" "upload_inv (db1\<lparr>staging_disk := d\<rparr>)" "same_status db db1" "same_status db (db1\<lparr>staging_disk := d\<rparr>)"
    if "reserve_archive lib tm f reports db = (q, res, db1)" for reports q res db1 d
    using reserve_archive_inv [OF inv that] upload_inv_more(1) by (simp_all add: same_status_def)
  ultimately show "upload_inv db'" "same_status db db'" using inv same_status_refl by blast+
qed

lemma prepare_inv:
  assumes inv: "upload_inv db" and run: "prepare_object lib tm f kind content db = (r, reserved, db')"
  shows "upload_inv db'" "same_status db db'" "kind \<noteq> K_ZIP \<Longrightarrow> db' = db"
proof -
  have "db' = db \<or> kind = K_ZIP \<and> (\<exists>q res. unpack lib tm f content db = (q, res, db'))"
    using run by (auto simp: prepare_object_def split: if_split_asm sum.splits prod.splits)
  then show "upload_inv db'" "same_status db db'" "kind \<noteq> K_ZIP \<Longrightarrow> db' = db"
    using inv unpack_inv [OF inv] by (auto simp: same_status_def)
qed

section \<open>The last transaction\<close>

lemma update_rows_same [simp]: "update_rows p (\<lambda>x. x) t = t"
  by (induction t) auto

lemma insert_child_inv:
  assumes inv: "upload_inv db" and ok: "insert_child ev r db = Inr db'" and child: "child_file r"
    and ready: "ready (upload_batches db) (uf_batch_id r)" and row: "uf_received r = uf_declared r" "uf_reservation r = RS_NONE"
    "uf_archive_bytes r = 0" "uf_archive_files r = 0"
  shows "upload_inv db'" "upload_batches db' = upload_batches db"
proof -
  have r: "0 \<le> uf_declared r" "uf_id r \<notin> uf_id ` set (upload_files db)"
    and db': "db' = send (finalize_event ev (uf_id r)) (db\<lparr>upload_files := upload_files db @ [r]\<rparr>)"
    using ok by (auto simp: insert_child_def insert_upload_file_def upload_file_checks_def bindE_Inr_iff image_iff split: if_split_asm)
  have "share (removals db) r = 0" using child row by (simp add: share_def counted_def archive_share_def zero_usage_def)
  then have "books_ok (update_rows (\<lambda>b. ub_id b = uf_batch_id r) (\<lambda>b. b) (upload_batches db)) (upload_files db @ [r]) (removals db) (finals db)"
    using r ready row child inv_limits [OF inv]
    by (intro books_add_files [OF upload_inv_books [OF inv]]) (auto simp: ready_def file_ok_def intro: rev_image_eqI)
  then have books: "books_ok (upload_batches db) (upload_files db @ [r]) (removals db) (finals db)" by simp
  show "upload_inv db'" "upload_batches db' = upload_batches db"
    using books_event [OF books, of r] ready by (simp_all add: upload_inv_def db' finalize_event_def upload_event_def)
qed

lemma insert_children_inv:
  assumes "upload_inv db" and "insert_children ev (map (child_row lib tm f) xs) db = Inr db'" and "hash_laws lib"
    and "ready (upload_batches db) (uf_batch_id f)"
  shows "upload_inv db'"
  using assms
proof (induction xs arbitrary: db)
  case (Cons x xs)
  then obtain db1 where db1: "insert_child ev (child_row lib tm f x) db = Inr db1"
    "insert_children ev (map (child_row lib tm f) xs) db1 = Inr db'" by (auto simp: bindE_Inr_iff)
  note one = insert_child_inv [OF Cons.prems(1) db1(1) child_row_child [OF Cons.prems(3)]]
  have "upload_inv db1" "upload_batches db1 = upload_batches db" using one Cons.prems(4) by (simp_all add: child_row_def)
  then show ?case using Cons.IH [OF _ db1(2)] Cons.prems by simp
qed simp

lemma store_source_books:
  assumes "store_source lib ev i shop content db = Inr (o', db')"
  shows "same_books db db'"
proof -
  have "same_books db (db\<lparr>stored_objects := t\<rparr>)" for t by (simp add: same_books_def finals_def)
  moreover have "same_books d (send (replicate_event ev i) d)" for d :: "'a upload_db_scheme"
    by (rule same_books_steps(3)) (simp add: replicate_event_def upload_event_def)
  ultimately have "same_books db (send (replicate_event ev i) (db\<lparr>stored_objects := t\<rparr>))" for t using same_books_trans by blast
  then show ?thesis using assms by (auto simp: store_source_def Let_def same_books_refl split: option.splits if_split_asm)
qed

lemma analyze_books: "same_books db (send (analyze_event ev i o' k) db)"
  by (rule same_books_steps) (simp add: analyze_event_def upload_event_def)

lemma commit_object_inv:
  assumes inv: "upload_inv db" and ok: "commit_object lib ev tm f shop kind content xs db = Inr (s, db')"
    and laws: "hash_laws lib" and ready: "ready (upload_batches db) (uf_batch_id f)"
    and stable: "\<And>r. r \<in> set (upload_files db) \<Longrightarrow> uf_id r = uf_id f \<Longrightarrow> kind \<noteq> K_ZIP \<Longrightarrow> uf_reservation r \<noteq> RS_RESERVED"
  shows "upload_inv db'"
proof -
  obtain r db1 db4 where r: "file_in_batch (uf_id f) (uf_batch_id f) db = Some r" "uf_status r = UF_ENCRYPTING"
    and zip: "kind = K_ZIP \<longrightarrow> uf_reservation r = RS_RESERVED" and db1: "store_source lib ev (uf_id f) shop content db = Inr (s, db1)"
    and db4: "insert_children ev (map (child_row lib tm f) xs)
      (mark_stored lib tm (uf_id f) s kind content (if s = uf_id f then db1 else duplicate_issue f s db1)) = Inr db4"
    and db': "db' = send (analyze_event ev (uf_id f) s (Some kind)) db4"
    using ok by (fastforce simp: commit_object_def Let_def bindE_Inr_iff split: option.splits if_split_asm)
  note rm = file_in_batchD [OF inv r(1)]
  define db2 where "db2 = (if s = uf_id f then db1 else duplicate_issue f s db1)"
  have same: "same_books db db2" using store_source_books [OF db1] by (auto simp: db2_def duplicate_issue_def same_books_def)
  then have inv2: "upload_inv db2" using same_books_inv inv by blast
  have inv3: "upload_inv (mark_stored lib tm (uf_id f) s kind content db2)"
    unfolding mark_stored_def
  proof (rule set_files_inv [OF inv2])
    fix x assume "x \<in> set (upload_files db2)" "uf_id x = uf_id f"
    then have x: "x \<in> set (upload_files db)" "x = r" using same same_file [OF inv _ rm(1)] rm(2) by (auto simp: same_books_def)
    let ?y = "x\<lparr>uf_status := UF_STORED, uf_object := Some s, uf_sha := Some (fl_sha lib content), uf_kind := Some kind,
      uf_reservation := (if kind = K_ZIP then RS_COMMITTED else uf_reservation x), uf_updated_at := tm\<rparr>"
    have "file_ok ?y" using inv_file [OF inv x(1)] x r zip stable [OF rm(1,2)]
      by (cases "uf_reservation r") (auto simp: file_ok_def)
    then show "uf_id ?y = uf_id x \<and> uf_batch_id ?y = uf_batch_id x \<and> file_ok ?y \<and> (\<forall>rs. share rs ?y = share rs x)
        \<and> (uf_status x = UF_FAILED \<longrightarrow> uf_status ?y = UF_FAILED)" using x r by simp
  qed
  have "ready (upload_batches (mark_stored lib tm (uf_id f) s kind content db2)) (uf_batch_id f)"
    using ready same by (simp add: mark_stored_def same_books_def)
  then have "upload_inv db4" using insert_children_inv [OF inv3 _ laws] db4 unfolding db2_def by blast
  then show ?thesis unfolding db' using same_books_inv [OF analyze_books] by blast
qed

section \<open>The whole run\<close>

lemma give_back_inv:
  assumes "upload_inv db" and "give_back tm f reserved e db = (r, db')"
  shows "upload_inv db'"
  using assms release_inv [OF assms(1), of tm "uf_id f" "uf_batch_id f"] by (auto simp: give_back_def split: if_split_asm)

lemma drop_extracted_inv: "upload_inv db \<Longrightarrow> upload_inv (drop_extracted f db)"
  unfolding drop_extracted_def by (rule upload_inv_more(1))

lemma finalize_claimed_inv:
  assumes inv: "upload_inv db" and run: "finalize_claimed lib ev tm f shop db = (r, db')" and laws: "hash_laws lib"
    and ready: "ready (upload_batches db) (uf_batch_id f)"
    and stable: "\<And>c x. staging_disk db (uf_temp f) = Some c \<Longrightarrow> detectFileKind (fl_reader lib) (fl_text lib) c \<noteq> K_ZIP \<Longrightarrow>
      x \<in> set (upload_files db) \<Longrightarrow> uf_id x = uf_id f \<Longrightarrow> uf_reservation x \<noteq> RS_RESERVED"
  shows "upload_inv db'"
proof (cases "staging_disk db (uf_temp f)")
  case (Some content)
  let ?kind = "detectFileKind (fl_reader lib) (fl_text lib) content"
  obtain q reserved db1 where prep: "prepare_object lib tm f ?kind content db = (q, reserved, db1)" by (cases "prepare_object lib tm f ?kind content db") auto
  note p = prepare_inv [OF inv prep]
  show ?thesis
  proof (cases q)
    case (Inl e)
    then have "give_back tm f reserved e (if ?kind = K_ZIP then drop_extracted f db1 else db1) = (r, db')"
      using run Some prep by (simp add: finalize_claimed_def Let_def)
    then show ?thesis using give_back_inv [OF drop_extracted_inv [OF p(1)]] give_back_inv [OF p(1)] by (auto split: if_split_asm)
  next
    case (Inr xs)
    have ready1: "ready (upload_batches db1) (uf_batch_id f)" using p(2) ready by (simp add: same_status_def)
    have st: "uf_reservation x \<noteq> RS_RESERVED" if "x \<in> set (upload_files db1)" "uf_id x = uf_id f" "?kind \<noteq> K_ZIP" for x
      using stable [OF Some] p(3) that by simp
    show ?thesis
    proof (cases "commit_object lib ev tm f shop ?kind content xs db1")
      case (Inl e)
      then have "give_back tm f reserved e db1 = (r, db')" using run Some prep Inr by (simp add: finalize_claimed_def Let_def)
      then show ?thesis using give_back_inv p(1) by blast
    next
      case ok: (Inr sd)
      obtain s db2 where sd: "sd = (s, db2)" by fastforce
      have "upload_inv db2" using commit_object_inv [OF p(1) ok [unfolded sd] laws ready1 st] by blast
      moreover have "db' = db2\<lparr>staging_disk := (staging_disk db2)(uf_temp f := None)\<rparr>"
        using run Some prep Inr ok sd by (simp add: finalize_claimed_def Let_def)
      ultimately show ?thesis using upload_inv_more(1) by simp
    qed
  qed
qed (use assms in \<open>simp add: finalize_claimed_def\<close>)

lemma replay_stored_inv:
  assumes inv: "upload_inv db" and run: "replay_stored ev tm f i db = (r, db')"
  shows "upload_inv db'"
proof -
  let ?db = "db\<lparr>staging_disk := (staging_disk db)(uf_temp f := None)\<rparr>"
  have inv1: "upload_inv ?db" using upload_inv_more(1) inv by blast
  have "upload_inv (set_files (\<lambda>r. uf_id r = uf_id f) (\<lambda>r. r\<lparr>uf_updated_at := tm\<rparr>) ?db)"
    by (rule set_files_inv [OF inv1]) (use inv_file [OF inv] in \<open>simp add: file_ok_def\<close>)
  then have "upload_inv (send (analyze_event ev (uf_id f) i None) (set_files (\<lambda>r. uf_id r = uf_id f) (\<lambda>r. r\<lparr>uf_updated_at := tm\<rparr>) ?db))"
    using same_books_inv [OF analyze_books] by blast
  with inv1 run show ?thesis by (auto simp: replay_stored_def Let_def split: if_split_asm)
qed

lemma finalizeUploadFile_inv:
  assumes inv: "upload_inv db" and run: "finalizeUploadFile lib ev tm i db = (r, db')" and laws: "hash_laws lib"
    and event: "i \<in> finals db" and stable: "kind_stable lib i db"
  shows "upload_inv db'"
proof -
  obtain f where f: "f \<in> set (upload_files db)" "uf_id f = i" "ready (upload_batches db) (uf_batch_id f)"
    using inv event by (auto simp: upload_inv_def books_ok_def)
  consider j g where "replay_stored ev tm g j db = (r, db')" | "db' = db"
    | g b where "claim_file tm i db = Some (g, b)" "finalize_claimed lib ev tm g (ub_shop_id b) (claimed tm i db) = (r, db')"
    using run by (auto simp: finalizeUploadFile_def split: option.splits)
  then show ?thesis
  proof cases
    case 1
    then show ?thesis using replay_stored_inv [OF inv] by blast
  next
    case 2
    with inv show ?thesis by simp
  next
    case (3 g b)
    note g = file_ofD [OF claim_fileD(1) [OF 3(1)]]
    have "g = f" using same_file [OF inv conjunct1 [OF g] f(1)] g f by simp
    have st: "uf_reservation x \<noteq> RS_RESERVED"
      if c: "staging_disk (claimed tm i db) (uf_temp g) = Some c" "detectFileKind (fl_reader lib) (fl_text lib) c \<noteq> K_ZIP"
        and x: "x \<in> set (upload_files (claimed tm i db))" "uf_id x = uf_id g" for c x
    proof -
      obtain x0 where "x0 \<in> set (upload_files db)" "x = (if uf_id x0 = i then x0\<lparr>uf_status := UF_ENCRYPTING, uf_updated_at := tm\<rparr> else x0)"
        using x(1) unfolding claimed_def set_files_simps in_update_rows by blast
      moreover from this have "x0 = g" using same_file [OF inv _ conjunct1 [OF g]] x(2) g by (auto split: if_split_asm)
      ultimately have "uf_reservation x = uf_reservation g" using g by simp
      then show ?thesis using stable c claim_fileD(1) [OF 3(1)] by (auto simp: kind_stable_def claimed_def)
    qed
    show ?thesis
      by (rule finalize_claimed_inv [OF claimed_inv [OF inv 3(1)] 3(2) laws _ st]) (use f \<open>g = f\<close> in \<open>simp add: claimed_def\<close>)
  qed
qed

lemma finalize_job_inv:
  assumes inv: "upload_inv db" and run: "finalize_job lib ev tm exhausted i db = (r, db')" and laws: "hash_laws lib"
    and event: "i \<in> finals db" and stable: "kind_stable lib i db"
  shows "upload_inv db'"
proof -
  obtain q db1 where fin: "finalizeUploadFile lib ev tm i db = (q, db1)" by fastforce
  have inv1: "upload_inv db1" using finalizeUploadFile_inv [OF inv fin laws event stable] .
  have "db' = db1 \<or> (\<exists>code t db2. recordUploadFileFailure ev tm i code {UF_COMPLETE, UF_ENCRYPTING} db1 = Inr (t, db2)
      \<and> (\<exists>q'. cleanupUploadStagingArtifacts tm i t db2 = (q', db')))"
    using run fin by (auto simp: finalize_job_def split: sum.splits option.splits if_split_asm prod.splits)
  then show ?thesis using inv1 recordUploadFileFailure_inv [OF inv1] cleanup_inv by blast
qed

end
