(* ===== verification/UploadProps.thy ===== *)
theory UploadProps
  imports UploadArchiving
begin

text \<open>
  Properties of uploads. A step is one operation of a client or a job, or a run of the archiving job that dies
  half way; other components may do what they like with the imports, the issues, the outbox and the rest.
\<close>

section \<open>Steps\<close>

definition no_uploads :: "upload_db \<Rightarrow> bool" where
  "no_uploads db \<longleftrightarrow> upload_batches db = [] \<and> upload_files db = [] \<and> removals db = [] \<and> finals db = {}"

definition elsewhere :: "upload_db \<Rightarrow> upload_db \<Rightarrow> bool" where
  "elsewhere db db' \<longleftrightarrow> upload_batches db' = upload_batches db \<and> upload_files db' = upload_files db
     \<and> removals db' = removals db \<and> finals db' = finals db"

text \<open>
  A chunk is committed some time after it was staged, in whatever state that was. Two kinds of call are left out of the
  steps, because they break the counters or are not known to keep them: a removal that names a file by anything but its
  canonical lower-case id (the route admits upper case, and repeating such a removal gives the same bytes back twice),
  and an archiving that finds another kind in the bytes of a file than an earlier attempt had found.
\<close>

inductive upload_operation :: "final_lib \<Rightarrow> upload_db \<Rightarrow> upload_db \<Rightarrow> bool" for lib where
  create: "fresh_ids env \<Longrightarrow> createBatchWithFiles env shop account key inputs s e db = Inr (r, db') \<Longrightarrow> upload_operation lib db db'"
| register: "fresh_ids env \<Longrightarrow> createFiles env i inputs db = Inr (r, db') \<Longrightarrow> upload_operation lib db db'"
| chunk: "stageChunk clib base tm0 input (db0 :: upload_db) = Inr (target, chunk) \<Longrightarrow>
    commitChunk clib tm input target chunk db = (r, db') \<Longrightarrow> upload_operation lib db db'"
| complete: "completeBatch ev i db = Inr (r, db') \<Longrightarrow> upload_operation lib db db'"
| remove: "lower_ids ids \<Longrightarrow> removeFiles tm i ids actor db = (r, db') \<Longrightarrow> upload_operation lib db db'"
| fail: "failFile ev tm i code db = (r, db') \<Longrightarrow> upload_operation lib db db'"
| cancel: "cancelBatch tm i db = (r, db') \<Longrightarrow> upload_operation lib db db'"
| expire: "expireUploadStaging tm db = (r, db') \<Longrightarrow> upload_operation lib db db'"
| archive: "i \<in> finals db \<Longrightarrow> kind_stable lib i db \<Longrightarrow> finalize_job lib ev tm exhausted i db = (r, db') \<Longrightarrow> upload_operation lib db db'"
| crash: "i \<in> finals db \<Longrightarrow> claim_file tm i db = Some (f, b) \<Longrightarrow> staging_disk db (uf_temp f) = Some content \<Longrightarrow>
    prepare_object lib tm f (detectFileKind (fl_reader lib) (fl_text lib) content) content (claimed tm i db) = (x, reserved, db') \<Longrightarrow>
    upload_operation lib db db'"

definition upload_step :: "final_lib \<Rightarrow> upload_db \<Rightarrow> upload_db \<Rightarrow> bool" where
  "upload_step lib db db' \<longleftrightarrow> upload_operation lib db db' \<or> elsewhere db db'"

definition uploads_reached :: "final_lib \<Rightarrow> upload_db \<Rightarrow> bool" where
  "uploads_reached lib db \<longleftrightarrow> (\<exists>db0. no_uploads db0 \<and> (upload_step lib)\<^sup>*\<^sup>* db0 db)"

lemma upload_operation_inv:
  assumes step: "upload_operation lib db db'" and laws: "hash_laws lib" and inv: "upload_inv db"
  shows "upload_inv db'"
  using step
proof cases
  case create
  show ?thesis using createBatchWithFiles_inv [OF inv create(2,1)] .
next
  case register
  show ?thesis using createFiles_inv [OF inv register(2,1)] .
next
  case chunk
  show ?thesis using commitChunk_inv [OF inv chunk(2) stageChunk_Inr [OF chunk(1)]] .
next
  case complete
  show ?thesis using completeBatch_inv [OF inv complete] .
next
  case remove
  show ?thesis using removeFiles_inv [OF inv remove] .
next
  case fail
  show ?thesis using failFile_inv [OF inv fail] .
next
  case cancel
  show ?thesis using cancelBatch_inv [OF inv cancel] .
next
  case expire
  show ?thesis using expireUploadStaging_inv [OF inv expire] .
next
  case archive
  show ?thesis using finalize_job_inv [OF inv archive(3) laws archive(1,2)] .
next
  case crash
  show ?thesis using prepare_inv(1) [OF claimed_inv [OF inv crash(2)] crash(4)] .
qed

lemma upload_step_inv: "upload_step lib db db' \<Longrightarrow> hash_laws lib \<Longrightarrow> upload_inv db \<Longrightarrow> upload_inv db'"
  using upload_operation_inv upload_inv_cong unfolding upload_step_def elsewhere_def by metis

lemma reached_inv: "uploads_reached lib db \<Longrightarrow> hash_laws lib \<Longrightarrow> upload_inv db"
proof -
  assume r: "uploads_reached lib db" and laws: "hash_laws lib"
  obtain db0 where db0: "no_uploads db0" "(upload_step lib)\<^sup>*\<^sup>* db0 db" using r by (auto simp: uploads_reached_def)
  have "upload_inv db0" using db0(1) by (simp add: no_uploads_def upload_inv_def books_ok_def balanced_def)
  with db0(2) show ?thesis by (induction rule: rtranclp_induct) (use upload_step_inv laws in blast)+
qed

text \<open>C32: as long as every removal names its files by their canonical lower-case ids and no repeated archiving finds
  another kind in the same file (\<open>upload_operation\<close> says so), the counters of every batch are exactly the declared and
  received bytes and the number of its registered files that were not removed, plus the files and bytes of its
  archives, and no counter is over its limit: whoever uploads, completes, removes, cancels or archives in whatever
  order and wherever a run stops. Without the first condition it is false of the code: a removal repeated with
  upper-case ids gives the counters back a second time.\<close>

theorem uploads_accounted:
  assumes "uploads_reached lib db" and "hash_laws lib" and "b \<in> set (upload_batches db)"
  shows "usage_of b = sum_for (share (removals db)) (ub_id b) (upload_files db)
    \<and> ub_declared b \<le> MAX_UPLOAD_BATCH_BYTES \<and> ub_files b \<le> MAX_UPLOAD_BATCH_FILES
    \<and> ub_expanded b \<le> MAX_BATCH_EXPANDED_BYTES \<and> 0 \<le> ub_received b \<and> ub_received b \<le> ub_declared b"
proof -
  note inv = reached_inv [OF assms(1,2)]
  have ok: "file_ok f" if "f \<in> set (upload_files db)" for f using inv_file [OF inv that] by simp
  have one: "us_received (share (removals db) f) \<le> us_declared (share (removals db) f) \<and> 0 \<le> us_received (share (removals db) f)"
    if "f \<in> set (upload_files db)" for f using ok [OF that] by (simp add: share_def file_share_def archive_share_def file_ok_def)
  have "us_received (sum_for (share (removals db)) i fs) \<le> us_declared (sum_for (share (removals db)) i fs)
    \<and> 0 \<le> us_received (sum_for (share (removals db)) i fs)" if "set fs \<subseteq> set (upload_files db)" for i fs
    using that
  proof (induction fs)
    case (Cons f fs)
    then show ?case using one [of f] by simp
  qed simp
  from this [of "upload_files db" "ub_id b"] have "us_received (usage_of b) \<le> us_declared (usage_of b) \<and> 0 \<le> us_received (usage_of b)"
    using inv_usage [OF inv assms(3)] by simp
  then show ?thesis using inv_usage [OF inv assms(3)] inv_limits [OF inv assms(3)] by (simp add: limits_ok_def usage_of_def)
qed

section \<open>A sample\<close>

definition sample_file_id :: "nat \<Rightarrow> string" where
  "sample_file_id n = (if n = 0 then ''aaaaaaaa-0000-4000-8000-000000000001'' else ''bbbbbbbb-0000-4000-8000-000000000002'')"

definition sample_env :: upload_env where
  "sample_env = \<lparr> un_root = ''/u'', un_nfc = id, un_free = 5000000000, un_now = 10, un_batch_id = ''batch'', un_import_id = ''import'',
     un_file_ids = sample_file_id, un_event_id = (\<lambda>t k. t @ k) \<rparr>"

definition sample_lib :: final_lib where
  "sample_lib = \<lparr> fl_reader = (\<lambda>_. None), fl_text = \<lparr> at_nfc = id, at_lower = ascii_lower \<rparr>, fl_child_hash = (\<lambda>_ _. replicate 64 CHR ''a''),
     fl_sha = (\<lambda>b. replicate (length b) CHR ''b''), fl_store_refuses = (\<lambda>_ _. None), fl_object_path = (\<lambda>i. i),
     fl_volumes = \<lparr> vo_staging_device = Some 1, vo_object_device = Some 1, vo_staging_free = Some 9000000000, vo_object_free = Some 9000000000 \<rparr> \<rparr>"

lemma sample_lib_laws: "hash_laws sample_lib"
  by (simp add: hash_laws_def sample_lib_def)

definition sample_shop :: shop_row where
  "sample_shop = \<lparr> sh_id = ''shop'', sh_application_id = ''app'', sh_owner_account_id = ''acc'', sh_enterprise_id = ''ent'',
     sh_created_by = ''acc'', sh_last_operated_by = ''acc'', sh_name = ''Shop'', sh_normalized_name = ''shop'', sh_status = ACTIVE,
     sh_start_date = ''2025-01-01'', sh_close_date = ''2026-01-01'', sh_rename_count = 0, sh_trashed_at = None, sh_purge_after = None,
     sh_purged_at = None \<rparr>"

definition sample_uploads :: upload_db where
  "sample_uploads = \<lparr> accounts = [\<lparr> ac_id = ''acc'', ac_phone = '''', ac_display_name = None, ac_registered = True,
       ac_status = Actor_ACTIVE, ac_role = None \<rparr>], enterprises = [], enterprise_members = [], audits = [], outbox = [],
     wallets = [], ledger = [], next_ledger = 1, orders = [], inbox = [], reversals = [], applications = [], price_versions = [],
     role_policies = [], shops = [sample_shop], shop_terms = [], shop_charges = [], name_history = [], shop_memberships = [],
     idempotency_records = [], upload_batches = [], upload_files = [], chunk_receipts = [], import_batches = [], import_files = [],
     import_issues = [], stored_objects = [], removals = [], original_grants = [], staging_disk = (\<lambda>_. None) \<rparr>"

definition sample_inputs :: "UploadFileRegistration list" where
  "sample_inputs = [\<lparr> ur_path = points ''a.csv'', ur_size = 3, ur_type = None, ur_metadata = False \<rparr>,
     \<lparr> ur_path = points ''b.csv'', ur_size = 2, ur_type = None, ur_metadata = False \<rparr>]"

definition sample_creation :: "((string \<times> RegisteredUploadFile list) \<times> upload_db) result" where
  "sample_creation = createBatchWithFiles sample_env ''shop'' ''acc'' ''key'' sample_inputs None None sample_uploads"

definition sample_created :: upload_db where
  "sample_created = (case sample_creation of Inl e \<Rightarrow> sample_uploads | Inr (r, db) \<Rightarrow> db)"

definition sample_row :: "nat \<Rightarrow> string \<Rightarrow> int \<Rightarrow> upload_file_row" where
  "sample_row n path size' = \<lparr> uf_id = sample_file_id n, uf_batch_id = ''batch'', uf_path = points path, uf_declared = size',
     uf_received = 0, uf_type = None, uf_status = UF_PENDING, uf_temp = temp_path ''/u'' ''batch'' (sample_file_id n), uf_metadata = False,
     uf_kind = None, uf_sha = None, uf_object = None, uf_reservation = RS_NONE, uf_archive_bytes = 0, uf_archive_files = 0, uf_updated_at = 10 \<rparr>"

definition sample_batch :: upload_batch_row where
  "sample_batch = \<lparr> ub_id = ''batch'', ub_shop_id = ''shop'', ub_created_by = ''acc'', ub_status = UB_UPLOADING, ub_declared = 5,
     ub_received = 0, ub_files = 2, ub_expanded = 0, ub_expires_at = 604800010 \<rparr>"

lemma sample_normalized: "normalizeUploadFiles id sample_inputs = Inr sample_inputs"
  by (simp add: normalizeUploadFiles_def normalize_file_def safeRelativePath_def points_def byte_length_def utf8_size_def
    control_point_def drive_prefix_def sample_inputs_def MAX_UPLOAD_BATCH_FILES_def MAX_UPLOAD_BATCH_BYTES_def)

lemma sample_new_files: "new_upload_files sample_env ''batch'' sample_inputs = [sample_row 0 ''a.csv'' 3, sample_row 1 ''b.csv'' 2]"
  by (simp add: new_upload_files_def new_upload_file_def sample_inputs_def sample_row_def sample_env_def upt_conv_Cons)

lemma sample_created_rows:
  "upload_batches sample_created = [sample_batch]" "upload_files sample_created = [sample_row 0 ''a.csv'' 3, sample_row 1 ''b.csv'' 2]"
  "staging_disk sample_created = (\<lambda>_. None)(temp_path ''/u'' ''batch'' (sample_file_id 0) \<mapsto> [], temp_path ''/u'' ''batch'' (sample_file_id 1) \<mapsto> [])"
  "chunk_receipts sample_created = []" "isl sample_creation = False"
proof -
  have "\<exists>r d. sample_creation = Inr (r, d) \<and> upload_batches d = [sample_batch] \<and> upload_files d = [sample_row 0 ''a.csv'' 3, sample_row 1 ''b.csv'' 2]
    \<and> staging_disk d = (\<lambda>_. None)(temp_path ''/u'' ''batch'' (sample_file_id 0) \<mapsto> [], temp_path ''/u'' ''batch'' (sample_file_id 1) \<mapsto> [])
    \<and> chunk_receipts d = []"
  proof -
    have env: "un_nfc sample_env = id" "un_batch_id sample_env = ''batch''" "un_free sample_env = 5000000000" "un_now sample_env = 10"
      "un_import_id sample_env = ''import''" by (simp_all add: sample_env_def)
    have db: "upload_batches sample_uploads = []" "upload_files sample_uploads = []" "import_batches sample_uploads = []"
      "shops sample_uploads = [sample_shop]" "staging_disk sample_uploads = (\<lambda>_. None)" "chunk_receipts sample_uploads = []" "sh_id sample_shop = ''shop''"
      "\<exists>a \<in> set (accounts sample_uploads). ac_id a = ''acc''"
      by (simp_all add: sample_uploads_def sample_shop_def)
    have period: "parseAccountingPeriodScope None None = Inr None" by (simp add: parseAccountingPeriodScope_def trimmed_def)
    have inputs: "sample_inputs \<noteq> []" "declared_sum sample_inputs = 5" "length sample_inputs = 2"
      by (simp_all add: sample_inputs_def declared_sum_def)
    show ?thesis
      unfolding sample_creation_def createBatchWithFiles_def registerFilesInTransaction_def env sample_normalized sample_new_files Let_def
      by (simp add: db env period inputs sample_new_files insert_batches_def writable_status_def MAX_UPLOAD_BATCH_BYTES_def MAX_UPLOAD_BATCH_FILES_def
          required_free_def insert_upload_file_def upload_file_checks_def path_taken_def sample_row_def sample_file_id_def
          register_metadata_def set_batch_def create_temps_def sample_batch_def SEVEN_DAYS_def byte_length_def utf8_size_def points_def)
  qed
  then obtain r d where run: "sample_creation = Inr (r, d)" and rows: "upload_batches d = [sample_batch]"
    "upload_files d = [sample_row 0 ''a.csv'' 3, sample_row 1 ''b.csv'' 2]"
    "staging_disk d = (\<lambda>_. None)(temp_path ''/u'' ''batch'' (sample_file_id 0) \<mapsto> [], temp_path ''/u'' ''batch'' (sample_file_id 1) \<mapsto> [])"
    "chunk_receipts d = []" by blast
  show "upload_batches sample_created = [sample_batch]" "upload_files sample_created = [sample_row 0 ''a.csv'' 3, sample_row 1 ''b.csv'' 2]"
    "staging_disk sample_created = (\<lambda>_. None)(temp_path ''/u'' ''batch'' (sample_file_id 0) \<mapsto> [], temp_path ''/u'' ''batch'' (sample_file_id 1) \<mapsto> [])"
    "chunk_receipts sample_created = []" "isl sample_creation = False" unfolding sample_created_def run by (simp_all add: rows)
qed

lemma sample_created_run: "\<exists>r. createBatchWithFiles sample_env ''shop'' ''acc'' ''key'' sample_inputs None None sample_uploads = Inr (r, sample_created)"
  using sample_created_rows(5) unfolding sample_created_def sample_creation_def by (auto split: sum.splits)

lemma sample_fresh: "fresh_ids sample_env"
  by (simp add: fresh_ids_def sample_env_def sample_file_id_def)

lemma sample_reached: "uploads_reached lib sample_created"
proof -
  have "no_uploads sample_uploads" by (simp add: no_uploads_def sample_uploads_def finals_def)
  moreover have "upload_step lib sample_uploads sample_created" using sample_created_run upload_operation.create [OF sample_fresh] unfolding upload_step_def by blast
  ultimately show ?thesis unfolding uploads_reached_def by blast
qed

lemma uploads_accounted_witness:
  "usage_of sample_batch = sum_for (share (removals sample_created)) ''batch'' (upload_files sample_created) \<and> ub_received sample_batch \<le> ub_declared sample_batch"
  using uploads_accounted [OF sample_reached sample_lib_laws, of sample_batch]
  by (simp add: sample_created_rows sample_batch_def)

section \<open>The checks of the counters\<close>

lemma release_usage_ok:
  assumes inv: "upload_inv db" and b: "b \<in> set (upload_batches db)" "ub_id b = i" "ub_status b \<noteq> UB_READY"
    and files: "files = filter p (upload_files db)" "\<And>f. p f \<Longrightarrow> uf_batch_id f = i \<and> \<not> removed_file (removals db) f"
  shows "\<exists>db'. release_usage i files db = Inr db'"
proof -
  have "(if p f then file_share f else 0) \<le> share (removals db) f" if f: "f \<in> set (upload_files db)" "uf_batch_id f = ub_id b" for f
  proof (cases "p f")
    case True
    have "\<not> child_file f" using inv_child [OF inv f(1)] not_ready [OF inv b(1,3)] f(2) by auto
    then have "counted (removals db) f" using files(2) [OF True] by (simp add: counted_def)
    then show ?thesis using True archive_le_share(2) inv_file [OF inv f(1)] by simp
  qed (use share_nonneg inv_file [OF inv f(1)] in simp)
  from usage_covers [OF inv b(1) this] have "sum_for file_share i files \<le> usage_of b" using b(2) by (simp add: files(1) sum_for_filter)
  moreover have "\<forall>f \<in> set files. uf_batch_id f = i" using files by auto
  note file_share_sum [OF this]
  ultimately show ?thesis using b by (auto simp: release_usage_def Let_def list_ex_iff usage_of_def less_eq_usage_def)
qed

text \<open>the errors for corrupted counters never occur: giving back what an archive had reserved, cancelling a batch,
  expiring and removing always find the counters large enough.\<close>

theorem counters_never_found_corrupted:
  assumes "uploads_reached lib db" and "hash_laws lib"
  shows "releaseArchiveBudget tm i j db \<noteq> Inl e \<and> cancel_tx tm i db \<noteq> Inl e \<and> expire_tx tm db \<noteq> Inl e
    \<and> remove_tx tm i ids actor db \<noteq> Inl (PlainError ''UPLOAD_BATCH_USAGE_CORRUPTED'')"
proof (intro conjI)
  note inv = reached_inv [OF assms]
  show "releaseArchiveBudget tm i j db \<noteq> Inl e" "cancel_tx tm i db \<noteq> Inl e" "expire_tx tm db \<noteq> Inl e"
    using release_inv [OF inv, of tm i j] cancel_tx_inv [OF inv, of tm i] expire_tx_inv [OF inv, of tm] by auto
  show "remove_tx tm i ids actor db \<noteq> Inl (PlainError ''UPLOAD_BATCH_USAGE_CORRUPTED'')"
  proof
    assume run: "remove_tx tm i ids actor db = Inl (PlainError ''UPLOAD_BATCH_USAGE_CORRUPTED'')"
    obtain b ib where b: "batch_of i db = Some b" and ib: "import_of i db = Some ib"
      using run by (auto simp: remove_tx_def split: option.splits)
    have "removal_allowed b ib (already_cancelled i ids b ib db) ids (removal_targets i ids db) \<noteq> Inl (PlainError ''UPLOAD_BATCH_USAGE_CORRUPTED'')"
      by (simp add: removal_allowed_def)
    then have ok: "removal_allowed b ib (already_cancelled i ids b ib db) ids (removal_targets i ids db) = Inr ()"
      and no: "\<not> already_cancelled i ids b ib db"
      and "remove_open tm i (ib_id ib) ids actor (removal_targets i ids db) (remaining_files i ids db) db = Inl (PlainError ''UPLOAD_BATCH_USAGE_CORRUPTED'')"
      using run by (auto simp: remove_tx_def b ib Let_def bindE_Inl_iff split: if_split_asm)
    then have "release_usage i (filter (\<lambda>f. \<not> removed_before i db f) (removal_targets i ids db)) db = Inl (PlainError ''UPLOAD_BATCH_USAGE_CORRUPTED'')"
      by (simp add: remove_open_def bindE_Inl_iff Let_def)
    moreover have "ub_status b \<noteq> UB_READY" using ok no by (auto simp: removal_allowed_def split: if_split_asm)
    moreover have same: "filter (\<lambda>f. \<not> removed_before i db f) (removal_targets i ids db)
      = filter (\<lambda>f. uf_batch_id f = i \<and> uf_id f \<in> uuid_of ` set ids \<and> \<not> removed_file (removals db) f) (upload_files db)"
      unfolding removal_targets_def filter_filter by (rule filter_cong) (auto simp: removed_before_def removed_file_def)
    moreover have "b \<in> set (upload_batches db)" "ub_id b = i" using batch_ofD [OF b] by auto
    ultimately show False using release_usage_ok [OF inv _ _ _ same, of b] by auto
  qed
qed

lemma counters_never_found_corrupted_witness:
  "releaseArchiveBudget 1 ''f'' ''batch'' sample_created \<noteq> Inl (PlainError ''UPLOAD_ARCHIVE_BUDGET_CORRUPTED'')
   \<and> cancel_tx 1 ''batch'' sample_created \<noteq> Inl (PlainError ''UPLOAD_ARCHIVE_BUDGET_CORRUPTED'')"
  using counters_never_found_corrupted [OF sample_reached sample_lib_laws] by blast

end
