(* ===== verification/UploadChunks.thy ===== *)
theory UploadChunks
  imports UploadProps
begin

text \<open>
  Chunks: what a file holds on disk is what was acknowledged, byte for byte, and a client that sends the chunks of
  a file in order finishes.
\<close>

section \<open>The abstract log\<close>

text \<open>A file as a log that is only ever extended at its end.\<close>

type_synonym upload_logs = "string \<Rightarrow> bytes option"

definition log_append :: "string \<Rightarrow> int \<Rightarrow> bytes \<Rightarrow> upload_logs \<Rightarrow> upload_logs option" where
  "log_append i offset chunk logs =
     (case logs i of None \<Rightarrow> None
      | Some c \<Rightarrow> if int (length c) = offset then Some (logs(i \<mapsto> c @ chunk)) else None)"

definition staged :: "upload_file_row \<Rightarrow> bool" where
  "staged f \<longleftrightarrow> uf_status f \<in> {UF_PENDING, UF_UPLOADING, UF_COMPLETE, UF_ENCRYPTING} \<and> \<not> uf_metadata f"

text \<open>What was acknowledged of a file: the received bytes of its staging file.\<close>

definition received_bytes :: "(string \<Rightarrow> bytes option) \<Rightarrow> upload_file_row \<Rightarrow> bytes" where
  "received_bytes disk f = take (nat (uf_received f)) (the (disk (uf_temp f)))"

definition acknowledged :: "'z upload_db_scheme \<Rightarrow> upload_logs" where
  "acknowledged db i = (case file_of i db of None \<Rightarrow> None
     | Some f \<Rightarrow> if staged f then Some (received_bytes (staging_disk db) f) else None)"

text \<open>The staging area is in order: every staged file has its own place, which holds all it has received.\<close>

definition staging_ok :: "'z upload_db_scheme \<Rightarrow> bool" where
  "staging_ok db \<longleftrightarrow> distinct (map uf_id (upload_files db))
     \<and> (\<forall>f \<in> set (upload_files db). uf_status f \<in> {UF_PENDING, UF_UPLOADING} \<longrightarrow> \<not> uf_metadata f)
     \<and> (\<forall>f \<in> set (upload_files db). staged f \<longrightarrow> 0 \<le> uf_received f
         \<and> (\<exists>c. staging_disk db (uf_temp f) = Some c \<and> uf_received f \<le> int (length c)))
     \<and> (\<forall>f \<in> set (upload_files db). \<forall>g \<in> set (upload_files db). staged f \<longrightarrow> staged g \<longrightarrow> uf_temp f = uf_temp g \<longrightarrow> f = g)"

lemma write_at_prefix:
  assumes "n \<le> length content"
  shows "take n (write_at n chunk content) = take n content"
    and "take (n + length chunk) (write_at n chunk content) = take n content @ chunk"
    and "n + length chunk \<le> length (write_at n chunk content)" and "n \<le> length (write_at n chunk content)"
  using assms by (auto simp: write_at_def)

lemma file_of_update:
  assumes "distinct (map uf_id fs)" and "f \<in> set fs" and "uf_id (h f) = uf_id f"
  shows "first_row (\<lambda>r. uf_id r = i) (update_rows (\<lambda>r. uf_id r = uf_id f) h fs)
    = (if i = uf_id f then Some (h f) else first_row (\<lambda>r. uf_id r = i) fs)"
  using assms
proof (induction fs)
  case (Cons a fs)
  show ?case
  proof (cases "a = f")
    case True
    then have "update_rows (\<lambda>r. uf_id r = uf_id f) h fs = fs"
      using Cons.prems by (intro update_rows_id) (auto simp: image_iff)
    with True Cons.prems show ?thesis by auto
  next
    case False
    then have "f \<in> set fs" "uf_id a \<noteq> uf_id f" using Cons.prems by (auto simp: image_iff)
    with Cons show ?thesis by auto
  qed
qed simp

text \<open>A chunk written into the place of a staged file: whether or not it is acknowledged afterwards.\<close>

lemma staged_write:
  assumes ok: "staging_ok db" and f: "f \<in> set (upload_files db)" "staged f"
    and content: "staging_disk db (uf_temp f) = Some content" "nat (uf_received f) \<le> length content"
    and files: "upload_files db' = update_rows (\<lambda>r. uf_id r = uf_id f) h (upload_files db)"
    and disk: "staging_disk db' = (staging_disk db)(uf_temp f \<mapsto> write_at (nat (uf_received f)) chunk content)"
    and h: "uf_id (h f) = uf_id f" "uf_temp (h f) = uf_temp f" "uf_metadata (h f) = uf_metadata f" "staged (h f)"
      "uf_received (h f) = uf_received f + n" "n = 0 \<or> n = int (length chunk)"
  shows "staging_ok db'"
    and "acknowledged db' = (acknowledged db)(uf_id f \<mapsto> received_bytes (staging_disk db) f @ take (nat n) chunk)"
proof -
  let ?d' = "staging_disk db'"
  have d: "distinct (map uf_id (upload_files db))" and pos: "0 \<le> uf_received f" using ok f by (auto simp: staging_ok_def)
  have apart: "uf_temp g \<noteq> uf_temp f" if "g \<in> set (upload_files db)" "staged g" "uf_id g \<noteq> uf_id f" for g
    using ok f that unfolding staging_ok_def by blast
  have rows: "r \<in> set (upload_files db') \<Longrightarrow> r = h f \<or> r \<in> set (upload_files db) \<and> uf_id r \<noteq> uf_id f" for r
    using update_one_rows [OF d f(1)] unfolding files by blast
  have nat_n: "nat (uf_received f + n) = nat (uf_received f) + nat n" using pos h(6) by auto
  have long: "nat (uf_received f) + nat n \<le> length (write_at (nat (uf_received f)) chunk content)"
    using write_at_prefix(3,4) [OF content(2), of chunk] h(6) by auto
  have "distinct (map uf_id (upload_files db'))"
    unfolding files using d h(1) by (subst map_ident_update) (auto dest: distinct_row [OF d _ f(1)])
  moreover have "\<forall>r \<in> set (upload_files db'). uf_status r \<in> {UF_PENDING, UF_UPLOADING} \<longrightarrow> \<not> uf_metadata r"
    using rows ok h(4) unfolding staging_ok_def staged_def by blast
  moreover have "0 \<le> uf_received r \<and> (\<exists>c. ?d' (uf_temp r) = Some c \<and> uf_received r \<le> int (length c))"
    if r: "r \<in> set (upload_files db')" "staged r" for r
  proof (cases "r = h f")
    case True
    then show ?thesis using h pos long by (auto simp: disk)
  next
    case False
    then have r': "r \<in> set (upload_files db)" "uf_id r \<noteq> uf_id f" using rows r by blast+
    then show ?thesis using ok apart [OF r'(1) r(2) r'(2)] r(2) by (simp add: disk staging_ok_def)
  qed
  moreover have "r = s" if "r \<in> set (upload_files db')" "s \<in> set (upload_files db')" "staged r" "staged s" "uf_temp r = uf_temp s" for r s
  proof -
    have "r = h f \<or> r \<in> set (upload_files db) \<and> uf_id r \<noteq> uf_id f" "s = h f \<or> s \<in> set (upload_files db) \<and> uf_id s \<noteq> uf_id f"
      using rows that by blast+
    then show ?thesis using that ok apart h(2) unfolding staging_ok_def by metis
  qed
  ultimately show "staging_ok db'" unfolding staging_ok_def by blast
  show "acknowledged db' = (acknowledged db)(uf_id f \<mapsto> received_bytes (staging_disk db) f @ take (nat n) chunk)"
  proof
    fix i
    have fo: "file_of i db' = (if i = uf_id f then Some (h f) else file_of i db)"
      unfolding file_of_def files by (rule file_of_update [OF d f(1)]) (rule h(1))
    have own: "received_bytes ?d' (h f) = received_bytes (staging_disk db) f @ take (nat n) chunk"
      using write_at_prefix(1,2) [OF content(2), of chunk] h(6)
      by (auto simp: received_bytes_def h(2,5) disk content(1) nat_n)
    have other: "received_bytes ?d' g = received_bytes (staging_disk db) g" if "file_of i db = Some g" "staged g" "i \<noteq> uf_id f" for g
      using apart [of g] file_ofD [OF that(1)] that by (simp add: received_bytes_def disk)
    show "acknowledged db' i = ((acknowledged db)(uf_id f \<mapsto> received_bytes (staging_disk db) f @ take (nat n) chunk)) i"
      using own other h(4) by (auto simp: acknowledged_def fo split: option.splits)
  qed
qed

text \<open>Committing a chunk: an append to the log of the file, or nothing that anyone can read.\<close>

lemma acknowledged_staged: "file_of i db = Some f \<Longrightarrow> staged f \<Longrightarrow> acknowledged db i = Some (received_bytes (staging_disk db) f)"
  by (simp add: acknowledged_def)

lemma update_rows_by_id [simp]: "update_rows p id t = t"
  unfolding id_def by (rule update_rows_same)

lemma acknowledged_own: "staging_ok db \<Longrightarrow> f \<in> set (upload_files db) \<Longrightarrow> staged f \<Longrightarrow>
    acknowledged db (uf_id f) = Some (received_bytes (staging_disk db) f)"
proof -
  assume ok: "staging_ok db" and f: "f \<in> set (upload_files db)" "staged f"
  have "file_of (uf_id f) db = Some f"
    using file_of_update [of "upload_files db" f id "uf_id f"] ok f(1) by (simp add: file_of_def staging_ok_def)
  then show ?thesis using acknowledged_staged f(2) by blast
qed

lemma received_length:
  "staging_ok db \<Longrightarrow> f \<in> set (upload_files db) \<Longrightarrow> staged f \<Longrightarrow> int (length (received_bytes (staging_disk db) f)) = uf_received f"
  by (fastforce simp: staging_ok_def received_bytes_def)

lemma staging_ok_more: "staging_ok (db\<lparr>chunk_receipts := x\<rparr>) = staging_ok db" "acknowledged (db\<lparr>chunk_receipts := x\<rparr>) = acknowledged db"
  by (simp_all add: staging_ok_def acknowledged_def file_of_def fun_eq_iff split: option.split)

lemma receive_chunk_simps [simp]:
  "upload_files (receive_chunk tm f n db) = update_rows (\<lambda>r. uf_id r = uf_id f) (\<lambda>r. r\<lparr>uf_received := uf_received f + n,
     uf_status := (if uf_received f + n = uf_declared f then UF_COMPLETE else UF_UPLOADING), uf_updated_at := tm\<rparr>) (upload_files db)"
  "staging_disk (receive_chunk tm f n db) = staging_disk db" "removals (receive_chunk tm f n db) = removals db"
  "chunk_receipts (receive_chunk tm f n db) = chunk_receipts db"
  "upload_batches (receive_chunk tm f n db) = update_rows (\<lambda>b. ub_id b = uf_batch_id f) (\<lambda>b. b\<lparr>ub_received := ub_received b + n\<rparr>) (upload_batches db)"
  by (simp_all add: receive_chunk_def Let_def set_files_def set_batch_def)

text \<open>Past its guards, a commit writes the bytes and then the receipt.\<close>

lemma commitChunk_open:
  assumes "file_of (ch_file input) db = Some f" and "uf_status f \<in> {UF_PENDING, UF_UPLOADING}" and "writable_batch tm f db"
    and "uf_received f = ch_offset input" and "\<not> uf_received f + ch_length input > uf_declared f" and "uf_temp f = target"
    and "staging_disk db (uf_temp f) = Some content"
    and "w = db\<lparr>staging_disk := (staging_disk db)(uf_temp f \<mapsto> write_at (nat (uf_received f)) chunk content)\<rparr>"
  shows "commitChunk lib tm input target chunk db =
     (if \<exists>r \<in> set (chunk_receipts db). cr_file r = ch_file input \<and> cr_offset r = uf_received f
      then (Inl (SqlError ''23505'' ''upload_chunk_receipt_pkey''), w)
      else if \<exists>b \<in> set (upload_batches db). ub_id b = uf_batch_id f \<and> ub_received b + int (length chunk) > MAX_UPLOAD_BATCH_BYTES
      then (Inl (SqlError ''23514'' ''upload_batch_received_bytes_check''), w)
      else (Inr (uf_received f + int (length chunk)), receive_chunk tm f (int (length chunk)) (w\<lparr>chunk_receipts := chunk_receipts db
        @ [\<lparr> cr_file = ch_file input, cr_offset = uf_received f, cr_size = int (length chunk), cr_sha = hex_digest lib chunk \<rparr>]\<rparr>)))"
  using assms(2-8) by (simp add: commitChunk_def assms(1) Let_def)

lemma commit_appends:
  assumes ok: "staging_ok db" and run: "commitChunk lib tm input target chunk db = (r, db')" and len: "int (length chunk) = ch_length input"
  shows "staging_ok db' \<and> (case r of
      Inl e \<Rightarrow> acknowledged db' = acknowledged db
    | Inr n \<Rightarrow> log_append (ch_file input) (ch_offset input) chunk (acknowledged db) = Some (acknowledged db')
        \<and> n = ch_offset input + int (length chunk))"
proof (cases "db' = db \<and> isl r")
  case True
  then show ?thesis using ok by (cases r) auto
next
  case False
  let ?id = "ch_file input"
  obtain f content where f: "file_of ?id db = Some f" "uf_status f \<in> {UF_PENDING, UF_UPLOADING}" and off: "uf_received f = ch_offset input"
    and guards: "writable_batch tm f db" "\<not> uf_received f + ch_length input > uf_declared f" "uf_temp f = target"
    and content: "staging_disk db (uf_temp f) = Some content"
    using run False by (auto simp: commitChunk_def split: option.splits if_split_asm)
  let ?w = "db\<lparr>staging_disk := (staging_disk db)(uf_temp f \<mapsto> write_at (nat (uf_received f)) chunk content)\<rparr>"
  have outcome: "(\<exists>e. r = Inl e \<and> db' = ?w)
    \<or> (\<exists>x. r = Inr (uf_received f + int (length chunk)) \<and> db' = receive_chunk tm f (int (length chunk)) (?w\<lparr>chunk_receipts := x\<rparr>))"
    using run unfolding commitChunk_open [OF f guards(1) off guards(2,3) content refl] by (simp split: if_split_asm) blast+
  note fm = file_ofD [OF f(1)]
  have st: "staged f" using ok fm f(2) by (auto simp: staging_ok_def staged_def)
  have long: "nat (uf_received f) \<le> length content" using ok fm st content by (fastforce simp: staging_ok_def)
  from outcome show ?thesis
  proof (elim disjE exE conjE)
    fix e assume r: "r = Inl e" "db' = ?w"
    note w = staged_write [OF ok _ st content long, of db' id chunk 0]
    have "staging_ok db'" by (rule w(1)) (use fm st r in simp_all)
    moreover have "acknowledged db' = (acknowledged db)(uf_id f \<mapsto> received_bytes (staging_disk db) f @ take (nat 0) chunk)"
      by (rule w(2)) (use fm st r in simp_all)
    ultimately show ?thesis using acknowledged_staged [OF f(1) st] fm r(1) by (simp add: fun_upd_idem)
  next
    fix x assume r: "r = Inr (uf_received f + int (length chunk))" "db' = receive_chunk tm f (int (length chunk)) (?w\<lparr>chunk_receipts := x\<rparr>)"
    note w = staged_write [OF ok _ st content long, of db' "\<lambda>r. r\<lparr>uf_received := uf_received f + int (length chunk),
       uf_status := (if uf_received f + int (length chunk) = uf_declared f then UF_COMPLETE else UF_UPLOADING), uf_updated_at := tm\<rparr>"
      chunk "int (length chunk)"]
    have "staging_ok db'" by (rule w(1)) (use fm st r in \<open>simp_all add: staged_def\<close>)
    moreover have "acknowledged db' = (acknowledged db)(uf_id f \<mapsto> received_bytes (staging_disk db) f @ take (nat (int (length chunk))) chunk)"
      by (rule w(2)) (use fm st r in \<open>simp_all add: staged_def\<close>)
    ultimately show ?thesis
      using acknowledged_staged [OF f(1) st] received_length [OF ok _ st] fm r(1) off by (simp add: log_append_def)
  qed
qed

section \<open>Sending a file\<close>

text \<open>A client that sends the chunks of a file one after the other, uncompressed, each with its digest.\<close>

definition chunk_message :: "chunk_lib \<Rightarrow> string \<Rightarrow> int \<Rightarrow> bytes \<Rightarrow> AppendChunk" where
  "chunk_message lib i offset chunk = \<lparr> ch_file = i, ch_offset = offset, ch_length = int (length chunk),
     ch_sha = hex_digest lib chunk, ch_gzip = False, ch_body = chunk \<rparr>"

fun send_chunks :: "chunk_lib \<Rightarrow> string \<Rightarrow> nat \<Rightarrow> string \<Rightarrow> int \<Rightarrow> bytes list \<Rightarrow> 'z upload_db_scheme \<Rightarrow> int result \<times> 'z upload_db_scheme" where
  "send_chunks lib base tm i offset [] db = (Inr offset, db)"
| "send_chunks lib base tm i offset (c # cs) db = (case appendChunk lib base tm (chunk_message lib i offset c) db of
     (Inl e, db') \<Rightarrow> (Inl e, db')
   | (Inr n, db') \<Rightarrow> send_chunks lib base tm i n cs db')"

text \<open>What a digest in hexadecimal looks like.\<close>

definition digest_laws :: "chunk_lib \<Rightarrow> bool" where
  "digest_laws lib \<longleftrightarrow> (\<forall>b. hex_text (hex_digest lib b) \<and> trim (hex_digest lib b) = hex_digest lib b
     \<and> map to_lower (hex_digest lib b) = hex_digest lib b)"

text \<open>A file that can take the rest of its bytes.\<close>

definition receiving :: "string \<Rightarrow> nat \<Rightarrow> upload_file_row \<Rightarrow> 'z upload_db_scheme \<Rightarrow> bool" where
  "receiving base tm f db \<longleftrightarrow> uf_status f \<in> {UF_PENDING, UF_UPLOADING} \<and> writable_batch tm f db \<and> inside base (uf_temp f)
     \<and> (\<forall>r \<in> set (chunk_receipts db). cr_file r = uf_id f \<longrightarrow> cr_offset r < uf_received f)"

lemma sum_for_slack:
  "sum_for (\<lambda>f. Usage (us_declared (g f) - us_received (g f)) 0 0 0) i fs
    = Usage (us_declared (sum_for g i fs) - us_received (sum_for g i fs)) 0 0 0"
  by (induction fs) (simp_all add: Usage_add zero_usage_def)

text \<open>The bytes a file still misses fit into its batch.\<close>

lemma room_for_file:
  assumes inv: "upload_inv db" and f: "f \<in> set (upload_files db)" "counted (removals db) f"
    and b: "b \<in> set (upload_batches db)" "ub_id b = uf_batch_id f"
  shows "ub_received b + (uf_declared f - uf_received f) \<le> ub_declared b"
proof -
  let ?slack = "\<lambda>r. Usage (us_declared (share (removals db) r) - us_received (share (removals db) r)) 0 0 0"
  have own: "?slack f = Usage (uf_declared f - uf_received f) 0 0 0" using f(2) by (simp add: share_def file_share_def archive_share_def)
  have "sum_for (\<lambda>r. if uf_id r = uf_id f then ?slack r else 0) (ub_id b) (upload_files db) \<le> sum_for ?slack (ub_id b) (upload_files db)"
  proof (rule sum_for_mono)
    fix r assume "r \<in> set (upload_files db)"
    then have "file_ok r" using inv_file [OF inv] by blast
    then show "(if uf_id r = uf_id f then ?slack r else 0) \<le> ?slack r"
      by (simp add: less_eq_usage_def share_def file_share_def archive_share_def file_ok_def)
  qed
  then have "?slack f \<le> Usage (us_declared (usage_of b) - us_received (usage_of b)) 0 0 0"
    using sum_for_one [OF inv_ids(2) [OF inv] f(1), of ?slack "ub_id b"] b(2) inv_usage [OF inv b(1)] sum_for_slack [of "share (removals db)"] by simp
  then show ?thesis unfolding own by (simp add: less_eq_usage_def usage_of_def)
qed

lemma writable_counted:
  assumes inv: "upload_inv db" and f: "f \<in> set (upload_files db)" "uf_status f \<in> {UF_PENDING, UF_UPLOADING}" "writable_batch tm f db"
  shows "counted (removals db) f"
proof -
  obtain b where b: "b \<in> set (upload_batches db)" "ub_id b = uf_batch_id f" "writable_status (ub_status b)"
    using f(3) by (auto simp: writable_batch_def)
  have "\<not> child_file f" using counted_open [OF inv f(1) b] .
  moreover have "\<not> removed_file (removals db) f" using inv_removed [OF inv f(1)] f(2) by auto
  ultimately show ?thesis by (simp add: counted_def)
qed

lemma stage_next:
  assumes laws: "digest_laws lib" and f: "file_of i db = Some f" "receiving base tm f db"
    and c: "int (length c) \<le> MAX_CHUNK_BYTES" "uf_received f + int (length c) \<le> uf_declared f"
  shows "stageChunk lib base tm (chunk_message lib i (uf_received f) c) db = Inr (uf_temp f, c)"
proof -
  have "writable_file tm i db = Some f"
    unfolding writable_file_def
    by (rule first_row_narrow [OF f(1) [unfolded file_of_def]])
      (use f(2) file_ofD [OF f(1)] in \<open>auto simp: receiving_def writable_batch_def\<close>)
  then show ?thesis using f(2) c laws
    by (auto simp: stageChunk_def chunk_message_def decoded_chunk_def digest_matches_def digest_laws_def receiving_def Let_def)
qed

lemma writable_batch_received: "(\<exists>b \<in> set (update_rows p (\<lambda>b. b\<lparr>ub_received := g b\<rparr>) bs). ub_id b = i \<and> writable_status (ub_status b) \<and> tm < ub_expires_at b)
    \<longleftrightarrow> (\<exists>b \<in> set bs. ub_id b = i \<and> writable_status (ub_status b) \<and> tm < ub_expires_at b)"
  by (induction bs) auto

lemma append_next:
  assumes inv: "upload_inv db" and ok: "staging_ok db" and laws: "digest_laws lib" and f: "file_of i db = Some f" "receiving base tm f db"
    and c: "int (length c) \<le> MAX_CHUNK_BYTES" "uf_received f + int (length c) \<le> uf_declared f"
  obtains db' g where "appendChunk lib base tm (chunk_message lib i (uf_received f) c) db = (Inr (uf_received f + int (length c)), db')"
    "file_of i db' = Some g" "uf_received g = uf_received f + int (length c)" "uf_declared g = uf_declared f"
    "uf_status g = (if uf_received g = uf_declared f then UF_COMPLETE else UF_UPLOADING)"
    "c = [] \<or> uf_status g = UF_COMPLETE \<or> receiving base tm g db'"
proof -
  note fm = file_ofD [OF f(1)]
  have st: "uf_status f \<in> {UF_PENDING, UF_UPLOADING}" and w: "writable_batch tm f db" and "inside base (uf_temp f)"
    and receipts: "\<forall>r \<in> set (chunk_receipts db). cr_file r = uf_id f \<longrightarrow> cr_offset r < uf_received f"
    using f(2) by (auto simp: receiving_def)
  have staged: "staged f" using ok fm st by (auto simp: staging_ok_def staged_def)
  obtain content where content: "staging_disk db (uf_temp f) = Some content" using ok fm staged by (auto simp: staging_ok_def)
  note counted = writable_counted [OF inv _ st w]
  let ?n = "int (length c)" and ?msg = "chunk_message lib i (uf_received f) c"
  let ?w = "db\<lparr>staging_disk := (staging_disk db)(uf_temp f \<mapsto> write_at (nat (uf_received f)) c content)\<rparr>"
  let ?x = "chunk_receipts db @ [\<lparr> cr_file = i, cr_offset = uf_received f, cr_size = ?n, cr_sha = hex_digest lib c \<rparr>]"
  let ?db' = "receive_chunk tm f ?n (?w\<lparr>chunk_receipts := ?x\<rparr>)"
  let ?g = "f\<lparr>uf_received := uf_received f + ?n, uf_status := (if uf_received f + ?n = uf_declared f then UF_COMPLETE else UF_UPLOADING), uf_updated_at := tm\<rparr>"
  have room: "\<not> (\<exists>b \<in> set (upload_batches db). ub_id b = uf_batch_id f \<and> ub_received b + ?n > MAX_UPLOAD_BATCH_BYTES)"
    using room_for_file [OF inv _ counted] inv_limits [OF inv] fm c(2) by (fastforce simp: limits_ok_def)
  have "commitChunk lib tm ?msg (uf_temp f) c db = (Inr (uf_received f + ?n), ?db')"
    using receipts room fm by (subst commitChunk_open [OF _ st w _ _ refl content refl]) (use f(1) c(2) in \<open>auto simp: chunk_message_def\<close>)
  then have run: "appendChunk lib base tm ?msg db = (Inr (uf_received f + ?n), ?db')"
    unfolding appendChunk_def stage_next [OF laws f c(1,2)] by simp
  have g: "file_of i ?db' = Some ?g"
    unfolding file_of_def receive_chunk_simps using fm
    by (subst file_of_update) (use inv_ids(2) [OF inv] in simp_all)
  have "c = [] \<or> uf_status ?g = UF_COMPLETE \<or> receiving base tm ?g ?db'"
    using receipts w f(2) by (auto simp: receiving_def writable_batch_def writable_batch_received)
  with that [OF run g] show thesis by simp
qed

lemma append_acknowledged:
  assumes "staging_ok db" and "appendChunk lib base tm input db = (Inr n, db')"
  shows "staging_ok db'" and "acknowledged db (ch_file input) = Some bytes0 \<Longrightarrow> stageChunk lib base tm input db = Inr (path, chunk) \<Longrightarrow>
    acknowledged db' (ch_file input) = Some (bytes0 @ chunk)"
proof -
  obtain path' chunk' where s: "stageChunk lib base tm input db = Inr (path', chunk')" and
    run: "commitChunk lib tm input path' chunk' db = (Inr n, db')"
    using assms(2) by (auto simp: appendChunk_def split: sum.splits)
  note app = commit_appends [OF assms(1) run stageChunk_Inr [OF s]]
  show "staging_ok db'" using app by simp
  show "acknowledged db' (ch_file input) = Some (bytes0 @ chunk)"
    if "acknowledged db (ch_file input) = Some bytes0" "stageChunk lib base tm input db = Inr (path, chunk)"
    using app that s by (auto simp: log_append_def split: if_split_asm dest: sym)
qed

lemma chunks_finish:
  assumes "upload_inv db" "staging_ok db" "digest_laws lib" "file_of i db = Some f" "receiving base tm f db" "chunks \<noteq> []"
    and "\<forall>c \<in> set chunks. c \<noteq> [] \<and> int (length c) \<le> MAX_CHUNK_BYTES" "uf_received f + int (length (concat chunks)) = uf_declared f"
    and "acknowledged db i = Some bytes0"
  shows "\<exists>db' g. send_chunks lib base tm i (uf_received f) chunks db = (Inr (uf_declared f), db') \<and> file_of i db' = Some g
    \<and> uf_status g = UF_COMPLETE \<and> acknowledged db' i = Some (bytes0 @ concat chunks)"
  using assms
proof (induction chunks arbitrary: db f bytes0)
  case (Cons c cs)
  note laws = Cons.prems(3) and f = Cons.prems(4,5)
  have c: "c \<noteq> []" "int (length c) \<le> MAX_CHUNK_BYTES" "uf_received f + int (length c) \<le> uf_declared f" using Cons.prems(7,8) by auto
  obtain db' g where run: "appendChunk lib base tm (chunk_message lib i (uf_received f) c) db = (Inr (uf_received f + int (length c)), db')"
    and g: "file_of i db' = Some g" "uf_received g = uf_received f + int (length c)" "uf_declared g = uf_declared f"
      "uf_status g = (if uf_received g = uf_declared f then UF_COMPLETE else UF_UPLOADING)"
      "c = [] \<or> uf_status g = UF_COMPLETE \<or> receiving base tm g db'"
    using append_next [OF Cons.prems(1,2) laws f c(2,3)] .
  have ok: "staging_ok db'" "acknowledged db' i = Some (bytes0 @ c)"
    using append_acknowledged [OF Cons.prems(2) run] stage_next [OF laws f c(2,3)] Cons.prems(9) by (simp_all add: chunk_message_def)
  have first: "send_chunks lib base tm i (uf_received f) (c # cs) db = send_chunks lib base tm i (uf_received g) cs db'"
    by (simp add: run g(2))
  show ?case
  proof (cases "cs = []")
    case True
    then have "uf_received g = uf_declared f" using Cons.prems(8) g(2) by simp
    then show ?thesis unfolding first using g ok(2) True by auto
  next
    case False
    then have "0 < length (concat cs)" using Cons.prems(7) by (cases cs) auto
    then have "uf_received g \<noteq> uf_declared f" using g(2) Cons.prems(8) by (simp only: concat.simps length_append of_nat_add)
    then have "receiving base tm g db'" using g(4,5) c(1) by simp
    from Cons.IH [OF appendChunk_inv [OF Cons.prems(1) run] ok(1) laws g(1) this False _ _ ok(2)]
    show ?thesis unfolding first using Cons.prems(7,8) g(2,3) by simp
  qed
qed simp

section \<open>Properties of chunks\<close>

text \<open>C33: whatever chunk is committed, in whatever state it comes to: if it is acknowledged, the bytes of its file that
  count are the old ones with the chunk at their end and the next offset is announced; if it is refused, no file's
  bytes change, whatever was already written beside them; and the staging area stays in order.\<close>

theorem chunks_only_append:
  assumes "staging_ok db" and "commitChunk lib tm input target chunk db = (r, db')" and "int (length chunk) = ch_length input"
  shows "staging_ok db' \<and> (case r of
      Inl e \<Rightarrow> acknowledged db' = acknowledged db
    | Inr n \<Rightarrow> log_append (ch_file input) (ch_offset input) chunk (acknowledged db) = Some (acknowledged db')
        \<and> n = ch_offset input + int (length chunk))"
  by (rule commit_appends [OF assms])

definition sample_chunk_lib :: chunk_lib where
  "sample_chunk_lib = \<lparr> hex_digest = (\<lambda>b. replicate 64 CHR ''a''), base64_digest = (\<lambda>b. []), gunzip = (\<lambda>b. (b, True)) \<rparr>"

lemma sample_staging_ok: "staging_ok sample_created"
  by (simp add: staging_ok_def sample_created_rows sample_row_def sample_file_id_def temp_path_def)

lemma sample_acknowledged: "acknowledged sample_created (sample_file_id 0) = Some []"
  by (simp add: acknowledged_def file_of_def sample_created_rows sample_row_def staged_def received_bytes_def)

lemma chunks_only_append_witness:
  "let input = chunk_message sample_chunk_lib (sample_file_id 0) 0 [1, 2];
       out = commitChunk sample_chunk_lib 20 input (temp_path ''/u'' ''batch'' (sample_file_id 0)) [1, 2] sample_created
   in staging_ok (snd out)"
  using chunks_only_append [OF sample_staging_ok surjective_pairing, where lib = sample_chunk_lib and tm = 20
    and input = "chunk_message sample_chunk_lib (sample_file_id 0) 0 [1, 2]" and target = "temp_path ''/u'' ''batch'' (sample_file_id 0)"
    and chunk = "[1, 2]"]
  by (simp add: Let_def chunk_message_def)

text \<open>C34: a client that sends the bytes of a file that nothing was sent of yet, in order, in chunks that are not empty
  and within the limit, with their digests, gets every one acknowledged; the file ends up complete and holds exactly the
  bytes sent.\<close>

theorem sent_chunks_complete:
  assumes "uploads_reached flib db" and "hash_laws flib" and "digest_laws lib" and "staging_ok db"
    and "file_of i db = Some f" and "uf_received f = 0" and "receiving base tm f db"
    and "chunks \<noteq> []" and "\<forall>c \<in> set chunks. c \<noteq> [] \<and> int (length c) \<le> MAX_CHUNK_BYTES"
    and "int (length (concat chunks)) = uf_declared f"
  shows "\<exists>db' g. send_chunks lib base tm i 0 chunks db = (Inr (uf_declared f), db') \<and> file_of i db' = Some g
    \<and> uf_status g = UF_COMPLETE \<and> acknowledged db' i = Some (concat chunks)"
proof -
  note inv = reached_inv [OF assms(1,2)] and fm = file_ofD [OF assms(5)]
  have "staged f" using assms(4,7) fm by (auto simp: staging_ok_def staged_def receiving_def)
  then have "acknowledged db i = Some []" using assms(5,6) by (simp add: acknowledged_def received_bytes_def)
  from chunks_finish [OF inv assms(4,3,5,7,8,9) _ this] show ?thesis using assms(6,10) by simp
qed

lemma sample_digest_laws: "digest_laws sample_chunk_lib"
  by (simp add: digest_laws_def sample_chunk_lib_def hex_text_def list_all_iff trim_def trim_left_def to_lower_def is_upper_def is_space_def)

lemma sample_receiving:
  "file_of (sample_file_id 0) sample_created = Some (sample_row 0 ''a.csv'' 3)"
  "receiving ''/u'' 20 (sample_row 0 ''a.csv'' 3) sample_created"
  by (simp_all add: file_of_def receiving_def sample_created_rows sample_row_def writable_batch_def sample_batch_def
    writable_status_def inside_def temp_path_def)

lemma sent_chunks_complete_witness:
  "\<exists>db' g. send_chunks sample_chunk_lib ''/u'' 20 (sample_file_id 0) 0 [[1, 2], [3]] sample_created = (Inr 3, db')
    \<and> file_of (sample_file_id 0) db' = Some g \<and> uf_status g = UF_COMPLETE \<and> acknowledged db' (sample_file_id 0) = Some [1, 2, 3]"
proof -
  from sent_chunks_complete [OF sample_reached sample_lib_laws sample_digest_laws sample_staging_ok sample_receiving(1) _ sample_receiving(2), of "[[1, 2], [3]]"]
  show ?thesis by (simp add: sample_row_def MAX_CHUNK_BYTES_def)
qed

end
