(* ===== verification/UploadReceipts.thy ===== *)
theory UploadReceipts
  imports UploadChunks Runs
begin

text \<open>
  Receipts of chunks: nothing but a committed chunk writes one and nothing removes one, so what a receipt says of a
  file stays said, whatever is uploaded, completed, removed, cancelled, expired or archived afterwards.
\<close>

section \<open>What keeps the receipts\<close>

lemma simple_receipts [simp]:
  "chunk_receipts (set_files p g db) = chunk_receipts db" "chunk_receipts (set_batch i h db) = chunk_receipts db"
  "chunk_receipts (set_import i k db) = chunk_receipts db" "chunk_receipts (set_file i j g db) = chunk_receipts db"
  "chunk_receipts (insert_issue_once q is db) = chunk_receipts db"
  by (simp_all add: set_files_def set_batch_def set_import_def set_file_def insert_issue_once_def)

lemma marked_receipts [simp]:
  "chunk_receipts (claimed tm i db) = chunk_receipts db" "chunk_receipts (drop_extracted f db) = chunk_receipts db"
  "chunk_receipts (mark_stored lib tm i s kind content db) = chunk_receipts db" "chunk_receipts (duplicate_issue f s db) = chunk_receipts db"
  "chunk_receipts (cancel_pair i j db) = chunk_receipts db" "chunk_receipts (drop_metadata_imports j fs db) = chunk_receipts db"
  "chunk_receipts (record_removal r db) = chunk_receipts db" "chunk_receipts (mark_failed tm f db) = chunk_receipts db"
  "chunk_receipts (failure_issue j code f db) = chunk_receipts db"
  by (simp_all add: claimed_def drop_extracted_def mark_stored_def duplicate_issue_def cancel_pair_def drop_metadata_imports_def
    record_removal_def mark_failed_def failure_issue_def)

lemma fold_receipts: "(\<And>x d. chunk_receipts (g x d) = chunk_receipts d) \<Longrightarrow> chunk_receipts (fold g xs db) = chunk_receipts db"
  by (induction xs arbitrary: db) simp_all

section \<open>Registering\<close>

lemma insert_upload_files_receipts: "insert_upload_files rs db = Inr db' \<Longrightarrow> chunk_receipts db' = chunk_receipts db"
  by (induction rs arbitrary: db) (fastforce simp: insert_upload_file_def bindE_Inr_iff split: if_split_asm)+

lemma insert_import_files_receipts: "insert_import_files rs db = Inr db' \<Longrightarrow> chunk_receipts db' = chunk_receipts db"
  by (induction rs arbitrary: db) (fastforce simp: insert_import_file_def bindE_Inr_iff split: if_split_asm)+

lemma registerFiles_receipts:
  assumes "registerFilesInTransaction env i files db = Inr (r, db')"
  shows "chunk_receipts db' = chunk_receipts db"
proof (cases "files = []")
  case False
  then obtain rows db1 db2 g where steps: "insert_upload_files rows (db\<lparr>staging_disk := create_temps rows (staging_disk db)\<rparr>) = Inr db1"
    "register_metadata i rows db1 = Inr db2" "db' = set_batch i g db2"
    using assms by (auto simp: registerFilesInTransaction_def Let_def bindE_Inr_iff split: option.splits if_split_asm)
  have "chunk_receipts db2 = chunk_receipts db1"
    using steps(2) insert_import_files_receipts by (auto simp: register_metadata_def Let_def split: if_split_asm option.splits)
  then show ?thesis using insert_upload_files_receipts [OF steps(1)] steps(3) by simp
qed (use assms in \<open>simp add: registerFilesInTransaction_def\<close>)

lemma createFiles_receipts: "createFiles env i inputs db = Inr (r, db') \<Longrightarrow> chunk_receipts db' = chunk_receipts db"
  using registerFiles_receipts by (auto simp: createFiles_def bindE_Inr_iff)

lemma createBatch_receipts:
  assumes "createBatchWithFiles env shop account key inputs s e db = Inr (r, db')"
  shows "chunk_receipts db' = chunk_receipts db"
proof -
  have "insert_batches env shop account key period db = Inr db1 \<Longrightarrow> chunk_receipts db1 = chunk_receipts db" for period db1
    by (auto simp: insert_batches_def split: if_split_asm)
  then show ?thesis using assms registerFiles_receipts
    by (fastforce simp: createBatchWithFiles_def bindE_Inr_iff split: option.splits if_split_asm)
qed

section \<open>Chunks\<close>

lemma commit_receipts:
  assumes "commitChunk lib tm input target chunk db = (r, db')"
  shows "set (chunk_receipts db) \<subseteq> set (chunk_receipts db')"
  using assms by (auto simp: commitChunk_def Let_def split: option.splits if_split_asm)

section \<open>Completing, failing, removing, cancelling, expiring\<close>

lemma refresh_receipts: "refreshUploadPreflight ev i j db = Inr (p, db') \<Longrightarrow> chunk_receipts db' = chunk_receipts db"
  by (drule refresh_books) (simp add: same_books_def)

lemma completeBatch_receipts:
  assumes "completeBatch ev i db = Inr (r, db')"
  shows "chunk_receipts db' = chunk_receipts db"
proof -
  have "chunk_receipts (submitted ev b db) = chunk_receipts db" for b
    by (simp add: submitted_def send_finalizations_def fold_receipts)
  then show ?thesis using assms refresh_receipts
    by (fastforce simp: completeBatch_def bindE_Inr_iff split: option.splits if_split_asm)
qed

lemma cleanup_receipts: "cleanupUploadStagingArtifacts tm i temp db = (r, db') \<Longrightarrow> chunk_receipts db' = chunk_receipts db"
  by (auto simp: cleanupUploadStagingArtifacts_def Let_def split: if_split_asm sum.splits)

lemma cleanup_all_receipts: "chunk_receipts (snd (cleanup_all tm files db)) = chunk_receipts db"
  by (induction tm files db rule: cleanup_all.induct) (auto dest: cleanup_receipts split: prod.splits sum.splits)

lemma cleanup_counted_receipts: "chunk_receipts (snd (cleanup_counted tm files db)) = chunk_receipts db"
  by (induction tm files db rule: cleanup_counted.induct) (auto dest: cleanup_receipts split: prod.splits)

lemma release_receipts: "releaseArchiveBudget tm i j db = Inr (x, db') \<Longrightarrow> chunk_receipts db' = chunk_receipts db"
  by (auto simp: releaseArchiveBudget_def split: option.splits if_split_asm)

lemma release_reserved_receipts: "releaseReservedArchiveBudgets files db = Inr db' \<Longrightarrow> chunk_receipts db' = chunk_receipts db"
  by (auto simp: releaseReservedArchiveBudgets_def Let_def split: if_split_asm)

lemma report_receipts: "report_failure ev code f b ib db = Inr (temp, db') \<Longrightarrow> chunk_receipts db' = chunk_receipts db"
  using refresh_receipts by (fastforce simp: report_failure_def Let_def bindE_Inr_iff split: if_split_asm)

lemma recordFailure_receipts: "recordUploadFileFailure ev tm i code permitted db = Inr (temp, db') \<Longrightarrow> chunk_receipts db' = chunk_receipts db"
  by (auto simp: recordUploadFileFailure_def bindE_Inr_iff dest!: report_receipts release_receipts split: option.splits if_split_asm)

lemma failFile_receipts: "failFile ev tm i code db = (r, db') \<Longrightarrow> chunk_receipts db' = chunk_receipts db"
  using recordFailure_receipts cleanup_receipts by (fastforce simp: failFile_def split: sum.splits prod.splits)

lemma remove_tx_receipts:
  assumes "remove_tx tm i ids actor db = Inr (r, db')"
  shows "chunk_receipts db' = chunk_receipts db"
proof -
  have "release_usage i fs d = Inr d' \<Longrightarrow> chunk_receipts d' = chunk_receipts d" for fs and d d' :: "'a upload_db_scheme"
    by (auto simp: release_usage_def Let_def split: if_split_asm)
  then have "remove_open tm i j ids actor fs n db = Inr d' \<Longrightarrow> chunk_receipts d' = chunk_receipts db" for j fs n d'
    by (auto simp: remove_open_def Let_def bindE_Inr_iff split: if_split_asm)
  then show ?thesis using assms by (auto simp: remove_tx_def Let_def bindE_Inr_iff split: option.splits if_split_asm)
qed

lemma removeFiles_receipts:
  assumes "removeFiles tm i ids actor db = (r, db')"
  shows "chunk_receipts db' = chunk_receipts db"
proof (cases "remove_tx tm i (sort (remdups ids)) actor db")
  case (Inr x)
  obtain files answer d where x: "x = ((files, answer), d)" by (cases x) auto
  have "db' = db \<or> db' = snd (cleanup_all tm (staged_files files) d)"
    using assms by (auto simp: removeFiles_def Let_def Inr x split: if_split_asm sum.splits prod.splits)
  then show ?thesis using remove_tx_receipts [OF Inr [unfolded x]] cleanup_all_receipts [of tm _ d] by auto
qed (use assms in \<open>auto simp: removeFiles_def Let_def split: if_split_asm\<close>)

lemma cancelBatch_receipts:
  assumes "cancelBatch tm i db = (r, db')"
  shows "chunk_receipts db' = chunk_receipts db"
proof -
  have "cancel_tx tm i db = Inr (files, d) \<Longrightarrow> chunk_receipts d = chunk_receipts db" for files d
    using release_reserved_receipts by (fastforce simp: cancel_tx_def Let_def bindE_Inr_iff)
  then show ?thesis using assms cleanup_all_receipts [of tm "staged_files (fst (projr (cancel_tx tm i db)))" "snd (projr (cancel_tx tm i db))"]
    by (auto simp: cancelBatch_def split: sum.splits prod.splits)
qed

lemma expire_receipts:
  assumes "expireUploadStaging tm db = (r, db')"
  shows "chunk_receipts db' = chunk_receipts db"
proof -
  have "expire_tx tm db = Inr (files, d) \<Longrightarrow> chunk_receipts d = chunk_receipts db" for files d
    using release_reserved_receipts by (fastforce simp: expire_tx_def Let_def bindE_Inr_iff)
  then show ?thesis using assms cleanup_counted_receipts [of tm "staged_files (fst (projr (expire_tx tm db)))" "snd (projr (expire_tx tm db))"]
    by (auto simp: expireUploadStaging_def split: sum.splits prod.splits)
qed

section \<open>Archiving\<close>

lemma reserve_archive_receipts: "reserve_archive lib tm f reports db = (x, reserved, db') \<Longrightarrow> chunk_receipts db' = chunk_receipts db"
  by (auto simp: reserve_archive_def reserveArchiveBudget_def split: if_split_asm sum.splits option.splits)

lemma unpack_receipts: "unpack lib tm f content db = (x, reserved, db') \<Longrightarrow> chunk_receipts db' = chunk_receipts db"
  by (auto simp: unpack_def dest!: reserve_archive_receipts split: sum.splits prod.splits)

lemma prepare_receipts: "prepare_object lib tm f kind content db = (x, reserved, db') \<Longrightarrow> chunk_receipts db' = chunk_receipts db"
  by (auto simp: prepare_object_def dest!: unpack_receipts split: if_split_asm sum.splits prod.splits)

lemma insert_children_receipts: "insert_children ev rs db = Inr db' \<Longrightarrow> chunk_receipts db' = chunk_receipts db"
  by (induction rs arbitrary: db) (fastforce simp: insert_child_def insert_upload_file_def bindE_Inr_iff split: if_split_asm)+

lemma commit_object_receipts:
  assumes "commit_object lib ev tm f shop kind content xs db = Inr (selected, db')"
  shows "chunk_receipts db' = chunk_receipts db"
proof -
  have "store_source lib ev i shop content db = Inr (s, d) \<Longrightarrow> chunk_receipts d = chunk_receipts db" for i s d
    by (auto simp: store_source_def Let_def split: option.splits if_split_asm)
  then show ?thesis using assms
    by (auto simp: commit_object_def Let_def bindE_Inr_iff dest!: insert_children_receipts split: option.splits if_split_asm)
qed

lemma give_back_receipts: "chunk_receipts (snd (give_back tm f reserved e db)) = chunk_receipts db"
  by (auto simp: give_back_def dest: release_receipts split: sum.splits prod.splits)

lemma finalize_claimed_receipts: "chunk_receipts (snd (finalize_claimed lib ev tm f shop db)) = chunk_receipts db"
  by (auto simp: finalize_claimed_def Let_def give_back_receipts dest!: prepare_receipts commit_object_receipts
      split: option.splits sum.splits prod.splits)

lemma finalizeUploadFile_receipts: "chunk_receipts (snd (finalizeUploadFile lib ev tm i db)) = chunk_receipts db"
  by (auto simp: finalizeUploadFile_def replay_stored_def Let_def finalize_claimed_receipts split: option.splits prod.splits)

lemma finalize_job_receipts:
  assumes "finalize_job lib ev tm exhausted i db = (r, db')"
  shows "chunk_receipts db' = chunk_receipts db"
proof -
  obtain x db1 where run: "finalizeUploadFile lib ev tm i db = (x, db1)" by (cases "finalizeUploadFile lib ev tm i db")
  have "chunk_receipts db1 = chunk_receipts db" using finalizeUploadFile_receipts [of lib ev tm i db] by (simp add: run)
  moreover have "chunk_receipts db' = chunk_receipts db1"
    using assms by (auto simp: finalize_job_def run dest!: recordFailure_receipts cleanup_receipts
      split: sum.splits option.splits if_split_asm prod.splits)
  ultimately show ?thesis by simp
qed

section \<open>Runs\<close>

text \<open>Any operation on uploads, or any step of the rest of the server, which writes neither uploads nor receipts.\<close>

definition receipt_step :: "final_lib \<Rightarrow> upload_db \<Rightarrow> upload_db \<Rightarrow> bool" where
  "receipt_step lib db db' \<longleftrightarrow> upload_operation lib db db' \<or> elsewhere db db' \<and> chunk_receipts db' = chunk_receipts db"

lemma receipt_step_grows:
  assumes "receipt_step lib db db'"
  shows "set (chunk_receipts db) \<subseteq> set (chunk_receipts db')"
proof (cases "chunk_receipts db' = chunk_receipts db")
  case False
  then have "upload_operation lib db db'" using assms by (auto simp: receipt_step_def)
  then show ?thesis
  proof cases
    case chunk
    show ?thesis using commit_receipts [OF chunk(2)] .
  qed (use False in \<open>auto dest!: createBatch_receipts createFiles_receipts completeBatch_receipts removeFiles_receipts failFile_receipts
      cancelBatch_receipts expire_receipts finalize_job_receipts prepare_receipts\<close>)
qed simp

interpretation receipt_runs: kept_along "receipt_step lib" "\<lambda>db db'. set (chunk_receipts db) \<subseteq> set (chunk_receipts db')" for lib
  by unfold_locales (use receipt_step_grows in blast)+

section \<open>The empty chunk\<close>

definition receipted :: "string \<Rightarrow> int \<Rightarrow> 'z upload_db_scheme \<Rightarrow> bool" where
  "receipted i offset db \<longleftrightarrow> (\<exists>r \<in> set (chunk_receipts db). cr_file r = i \<and> cr_offset r = offset)"

lemma receipted_refused:
  "receipted (ch_file input) (ch_offset input) db \<Longrightarrow> isl (fst (commitChunk lib tm input target chunk db))"
  by (auto simp: receipted_def commitChunk_def Let_def split: option.splits)

lemma commit_receipted:
  assumes "commitChunk lib tm input target chunk db = (Inr n, db')"
  shows "receipted (ch_file input) (ch_offset input) db'" "n = ch_offset input + int (length chunk)"
  using assms by (auto simp: receipted_def commitChunk_def Let_def split: option.splits if_split_asm)

text \<open>C37: an empty chunk that was acknowledged closes its file at that offset: whatever is uploaded, completed, removed,
  cancelled, expired or archived afterwards and however long after, no chunk at that offset of that file is accepted,
  neither one sent then nor one staged before and committed then; its receipt has taken the key, and the offset the client
  was told to go on at is that same offset.\<close>

theorem empty_chunk_blocks_file:
  assumes "appendChunk lib base tm input db = (Inr n, db')" and "ch_length input = 0"
    and "(receipt_step flib)\<^sup>*\<^sup>* db' db''"
    and "ch_file later = ch_file input" and "ch_offset later = ch_offset input"
  shows "ch_offset later = n \<and> isl (fst (appendChunk lib' base' tm' later db'')) \<and> isl (fst (commitChunk lib' tm' later target chunk db''))"
proof -
  obtain path staged where s: "stageChunk lib base tm input db = Inr (path, staged)" and
    run: "commitChunk lib tm input path staged db = (Inr n, db')"
    using assms(1) by (auto simp: appendChunk_def split: sum.splits)
  have "receipted (ch_file input) (ch_offset input) db''"
    using commit_receipted(1) [OF run] receipt_runs.along_run [OF assms(3)] by (auto simp: receipted_def)
  then have "isl (fst (commitChunk lib' tm' later t c db''))" for t c using receipted_refused assms(4,5) by metis
  moreover from this have "isl (fst (appendChunk lib' base' tm' later db''))" by (auto simp: appendChunk_def split: sum.split)
  moreover have "n = ch_offset input" using commit_receipted(2) [OF run] stageChunk_Inr [OF s] assms(2) by simp
  ultimately show ?thesis using assms(5) by simp
qed

lemma sample_empty_chunk:
  "\<exists>db'. appendChunk sample_chunk_lib ''/u'' 20 (chunk_message sample_chunk_lib (sample_file_id 0) 0 []) sample_created = (Inr 0, db')"
  using append_next [OF reached_inv [OF sample_reached sample_lib_laws] sample_staging_ok sample_digest_laws sample_receiving, of "[]"]
  by (auto simp: sample_row_def MAX_CHUNK_BYTES_def)

text \<open>The empty chunk, then the expiry of the staging area, then the bytes of the file.\<close>

lemma empty_chunk_blocks_file_witness:
  "\<exists>db' db''. appendChunk sample_chunk_lib ''/u'' 20 (chunk_message sample_chunk_lib (sample_file_id 0) 0 []) sample_created = (Inr 0, db')
    \<and> db'' = snd (expireUploadStaging 21 db')
    \<and> isl (fst (appendChunk sample_chunk_lib ''/u'' 22 (chunk_message sample_chunk_lib (sample_file_id 0) 0 [1, 2, 3]) db''))"
proof -
  obtain db' where run: "appendChunk sample_chunk_lib ''/u'' 20 (chunk_message sample_chunk_lib (sample_file_id 0) 0 []) sample_created = (Inr 0, db')"
    using sample_empty_chunk by blast
  have "upload_operation sample_lib db' (snd (expireUploadStaging 21 db'))" by (rule upload_operation.expire [OF surjective_pairing])
  then have steps: "(receipt_step sample_lib)\<^sup>*\<^sup>* db' (snd (expireUploadStaging 21 db'))" unfolding receipt_step_def by blast
  from empty_chunk_blocks_file [OF run _ steps, of "chunk_message sample_chunk_lib (sample_file_id 0) 0 [1, 2, 3]"] run
  show ?thesis by (auto simp: chunk_message_def)
qed

end
