(* ===== verification/UploadGrants.thy ===== *)
theory UploadGrants
  imports UploadProps
begin

text \<open>
  Download grants of originals: \<open>original\<close>, \<open>issueOriginalDownloadGrant\<close> and \<open>consumeOriginalDownloadGrant\<close> of
  \<open>src/modules/uploads/service.ts\<close>. The hash of a token is a parameter, and so is the token that is drawn; the
  encryption context of an object is left out.
\<close>

record OriginalFile =
  ol_shop :: string
  ol_path :: code_points
  ol_storage :: string
  ol_size :: int
  ol_reason :: "string option"

definition object_of :: "string \<Rightarrow> 'z upload_db_scheme \<Rightarrow> stored_object_row option" where
  "object_of i db = first_row (\<lambda>s. so_id s = i) (stored_objects db)"

text \<open>The join of a file, its batch and its object.\<close>

definition source_of :: "string \<Rightarrow> 'z upload_db_scheme \<Rightarrow> (upload_file_row \<times> upload_batch_row \<times> stored_object_row) option" where
  "source_of fileId db = (case file_of fileId db of None \<Rightarrow> None
     | Some f \<Rightarrow> (case (batch_of (uf_batch_id f) db, Option.bind (uf_object f) (\<lambda>i. object_of i db)) of
         (Some b, Some s) \<Rightarrow> Some (f, b, s) | _ \<Rightarrow> None))"

definition open_batch :: "upload_batch_row \<Rightarrow> bool" where
  "open_batch b \<longleftrightarrow> ub_status b \<notin> {UB_CANCELLED, UB_EXPIRED}"

definition original :: "string \<Rightarrow> 'z upload_db_scheme \<Rightarrow> OriginalFile result" where
  "original fileId db = (case source_of fileId db of
       Some (f, b, s) \<Rightarrow>
         if uf_status f = UF_STORED \<and> \<not> uf_metadata f \<and> open_batch b
         then Inr \<lparr> ol_shop = ub_shop_id b, ol_path = uf_path f, ol_storage = so_path s, ol_size = so_size s, ol_reason = None \<rparr>
         else Inl (PlainError ''UPLOAD_FILE_NOT_FOUND'')
     | None \<Rightarrow> Inl (PlainError ''UPLOAD_FILE_NOT_FOUND''))"

definition FIVE_MINUTES :: nat where "FIVE_MINUTES = 300000"

definition given_reason :: "string option \<Rightarrow> string option" where
  "given_reason reason = (case map_option trim reason of Some s \<Rightarrow> if s = [] then None else Some s | None \<Rightarrow> None)"

definition issueOriginalDownloadGrant ::
    "(string \<Rightarrow> string) \<Rightarrow> nat \<Rightarrow> string \<Rightarrow> string \<Rightarrow> string \<Rightarrow> string \<Rightarrow> string option \<Rightarrow> 'z upload_db_scheme
     \<Rightarrow> (string \<times> 'z upload_db_scheme) result" where
  "issueOriginalDownloadGrant hash tm token fileId accountId shopId reason db =
     (case source_of fileId db of
        Some (f, b, s) \<Rightarrow>
          if uf_metadata f \<or> \<not> open_batch b then Inl (PlainError ''UPLOAD_FILE_NOT_FOUND'')
          else if \<exists>g \<in> set (original_grants db). og_hash g = hash token
          then Inl (SqlError ''23505'' ''original_download_grant_token_hash_key'')
          else Inr (token, db\<lparr>original_grants := original_grants db @
            [\<lparr> og_object = so_id s, og_account = accountId, og_shop = shopId, og_reason = given_reason reason, og_hash = hash token,
               og_expires_at = tm + FIVE_MINUTES, og_revoked = False \<rparr>]\<rparr>)
      | None \<Rightarrow> Inl (PlainError ''UPLOAD_FILE_NOT_FOUND''))"

definition token_pattern :: "string \<Rightarrow> bool" where
  "token_pattern t \<longleftrightarrow> length t = 43
     \<and> list_all (\<lambda>c. is_digit c \<or> is_upper c \<or> 97 \<le> (of_char c :: nat) \<and> (of_char c :: nat) \<le> 122 \<or> c \<in> {CHR ''_'', CHR ''-''}) t"

definition grant_open :: "(string \<Rightarrow> string) \<Rightarrow> nat \<Rightarrow> string \<Rightarrow> string \<Rightarrow> stored_object_row \<Rightarrow> original_grant_row \<Rightarrow> bool" where
  "grant_open hash tm accountId token s g \<longleftrightarrow> og_hash g = hash token \<and> og_account g = accountId \<and> og_object g = so_id s
     \<and> \<not> og_revoked g \<and> tm < og_expires_at g"

definition token_invalid :: err where
  "token_invalid = AppError ''DOWNLOAD_TOKEN_INVALID'' 400 None"

definition consumeOriginalDownloadGrant ::
    "(string \<Rightarrow> string) \<Rightarrow> nat \<Rightarrow> string \<Rightarrow> string \<Rightarrow> string \<Rightarrow> 'z upload_db_scheme \<Rightarrow> (OriginalFile \<times> 'z upload_db_scheme) result" where
  "consumeOriginalDownloadGrant hash tm fileId accountId token db =
     (if \<not> token_pattern token then Inl token_invalid
      else case source_of fileId db of
        Some (f, b, s) \<Rightarrow>
          if \<not> open_batch b then Inl token_invalid
          else (case first_row (grant_open hash tm accountId token s) (original_grants db) of
            None \<Rightarrow> Inl token_invalid
          | Some g \<Rightarrow> Inr (\<lparr> ol_shop = og_shop g, ol_path = uf_path f, ol_storage = so_path s, ol_size = so_size s, ol_reason = og_reason g \<rparr>,
              db\<lparr>original_grants := update_rows (grant_open hash tm accountId token s) (\<lambda>g. g\<lparr>og_revoked := True\<rparr>) (original_grants db)\<rparr>))
      | None \<Rightarrow> Inl token_invalid)"

section \<open>A grant opens once\<close>

lemma source_of_grants [simp]: "source_of i (db\<lparr>original_grants := gs\<rparr>) = source_of i db"
proof -
  have same: "file_of j (db\<lparr>original_grants := gs\<rparr>) = file_of j db" "batch_of j (db\<lparr>original_grants := gs\<rparr>) = batch_of j db"
    "object_of j (db\<lparr>original_grants := gs\<rparr>) = object_of j db" for j
    by (simp_all add: file_of_def batch_of_def object_of_def)
  show ?thesis unfolding source_of_def same ..
qed

lemma issue_Inr:
  assumes "issueOriginalDownloadGrant hash tm token fileId accountId shopId reason db = Inr (t, db')"
  obtains f b s where "source_of fileId db = Some (f, b, s)" "open_batch b" "\<forall>g \<in> set (original_grants db). og_hash g \<noteq> hash token"
    "db' = db\<lparr>original_grants := original_grants db @ [\<lparr> og_object = so_id s, og_account = accountId, og_shop = shopId,
       og_reason = given_reason reason, og_hash = hash token, og_expires_at = tm + FIVE_MINUTES, og_revoked = False \<rparr>]\<rparr>"
  using assms unfolding issueOriginalDownloadGrant_def by (auto split: option.splits if_split_asm)

lemma spent_stays_spent:
  assumes "\<forall>g \<in> set (original_grants db). og_hash g = hash token \<longrightarrow> og_revoked g"
  shows "consumeOriginalDownloadGrant hash tm fileId accountId token db = Inl token_invalid"
proof -
  have "first_row (grant_open hash tm accountId token s) (original_grants db) = None" for s
    using assms by (auto simp: first_row_None_iff grant_open_def)
  then show ?thesis by (simp add: consumeOriginalDownloadGrant_def split: option.split prod.split)
qed

lemma first_row_last: "\<forall>r \<in> set t. \<not> p r \<Longrightarrow> p x \<Longrightarrow> first_row p (t @ [x]) = Some x"
  by (induction t) auto

text \<open>a grant opens the original it was issued for to its account within five minutes, and then never again: not to
  that account, not to another, for no file and at no time.\<close>

theorem original_grant_opens_once:
  assumes "issueOriginalDownloadGrant hash tm token fileId accountId shopId reason db = Inr (t, db1)"
    and "token_pattern token" and "tm' < tm + FIVE_MINUTES"
  shows "\<exists>answer db2. consumeOriginalDownloadGrant hash tm' fileId accountId token db1 = Inr (answer, db2)
    \<and> ol_shop answer = shopId \<and> ol_reason answer = given_reason reason
    \<and> (\<forall>a. a \<noteq> accountId \<longrightarrow> consumeOriginalDownloadGrant hash tm' fileId a token db1 = Inl token_invalid)
    \<and> (\<forall>tm2 i a. consumeOriginalDownloadGrant hash tm2 i a token db2 = Inl token_invalid)"
proof -
  obtain f b s where src: "source_of fileId db = Some (f, b, s)" "open_batch b" and fresh: "\<forall>g \<in> set (original_grants db). og_hash g \<noteq> hash token"
    and db1: "db1 = db\<lparr>original_grants := original_grants db @ [\<lparr> og_object = so_id s, og_account = accountId, og_shop = shopId,
       og_reason = given_reason reason, og_hash = hash token, og_expires_at = tm + FIVE_MINUTES, og_revoked = False \<rparr>]\<rparr>"
    using issue_Inr [OF assms(1)] .
  let ?g = "\<lparr> og_object = so_id s, og_account = accountId, og_shop = shopId, og_reason = given_reason reason, og_hash = hash token,
    og_expires_at = tm + FIVE_MINUTES, og_revoked = False \<rparr>"
  let ?db2 = "db1\<lparr>original_grants := update_rows (grant_open hash tm' accountId token s) (\<lambda>g. g\<lparr>og_revoked := True\<rparr>) (original_grants db1)\<rparr>"
  have others: "\<forall>g \<in> set (original_grants db). \<not> grant_open hash tm' a token s g" for a using fresh by (simp add: grant_open_def)
  have own: "grant_open hash tm' accountId token s ?g" using assms(3) by (simp add: grant_open_def)
  have "first_row (grant_open hash tm' accountId token s) (original_grants db1) = Some ?g"
    using first_row_last [of "original_grants db" "grant_open hash tm' accountId token s", OF others own] by (simp add: db1)
  then have run: "\<exists>answer. consumeOriginalDownloadGrant hash tm' fileId accountId token db1 = Inr (answer, ?db2)
      \<and> ol_shop answer = shopId \<and> ol_reason answer = given_reason reason"
    using src assms(2) by (simp add: consumeOriginalDownloadGrant_def db1)
  have "consumeOriginalDownloadGrant hash tm' fileId a token db1 = Inl token_invalid" if "a \<noteq> accountId" for a
  proof -
    have "first_row (grant_open hash tm' a token s) (original_grants db1) = None"
      using others [of a] that unfolding first_row_None_iff by (auto simp: db1 grant_open_def)
    then show ?thesis using src by (simp add: consumeOriginalDownloadGrant_def db1)
  qed
  moreover have "\<forall>g \<in> set (original_grants ?db2). og_hash g = hash token \<longrightarrow> og_revoked g"
    using fresh own by (auto simp: db1 in_update_rows)
  then have "consumeOriginalDownloadGrant hash tm2 i a token ?db2 = Inl token_invalid" for tm2 i a by (rule spent_stays_spent)
  ultimately show ?thesis using run by blast
qed

definition sample_stored :: upload_db where
  "sample_stored = sample_uploads\<lparr>upload_batches := [sample_batch],
     upload_files := [(sample_row 0 ''a.csv'' 3)\<lparr>uf_status := UF_STORED, uf_object := Some ''object''\<rparr>],
     stored_objects := [\<lparr> so_id = ''object'', so_shop_id = ''shop'', so_size = 3, so_sha = ''sha'', so_path = ''path'' \<rparr>]\<rparr>"

lemma original_grant_opens_once_witness:
  "\<exists>answer db2. consumeOriginalDownloadGrant id 9 (sample_file_id 0) ''acc'' (replicate 43 CHR ''A'')
     (snd (projr (issueOriginalDownloadGrant id 5 (replicate 43 CHR ''A'') (sample_file_id 0) ''acc'' ''shop'' None sample_stored)))
     = Inr (answer, db2) \<and> ol_shop answer = ''shop''"
proof -
  let ?token = "replicate 43 CHR ''A''"
  obtain db1 where run: "issueOriginalDownloadGrant id 5 ?token (sample_file_id 0) ''acc'' ''shop'' None sample_stored = Inr (?token, db1)"
    by (simp add: issueOriginalDownloadGrant_def source_of_def file_of_def batch_of_def object_of_def open_batch_def sample_stored_def
      sample_batch_def sample_row_def sample_uploads_def)
  have "token_pattern ?token" by (simp add: token_pattern_def is_upper_def list_all_iff)
  from original_grant_opens_once [OF run this, of 9] show ?thesis by (auto simp: run FIVE_MINUTES_def)
qed

end
