(* ===== verification/ArchiveProps.thy ===== *)
theory ArchiveProps
  imports Archive
begin

text \<open>
  Properties of archives: what a validated archive promises, what an extraction delivers even if the archive
  changed in between, and where the two recognitions of a ZIP file differ.
\<close>

section \<open>Paths\<close>

text \<open>A path below the root: segments that are neither empty nor dots and not too long, and perhaps a slash at the end.\<close>

definition below_root :: "ZipLimits \<Rightarrow> code_points \<Rightarrow> bool" where
  "below_root limits path \<longleftrightarrow> (\<exists>ps slash. path = join_points 47 ps @ slash \<and> ps \<noteq> [] \<and> slash \<in> {[], [47]}
     \<and> (\<forall>p \<in> set ps. p \<noteq> [] \<and> 47 \<notin> set p \<and> p \<noteq> [46] \<and> p \<noteq> [46, 46] \<and> byte_length p \<le> zl_maxSegmentBytes limits))"

lemma split_points_parts: "p \<in> set (split_points sep v) \<Longrightarrow> sep \<notin> set p"
proof (induction v arbitrary: p)
  case (Cons c v)
  then show ?case by (cases "split_points sep v") (auto split: if_split_asm)
qed simp

lemma normalize_plain:
  "\<forall>p \<in> set ps. p \<noteq> [46, 46] \<and> p \<noteq> [46] \<Longrightarrow> normalize_segments st ps = rev st @ filter (\<lambda>p. p \<noteq> []) ps"
  by (induction ps arbitrary: st) auto

lemma join_points_Nil: "\<forall>p \<in> set ps. p \<noteq> [] \<Longrightarrow> join_points sep ps = [] \<longleftrightarrow> ps = []"
  by (induction sep ps rule: join_points.induct) auto

text \<open>The bytes of a path are those of its segments and one for each slash; dropping empty segments makes it no longer.\<close>

lemma byte_length_simps [simp]: "byte_length [] = 0" "byte_length (c # v) = utf8_size c + byte_length v"
    "byte_length (v @ w) = byte_length v + byte_length w"
  by (simp_all add: byte_length_def)

lemma split_points_bytes: "byte_length v + 1 = sum_list (map byte_length (split_points 47 v)) + length (split_points 47 v)"
proof (induction v)
  case (Cons c v)
  then show ?case by (cases "split_points 47 v") (auto simp: utf8_size_def)
qed simp

lemma join_points_bytes: "ps \<noteq> [] \<Longrightarrow> byte_length (join_points 47 ps) + 1 = sum_list (map byte_length ps) + length ps"
proof (induction ps rule: list_nonempty_induct)
  case (cons p ps)
  then show ?case by (cases ps) (auto simp: utf8_size_def)
qed simp

lemma filter_nonempty_bytes: "sum_list (map byte_length (filter (\<lambda>p. p \<noteq> []) ps)) = sum_list (map byte_length ps)"
  by (induction ps) auto

lemma split_points_slash: "v \<noteq> [] \<Longrightarrow> last v = 47 \<Longrightarrow> tl (split_points 47 v) \<noteq> [] \<and> last (split_points 47 v) = []"
proof (induction v)
  case (Cons c v)
  then show ?case by (cases "v = []"; cases "split_points 47 v") (auto split: if_split_asm)
qed simp

lemma normalized_bytes:
  assumes "filter (\<lambda>p. p \<noteq> []) (split_points 47 v) \<noteq> []"
  shows "byte_length (join_points 47 (filter (\<lambda>p. p \<noteq> []) (split_points 47 v)) @ (if v \<noteq> [] \<and> last v = 47 then [47] else [])) \<le> byte_length v"
proof -
  let ?ps = "split_points 47 v"
  have "length (filter (\<lambda>p. p \<noteq> []) ?ps) < length ?ps" if "v \<noteq> [] \<and> last v = 47"
  proof (rule length_filter_less [of "[]"])
    show "[] \<in> set ?ps" using split_points_slash [of v] that by (metis last_in_set list.sel(2))
  qed simp
  then have fewer: "length (filter (\<lambda>p. p \<noteq> []) ?ps) + (if v \<noteq> [] \<and> last v = 47 then 1 else 0) \<le> length ?ps"
    using length_filter_le [of "\<lambda>p. p \<noteq> []" ?ps] by (simp add: Suc_le_eq del: length_filter_le)
  have "byte_length (if v \<noteq> [] \<and> last v = 47 then [47] else []) = (if v \<noteq> [] \<and> last v = 47 then 1 else 0)" by (simp add: utf8_size_def)
  then show ?thesis
    using fewer split_points_bytes [of v] join_points_bytes [OF assms] filter_nonempty_bytes [of ?ps] unfolding byte_length_simps by linarith
qed

lemma backslash_bytes: "byte_length (map (\<lambda>c. if c = 92 then 47 else c) v) = byte_length v"
  by (induction v) (auto simp: utf8_size_def)

text \<open>An accepted path is the join of its segments, and no longer than what it was read from.\<close>

lemma validatePath_below_root:
  assumes "validatePath limits path = Inr clean"
  shows "below_root limits clean" "byte_length path \<le> zl_maxPathBytes limits" "byte_length clean \<le> byte_length path"
proof -
  let ?n = "map (\<lambda>c. if c = 92 then 47 else c) path"
  let ?ps = "filter (\<lambda>p. p \<noteq> []) (split_points 47 ?n)"
  have ps: "?ps \<noteq> []" "\<not> list_ex (\<lambda>p. p = [46] \<or> p = [46, 46] \<or> zl_maxSegmentBytes limits < byte_length p) ?ps"
    and clean: "clean = posix_normalize ?n" and bytes: "byte_length ?n \<le> zl_maxPathBytes limits"
    using assms unfolding validatePath_def Let_def by (simp_all split: if_split_asm)
  have "\<forall>p \<in> set (split_points 47 ?n). p \<noteq> [46, 46] \<and> p \<noteq> [46]" using ps(2) by (auto simp: list_ex_iff)
  from normalize_plain [OF this, of "[]"] have segments: "normalize_segments [] (split_points 47 ?n) = ?ps" by simp
  have good: "\<forall>p \<in> set ?ps. p \<noteq> [] \<and> 47 \<notin> set p \<and> p \<noteq> [46] \<and> p \<noteq> [46, 46] \<and> byte_length p \<le> zl_maxSegmentBytes limits"
    using ps(2) split_points_parts [of _ 47 ?n] by (auto simp: list_ex_iff not_less)
  then have "join_points 47 ?ps \<noteq> []" using join_points_Nil [of ?ps 47] ps(1) by simp
  then have joined: "clean = join_points 47 ?ps @ (if ?n \<noteq> [] \<and> last ?n = 47 then [47] else [])"
    unfolding clean posix_normalize_def segments Let_def by simp
  with good ps(1) show "below_root limits clean" unfolding below_root_def
    by (intro exI [of _ ?ps] exI [of _ "if ?n \<noteq> [] \<and> last ?n = 47 then [47] else []"]) simp
  show "byte_length path \<le> zl_maxPathBytes limits" using bytes by (simp only: backslash_bytes)
  show "byte_length clean \<le> byte_length path" using normalized_bytes [OF ps(1)] unfolding joined backslash_bytes .
qed

section \<open>Validated archives\<close>

text \<open>What the report of one entry promises of it: an accepted path of its name, declared sizes within the limit of an entry
  and the ratio, no special file, and, of a file, its true size and a beginning and a name of neither archive nor PDF.\<close>

definition entry_promised :: "ZipLimits \<Rightarrow> zip_entry \<Rightarrow> ZipEntryReport \<Rightarrow> bool" where
  "entry_promised limits e r \<longleftrightarrow>
     below_root limits (zr_path r) \<and> byte_length (ze_name e) \<le> zl_maxPathBytes limits \<and> byte_length (zr_path r) \<le> zl_maxPathBytes limits
     \<and> zr_compressed r = ze_compressed e \<and> ze_uncompressed e \<le> zl_maxEntryBytes limits
     \<and> ze_uncompressed e \<le> ze_compressed e * zl_maxRatio limits
     \<and> \<not> special_file e \<and> zr_directory r = directory_entry e
     \<and> (if zr_directory r then zr_expanded r = 0
        else zr_expanded r = int (length (ze_content e)) \<and> zr_expanded r \<le> zl_maxEntryBytes limits
          \<and> \<not> ends_with_any archive_suffixes (zr_path r) \<and> \<not> ends_with_any [points ''.pdf''] (zr_path r)
          \<and> \<not> hasZipMagic (take PDF_HEADER_PROBE_BYTES (ze_content e))
          \<and> \<not> hasPdfHeaderInLeadingBytes (take PDF_HEADER_PROBE_BYTES (ze_content e)) \<and> ze_ends e)"

text \<open>What the reports gathered of the entries read so far promise.\<close>

definition promises :: "archive_text \<Rightarrow> ZipLimits \<Rightarrow> zip_entry list \<Rightarrow> ZipEntryReport list \<Rightarrow> bool" where
  "promises u limits entries reports \<longleftrightarrow> list_all2 (entry_promised limits) entries reports
     \<and> int (length reports) \<le> max 0 (zl_maxEntries limits)
     \<and> distinct (map (\<lambda>r. at_lower u (at_nfc u (zr_path r))) reports)
     \<and> sum_list (map zr_expanded reports) \<le> max 0 (zl_maxExpandedBytes limits)"

lemma validate_entry_Inr:
  assumes "validate_entry u limits reports names expandedTotal e = Inr (r, key)"
  shows "int (length reports) < zl_maxEntries limits" "key = at_lower u (at_nfc u (zr_path r))" "key \<notin> names"
    "expandedTotal + zr_expanded r \<le> zl_maxExpandedBytes limits" "entry_promised limits e r"
    "\<not> zr_directory r \<Longrightarrow> readEntry limits e = Inr (zr_expanded r)"
proof -
  obtain name where name: "validatePath limits (ze_name e) = Inr name"
    using assms by (auto simp: validate_entry_def bindE_Inr_iff split: if_split_asm)
  obtain n where n: "(if directory_entry e then Inr 0 else readEntry limits e) = Inr n" "expandedTotal + n \<le> zl_maxExpandedBytes limits"
    and r: "r = \<lparr> zr_path = name, zr_compressed = ze_compressed e, zr_expanded = n, zr_directory = directory_entry e \<rparr>"
    and rest: "int (length reports) < zl_maxEntries limits" "key = at_lower u (at_nfc u name)" "key \<notin> names"
      "\<not> directory_entry e \<Longrightarrow> \<not> ends_with_any archive_suffixes name \<and> \<not> ends_with_any [points ''.pdf''] name"
      "\<not> special_file e" "\<not> size_refused limits e"
    using assms unfolding validate_entry_def name Let_def by (auto simp: bindE_Inr_iff split: if_split_asm)
  show "int (length reports) < zl_maxEntries limits" "key = at_lower u (at_nfc u (zr_path r))" "key \<notin> names"
    "expandedTotal + zr_expanded r \<le> zl_maxExpandedBytes limits" "\<not> zr_directory r \<Longrightarrow> readEntry limits e = Inr (zr_expanded r)"
    using n rest by (simp_all add: r)
  have "ze_uncompressed e \<le> zl_maxEntryBytes limits" "ze_uncompressed e \<le> ze_compressed e * zl_maxRatio limits"
    using rest(6) by (simp_all add: size_refused_def split: if_split_asm)
  then show "entry_promised limits e r"
    using n(1) rest(4,5) validatePath_below_root [OF name]
    by (auto simp: entry_promised_def r readEntry_def Let_def split: if_split_asm)
qed

lemma validate_entries_promises:
  assumes "validate_entries u limits ends reports names (sum_list (map zr_expanded reports)) es = Inr out"
    and "promises u limits before reports" and "names = (\<lambda>r. at_lower u (at_nfc u (zr_path r))) ` set reports"
  shows "promises u limits (before @ es) out \<and> ends"
  using assms
proof (induction es arbitrary: before reports names)
  case (Cons e es)
  obtain r key where step: "validate_entry u limits reports names (sum_list (map zr_expanded reports)) e = Inr (r, key)"
    and rest: "validate_entries u limits ends (reports @ [r]) (insert key names) (sum_list (map zr_expanded reports) + zr_expanded r) es = Inr out"
    using Cons.prems(1) by (auto simp: bindE_Inr_iff)
  note entry = validate_entry_Inr [OF step]
  have "promises u limits (before @ [e]) (reports @ [r])"
    using Cons.prems(2,3) entry by (auto simp: promises_def list_all2_appendI)
  with Cons.IH [of "reports @ [r]" "insert key names" "before @ [e]"] rest Cons.prems(3) entry(2) show ?case by simp
qed (simp split: if_split_asm)

lemma validateZip_promises:
  "validateZip reader u limits archive = Inr reports \<Longrightarrow> \<exists>entries. reader archive = Some (entries, True) \<and> promises u limits entries reports"
  using validate_entries_promises [of u limits _ "[]" "{}"] by (fastforce simp: validateZip_def promises_def split: option.splits prod.splits)

section \<open>The second reading\<close>

text \<open>What an extracted entry is, whichever archive it came from.\<close>

definition delivers :: "ZipLimits \<Rightarrow> string \<Rightarrow> ZipEntryReport list \<Rightarrow> ExtractedZipEntry \<Rightarrow> bool" where
  "delivers limits base reports x \<longleftrightarrow> xe_report x \<in> set reports \<and> \<not> zr_directory (xe_report x)
     \<and> int (length (xe_content x)) = zr_expanded (xe_report x) \<and> int (length (xe_content x)) \<le> zl_maxEntryBytes limits
     \<and> \<not> hasZipMagic (take PDF_HEADER_PROBE_BYTES (xe_content x)) \<and> \<not> hasPdfHeaderInLeadingBytes (take PDF_HEADER_PROBE_BYTES (xe_content x))
     \<and> starts_with (base @ ''/'') (xe_destination x)"

lemma expected_reportD: "expected_report reports path = Some r \<Longrightarrow> r \<in> set reports \<and> \<not> zr_directory r \<and> zr_path r = path"
  unfolding expected_report_def by (auto dest!: find_SomeD)

lemma extract_entry_delivers:
  assumes "extract_entry limits base destination permitted reports written e = Inr (Some x)"
  shows "delivers limits base reports x" "written + int (length (xe_content x)) \<le> zl_maxExpandedBytes limits"
proof -
  obtain path r where r: "expected_report reports path = Some r" "starts_with (base @ ''/'') (destination path)"
    and copy: "copyEntry limits written e = Inr ()" "int (length (ze_content e)) = zr_expanded r"
    and x: "x = \<lparr> xe_report = r, xe_destination = destination path, xe_content = ze_content e \<rparr>"
    using assms by (auto simp: extract_entry_def bindE_Inr_iff split: if_split_asm option.splits)
  have "r \<in> set reports" "\<not> zr_directory r" using expected_reportD [OF r(1)] by simp_all
  then show "delivers limits base reports x" "written + int (length (xe_content x)) \<le> zl_maxExpandedBytes limits"
    using r(2) copy by (simp_all add: delivers_def x copyEntry_def Let_def split: if_split_asm)
qed

lemma extract_entries_deliver:
  "extract_entries limits base destination permitted reports ends written es = Inr xs \<Longrightarrow> written \<le> max 0 (zl_maxExpandedBytes limits) \<Longrightarrow>
    list_all (delivers limits base reports) xs \<and> written + sum_list (map (\<lambda>x. int (length (xe_content x))) xs) \<le> max 0 (zl_maxExpandedBytes limits)"
proof (induction es arbitrary: written xs)
  case (Cons e es)
  obtain o' where step: "extract_entry limits base destination permitted reports written e = Inr o'"
    using Cons.prems(1) by (auto simp: bindE_Inr_iff)
  show ?case
  proof (cases o')
    case None
    then show ?thesis using Cons step by simp
  next
    case (Some y)
    then obtain ys where ys: "extract_entries limits base destination permitted reports ends (written + int (length (xe_content y))) es = Inr ys" "xs = y # ys"
      using Cons.prems(1) step by (auto simp: bindE_Inr_iff)
    note entry = extract_entry_delivers [OF step [unfolded Some]]
    show ?thesis using Cons.IH [OF ys(1)] entry by (simp add: ys(2) add.assoc)
  qed
qed (simp split: if_split_asm)

text \<open>The archive that was validated, read again: every entry of a file passes.\<close>

lemma readEntry_copies:
  assumes "readEntry limits e = Inr n" and "written + n \<le> zl_maxExpandedBytes limits"
  shows "copyEntry limits written e = Inr ()" "int (length (ze_content e)) = n"
  using assms by (auto simp: readEntry_def copyEntry_def Let_def split: if_split_asm)

lemma extract_validated:
  assumes "validate_entries u limits ends reports names written es = Inr out"
    and "\<And>r. r \<in> set out \<Longrightarrow> \<not> zr_directory r \<Longrightarrow> expected_report expected (zr_path r) = Some r"
    and "\<And>p. starts_with (base @ ''/'') (destination p)" and "\<And>n. permitted n = Inr ()"
  shows "\<exists>xs new. extract_entries limits base destination permitted expected ends written es = Inr xs \<and> out = reports @ new
    \<and> map xe_report xs = filter (\<lambda>r. \<not> zr_directory r) new"
  using assms
proof (induction es arbitrary: reports names written)
  case (Cons e es)
  obtain r key where step: "validate_entry u limits reports names written e = Inr (r, key)"
    and rest: "validate_entries u limits ends (reports @ [r]) (insert key names) (written + zr_expanded r) es = Inr out"
    using Cons.prems(1) by (auto simp: bindE_Inr_iff)
  note entry = validate_entry_Inr [OF step]
  have path: "validatePath limits (ze_name e) = Inr (zr_path r)" "directory_entry e = zr_directory r" "directory_entry e \<Longrightarrow> zr_expanded r = 0"
    using step unfolding validate_entry_def Let_def by (auto simp: bindE_Inr_iff split: if_split_asm)
  from Cons.IH [OF rest Cons.prems(2-4)] obtain xs new where
    xs: "extract_entries limits base destination permitted expected ends (written + zr_expanded r) es = Inr xs" "out = (reports @ [r]) @ new"
      "map xe_report xs = filter (\<lambda>r. \<not> zr_directory r) new" by blast
  show ?case
  proof (cases "zr_directory r")
    case True
    then have "extract_entry limits base destination permitted expected written e = Inr None" by (simp add: extract_entry_def path)
    then show ?thesis using xs path(2,3) True by (intro exI [of _ xs] exI [of _ "r # new"]) simp
  next
    case False
    note copies = readEntry_copies [OF entry(6) [OF False] entry(4)]
    have "extract_entry limits base destination permitted expected written e
        = Inr (Some \<lparr> xe_report = r, xe_destination = destination (zr_path r), xe_content = ze_content e \<rparr>)"
      using Cons.prems(2) [of r] xs(2) False by (simp add: extract_entry_def path(1,2) Cons.prems(3,4) copies)
    then show ?thesis using xs False copies(2)
      by (intro exI [of _ "\<lparr> xe_report = r, xe_destination = destination (zr_path r), xe_content = ze_content e \<rparr> # xs"] exI [of _ "r # new"]) simp
  qed
qed (simp split: if_split_asm)

lemma expected_report_own:
  assumes "distinct (map zr_path reports)" and "r \<in> set reports" and "\<not> zr_directory r"
  shows "expected_report reports (zr_path r) = Some r"
proof -
  let ?rs = "rev (filter (\<lambda>r. \<not> zr_directory r) reports)"
  have "\<exists>s. find (\<lambda>s. zr_path s = zr_path r) ?rs = Some s" using assms(2,3) by (cases "find (\<lambda>s. zr_path s = zr_path r) ?rs") (auto simp: find_None_iff)
  then obtain s where s: "expected_report reports (zr_path r) = Some s" by (auto simp: expected_report_def)
  then have "s \<in> set reports" "zr_path s = zr_path r" using expected_reportD by blast+
  then have "s = r" using assms(1,2) by (metis distinct_map inj_onD)
  with s show ?thesis by simp
qed

section \<open>Properties of archives\<close>


text \<open>C35: what an extraction delivers satisfies the reports whatever became of the archive between its two readings: only
  reported files, of the reported sizes, none of them starting like an archive or a PDF, below the destination, and
  together within the limit.\<close>

theorem extraction_delivers_reports:
  assumes "extractValidatedZip reader limits base destination permitted reports archive = Inr xs"
  shows "list_all (delivers limits base reports) xs \<and> sum_list (map (\<lambda>x. int (length (xe_content x))) xs) \<le> max 0 (zl_maxExpandedBytes limits)"
  using assms extract_entries_deliver [of limits base destination permitted reports _ 0]
  by (auto simp: extractValidatedZip_def split: option.splits prod.splits)

text \<open>an archive that passed validation and did not change is unpacked completely: the extraction succeeds with one
  entry for each reported file, in the order of the reports, when every destination is below the root and there is room.\<close>

theorem unchanged_archive_unpacks:
  assumes "validateZip reader u limits archive = Inr reports"
    and "\<And>p. starts_with (base @ ''/'') (destination p)" and "\<And>n. permitted n = Inr ()"
  shows "\<exists>xs. extractValidatedZip reader limits base destination permitted reports archive = Inr xs
    \<and> map xe_report xs = filter (\<lambda>r. \<not> zr_directory r) reports"
proof -
  obtain es ends where es: "reader archive = Some (es, ends)" "validate_entries u limits ends [] {} 0 es = Inr reports"
    using assms(1) by (auto simp: validateZip_def split: option.splits)
  have "distinct (map (\<lambda>r. at_lower u (at_nfc u (zr_path r))) reports)"
    using validateZip_promises [OF assms(1)] by (auto simp: promises_def)
  then have paths: "distinct (map zr_path reports)" unfolding distinct_map inj_on_def by metis
  have own: "r \<in> set reports \<Longrightarrow> \<not> zr_directory r \<Longrightarrow> expected_report reports (zr_path r) = Some r" for r
    using expected_report_own [OF paths] .
  from extract_validated [OF es(2) own assms(2,3)] show ?thesis by (simp add: extractValidatedZip_def es(1))
qed

text \<open>the two recognitions of an archive differ: an entry that starts with PK, 3 and any byte but 4 is taken for an
  ordinary file when its archive is read, and for an archive when it is stored.\<close>

theorem hidden_archive_accepted:
  assumes "ze_content e = [0x50, 0x4B, 0x03, b] @ rest" and "b \<noteq> 0x04" and "ze_ends e"
    and "\<not> hasPdfHeaderInLeadingBytes (take PDF_HEADER_PROBE_BYTES (ze_content e))"
    and "int (length (ze_content e)) \<le> zl_maxEntryBytes limits" and "\<not> isOoxmlSpreadsheetContainer reader u (ze_content e)"
  shows "readEntry limits e = Inr (int (length (ze_content e))) \<and> detectFileKind reader u (ze_content e) = K_ZIP"
proof -
  have "take PDF_HEADER_PROBE_BYTES (ze_content e) = [0x50, 0x4B, 0x03, b] @ take 1025 rest"
    by (simp add: assms(1) PDF_HEADER_PROBE_BYTES_def PDF_HEADER_MAX_LEADING_BYTES_def)
  then have "\<not> hasZipMagic (take PDF_HEADER_PROBE_BYTES (ze_content e))" using assms(2) by (simp add: hasZipMagic_def)
  then have "readEntry limits e = Inr (int (length (ze_content e)))" using assms(3-5) by (simp add: readEntry_def Let_def)
  moreover have "detectFileKind reader u (ze_content e) = K_ZIP"
    using assms(6) by (simp add: detectFileKind_def Let_def assms(1))
  ultimately show ?thesis ..
qed

section \<open>Samples\<close>

definition sample_entry :: "string \<Rightarrow> bytes \<Rightarrow> zip_entry" where
  "sample_entry name content = \<lparr> ze_name = points name, ze_attributes = 0, ze_compressed = int (length content),
     ze_uncompressed = int (length content), ze_content = content, ze_ends = True \<rparr>"

definition sample_reader :: zip_reader where
  "sample_reader b = Some ([\<lparr> ze_name = points ''d/'', ze_attributes = 0, ze_compressed = 0, ze_uncompressed = 0, ze_content = [], ze_ends = True \<rparr>,
     sample_entry ''d/a.csv'' [65, 44, 66], sample_entry ''b.csv'' [67]], True)"

definition sample_text :: archive_text where
  "sample_text = \<lparr> at_nfc = id, at_lower = ascii_lower \<rparr>"

definition sample_reports :: "ZipEntryReport list" where
  "sample_reports = [\<lparr> zr_path = points ''d/'', zr_compressed = 0, zr_expanded = 0, zr_directory = True \<rparr>,
     \<lparr> zr_path = points ''d/a.csv'', zr_compressed = 3, zr_expanded = 3, zr_directory = False \<rparr>,
     \<lparr> zr_path = points ''b.csv'', zr_compressed = 1, zr_expanded = 1, zr_directory = False \<rparr>]"

lemma sample_validated: "validateZip sample_reader sample_text defaultZipLimits [] = Inr sample_reports"
  by code_simp


lemma unchanged_archive_unpacks_witness:
  "\<exists>xs. extractValidatedZip sample_reader defaultZipLimits ''/x'' (\<lambda>p. ''/x/y'') (\<lambda>_. Inr ()) sample_reports [] = Inr xs
    \<and> map xe_report xs = filter (\<lambda>r. \<not> zr_directory r) sample_reports"
  using unchanged_archive_unpacks [OF sample_validated, of "''/x''" "\<lambda>p. ''/x/y''" "\<lambda>_. Inr ()"] by simp

lemma extraction_delivers_reports_witness:
  "\<exists>xs. extractValidatedZip sample_reader defaultZipLimits ''/x'' (\<lambda>p. ''/x/y'') (\<lambda>_. Inr ()) sample_reports [] = Inr xs
    \<and> xs \<noteq> [] \<and> list_all (delivers defaultZipLimits ''/x'' sample_reports) xs"
proof -
  let ?out = "extractValidatedZip sample_reader defaultZipLimits ''/x'' (\<lambda>p. ''/x/y'') (\<lambda>_. Inr ()) sample_reports []"
  have "case ?out of Inl _ \<Rightarrow> False | Inr xs \<Rightarrow> xs \<noteq> []" by code_simp
  then obtain xs where xs: "?out = Inr xs" "xs \<noteq> []" by (cases ?out) auto
  with extraction_delivers_reports [OF xs(1)] show ?thesis by blast
qed

lemma hidden_archive_accepted_witness:
  "readEntry defaultZipLimits (sample_entry ''x.csv'' [0x50, 0x4B, 0x03, 0x00]) = Inr 4
   \<and> detectFileKind (\<lambda>_. None) sample_text [0x50, 0x4B, 0x03, 0x00] = K_ZIP"
  using hidden_archive_accepted [of "sample_entry ''x.csv'' [0x50, 0x4B, 0x03, 0x00]" 0 "[]" defaultZipLimits "\<lambda>_. None" sample_text]
  by (simp add: sample_entry_def defaultZipLimits_def isOoxmlSpreadsheetContainer_def hasPdfHeaderInLeadingBytes_def PDF_HEADER_PROBE_BYTES_def
    PDF_HEADER_MAX_LEADING_BYTES_def PDF_HEADER_def)

end
