(* ===== verification/Dispatch.thy ===== *)
theory Dispatch
  imports Store
begin

text \<open>
  The outbox: \<open>src/worker/outbox-dispatcher.ts\<close>. A dispatch claims the oldest pending events, sends them to the job
  queue by topic and marks them; a scheduler runs dispatches one after another while there is work. The queue (pg-boss)
  is a parameter.
\<close>

section \<open>One dispatch\<close>

record event_row =
  ev_id :: string
  ev_topic :: string
  ev_payload :: json_object
  ev_dispatched :: bool
  ev_attempts :: nat
  ev_error :: "string option"

text \<open>A job as it is given to the queue; the options are the same for every job.\<close>

record queue_job =
  qj_singleton :: string
  qj_data :: json_object

text \<open>\<open>boss_insert\<close> sends the jobs of one topic or throws, \<open>boss_jobs\<close> is what the queue holds of a topic.\<close>

record 'q boss =
  boss_insert :: "string \<Rightarrow> queue_job list \<Rightarrow> 'q \<Rightarrow> 'q result"
  boss_jobs :: "'q \<Rightarrow> string \<Rightarrow> queue_job list"

definition job_of :: "event_row \<Rightarrow> queue_job" where
  "job_of e = \<lparr> qj_singleton = ev_id e, qj_data = ev_payload e \<rparr>"

text \<open>The events by topic, a topic where its first event is.\<close>

fun add_event :: "event_row \<Rightarrow> (string \<times> event_row list) list \<Rightarrow> (string \<times> event_row list) list" where
  "add_event e [] = [(ev_topic e, [e])]"
| "add_event e ((t, es) # gs) = (if t = ev_topic e then (t, es @ [e]) # gs else (t, es) # add_event e gs)"

definition by_topic :: "event_row list \<Rightarrow> (string \<times> event_row list) list" where
  "by_topic es = fold add_event es []"

fun insert_groups :: "'q boss \<Rightarrow> (string \<times> event_row list) list \<Rightarrow> 'q \<Rightarrow> unit result \<times> 'q" where
  "insert_groups b [] q = (Inr (), q)"
| "insert_groups b ((t, es) # gs) q =
     (case boss_insert b t (map job_of es) q of Inl e \<Rightarrow> (Inl e, q) | Inr q' \<Rightarrow> insert_groups b gs q')"

text \<open>\<open>FOR UPDATE SKIP LOCKED LIMIT\<close>; \<open>held\<close> tells which rows another dispatcher has locked.\<close>

definition claim :: "(string \<Rightarrow> bool) \<Rightarrow> nat \<Rightarrow> event_row list \<Rightarrow> event_row list" where
  "claim held limit evs = take limit (filter (\<lambda>e. \<not> ev_dispatched e \<and> \<not> held (ev_id e)) evs)"

definition mark_dispatched :: "string list \<Rightarrow> event_row list \<Rightarrow> event_row list" where
  "mark_dispatched ids = update_rows (\<lambda>e. ev_id e \<in> set ids)
     (\<lambda>e. e\<lparr>ev_dispatched := True, ev_attempts := ev_attempts e + 1, ev_error := None\<rparr>)"

definition mark_failed :: "string list \<Rightarrow> event_row list \<Rightarrow> event_row list" where
  "mark_failed ids = update_rows (\<lambda>e. ev_id e \<in> set ids \<and> \<not> ev_dispatched e)
     (\<lambda>e. e\<lparr>ev_attempts := ev_attempts e + 1, ev_error := Some ''OUTBOX_DISPATCH_FAILED''\<rparr>)"

text \<open>
  The queue keeps what it was given when the transaction of the outbox is rolled back. \<open>marked\<close> is what becomes of
  the update that marks the events and of the commit, \<open>noted\<close> tells whether the update that notes a failure, whose own
  failure is ignored, gets through.
\<close>

definition note_failure :: "bool \<Rightarrow> string list \<Rightarrow> event_row list \<Rightarrow> event_row list" where
  "note_failure noted ids evs = (if noted then mark_failed ids evs else evs)"

definition dispatchOutbox ::
    "'q boss \<Rightarrow> unit result \<Rightarrow> bool \<Rightarrow> (string \<Rightarrow> bool) \<Rightarrow> nat \<Rightarrow> event_row list \<times> 'q \<Rightarrow> nat result \<times> event_row list \<times> 'q" where
  "dispatchOutbox b marked noted held limit s =
     (let claimed = claim held limit (fst s); ids = map ev_id claimed in
      case insert_groups b (by_topic claimed) (snd s) of
        (Inl e, q) \<Rightarrow> (Inl e, note_failure noted ids (fst s), q)
      | (Inr _, q) \<Rightarrow> (case marked of
          Inl e \<Rightarrow> (Inl e, note_failure noted ids (fst s), q)
        | Inr _ \<Rightarrow> (Inr (length claimed), mark_dispatched ids (fst s), q)))"

section \<open>The scheduler\<close>

record scheduler =
  sc_requested :: bool
  sc_running :: bool
  sc_stopped :: bool
  sc_begun :: nat

text \<open>\<open>sc_begun\<close> counts the dispatches that have begun.\<close>

definition begin_run :: "scheduler \<Rightarrow> scheduler" where
  "begin_run s = s\<lparr>sc_begun := sc_begun s + 1\<rparr>"

definition start_dispatch :: "scheduler \<Rightarrow> scheduler" where
  "start_dispatch s = (if sc_running s \<or> sc_stopped s then s else begin_run (s\<lparr>sc_running := True, sc_requested := False\<rparr>))"

definition wake :: "scheduler \<Rightarrow> scheduler" where
  "wake s = (if sc_stopped s then s else start_dispatch (s\<lparr>sc_requested := True\<rparr>))"

text \<open>The \<open>finally\<close> block.\<close>

definition finish :: "scheduler \<Rightarrow> scheduler" where
  "finish s = (let s' = s\<lparr>sc_running := False\<rparr> in if \<not> sc_stopped s' \<and> sc_requested s' then start_dispatch s' else s')"

definition run_returned :: "nat \<Rightarrow> nat \<Rightarrow> scheduler \<Rightarrow> scheduler" where
  "run_returned batchLimit count s =
     (if \<not> sc_stopped s \<and> batchLimit \<le> count then begin_run s
      else if \<not> sc_stopped s \<and> sc_requested s then begin_run (s\<lparr>sc_requested := False\<rparr>)
      else finish s)"

definition stop :: "scheduler \<Rightarrow> scheduler" where
  "stop s = s\<lparr>sc_stopped := True\<rparr>"

definition createOutboxDispatchScheduler :: "nat \<Rightarrow> scheduler result" where
  "createOutboxDispatchScheduler batchLimit =
     (if batchLimit < 1 then Inl (PlainError ''OUTBOX_BATCH_LIMIT_INVALID'')
      else Inr \<lparr> sc_requested = False, sc_running = False, sc_stopped = False, sc_begun = 0 \<rparr>)"

text \<open>A run that throws ends the loop through the same \<open>finally\<close>.\<close>

inductive schedule_step :: "nat \<Rightarrow> scheduler \<Rightarrow> scheduler \<Rightarrow> bool" for batchLimit where
  wakes: "schedule_step batchLimit s (wake s)"
| returns: "sc_running s \<Longrightarrow> schedule_step batchLimit s (run_returned batchLimit count s)"
| throws: "sc_running s \<Longrightarrow> schedule_step batchLimit s (finish s)"
| stops: "schedule_step batchLimit s (stop s)"

section \<open>Draining\<close>

text \<open>The inner loop of the scheduler, when nobody stops it, no events arrive meanwhile and the database answers.\<close>

definition pending :: "(string \<Rightarrow> bool) \<Rightarrow> event_row list \<Rightarrow> event_row list" where
  "pending held = filter (\<lambda>e. \<not> ev_dispatched e \<and> \<not> held (ev_id e))"

lemma count_filter_update:
  "length (filter P (update_rows q f t)) \<le> length (filter P t)" if "\<And>x. q x \<Longrightarrow> \<not> P (f x)"
  using that by (induction t) auto

lemma claim_pending: "claim held limit evs = take limit (pending held evs)"
  by (simp add: claim_def pending_def)

lemma mark_dispatched_less:
  assumes "e \<in> set (pending held evs)" and "ev_id e \<in> set ids"
  shows "length (pending held (mark_dispatched ids evs)) < length (pending held evs)"
  using assms
proof (induction evs)
  case (Cons x evs)
  let ?P = "\<lambda>e. \<not> ev_dispatched e \<and> \<not> held (ev_id e)"
  have le: "length (pending held (mark_dispatched ids evs)) \<le> length (pending held evs)"
    unfolding pending_def mark_dispatched_def by (rule count_filter_update) simp
  show ?case
  proof (cases "e = x")
    case True
    then show ?thesis using Cons.prems le by (auto simp: pending_def mark_dispatched_def)
  next
    case False
    then have "e \<in> set (pending held evs)" using Cons.prems(1) by (auto simp: pending_def split: if_splits)
    then show ?thesis using Cons.IH Cons.prems(2) by (auto simp: pending_def mark_dispatched_def)
  qed
qed (simp add: pending_def)

lemma dispatch_less:
  assumes "dispatchOutbox b marked noted held limit s = (Inr n, s')" and "limit \<le> n" and "0 < limit"
  shows "length (pending held (fst s')) < length (pending held (fst s))"
proof -
  let ?c = "claim held limit (fst s)"
  have n: "n = length ?c" and s': "fst s' = mark_dispatched (map ev_id ?c) (fst s)"
    using assms(1) by (auto simp: dispatchOutbox_def Let_def split: prod.splits sum.splits)
  then obtain e where e: "e \<in> set ?c" using assms(2,3) by (cases ?c) auto
  then have "e \<in> set (pending held (fst s))" unfolding claim_pending by (rule in_set_takeD)
  then show ?thesis unfolding s' using e by (intro mark_dispatched_less) auto
qed

text \<open>The number of dispatches it took and how it ended.\<close>

function drain :: "'q boss \<Rightarrow> (string \<Rightarrow> bool) \<Rightarrow> nat \<Rightarrow> event_row list \<times> 'q \<Rightarrow> nat \<times> unit result \<times> event_row list \<times> 'q" where
  "drain b held limit s =
     (case dispatchOutbox b (Inr ()) True held limit s of
        (Inl e, s') \<Rightarrow> (1, Inl e, s')
      | (Inr n, s') \<Rightarrow>
          if 0 < limit \<and> limit \<le> n then (case drain b held limit s' of (k, r, s'') \<Rightarrow> (k + 1, r, s'')) else (1, Inr (), s'))"
  by pat_completeness auto
termination
  by (relation "measure (\<lambda>(b, held, limit, s). length (pending held (fst s)))") (auto dest: dispatch_less [OF sym])

declare drain.simps [simp del]

end
