(* ===== verification/DispatchProps.thy ===== *)
theory DispatchProps
  imports Dispatch Runs
begin

text \<open>
  What the dispatcher promises: draining ends with every pending event sent once and in order, no event is marked
  that was not sent, and no call for work is lost.
\<close>

section \<open>Groups\<close>

definition of_topic :: "string \<Rightarrow> (string \<times> event_row list) list \<Rightarrow> event_row list" where
  "of_topic u gs = concat (map snd (filter (\<lambda>g. fst g = u) gs))"

lemma topics_add: "fst ` set (add_event e gs) = insert (ev_topic e) (fst ` set gs)"
  by (induction e gs rule: add_event.induct) auto

lemma distinct_add: "distinct (map fst gs) \<Longrightarrow> distinct (map fst (add_event e gs))"
proof (induction e gs rule: add_event.induct)
  case (2 e t es gs)
  then show ?case using topics_add [of e gs] by auto
qed simp

lemma of_topic_absent: "u \<notin> fst ` set gs \<Longrightarrow> of_topic u gs = []"
  by (induction gs) (auto simp: of_topic_def)

lemma of_topic_Cons: "of_topic u ((t, es) # gs) = (if t = u then es else []) @ of_topic u gs"
  by (simp add: of_topic_def)

lemma of_topic_add:
  "distinct (map fst gs) \<Longrightarrow> of_topic u (add_event e gs) = of_topic u gs @ (if ev_topic e = u then [e] else [])"
proof (induction e gs rule: add_event.induct)
  case (2 e t es gs)
  have "of_topic u gs = []" if "t = u" using 2(2) that by (intro of_topic_absent) auto
  with 2 show ?case by (auto simp: of_topic_Cons)
qed (simp add: of_topic_def)

lemma of_topic_fold:
  assumes "distinct (map fst gs)"
  shows "of_topic u (fold add_event es gs) = of_topic u gs @ filter (\<lambda>e. ev_topic e = u) es \<and> distinct (map fst (fold add_event es gs))"
  using assms
proof (induction es arbitrary: gs)
  case (Cons e es)
  then show ?case using Cons.IH [OF distinct_add [OF Cons.prems, of e]] by (simp add: of_topic_add)
qed simp

lemma of_topic_by_topic: "of_topic u (by_topic es) = filter (\<lambda>e. ev_topic e = u) es"
  using of_topic_fold [of "[]" u es] by (simp add: by_topic_def of_topic_def)

section \<open>The queue\<close>

text \<open>What is inserted is added to its topic.\<close>

definition boss_law :: "'q boss \<Rightarrow> bool" where
  "boss_law b \<longleftrightarrow> (\<forall>t js q q'. boss_insert b t js q = Inr q' \<longrightarrow>
     (\<forall>u. boss_jobs b q' u = boss_jobs b q u @ (if u = t then js else [])))"

definition boss_up :: "'q boss \<Rightarrow> bool" where
  "boss_up b \<longleftrightarrow> (\<forall>t js q. \<exists>q'. boss_insert b t js q = Inr q')"

lemma boss_lawD: "boss_law b \<Longrightarrow> boss_insert b t js q = Inr q' \<Longrightarrow> boss_jobs b q' u = boss_jobs b q u @ (if u = t then js else [])"
  unfolding boss_law_def by blast

lemma insert_groups_sent:
  assumes law: "boss_law b" and "insert_groups b gs q = (Inr (), q')"
  shows "boss_jobs b q' u = boss_jobs b q u @ map job_of (of_topic u gs)"
  using assms(2)
proof (induction gs arbitrary: q)
  case (Cons g gs)
  obtain t es where g: "g = (t, es)" by (cases g)
  obtain q1 where q1: "boss_insert b t (map job_of es) q = Inr q1" "insert_groups b gs q1 = (Inr (), q')"
    using Cons.prems by (auto simp: g split: sum.splits)
  then show ?case using Cons.IH [OF q1(2)] boss_lawD [OF law q1(1), of u] by (simp add: of_topic_def g)
qed (simp add: of_topic_def)

lemma insert_groups_kept:
  assumes law: "boss_law b" and "insert_groups b gs q = (r, q')"
  shows "set (boss_jobs b q u) \<subseteq> set (boss_jobs b q' u)"
  using assms(2)
proof (induction gs arbitrary: q)
  case (Cons g gs)
  obtain t es where g: "g = (t, es)" by (cases g)
  show ?case
  proof (cases "boss_insert b t (map job_of es) q")
    case (Inl e)
    then show ?thesis using Cons.prems by (simp add: g)
  next
    case (Inr q1)
    then have "set (boss_jobs b q1 u) \<subseteq> set (boss_jobs b q' u)" using Cons by (simp add: g)
    then show ?thesis using boss_lawD [OF law Inr, of u] by auto
  qed
qed simp

lemma insert_groups_up:
  assumes "boss_up b"
  obtains q' where "insert_groups b gs q = (Inr (), q')"
proof -
  have "\<exists>q'. insert_groups b gs q = (Inr (), q')"
  proof (induction gs arbitrary: q)
    case (Cons g gs)
    obtain t es where g: "g = (t, es)" by (cases g)
    obtain q1 where "boss_insert b t (map job_of es) q = Inr q1" using assms unfolding boss_up_def by blast
    then show ?case using Cons.IH [of q1] by (simp add: g)
  qed simp
  then show thesis using that by blast
qed

section \<open>Draining\<close>

lemma filter_rest: "distinct (map f (xs @ ys)) \<Longrightarrow> filter (\<lambda>e. f e \<notin> f ` set xs) (xs @ ys) = ys"
  by (auto simp: filter_empty_conv filter_id_conv)

lemma pending_marked: "pending held (mark_dispatched ids evs) = filter (\<lambda>e. ev_id e \<notin> set ids) (pending held evs)"
  by (induction evs) (auto simp: pending_def mark_dispatched_def)

lemma pending_after:
  assumes "distinct (map ev_id evs)"
  shows "pending held (mark_dispatched (map ev_id (claim held limit evs)) evs) = drop limit (pending held evs)"
proof -
  let ?ids = "set (map ev_id (claim held limit evs))"
  have "pending held (mark_dispatched (map ev_id (claim held limit evs)) evs) = filter (\<lambda>e. ev_id e \<notin> ?ids) (pending held evs)"
    by (rule pending_marked)
  also have "\<dots> = drop limit (pending held evs)"
  proof -
    define ps where "ps = pending held evs"
    have "distinct (map ev_id ps)" unfolding ps_def pending_def using assms by (simp add: distinct_map_filter)
    then have "filter (\<lambda>e. ev_id e \<notin> ev_id ` set (take limit ps)) ps = drop limit ps"
      using filter_rest [of ev_id "take limit ps" "drop limit ps"] by simp
    then show ?thesis by (simp add: claim_pending ps_def)
  qed
  finally show ?thesis .
qed

lemma mark_dispatched_ids: "map ev_id (mark_dispatched ids evs) = map ev_id evs"
  by (simp add: mark_dispatched_def map_update_rows)

lemma drain_drains:
  assumes law: "boss_law b" and up: "boss_up b" and ids: "distinct (map ev_id evs)" and limit: "0 < limit"
  shows "\<exists>evs' q'. drain b held limit (evs, q) = (length (pending held evs) div limit + 1, Inr (), evs', q')
    \<and> pending held evs' = []
    \<and> (\<forall>t. boss_jobs b q' t = boss_jobs b q t @ map job_of (filter (\<lambda>e. ev_topic e = t) (pending held evs)))"
  using ids
proof (induction "length (pending held evs)" arbitrary: evs q rule: less_induct)
  case less
  let ?p = "pending held evs" and ?c = "claim held limit evs"
  let ?evs = "mark_dispatched (map ev_id ?c) evs"
  obtain q1 where q1: "insert_groups b (by_topic ?c) q = (Inr (), q1)" by (rule insert_groups_up [OF up])
  have d: "dispatchOutbox b (Inr ()) True held limit (evs, q) = (Inr (length ?c), ?evs, q1)" by (simp add: dispatchOutbox_def Let_def q1)
  have jobs: "boss_jobs b q1 t = boss_jobs b q t @ map job_of (filter (\<lambda>e. ev_topic e = t) (take limit ?p))" for t
    using insert_groups_sent [OF law q1, of t] by (simp add: of_topic_by_topic claim_pending)
  have rest: "pending held ?evs = drop limit ?p" by (rule pending_after [OF less.prems])
  have n: "length ?c = min (length ?p) limit" by (simp add: claim_pending)
  show ?case
  proof (cases "limit \<le> length ?p")
    case True
    then have "length (pending held ?evs) < length ?p" unfolding rest using limit by simp
    then obtain evs' q' where ih: "drain b held limit (?evs, q1) = (length (pending held ?evs) div limit + 1, Inr (), evs', q')"
        "pending held evs' = []"
        "\<forall>t. boss_jobs b q' t = boss_jobs b q1 t @ map job_of (filter (\<lambda>e. ev_topic e = t) (pending held ?evs))"
      using less.hyps [of ?evs q1] less.prems by (auto simp: mark_dispatched_ids)
    have "length ?p div limit = (length ?p - limit) div limit + 1" using True limit by (simp add: le_div_geq)
    then have "drain b held limit (evs, q) = (length ?p div limit + 1, Inr (), evs', q')"
      using True limit n by (subst drain.simps) (simp add: d ih(1) rest)
    moreover have "boss_jobs b q' t = boss_jobs b q t @ map job_of (filter (\<lambda>e. ev_topic e = t) ?p)" for t
    proof -
      have "filter (\<lambda>e. ev_topic e = t) ?p = filter (\<lambda>e. ev_topic e = t) (take limit ?p @ drop limit ?p)" by simp
      then show ?thesis using ih(3) jobs [of t] unfolding rest filter_append by simp
    qed
    ultimately show ?thesis using ih(2) by blast
  next
    case False
    then have "drain b held limit (evs, q) = (length ?p div limit + 1, Inr (), ?evs, q1)"
      using n by (subst drain.simps) (simp add: d)
    moreover have "pending held ?evs = []" using rest False by simp
    ultimately show ?thesis using jobs False by auto
  qed
qed

text \<open>C38: with the queue up and no event arriving, the dispatcher's loop ends, after one dispatch more than there are full batches; then
  no event is pending, and every event that was is in the queue of its topic exactly once, in the order of the outbox.\<close>

theorem draining_ends:
  assumes "boss_law b" and "boss_up b" and "distinct (map ev_id evs)" and "0 < limit"
  shows "\<exists>evs' q'. drain b held limit (evs, q) = (length (pending held evs) div limit + 1, Inr (), evs', q')
    \<and> pending held evs' = []
    \<and> (\<forall>t. boss_jobs b q' t = boss_jobs b q t @ map job_of (filter (\<lambda>e. ev_topic e = t) (pending held evs)))"
  by (rule drain_drains [OF assms])

text \<open>A queue of lists.\<close>

definition list_boss :: "(string \<Rightarrow> queue_job list) boss" where
  "list_boss = \<lparr> boss_insert = (\<lambda>t js q. Inr (q(t := q t @ js))), boss_jobs = (\<lambda>q t. q t) \<rparr>"

lemma list_boss_laws: "boss_law list_boss" "boss_up list_boss"
  by (simp_all add: boss_law_def boss_up_def list_boss_def)

definition demo_events :: "event_row list" where
  "demo_events = map (\<lambda>(i, t). \<lparr> ev_id = i, ev_topic = t, ev_payload = [], ev_dispatched = False, ev_attempts = 0, ev_error = None \<rparr>)
     [(''1'', ''import.commit''), (''2'', ''calculation.run''), (''3'', ''import.commit'')]"

lemma draining_ends_witness:
  "\<exists>evs' q'. drain list_boss (\<lambda>_. False) 2 (demo_events, \<lambda>_. []) = (2, Inr (), evs', q')
    \<and> map qj_singleton (q' ''import.commit'') = [''1'', ''3''] \<and> map qj_singleton (q' ''calculation.run'') = [''2'']"
proof -
  have "distinct (map ev_id demo_events)" by (simp add: demo_events_def)
  from draining_ends [OF list_boss_laws this, of 2 "\<lambda>_. False" "\<lambda>_. []"]
  show ?thesis by (auto simp: demo_events_def pending_def list_boss_def job_of_def)
qed

section \<open>Nothing is marked that was not sent\<close>

text \<open>
  Dispatches of one or more dispatchers, with whatever the queue does, and events that arrive. An event's place is by the
  start of its transaction, so it may arrive before others that are already visible.
\<close>

inductive outbox_step :: "'q boss \<Rightarrow> event_row list \<times> 'q \<Rightarrow> event_row list \<times> 'q \<Rightarrow> bool" for b where
  dispatches: "dispatchOutbox b marked noted held limit s = (r, s') \<Longrightarrow> outbox_step b s s'"
| arrives: "\<not> ev_dispatched e \<Longrightarrow> ev_id e \<notin> ev_id ` set (xs @ ys) \<Longrightarrow> outbox_step b (xs @ ys, q) (xs @ e # ys, q)"

definition marked_sent :: "'q boss \<Rightarrow> event_row list \<times> 'q \<Rightarrow> bool" where
  "marked_sent b s \<longleftrightarrow> distinct (map ev_id (fst s)) \<and>
     (\<forall>e \<in> set (fst s). ev_dispatched e \<longrightarrow> job_of e \<in> set (boss_jobs b (snd s) (ev_topic e)))"

lemma same_row: "distinct (map f xs) \<Longrightarrow> x \<in> set xs \<Longrightarrow> y \<in> set xs \<Longrightarrow> f x = f y \<Longrightarrow> x = y"
  by (simp add: distinct_map inj_on_def)

lemma claimed_row:
  assumes "distinct (map ev_id evs)" and "e \<in> set evs" and "ev_id e \<in> ev_id ` set (claim held limit evs)"
  shows "e \<in> set (claim held limit evs)"
proof -
  obtain e' where e': "e' \<in> set (claim held limit evs)" "ev_id e = ev_id e'" using assms(3) by auto
  then have "e' \<in> set evs" by (auto simp: claim_def dest: in_set_takeD)
  then show ?thesis using same_row [OF assms(1,2)] e' by blast
qed

lemma dispatch_marks_sent:
  assumes law: "boss_law b" and d: "dispatchOutbox b marked noted held limit s = (r, s')" and m: "marked_sent b s"
  shows "marked_sent b s'"
proof -
  let ?c = "claim held limit (fst s)"
  have ids: "distinct (map ev_id (fst s))" using m by (simp add: marked_sent_def)
  obtain r1 q1 where g: "insert_groups b (by_topic ?c) (snd s) = (r1, q1)" by (cases "insert_groups b (by_topic ?c) (snd s)")
  have kept: "\<And>e. e \<in> set (fst s) \<Longrightarrow> ev_dispatched e \<Longrightarrow> job_of e \<in> set (boss_jobs b q1 (ev_topic e))"
    using insert_groups_kept [OF law g] m unfolding marked_sent_def by blast
  show ?thesis
  proof (cases "isl r1 \<or> isl marked")
    case True
    then have "s' = (note_failure noted (map ev_id ?c) (fst s), q1)" using d g by (auto simp: dispatchOutbox_def Let_def isl_def split: sum.splits)
    then show ?thesis using kept ids
      by (auto simp: marked_sent_def note_failure_def mark_failed_def in_update_rows map_update_rows job_of_def)
  next
    case False
    then obtain u where Inr: "r1 = Inr u" and s': "s' = (mark_dispatched (map ev_id ?c) (fst s), q1)"
      using d g by (auto simp: dispatchOutbox_def Let_def isl_def split: sum.splits)
    have "\<And>e. e \<in> set ?c \<Longrightarrow> job_of e \<in> set (boss_jobs b q1 (ev_topic e))"
      using insert_groups_sent [OF law, of "by_topic ?c" "snd s" q1] g Inr by (simp add: of_topic_by_topic)
    then have "\<And>e. e \<in> set (fst s) \<Longrightarrow> ev_id e \<in> ev_id ` set ?c \<Longrightarrow> job_of e \<in> set (boss_jobs b q1 (ev_topic e))"
      using claimed_row [OF ids] by blast
    then show ?thesis using kept ids by (auto simp: s' marked_sent_def mark_dispatched_def in_update_rows map_update_rows job_of_def)
  qed
qed

interpretation marking: kept_along "outbox_step b" "\<lambda>s s'. boss_law b \<longrightarrow> marked_sent b s \<longrightarrow> marked_sent b s'"
  for b :: "'q boss"
proof
  fix s s' assume "outbox_step b s s'"
  then show "boss_law b \<longrightarrow> marked_sent b s \<longrightarrow> marked_sent b s'"
  proof cases
    case dispatches
    then show ?thesis using dispatch_marks_sent by blast
  next
    case arrives
    then show ?thesis by (auto simp: marked_sent_def)
  qed
qed auto

text \<open>C39: at every point of every run of the outbox, from when it was empty and whatever fails or interleaves, each event
  that is marked dispatched is in the queue of its topic with its payload, under its identifier.\<close>

theorem marked_only_when_sent:
  assumes "boss_law b" and "(outbox_step b)\<^sup>*\<^sup>* ([], q0) (evs, q)" and "e \<in> set evs" and "ev_dispatched e"
  shows "\<lparr> qj_singleton = ev_id e, qj_data = ev_payload e \<rparr> \<in> set (boss_jobs b q (ev_topic e))"
proof -
  have "marked_sent b ([], q0)" by (simp add: marked_sent_def)
  then have "marked_sent b (evs, q)" using marking.along_run [OF assms(2)] assms(1) by blast
  then show ?thesis using assms(3,4) by (simp add: marked_sent_def job_of_def)
qed

definition demo_event :: event_row where
  "demo_event = \<lparr> ev_id = ''1'', ev_topic = ''import.commit'', ev_payload = [], ev_dispatched = False, ev_attempts = 0, ev_error = None \<rparr>"

lemma marked_only_when_sent_witness:
  "\<lparr> qj_singleton = ''1'', qj_data = [] \<rparr> \<in> set (boss_jobs list_boss ((\<lambda>_. [])(''import.commit'' := [job_of demo_event])) ''import.commit'')"
proof -
  let ?e = "demo_event\<lparr>ev_dispatched := True, ev_attempts := 1\<rparr>"
  let ?q = "(\<lambda>_. [])(''import.commit'' := [job_of demo_event])"
  have "outbox_step list_boss ([], \<lambda>_. []) ([demo_event], \<lambda>_. [])"
    using outbox_step.arrives [of demo_event "[]" "[]" list_boss "\<lambda>_. []"] by (simp add: demo_event_def)
  moreover have "outbox_step list_boss ([demo_event], \<lambda>_. []) ([?e], ?q)"
    by (rule outbox_step.dispatches [of _ "Inr ()" True "\<lambda>_. False" 50 _ "Inr 1"])
      (simp add: dispatchOutbox_def claim_def by_topic_def list_boss_def demo_event_def mark_dispatched_def job_of_def)
  ultimately have "(outbox_step list_boss)\<^sup>*\<^sup>* ([], \<lambda>_. []) ([?e], ?q)" by (meson converse_rtranclp_into_rtranclp rtranclp.rtrancl_refl)
  from marked_only_when_sent [OF list_boss_laws(1) this, of ?e] show ?thesis by (simp add: demo_event_def)
qed

section \<open>No wake is lost\<close>

text \<open>A dispatch has begun after the first \<open>k\<close>, or the running loop will begin one.\<close>

definition answered :: "nat \<Rightarrow> scheduler \<Rightarrow> bool" where
  "answered k s \<longleftrightarrow> sc_stopped s \<or> k < sc_begun s \<or> sc_running s \<and> sc_requested s \<and> sc_begun s = k"

lemmas schedule_defs = wake_def start_dispatch_def begin_run_def finish_def run_returned_def stop_def Let_def

lemma wake_answered: "answered (sc_begun s) (wake s)"
  by (simp add: answered_def schedule_defs)

interpretation waking: kept_along "schedule_step n" "\<lambda>s s'. answered k s \<longrightarrow> answered k s'"
  for n k
proof
  fix s s' assume "schedule_step n s s'"
  then show "answered k s \<longrightarrow> answered k s'"
    by cases (auto simp: answered_def schedule_defs)
qed auto

text \<open>C40: a wake of a scheduler that is not stopped is never lost: whenever the loop is at rest again, a dispatch has
  begun after the wake, also when the wake came while a dispatch was under way, and also when dispatches failed.\<close>

theorem no_wake_lost:
  assumes "(schedule_step batchLimit)\<^sup>*\<^sup>* (wake s) t" and "\<not> sc_running t" and "\<not> sc_stopped t"
  shows "sc_begun s < sc_begun t"
  using waking.along_run [OF assms(1), of "sc_begun s"] wake_answered [of s] assms(2,3) by (auto simp: answered_def)

lemma no_wake_lost_witness:
  "sc_begun (finish (wake (\<lparr> sc_requested = False, sc_running = False, sc_stopped = False, sc_begun = 4 \<rparr>))) = 5 \<and> (4::nat) < 5"
proof -
  let ?s = "\<lparr> sc_requested = False, sc_running = False, sc_stopped = False, sc_begun = 4 \<rparr>"
  have "schedule_step 50 (wake ?s) (finish (wake ?s))" by (rule schedule_step.throws) (simp add: schedule_defs)
  then have "(schedule_step 50)\<^sup>*\<^sup>* (wake ?s) (finish (wake ?s))" by (rule r_into_rtranclp)
  from no_wake_lost [OF this] show ?thesis by (simp add: schedule_defs)
qed

end
