(* ===== verification/Publish.thy ===== *)
theory Publish
  imports JsText
begin

text \<open>
  Publishing the result of a calculation as the current one of its shop: \<open>src/modules/publishing/publish.ts\<close>. The
  manifest a client sends must name every current slice of the shop, as the run has it and with every exclusion and
  warning acknowledged. The store is an interface, as in the code; \<open>PublishOps\<close> is the one over PostgreSQL. The versions
  of policies and formulas that a run carries and nothing here reads are left out.
\<close>

section \<open>Data\<close>

datatype SnapshotSliceDisposition = INCLUDED | INCLUDED_WITH_WARNING | HARD_EXCLUDED | OUT_OF_SCOPE

datatype run_status = READY | BLOCKED | FAILED | RUNNING | QUEUED

record CalculationRunSlice =
  rs_sliceId :: string
  rs_datasetVersionId :: string
  rs_disposition :: SnapshotSliceDisposition
  rs_hardReasons :: "string list"
  rs_softWarning :: bool
  rs_hardExclusionAcknowledgementId :: "string option"
  rs_softWarningAcknowledgementId :: "string option"

record CalculationRunForPublishing =
  rp_id :: string
  rp_shopId :: string
  rp_status :: run_status
  rp_fxOverrideIds :: "string list option"
  rp_slices :: "CalculationRunSlice list"

record SnapshotSliceInput =
  si_sliceId :: string
  si_datasetVersionId :: string
  si_disposition :: SnapshotSliceDisposition

record SnapshotManifest =
  mf_calculationRunId :: string
  mf_shopId :: string
  mf_slices :: "SnapshotSliceInput list"

text \<open>The transaction the publishing works in, over states \<open>'s\<close>; the last of the reading operations is optional.\<close>

record 's PublishTransaction =
  lockShop :: "string \<Rightarrow> 's \<Rightarrow> unit result"
  getCalculationRun :: "string \<Rightarrow> 's \<Rightarrow> CalculationRunForPublishing option result"
  getCurrentSliceVersions :: "string \<Rightarrow> 's \<Rightarrow> (string \<times> string) list result"
  getCurrentFxOverrideIds :: "('s \<Rightarrow> string list result) option"
  createSnapshot :: "string \<Rightarrow> string \<Rightarrow> string \<Rightarrow> SnapshotManifest \<Rightarrow> 's \<Rightarrow> (string \<times> 's) result"
  createSnapshotSlices :: "string \<Rightarrow> SnapshotSliceInput list \<Rightarrow> 's \<Rightarrow> 's result"
  setCurrentSnapshot :: "string \<Rightarrow> string \<Rightarrow> 's \<Rightarrow> 's result"
  appendAudit :: "string \<Rightarrow> string \<Rightarrow> string \<Rightarrow> 's \<Rightarrow> 's result"

text \<open>An absent text and the empty one are false.\<close>

definition truthy :: "string option \<Rightarrow> bool" where
  "truthy x \<longleftrightarrow> (case x of None \<Rightarrow> False | Some s \<Rightarrow> s \<noteq> [])"

section \<open>Checks\<close>

definition validateCurrentFxOverrides :: "CalculationRunForPublishing \<Rightarrow> string list \<Rightarrow> unit result" where
  "validateCurrentFxOverrides run currentIds =
     (case rp_fxOverrideIds run of
        None \<Rightarrow> Inr ()
      | Some ids \<Rightarrow>
          if \<not> distinct ids then Inl (PlainError ''PUBLISH_FX_OVERRIDE_MANIFEST_INVALID'')
          else require (sort ids = sort currentIds) (PlainError ''PUBLISH_FX_OVERRIDE_SET_STALE''))"

text \<open>One slice against the run's slice of the same identifier.\<close>

definition validate_disposition :: "SnapshotSliceInput \<Rightarrow> CalculationRunSlice \<Rightarrow> unit result" where
  "validate_disposition s r =
     (if si_disposition s = OUT_OF_SCOPE then
        require (\<not> (rs_hardReasons r \<noteq> [] \<or> truthy (rs_hardExclusionAcknowledgementId r) \<or> truthy (rs_softWarningAcknowledgementId r)))
          (PlainError ''OUT_OF_SCOPE_SLICE_INVALID'')
      else if si_disposition s = HARD_EXCLUDED then
        require (\<not> (rs_hardReasons r = [] \<or> \<not> truthy (rs_hardExclusionAcknowledgementId r)))
          (PlainError ''HARD_EXCLUSION_NOT_ACKNOWLEDGED'')
      else if rs_hardReasons r \<noteq> [] then Inl (PlainError ''HARD_INCOMPLETE_SLICE_INCLUDED'')
      else if rs_softWarning r then
        require (\<not> (si_disposition s \<noteq> INCLUDED_WITH_WARNING \<or> \<not> truthy (rs_softWarningAcknowledgementId r)))
          (PlainError ''SOFT_WARNING_NOT_DISCLOSED'')
      else require (si_disposition s = INCLUDED) (PlainError ''INVALID_SLICE_DISPOSITION''))"

definition validate_slice ::
    "CalculationRunForPublishing \<Rightarrow> (string \<times> string) list \<Rightarrow> SnapshotSliceInput \<Rightarrow> unit result" where
  "validate_slice run current s =
     (let currentVersion = map_of current (si_sliceId s) in
      case find (\<lambda>c. rs_sliceId c = si_sliceId s) (rp_slices run) of
        None \<Rightarrow> Inl (PlainError ''PUBLISHED_SLICE_NOT_CURRENT'')
      | Some runSlice \<Rightarrow>
          if \<not> truthy currentVersion then Inl (PlainError ''PUBLISHED_SLICE_NOT_CURRENT'')
          else if currentVersion \<noteq> Some (si_datasetVersionId s) \<or> rs_datasetVersionId runSlice \<noteq> si_datasetVersionId s
          then Inl (PlainError ''PUBLISHED_DATASET_VERSION_STALE'')
          else if si_disposition s \<noteq> rs_disposition runSlice then Inl (PlainError ''PUBLISH_SLICE_DISPOSITION_MISMATCH'')
          else validate_disposition s runSlice)"

fun validate_slices ::
    "CalculationRunForPublishing \<Rightarrow> (string \<times> string) list \<Rightarrow> string list \<Rightarrow> SnapshotSliceInput list \<Rightarrow> unit result" where
  "validate_slices run current manifestIds [] = Inr ()"
| "validate_slices run current manifestIds (s # ss) =
     (if si_sliceId s \<in> set manifestIds then Inl (PlainError ''DUPLICATE_PUBLISHED_SLICE'')
      else bindE (validate_slice run current s) (\<lambda>_. validate_slices run current (si_sliceId s # manifestIds) ss))"

text \<open>\<open>current\<close> is a \<open>Map\<close> of the code, one pair for each key.\<close>

definition validateManifest ::
    "CalculationRunForPublishing \<Rightarrow> SnapshotManifest \<Rightarrow> (string \<times> string) list \<Rightarrow> unit result" where
  "validateManifest run manifest current =
     (if rp_status run \<noteq> READY then Inl (PlainError ''CALCULATION_RUN_NOT_READY'')
      else if rp_shopId run \<noteq> mf_shopId manifest \<or> rp_id run \<noteq> mf_calculationRunId manifest
      then Inl (PlainError ''PUBLISH_MANIFEST_MISMATCH'')
      else if length (mf_slices manifest) \<noteq> length current \<or> length (mf_slices manifest) \<noteq> length (rp_slices run)
      then Inl (PlainError ''PUBLISH_MANIFEST_NOT_FULL_SHOP'')
      else if \<not> distinct (map rs_sliceId (rp_slices run)) then Inl (PlainError ''DUPLICATE_CALCULATION_RUN_SLICE'')
      else validate_slices run current [] (mf_slices manifest))"

section \<open>Publishing\<close>

definition override_checks :: "'s PublishTransaction \<Rightarrow> CalculationRunForPublishing \<Rightarrow> 's \<Rightarrow> unit result" where
  "override_checks tx run s =
     (if rp_fxOverrideIds run = None then Inr ()
      else case getCurrentFxOverrideIds tx of
          None \<Rightarrow> Inl (PlainError ''PUBLISH_FX_OVERRIDE_VALIDATION_UNAVAILABLE'')
        | Some get \<Rightarrow> bindE (get s) (validateCurrentFxOverrides run))"

text \<open>Reading the run, the versions and the overrides, and checking the manifest against them.\<close>

definition publish_checks :: "'s PublishTransaction \<Rightarrow> SnapshotManifest \<Rightarrow> 's \<Rightarrow> CalculationRunForPublishing result" where
  "publish_checks tx manifest s =
     bindE (lockShop tx (mf_shopId manifest) s) (\<lambda>_.
     bindE (getCalculationRun tx (mf_calculationRunId manifest) s) (\<lambda>found.
     case found of
       None \<Rightarrow> Inl (PlainError ''CALCULATION_RUN_NOT_FOUND'')
     | Some run \<Rightarrow>
         bindE (getCurrentSliceVersions tx (mf_shopId manifest) s) (\<lambda>current.
         bindE (validateManifest run manifest current) (\<lambda>_.
         bindE (override_checks tx run s) (\<lambda>_. Inr run)))))"

text \<open>The pointer is replaced last but for the audit; an error leaves the state as it was.\<close>

definition publishSnapshot ::
    "'s PublishTransaction \<Rightarrow> string \<Rightarrow> SnapshotManifest \<Rightarrow> 's \<Rightarrow> (string \<times> 's) result" where
  "publishSnapshot tx actorAccountId manifest s =
     bindE (publish_checks tx manifest s) (\<lambda>run.
     bindE (createSnapshot tx (mf_shopId manifest) (rp_id run) actorAccountId manifest s) (\<lambda>(snapshotId, s1).
     bindE (createSnapshotSlices tx snapshotId (mf_slices manifest) s1) (\<lambda>s2.
     bindE (setCurrentSnapshot tx (rp_shopId run) snapshotId s2) (\<lambda>s3.
     bindE (appendAudit tx actorAccountId ''PUBLISHED_SNAPSHOT_CREATED'' snapshotId s3) (\<lambda>s4.
     Inr (snapshotId, s4))))))"

section \<open>What the checks accept\<close>

definition slice_input :: "CalculationRunSlice \<Rightarrow> SnapshotSliceInput" where
  "slice_input r = \<lparr> si_sliceId = rs_sliceId r, si_datasetVersionId = rs_datasetVersionId r, si_disposition = rs_disposition r \<rparr>"

text \<open>A slice whose defects are acknowledged.\<close>

definition disclosed :: "CalculationRunSlice \<Rightarrow> bool" where
  "disclosed r \<longleftrightarrow>
     (case rs_disposition r of
        OUT_OF_SCOPE \<Rightarrow> rs_hardReasons r = [] \<and> \<not> truthy (rs_hardExclusionAcknowledgementId r) \<and> \<not> truthy (rs_softWarningAcknowledgementId r)
      | HARD_EXCLUDED \<Rightarrow> rs_hardReasons r \<noteq> [] \<and> truthy (rs_hardExclusionAcknowledgementId r)
      | INCLUDED_WITH_WARNING \<Rightarrow> rs_hardReasons r = [] \<and> rs_softWarning r \<and> truthy (rs_softWarningAcknowledgementId r)
      | INCLUDED \<Rightarrow> rs_hardReasons r = [] \<and> \<not> rs_softWarning r)"

lemma validate_disposition_iff: "si_disposition s = rs_disposition r \<Longrightarrow> validate_disposition s r = Inr () \<longleftrightarrow> disclosed r"
  by (auto simp: validate_disposition_def disclosed_def result_iff split: SnapshotSliceDisposition.split)

lemma validate_slices_iff:
  "validate_slices run current ids ss = Inr () \<longleftrightarrow>
     distinct (map si_sliceId ss) \<and> set (map si_sliceId ss) \<inter> set ids = {} \<and> (\<forall>s \<in> set ss. validate_slice run current s = Inr ())"
  by (induction ss arbitrary: ids) (auto simp: result_iff)

lemma find_keyed: "distinct (map k xs) \<Longrightarrow> find (\<lambda>x. k x = key) xs = Some x \<longleftrightarrow> x \<in> set xs \<and> k x = key"
  by (induction xs) (auto simp: image_iff)

lemma validate_slice_iff:
  assumes runs: "distinct (map rs_sliceId (rp_slices run))" and "distinct (map fst current)"
  shows "validate_slice run current s = Inr () \<longleftrightarrow>
     (si_sliceId s, si_datasetVersionId s) \<in> set current \<and> si_datasetVersionId s \<noteq> [] \<and> (\<exists>r \<in> set (rp_slices run). slice_input r = s \<and> disclosed r)"
proof (cases "find (\<lambda>c. rs_sliceId c = si_sliceId s) (rp_slices run)")
  case None
  then have "\<forall>r \<in> set (rp_slices run). rs_sliceId r \<noteq> si_sliceId s" by (auto simp: find_None_iff)
  then have "\<forall>r \<in> set (rp_slices run). slice_input r \<noteq> s" by (force simp: slice_input_def)
  then show ?thesis by (auto simp: validate_slice_def Let_def None)
next
  case (Some r)
  then have r: "r \<in> set (rp_slices run)" "rs_sliceId r = si_sliceId s" by (simp_all add: find_keyed [OF runs])
  have "inj_on rs_sliceId (set (rp_slices run))" using runs by (simp add: distinct_map)
  then have only: "r' = r" if "r' \<in> set (rp_slices run)" "slice_input r' = s" for r'
    using that r by (auto simp: slice_input_def elim: inj_onD)
  have "validate_slice run current s = Inr () \<longleftrightarrow>
      map_of current (si_sliceId s) = Some (si_datasetVersionId s) \<and> si_datasetVersionId s \<noteq> []
      \<and> rs_datasetVersionId r = si_datasetVersionId s \<and> si_disposition s = rs_disposition r \<and> disclosed r"
    using validate_disposition_iff [of s r] by (auto simp: validate_slice_def Let_def Some truthy_def)
  also have "\<dots> \<longleftrightarrow> (si_sliceId s, si_datasetVersionId s) \<in> set current \<and> si_datasetVersionId s \<noteq> [] \<and> slice_input r = s \<and> disclosed r"
    using assms(2) r(2) by (cases s) (auto simp: slice_input_def map_of_eq_Some_iff)
  finally show ?thesis using only r(1) by blast
qed

text \<open>The manifest is the whole run, the run is the whole shop as it is now, and every defect is acknowledged.\<close>

definition publishable :: "CalculationRunForPublishing \<Rightarrow> SnapshotManifest \<Rightarrow> (string \<times> string) list \<Rightarrow> bool" where
  "publishable run manifest current \<longleftrightarrow>
     rp_status run = READY \<and> rp_shopId run = mf_shopId manifest \<and> rp_id run = mf_calculationRunId manifest
     \<and> distinct (map rs_sliceId (rp_slices run)) \<and> distinct (map si_sliceId (mf_slices manifest))
     \<and> (\<forall>s \<in> set (mf_slices manifest). si_datasetVersionId s \<noteq> [])
     \<and> set (mf_slices manifest) = slice_input ` set (rp_slices run)
     \<and> set current = (\<lambda>r. (rs_sliceId r, rs_datasetVersionId r)) ` set (rp_slices run)
     \<and> (\<forall>r \<in> set (rp_slices run). disclosed r)"

lemma inj_set_eq:
  assumes "distinct xs" and "distinct ys" and "set xs \<subseteq> set ys" and "length xs = length ys"
  shows "set xs = set ys"
  using assms by (metis card_subset_eq distinct_card List.finite_set)

lemma validateManifest_iff:
  assumes keys: "distinct (map fst current)"
  shows "validateManifest run manifest current = Inr () \<longleftrightarrow> publishable run manifest current"
proof -
  let ?m = "mf_slices manifest" and ?r = "rp_slices run" and ?pair = "\<lambda>s. (si_sliceId s, si_datasetVersionId s)"
  have pairs: "?pair (slice_input r) = (rs_sliceId r, rs_datasetVersionId r)" for r by (simp add: slice_input_def)
  have "length ?m = length current \<and> length ?m = length ?r \<and> (\<forall>s \<in> set ?m. validate_slice run current s = Inr ())
      \<longleftrightarrow> (\<forall>s \<in> set ?m. si_datasetVersionId s \<noteq> []) \<and> set ?m = slice_input ` set ?r \<and> set current = (\<lambda>r. (rs_sliceId r, rs_datasetVersionId r)) ` set ?r \<and> (\<forall>r \<in> set ?r. disclosed r)"
    (is "?L \<longleftrightarrow> ?R")
    if dr: "distinct (map rs_sliceId ?r)" and dm: "distinct (map si_sliceId ?m)"
  proof -
    have each: "\<And>s. validate_slice run current s = Inr () \<longleftrightarrow> ?pair s \<in> set current \<and> si_datasetVersionId s \<noteq> [] \<and> (\<exists>r \<in> set ?r. slice_input r = s \<and> disclosed r)"
      by (rule validate_slice_iff [OF dr keys])
    have d1: "distinct (map ?pair ?m)" using dm by (auto simp: distinct_map inj_on_def)
    have d2: "distinct current" using keys by (simp add: distinct_map)
    have d3: "distinct (map slice_input ?r)" using dr by (auto simp: distinct_map inj_on_def slice_input_def)
    have d4: "distinct ?m" using dm by (simp add: distinct_map)
    show ?thesis
    proof
      assume L: ?L
      then have "set (map ?pair ?m) \<subseteq> set current" "set ?m \<subseteq> set (map slice_input ?r)" using each by auto
      then have "set (map ?pair ?m) = set current" and m: "set ?m = set (map slice_input ?r)"
        using inj_set_eq [OF d1 d2] inj_set_eq [OF d4 d3] L by simp_all
      then have "set current = (?pair \<circ> slice_input) ` set ?r" by (auto simp: image_comp)
      moreover have "disclosed r" if "r \<in> set ?r" for r
      proof -
        have "slice_input r \<in> set ?m" using that m by simp
        then obtain r' where r': "r' \<in> set ?r" "slice_input r' = slice_input r" "disclosed r'" using L each by blast
        then have "r' = r" using d3 that by (auto simp: distinct_map dest: inj_onD)
        with r' show ?thesis by simp
      qed
      moreover have "\<forall>s \<in> set ?m. si_datasetVersionId s \<noteq> []" using L each by blast
      ultimately show ?R using m by (simp add: pairs comp_def)
    next
      assume R: ?R
      have "length ?m = length ?r" using R distinct_card [OF d4] distinct_card [OF d3] by simp
      moreover have "set current = set (map ?pair ?m)" using R by (auto simp: pairs image_image)
      then have "length current = length ?m" using distinct_card [OF d1] distinct_card [OF d2] by simp
      moreover have "validate_slice run current s = Inr ()" if "s \<in> set ?m" for s
        using that R \<open>set current = set (map ?pair ?m)\<close> unfolding each by auto
      ultimately show ?L by auto
    qed
  qed
  then show ?thesis by (auto simp: validateManifest_def publishable_def validate_slices_iff)
qed

section \<open>What publishing needs of its transaction\<close>

text \<open>
  The contract of a transaction: \<open>published s i m\<close> tells that snapshot \<open>i\<close> is stored with exactly what the manifest
  \<open>m\<close> says, \<open>pointer\<close> gives the current snapshot of a shop, and \<open>sound\<close> is an invariant of the store.
\<close>

locale publish_transaction =
  fixes tx :: "'s PublishTransaction"
    and sound :: "'s \<Rightarrow> bool"
    and pointer :: "'s \<Rightarrow> string \<Rightarrow> string option"
    and published :: "'s \<Rightarrow> string \<Rightarrow> SnapshotManifest \<Rightarrow> bool"
  assumes keyed: "sound s \<Longrightarrow> getCurrentSliceVersions tx shopId s = Inr current \<Longrightarrow> distinct (map fst current)"
    and stored: "sound s \<Longrightarrow> getCalculationRun tx (mf_calculationRunId m) s = Inr (Some run) \<Longrightarrow> publishable run m current \<Longrightarrow>
      createSnapshot tx (mf_shopId m) (mf_calculationRunId m) a m s = Inr (i, s1) \<Longrightarrow> createSnapshotSlices tx i (mf_slices m) s1 = Inr s2 \<Longrightarrow>
      sound s2 \<and> published s2 i m"
    and pointed: "sound s \<Longrightarrow> published s i m \<Longrightarrow> setCurrentSnapshot tx (mf_shopId m) i s = Inr s' \<Longrightarrow>
      sound s' \<and> published s' i m \<and> pointer s' (mf_shopId m) = Some i"
    and audited: "appendAudit tx a act j s = Inr s' \<Longrightarrow>
      (sound s' \<longleftrightarrow> sound s) \<and> (published s' i m \<longleftrightarrow> published s i m) \<and> pointer s' = pointer s"
begin

lemma checks_Inr:
  assumes "sound s" and "publish_checks tx m s = Inr run"
  obtains current where "getCalculationRun tx (mf_calculationRunId m) s = Inr (Some run)"
    "getCurrentSliceVersions tx (mf_shopId m) s = Inr current" "publishable run m current"
proof -
  obtain current where c: "getCalculationRun tx (mf_calculationRunId m) s = Inr (Some run)"
      "getCurrentSliceVersions tx (mf_shopId m) s = Inr current" "validateManifest run m current = Inr ()"
    using assms(2) by (auto simp: publish_checks_def result_iff split: option.splits)
  show thesis using that [OF c(1,2)] c(3) validateManifest_iff [OF keyed [OF assms(1) c(2)]] by blast
qed

lemma publishes:
  assumes s: "sound s" and p: "publishSnapshot tx a m s = Inr (i, s')"
  shows "sound s' \<and> published s' i m \<and> pointer s' (mf_shopId m) = Some i"
    and "\<exists>run current. getCalculationRun tx (mf_calculationRunId m) s = Inr (Some run)
      \<and> getCurrentSliceVersions tx (mf_shopId m) s = Inr current \<and> publishable run m current"
proof -
  obtain run s1 s2 s3 where c: "publish_checks tx m s = Inr run" and s1: "createSnapshot tx (mf_shopId m) (rp_id run) a m s = Inr (i, s1)"
      and s2: "createSnapshotSlices tx i (mf_slices m) s1 = Inr s2" and s3: "setCurrentSnapshot tx (rp_shopId run) i s2 = Inr s3"
      and s4: "appendAudit tx a ''PUBLISHED_SNAPSHOT_CREATED'' i s3 = Inr s'"
    using p by (auto simp: publishSnapshot_def result_iff)
  obtain current where g: "getCalculationRun tx (mf_calculationRunId m) s = Inr (Some run)"
      "getCurrentSliceVersions tx (mf_shopId m) s = Inr current" "publishable run m current"
    by (rule checks_Inr [OF s c])
  then have ids: "rp_id run = mf_calculationRunId m" "rp_shopId run = mf_shopId m" by (simp_all add: publishable_def)
  have "sound s2 \<and> published s2 i m" by (rule stored [OF s g(1,3) s1 [unfolded ids] s2])
  then have "sound s3 \<and> published s3 i m \<and> pointer s3 (mf_shopId m) = Some i" using pointed [of s2 i m s3] s3 unfolding ids by blast
  then show "sound s' \<and> published s' i m \<and> pointer s' (mf_shopId m) = Some i" using audited [OF s4, of i m] by simp
  show "\<exists>run current. getCalculationRun tx (mf_calculationRunId m) s = Inr (Some run)
      \<and> getCurrentSliceVersions tx (mf_shopId m) s = Inr current \<and> publishable run m current" using g by blast
qed

end

end
