(* ===== verification/Datasets.thy ===== *)
theory Datasets
  imports UploadOps Publish
begin

text \<open>
  What is imported: slices (a marketplace and a month of a shop), their immutable versions, the acknowledgements of
  their defects, and the batches they come from, with the operations of \<open>src/modules/imports/postgres-service.ts\<close>
  that change them, over the tables of \<open>migrations/0007\<close>, \<open>0008\<close>, \<open>0044\<close> and \<open>0054\<close>. The tables of calculations and
  publishing are declared here too. Rows are in the order of their creation; a month is the text \<open>YYYY-MM\<close>.
\<close>

section \<open>Rows\<close>

record site_policy_row =
  mp_id :: string
  mp_marketplace :: string
  mp_timezone :: string
  mp_mode :: string
  mp_from :: nat
  mp_to :: "nat option"

record slice_row =
  ds_id :: string
  ds_shop_id :: string
  ds_marketplace :: string
  ds_month :: string
  ds_current :: "string option"

datatype version_status = DV_DRAFT | DV_INCOMPLETE | DV_READY | DV_ACTIVE | DV_SUPERSEDED

record version_row =
  dv_id :: string
  dv_slice_id :: string
  dv_batch_id :: string
  dv_no :: nat
  dv_status :: version_status
  dv_supersedes :: "string option"
  dv_created_at :: nat

datatype report_kind = SHIPMENT | TRANSACTION

record binding_row =
  sb_version :: string
  sb_kind :: report_kind
  sb_file :: string
  sb_object :: "string option"
  sb_mapping :: string

text \<open>The result of comparing the two reports of a version; the quantities are printed only.\<close>

record reconciliation_row =
  rr_version :: string
  rr_mapping :: string
  rr_warning :: bool

datatype issue_kind = HARD_INCOMPLETE | SOFT_RECONCILIATION_WARNING

record acknowledgement_row =
  qa_id :: string
  qa_version :: string
  qa_run :: "string option"
  qa_policy :: string
  qa_kind :: issue_kind
  qa_code :: string
  qa_actor :: string
  qa_reason :: string
  qa_confirmations :: int

text \<open>A slice as a request for a calculation finds it.\<close>

record slice_view =
  sv_slice :: string
  sv_version :: string
  sv_month :: string
  sv_status :: version_status
  sv_mappings :: "string list"
  sv_warning :: bool
  sv_hard_ack :: "string option"
  sv_soft_ack :: "string option"
  sv_marketplace :: string
  sv_policy :: "site_policy_row option"

text \<open>
  The inputs a calculation is fixed to, as the object the code writes; versions of formulas and code, the same for every
  run of a release, are left out. The identifiers of overrides are read back from JSON and may be anything there.
\<close>

datatype raw_ids = Absent | Ids "string list" | Malformed

record run_manifest =
  rm_shop :: string
  rm_slices :: "slice_view list"
  rm_price :: string
  rm_policies :: "string list"
  rm_timezones :: string
  rm_fee_version :: string
  rm_fee_policy :: string
  rm_fx_sync :: string
  rm_overrides :: raw_ids
  rm_period :: "AccountingPeriodScope option"
  rm_source_batch :: "string option"
  rm_auto :: bool

record run_row =
  cn_id :: string
  cn_shop :: string
  cn_status :: run_status
  cn_manifest :: run_manifest
  cn_fee_version :: string
  cn_sha :: string
  cn_requested_by :: string
  cn_failure :: "string option"

record run_slice_row =
  cs_run :: string
  cs_slice :: string
  cs_version :: string
  cs_disposition :: SnapshotSliceDisposition
  cs_mappings :: "string list"
  cs_hard_reasons :: "string list"
  cs_hard_ack :: "string option"
  cs_soft_ack :: "string option"

record snapshot_row =
  sn_id :: string
  sn_shop :: string
  sn_run :: string
  sn_sha :: string
  sn_published_by :: string

record snapshot_slice_row =
  ss_snapshot :: string
  ss_slice :: string
  ss_version :: string
  ss_disposition :: SnapshotSliceDisposition
  ss_run :: string

text \<open>The stored answer under an idempotency key of publishing.\<close>

record publish_key_row =
  pk_actor :: string
  pk_scope :: string
  pk_key :: string
  pk_hash :: string
  pk_snapshot :: "string option"

text \<open>The latest finished synchronisation of rates and the manual rates (with what each replaces) come from elsewhere.\<close>

record dataset_db = upload_db +
  site_policies :: "site_policy_row list"
  slices :: "slice_row list"
  versions :: "version_row list"
  bindings :: "binding_row list"
  reconciliations :: "reconciliation_row list"
  acknowledgements :: "acknowledgement_row list"
  fx_sync_run :: "string option"
  fx_override_rows :: "(string \<times> string option) list"
  runs :: "run_row list"
  run_slices :: "run_slice_row list"
  snapshots :: "snapshot_row list"
  snapshot_slices :: "snapshot_slice_row list"
  current_snapshots :: "(string \<times> string) list"
  publish_keys :: "publish_key_row list"

section \<open>Reading\<close>

text \<open>The policy of a marketplace in force when a version was made: the latest one that had begun and not ended.\<close>

definition policy_applies :: "string \<Rightarrow> nat \<Rightarrow> site_policy_row \<Rightarrow> bool" where
  "policy_applies m t p \<longleftrightarrow> mp_marketplace p = m \<and> mp_from p \<le> t \<and> (case mp_to p of None \<Rightarrow> True | Some e \<Rightarrow> t < e)"

fun policy_in_force :: "string \<Rightarrow> nat \<Rightarrow> site_policy_row list \<Rightarrow> site_policy_row option" where
  "policy_in_force m t [] = None"
| "policy_in_force m t (p # ps) =
     (if policy_applies m t p
      then (case policy_in_force m t ps of
              None \<Rightarrow> Some p
            | Some q \<Rightarrow> if mp_from q < mp_from p \<or> mp_from q = mp_from p \<and> mp_id q < mp_id p then Some p else Some q)
      else policy_in_force m t ps)"

definition slice_of :: "string \<Rightarrow> 'z dataset_db_scheme \<Rightarrow> slice_row option" where
  "slice_of i db = first_row (\<lambda>s. ds_id s = i) (slices db)"

definition version_of :: "string \<Rightarrow> 'z dataset_db_scheme \<Rightarrow> version_row option" where
  "version_of i db = first_row (\<lambda>v. dv_id v = i) (versions db)"

definition batch_row :: "string \<Rightarrow> 'z dataset_db_scheme \<Rightarrow> import_batch_row option" where
  "batch_row i db = first_row (\<lambda>b. ib_id b = i) (import_batches db)"

text \<open>A version of a shop with its slice.\<close>

definition version_in_shop :: "string \<Rightarrow> string \<Rightarrow> 'z dataset_db_scheme \<Rightarrow> (version_row \<times> slice_row) option" where
  "version_in_shop shopId versionId db =
     (case version_of versionId db of
        None \<Rightarrow> None
      | Some v \<Rightarrow>
          (case slice_of (dv_slice_id v) db of
             None \<Rightarrow> None
           | Some s \<Rightarrow> if ds_shop_id s = shopId then Some (v, s) else None))"

text \<open>\<open>ORDER BY created_at DESC LIMIT 1\<close>.\<close>

definition latest_ack :: "(acknowledgement_row \<Rightarrow> bool) \<Rightarrow> 'z dataset_db_scheme \<Rightarrow> string option" where
  "latest_ack p db = map_option qa_id (first_row p (rev (acknowledgements db)))"

definition unbound_ack :: "string \<Rightarrow> issue_kind \<Rightarrow> acknowledgement_row \<Rightarrow> bool" where
  "unbound_ack v k q \<longleftrightarrow> qa_version q = v \<and> qa_run q = None \<and> qa_kind q = k"

definition touch_shop :: "string \<Rightarrow> string \<Rightarrow> 'z dataset_db_scheme \<Rightarrow> 'z dataset_db_scheme" where
  "touch_shop shopId actorId db =
     db\<lparr>shops := update_rows (\<lambda>s. sh_id s = shopId) (\<lambda>s. s\<lparr>sh_last_operated_by := actorId\<rparr>) (shops db)\<rparr>"

section \<open>Acknowledging a defect\<close>

definition insert_acknowledgement :: "acknowledgement_row \<Rightarrow> 'z dataset_db_scheme \<Rightarrow> 'z dataset_db_scheme result" where
  "insert_acknowledgement q db =
     (if btrim (qa_reason q) = [] then Inl (SqlError ''23514'' ''quality_acknowledgement_reason_check'')
      else if qa_confirmations q \<notin> {1, 2} then Inl (SqlError ''23514'' ''quality_acknowledgement_confirmation_count_check'')
      else if \<exists>r \<in> set (acknowledgements db). qa_id r = qa_id q then Inl (SqlError ''23505'' ''quality_acknowledgement_pkey'')
      else Inr (db\<lparr>acknowledgements := acknowledgements db @ [q]\<rparr>))"

definition issue_kind_of :: "version_row \<Rightarrow> issue_kind" where
  "issue_kind_of v = (if dv_status v = DV_INCOMPLETE then HARD_INCOMPLETE else SOFT_RECONCILIATION_WARNING)"

definition acknowledge ::
    "string \<Rightarrow> string \<Rightarrow> string \<Rightarrow> string \<Rightarrow> string \<Rightarrow> string \<Rightarrow> 'z dataset_db_scheme \<Rightarrow> (string \<times> 'z dataset_db_scheme) result" where
  "acknowledge newId shopId issueId actorId reason confirmations db =
     (case version_in_shop shopId issueId db of
        None \<Rightarrow> Inl (PlainError ''QUALITY_ISSUE_NOT_FOUND'')
      | Some (v, s) \<Rightarrow>
          (case policy_in_force (ds_marketplace s) (dv_created_at v) (site_policies db) of
             None \<Rightarrow> Inl (PlainError ''QUALITY_ISSUE_NOT_FOUND'')
           | Some policy \<Rightarrow>
               bindE (js_bigint confirmations) (\<lambda>n.
               if n < 1 \<or> n > 2 then Inl (PlainError ''INVALID_CONFIRMATIONS'')
               else let k = issue_kind_of v in
                 case latest_ack (unbound_ack (dv_id v) k) db of
                   Some i \<Rightarrow> Inr (i, touch_shop shopId actorId db)
                 | None \<Rightarrow>
                     bindE (insert_acknowledgement
                       \<lparr> qa_id = newId, qa_version = dv_id v, qa_run = None, qa_policy = mp_id policy, qa_kind = k,
                         qa_code = ''ACCOUNTANT_ACKNOWLEDGED'', qa_actor = actorId, qa_reason = reason, qa_confirmations = n \<rparr> db)
                     (\<lambda>db1. Inr (newId, touch_shop shopId actorId db1)))))"

section \<open>Going back to an earlier version\<close>

definition set_current :: "string \<Rightarrow> string \<Rightarrow> 'z dataset_db_scheme \<Rightarrow> 'z dataset_db_scheme" where
  "set_current sliceId versionId db =
     db\<lparr>slices := update_rows (\<lambda>s. ds_id s = sliceId) (\<lambda>s. s\<lparr>ds_current := Some versionId\<rparr>) (slices db)\<rparr>"

definition rolled_back_record :: "string \<Rightarrow> string \<Rightarrow> string \<Rightarrow> AuditRecord" where
  "rolled_back_record actorId versionId reason =
     \<lparr> au_actorAccountId = Some actorId, au_actorRoles = [], au_objectType = ''dataset_version'', au_objectId = versionId,
       au_action = ''DATASET_ROLLED_BACK'', au_succeeded = True, au_reason = Some reason, au_requestId = [],
       au_before = None, au_after = None \<rparr>"

definition rollback :: "string \<Rightarrow> string \<Rightarrow> string \<Rightarrow> string \<Rightarrow> 'z dataset_db_scheme \<Rightarrow> 'z dataset_db_scheme result" where
  "rollback shopId versionId actorId reason db =
     (case version_in_shop shopId versionId db of
        None \<Rightarrow> Inl (PlainError ''DATASET_VERSION_NOT_FOUND'')
      | Some (v, s) \<Rightarrow>
          Inr (touch_shop shopId actorId
            (audit (rolled_back_record actorId versionId reason) (set_current (ds_id s) versionId db))))"

section \<open>Confirming an import\<close>

definition RETRYABLE_COMMIT_FAILURES :: "string list" where
  "RETRYABLE_COMMIT_FAILURES = [''IMPORT_DATABASE_CAPACITY_UNAVAILABLE'', ''IMPORT_DATABASE_CAPACITY_INSUFFICIENT'']"

definition confirmed_already :: "import_status \<Rightarrow> bool" where
  "confirmed_already s \<longleftrightarrow> s \<in> {IB_COMMITTING, IB_COMMITTED, IB_COMMITTED_WITH_EXCLUSIONS, IB_CALCULATING,
     IB_READY_FOR_REVIEW, IB_RESULT_PUBLISHING, IB_RESULT_PUBLISHED}"

text \<open>The months of a batch; the database compares them as dates of their first days.\<close>

definition month_within :: "string option \<Rightarrow> string option \<Rightarrow> string \<Rightarrow> bool" where
  "month_within from_month to_month m \<longleftrightarrow>
     (case from_month of None \<Rightarrow> True | Some a \<Rightarrow> a \<le> m) \<and> (case to_month of None \<Rightarrow> True | Some e \<Rightarrow> m \<le> e)"

text \<open>The current incomplete versions whose exclusion nobody acknowledged.\<close>

definition unacknowledged_incomplete :: "string \<Rightarrow> import_batch_row \<Rightarrow> 'z dataset_db_scheme \<Rightarrow> slice_row \<Rightarrow> bool" where
  "unacknowledged_incomplete shopId b db s \<longleftrightarrow>
     ds_shop_id s = shopId \<and> month_within (ib_start b) (ib_end b) (ds_month s)
     \<and> (\<exists>v \<in> set (versions db). ds_current s = Some (dv_id v) \<and> dv_status v = DV_INCOMPLETE
          \<and> \<not> (\<exists>q \<in> set (acknowledgements db). unbound_ack (dv_id v) HARD_INCOMPLETE q))"

definition set_batch_state ::
    "string \<Rightarrow> import_status \<Rightarrow> import_stage \<Rightarrow> string option \<Rightarrow> 'z dataset_db_scheme \<Rightarrow> 'z dataset_db_scheme" where
  "set_batch_state i st stage failure =
     set_import i (\<lambda>b. b\<lparr>ib_status := st, ib_stage := stage, ib_failure := failure\<rparr>)"

definition confirmImportBatch ::
    "string \<Rightarrow> string \<Rightarrow> string \<Rightarrow> string \<Rightarrow> string \<Rightarrow> 'z dataset_db_scheme \<Rightarrow> (import_status \<times> 'z dataset_db_scheme) result" where
  "confirmImportBatch eventId shopId batchId actorId key db =
     (case first_row (\<lambda>b. ib_id b = batchId \<and> ib_shop_id b = shopId) (import_batches db) of
        None \<Rightarrow> Inl (PlainError ''IMPORT_BATCH_NOT_FOUND'')
      | Some b \<Rightarrow>
          if confirmed_already (ib_status b) then Inr (ib_status b, db)
          else if ib_status b = IB_FAILED \<and> ib_failure b = Some ''HARD_INCOMPLETE_CONFIRMATION_REQUIRED'' then
            if \<exists>s \<in> set (slices db). unacknowledged_incomplete shopId b db s
            then Inl (PlainError ''HARD_INCOMPLETE_CONFIRMATION_REQUIRED'')
            else Inr (IB_COMMITTED_WITH_EXCLUSIONS,
              touch_shop shopId actorId
                (outbox_insert \<lparr> ob_id = eventId, ob_topic = ''calculation.requested'',
                     ob_business_key = ''resume:'' @ batchId @ '':'' @ key,
                     ob_payload = [(''batchId'', Some batchId), (''actorAccountId'', Some actorId)] \<rparr>
                  (set_batch_state batchId IB_COMMITTED_WITH_EXCLUSIONS Stage_COMMITTED None db)))
          else if ib_status b \<noteq> IB_AWAITING_COMMIT_CONFIRMATION
              \<and> \<not> (ib_status b = IB_FAILED \<and> (case ib_failure b of None \<Rightarrow> False | Some f \<Rightarrow> f \<in> set RETRYABLE_COMMIT_FAILURES))
          then Inl (PlainError ''IMPORT_BATCH_NOT_READY'')
          else Inr (IB_COMMITTING,
            touch_shop shopId actorId
              (outbox_insert \<lparr> ob_id = eventId, ob_topic = ''import.commit'', ob_business_key = batchId @ '':'' @ key,
                   ob_payload = [(''batchId'', Some batchId), (''shopId'', Some shopId), (''actorAccountId'', Some actorId)] \<rparr>
                (set_batch_state batchId IB_COMMITTING Stage_COPY None db))))"

end
