(* ===== verification/Commits.thy ===== *)
theory Commits
  imports Datasets "HOL-Library.Product_Lexorder"
begin

text \<open>
  Committing an import: \<open>src/modules/imports/postgres-commit.ts\<close>. The parsed and normalised rows of the files of a batch
  become new versions of the slices they belong to, the current versions of those slices are superseded, and a batch
  whose commit fails for a known reason keeps that reason. Reading the files is a parameter: the rows it stages, or the
  error it throws.
\<close>

section \<open>Room in the database\<close>

record capacity_estimate =
  stagingBytes :: int
  walBytes :: int
  safetyBytes :: int
  requiredBytes :: int

definition estimateImportDatabaseCapacity :: "int \<Rightarrow> capacity_estimate result" where
  "estimateImportDatabaseCapacity sourceBytes =
     (if sourceBytes < 0 then Inl (PlainError ''IMPORT_SOURCE_SIZE_INVALID'')
      else let staging = sourceBytes * 2; wal = sourceBytes * 2; base = staging + wal; safety = (base + 3) div 4 in
        Inr \<lparr> stagingBytes = staging, walBytes = wal, safetyBytes = safety, requiredBytes = base + safety \<rparr>)"

text \<open>The free bytes of the data directory and of the log's, \<open>None\<close> where they cannot be told.\<close>

fun enough_room :: "int \<Rightarrow> int option list \<Rightarrow> unit result" where
  "enough_room required [] = Inr ()"
| "enough_room required (None # ds) = Inl (PlainError ''IMPORT_DATABASE_CAPACITY_UNAVAILABLE'')"
| "enough_room required (Some free # ds) =
     (if free < required then Inl (PlainError ''IMPORT_DATABASE_CAPACITY_INSUFFICIENT'') else enough_room required ds)"

definition assertImportDatabaseCapacity :: "int \<Rightarrow> int option list option \<Rightarrow> unit result" where
  "assertImportDatabaseCapacity sourceBytes disks =
     bindE (estimateImportDatabaseCapacity sourceBytes) (\<lambda>e.
     case disks of None \<Rightarrow> Inl (PlainError ''IMPORT_DATABASE_CAPACITY_UNAVAILABLE'') | Some ds \<Rightarrow> enough_room (requiredBytes e) ds)"

section \<open>Staged rows\<close>

text \<open>
  Of a row what the versions are made from: \<open>sg_order\<close> is \<open>type = 'ORDER'\<close>, \<open>sg_counts\<close> that the type is an order in
  one of the languages, \<open>sg_merchant\<close> that the merchant fulfils it; quantities are in units of eight places. A file is
  a parsed file of the batch.
\<close>

record stage_row =
  sg_kind :: report_kind
  sg_file :: string
  sg_marketplace :: string
  sg_month :: string
  sg_order :: bool
  sg_counts :: bool
  sg_merchant :: bool
  sg_quantity :: int

record parsed_file =
  pf_id :: string
  pf_object :: "string option"
  pf_mapping :: string

record commit_env =
  cm_now :: nat
  cm_slice_id :: "string \<Rightarrow> string \<Rightarrow> string"
  cm_version_id :: "string \<Rightarrow> string"
  cm_event_id :: string

section \<open>The new versions\<close>

record version_input =
  vi_marketplace :: string
  vi_month :: string
  vi_rows :: "stage_row list"
  vi_retired :: bool

definition kinds_of :: "stage_row list \<Rightarrow> report_kind list" where
  "kinds_of rows = filter (\<lambda>k. list_ex (\<lambda>r. sg_kind r = k) rows) [SHIPMENT, TRANSACTION]"

definition has_merchant_order :: "stage_row list \<Rightarrow> bool" where
  "has_merchant_order rows \<longleftrightarrow> list_ex (\<lambda>r. sg_kind r = TRANSACTION \<and> sg_order r \<and> sg_merchant r) rows"

definition has_non_merchant_order :: "stage_row list \<Rightarrow> bool" where
  "has_non_merchant_order rows \<longleftrightarrow> list_ex (\<lambda>r. sg_kind r = TRANSACTION \<and> sg_order r \<and> \<not> sg_merchant r) rows"

text \<open>Shipments suffice; transactions alone only when all orders are the merchant's own.\<close>

definition complete :: "version_input \<Rightarrow> bool" where
  "complete v \<longleftrightarrow> \<not> vi_retired v
     \<and> (SHIPMENT \<in> set (kinds_of (vi_rows v))
        \<or> kinds_of (vi_rows v) = [TRANSACTION] \<and> has_merchant_order (vi_rows v) \<and> \<not> has_non_merchant_order (vi_rows v))"

definition staged_slice_input :: "stage_row list \<Rightarrow> version_input list" where
  "staged_slice_input rows =
     map (\<lambda>(m, k). \<lparr> vi_marketplace = k, vi_month = m,
         vi_rows = filter (\<lambda>r. sg_month r = m \<and> sg_marketplace r = k) rows, vi_retired = False \<rparr>)
       (sort (remdups (map (\<lambda>r. (sg_month r, sg_marketplace r)) rows)))"

text \<open>The slices whose current version was made from files of this batch only.\<close>

definition replayed :: "parsed_file list \<Rightarrow> 'z dataset_db_scheme \<Rightarrow> slice_row \<Rightarrow> bool" where
  "replayed files db s \<longleftrightarrow>
     (case ds_current s of
        None \<Rightarrow> False
      | Some v \<Rightarrow>
          list_ex (\<lambda>b. sb_version b = v \<and> sb_object b \<noteq> None \<and> sb_object b \<in> pf_object ` set files) (bindings db)
          \<and> list_all (\<lambda>b. sb_version b = v \<longrightarrow> sb_object b \<noteq> None \<and> sb_object b \<in> pf_object ` set files) (bindings db))"

definition retired_slice_input :: "string \<Rightarrow> parsed_file list \<Rightarrow> stage_row list \<Rightarrow> 'z dataset_db_scheme \<Rightarrow> version_input list" where
  "retired_slice_input shopId files rows db =
     map (\<lambda>s. \<lparr> vi_marketplace = ds_marketplace s, vi_month = ds_month s, vi_rows = [], vi_retired = True \<rparr>)
       (filter (\<lambda>s. ds_shop_id s = shopId \<and> replayed files db s
          \<and> \<not> list_ex (\<lambda>r. sg_month r = ds_month s \<and> sg_marketplace r = ds_marketplace s) rows) (slices db))"

text \<open>\<open>INSERT INTO dataset_slice ... ON CONFLICT\<close>.\<close>

definition upsert_slice :: "commit_env \<Rightarrow> string \<Rightarrow> version_input \<Rightarrow> 'z dataset_db_scheme \<Rightarrow> (slice_row \<times> 'z dataset_db_scheme) result" where
  "upsert_slice env shopId v db =
     (case first_row (\<lambda>s. ds_shop_id s = shopId \<and> ds_marketplace s = vi_marketplace v \<and> ds_month s = vi_month v) (slices db) of
        Some s \<Rightarrow> Inr (s, db)
      | None \<Rightarrow>
          let s = \<lparr> ds_id = cm_slice_id env (vi_marketplace v) (vi_month v), ds_shop_id = shopId, ds_marketplace = vi_marketplace v,
              ds_month = vi_month v, ds_current = None \<rparr> in
          if \<exists>x \<in> set (slices db). ds_id x = ds_id s then Inl (SqlError ''23505'' ''dataset_slice_pkey'')
          else Inr (s, db\<lparr>slices := slices db @ [s]\<rparr>))"

definition version_no :: "string \<Rightarrow> 'z dataset_db_scheme \<Rightarrow> nat" where
  "version_no sliceId db = Suc (fold max (map dv_no (filter (\<lambda>v. dv_slice_id v = sliceId) (versions db))) 0)"

definition new_bindings :: "string \<Rightarrow> parsed_file list \<Rightarrow> stage_row list \<Rightarrow> binding_row list" where
  "new_bindings versionId files rows =
     concat (map (\<lambda>(k, f). map (\<lambda>p. \<lparr> sb_version = versionId, sb_kind = k, sb_file = f, sb_object = pf_object p, sb_mapping = pf_mapping p \<rparr>)
                     (filter (\<lambda>p. pf_id p = f) files))
       (remdups (map (\<lambda>r. (sg_kind r, sg_file r)) rows)))"

text \<open>The mapping of the first file, one with transactions before one with shipments.\<close>

definition mapping_input :: "parsed_file list \<Rightarrow> stage_row list \<Rightarrow> string option" where
  "mapping_input files rows =
     (let first = (\<lambda>k. sort (map sg_file (filter (\<lambda>r. sg_kind r = k) rows)));
          mapping = (\<lambda>f. map_option pf_mapping (first_row (\<lambda>p. pf_id p = f) files)) in
      case first TRANSACTION @ first SHIPMENT of [] \<Rightarrow> None | f # _ \<Rightarrow> mapping f)"

definition quantity_of :: "(stage_row \<Rightarrow> bool) \<Rightarrow> stage_row list \<Rightarrow> int" where
  "quantity_of p rows = sum_list (map sg_quantity (filter p rows))"

text \<open>Both reports are there and count different quantities; the merchant's own orders have no shipments.\<close>

definition quantities_differ :: "stage_row list \<Rightarrow> bool" where
  "quantities_differ rows \<longleftrightarrow> kinds_of rows = [SHIPMENT, TRANSACTION]
     \<and> quantity_of (\<lambda>r. sg_kind r = SHIPMENT) rows \<noteq> quantity_of (\<lambda>r. sg_kind r = TRANSACTION \<and> sg_counts r \<and> \<not> sg_merchant r) rows"

definition new_reconciliations :: "string \<Rightarrow> parsed_file list \<Rightarrow> stage_row list \<Rightarrow> reconciliation_row list" where
  "new_reconciliations versionId files rows =
     (case mapping_input files rows of
        None \<Rightarrow> []
      | Some m \<Rightarrow> [\<lparr> rr_version = versionId, rr_mapping = m, rr_warning = quantities_differ rows \<rparr>])"

definition supersede :: "string option \<Rightarrow> version_row list \<Rightarrow> version_row list" where
  "supersede old = update_rows (\<lambda>v. Some (dv_id v) = old) (\<lambda>v. v\<lparr>dv_status := DV_SUPERSEDED\<rparr>)"

text \<open>The record of a slice that a replay leaves without rows; its reason is a fixed sentence.\<close>

definition retired_record :: "string \<Rightarrow> string \<Rightarrow> AuditRecord" where
  "retired_record actorId versionId =
     \<lparr> au_actorAccountId = Some actorId, au_actorRoles = [], au_objectType = ''dataset_version'', au_objectId = versionId,
       au_action = ''DATASET_SLICE_RETIRED_BY_SOURCE_REPLAY'', au_succeeded = True,
       au_reason = Some ''the replayed sources have no rows of this marketplace and month'', au_requestId = [], au_before = None, au_after = None \<rparr>"

definition materialize_version ::
    "commit_env \<Rightarrow> string \<Rightarrow> string \<Rightarrow> string \<Rightarrow> parsed_file list \<Rightarrow> version_input \<Rightarrow> 'z dataset_db_scheme \<Rightarrow> 'z dataset_db_scheme result" where
  "materialize_version env shopId batchId actorId files v db =
     bindE (upsert_slice env shopId v db) (\<lambda>(s, db1).
     let i = cm_version_id env (ds_id s) in
     if \<exists>x \<in> set (versions db1). dv_id x = i then Inl (SqlError ''23505'' ''dataset_version_pkey'')
     else Inr (db1\<lparr>
       versions := supersede (ds_current s) (versions db1) @
         [\<lparr> dv_id = i, dv_slice_id = ds_id s, dv_batch_id = batchId, dv_no = version_no (ds_id s) db1,
            dv_status = (if complete v then DV_ACTIVE else DV_INCOMPLETE), dv_supersedes = ds_current s, dv_created_at = cm_now env \<rparr>],
       slices := update_rows (\<lambda>x. ds_id x = ds_id s) (\<lambda>x. x\<lparr>ds_current := Some i\<rparr>) (slices db1),
       bindings := bindings db1 @ new_bindings i files (vi_rows v),
       reconciliations := reconciliations db1 @ new_reconciliations i files (vi_rows v),
       audits := audits db1 @ (if vi_retired v then [retired_record actorId i] else [])\<rparr>))"

fun materialize_versions ::
    "commit_env \<Rightarrow> string \<Rightarrow> string \<Rightarrow> string \<Rightarrow> parsed_file list \<Rightarrow> version_input list \<Rightarrow> 'z dataset_db_scheme \<Rightarrow> 'z dataset_db_scheme result" where
  "materialize_versions env shopId batchId actorId files [] db = Inr db"
| "materialize_versions env shopId batchId actorId files (v # vs) db =
     bindE (materialize_version env shopId batchId actorId files v db) (materialize_versions env shopId batchId actorId files vs)"

definition materializeImportSlices ::
    "commit_env \<Rightarrow> string \<Rightarrow> string \<Rightarrow> string \<Rightarrow> parsed_file list \<Rightarrow> stage_row list \<Rightarrow> 'z dataset_db_scheme
     \<Rightarrow> (version_input list \<times> 'z dataset_db_scheme) result" where
  "materializeImportSlices env shopId batchId actorId files rows db =
     (let inputs = staged_slice_input rows @ retired_slice_input shopId files rows db in
      bindE (materialize_versions env shopId batchId actorId files inputs db) (\<lambda>db1. Inr (inputs, db1)))"

section \<open>Failures that are kept\<close>

definition SAFE_COMMIT_CODES :: "string list" where
  "SAFE_COMMIT_CODES =
     [''IMPORT_UNKNOWN_MARKETPLACE'', ''IMPORT_FINANCIAL_VALUE_REQUIRED'', ''IMPORT_FINANCIAL_VALUE_INVALID'',
      ''IMPORT_REPORT_DATE_INVALID'', ''IMPORT_DATABASE_CAPACITY_INSUFFICIENT'', ''IMPORT_DATABASE_CAPACITY_UNAVAILABLE'',
      ''IMPORT_DELIMITED_RECORD_TOO_LARGE'', ''NO_USABLE_IMPORT_ROWS'', ''SOURCE_REPLAY_CURRENT_CLOSURE_CHANGED'']"

text \<open>\<open>/^42[A-Z0-9]{3}$/u\<close>.\<close>

definition sql_syntax_code :: "string \<Rightarrow> bool" where
  "sql_syntax_code c \<longleftrightarrow> length c = 5 \<and> take 2 c = ''42'' \<and> list_all (\<lambda>x. is_digit x \<or> is_upper x) (drop 2 c)"

text \<open>The code with the file, row and field; an error of a row carries them, here beside the error.\<close>

definition safeImportCommitFailureCode :: "err \<Rightarrow> string option" where
  "safeImportCommitFailureCode e =
     (case e of
        SqlError c n \<Rightarrow> if sql_syntax_code c then Some ''IMPORT_QUERY_INVALID'' else None
      | PlainError m \<Rightarrow> if m \<in> set SAFE_COMMIT_CODES then Some m else None
      | _ \<Rightarrow> None)"

definition fail_batch ::
    "string \<Rightarrow> (import_batch_row \<Rightarrow> bool) \<Rightarrow> import_stage \<Rightarrow> string \<Rightarrow> issue_context \<Rightarrow> 'z upload_db_scheme \<Rightarrow> 'z upload_db_scheme" where
  "fail_batch batchId p stage code context db =
     (if list_ex (\<lambda>b. ib_id b = batchId \<and> p b) (import_batches db)
      then db\<lparr>import_batches := update_rows (\<lambda>b. ib_id b = batchId \<and> p b)
                 (\<lambda>b. b\<lparr>ib_status := IB_FAILED, ib_stage := stage, ib_failure := Some code\<rparr>) (import_batches db),
              import_issues := (if list_ex (\<lambda>i. ii_batch i = batchId \<and> ii_code i = code \<and> ii_context i = context) (import_issues db)
                then import_issues db
                else import_issues db @ [\<lparr> ii_batch = batchId, ii_code = code, ii_context = context \<rparr>])\<rparr>
      else db)"

definition committing :: "import_batch_row \<Rightarrow> bool" where
  "committing b \<longleftrightarrow> ib_status b = IB_COMMITTING"

definition persistSafeFailure ::
    "string \<Rightarrow> string \<Rightarrow> string option \<times> string option \<times> string option \<Rightarrow> 'z upload_db_scheme \<Rightarrow> 'z upload_db_scheme" where
  "persistSafeFailure batchId code place =
     (case place of (f, r, c) \<Rightarrow> fail_batch batchId committing Stage_COMMIT_FAILED code (Commit_row f r c))"

definition markImportCommitFailed :: "string \<Rightarrow> string \<Rightarrow> 'z upload_db_scheme \<Rightarrow> 'z upload_db_scheme" where
  "markImportCommitFailed batchId code =
     fail_batch batchId committing Stage_COMMIT_FAILED code (Job_failure ''COMMIT'' ''WORKER_RETRY_EXHAUSTED'')"

section \<open>The commit\<close>

definition committed_already :: "import_status \<Rightarrow> bool" where
  "committed_already s \<longleftrightarrow> s \<in> {IB_COMMITTED, IB_COMMITTED_WITH_EXCLUSIONS, IB_CALCULATING, IB_READY_FOR_REVIEW}"

text \<open>
  \<open>staged\<close> is what the check of room and the reading of the files give: the parsed files with the rows they stage and how
  many rows were left out. The counts of the files are not kept here; for a replay by an administrator \<open>closure\<close> is the
  check that its sources are still current, and the acknowledgements it inherits are left out.
\<close>

definition commit_tx ::
    "commit_env \<Rightarrow> (parsed_file list \<times> stage_row list \<times> nat) result \<Rightarrow> unit result \<Rightarrow> string \<Rightarrow> string \<Rightarrow> 'z dataset_db_scheme
     \<Rightarrow> 'z dataset_db_scheme result" where
  "commit_tx env staged closure batchId actorId db =
     (case batch_row batchId db of
        None \<Rightarrow> Inl (PlainError ''IMPORT_BATCH_NOT_COMMITTING'')
      | Some b \<Rightarrow>
          if committed_already (ib_status b) then Inr db
          else if ib_status b \<noteq> IB_COMMITTING then Inl (PlainError ''IMPORT_BATCH_NOT_COMMITTING'')
          else bindE staged (\<lambda>(files, rows, excluded).
            bindE closure (\<lambda>_.
            bindE (materializeImportSlices env (ib_shop_id b) batchId actorId files rows db) (\<lambda>(inputs, db1).
            if list_all vi_retired inputs then Inl (PlainError ''NO_USABLE_IMPORT_ROWS'')
            else Inr (outbox_insert \<lparr> ob_id = cm_event_id env, ob_topic = ''calculation.requested'', ob_business_key = batchId,
                     ob_payload = [(''batchId'', Some batchId), (''actorAccountId'', Some actorId)] \<rparr>
                (set_import batchId (\<lambda>b. b\<lparr>ib_status := (if 0 < excluded then IB_COMMITTED_WITH_EXCLUSIONS else IB_COMMITTED),
                   ib_stage := Stage_COMMITTED\<rparr>) db1))))))"

definition commitImportBatch ::
    "commit_env \<Rightarrow> (parsed_file list \<times> stage_row list \<times> nat) result \<Rightarrow> unit result \<Rightarrow> string option \<times> string option \<times> string option
     \<Rightarrow> string \<Rightarrow> string \<Rightarrow> 'z dataset_db_scheme \<Rightarrow> unit result \<times> 'z dataset_db_scheme" where
  "commitImportBatch env staged closure place batchId actorId db =
     (case commit_tx env staged closure batchId actorId db of
        Inr db1 \<Rightarrow> (Inr (), db1)
      | Inl e \<Rightarrow>
          (Inl e, case safeImportCommitFailureCode e of None \<Rightarrow> db | Some code \<Rightarrow> persistSafeFailure batchId code place db))"

end
