(* ===== verification/Calculations.thy ===== *)
theory Calculations
  imports Datasets Period
begin

text \<open>
  Asking for a calculation: \<open>requestCalculation\<close> of \<open>src/modules/publishing/postgres-service.ts\<close> freezes the current
  versions of a shop with their policies, acknowledgements and rates in a manifest, under which there is one run, and
  decides what becomes of each slice. The status changes of \<open>src/modules/calculation/postgres-runner.ts\<close> follow.
\<close>

section \<open>The shop as it is\<close>

definition view_of :: "'z dataset_db_scheme \<Rightarrow> slice_row \<Rightarrow> version_row \<Rightarrow> slice_view" where
  "view_of db s v =
     \<lparr> sv_slice = ds_id s, sv_version = dv_id v, sv_month = ds_month s, sv_status = dv_status v,
       sv_mappings = sort (remdups (map sb_mapping (filter (\<lambda>b. sb_version b = dv_id v) (bindings db)))),
       sv_warning = list_ex (\<lambda>r. rr_version r = dv_id v \<and> rr_warning r) (reconciliations db),
       sv_hard_ack = latest_ack (unbound_ack (dv_id v) HARD_INCOMPLETE) db,
       sv_soft_ack = latest_ack (unbound_ack (dv_id v) SOFT_RECONCILIATION_WARNING) db,
       sv_marketplace = ds_marketplace s,
       sv_policy = policy_in_force (ds_marketplace s) (dv_created_at v) (site_policies db) \<rparr>"

definition current_version :: "'z dataset_db_scheme \<Rightarrow> slice_row \<Rightarrow> version_row option" where
  "current_version db s = (case ds_current s of None \<Rightarrow> None | Some v \<Rightarrow> version_of v db)"

definition current_slices :: "string \<Rightarrow> 'z dataset_db_scheme \<Rightarrow> slice_row list" where
  "current_slices shopId db =
     sort_key ds_id (filter (\<lambda>s. ds_shop_id s = shopId \<and> current_version db s \<noteq> None) (slices db))"

definition slice_views :: "string \<Rightarrow> 'z dataset_db_scheme \<Rightarrow> slice_view list" where
  "slice_views shopId db = map (\<lambda>s. view_of db s (the (current_version db s))) (current_slices shopId db)"

text \<open>\<open>fx_current_override\<close>: the manual rates that nothing replaces.\<close>

definition current_overrides :: "'z dataset_db_scheme \<Rightarrow> string list" where
  "current_overrides db = sort (map fst (filter (\<lambda>(i, _). Some i \<notin> snd ` set (fx_override_rows db)) (fx_override_rows db)))"

section \<open>The manifest\<close>

record calculation_input =
  ci_actor :: string
  ci_source_batch :: "string option"
  ci_auto :: bool

text \<open>The clock, the identifiers drawn and the digests: of the inputs, of the policies (each slice's identifier, marketplace and
  policy go in) and of the fee classification of the running code, \<open>FEE_CLASSIFICATION_POLICY_SHA256\<close>.\<close>

record calculation_env =
  ce_now :: nat
  ce_run_id :: string
  ce_event_id :: string
  ce_ack_id :: "issue_kind \<Rightarrow> string \<Rightarrow> string"
  ce_sha :: "run_manifest \<Rightarrow> string"
  ce_policy_sha :: "(string \<times> string \<times> site_policy_row) list \<Rightarrow> string"
  ce_fee_policy :: string

definition FEE_CLASSIFICATION_VERSION :: string where "FEE_CLASSIFICATION_VERSION = ''transaction-fee-v3''"

definition calculation_period :: "string \<Rightarrow> string option \<Rightarrow> 'z dataset_db_scheme \<Rightarrow> AccountingPeriodScope option result" where
  "calculation_period shopId source db =
     (if \<not> truthy source then Inr None
      else case first_row (\<lambda>b. Some (ib_id b) = source \<and> ib_shop_id b = shopId) (import_batches db) of
          None \<Rightarrow> Inl (PlainError ''SOURCE_IMPORT_BATCH_NOT_FOUND'')
        | Some b \<Rightarrow> parseAccountingPeriodScope (ib_start b) (ib_end b))"

definition in_scope :: "AccountingPeriodScope option \<Rightarrow> slice_view \<Rightarrow> bool" where
  "in_scope period v = accountingPeriodContains period (sv_month v)"

definition scope_checks :: "bool \<Rightarrow> slice_view list \<Rightarrow> slice_view list \<Rightarrow> unit result" where
  "scope_checks auto views scoped =
     (if views = [] then Inl (PlainError ''NO_ACTIVE_DATASET'')
      else if scoped = [] then Inl (PlainError ''NO_ACTIVE_DATASET_IN_ACCOUNTING_PERIOD'')
      else if list_ex (\<lambda>v. sv_policy v = None) scoped then Inl (PlainError ''CALCULATION_MARKETPLACE_POLICY_NOT_INITIALIZED'')
      else if length (remdups (map (\<lambda>v. map_option mp_mode (sv_policy v)) scoped)) \<noteq> 1
      then Inl (PlainError ''CALCULATION_DATE_ATTRIBUTION_MODE_MIXED'')
      else if auto \<and> list_ex (\<lambda>v. sv_status v = DV_INCOMPLETE \<and> \<not> truthy (sv_hard_ack v)) scoped
      then Inl (PlainError ''HARD_INCOMPLETE_CONFIRMATION_REQUIRED'')
      else Inr ())"

definition price_in_force :: "nat \<Rightarrow> string \<Rightarrow> 'z dataset_db_scheme \<Rightarrow> string option" where
  "price_in_force t shopId db =
     (case first_row (\<lambda>s. sh_id s = shopId) (shops db) of
        None \<Rightarrow> None
      | Some s \<Rightarrow> map_option pv_id (latest_price (sh_application_id s) t (price_versions db)))"

definition policy_set :: "slice_view list \<Rightarrow> (string \<times> string \<times> site_policy_row) list" where
  "policy_set scoped = map (\<lambda>v. (sv_slice v, sv_marketplace v, the (sv_policy v))) scoped"

definition run_inputs ::
    "calculation_env \<Rightarrow> string \<Rightarrow> calculation_input \<Rightarrow> AccountingPeriodScope option \<Rightarrow> slice_view list \<Rightarrow> string
     \<Rightarrow> 'z dataset_db_scheme \<Rightarrow> run_manifest" where
  "run_inputs env shopId input period views price db =
     (let policies = policy_set (filter (in_scope period) views) in
      \<lparr> rm_shop = shopId, rm_slices = views, rm_price = price,
        rm_policies = sort (remdups (map (\<lambda>(_, _, p). mp_id p) policies)),
        rm_timezones = ''date-attribution-policy-set:'' @ ce_policy_sha env policies,
        rm_fee_version = FEE_CLASSIFICATION_VERSION, rm_fee_policy = ce_fee_policy env,
        rm_fx_sync = (case fx_sync_run db of None \<Rightarrow> ''NO_FX_SNAPSHOT'' | Some i \<Rightarrow> i),
        rm_overrides = Ids (current_overrides db), rm_period = period,
        rm_source_batch = (if truthy (ci_source_batch input) then ci_source_batch input else None), rm_auto = ci_auto input \<rparr>)"

text \<open>\<open>INSERT ... ON CONFLICT (shop_id, input_manifest_sha256)\<close>: the run of the same inputs is found again.\<close>

definition insert_run :: "calculation_env \<Rightarrow> string \<Rightarrow> run_manifest \<Rightarrow> string \<Rightarrow> 'z dataset_db_scheme \<Rightarrow> (run_row \<times> 'z dataset_db_scheme) result" where
  "insert_run env shopId manifest actorId db =
     (case first_row (\<lambda>r. cn_shop r = shopId \<and> cn_sha r = ce_sha env manifest) (runs db) of
        Some r \<Rightarrow> Inr (r, db)
      | None \<Rightarrow>
          if \<exists>r \<in> set (runs db). cn_id r = ce_run_id env then Inl (SqlError ''23505'' ''calculation_run_pkey'')
          else let r = \<lparr> cn_id = ce_run_id env, cn_shop = shopId, cn_status = QUEUED, cn_manifest = manifest,
                   cn_fee_version = FEE_CLASSIFICATION_VERSION,
                   cn_sha = ce_sha env manifest, cn_requested_by = actorId, cn_failure = None \<rparr> in
            Inr (r, db\<lparr>runs := runs db @ [r]\<rparr>))"

section \<open>Acknowledgements of a run\<close>

definition bound_ack :: "string \<Rightarrow> string \<Rightarrow> issue_kind \<Rightarrow> acknowledgement_row \<Rightarrow> bool" where
  "bound_ack runId v k q \<longleftrightarrow> qa_run q = Some runId \<and> qa_version q = v \<and> qa_kind q = k"

text \<open>A copy of the acknowledgement \<open>source\<close> for the run, unless the run has one of the version.\<close>

definition bindAcknowledgement ::
    "calculation_env \<Rightarrow> string \<Rightarrow> string option \<Rightarrow> issue_kind \<Rightarrow> 'z dataset_db_scheme
     \<Rightarrow> (string option \<times> 'z dataset_db_scheme) result" where
  "bindAcknowledgement env runId source k db =
     (if \<not> truthy source then Inr (None, db)
      else case first_row (\<lambda>q. Some (qa_id q) = source) (acknowledgements db) of
          None \<Rightarrow> Inr (None, db)
        | Some q \<Rightarrow>
            if qa_kind q = k \<and> \<not> (\<exists>b \<in> set (acknowledgements db). bound_ack runId (qa_version q) k b)
            then let i = ce_ack_id env k (qa_version q) in
              bindE (insert_acknowledgement (q\<lparr>qa_id := i, qa_run := Some runId\<rparr>) db) (\<lambda>db1. Inr (Some i, db1))
            else Inr (latest_ack (bound_ack runId (qa_version q) k) db, db))"

definition automaticWarningAcknowledgement ::
    "calculation_env \<Rightarrow> calculation_input \<Rightarrow> string \<Rightarrow> slice_view \<Rightarrow> 'z dataset_db_scheme
     \<Rightarrow> (string option \<times> 'z dataset_db_scheme) result" where
  "automaticWarningAcknowledgement env input runId v db =
     (case sv_policy v of
        None \<Rightarrow> Inr (None, db)
      | Some p \<Rightarrow>
          if \<not> ci_auto input then Inr (None, db)
          else if \<exists>b \<in> set (acknowledgements db). bound_ack runId (sv_version v) SOFT_RECONCILIATION_WARNING b
          then Inr (latest_ack (bound_ack runId (sv_version v) SOFT_RECONCILIATION_WARNING) db, db)
          else let i = ce_ack_id env SOFT_RECONCILIATION_WARNING (sv_version v) in
            bindE (insert_acknowledgement
                \<lparr> qa_id = i, qa_version = sv_version v, qa_run = Some runId, qa_policy = mp_id p,
                  qa_kind = SOFT_RECONCILIATION_WARNING, qa_code = ''IMPORT_AUTO_WARNING_INCLUSION'', qa_actor = ci_actor input,
                  qa_reason = ''included automatically, the difference is disclosed'', qa_confirmations = 1 \<rparr> db)
              (\<lambda>db1. Inr (Some i, db1)))"

section \<open>What becomes of each slice\<close>

definition out_of_scope_row :: "string \<Rightarrow> slice_view \<Rightarrow> run_slice_row" where
  "out_of_scope_row runId v =
     \<lparr> cs_run = runId, cs_slice = sv_slice v, cs_version = sv_version v, cs_disposition = OUT_OF_SCOPE,
       cs_mappings = sv_mappings v, cs_hard_reasons = [], cs_hard_ack = None, cs_soft_ack = None \<rparr>"

definition soft_acknowledgement ::
    "calculation_env \<Rightarrow> calculation_input \<Rightarrow> string \<Rightarrow> slice_view \<Rightarrow> 'z dataset_db_scheme
     \<Rightarrow> (string option \<times> 'z dataset_db_scheme) result" where
  "soft_acknowledgement env input runId v db =
     bindE (bindAcknowledgement env runId (sv_soft_ack v) SOFT_RECONCILIATION_WARNING db) (\<lambda>(a, db1).
     if a = None \<and> sv_warning v then automaticWarningAcknowledgement env input runId v db1 else Inr (a, db1))"

definition resolve_slice ::
    "calculation_env \<Rightarrow> calculation_input \<Rightarrow> AccountingPeriodScope option \<Rightarrow> string \<Rightarrow> slice_view \<Rightarrow> 'z dataset_db_scheme
     \<Rightarrow> (run_slice_row \<times> 'z dataset_db_scheme) result" where
  "resolve_slice env input period runId v db =
     (if \<not> in_scope period v then Inr (out_of_scope_row runId v, db)
      else let hard = (sv_status v = DV_INCOMPLETE) in
        bindE (bindAcknowledgement env runId (sv_hard_ack v) HARD_INCOMPLETE db) (\<lambda>(hardAck, db1).
        bindE (if hard then Inr (None, db1) else soft_acknowledgement env input runId v db1) (\<lambda>(softAck, db2).
        Inr (\<lparr> cs_run = runId, cs_slice = sv_slice v, cs_version = sv_version v,
               cs_disposition = (if hard then HARD_EXCLUDED else if sv_warning v \<and> truthy softAck then INCLUDED_WITH_WARNING else INCLUDED),
               cs_mappings = sv_mappings v, cs_hard_reasons = (if hard then [''HARD_INCOMPLETE''] else []),
               cs_hard_ack = hardAck, cs_soft_ack = (if sv_warning v then softAck else None) \<rparr>, db2))))"

fun resolve_slices ::
    "calculation_env \<Rightarrow> calculation_input \<Rightarrow> AccountingPeriodScope option \<Rightarrow> string \<Rightarrow> slice_view list \<Rightarrow> 'z dataset_db_scheme
     \<Rightarrow> (run_slice_row list \<times> 'z dataset_db_scheme) result" where
  "resolve_slices env input period runId [] db = Inr ([], db)"
| "resolve_slices env input period runId (v # vs) db =
     bindE (resolve_slice env input period runId v db) (\<lambda>(r, db1).
     bindE (resolve_slices env input period runId vs db1) (\<lambda>(rs, db2). Inr (r # rs, db2)))"

definition run_slice_checks :: "run_slice_row \<Rightarrow> bool" where
  "run_slice_checks r \<longleftrightarrow>
     (cs_disposition r = HARD_EXCLUDED \<and> cs_hard_reasons r \<noteq> []
       \<or> cs_disposition r \<noteq> HARD_EXCLUDED \<and> cs_hard_reasons r = [] \<and> cs_hard_ack r = None)
     \<and> (cs_disposition r = INCLUDED_WITH_WARNING \<and> cs_soft_ack r \<noteq> None
       \<or> cs_disposition r \<noteq> INCLUDED_WITH_WARNING \<and> cs_soft_ack r = None)"

text \<open>The checks are made of every row, also of those that are there.\<close>

fun insertCalculationRunSlices :: "run_slice_row list \<Rightarrow> 'z dataset_db_scheme \<Rightarrow> 'z dataset_db_scheme result" where
  "insertCalculationRunSlices [] db = Inr db"
| "insertCalculationRunSlices (r # rs) db =
     (if \<not> run_slice_checks r then Inl (SqlError ''23514'' ''calculation_run_slice_check'')
      else insertCalculationRunSlices rs
        (if \<exists>x \<in> set (run_slices db). cs_run x = cs_run r \<and> cs_slice x = cs_slice r then db
         else db\<lparr>run_slices := run_slices db @ [r]\<rparr>))"

section \<open>The request\<close>

definition enqueue_run :: "string \<Rightarrow> run_row \<Rightarrow> 'z dataset_db_scheme \<Rightarrow> 'z dataset_db_scheme" where
  "enqueue_run eventId r db =
     (if cn_status r = QUEUED
      then outbox_insert \<lparr> ob_id = eventId, ob_topic = ''calculation.run'', ob_business_key = cn_id r,
             ob_payload = [(''runId'', Some (cn_id r))] \<rparr> db
      else db)"

definition requestCalculation ::
    "calculation_env \<Rightarrow> string \<Rightarrow> calculation_input \<Rightarrow> 'z dataset_db_scheme \<Rightarrow> (run_row \<times> 'z dataset_db_scheme) result" where
  "requestCalculation env shopId input db =
     bindE (calculation_period shopId (ci_source_batch input) db) (\<lambda>period.
     let views = slice_views shopId db in
     bindE (scope_checks (ci_auto input) views (filter (in_scope period) views)) (\<lambda>_.
     case price_in_force (ce_now env) shopId db of
       None \<Rightarrow> Inl (PlainError ''CALCULATION_POLICY_NOT_INITIALIZED'')
     | Some price \<Rightarrow>
         bindE (insert_run env shopId (run_inputs env shopId input period views price db) (ci_actor input) db) (\<lambda>(r, db1).
         bindE (resolve_slices env input period (cn_id r) views db1) (\<lambda>(rows, db2).
         bindE (insertCalculationRunSlices rows db2) (\<lambda>db3.
         Inr (r, enqueue_run (ce_event_id env) r db3))))))"

section \<open>The status of a run\<close>

definition run_of :: "string \<Rightarrow> 'z dataset_db_scheme \<Rightarrow> run_row option" where
  "run_of i db = first_row (\<lambda>r. cn_id r = i) (runs db)"

definition enqueueAutoPublish :: "string \<Rightarrow> run_row \<Rightarrow> 'z dataset_db_scheme \<Rightarrow> 'z dataset_db_scheme" where
  "enqueueAutoPublish eventId r db =
     (if \<not> rm_auto (cn_manifest r) then db
      else case rm_source_batch (cn_manifest r) of
          None \<Rightarrow> db
        | Some b \<Rightarrow>
            outbox_insert \<lparr> ob_id = eventId, ob_topic = ''report.auto-publish'', ob_business_key = cn_id r,
              ob_payload = [(''runId'', Some (cn_id r)), (''actorAccountId'', Some (cn_requested_by r)), (''sourceImportBatchId'', Some b)] \<rparr> db)"

definition runnable :: "run_status \<Rightarrow> bool" where
  "runnable s \<longleftrightarrow> s \<in> {QUEUED, RUNNING, BLOCKED}"

text \<open>The run was made by code of the same fee classification.\<close>

definition fee_manifest_valid :: "string \<Rightarrow> run_row \<Rightarrow> bool" where
  "fee_manifest_valid feePolicy r \<longleftrightarrow> cn_fee_version r = FEE_CLASSIFICATION_VERSION
     \<and> rm_fee_version (cn_manifest r) = FEE_CLASSIFICATION_VERSION \<and> rm_fee_policy (cn_manifest r) = feePolicy"

text \<open>\<open>/^[0-9a-f]{8}-[0-9a-f]{4}-[1-5][0-9a-f]{3}-[89ab][0-9a-f]{3}-[0-9a-f]{12}$/iu\<close>.\<close>

definition override_id :: "string \<Rightarrow> bool" where
  "override_id s \<longleftrightarrow> length s = 36 \<and>
     list_all (\<lambda>i. let c = to_lower (s ! i) in
       if i \<in> {8, 13, 18, 23} then c = CHR ''-''
       else if i = 14 then c \<in> set ''12345''
       else if i = 19 then c \<in> set ''89ab''
       else is_digit c \<or> c \<in> set ''abcdef'') [0..<36]"

definition override_manifest_valid :: "run_row \<Rightarrow> bool" where
  "override_manifest_valid r \<longleftrightarrow>
     (case rm_overrides (cn_manifest r) of Absent \<Rightarrow> True | Ids ids \<Rightarrow> list_all override_id ids | Malformed \<Rightarrow> False)"

text \<open>
  \<open>feePolicy\<close> is the digest of the running code's fee classification. \<open>lines\<close> is what loading the rates and drawing
  up and storing the lines of the run gives (\<open>loadFxBook\<close>, \<open>processRunFacts\<close>, \<open>processRunFeeClassifications\<close>); an error
  rolls everything back.
\<close>

definition calculateRun :: "string \<Rightarrow> string \<Rightarrow> unit result \<Rightarrow> string \<Rightarrow> 'z dataset_db_scheme \<Rightarrow> 'z dataset_db_scheme result" where
  "calculateRun feePolicy eventId lines runId db =
     (case run_of runId db of
        None \<Rightarrow> Inl (PlainError ''CALCULATION_RUN_NOT_RUNNABLE'')
      | Some r \<Rightarrow>
          if cn_status r = READY then Inr (enqueueAutoPublish eventId r db)
          else if \<not> runnable (cn_status r) then Inl (PlainError ''CALCULATION_RUN_NOT_RUNNABLE'')
          else if \<not> fee_manifest_valid feePolicy r then Inl (PlainError ''CALCULATION_FEE_CLASSIFICATION_MANIFEST_INVALID'')
          else if \<not> override_manifest_valid r then Inl (PlainError ''CALCULATION_FX_OVERRIDE_MANIFEST_INVALID'')
          else bindE lines (\<lambda>_. Inr (enqueueAutoPublish eventId r
            (db\<lparr>runs := update_rows (\<lambda>x. cn_id x = runId) (\<lambda>x. x\<lparr>cn_status := READY, cn_failure := None\<rparr>) (runs db)\<rparr>))))"

definition before_publishing :: "import_status \<Rightarrow> bool" where
  "before_publishing s \<longleftrightarrow> s \<in> {IB_COMMITTED, IB_COMMITTED_WITH_EXCLUSIONS, IB_CALCULATING}"

definition markCalculationRunFailed :: "string \<Rightarrow> string \<Rightarrow> 'z dataset_db_scheme \<Rightarrow> 'z dataset_db_scheme" where
  "markCalculationRunFailed runId code db =
     (case first_row (\<lambda>r. cn_id r = runId \<and> runnable (cn_status r)) (runs db) of
        None \<Rightarrow> db
      | Some r \<Rightarrow>
          db\<lparr>runs := update_rows (\<lambda>x. cn_id x = runId \<and> runnable (cn_status x)) (\<lambda>x. x\<lparr>cn_status := FAILED, cn_failure := Some code\<rparr>) (runs db),
             import_batches := update_rows
               (\<lambda>b. Some (ib_id b) = rm_source_batch (cn_manifest r) \<and> ib_shop_id b = cn_shop r \<and> before_publishing (ib_status b))
               (\<lambda>b. b\<lparr>ib_status := IB_FAILED, ib_stage := Stage_CALCULATION_BLOCKED, ib_failure := Some code\<rparr>) (import_batches db)\<rparr>)"

end
