(* ===== verification/PublishOps.thy ===== *)
theory PublishOps
  imports Calculations
begin

text \<open>
  The transaction of \<open>Publish\<close> over the tables of \<open>migrations/0009\<close> and the operations of
  \<open>src/modules/publishing/postgres-service.ts\<close> that publish: under an idempotency key by a user, or by the worker once
  the calculation of an import is finished.
\<close>

section \<open>The transaction over the tables\<close>

text \<open>The join gives a slice once for every comparison of its version, once when there is none.\<close>

definition run_slice_view :: "run_slice_row \<Rightarrow> bool \<Rightarrow> CalculationRunSlice" where
  "run_slice_view r warning =
     \<lparr> rs_sliceId = cs_slice r, rs_datasetVersionId = cs_version r, rs_disposition = cs_disposition r,
       rs_hardReasons = cs_hard_reasons r, rs_softWarning = warning,
       rs_hardExclusionAcknowledgementId = cs_hard_ack r, rs_softWarningAcknowledgementId = cs_soft_ack r \<rparr>"

definition joined_slices :: "'z dataset_db_scheme \<Rightarrow> run_slice_row \<Rightarrow> CalculationRunSlice list" where
  "joined_slices db r =
     (case filter (\<lambda>q. rr_version q = cs_version r) (reconciliations db) of
        [] \<Rightarrow> [run_slice_view r False]
      | qs \<Rightarrow> map (\<lambda>q. run_slice_view r (rr_warning q)) qs)"

definition slices_of_run :: "string \<Rightarrow> 'z dataset_db_scheme \<Rightarrow> run_slice_row list" where
  "slices_of_run runId db = sort_key cs_slice (filter (\<lambda>r. cs_run r = runId) (run_slices db))"

definition adapter_getCalculationRun :: "string \<Rightarrow> 'z dataset_db_scheme \<Rightarrow> CalculationRunForPublishing option result" where
  "adapter_getCalculationRun runId db =
     (case run_of runId db of
        None \<Rightarrow> Inr None
      | Some r \<Rightarrow>
          let view = (\<lambda>ids. Inr (Some \<lparr> rp_id = cn_id r, rp_shopId = cn_shop r, rp_status = cn_status r,
            rp_fxOverrideIds = ids, rp_slices = concat (map (joined_slices db) (slices_of_run runId db)) \<rparr>)) in
          case rm_overrides (cn_manifest r) of
            Malformed \<Rightarrow> Inl (PlainError ''CALCULATION_FX_OVERRIDE_MANIFEST_INVALID'')
          | Absent \<Rightarrow> view None
          | Ids ids \<Rightarrow> view (Some ids))"

definition current_versions :: "string \<Rightarrow> 'z dataset_db_scheme \<Rightarrow> (string \<times> string) list" where
  "current_versions shopId db =
     map (\<lambda>s. (ds_id s, the (ds_current s))) (filter (\<lambda>s. ds_shop_id s = shopId \<and> ds_current s \<noteq> None) (slices db))"

text \<open>A snapshot of the run, the one that is there or a new one under \<open>newId\<close>.\<close>

definition adapter_createSnapshot ::
    "string \<Rightarrow> (run_manifest \<Rightarrow> SnapshotSliceInput list \<Rightarrow> string) \<Rightarrow> string \<Rightarrow> string \<Rightarrow> string \<Rightarrow> SnapshotManifest
     \<Rightarrow> 'z dataset_db_scheme \<Rightarrow> (string \<times> 'z dataset_db_scheme) result" where
  "adapter_createSnapshot newId sha shopId runId actorId manifest db =
     (if \<exists>s \<in> set (snapshots db). sn_run s = runId
      then case first_row (\<lambda>s. sn_run s = runId \<and> sn_shop s = shopId) (snapshots db) of
          None \<Rightarrow> Inl (PlainError ''SNAPSHOT_CREATE_FAILED'')
        | Some s \<Rightarrow> Inr (sn_id s, db)
      else case run_of runId db of
          None \<Rightarrow> Inl (SqlError ''23503'' ''published_snapshot_calculation_run_id_fkey'')
        | Some r \<Rightarrow>
            let h = sha (cn_manifest r) (mf_slices manifest) in
            if \<exists>s \<in> set (snapshots db). sn_id s = newId then Inl (SqlError ''23505'' ''published_snapshot_pkey'')
            else if \<exists>s \<in> set (snapshots db). sn_shop s = shopId \<and> sn_sha s = h
            then Inl (SqlError ''23505'' ''published_snapshot_shop_id_manifest_sha256_key'')
            else Inr (newId, db\<lparr>snapshots := snapshots db @
              [\<lparr> sn_id = newId, sn_shop = shopId, sn_run = runId, sn_sha = h, sn_published_by = actorId \<rparr>]\<rparr>))"

fun insert_snapshot_slices :: "string \<Rightarrow> string \<Rightarrow> SnapshotSliceInput list \<Rightarrow> snapshot_slice_row list \<Rightarrow> snapshot_slice_row list" where
  "insert_snapshot_slices snapshotId runId [] t = t"
| "insert_snapshot_slices snapshotId runId (s # ss) t =
     insert_snapshot_slices snapshotId runId ss
       (if \<exists>x \<in> set t. ss_snapshot x = snapshotId \<and> ss_slice x = si_sliceId s then t
        else t @ [\<lparr> ss_snapshot = snapshotId, ss_slice = si_sliceId s, ss_version = si_datasetVersionId s,
                    ss_disposition = si_disposition s, ss_run = runId \<rparr>])"

definition adapter_createSnapshotSlices :: "string \<Rightarrow> SnapshotSliceInput list \<Rightarrow> 'z dataset_db_scheme \<Rightarrow> 'z dataset_db_scheme" where
  "adapter_createSnapshotSlices snapshotId ss db =
     (case first_row (\<lambda>s. sn_id s = snapshotId) (snapshots db) of
        None \<Rightarrow> db
      | Some s \<Rightarrow> db\<lparr>snapshot_slices := insert_snapshot_slices snapshotId (sn_run s) ss (snapshot_slices db)\<rparr>)"

definition adapter_setCurrentSnapshot :: "string \<Rightarrow> string \<Rightarrow> 'z dataset_db_scheme \<Rightarrow> 'z dataset_db_scheme result" where
  "adapter_setCurrentSnapshot shopId snapshotId db =
     (if \<exists>p \<in> set (current_snapshots db). fst p \<noteq> shopId \<and> snd p = snapshotId
      then Inl (SqlError ''23505'' ''shop_current_published_snapshot_published_snapshot_id_key'')
      else Inr (db\<lparr>current_snapshots :=
        (if shopId \<in> fst ` set (current_snapshots db)
         then update_rows (\<lambda>p. fst p = shopId) (\<lambda>p. (shopId, snapshotId)) (current_snapshots db)
         else current_snapshots db @ [(shopId, snapshotId)])\<rparr>))"

definition adapter_appendAudit :: "string \<Rightarrow> string \<Rightarrow> string \<Rightarrow> 'z dataset_db_scheme \<Rightarrow> 'z dataset_db_scheme" where
  "adapter_appendAudit actorId action objectId db =
     (if \<exists>r \<in> set (audits db). au_action r = action \<and> au_objectType r = ''published_snapshot'' \<and> au_objectId r = objectId
      then db
      else audit \<lparr> au_actorAccountId = Some actorId, au_actorRoles = [], au_objectType = ''published_snapshot'',
        au_objectId = objectId, au_action = action, au_succeeded = True, au_reason = None, au_requestId = [],
        au_before = None, au_after = None \<rparr> db)"

definition TransactionAdapter ::
    "string \<Rightarrow> (run_manifest \<Rightarrow> SnapshotSliceInput list \<Rightarrow> string) \<Rightarrow> 'z dataset_db_scheme PublishTransaction" where
  "TransactionAdapter newId sha =
     \<lparr> lockShop = (\<lambda>shopId db. Inr ()),
       getCalculationRun = adapter_getCalculationRun,
       getCurrentSliceVersions = (\<lambda>shopId db. Inr (current_versions shopId db)),
       getCurrentFxOverrideIds = Some (\<lambda>db. Inr (current_overrides db)),
       createSnapshot = adapter_createSnapshot newId sha,
       createSnapshotSlices = (\<lambda>i ss db. Inr (adapter_createSnapshotSlices i ss db)),
       setCurrentSnapshot = adapter_setCurrentSnapshot,
       appendAudit = (\<lambda>a act i db. Inr (adapter_appendAudit a act i db)) \<rparr>"

section \<open>Publishing under a key\<close>

record publish_env =
  pe_snapshot_id :: string
  pe_sha :: "run_manifest \<Rightarrow> SnapshotSliceInput list \<Rightarrow> string"
  pe_hash :: "SnapshotManifest \<Rightarrow> string"

text \<open>The manifest with its slices in the order of their identifiers, of which the digest is taken.\<close>

definition canonicalManifest :: "SnapshotManifest \<Rightarrow> SnapshotManifest" where
  "canonicalManifest m = m\<lparr>mf_slices := sort_key si_sliceId (mf_slices m)\<rparr>"

definition publish_scope :: "string \<Rightarrow> string" where
  "publish_scope shopId = ''report.publish:'' @ shopId"

definition publish_tx ::
    "publish_env \<Rightarrow> SnapshotManifest \<Rightarrow> string \<Rightarrow> string \<Rightarrow> 'z dataset_db_scheme \<Rightarrow> (string \<times> 'z dataset_db_scheme) result" where
  "publish_tx env manifest actorId key db =
     (let scope = publish_scope (mf_shopId manifest); requestHash = pe_hash env (canonicalManifest manifest) in
      case first_row (\<lambda>k. pk_actor k = actorId \<and> pk_scope k = scope \<and> pk_key k = key) (publish_keys db) of
        Some k \<Rightarrow>
          if pk_hash k \<noteq> requestHash then Inl (PlainError ''IDEMPOTENCY_KEY_REUSED_WITH_DIFFERENT_PUBLISH'')
          else if \<not> truthy (pk_snapshot k) then Inl (PlainError ''IDEMPOTENT_PUBLISH_RESPONSE_MISSING'')
          else Inr (the (pk_snapshot k), db)
      | None \<Rightarrow>
          bindE (publishSnapshot (TransactionAdapter (pe_snapshot_id env) (pe_sha env)) actorId manifest db) (\<lambda>(created, db1).
          let db2 = touch_shop (mf_shopId manifest) actorId db1 in
          Inr (created, db2\<lparr>publish_keys := publish_keys db2 @
            [\<lparr> pk_actor = actorId, pk_scope = scope, pk_key = key, pk_hash = requestHash, pk_snapshot = Some created \<rparr>]\<rparr>)))"

text \<open>The batch a run came from is done.\<close>

definition batch_published :: "string \<Rightarrow> string \<Rightarrow> 'z dataset_db_scheme \<Rightarrow> 'z dataset_db_scheme" where
  "batch_published runId shopId db =
     (case run_of runId db of
        None \<Rightarrow> db
      | Some r \<Rightarrow>
          db\<lparr>import_batches := update_rows (\<lambda>b. ib_shop_id b = shopId \<and> Some (ib_id b) = rm_source_batch (cn_manifest r))
              (\<lambda>b. b\<lparr>ib_status := IB_RESULT_PUBLISHED, ib_stage := Stage_PUBLISHED, ib_failure := None\<rparr>) (import_batches db)\<rparr>)"

definition publish ::
    "publish_env \<Rightarrow> SnapshotManifest \<Rightarrow> string \<Rightarrow> string \<Rightarrow> 'z dataset_db_scheme \<Rightarrow> string result \<times> 'z dataset_db_scheme" where
  "publish env manifest actorId key db =
     (case publish_tx env manifest actorId key db of
        Inl e \<Rightarrow> (Inl e, db)
      | Inr (snapshotId, db1) \<Rightarrow> (Inr snapshotId, batch_published (mf_calculationRunId manifest) (mf_shopId manifest) db1))"

section \<open>Publishing by the worker\<close>

definition may_auto_publish :: "string \<Rightarrow> string \<Rightarrow> 'z dataset_db_scheme \<Rightarrow> bool" where
  "may_auto_publish actorId shopId db \<longleftrightarrow>
     (\<exists>a \<in> set (accounts db). \<exists>s \<in> set (shops db).
        ac_id a = actorId \<and> sh_id s = shopId \<and> ac_status a = Actor_ACTIVE \<and> sh_status s = ACTIVE
        \<and> ((\<exists>m \<in> set (enterprise_members db). em_enterprise_id m = sh_enterprise_id s \<and> em_account_id m = Some (ac_id a) \<and> em_status m = MS_ACTIVE)
           \<or> ac_role a = Some ADMIN))"

definition run_manifest_slices :: "string \<Rightarrow> 'z dataset_db_scheme \<Rightarrow> SnapshotSliceInput list" where
  "run_manifest_slices runId db =
     map (\<lambda>r. \<lparr> si_sliceId = cs_slice r, si_datasetVersionId = cs_version r, si_disposition = cs_disposition r \<rparr>) (slices_of_run runId db)"

definition auto_publish_key :: "string \<Rightarrow> string \<Rightarrow> string" where
  "auto_publish_key batchId runId = ''auto-import:'' @ batchId @ '':'' @ runId"

definition batch_publishing :: "string \<Rightarrow> string \<Rightarrow> 'z dataset_db_scheme \<Rightarrow> 'z dataset_db_scheme" where
  "batch_publishing batchId shopId db =
     db\<lparr>import_batches := update_rows (\<lambda>b. ib_id b = batchId \<and> ib_shop_id b = shopId)
         (\<lambda>b. b\<lparr>ib_status := IB_RESULT_PUBLISHING, ib_stage := Stage_PUBLISH, ib_failure := None\<rparr>) (import_batches db)\<rparr>"

definition autoPublishCalculation ::
    "publish_env \<Rightarrow> string \<Rightarrow> string \<Rightarrow> string \<Rightarrow> 'z dataset_db_scheme \<Rightarrow> string result \<times> 'z dataset_db_scheme" where
  "autoPublishCalculation env runId actorId batchId db =
     (case run_of runId db of
        None \<Rightarrow> (Inl (PlainError ''AUTO_PUBLISH_RUN_MISMATCH''), db)
      | Some r \<Rightarrow>
          if \<not> rm_auto (cn_manifest r) \<or> rm_source_batch (cn_manifest r) \<noteq> Some batchId
          then (Inl (PlainError ''AUTO_PUBLISH_RUN_MISMATCH''), db)
          else if \<not> may_auto_publish actorId (cn_shop r) db then (Inl (PlainError ''AUTO_PUBLISH_ACTOR_NOT_AUTHORIZED''), db)
          else publish env \<lparr> mf_calculationRunId = runId, mf_shopId = cn_shop r, mf_slices = run_manifest_slices runId db \<rparr>
            actorId (auto_publish_key batchId runId) (batch_publishing batchId (cn_shop r) db))"

definition markAutoPublishFailed :: "string \<Rightarrow> 'z dataset_db_scheme \<Rightarrow> 'z dataset_db_scheme" where
  "markAutoPublishFailed batchId db =
     db\<lparr>import_batches := update_rows (\<lambda>b. ib_id b = batchId \<and> ib_status b \<noteq> IB_RESULT_PUBLISHED)
         (\<lambda>b. b\<lparr>ib_status := IB_READY_FOR_REVIEW, ib_stage := Stage_AUTO_PUBLISH_FAILED, ib_failure := Some ''AUTO_PUBLISH_FAILED''\<rparr>)
         (import_batches db)\<rparr>"

end
