(* ===== verification/ReportBook.thy ===== *)
theory ReportBook
  imports Commits PublishOps Runs
begin

text \<open>
  The invariant of the published results: a run keeps the slices it was made of, a snapshot has exactly the slices of
  its run, which is finished, with every defect acknowledged, and a shop's pointer is at a snapshot of its own.
\<close>

section \<open>The invariant\<close>

definition warned :: "'z dataset_db_scheme \<Rightarrow> string \<Rightarrow> bool" where
  "warned db v \<longleftrightarrow> list_ex (\<lambda>q. rr_version q = v \<and> rr_warning q) (reconciliations db)"

definition disclosed_row :: "'z dataset_db_scheme \<Rightarrow> run_slice_row \<Rightarrow> bool" where
  "disclosed_row db x \<longleftrightarrow> disclosed (run_slice_view x (warned db (cs_version x)))"

definition rows_of :: "'z dataset_db_scheme \<Rightarrow> string \<Rightarrow> run_slice_row set" where
  "rows_of db i = {x \<in> set (run_slices db). cs_run x = i}"

definition version_ids :: "'z dataset_db_scheme \<Rightarrow> string set" where
  "version_ids db = dv_id ` set (versions db)"

definition run_ids :: "'z dataset_db_scheme \<Rightarrow> string set" where
  "run_ids db = cn_id ` set (runs db)"

definition catalog_inv :: "'z dataset_db_scheme \<Rightarrow> bool" where
  "catalog_inv db \<longleftrightarrow> distinct (map ds_id (slices db)) \<and> distinct (map dv_id (versions db))
     \<and> distinct (map rr_version (reconciliations db)) \<and> rr_version ` set (reconciliations db) \<subseteq> version_ids db"

text \<open>The digest of a run's manifest is stored with it; the slices of a run are those of its manifest.\<close>

definition run_ok :: "(run_manifest \<rightharpoonup> string) \<Rightarrow> 'z dataset_db_scheme \<Rightarrow> run_row \<Rightarrow> bool" where
  "run_ok sha db r \<longleftrightarrow> sha (cn_manifest r) = Some (cn_sha r)
     \<and> cs_slice ` rows_of db (cn_id r) = sv_slice ` set (rm_slices (cn_manifest r))"

definition runs_inv :: "(run_manifest \<rightharpoonup> string) \<Rightarrow> 'z dataset_db_scheme \<Rightarrow> bool" where
  "runs_inv sha db \<longleftrightarrow> distinct (map cn_id (runs db)) \<and> distinct (map (\<lambda>x. (cs_run x, cs_slice x)) (run_slices db))
     \<and> cs_version ` set (run_slices db) \<subseteq> version_ids db \<and> cs_run ` set (run_slices db) \<subseteq> run_ids db
     \<and> (\<forall>r \<in> set (runs db). run_ok sha db r)"

definition snapshot_slice :: "string \<Rightarrow> run_slice_row \<Rightarrow> snapshot_slice_row" where
  "snapshot_slice i x = \<lparr> ss_snapshot = i, ss_slice = cs_slice x, ss_version = cs_version x, ss_disposition = cs_disposition x, ss_run = cs_run x \<rparr>"

definition slices_of_snapshot :: "'z dataset_db_scheme \<Rightarrow> string \<Rightarrow> snapshot_slice_row set" where
  "slices_of_snapshot db i = {x \<in> set (snapshot_slices db). ss_snapshot x = i}"

definition snapshot_ok :: "'z dataset_db_scheme \<Rightarrow> snapshot_row \<Rightarrow> bool" where
  "snapshot_ok db s \<longleftrightarrow> (\<exists>r \<in> set (runs db). cn_id r = sn_run s \<and> cn_shop r = sn_shop s \<and> cn_status r = READY)
     \<and> slices_of_snapshot db (sn_id s) = snapshot_slice (sn_id s) ` rows_of db (sn_run s)
     \<and> (\<forall>x \<in> rows_of db (sn_run s). disclosed_row db x)"

definition snapshots_inv :: "'z dataset_db_scheme \<Rightarrow> bool" where
  "snapshots_inv db \<longleftrightarrow> distinct (map sn_id (snapshots db)) \<and> distinct (map sn_run (snapshots db))
     \<and> ss_snapshot ` set (snapshot_slices db) \<subseteq> sn_id ` set (snapshots db)
     \<and> (\<forall>s \<in> set (snapshots db). snapshot_ok db s)
     \<and> (\<forall>(shop, i) \<in> set (current_snapshots db). \<exists>s \<in> set (snapshots db). sn_id s = i \<and> sn_shop s = shop)
     \<and> distinct (map fst (current_snapshots db))"

definition report_inv :: "(run_manifest \<rightharpoonup> string) \<Rightarrow> 'z dataset_db_scheme \<Rightarrow> bool" where
  "report_inv sha db \<longleftrightarrow> catalog_inv db \<and> runs_inv sha db \<and> snapshots_inv db"

text \<open>What was published stays as it was: the snapshot, its slices and the slices of its run.\<close>

definition published_kept :: "'z dataset_db_scheme \<Rightarrow> 'z dataset_db_scheme \<Rightarrow> bool" where
  "published_kept db db' \<longleftrightarrow> (\<forall>s \<in> set (snapshots db). s \<in> set (snapshots db')
     \<and> slices_of_snapshot db' (sn_id s) = slices_of_snapshot db (sn_id s))"

definition report_keeps :: "(run_manifest \<rightharpoonup> string) \<Rightarrow> 'z dataset_db_scheme \<Rightarrow> 'z dataset_db_scheme \<Rightarrow> bool" where
  "report_keeps sha db db' \<longleftrightarrow> (report_inv sha db \<longrightarrow> report_inv sha db' \<and> published_kept db db')"

lemma published_kept_refl: "published_kept db db"
  by (simp add: published_kept_def)

lemma published_kept_trans: "published_kept a b \<Longrightarrow> published_kept b c \<Longrightarrow> published_kept a c"
  by (simp add: published_kept_def)

lemma report_keeps_refl: "report_keeps sha db db"
  by (simp add: report_keeps_def published_kept_refl)

lemma report_keeps_trans: "report_keeps sha a b \<Longrightarrow> report_keeps sha b c \<Longrightarrow> report_keeps sha a c"
  unfolding report_keeps_def using published_kept_trans by blast

section \<open>Transactions that touch none of it\<close>

definition report_part where
  "report_part db = (map ds_id (slices db), map dv_id (versions db), reconciliations db, runs db, run_slices db,
     snapshots db, snapshot_slices db, current_snapshots db)"

lemma report_part_inv: "report_part db' = report_part db \<Longrightarrow> report_inv sha db' \<longleftrightarrow> report_inv sha db"
  by (simp add: report_part_def report_inv_def catalog_inv_def runs_inv_def run_ok_def snapshots_inv_def snapshot_ok_def rows_of_def
      version_ids_def run_ids_def slices_of_snapshot_def disclosed_row_def warned_def flip: set_map)

lemma report_part_keeps: "report_part db' = report_part db \<Longrightarrow> report_keeps sha db db'"
  using report_part_inv [of db' db sha]
  by (simp add: report_keeps_def published_kept_def slices_of_snapshot_def report_part_def)

lemma report_part_simps [simp]:
  "report_part (audit r db) = report_part db"
  "report_part (outbox_insert e db) = report_part db"
  "report_part (touch_shop i a db) = report_part db"
  "report_part (set_import i g db) = report_part db"
  "report_part (db\<lparr>import_batches := bs\<rparr>) = report_part db"
  "report_part (db\<lparr>publish_keys := ks\<rparr>) = report_part db"
  "report_part (db\<lparr>acknowledgements := qs\<rparr>) = report_part db"
  "report_part (set_current i v db) = report_part db"
  by (simp_all add: report_part_def audit_def outbox_insert_def touch_shop_def set_import_def set_current_def map_update_rows)

lemma fail_batch_part [simp]: "report_part (fail_batch i p st c x db) = report_part db"
  by (simp add: fail_batch_def report_part_def)

lemma insert_acknowledgement_part: "insert_acknowledgement q db = Inr db' \<Longrightarrow> report_part db' = report_part db"
  by (auto simp: insert_acknowledgement_def split: if_splits)

lemma acknowledge_keeps: "acknowledge newId shopId issueId a reason n db = Inr (i, db') \<Longrightarrow> report_keeps sha db db'"
  by (rule report_part_keeps)
    (auto simp: acknowledge_def result_iff Let_def insert_acknowledgement_part split: option.splits prod.splits if_splits)

lemma rollback_keeps: "rollback shopId v a reason db = Inr db' \<Longrightarrow> report_keeps sha db db'"
  by (rule report_part_keeps) (auto simp: rollback_def split: option.splits)

lemma confirm_keeps: "confirmImportBatch e shopId b a k db = Inr (st, db') \<Longrightarrow> report_keeps sha db db'"
  by (rule report_part_keeps) (auto simp: confirmImportBatch_def set_batch_state_def split: option.splits if_splits)

section \<open>Transactions that add runs or versions\<close>

definition rows_same :: "'z dataset_db_scheme \<Rightarrow> 'z dataset_db_scheme \<Rightarrow> bool" where
  "rows_same db db' \<longleftrightarrow> (\<forall>r \<in> set (runs db). \<exists>r' \<in> set (runs db'). cn_id r' = cn_id r \<and> cn_shop r' = cn_shop r
     \<and> (cn_status r = READY \<longrightarrow> cn_status r' = READY) \<and> rows_of db' (cn_id r) = rows_of db (cn_id r))"

lemma snapshots_kept:
  assumes inv: "report_inv sha db" and rows: "rows_same db db'" and warn: "\<And>v. v \<in> version_ids db \<Longrightarrow> warned db' v = warned db v"
    and same: "snapshots db' = snapshots db" "snapshot_slices db' = snapshot_slices db" "current_snapshots db' = current_snapshots db"
  shows "snapshots_inv db' \<and> published_kept db db'"
proof -
  have "snapshot_ok db' s" if s: "s \<in> set (snapshots db)" for s
  proof -
    have ok: "snapshot_ok db s" using inv s by (simp add: report_inv_def snapshots_inv_def)
    then obtain r where r: "r \<in> set (runs db)" "cn_id r = sn_run s" "cn_shop r = sn_shop s" "cn_status r = READY"
      by (auto simp: snapshot_ok_def)
    obtain r' where r': "r' \<in> set (runs db')" "cn_id r' = sn_run s" "cn_shop r' = sn_shop s" "cn_status r' = READY"
        "rows_of db' (sn_run s) = rows_of db (sn_run s)"
      using rows r unfolding rows_same_def by metis
    have "cs_version x \<in> version_ids db" if "x \<in> rows_of db (sn_run s)" for x
      using inv that by (auto simp: report_inv_def runs_inv_def rows_of_def)
    then show ?thesis using ok r' warn by (auto simp: snapshot_ok_def slices_of_snapshot_def same(2) disclosed_row_def)
  qed
  then show ?thesis using inv by (simp add: report_inv_def snapshots_inv_def same published_kept_def slices_of_snapshot_def)
qed

subsection \<open>Versions\<close>

lemma materialize_version_Inr:
  assumes "materialize_version env shopId batchId actorId files v db = Inr db'"
  obtains s db1 where "upsert_slice env shopId v db = Inr (s, db1)" "cm_version_id env (ds_id s) \<notin> dv_id ` set (versions db1)"
    "map dv_id (versions db') = map dv_id (versions db1) @ [cm_version_id env (ds_id s)]"
    "map ds_id (slices db') = map ds_id (slices db1)"
    "reconciliations db' = reconciliations db1 @ new_reconciliations (cm_version_id env (ds_id s)) files (vi_rows v)"
    "runs db' = runs db1" "run_slices db' = run_slices db1" "snapshots db' = snapshots db1"
    "snapshot_slices db' = snapshot_slices db1" "current_snapshots db' = current_snapshots db1"
proof -
  obtain s db1 where u: "upsert_slice env shopId v db = Inr (s, db1)"
    using assms by (auto simp: materialize_version_def result_iff)
  show thesis
    by (rule that [OF u]) (use assms u in \<open>auto simp: materialize_version_def result_iff Let_def supersede_def map_update_rows split: if_splits\<close>)
qed

lemma upsert_slice_Inr:
  assumes "upsert_slice env shopId v db = Inr (s, db1)" and "distinct (map ds_id (slices db))"
  shows "distinct (map ds_id (slices db1))" and "versions db1 = versions db" and "reconciliations db1 = reconciliations db"
    and "runs db1 = runs db" and "run_slices db1 = run_slices db" and "snapshots db1 = snapshots db"
    and "snapshot_slices db1 = snapshot_slices db" and "current_snapshots db1 = current_snapshots db"
  using assms by (force simp: upsert_slice_def Let_def split: option.splits if_splits)+

lemma new_reconciliations_version: "q \<in> set (new_reconciliations i files rows) \<Longrightarrow> rr_version q = i"
  by (auto simp: new_reconciliations_def split: option.splits)

lemma new_reconciliations_one: "distinct (map rr_version (new_reconciliations i files rows))"
  by (auto simp: new_reconciliations_def split: option.splits)

lemma disjoint_new: "A \<subseteq> V \<Longrightarrow> B \<subseteq> {i} \<Longrightarrow> i \<notin> V \<Longrightarrow> A \<inter> B = {}"
  by blast

lemma materialize_version_keeps:
  assumes "materialize_version env shopId batchId actorId files v db = Inr db'"
  shows "report_keeps sha db db'"
  unfolding report_keeps_def
proof (intro impI)
  assume inv: "report_inv sha db"
  obtain s db1 where u: "upsert_slice env shopId v db = Inr (s, db1)" and m: "cm_version_id env (ds_id s) \<notin> dv_id ` set (versions db1)"
    "map dv_id (versions db') = map dv_id (versions db1) @ [cm_version_id env (ds_id s)]"
    "map ds_id (slices db') = map ds_id (slices db1)"
    "reconciliations db' = reconciliations db1 @ new_reconciliations (cm_version_id env (ds_id s)) files (vi_rows v)"
    "runs db' = runs db1" "run_slices db' = run_slices db1" "snapshots db' = snapshots db1"
    "snapshot_slices db' = snapshot_slices db1" "current_snapshots db' = current_snapshots db1"
    by (rule materialize_version_Inr [OF assms])
  let ?i = "cm_version_id env (ds_id s)"
  have d: "distinct (map ds_id (slices db))" using inv by (simp add: report_inv_def catalog_inv_def)
  note u = upsert_slice_Inr [OF u d]
  have ids: "version_ids db' = insert ?i (version_ids db)" and new: "?i \<notin> version_ids db"
    using arg_cong [OF m(2), of set] m(1) by (simp_all add: version_ids_def u)
  have rr: "rr_version ` set (reconciliations db) \<subseteq> version_ids db" using inv by (simp add: report_inv_def catalog_inv_def)
  have fresh: "rr_version ` set (new_reconciliations ?i files (vi_rows v)) \<subseteq> {?i}" by (auto dest: new_reconciliations_version)
  have c: "distinct (map dv_id (versions db))" "distinct (map rr_version (reconciliations db))"
    using inv by (simp_all add: report_inv_def catalog_inv_def)
  have "set (map rr_version (reconciliations db)) \<inter> set (map rr_version (new_reconciliations ?i files (vi_rows v))) = {}"
    unfolding set_map by (rule disjoint_new [OF rr fresh new])
  then have "distinct (map rr_version (reconciliations db'))"
    using c(2) new_reconciliations_one [of ?i files "vi_rows v"] by (simp add: m(4) u(3))
  moreover have "rr_version ` set (reconciliations db') \<subseteq> version_ids db'"
    using rr fresh unfolding m(4) u(3) ids by auto
  moreover have "distinct (map dv_id (versions db'))" using c(1) m(1) unfolding m(2) u(2) by simp
  ultimately have cat: "catalog_inv db'" using u(1) by (simp add: catalog_inv_def m(3))
  have rows: "rows_of db' i = rows_of db i" for i by (simp add: rows_of_def m u)
  have "runs_inv sha db'" using inv ids by (auto simp: report_inv_def runs_inv_def run_ok_def rows run_ids_def m(5,6) u(4,5))
  moreover have warn: "warned db' x = warned db x" if "x \<in> version_ids db" for x
    using that new by (auto simp: warned_def m(4) u(3) list_ex_iff dest: new_reconciliations_version)
  have "rows_same db db'" by (auto simp: rows_same_def rows m(5) u(4))
  then have "snapshots_inv db' \<and> published_kept db db'"
    by (rule snapshots_kept [OF inv _ warn]) (simp_all add: m u)
  ultimately show "report_inv sha db' \<and> published_kept db db'" using cat by (simp add: report_inv_def)
qed

lemma materialize_versions_keep:
  "materialize_versions env shopId batchId actorId files vs db = Inr db' \<Longrightarrow> report_keeps sha db db'"
proof (induction vs arbitrary: db)
  case (Cons v vs)
  then obtain db1 where "materialize_version env shopId batchId actorId files v db = Inr db1"
      and "materialize_versions env shopId batchId actorId files vs db1 = Inr db'"
    by (auto simp: result_iff)
  then show ?case using report_keeps_trans [OF materialize_version_keeps Cons.IH] by blast
qed (simp add: report_keeps_refl)

lemma commit_tx_keeps:
  assumes "commit_tx env staged closure batchId a db = Inr db'"
  shows "report_keeps sha db db'"
proof -
  obtain b where b: "batch_row batchId db = Some b" using assms by (auto simp: commit_tx_def split: option.splits)
  show ?thesis
  proof (cases "committed_already (ib_status b)")
    case True
    then show ?thesis using assms by (simp add: commit_tx_def b report_keeps_refl)
  next
    case False
    then obtain files rows excluded inputs db1 where m: "materializeImportSlices env (ib_shop_id b) batchId a files rows db = Inr (inputs, db1)"
        and p: "report_part db' = report_part db1"
      using assms by (auto simp: commit_tx_def b result_iff split: if_splits)
    from m have "report_keeps sha db db1"
      by (auto simp: materializeImportSlices_def Let_def result_iff intro: materialize_versions_keep)
    then show ?thesis by (rule report_keeps_trans [OF _ report_part_keeps [OF p]])
  qed
qed

lemma commitImportBatch_keeps:
  assumes "commitImportBatch env staged closure place batchId a db = (r, db')"
  shows "report_keeps sha db db'"
proof (cases "commit_tx env staged closure batchId a db")
  case (Inl e)
  then show ?thesis using assms
    by (intro report_part_keeps) (auto simp: commitImportBatch_def persistSafeFailure_def split: option.splits prod.splits)
next
  case (Inr db1)
  then show ?thesis using assms commit_tx_keeps by (auto simp: commitImportBatch_def)
qed

subsection \<open>Runs\<close>

lemma insert_run_Inr:
  assumes "insert_run env shopId m a db = Inr (r, db1)"
  shows "cn_sha r = ce_sha env m \<and> cn_shop r = shopId
    \<and> (r \<in> set (runs db) \<and> db1 = db \<or> cn_id r \<notin> run_ids db \<and> cn_manifest r = m \<and> cn_fee_version r = FEE_CLASSIFICATION_VERSION
      \<and> cn_status r = QUEUED \<and> db1 = db\<lparr>runs := runs db @ [r]\<rparr>)"
  using assms by (auto simp: insert_run_def run_ids_def Let_def split: option.splits if_splits dest!: first_row_SomeD)

lemma bindAcknowledgement_part: "bindAcknowledgement env runId i k db = Inr (a, db1) \<Longrightarrow> report_part db1 = report_part db"
  by (auto simp: bindAcknowledgement_def Let_def result_iff insert_acknowledgement_part split: option.splits if_splits)

lemma automatic_part: "automaticWarningAcknowledgement env input runId v db = Inr (a, db1) \<Longrightarrow> report_part db1 = report_part db"
  by (auto simp: automaticWarningAcknowledgement_def Let_def result_iff insert_acknowledgement_part split: option.splits if_splits)

lemma soft_acknowledgement_part: "soft_acknowledgement env input runId v db = Inr (a, db1) \<Longrightarrow> report_part db1 = report_part db"
  by (auto simp: soft_acknowledgement_def result_iff split: if_splits dest!: bindAcknowledgement_part automatic_part)

lemma resolve_slice_Inr:
  assumes "resolve_slice env input period runId v db = Inr (x, db1)"
  shows "report_part db1 = report_part db \<and> cs_run x = runId \<and> cs_slice x = sv_slice v \<and> cs_version x = sv_version v"
  using assms
  by (auto simp: resolve_slice_def out_of_scope_row_def Let_def result_iff split: if_splits
      dest!: bindAcknowledgement_part soft_acknowledgement_part)

lemma resolve_slices_Inr:
  "resolve_slices env input period runId vs db = Inr (rows, db1) \<Longrightarrow>
     report_part db1 = report_part db \<and> map cs_slice rows = map sv_slice vs \<and> map cs_version rows = map sv_version vs
     \<and> cs_run ` set rows \<subseteq> {runId}"
proof (induction vs arbitrary: db rows)
  case (Cons v vs)
  then obtain x db2 xs where x: "resolve_slice env input period runId v db = Inr (x, db2)"
      and xs: "resolve_slices env input period runId vs db2 = Inr (xs, db1)" and rows: "rows = x # xs"
    by (auto simp: result_iff)
  show ?case using resolve_slice_Inr [OF x] Cons.IH [OF xs] by (simp add: rows)
qed simp

definition run_key :: "run_slice_row \<Rightarrow> string \<times> string" where
  "run_key x = (cs_run x, cs_slice x)"

fun add_run_slices :: "run_slice_row list \<Rightarrow> run_slice_row list \<Rightarrow> run_slice_row list" where
  "add_run_slices [] t = t"
| "add_run_slices (r # rs) t = add_run_slices rs (if run_key r \<in> run_key ` set t then t else t @ [r])"

lemma insertCalculationRunSlices_eq:
  "insertCalculationRunSlices rs db =
     (if list_all run_slice_checks rs then Inr (db\<lparr>run_slices := add_run_slices rs (run_slices db)\<rparr>)
      else Inl (SqlError ''23514'' ''calculation_run_slice_check''))"
proof (induction rs arbitrary: db)
  case (Cons r rs)
  have "(\<exists>x \<in> set t. cs_run x = cs_run r \<and> cs_slice x = cs_slice r) \<longleftrightarrow> run_key r \<in> run_key ` set t" for t
    by (auto simp: run_key_def image_iff eq_commute [of "cs_run r"] eq_commute [of "cs_slice r"])
  then show ?case by (simp add: Cons.IH)
qed simp

lemma add_run_slices_key: "run_key ` set (add_run_slices rs t) = run_key ` set t \<union> run_key ` set rs"
  by (induction rs t rule: add_run_slices.induct) auto

lemma add_run_slices_old: "set t \<subseteq> set (add_run_slices rs t)"
  by (induction rs t rule: add_run_slices.induct) auto

lemma add_run_slices_sub: "set (add_run_slices rs t) \<subseteq> set t \<union> set rs"
  by (induction rs t rule: add_run_slices.induct) (auto split: if_splits)

lemma add_run_slices_image: "f ` set (add_run_slices rs t) \<subseteq> f ` set t \<union> f ` set rs"
  using add_run_slices_sub [of rs t] by blast

lemma add_run_slices_distinct: "distinct (map run_key t) \<Longrightarrow> distinct (map run_key (add_run_slices rs t))"
  by (induction rs t rule: add_run_slices.induct) auto

lemma add_run_slices_known: "run_key ` set rs \<subseteq> run_key ` set t \<Longrightarrow> add_run_slices rs t = t"
  by (induction rs t rule: add_run_slices.induct) auto

lemma rows_of_key: "rows_of db i = {x \<in> set (run_slices db). fst (run_key x) = i}"
  by (simp add: rows_of_def run_key_def)

lemma current_versionD: "current_version db s = Some v \<Longrightarrow> v \<in> set (versions db) \<and> ds_current s = Some (dv_id v)"
  by (auto simp: current_version_def version_of_def split: option.splits dest: first_row_SomeD)

lemma keys_of_run: "{k \<in> run_key ` A. fst k = i} = run_key ` {x \<in> A. cs_run x = i}"
  by (auto simp: run_key_def)

lemma slices_of_keys: "cs_slice ` {x \<in> A. cs_run x = i} = snd ` {k \<in> run_key ` A. fst k = i}"
  unfolding keys_of_run by (simp add: image_image run_key_def)

lemma slice_views_version: "v \<in> set (slice_views shopId db) \<Longrightarrow> sv_version v \<in> version_ids db"
  by (auto simp: slice_views_def current_slices_def view_of_def version_ids_def dest: current_versionD)

lemma new_run_keeps:
  assumes inv: "report_inv sha db" and new: "cn_id r \<notin> run_ids db" and sha: "sha (cn_manifest r) = Some (cn_sha r)"
    and rows: "map cs_slice rows = map sv_slice (rm_slices (cn_manifest r))" "cs_run ` set rows \<subseteq> {cn_id r}" "cs_version ` set rows \<subseteq> version_ids db"
    and part: "report_part db' = report_part (db\<lparr>runs := runs db @ [r], run_slices := add_run_slices rows (run_slices db)\<rparr>)"
  shows "report_inv sha db' \<and> published_kept db db'"
proof -
  let ?db = "db\<lparr>runs := runs db @ [r], run_slices := add_run_slices rows (run_slices db)\<rparr>"
  have ri: "runs_inv sha db" using inv by (simp add: report_inv_def)
  have fresh: "cs_run x \<noteq> cn_id r" if "x \<in> set (run_slices db)" for x
    using ri new that by (auto simp: runs_inv_def)
  have ks: "distinct (map run_key (run_slices db))" using ri by (simp add: runs_inv_def run_key_def [abs_def])
  have old: "rows_of ?db i = rows_of db i" if "i \<noteq> cn_id r" for i
    using add_run_slices_sub [of rows "run_slices db"] add_run_slices_old [of "run_slices db" rows] rows(2) that by (auto simp: rows_of_def)
  have "cs_slice ` rows_of ?db (cn_id r) = snd ` {k \<in> run_key ` set (add_run_slices rows (run_slices db)). fst k = cn_id r}"
    by (simp add: rows_of_def slices_of_keys)
  also have "\<dots> = snd ` {k \<in> run_key ` set rows. fst k = cn_id r}"
  proof -
    have "{k \<in> run_key ` set (run_slices db). fst k = cn_id r} = {}" using fresh by (auto simp: run_key_def)
    then have "{k \<in> run_key ` set (add_run_slices rows (run_slices db)). fst k = cn_id r} = {k \<in> run_key ` set rows. fst k = cn_id r}"
      unfolding add_run_slices_key by blast
    then show ?thesis by simp
  qed
  also have "\<dots> = cs_slice ` {x \<in> set rows. cs_run x = cn_id r}" by (simp add: slices_of_keys)
  also have "\<dots> = cs_slice ` set rows" using rows(2) by (intro arg_cong [where f = "image cs_slice"]) auto
  also have "\<dots> = sv_slice ` set (rm_slices (cn_manifest r))" using arg_cong [OF rows(1), of set] by simp
  finally have "run_ok sha ?db r" using sha by (simp add: run_ok_def)
  moreover have "run_ok sha ?db x" if "x \<in> set (runs db)" for x
  proof -
    have "cn_id x \<noteq> cn_id r" using new that by (metis imageI run_ids_def)
    moreover have "run_ok sha db x" using ri that by (simp add: runs_inv_def)
    ultimately show ?thesis using old [of "cn_id x"] unfolding run_ok_def by simp
  qed
  moreover have "cs_version ` set (add_run_slices rows (run_slices db)) \<subseteq> version_ids db"
    by (rule order_trans [OF add_run_slices_image]) (use ri rows(3) in \<open>simp add: runs_inv_def\<close>)
  moreover have "cs_run ` set (add_run_slices rows (run_slices db)) \<subseteq> insert (cn_id r) (run_ids db)"
    by (rule order_trans [OF add_run_slices_image]) (use ri rows(2) in \<open>auto simp: runs_inv_def\<close>)
  ultimately have "runs_inv sha ?db"
    using ri new add_run_slices_distinct [OF ks, of rows]
    by (simp add: runs_inv_def run_ids_def version_ids_def run_key_def [abs_def])
  moreover have "snapshots_inv ?db \<and> published_kept db ?db"
  proof (rule snapshots_kept [OF inv])
    show "rows_same db ?db" unfolding rows_same_def
    proof
      fix x assume x: "x \<in> set (runs db)"
      then have "cn_id x \<noteq> cn_id r" using new by (metis imageI run_ids_def)
      then have "rows_of ?db (cn_id x) = rows_of db (cn_id x)" by (rule old)
      then show "\<exists>r' \<in> set (runs ?db). cn_id r' = cn_id x \<and> cn_shop r' = cn_shop x \<and> (cn_status x = READY \<longrightarrow> cn_status r' = READY)
          \<and> rows_of ?db (cn_id x) = rows_of db (cn_id x)" using x by auto
    qed
  qed (simp_all add: warned_def)
  moreover have "catalog_inv ?db" using inv by (simp add: report_inv_def catalog_inv_def version_ids_def)
  ultimately have "report_inv sha ?db \<and> published_kept db ?db" by (simp add: report_inv_def)
  then show ?thesis using part report_part_keeps [OF part] published_kept_trans unfolding report_keeps_def by blast
qed

text \<open>The inputs a request asks for.\<close>

definition requested_inputs :: "calculation_env \<Rightarrow> string \<Rightarrow> calculation_input \<Rightarrow> 'z dataset_db_scheme \<Rightarrow> run_manifest option" where
  "requested_inputs env shopId input db =
     (case (calculation_period shopId (ci_source_batch input) db, price_in_force (ce_now env) shopId db) of
        (Inr period, Some price) \<Rightarrow> Some (run_inputs env shopId input period (slice_views shopId db) price db)
      | _ \<Rightarrow> None)"

lemma requestCalculation_Inr:
  assumes "requestCalculation env shopId input db = Inr (r, db')"
  obtains period price db1 db2 rows where "scope_checks (ci_auto input) (slice_views shopId db) (filter (in_scope period) (slice_views shopId db)) = Inr ()"
    "requested_inputs env shopId input db = Some (run_inputs env shopId input period (slice_views shopId db) price db)"
    "insert_run env shopId (run_inputs env shopId input period (slice_views shopId db) price db) (ci_actor input) db = Inr (r, db1)"
    "resolve_slices env input period (cn_id r) (slice_views shopId db) db1 = Inr (rows, db2)"
    "list_all run_slice_checks rows" "db' = enqueue_run (ce_event_id env) r (db2\<lparr>run_slices := add_run_slices rows (run_slices db2)\<rparr>)"
  using assms by (auto simp: requestCalculation_def requested_inputs_def result_iff Let_def insertCalculationRunSlices_eq split: option.splits if_splits)

lemma enqueue_run_part [simp]: "report_part (enqueue_run e r db) = report_part db"
  by (simp add: enqueue_run_def)

lemma request_keeps:
  assumes sha: "inj_on sha (dom sha)" and asked: "requested_inputs env shopId input db = Some m" "sha m = Some (ce_sha env m)"
    and req: "requestCalculation env shopId input db = Inr (r, db')"
  shows "report_keeps sha db db'"
  unfolding report_keeps_def
proof (intro impI)
  assume inv: "report_inv sha db"
  obtain period price db1 db2 rows where
      own: "requested_inputs env shopId input db = Some (run_inputs env shopId input period (slice_views shopId db) price db)"
    and ins: "insert_run env shopId (run_inputs env shopId input period (slice_views shopId db) price db) (ci_actor input) db = Inr (r, db1)"
    and res: "resolve_slices env input period (cn_id r) (slice_views shopId db) db1 = Inr (rows, db2)"
    and db': "db' = enqueue_run (ce_event_id env) r (db2\<lparr>run_slices := add_run_slices rows (run_slices db2)\<rparr>)"
    by (rule requestCalculation_Inr [OF req])
  let ?m = "run_inputs env shopId input period (slice_views shopId db) price db"
  have m: "rm_slices ?m = slice_views shopId db" by (simp add: run_inputs_def Let_def)
  note res = resolve_slices_Inr [OF res]
  have part2: "report_part db2 = report_part db1" using res by simp
  have part: "report_part db' = report_part (db1\<lparr>run_slices := add_run_slices rows (run_slices db1)\<rparr>)"
  proof -
    have "report_part db' = report_part (db2\<lparr>run_slices := add_run_slices rows (run_slices db2)\<rparr>)" by (simp add: db')
    then show ?thesis using part2 by (simp add: report_part_def)
  qed
  have rows: "map cs_slice rows = map sv_slice (rm_slices ?m)" "cs_run ` set rows \<subseteq> {cn_id r}" using res m by simp_all
  have "set (map cs_version rows) = set (map sv_version (slice_views shopId db))" using res by simp
  then have vs: "cs_version ` set rows \<subseteq> version_ids db" by (auto dest: slice_views_version)
  note r = insert_run_Inr [OF ins]
  show "report_inv sha db' \<and> published_kept db db'"
  proof (cases "r \<in> set (runs db) \<and> db1 = db")
    case True
    then have ok: "run_ok sha db r" using inv by (simp add: report_inv_def runs_inv_def)
    then have "sha (cn_manifest r) = sha ?m" using r own asked by (simp add: run_ok_def)
    then have "cn_manifest r = ?m" by (rule inj_onD [OF sha]) (use ok own asked in \<open>auto simp: run_ok_def dom_def\<close>)
    then have sl: "cs_slice ` rows_of db (cn_id r) = set (map cs_slice rows)" using ok rows(1) by (simp add: run_ok_def)
    have "run_key ` set rows \<subseteq> run_key ` set (run_slices db)"
    proof
      fix k assume "k \<in> run_key ` set rows"
      then obtain x where x: "x \<in> set rows" "k = (cn_id r, cs_slice x)" using rows(2) by (auto simp: run_key_def)
      then have "cs_slice x \<in> cs_slice ` rows_of db (cn_id r)" using sl by auto
      then obtain y where y: "y \<in> rows_of db (cn_id r)" "cs_slice x = cs_slice y" by auto
      then have "y \<in> set (run_slices db)" "k = run_key y" using x(2) by (simp_all add: rows_of_def run_key_def)
      then show "k \<in> run_key ` set (run_slices db)" by simp
    qed
    then have "report_part db' = report_part db" using part True by (simp add: add_run_slices_known)
    then show ?thesis using report_part_keeps inv unfolding report_keeps_def by blast
  next
    case False
    then have new: "cn_id r \<notin> run_ids db" "cn_manifest r = ?m" and db1: "db1 = db\<lparr>runs := runs db @ [r]\<rparr>" using r by auto
    show ?thesis by (rule new_run_keeps [OF inv new(1) _ _ rows(2) vs]) (use r new rows part own asked in \<open>simp_all add: db1\<close>)
  qed
qed

subsection \<open>The status of runs\<close>

lemma set_status_keeps:
  assumes "\<And>x. p x \<Longrightarrow> cn_status x = READY \<Longrightarrow> cn_status (g x) = READY"
    and "\<And>x. cn_id (g x) = cn_id x \<and> cn_shop (g x) = cn_shop x \<and> cn_manifest (g x) = cn_manifest x \<and> cn_sha (g x) = cn_sha x"
    and part: "report_part db' = report_part (db\<lparr>runs := update_rows p g (runs db)\<rparr>)"
  shows "report_keeps sha db db'"
proof -
  let ?db = "db\<lparr>runs := update_rows p g (runs db)\<rparr>"
  have ids: "map cn_id (runs ?db) = map cn_id (runs db)" using assms(2) by (simp add: map_update_rows)
  have rows: "rows_of ?db i = rows_of db i" for i by (simp add: rows_of_def)
  have "report_inv sha ?db \<and> published_kept db ?db" if inv: "report_inv sha db"
  proof -
    have "run_ok sha ?db r" if "r \<in> set (runs ?db)" for r
    proof -
      obtain x where x: "x \<in> set (runs db)" "r = (if p x then g x else x)" using \<open>r \<in> set (runs ?db)\<close> by (auto simp: in_update_rows)
      then have "cn_id r = cn_id x \<and> cn_manifest r = cn_manifest x \<and> cn_sha r = cn_sha x" using assms(2) by simp
      moreover have "run_ok sha db x" using inv x(1) by (simp add: report_inv_def runs_inv_def)
      ultimately show ?thesis by (simp add: run_ok_def rows)
    qed
    then have "\<forall>r \<in> set (runs ?db). run_ok sha ?db r" by blast
    then have "runs_inv sha ?db" using inv ids
      by (auto simp: report_inv_def runs_inv_def run_ids_def version_ids_def simp flip: set_map)
    moreover have "snapshots_inv ?db \<and> published_kept db ?db"
    proof (rule snapshots_kept [OF inv])
      show "rows_same db ?db" unfolding rows_same_def rows
      proof
        fix x assume "x \<in> set (runs db)"
        then show "\<exists>r' \<in> set (runs ?db). cn_id r' = cn_id x \<and> cn_shop r' = cn_shop x \<and> (cn_status x = READY \<longrightarrow> cn_status r' = READY)
            \<and> rows_of db (cn_id x) = rows_of db (cn_id x)"
          using assms(1,2) by (intro bexI [of _ "if p x then g x else x"]) (auto simp: in_update_rows intro!: bexI [of _ x])
      qed
    qed (simp_all add: warned_def)
    moreover have "catalog_inv ?db" using inv by (simp add: report_inv_def catalog_inv_def version_ids_def)
    ultimately show ?thesis by (simp add: report_inv_def)
  qed
  then have "report_keeps sha db ?db" by (simp add: report_keeps_def)
  then show ?thesis by (rule report_keeps_trans [OF _ report_part_keeps [OF part]])
qed

lemma enqueueAutoPublish_part [simp]: "report_part (enqueueAutoPublish e r db) = report_part db"
  by (simp add: enqueueAutoPublish_def split: option.split)

lemma calculateRun_keeps:
  assumes "calculateRun fees e lines runId db = Inr db'"
  shows "report_keeps sha db db'"
proof -
  consider "report_part db' = report_part db"
    | "report_part db' = report_part (db\<lparr>runs := update_rows (\<lambda>x. cn_id x = runId) (\<lambda>x. x\<lparr>cn_status := READY, cn_failure := None\<rparr>) (runs db)\<rparr>)"
    using assms by (auto simp: calculateRun_def result_iff split: option.splits if_splits)
  then show ?thesis
  proof cases
    case 1 then show ?thesis by (rule report_part_keeps)
  next
    case 2 show ?thesis by (rule set_status_keeps [OF _ _ 2]) simp_all
  qed
qed

lemma markCalculationRunFailed_keeps: "report_keeps sha db (markCalculationRunFailed runId code db)"
proof (cases "first_row (\<lambda>r. cn_id r = runId \<and> runnable (cn_status r)) (runs db)")
  case (Some r)
  have "report_part (markCalculationRunFailed runId code db) = report_part (db\<lparr>runs := update_rows (\<lambda>x. cn_id x = runId \<and> runnable (cn_status x))
      (\<lambda>x. x\<lparr>cn_status := FAILED, cn_failure := Some code\<rparr>) (runs db)\<rparr>)"
    unfolding markCalculationRunFailed_def Some by (simp add: report_part_def)
  then show ?thesis
    by (rule set_status_keeps [of "\<lambda>x. cn_id x = runId \<and> runnable (cn_status x)" "\<lambda>x. x\<lparr>cn_status := FAILED, cn_failure := Some code\<rparr>", rotated 2])
      (simp_all add: runnable_def)
qed (simp add: markCalculationRunFailed_def report_keeps_refl)

section \<open>Publishing\<close>

text \<open>What the publishing reads of a run.\<close>

lemma filter_one: "distinct (map f xs) \<Longrightarrow> filter (\<lambda>x. f x = a) xs = (case find (\<lambda>x. f x = a) xs of None \<Rightarrow> [] | Some x \<Rightarrow> [x])"
proof (induction xs)
  case (Cons x xs)
  show ?case
  proof (cases "f x = a")
    case True
    then have "filter (\<lambda>x. f x = a) xs = []" using Cons.prems by (auto simp: filter_empty_conv image_iff)
    then show ?thesis using True by simp
  next
    case False
    then show ?thesis using Cons by simp
  qed
qed simp

lemma joined_slices_one:
  assumes "distinct (map rr_version (reconciliations db))"
  shows "joined_slices db x = [run_slice_view x (warned db (cs_version x))]"
proof -
  have "warned db v = list_ex rr_warning (filter (\<lambda>q. rr_version q = v) (reconciliations db))" for v
    by (auto simp: warned_def list_ex_iff)
  then show ?thesis using filter_one [OF assms, of "cs_version x"] by (simp add: joined_slices_def split: option.splits)
qed

definition run_view :: "'z dataset_db_scheme \<Rightarrow> run_slice_row \<Rightarrow> CalculationRunSlice" where
  "run_view db x = run_slice_view x (warned db (cs_version x))"

lemma set_slices_of_run: "set (slices_of_run i db) = rows_of db i"
  by (simp add: slices_of_run_def rows_of_def)

lemma adapter_run:
  assumes "report_inv sha db" and "adapter_getCalculationRun i db = Inr (Some run)"
  obtains r where "run_of i db = Some r" "r \<in> set (runs db)" "cn_id r = i" "rp_id run = i" "rp_shopId run = cn_shop r" "rp_status run = cn_status r"
    "rp_slices run = map (run_view db) (slices_of_run i db)"
proof -
  have d: "distinct (map rr_version (reconciliations db))" using assms(1) by (simp add: report_inv_def catalog_inv_def)
  obtain r where r: "run_of i db = Some r" using assms(2) by (auto simp: adapter_getCalculationRun_def split: option.splits)
  then have rs: "r \<in> set (runs db)" "cn_id r = i" by (auto simp: run_of_def dest: first_row_SomeD)
  have "concat (map (joined_slices db) xs) = map (run_view db) xs" for xs
    by (induction xs) (simp_all add: joined_slices_one [OF d] run_view_def)
  then show thesis
    using that [OF r rs] assms(2) rs by (auto simp: adapter_getCalculationRun_def r Let_def split: raw_ids.splits)
qed

definition input_of :: "run_slice_row \<Rightarrow> SnapshotSliceInput" where
  "input_of x = \<lparr> si_sliceId = cs_slice x, si_datasetVersionId = cs_version x, si_disposition = cs_disposition x \<rparr>"

lemma slice_input_view: "slice_input (run_view db x) = input_of x"
  by (simp add: slice_input_def run_view_def run_slice_view_def input_of_def)

lemma current_versions_keys: "report_inv sha db \<Longrightarrow> distinct (map fst (current_versions shopId db))"
  by (simp add: report_inv_def catalog_inv_def current_versions_def comp_def distinct_map_filter)

text \<open>What the checks have established when a snapshot is made.\<close>

definition ready_to_publish :: "SnapshotManifest \<Rightarrow> 'z dataset_db_scheme \<Rightarrow> bool" where
  "ready_to_publish m db \<longleftrightarrow> (\<exists>r \<in> set (runs db). cn_id r = mf_calculationRunId m \<and> cn_shop r = mf_shopId m \<and> cn_status r = READY)
     \<and> distinct (map si_sliceId (mf_slices m)) \<and> set (mf_slices m) = input_of ` rows_of db (mf_calculationRunId m)
     \<and> (\<forall>x \<in> rows_of db (mf_calculationRunId m). disclosed_row db x)"

lemma publishable_ready:
  assumes "report_inv sha db" and "adapter_getCalculationRun (mf_calculationRunId m) db = Inr (Some run)" and "publishable run m current"
  shows "ready_to_publish m db"
proof -
  obtain r where r: "r \<in> set (runs db)" "cn_id r = mf_calculationRunId m" "rp_shopId run = cn_shop r" "rp_status run = cn_status r"
      "rp_slices run = map (run_view db) (slices_of_run (mf_calculationRunId m) db)"
    using adapter_run [OF assms(1,2)] by metis
  have "slice_input ` set (rp_slices run) = input_of ` rows_of db (mf_calculationRunId m)"
    by (simp add: r(5) image_image slice_input_view set_slices_of_run)
  moreover have "\<forall>x \<in> rows_of db (mf_calculationRunId m). disclosed_row db x"
    using assms(3) by (simp add: publishable_def r(5) set_slices_of_run disclosed_row_def run_view_def)
  ultimately show ?thesis using assms(3) r by (auto simp: ready_to_publish_def publishable_def)
qed

subsection \<open>Making the snapshot\<close>

definition snapshot_row_slice :: "string \<Rightarrow> string \<Rightarrow> SnapshotSliceInput \<Rightarrow> snapshot_slice_row" where
  "snapshot_row_slice i runId s = \<lparr> ss_snapshot = i, ss_slice = si_sliceId s, ss_version = si_datasetVersionId s,
     ss_disposition = si_disposition s, ss_run = runId \<rparr>"

lemma insert_slices_known:
  "\<forall>s \<in> set ss. \<exists>x \<in> set t. ss_snapshot x = i \<and> ss_slice x = si_sliceId s \<Longrightarrow> insert_snapshot_slices i runId ss t = t"
  by (induction ss) auto

lemma insert_slices_new:
  "distinct (map si_sliceId ss) \<Longrightarrow> \<forall>s \<in> set ss. \<not> (\<exists>x \<in> set t. ss_snapshot x = i \<and> ss_slice x = si_sliceId s) \<Longrightarrow>
     insert_snapshot_slices i runId ss t = t @ map (snapshot_row_slice i runId) ss"
proof (induction ss arbitrary: t)
  case (Cons s ss)
  let ?t = "t @ [snapshot_row_slice i runId s]"
  have "\<forall>u \<in> set ss. \<not> (\<exists>x \<in> set ?t. ss_snapshot x = i \<and> ss_slice x = si_sliceId u)"
    using Cons.prems by (auto simp: snapshot_row_slice_def)
  then have "insert_snapshot_slices i runId ss ?t = ?t @ map (snapshot_row_slice i runId) ss" using Cons by simp
  moreover have no: "\<not> (\<exists>x \<in> set t. ss_snapshot x = i \<and> ss_slice x = si_sliceId s)" using Cons.prems(2) by simp
  have "insert_snapshot_slices i runId (s # ss) t = insert_snapshot_slices i runId ss ?t"
    unfolding insert_snapshot_slices.simps(2) if_not_P [OF no] by (simp add: snapshot_row_slice_def)
  ultimately show ?case by simp
qed simp

text \<open>The snapshot \<open>i\<close> of the manifest's run is there with its slices; nothing else has changed.\<close>

definition snapshot_made :: "SnapshotManifest \<Rightarrow> string \<Rightarrow> 'z dataset_db_scheme \<Rightarrow> bool" where
  "snapshot_made m i db \<longleftrightarrow> (\<exists>s \<in> set (snapshots db). sn_id s = i \<and> sn_shop s = mf_shopId m \<and> sn_run s = mf_calculationRunId m)
     \<and> slices_of_snapshot db i = snapshot_row_slice i (mf_calculationRunId m) ` set (mf_slices m)"

lemma row_slice_input: "x \<in> rows_of db runId \<Longrightarrow> snapshot_row_slice i runId (input_of x) = snapshot_slice i x"
  by (simp add: snapshot_row_slice_def input_of_def snapshot_slice_def rows_of_def)

lemma row_slices: "snapshot_row_slice i runId ` input_of ` rows_of db runId = snapshot_slice i ` rows_of db runId"
  using row_slice_input [of _ db runId i] by (force simp: image_image)

lemma make_snapshot:
  assumes inv: "report_inv sha db" and ready: "ready_to_publish m db"
    and c: "adapter_createSnapshot newId h (mf_shopId m) (mf_calculationRunId m) a m db = Inr (i, db1)"
    and db2: "db2 = adapter_createSnapshotSlices i (mf_slices m) db1"
  shows "report_inv sha db2 \<and> published_kept db db2 \<and> snapshot_made m i db2"
proof -
  let ?run = "mf_calculationRunId m"
  have si: "snapshots_inv db" using inv by (simp add: report_inv_def)
  have slices: "set (mf_slices m) = input_of ` rows_of db ?run" using ready by (simp add: ready_to_publish_def)
  show ?thesis
  proof (cases "\<exists>s \<in> set (snapshots db). sn_run s = ?run")
    case True
    obtain s where f: "first_row (\<lambda>s. sn_run s = ?run \<and> sn_shop s = mf_shopId m) (snapshots db) = Some s" and s4: "i = sn_id s" and db1: "db1 = db"
      using c unfolding adapter_createSnapshot_def if_P [OF True] by (cases "first_row (\<lambda>s. sn_run s = ?run \<and> sn_shop s = mf_shopId m) (snapshots db)") simp_all
    have s: "s \<in> set (snapshots db)" "sn_run s = ?run" "sn_shop s = mf_shopId m" "i = sn_id s" using first_row_SomeD [OF f] s4 by simp_all
    have ok: "slices_of_snapshot db i = snapshot_slice i ` rows_of db ?run" using si s by (auto simp: snapshots_inv_def snapshot_ok_def)
    have "\<forall>u \<in> set (mf_slices m). \<exists>x \<in> set (snapshot_slices db). ss_snapshot x = i \<and> ss_slice x = si_sliceId u"
    proof
      fix u assume "u \<in> set (mf_slices m)"
      then obtain x where x: "x \<in> rows_of db ?run" "u = input_of x" using slices by auto
      then have "snapshot_slice i x \<in> slices_of_snapshot db i" using ok by simp
      then have "snapshot_slice i x \<in> set (snapshot_slices db)" by (simp add: slices_of_snapshot_def)
      then show "\<exists>y \<in> set (snapshot_slices db). ss_snapshot y = i \<and> ss_slice y = si_sliceId u"
        by (rule bexI [rotated]) (simp add: x(2) snapshot_slice_def input_of_def)
    qed
    then have "db2 = db" by (simp add: db2 db1 adapter_createSnapshotSlices_def insert_slices_known split: option.split)
    moreover have "snapshot_made m i db" using s ok unfolding snapshot_made_def slices row_slices by blast
    ultimately show ?thesis using inv by (simp add: published_kept_refl)
  next
    case False
    then obtain r where r: "run_of ?run db = Some r" and new: "\<not> (\<exists>s \<in> set (snapshots db). sn_id s = newId)" "i = newId"
        and db1: "db1 = db\<lparr>snapshots := snapshots db @ [\<lparr> sn_id = newId, sn_shop = mf_shopId m, sn_run = ?run, sn_sha = h (cn_manifest r) (mf_slices m), sn_published_by = a \<rparr>]\<rparr>"
      using c unfolding adapter_createSnapshot_def if_not_P [OF False] by (auto simp: Let_def split: option.splits if_splits)
    let ?s = "\<lparr> sn_id = newId, sn_shop = mf_shopId m, sn_run = ?run, sn_sha = h (cn_manifest r) (mf_slices m), sn_published_by = a \<rparr>"
    have "newId \<notin> sn_id ` set (snapshots db)" using new(1) by auto
    then have "newId \<notin> ss_snapshot ` set (snapshot_slices db)" using si unfolding snapshots_inv_def by blast
    then have no: "\<not> (\<exists>x \<in> set (snapshot_slices db). ss_snapshot x = newId)" by auto
    have "first_row (\<lambda>s. sn_id s = newId) (snapshots db @ [?s]) = Some ?s"
      using new(1) by (auto simp: first_row_append first_row_None_iff split: option.splits dest: first_row_SomeD)
    then have db2: "db2 = db1\<lparr>snapshot_slices := snapshot_slices db @ map (snapshot_row_slice newId ?run) (mf_slices m)\<rparr>"
      using no ready by (simp add: db2 new(2) adapter_createSnapshotSlices_def db1 ready_to_publish_def insert_slices_new)
    have of_new: "slices_of_snapshot db2 newId = snapshot_row_slice newId ?run ` set (mf_slices m)"
      using no by (auto simp: slices_of_snapshot_def db2 db1 snapshot_row_slice_def)
    have of_old: "slices_of_snapshot db2 j = slices_of_snapshot db j" if "j \<noteq> newId" for j
      using that by (auto simp: slices_of_snapshot_def db2 db1 snapshot_row_slice_def)
    have same: "rows_of db2 j = rows_of db j" "disclosed_row db2 = disclosed_row db" "runs db2 = runs db" for j
      by (simp_all add: rows_of_def disclosed_row_def [abs_def] warned_def db2 db1)
    have "snapshot_ok db2 ?s"
      using ready of_new row_slices [of newId ?run db] slices by (auto simp: snapshot_ok_def same ready_to_publish_def)
    moreover have "snapshot_ok db2 s" if "s \<in> set (snapshots db)" for s
    proof -
      have "sn_id s \<noteq> newId" using new(1) that by blast
      then show ?thesis using si that of_old [of "sn_id s"] by (simp add: snapshots_inv_def snapshot_ok_def same)
    qed
    ultimately have "snapshots_inv db2"
      using si new(1) False by (auto simp: snapshots_inv_def db2 db1 snapshot_row_slice_def)
    moreover have "catalog_inv db2 \<and> runs_inv sha db2"
      using inv by (simp add: report_inv_def catalog_inv_def runs_inv_def run_ok_def version_ids_def run_ids_def rows_of_def db2 db1)
    moreover have "published_kept db db2"
      using of_old new(1) unfolding published_kept_def by (auto simp: db2 db1)
    ultimately show ?thesis using of_new by (auto simp: report_inv_def snapshot_made_def new(2) db2 db1)
  qed
qed

subsection \<open>Moving the pointer\<close>

lemma set_pointer:
  assumes inv: "report_inv sha db" and s: "s \<in> set (snapshots db)" "sn_id s = i" "sn_shop s = shopId"
    and p: "adapter_setCurrentSnapshot shopId i db = Inr db'"
  shows "report_inv sha db' \<and> published_kept db db' \<and> map_of (current_snapshots db') shopId = Some i"
proof -
  let ?ps = "current_snapshots db"
  have si: "snapshots_inv db" using inv by (simp add: report_inv_def)
  then have d: "distinct (map fst ?ps)" and ok: "\<forall>(shop, j) \<in> set ?ps. \<exists>s \<in> set (snapshots db). sn_id s = j \<and> sn_shop s = shop"
    by (simp_all add: snapshots_inv_def)
  define qs where "qs = (if shopId \<in> fst ` set ?ps then update_rows (\<lambda>p. fst p = shopId) (\<lambda>p. (shopId, i)) ?ps else ?ps @ [(shopId, i)])"
  have db': "db' = db\<lparr>current_snapshots := qs\<rparr>" using p by (auto simp: adapter_setCurrentSnapshot_def qs_def split: if_splits)
  have "map fst (update_rows (\<lambda>p. fst p = shopId) (\<lambda>p. (shopId, i)) ?ps) = map fst ?ps" by (rule map_update_rows) simp
  then have dq: "distinct (map fst qs)" using d by (auto simp: qs_def)
  have "q = (shopId, i) \<or> q \<in> set ?ps" if "q \<in> set (update_rows (\<lambda>p. fst p = shopId) (\<lambda>p. (shopId, i)) ?ps)" for q
    using that unfolding in_update_rows by metis
  then have sub: "set qs \<subseteq> insert (shopId, i) (set ?ps)" by (auto simp: qs_def)
  have "(shopId, i) \<in> set (update_rows (\<lambda>p. fst p = shopId) (\<lambda>p. (shopId, i)) ?ps)" if "shopId \<in> fst ` set ?ps"
  proof -
    obtain p where "p \<in> set ?ps" "fst p = shopId" using \<open>shopId \<in> fst ` set ?ps\<close> by auto
    then show ?thesis unfolding in_update_rows by (intro bexI [of _ p]) simp_all
  qed
  then have "(shopId, i) \<in> set qs" unfolding qs_def by (cases "shopId \<in> fst ` set ?ps") (simp_all only: if_True if_False, simp)
  then have "map_of qs shopId = Some i" using dq by (simp add: map_of_eq_Some_iff)
  moreover have "\<exists>s \<in> set (snapshots db). sn_id s = j \<and> sn_shop s = shop" if q: "(shop, j) \<in> set qs" for shop j
  proof (cases "(shop, j) = (shopId, i)")
    case True then show ?thesis using s by blast
  next
    case False
    then have "(shop, j) \<in> set ?ps" using sub q by blast
    then show ?thesis using bspec [OF ok] by auto
  qed
  then have "\<forall>(shop, j) \<in> set qs. \<exists>s \<in> set (snapshots db). sn_id s = j \<and> sn_shop s = shop" by auto
  then have "snapshots_inv db'" using si dq
    by (simp add: db' snapshots_inv_def snapshot_ok_def slices_of_snapshot_def rows_of_def disclosed_row_def warned_def)
  moreover have "catalog_inv db' \<and> runs_inv sha db'"
    using inv by (simp add: report_inv_def catalog_inv_def runs_inv_def run_ok_def version_ids_def run_ids_def rows_of_def db')
  ultimately show ?thesis by (simp add: report_inv_def db' published_kept_def slices_of_snapshot_def)
qed

subsection \<open>The whole of it\<close>

lemma adapter_appendAudit_part [simp]: "report_part (adapter_appendAudit a act i db) = report_part db"
  by (simp add: adapter_appendAudit_def)

lemma adapter_operations [simp]:
  "getCalculationRun (TransactionAdapter newId h) = adapter_getCalculationRun"
  "getCurrentSliceVersions (TransactionAdapter newId h) = (\<lambda>shopId db. Inr (current_versions shopId db))"
  "createSnapshot (TransactionAdapter newId h) = adapter_createSnapshot newId h"
  "createSnapshotSlices (TransactionAdapter newId h) = (\<lambda>i ss db. Inr (adapter_createSnapshotSlices i ss db))"
  "setCurrentSnapshot (TransactionAdapter newId h) = adapter_setCurrentSnapshot"
  "appendAudit (TransactionAdapter newId h) = (\<lambda>a act i db. Inr (adapter_appendAudit a act i db))"
  by (simp_all add: TransactionAdapter_def)

lemma snapshot_made_part: "report_part db' = report_part db \<Longrightarrow> snapshot_made m i db' \<longleftrightarrow> snapshot_made m i db"
  by (simp add: report_part_def snapshot_made_def slices_of_snapshot_def)

lemma published_kept_part: "report_part db' = report_part db \<Longrightarrow> published_kept db0 db' \<longleftrightarrow> published_kept db0 db"
  by (simp add: report_part_def published_kept_def slices_of_snapshot_def)

text \<open>The adapter keeps the contract, and nothing that was published before it began is lost.\<close>

interpretation storing: publish_transaction "TransactionAdapter newId h" "\<lambda>db. report_inv sha db \<and> published_kept db0 db"
    "\<lambda>db. map_of (current_snapshots db)" "\<lambda>db i m. snapshot_made m i db"
  for newId h sha and db0 :: "'z dataset_db_scheme"
proof
  fix s :: "'z dataset_db_scheme" and shopId current
  assume "report_inv sha s \<and> published_kept db0 s" "getCurrentSliceVersions (TransactionAdapter newId h) shopId s = Inr current"
  then show "distinct (map fst current)" using current_versions_keys by auto
next
  fix s s1 s2 :: "'z dataset_db_scheme" and m run current a i
  assume s: "report_inv sha s \<and> published_kept db0 s"
    and "getCalculationRun (TransactionAdapter newId h) (mf_calculationRunId m) s = Inr (Some run)" "publishable run m current"
    and c: "createSnapshot (TransactionAdapter newId h) (mf_shopId m) (mf_calculationRunId m) a m s = Inr (i, s1)"
      "createSnapshotSlices (TransactionAdapter newId h) i (mf_slices m) s1 = Inr s2"
  then have "ready_to_publish m s" using publishable_ready by auto
  then have "report_inv sha s2 \<and> published_kept s s2 \<and> snapshot_made m i s2" using s c by (intro make_snapshot) auto
  then show "(report_inv sha s2 \<and> published_kept db0 s2) \<and> snapshot_made m i s2" using s published_kept_trans by blast
next
  fix s s' :: "'z dataset_db_scheme" and i m
  assume s: "report_inv sha s \<and> published_kept db0 s" and m: "snapshot_made m i s"
    and p: "setCurrentSnapshot (TransactionAdapter newId h) (mf_shopId m) i s = Inr s'"
  obtain x where "x \<in> set (snapshots s)" "sn_id x = i" "sn_shop x = mf_shopId m" using m by (auto simp: snapshot_made_def)
  then have "report_inv sha s' \<and> published_kept s s' \<and> map_of (current_snapshots s') (mf_shopId m) = Some i"
    using s p by (intro set_pointer) auto
  moreover have "snapshot_made m i s'"
    using m p by (auto simp: snapshot_made_def slices_of_snapshot_def adapter_setCurrentSnapshot_def split: if_splits)
  ultimately show "(report_inv sha s' \<and> published_kept db0 s') \<and> snapshot_made m i s' \<and> map_of (current_snapshots s') (mf_shopId m) = Some i"
    using s published_kept_trans by blast
next
  fix s s' :: "'z dataset_db_scheme" and a act j i m
  assume "appendAudit (TransactionAdapter newId h) a act j s = Inr s'"
  then have part: "report_part s' = report_part s" by auto
  then have "current_snapshots s' = current_snapshots s" by (simp add: report_part_def)
  then show "(report_inv sha s' \<and> published_kept db0 s' \<longleftrightarrow> report_inv sha s \<and> published_kept db0 s)
      \<and> (snapshot_made m i s' \<longleftrightarrow> snapshot_made m i s) \<and> map_of (current_snapshots s') = map_of (current_snapshots s)"
    using report_part_inv [OF part] snapshot_made_part [OF part] published_kept_part [OF part] by simp
qed

lemma publishSnapshot_made:
  assumes inv: "report_inv sha db" and p: "publishSnapshot (TransactionAdapter newId h) a m db = Inr (i, db')"
  shows "report_inv sha db' \<and> published_kept db db' \<and> snapshot_made m i db' \<and> map_of (current_snapshots db') (mf_shopId m) = Some i"
    and "ready_to_publish m db"
  using storing.publishes [of sha db db newId h a m i db'] inv p published_kept_refl [of db] publishable_ready [OF inv] by auto

lemma publish_tx_keeps:
  assumes "publish_tx env m a k db = Inr (i, db')"
  shows "report_keeps sha db db'"
proof -
  consider "db' = db" | db1 where "publishSnapshot (TransactionAdapter (pe_snapshot_id env) (pe_sha env)) a m db = Inr (i, db1)"
      "report_part db' = report_part db1"
    using assms by (auto simp: publish_tx_def Let_def result_iff split: option.splits if_splits)
  then show ?thesis
  proof cases
    case 1 then show ?thesis by (simp add: report_keeps_refl)
  next
    case 2
    have "report_keeps sha db db1" using publishSnapshot_made [OF _ 2(1)] unfolding report_keeps_def by blast
    then show ?thesis by (rule report_keeps_trans [OF _ report_part_keeps [OF 2(2)]])
  qed
qed

lemma batch_published_part [simp]: "report_part (batch_published r s db) = report_part db"
  by (simp add: batch_published_def split: option.split)

lemma batch_publishing_part [simp]: "report_part (batch_publishing b s db) = report_part db"
  by (simp add: batch_publishing_def)

lemma publish_keeps:
  assumes "publish env m a k db = (r, db')"
  shows "report_keeps sha db db'"
proof (cases "publish_tx env m a k db")
  case (Inl e) then show ?thesis using assms by (simp add: publish_def report_keeps_refl)
next
  case (Inr x)
  obtain i db1 where x: "x = (i, db1)" by (cases x)
  then have "report_keeps sha db db1" "report_part db' = report_part db1" using Inr assms publish_tx_keeps by (auto simp: publish_def)
  then show ?thesis using report_keeps_trans report_part_keeps by blast
qed

lemma auto_publish_keeps:
  assumes "autoPublishCalculation env runId a b db = (r, db')"
  shows "report_keeps sha db db'"
proof -
  consider "db' = db" | shopId m where "publish env m a (auto_publish_key b runId) (batch_publishing b shopId db) = (r, db')"
    using assms by (auto simp: autoPublishCalculation_def split: option.splits if_splits)
  then show ?thesis
  proof cases
    case 1 then show ?thesis by (simp add: report_keeps_refl)
  next
    case 2
    then show ?thesis using report_keeps_trans [OF report_part_keeps publish_keeps] batch_publishing_part by blast
  qed
qed

lemma markAutoPublishFailed_keeps: "report_keeps sha db (markAutoPublishFailed b db)"
  by (rule report_part_keeps) (simp add: markAutoPublishFailed_def)

end
