(* ===== verification/ReportProps.thy ===== *)
theory ReportProps
  imports ReportBook
begin

text \<open>
  What is promised of published results: what a shop shows is complete, finished and disclosed; it never changes under
  its readers; the manifest is accepted exactly when it is the shop as it is; and what a rollback forgets.
\<close>

section \<open>Runs\<close>

text \<open>
  The transactions on imports, calculations and results, in any order and with whatever identifiers, files and failures;
  \<open>elsewhere\<close> stands for the rest of the server, which does not write these tables but may change shops, accounts,
  policies and rates. \<open>sha\<close> has the digests of the inputs that are ever asked for.
\<close>

inductive report_step :: "(run_manifest \<rightharpoonup> string) \<Rightarrow> 'z dataset_db_scheme \<Rightarrow> 'z dataset_db_scheme \<Rightarrow> bool" for sha where
  commits: "commitImportBatch env staged closure place b a db = (r, db') \<Longrightarrow> report_step sha db db'"
| acknowledges: "acknowledge newId shopId v a reason n db = Inr (i, db') \<Longrightarrow> report_step sha db db'"
| rolls_back: "rollback shopId v a reason db = Inr db' \<Longrightarrow> report_step sha db db'"
| confirms: "confirmImportBatch e shopId b a k db = Inr (st, db') \<Longrightarrow> report_step sha db db'"
| requests: "requested_inputs env shopId input db = Some m \<Longrightarrow> sha m = Some (ce_sha env m) \<Longrightarrow> requestCalculation env shopId input db = Inr (r, db') \<Longrightarrow> report_step sha db db'"
| calculates: "calculateRun fees e lines i db = Inr db' \<Longrightarrow> report_step sha db db'"
| fails: "report_step sha db (markCalculationRunFailed i code db)"
| publishes: "publish env m a k db = (r, db') \<Longrightarrow> report_step sha db db'"
| auto_publishes: "autoPublishCalculation env i a b db = (r, db') \<Longrightarrow> report_step sha db db'"
| auto_fails: "report_step sha db (markAutoPublishFailed b db)"
| elsewhere: "report_part db' = report_part db \<Longrightarrow> report_step sha db db'"

lemma report_step_keeps:
  assumes "inj_on sha (dom sha)" and "report_step sha db db'"
  shows "report_keeps sha db db'"
  using assms(2)
proof cases
  case (requests env shopId input m r) then show ?thesis using request_keeps assms(1) by blast
qed (auto intro: commitImportBatch_keeps acknowledge_keeps rollback_keeps confirm_keeps calculateRun_keeps markCalculationRunFailed_keeps
    publish_keeps auto_publish_keeps markAutoPublishFailed_keeps report_part_keeps)

interpretation reporting: kept_along "report_step sha" "\<lambda>db db'. inj_on sha (dom sha) \<longrightarrow> report_keeps sha db db'" for sha
proof
  fix db db' :: "'z dataset_db_scheme"
  assume "report_step sha db db'"
  then show "inj_on sha (dom sha) \<longrightarrow> report_keeps sha db db'" using report_step_keeps by blast
qed (use report_keeps_refl report_keeps_trans in blast)+

definition no_reports :: "'z dataset_db_scheme \<Rightarrow> bool" where
  "no_reports db \<longleftrightarrow> slices db = [] \<and> versions db = [] \<and> reconciliations db = [] \<and> runs db = [] \<and> run_slices db = []
     \<and> snapshots db = [] \<and> snapshot_slices db = [] \<and> current_snapshots db = []"

lemma no_reports_inv: "no_reports db \<Longrightarrow> report_inv sha db"
  by (simp add: no_reports_def report_inv_def catalog_inv_def runs_inv_def snapshots_inv_def)

lemma reached_inv_reports: "inj_on sha (dom sha) \<Longrightarrow> no_reports db0 \<Longrightarrow> (report_step sha)\<^sup>*\<^sup>* db0 db \<Longrightarrow> report_inv sha db"
  using reporting.along_run no_reports_inv unfolding report_keeps_def by blast

section \<open>What a shop shows\<close>

text \<open>A slice that is left out as incomplete has its acknowledgement; one with a difference is marked, and acknowledged too.\<close>

definition fairly_shown :: "'z dataset_db_scheme \<Rightarrow> run_slice_row \<Rightarrow> bool" where
  "fairly_shown db x \<longleftrightarrow>
     (cs_disposition x = HARD_EXCLUDED \<longrightarrow> cs_hard_reasons x \<noteq> [] \<and> truthy (cs_hard_ack x))
     \<and> (cs_disposition x \<noteq> HARD_EXCLUDED \<longrightarrow> cs_hard_reasons x = [])
     \<and> (cs_disposition x \<in> {INCLUDED, INCLUDED_WITH_WARNING} \<longrightarrow> (cs_disposition x = INCLUDED_WITH_WARNING \<longleftrightarrow> warned db (cs_version x)))
     \<and> (cs_disposition x = INCLUDED_WITH_WARNING \<longrightarrow> truthy (cs_soft_ack x))"

lemma disclosed_shown: "disclosed_row db x \<Longrightarrow> fairly_shown db x"
  by (auto simp: disclosed_row_def disclosed_def run_slice_view_def fairly_shown_def split: SnapshotSliceDisposition.splits)

section \<open>An instance\<close>

text \<open>
  A shop with an import of two marketplaces: in one the two reports differ, in the other there are transactions only, whose
  exclusion the accountant acknowledges; then the import is calculated and published by the worker. A second import comes
  after that.
\<close>

definition sold :: "report_kind \<Rightarrow> string \<Rightarrow> int \<Rightarrow> stage_row" where
  "sold k marketplace n = \<lparr> sg_kind = k, sg_file = ''f'', sg_marketplace = marketplace, sg_month = ''2024-01'', sg_order = True,
     sg_counts = True, sg_merchant = False, sg_quantity = n \<rparr>"

definition day_policy :: "string \<Rightarrow> site_policy_row" where
  "day_policy m = \<lparr> mp_id = ''p'' @ m, mp_marketplace = m, mp_timezone = ''UTC'', mp_mode = ''D'', mp_from = 0, mp_to = None \<rparr>"

definition demo_batch :: "string \<Rightarrow> import_batch_row" where
  "demo_batch i = \<lparr> ib_id = i, ib_shop_id = ''s'', ib_upload_id = i, ib_status = IB_COMMITTING, ib_stage = Stage_COPY,
     ib_failure = None, ib_key = i, ib_created_by = ''a'', ib_start = None, ib_end = None \<rparr>"

definition demo_before :: dataset_db where
  "demo_before = \<lparr> accounts = [\<lparr> ac_id = ''a'', ac_phone = ''+12025550100'', ac_display_name = None, ac_registered = True,
       ac_status = Actor_ACTIVE, ac_role = Some ADMIN \<rparr>],
     enterprises = [], enterprise_members = [], audits = [], outbox = [], wallets = [],
     ledger = [], next_ledger = 1, orders = [], inbox = [], reversals = [], applications = [],
     price_versions = [\<lparr> pv_id = ''c'', pv_application_id = ''x'', pv_annual_price = 1, pv_effective_from = 0 \<rparr>], role_policies = [],
     shops = [\<lparr> sh_id = ''s'', sh_application_id = ''x'', sh_owner_account_id = ''a'', sh_enterprise_id = ''e'', sh_created_by = ''a'',
       sh_last_operated_by = ''a'', sh_name = ''n'', sh_normalized_name = ''n'', sh_status = ACTIVE, sh_start_date = ''2020-01-01'',
       sh_close_date = ''2030-01-01'', sh_rename_count = 0, sh_trashed_at = None, sh_purge_after = None, sh_purged_at = None \<rparr>],
     shop_terms = [], shop_charges = [], name_history = [], shop_memberships = [], idempotency_records = [],
     upload_batches = [], upload_files = [], chunk_receipts = [],
     import_batches = [demo_batch ''b'', demo_batch ''c''],
     import_files = [], import_issues = [], stored_objects = [], removals = [], original_grants = [], staging_disk = (\<lambda>_. None),
     site_policies = [day_policy ''DE'', day_policy ''US''], slices = [], versions = [], bindings = [], reconciliations = [], acknowledgements = [],
     fx_sync_run = None, fx_override_rows = [], runs = [], run_slices = [], snapshots = [], snapshot_slices = [], current_snapshots = [],
     publish_keys = [] \<rparr>"

definition demo_staged :: "(parsed_file list \<times> stage_row list \<times> nat) result" where
  "demo_staged = Inr ([\<lparr> pf_id = ''f'', pf_object = Some ''o'', pf_mapping = ''m'' \<rparr>],
     [sold SHIPMENT ''US'' 3, sold TRANSACTION ''US'' 2, sold TRANSACTION ''DE'' 1], 0)"

definition demo_commit :: "string \<Rightarrow> commit_env" where
  "demo_commit n = \<lparr> cm_now = 1, cm_slice_id = (\<lambda>k m. k), cm_version_id = (\<lambda>s. s @ n), cm_event_id = ''e'' @ n \<rparr>"

definition demo_committed :: dataset_db where
  "demo_committed = snd (commitImportBatch (demo_commit ''1'') demo_staged (Inr ()) (None, None, None) ''b'' ''a'' demo_before)"

definition or_same :: "('e + 'a \<times> 'b) \<Rightarrow> 'b \<Rightarrow> 'b" where
  "or_same r db = (case r of Inl _ \<Rightarrow> db | Inr (_, db') \<Rightarrow> db')"

definition demo_acknowledged :: dataset_db where
  "demo_acknowledged = or_same (acknowledge ''q'' ''s'' ''DE1'' ''a'' ''no shipments'' ''1'' demo_committed) demo_committed"

definition demo_env :: calculation_env where
  "demo_env = \<lparr> ce_now = 2, ce_run_id = ''r'', ce_event_id = ''e2'',
     ce_ack_id = (\<lambda>k v. (case k of HARD_INCOMPLETE \<Rightarrow> ''h'' | SOFT_RECONCILIATION_WARNING \<Rightarrow> ''w'') @ v),
     ce_sha = (\<lambda>m. ''i''), ce_policy_sha = (\<lambda>ps. ''p''), ce_fee_policy = ''f'' \<rparr>"

definition demo_input :: calculation_input where
  "demo_input = \<lparr> ci_actor = ''a'', ci_source_batch = Some ''b'', ci_auto = True \<rparr>"

definition demo_requested :: dataset_db where
  "demo_requested = or_same (requestCalculation demo_env ''s'' demo_input demo_acknowledged) demo_acknowledged"

definition demo_calculated :: dataset_db where
  "demo_calculated = (case calculateRun ''f'' ''e3'' (Inr ()) ''r'' demo_requested of Inl _ \<Rightarrow> demo_requested | Inr db \<Rightarrow> db)"

definition demo_publish :: publish_env where
  "demo_publish = \<lparr> pe_snapshot_id = ''n'', pe_sha = (\<lambda>m ss. ''d''), pe_hash = mf_shopId \<rparr>"

definition demo_published :: dataset_db where
  "demo_published = snd (autoPublishCalculation demo_publish ''r'' ''a'' ''b'' demo_calculated)"

definition demo_later :: dataset_db where
  "demo_later = snd (commitImportBatch (demo_commit ''2'') demo_staged (Inr ()) (None, None, None) ''c'' ''a'' demo_published)"

definition demo_sha :: "run_manifest \<rightharpoonup> string" where
  "demo_sha m = (if requested_inputs demo_env ''s'' demo_input demo_acknowledged = Some m then Some ''i'' else None)"

lemma demo_no_collision: "inj_on demo_sha (dom demo_sha)"
  by (auto simp: demo_sha_def inj_on_def dom_def split: if_splits)

lemma demo_begins: "no_reports demo_before"
  by (simp add: no_reports_def demo_before_def)

lemma or_same_Inr: "\<not> isl r \<Longrightarrow> r = Inr (fst (projr r), or_same r db)"
  by (cases r) (auto simp: or_same_def)

lemma demo_commit_step: "report_step demo_sha demo_before demo_committed"
  unfolding demo_committed_def by (rule report_step.commits, rule prod.collapse [symmetric])

lemma demo_acknowledges: "report_step demo_sha demo_committed demo_acknowledged"
proof -
  have "\<not> isl (acknowledge ''q'' ''s'' ''DE1'' ''a'' ''no shipments'' ''1'' demo_committed)" by code_simp
  then show ?thesis unfolding demo_acknowledged_def by (rule report_step.acknowledges [OF or_same_Inr])
qed

lemma demo_request:
  "\<exists>r m. requestCalculation demo_env ''s'' demo_input demo_acknowledged = Inr (r, demo_requested)
     \<and> requested_inputs demo_env ''s'' demo_input demo_acknowledged = Some m \<and> demo_sha m = Some (ce_sha demo_env m)"
proof -
  have "\<not> isl (requestCalculation demo_env ''s'' demo_input demo_acknowledged)" by code_simp
  from or_same_Inr [OF this, of demo_acknowledged, folded demo_requested_def]
  obtain r where r: "requestCalculation demo_env ''s'' demo_input demo_acknowledged = Inr (r, demo_requested)" by (rule that)
  obtain m where m: "requested_inputs demo_env ''s'' demo_input demo_acknowledged = Some m"
    by (rule requestCalculation_Inr [OF r])
  have "demo_sha m = Some (ce_sha demo_env m)" by (simp add: demo_sha_def m, simp add: demo_env_def)
  then show ?thesis using r m by blast
qed

lemma demo_requests: "report_step demo_sha demo_acknowledged demo_requested"
  using demo_request report_step.requests by blast

lemma demo_calculates: "report_step demo_sha demo_requested demo_calculated"
proof -
  have "\<not> isl (calculateRun ''f'' ''e3'' (Inr ()) ''r'' demo_requested)" by code_simp
  then have "calculateRun ''f'' ''e3'' (Inr ()) ''r'' demo_requested = Inr demo_calculated"
    by (auto simp: demo_calculated_def isl_def split: sum.splits)
  then show ?thesis by (rule report_step.calculates)
qed

lemma demo_publishes: "report_step demo_sha demo_calculated demo_published"
  unfolding demo_published_def by (rule report_step.auto_publishes, rule prod.collapse [symmetric])

lemma demo_goes_on: "report_step demo_sha demo_published demo_later"
  unfolding demo_later_def by (rule report_step.commits, rule prod.collapse [symmetric])

lemma demo_ready: "(report_step demo_sha)\<^sup>*\<^sup>* demo_before demo_acknowledged"
  using demo_commit_step demo_acknowledges by (meson converse_rtranclp_into_rtranclp rtranclp.rtrancl_refl)

lemma demo_reaches: "(report_step demo_sha)\<^sup>*\<^sup>* demo_before demo_published"
  using demo_ready demo_requests demo_calculates demo_publishes by (meson rtranclp.rtrancl_into_rtrancl)

lemma demo_shown: "current_snapshots demo_published = [(''s'', ''n'')]" "map sn_id (snapshots demo_published) = [''n'']"
  by code_simp+

section \<open>Shown and kept\<close>

text \<open>C2: the result a shop shows is a snapshot of a finished run of that shop, it has exactly the slices of the run, which are
  those of its inputs, and no defect of a slice is shown without its acknowledgement.\<close>

theorem published_result_complete:
  assumes "inj_on sha (dom sha)" and "no_reports db0" and "(report_step sha)\<^sup>*\<^sup>* db0 db" and "(shopId, i) \<in> set (current_snapshots db)"
  shows "\<exists>s \<in> set (snapshots db). \<exists>r \<in> set (runs db). sn_id s = i \<and> sn_shop s = shopId \<and> cn_id r = sn_run s \<and> cn_shop r = shopId
    \<and> cn_status r = READY
    \<and> slices_of_snapshot db i = snapshot_slice i ` rows_of db (cn_id r)
    \<and> cs_slice ` rows_of db (cn_id r) = sv_slice ` set (rm_slices (cn_manifest r))
    \<and> (\<forall>x \<in> rows_of db (cn_id r). fairly_shown db x)"
proof -
  have inv: "snapshots_inv db" "runs_inv sha db" using reached_inv_reports [OF assms(1-3)] by (simp_all add: report_inv_def)
  then obtain s where s: "s \<in> set (snapshots db)" "sn_id s = i" "sn_shop s = shopId" "snapshot_ok db s"
    using assms(4) unfolding snapshots_inv_def by fastforce
  then obtain r where r: "r \<in> set (runs db)" "cn_id r = sn_run s" "cn_shop r = sn_shop s" "cn_status r = READY"
    and sl: "slices_of_snapshot db i = snapshot_slice i ` rows_of db (cn_id r)" and d: "\<forall>x \<in> rows_of db (cn_id r). disclosed_row db x"
    by (auto simp: snapshot_ok_def)
  have "run_ok sha db r" using inv(2) r(1) by (simp add: runs_inv_def)
  then show ?thesis using s r sl d disclosed_shown unfolding run_ok_def by blast
qed

lemma published_result_complete_witness:
  "\<exists>s \<in> set (snapshots demo_published). \<exists>r \<in> set (runs demo_published). sn_id s = ''n'' \<and> sn_shop s = ''s'' \<and> cn_id r = sn_run s \<and> cn_shop r = ''s''
    \<and> cn_status r = READY
    \<and> slices_of_snapshot demo_published ''n'' = snapshot_slice ''n'' ` rows_of demo_published (cn_id r)"
proof -
  have "(''s'', ''n'') \<in> set (current_snapshots demo_published)" by (simp add: demo_shown)
  from published_result_complete [OF demo_no_collision demo_begins demo_reaches this]
  show ?thesis by (elim bexE conjE) (intro bexI conjI; assumption)
qed

text \<open>C3: what was published is never changed: a snapshot and its slices are there ever after.\<close>

theorem published_never_changes:
  assumes "inj_on sha (dom sha)" and "no_reports db0" and "(report_step sha)\<^sup>*\<^sup>* db0 db" and "(report_step sha)\<^sup>*\<^sup>* db db'" and "s \<in> set (snapshots db)"
  shows "s \<in> set (snapshots db') \<and> slices_of_snapshot db' (sn_id s) = slices_of_snapshot db (sn_id s)"
  using reporting.along_run [OF assms(4)] reached_inv_reports [OF assms(1-3)] assms(1,5)
  unfolding report_keeps_def published_kept_def by blast

lemma published_never_changes_witness:
  "slices_of_snapshot demo_later ''n'' = slices_of_snapshot demo_published ''n''"
proof -
  obtain s where "s \<in> set (snapshots demo_published)" "sn_id s = ''n''" using demo_shown(2) by auto
  with published_never_changes [OF demo_no_collision demo_begins demo_reaches r_into_rtranclp [of "report_step demo_sha", OF demo_goes_on], of s] show ?thesis by simp
qed

section \<open>The manifest\<close>

text \<open>C4: a manifest is accepted exactly when the run is finished, the manifest names every slice of the run once with its version and
  disposition, these are the current slices and versions of the shop, and every defect is acknowledged.\<close>

theorem manifest_accepted_exactly:
  assumes "distinct (map fst current)"
  shows "validateManifest run m current = Inr () \<longleftrightarrow>
     rp_status run = READY \<and> rp_shopId run = mf_shopId m \<and> rp_id run = mf_calculationRunId m
     \<and> distinct (map rs_sliceId (rp_slices run)) \<and> distinct (map si_sliceId (mf_slices m))
     \<and> (\<forall>s \<in> set (mf_slices m). si_datasetVersionId s \<noteq> [])
     \<and> set (mf_slices m) = slice_input ` set (rp_slices run)
     \<and> set current = (\<lambda>r. (rs_sliceId r, rs_datasetVersionId r)) ` set (rp_slices run)
     \<and> (\<forall>r \<in> set (rp_slices run). disclosed r)"
  unfolding validateManifest_iff [OF assms] publishable_def by (rule refl)

lemma manifest_accepted_exactly_witness:
  "validateManifest
     \<lparr> rp_id = ''r'', rp_shopId = ''s'', rp_status = READY, rp_fxOverrideIds = None, rp_slices =
        [\<lparr> rs_sliceId = ''a'', rs_datasetVersionId = ''v'', rs_disposition = HARD_EXCLUDED, rs_hardReasons = [''HARD_INCOMPLETE''],
           rs_softWarning = False, rs_hardExclusionAcknowledgementId = Some ''q'', rs_softWarningAcknowledgementId = None \<rparr>] \<rparr>
     \<lparr> mf_calculationRunId = ''r'', mf_shopId = ''s'', mf_slices =
        [\<lparr> si_sliceId = ''a'', si_datasetVersionId = ''v'', si_disposition = HARD_EXCLUDED \<rparr>] \<rparr>
     [(''a'', ''v'')] = Inr ()"
proof -
  have "distinct (map fst [(''a'', ''v'')])" by simp
  from manifest_accepted_exactly [OF this] show ?thesis by (simp add: slice_input_def disclosed_def truthy_def)
qed

section \<open>What a rollback forgets\<close>

lemma replaced_versions:
  assumes "materialize_version env shopId batchId actorId files v db = Inr db1" and "upsert_slice env shopId v db = Inr (s, db)"
  shows "\<exists>n. versions db1 = supersede (ds_current s) (versions db) @ [n]"
    and "\<exists>i. slices db1 = update_rows (\<lambda>x. ds_id x = ds_id s) (\<lambda>x. x\<lparr>ds_current := Some i\<rparr>) (slices db)"
  using assms by (auto simp: materialize_version_def Let_def split: if_splits)

text \<open>A superseded version in a calculation: never left out as incomplete, included whenever the period covers its month; and
  with an acknowledged exclusion its row violates the check of the table.\<close>

lemma superseded_resolved:
  assumes "resolve_slice cenv input period runId v d = Inr (x, d')" and "sv_status v = DV_SUPERSEDED"
  shows "cs_disposition x \<noteq> HARD_EXCLUDED \<and> cs_hard_reasons x = []
    \<and> (if accountingPeriodContains period (sv_month v) then cs_disposition x \<in> {INCLUDED, INCLUDED_WITH_WARNING}
       else cs_disposition x = OUT_OF_SCOPE)
    \<and> (cs_hard_ack x \<noteq> None \<longrightarrow> \<not> run_slice_checks x)"
  using assms by (auto simp: resolve_slice_def in_scope_def out_of_scope_row_def run_slice_checks_def Let_def result_iff split: if_split_asm)

text \<open>C6: completeness is kept in the status only. When an incomplete version was replaced by a later import and the slice goes back to
  it, it is current again as superseded. From then on no calculation, of whatever period and at whatever later state, leaves it out as
  incomplete: one whose period covers the month includes it, one whose period does not treats it as any other month; and
  where its exclusion had been acknowledged and that is bound to the run, the row of the calculation violates the check of the
  table, so that the calculation fails.\<close>

theorem rollback_forgets_incompleteness:
  fixes db :: "'z dataset_db_scheme"
  assumes "distinct (map dv_id (versions db))" and "distinct (map ds_id (slices db))" and "w \<in> set (versions db)" and "s \<in> set (slices db)"
    and "dv_status w = DV_INCOMPLETE" and "dv_slice_id w = ds_id s" and "ds_current s = Some (dv_id w)"
    and "upsert_slice env (ds_shop_id s) v db = Inr (s, db)" and "materialize_version env (ds_shop_id s) batchId actorId files v db = Inr db1"
    and "rollback (ds_shop_id s) (dv_id w) actorId2 reason db1 = Inr db2"
  shows "s \<in> set (slices db2) \<and> current_version db2 s = Some (w\<lparr>dv_status := DV_SUPERSEDED\<rparr>)
    \<and> (\<forall>cenv input period runId x (later :: 'z dataset_db_scheme) (d :: 'z dataset_db_scheme) d'.
         resolve_slice cenv input period runId (view_of later s (w\<lparr>dv_status := DV_SUPERSEDED\<rparr>)) d = Inr (x, d') \<longrightarrow>
         cs_disposition x \<noteq> HARD_EXCLUDED \<and> cs_hard_reasons x = []
         \<and> (if accountingPeriodContains period (ds_month s) then cs_disposition x \<in> {INCLUDED, INCLUDED_WITH_WARNING}
            else cs_disposition x = OUT_OF_SCOPE)
         \<and> (cs_hard_ack x \<noteq> None \<longrightarrow> \<not> run_slice_checks x))"
proof -
  let ?w = "w\<lparr>dv_status := DV_SUPERSEDED\<rparr>"
  obtain n i where vs: "versions db1 = supersede (Some (dv_id w)) (versions db) @ [n]"
      and ss: "slices db1 = update_rows (\<lambda>x. ds_id x = ds_id s) (\<lambda>x. x\<lparr>ds_current := Some i\<rparr>) (slices db)"
    using replaced_versions [OF assms(9,8)] assms(7) by auto
  have "first_row (\<lambda>x. dv_id x = dv_id w) (versions db) = Some w" by (rule first_row_unique [OF assms(1,3)])
  then have v1: "version_of (dv_id w) db1 = Some ?w"
    by (simp add: version_of_def vs supersede_def first_row_append first_row_update_rows)
  obtain s1 where s1: "slice_of (ds_id s) db1 = Some s1" "ds_id s1 = ds_id s"
      and db2: "db2 = touch_shop (ds_shop_id s) actorId2 (audit (rolled_back_record actorId2 (dv_id w) reason) (set_current (ds_id s) (dv_id w) db1))"
    using assms(10) by (auto simp: rollback_def version_in_shop_def v1 assms(6) slice_of_def split: option.splits if_splits dest: first_row_SomeD)
  have new: "slices db2 = update_rows (\<lambda>x. ds_id x = ds_id s) (\<lambda>x. x\<lparr>ds_current := Some (dv_id w)\<rparr>) (slices db1)" "versions db2 = versions db1"
    by (simp_all add: db2 touch_shop_def audit_def set_current_def)
  have same: "s\<lparr>ds_current := Some (dv_id w)\<rparr> = s" using assms(7) by (cases s) simp
  have "s\<lparr>ds_current := Some i\<rparr> \<in> set (slices db1)" unfolding ss in_update_rows by (rule bexI [OF _ assms(4)]) simp
  then have "s\<lparr>ds_current := Some (dv_id w)\<rparr> \<in> set (slices db2)" unfolding new in_update_rows by (rule bexI [rotated]) simp
  moreover have "current_version db2 s = Some ?w" using v1 by (simp add: current_version_def assms(7) version_of_def new)
  ultimately have "s \<in> set (slices db2) \<and> current_version db2 s = Some ?w" by (simp add: same)
  moreover have "sv_status (view_of later s ?w) = DV_SUPERSEDED" "sv_month (view_of later s ?w) = ds_month s"
    for later :: "'z dataset_db_scheme" by (simp_all add: view_of_def)
  note seen = this
  ultimately show ?thesis by (intro conjI allI impI) (blast, blast, (use superseded_resolved [OF _ seen(1)] seen(2) in metis)+)
qed

text \<open>The other marketplace of the instance is imported again, and the accountant goes back.\<close>

definition demo_again :: version_input where
  "demo_again = \<lparr> vi_marketplace = ''DE'', vi_month = ''2024-01'', vi_rows = [sold SHIPMENT ''DE'' 1], vi_retired = False \<rparr>"

definition demo_replaced :: dataset_db where
  "demo_replaced = (case materialize_version (demo_commit ''2'') ''s'' ''c'' ''a'' [] demo_again demo_committed of Inl _ \<Rightarrow> demo_committed | Inr db \<Rightarrow> db)"

definition demo_back :: dataset_db where
  "demo_back = (case rollback ''s'' ''DE1'' ''a'' ''wrong file'' demo_replaced of Inl _ \<Rightarrow> demo_replaced | Inr db \<Rightarrow> db)"

definition demo_slice :: slice_row where
  "demo_slice = \<lparr> ds_id = ''DE'', ds_shop_id = ''s'', ds_marketplace = ''DE'', ds_month = ''2024-01'', ds_current = Some ''DE1'' \<rparr>"

definition demo_incomplete :: version_row where
  "demo_incomplete = \<lparr> dv_id = ''DE1'', dv_slice_id = ''DE'', dv_batch_id = ''b'', dv_no = 1, dv_status = DV_INCOMPLETE, dv_supersedes = None,
     dv_created_at = 1 \<rparr>"

lemma rollback_forgets_incompleteness_witness:
  "current_version demo_committed demo_slice = Some demo_incomplete
     \<and> current_version demo_back demo_slice = Some (demo_incomplete\<lparr>dv_status := DV_SUPERSEDED\<rparr>)"
proof -
  have "\<not> isl (materialize_version (demo_commit ''2'') ''s'' ''c'' ''a'' [] demo_again demo_committed)"
      "\<not> isl (rollback ''s'' ''DE1'' ''a'' ''wrong file'' demo_replaced)" by code_simp+
  then have m: "materialize_version (demo_commit ''2'') (ds_shop_id demo_slice) ''c'' ''a'' [] demo_again demo_committed = Inr demo_replaced"
    and b: "rollback (ds_shop_id demo_slice) (dv_id demo_incomplete) ''a'' ''wrong file'' demo_replaced = Inr demo_back"
    by (auto simp: demo_replaced_def demo_back_def demo_slice_def demo_incomplete_def isl_def split: sum.splits)
  have d: "distinct (map dv_id (versions demo_committed))" "distinct (map ds_id (slices demo_committed))"
      "demo_incomplete \<in> set (versions demo_committed)" "demo_slice \<in> set (slices demo_committed)" by code_simp+
  have "first_row (\<lambda>s. ds_shop_id s = ''s'' \<and> ds_marketplace s = ''DE'' \<and> ds_month s = ''2024-01'') (slices demo_committed) = Some demo_slice"
    by code_simp
  then have u: "upsert_slice (demo_commit ''2'') (ds_shop_id demo_slice) demo_again demo_committed = Inr (demo_slice, demo_committed)"
    by (simp add: upsert_slice_def demo_again_def demo_slice_def)
  have "current_version demo_committed demo_slice = Some demo_incomplete" by code_simp
  moreover have "current_version demo_back demo_slice = Some (demo_incomplete\<lparr>dv_status := DV_SUPERSEDED\<rparr>)"
  proof (rule conjunct1 [OF conjunct2 [OF rollback_forgets_incompleteness [OF d _ _ _ u m b]]])
  qed (simp_all add: demo_incomplete_def demo_slice_def)
  ultimately show ?thesis by blast
qed

end
