(* ===== verification/AutoPublish.thy ===== *)
theory AutoPublish
  imports ReportProps
begin

text \<open>
  An import that is calculated is published: when nothing comes between them, the request for a calculation by the worker,
  the calculation and the publishing by the worker end with the shop showing the new result.
\<close>

section \<open>Acknowledgements of a request\<close>




















section \<open>What a request leaves alone\<close>

definition publish_context where
  "publish_context db = (fx_override_rows db, publish_keys db, accounts db, shops db, enterprise_members db, import_batches db, slices db, versions db)"

lemma publish_context_simps [simp]:
  "publish_context (outbox_insert e db) = publish_context db"
  "publish_context (db\<lparr>acknowledgements := qs\<rparr>) = publish_context db"
  "publish_context (db\<lparr>runs := rs\<rparr>) = publish_context db"
  "publish_context (db\<lparr>run_slices := xs\<rparr>) = publish_context db"
  by (simp_all add: publish_context_def outbox_insert_def)







section \<open>The run of a request\<close>







section \<open>The worker publishes it\<close>







section \<open>From the request to the result\<close>




end
