(* ===== verification/Spec2Isabelle.thy ===== *)
theory Spec2Isabelle
  imports Period DiagRef PaymentService AuthProps ShopProps StaffProps MemberProps Workflow CostProps FxProps FinancialProps ImportProps UploadReceipts UploadGrants ArchiveProps DispatchProps AutoPublish
begin

text \<open>
  A verification of the server of a revenue and cost service for marketplace sellers. The program is a
  TypeScript server over PostgreSQL: enterprises of accountants own shops, pay for their terms from a wallet,
  invite customers, upload the reports of a marketplace, and get an income statement with currencies converted,
  a cost estimate and an export. Every file named below is under \<open>src\<close>; \<open>modules\<close> stands for
  \<open>src/modules\<close>, and the migrations are \<open>migrations\<close>.

  \<^bold>\<open>How the code is modelled.\<close> A table is the list of its rows in insertion order, a row a record, an enumeration of
  the code a datatype. A transaction is a function from the state of the tables (\<open>core_db\<close>, extended by
  \<open>shop_db\<close>, \<open>upload_db\<close> and \<open>dataset_db\<close>) to an error or an answer with the new state: an error leaves the state as it was,
  which is the rollback. An operation of several transactions returns its outcome beside the state it leaves. The
  checks, unique and partial indexes, foreign keys and triggers of the migrations that a statement can run into
  are conditions of the operations and give \<open>SqlError\<close> with the code of PostgreSQL. BigInt is \<open>int\<close>,
  bytes are \<open>8 word\<close>, file attributes \<open>32 word\<close>; an \<open>AppError\<close>, an \<open>Error\<close> and an error of a library
  are constructors of \<open>err\<close>. Runs of the system are step relations, and the invariants hold in every state they
  reach; a step is one transaction, and where the code works outside a transaction (a chunk between staging and
  commit, a job that dies half way) the steps are split there, so that anything may happen in between.

  \<^bold>\<open>Theories and code.\<close>
  \<^item> Base: \<open>Prelude\<close> (errors, sequencing, query shapes; \<open>shared/errors.ts\<close>), \<open>JsText\<close> (strings of the
    language), \<open>Store\<close> (accounts, audit, outbox; \<open>modules/authorization/events.ts\<close>), \<open>Tables\<close> (partial unique
    indexes), \<open>Decimals\<close> (\<open>shared/decimal.ts\<close>), \<open>Period\<close> (\<open>shared/accounting-period.ts\<close>), \<open>DiagRef\<close>
    (\<open>shared/diagnostic-reference.ts\<close>), \<open>Phone\<close> (\<open>modules/auth/crypto.ts\<close>).
  \<^item> Rights: \<open>Authorization\<close> (\<open>modules/authorization\<close>): who may do what on a platform and on a shop, with the
    reason of a refusal; \<open>authorized_exactly\<close> compares the decision with an access matrix written out by role.
  \<^item> Money: \<open>Money\<close>, \<open>Wallet\<close> (\<open>modules/wallet\<close>), \<open>Payments\<close>, \<open>PaymentService\<close>
    (\<open>modules/payments\<close>). An order is settled and reversed by callbacks of a provider, which arrive in any order and
    repeatedly; postings go to an append-only ledger under a business key. The lemmas show that the ledger is sound,
    that each posting is booked once, and that no run creates or loses money.
  \<^item> Shops: \<open>ShopDates\<close>, \<open>Shops\<close>, \<open>ShopOps\<close>, \<open>Workflow\<close> (\<open>modules/shops\<close>,
    \<open>modules/authorization/shop-access.ts\<close>); \<open>ShopBook\<close> holds the invariant, the life of a shop and the
    agreement of charges and ledgers, \<open>ShopProps\<close> the properties.
  \<^item> People: \<open>Enterprises\<close>, \<open>Staff\<close>, \<open>StaffProps\<close> (\<open>modules/enterprises\<close>); \<open>Memberships\<close>,
    \<open>Exports\<close>, \<open>MemberBook\<close>, \<open>MemberProps\<close> (\<open>modules/memberships\<close> and the transactions of
    \<open>modules/exports/postgres.ts\<close>). A change of a customer's rights raises the epoch of the membership and revokes
    what was made under the old one; the invariant is that nothing live belongs to another epoch.
  \<^item> Accounts: \<open>Auth\<close>, \<open>AuthOps\<close>, \<open>AuthAdmin\<close> (\<open>modules/auth\<close>): codes, logins, registrations, sessions and the
    administration of accounts. \<open>AuthBook\<close> states well-formed tables and how they may evolve, \<open>AuthAccounts\<close> and
    \<open>AuthRuns\<close> show that every transaction keeps this, \<open>AuthProps\<close> holds the properties. \<open>Runs\<close> is the contract
    between a step relation and what its runs keep; the shops, payments, people and accounts interpret it.
  \<^item> Figures: \<open>Fx\<close>, \<open>FxProps\<close> (\<open>modules/fx\<close>: quotes and conversion), \<open>Fees\<close>, \<open>Financials\<close>,
    \<open>FinancialProps\<close> (\<open>modules/calculation\<close>: fee classes and the income statement), \<open>CostAccounting\<close>,
    \<open>CostProps\<close> (\<open>modules/accounting-preferences\<close>), \<open>ImportRows\<close>, \<open>ImportProps\<close>
    (\<open>modules/imports/normalize-row.ts\<close>). The lemmas compare each routine with exact rational arithmetic or with the
    quotes and rows it used.
  \<^item> Uploads: \<open>UploadPaths\<close>, \<open>Uploads\<close>, \<open>UploadOps\<close>, \<open>UploadLife\<close>, \<open>UploadFinal\<close>,
    \<open>UploadGrants\<close> (\<open>modules/uploads\<close>, the handler of \<open>upload.finalize\<close> in \<open>worker/register-handlers.ts\<close>)
    and \<open>Archive\<close> (\<open>modules/archive/zip-validator.ts\<close>, \<open>modules/uploads/file-kind.ts\<close>). \<open>Usage\<close> makes the counters
    of a batch an ordered group, \<open>UploadBook\<close> states that they are the sum of the shares of the files,
    \<open>UploadSteps\<close>, \<open>UploadRuns\<close> and \<open>UploadArchiving\<close> show that every operation keeps this, and
    \<open>UploadProps\<close>, \<open>UploadChunks\<close>, \<open>UploadReceipts\<close> and \<open>ArchiveProps\<close> hold the properties. \<open>UploadChunks\<close> refines the
    staging area to logs that are only extended at their end, \<open>UploadReceipts\<close> follows the receipts of chunks along any run.
  \<^item> Results: \<open>Datasets\<close> (the slices of a shop with their versions and acknowledgements;
    \<open>modules/imports/postgres-service.ts\<close>), \<open>Commits\<close> (\<open>modules/imports/postgres-commit.ts\<close>: an import becomes
    new versions), \<open>Calculations\<close> (\<open>requestCalculation\<close> of \<open>modules/publishing/postgres-service.ts\<close>, which fixes
    the inputs of a run, and the status of runs in \<open>modules/calculation/postgres-runner.ts\<close>), \<open>Publish\<close>
    (\<open>modules/publishing/publish.ts\<close>, over an interface) and \<open>PublishOps\<close> (that interface over the tables, publishing
    by a user and by the worker). \<open>ReportBook\<close> states what ties versions, runs and snapshots together and shows
    that every operation keeps it; \<open>ReportProps\<close> and \<open>AutoPublish\<close> hold the properties: what a shop shows is
    complete and disclosed, it never changes, an import that is calculated is published, and what a rollback forgets.
  \<^item> Outbox: \<open>Dispatch\<close>, \<open>DispatchProps\<close> (\<open>worker/outbox-dispatcher.ts\<close>). What the transactions
    above leave in the outbox is sent to the job queue by a scheduler; its loop is a state machine. The lemmas show that
    it ends with everything sent, that nothing is marked that was not sent, and that no wake is lost.

  \<^bold>\<open>Parameters.\<close> What the server takes from libraries and the system is an argument: digests and HMAC, random ids
  and tokens, \<open>gunzip\<close>, the ZIP reader, Unicode normalisation and case mapping, Temporal, decimal.js, free
  space and the object store, the job queue, the clock. Where a property needs a law of one of them, the law is a hypothesis by
  name (\<open>hash_laws\<close>, \<open>digest_laws\<close>, the laws of \<open>Decimals\<close>) and a witness gives a function that
  has it.

  \<^bold>\<open>Bounds.\<close> All recursions are structural or have a measure; no function of the model has fuel of its own, and the
  search of a conversion over days is bounded as in the code.

  \<^bold>\<open>Approximations.\<close> Strings have characters below 256 except in the figures and the uploads, where they are code
  points; ids are taken to be lower-case where the code does not compare them as text, and an id that is no UUID finds no
  row instead of ending in 22P02. A day is 24 hours, also in an interval of the database (the thirty days of the trash).
  Of \<open>payment_order\<close> the foreign key of the account is left out, and its integer column of the discount has the range of a
  bigint. The second reading of an archive (\<open>extractValidatedZip\<close>) takes the reports of the first as an argument and the
  paths of its destination as already resolved. Chinese labels and messages,
  log lines, request ids and timestamps that nothing reads are left out. Rows are locked as long as a transaction
  lasts; deadlocks and lost connections are not modelled.

  \<^bold>\<open>Not modelled.\<close> HTTP routing, the browser, connections, migrations and scripts: input and output around the
  services. The readers of workbooks and the downloads of rates: formats and network. The large aggregating queries of
  exports, the views of reports, the workflow page and the lines of a calculation, which are SQL. The encrypted store, which calls the encryption
  SDK. The analysis and replay of imports, which read the formats of the reports, and the
  catalog remain to be modelled; what they store is an input where other components read it.
\<close>

end
